(* ===== verification/Prelude.thy ===== *)
theory Prelude
  imports Main "HOL-Library.Char_ord" "HOL-Library.List_Lexorder"
begin

text \<open>
  What every component of the development shares: results with an error branch (a thrown
  exception is \<open>Inl\<close>), the state-passing form of methods that may throw after they have
  already written to their object, arrays mapped and looped over with a throwing callback,
  safe integers, and the string classes the source tests with regular expressions.

  Strings are lists of UTF-16 code units below 256.  Numbers that the source receives in a
  field of static type \<open>number\<close> or \<open>bigint\<close> are integers; the checks
  \<open>Number.isSafeInteger\<close> the source makes on them are kept.
\<close>

named_theorems result_simps \<open>inversion of successful computations\<close>
named_theorems string_class \<open>the string classes, unfolded\<close>

section \<open>Results\<close>

text \<open>Sequencing of computations that may throw, and a guard that throws.\<close>

definition bindE :: "'e + 'a \<Rightarrow> ('a \<Rightarrow> 'e + 'b) \<Rightarrow> 'e + 'b" where
  "bindE m k = (case m of Inl e \<Rightarrow> Inl e | Inr x \<Rightarrow> k x)"

definition ensure :: "bool \<Rightarrow> 'e \<Rightarrow> 'e + unit" where
  "ensure b e = (if b then Inr () else Inl e)"

lemma bindE_simps [simp]: "bindE (Inl e) k = Inl e" "bindE (Inr x) k = k x"
  by (simp_all add: bindE_def)

lemma ensure_simps [simp]: "ensure True e = Inr ()" "ensure False e = Inl e"
  by (simp_all add: ensure_def)

lemma bindE_Inr [result_simps]: "bindE m k = Inr y \<longleftrightarrow> (\<exists>x. m = Inr x \<and> k x = Inr y)"
  by (cases m) auto

lemma bindE_Inl: "bindE m k = Inl e \<longleftrightarrow> m = Inl e \<or> (\<exists>x. m = Inr x \<and> k x = Inl e)"
  by (cases m) auto

lemma ensure_Inr [result_simps]: "ensure b e = Inr u \<longleftrightarrow> b"
  by (simp add: ensure_def)

lemma ensure_Inl: "ensure b e = Inl e' \<longleftrightarrow> \<not> b \<and> e' = e"
  by (auto simp: ensure_def)

text \<open>\<open>Array.prototype.map\<close> and a \<open>for\<close> loop whose body may throw: the first failing
  element decides.\<close>

fun mapE :: "('a \<Rightarrow> 'e + 'b) \<Rightarrow> 'a list \<Rightarrow> 'e + 'b list" where
  "mapE f [] = Inr []"
| "mapE f (x # xs) = bindE (f x) (\<lambda>y. bindE (mapE f xs) (\<lambda>ys. Inr (y # ys)))"

fun forE :: "('a \<Rightarrow> 'e + unit) \<Rightarrow> 'a list \<Rightarrow> 'e + unit" where
  "forE f [] = Inr ()"
| "forE f (x # xs) = bindE (f x) (\<lambda>_. forE f xs)"

lemma mapE_Inr [result_simps]:
  "mapE f xs = Inr ys \<longleftrightarrow> list_all2 (\<lambda>x y. f x = Inr y) xs ys"
  by (induction xs arbitrary: ys) (auto simp: result_simps list_all2_Cons1)

lemma mapE_length: "mapE f xs = Inr ys \<Longrightarrow> length ys = length xs"
  by (auto simp: result_simps dest: list_all2_lengthD)

lemma mapE_in_range: "mapE f xs = Inr ys \<Longrightarrow> y \<in> set ys \<Longrightarrow> \<exists>x\<in>set xs. f x = Inr y"
  by (fastforce simp: mapE_Inr list_all2_conv_all_nth in_set_conv_nth)

lemma mapE_inverse:
  "(\<And>x. x \<in> set xs \<Longrightarrow> f (g x) = Inr x) \<Longrightarrow> mapE f (map g xs) = Inr xs"
  by (induction xs) auto

lemma forE_Inr [result_simps]: "forE f xs = Inr u \<longleftrightarrow> (\<forall>x\<in>set xs. f x = Inr ())"
  by (induction xs) (auto simp: result_simps)

section \<open>Methods that write to their object and may throw\<close>

text \<open>
  A method takes the object's state and returns its result or error together with the state
  it leaves.  In JavaScript the writes made before a \<open>throw\<close> stay.
\<close>

type_synonym ('s, 'e, 'a) meth = "'s \<Rightarrow> ('e + 'a) \<times> 's"

definition bindS :: "('s, 'e, 'a) meth \<Rightarrow> ('a \<Rightarrow> ('s, 'e, 'b) meth) \<Rightarrow> ('s, 'e, 'b) meth" where
  "bindS m k s = (case m s of (Inl e, t) \<Rightarrow> (Inl e, t) | (Inr x, t) \<Rightarrow> k x t)"

definition returnS :: "'a \<Rightarrow> ('s, 'e, 'a) meth" where
  "returnS x s = (Inr x, s)"

definition throwS :: "'e \<Rightarrow> ('s, 'e, 'a) meth" where
  "throwS e s = (Inl e, s)"

definition pureS :: "'e + 'a \<Rightarrow> ('s, 'e, 'a) meth" where
  "pureS r s = (r, s)"

definition catchS :: "('s, 'e, 'a) meth \<Rightarrow> ('e \<Rightarrow> ('s, 'f, 'a) meth) \<Rightarrow> ('s, 'f, 'a) meth" where
  "catchS m h s = (case m s of (Inl e, t) \<Rightarrow> h e t | (Inr x, t) \<Rightarrow> (Inr x, t))"

lemma meth_simps [simp]:
  "returnS x s = (Inr x, s)" "throwS e s = (Inl e, s)" "pureS r s = (r, s)"
  by (simp_all add: returnS_def throwS_def pureS_def)

lemma bindS_Inr [result_simps]:
  "bindS m k s = (Inr y, u) \<longleftrightarrow> (\<exists>x t. m s = (Inr x, t) \<and> k x t = (Inr y, u))"
  by (auto simp: bindS_def split: prod.splits sum.splits)

lemma bindS_elim:
  assumes "bindS m k s = (Inr y, u)"
  obtains x t where "m s = (Inr x, t)" "k x t = (Inr y, u)"
  using assms by (auto simp: bindS_Inr)

lemma bindS_step:
  "m s = (Inr x, t) \<Longrightarrow> bindS m k s = k x t"
  "m s = (Inl e, t) \<Longrightarrow> bindS m k s = (Inl e, t)"
  by (simp_all add: bindS_def)

text \<open>A relation between the state before and after that every part of a method keeps.\<close>

definition keepsS :: "('s \<Rightarrow> 's \<Rightarrow> bool) \<Rightarrow> ('s, 'e, 'a) meth \<Rightarrow> bool" where
  "keepsS R m \<longleftrightarrow> (\<forall>s. R s (snd (m s)))"

lemma keepsS_D: "keepsS R m \<Longrightarrow> m s = (r, t) \<Longrightarrow> R s t"
  unfolding keepsS_def by (metis snd_conv)

lemma keepsS_basic:
  assumes "reflp R"
  shows "keepsS R (returnS x)" "keepsS R (throwS e)" "keepsS R (pureS r)"
  using assms by (simp_all add: keepsS_def reflpD)

lemma keepsS_bind:
  assumes "transp R" "keepsS R m" "\<And>x. keepsS R (k x)"
  shows "keepsS R (bindS m k)"
  using assms unfolding keepsS_def bindS_def
  by (auto split: prod.splits sum.splits) (metis snd_conv transpD)+

lemma keepsS_catch:
  assumes "transp R" "keepsS R m" "\<And>e. keepsS R (h e)"
  shows "keepsS R (catchS m h)"
  using assms unfolding keepsS_def catchS_def
  by (auto split: prod.splits sum.splits) (metis snd_conv transpD)+

text \<open>
  What holds after a method, by whether it returned or threw, when \<open>P\<close> holds before it.
\<close>

definition tripleS ::
  "('s \<Rightarrow> bool) \<Rightarrow> ('s, 'e, 'a) meth \<Rightarrow> ('a \<Rightarrow> 's \<Rightarrow> bool) \<Rightarrow> ('e \<Rightarrow> 's \<Rightarrow> bool) \<Rightarrow> bool" where
  "tripleS P m Q E \<longleftrightarrow> (\<forall>s. P s \<longrightarrow> (case m s of (Inr x, t) \<Rightarrow> Q x t | (Inl e, t) \<Rightarrow> E e t))"

lemma tripleS_D:
  assumes "tripleS P m Q E" "P s"
  shows "case m s of (Inr x, t) \<Rightarrow> Q x t | (Inl e, t) \<Rightarrow> E e t"
  using assms by (simp add: tripleS_def)

lemma tripleS_Inr: "tripleS P m Q E \<Longrightarrow> P s \<Longrightarrow> m s = (Inr x, t) \<Longrightarrow> Q x t"
  by (drule (1) tripleS_D) simp

lemma tripleS_Inl: "tripleS P m Q E \<Longrightarrow> P s \<Longrightarrow> m s = (Inl e, t) \<Longrightarrow> E e t"
  by (drule (1) tripleS_D) simp

lemma tripleS_any: "tripleS P m (\<lambda>_. Q) (\<lambda>_. Q) \<Longrightarrow> P s \<Longrightarrow> Q (snd (m s))"
  by (drule (1) tripleS_D) (simp split: prod.splits sum.splits)

lemma tripleS_I:
  assumes "\<And>s x t. P s \<Longrightarrow> m s = (Inr x, t) \<Longrightarrow> Q x t" "\<And>s e t. P s \<Longrightarrow> m s = (Inl e, t) \<Longrightarrow> E e t"
  shows "tripleS P m Q E"
  using assms unfolding tripleS_def by (simp split: prod.split sum.split)

lemma tripleS_bind:
  assumes "tripleS P m R E" "\<And>x. tripleS (R x) (k x) Q E"
  shows "tripleS P (bindS m k) Q E"
  unfolding tripleS_def
proof (intro allI impI)
  fix s assume "P s"
  then show "case bindS m k s of (Inr x, t) \<Rightarrow> Q x t | (Inl e, t) \<Rightarrow> E e t"
    using tripleS_D [OF assms(1), of s] tripleS_D [OF assms(2)]
    by (cases "m s"; cases "fst (m s)") (simp_all add: bindS_def)
qed

lemma tripleS_catch:
  assumes "tripleS P m Q F" "\<And>e. tripleS (F e) (h e) Q E"
  shows "tripleS P (catchS m h) Q E"
  unfolding tripleS_def
proof (intro allI impI)
  fix s assume "P s"
  then show "case catchS m h s of (Inr x, t) \<Rightarrow> Q x t | (Inl e, t) \<Rightarrow> E e t"
    using tripleS_D [OF assms(1), of s] tripleS_D [OF assms(2)]
    by (cases "m s"; cases "fst (m s)") (simp_all add: catchS_def)
qed

lemma tripleS_basic:
  "(\<And>s. P s \<Longrightarrow> Q x s) \<Longrightarrow> tripleS P (returnS x) Q E"
  "(\<And>s. P s \<Longrightarrow> E e s) \<Longrightarrow> tripleS P (throwS e) Q E"
  "(\<And>s x. P s \<Longrightarrow> r = Inr x \<Longrightarrow> Q x s) \<Longrightarrow> (\<And>s e. P s \<Longrightarrow> r = Inl e \<Longrightarrow> E e s) \<Longrightarrow> tripleS P (pureS r) Q E"
  by (auto simp: tripleS_def split: sum.splits)

lemma tripleS_weaken:
  assumes "tripleS P' m Q' E'" "\<And>s. P s \<Longrightarrow> P' s"
    "\<And>x s. Q' x s \<Longrightarrow> Q x s" "\<And>e s. E' e s \<Longrightarrow> E e s"
  shows "tripleS P m Q E"
  by (rule tripleS_I; drule assms(2)) (blast intro: assms(3,4) tripleS_Inr [OF assms(1)] tripleS_Inl [OF assms(1)])+

lemma tripleS_keeps:
  assumes "keepsS R m" "\<And>s t. I s \<Longrightarrow> R s t \<Longrightarrow> I t"
  shows "tripleS I m (\<lambda>_. I) (\<lambda>_. I)"
  by (rule tripleS_I) (blast intro: assms(2) keepsS_D [OF assms(1)])+

section \<open>Numbers\<close>

text \<open>\<open>Number.isSafeInteger\<close>: at most \<open>2^53 - 1\<close> in absolute value.\<close>

definition safe_integer :: "int \<Rightarrow> bool" where
  "safe_integer n \<longleftrightarrow> \<bar>n\<bar> \<le> 9007199254740991"

lemma safe_integer_mono: "safe_integer n \<Longrightarrow> 0 \<le> m \<Longrightarrow> m \<le> n \<Longrightarrow> safe_integer m"
  by (simp add: safe_integer_def)

section \<open>Strings\<close>

abbreviation NUL :: char where "NUL \<equiv> CHR 0x00"

definition is_digit :: "char \<Rightarrow> bool" where
  "is_digit c \<longleftrightarrow> c \<in> set ''0123456789''"

definition is_lower_alpha :: "char \<Rightarrow> bool" where
  "is_lower_alpha c \<longleftrightarrow> c \<in> set ''abcdefghijklmnopqrstuvwxyz''"

definition is_upper_alpha :: "char \<Rightarrow> bool" where
  "is_upper_alpha c \<longleftrightarrow> c \<in> set ''ABCDEFGHIJKLMNOPQRSTUVWXYZ''"

definition is_alnum :: "char \<Rightarrow> bool" where
  "is_alnum c \<longleftrightarrow> is_digit c \<or> is_lower_alpha c \<or> is_upper_alpha c"

definition is_hex :: "char \<Rightarrow> bool" where
  "is_hex c \<longleftrightarrow> c \<in> set ''0123456789abcdefABCDEF''"

definition is_control :: "char \<Rightarrow> bool" where
  "is_control c \<longleftrightarrow> (of_char c :: nat) \<le> 31 \<or> (of_char c :: nat) = 127"

lemmas char_classes = is_digit_def is_lower_alpha_def is_upper_alpha_def is_alnum_def is_hex_def

lemma NUL_class [simp]:
  "\<not> is_digit NUL" "\<not> is_lower_alpha NUL" "\<not> is_upper_alpha NUL" "\<not> is_alnum NUL"
  "\<not> is_hex NUL" "is_control NUL"
  by (simp_all add: char_classes is_control_def)

text \<open>\<open>String.prototype.toLowerCase\<close> on code units below 256.\<close>

definition lower_char :: "char \<Rightarrow> char" where
  "lower_char c = (let n = (of_char c :: nat) in
     if (65 \<le> n \<and> n \<le> 90) \<or> (192 \<le> n \<and> n \<le> 222 \<and> n \<noteq> 215)
     then char_of (n + 32) else c)"

definition to_lower :: "string \<Rightarrow> string" where
  "to_lower s = map lower_char s"

lemma lower_char_idem [simp]: "lower_char (lower_char c) = lower_char c"
  by (auto simp: lower_char_def Let_def of_char_of)

lemma to_lower_idem [simp]: "to_lower (to_lower s) = to_lower s"
  by (simp add: to_lower_def comp_def)

lemma length_to_lower [simp]: "length (to_lower s) = length s"
  by (simp add: to_lower_def)

lemma to_lower_Nil_iff [simp]: "to_lower s = [] \<longleftrightarrow> s = []"
  by (simp add: to_lower_def)

lemma to_lower_append [simp]: "to_lower (s @ t) = to_lower s @ to_lower t"
  by (simp add: to_lower_def)

text \<open>\<open>/^0x[0-9a-fA-F]{n}$/\<close> and \<open>/^0x0+$/\<close>.\<close>

fun hex_string :: "nat \<Rightarrow> string \<Rightarrow> bool" where
  "hex_string n (a # b # r) \<longleftrightarrow> a = CHR ''0'' \<and> b = CHR ''x'' \<and> length r = n \<and> list_all is_hex r"
| "hex_string n _ \<longleftrightarrow> False"

fun zero_hex :: "string \<Rightarrow> bool" where
  "zero_hex (a # b # r) \<longleftrightarrow>
     a = CHR ''0'' \<and> b = CHR ''x'' \<and> r \<noteq> [] \<and> list_all (\<lambda>c. c = CHR ''0'') r"
| "zero_hex _ \<longleftrightarrow> False"

text \<open>Account addresses: 20 bytes in hex, not all zero.\<close>

definition valid_address :: "string \<Rightarrow> bool" where
  "valid_address s \<longleftrightarrow> hex_string 40 s \<and> \<not> zero_hex s"

text \<open>\<open>/^[A-Za-z0-9._:-]{1,128}$/u\<close> and \<open>/^[A-Za-z0-9][A-Za-z0-9._:-]{0,127}$/u\<close>.\<close>

definition id_char :: "char \<Rightarrow> bool" where
  "id_char c \<longleftrightarrow> is_alnum c \<or> c \<in> set ''._:-''"

definition plain_id :: "string \<Rightarrow> bool" where
  "plain_id s \<longleftrightarrow> 1 \<le> length s \<and> length s \<le> 128 \<and> list_all id_char s"

definition opaque_id :: "string \<Rightarrow> bool" where
  "opaque_id s \<longleftrightarrow> (case s of [] \<Rightarrow> False
     | c # r \<Rightarrow> is_alnum c \<and> length r \<le> 127 \<and> list_all id_char r)"

lemma NUL_id_char [simp]: "\<not> id_char NUL"
  by (simp add: id_char_def)

lemma plain_id_no_NUL: "plain_id s \<Longrightarrow> NUL \<notin> set s"
  by (auto simp: plain_id_def list_all_iff)

lemma opaque_id_no_NUL: "opaque_id s \<Longrightarrow> NUL \<notin> set s"
  by (auto simp: opaque_id_def list_all_iff split: list.splits)

lemma opaque_id_plain_id: "opaque_id s \<Longrightarrow> plain_id s"
  by (auto simp: opaque_id_def plain_id_def id_char_def split: list.splits)

lemma opaque_id_nonempty: "opaque_id s \<Longrightarrow> s \<noteq> []"
  by (auto simp: opaque_id_def)

text \<open>\<open>/^sha256:[0-9a-f]{64}$/u\<close>.\<close>

definition sha256_digest :: "string \<Rightarrow> bool" where
  "sha256_digest s \<longleftrightarrow> take 7 s = ''sha256:'' \<and> length s = 71
     \<and> list_all (\<lambda>c. c \<in> set ''0123456789abcdef'') (drop 7 s)"

lemmas [string_class] = valid_address_def plain_id_def opaque_id_def id_char_def
  char_classes sha256_digest_def

text \<open>White space and \<open>String.prototype.trim\<close>, for code units below 256.\<close>

definition is_space :: "char \<Rightarrow> bool" where
  "is_space c \<longleftrightarrow> (of_char c :: nat) \<in> {9, 10, 11, 12, 13, 32, 160}"

definition trim :: "string \<Rightarrow> string" where
  "trim s = rev (dropWhile is_space (rev (dropWhile is_space s)))"

section \<open>Separated strings\<close>

text \<open>
  The source joins identifiers with a separator to build map keys and digest inputs.  Two
  joins are equal only if their parts are, when the separator is not in the first part.
\<close>

lemma append_sep_inject:
  assumes "c \<notin> set a" "c \<notin> set b" "a @ c # x = b @ c # y"
  shows "a = b \<and> x = y"
  using assms
proof (induction a arbitrary: b)
  case Nil
  then show ?case by (cases b) auto
next
  case (Cons d a)
  then show ?case by (cases b) auto
qed

definition nul_join :: "string \<Rightarrow> string \<Rightarrow> string" where
  "nul_join a b = a @ NUL # b"

lemma nul_join_inject:
  "NUL \<notin> set a \<Longrightarrow> NUL \<notin> set a' \<Longrightarrow> nul_join a b = nul_join a' b' \<longleftrightarrow> a = a' \<and> b = b'"
  unfolding nul_join_def using append_sep_inject by metis

text \<open>\<open>String.prototype.split\<close> with one character.\<close>

fun split_on :: "char \<Rightarrow> string \<Rightarrow> string list" where
  "split_on d [] = [[]]"
| "split_on d (c # s) = (if c = d then [] # split_on d s else (case split_on d s of [] \<Rightarrow> [[c]] | w # ws \<Rightarrow> (c # w) # ws))"

section \<open>Decimal numerals\<close>

text \<open>\<open>String(n)\<close> and \<open>JSON.stringify(n)\<close> of an integer below \<open>2^53\<close>.\<close>

definition digit_char :: "nat \<Rightarrow> char" where
  "digit_char d = ''0123456789'' ! d"

fun show_nat :: "nat \<Rightarrow> string" where
  "show_nat n = (if n < 10 then [digit_char n]
     else show_nat (n div 10) @ [digit_char (n mod 10)])"

declare show_nat.simps [simp del]

definition show_int :: "int \<Rightarrow> string" where
  "show_int n = (if n < 0 then CHR ''-'' # show_nat (nat (- n)) else show_nat (nat n))"

definition digit_value :: "char \<Rightarrow> nat" where
  "digit_value c = of_char c - 48"

definition read_nat :: "string \<Rightarrow> nat" where
  "read_nat s = foldl (\<lambda>n c. 10 * n + digit_value c) 0 s"

lemma less_10_cases: "d < 10 \<Longrightarrow> d \<in> {0, 1, 2, 3, 4, 5, 6, 7, 8, 9 :: nat}"
  by auto

lemma digit_value_char: "d < 10 \<Longrightarrow> digit_value (digit_char d) = d"
  by (drule less_10_cases) (auto simp: digit_value_def digit_char_def nth_Cons')

lemma digit_char_is_digit: "d < 10 \<Longrightarrow> is_digit (digit_char d)"
  unfolding digit_char_def is_digit_def by (rule nth_mem) simp

lemma read_show_nat: "read_nat (show_nat n) = n"
proof (induction n rule: show_nat.induct)
  case (1 n)
  show ?case
  proof (cases "n < 10")
    case True
    then show ?thesis by (subst show_nat.simps) (simp add: read_nat_def digit_value_char)
  next
    case False
    with 1 have "read_nat (show_nat (n div 10)) = n div 10" by simp
    with False show ?thesis
      by (subst show_nat.simps) (simp add: read_nat_def digit_value_char)
  qed
qed

lemma show_nat_inject [simp]: "show_nat m = show_nat n \<longleftrightarrow> m = n"
  by (metis read_show_nat)

lemma show_nat_digits: "list_all is_digit (show_nat n)"
proof (induction n rule: show_nat.induct)
  case (1 n)
  show ?case
  proof (cases "n < 10")
    case True
    then have "show_nat n = [digit_char n]" by (subst show_nat.simps) simp
    with True show ?thesis by (simp add: digit_char_is_digit)
  next
    case False
    then have "show_nat n = show_nat (n div 10) @ [digit_char (n mod 10)]"
      by (subst show_nat.simps) simp
    with "1.IH" [OF False] show ?thesis by (simp add: digit_char_is_digit)
  qed
qed

lemma show_nat_nonempty [simp]: "show_nat n \<noteq> []"
  by (subst show_nat.simps) simp

lemma show_nat_no_minus: "CHR ''-'' \<notin> set (show_nat n)"
proof -
  have "\<not> is_digit (CHR ''-'')" by (simp add: is_digit_def)
  with show_nat_digits [of n] show ?thesis by (auto simp: list_all_iff)
qed

lemma show_int_inject [simp]: "show_int m = show_int n \<longleftrightarrow> m = n"
proof
  have minus: "CHR ''-'' # s \<noteq> show_nat k" for s k
    using show_nat_no_minus [of k] by (metis list.set_intros(1))
  assume "show_int m = show_int n"
  then show "m = n"
    using minus minus [symmetric] by (auto simp: show_int_def split: if_splits)
qed simp

lemma show_int_chars: "c \<in> set (show_int n) \<Longrightarrow> is_digit c \<or> c = CHR ''-''"
  using show_nat_digits by (auto simp: show_int_def list_all_iff split: if_splits)

text \<open>Addresses, digests and numerals never contain the bar that joins them.\<close>

lemma lower_char_bar:
  assumes "lower_char c = CHR ''|''"
  shows "c = CHR ''|''"
proof (rule ccontr)
  let ?n = "of_char c :: nat"
  assume "c \<noteq> CHR ''|''"
  with assms have n: "(65 \<le> ?n \<and> ?n \<le> 90) \<or> (192 \<le> ?n \<and> ?n \<le> 222)" and c: "CHR ''|'' = char_of (?n + 32)"
    by (auto simp: lower_char_def Let_def split: if_splits)
  from c have "(of_char (CHR ''|'') :: nat) = of_char (char_of (?n + 32) :: char)" by simp
  with n show False by (auto simp: of_char_of)
qed

lemma hex_string_no_bar: "hex_string n s \<Longrightarrow> CHR ''|'' \<notin> set (to_lower s)"
proof (cases "(n, s)" rule: hex_string.cases)
  case (1 n' x y r)
  assume h: "hex_string n s"
  have "\<not> is_hex (CHR ''|'')" by (simp add: is_hex_def)
  then have "CHR ''|'' \<notin> set s" using 1 h by (auto simp: list_all_iff)
  then show ?thesis by (auto simp: to_lower_def dest: lower_char_bar [OF sym])
qed auto

lemma show_int_no_bar: "CHR ''|'' \<notin> set (show_int n)"
proof
  assume "CHR ''|'' \<in> set (show_int n)"
  from show_int_chars [OF this] show False by (simp add: is_digit_def)
qed

section \<open>Ordered maps\<close>

text \<open>
  A JavaScript \<open>Map\<close> whose iteration order matters is an association list: \<open>set\<close> on a
  present key keeps its place, on a new key appends.
\<close>

fun omap_set :: "'k \<Rightarrow> 'v \<Rightarrow> ('k \<times> 'v) list \<Rightarrow> ('k \<times> 'v) list" where
  "omap_set k v [] = [(k, v)]"
| "omap_set k v ((k', v') # m) = (if k = k' then (k, v) # m else (k', v') # omap_set k v m)"

definition omap_delete :: "'k \<Rightarrow> ('k \<times> 'v) list \<Rightarrow> ('k \<times> 'v) list" where
  "omap_delete k m = filter (\<lambda>p. fst p \<noteq> k) m"

lemma map_of_omap_set [simp]: "map_of (omap_set k v m) = (map_of m)(k \<mapsto> v)"
  by (induction k v m rule: omap_set.induct) auto

lemma map_of_omap_delete [simp]: "map_of (omap_delete k m) = (map_of m)(k := None)"
  by (induction m) (auto simp: omap_delete_def)

lemma keys_omap_set: "fst ` set (omap_set k v m) = insert k (fst ` set m)"
  by (induction k v m rule: omap_set.induct) auto

lemma distinct_omap_set: "distinct (map fst m) \<Longrightarrow> distinct (map fst (omap_set k v m))"
proof (induction k v m rule: omap_set.induct)
  case (2 k v k' v' m)
  then show ?case using keys_omap_set [of k v m] by (auto simp flip: set_map)
qed simp

lemma distinct_omap_delete: "distinct (map fst m) \<Longrightarrow> distinct (map fst (omap_delete k m))"
  by (simp add: omap_delete_def distinct_map_filter)

end
