(* ===== verification/Interfaces.thy ===== *)
theory Interfaces
  imports Prelude
begin

text \<open>
  Interfaces that several components of the platform share, as locales.

  \<open>one_shot\<close>: an object hands out something at most once per identifier (a request
  reservation, a one-time code, a challenge, a grant, an access token).  The runs of the
  object are arbitrary sequences of its operations, so they cover every interleaving of the
  callers between their atomic calls.

  \<open>scoped_key\<close>: the key under which an object stores what belongs to a scope (a tenant, a
  registry scope).  What is written in one scope is not read in another.
\<close>

section \<open>Consumption at most once\<close>

text \<open>
  A run: every successful use adds its identifier to the list, newest first; a refused use
  and any other operation of the object add nothing.
\<close>

inductive one_shot_run ::
  "('i \<Rightarrow> 's \<Rightarrow> bool \<times> 's) \<Rightarrow> ('i \<Rightarrow> 'k) \<Rightarrow> ('s \<Rightarrow> 's \<Rightarrow> bool) \<Rightarrow> 's \<Rightarrow> 'k list \<Rightarrow> 's \<Rightarrow> bool"
  for attempt :: "'i \<Rightarrow> 's \<Rightarrow> bool \<times> 's" and id_of :: "'i \<Rightarrow> 'k" and other :: "'s \<Rightarrow> 's \<Rightarrow> bool"
where
  run_start: "one_shot_run attempt id_of other s [] s"
| run_used: "one_shot_run attempt id_of other s ks t \<Longrightarrow> attempt i t = (True, u)
    \<Longrightarrow> one_shot_run attempt id_of other s (id_of i # ks) u"
| run_refused: "one_shot_run attempt id_of other s ks t \<Longrightarrow> attempt i t = (False, u)
    \<Longrightarrow> one_shot_run attempt id_of other s ks u"
| run_other: "one_shot_run attempt id_of other s ks t \<Longrightarrow> other t u
    \<Longrightarrow> one_shot_run attempt id_of other s ks u"

locale one_shot =
  fixes attempt :: "'i \<Rightarrow> 's \<Rightarrow> bool \<times> 's"
    and id_of :: "'i \<Rightarrow> 'k"
    and other :: "'s \<Rightarrow> 's \<Rightarrow> bool"
    and spent :: "'s \<Rightarrow> 'k set"
  assumes used_fresh: "attempt i s = (True, t) \<Longrightarrow> id_of i \<notin> spent s"
    and used_spent: "attempt i s = (True, t) \<Longrightarrow> id_of i \<in> spent t"
    and attempt_mono: "attempt i s = (b, t) \<Longrightarrow> spent s \<subseteq> spent t"
    and other_mono: "other s t \<Longrightarrow> spent s \<subseteq> spent t"
begin

lemma run_spent:
  "one_shot_run attempt id_of other s ks t \<Longrightarrow> spent s \<subseteq> spent t \<and> set ks \<subseteq> spent t"
proof (induction rule: one_shot_run.induct)
  case (run_used s ks t i u)
  then show ?case using attempt_mono [OF run_used.hyps(2)] used_spent [OF run_used.hyps(2)] by auto
next
  case (run_refused s ks t i u)
  then show ?case using attempt_mono [OF run_refused.hyps(2)] by auto
next
  case (run_other s ks t u)
  then show ?case using other_mono [OF run_other.hyps(2)] by auto
qed simp

lemma run_fresh: "one_shot_run attempt id_of other s ks t \<Longrightarrow> set ks \<inter> spent s = {}"
proof (induction rule: one_shot_run.induct)
  case (run_used s ks t i u)
  then show ?case using used_fresh [OF run_used.hyps(2)] run_spent [OF run_used.hyps(1)] by auto
qed simp_all

lemma run_distinct: "one_shot_run attempt id_of other s ks t \<Longrightarrow> distinct ks"
proof (induction rule: one_shot_run.induct)
  case (run_used s ks t i u)
  then show ?case using used_fresh [OF run_used.hyps(2)] run_spent [OF run_used.hyps(1)] by auto
qed simp_all

lemma spent_refused: "id_of i \<in> spent s \<Longrightarrow> \<not> fst (attempt i s)"
  using used_fresh by (metis prod.collapse)

end

section \<open>Scoped keys\<close>

locale scoped_key =
  fixes skey :: "'scope \<Rightarrow> 'n \<Rightarrow> string"
    and valid_scope :: "'scope \<Rightarrow> bool"
  assumes skey_inject: "valid_scope a \<Longrightarrow> valid_scope b \<Longrightarrow> skey a x = skey b y \<Longrightarrow> a = b \<and> x = y"
begin

lemma skey_eq: "valid_scope a \<Longrightarrow> valid_scope b \<Longrightarrow> skey a x = skey b y \<longleftrightarrow> a = b \<and> x = y"
  using skey_inject by blast

text \<open>A write in one scope leaves every entry of another scope as it was.\<close>

lemma other_scope_unchanged:
  "valid_scope a \<Longrightarrow> valid_scope b \<Longrightarrow> a \<noteq> b \<Longrightarrow> (m(skey a x \<mapsto> v)) (skey b y) = m (skey b y)"
  using skey_inject by auto

lemma same_scope_read:
  "valid_scope a \<Longrightarrow> (m(skey a x \<mapsto> v)) (skey a y) = (if x = y then Some v else m (skey a y))"
  using skey_inject by auto

end

text \<open>Joining with a NUL is such a key for every scope that cannot contain a NUL.\<close>

interpretation nul_key: scoped_key nul_join plain_id
  by unfold_locales (auto simp: nul_join_inject plain_id_no_NUL)

end
