(* ===== verification/JsValue.thy ===== *)
theory JsValue
  imports Prelude
begin

text \<open>
  JavaScript values that a program receives as \<open>unknown\<close>, and the part of JSON the code
  writes itself.  A number is an integer, \<open>JFraction\<close> (a finite number that is no integer) or
  \<open>JNonFinite\<close> (an infinity or NaN); an object lists its own enumerable properties in the order of \<open>Object.keys\<close>; \<open>JOther\<close> is
  anything else (a function, a symbol, a bigint).
\<close>

datatype jsval =
    JUndef | JNull | JBool bool | JInt int | JFraction | JNonFinite | JStr string
  | JArr "jsval list" | JObj "(string \<times> jsval) list" | JOther

section \<open>Reading a value\<close>

definition own :: "(string \<times> jsval) list \<Rightarrow> string \<Rightarrow> bool" where
  "own ob k \<longleftrightarrow> k \<in> set (map fst ob)"

definition jfield :: "(string \<times> jsval) list \<Rightarrow> string \<Rightarrow> jsval" where
  "jfield ob k = (case map_of ob k of None \<Rightarrow> JUndef | Some v \<Rightarrow> v)"

text \<open>Every required key is there, and no key that is neither required nor optional.\<close>

definition exact_keys :: "(string \<times> jsval) list \<Rightarrow> string list \<Rightarrow> string list \<Rightarrow> bool" where
  "exact_keys ob required optional \<longleftrightarrow> list_all (own ob) required
     \<and> list_all (\<lambda>k. k \<in> set (required @ optional)) (map fst ob)"

text \<open>A number that the code only compares; \<open>Not_a_number\<close> is every value that is no integer.\<close>

datatype js_number = Whole int | Not_a_number

text \<open>Every comparison with NaN is false.\<close>

fun js_less :: "js_number \<Rightarrow> js_number \<Rightarrow> bool" where
  "js_less (Whole m) (Whole n) = (m < n)"
| "js_less _ _ = False"

fun js_le :: "js_number \<Rightarrow> js_number \<Rightarrow> bool" where
  "js_le (Whole m) (Whole n) = (m \<le> n)"
| "js_le _ _ = False"

lemma js_nan [simp]:
  "\<not> js_less x Not_a_number" "\<not> js_less Not_a_number x" "\<not> js_le x Not_a_number" "\<not> js_le Not_a_number x"
  by (cases x; simp)+

text \<open>
  \<open>String\<close> of a value inside a list of one element, and \<open>Number\<close> of a value.  \<open>Number\<close> of a
  text is a parameter; the texts of objects, functions and longer lists are no numerals.
\<close>

fun element_text :: "jsval \<Rightarrow> string option" where
  "element_text JUndef = Some ''''"
| "element_text JNull = Some ''''"
| "element_text (JBool b) = Some (if b then ''true'' else ''false'')"
| "element_text (JInt n) = Some (show_int n)"
| "element_text (JStr s) = Some s"
| "element_text (JArr []) = Some ''''"
| "element_text (JArr [v]) = element_text v"
| "element_text _ = None"

definition to_number :: "(string \<Rightarrow> js_number) \<Rightarrow> jsval \<Rightarrow> js_number" where
  "to_number number v = (case v of JInt n \<Rightarrow> Whole n | JNull \<Rightarrow> Whole 0 | JBool b \<Rightarrow> Whole (if b then 1 else 0)
     | JStr s \<Rightarrow> number s
     | JArr vs \<Rightarrow> (case element_text (JArr vs) of None \<Rightarrow> Not_a_number | Some t \<Rightarrow> number t)
     | _ \<Rightarrow> Not_a_number)"

lemma own_simps [simp]: "\<not> own [] k" "own ((k', v) # ob) k \<longleftrightarrow> k = k' \<or> own ob k"
  by (auto simp: own_def)

lemma jfield_simps [simp]: "jfield [] k = JUndef" "jfield ((k', v) # ob) k = (if k = k' then v else jfield ob k)"
  by (auto simp: jfield_def)

lemma mapE_cong [fundef_cong]:
  "xs = ys \<Longrightarrow> (\<And>x. x \<in> set ys \<Longrightarrow> f x = g x) \<Longrightarrow> mapE f xs = mapE g ys"
  by (induction ys arbitrary: xs) auto

section \<open>JSON text\<close>

definition hex_digit :: "nat \<Rightarrow> char" where
  "hex_digit n = ''0123456789abcdef'' ! n"

text \<open>\<open>JSON.stringify\<close> of one code unit.\<close>

definition json_char :: "char \<Rightarrow> string" where
  "json_char c = (let n = (of_char c :: nat) in
     if n = 34 then [CHR 0x5C, CHR 0x22] else if n = 92 then [CHR 0x5C, CHR 0x5C]
     else if n = 8 then [CHR 0x5C, CHR ''b''] else if n = 9 then [CHR 0x5C, CHR ''t'']
     else if n = 10 then [CHR 0x5C, CHR ''n''] else if n = 12 then [CHR 0x5C, CHR ''f'']
     else if n = 13 then [CHR 0x5C, CHR ''r'']
     else if n < 32 then [CHR 0x5C, CHR ''u'', CHR ''0'', CHR ''0'', hex_digit (n div 16), hex_digit (n mod 16)]
     else [c])"

definition json_string :: "string \<Rightarrow> string" where
  "json_string s = CHR 0x22 # concat (map json_char s) @ [CHR 0x22]"

text \<open>\<open>Array.prototype.join(',')\<close>.\<close>

fun comma_join :: "string list \<Rightarrow> string" where
  "comma_join [] = []"
| "comma_join [x] = x"
| "comma_join (x # y # xs) = x @ CHR '','' # comma_join (y # xs)"

text \<open>\<open>sort\<close> by key; the keys of an object are distinct.\<close>

definition sort_entries :: "(string \<times> 'a) list \<Rightarrow> (string \<times> 'a) list" where
  "sort_entries es = sort_key fst es"

lemma set_sort_entries [simp]: "set (sort_entries es) = set es"
  by (simp add: sort_entries_def)

lemma map_of_sort_entries:
  assumes "distinct (map fst es)"
  shows "map_of (sort_entries es) = map_of es"
proof -
  have "distinct (map fst (sort_entries es))"
    using assms by (simp add: sort_entries_def distinct_map)
  then show ?thesis using assms by (intro map_of_eqI) auto
qed

end
