(* ===== verification/SignerPolicy.thy ===== *)
theory SignerPolicy
  imports Interfaces JsValue
begin

text \<open>
  Operational signer policies (\<open>packages/signer-policy/src/index.ts\<close>): the policy and
  session records, \<open>validatePolicy\<close>, the in-memory store with its atomic
  replay/frequency reservation, and the evaluator \<open>SignerPolicyEvaluator.authorize\<close>
  over any store that follows the port.  Every read of the port may fail; a failure ends in
  a denial.  The stores' methods are atomic, so concurrent evaluations are interleavings of
  store operations.  The times of a session and of step-up evidence are compared without any
  check that they are numbers, so they may be NaN.
\<close>

section \<open>Data\<close>

datatype operation = Transaction | Rotate_owner | Export | Migrate | Install_module

datatype session_kind = Session_email | Session_oidc | Session_passkey | Session_recovery

datatype policy_reason =
    ALLOW | INVALID_REQUEST | SESSION_NOT_FOUND | SESSION_REVOKED | SESSION_EXPIRED
  | POLICY_NOT_FOUND | POLICY_REVOKED | POLICY_NOT_YET_ACTIVE | POLICY_EXPIRED
  | SIGNER_MISMATCH | CHAIN_NOT_ALLOWED | CONTRACT_NOT_ALLOWED | SELECTOR_NOT_ALLOWED
  | OPERATION_NOT_ALLOWED | ASSET_NOT_ALLOWED | AMOUNT_EXCEEDED | FREQUENCY_EXCEEDED
  | STEP_UP_REQUIRED | STEP_UP_INVALID | REPLAY_DETECTED | POLICY_STORE_UNAVAILABLE

datatype policy_exn = Signer_policy_error policy_reason | Other_error

record asset_policy =
  ap_kind :: string
  ap_address :: "string option"
  ap_maxAmount :: "int option"

record contract_policy =
  cp_target :: string
  cp_selectors :: "string list"
  cp_operations :: "operation list option"
  cp_assets :: "asset_policy list option"
  cp_maxValue :: "int option"
  cp_maxAmount :: "int option"

record frequency_policy =
  fp_windowSeconds :: int
  fp_maxOperations :: int
  fp_maxTotalAmount :: "int option"

record signer_policy =
  sp_schemaVersion :: int
  sp_policyId :: string
  sp_signerId :: string
  sp_chainId :: int
  sp_validFrom :: int
  sp_expiresAt :: int
  sp_contracts :: "contract_policy list"
  sp_allowedOperations :: "operation list option"
  sp_frequency :: "frequency_policy option"

record signer_session =
  ss_sessionId :: string
  ss_signerId :: string
  ss_policyId :: string
  ss_kind :: session_kind
  ss_issuedAt :: js_number
  ss_expiresAt :: js_number

record step_up_evidence =
  su_method :: string
  su_challengeId :: string
  su_requestId :: string
  su_verifiedAt :: js_number
  su_expiresAt :: js_number

record requested_asset =
  ra_kind :: string
  ra_address :: "string option"

record auth_request =
  rq_requestId :: string
  rq_sessionId :: string
  rq_signerId :: string
  rq_policyId :: string
  rq_chainId :: int
  rq_target :: string
  rq_selector :: string
  rq_operation :: operation
  rq_value :: "int option"
  rq_asset :: "requested_asset option"
  rq_amount :: "int option"
  rq_at :: int
  rq_stepUp :: "step_up_evidence option"

record policy_decision =
  pd_allowed :: bool
  pd_reasonCode :: policy_reason

definition deny :: "policy_reason \<Rightarrow> policy_decision" where
  "deny r = \<lparr>pd_allowed = False, pd_reasonCode = r\<rparr>"

section \<open>Field checks\<close>

definition address :: "string \<Rightarrow> policy_reason + string" where
  "address v = (if \<not> hex_string 40 v \<or> zero_hex v then Inl INVALID_REQUEST else Inr (to_lower v))"

definition selector :: "string \<Rightarrow> policy_reason + string" where
  "selector v = (if \<not> hex_string 8 v then Inl INVALID_REQUEST else Inr (to_lower v))"

definition positive :: "int option \<Rightarrow> policy_reason + int" where
  "positive v = (case v of None \<Rightarrow> Inr 0 | Some n \<Rightarrow> if n < 0 then Inl INVALID_REQUEST else Inr n)"

definition timestamp :: "int \<Rightarrow> policy_reason + int" where
  "timestamp v = (if \<not> safe_integer v \<or> v < 0 then Inl INVALID_REQUEST else Inr v)"

section \<open>Validation of a policy\<close>

text \<open>The loop over a contract's selectors; \<open>seen\<close> collects \<open>target:selector\<close>.\<close>

fun check_selectors :: "string \<Rightarrow> string list \<Rightarrow> string list \<Rightarrow> policy_reason + string list" where
  "check_selectors target [] seen = Inr seen"
| "check_selectors target (v # vs) seen =
     bindE (selector v) (\<lambda>key.
       let k = to_lower target @ '':'' @ key in
       if k \<in> set seen then Inl INVALID_REQUEST
       else check_selectors target vs (k # seen))"

definition check_asset :: "asset_policy \<Rightarrow> policy_reason + unit" where
  "check_asset a =
     (if ap_kind a \<notin> {''native'', ''erc20'', ''erc721'', ''erc1155''} then Inl INVALID_REQUEST
      else if ap_kind a = ''native'' \<and> ap_address a \<noteq> None then Inl INVALID_REQUEST
      else if ap_kind a \<noteq> ''native'' \<and> ap_address a = None then Inl INVALID_REQUEST
      else bindE (case ap_address a of
                    None \<Rightarrow> Inr ''''
                  | Some s \<Rightarrow> if s = '''' then Inr '''' else address s) (\<lambda>_.
           bindE (positive (ap_maxAmount a)) (\<lambda>_. Inr ())))"

definition check_contract :: "contract_policy \<Rightarrow> string list \<Rightarrow> policy_reason + string list" where
  "check_contract c seen =
     bindE (address (cp_target c)) (\<lambda>_.
     if cp_selectors c = [] then Inl INVALID_REQUEST else
     bindE (check_selectors (cp_target c) (cp_selectors c) seen) (\<lambda>seen'.
     bindE (forE (\<lambda>n. bindE (positive n) (\<lambda>_. Inr ())) [cp_maxAmount c, cp_maxValue c]) (\<lambda>_.
     bindE (forE check_asset (case cp_assets c of None \<Rightarrow> [] | Some as \<Rightarrow> as)) (\<lambda>_.
     Inr seen'))))"

fun check_contracts :: "contract_policy list \<Rightarrow> string list \<Rightarrow> policy_reason + unit" where
  "check_contracts [] seen = Inr ()"
| "check_contracts (c # cs) seen = bindE (check_contract c seen) (check_contracts cs)"

definition check_frequency :: "frequency_policy option \<Rightarrow> policy_reason + unit" where
  "check_frequency f = (case f of None \<Rightarrow> Inr ()
     | Some w \<Rightarrow>
         if \<not> safe_integer (fp_windowSeconds w) \<or> fp_windowSeconds w < 1
            \<or> \<not> safe_integer (fp_maxOperations w) \<or> fp_maxOperations w < 1
         then Inl INVALID_REQUEST
         else bindE (positive (fp_maxTotalAmount w)) (\<lambda>_. Inr ()))"

definition validatePolicy :: "signer_policy \<Rightarrow> policy_reason + unit" where
  "validatePolicy p =
     (if sp_schemaVersion p \<noteq> 1 \<or> sp_policyId p = '''' \<or> sp_signerId p = ''''
         \<or> \<not> safe_integer (sp_chainId p) \<or> sp_chainId p < 1
         \<or> \<not> safe_integer (sp_validFrom p) \<or> \<not> safe_integer (sp_expiresAt p)
         \<or> sp_expiresAt p \<le> sp_validFrom p \<or> sp_contracts p = []
      then Inl INVALID_REQUEST
      else bindE (check_contracts (sp_contracts p) []) (\<lambda>_. check_frequency (sp_frequency p)))"

section \<open>The store\<close>

datatype reserve_result = Reserved | Replay | Frequency

record reserve_input =
  ri_requestId :: string
  ri_frequencyKey :: string
  ri_at :: int
  ri_amount :: int
  ri_frequency :: "frequency_policy option"

record usage =
  us_requestIds :: "string set"
  us_count :: int
  us_amount :: int
  us_windowStart :: int

record policy_store =
  st_policies :: "string \<rightharpoonup> signer_policy"
  st_sessions :: "string \<rightharpoonup> signer_session"
  st_revokedPolicies :: "string set"
  st_revokedSessions :: "string set"
  st_usage :: "string \<rightharpoonup> usage"
  st_consumedRequestIds :: "string set"

definition empty_policy_store :: policy_store where
  "empty_policy_store = \<lparr>st_policies = Map.empty, st_sessions = Map.empty,
     st_revokedPolicies = {}, st_revokedSessions = {}, st_usage = Map.empty,
     st_consumedRequestIds = {}\<rparr>"

definition putPolicy :: "signer_policy \<Rightarrow> (policy_store, policy_exn, unit) meth" where
  "putPolicy p s = (case validatePolicy p of
      Inl r \<Rightarrow> (Inl (Signer_policy_error r), s)
    | Inr _ \<Rightarrow> (Inr (), s\<lparr>st_policies := (st_policies s)(sp_policyId p \<mapsto> p)\<rparr>))"

definition putSession :: "signer_session \<Rightarrow> (policy_store, policy_exn, unit) meth" where
  "putSession x s =
     (if ss_sessionId x = '''' \<or> ss_signerId x = '''' \<or> ss_policyId x = ''''
         \<or> js_le (ss_expiresAt x) (ss_issuedAt x)
      then (Inl (Signer_policy_error INVALID_REQUEST), s)
      else (Inr (), s\<lparr>st_sessions := (st_sessions s)(ss_sessionId x \<mapsto> x)\<rparr>))"

definition revokePolicy :: "string \<Rightarrow> (policy_store, policy_exn, unit) meth" where
  "revokePolicy i s = (Inr (), s\<lparr>st_revokedPolicies := insert i (st_revokedPolicies s)\<rparr>)"

definition revokeSession :: "string \<Rightarrow> (policy_store, policy_exn, unit) meth" where
  "revokeSession i s = (Inr (), s\<lparr>st_revokedSessions := insert i (st_revokedSessions s)\<rparr>)"

definition getPolicy :: "string \<Rightarrow> (policy_store, policy_exn, signer_policy option) meth" where
  "getPolicy i s = (Inr (st_policies s i), s)"

definition getSession :: "string \<Rightarrow> (policy_store, policy_exn, signer_session option) meth" where
  "getSession i s = (Inr (st_sessions s i), s)"

definition isPolicyRevoked :: "string \<Rightarrow> (policy_store, policy_exn, bool) meth" where
  "isPolicyRevoked i s = (Inr (i \<in> st_revokedPolicies s), s)"

definition isSessionRevoked :: "string \<Rightarrow> (policy_store, policy_exn, bool) meth" where
  "isSessionRevoked i s = (Inr (i \<in> st_revokedSessions s), s)"

text \<open>The start of the window a time falls in; without a frequency policy, the time itself.\<close>

definition window_start :: "frequency_policy option \<Rightarrow> int \<Rightarrow> int" where
  "window_start f t = (case f of None \<Rightarrow> t | Some w \<Rightarrow> (t div fp_windowSeconds w) * fp_windowSeconds w)"

definition fresh_usage :: "int \<Rightarrow> usage" where
  "fresh_usage t = \<lparr>us_requestIds = {}, us_count = 0, us_amount = 0, us_windowStart = t\<rparr>"

definition current_usage :: "reserve_input \<Rightarrow> policy_store \<Rightarrow> usage" where
  "current_usage i s = (let start = window_start (ri_frequency i) (ri_at i) in
     case st_usage s (ri_frequencyKey i) of
       Some prior \<Rightarrow> if us_windowStart prior = start then prior else fresh_usage start
     | None \<Rightarrow> fresh_usage start)"

definition over_frequency :: "reserve_input \<Rightarrow> usage \<Rightarrow> bool" where
  "over_frequency i u = (case ri_frequency i of None \<Rightarrow> False
     | Some w \<Rightarrow> fp_maxOperations w \<le> us_count u
         \<or> (case fp_maxTotalAmount w of None \<Rightarrow> False | Some m \<Rightarrow> m < us_amount u + ri_amount i))"

definition use_once :: "reserve_input \<Rightarrow> usage \<Rightarrow> usage" where
  "use_once i u = u\<lparr>us_requestIds := insert (ri_requestId i) (us_requestIds u),
     us_count := us_count u + 1, us_amount := us_amount u + ri_amount i\<rparr>"

definition reserve :: "reserve_input \<Rightarrow> (policy_store, policy_exn, reserve_result) meth" where
  "reserve i s =
     (if ri_requestId i \<in> st_consumedRequestIds s then (Inr Replay, s)
      else let u = current_usage i s in
        if over_frequency i u then (Inr Frequency, s)
        else (Inr Reserved,
              s\<lparr>st_usage := (st_usage s)(ri_frequencyKey i \<mapsto> use_once i u),
                st_consumedRequestIds := insert (ri_requestId i) (st_consumedRequestIds s)\<rparr>))"

section \<open>The evaluator\<close>

definition sensitive :: "operation \<Rightarrow> bool" where
  "sensitive op \<longleftrightarrow> op \<in> {Rotate_owner, Export, Migrate, Install_module}"

definition validateRequest :: "auth_request \<Rightarrow> policy_reason option" where
  "validateRequest rq =
     (if rq_requestId rq = '''' \<or> rq_sessionId rq = '''' \<or> rq_signerId rq = ''''
         \<or> rq_policyId rq = '''' \<or> \<not> safe_integer (rq_chainId rq) \<or> rq_chainId rq < 1
      then Some INVALID_REQUEST
      else case bindE (address (rq_target rq)) (\<lambda>_.
                bindE (selector (rq_selector rq)) (\<lambda>_.
                bindE (timestamp (rq_at rq)) (\<lambda>_.
                bindE (positive (rq_amount rq)) (\<lambda>_. positive (rq_value rq))))) of
             Inl _ \<Rightarrow> Some INVALID_REQUEST
           | Inr _ \<Rightarrow> None)"

text \<open>The checks on the session once it is known not to be revoked.\<close>

definition session_gate :: "auth_request \<Rightarrow> signer_session \<Rightarrow> policy_reason option" where
  "session_gate rq x =
     (if js_less (Whole (rq_at rq)) (ss_issuedAt x) \<or> js_le (ss_expiresAt x) (Whole (rq_at rq))
      then Some SESSION_EXPIRED
      else if ss_signerId x \<noteq> rq_signerId rq \<or> ss_policyId x \<noteq> rq_policyId rq
      then Some SIGNER_MISMATCH
      else None)"

definition find_rule :: "auth_request \<Rightarrow> signer_policy \<Rightarrow> contract_policy option" where
  "find_rule rq p =
     find (\<lambda>c. to_lower (cp_target c) = to_lower (rq_target rq)) (sp_contracts p)"

definition find_asset :: "requested_asset \<Rightarrow> asset_policy list \<Rightarrow> asset_policy option" where
  "find_asset a = find (\<lambda>c. ap_kind c = ra_kind a
     \<and> (ap_kind c = ''native'' \<or> map_option to_lower (ap_address c) = map_option to_lower (ra_address a)))"

definition exceeds :: "int \<Rightarrow> int option \<Rightarrow> bool" where
  "exceeds n limit = (case limit of None \<Rightarrow> False | Some m \<Rightarrow> m < n)"

definition asset_gate :: "auth_request \<Rightarrow> int \<Rightarrow> contract_policy \<Rightarrow> policy_reason + int" where
  "asset_gate rq amount rule =
     (let requested = (case rq_asset rq of
            None \<Rightarrow> \<lparr>ra_kind = ''native'', ra_address = None\<rparr> | Some a \<Rightarrow> a) in
      case cp_assets rule of
        None \<Rightarrow> Inr amount
      | Some as \<Rightarrow> (case find_asset requested as of
            None \<Rightarrow> Inl ASSET_NOT_ALLOWED
          | Some a \<Rightarrow> if exceeds amount (ap_maxAmount a) then Inl AMOUNT_EXCEEDED else Inr amount))"

text \<open>
  The checks on a policy that is known not to be revoked, up to the step-up: the amount to
  reserve, or the reason to deny.
\<close>

definition policy_gate :: "auth_request \<Rightarrow> signer_policy \<Rightarrow> policy_reason + int" where
  "policy_gate rq p =
     (if rq_at rq < sp_validFrom p then Inl POLICY_NOT_YET_ACTIVE
      else if sp_expiresAt p \<le> rq_at rq then Inl POLICY_EXPIRED
      else if sp_chainId p \<noteq> rq_chainId rq then Inl CHAIN_NOT_ALLOWED
      else if (case sp_allowedOperations p of None \<Rightarrow> False
               | Some ops \<Rightarrow> rq_operation rq \<notin> set ops) then Inl OPERATION_NOT_ALLOWED
      else case find_rule rq p of
        None \<Rightarrow> Inl CONTRACT_NOT_ALLOWED
      | Some rule \<Rightarrow>
          if \<not> (\<exists>v\<in>set (cp_selectors rule). to_lower v = to_lower (rq_selector rq))
          then Inl SELECTOR_NOT_ALLOWED
          else if (case cp_operations rule of None \<Rightarrow> False
                   | Some ops \<Rightarrow> rq_operation rq \<notin> set ops) then Inl OPERATION_NOT_ALLOWED
          else bindE (positive (rq_amount rq)) (\<lambda>amount.
               bindE (positive (rq_value rq)) (\<lambda>v.
               if exceeds v (cp_maxValue rule) then Inl AMOUNT_EXCEEDED
               else if exceeds amount (cp_maxAmount rule) then Inl AMOUNT_EXCEEDED
               else asset_gate rq amount rule)))"

text \<open>The ports: the store's methods, and the optional step-up verifier.\<close>

record 's policy_store_port =
  pp_getPolicy :: "string \<Rightarrow> ('s, policy_exn, signer_policy option) meth"
  pp_getSession :: "string \<Rightarrow> ('s, policy_exn, signer_session option) meth"
  pp_isPolicyRevoked :: "string \<Rightarrow> ('s, policy_exn, bool) meth"
  pp_isSessionRevoked :: "string \<Rightarrow> ('s, policy_exn, bool) meth"
  pp_reserve :: "reserve_input \<Rightarrow> ('s, policy_exn, reserve_result) meth"

type_synonym 's step_up_port = "auth_request \<Rightarrow> step_up_evidence \<Rightarrow> ('s, policy_exn, bool) meth"

definition in_memory_port :: "policy_store policy_store_port" where
  "in_memory_port = \<lparr>pp_getPolicy = getPolicy, pp_getSession = getSession,
     pp_isPolicyRevoked = isPolicyRevoked, pp_isSessionRevoked = isSessionRevoked,
     pp_reserve = reserve\<rparr>"

definition evidence_fits :: "auth_request \<Rightarrow> step_up_evidence \<Rightarrow> bool" where
  "evidence_fits rq e \<longleftrightarrow> su_method e \<in> {''passkey'', ''recovery''}
     \<and> su_requestId e = rq_requestId rq
     \<and> \<not> js_less (Whole (rq_at rq)) (su_verifiedAt e) \<and> \<not> js_le (su_expiresAt e) (Whole (rq_at rq))"

text \<open>\<open>None\<close> when no step-up is needed or the evidence was accepted.\<close>

definition step_up_gate ::
  "'s step_up_port option \<Rightarrow> auth_request \<Rightarrow> ('s, policy_exn, policy_reason option) meth" where
  "step_up_gate su rq =
     (if \<not> sensitive (rq_operation rq) then returnS None
      else case rq_stepUp rq of
        None \<Rightarrow> returnS (Some STEP_UP_REQUIRED)
      | Some e \<Rightarrow>
          if \<not> evidence_fits rq e then returnS (Some STEP_UP_INVALID)
          else case su of
            None \<Rightarrow> returnS (Some STEP_UP_INVALID)
          | Some verify \<Rightarrow> bindS (verify rq e) (\<lambda>ok.
              returnS (if ok then None else Some STEP_UP_INVALID)))"

definition frequency_key :: "auth_request \<Rightarrow> string" where
  "frequency_key rq = rq_signerId rq @ '':'' @ rq_policyId rq @ '':''
     @ to_lower (rq_target rq) @ '':'' @ to_lower (rq_selector rq)"

definition authorize_body ::
  "'s policy_store_port \<Rightarrow> 's step_up_port option \<Rightarrow> auth_request
    \<Rightarrow> ('s, policy_exn, policy_decision) meth" where
  "authorize_body port su rq =
     (case validateRequest rq of Some r \<Rightarrow> returnS (deny r) | None \<Rightarrow>
      bindS (pp_getSession port (rq_sessionId rq)) (\<lambda>so.
      case so of None \<Rightarrow> returnS (deny SESSION_NOT_FOUND) | Some session \<Rightarrow>
      bindS (pp_isSessionRevoked port (ss_sessionId session)) (\<lambda>srev.
      if srev then returnS (deny SESSION_REVOKED) else
      case session_gate rq session of Some r \<Rightarrow> returnS (deny r) | None \<Rightarrow>
      bindS (pp_getPolicy port (rq_policyId rq)) (\<lambda>po.
      case po of None \<Rightarrow> returnS (deny POLICY_NOT_FOUND) | Some policy \<Rightarrow>
      bindS (pp_isPolicyRevoked port (sp_policyId policy)) (\<lambda>prev.
      if prev then returnS (deny POLICY_REVOKED) else
      case policy_gate rq policy of Inl r \<Rightarrow> returnS (deny r) | Inr amount \<Rightarrow>
      bindS (step_up_gate su rq) (\<lambda>g.
      case g of Some r \<Rightarrow> returnS (deny r) | None \<Rightarrow>
      bindS (pp_reserve port \<lparr>ri_requestId = rq_requestId rq, ri_frequencyKey = frequency_key rq,
               ri_at = rq_at rq, ri_amount = amount, ri_frequency = sp_frequency policy\<rparr>) (\<lambda>res.
      returnS (case res of Reserved \<Rightarrow> \<lparr>pd_allowed = True, pd_reasonCode = ALLOW\<rparr>
                | Replay \<Rightarrow> deny REPLAY_DETECTED
                | Frequency \<Rightarrow> deny FREQUENCY_EXCEEDED))))))))"

definition authorize ::
  "'s policy_store_port \<Rightarrow> 's step_up_port option \<Rightarrow> auth_request \<Rightarrow> 's \<Rightarrow> policy_decision \<times> 's" where
  "authorize port su rq s = (case authorize_body port su rq s of
      (Inr d, t) \<Rightarrow> (d, t)
    | (Inl (Signer_policy_error INVALID_REQUEST), t) \<Rightarrow> (deny INVALID_REQUEST, t)
    | (Inl _, t) \<Rightarrow> (deny POLICY_STORE_UNAVAILABLE, t))"

end
