(* ===== verification/SignerPolicyProps.thy ===== *)
theory SignerPolicyProps
  imports SignerPolicy
begin

text \<open>
  Properties of the signer policies: the store's invariant and its reservations
  (an instance of \<open>one_shot\<close>), the frequency limits, soundness of the evaluator against
  the specification \<open>permits\<close>, and evaluations interleaved at their awaits.
\<close>

section \<open>Validation\<close>

definition rule_keys :: "contract_policy \<Rightarrow> string list" where
  "rule_keys c = map (\<lambda>v. to_lower (cp_target c) @ '':'' @ to_lower v) (cp_selectors c)"

lemma selector_Inr: "selector v = Inr k \<longleftrightarrow> hex_string 8 v \<and> k = to_lower v"
  by (auto simp: selector_def)

lemma address_Inr: "address v = Inr k \<longleftrightarrow> valid_address v \<and> k = to_lower v"
  by (auto simp: address_def valid_address_def)

lemma positive_Inr: "positive n = Inr k \<longleftrightarrow> (case n of None \<Rightarrow> k = 0 | Some m \<Rightarrow> 0 \<le> m \<and> k = m)"
  by (auto simp: positive_def split: option.splits)

lemma check_selectors_distinct:
  "check_selectors target vs seen = Inr seen' \<Longrightarrow> distinct seen
    \<Longrightarrow> distinct (map (\<lambda>v. to_lower target @ '':'' @ to_lower v) vs) \<and> distinct seen'
      \<and> set (map (\<lambda>v. to_lower target @ '':'' @ to_lower v) vs) \<inter> set seen = {}
      \<and> set seen' = set seen \<union> set (map (\<lambda>v. to_lower target @ '':'' @ to_lower v) vs)"
proof (induction vs arbitrary: seen)
  case (Cons v vs)
  let ?k = "to_lower target @ '':'' @ to_lower v"
  have k: "?k \<notin> set seen" and r: "check_selectors target vs (?k # seen) = Inr seen'"
    using Cons.prems(1) by (auto simp: result_simps selector_Inr Let_def split: if_splits)
  from Cons.IH [OF r] k Cons.prems(2) show ?case by auto
qed simp

lemma check_contract_keys:
  assumes "check_contract c seen = Inr seen'" "distinct seen"
  shows "distinct (rule_keys c) \<and> distinct seen' \<and> set (rule_keys c) \<inter> set seen = {}
    \<and> set seen' = set seen \<union> set (rule_keys c)"
  using assms check_selectors_distinct [of "cp_target c" "cp_selectors c" seen seen']
  by (auto simp: check_contract_def rule_keys_def result_simps split: if_splits)

lemma check_contracts_distinct:
  "check_contracts cs seen = Inr u \<Longrightarrow> distinct seen
    \<Longrightarrow> distinct (concat (map rule_keys cs)) \<and> set (concat (map rule_keys cs)) \<inter> set seen = {}"
proof (induction cs arbitrary: seen)
  case (Cons c cs)
  obtain seen' where c: "check_contract c seen = Inr seen'" and r: "check_contracts cs seen' = Inr u"
    using Cons.prems(1) by (auto simp: result_simps)
  note k = check_contract_keys [OF c Cons.prems(2)]
  with Cons.IH [OF r] show ?case by (simp only: list.map concat.simps distinct_append set_append) blast
qed simp

lemma check_contracts_each:
  "check_contracts cs seen = Inr u \<Longrightarrow> c \<in> set cs \<Longrightarrow> \<exists>seen seen'. check_contract c seen = Inr seen'"
  by (induction cs arbitrary: seen) (auto simp: result_simps)

text \<open>What a validated policy is, without the order of the checks.\<close>

definition well_formed_policy :: "signer_policy \<Rightarrow> bool" where
  "well_formed_policy p \<longleftrightarrow> sp_validFrom p < sp_expiresAt p \<and> 1 \<le> sp_chainId p
     \<and> sp_contracts p \<noteq> [] \<and> distinct (concat (map rule_keys (sp_contracts p)))
     \<and> (\<forall>c\<in>set (sp_contracts p). valid_address (cp_target c) \<and> cp_selectors c \<noteq> []
          \<and> (\<forall>m. cp_maxAmount c = Some m \<or> cp_maxValue c = Some m \<longrightarrow> 0 \<le> m))
     \<and> (\<forall>w. sp_frequency p = Some w \<longrightarrow> 1 \<le> fp_windowSeconds w \<and> 1 \<le> fp_maxOperations w
          \<and> (\<forall>m. fp_maxTotalAmount w = Some m \<longrightarrow> 0 \<le> m))"

lemma check_contract_fields:
  assumes "check_contract c seen = Inr seen'"
  shows "valid_address (cp_target c)" "cp_selectors c \<noteq> []"
    "cp_maxAmount c = Some m \<Longrightarrow> 0 \<le> m" "cp_maxValue c = Some m \<Longrightarrow> 0 \<le> m"
  using assms
  by (auto simp: check_contract_def result_simps address_Inr positive_Inr split: if_splits option.splits)

lemma check_frequency_fields:
  assumes "check_frequency f = Inr u" "f = Some w"
  shows "1 \<le> fp_windowSeconds w" "1 \<le> fp_maxOperations w" "fp_maxTotalAmount w = Some m \<Longrightarrow> 0 \<le> m"
  using assms by (auto simp: check_frequency_def result_simps positive_Inr split: if_splits)

lemma validated_policy_well_formed:
  assumes "validatePolicy p = Inr u"
  shows "well_formed_policy p"
proof -
  have c: "check_contracts (sp_contracts p) [] = Inr ()" and f: "check_frequency (sp_frequency p) = Inr ()"
    and h: "sp_validFrom p < sp_expiresAt p" "1 \<le> sp_chainId p" "sp_contracts p \<noteq> []"
    using assms by (auto simp: validatePolicy_def result_simps split: if_splits)
  have "distinct (concat (map rule_keys (sp_contracts p)))"
    using check_contracts_distinct [OF c] by simp
  moreover have "valid_address (cp_target x) \<and> cp_selectors x \<noteq> []
      \<and> (\<forall>m. cp_maxAmount x = Some m \<or> cp_maxValue x = Some m \<longrightarrow> 0 \<le> m)"
    if "x \<in> set (sp_contracts p)" for x
    using check_contracts_each [OF c that] check_contract_fields by blast
  ultimately show ?thesis
    using h check_frequency_fields [OF f] unfolding well_formed_policy_def by blast
qed

definition store_ok :: "policy_store \<Rightarrow> bool" where
  "store_ok s \<longleftrightarrow> (\<forall>k p. st_policies s k = Some p \<longrightarrow> sp_policyId p = k \<and> well_formed_policy p)
     \<and> (\<forall>k x. st_sessions s k = Some x \<longrightarrow> ss_sessionId x = k
         \<and> \<not> js_le (ss_expiresAt x) (ss_issuedAt x))"

lemma store_ok_empty: "store_ok empty_policy_store"
  by (simp add: store_ok_def empty_policy_store_def)

lemma store_ok_putPolicy: "store_ok s \<Longrightarrow> store_ok (snd (putPolicy p s))"
  by (cases "validatePolicy p") (auto simp: putPolicy_def store_ok_def dest: validated_policy_well_formed)

lemma store_ok_revoke:
  "store_ok s \<Longrightarrow> store_ok (snd (revokePolicy i s))" "store_ok s \<Longrightarrow> store_ok (snd (revokeSession i s))"
  by (simp_all add: revokePolicy_def revokeSession_def store_ok_def)

lemma store_ok_putSession: "store_ok s \<Longrightarrow> store_ok (snd (putSession x s))"
  by (auto simp: putSession_def store_ok_def)

section \<open>The store as an interface\<close>

definition reserve_attempt :: "reserve_input \<Rightarrow> policy_store \<Rightarrow> bool \<times> policy_store" where
  "reserve_attempt i s = (fst (reserve i s) = Inr Reserved, snd (reserve i s))"

text \<open>Every other operation that changes the store.\<close>

definition admin_step :: "policy_store \<Rightarrow> policy_store \<Rightarrow> bool" where
  "admin_step s t \<longleftrightarrow> (\<exists>p. t = snd (putPolicy p s)) \<or> (\<exists>x. t = snd (putSession x s))
     \<or> (\<exists>i. t = snd (revokePolicy i s)) \<or> (\<exists>i. t = snd (revokeSession i s))"

lemma reserve_cases:
  obtains (replay) "reserve i s = (Inr Replay, s)" "ri_requestId i \<in> st_consumedRequestIds s"
  | (frequency) "reserve i s = (Inr Frequency, s)" "ri_requestId i \<notin> st_consumedRequestIds s"
      "over_frequency i (current_usage i s)"
  | (reserved) "reserve i s = (Inr Reserved,
        s\<lparr>st_usage := (st_usage s)(ri_frequencyKey i \<mapsto> use_once i (current_usage i s)),
          st_consumedRequestIds := insert (ri_requestId i) (st_consumedRequestIds s)\<rparr>)"
      "ri_requestId i \<notin> st_consumedRequestIds s" "\<not> over_frequency i (current_usage i s)"
proof -
  assume r: "reserve i s = (Inr Replay, s) \<Longrightarrow> ri_requestId i \<in> st_consumedRequestIds s \<Longrightarrow> thesis"
    and f: "reserve i s = (Inr Frequency, s) \<Longrightarrow> ri_requestId i \<notin> st_consumedRequestIds s
      \<Longrightarrow> over_frequency i (current_usage i s) \<Longrightarrow> thesis"
    and k: "reserve i s = (Inr Reserved,
        s\<lparr>st_usage := (st_usage s)(ri_frequencyKey i \<mapsto> use_once i (current_usage i s)),
          st_consumedRequestIds := insert (ri_requestId i) (st_consumedRequestIds s)\<rparr>)
      \<Longrightarrow> ri_requestId i \<notin> st_consumedRequestIds s \<Longrightarrow> \<not> over_frequency i (current_usage i s) \<Longrightarrow> thesis"
  show thesis
    by (cases "ri_requestId i \<in> st_consumedRequestIds s"; cases "over_frequency i (current_usage i s)")
      (auto intro: r f k simp: reserve_def)
qed

lemma putPolicy_frame:
  "st_usage (snd (putPolicy p s)) = st_usage s"
  "st_consumedRequestIds (snd (putPolicy p s)) = st_consumedRequestIds s"
  by (cases "validatePolicy p"; simp add: putPolicy_def)+

lemma putSession_frame:
  "st_usage (snd (putSession x s)) = st_usage s"
  "st_consumedRequestIds (snd (putSession x s)) = st_consumedRequestIds s"
  by (simp_all add: putSession_def)

lemma admin_step_frame:
  assumes "admin_step s t"
  shows "st_usage t = st_usage s \<and> st_consumedRequestIds t = st_consumedRequestIds s"
  using assms unfolding admin_step_def
  by (auto simp: putPolicy_frame putSession_frame revokePolicy_def revokeSession_def)

interpretation reservations: one_shot reserve_attempt ri_requestId admin_step st_consumedRequestIds
proof unfold_locales
  show "ri_requestId i \<notin> st_consumedRequestIds s" if "reserve_attempt i s = (True, t)" for i s t
    using that by (cases i s rule: reserve_cases) (simp_all add: reserve_attempt_def)
  show "ri_requestId i \<in> st_consumedRequestIds t" if "reserve_attempt i s = (True, t)" for i s t
    using that by (cases i s rule: reserve_cases) (auto simp: reserve_attempt_def)
  show "st_consumedRequestIds s \<subseteq> st_consumedRequestIds t" if "reserve_attempt i s = (b, t)" for i s b t
    using that by (cases i s rule: reserve_cases) (auto simp: reserve_attempt_def)
qed (auto dest: admin_step_frame)

text \<open>
  Every policy in a store passed the validation (its target and selector pairs are
  distinct, its window and limits positive, its validity period not empty) and sits under its
  own id, every session under its own id; all operations of the store keep this.
\<close>

theorem stored_policies_well_formed:
  assumes "store_ok s" "admin_step s t \<or> t = snd (reserve i s)"
  shows "store_ok t"
  using assms(2)
proof
  assume "t = snd (reserve i s)"
  with assms(1) show ?thesis by (cases i s rule: reserve_cases) (auto simp: store_ok_def)
qed (use assms(1) in \<open>auto simp: admin_step_def store_ok_putPolicy store_ok_putSession
    store_ok_revoke\<close>)

section \<open>Frequency limits\<close>

text \<open>The reservations of a sequence of attempts that the store accepts.\<close>

fun accepted :: "reserve_input list \<Rightarrow> policy_store \<Rightarrow> reserve_input list" where
  "accepted [] s = []"
| "accepted (i # is) s = (case reserve i s of
      (Inr Reserved, t) \<Rightarrow> i # accepted is t
    | (_, t) \<Rightarrow> accepted is t)"

definition in_window :: "string \<Rightarrow> frequency_policy \<Rightarrow> int \<Rightarrow> reserve_input \<Rightarrow> bool" where
  "in_window k w W i \<longleftrightarrow> ri_frequencyKey i = k \<and> window_start (Some w) (ri_at i) = W"

definition window_read :: "(usage \<Rightarrow> int) \<Rightarrow> string \<Rightarrow> int \<Rightarrow> policy_store \<Rightarrow> int" where
  "window_read f k W s = (case st_usage s k of None \<Rightarrow> 0
     | Some u \<Rightarrow> if us_windowStart u = W then f u else 0)"

text \<open>The last window the store has written to under a key is not after any attempt to come.\<close>

definition not_before :: "string \<Rightarrow> frequency_policy \<Rightarrow> reserve_input list \<Rightarrow> policy_store \<Rightarrow> bool" where
  "not_before k w is s \<longleftrightarrow> (\<forall>u. st_usage s k = Some u \<longrightarrow>
     (\<forall>i\<in>set is. ri_frequencyKey i = k \<longrightarrow> us_windowStart u \<le> window_start (Some w) (ri_at i)))"

lemma window_start_mono:
  assumes "0 < fp_windowSeconds w" "a \<le> b"
  shows "window_start (Some w) a \<le> window_start (Some w) b"
  using assms zdiv_mono1 [of a b "fp_windowSeconds w"] by (simp add: window_start_def)

lemma accepted_subset: "set (accepted is s) \<subseteq> set is"
proof (induction "is" arbitrary: s)
  case (Cons i "is")
  then show ?case by (cases i s rule: reserve_cases) auto
qed simp

lemma current_usage_window:
  assumes "ri_frequency i = Some w" "f (fresh_usage (window_start (Some w) (ri_at i))) = 0"
  shows "us_windowStart (current_usage i s) = window_start (Some w) (ri_at i)"
    and "f (current_usage i s) = window_read f (ri_frequencyKey i) (window_start (Some w) (ri_at i)) s"
  using assms by (auto simp: current_usage_def window_read_def fresh_usage_def Let_def split: option.splits)

lemma reserved_state:
  assumes "reserve i s = (Inr Reserved, t)"
  shows "st_usage t (ri_frequencyKey i) = Some (use_once i (current_usage i s))"
    and "\<not> over_frequency i (current_usage i s)"
    and "k \<noteq> ri_frequencyKey i \<Longrightarrow> st_usage t k = st_usage s k"
  using assms by (cases i s rule: reserve_cases; auto)+

text \<open>The attempts on one frequency key carry one frequency policy and never go back in time.\<close>

definition clocked :: "string \<Rightarrow> frequency_policy \<Rightarrow> reserve_input list \<Rightarrow> bool" where
  "clocked k w is \<longleftrightarrow> (\<forall>i\<in>set is. ri_frequencyKey i = k \<longrightarrow> ri_frequency i = Some w)
     \<and> sorted (map ri_at (filter (\<lambda>i. ri_frequencyKey i = k) is))"

lemma clocked_Cons:
  assumes "clocked k w (i # is)"
  shows "clocked k w is"
    and "ri_frequencyKey i = k \<Longrightarrow> ri_frequency i = Some w"
    and "ri_frequencyKey i = k \<Longrightarrow> j \<in> set is \<Longrightarrow> ri_frequencyKey j = k \<Longrightarrow> ri_at i \<le> ri_at j"
  using assms by (auto simp: clocked_def split: if_splits)

text \<open>
  A counter \<open>f\<close> that every accepted reservation advances by its weight \<open>g\<close>, and that the
  store keeps below \<open>L\<close>, bounds the weight accepted in any one window.
\<close>

lemma accepted_bounded:
  assumes w: "0 < fp_windowSeconds w" and L: "0 \<le> L"
    and fresh: "\<And>x. f (fresh_usage x) = 0"
    and advance: "\<And>i u. f (use_once i u) = f u + g i"
    and limit: "\<And>i u. ri_frequency i = Some w \<Longrightarrow> \<not> over_frequency i u \<Longrightarrow> f u + g i \<le> L"
    and "clocked k w is" "not_before k w is s" "window_read f k W s \<le> L"
  shows "window_read f k W s + sum_list (map g (filter (in_window k w W) (accepted is s))) \<le> L"
  using assms(6-)
proof (induction "is" arbitrary: s)
  case Nil
  then show ?case by simp
next
  case (Cons i "is")
  let ?R = "window_start (Some w) (ri_at i)"
  have cl: "clocked k w is" by (rule clocked_Cons(1) [OF Cons.prems(1)])
  have here: "in_window k w W i \<longleftrightarrow> ri_frequencyKey i = k \<and> W = ?R" by (auto simp: in_window_def)
  show ?case
  proof (cases i s rule: reserve_cases)
    case reserved
    then obtain t where t: "reserve i s = (Inr Reserved, t)" by blast
    note st = reserved_state [OF t]
    show ?thesis
    proof (cases "ri_frequencyKey i = k")
      case False
      then have "st_usage t k = st_usage s k" using st(3) by auto
      then have "window_read f k W t = window_read f k W s" "not_before k w is t"
        using Cons.prems(2) by (auto simp: window_read_def not_before_def)
      then show ?thesis using Cons.IH [OF cl, of t] Cons.prems(3) t False here by simp
    next
      case k: True
      have fr: "ri_frequency i = Some w" by (rule clocked_Cons(2) [OF Cons.prems(1) k])
      note cu = current_usage_window [OF fr, of f, OF fresh, unfolded k] and st = st [unfolded k]
      have later: "?R \<le> window_start (Some w) (ri_at j)" if "j \<in> set is" "ri_frequencyKey j = k" for j
        by (rule window_start_mono [OF w clocked_Cons(3) [OF Cons.prems(1) k that]])
      have at_R: "window_read f k W t = (if W = ?R then window_read f k ?R s + g i else 0)"
        using st(1) cu by (simp add: window_read_def [of f k W t] use_once_def advance [unfolded use_once_def])
      have le: "window_read f k ?R s + g i \<le> L" using limit [OF fr st(2)] cu(2) by simp
      have nb: "not_before k w is t" using later st(1) cu(1) by (auto simp: not_before_def use_once_def)
      have IH: "window_read f k W t + sum_list (map g (filter (in_window k w W) (accepted is t))) \<le> L"
        using Cons.IH [OF cl nb] at_R le L by auto
      consider "W = ?R" | "W < ?R" | "?R < W" by linarith
      then show ?thesis
      proof cases
        case 1
        then show ?thesis using IH t at_R here k by simp
      next
        case 2
        have "filter (in_window k w W) (accepted is t) = []"
          using accepted_subset [of "is" t] later 2 by (fastforce simp: filter_empty_conv in_window_def)
        then show ?thesis using 2 t Cons.prems(3) here by simp
      next
        case 3
        have "window_read f k W s = 0"
          using Cons.prems(2) 3 k by (fastforce simp: window_read_def not_before_def split: option.splits)
        then show ?thesis using 3 IH t at_R here by simp
      qed
    qed
  qed (use Cons cl in \<open>auto simp: not_before_def\<close>)
qed

lemma not_before_unused: "st_usage s k = None \<Longrightarrow> not_before k w is s"
  by (simp add: not_before_def)

lemma window_read_unused: "st_usage s k = None \<Longrightarrow> window_read f k W s = 0"
  by (simp add: window_read_def)

text \<open>
  In any sequence of reservations and administrative writes on one store, no request id
  is reserved twice, and none that had been consumed before.
\<close>

theorem request_reserved_at_most_once:
  assumes "one_shot_run reserve_attempt ri_requestId admin_step s ids t"
  shows "distinct ids \<and> set ids \<inter> st_consumedRequestIds s = {}"
  using reservations.run_distinct [OF assms] reservations.run_fresh [OF assms] by blast

text \<open>
  As long as the attempts on a frequency key carry one policy and never go back in time, and
  the key was unused, the number accepted in any one window is at most the policy's
  maxOperations.
\<close>

theorem frequency_count_respected:
  assumes "0 < fp_windowSeconds w" "0 \<le> fp_maxOperations w" "clocked k w is" "st_usage s k = None"
  shows "int (length (filter (in_window k w W) (accepted is s))) \<le> fp_maxOperations w"
proof -
  have "window_read us_count k W s + sum_list (map (\<lambda>_. 1) (filter (in_window k w W) (accepted is s)))
      \<le> fp_maxOperations w"
    by (rule accepted_bounded [OF assms(1,2)])
      (use assms in \<open>auto simp: fresh_usage_def use_once_def over_frequency_def not_before_unused window_read_unused\<close>)
  then show ?thesis using assms(4) by (simp add: window_read_unused sum_list_triv)
qed

text \<open>
  C31: In any sequence of attempts of which those under one frequency key carry one frequency
  policy and times that never go back, on a store in which the key is unused, the amounts
  reserved under the key in any one window sum to at most the policy's maxTotalAmount.
  (Without the order of the times it is false, as window_rewind_resets_count shows.)
\<close>

theorem frequency_amount_respected:
  assumes "0 < fp_windowSeconds w" "fp_maxTotalAmount w = Some m" "0 \<le> m" "clocked k w is"
    and "st_usage s k = None"
  shows "(\<Sum>i\<leftarrow>filter (in_window k w W) (accepted is s). ri_amount i) \<le> m"
proof -
  have "window_read us_amount k W s + sum_list (map ri_amount (filter (in_window k w W) (accepted is s))) \<le> m"
    by (rule accepted_bounded [OF assms(1,3)])
      (use assms in \<open>auto simp: fresh_usage_def use_once_def over_frequency_def not_before_unused window_read_unused\<close>)
  then show ?thesis using assms(5) by (simp add: window_read_unused)
qed

section \<open>The evaluator\<close>

text \<open>
  What a policy permits, as a predicate on the request: the specification of \<open>policy_gate\<close>.
  A request that names no asset moves the native one; any other asset is one token contract,
  whatever the case of its digits.
\<close>

definition same_asset :: "requested_asset option \<Rightarrow> asset_policy \<Rightarrow> bool" where
  "same_asset q a \<longleftrightarrow> (case q of None \<Rightarrow> ap_kind a = ''native''
     | Some r \<Rightarrow> ap_kind a = ra_kind r \<and> (ra_kind r \<noteq> ''native'' \<longrightarrow>
         (case (ap_address a, ra_address r) of (None, None) \<Rightarrow> True
          | (Some x, Some y) \<Rightarrow> to_lower x = to_lower y | _ \<Rightarrow> False)))"

definition within :: "int option \<Rightarrow> int option \<Rightarrow> bool" where
  "within n limit \<longleftrightarrow> (\<forall>m. limit = Some m \<longrightarrow> (case n of None \<Rightarrow> 0 | Some k \<Rightarrow> k) \<le> m)"

definition permits :: "signer_policy \<Rightarrow> auth_request \<Rightarrow> bool" where
  "permits p rq \<longleftrightarrow> sp_validFrom p \<le> rq_at rq \<and> rq_at rq < sp_expiresAt p \<and> sp_chainId p = rq_chainId rq
     \<and> (\<forall>ops. sp_allowedOperations p = Some ops \<longrightarrow> rq_operation rq \<in> set ops)
     \<and> (\<exists>c\<in>set (sp_contracts p). to_lower (cp_target c) = to_lower (rq_target rq)
          \<and> to_lower (rq_selector rq) \<in> to_lower ` set (cp_selectors c)
          \<and> (\<forall>ops. cp_operations c = Some ops \<longrightarrow> rq_operation rq \<in> set ops)
          \<and> within (rq_value rq) (cp_maxValue c) \<and> within (rq_amount rq) (cp_maxAmount c)
          \<and> (\<forall>as. cp_assets c = Some as \<longrightarrow> (\<exists>a\<in>set as. within (rq_amount rq) (ap_maxAmount a)
               \<and> same_asset (rq_asset rq) a)))"

lemma exceeds_within: "positive n = Inr k \<Longrightarrow> \<not> exceeds k l \<Longrightarrow> within n l"
  by (auto simp: within_def exceeds_def positive_def split: option.splits if_splits)

lemma find_SomeD: "find P xs = Some x \<Longrightarrow> x \<in> set xs \<and> P x"
  by (auto simp: find_Some_iff)

lemma asset_gate_sound:
  assumes "asset_gate rq amount c = Inr n" "positive (rq_amount rq) = Inr amount"
  shows "n = amount \<and> (\<forall>as. cp_assets c = Some as \<longrightarrow> (\<exists>a\<in>set as. within (rq_amount rq) (ap_maxAmount a)
    \<and> same_asset (rq_asset rq) a))"
proof (cases "cp_assets c")
  case None
  then show ?thesis using assms by (simp add: asset_gate_def)
next
  case (Some as)
  then obtain a where a: "find_asset (case rq_asset rq of None \<Rightarrow> \<lparr>ra_kind = ''native'', ra_address = None\<rparr> | Some q \<Rightarrow> q) as = Some a"
    and n: "n = amount" "\<not> exceeds amount (ap_maxAmount a)"
    using assms(1) by (auto simp: asset_gate_def Let_def split: option.splits if_splits)
  have "a \<in> set as" "same_asset (rq_asset rq) a"
    using find_SomeD [OF a [unfolded find_asset_def]]
    by (auto simp: same_asset_def split: option.splits)
  with n Some exceeds_within [OF assms(2) n(2)] show ?thesis by auto
qed

lemma policy_gate_sound:
  assumes "policy_gate rq p = Inr n"
  shows "permits p rq" and "n = (case rq_amount rq of None \<Rightarrow> 0 | Some k \<Rightarrow> k)"
proof -
  obtain c amount v where c: "find_rule rq p = Some c" and am: "positive (rq_amount rq) = Inr amount"
    and v: "positive (rq_value rq) = Inr v" and g: "asset_gate rq amount c = Inr n"
    and r: "sp_validFrom p \<le> rq_at rq" "rq_at rq < sp_expiresAt p" "sp_chainId p = rq_chainId rq"
      "\<forall>ops. sp_allowedOperations p = Some ops \<longrightarrow> rq_operation rq \<in> set ops"
      "\<exists>w\<in>set (cp_selectors c). to_lower w = to_lower (rq_selector rq)"
      "\<forall>ops. cp_operations c = Some ops \<longrightarrow> rq_operation rq \<in> set ops"
      "\<not> exceeds v (cp_maxValue c)" "\<not> exceeds amount (cp_maxAmount c)"
    using assms unfolding policy_gate_def
    by (auto simp: result_simps split: if_splits option.splits)
  have c': "c \<in> set (sp_contracts p)" "to_lower (cp_target c) = to_lower (rq_target rq)"
    using c by (auto simp: find_rule_def dest: find_SomeD)
  have "to_lower (rq_selector rq) \<in> to_lower ` set (cp_selectors c)" using r(5) unfolding image_iff by metis
  with c' r(1-4,6) exceeds_within [OF v r(7)] exceeds_within [OF am r(8)] asset_gate_sound [OF g am]
  show "permits p rq" unfolding permits_def by blast
  show "n = (case rq_amount rq of None \<Rightarrow> 0 | Some k \<Rightarrow> k)"
    using asset_gate_sound [OF g am] am by (auto simp: positive_def split: option.splits if_splits)
qed

text \<open>The request the evaluator passes to \<open>reserve\<close>.\<close>

definition reservation_of :: "auth_request \<Rightarrow> signer_policy \<Rightarrow> reserve_input" where
  "reservation_of rq p = \<lparr>ri_requestId = rq_requestId rq, ri_frequencyKey = frequency_key rq,
     ri_at = rq_at rq, ri_amount = (case rq_amount rq of None \<Rightarrow> 0 | Some k \<Rightarrow> k),
     ri_frequency = sp_frequency p\<rparr>"

text \<open>One check of an evaluation that ends in a permission.\<close>

lemma gate_elims:
  "(case x of None \<Rightarrow> returnS (deny r) | Some y \<Rightarrow> f y) s = (Inr d, t) \<Longrightarrow> pd_allowed d
    \<Longrightarrow> (\<And>y. x = Some y \<Longrightarrow> f y s = (Inr d, t) \<Longrightarrow> P) \<Longrightarrow> P"
  "(case x' of None \<Rightarrow> m | Some q \<Rightarrow> returnS (deny q)) s = (Inr d, t) \<Longrightarrow> pd_allowed d
    \<Longrightarrow> (x' = None \<Longrightarrow> m s = (Inr d, t) \<Longrightarrow> P) \<Longrightarrow> P"
  "(case v of Inl q \<Rightarrow> returnS (deny q) | Inr n \<Rightarrow> h n) s = (Inr d, t) \<Longrightarrow> pd_allowed d
    \<Longrightarrow> (\<And>n. v = Inr n \<Longrightarrow> h n s = (Inr d, t) \<Longrightarrow> P) \<Longrightarrow> P"
  "(if b then returnS (deny r) else m) s = (Inr d, t) \<Longrightarrow> pd_allowed d
    \<Longrightarrow> (\<not> b \<Longrightarrow> m s = (Inr d, t) \<Longrightarrow> P) \<Longrightarrow> P"
  by (auto simp: deny_def split: option.splits sum.splits if_splits)

lemma authorize_body_allowed:
  assumes "authorize_body port su rq s = (Inr d, t)" "pd_allowed d"
  obtains x p n s1 s2 s3 s4 s5 where
    "validateRequest rq = None"
    "pp_getSession port (rq_sessionId rq) s = (Inr (Some x), s1)"
    "pp_isSessionRevoked port (ss_sessionId x) s1 = (Inr False, s2)"
    "session_gate rq x = None"
    "pp_getPolicy port (rq_policyId rq) s2 = (Inr (Some p), s3)"
    "pp_isPolicyRevoked port (sp_policyId p) s3 = (Inr False, s4)"
    "policy_gate rq p = Inr n"
    "step_up_gate su rq s4 = (Inr None, s5)"
    "pp_reserve port (reservation_of rq p) s5 = (Inr Reserved, t)"
  using assms unfolding authorize_body_def
  apply -
  apply ((erule bindS_elim | erule (1) gate_elims)+)
  subgoal for so s1 x srev s2 po s3 p prev s4 n g s5 res t'
    using that [of x s1 s2 p s3 s4 n s5] policy_gate_sound(2) [of rq p n]
    by (auto simp: reservation_of_def deny_def split: reserve_result.splits)
  done

lemma authorize_allowed:
  assumes "authorize port su rq s = (d, t)" "pd_allowed d"
  shows "authorize_body port su rq s = (Inr d, t)"
  using assms unfolding authorize_def deny_def
  by (auto split: prod.splits sum.splits policy_exn.splits policy_reason.splits)

lemma step_up_gate_passed:
  assumes "step_up_gate su rq s = (Inr None, t)" "sensitive (rq_operation rq)"
  shows "\<exists>e v. rq_stepUp rq = Some e \<and> su = Some v \<and> evidence_fits rq e \<and> v rq e s = (Inr True, t)"
  using assms by (auto simp: step_up_gate_def result_simps split: option.splits if_splits)

text \<open>
  C19: A sensitive operation is allowed only if the request carries passkey or recovery
  evidence that names this request's id, was verified no later than the request's time and
  expires after it (where these times are numbers: the code lets NaN pass), and the configured
  verifier accepted exactly this request and evidence; for every store and verifier.
\<close>

theorem sensitive_operation_needs_step_up:
  assumes "authorize port su rq s = (d, t)" "pd_allowed d" "sensitive (rq_operation rq)"
  shows "\<exists>e v u u'. rq_stepUp rq = Some e \<and> su = Some v
    \<and> (su_method e = ''passkey'' \<or> su_method e = ''recovery'') \<and> su_requestId e = rq_requestId rq
    \<and> (\<forall>n. su_verifiedAt e = Whole n \<longrightarrow> n \<le> rq_at rq) \<and> (\<forall>n. su_expiresAt e = Whole n \<longrightarrow> rq_at rq < n)
    \<and> v rq e u = (Inr True, u')"
proof -
  obtain e v u u' where "rq_stepUp rq = Some e" "su = Some v" "evidence_fits rq e" "v rq e u = (Inr True, u')"
    using authorize_body_allowed [OF authorize_allowed [OF assms(1,2)] assms(2)]
      step_up_gate_passed [OF _ assms(3)] by metis
  then show ?thesis unfolding evidence_fits_def by fastforce
qed

text \<open>A verifier that does not write to the policy store.\<close>

definition reads_only :: "policy_store step_up_port option \<Rightarrow> bool" where
  "reads_only su \<longleftrightarrow> (\<forall>v rq e. su = Some v \<longrightarrow> keepsS (=) (v rq e))"

lemma step_up_gate_reads_only:
  assumes "reads_only su" "step_up_gate su rq s = (r, t)"
  shows "t = s"
  using assms unfolding reads_only_def keepsS_def
  by (auto simp: step_up_gate_def bindS_def split: option.splits if_splits sum.splits prod.splits)
    (metis snd_conv)+

text \<open>
  The session and the policy an allowed request rests on.  A session's time is a number or
  NaN, and NaN bounds nothing.
\<close>

definition authorized_by :: "auth_request \<Rightarrow> signer_session \<Rightarrow> signer_policy \<Rightarrow> policy_store \<Rightarrow> bool" where
  "authorized_by rq x p s \<longleftrightarrow> st_sessions s (rq_sessionId rq) = Some x
     \<and> ss_sessionId x \<notin> st_revokedSessions s 
     \<and> (\<forall>n. ss_issuedAt x = Whole n \<longrightarrow> n \<le> rq_at rq) \<and> (\<forall>n. ss_expiresAt x = Whole n \<longrightarrow> rq_at rq < n)
     \<and> ss_signerId x = rq_signerId rq \<and> ss_policyId x = rq_policyId rq
     \<and> st_policies s (rq_policyId rq) = Some p \<and> sp_policyId p \<notin> st_revokedPolicies s \<and> permits p rq"

text \<open>
  C2: Over the in-memory store, with a step-up verifier that does not itself write to that
  store, an allowed request had an unrevoked session of the same signer and policy that had
  begun and had not expired (where its times are numbers: the code lets NaN pass) and a
  current, unrevoked policy that permits the chain, operation, contract, selector, the asset
  with its address, and the amounts; its request id was fresh and is consumed.
\<close>

theorem authorize_allow_sound:
  assumes "authorize in_memory_port su rq s = (d, t)" "pd_allowed d" "reads_only su"
  shows "\<exists>x p. authorized_by rq x p s \<and> rq_requestId rq \<notin> st_consumedRequestIds s
    \<and> st_consumedRequestIds t = insert (rq_requestId rq) (st_consumedRequestIds s)"
proof -
  obtain x p n s1 s2 s3 s4 s5 where
    r: "getSession (rq_sessionId rq) s = (Inr (Some x), s1)"
      "isSessionRevoked (ss_sessionId x) s1 = (Inr False, s2)" "session_gate rq x = None"
      "getPolicy (rq_policyId rq) s2 = (Inr (Some p), s3)"
      "isPolicyRevoked (sp_policyId p) s3 = (Inr False, s4)" "policy_gate rq p = Inr n"
      "step_up_gate su rq s4 = (Inr None, s5)" "reserve (reservation_of rq p) s5 = (Inr Reserved, t)"
    by (rule authorize_body_allowed [OF authorize_allowed [OF assms(1,2)] assms(2)])
      (simp add: in_memory_port_def)
  have "s1 = s \<and> s2 = s \<and> s3 = s \<and> s4 = s"
    using r by (simp add: getSession_def isSessionRevoked_def getPolicy_def isPolicyRevoked_def)
  moreover from this have "s5 = s" using step_up_gate_reads_only [OF assms(3) r(7)] by simp
  ultimately have a: "authorized_by rq x p s" and res: "reserve (reservation_of rq p) s = (Inr Reserved, t)"
    using r policy_gate_sound(1) [OF r(6)] by (auto simp: getSession_def isSessionRevoked_def getPolicy_def
      isPolicyRevoked_def session_gate_def authorized_by_def split: if_splits)
  from res have "rq_requestId rq \<notin> st_consumedRequestIds s
    \<and> st_consumedRequestIds t = insert (rq_requestId rq) (st_consumedRequestIds s)"
    by (cases "reservation_of rq p" s rule: reserve_cases) (auto simp: reservation_of_def)
  with a show ?thesis by blast
qed

lemma reserve_refused: "reserve i s = (r, t) \<Longrightarrow> r \<noteq> Inr Reserved \<Longrightarrow> t = s"
  by (cases i s rule: reserve_cases) auto

text \<open>
  A denied request leaves the in-memory store as it was: it uses up neither its request
  id nor its window.
\<close>

theorem denied_request_consumes_nothing:
  assumes "authorize in_memory_port su rq s = (d, t)" "\<not> pd_allowed d" "reads_only su"
  shows "t = s"
  using assms unfolding authorize_def authorize_body_def
  by (auto simp: in_memory_port_def getSession_def isSessionRevoked_def getPolicy_def isPolicyRevoked_def
    bindS_def split: prod.splits sum.splits option.splits if_splits policy_exn.splits policy_reason.splits reserve_result.splits
    dest: step_up_gate_reads_only [OF assms(3)] reserve_refused)

section \<open>Concurrent evaluations\<close>

text \<open>
  Several calls of \<open>authorize\<close> share one in-memory store; a call can be interrupted at each
  \<open>await\<close>.  Between two of its awaits it runs alone.  The verifier is a function of request
  and evidence.
\<close>

datatype pc =
    Start
  | Got_session signer_session
  | Session_ok
  | Got_policy signer_policy
  | Gated signer_policy int
  | Ready reserve_input
  | Finished policy_decision

fun thread_step ::
  "(auth_request \<Rightarrow> step_up_evidence \<Rightarrow> bool) option \<Rightarrow> auth_request \<Rightarrow> pc \<Rightarrow> policy_store \<Rightarrow> pc \<times> policy_store" where
  "thread_step su rq Start s = (case validateRequest rq of Some r \<Rightarrow> (Finished (deny r), s) | None \<Rightarrow>
     (case st_sessions s (rq_sessionId rq) of None \<Rightarrow> (Finished (deny SESSION_NOT_FOUND), s)
      | Some x \<Rightarrow> (Got_session x, s)))"
| "thread_step su rq (Got_session x) s =
     (if ss_sessionId x \<in> st_revokedSessions s then (Finished (deny SESSION_REVOKED), s)
      else case session_gate rq x of Some r \<Rightarrow> (Finished (deny r), s) | None \<Rightarrow> (Session_ok, s))"
| "thread_step su rq Session_ok s = (case st_policies s (rq_policyId rq) of
       None \<Rightarrow> (Finished (deny POLICY_NOT_FOUND), s) | Some p \<Rightarrow> (Got_policy p, s))"
| "thread_step su rq (Got_policy p) s =
     (if sp_policyId p \<in> st_revokedPolicies s then (Finished (deny POLICY_REVOKED), s)
      else case policy_gate rq p of Inl r \<Rightarrow> (Finished (deny r), s) | Inr n \<Rightarrow> (Gated p n, s))"
| "thread_step su rq (Gated p n) s =
     (case step_up_gate (map_option (\<lambda>v rq e. returnS (v rq e)) su) rq s of
        (Inr (Some r), _) \<Rightarrow> (Finished (deny r), s)
      | (Inr None, _) \<Rightarrow> (Ready \<lparr>ri_requestId = rq_requestId rq, ri_frequencyKey = frequency_key rq,
               ri_at = rq_at rq, ri_amount = n, ri_frequency = sp_frequency p\<rparr>, s)
      | (Inl _, _) \<Rightarrow> (Finished (deny POLICY_STORE_UNAVAILABLE), s))"
| "thread_step su rq (Ready i) s = (case reserve i s of
       (Inr Reserved, t) \<Rightarrow> (Finished \<lparr>pd_allowed = True, pd_reasonCode = ALLOW\<rparr>, t)
     | (Inr Replay, t) \<Rightarrow> (Finished (deny REPLAY_DETECTED), t)
     | (Inr Frequency, t) \<Rightarrow> (Finished (deny FREQUENCY_EXCEEDED), t)
     | (Inl _, t) \<Rightarrow> (Finished (deny POLICY_STORE_UNAVAILABLE), t))"
| "thread_step su rq (Finished d) s = (Finished d, s)"

fun thread_run where
  "thread_run su rq 0 c s = (c, s)"
| "thread_run su rq (Suc n) c s = (case thread_step su rq c s of (c', t) \<Rightarrow> thread_run su rq n c' t)"

text \<open>Run alone, a thread takes at most six steps and computes what \<open>authorize\<close> does.\<close>

lemma thread_run_finished: "thread_run su rq n (Finished d) s = (Finished d, s)"
  by (induction n) auto

lemma reserve_no_throw [simp]: "reserve i s \<noteq> (Inl e, t)"
  by (cases i s rule: reserve_cases) auto

text \<open>
  The evaluation cut at its awaits, run alone for six steps, computes exactly what
  authorize returns and the store it leaves.
\<close>

theorem thread_implements_authorize:
  "thread_run su rq 6 Start s =
     (case authorize in_memory_port (map_option (\<lambda>v rq e. returnS (v rq e)) su) rq s of
        (d, t) \<Rightarrow> (Finished d, t))"
proof -
  show ?thesis
    by (auto simp: numeral_eq_Suc thread_run_finished authorize_def authorize_body_def in_memory_port_def
      getSession_def isSessionRevoked_def getPolicy_def isPolicyRevoked_def bindS_def step_up_gate_def deny_def
      split: option.splits sum.splits prod.splits if_splits reserve_result.splits policy_exn.splits policy_reason.splits)
qed

text \<open>
  Interleavings: any thread takes its next step, a new evaluation starts, or the store is
  administered.
\<close>

inductive authorize_step ::
  "(auth_request \<Rightarrow> step_up_evidence \<Rightarrow> bool) option \<Rightarrow> policy_store \<times> (auth_request \<times> pc) list
     \<Rightarrow> policy_store \<times> (auth_request \<times> pc) list \<Rightarrow> bool" for su where
  advance: "i < length ts \<Longrightarrow> ts ! i = (rq, c) \<Longrightarrow> thread_step su rq c s = (c', t)
     \<Longrightarrow> authorize_step su (s, ts) (t, ts[i := (rq, c')])"
| spawn: "authorize_step su (s, ts) (s, ts @ [(rq, Start)])"
| administer: "admin_step s t \<Longrightarrow> authorize_step su (s, ts) (t, ts)"

definition granted :: "auth_request \<times> pc \<Rightarrow> bool" where
  "granted th \<longleftrightarrow> (case snd th of Finished d \<Rightarrow> pd_allowed d | _ \<Rightarrow> False)"

definition grants_ok :: "policy_store \<times> (auth_request \<times> pc) list \<Rightarrow> bool" where
  "grants_ok c \<longleftrightarrow> (case c of (s, ts) \<Rightarrow>
     (\<forall>th\<in>set ts. case snd th of Ready i \<Rightarrow> ri_requestId i = rq_requestId (fst th) | _ \<Rightarrow> True)
     \<and> (\<forall>th\<in>set ts. granted th \<longrightarrow> rq_requestId (fst th) \<in> st_consumedRequestIds s)
     \<and> (\<forall>i j. i < length ts \<longrightarrow> j < length ts \<longrightarrow> i \<noteq> j \<longrightarrow> granted (ts ! i) \<longrightarrow> granted (ts ! j)
          \<longrightarrow> rq_requestId (fst (ts ! i)) \<noteq> rq_requestId (fst (ts ! j))))"

lemma thread_step_effect:
  assumes "thread_step su rq c s = (c', t)" "\<forall>i. c = Ready i \<longrightarrow> ri_requestId i = rq_requestId rq"
  shows "st_consumedRequestIds s \<subseteq> st_consumedRequestIds t"
    and "\<forall>i. c' = Ready i \<longrightarrow> ri_requestId i = rq_requestId rq"
    and "granted (rq, c') \<Longrightarrow> \<not> granted (rq, c)
      \<Longrightarrow> rq_requestId rq \<notin> st_consumedRequestIds s \<and> rq_requestId rq \<in> st_consumedRequestIds t"
proof -
  have 1: "st_consumedRequestIds s \<subseteq> st_consumedRequestIds t \<and> (\<forall>i. c' = Ready i \<longrightarrow> ri_requestId i = rq_requestId rq)
    \<and> (granted (rq, c') \<longrightarrow> granted (rq, c)
      \<or> rq_requestId rq \<notin> st_consumedRequestIds s \<and> rq_requestId rq \<in> st_consumedRequestIds t)"
  proof (cases c)
    case (Ready i)
    then show ?thesis using assms
      by (cases i s rule: reserve_cases) (auto simp: granted_def deny_def)
  qed (use assms in \<open>auto simp: granted_def deny_def split: option.splits if_splits sum.splits prod.splits\<close>)
  then show "st_consumedRequestIds s \<subseteq> st_consumedRequestIds t"
    "\<forall>i. c' = Ready i \<longrightarrow> ri_requestId i = rq_requestId rq"
    "granted (rq, c') \<Longrightarrow> \<not> granted (rq, c)
      \<Longrightarrow> rq_requestId rq \<notin> st_consumedRequestIds s \<and> rq_requestId rq \<in> st_consumedRequestIds t"
    by blast+
qed

lemma grants_ok_step:
  assumes "authorize_step su x y" "grants_ok x"
  shows "grants_ok y"
  using assms
proof (cases rule: authorize_step.cases)
  case (advance i ts rq c s c' t)
  have mem: "(rq, c) \<in> set ts" using advance by (metis nth_mem)
  have ok: "grants_ok (s, ts)" using assms(2) advance by simp
  have rd: "\<forall>i. c = Ready i \<longrightarrow> ri_requestId i = rq_requestId rq"
    using ok mem by (fastforce simp: grants_ok_def)
  note e = thread_step_effect [OF advance(5) rd]
  have new: "\<not> granted th \<or> rq_requestId (fst th) \<noteq> rq_requestId rq"
    if "th \<in> set ts" "granted (rq, c')" "\<not> granted (rq, c)" for th
    using e(3) [OF that(2,3)] ok that(1) by (auto simp: grants_ok_def)
  have old: "granted (ts ! i) \<longleftrightarrow> granted (rq, c)" using advance by simp
  have pair: "rq_requestId (fst (ts ! a)) \<noteq> rq_requestId (fst (ts ! b))"
    if "a < length ts" "b < length ts" "a \<noteq> b" "granted (ts ! a)" "granted (ts ! b)" for a b
    using ok that by (auto simp: grants_ok_def)
  have "rq_requestId (fst ((ts[i := (rq, c')]) ! j)) \<noteq> rq_requestId (fst ((ts[i := (rq, c')]) ! k))"
    if "j < length ts" "k < length ts" "j \<noteq> k" "granted (ts[i := (rq, c')] ! j)" "granted (ts[i := (rq, c')] ! k)" for j k
  proof -
    consider "j = i" | "k = i" | "j \<noteq> i" "k \<noteq> i" by blast
    then show ?thesis
    proof cases
      case 1
      then have "granted (rq, c')" "granted (ts ! k)" "k \<noteq> i" using that by auto
      with new [of "ts ! k"] pair [of i k] that advance(3,4) 1 old show ?thesis
        by (cases "granted (rq, c)") auto
    next
      case 2
      then have "granted (rq, c')" "granted (ts ! j)" "j \<noteq> i" using that by auto
      with new [of "ts ! j"] pair [of j i] that advance(3,4) 2 old show ?thesis
        by (cases "granted (rq, c)") auto
    next
      case 3
      with pair [of j k] that show ?thesis by auto
    qed
  qed
  moreover have "(case snd th of Ready i \<Rightarrow> ri_requestId i = rq_requestId (fst th) | _ \<Rightarrow> True)
      \<and> (granted th \<longrightarrow> rq_requestId (fst th) \<in> st_consumedRequestIds t)"
    if "th \<in> set (ts[i := (rq, c')])" for th
  proof (cases "th = (rq, c')")
    case True
    then show ?thesis using e ok mem by (cases "granted (rq, c)") (auto simp: grants_ok_def split: pc.splits)
  next
    case False
    then have "th \<in> set ts" using that set_update_subset_insert [of ts i "(rq, c')"] by blast
    then show ?thesis using ok e(1) unfolding grants_ok_def by auto
  qed
  ultimately show ?thesis using advance unfolding grants_ok_def by simp
next
  case (spawn s ts rq)
  then show ?thesis using assms(2)
    by (auto simp: grants_ok_def granted_def nth_append split: if_splits)
next
  case (administer s t ts)
  then show ?thesis using assms(2) admin_step_frame [of s t] by (auto simp: grants_ok_def)
qed

text \<open>
  C1: However the awaits of concurrent evaluations and administrative writes interleave on one
  store, two evaluations that end in ALLOW have different request ids.
\<close>

theorem concurrent_grants_distinct:
  assumes "(authorize_step su)\<^sup>*\<^sup>* (s, []) (t, ts)"
    and "i < length ts" "j < length ts" "i \<noteq> j" "granted (ts ! i)" "granted (ts ! j)"
  shows "rq_requestId (fst (ts ! i)) \<noteq> rq_requestId (fst (ts ! j))"
proof -
  have "grants_ok (t, ts)"
    using assms(1) by (induction rule: rtranclp_induct) (auto simp: grants_ok_step, simp add: grants_ok_def)
  with assms show ?thesis by (simp add: grants_ok_def)
qed

section \<open>Examples\<close>

definition ex_address :: string where "ex_address = ''0x'' @ replicate 40 (CHR ''1'')"

definition ex_frequency :: frequency_policy where
  "ex_frequency = \<lparr>fp_windowSeconds = 60, fp_maxOperations = 1, fp_maxTotalAmount = Some 5\<rparr>"

definition ex_contract :: "string list \<Rightarrow> contract_policy" where
  "ex_contract sels = \<lparr>cp_target = ex_address, cp_selectors = sels, cp_operations = None,
     cp_assets = None, cp_maxValue = Some 10, cp_maxAmount = Some 5\<rparr>"

definition ex_policy :: "contract_policy list \<Rightarrow> signer_policy" where
  "ex_policy cs = \<lparr>sp_schemaVersion = 1, sp_policyId = ''p'', sp_signerId = ''s'', sp_chainId = 1,
     sp_validFrom = 0, sp_expiresAt = 1000, sp_contracts = cs, sp_allowedOperations = None,
     sp_frequency = Some ex_frequency\<rparr>"

definition ex_session :: signer_session where
  "ex_session = \<lparr>ss_sessionId = ''x'', ss_signerId = ''s'', ss_policyId = ''p'',
     ss_kind = Session_passkey, ss_issuedAt = Whole 0, ss_expiresAt = Whole 500\<rparr>"

definition ex_request :: "string \<Rightarrow> operation \<Rightarrow> auth_request" where
  "ex_request i op = \<lparr>rq_requestId = i, rq_sessionId = ''x'', rq_signerId = ''s'', rq_policyId = ''p'',
     rq_chainId = 1, rq_target = ex_address, rq_selector = ''0x12345678'', rq_operation = op,
     rq_value = None, rq_asset = None, rq_amount = Some 3, rq_at = 70,
     rq_stepUp = Some \<lparr>su_method = ''passkey'', su_challengeId = ''c'', su_requestId = i,
        su_verifiedAt = Whole 60, su_expiresAt = Whole 100\<rparr>\<rparr>"

definition ex_store :: policy_store where
  "ex_store = snd (putSession ex_session
     (snd (putPolicy (ex_policy [ex_contract [''0x12345678'']]) empty_policy_store)))"

definition ex_verifier :: "auth_request \<Rightarrow> step_up_evidence \<Rightarrow> bool" where
  "ex_verifier rq e \<longleftrightarrow> su_challengeId e = ''c''"

definition ex_reserve :: "string \<Rightarrow> int \<Rightarrow> reserve_input" where
  "ex_reserve i t = \<lparr>ri_requestId = i, ri_frequencyKey = ''k'', ri_at = t, ri_amount = 3,
     ri_frequency = Some ex_frequency\<rparr>"

lemma ex_granted: "granted (ex_request ''r'' Export, fst (thread_run (Some ex_verifier) (ex_request ''r'' Export) 6 Start ex_store))"
  by code_simp

lemma ex_allowed: "pd_allowed (fst (authorize in_memory_port (Some (\<lambda>rq e. returnS (ex_verifier rq e))) (ex_request ''r'' Export) ex_store))"
  by code_simp

text \<open>
  The frequency limit relies on the caller's clock: three attempts at times 70, 10 and 70
  get two reservations in the window at 60 although it allows one operation, because an
  attempt in another window replaces the counter.
\<close>

theorem window_rewind_resets_count:
  "length (filter (in_window ''k'' ex_frequency 60)
     (accepted [ex_reserve ''a'' 70, ex_reserve ''b'' 10, ex_reserve ''c'' 70] ex_store)) = 2
   \<and> fp_maxOperations ex_frequency = 1"
  by code_simp

text \<open>
  The times of sessions and evidence are not checked to be numbers: a session or evidence
  whose times are NaN is stored, and is in force at every time.
\<close>

theorem nan_times_never_expire:
  "fst (putSession (x\<lparr>ss_issuedAt := Not_a_number, ss_expiresAt := Not_a_number\<rparr>) s)
     = fst (putSession (x\<lparr>ss_issuedAt := Whole 0, ss_expiresAt := Whole 1\<rparr>) s)
   \<and> session_gate rq (x\<lparr>ss_issuedAt := Not_a_number, ss_expiresAt := Not_a_number\<rparr>) \<noteq> Some SESSION_EXPIRED
   \<and> evidence_fits rq \<lparr>su_method = ''passkey'', su_challengeId = c, su_requestId = rq_requestId rq,
        su_verifiedAt = Not_a_number, su_expiresAt = Not_a_number\<rparr>"
  by (simp add: putSession_def session_gate_def evidence_fits_def)

text \<open>
  A policy with two rules for one target and disjoint selectors passes validation, but
  the evaluator only looks at the first: a request the second rule permits is denied.
\<close>

theorem shadowed_contract_rule:
  "validatePolicy (ex_policy [ex_contract [''0x00000000''], ex_contract [''0x12345678'']]) = Inr ()
   \<and> policy_gate (ex_request ''r'' Transaction)
       (ex_policy [ex_contract [''0x00000000''], ex_contract [''0x12345678'']]) = Inl SELECTOR_NOT_ALLOWED
   \<and> permits (ex_policy [ex_contract [''0x00000000''], ex_contract [''0x12345678'']]) (ex_request ''r'' Transaction)"
proof (intro conjI)
  show "validatePolicy (ex_policy [ex_contract [''0x00000000''], ex_contract [''0x12345678'']]) = Inr ()"
    by code_simp
  show "policy_gate (ex_request ''r'' Transaction)
       (ex_policy [ex_contract [''0x00000000''], ex_contract [''0x12345678'']]) = Inl SELECTOR_NOT_ALLOWED"
    by code_simp
  show "permits (ex_policy [ex_contract [''0x00000000''], ex_contract [''0x12345678'']]) (ex_request ''r'' Transaction)"
    by (simp add: permits_def ex_policy_def ex_request_def ex_contract_def within_def)
qed

lemma authorize_allow_sound_witness: "\<exists>x p. authorized_by (ex_request ''r'' Export) x p ex_store
    \<and> ''r'' \<notin> st_consumedRequestIds ex_store
    \<and> st_consumedRequestIds (snd (authorize in_memory_port (Some (\<lambda>rq e. returnS (ex_verifier rq e))) (ex_request ''r'' Export) ex_store))
      = insert ''r'' (st_consumedRequestIds ex_store)"
  using authorize_allow_sound [OF prod.collapse [symmetric] ex_allowed]
  by (simp add: ex_request_def reads_only_def keepsS_def)

lemma sensitive_operation_needs_step_up_witness: "\<exists>e (v :: policy_store step_up_port) u u'. rq_stepUp (ex_request ''r'' Export) = Some e
    \<and> Some (\<lambda>rq e. returnS (ex_verifier rq e)) = Some v
    \<and> (su_method e = ''passkey'' \<or> su_method e = ''recovery'') \<and> su_requestId e = rq_requestId (ex_request ''r'' Export)
    \<and> (\<forall>n. su_verifiedAt e = Whole n \<longrightarrow> n \<le> rq_at (ex_request ''r'' Export))
    \<and> (\<forall>n. su_expiresAt e = Whole n \<longrightarrow> rq_at (ex_request ''r'' Export) < n)
    \<and> v (ex_request ''r'' Export) e u = (Inr True, u')"
  by (rule sensitive_operation_needs_step_up [OF prod.collapse [symmetric] ex_allowed])
    (simp add: ex_request_def sensitive_def)

lemma denied_request_consumes_nothing_witness: "snd (authorize in_memory_port None (ex_request ''r'' Export) ex_store) = ex_store"
proof -
  have "\<not> pd_allowed (fst (authorize in_memory_port None (ex_request ''r'' Export) ex_store))" by code_simp
  then show ?thesis
    by (rule denied_request_consumes_nothing [OF prod.collapse [symmetric]]) (simp add: reads_only_def)
qed

lemma frequency_count_respected_witness: "int (length (filter (in_window ''k'' ex_frequency 60)
    (accepted [ex_reserve ''a'' 70, ex_reserve ''b'' 80, ex_reserve ''c'' 130] ex_store))) \<le> 1"
  using frequency_count_respected [of ex_frequency "''k''" "[ex_reserve ''a'' 70, ex_reserve ''b'' 80, ex_reserve ''c'' 130]" ex_store 60]
  by (simp add: ex_frequency_def clocked_def ex_reserve_def ex_store_def putPolicy_frame putSession_frame empty_policy_store_def)

lemma frequency_amount_respected_witness: "(\<Sum>i\<leftarrow>filter (in_window ''k'' ex_frequency 60)
    (accepted [ex_reserve ''a'' 70, ex_reserve ''b'' 80] ex_store). ri_amount i) \<le> 5"
  using frequency_amount_respected [of ex_frequency 5 "''k''" "[ex_reserve ''a'' 70, ex_reserve ''b'' 80]" ex_store 60]
  by (simp add: ex_frequency_def clocked_def ex_reserve_def ex_store_def putPolicy_frame putSession_frame empty_policy_store_def)

text \<open>Runs of one thread lead to the state of \<open>thread_run\<close>.\<close>

lemma thread_run_reachable:
  "(authorize_step su)\<^sup>*\<^sup>* (s, ts @ [(rq, c)])
     (snd (thread_run su rq n c s), ts @ [(rq, fst (thread_run su rq n c s))])"
proof (induction n arbitrary: c s)
  case (Suc n)
  obtain c' t where st: "thread_step su rq c s = (c', t)" by fastforce
  have "authorize_step su (s, ts @ [(rq, c)]) (t, (ts @ [(rq, c)])[length ts := (rq, c')])"
    by (rule authorize_step.advance [OF _ _ st]) auto
  with Suc [of t c'] st show ?case by (simp add: converse_rtranclp_into_rtranclp)
qed simp

lemma spawn_run_reachable:
  assumes "(authorize_step su)\<^sup>*\<^sup>* x (s, ts)"
  shows "(authorize_step su)\<^sup>*\<^sup>* x
     (snd (thread_run su rq n Start s), ts @ [(rq, fst (thread_run su rq n Start s))])"
  using assms authorize_step.spawn [of su s ts rq] thread_run_reachable [of su s ts rq Start n]
  by (meson rtranclp.rtrancl_into_rtrancl rtranclp_trans)

definition ex_second :: auth_request where
  "ex_second = ex_request ''q'' Transaction\<lparr>rq_at := 130\<rparr>"

definition ex_after :: policy_store where
  "ex_after = snd (thread_run (Some ex_verifier) (ex_request ''r'' Export) 6 Start ex_store)"

lemma concurrent_grants_distinct_witness: "\<exists>t ts. (authorize_step (Some ex_verifier))\<^sup>*\<^sup>* (ex_store, []) (t, ts) \<and> length ts = 2
    \<and> granted (ts ! 0) \<and> granted (ts ! 1) \<and> rq_requestId (fst (ts ! 0)) \<noteq> rq_requestId (fst (ts ! 1))"
proof -
  let ?a = "(ex_request ''r'' Export, fst (thread_run (Some ex_verifier) (ex_request ''r'' Export) 6 Start ex_store))"
  let ?b = "(ex_second, fst (thread_run (Some ex_verifier) ex_second 6 Start ex_after))"
  let ?t = "snd (thread_run (Some ex_verifier) ex_second 6 Start ex_after)"
  have 1: "(authorize_step (Some ex_verifier))\<^sup>*\<^sup>* (ex_store, []) (ex_after, [] @ [?a])"
    unfolding ex_after_def by (rule spawn_run_reachable [OF rtranclp.rtrancl_refl])
  have run: "(authorize_step (Some ex_verifier))\<^sup>*\<^sup>* (ex_store, []) (?t, [?a, ?b])"
    using spawn_run_reachable [OF 1, of ex_second 6] by simp
  have g: "granted ?a" "granted ?b" by code_simp+
  have "rq_requestId (fst ([?a, ?b] ! 0)) \<noteq> rq_requestId (fst ([?a, ?b] ! 1))"
    by (rule concurrent_grants_distinct [OF run]) (simp_all add: g)
  with run g show ?thesis by fastforce
qed

theorem frequency_key_collision:
  "frequency_key (ex_request ''r'' Export\<lparr>rq_signerId := ''a:b'', rq_policyId := ''c''\<rparr>)
   = frequency_key (ex_request ''r'' Export\<lparr>rq_signerId := ''a'', rq_policyId := ''b:c''\<rparr>)"
  by code_simp

lemma stored_policies_well_formed_witness:
  "store_ok (snd (reserve (ex_reserve ''a'' 70) ex_store))"
proof -
  have "store_ok ex_store" unfolding ex_store_def
    by (intro store_ok_putSession store_ok_putPolicy store_ok_empty)
  then show ?thesis by (rule stored_policies_well_formed) (rule disjI2, rule refl)
qed

lemma request_reserved_at_most_once_witness:
  "distinct [''b'', ''a''] \<and> set [''b'', ''a''] \<inter> st_consumedRequestIds ex_store = {}"
proof -
  let ?t = "snd (reserve_attempt (ex_reserve ''a'' 70) ex_store)"
  have a: "reserve_attempt (ex_reserve ''a'' 70) ex_store = (True, ?t)"
    by (rule prod_eqI; simp only: fst_conv snd_conv) code_simp
  have b: "reserve_attempt (ex_reserve ''b'' 130) ?t = (True, snd (reserve_attempt (ex_reserve ''b'' 130) ?t))"
    by (rule prod_eqI; simp only: fst_conv snd_conv) code_simp
  have 1: "one_shot_run reserve_attempt ri_requestId admin_step ex_store [ri_requestId (ex_reserve ''a'' 70)] ?t"
    by (rule run_used [where attempt = reserve_attempt and i = "ex_reserve ''a'' 70", OF run_start a])
  have 2: "one_shot_run reserve_attempt ri_requestId admin_step ex_store
      [ri_requestId (ex_reserve ''b'' 130), ri_requestId (ex_reserve ''a'' 70)]
      (snd (reserve_attempt (ex_reserve ''b'' 130) ?t))"
    by (rule run_used [where attempt = reserve_attempt and i = "ex_reserve ''b'' 130", OF 1 b])
  show ?thesis using request_reserved_at_most_once [OF 2] by (simp add: ex_reserve_def)
qed

end
