(* ===== verification/IssuerSigner.thy ===== *)
theory IssuerSigner
  imports Interfaces
begin

text \<open>
  The institutional issuer signer (\<open>packages/issuer-signer/src/index.ts\<close>): the
  operation store that reserves request ids and blocks unresolved operations, the signing,
  rotation and disabling of a key behind two approvals, and the local development adapter.
  The key service, the approval service, the store and the audit log are ports over one world
  state; every call may throw.  Bytes are characters; the text that is hashed consists of
  validated ASCII strings, so its UTF-8 encoding is itself.
\<close>

section \<open>Data\<close>

datatype issuer_error_code =
    INVALID_REQUEST | KEY_NOT_FOUND | KEY_NOT_ACTIVE | KEY_DISABLED | ALGORITHM_MISMATCH
  | DUAL_APPROVAL_REQUIRED | APPROVAL_INVALID | APPROVAL_UNAVAILABLE | REQUEST_ALREADY_USED
  | PROVIDER_REJECTED | PROVIDER_UNAVAILABLE | SIGNING_RESULT_AMBIGUOUS
  | OPERATION_RESULT_AMBIGUOUS | AUDIT_UNAVAILABLE

datatype issuer_exn = Issuer_error issuer_error_code | Foreign_error

datatype kms_rejection =
  Kms_key_not_found | Kms_key_not_active | Kms_key_disabled | Kms_algorithm_mismatch | Kms_provider_rejected

datatype audit_reason = Failed issuer_error_code | SIGNED | ROTATED | DISABLED

datatype operation_outcome = Op_signed | Op_completed | Op_rejected | Op_ambiguous

record key_descriptor =
  kd_keyRef :: string
  kd_algorithm :: string
  kd_status :: string
  kd_version :: string

record issuer_sign_request =
  sr_requestId :: string
  sr_tenantId :: string
  sr_keyRef :: string
  sr_algorithm :: string
  sr_payload :: string
  sr_at :: int

record issuer_signature =
  sg_requestId :: string
  sg_keyRef :: string
  sg_keyVersion :: string
  sg_algorithm :: string
  sg_signature :: string

record rotate_request =
  rr_requestId :: string
  rr_tenantId :: string
  rr_currentKeyRef :: string
  rr_nextKeyRef :: string
  rr_at :: int

record disable_request =
  dr_requestId :: string
  dr_tenantId :: string
  dr_keyRef :: string
  dr_at :: int

record rotation_receipt =
  rc_requestId :: string
  rc_previousKeyRef :: string
  rc_activeKeyRef :: string
  rc_activeVersion :: string

record kms_signature =
  ks_signature :: string
  ks_algorithm :: string
  ks_keyVersion :: string

datatype kms_sign_result = Kms_signed kms_signature | Kms_sign_rejected kms_rejection | Kms_sign_ambiguous

datatype kms_mutation_result = Kms_completed | Kms_rejected kms_rejection | Kms_ambiguous

record approval_context =
  ac_requestId :: string
  ac_tenantId :: string
  ac_operation :: string
  ac_bindingDigest :: string
  ac_at :: int

record approval_evidence =
  ae_approvalId :: string
  ae_approverId :: string
  ae_requestId :: string
  ae_tenantId :: string
  ae_operation :: string
  ae_bindingDigest :: string
  ae_approvedAt :: int
  ae_expiresAt :: int

record audit_event =
  ev_eventId :: string
  ev_tenantId :: string
  ev_requestId :: string
  ev_operation :: string
  ev_outcome :: string
  ev_reasonCode :: audit_reason
  ev_createdAt :: int

section \<open>The operation store\<close>

datatype op_reservation = Op_reserved | Duplicate_request | Unresolved_operation

record stored_operation =
  so_fingerprint :: string
  so_outcome :: "operation_outcome option"

text \<open>\<open>None\<close> is the outcome \<open>pending\<close>.\<close>

record op_store =
  os_operations :: "string \<rightharpoonup> stored_operation"
  os_unresolved :: "string \<rightharpoonup> string"

definition empty_op_store :: op_store where
  "empty_op_store = \<lparr>os_operations = Map.empty, os_unresolved = Map.empty\<rparr>"

definition op_reserve :: "string \<Rightarrow> string \<Rightarrow> (op_store, issuer_exn, op_reservation) meth" where
  "op_reserve requestId fingerprint s =
     (if os_operations s requestId \<noteq> None then (Inr Duplicate_request, s)
      else if os_unresolved s fingerprint \<noteq> None then (Inr Unresolved_operation, s)
      else (Inr Op_reserved,
            s\<lparr>os_operations := (os_operations s)(requestId \<mapsto>
                 \<lparr>so_fingerprint = fingerprint, so_outcome = None\<rparr>),
              os_unresolved := (os_unresolved s)(fingerprint \<mapsto> requestId)\<rparr>))"

definition op_finish :: "string \<Rightarrow> operation_outcome \<Rightarrow> (op_store, issuer_exn, unit) meth" where
  "op_finish requestId r s = (case os_operations s requestId of
       None \<Rightarrow> (Inl Foreign_error, s)
     | Some x \<Rightarrow> (Inr (),
         s\<lparr>os_operations := (os_operations s)(requestId \<mapsto> x\<lparr>so_outcome := Some r\<rparr>),
           os_unresolved := (if r \<noteq> Op_ambiguous then (os_unresolved s)(so_fingerprint x := None)
              else os_unresolved s)\<rparr>))"

section \<open>Checks\<close>

definition safe_id :: "string \<Rightarrow> issuer_exn + string" where
  "safe_id v = (if plain_id v then Inr v else Inl (Issuer_error INVALID_REQUEST))"

definition safe_time :: "int \<Rightarrow> issuer_exn + int" where
  "safe_time n = (if safe_integer n \<and> 0 \<le> n then Inr n else Inl (Issuer_error INVALID_REQUEST))"

definition key_ref_char :: "char \<Rightarrow> bool" where
  "key_ref_char c \<longleftrightarrow> is_alnum c \<or> c \<in> set ''._:/=@+-''"

fun includes_sub :: "string \<Rightarrow> string \<Rightarrow> bool" where
  "includes_sub [] p \<longleftrightarrow> p = []"
| "includes_sub (c # s) p \<longleftrightarrow> take (length p) (c # s) = p \<or> includes_sub s p"

definition ensureKeyRef :: "string \<Rightarrow> issuer_exn + string" where
  "ensureKeyRef v =
     (if \<not> (3 \<le> length v \<and> length v \<le> 256 \<and> list_all key_ref_char v)
         \<or> take 1 v = ''{'' \<or> includes_sub v ''-----BEGIN''
      then Inl (Issuer_error INVALID_REQUEST) else Inr v)"

definition ensureAlgorithm :: "string \<Rightarrow> issuer_exn + string" where
  "ensureAlgorithm v = (if v \<noteq> ''ES256'' \<and> v \<noteq> ''EdDSA'' then Inl (Issuer_error INVALID_REQUEST) else Inr v)"

definition ensurePayload :: "string \<Rightarrow> issuer_exn + string" where
  "ensurePayload v =
     (if length v = 0 \<or> int (length v) > 1048576 then Inl (Issuer_error INVALID_REQUEST) else Inr v)"

definition ensureDescriptor :: "key_descriptor \<Rightarrow> string \<Rightarrow> issuer_exn + key_descriptor" where
  "ensureDescriptor d expectedRef =
     bindE (ensureKeyRef (kd_keyRef d)) (\<lambda>r.
     if r \<noteq> expectedRef \<or> kd_status d \<notin> {''active'', ''standby'', ''rotated'', ''disabled''}
        \<or> \<not> plain_id (kd_version d)
     then Inl (Issuer_error PROVIDER_REJECTED)
     else bindE (ensureAlgorithm (kd_algorithm d)) (\<lambda>_. Inr d))"

definition providerCode :: "kms_rejection \<Rightarrow> issuer_error_code" where
  "providerCode c = (case c of
       Kms_key_not_found \<Rightarrow> KEY_NOT_FOUND
     | Kms_key_not_active \<Rightarrow> KEY_NOT_ACTIVE
     | Kms_key_disabled \<Rightarrow> KEY_DISABLED
     | Kms_algorithm_mismatch \<Rightarrow> ALGORITHM_MISMATCH
     | Kms_provider_rejected \<Rightarrow> PROVIDER_REJECTED)"

definition keyStateCode :: "string \<Rightarrow> issuer_error_code" where
  "keyStateCode st = (if st = ''disabled'' then KEY_DISABLED else KEY_NOT_ACTIVE)"

definition normalizeError :: "issuer_exn \<Rightarrow> issuer_error_code" where
  "normalizeError e = (case e of Issuer_error c \<Rightarrow> c | Foreign_error \<Rightarrow> PROVIDER_UNAVAILABLE)"

section \<open>The ports\<close>

record 'w issuer_ports =
  ip_describeKey :: "string \<Rightarrow> ('w, issuer_exn, key_descriptor option) meth"
  ip_sign :: "string \<Rightarrow> string \<Rightarrow> string \<Rightarrow> string \<Rightarrow> ('w, issuer_exn, kms_sign_result) meth"
  ip_rotate :: "string \<Rightarrow> string \<Rightarrow> string \<Rightarrow> ('w, issuer_exn, kms_mutation_result) meth"
  ip_disable :: "string \<Rightarrow> string \<Rightarrow> ('w, issuer_exn, kms_mutation_result) meth"
  ip_approvalsFor :: "approval_context \<Rightarrow> ('w, issuer_exn, approval_evidence list) meth"
  ip_reserve :: "string \<Rightarrow> string \<Rightarrow> ('w, issuer_exn, op_reservation) meth"
  ip_finish :: "string \<Rightarrow> operation_outcome \<Rightarrow> ('w, issuer_exn, unit) meth"
  ip_append :: "audit_event \<Rightarrow> ('w, issuer_exn, unit) meth"

definition issuer_fail :: "issuer_error_code \<Rightarrow> ('w, issuer_exn, 'a) meth" where
  "issuer_fail c = throwS (Issuer_error c)"

section \<open>Audit and outcome helpers\<close>

definition auditEvent :: "approval_context \<Rightarrow> string \<Rightarrow> audit_reason \<Rightarrow> audit_event" where
  "auditEvent ctx r reason = \<lparr>
     ev_eventId = ac_requestId ctx @ '':'' @ ac_operation ctx @ '':'' @ r,
     ev_tenantId = ac_tenantId ctx, ev_requestId = ac_requestId ctx,
     ev_operation = ac_operation ctx, ev_outcome = r, ev_reasonCode = reason,
     ev_createdAt = ac_at ctx\<rparr>"

definition auditBeforeProvider ::
  "'w issuer_ports \<Rightarrow> approval_context \<Rightarrow> issuer_error_code \<Rightarrow> ('w, issuer_exn, unit) meth" where
  "auditBeforeProvider p ctx c =
     catchS (ip_append p (auditEvent ctx ''rejected'' (Failed c))) (\<lambda>_. issuer_fail AUDIT_UNAVAILABLE)"

definition auditAmbiguous ::
  "'w issuer_ports \<Rightarrow> approval_context \<Rightarrow> issuer_error_code \<Rightarrow> ('w, issuer_exn, unit) meth" where
  "auditAmbiguous p ctx c =
     catchS (ip_append p (auditEvent ctx ''ambiguous'' (Failed c))) (\<lambda>_. returnS ())"

definition markAmbiguous :: "'w issuer_ports \<Rightarrow> string \<Rightarrow> ('w, issuer_exn, unit) meth" where
  "markAmbiguous p requestId = catchS (ip_finish p requestId Op_ambiguous) (\<lambda>_. returnS ())"

text \<open>\<open>markAmbiguous\<close>, the audit of the ambiguity, and the error that ends the operation.\<close>

definition give_up ::
  "'w issuer_ports \<Rightarrow> approval_context \<Rightarrow> issuer_error_code \<Rightarrow> ('w, issuer_exn, 'a) meth" where
  "give_up p ctx c =
     bindS (markAmbiguous p (ac_requestId ctx)) (\<lambda>_.
     bindS (auditAmbiguous p ctx c) (\<lambda>_. issuer_fail c))"

definition ambiguousMutation :: "'w issuer_ports \<Rightarrow> approval_context \<Rightarrow> ('w, issuer_exn, 'a) meth" where
  "ambiguousMutation p ctx = give_up p ctx OPERATION_RESULT_AMBIGUOUS"

definition rejectMutation ::
  "'w issuer_ports \<Rightarrow> approval_context \<Rightarrow> issuer_error_code \<Rightarrow> ('w, issuer_exn, 'a) meth" where
  "rejectMutation p ctx c =
     bindS (catchS
       (bindS (ip_append p (auditEvent ctx ''rejected'' (Failed c))) (\<lambda>_.
          ip_finish p (ac_requestId ctx) Op_rejected))
       (\<lambda>_. ambiguousMutation p ctx))
     (\<lambda>_. issuer_fail c)"

definition completeMutation ::
  "'w issuer_ports \<Rightarrow> approval_context \<Rightarrow> audit_reason \<Rightarrow> ('w, issuer_exn, unit) meth" where
  "completeMutation p ctx reason =
     catchS
       (bindS (ip_append p (auditEvent ctx ''accepted'' reason)) (\<lambda>_.
          ip_finish p (ac_requestId ctx) Op_completed))
       (\<lambda>_. ambiguousMutation p ctx)"

definition invokeMutation ::
  "'w issuer_ports \<Rightarrow> approval_context \<Rightarrow> ('w, issuer_exn, kms_mutation_result) meth
    \<Rightarrow> ('w, issuer_exn, kms_mutation_result) meth" where
  "invokeMutation p ctx invoke = catchS invoke (\<lambda>_. ambiguousMutation p ctx)"

definition invokeSign ::
  "'w issuer_ports \<Rightarrow> approval_context \<Rightarrow> ('w, issuer_exn, kms_sign_result) meth
    \<Rightarrow> ('w, issuer_exn, kms_sign_result) meth" where
  "invokeSign p ctx invoke = catchS invoke (\<lambda>_. give_up p ctx SIGNING_RESULT_AMBIGUOUS)"

definition reserveOperation ::
  "'w issuer_ports \<Rightarrow> approval_context \<Rightarrow> string \<Rightarrow> ('w, issuer_exn, unit) meth" where
  "reserveOperation p ctx fingerprint =
     bindS (catchS (ip_reserve p (ac_requestId ctx) fingerprint)
              (\<lambda>_. issuer_fail PROVIDER_UNAVAILABLE))
       (\<lambda>r. if r \<noteq> Op_reserved then issuer_fail REQUEST_ALREADY_USED else returnS ())"

section \<open>Dual approval\<close>

definition approval_fits :: "approval_context \<Rightarrow> approval_evidence \<Rightarrow> bool" where
  "approval_fits ctx a \<longleftrightarrow> plain_id (ae_approvalId a) \<and> plain_id (ae_approverId a)
     \<and> ae_requestId a = ac_requestId ctx \<and> ae_tenantId a = ac_tenantId ctx
     \<and> ae_operation a = ac_operation ctx \<and> ae_bindingDigest a = ac_bindingDigest ctx
     \<and> sha256_digest (ae_bindingDigest a)
     \<and> safe_integer (ae_approvedAt a) \<and> safe_integer (ae_expiresAt a)
     \<and> \<not> ac_at ctx < ae_approvedAt a \<and> \<not> ae_expiresAt a \<le> ac_at ctx
     \<and> \<not> ae_expiresAt a \<le> ae_approvedAt a"

fun collect_approvals ::
  "approval_context \<Rightarrow> approval_evidence list \<Rightarrow> string set \<Rightarrow> string set
    \<Rightarrow> issuer_exn + string set \<times> string set" where
  "collect_approvals ctx [] ids approvers = Inr (ids, approvers)"
| "collect_approvals ctx (a # as) ids approvers =
     (if \<not> approval_fits ctx a then Inl (Issuer_error APPROVAL_INVALID)
      else collect_approvals ctx as (insert (ae_approvalId a) ids) (insert (ae_approverId a) approvers))"

definition check_approvals :: "approval_context \<Rightarrow> approval_evidence list \<Rightarrow> issuer_exn + unit" where
  "check_approvals ctx evidence =
     (if length evidence < 2 then Inl (Issuer_error DUAL_APPROVAL_REQUIRED)
      else bindE (collect_approvals ctx evidence {} {}) (\<lambda>(ids, approvers).
        if card ids < 2 \<or> card approvers < 2 then Inl (Issuer_error DUAL_APPROVAL_REQUIRED) else Inr ()))"

definition requireDualApproval ::
  "'w issuer_ports \<Rightarrow> approval_context \<Rightarrow> ('w, issuer_exn, unit) meth" where
  "requireDualApproval p ctx =
     bindS (catchS (ip_approvalsFor p ctx) (\<lambda>_. issuer_fail APPROVAL_UNAVAILABLE))
       (\<lambda>evidence. pureS (check_approvals ctx evidence))"

section \<open>Operations\<close>

definition describeKey ::
  "'w issuer_ports \<Rightarrow> string \<Rightarrow> ('w, issuer_exn, key_descriptor option) meth" where
  "describeKey p keyRef =
     bindS (pureS (ensureKeyRef keyRef)) (\<lambda>ref.
     catchS
       (bindS (ip_describeKey p ref) (\<lambda>d. case d of
            None \<Rightarrow> returnS None
          | Some x \<Rightarrow> bindS (pureS (ensureDescriptor x ref)) (\<lambda>y. returnS (Some y))))
       (\<lambda>e. issuer_fail (normalizeError e)))"

text \<open>The preconditions of an operation: a failure is audited before it is thrown.\<close>

definition audited ::
  "'w issuer_ports \<Rightarrow> approval_context \<Rightarrow> ('w, issuer_exn, unit) meth \<Rightarrow> ('w, issuer_exn, unit) meth" where
  "audited p ctx m = catchS m (\<lambda>e.
     bindS (auditBeforeProvider p ctx (normalizeError e)) (\<lambda>_. issuer_fail (normalizeError e)))"

text \<open>\<open>digest\<close>; \<open>sha\<close> is SHA-256 as lowercase hex.\<close>

definition digest :: "(string \<Rightarrow> string) \<Rightarrow> string \<Rightarrow> string" where
  "digest sha v = ''sha256:'' @ sha v"

definition join_nul :: "string list \<Rightarrow> string" where
  "join_nul parts = (case parts of [] \<Rightarrow> [] | x # xs \<Rightarrow> foldl nul_join x xs)"

definition sign_context :: "(string \<Rightarrow> string) \<Rightarrow> issuer_sign_request \<Rightarrow> approval_context" where
  "sign_context sha rq = \<lparr>ac_requestId = sr_requestId rq, ac_tenantId = sr_tenantId rq,
     ac_operation = ''sign'',
     ac_bindingDigest = digest sha (join_nul [sr_tenantId rq, ''sign'', sr_keyRef rq,
        sr_algorithm rq, digest sha (sr_payload rq)]),
     ac_at = sr_at rq\<rparr>"

definition check_sign_request :: "issuer_sign_request \<Rightarrow> issuer_exn + unit" where
  "check_sign_request rq =
     bindE (safe_id (sr_requestId rq)) (\<lambda>_. bindE (safe_id (sr_tenantId rq)) (\<lambda>_.
     bindE (ensureKeyRef (sr_keyRef rq)) (\<lambda>_. bindE (ensureAlgorithm (sr_algorithm rq)) (\<lambda>_.
     bindE (ensurePayload (sr_payload rq)) (\<lambda>_. bindE (safe_time (sr_at rq)) (\<lambda>_. Inr ()))))))"

definition sign_preconditions ::
  "'w issuer_ports \<Rightarrow> approval_context \<Rightarrow> string \<Rightarrow> string \<Rightarrow> ('w, issuer_exn, unit) meth" where
  "sign_preconditions p ctx keyRef algorithm =
     bindS (describeKey p keyRef) (\<lambda>key. case key of
         None \<Rightarrow> issuer_fail KEY_NOT_FOUND
       | Some k \<Rightarrow>
           if kd_status k \<noteq> ''active'' then issuer_fail (keyStateCode (kd_status k))
           else if kd_algorithm k \<noteq> algorithm then issuer_fail ALGORITHM_MISMATCH
           else requireDualApproval p ctx)"

definition usable_signature :: "string \<Rightarrow> kms_signature \<Rightarrow> bool" where
  "usable_signature algorithm k \<longleftrightarrow> ks_algorithm k = algorithm \<and> plain_id (ks_keyVersion k)
     \<and> length (ks_signature k) \<noteq> 0 \<and> int (length (ks_signature k)) \<le> 8192"

text \<open>\<open>audit.append\<close> and \<open>finish\<close>; if one of them throws, the operation is marked ambiguous.\<close>

definition record_sign_outcome ::
  "'w issuer_ports \<Rightarrow> approval_context \<Rightarrow> string \<Rightarrow> audit_reason \<Rightarrow> operation_outcome
    \<Rightarrow> ('w, issuer_exn, unit) meth" where
  "record_sign_outcome p ctx word reason r =
     catchS
       (bindS (ip_append p (auditEvent ctx word reason)) (\<lambda>_. ip_finish p (ac_requestId ctx) r))
       (\<lambda>_. bindS (markAmbiguous p (ac_requestId ctx)) (\<lambda>_. issuer_fail SIGNING_RESULT_AMBIGUOUS))"

definition sign :: "'w issuer_ports \<Rightarrow> (string \<Rightarrow> string) \<Rightarrow> issuer_sign_request
    \<Rightarrow> ('w, issuer_exn, issuer_signature) meth" where
  "sign p sha rq =
     bindS (pureS (check_sign_request rq)) (\<lambda>_.
     let ctx = sign_context sha rq in
     bindS (audited p ctx (sign_preconditions p ctx (sr_keyRef rq) (sr_algorithm rq))) (\<lambda>_.
     bindS (reserveOperation p ctx (digest sha (join_nul [''sign'', sr_tenantId rq, sr_keyRef rq,
              digest sha (sr_payload rq)]))) (\<lambda>_.
     bindS (invokeSign p ctx (ip_sign p (sr_requestId rq) (sr_keyRef rq) (sr_algorithm rq) (sr_payload rq))) (\<lambda>r.
     case r of
       Kms_sign_ambiguous \<Rightarrow> give_up p ctx SIGNING_RESULT_AMBIGUOUS
     | Kms_sign_rejected c \<Rightarrow>
         bindS (record_sign_outcome p ctx ''rejected'' (Failed (providerCode c)) Op_rejected)
           (\<lambda>_. issuer_fail (providerCode c))
     | Kms_signed k \<Rightarrow>
         if \<not> usable_signature (sr_algorithm rq) k then give_up p ctx SIGNING_RESULT_AMBIGUOUS
         else bindS (record_sign_outcome p ctx ''accepted'' SIGNED Op_signed) (\<lambda>_.
           returnS \<lparr>sg_requestId = sr_requestId rq, sg_keyRef = sr_keyRef rq,
              sg_keyVersion = ks_keyVersion k, sg_algorithm = sr_algorithm rq,
              sg_signature = ks_signature k\<rparr>)))))"

definition rotate_context :: "(string \<Rightarrow> string) \<Rightarrow> rotate_request \<Rightarrow> approval_context" where
  "rotate_context sha rq = \<lparr>ac_requestId = rr_requestId rq, ac_tenantId = rr_tenantId rq,
     ac_operation = ''rotate'',
     ac_bindingDigest = digest sha (join_nul [rr_tenantId rq, ''rotate'', rr_currentKeyRef rq, rr_nextKeyRef rq]),
     ac_at = rr_at rq\<rparr>"

definition check_rotate_request :: "rotate_request \<Rightarrow> issuer_exn + unit" where
  "check_rotate_request rq =
     bindE (safe_id (rr_requestId rq)) (\<lambda>_. bindE (safe_id (rr_tenantId rq)) (\<lambda>_.
     bindE (ensureKeyRef (rr_currentKeyRef rq)) (\<lambda>_. bindE (ensureKeyRef (rr_nextKeyRef rq)) (\<lambda>_.
     bindE (safe_time (rr_at rq)) (\<lambda>_.
     if rr_currentKeyRef rq = rr_nextKeyRef rq then Inl (Issuer_error INVALID_REQUEST) else Inr ())))))"

text \<open>
  \<open>Promise.all\<close> starts both reads; the reads are modelled in their order, the second one runs
  even when the first throws, and the first error wins.
\<close>

definition both :: "('w, 'e, 'a) meth \<Rightarrow> ('w, 'e, 'b) meth \<Rightarrow> ('w, 'e, 'a \<times> 'b) meth" where
  "both m n s = (case m s of (r, t) \<Rightarrow> (case n t of (q, u) \<Rightarrow>
     (bindE r (\<lambda>x. bindE q (\<lambda>y. Inr (x, y))), u)))"

definition rotate_preconditions ::
  "'w issuer_ports \<Rightarrow> approval_context \<Rightarrow> rotate_request \<Rightarrow> ('w, issuer_exn, unit) meth" where
  "rotate_preconditions p ctx rq =
     bindS (both (describeKey p (rr_currentKeyRef rq)) (describeKey p (rr_nextKeyRef rq))) (\<lambda>(c, n).
     case c of None \<Rightarrow> issuer_fail KEY_NOT_FOUND | Some current \<Rightarrow>
     (case n of None \<Rightarrow> issuer_fail KEY_NOT_FOUND | Some nxt \<Rightarrow>
       if kd_status current \<noteq> ''active'' \<or> kd_status nxt \<noteq> ''standby'' then issuer_fail KEY_NOT_ACTIVE
       else if kd_algorithm current \<noteq> kd_algorithm nxt then issuer_fail ALGORITHM_MISMATCH
       else requireDualApproval p ctx))"

text \<open>The keys read back after the provider has reported a rotation as completed.\<close>

definition rotated_version :: "'w issuer_ports \<Rightarrow> rotate_request \<Rightarrow> ('w, issuer_exn, string option) meth" where
  "rotated_version p rq =
     bindS (describeKey p (rr_nextKeyRef rq)) (\<lambda>n.
     bindS (describeKey p (rr_currentKeyRef rq)) (\<lambda>previous.
     returnS (case n of None \<Rightarrow> None
       | Some nxt \<Rightarrow>
           if kd_status nxt \<noteq> ''active''
              \<or> (case previous of None \<Rightarrow> False | Some x \<Rightarrow> kd_status x = ''active'')
           then None else Some (kd_version nxt))))"

definition rotate :: "'w issuer_ports \<Rightarrow> (string \<Rightarrow> string) \<Rightarrow> rotate_request
    \<Rightarrow> ('w, issuer_exn, rotation_receipt) meth" where
  "rotate p sha rq =
     bindS (pureS (check_rotate_request rq)) (\<lambda>_.
     let ctx = rotate_context sha rq in
     bindS (audited p ctx (rotate_preconditions p ctx rq)) (\<lambda>_.
     bindS (reserveOperation p ctx (digest sha (join_nul [''rotate'', rr_tenantId rq,
              rr_currentKeyRef rq, rr_nextKeyRef rq]))) (\<lambda>_.
     bindS (invokeMutation p ctx
              (ip_rotate p (rr_requestId rq) (rr_currentKeyRef rq) (rr_nextKeyRef rq))) (\<lambda>r.
     case r of
       Kms_rejected c \<Rightarrow> rejectMutation p ctx (providerCode c)
     | Kms_ambiguous \<Rightarrow> ambiguousMutation p ctx
     | Kms_completed \<Rightarrow>
         bindS (catchS (rotated_version p rq) (\<lambda>_. returnS None)) (\<lambda>v. case v of
             None \<Rightarrow> ambiguousMutation p ctx
           | Some version \<Rightarrow>
               bindS (completeMutation p ctx ROTATED) (\<lambda>_.
               returnS \<lparr>rc_requestId = rr_requestId rq, rc_previousKeyRef = rr_currentKeyRef rq,
                 rc_activeKeyRef = rr_nextKeyRef rq, rc_activeVersion = version\<rparr>))))))"

definition disable_context :: "(string \<Rightarrow> string) \<Rightarrow> disable_request \<Rightarrow> approval_context" where
  "disable_context sha rq = \<lparr>ac_requestId = dr_requestId rq, ac_tenantId = dr_tenantId rq,
     ac_operation = ''disable'',
     ac_bindingDigest = digest sha (join_nul [dr_tenantId rq, ''disable'', dr_keyRef rq]),
     ac_at = dr_at rq\<rparr>"

definition check_disable_request :: "disable_request \<Rightarrow> issuer_exn + unit" where
  "check_disable_request rq =
     bindE (safe_id (dr_requestId rq)) (\<lambda>_. bindE (safe_id (dr_tenantId rq)) (\<lambda>_.
     bindE (ensureKeyRef (dr_keyRef rq)) (\<lambda>_. bindE (safe_time (dr_at rq)) (\<lambda>_. Inr ()))))"

definition disable_preconditions ::
  "'w issuer_ports \<Rightarrow> approval_context \<Rightarrow> string \<Rightarrow> ('w, issuer_exn, unit) meth" where
  "disable_preconditions p ctx keyRef =
     bindS (describeKey p keyRef) (\<lambda>key. case key of
         None \<Rightarrow> issuer_fail KEY_NOT_FOUND
       | Some k \<Rightarrow> if kd_status k = ''disabled'' then issuer_fail KEY_DISABLED
           else requireDualApproval p ctx)"

definition confirmed_disabled :: "'w issuer_ports \<Rightarrow> string \<Rightarrow> ('w, issuer_exn, bool) meth" where
  "confirmed_disabled p keyRef = bindS (describeKey p keyRef) (\<lambda>d.
     returnS (case d of None \<Rightarrow> False | Some k \<Rightarrow> kd_status k = ''disabled''))"

definition disable :: "'w issuer_ports \<Rightarrow> (string \<Rightarrow> string) \<Rightarrow> disable_request
    \<Rightarrow> ('w, issuer_exn, unit) meth" where
  "disable p sha rq =
     bindS (pureS (check_disable_request rq)) (\<lambda>_.
     let ctx = disable_context sha rq in
     bindS (audited p ctx (disable_preconditions p ctx (dr_keyRef rq))) (\<lambda>_.
     bindS (reserveOperation p ctx (digest sha (join_nul [''disable'', dr_tenantId rq, dr_keyRef rq]))) (\<lambda>_.
     bindS (invokeMutation p ctx (ip_disable p (dr_requestId rq) (dr_keyRef rq))) (\<lambda>r.
     case r of
       Kms_rejected c \<Rightarrow> rejectMutation p ctx (providerCode c)
     | Kms_ambiguous \<Rightarrow> ambiguousMutation p ctx
     | Kms_completed \<Rightarrow>
         bindS (catchS (confirmed_disabled p (dr_keyRef rq)) (\<lambda>_. returnS False)) (\<lambda>ok.
           if ok then completeMutation p ctx DISABLED else ambiguousMutation p ctx)))))"

section \<open>The local development adapter\<close>

text \<open>The private key itself is a handle that only the signing primitive reads.\<close>

record dev_key =
  dk_keyRef :: string
  dk_version :: string
  dk_algorithm :: string
  dk_status :: string
  dk_private :: bool
  dk_extractable :: bool

type_synonym dev_keys = "string \<rightharpoonup> dev_key"

fun dev_load :: "dev_key list \<Rightarrow> dev_keys \<Rightarrow> issuer_exn + dev_keys" where
  "dev_load [] m = Inr m"
| "dev_load (k # ks) m =
     bindE (ensureKeyRef (dk_keyRef k)) (\<lambda>keyRef.
     if m keyRef \<noteq> None \<or> \<not> plain_id (dk_version k) \<or> \<not> dk_private k \<or> dk_extractable k
     then Inl Foreign_error
     else bindE (ensureAlgorithm (dk_algorithm k)) (\<lambda>_. dev_load ks (m(keyRef \<mapsto> k))))"

definition dev_adapter :: "bool \<Rightarrow> dev_key list \<Rightarrow> issuer_exn + dev_keys" where
  "dev_adapter acknowledged keys =
     (if \<not> acknowledged \<or> keys = [] then Inl Foreign_error else dev_load keys Map.empty)"

definition dev_describeKey :: "string \<Rightarrow> (dev_keys, issuer_exn, key_descriptor option) meth" where
  "dev_describeKey keyRef = bindS (pureS (ensureKeyRef keyRef)) (\<lambda>ref m.
     (Inr (map_option (\<lambda>k. \<lparr>kd_keyRef = dk_keyRef k, kd_algorithm = dk_algorithm k,
        kd_status = dk_status k, kd_version = dk_version k\<rparr>) (m ref)), m))"

text \<open>\<open>crypto k payload\<close> is WebCrypto's \<open>sign\<close>, \<open>None\<close> when it throws.\<close>

definition dev_sign :: "(dev_key \<Rightarrow> string \<Rightarrow> string option) \<Rightarrow> string \<Rightarrow> string \<Rightarrow> string \<Rightarrow> string
    \<Rightarrow> (dev_keys, issuer_exn, kms_sign_result) meth" where
  "dev_sign crypto operationId keyRef algorithm payload =
     bindS (pureS (safe_id operationId)) (\<lambda>_.
     bindS (pureS (ensureKeyRef keyRef)) (\<lambda>ref m. case m ref of
         None \<Rightarrow> (Inr (Kms_sign_rejected Kms_key_not_found), m)
       | Some k \<Rightarrow>
           if dk_status k = ''disabled'' then (Inr (Kms_sign_rejected Kms_key_disabled), m)
           else if dk_status k \<noteq> ''active'' then (Inr (Kms_sign_rejected Kms_key_not_active), m)
           else (case ensureAlgorithm algorithm of
               Inl e \<Rightarrow> (Inl e, m)
             | Inr alg \<Rightarrow>
                 if dk_algorithm k \<noteq> alg then (Inr (Kms_sign_rejected Kms_algorithm_mismatch), m)
                 else (case ensurePayload payload of
                     Inl e \<Rightarrow> (Inl e, m)
                   | Inr bytes \<Rightarrow> (case crypto k bytes of
                         None \<Rightarrow> (Inr Kms_sign_ambiguous, m)
                       | Some sig \<Rightarrow> (Inr (Kms_signed \<lparr>ks_signature = sig,
                           ks_algorithm = dk_algorithm k, ks_keyVersion = dk_version k\<rparr>), m))))))"

definition dev_rotate :: "string \<Rightarrow> string \<Rightarrow> string \<Rightarrow> (dev_keys, issuer_exn, kms_mutation_result) meth" where
  "dev_rotate operationId currentRef nextRef =
     bindS (pureS (safe_id operationId)) (\<lambda>_.
     bindS (pureS (ensureKeyRef currentRef)) (\<lambda>c.
     bindS (pureS (ensureKeyRef nextRef)) (\<lambda>n m. case m c of
         None \<Rightarrow> (Inr (Kms_rejected Kms_key_not_found), m)
       | Some current \<Rightarrow> (case m n of
           None \<Rightarrow> (Inr (Kms_rejected Kms_key_not_found), m)
         | Some nxt \<Rightarrow>
             if dk_status current = ''disabled'' \<or> dk_status nxt = ''disabled''
             then (Inr (Kms_rejected Kms_key_disabled), m)
             else if dk_status current \<noteq> ''active'' \<or> dk_status nxt \<noteq> ''standby''
             then (Inr (Kms_rejected Kms_key_not_active), m)
             else if dk_algorithm current \<noteq> dk_algorithm nxt
             then (Inr (Kms_rejected Kms_algorithm_mismatch), m)
             else (Inr Kms_completed, m(c \<mapsto> current\<lparr>dk_status := ''rotated''\<rparr>,
                     n \<mapsto> nxt\<lparr>dk_status := ''active''\<rparr>))))))"

definition dev_disable :: "string \<Rightarrow> string \<Rightarrow> (dev_keys, issuer_exn, kms_mutation_result) meth" where
  "dev_disable operationId keyRef =
     bindS (pureS (safe_id operationId)) (\<lambda>_.
     bindS (pureS (ensureKeyRef keyRef)) (\<lambda>ref m. case m ref of
         None \<Rightarrow> (Inr (Kms_rejected Kms_key_not_found), m)
       | Some k \<Rightarrow>
           if dk_status k = ''disabled'' then (Inr (Kms_rejected Kms_key_disabled), m)
           else (Inr Kms_completed, m(ref \<mapsto> k\<lparr>dk_status := ''disabled''\<rparr>))))"

text \<open>
  The local signer: the development adapter, the in-memory operation store, and approval and
  audit services of their own state.
\<close>

record 'x local_world =
  lw_keys :: dev_keys
  lw_ops :: op_store
  lw_rest :: 'x

definition on_keys :: "(dev_keys, issuer_exn, 'a) meth \<Rightarrow> ('x local_world, issuer_exn, 'a) meth" where
  "on_keys m w = (case m (lw_keys w) of (r, k) \<Rightarrow> (r, w\<lparr>lw_keys := k\<rparr>))"

definition on_ops :: "(op_store, issuer_exn, 'a) meth \<Rightarrow> ('x local_world, issuer_exn, 'a) meth" where
  "on_ops m w = (case m (lw_ops w) of (r, k) \<Rightarrow> (r, w\<lparr>lw_ops := k\<rparr>))"

definition on_rest :: "('x, issuer_exn, 'a) meth \<Rightarrow> ('x local_world, issuer_exn, 'a) meth" where
  "on_rest m w = (case m (lw_rest w) of (r, k) \<Rightarrow> (r, w\<lparr>lw_rest := k\<rparr>))"

definition local_ports ::
  "(dev_key \<Rightarrow> string \<Rightarrow> string option)
    \<Rightarrow> (approval_context \<Rightarrow> ('x, issuer_exn, approval_evidence list) meth)
    \<Rightarrow> (audit_event \<Rightarrow> ('x, issuer_exn, unit) meth) \<Rightarrow> 'x local_world issuer_ports" where
  "local_ports crypto approvals audit = \<lparr>
     ip_describeKey = (\<lambda>r. on_keys (dev_describeKey r)),
     ip_sign = (\<lambda>i r a b. on_keys (dev_sign crypto i r a b)),
     ip_rotate = (\<lambda>i c n. on_keys (dev_rotate i c n)),
     ip_disable = (\<lambda>i r. on_keys (dev_disable i r)),
     ip_approvalsFor = (\<lambda>ctx. on_rest (approvals ctx)),
     ip_reserve = (\<lambda>i f. on_ops (op_reserve i f)),
     ip_finish = (\<lambda>i r. on_ops (op_finish i r)),
     ip_append = (\<lambda>e. on_rest (audit e))\<rparr>"

end
