(* ===== verification/IssuerSignerProps.thy ===== *)
theory IssuerSignerProps
  imports IssuerSigner
begin

text \<open>
  Properties of the issuer signer: the operation store (an instance of one_shot, and the block
  on unresolved operations), two-person approval, the order in which the ports are called, the
  lifecycle of the development adapter's keys, and the outcome the local signer records for
  every result.
\<close>

section \<open>The operation store\<close>

lemma op_reserve_cases:
  obtains (duplicate) "op_reserve i f s = (Inr Duplicate_request, s)" "os_operations s i \<noteq> None"
  | (unresolved) "op_reserve i f s = (Inr Unresolved_operation, s)" "os_operations s i = None"
      "os_unresolved s f \<noteq> None"
  | (reserved) "op_reserve i f s = (Inr Op_reserved,
        s\<lparr>os_operations := (os_operations s)(i \<mapsto> \<lparr>so_fingerprint = f, so_outcome = None\<rparr>),
          os_unresolved := (os_unresolved s)(f \<mapsto> i)\<rparr>)"
      "os_operations s i = None" "os_unresolved s f = None"
  by (cases "os_operations s i = None"; cases "os_unresolved s f = None") (auto simp: op_reserve_def)

lemma op_finish_cases:
  obtains (unknown) "op_finish i r s = (Inl Foreign_error, s)" "os_operations s i = None"
  | (finished) x where "os_operations s i = Some x"
      "op_finish i r s = (Inr (), s\<lparr>os_operations := (os_operations s)(i \<mapsto> x\<lparr>so_outcome := Some r\<rparr>),
           os_unresolved := (if r \<noteq> Op_ambiguous then (os_unresolved s)(so_fingerprint x := None)
              else os_unresolved s)\<rparr>)"
  by (cases "os_operations s i") (auto simp: op_finish_def)

definition op_attempt :: "string \<times> string \<Rightarrow> op_store \<Rightarrow> bool \<times> op_store" where
  "op_attempt i s = (fst (op_reserve (fst i) (snd i) s) = Inr Op_reserved, snd (op_reserve (fst i) (snd i) s))"

definition op_finish_step :: "op_store \<Rightarrow> op_store \<Rightarrow> bool" where
  "op_finish_step s t \<longleftrightarrow> (\<exists>i r. t = snd (op_finish i r s))"

lemma op_finish_dom: "dom (os_operations (snd (op_finish i r s))) = dom (os_operations s)"
  by (cases rule: op_finish_cases [where i = i and r = r and s = s]) auto

lemma op_finish_stepE:
  assumes "op_finish_step s t" obtains i r where "t = snd (op_finish i r s)"
  using assms by (auto simp: op_finish_step_def)

interpretation operations: one_shot op_attempt fst op_finish_step "\<lambda>s. dom (os_operations s)"
proof unfold_locales
  show "fst i \<notin> dom (os_operations s)" if "op_attempt i s = (True, t)" for i s t
    using that by (cases rule: op_reserve_cases [where i = "fst i" and f = "snd i" and s = s]) (auto simp: op_attempt_def)
  show "fst i \<in> dom (os_operations t)" if "op_attempt i s = (True, t)" for i s t
    using that by (cases rule: op_reserve_cases [where i = "fst i" and f = "snd i" and s = s]) (auto simp: op_attempt_def)
  show "dom (os_operations s) \<subseteq> dom (os_operations t)" if "op_attempt i s = (b, t)" for i s b t
    using that by (cases rule: op_reserve_cases [where i = "fst i" and f = "snd i" and s = s]) (auto simp: op_attempt_def)
  show "dom (os_operations s) \<subseteq> dom (os_operations t)" if "op_finish_step s t" for s t
    using that by (elim op_finish_stepE) (simp add: op_finish_dom)
qed

text \<open>
  No request id is reserved twice in the operation store, whatever reservations and
  finishes are interleaved.
\<close>

theorem operation_reserved_at_most_once:
  assumes "one_shot_run op_attempt fst op_finish_step s ids t"
  shows "distinct ids \<and> set ids \<inter> dom (os_operations s) = {}"
  using operations.run_distinct [OF assms] operations.run_fresh [OF assms] by blast

text \<open>An operation is open while it is pending or ambiguous.\<close>

definition open_op :: "stored_operation \<Rightarrow> bool" where
  "open_op x \<longleftrightarrow> so_outcome x = None \<or> so_outcome x = Some Op_ambiguous"

lemma open_op_simps [simp]:
  "open_op \<lparr>so_fingerprint = f, so_outcome = None\<rparr>"
  "open_op (x\<lparr>so_outcome := Some r\<rparr>) \<longleftrightarrow> r = Op_ambiguous"
  by (simp_all add: open_op_def)

definition op_store_ok :: "op_store \<Rightarrow> bool" where
  "op_store_ok s \<longleftrightarrow> (\<forall>i x. os_operations s i = Some x \<and> open_op x \<longrightarrow> os_unresolved s (so_fingerprint x) = Some i)
     \<and> (\<forall>f i. os_unresolved s f = Some i \<longrightarrow> (\<exists>x. os_operations s i = Some x \<and> so_fingerprint x = f \<and> open_op x))"

lemma op_store_okD:
  "op_store_ok s \<Longrightarrow> os_operations s i = Some x \<Longrightarrow> open_op x \<Longrightarrow> os_unresolved s (so_fingerprint x) = Some i"
  "op_store_ok s \<Longrightarrow> os_unresolved s f = Some i
    \<Longrightarrow> \<exists>x. os_operations s i = Some x \<and> so_fingerprint x = f \<and> open_op x"
  unfolding op_store_ok_def by blast+

text \<open>
  Reservations, and \<open>finish\<close> of an open operation: the signer finishes only what it has just
  reserved, and a reconciliation finishes what was left ambiguous.
\<close>

inductive op_step :: "op_store \<Rightarrow> op_store \<Rightarrow> bool" where
  op_step_reserve: "op_step s (snd (op_reserve i f s))"
| op_step_finish: "os_operations s i = Some x \<Longrightarrow> open_op x \<Longrightarrow> op_step s (snd (op_finish i r s))"

lemma op_store_ok_reserve: "op_store_ok s \<Longrightarrow> op_store_ok (snd (op_reserve i f s))"
proof (cases rule: op_reserve_cases [where i = i and f = f and s = s])
  case reserved
  assume ok: "op_store_ok s"
  have "os_unresolved s g \<noteq> Some i" for g
    using op_store_okD(2) [OF ok] reserved(2) by fastforce
  moreover have "so_fingerprint x \<noteq> f" if "os_operations s j = Some x" "open_op x" for j x
    using op_store_okD(1) [OF ok that] reserved(3) by auto
  ultimately show ?thesis using ok unfolding reserved(1) by (simp add: op_store_ok_def) blast
qed simp_all

lemma op_store_ok_finish:
  assumes "op_store_ok s" "os_operations s i = Some x" "open_op x"
  shows "op_store_ok (snd (op_finish i r s))"
proof -
  have u: "os_unresolved s (so_fingerprint x) = Some i" using assms by (auto simp: op_store_ok_def)
  have other: "so_fingerprint y \<noteq> so_fingerprint x" if "os_operations s j = Some y" "open_op y" "j \<noteq> i" for j y
    using assms(1) that u unfolding op_store_ok_def by (metis option.inject)
  let ?t = "snd (op_finish i r s)"
  have ops: "os_operations ?t = (os_operations s)(i \<mapsto> x\<lparr>so_outcome := Some r\<rparr>)"
    and unr: "os_unresolved ?t = (if r = Op_ambiguous then os_unresolved s
       else (os_unresolved s)(so_fingerprint x := None))"
    using assms(2) by (simp_all add: op_finish_def)
  show ?thesis
    unfolding op_store_ok_def
  proof (intro conjI allI impI; (elim conjE)?)
    fix j y assume y: "os_operations ?t j = Some y" "open_op y"
    show "os_unresolved ?t (so_fingerprint y) = Some j"
    proof (cases "j = i")
      case True
      with y u show ?thesis by (auto simp: ops unr)
    next
      case False
      with y have "os_operations s j = Some y" by (simp add: ops)
      with other [OF this y(2) False] op_store_okD(1) [OF assms(1) this y(2)] show ?thesis
        by (simp add: unr)
    qed
  next
    fix f j assume "os_unresolved ?t f = Some j"
    then have f: "os_unresolved s f = Some j" "r \<noteq> Op_ambiguous \<Longrightarrow> f \<noteq> so_fingerprint x"
      by (auto simp: unr split: if_splits)
    then obtain y where y: "os_operations s j = Some y" "so_fingerprint y = f" "open_op y"
      using op_store_okD(2) [OF assms(1)] by blast
    then show "\<exists>y. os_operations ?t j = Some y \<and> so_fingerprint y = f \<and> open_op y"
      using f assms(2) by (cases "j = i") (auto simp: ops)
  qed
qed

lemma op_step_ok: "op_step s t \<Longrightarrow> op_store_ok s \<Longrightarrow> op_store_ok t"
  by (induction rule: op_step.induct) (auto intro: op_store_ok_reserve op_store_ok_finish)

lemma op_steps_ok: "op_step\<^sup>*\<^sup>* s t \<Longrightarrow> op_store_ok s \<Longrightarrow> op_store_ok t"
  by (induction rule: rtranclp_induct) (auto intro: op_step_ok)

text \<open>
  While an operation is pending or ambiguous, no new request id can reserve the same
  operation, and no second open operation has its fingerprint.
\<close>

theorem unresolved_operation_blocks_retry:
  assumes "op_step\<^sup>*\<^sup>* empty_op_store s" "os_operations s i = Some x" "open_op x"
  shows "fst (op_reserve j (so_fingerprint x) s) \<noteq> Inr Op_reserved
    \<and> (\<forall>k y. os_operations s k = Some y \<and> open_op y \<and> so_fingerprint y = so_fingerprint x \<longrightarrow> k = i)"
proof -
  have ok: "op_store_ok s" using op_steps_ok [OF assms(1)] by (simp add: op_store_ok_def empty_op_store_def)
  note u = op_store_okD(1) [OF ok assms(2,3)]
  have "k = i" if "os_operations s k = Some y" "open_op y" "so_fingerprint y = so_fingerprint x" for k y
    using op_store_okD(1) [OF ok that(1,2)] that(3) u by simp
  with u show ?thesis by (auto simp: op_reserve_def)
qed

section \<open>Dual approval\<close>

lemma collect_approvals_Inr:
  "collect_approvals ctx as ids us = Inr (ids', us') \<Longrightarrow>
     (\<forall>a\<in>set as. approval_fits ctx a) \<and> ids' = ids \<union> ae_approvalId ` set as \<and> us' = us \<union> ae_approverId ` set as"
proof (induction as arbitrary: ids us)
  case (Cons a as)
  then have "approval_fits ctx a"
    and r: "collect_approvals ctx as (insert (ae_approvalId a) ids) (insert (ae_approverId a) us) = Inr (ids', us')"
    by (auto split: if_splits)
  with Cons.IH [OF r] show ?case by simp
qed simp

lemma two_distinct:
  assumes "finite A" "2 \<le> card A" shows "\<exists>x\<in>A. \<exists>y\<in>A. x \<noteq> y"
proof (rule ccontr)
  assume *: "\<not> (\<exists>x\<in>A. \<exists>y\<in>A. x \<noteq> y)"
  then show False
  proof (cases "A = {}")
    case False
    then obtain x where "A = {x}" using * by blast
    with assms show False by simp
  qed (use assms in simp)
qed

definition dual_approved :: "approval_context \<Rightarrow> approval_evidence list \<Rightarrow> bool" where
  "dual_approved ctx as \<longleftrightarrow> (\<forall>a\<in>set as. approval_fits ctx a)
     \<and> (\<exists>a\<in>set as. \<exists>b\<in>set as. ae_approverId a \<noteq> ae_approverId b)
     \<and> (\<exists>a\<in>set as. \<exists>b\<in>set as. ae_approvalId a \<noteq> ae_approvalId b)"

lemma check_approvals_Inr: "check_approvals ctx as = Inr u \<Longrightarrow> dual_approved ctx as"
proof -
  assume "check_approvals ctx as = Inr u"
  then obtain ids us where c: "collect_approvals ctx as {} {} = Inr (ids, us)"
    and n: "2 \<le> card ids" "2 \<le> card us"
    by (auto simp: check_approvals_def result_simps split: if_splits)
  note r = collect_approvals_Inr [OF c]
  then have i: "ids = ae_approvalId ` set as" and u: "us = ae_approverId ` set as" by auto
  have "\<exists>x\<in>ae_approvalId ` set as. \<exists>y\<in>ae_approvalId ` set as. x \<noteq> y"
    using n(1) unfolding i by (intro two_distinct) auto
  moreover have "\<exists>x\<in>ae_approverId ` set as. \<exists>y\<in>ae_approverId ` set as. x \<noteq> y"
    using n(2) unfolding u by (intro two_distinct) auto
  ultimately show ?thesis using r unfolding dual_approved_def bex_simps by blast
qed

section \<open>The order of effects\<close>

datatype issuer_event =
    Approvals approval_context "approval_evidence list"
  | Reserved_op string string
  | Kms_call string
  | Finished_op string operation_outcome
  | Audited audit_event

text \<open>Ports that keep a log, newest event first.\<close>

definition logged ::
  "('e + 'a \<Rightarrow> issuer_event list) \<Rightarrow> ('w, 'e, 'a) meth \<Rightarrow> ('w \<times> issuer_event list, 'e, 'a) meth" where
  "logged ev m = (\<lambda>(w, l). case m w of (r, w') \<Rightarrow> (r, (w', ev r @ l)))"

definition traced :: "'w issuer_ports \<Rightarrow> ('w \<times> issuer_event list) issuer_ports" where
  "traced p = \<lparr>
     ip_describeKey = (\<lambda>r. logged (\<lambda>_. []) (ip_describeKey p r)),
     ip_sign = (\<lambda>i r a b. logged (\<lambda>_. [Kms_call i]) (ip_sign p i r a b)),
     ip_rotate = (\<lambda>i c n. logged (\<lambda>_. [Kms_call i]) (ip_rotate p i c n)),
     ip_disable = (\<lambda>i r. logged (\<lambda>_. [Kms_call i]) (ip_disable p i r)),
     ip_approvalsFor = (\<lambda>ctx. logged (\<lambda>r. case r of Inr as \<Rightarrow> [Approvals ctx as] | Inl _ \<Rightarrow> []) (ip_approvalsFor p ctx)),
     ip_reserve = (\<lambda>i f. logged (\<lambda>r. if r = Inr Op_reserved then [Reserved_op i f] else []) (ip_reserve p i f)),
     ip_finish = (\<lambda>i q. logged (\<lambda>r. if r = Inr () then [Finished_op i q] else []) (ip_finish p i q)),
     ip_append = (\<lambda>e. logged (\<lambda>r. if r = Inr () then [Audited e] else []) (ip_append p e))\<rparr>"

definition approved :: "string \<Rightarrow> issuer_event list \<Rightarrow> bool" where
  "approved i es \<longleftrightarrow> (\<exists>ctx as. Approvals ctx as \<in> set es \<and> ac_requestId ctx = i \<and> dual_approved ctx as)"

definition reserved_in :: "string \<Rightarrow> issuer_event list \<Rightarrow> bool" where
  "reserved_in i es \<longleftrightarrow> (\<exists>f. Reserved_op i f \<in> set es)"

text \<open>Every call of the key service comes after two approvals and the reservation of its id.\<close>

fun guarded :: "issuer_event list \<Rightarrow> bool" where
  "guarded [] = True"
| "guarded (Kms_call i # es) = (approved i es \<and> reserved_in i es \<and> guarded es)"
| "guarded (e # es) = guarded es"

definition quiet :: "'w \<times> issuer_event list \<Rightarrow> 'w \<times> issuer_event list \<Rightarrow> bool" where
  "quiet s t \<longleftrightarrow> (\<exists>es. snd t = es @ snd s \<and> (\<forall>i. Kms_call i \<notin> set es))"

lemma quiet_refl: "reflp quiet"
  by (rule reflpI) (simp add: quiet_def)

lemma quiet_trans: "transp quiet"
  by (rule transpI) (fastforce simp: quiet_def)

lemmas quiet_rules = keepsS_basic [OF quiet_refl] keepsS_bind [OF quiet_trans] keepsS_catch [OF quiet_trans]

lemma keepsS_both:
  assumes "transp R" "keepsS R m" "keepsS R n"
  shows "keepsS R (both m n)"
  unfolding keepsS_def
proof
  fix s
  show "R s (snd (both m n s))"
    using transpD [OF assms(1), of s "snd (m s)" "snd (n (snd (m s)))"] assms(2,3)
    by (auto simp: keepsS_def both_def split: prod.splits) 
qed

lemma quiet_logged: "(\<And>r i. Kms_call i \<notin> set (ev r)) \<Longrightarrow> keepsS quiet (logged ev m)"
  by (auto simp: keepsS_def quiet_def logged_def split: prod.splits)

lemma quiet_ports:
  "keepsS quiet (ip_describeKey (traced p) r)" "keepsS quiet (ip_approvalsFor (traced p) ctx)"
  "keepsS quiet (ip_reserve (traced p) i f)" "keepsS quiet (ip_finish (traced p) i q)"
  "keepsS quiet (ip_append (traced p) e)"
  by (simp_all add: traced_def quiet_logged split: sum.splits)

lemma quiet_fail: "keepsS quiet (issuer_fail c)"
  unfolding issuer_fail_def by (rule quiet_rules)

lemma quiet_give_up: "keepsS quiet (give_up (traced p) ctx c)"
  unfolding give_up_def markAmbiguous_def auditAmbiguous_def
  by (intro quiet_rules quiet_ports quiet_fail)

lemma quiet_describeKey: "keepsS quiet (describeKey (traced p) r)"
  unfolding describeKey_def
  by (intro quiet_rules quiet_ports quiet_fail) (auto intro: quiet_rules split: option.splits)

lemma quiet_helpers:
  "keepsS quiet (rejectMutation (traced p) ctx c)" "keepsS quiet (completeMutation (traced p) ctx reason)"
  "keepsS quiet (ambiguousMutation (traced p) ctx)" "keepsS quiet (record_sign_outcome (traced p) ctx w reason q)"
  "keepsS quiet (auditBeforeProvider (traced p) ctx c)" "keepsS quiet (markAmbiguous (traced p) i)"
  unfolding rejectMutation_def completeMutation_def ambiguousMutation_def record_sign_outcome_def
    auditBeforeProvider_def markAmbiguous_def
  by (intro quiet_rules quiet_ports quiet_fail quiet_give_up)+

lemma guarded_quiet: "guarded (snd s) \<Longrightarrow> quiet s t \<Longrightarrow> guarded (snd t)"
proof -
  have "guarded (es @ l) = guarded l" if "\<forall>i. Kms_call i \<notin> set es" for es l
    using that
  proof (induction es)
    case (Cons e es)
    then show ?case by (cases e) auto
  qed simp
  then show "guarded (snd s) \<Longrightarrow> quiet s t \<Longrightarrow> guarded (snd t)" by (auto simp: quiet_def)
qed

lemma approved_quiet: "approved i (snd s) \<Longrightarrow> quiet s t \<Longrightarrow> approved i (snd t)"
  unfolding quiet_def approved_def by (metis Un_iff set_append)

text \<open>The state in which the key service may be called for an id.\<close>

definition stage :: "bool \<Rightarrow> bool \<Rightarrow> string \<Rightarrow> 'w \<times> issuer_event list \<Rightarrow> bool" where
  "stage a r i s \<longleftrightarrow> guarded (snd s) \<and> (a \<longrightarrow> approved i (snd s)) \<and> (r \<longrightarrow> reserved_in i (snd s))"

lemma stage_quiet: "stage a r i s \<Longrightarrow> quiet s t \<Longrightarrow> stage a r i t"
  using guarded_quiet [of s t] approved_quiet [of i s t]
  by (auto simp: stage_def reserved_in_def quiet_def)

lemmas stage_keeps = tripleS_keeps [OF _ stage_quiet]

lemma stage_any: "keepsS quiet m \<Longrightarrow> tripleS (stage a r i) m (\<lambda>_. stage False False i) (\<lambda>_. stage False False i)"
  by (rule tripleS_weaken [OF stage_keeps]) (auto simp: stage_def)

lemma stage_approval:
  "tripleS (stage False False (ac_requestId ctx)) (requireDualApproval (traced p) ctx)
     (\<lambda>_. stage True False (ac_requestId ctx)) (\<lambda>_. stage False False (ac_requestId ctx))"
  unfolding requireDualApproval_def
proof (rule tripleS_bind)
  show "tripleS (stage False False (ac_requestId ctx))
      (catchS (ip_approvalsFor (traced p) ctx) (\<lambda>_. issuer_fail APPROVAL_UNAVAILABLE))
      (\<lambda>as s. stage False False (ac_requestId ctx) s \<and> Approvals ctx as \<in> set (snd s))
      (\<lambda>_. stage False False (ac_requestId ctx))"
    by (rule tripleS_catch [where F = "\<lambda>_. stage False False (ac_requestId ctx)"])
      (auto simp: tripleS_def traced_def logged_def stage_def issuer_fail_def split: prod.splits sum.splits)
  show "tripleS (\<lambda>s. stage False False (ac_requestId ctx) s \<and> Approvals ctx as \<in> set (snd s))
      (pureS (check_approvals ctx as)) (\<lambda>_. stage True False (ac_requestId ctx))
      (\<lambda>_. stage False False (ac_requestId ctx))" for as
    by (rule tripleS_basic) (auto simp: stage_def approved_def dest: check_approvals_Inr)
qed

lemma stage_fail: "tripleS (stage a r i) (issuer_fail c) Q (\<lambda>_. stage False False i)"
  unfolding issuer_fail_def by (rule tripleS_basic) (auto simp: stage_def)

lemma stage_audited:
  assumes "tripleS (stage False False (ac_requestId ctx)) m (\<lambda>_. stage True False (ac_requestId ctx))
    (\<lambda>_. stage False False (ac_requestId ctx))"
  shows "tripleS (stage False False (ac_requestId ctx)) (audited (traced p) ctx m)
    (\<lambda>_. stage True False (ac_requestId ctx)) (\<lambda>_. stage False False (ac_requestId ctx))"
  unfolding audited_def
  by (rule tripleS_catch [OF assms]) (rule tripleS_bind [OF stage_any stage_fail]; rule quiet_helpers)

lemma stage_reserve:
  "tripleS (stage True False (ac_requestId ctx)) (reserveOperation (traced p) ctx f)
     (\<lambda>_. stage True True (ac_requestId ctx)) (\<lambda>_. stage False False (ac_requestId ctx))"
  unfolding reserveOperation_def
  by (rule tripleS_bind [where R = "\<lambda>r s. stage True (r = Op_reserved) (ac_requestId ctx) s"],
      rule tripleS_catch [where F = "\<lambda>_. stage False False (ac_requestId ctx)"])
    (auto simp: tripleS_def traced_def logged_def stage_def issuer_fail_def approved_def reserved_in_def
       split: prod.splits sum.splits if_splits)

lemma stage_kms:
  "tripleS (stage True True i) (ip_sign (traced p) i r a b) (\<lambda>_. stage True True i) (\<lambda>_. stage True True i)"
  "tripleS (stage True True i) (ip_rotate (traced p) i c n) (\<lambda>_. stage True True i) (\<lambda>_. stage True True i)"
  "tripleS (stage True True i) (ip_disable (traced p) i r) (\<lambda>_. stage True True i) (\<lambda>_. stage True True i)"
  by (auto simp: tripleS_def traced_def logged_def stage_def approved_def reserved_in_def split: prod.splits sum.splits)

lemma stage_bind:
  assumes "tripleS (stage a r i) m (\<lambda>_. stage b q i) (\<lambda>_. stage False False i)"
    "\<And>x. tripleS (stage b q i) (k x) (\<lambda>_. stage False False i) (\<lambda>_. stage False False i)"
  shows "tripleS (stage a r i) (bindS m k) (\<lambda>_. stage False False i) (\<lambda>_. stage False False i)"
  using assms by (rule tripleS_bind)

lemma stage_pure: "tripleS (stage a r i) (pureS v) (\<lambda>_. stage a r i) (\<lambda>_. stage False False i)"
  by (rule tripleS_basic) (auto simp: stage_def)

lemma stage_invoke:
  assumes "tripleS (stage True True i) m (\<lambda>_. stage True True i) (\<lambda>_. stage True True i)"
    "\<And>e. keepsS quiet (h e)"
  shows "tripleS (stage True True i) (catchS m h) (\<lambda>_. stage False False i) (\<lambda>_. stage False False i)"
proof (rule tripleS_catch)
  show "tripleS (stage True True i) m (\<lambda>_. stage False False i) (\<lambda>_. stage True True i)"
    by (rule tripleS_weaken [OF assms(1)]) (auto simp: stage_def)
  show "tripleS (stage True True i) (h e) (\<lambda>_. stage False False i) (\<lambda>_. stage False False i)" for e
    by (rule stage_any [OF assms(2)])
qed

lemma context_ids [simp]:
  "ac_requestId (sign_context sha q) = sr_requestId q"
  "ac_requestId (rotate_context sha q') = rr_requestId q'"
  "ac_requestId (disable_context sha q'') = dr_requestId q''"
  by (simp_all add: sign_context_def rotate_context_def disable_context_def)

lemma stage_describe:
  assumes "\<And>d. tripleS (stage False False i) (k d) Q (\<lambda>_. stage False False i)"
  shows "tripleS (stage False False i) (bindS (describeKey (traced p) r) k) Q (\<lambda>_. stage False False i)"
  by (rule tripleS_bind [OF stage_any [OF quiet_describeKey] assms])

lemma sign_guarded:
  "tripleS (stage False False (sr_requestId rq)) (sign (traced p) sha rq)
     (\<lambda>_. stage False False (sr_requestId rq)) (\<lambda>_. stage False False (sr_requestId rq))"
proof -
  let ?c = "sign_context sha rq"
  have "tripleS (stage False False (sr_requestId rq)) (sign_preconditions (traced p) ?c (sr_keyRef rq) (sr_algorithm rq))
      (\<lambda>_. stage True False (sr_requestId rq)) (\<lambda>_. stage False False (sr_requestId rq))"
    using stage_approval [of ?c p]
    by (auto simp: sign_preconditions_def intro!: stage_describe stage_fail split: option.splits)
  then have pre: "tripleS (stage False False (sr_requestId rq))
      (audited (traced p) ?c (sign_preconditions (traced p) ?c (sr_keyRef rq) (sr_algorithm rq)))
      (\<lambda>_. stage True False (sr_requestId rq)) (\<lambda>_. stage False False (sr_requestId rq))"
    using stage_audited [of ?c] by simp
  show ?thesis
    unfolding sign_def Let_def invokeSign_def
    apply (rule stage_bind [OF stage_pure])
    apply (rule stage_bind [OF pre])
    apply (rule stage_bind [OF stage_reserve [of ?c, simplified]])
    apply (rule stage_bind [OF stage_invoke [OF stage_kms(1)]])
     apply (rule quiet_give_up)
    apply (auto split: kms_sign_result.splits intro!: stage_any quiet_give_up quiet_rules quiet_helpers quiet_fail)
    done
qed

lemma rotate_guarded:
  "tripleS (stage False False (rr_requestId rq)) (rotate (traced p) sha rq)
     (\<lambda>_. stage False False (rr_requestId rq)) (\<lambda>_. stage False False (rr_requestId rq))"
proof -
  let ?c = "rotate_context sha rq"
  have b: "keepsS quiet (both (describeKey (traced p) x) (describeKey (traced p) y))" for x y
    by (rule keepsS_both [OF quiet_trans quiet_describeKey quiet_describeKey])
  have d: "keepsS quiet (rotated_version (traced p) rq)"
    unfolding rotated_version_def by (intro quiet_rules quiet_describeKey)
  have "tripleS (stage False False (rr_requestId rq)) (rotate_preconditions (traced p) ?c rq)
      (\<lambda>_. stage True False (rr_requestId rq)) (\<lambda>_. stage False False (rr_requestId rq))"
    unfolding rotate_preconditions_def
    by (rule tripleS_bind [OF stage_any [OF b]])
      (use stage_approval [of ?c p] in \<open>auto intro!: stage_fail split: option.splits prod.splits\<close>)
  then have pre: "tripleS (stage False False (rr_requestId rq))
      (audited (traced p) ?c (rotate_preconditions (traced p) ?c rq))
      (\<lambda>_. stage True False (rr_requestId rq)) (\<lambda>_. stage False False (rr_requestId rq))"
    using stage_audited [of ?c] by simp
  show ?thesis
    unfolding rotate_def Let_def invokeMutation_def
    apply (rule stage_bind [OF stage_pure])
    apply (rule stage_bind [OF pre])
    apply (rule stage_bind [OF stage_reserve [of ?c, simplified]])
    apply (rule stage_bind [OF stage_invoke [OF stage_kms(2)]])
     apply (rule quiet_helpers)
    apply (auto split: kms_mutation_result.splits option.splits
      intro!: stage_any quiet_give_up quiet_rules quiet_helpers quiet_fail d)
    done
qed

lemma disable_guarded:
  "tripleS (stage False False (dr_requestId rq)) (disable (traced p) sha rq)
     (\<lambda>_. stage False False (dr_requestId rq)) (\<lambda>_. stage False False (dr_requestId rq))"
proof -
  let ?c = "disable_context sha rq"
  have d: "keepsS quiet (confirmed_disabled (traced p) r)" for r
    unfolding confirmed_disabled_def by (intro quiet_rules quiet_describeKey)
  have "tripleS (stage False False (dr_requestId rq)) (disable_preconditions (traced p) ?c (dr_keyRef rq))
      (\<lambda>_. stage True False (dr_requestId rq)) (\<lambda>_. stage False False (dr_requestId rq))"
    using stage_approval [of ?c p]
    by (auto simp: disable_preconditions_def intro!: stage_describe stage_fail split: option.splits)
  then have pre: "tripleS (stage False False (dr_requestId rq))
      (audited (traced p) ?c (disable_preconditions (traced p) ?c (dr_keyRef rq)))
      (\<lambda>_. stage True False (dr_requestId rq)) (\<lambda>_. stage False False (dr_requestId rq))"
    using stage_audited [of ?c] by simp
  show ?thesis
    unfolding disable_def Let_def invokeMutation_def
    apply (rule stage_bind [OF stage_pure])
    apply (rule stage_bind [OF pre])
    apply (rule stage_bind [OF stage_reserve [of ?c, simplified]])
    apply (rule stage_bind [OF stage_invoke [OF stage_kms(3)]])
     apply (rule quiet_helpers)
    apply (auto split: kms_mutation_result.splits option.splits
      intro!: stage_any quiet_give_up quiet_rules quiet_helpers quiet_fail d)
    done
qed

text \<open>
  C7: In every run of sign, rotate and disable, over every key service, approval service,
  store and audit log, and on every branch, a call of the key service comes after two
  approvals by different people for this request were accepted and after its request id was
  reserved.
\<close>

theorem key_service_called_only_after_approval_and_reservation:
  assumes "guarded l"
  shows "guarded (snd (snd (sign (traced p) sha q1 (w, l))))
    \<and> guarded (snd (snd (rotate (traced p) sha q2 (w, l))))
    \<and> guarded (snd (snd (disable (traced p) sha q3 (w, l))))"
  using tripleS_any [OF sign_guarded, where s = "(w, l)"] tripleS_any [OF rotate_guarded, where s = "(w, l)"]
    tripleS_any [OF disable_guarded, where s = "(w, l)"] assms
  by (simp add: stage_def)

section \<open>The local signer\<close>

text \<open>Statuses a key can take after its current one.\<close>

definition key_successors :: "string \<Rightarrow> string set" where
  "key_successors st = (if st = ''disabled'' then {''disabled''}
     else if st = ''rotated'' then {''rotated'', ''disabled''}
     else if st = ''active'' then {''active'', ''rotated'', ''disabled''}
     else if st = ''standby'' then {''standby'', ''active'', ''disabled''}
     else {st, ''disabled''})"

definition key_history :: "dev_keys \<Rightarrow> dev_keys \<Rightarrow> bool" where
  "key_history m m' \<longleftrightarrow> (\<forall>r. rel_option (\<lambda>x y. dk_status y \<in> key_successors (dk_status x)
     \<and> y = x\<lparr>dk_status := dk_status y\<rparr>) (m r) (m' r))"

lemma key_history_refl: "key_history m m"
  by (auto simp: key_history_def key_successors_def intro!: option.rel_refl)

lemma key_history_upd:
  "m r = Some x \<Longrightarrow> st \<in> key_successors (dk_status x) \<Longrightarrow> key_history m m'
    \<Longrightarrow> m' r = m r \<Longrightarrow> key_history m (m'(r \<mapsto> x\<lparr>dk_status := st\<rparr>))"
  unfolding key_history_def by (auto simp: option_rel_Some1)

lemma dev_sign_keys: "snd (dev_sign crypto i r a b m) = m"
  by (auto simp: dev_sign_def bindS_def split: sum.splits option.splits)

text \<open>
  A key of the development adapter only moves from standby to active, from active to
  rotated, and to disabled; nothing else about it changes, and signing changes no key.
\<close>

theorem dev_key_lifecycle:
  "key_history m (snd (dev_rotate i c n m)) \<and> key_history m (snd (dev_disable i r m))
   \<and> snd (dev_sign crypto i r a b m) = m"
proof (intro conjI)
  show "key_history m (snd (dev_rotate i c n m))"
    by (auto simp: dev_rotate_def bindS_def key_history_refl key_successors_def intro!: key_history_upd
        split: sum.splits option.splits)
  show "key_history m (snd (dev_disable i r m))"
    by (auto simp: dev_disable_def bindS_def key_history_refl key_successors_def intro!: key_history_upd
        split: sum.splits option.splits)
  show "snd (dev_sign crypto i r a b m) = m" by (rule dev_sign_keys)
qed

text \<open>What the store has recorded for an id: \<open>None\<close> before its reservation.\<close>

definition recorded :: "string \<Rightarrow> op_store \<Rightarrow> operation_outcome option option" where
  "recorded i s = map_option so_outcome (os_operations s i)"

definition at_op :: "string \<Rightarrow> operation_outcome option option \<Rightarrow> (dev_keys \<Rightarrow> bool) \<Rightarrow> 'x local_world \<Rightarrow> bool" where
  "at_op i v K w \<longleftrightarrow> recorded i (lw_ops w) = v \<and> K (lw_keys w)"

definition same_local :: "'x local_world \<Rightarrow> 'x local_world \<Rightarrow> bool" where
  "same_local s t \<longleftrightarrow> lw_ops t = lw_ops s \<and> lw_keys t = lw_keys s"

lemma same_local_refl: "reflp same_local" and same_local_trans: "transp same_local"
  by (auto simp: same_local_def reflp_def transp_def)

lemmas same_local_rules = keepsS_basic [OF same_local_refl] keepsS_bind [OF same_local_trans]
  keepsS_catch [OF same_local_trans]

lemma same_local_ports:
  "keepsS same_local (ip_describeKey (local_ports crypto ap au) r)"
  "keepsS same_local (ip_approvalsFor (local_ports crypto ap au) ctx)"
  "keepsS same_local (ip_append (local_ports crypto ap au) e)"
  by (auto simp: keepsS_def same_local_def local_ports_def on_keys_def on_rest_def dev_describeKey_def bindS_def
      split: prod.splits sum.splits)

lemma same_local_fail: "keepsS same_local (issuer_fail c)"
  unfolding issuer_fail_def by (rule same_local_rules)

lemma same_local_describeKey: "keepsS same_local (describeKey (local_ports crypto ap au) r)"
  unfolding describeKey_def
  by (intro same_local_rules same_local_ports same_local_fail) (auto intro: same_local_rules split: option.splits)

lemma same_local_helpers:
  "keepsS same_local (requireDualApproval (local_ports crypto ap au) ctx)"
  "keepsS same_local (auditBeforeProvider (local_ports crypto ap au) ctx c)"
  "keepsS same_local (auditAmbiguous (local_ports crypto ap au) ctx c)"
  unfolding requireDualApproval_def auditBeforeProvider_def auditAmbiguous_def
  by (intro same_local_rules same_local_ports same_local_fail)+

lemma at_op_keeps: "keepsS same_local m \<Longrightarrow> tripleS (at_op i v K) m (\<lambda>_. at_op i v K) (\<lambda>_. at_op i v K)"
  by (rule tripleS_keeps [where R = same_local]) (auto simp: at_op_def same_local_def)

text \<open>No error leaves an operation pending, and the code says whether its outcome is known.\<close>

definition error_matches :: "string \<Rightarrow> issuer_error_code \<Rightarrow> dev_keys \<Rightarrow> issuer_exn \<Rightarrow> 'x local_world \<Rightarrow> bool" where
  "error_matches i amb k0 e w \<longleftrightarrow> (case recorded i (lw_ops w) of
       None \<Rightarrow> lw_keys w = k0
     | Some r \<Rightarrow> r = Some Op_ambiguous \<and> e = Issuer_error amb
         \<or> r = Some Op_rejected \<and> e \<noteq> Issuer_error amb \<and> lw_keys w = k0)"

lemma at_op_finish:
  "tripleS (at_op i (Some v) K) (ip_finish (local_ports crypto ap au) i q)
     (\<lambda>_. at_op i (Some (Some q)) K) E"
  by (auto simp: tripleS_def at_op_def recorded_def local_ports_def on_ops_def op_finish_def)

lemma at_op_mark:
  "tripleS (at_op i (Some v) K) (markAmbiguous (local_ports crypto ap au) i)
     (\<lambda>_. at_op i (Some (Some Op_ambiguous)) K) E"
  unfolding markAmbiguous_def
  by (rule tripleS_catch [OF at_op_finish [where E = "\<lambda>_ _. False"]]) (simp add: tripleS_def)

lemma error_ambiguous:
  "at_op i (Some (Some Op_ambiguous)) K w \<Longrightarrow> error_matches i amb k0 (Issuer_error amb) w"
  by (simp add: at_op_def error_matches_def)

lemma at_op_issuer_fail:
  "(\<And>w. P w \<Longrightarrow> E (Issuer_error c) w) \<Longrightarrow> tripleS P (issuer_fail c) Q E"
  unfolding issuer_fail_def by (rule tripleS_basic)

lemma at_op_give_up:
  assumes "ac_requestId ctx = i"
  shows "tripleS (at_op i (Some v) K) (give_up (local_ports crypto ap au) ctx amb) Q (error_matches i amb k0)"
  unfolding give_up_def assms
proof (rule tripleS_bind [OF at_op_mark])
  show "tripleS (at_op i (Some (Some Op_ambiguous)) K)
      (bindS (auditAmbiguous (local_ports crypto ap au) ctx amb) (\<lambda>_. issuer_fail amb)) Q (error_matches i amb k0)" for x
  proof (rule tripleS_bind)
    show "tripleS (at_op i (Some (Some Op_ambiguous)) K) (auditAmbiguous (local_ports crypto ap au) ctx amb)
        (\<lambda>_. at_op i (Some (Some Op_ambiguous)) K) (error_matches i amb k0)"
      unfolding auditAmbiguous_def
      by (rule tripleS_catch [OF at_op_keeps [OF same_local_ports(3)]]) (auto intro: tripleS_basic)
  qed (auto intro: at_op_issuer_fail error_ambiguous)
qed

text \<open>The audit of an outcome followed by its record in the store.\<close>

lemma at_op_audit_finish:
  assumes "ac_requestId ctx = i"
  shows "tripleS (at_op i (Some v) K)
     (bindS (ip_append (local_ports crypto ap au) e) (\<lambda>_. ip_finish (local_ports crypto ap au) (ac_requestId ctx) q))
     (\<lambda>_. at_op i (Some (Some q)) K) (\<lambda>_. at_op i (Some v) K)"
  unfolding assms
  by (rule tripleS_bind [OF at_op_keeps [OF same_local_ports(3)]])
    (rule at_op_finish)

lemma at_op_record:
  assumes "ac_requestId ctx = i"
  shows "tripleS (at_op i (Some v) K) (record_sign_outcome (local_ports crypto ap au) ctx w reason q)
     (\<lambda>_. at_op i (Some (Some q)) K) (error_matches i SIGNING_RESULT_AMBIGUOUS k0)"
  unfolding record_sign_outcome_def
proof (rule tripleS_catch [OF at_op_audit_finish [OF assms]])
  show "tripleS (at_op i (Some v) K)
      (bindS (markAmbiguous (local_ports crypto ap au) (ac_requestId ctx)) (\<lambda>_. issuer_fail SIGNING_RESULT_AMBIGUOUS))
      (\<lambda>_. at_op i (Some (Some q)) K) (error_matches i SIGNING_RESULT_AMBIGUOUS k0)" for e
    unfolding assms
    by (rule tripleS_bind [OF at_op_mark at_op_issuer_fail]) (rule error_ambiguous)
qed

lemma at_op_reserve:
  assumes "ac_requestId ctx = i"
  shows "tripleS (at_op i None ((=) k0)) (reserveOperation (local_ports crypto ap au) ctx f)
     (\<lambda>_. at_op i (Some None) ((=) k0)) (error_matches i amb k0)"
  unfolding reserveOperation_def assms
  by (auto simp: tripleS_def bindS_def catchS_def local_ports_def on_ops_def op_reserve_def at_op_def
      recorded_def error_matches_def issuer_fail_def split: if_splits)

lemma at_op_untouched:
  "keepsS same_local m \<Longrightarrow>
     tripleS (at_op i None ((=) k0)) m (\<lambda>_. at_op i None ((=) k0)) (error_matches i amb k0)"
  by (rule tripleS_weaken [OF at_op_keeps]) (auto simp: at_op_def error_matches_def)

lemma at_op_before:
  assumes "tripleS (at_op i None ((=) k0)) m (\<lambda>_. at_op i None ((=) k0)) (\<lambda>_. at_op i None ((=) k0))"
  shows "tripleS (at_op i None ((=) k0)) (audited (local_ports crypto ap au) ctx m)
    (\<lambda>_. at_op i None ((=) k0)) (error_matches i amb k0)"
  unfolding audited_def
proof (rule tripleS_catch [OF assms])
  show "tripleS (at_op i None ((=) k0))
     (bindS (auditBeforeProvider (local_ports crypto ap au) ctx (normalizeError e)) (\<lambda>_. issuer_fail (normalizeError e)))
     (\<lambda>_. at_op i None ((=) k0)) (error_matches i amb k0)" for e
    by (rule tripleS_bind [OF at_op_untouched [OF same_local_helpers(2)] at_op_issuer_fail])
      (simp add: at_op_def error_matches_def)
qed

lemma at_op_pure:
  "tripleS (at_op i None ((=) k0)) (pureS r) (\<lambda>_. at_op i None ((=) k0)) (error_matches i amb k0)"
  by (rule tripleS_basic) (auto simp: at_op_def error_matches_def)

lemma providerCode_known: "providerCode c \<noteq> SIGNING_RESULT_AMBIGUOUS" "providerCode c \<noteq> OPERATION_RESULT_AMBIGUOUS"
  by (cases c; simp add: providerCode_def)+

lemma sign_local:
  "tripleS (at_op (sr_requestId rq) None ((=) k0)) (sign (local_ports crypto ap au) sha rq)
     (\<lambda>_. at_op (sr_requestId rq) (Some (Some Op_signed)) ((=) k0))
     (error_matches (sr_requestId rq) SIGNING_RESULT_AMBIGUOUS k0)"
proof -
  let ?c = "sign_context sha rq" and ?p = "local_ports crypto ap au" and ?i = "sr_requestId rq"
  have ctx: "ac_requestId ?c = ?i" by simp
  have pre: "keepsS same_local (sign_preconditions ?p ?c (sr_keyRef rq) (sr_algorithm rq))"
    unfolding sign_preconditions_def
    by (intro same_local_rules same_local_describeKey)
      (auto intro: same_local_fail same_local_helpers split: option.splits)
  have kms: "tripleS (at_op ?i (Some None) ((=) k0))
      (invokeSign ?p ?c (ip_sign ?p ?i (sr_keyRef rq) (sr_algorithm rq) (sr_payload rq)))
      (\<lambda>_. at_op ?i (Some None) ((=) k0)) (error_matches ?i SIGNING_RESULT_AMBIGUOUS k0)"
    unfolding invokeSign_def
  proof (rule tripleS_catch)
    have "keepsS same_local (ip_sign ?p ?i (sr_keyRef rq) (sr_algorithm rq) (sr_payload rq))"
      using dev_sign_keys by (auto simp: keepsS_def same_local_def local_ports_def on_keys_def split: prod.splits) (metis snd_conv)+
    then show "tripleS (at_op ?i (Some None) ((=) k0)) (ip_sign ?p ?i (sr_keyRef rq) (sr_algorithm rq) (sr_payload rq))
       (\<lambda>_. at_op ?i (Some None) ((=) k0)) (\<lambda>_. at_op ?i (Some None) ((=) k0))" by (rule at_op_keeps)
  qed (rule at_op_give_up [OF ctx])
  show ?thesis
    unfolding sign_def Let_def
    apply (rule tripleS_bind [OF at_op_pure])
    apply (rule tripleS_bind [OF at_op_before [OF at_op_keeps [OF pre]]])
    apply (rule tripleS_bind [OF at_op_reserve [OF ctx]])
    apply (rule tripleS_bind [OF kms])
    subgoal for _ _ _ r
    proof (cases r)
      case (Kms_signed k)
      show ?thesis unfolding Kms_signed
        by (auto intro!: at_op_give_up [OF ctx] tripleS_bind [OF at_op_record [OF ctx]] tripleS_basic)
    next
      case (Kms_sign_rejected c)
      show ?thesis unfolding Kms_sign_rejected
        using providerCode_known(1) [of c]
        by (auto intro!: tripleS_bind [OF at_op_record [OF ctx]] at_op_issuer_fail simp: at_op_def error_matches_def)
    next
      case Kms_sign_ambiguous
      show ?thesis unfolding Kms_sign_ambiguous by (simp add: at_op_give_up [OF ctx])
    qed
    done
qed

definition rotated_keys :: "dev_keys \<Rightarrow> string \<Rightarrow> string \<Rightarrow> dev_keys \<Rightarrow> bool" where
  "rotated_keys k0 c n k \<longleftrightarrow> (\<exists>x y. k0 c = Some x \<and> k0 n = Some y \<and> dk_status x = ''active''
     \<and> dk_status y = ''standby'' \<and> dk_algorithm x = dk_algorithm y
     \<and> k = k0(c \<mapsto> x\<lparr>dk_status := ''rotated''\<rparr>, n \<mapsto> y\<lparr>dk_status := ''active''\<rparr>))"

lemma dev_rotate_cases:
  assumes "dev_rotate i c n m = (r, m')"
  shows "r = Inr Kms_completed \<and> rotated_keys m c n m' \<or> r \<noteq> Inr Kms_completed \<and> m' = m"
  using assms
  by (auto simp: dev_rotate_def bindS_def rotated_keys_def ensureKeyRef_def safe_id_def
      split: sum.splits option.splits if_splits)

lemma at_op_fail_mutation:
  assumes "ac_requestId ctx = i"
  shows "tripleS (at_op i (Some v) K) (ambiguousMutation (local_ports crypto ap au) ctx) Q
    (error_matches i OPERATION_RESULT_AMBIGUOUS k0)"
  unfolding ambiguousMutation_def by (rule at_op_give_up [OF assms])

lemma at_op_complete:
  assumes "ac_requestId ctx = i"
  shows "tripleS (at_op i (Some v) K) (completeMutation (local_ports crypto ap au) ctx reason)
     (\<lambda>_. at_op i (Some (Some Op_completed)) K) (error_matches i OPERATION_RESULT_AMBIGUOUS k0)"
  unfolding completeMutation_def
  by (rule tripleS_catch [OF at_op_audit_finish [OF assms] at_op_fail_mutation [OF assms]])

lemma at_op_reject:
  assumes "ac_requestId ctx = i" "c \<noteq> OPERATION_RESULT_AMBIGUOUS"
  shows "tripleS (at_op i (Some v) ((=) k0)) (rejectMutation (local_ports crypto ap au) ctx c) Q
    (error_matches i OPERATION_RESULT_AMBIGUOUS k0)"
  unfolding rejectMutation_def
  by (rule tripleS_bind [OF tripleS_catch [OF at_op_audit_finish [OF assms(1)] at_op_fail_mutation [OF assms(1)]] at_op_issuer_fail])
    (use assms(2) in \<open>auto simp: at_op_def error_matches_def\<close>)

lemma same_local_both: "keepsS same_local m \<Longrightarrow> keepsS same_local n \<Longrightarrow> keepsS same_local (both m n)"
  by (rule keepsS_both [OF same_local_trans])

lemma rotate_local:
  "tripleS (at_op (rr_requestId rq) None ((=) k0)) (rotate (local_ports crypto ap au) sha rq)
     (\<lambda>_. at_op (rr_requestId rq) (Some (Some Op_completed)) (rotated_keys k0 (rr_currentKeyRef rq) (rr_nextKeyRef rq)))
     (error_matches (rr_requestId rq) OPERATION_RESULT_AMBIGUOUS k0)"
proof -
  let ?c = "rotate_context sha rq" and ?p = "local_ports crypto ap au" and ?i = "rr_requestId rq"
  let ?K = "rotated_keys k0 (rr_currentKeyRef rq) (rr_nextKeyRef rq)"
  let ?E = "error_matches ?i OPERATION_RESULT_AMBIGUOUS k0"
  have ctx: "ac_requestId ?c = ?i" by simp
  have pre: "keepsS same_local (rotate_preconditions ?p ?c rq)"
    unfolding rotate_preconditions_def
    by (intro same_local_rules same_local_both same_local_describeKey)
      (auto intro: same_local_fail same_local_helpers split: option.splits)
  have ver: "keepsS same_local (rotated_version ?p rq)"
    unfolding rotated_version_def by (intro same_local_rules same_local_describeKey)
  have kms: "tripleS (at_op ?i (Some None) ((=) k0))
      (invokeMutation ?p ?c (ip_rotate ?p ?i (rr_currentKeyRef rq) (rr_nextKeyRef rq)))
      (\<lambda>r. at_op ?i (Some None) (if r = Kms_completed then ?K else (=) k0)) ?E"
    unfolding invokeMutation_def
  proof (rule tripleS_catch)
    show "tripleS (at_op ?i (Some None) ((=) k0)) (ip_rotate ?p ?i (rr_currentKeyRef rq) (rr_nextKeyRef rq))
      (\<lambda>r. at_op ?i (Some None) (if r = Kms_completed then ?K else (=) k0)) (\<lambda>_. at_op ?i (Some None) ((=) k0))"
      unfolding tripleS_def
      by (auto simp: local_ports_def on_keys_def at_op_def split: prod.splits sum.splits dest!: dev_rotate_cases)
  qed (rule at_op_fail_mutation [OF ctx])
  show ?thesis
    unfolding rotate_def Let_def
    apply (rule tripleS_bind [OF at_op_pure])
    apply (rule tripleS_bind [OF at_op_before [OF at_op_keeps [OF pre]]])
    apply (rule tripleS_bind [OF at_op_reserve [OF ctx]])
    apply (rule tripleS_bind [OF kms])
    subgoal for _ _ _ r
    proof (cases r)
      case Kms_completed
      have "tripleS (at_op ?i (Some None) ?K) (catchS (rotated_version ?p rq) (\<lambda>_. returnS None))
          (\<lambda>_. at_op ?i (Some None) ?K) ?E"
        by (rule tripleS_catch [OF at_op_keeps [OF ver]]) (rule tripleS_basic)
      then show ?thesis unfolding Kms_completed
        by (auto intro!: tripleS_bind [where R = "\<lambda>_. at_op ?i (Some None) ?K"] at_op_fail_mutation [OF ctx]
          tripleS_bind [OF at_op_complete [OF ctx]] tripleS_basic split: option.splits)
    next
      case (Kms_rejected c)
      show ?thesis unfolding Kms_rejected by (simp add: at_op_reject [OF ctx] providerCode_known)
    next
      case Kms_ambiguous
      show ?thesis unfolding Kms_ambiguous by (simp add: at_op_fail_mutation [OF ctx])
    qed
    done
qed

text \<open>
  With the in-memory store and the development adapter, a fresh request that returns a
  signature is recorded as signed; one that fails is not recorded at all, or as ambiguous
  exactly when the error says so, or as rejected; it is never left pending.
\<close>

theorem local_sign_outcome_recorded:
  assumes "sign (local_ports crypto ap au) sha rq w = (r, w')" "os_operations (lw_ops w) (sr_requestId rq) = None"
  shows "case r of Inr _ \<Rightarrow> recorded (sr_requestId rq) (lw_ops w') = Some (Some Op_signed)
    | Inl e \<Rightarrow> error_matches (sr_requestId rq) SIGNING_RESULT_AMBIGUOUS (lw_keys w) e w'"
proof -
  have "at_op (sr_requestId rq) None ((=) (lw_keys w)) w" using assms(2) by (simp add: at_op_def recorded_def)
  from tripleS_Inr [OF sign_local this] tripleS_Inl [OF sign_local this] assms(1) show ?thesis
    by (auto simp: at_op_def split: sum.splits)
qed

text \<open>
  A rotation that returns a receipt is recorded as completed and has retired the current
  key and activated the standby key of the same algorithm; one that fails is recorded as
  ambiguous exactly when its error says so, and otherwise has changed no key.
\<close>

theorem local_rotate_outcome_recorded:
  assumes "rotate (local_ports crypto ap au) sha rq w = (r, w')" "os_operations (lw_ops w) (rr_requestId rq) = None"
  shows "case r of
      Inr _ \<Rightarrow> recorded (rr_requestId rq) (lw_ops w') = Some (Some Op_completed)
        \<and> rotated_keys (lw_keys w) (rr_currentKeyRef rq) (rr_nextKeyRef rq) (lw_keys w')
    | Inl e \<Rightarrow> error_matches (rr_requestId rq) OPERATION_RESULT_AMBIGUOUS (lw_keys w) e w'"
proof -
  have "at_op (rr_requestId rq) None ((=) (lw_keys w)) w" using assms(2) by (simp add: at_op_def recorded_def)
  from tripleS_Inr [OF rotate_local this] tripleS_Inl [OF rotate_local this] assms(1) show ?thesis
    by (auto simp: at_op_def split: sum.splits)
qed

section \<open>What a returned signature implies\<close>


lemma give_up_no_return [simp]: "give_up p ctx c s \<noteq> (Inr x, t)"
  by (auto simp: give_up_def issuer_fail_def result_simps)











section \<open>Examples\<close>

definition ex_sha :: "string \<Rightarrow> string" where "ex_sha v = replicate 64 (CHR ''0'')"

definition ex_key :: "string \<Rightarrow> string \<Rightarrow> dev_key" where
  "ex_key r st = \<lparr>dk_keyRef = r, dk_version = ''v1'', dk_algorithm = ''ES256'', dk_status = st,
     dk_private = True, dk_extractable = False\<rparr>"

definition ex_approvals :: "approval_context \<Rightarrow> (nat, issuer_exn, approval_evidence list) meth" where
  "ex_approvals ctx = returnS (map (\<lambda>(i, u). \<lparr>ae_approvalId = i, ae_approverId = u,
     ae_requestId = ac_requestId ctx, ae_tenantId = ac_tenantId ctx, ae_operation = ac_operation ctx,
     ae_bindingDigest = ac_bindingDigest ctx, ae_approvedAt = 1, ae_expiresAt = 100\<rparr>)
     [(''a1'', ''u1''), (''a2'', ''u2'')])"

definition ex_audit :: "audit_event \<Rightarrow> (nat, issuer_exn, unit) meth" where
  "ex_audit e n = (Inr (), Suc n)"

definition ex_ports :: "nat local_world issuer_ports" where
  "ex_ports = local_ports (\<lambda>k b. Some (dk_version k @ b)) ex_approvals ex_audit"

definition ex_world :: "nat local_world" where
  "ex_world = \<lparr>lw_keys = [''key-1'' \<mapsto> ex_key ''key-1'' ''active'', ''key-2'' \<mapsto> ex_key ''key-2'' ''standby''],
     lw_ops = empty_op_store, lw_rest = 0\<rparr>"

definition ex_sign_request :: issuer_sign_request where
  "ex_sign_request = \<lparr>sr_requestId = ''r1'', sr_tenantId = ''t'', sr_keyRef = ''key-1'',
     sr_algorithm = ''ES256'', sr_payload = ''payload'', sr_at = 10\<rparr>"

definition ex_rotate_request :: rotate_request where
  "ex_rotate_request = \<lparr>rr_requestId = ''r2'', rr_tenantId = ''t'', rr_currentKeyRef = ''key-1'',
     rr_nextKeyRef = ''key-2'', rr_at = 10\<rparr>"

definition ex_signature :: issuer_signature where
  "ex_signature = \<lparr>sg_requestId = ''r1'', sg_keyRef = ''key-1'', sg_keyVersion = ''v1'',
     sg_algorithm = ''ES256'', sg_signature = ''v1payload''\<rparr>"

lemma ex_sign: "fst (sign ex_ports ex_sha ex_sign_request ex_world) = Inr ex_signature"
  by code_simp

lemma ex_rotate: "case fst (rotate ex_ports ex_sha ex_rotate_request ex_world) of Inr x \<Rightarrow> rc_activeVersion x = ''v1'' | Inl _ \<Rightarrow> False"
  by code_simp

lemma ex_sign_eq: "sign ex_ports ex_sha ex_sign_request ex_world
    = (Inr ex_signature, snd (sign ex_ports ex_sha ex_sign_request ex_world))"
  using ex_sign by (metis prod.collapse)

lemma local_sign_outcome_recorded_witness:
  "recorded ''r1'' (lw_ops (snd (sign ex_ports ex_sha ex_sign_request ex_world))) = Some (Some Op_signed)"
  using local_sign_outcome_recorded [OF ex_sign_eq [unfolded ex_ports_def]]
  by (simp add: ex_ports_def ex_world_def empty_op_store_def ex_sign_request_def)

lemma local_rotate_outcome_recorded_witness:
  "recorded ''r2'' (lw_ops (snd (rotate ex_ports ex_sha ex_rotate_request ex_world))) = Some (Some Op_completed)"
  using local_rotate_outcome_recorded [OF prod.collapse [symmetric], of ex_world ex_rotate_request
      "\<lambda>k b. Some (dk_version k @ b)" ex_approvals ex_audit ex_sha] ex_rotate
  by (auto simp: ex_ports_def ex_world_def empty_op_store_def ex_rotate_request_def split: sum.splits)


lemma key_service_called_only_after_approval_and_reservation_witness:
  "guarded (snd (snd (sign (traced ex_ports) ex_sha ex_sign_request (ex_world, []))))
   \<and> guarded (snd (snd (rotate (traced ex_ports) ex_sha ex_rotate_request (ex_world, []))))"
  using key_service_called_only_after_approval_and_reservation [of "[]" ex_ports ex_sha ex_sign_request ex_world ex_rotate_request]
  by simp

lemma operation_reserved_at_most_once_witness:
  "distinct [''i''] \<and> set [''i''] \<inter> dom (os_operations empty_op_store) = {}"
proof -
  have a: "op_attempt (''i'', ''f'') empty_op_store = (True, snd (op_attempt (''i'', ''f'') empty_op_store))"
    by (simp add: op_attempt_def op_reserve_def empty_op_store_def)
  have "one_shot_run op_attempt fst op_finish_step empty_op_store [fst (''i'', ''f'')]
      (snd (op_attempt (''i'', ''f'') empty_op_store))"
    by (rule run_used [where attempt = op_attempt and i = "(''i'', ''f'')", OF run_start a])
  from operation_reserved_at_most_once [OF this] show ?thesis by simp
qed

lemma unresolved_operation_blocks_retry_witness:
  "fst (op_reserve ''j'' ''f'' (snd (op_finish ''i'' Op_ambiguous (snd (op_reserve ''i'' ''f'' empty_op_store))))) \<noteq> Inr Op_reserved"
proof -
  let ?s = "snd (op_reserve ''i'' ''f'' empty_op_store)" and ?t = "snd (op_finish ''i'' Op_ambiguous (snd (op_reserve ''i'' ''f'' empty_op_store)))"
  have o: "os_operations ?s ''i'' = Some \<lparr>so_fingerprint = ''f'', so_outcome = None\<rparr>"
    by (simp add: op_reserve_def empty_op_store_def)
  have "op_step\<^sup>*\<^sup>* empty_op_store ?s" by (rule r_into_rtranclp) (rule op_step_reserve)
  also have "op_step ?s ?t" by (rule op_step_finish [OF o]) simp
  finally have r: "op_step\<^sup>*\<^sup>* empty_op_store ?t" .
  have t: "os_operations ?t ''i'' = Some \<lparr>so_fingerprint = ''f'', so_outcome = Some Op_ambiguous\<rparr>"
    using o by (simp add: op_finish_def)
  show ?thesis using unresolved_operation_blocks_retry [OF r t, of "''j''"] by (simp add: open_op_def)
qed

end
