(* ===== verification/EmailAuth.thy ===== *)
theory EmailAuth
  imports Interfaces
begin

text \<open>
  One-time codes by email (\<open>packages/auth-email/src/index.ts\<close>): identities indexed by a
  hash of the address, challenges with an attempt limit, operational sessions, the change of
  address, rate limits.  \<open>sha v\<close> is the lowercase hex SHA-256 of the UTF-8 encoding of \<open>v\<close>;
  random values are arguments; the transport is a port that may throw.  A method that awaits
  in the middle (the comparison of a code, the request of one, the change of an address) is
  composed of its segments, one for each stretch without an await, so that the segments of
  concurrent calls can be interleaved.  \<open>registerIdentity\<close> awaits once, before it touches the
  state.  \<open>now\<close> is the value of \<open>input.now ?? this.now()\<close>.
\<close>

section \<open>Data\<close>

datatype email_code =
    INVALID_EMAIL | INVALID_OTP | CHALLENGE_NOT_FOUND | OTP_EXPIRED | OTP_REPLAYED
  | OTP_ATTEMPTS_EXCEEDED | RATE_LIMITED | DELIVERY_FAILED | SESSION_NOT_FOUND | SESSION_REVOKED
  | SESSION_EXPIRED | STEP_UP_REQUIRED | STEP_UP_INVALID | IDENTITY_NOT_FOUND
  | EMAIL_ALREADY_REGISTERED | INVALID_CONFIGURATION

datatype email_exn = Email_error email_code | Other_error

datatype otp_purpose = Login | Recovery | Email_change

record email_message =
  em_to :: string
  em_subject :: string
  em_text :: string

record email_identity =
  ei_identityId :: string
  ei_principalId :: string
  ei_subjectHash :: string
  ei_signerId :: string
  ei_policyId :: string
  ei_createdAt :: int
  ei_changedAt :: int

record identity_record = email_identity +
  ei_normalizedEmail :: string

record email_session =
  el_sessionId :: string
  el_principalId :: string
  el_signerId :: string
  el_policyId :: string
  el_issuedAt :: int
  el_expiresAt :: int

record challenge_record =
  ch_challengeId :: string
  ch_purpose :: otp_purpose
  ch_subjectHash :: string
  ch_targetSubjectHash :: "string option"
  ch_principalId :: "string option"
  ch_issuedAt :: int
  ch_expiresAt :: int
  ch_otpHash :: string
  ch_salt :: string
  ch_rateLimitKey :: string
  ch_attempts :: int
  ch_verifying :: bool
  ch_consumed :: bool
  ch_delivered :: bool

record rate_record =
  rt_windowStart :: int
  rt_requests :: int

record email_options =
  eo_otpTtlSeconds :: int
  eo_sessionTtlSeconds :: int
  eo_maxAttempts :: int
  eo_maxRequests :: int
  eo_rateWindowSeconds :: int
  eo_subject :: string

record 't email_state =
  es_identities :: "(string \<times> identity_record) list"
  es_subjectIndex :: "string \<rightharpoonup> string"
  es_challenges :: "string \<rightharpoonup> challenge_record"
  es_sessions :: "(string \<times> email_session) list"
  es_revokedSessions :: "string set"
  es_rates :: "string \<rightharpoonup> rate_record"
  es_transport :: 't

record otp_random =
  rn_challenge :: string
  rn_salt :: string
  rn_otp :: string

record otp_request =
  oq_email :: string
  oq_purpose :: "otp_purpose option"
  oq_rateLimitKey :: "string option"

record otp_request_result =
  or_accepted :: bool
  or_challengeId :: string
  or_expiresAt :: int

type_synonym ('t, 'a) email_meth = "('t email_state, email_exn, 'a) meth"

type_synonym 't email_transport = "email_message \<Rightarrow> ('t, email_exn, unit) meth"

section \<open>Helpers\<close>

text \<open>\<open>/^[^\s@]+@[^\s@]+\.[^\s@]+$/u\<close>, at most 320 characters.\<close>

definition isEmail :: "string \<Rightarrow> bool" where
  "isEmail v \<longleftrightarrow> length v \<le> 320 \<and> \<not> list_ex is_space v
     \<and> (case dropWhile (\<lambda>c. c \<noteq> CHR ''@'') v of
          [] \<Rightarrow> False
        | _ # rest \<Rightarrow> takeWhile (\<lambda>c. c \<noteq> CHR ''@'') v \<noteq> [] \<and> CHR ''@'' \<notin> set rest
            \<and> CHR ''.'' \<in> set (butlast (tl rest)))"

definition normalizeEmail :: "string \<Rightarrow> email_exn + string" where
  "normalizeEmail v = (if \<not> isEmail (trim v) then Inl (Email_error INVALID_EMAIL)
     else Inr (to_lower (trim v)))"

definition otp_format :: "string \<Rightarrow> bool" where
  "otp_format v \<longleftrightarrow> length v = 6 \<and> list_all is_digit v"

definition subjectHash :: "(string \<Rightarrow> string) \<Rightarrow> string \<Rightarrow> string" where
  "subjectHash sha email = ''0x'' @ sha (''ssw:email-subject:v1:'' @ email)"

definition hashOtp :: "(string \<Rightarrow> string) \<Rightarrow> string \<Rightarrow> string \<Rightarrow> string" where
  "hashOtp sha otp salt = sha (''ssw:email-otp:v1:'' @ salt @ '':'' @ otp)"

fun or_xor_loop :: "nat \<Rightarrow> string \<Rightarrow> string \<Rightarrow> nat" where
  "or_xor_loop r (a # as) (b # bs) = or_xor_loop (or r (xor (of_char a) (of_char b))) as bs"
| "or_xor_loop r _ _ = r"

definition constantTimeEqual :: "string \<Rightarrow> string \<Rightarrow> bool" where
  "constantTimeEqual l r = (if length l \<noteq> length r then False else or_xor_loop 0 l r = 0)"

definition boundedNow :: "int \<Rightarrow> email_exn + int" where
  "boundedNow n = (if \<not> safe_integer n \<or> n < 0 then Inl Other_error else Inr n)"

text \<open>
  Rejection sampling of a six-digit code; the argument lists the 32-bit words the generator
  yields, \<open>None\<close> when all of them are rejected.
\<close>

definition otp_limit :: int where
  "otp_limit = (4294967296 div 1000000) * 1000000"

definition padStart :: "nat \<Rightarrow> char \<Rightarrow> string \<Rightarrow> string" where
  "padStart n c s = replicate (n - length s) c @ s"

fun randomOtp :: "int list \<Rightarrow> string option" where
  "randomOtp [] = None"
| "randomOtp (v # vs) = (if otp_limit \<le> v then randomOtp vs
     else Some (padStart 6 (CHR ''0'') (show_int (v mod 1000000))))"

definition boundedId :: "string \<Rightarrow> email_exn + string" where
  "boundedId v = (if plain_id v then Inr v else Inl (Email_error INVALID_CONFIGURATION))"

definition positiveOption :: "int option \<Rightarrow> int \<Rightarrow> email_exn + int" where
  "positiveOption v fallback = (case v of None \<Rightarrow> Inr fallback
     | Some n \<Rightarrow> if \<not> safe_integer n \<or> n \<le> 0 \<or> 86400 < n then Inl (Email_error INVALID_CONFIGURATION)
         else Inr n)"

definition email_service ::
  "int option \<Rightarrow> int option \<Rightarrow> int option \<Rightarrow> int option \<Rightarrow> int option \<Rightarrow> string option
    \<Rightarrow> email_exn + email_options" where
  "email_service otpTtl sessionTtl maxAttempts maxRequests rateWindow subject =
     bindE (positiveOption otpTtl 300) (\<lambda>a. bindE (positiveOption sessionTtl 900) (\<lambda>b.
     bindE (positiveOption maxAttempts 5) (\<lambda>c. bindE (positiveOption maxRequests 3) (\<lambda>d.
     bindE (positiveOption rateWindow 900) (\<lambda>e.
     Inr \<lparr>eo_otpTtlSeconds = a, eo_sessionTtlSeconds = b, eo_maxAttempts = c, eo_maxRequests = d,
       eo_rateWindowSeconds = e, eo_subject = (case subject of
          None \<Rightarrow> ''Your wallet verification code'' | Some s \<Rightarrow> s)\<rparr>)))))"

definition empty_email_state :: "'t \<Rightarrow> 't email_state" where
  "empty_email_state t = \<lparr>es_identities = [], es_subjectIndex = Map.empty, es_challenges = Map.empty,
     es_sessions = [], es_revokedSessions = {}, es_rates = Map.empty, es_transport = t\<rparr>"

text \<open>The in-memory transport of tests.\<close>

definition mailpit_send :: "email_message list email_transport" where
  "mailpit_send m ms = (if \<not> isEmail (em_to m) then (Inl (Email_error INVALID_EMAIL), ms)
     else (Inr (), ms @ [m]))"

definition mailpit_latest :: "string option \<Rightarrow> email_message list \<Rightarrow> email_message option" where
  "mailpit_latest to ms = find (\<lambda>m. to = None \<or> Some (em_to m) = to) (rev ms)"

section \<open>Internal operations\<close>

definition publicIdentity :: "identity_record \<Rightarrow> email_identity" where
  "publicIdentity r = email_identity.truncate r"

definition update_challenge ::
  "string \<Rightarrow> (challenge_record \<Rightarrow> challenge_record) \<Rightarrow> 't email_state \<Rightarrow> 't email_state" where
  "update_challenge i f s = (case es_challenges s i of None \<Rightarrow> s
     | Some r \<Rightarrow> s\<lparr>es_challenges := (es_challenges s)(i \<mapsto> f r)\<rparr>)"

definition identityForHash :: "string \<Rightarrow> 't email_state \<Rightarrow> identity_record option" where
  "identityForHash h s = (case es_subjectIndex s h of None \<Rightarrow> None
     | Some i \<Rightarrow> if i = '''' then None else map_of (es_identities s) i)"

definition consumeRate :: "email_options \<Rightarrow> string \<Rightarrow> int \<Rightarrow> 't email_state \<Rightarrow> bool \<times> 't email_state" where
  "consumeRate cfg key now s =
     (let fresh = (True, s\<lparr>es_rates := (es_rates s)(key \<mapsto> \<lparr>rt_windowStart = now, rt_requests = 1\<rparr>)\<rparr>) in
      case es_rates s key of
        None \<Rightarrow> fresh
      | Some p \<Rightarrow>
          if eo_rateWindowSeconds cfg \<le> now - rt_windowStart p then fresh
          else if eo_maxRequests cfg \<le> rt_requests p then (False, s)
          else (True, s\<lparr>es_rates := (es_rates s)(key \<mapsto> p\<lparr>rt_requests := rt_requests p + 1\<rparr>)\<rparr>))"

definition createSession ::
  "email_options \<Rightarrow> string \<Rightarrow> identity_record \<Rightarrow> int \<Rightarrow> 't email_state \<Rightarrow> email_session \<times> 't email_state" where
  "createSession cfg randomId identity now s =
     (let x = \<lparr>el_sessionId = ''ems_'' @ randomId, el_principalId = ei_principalId identity,
        el_signerId = ei_signerId identity, el_policyId = ei_policyId identity,
        el_issuedAt = now, el_expiresAt = now + eo_sessionTtlSeconds cfg\<rparr> in
      (x, s\<lparr>es_sessions := omap_set (el_sessionId x) x (es_sessions s)\<rparr>))"

section \<open>Identities and requests\<close>

definition registerIdentity ::
  "(string \<Rightarrow> string) \<Rightarrow> string \<Rightarrow> string \<Rightarrow> string \<Rightarrow> string \<Rightarrow> string \<Rightarrow> int
    \<Rightarrow> ('t, email_identity) email_meth" where
  "registerIdentity sha identityId principalId email signerId policyId now s =
     (case normalizeEmail email of Inl e \<Rightarrow> (Inl e, s) | Inr normalized \<Rightarrow>
      let h = subjectHash sha normalized in
      if es_subjectIndex s h \<noteq> None then (Inl (Email_error EMAIL_ALREADY_REGISTERED), s) else
      case bindE (boundedNow now) (\<lambda>t. bindE (boundedId identityId) (\<lambda>i. bindE (boundedId principalId) (\<lambda>p.
           bindE (boundedId signerId) (\<lambda>g. bindE (boundedId policyId) (\<lambda>q.
           Inr \<lparr>ei_identityId = i, ei_principalId = p, ei_subjectHash = h, ei_signerId = g,
             ei_policyId = q, ei_createdAt = t, ei_changedAt = t, ei_normalizedEmail = normalized\<rparr>))))) of
        Inl e \<Rightarrow> (Inl e, s)
      | Inr r \<Rightarrow>
          if map_of (es_identities s) (ei_identityId r) \<noteq> None
          then (Inl (Email_error EMAIL_ALREADY_REGISTERED), s)
          else (Inr (publicIdentity r), s\<lparr>es_identities := omap_set (ei_identityId r) r (es_identities s),
                 es_subjectIndex := (es_subjectIndex s)(h \<mapsto> ei_identityId r)\<rparr>))"

definition rate_key :: "otp_request \<Rightarrow> string \<Rightarrow> string" where
  "rate_key rq h = (case oq_rateLimitKey rq of None \<Rightarrow> h
     | Some k \<Rightarrow> if take 128 k = '''' then h else take 128 k)"

text \<open>
  A request under way: what its segments share.  A request of a code may name a principal and
  ask for delivery to an unknown address (the second argument of \<open>requestOtp\<close>);
  \<open>oc_change\<close> is the new address hash and the principal when the request is part of a change
  of address.
\<close>

record otp_call =
  oc_rnd :: otp_random
  oc_request :: otp_request
  oc_email :: string
  oc_now :: int
  oc_principal :: "string option"
  oc_force :: bool
  oc_change :: "(string \<times> string) option"

definition otp_id :: "otp_call \<Rightarrow> string" where
  "otp_id c = ''otp_'' @ rn_challenge (oc_rnd c)"

text \<open>Up to the hash of the address.\<close>

definition otp_open ::
  "otp_random \<Rightarrow> otp_request \<Rightarrow> int \<Rightarrow> string option \<Rightarrow> bool \<Rightarrow> (string \<times> string) option
    \<Rightarrow> email_exn + otp_call" where
  "otp_open rnd rq now prin forceDelivery change =
     bindE (normalizeEmail (oq_email rq)) (\<lambda>email. bindE (boundedNow now) (\<lambda>t.
     Inr \<lparr>oc_rnd = rnd, oc_request = rq, oc_email = email, oc_now = t, oc_principal = prin,
       oc_force = forceDelivery, oc_change = change\<rparr>))"

text \<open>Up to the hash of the code: the identity of the address, and whether the rate allows it.\<close>

definition otp_rate ::
  "email_options \<Rightarrow> (string \<Rightarrow> string) \<Rightarrow> otp_call \<Rightarrow> 't email_state
    \<Rightarrow> (identity_record option \<times> bool) \<times> 't email_state" where
  "otp_rate cfg sha c s =
     (let h = subjectHash sha (oc_email c) in
      case consumeRate cfg (rate_key (oc_request c) h) (oc_now c) s of
        (allowed, t) \<Rightarrow> ((identityForHash h s, allowed), t))"

definition new_challenge ::
  "email_options \<Rightarrow> (string \<Rightarrow> string) \<Rightarrow> otp_call \<Rightarrow> identity_record option \<Rightarrow> challenge_record" where
  "new_challenge cfg sha c identity =
     (let purpose = (case oq_purpose (oc_request c) of None \<Rightarrow> Login | Some p \<Rightarrow> p);
          h = subjectHash sha (oc_email c); rnd = oc_rnd c in
      \<lparr>ch_challengeId = otp_id c, ch_purpose = purpose, ch_subjectHash = h,
       ch_targetSubjectHash = None,
       ch_principalId = (if purpose \<noteq> Email_change then None
          else case identity of Some x \<Rightarrow> Some (ei_principalId x)
            | None \<Rightarrow> if oc_principal c = Some '''' then None else oc_principal c),
       ch_issuedAt = oc_now c, ch_expiresAt = oc_now c + eo_otpTtlSeconds cfg,
       ch_otpHash = hashOtp sha (rn_otp rnd) (rn_salt rnd), ch_salt = rn_salt rnd,
       ch_rateLimitKey = rate_key (oc_request c) h, ch_attempts = 0, ch_verifying = False,
       ch_consumed = False, ch_delivered = False\<rparr>)"

definition otp_message :: "email_options \<Rightarrow> string \<Rightarrow> string \<Rightarrow> email_message" where
  "otp_message cfg email otp = \<lparr>em_to = email, em_subject = eo_subject cfg,
     em_text = ''Your verification code is '' @ otp @ ''. It expires in ''
       @ show_int (eo_otpTtlSeconds cfg) @ '' seconds.''\<rparr>"

text \<open>Up to the delivery, which takes place only for an allowed request and a known address.\<close>

definition otp_store ::
  "email_options \<Rightarrow> (string \<Rightarrow> string) \<Rightarrow> otp_call \<Rightarrow> identity_record option \<Rightarrow> 't email_state \<Rightarrow> 't email_state" where
  "otp_store cfg sha c identity s =
     s\<lparr>es_challenges := (es_challenges s)(otp_id c \<mapsto> new_challenge cfg sha c identity)\<rparr>"

definition otp_delivers :: "otp_call \<Rightarrow> identity_record option \<Rightarrow> bool \<Rightarrow> bool" where
  "otp_delivers c identity allowed \<longleftrightarrow> allowed \<and> (identity \<noteq> None \<or> oc_force c)"

definition deliver ::
  "email_options \<Rightarrow> 't email_transport \<Rightarrow> otp_call \<Rightarrow> 't email_state \<Rightarrow> 't email_state" where
  "deliver cfg send c s =
     (case send (otp_message cfg (oc_email c) (rn_otp (oc_rnd c))) (es_transport s) of
      (Inr _, t) \<Rightarrow> update_challenge (otp_id c) (\<lambda>r. r\<lparr>ch_delivered := True\<rparr>) (s\<lparr>es_transport := t\<rparr>)
    | (Inl _, t) \<Rightarrow> update_challenge (otp_id c) (\<lambda>r. r\<lparr>ch_delivered := False\<rparr>) (s\<lparr>es_transport := t\<rparr>))"

definition otp_run ::
  "email_options \<Rightarrow> (string \<Rightarrow> string) \<Rightarrow> 't email_transport \<Rightarrow> otp_call \<Rightarrow> 't email_state
    \<Rightarrow> otp_request_result \<times> 't email_state" where
  "otp_run cfg sha send c s =
     (case otp_rate cfg sha c s of ((identity, allowed), s1) \<Rightarrow>
      let s2 = otp_store cfg sha c identity s1;
          s3 = (if otp_delivers c identity allowed then deliver cfg send c s2 else s2) in
      (\<lparr>or_accepted = allowed, or_challengeId = otp_id c,
        or_expiresAt = oc_now c + eo_otpTtlSeconds cfg\<rparr>, s3))"

definition requestOtp ::
  "email_options \<Rightarrow> (string \<Rightarrow> string) \<Rightarrow> 't email_transport \<Rightarrow> otp_random \<Rightarrow> int \<Rightarrow> otp_request
    \<Rightarrow> string option \<Rightarrow> bool \<Rightarrow> ('t, otp_request_result) email_meth" where
  "requestOtp cfg sha send rnd now rq prin forceDelivery s =
     (case otp_open rnd rq now prin forceDelivery None of Inl e \<Rightarrow> (Inl e, s)
      | Inr c \<Rightarrow> (case otp_run cfg sha send c s of (res, t) \<Rightarrow> (Inr res, t)))"

definition requestRecovery ::
  "email_options \<Rightarrow> (string \<Rightarrow> string) \<Rightarrow> 't email_transport \<Rightarrow> otp_random \<Rightarrow> int \<Rightarrow> otp_request
    \<Rightarrow> ('t, otp_request_result) email_meth" where
  "requestRecovery cfg sha send rnd now rq =
     requestOtp cfg sha send rnd now (rq\<lparr>oq_purpose := Some Recovery\<rparr>) None False"

section \<open>Sessions\<close>

definition requireSession :: "string \<Rightarrow> int \<Rightarrow> ('t, email_session) email_meth" where
  "requireSession i now s = (case map_of (es_sessions s) i of
       None \<Rightarrow> (Inl (Email_error SESSION_NOT_FOUND), s)
     | Some x \<Rightarrow>
         if i \<in> es_revokedSessions s then (Inl (Email_error SESSION_REVOKED), s)
         else case boundedNow now of Inl e \<Rightarrow> (Inl e, s)
           | Inr t \<Rightarrow>
               if el_expiresAt x \<le> t
               then (Inl (Email_error SESSION_EXPIRED), s\<lparr>es_revokedSessions := insert i (es_revokedSessions s)\<rparr>)
               else (Inr x, s))"

definition revokeSession :: "string \<Rightarrow> 't email_state \<Rightarrow> 't email_state" where
  "revokeSession i s = (if length i > 0
     then s\<lparr>es_revokedSessions := insert i (es_revokedSessions s)\<rparr> else s)"

definition revokePrincipalSessions :: "string \<Rightarrow> 't email_state \<Rightarrow> 't email_state" where
  "revokePrincipalSessions p s = s\<lparr>es_revokedSessions := es_revokedSessions s
     \<union> set (map (\<lambda>q. el_sessionId (snd q)) (filter (\<lambda>q. el_principalId (snd q) = p) (es_sessions s)))\<rparr>"

record email_step_up =
  eu_method :: string
  eu_challengeId :: string
  eu_requestId :: string
  eu_verifiedAt :: int
  eu_expiresAt :: int

text \<open>\<open>verify\<close> is the step-up verifier.\<close>

definition assertSensitiveOperation ::
  "(email_session \<Rightarrow> string \<Rightarrow> email_step_up \<Rightarrow> email_exn + bool) \<Rightarrow> string \<Rightarrow> string
    \<Rightarrow> email_step_up option \<Rightarrow> int \<Rightarrow> ('t, unit) email_meth" where
  "assertSensitiveOperation verify i op evidence now =
     bindS (requireSession i now) (\<lambda>x.
     bindS (pureS (boundedNow now)) (\<lambda>t.
     case evidence of
       None \<Rightarrow> throwS (Email_error STEP_UP_REQUIRED)
     | Some e \<Rightarrow>
         if eu_method e \<noteq> ''passkey'' \<and> eu_method e \<noteq> ''recovery''
         then throwS (Email_error STEP_UP_REQUIRED)
         else if length (eu_requestId e) = 0 \<or> eu_expiresAt e \<le> t \<or> t < eu_verifiedAt e
                 \<or> 300 < eu_expiresAt e - eu_verifiedAt e
         then throwS (Email_error STEP_UP_INVALID)
         else bindS (pureS (verify x op e)) (\<lambda>ok.
           if ok then returnS () else throwS (Email_error STEP_UP_INVALID))))"

section \<open>Verification of a code\<close>

text \<open>\<open>verifyOtp\<close> up to its await, and from there on.\<close>

definition verify_begin :: "email_options \<Rightarrow> string \<Rightarrow> string \<Rightarrow> int \<Rightarrow> ('t, unit) email_meth" where
  "verify_begin cfg i otp now s =
     (if \<not> otp_format otp then (Inl (Email_error INVALID_OTP), s)
      else case boundedNow now of Inl e \<Rightarrow> (Inl e, s) | Inr t \<Rightarrow>
       (case es_challenges s i of None \<Rightarrow> (Inl (Email_error CHALLENGE_NOT_FOUND), s)
        | Some r \<Rightarrow>
            if ch_consumed r \<or> ch_verifying r then (Inl (Email_error OTP_REPLAYED), s)
            else if ch_expiresAt r \<le> t
            then (Inl (Email_error OTP_EXPIRED), update_challenge i (\<lambda>r. r\<lparr>ch_consumed := True\<rparr>) s)
            else if eo_maxAttempts cfg \<le> ch_attempts r
            then (Inl (Email_error OTP_ATTEMPTS_EXCEEDED), update_challenge i (\<lambda>r. r\<lparr>ch_consumed := True\<rparr>) s)
            else (Inr (), update_challenge i
                   (\<lambda>r. r\<lparr>ch_attempts := ch_attempts r + 1, ch_verifying := True\<rparr>) s)))"

text \<open>A wrong code: the challenge can be tried again unless this was the last attempt.\<close>

definition wrong_code :: "email_options \<Rightarrow> string \<Rightarrow> 't email_state \<Rightarrow> 't email_state" where
  "wrong_code cfg i = update_challenge i (\<lambda>r. r\<lparr>ch_verifying := False,
     ch_consumed := (if eo_maxAttempts cfg \<le> ch_attempts r then True else ch_consumed r)\<rparr>)"

definition code_matches :: "(string \<Rightarrow> string) \<Rightarrow> string \<Rightarrow> challenge_record \<Rightarrow> bool" where
  "code_matches sha otp r \<longleftrightarrow> constantTimeEqual (hashOtp sha otp (ch_salt r)) (ch_otpHash r)"

definition verify_end ::
  "email_options \<Rightarrow> (string \<Rightarrow> string) \<Rightarrow> string \<Rightarrow> string \<Rightarrow> string \<Rightarrow> int \<Rightarrow> ('t, email_session) email_meth" where
  "verify_end cfg sha randomId i otp now s = (case es_challenges s i of
       None \<Rightarrow> (Inl (Email_error CHALLENGE_NOT_FOUND), s)
     | Some r \<Rightarrow>
         if \<not> code_matches sha otp r then (Inl (Email_error INVALID_OTP), wrong_code cfg i s)
         else let s1 = update_challenge i (\<lambda>r. r\<lparr>ch_consumed := True, ch_verifying := False\<rparr>) s in
           if \<not> ch_delivered r then (Inl (Email_error DELIVERY_FAILED), s1)
           else case identityForHash (ch_subjectHash r) s1 of
               None \<Rightarrow> (Inl (Email_error IDENTITY_NOT_FOUND), s1)
             | Some identity \<Rightarrow>
                 if ch_purpose r = Email_change then (Inl (Email_error INVALID_OTP), s1)
                 else (case createSession cfg randomId identity now s1 of (x, s2) \<Rightarrow> (Inr x, s2)))"

definition verifyOtp ::
  "email_options \<Rightarrow> (string \<Rightarrow> string) \<Rightarrow> string \<Rightarrow> string \<Rightarrow> string \<Rightarrow> int \<Rightarrow> ('t, email_session) email_meth" where
  "verifyOtp cfg sha randomId i otp now =
     bindS (verify_begin cfg i otp now) (\<lambda>_. verify_end cfg sha randomId i otp now)"

section \<open>Change of the address\<close>

text \<open>
  \<open>requestEmailChange\<close>: up to the hash of the new address, then up to the request of a code
  for it, and what it adds to the challenge when that request has returned.
\<close>

definition change_begin :: "string \<Rightarrow> string \<Rightarrow> int \<Rightarrow> ('t, email_session \<times> string) email_meth" where
  "change_begin sessionId newEmail now =
     bindS (requireSession sessionId now) (\<lambda>x.
     bindS (pureS (normalizeEmail newEmail)) (\<lambda>email. returnS (x, email)))"

definition change_check ::
  "(string \<Rightarrow> string) \<Rightarrow> otp_random \<Rightarrow> email_session \<Rightarrow> string \<Rightarrow> string option \<Rightarrow> int \<Rightarrow> 't email_state
    \<Rightarrow> email_exn + otp_call" where
  "change_check sha rnd x email rateLimitKey now s =
     (let h = subjectHash sha email in
      if es_subjectIndex s h \<noteq> None then Inl (Email_error EMAIL_ALREADY_REGISTERED)
      else otp_open rnd \<lparr>oq_email = email, oq_purpose = Some Email_change,
             oq_rateLimitKey = Some (case rateLimitKey of None \<Rightarrow> el_principalId x | Some k \<Rightarrow> k)\<rparr>
           now (Some (el_principalId x)) True (Some (h, el_principalId x)))"

definition otp_finish :: "otp_call \<Rightarrow> 't email_state \<Rightarrow> 't email_state" where
  "otp_finish c s = (case oc_change c of None \<Rightarrow> s
     | Some (h, p) \<Rightarrow> update_challenge (otp_id c)
         (\<lambda>r. r\<lparr>ch_targetSubjectHash := Some h, ch_principalId := Some p\<rparr>) s)"

definition requestEmailChange ::
  "email_options \<Rightarrow> (string \<Rightarrow> string) \<Rightarrow> 't email_transport \<Rightarrow> otp_random \<Rightarrow> string \<Rightarrow> string
    \<Rightarrow> string option \<Rightarrow> int \<Rightarrow> ('t, otp_request_result) email_meth" where
  "requestEmailChange cfg sha send rnd sessionId newEmail rateLimitKey now =
     bindS (change_begin sessionId newEmail now) (\<lambda>(x, email) s.
       case change_check sha rnd x email rateLimitKey now s of Inl e \<Rightarrow> (Inl e, s)
       | Inr c \<Rightarrow> (case otp_run cfg sha send c s of (res, t) \<Rightarrow> (Inr res, otp_finish c t)))"

definition confirm_begin :: "string \<Rightarrow> string \<Rightarrow> string \<Rightarrow> int \<Rightarrow> ('t, string) email_meth" where
  "confirm_begin sessionId i otp now =
     bindS (requireSession sessionId now) (\<lambda>x s.
       if \<not> otp_format otp then (Inl (Email_error INVALID_OTP), s)
       else case boundedNow now of Inl e \<Rightarrow> (Inl e, s) | Inr t \<Rightarrow>
       (case es_challenges s i of None \<Rightarrow> (Inl (Email_error CHALLENGE_NOT_FOUND), s)
        | Some r \<Rightarrow>
            if ch_purpose r \<noteq> Email_change then (Inl (Email_error CHALLENGE_NOT_FOUND), s)
            else if ch_principalId r \<noteq> Some (el_principalId x) \<or> ch_consumed r \<or> ch_verifying r
            then (Inl (Email_error INVALID_OTP), s)
            else if ch_expiresAt r \<le> t
            then (Inl (Email_error OTP_EXPIRED), update_challenge i (\<lambda>r. r\<lparr>ch_consumed := True\<rparr>) s)
            else (Inr (el_principalId x), update_challenge i
                   (\<lambda>r. r\<lparr>ch_attempts := ch_attempts r + 1, ch_verifying := True\<rparr>) s)))"

definition find_principal :: "string \<Rightarrow> 't email_state \<Rightarrow> identity_record option" where
  "find_principal p s = find (\<lambda>x. ei_principalId x = p) (map snd (es_identities s))"

definition confirm_end ::
  "email_options \<Rightarrow> (string \<Rightarrow> string) \<Rightarrow> string \<Rightarrow> string \<Rightarrow> string \<Rightarrow> int \<Rightarrow> ('t, email_identity) email_meth" where
  "confirm_end cfg sha p i otp now s = (case es_challenges s i of
       None \<Rightarrow> (Inl (Email_error CHALLENGE_NOT_FOUND), s)
     | Some r \<Rightarrow>
         if \<not> code_matches sha otp r then (Inl (Email_error INVALID_OTP), wrong_code cfg i s)
         else let s1 = update_challenge i (\<lambda>r. r\<lparr>ch_consumed := True\<rparr>) s in
           if \<not> ch_delivered r then (Inl (Email_error DELIVERY_FAILED), s1)
           else case ch_targetSubjectHash r of None \<Rightarrow> (Inl (Email_error DELIVERY_FAILED), s1)
             | Some h \<Rightarrow> (case find_principal p s1 of
                 None \<Rightarrow> (Inl (Email_error IDENTITY_NOT_FOUND), s1)
               | Some identity \<Rightarrow>
                   let nxt = identity\<lparr>ei_subjectHash := h, ei_changedAt := now, ei_normalizedEmail := ''''\<rparr>;
                       s2 = s1\<lparr>es_identities := omap_set (ei_identityId identity) nxt (es_identities s1),
                          es_subjectIndex := ((es_subjectIndex s1)(ei_subjectHash identity := None))
                             (h \<mapsto> ei_identityId nxt)\<rparr>
                   in (Inr (publicIdentity nxt), revokePrincipalSessions p s2)))"

definition confirmEmailChange ::
  "email_options \<Rightarrow> (string \<Rightarrow> string) \<Rightarrow> string \<Rightarrow> string \<Rightarrow> string \<Rightarrow> int \<Rightarrow> ('t, email_identity) email_meth" where
  "confirmEmailChange cfg sha sessionId i otp now =
     bindS (confirm_begin sessionId i otp now) (\<lambda>p. confirm_end cfg sha p i otp now)"

end
