(* ===== verification/EmailAuthProps.thy ===== *)
theory EmailAuthProps
  imports EmailAuth
begin

text \<open>
  Properties of the email codes: the comparison and the generator, soundness of a session, the
  index of identities, and the runs in which the segments of concurrent verifications,
  confirmations, requests and changes are interleaved with all other operations.
\<close>

section \<open>Comparison and generation of codes\<close>

lemma xor_zero_iff: "xor m n = 0 \<longleftrightarrow> m = (n :: nat)"
proof
  assume z: "xor m n = 0"
  have "m = xor (xor m n) n" by (simp add: xor.assoc)
  with z show "m = n" by simp
qed simp

lemma or_xor_loop_zero: "length l = length r \<Longrightarrow> or_xor_loop n l r = 0 \<longleftrightarrow> n = 0 \<and> l = r"
proof (induction n l r rule: or_xor_loop.induct)
  case (1 n a as b bs)
  have "or n (xor (of_char a) (of_char b :: nat)) = 0 \<longleftrightarrow> n = 0 \<and> a = b"
    by (simp add: or_eq_0_iff xor_zero_iff)
  with 1 show ?case by auto
qed auto

lemma constantTimeEqual_iff [simp]: "constantTimeEqual l r \<longleftrightarrow> l = r"
  using or_xor_loop_zero [of l r 0] by (auto simp: constantTimeEqual_def)

text \<open>
  The loop that compares two digests without an early exit returns true exactly for equal
  strings.
\<close>

theorem constant_time_comparison_is_equality: "constantTimeEqual l r \<longleftrightarrow> l = r"
  by (rule constantTimeEqual_iff)

lemma otp_limit_value: "otp_limit = 4294000000"
  by (simp add: otp_limit_def)

text \<open>The words the sampler accepts for one code: as many for every code.\<close>

definition otp_words :: "int \<Rightarrow> int set" where
  "otp_words k = {v. 0 \<le> v \<and> v < otp_limit \<and> v mod 1000000 = k}"

lemma otp_words_count: "0 \<le> k \<Longrightarrow> k < 1000000 \<Longrightarrow> card (otp_words k) = 4294"
proof -
  assume k: "0 \<le> k" "k < 1000000"
  have "otp_words k = (\<lambda>q. q * 1000000 + k) ` {0..<4294}"
  proof
    show "otp_words k \<subseteq> (\<lambda>q. q * 1000000 + k) ` {0..<4294}"
    proof
      fix v assume "v \<in> otp_words k"
      then have v: "0 \<le> v" "v < 4294000000" "v mod 1000000 = k" by (auto simp: otp_words_def otp_limit_value)
      have "v = (v div 1000000) * 1000000 + k" using v(3) by (metis div_mult_mod_eq)
      moreover have "v div 1000000 \<in> {0..<4294}" using v by auto
      ultimately show "v \<in> (\<lambda>q. q * 1000000 + k) ` {0..<4294}" by blast
    qed
    show "(\<lambda>q. q * 1000000 + k) ` {0..<4294} \<subseteq> otp_words k"
      using k by (auto simp: otp_words_def otp_limit_value)
  qed
  moreover have "inj_on (\<lambda>q. q * 1000000 + k) {0..<4294}" by (auto simp: inj_on_def)
  ultimately show ?thesis by (simp add: card_image)
qed

section \<open>Verification of a code\<close>

lemma update_challenge_simps [simp]:
  "es_challenges (update_challenge i f s) = (case es_challenges s i of None \<Rightarrow> es_challenges s
     | Some r \<Rightarrow> (es_challenges s)(i \<mapsto> f r))"
  "es_identities (update_challenge i f s) = es_identities s"
  "es_subjectIndex (update_challenge i f s) = es_subjectIndex s"
  "es_sessions (update_challenge i f s) = es_sessions s"
  "es_revokedSessions (update_challenge i f s) = es_revokedSessions s"
  by (simp_all add: update_challenge_def split: option.splits)

lemma identityForHash_update [simp]: "identityForHash h (update_challenge i f s) = identityForHash h s"
  by (simp add: identityForHash_def split: option.split)

lemma verify_begin_cases:
  obtains (refused) e where "verify_begin cfg i otp now s = (Inl e, s)"
  | (closed) e r where "verify_begin cfg i otp now s = (Inl e, update_challenge i (\<lambda>r. r\<lparr>ch_consumed := True\<rparr>) s)"
      "es_challenges s i = Some r" "\<not> ch_consumed r" "\<not> ch_verifying r"
  | (begun) r where "verify_begin cfg i otp now s = (Inr (), update_challenge i
          (\<lambda>r. r\<lparr>ch_attempts := ch_attempts r + 1, ch_verifying := True\<rparr>) s)"
      "es_challenges s i = Some r" "\<not> ch_consumed r" "\<not> ch_verifying r" "now < ch_expiresAt r"
      "ch_attempts r < eo_maxAttempts cfg" "otp_format otp" "0 \<le> now"
proof (cases "verify_begin cfg i otp now s")
  case (Pair q t)
  then show thesis
    by (auto simp: verify_begin_def boundedNow_def split: if_splits option.splits intro: that)
qed

lemma verify_end_cases:
  obtains (missing) e where "verify_end cfg sha n i otp now s = (Inl e, s)" "es_challenges s i = None"
  | (wrong) r where "verify_end cfg sha n i otp now s = (Inl (Email_error INVALID_OTP), wrong_code cfg i s)"
      "es_challenges s i = Some r" "\<not> code_matches sha otp r"
  | (closed) e r where "verify_end cfg sha n i otp now s
        = (Inl e, update_challenge i (\<lambda>r. r\<lparr>ch_consumed := True, ch_verifying := False\<rparr>) s)"
      "es_challenges s i = Some r"
  | (session) r identity where "verify_end cfg sha n i otp now s =
        (case createSession cfg n identity now
           (update_challenge i (\<lambda>r. r\<lparr>ch_consumed := True, ch_verifying := False\<rparr>) s) of (x, t) \<Rightarrow> (Inr x, t))"
      "es_challenges s i = Some r" "code_matches sha otp r" "ch_delivered r" "ch_purpose r \<noteq> Email_change"
      "identityForHash (ch_subjectHash r) s = Some identity"
proof (cases "es_challenges s i")
  case None
  then show thesis by (intro missing) (auto simp: verify_end_def)
next
  case (Some r)
  show thesis
  proof (cases "code_matches sha otp r")
    case False
    with Some show thesis by (intro wrong) (auto simp: verify_end_def)
  next
    case True
    show thesis
    proof (cases "ch_delivered r \<and> ch_purpose r \<noteq> Email_change \<and> identityForHash (ch_subjectHash r) s \<noteq> None")
      case ok: True
      with Some True show thesis by (auto simp: verify_end_def Let_def intro!: session)
    next
      case False
      with Some True have "\<exists>e. verify_end cfg sha n i otp now s
        = (Inl e, update_challenge i (\<lambda>r. r\<lparr>ch_consumed := True, ch_verifying := False\<rparr>) s)"
        by (auto simp: verify_end_def Let_def split: option.splits)
      with Some show thesis by (blast intro: closed)
    qed
  qed
qed

text \<open>
  C33: A session is only returned for a challenge that was delivered, not expired, neither
  consumed nor being verified, with attempts left, whose stored hash is that of the given
  code; it carries the signer and policy of the identity the address belongs to, and the
  challenge is consumed.
\<close>

theorem verified_session_sound:
  assumes "verifyOtp cfg sha n i otp now s = (Inr x, t)"
  shows "\<exists>r identity. es_challenges s i = Some r \<and> \<not> ch_consumed r \<and> \<not> ch_verifying r
    \<and> now < ch_expiresAt r \<and> ch_attempts r < eo_maxAttempts cfg \<and> ch_delivered r
    \<and> hashOtp sha otp (ch_salt r) = ch_otpHash r \<and> ch_purpose r \<noteq> Email_change
    \<and> identityForHash (ch_subjectHash r) s = Some identity
    \<and> el_principalId x = ei_principalId identity \<and> el_signerId x = ei_signerId identity
    \<and> el_policyId x = ei_policyId identity \<and> el_expiresAt x = now + eo_sessionTtlSeconds cfg
    \<and> map_of (es_sessions t) (el_sessionId x) = Some x
    \<and> (\<exists>r'. es_challenges t i = Some r' \<and> ch_consumed r')"
proof -
  obtain u where b: "verify_begin cfg i otp now s = (Inr (), u)"
    and e: "verify_end cfg sha n i otp now u = (Inr x, t)"
    using assms unfolding verifyOtp_def by (auto simp: result_simps)
  show ?thesis
  proof (cases rule: verify_begin_cases [where cfg = cfg and i = i and otp = otp and now = now and s = s])
    case (begun r)
    with b have u: "u = update_challenge i (\<lambda>r. r\<lparr>ch_attempts := ch_attempts r + 1, ch_verifying := True\<rparr>) s" by simp
    show ?thesis
    proof (cases rule: verify_end_cases [where cfg = cfg and i = i and otp = otp and now = now and s = u and sha = sha and n = n])
      case (session r' identity)
      with begun e u show ?thesis
        by (auto simp: createSession_def Let_def code_matches_def)
    qed (use e in auto)
  qed (use b in auto)
qed

section \<open>The index of identities\<close>

definition index_ok :: "'t email_state \<Rightarrow> bool" where
  "index_ok s \<longleftrightarrow> distinct (map fst (es_identities s))
     \<and> (\<forall>i r. map_of (es_identities s) i = Some r \<longrightarrow> ei_identityId r = i)
     \<and> (\<forall>h i. es_subjectIndex s h = Some i \<longrightarrow>
          (\<exists>r. map_of (es_identities s) i = Some r \<and> ei_subjectHash r = h))"

lemma index_ok_cong:
  "es_identities t = es_identities s \<Longrightarrow> es_subjectIndex t = es_subjectIndex s \<Longrightarrow> index_ok t = index_ok s"
  by (simp add: index_ok_def)

lemma publicIdentity_fields [simp]:
  "ei_identityId (publicIdentity r) = ei_identityId r" "ei_subjectHash (publicIdentity r) = ei_subjectHash r"
  by (simp_all add: publicIdentity_def email_identity.truncate_def)

lemma registerIdentity_Inl: "registerIdentity sha i p email g q now s = (Inl e, t) \<Longrightarrow> t = s"
  unfolding registerIdentity_def by (auto simp: Let_def split: sum.splits if_splits)

lemma registerIdentity_Inr:
  assumes "registerIdentity sha i p email g q now s = (Inr x, t)"
  obtains r where "x = publicIdentity r"
    "t = s\<lparr>es_identities := omap_set i r (es_identities s),
        es_subjectIndex := (es_subjectIndex s)(ei_subjectHash r \<mapsto> i)\<rparr>"
    "ei_identityId r = i" "es_subjectIndex s (ei_subjectHash r) = None" "map_of (es_identities s) i = None"
    "normalizeEmail email = Inr (ei_normalizedEmail r)" "ei_subjectHash r = subjectHash sha (ei_normalizedEmail r)"
proof -
  obtain n where n: "normalizeEmail email = Inr n"
    using assms by (auto simp: registerIdentity_def split: sum.splits)
  define r where "r = \<lparr>ei_identityId = i, ei_principalId = p, ei_subjectHash = subjectHash sha n,
    ei_signerId = g, ei_policyId = q, ei_createdAt = now, ei_changedAt = now, ei_normalizedEmail = n\<rparr>"
  have "x = publicIdentity r \<and> es_subjectIndex s (subjectHash sha n) = None \<and> map_of (es_identities s) i = None
    \<and> t = s\<lparr>es_identities := omap_set i r (es_identities s),
        es_subjectIndex := (es_subjectIndex s)(subjectHash sha n \<mapsto> i)\<rparr>"
    using assms unfolding registerIdentity_def n r_def
    by (auto simp: Let_def boundedNow_def boundedId_def split: sum.splits if_splits)
  with n show thesis by (intro that [of r]) (simp_all add: r_def)
qed

lemma index_okD:
  assumes "index_ok s"
  shows "distinct (map fst (es_identities s))"
    and "map_of (es_identities s) i = Some r \<Longrightarrow> ei_identityId r = i"
    and "es_subjectIndex s h = Some i \<Longrightarrow> \<exists>r. map_of (es_identities s) i = Some r \<and> ei_subjectHash r = h"
  using assms unfolding index_ok_def by blast+

lemma registerIdentity_index_ok:
  assumes "index_ok s" "registerIdentity sha i p email g q now s = (res, t)"
  shows "index_ok t"
proof (cases res)
  case (Inr x)
  with assms(2) have "registerIdentity sha i p email g q now s = (Inr x, t)" by simp
  then show ?thesis
  proof (rule registerIdentity_Inr)
    fix r assume t: "t = s\<lparr>es_identities := omap_set i r (es_identities s),
        es_subjectIndex := (es_subjectIndex s)(ei_subjectHash r \<mapsto> i)\<rparr>"
      and r: "ei_identityId r = i" and new: "map_of (es_identities s) i = None"
    have "es_subjectIndex s h \<noteq> Some i" for h using index_okD(3) [OF assms(1)] new by fastforce
    with assms(1) r new show ?thesis
      unfolding index_ok_def t by (simp add: distinct_omap_set del: map_of_eq_Some_iff)
  qed
qed (use assms registerIdentity_Inl in blast)

lemma find_principal_Some:
  assumes "index_ok s" "find_principal p s = Some x"
  shows "map_of (es_identities s) (ei_identityId x) = Some x" "ei_principalId x = p"
proof -
  have x: "x \<in> set (map snd (es_identities s)) \<and> ei_principalId x = p"
    using assms(2) by (auto simp: find_principal_def find_Some_iff)
  then show "ei_principalId x = p" by simp
  from x obtain i where "(i, x) \<in> set (es_identities s)" by auto
  then have "map_of (es_identities s) i = Some x" using index_okD(1) [OF assms(1)] by simp
  with index_okD(2) [OF assms(1)] show "map_of (es_identities s) (ei_identityId x) = Some x" by metis
qed

lemma index_ok_move:
  assumes "index_ok s" "map_of (es_identities s) i = Some x" "ei_identityId x = i" "ei_identityId y = i"
    and "ei_subjectHash y = h" "es_identities t = omap_set i y (es_identities s)"
    and "es_subjectIndex t = ((es_subjectIndex s)(ei_subjectHash x := None))(h \<mapsto> i)"
  shows "index_ok t"
proof -
  have "ei_subjectHash x = g" if "es_subjectIndex s g = Some i" for g
    using index_okD(3) [OF assms(1) that] assms(2) by auto
  with assms(1) show ?thesis
    unfolding index_ok_def assms(4-7)
    by (simp add: distinct_omap_set assms(4,5) del: map_of_eq_Some_iff) (metis option.inject)
qed

lemma confirm_end_Inr:
  assumes "confirm_end cfg sha p i otp now s = (Inr z, t)"
  obtains r h x where "es_challenges s i = Some r" "code_matches sha otp r" "ch_delivered r"
    "ch_targetSubjectHash r = Some h" "find_principal p s = Some x"
    "z = publicIdentity (x\<lparr>ei_subjectHash := h, ei_changedAt := now, ei_normalizedEmail := ''''\<rparr>)"
    "t = revokePrincipalSessions p ((update_challenge i (\<lambda>r. r\<lparr>ch_consumed := True\<rparr>) s)
       \<lparr>es_identities := omap_set (ei_identityId x)
            (x\<lparr>ei_subjectHash := h, ei_changedAt := now, ei_normalizedEmail := ''''\<rparr>) (es_identities s),
        es_subjectIndex := ((es_subjectIndex s)(ei_subjectHash x := None))(h \<mapsto> ei_identityId x)\<rparr>)"
  using assms unfolding confirm_end_def find_principal_def
  by (auto simp: Let_def split: option.splits if_splits)

lemma confirm_end_Inl:
  assumes "confirm_end cfg sha p i otp now s = (Inl e, t)"
  shows "es_identities t = es_identities s" "es_subjectIndex t = es_subjectIndex s"
  using assms by (auto simp: confirm_end_def wrong_code_def Let_def split: option.splits if_splits)

lemma confirm_end_index_ok:
  assumes "index_ok s" "confirm_end cfg sha p i otp now s = (res, t)"
  shows "index_ok t"
proof (cases res)
  case (Inl e)
  with assms confirm_end_Inl [of cfg sha p i otp now s e t] show ?thesis
    using index_ok_cong [of t s] by simp
next
  case (Inr z)
  with assms(2) have "confirm_end cfg sha p i otp now s = (Inr z, t)" by simp
  then show ?thesis
  proof (rule confirm_end_Inr)
    fix h x
    assume x: "find_principal p s = Some x" and t: "t = revokePrincipalSessions p ((update_challenge i (\<lambda>r. r\<lparr>ch_consumed := True\<rparr>) s)
       \<lparr>es_identities := omap_set (ei_identityId x)
            (x\<lparr>ei_subjectHash := h, ei_changedAt := now, ei_normalizedEmail := ''''\<rparr>) (es_identities s),
        es_subjectIndex := ((es_subjectIndex s)(ei_subjectHash x := None))(h \<mapsto> ei_identityId x)\<rparr>)"
    show ?thesis
      by (rule index_ok_move [OF assms(1) find_principal_Some(1) [OF assms(1) x]])
        (auto simp: t revokePrincipalSessions_def)
  qed
qed

section \<open>Interleaved calls\<close>

text \<open>A call that waits for the hash of a code it verifies.\<close>

datatype email_thread =
    Verify_wait (waits_for: string) (code: string) (since: int)
  | Confirm_wait (waits_for: string) (code: string) (since: int) (who: string)

text \<open>
  A request under way: it waits for the hash of the new address, of the address, of the code,
  for the delivery, or for the caller to resume.
\<close>

datatype request_thread =
    Change_hash email_session string otp_random "string option"
  | Otp_hash otp_call
  | Otp_code otp_call "identity_record option" bool
  | Otp_sending otp_call
  | Otp_done otp_call

text \<open>The operations that run in one piece.\<close>

inductive email_other ::
  "(string \<Rightarrow> string) \<Rightarrow> 't email_state \<Rightarrow> 't email_state \<Rightarrow> bool"
  for sha where
  "registerIdentity sha i p email g q now s = (r, t) \<Longrightarrow> email_other sha s t"
| "requireSession i now s = (r'', t) \<Longrightarrow> email_other sha s t"
| "email_other sha s (revokeSession i s)"
| "email_other sha s (revokePrincipalSessions p s)"

text \<open>
  One segment of a request.  A new challenge is stored under an id that is not in use: the id
  is 16 random bytes.
\<close>

inductive request_step ::
  "email_options \<Rightarrow> (string \<Rightarrow> string) \<Rightarrow> 't email_transport
    \<Rightarrow> 't email_state \<times> request_thread list \<Rightarrow> 't email_state \<times> request_thread list \<Rightarrow> bool"
  for cfg sha send where
  otp_starts: "otp_open rnd rq now prin force None = Inr c
     \<Longrightarrow> request_step cfg sha send (s, rs) (s, Otp_hash c # rs)"
| otp_rates: "otp_rate cfg sha c s = ((identity, allowed), t)
     \<Longrightarrow> request_step cfg sha send (s, us @ Otp_hash c # vs) (t, us @ Otp_code c identity allowed # vs)"
| otp_stores: "es_challenges s (otp_id c) = None
     \<Longrightarrow> request_step cfg sha send (s, us @ Otp_code c identity allowed # vs)
           (otp_store cfg sha c identity s,
            us @ (if otp_delivers c identity allowed then Otp_sending c else Otp_done c) # vs)"
| otp_sends: "request_step cfg sha send (s, us @ Otp_sending c # vs) (deliver cfg send c s, us @ Otp_done c # vs)"
| otp_returns: "request_step cfg sha send (s, us @ Otp_done c # vs) (otp_finish c s, us @ vs)"
| change_starts: "change_begin sid newEmail now s = (Inr (x, email), t)
     \<Longrightarrow> request_step cfg sha send (s, rs) (t, Change_hash x email rnd key # rs)"
| change_checks: "change_check sha rnd x email key now s = Inr c
     \<Longrightarrow> request_step cfg sha send (s, us @ Change_hash x email rnd key # vs) (s, us @ Otp_hash c # vs)"
| change_refused: "change_check sha rnd x email key now s = Inl e
     \<Longrightarrow> request_step cfg sha send (s, us @ Change_hash x email rnd key # vs) (s, us @ vs)"

text \<open>
  A configuration: the service, the calls waiting for the hash of a code they verify, the
  requests under way, and the challenges whose code was accepted, newest first.
\<close>

type_synonym 't email_config =
  "'t email_state \<times> email_thread list \<times> request_thread list \<times> string list"

inductive email_step ::
  "email_options \<Rightarrow> (string \<Rightarrow> string) \<Rightarrow> 't email_transport \<Rightarrow> 't email_config \<Rightarrow> 't email_config \<Rightarrow> bool"
  for cfg sha send where
  verify_starts: "verify_begin cfg i otp now s = (Inr (), t)
     \<Longrightarrow> email_step cfg sha send (s, ts, rs, m) (t, Verify_wait i otp now # ts, rs, m)"
| verify_refused: "verify_begin cfg i otp now s = (Inl e, t)
     \<Longrightarrow> email_step cfg sha send (s, ts, rs, m) (t, ts, rs, m)"
| verify_accepts: "verify_end cfg sha n i otp now s = (Inr x, t)
     \<Longrightarrow> email_step cfg sha send (s, us @ Verify_wait i otp now # vs, rs, m) (t, us @ vs, rs, i # m)"
| verify_rejects: "verify_end cfg sha n i otp now s = (Inl e, t)
     \<Longrightarrow> email_step cfg sha send (s, us @ Verify_wait i otp now # vs, rs, m) (t, us @ vs, rs, m)"
| confirm_starts: "confirm_begin sid i otp now s = (Inr p, t)
     \<Longrightarrow> email_step cfg sha send (s, ts, rs, m) (t, Confirm_wait i otp now p # ts, rs, m)"
| confirm_refused: "confirm_begin sid i otp now s = (Inl e, t)
     \<Longrightarrow> email_step cfg sha send (s, ts, rs, m) (t, ts, rs, m)"
| confirm_accepts: "confirm_end cfg sha p i otp now s = (Inr x', t)
     \<Longrightarrow> email_step cfg sha send (s, us @ Confirm_wait i otp now p # vs, rs, m) (t, us @ vs, rs, i # m)"
| confirm_rejects: "confirm_end cfg sha p i otp now s = (Inl e, t)
     \<Longrightarrow> email_step cfg sha send (s, us @ Confirm_wait i otp now p # vs, rs, m) (t, us @ vs, rs, m)"
| request: "request_step cfg sha send (s, rs) (t, rs') \<Longrightarrow> email_step cfg sha send (s, ts, rs, m) (t, ts, rs', m)"
| other: "email_other sha s t \<Longrightarrow> email_step cfg sha send (s, ts, rs, m) (t, ts, rs, m)"

text \<open>What one operation does to the challenges.\<close>

definition idle_challenge :: "challenge_record \<Rightarrow> bool" where
  "idle_challenge r \<longleftrightarrow> \<not> ch_verifying r \<and> \<not> ch_consumed r"

definition adds_challenge :: "'t email_state \<Rightarrow> 't email_state \<Rightarrow> bool" where
  "adds_challenge s t \<longleftrightarrow> es_challenges t = es_challenges s
     \<or> (\<exists>i r. es_challenges s i = None \<and> es_challenges t = (es_challenges s)(i \<mapsto> r)
          \<and> idle_challenge r \<and> ch_attempts r = 0)"

text \<open>Delivery and the marks of a change leave the attempts of every challenge as they are.\<close>

definition same_attempts :: "'t email_state \<Rightarrow> 't email_state \<Rightarrow> bool" where
  "same_attempts s t \<longleftrightarrow> (\<forall>i. map_option (\<lambda>r. (ch_attempts r, ch_verifying r, ch_consumed r)) (es_challenges t i)
     = map_option (\<lambda>r. (ch_attempts r, ch_verifying r, ch_consumed r)) (es_challenges s i))"

definition closes_challenge :: "'t email_state \<Rightarrow> string \<Rightarrow> 't email_state \<Rightarrow> bool" where
  "closes_challenge s i t \<longleftrightarrow> es_challenges t = es_challenges s
     \<or> (\<exists>r. es_challenges s i = Some r \<and> idle_challenge r
          \<and> es_challenges t = (es_challenges s)(i \<mapsto> r\<lparr>ch_consumed := True\<rparr>))"

definition opens_attempt :: "'t email_state \<Rightarrow> string \<Rightarrow> 't email_state \<Rightarrow> bool" where
  "opens_attempt s i t \<longleftrightarrow> (\<exists>r. es_challenges s i = Some r \<and> idle_challenge r
     \<and> es_challenges t = (es_challenges s)(i \<mapsto> r\<lparr>ch_attempts := ch_attempts r + 1, ch_verifying := True\<rparr>))"

definition ends_attempt :: "email_options \<Rightarrow> 't email_state \<Rightarrow> string \<Rightarrow> bool \<Rightarrow> 't email_state \<Rightarrow> bool" where
  "ends_attempt cfg s i accepted t \<longleftrightarrow> (\<forall>j. j \<noteq> i \<longrightarrow> es_challenges t j = es_challenges s j)
     \<and> (\<forall>r. es_challenges s i = Some r \<longrightarrow> (case es_challenges t i of None \<Rightarrow> False
          | Some r' \<Rightarrow> ch_attempts r' = ch_attempts r \<and> (accepted \<longrightarrow> ch_consumed r')
              \<and> (\<not> ch_consumed r' \<longrightarrow> \<not> ch_verifying r' \<and> ch_attempts r < eo_maxAttempts cfg)))"

lemma verify_begin_effect:
  "verify_begin cfg i otp now s = (q, t)
    \<Longrightarrow> if q = Inr () then opens_attempt s i t else closes_challenge s i t"
  by (cases rule: verify_begin_cases [where cfg = cfg and i = i and otp = otp and now = now and s = s])
    (auto simp: opens_attempt_def closes_challenge_def idle_challenge_def)

lemma verify_end_effect:
  assumes "verify_end cfg sha n i otp now s = (q, t)"
  shows "ends_attempt cfg s i (\<exists>x. q = Inr x) t"
  using assms
  by (cases rule: verify_end_cases [where cfg = cfg and i = i and otp = otp and now = now and s = s and sha = sha and n = n])
    (auto simp: ends_attempt_def wrong_code_def createSession_def Let_def)

lemma requireSession_state:
  "requireSession i now s = (q, t) \<Longrightarrow> es_challenges t = es_challenges s \<and> es_identities t = es_identities s
     \<and> es_subjectIndex t = es_subjectIndex s"
  by (auto simp: requireSession_def split: option.splits if_splits sum.splits)

lemma confirm_begin_effect:
  assumes "confirm_begin sid i otp now s = (q, t)"
  shows "(if \<exists>p. q = Inr p then opens_attempt s i t else closes_challenge s i t)
    \<and> es_identities t = es_identities s \<and> es_subjectIndex t = es_subjectIndex s"
proof (cases "requireSession sid now s")
  case (Pair a u)
  note u = requireSession_state [OF Pair]
  show ?thesis
  proof (cases a)
    case (Inl e)
    with assms Pair u show ?thesis
      by (auto simp: confirm_begin_def bindS_def opens_attempt_def closes_challenge_def)
  next
    case (Inr x)
    with assms Pair u show ?thesis
      by (auto simp: confirm_begin_def bindS_def opens_attempt_def closes_challenge_def idle_challenge_def
          split: if_splits sum.splits option.splits)
  qed
qed

lemma confirm_end_effect:
  "confirm_end cfg sha p i otp now s = (q, t) \<Longrightarrow> ends_attempt cfg s i (\<exists>x. q = Inr x) t"
  unfolding confirm_end_def ends_attempt_def
  by (auto simp: wrong_code_def revokePrincipalSessions_def Let_def split: option.splits if_splits)

lemma consumeRate_state:
  "consumeRate cfg k now s = (b, t) \<Longrightarrow> es_challenges t = es_challenges s \<and> es_identities t = es_identities s
     \<and> es_subjectIndex t = es_subjectIndex s"
  by (auto simp: consumeRate_def Let_def split: option.splits if_splits)

lemma deliver_state:
  "same_attempts s (deliver cfg send c s)" "es_identities (deliver cfg send c s) = es_identities s"
  "es_subjectIndex (deliver cfg send c s) = es_subjectIndex s"
  by (auto simp: deliver_def same_attempts_def split: prod.splits sum.splits option.splits)

lemma otp_finish_state:
  "same_attempts s (otp_finish c s)" "es_identities (otp_finish c s) = es_identities s"
  "es_subjectIndex (otp_finish c s) = es_subjectIndex s"
  by (auto simp: otp_finish_def same_attempts_def split: prod.splits option.splits)

lemma new_challenge_idle:
  "idle_challenge (new_challenge cfg sha c identity)" "ch_attempts (new_challenge cfg sha c identity) = 0"
  by (simp_all add: new_challenge_def idle_challenge_def Let_def)

lemma otp_store_state:
  "es_challenges s (otp_id c) = None \<Longrightarrow> adds_challenge s (otp_store cfg sha c identity s)"
  "es_identities (otp_store cfg sha c identity s) = es_identities s"
  "es_subjectIndex (otp_store cfg sha c identity s) = es_subjectIndex s"
proof -
  show "adds_challenge s (otp_store cfg sha c identity s)" if "es_challenges s (otp_id c) = None"
    unfolding adds_challenge_def using that new_challenge_idle [of cfg sha c identity]
    by (intro disjI2 exI conjI) (simp_all add: otp_store_def)
qed (simp_all add: otp_store_def)

lemma otp_rate_state:
  "otp_rate cfg sha c s = (q, t) \<Longrightarrow> es_challenges t = es_challenges s \<and> es_identities t = es_identities s
     \<and> es_subjectIndex t = es_subjectIndex s"
  by (auto simp: otp_rate_def Let_def dest: consumeRate_state split: prod.splits)

lemma change_begin_state:
  "change_begin sid newEmail now s = (q, t) \<Longrightarrow> es_challenges t = es_challenges s \<and> es_identities t = es_identities s
     \<and> es_subjectIndex t = es_subjectIndex s"
  by (auto simp: change_begin_def bindS_def pureS_def returnS_def dest: requireSession_state split: prod.splits sum.splits)

lemma request_step_effect:
  assumes "request_step cfg sha send (s, rs) (t, rs')"
  shows "(adds_challenge s t \<or> same_attempts s t) \<and> es_identities t = es_identities s
    \<and> es_subjectIndex t = es_subjectIndex s"
  using assms
proof (cases rule: request_step.cases)
  case (otp_stores c us identity allowed vs)
  then show ?thesis using otp_store_state by blast
next
  case (otp_sends us c vs)
  then show ?thesis using deliver_state by blast
next
  case (otp_returns us c vs)
  then show ?thesis using otp_finish_state by blast
next
  case (otp_rates c identity allowed us vs)
  then show ?thesis using otp_rate_state [of cfg sha c s] by (simp add: adds_challenge_def)
next
  case (change_starts sid newEmail now x email rnd key)
  then show ?thesis using change_begin_state [of sid newEmail now s] by (simp add: adds_challenge_def)
qed (simp_all add: adds_challenge_def)

lemma email_other_effect:
  assumes "email_other sha s t"
  shows "adds_challenge s t"
  using assms
proof (cases rule: email_other.cases)
  case (1 i p email g q now r)
  then show ?thesis
    by (cases r) (auto simp: adds_challenge_def dest: registerIdentity_Inl elim!: registerIdentity_Inr)
next
  case (2 i now r'')
  then show ?thesis using requireSession_state [of i now s r'' t] by (simp add: adds_challenge_def)
qed (auto simp: adds_challenge_def revokeSession_def revokePrincipalSessions_def)

section \<open>The invariant\<close>

fun email_inv :: "email_options \<Rightarrow> 't email_state \<times> email_thread list \<times> string list \<Rightarrow> bool" where
  "email_inv cfg (s, ts, m) \<longleftrightarrow> distinct (map waits_for ts) \<and> distinct m
     \<and> (\<forall>th\<in>set ts. \<exists>r. es_challenges s (waits_for th) = Some r \<and> ch_verifying r \<and> \<not> ch_consumed r)
     \<and> (\<forall>i\<in>set m. \<exists>r. es_challenges s i = Some r \<and> ch_consumed r)
     \<and> (\<forall>i r. es_challenges s i = Some r \<longrightarrow> ch_attempts r \<le> eo_maxAttempts cfg
          \<and> (idle_challenge r \<longrightarrow> ch_attempts r < eo_maxAttempts cfg))"

declare email_inv.simps [simp del]

lemma email_invD:
  assumes "email_inv cfg (s, ts, m)"
  shows "distinct (map waits_for ts)" "distinct m"
    and "th \<in> set ts \<Longrightarrow> \<exists>r. es_challenges s (waits_for th) = Some r \<and> ch_verifying r \<and> \<not> ch_consumed r"
    and "i \<in> set m \<Longrightarrow> \<exists>r. es_challenges s i = Some r \<and> ch_consumed r"
    and "es_challenges s i = Some r \<Longrightarrow> ch_attempts r \<le> eo_maxAttempts cfg"
    and "es_challenges s i = Some r \<Longrightarrow> idle_challenge r \<Longrightarrow> ch_attempts r < eo_maxAttempts cfg"
  using assms unfolding email_inv.simps by blast+

lemma inv_adds:
  assumes "email_inv cfg (s, ts, m)" "adds_challenge s t" "0 < eo_maxAttempts cfg"
  shows "email_inv cfg (t, ts, m)"
  using assms(2) unfolding adds_challenge_def
proof (elim disjE exE conjE)
  assume "es_challenges t = es_challenges s"
  with assms(1) show ?thesis by (simp add: email_inv.simps)
next
  fix i r assume r: "es_challenges s i = None" "es_challenges t = (es_challenges s)(i \<mapsto> r)"
    "idle_challenge r" "ch_attempts r = 0"
  note d = email_invD [OF assms(1)]
  have "waits_for th \<noteq> i" if "th \<in> set ts" for th using d(3) [OF that] r(1) by auto
  moreover have "j \<noteq> i" if "j \<in> set m" for j using d(4) [OF that] r(1) by auto
  ultimately show ?thesis using d r assms(3) unfolding email_inv.simps by auto
qed

lemma inv_same:
  assumes "email_inv cfg (s, ts, m)" "same_attempts s t"
  shows "email_inv cfg (t, ts, m)"
proof -
  note d = email_invD [OF assms(1)]
  have fwd: "\<exists>q. es_challenges t i = Some q \<and> ch_attempts q = ch_attempts r \<and> ch_verifying q = ch_verifying r
      \<and> ch_consumed q = ch_consumed r" if "es_challenges s i = Some r" for i r
    using assms(2) [unfolded same_attempts_def, rule_format, of i] that by auto
  have bwd: "\<exists>q. es_challenges s i = Some q \<and> ch_attempts q = ch_attempts r \<and> ch_verifying q = ch_verifying r
      \<and> ch_consumed q = ch_consumed r" if "es_challenges t i = Some r" for i r
    using assms(2) [unfolded same_attempts_def, rule_format, of i] that by (cases "es_challenges s i") auto
  show ?thesis unfolding email_inv.simps
  proof (intro conjI ballI allI impI)
    show "distinct (map waits_for ts)" "distinct m" by (rule d)+
    show "\<exists>r. es_challenges t (waits_for th) = Some r \<and> ch_verifying r \<and> \<not> ch_consumed r" if "th \<in> set ts" for th
      using d(3) [OF that] fwd by metis
    show "\<exists>r. es_challenges t i = Some r \<and> ch_consumed r" if "i \<in> set m" for i
      using d(4) [OF that] fwd by metis
    show "ch_attempts r \<le> eo_maxAttempts cfg" if "es_challenges t i = Some r" for i r
      using bwd [OF that] d(5) by metis
    show "ch_attempts r < eo_maxAttempts cfg" if "es_challenges t i = Some r" "idle_challenge r" for i r
      using bwd [OF that(1)] d(6) that(2) unfolding idle_challenge_def by metis
  qed
qed

lemma inv_closes:
  assumes "email_inv cfg (s, ts, m)" "closes_challenge s i t"
  shows "email_inv cfg (t, ts, m)"
  using assms(2) unfolding closes_challenge_def
proof (elim disjE exE conjE)
  assume "es_challenges t = es_challenges s"
  with assms(1) show ?thesis by (simp add: email_inv.simps)
next
  fix r assume r: "es_challenges s i = Some r" "idle_challenge r"
    "es_challenges t = (es_challenges s)(i \<mapsto> r\<lparr>ch_consumed := True\<rparr>)"
  note d = email_invD [OF assms(1)]
  have "waits_for th \<noteq> i" if "th \<in> set ts" for th using d(3) [OF that] r(1,2) by (auto simp: idle_challenge_def)
  then show ?thesis using d r unfolding email_inv.simps by (auto simp: idle_challenge_def)
qed

lemma inv_opens:
  assumes "email_inv cfg (s, ts, m)" "opens_attempt s (waits_for th) t"
  shows "email_inv cfg (t, th # ts, m)"
proof -
  let ?i = "waits_for th"
  obtain r where r: "es_challenges s ?i = Some r" "idle_challenge r"
    and t: "es_challenges t = (es_challenges s)(?i \<mapsto> r\<lparr>ch_attempts := ch_attempts r + 1, ch_verifying := True\<rparr>)"
    using assms(2) by (auto simp: opens_attempt_def)
  note d = email_invD [OF assms(1)]
  have w: "waits_for u \<noteq> ?i" if "u \<in> set ts" for u using d(3) [OF that] r by (auto simp: idle_challenge_def)
  have m: "j \<noteq> ?i" if "j \<in> set m" for j using d(4) [OF that] r by (auto simp: idle_challenge_def)
  have le: "ch_attempts r + 1 \<le> eo_maxAttempts cfg" using d(6) [OF r] by simp
  show ?thesis unfolding email_inv.simps t
  proof (intro conjI ballI allI impI)
    show "distinct (map waits_for (th # ts))" using d(1) by (auto dest: w)
    show "distinct m" by (rule d(2))
    show "\<exists>q. ((es_challenges s)(?i \<mapsto> r\<lparr>ch_attempts := ch_attempts r + 1, ch_verifying := True\<rparr>)) (waits_for u) = Some q
        \<and> ch_verifying q \<and> \<not> ch_consumed q" if "u \<in> set (th # ts)" for u
      using that d(3) [of u] r by (cases "u = th") (auto simp: idle_challenge_def)
    show "\<exists>q. ((es_challenges s)(?i \<mapsto> r\<lparr>ch_attempts := ch_attempts r + 1, ch_verifying := True\<rparr>)) j = Some q
        \<and> ch_consumed q" if "j \<in> set m" for j
      using m [OF that] d(4) [OF that] by simp
    show "ch_attempts q \<le> eo_maxAttempts cfg"
      if "((es_challenges s)(?i \<mapsto> r\<lparr>ch_attempts := ch_attempts r + 1, ch_verifying := True\<rparr>)) j = Some q" for j q
      using that le d(5) [of j q] by (auto split: if_splits)
    show "ch_attempts q < eo_maxAttempts cfg"
      if "((es_challenges s)(?i \<mapsto> r\<lparr>ch_attempts := ch_attempts r + 1, ch_verifying := True\<rparr>)) j = Some q"
        "idle_challenge q" for j q
      using that d(6) [of j q] by (auto simp: idle_challenge_def split: if_splits)
  qed
qed

lemma inv_ends:
  assumes "email_inv cfg (s, us @ th # vs, m)" "ends_attempt cfg s (waits_for th) accepted t"
  shows "email_inv cfg (t, us @ vs, if accepted then waits_for th # m else m)"
proof -
  let ?i = "waits_for th"
  note d = email_invD [OF assms(1)]
  obtain r where r: "es_challenges s ?i = Some r" "ch_verifying r" "\<not> ch_consumed r" using d(3) [of th] by auto
  from assms(2) r obtain r' where t: "es_challenges t ?i = Some r'" "ch_attempts r' = ch_attempts r"
    "accepted \<Longrightarrow> ch_consumed r'" "\<not> ch_consumed r' \<Longrightarrow> \<not> ch_verifying r' \<and> ch_attempts r < eo_maxAttempts cfg"
    by (auto simp: ends_attempt_def split: option.splits)
  have other: "es_challenges t j = es_challenges s j" if "j \<noteq> ?i" for j
    using assms(2) that by (simp add: ends_attempt_def)
  have w: "waits_for u \<noteq> ?i" if "u \<in> set (us @ vs)" for u using d(1) that by (auto simp: image_iff)
  have m: "j \<noteq> ?i" if "j \<in> set m" for j using d(4) [OF that] r by auto
  show ?thesis unfolding email_inv.simps
  proof (intro conjI ballI allI impI)
    show "distinct (map waits_for (us @ vs))" using d(1) by simp
    show "distinct (if accepted then ?i # m else m)" using d(2) m by auto
    show "\<exists>r. es_challenges t (waits_for u) = Some r \<and> ch_verifying r \<and> \<not> ch_consumed r" if "u \<in> set (us @ vs)" for u
      using d(3) [of u] that other [OF w [OF that]] by auto
    show "\<exists>r. es_challenges t j = Some r \<and> ch_consumed r" if "j \<in> set (if accepted then ?i # m else m)" for j
      using that t d(4) [of j] other [of j] by (cases "j = ?i") (auto split: if_splits dest: m)
    show "ch_attempts q \<le> eo_maxAttempts cfg" if "es_challenges t j = Some q" for j q
      using that t d(5) [of j q] d(5) [OF r(1)] other [of j] by (cases "j = ?i") auto
    show "ch_attempts q < eo_maxAttempts cfg" if "es_challenges t j = Some q" "idle_challenge q" for j q
      using that t d(6) [of j q] other [of j] by (cases "j = ?i") (auto simp: idle_challenge_def)
  qed
qed

definition config_inv :: "email_options \<Rightarrow> 't email_config \<Rightarrow> bool" where
  "config_inv cfg c \<longleftrightarrow> (case c of (s, ts, rs, m) \<Rightarrow> email_inv cfg (s, ts, m))"

lemma email_inv_step:
  assumes "email_step cfg sha send x y" "config_inv cfg x" "0 < eo_maxAttempts cfg"
  shows "config_inv cfg y"
  using assms(1,2) unfolding config_inv_def
proof (induction rule: email_step.induct)
  case (verify_starts i otp now s t ts rs m)
  then show ?case using inv_opens [of cfg s ts m "Verify_wait i otp now" t] verify_begin_effect by fastforce
next
  case (verify_refused i otp now s e t ts rs m)
  then show ?case using inv_closes [of cfg s ts m i t] verify_begin_effect by fastforce
next
  case (verify_accepts n i otp now s x t us vs rs m)
  then show ?case using inv_ends [of cfg s us "Verify_wait i otp now" vs m True t] verify_end_effect by fastforce
next
  case (verify_rejects n i otp now s e t us vs rs m)
  then show ?case using inv_ends [of cfg s us "Verify_wait i otp now" vs m False t] verify_end_effect by fastforce
next
  case (confirm_starts sid i otp now s p t ts rs m)
  then show ?case using inv_opens [of cfg s ts m "Confirm_wait i otp now p" t] confirm_begin_effect by fastforce
next
  case (confirm_refused sid i otp now s e t ts rs m)
  then show ?case using inv_closes [of cfg s ts m i t] confirm_begin_effect by fastforce
next
  case (confirm_accepts p i otp now s x t us vs rs m)
  then show ?case using inv_ends [of cfg s us "Confirm_wait i otp now p" vs m True t] confirm_end_effect by fastforce
next
  case (confirm_rejects p i otp now s e t us vs rs m)
  then show ?case using inv_ends [of cfg s us "Confirm_wait i otp now p" vs m False t] confirm_end_effect by fastforce
next
  case (request s rs t rs' ts m)
  then have "email_inv cfg (s, ts, m)" by simp
  with request_step_effect [OF request(1)] show ?case
    using inv_adds [OF _ _ assms(3)] inv_same by (simp only: prod.case) blast
next
  case (other s t ts rs m)
  then have "email_inv cfg (s, ts, m)" by simp
  from inv_adds [OF this email_other_effect [OF other(1)] assms(3)] show ?case by simp
qed

lemma email_inv_reachable:
  assumes "(email_step cfg sha send)\<^sup>*\<^sup>* (empty_email_state t0, [], [], []) (s, ts, rs, m)" "0 < eo_maxAttempts cfg"
  shows "email_inv cfg (s, ts, m)"
proof -
  have "config_inv cfg (s, ts, rs, m)"
    using assms(1)
    by (induction rule: rtranclp_induct)
      (auto simp: email_inv_step [OF _ _ assms(2)], simp add: config_inv_def email_inv.simps empty_email_state_def)
  then show ?thesis by (simp add: config_inv_def)
qed

text \<open>
  C8: However the calls of verifyOtp, confirmEmailChange, requestOtp and requestEmailChange
  interleave at their awaits with each other and with the operations that run in one piece
  (registerIdentity awaits only before it touches the state), the code of a challenge is
  accepted at most once. New challenge ids, 16 random bytes, are taken to be unused, and the
  attempt limit to be positive, as the constructor enforces.
\<close>

theorem code_accepted_at_most_once:
  assumes "(email_step cfg sha send)\<^sup>*\<^sup>* (empty_email_state t0, [], [], []) (s, ts, rs, m)" "0 < eo_maxAttempts cfg"
  shows "distinct m"
  using email_invD(2) [OF email_inv_reachable [OF assms]] .

text \<open>
  In all these runs no challenge is compared with more codes than the configured maximum.
\<close>

theorem attempts_bounded:
  assumes "(email_step cfg sha send)\<^sup>*\<^sup>* (empty_email_state t0, [], [], []) (s, ts, rs, m)" "0 < eo_maxAttempts cfg"
    and "es_challenges s i = Some r"
  shows "ch_attempts r \<le> eo_maxAttempts cfg"
  using email_invD(5) [OF email_inv_reachable [OF assms(1,2)] assms(3)] .

section \<open>The index over all runs\<close>

lemma verify_end_index:
  assumes "verify_end cfg sha n i otp now s = (q, t)"
  shows "es_identities t = es_identities s \<and> es_subjectIndex t = es_subjectIndex s"
  using assms
  by (cases rule: verify_end_cases [where cfg = cfg and i = i and otp = otp and now = now and s = s and sha = sha and n = n])
    (auto simp: wrong_code_def createSession_def Let_def)

lemma verify_begin_index:
  assumes "verify_begin cfg i otp now s = (q, t)"
  shows "es_identities t = es_identities s \<and> es_subjectIndex t = es_subjectIndex s"
  using assms
  by (cases rule: verify_begin_cases [where cfg = cfg and i = i and otp = otp and now = now and s = s]) auto

lemma email_other_index:
  assumes "email_other sha s t" "index_ok s"
  shows "index_ok t"
  using assms(1)
proof (cases rule: email_other.cases)
  case (1 i p email g q now r)
  then show ?thesis using registerIdentity_index_ok [OF assms(2)] by blast
next
  case (2 i now r'')
  from requireSession_state [OF this] assms(2) index_ok_cong show ?thesis by blast
next
  case (3 i)
  then show ?thesis using assms(2) index_ok_cong [of t s] by (simp add: revokeSession_def)
next
  case (4 p)
  then show ?thesis using assms(2) index_ok_cong [of t s] by (simp add: revokePrincipalSessions_def)
qed

lemma email_step_index:
  assumes "email_step cfg sha send x y" "index_ok (fst x)"
  shows "index_ok (fst y)"
  using assms
proof (induction rule: email_step.induct)
  case (confirm_accepts p i otp now s x t us vs rs m)
  then show ?case using confirm_end_index_ok by fastforce
next
  case (confirm_rejects p i otp now s e t us vs rs m)
  then show ?case using confirm_end_index_ok by fastforce
next
  case (other s t ts rs m)
  then show ?case using email_other_index by fastforce
next
  case (request s rs t rs' ts m)
  then have "index_ok s" by simp
  moreover have "es_identities t = es_identities s" "es_subjectIndex t = es_subjectIndex s"
    using request_step_effect [OF request(1)] by simp_all
  ultimately show ?case using index_ok_cong [of t s] by simp
next
  case (confirm_starts sid i otp now s p t ts rs m)
  then show ?case using confirm_begin_effect [OF confirm_starts(1)] index_ok_cong by fastforce
next
  case (confirm_refused sid i otp now s e t ts rs m)
  then show ?case using confirm_begin_effect [OF confirm_refused(1)] index_ok_cong by fastforce
next
  case (verify_starts i otp now s t ts rs m)
  then show ?case using verify_begin_index [OF verify_starts(1)] index_ok_cong by fastforce
next
  case (verify_refused i otp now s e t ts rs m)
  then show ?case using verify_begin_index [OF verify_refused(1)] index_ok_cong by fastforce
next
  case (verify_accepts n i otp now s x t us vs rs m)
  then show ?case using verify_end_index [OF verify_accepts(1)] index_ok_cong by fastforce
next
  case (verify_rejects n i otp now s e t us vs rs m)
  then show ?case using verify_end_index [OF verify_rejects(1)] index_ok_cong by fastforce
qed

text \<open>
  In all these runs an address hash in the index leads to an identity that is stored
  under its own id and has this hash.
\<close>

theorem subject_index_consistent:
  assumes "(email_step cfg sha send)\<^sup>*\<^sup>* (empty_email_state t0, [], [], []) (s, ts, rs, m)"
    and "es_subjectIndex s h = Some i"
  shows "\<exists>r. map_of (es_identities s) i = Some r \<and> ei_identityId r = i \<and> ei_subjectHash r = h"
proof -
  have "index_ok (fst (s, ts, rs, m))"
    using assms(1)
    by (induction rule: rtranclp_induct)
      (auto intro: email_step_index, simp add: index_ok_def empty_email_state_def)
  then have "index_ok s" by simp
  from index_okD(2,3) [OF this] assms(2) show ?thesis by blast
qed

section \<open>Codes are unbiased\<close>

lemma read_nat_zeros: "read_nat (replicate n (CHR ''0'') @ s) = read_nat s"
proof -
  have "foldl (\<lambda>n c. 10 * n + digit_value c) 0 (replicate n (CHR ''0'')) = 0"
    by (induction n) (simp_all add: digit_value_def)
  then show ?thesis by (simp add: read_nat_def)
qed

lemma padStart_show_inject:
  assumes "0 \<le> a" "0 \<le> b"
  shows "padStart n (CHR ''0'') (show_int a) = padStart n (CHR ''0'') (show_int b) \<longleftrightarrow> a = b"
proof
  assume "padStart n (CHR ''0'') (show_int a) = padStart n (CHR ''0'') (show_int b)"
  then have "read_nat (show_int a) = read_nat (show_int b)"
    unfolding padStart_def by (metis read_nat_zeros)
  with assms show "a = b" by (simp add: show_int_def read_show_nat)
qed simp

text \<open>
  Each six-digit code is produced by the same number of 32-bit words, 4294, so the
  rejection sampling has no modulo bias.
\<close>

theorem otp_unbiased:
  assumes "0 \<le> k" "k < 1000000"
  shows "card {v. 0 \<le> v \<and> v < 2 ^ 32 \<and> randomOtp [v] = Some (padStart 6 (CHR ''0'') (show_int k))} = 4294"
proof -
  have "{v. 0 \<le> v \<and> v < 2 ^ 32 \<and> randomOtp [v] = Some (padStart 6 (CHR ''0'') (show_int k))} = otp_words k"
    using assms(1) by (auto simp: otp_words_def otp_limit_value padStart_show_inject)
  with otp_words_count [OF assms] show ?thesis by simp
qed

section \<open>Examples\<close>

definition ex_sha :: "string \<Rightarrow> string" where "ex_sha v = v"

definition ex_cfg :: email_options where
  "ex_cfg = \<lparr>eo_otpTtlSeconds = 300, eo_sessionTtlSeconds = 900, eo_maxAttempts = 5,
     eo_maxRequests = 3, eo_rateWindowSeconds = 900, eo_subject = ''Your wallet verification code''\<rparr>"

definition ex_rnd :: "string \<Rightarrow> otp_random" where
  "ex_rnd c = \<lparr>rn_challenge = c, rn_salt = ''salt'', rn_otp = ''123456''\<rparr>"

definition ex_login :: otp_request where
  "ex_login = \<lparr>oq_email = ''ann@a.co'', oq_purpose = None, oq_rateLimitKey = None\<rparr>"

text \<open>Two identities, and a session of each.\<close>

definition ex_two :: "email_message list email_state" where
  "ex_two = (let s1 = snd (registerIdentity ex_sha ''i1'' ''p1'' ''ann@a.co'' ''g1'' ''q1'' 10 (empty_email_state []));
       s2 = snd (registerIdentity ex_sha ''i2'' ''p2'' ''bob@b.co'' ''g2'' ''q2'' 10 s1);
       s3 = snd (requestOtp ex_cfg ex_sha mailpit_send (ex_rnd ''1'') 20 ex_login None False s2);
       s4 = snd (verifyOtp ex_cfg ex_sha ''1'' ''otp_1'' ''123456'' 30 s3);
       s5 = snd (requestOtp ex_cfg ex_sha mailpit_send (ex_rnd ''2'') 20 (ex_login\<lparr>oq_email := ''bob@b.co''\<rparr>) None False s4)
     in snd (verifyOtp ex_cfg ex_sha ''2'' ''otp_2'' ''123456'' 30 s5))"

text \<open>Both change to the same new address; both confirmations succeed.\<close>

definition ex_both_changed :: "email_message list email_state" where
  "ex_both_changed = (let
       s1 = snd (requestEmailChange ex_cfg ex_sha mailpit_send (ex_rnd ''3'') ''ems_1'' ''new@c.co'' None 40 ex_two);
       s2 = snd (requestEmailChange ex_cfg ex_sha mailpit_send (ex_rnd ''4'') ''ems_2'' ''new@c.co'' None 40 s1);
       s3 = snd (confirmEmailChange ex_cfg ex_sha ''ems_1'' ''otp_3'' ''123456'' 50 s2)
     in snd (confirmEmailChange ex_cfg ex_sha ''ems_2'' ''otp_4'' ''123456'' 50 s3))"

text \<open>
  Two accounts that both ask to change to one free address and then both confirm end with
  the same address hash, and the index only leads to the second: the confirmation does not
  check again that the address is free.
\<close>

theorem email_change_duplicates_subject:
  "map (\<lambda>x. ei_identityId (snd x)) (filter
      (\<lambda>x. ei_subjectHash (snd x) = subjectHash ex_sha ''new@c.co'') (es_identities ex_both_changed)) = [''i1'', ''i2'']
   \<and> es_subjectIndex ex_both_changed (subjectHash ex_sha ''new@c.co'') = Some ''i2''"
  by code_simp

text \<open>
  The identity record that registerIdentity stores keeps the normalized email address.
\<close>

theorem registered_address_is_retained:
  assumes "registerIdentity sha i p email g q now s = (Inr x, t)"
  shows "\<exists>r. map_of (es_identities t) i = Some r \<and> normalizeEmail email = Inr (ei_normalizedEmail r)"
proof -
  from assms obtain r where "t = s\<lparr>es_identities := omap_set i r (es_identities s),
        es_subjectIndex := (es_subjectIndex s)(ei_subjectHash r \<mapsto> i)\<rparr>" "normalizeEmail email = Inr (ei_normalizedEmail r)"
    by (rule registerIdentity_Inr)
  then show ?thesis by simp
qed

definition ex_session :: email_session where
  "ex_session = \<lparr>el_sessionId = ''ems_1'', el_principalId = ''p1'', el_signerId = ''g1'', el_policyId = ''q1'', el_issuedAt = 30, el_expiresAt = 930\<rparr>"

definition ex_identity :: email_identity where
  "ex_identity = \<lparr>ei_identityId = ''i1'', ei_principalId = ''p1'',
     ei_subjectHash = subjectHash ex_sha ''ann@a.co'', ei_signerId = ''g1'', ei_policyId = ''q1'',
     ei_createdAt = 10, ei_changedAt = 10\<rparr>"

text \<open>A code accepted once, and a second call refused, as a run.\<close>

definition ex_reg :: "email_message list email_state" where
  "ex_reg = snd (registerIdentity ex_sha ''i1'' ''p1'' ''ann@a.co'' ''g1'' ''q1'' 10 (empty_email_state []))"

definition ex_call :: otp_call where
  "ex_call = \<lparr>oc_rnd = ex_rnd ''1'', oc_request = ex_login, oc_email = ''ann@a.co'', oc_now = 20,
     oc_principal = None, oc_force = False, oc_change = None\<rparr>"

definition ex_rated :: "(identity_record option \<times> bool) \<times> email_message list email_state" where
  "ex_rated = otp_rate ex_cfg ex_sha ex_call ex_reg"

definition ex_req :: "email_message list email_state" where
  "ex_req = otp_finish ex_call (deliver ex_cfg mailpit_send ex_call
     (otp_store ex_cfg ex_sha ex_call (fst (fst ex_rated)) (snd ex_rated)))"

definition ex_beg :: "email_message list email_state" where
  "ex_beg = snd (verify_begin ex_cfg ''otp_1'' ''123456'' 30 ex_req)"

definition ex_end :: "email_message list email_state" where
  "ex_end = snd (verify_end ex_cfg ex_sha ''1'' ''otp_1'' ''123456'' 30 ex_beg)"

lemma ex_otp_request_run:
  "(email_step ex_cfg ex_sha mailpit_send)\<^sup>*\<^sup>* (ex_reg, [], [], []) (ex_req, [], [], [])"
proof -
  let ?E = "email_step ex_cfg ex_sha mailpit_send"
  let ?q = "fst (fst ex_rated)" and ?b = "snd (fst ex_rated)" and ?s = "snd ex_rated"
  have o: "otp_open (ex_rnd ''1'') ex_login 20 None False None = Inr ex_call" by code_simp
  have f: "es_challenges ?s (otp_id ex_call) = None" by code_simp
  have d: "otp_delivers ex_call ?q ?b" by code_simp
  have r: "otp_rate ex_cfg ex_sha ex_call ex_reg = ((?q, ?b), ?s)" by (simp add: ex_rated_def)
  have 1: "?E (ex_reg, [], [], []) (ex_reg, [], [Otp_hash ex_call], [])"
    by (rule email_step.request, rule request_step.otp_starts [OF o])
  have 2: "?E (ex_reg, [], [Otp_hash ex_call], []) (?s, [], [Otp_code ex_call ?q ?b], [])"
    by (rule email_step.request) (rule request_step.otp_rates [OF r, where us = "[]" and vs = "[]", simplified])
  have 3: "?E (?s, [], [Otp_code ex_call ?q ?b], []) (otp_store ex_cfg ex_sha ex_call ?q ?s, [], [Otp_sending ex_call], [])"
    by (rule email_step.request) (use request_step.otp_stores [OF f, where us = "[]" and vs = "[]" and cfg = ex_cfg and sha = ex_sha and send = mailpit_send and identity = ?q and allowed = ?b] d in simp)
  have 4: "?E (otp_store ex_cfg ex_sha ex_call ?q ?s, [], [Otp_sending ex_call], [])
      (deliver ex_cfg mailpit_send ex_call (otp_store ex_cfg ex_sha ex_call ?q ?s), [], [Otp_done ex_call], [])"
    by (rule email_step.request) (rule request_step.otp_sends [where us = "[]" and vs = "[]", simplified])
  have 5: "?E (deliver ex_cfg mailpit_send ex_call (otp_store ex_cfg ex_sha ex_call ?q ?s), [], [Otp_done ex_call], [])
      (ex_req, [], [], [])"
    unfolding ex_req_def by (rule email_step.request) (rule request_step.otp_returns [where us = "[]" and vs = "[]", simplified])
  from 1 2 3 4 5 show ?thesis by (meson r_into_rtranclp rtranclp.rtrancl_into_rtrancl)
qed

lemma ex_reachable:
  "(email_step ex_cfg ex_sha mailpit_send)\<^sup>*\<^sup>* (empty_email_state [], [], [], []) (ex_end, [], [], [''otp_1''])"
proof -
  have 1: "email_step ex_cfg ex_sha mailpit_send (empty_email_state [], [], [], []) (ex_reg, [], [], [])"
    unfolding ex_reg_def by (rule email_step.other, rule email_other.intros(1), rule prod.collapse [symmetric])
  have b: "fst (verify_begin ex_cfg ''otp_1'' ''123456'' 30 ex_req) = Inr ()" by code_simp
  have 3: "email_step ex_cfg ex_sha mailpit_send (ex_req, [], [], []) (ex_beg, [Verify_wait ''otp_1'' ''123456'' 30], [], [])"
    by (rule email_step.verify_starts) (simp add: prod_eq_iff b ex_beg_def)
  have e: "fst (verify_end ex_cfg ex_sha ''1'' ''otp_1'' ''123456'' 30 ex_beg) = Inr ex_session" by code_simp
  have "email_step ex_cfg ex_sha mailpit_send (ex_beg, [] @ Verify_wait ''otp_1'' ''123456'' 30 # [], [], []) (ex_end, [] @ [], [], [''otp_1''])"
    by (rule email_step.verify_accepts [where n = "''1''" and x = ex_session]) (simp add: prod_eq_iff e ex_end_def)
  then have 4: "email_step ex_cfg ex_sha mailpit_send (ex_beg, [Verify_wait ''otp_1'' ''123456'' 30], [], []) (ex_end, [], [], [''otp_1''])" by simp
  from converse_rtranclp_into_rtranclp [OF 1 ex_otp_request_run] 3 4 show ?thesis
    by (meson rtranclp.rtrancl_into_rtrancl)
qed

lemma code_accepted_at_most_once_witness: "distinct [''otp_1''] \<and> 0 < eo_maxAttempts ex_cfg"
  using code_accepted_at_most_once [OF ex_reachable] by (simp add: ex_cfg_def)

lemma attempts_bounded_witness:
  "\<exists>r. es_challenges ex_end ''otp_1'' = Some r \<and> ch_attempts r \<le> 5"
proof -
  have "es_challenges ex_end ''otp_1'' \<noteq> None" by code_simp
  then obtain r where r: "es_challenges ex_end ''otp_1'' = Some r" by auto
  from attempts_bounded [OF ex_reachable _ r] r show ?thesis by (simp add: ex_cfg_def)
qed

lemma subject_index_consistent_witness:
  "\<exists>r. map_of (es_identities ex_end) ''i1'' = Some r \<and> ei_identityId r = ''i1''
     \<and> ei_subjectHash r = subjectHash ex_sha ''ann@a.co''"
proof (rule subject_index_consistent [OF ex_reachable])
  show "es_subjectIndex ex_end (subjectHash ex_sha ''ann@a.co'') = Some ''i1''" by code_simp
qed

lemma verified_session_sound_witness:
  "\<exists>r. es_challenges ex_req ''otp_1'' = Some r \<and> \<not> ch_consumed r \<and> 30 < ch_expiresAt r \<and> ch_delivered r"
proof -
  have "fst (verifyOtp ex_cfg ex_sha ''1'' ''otp_1'' ''123456'' 30 ex_req) = Inr ex_session" by code_simp
  then have "verifyOtp ex_cfg ex_sha ''1'' ''otp_1'' ''123456'' 30 ex_req
      = (Inr ex_session, snd (verifyOtp ex_cfg ex_sha ''1'' ''otp_1'' ''123456'' 30 ex_req))" by (simp add: prod_eq_iff)
  from verified_session_sound [OF this] show ?thesis by blast
qed

lemma otp_unbiased_witness:
  "card {v. 0 \<le> v \<and> v < 2 ^ 32 \<and> randomOtp [v] = Some (padStart 6 (CHR ''0'') (show_int 42))} = 4294"
  by (rule otp_unbiased) simp_all

lemma registered_address_is_retained_witness:
  "\<exists>r. map_of (es_identities ex_reg) ''i1'' = Some r \<and> normalizeEmail ''ann@a.co'' = Inr (ei_normalizedEmail r)"
proof -
  have "fst (registerIdentity ex_sha ''i1'' ''p1'' ''ann@a.co'' ''g1'' ''q1'' 10 (empty_email_state ([] :: email_message list)))
    = Inr ex_identity" by code_simp
  then have "registerIdentity ex_sha ''i1'' ''p1'' ''ann@a.co'' ''g1'' ''q1'' 10 (empty_email_state []) = (Inr ex_identity, ex_reg)"
    by (simp add: prod_eq_iff ex_reg_def)
  then show ?thesis by (rule registered_address_is_retained)
qed

end
