(* ===== verification/PasskeyAuth.thy ===== *)
theory PasskeyAuth
  imports Interfaces
begin

text \<open>
  Passkey ceremonies (\<open>packages/auth-passkey/src/index.ts\<close>): ceremony contexts and their
  checks, the one-time challenge store, the browser adapter, and the server service with its
  credentials.  \<open>consumeAndVerify\<close> awaits the challenge store and the verifier; it is cut into
  the three segments that run without interruption.  Bytes are characters; the P-256 verifier
  and the browser's credential interface are parameters.
\<close>

section \<open>Data\<close>

datatype passkey_code =
    INVALID_CONTEXT | CONTEXT_EXPIRED | CHALLENGE_MISMATCH | ORIGIN_MISMATCH | RP_ID_MISMATCH
  | ACCOUNT_MISMATCH | DID_MISMATCH | CREDENTIAL_MISMATCH | USER_VERIFICATION_REQUIRED
  | VERIFIER_CODE_HASH_MISMATCH | EMPTY_ASSERTION | INVALID_ASSERTION | VERIFIER_REJECTED
  | CHALLENGE_REPLAYED | CREDENTIAL_EXISTS | CREDENTIAL_NOT_FOUND | CREDENTIAL_REVOKED
  | ROTATION_REQUIRES_REPLACEMENT | USER_CANCELLED | AUTHENTICATOR_UNAVAILABLE | PRF_UNAVAILABLE

text \<open>Another error is known by its \<open>name\<close>, if it has one.\<close>

datatype passkey_exn = Passkey_error passkey_code | Named_error "string option"

record passkey_context =
  pc_schemaVersion :: int
  pc_kind :: string
  pc_challenge :: string
  pc_origin :: string
  pc_rpId :: string
  pc_account :: string
  pc_did :: string
  pc_userVerification :: string
  pc_verifierCodeHash :: string
  pc_issuedAt :: int
  pc_expiresAt :: int
  pc_credentialId :: "string option"

record passkey_assertion =
  pa_clientDataJSON :: string
  pa_authenticatorData :: string
  pa_signature :: string
  pa_origin :: string
  pa_rpId :: string
  pa_challenge :: string
  pa_account :: string
  pa_credentialId :: string
  pa_userVerified :: bool
  pa_userVerification :: string
  pa_verifierCodeHash :: string

record passkey_credential =
  pk_credentialId :: string
  pk_account :: string
  pk_did :: string
  pk_origin :: string
  pk_rpId :: string
  pk_publicKey :: string
  pk_createdAt :: int
  pk_active :: bool

record passkey_state =
  ps_values :: "string \<rightharpoonup> passkey_context"
  ps_credentials :: "(string \<times> passkey_credential) list"

type_synonym 'a passkey_meth = "(passkey_state, passkey_exn, 'a) meth"

section \<open>Checks\<close>

definition starts_with :: "string \<Rightarrow> string \<Rightarrow> bool" where
  "starts_with p s \<longleftrightarrow> take (length p) s = p"

definition assertContext :: "passkey_context \<Rightarrow> int \<Rightarrow> passkey_exn + unit" where
  "assertContext c now =
     (if pc_schemaVersion c \<noteq> 1 \<or> pc_kind c \<notin> {''registration'', ''authentication'', ''step-up''}
         \<or> pc_challenge c = '''' \<or> \<not> starts_with ''https://'' (pc_origin c) \<or> pc_rpId c = ''''
         \<or> \<not> valid_address (pc_account c) \<or> pc_did c = '''' \<or> pc_userVerification c \<noteq> ''required''
         \<or> \<not> hex_string 64 (pc_verifierCodeHash c) \<or> zero_hex (pc_verifierCodeHash c)
         \<or> \<not> safe_integer (pc_issuedAt c) \<or> \<not> safe_integer (pc_expiresAt c)
         \<or> pc_expiresAt c \<le> pc_issuedAt c
      then Inl (Passkey_error INVALID_CONTEXT)
      else if \<not> safe_integer now \<or> now < pc_issuedAt c \<or> pc_expiresAt c \<le> now
      then Inl (Passkey_error CONTEXT_EXPIRED) else Inr ())"

definition assertAssertion :: "passkey_assertion \<Rightarrow> passkey_context \<Rightarrow> passkey_exn + unit" where
  "assertAssertion a c =
     (if pa_origin a \<noteq> pc_origin c then Inl (Passkey_error ORIGIN_MISMATCH)
      else if pa_rpId a \<noteq> pc_rpId c then Inl (Passkey_error RP_ID_MISMATCH)
      else if pa_challenge a \<noteq> pc_challenge c then Inl (Passkey_error CHALLENGE_MISMATCH)
      else if to_lower (pa_account a) \<noteq> to_lower (pc_account c) then Inl (Passkey_error ACCOUNT_MISMATCH)
      else if pa_userVerification a \<noteq> ''required'' \<or> \<not> pa_userVerified a
      then Inl (Passkey_error USER_VERIFICATION_REQUIRED)
      else if to_lower (pa_verifierCodeHash a) \<noteq> to_lower (pc_verifierCodeHash c)
      then Inl (Passkey_error VERIFIER_CODE_HASH_MISMATCH)
      else if pa_credentialId a = '''' \<or> length (pa_signature a) = 0
      then Inl (Passkey_error EMPTY_ASSERTION) else Inr ())"

definition createPasskeyCeremonyContext :: "passkey_context \<Rightarrow> passkey_exn + passkey_context" where
  "createPasskeyCeremonyContext c =
     (let context = c\<lparr>pc_schemaVersion := 1\<rparr> in
      bindE (assertContext context (pc_issuedAt c)) (\<lambda>_. Inr context))"

section \<open>The challenge store\<close>

definition put_challenge :: "passkey_context \<Rightarrow> unit passkey_meth" where
  "put_challenge c s = (if ps_values s (pc_challenge c) \<noteq> None then (Inl (Passkey_error INVALID_CONTEXT), s)
     else (Inr (), s\<lparr>ps_values := (ps_values s)(pc_challenge c \<mapsto> c)\<rparr>))"

definition consume_challenge :: "string \<Rightarrow> passkey_context option passkey_meth" where
  "consume_challenge c s = (case ps_values s c of None \<Rightarrow> (Inr None, s)
     | Some x \<Rightarrow> (Inr (Some x), s\<lparr>ps_values := (ps_values s)(c := None)\<rparr>))"

section \<open>The browser adapter\<close>

record browser_capabilities =
  bc_webauthn :: bool
  bc_prf :: bool

record browser_request =
  br_challenge :: string
  br_account :: string
  br_credentialId :: "string option"
  br_rpId :: string
  br_origin :: string
  br_prf :: bool

text \<open>The browser's credential interface; \<open>create\<close> and \<open>get\<close> are one call with an answer \<open>'r\<close>.\<close>

record ('b, 'r) browser_api =
  ba_capabilities :: "('b, passkey_exn, browser_capabilities) meth option"
  ba_create :: "browser_request \<Rightarrow> ('b, passkey_exn, 'r) meth"
  ba_get :: "browser_request \<Rightarrow> ('b, passkey_exn, 'r) meth"

definition capabilities :: "('b, 'r) browser_api \<Rightarrow> ('b, passkey_exn, browser_capabilities) meth" where
  "capabilities api = (case ba_capabilities api of
       Some m \<Rightarrow> m
     | None \<Rightarrow> returnS \<lparr>bc_webauthn = True, bc_prf = False\<rparr>)"

definition strategy :: "('b, 'r) browser_api \<Rightarrow> bool \<Rightarrow> ('b, passkey_exn, bool) meth" where
  "strategy api preferPrf = bindS (capabilities api) (\<lambda>a.
     if \<not> bc_webauthn a then throwS (Passkey_error AUTHENTICATOR_UNAVAILABLE)
     else if preferPrf \<and> \<not> bc_prf a then returnS False
     else returnS (preferPrf \<and> bc_prf a))"

definition classifyPasskeyError :: "passkey_exn \<Rightarrow> passkey_code" where
  "classifyPasskeyError e = (case e of
       Passkey_error c \<Rightarrow> c
     | Named_error n \<Rightarrow>
         if n = Some ''NotAllowedError'' \<or> n = Some ''AbortError'' then USER_CANCELLED
         else if n = Some ''NotSupportedError'' \<or> n = Some ''SecurityError''
         then AUTHENTICATOR_UNAVAILABLE else AUTHENTICATOR_UNAVAILABLE)"

definition browser_register ::
  "('b, 'r) browser_api \<Rightarrow> passkey_context \<Rightarrow> bool \<Rightarrow> ('b, passkey_exn, 'r) meth" where
  "browser_register api c preferPrf =
     bindS (pureS (assertContext c (pc_issuedAt c))) (\<lambda>_.
     bindS (strategy api preferPrf) (\<lambda>prf.
     catchS (ba_create api \<lparr>br_challenge = pc_challenge c, br_account = pc_account c,
         br_credentialId = None, br_rpId = pc_rpId c, br_origin = pc_origin c, br_prf = prf\<rparr>)
       (\<lambda>e. throwS (Passkey_error (classifyPasskeyError e)))))"

definition browser_authenticate ::
  "('b, 'r) browser_api \<Rightarrow> passkey_context \<Rightarrow> string \<Rightarrow> bool \<Rightarrow> ('b, passkey_exn, 'r) meth" where
  "browser_authenticate api c credentialId preferPrf =
     bindS (pureS (assertContext c (pc_issuedAt c))) (\<lambda>_.
     bindS (strategy api preferPrf) (\<lambda>prf.
     catchS (ba_get api \<lparr>br_challenge = pc_challenge c, br_account = pc_account c,
         br_credentialId = Some credentialId, br_rpId = pc_rpId c, br_origin = pc_origin c, br_prf = prf\<rparr>)
       (\<lambda>e. throwS (Passkey_error (classifyPasskeyError e)))))"

definition choosePrfStrategy :: "bool \<Rightarrow> browser_capabilities \<Rightarrow> passkey_exn + string" where
  "choosePrfStrategy preferPrf a =
     (if \<not> bc_webauthn a then Inl (Passkey_error AUTHENTICATOR_UNAVAILABLE)
      else Inr (if preferPrf \<and> bc_prf a then ''prf'' else ''passphrase''))"

section \<open>The service\<close>

text \<open>\<open>consumeAndVerify\<close> up to the answer of the store.\<close>

definition take_challenge :: "passkey_context \<Rightarrow> int \<Rightarrow> passkey_context option passkey_meth" where
  "take_challenge c now = bindS (pureS (assertContext c now)) (\<lambda>_. consume_challenge (pc_challenge c))"

text \<open>
  From there up to the call of the verifier: the credential, and whether it existed. The clock
  is read again for the stored context, and a third time for a new credential.
\<close>

definition check_ceremony ::
  "passkey_context \<Rightarrow> passkey_context option \<Rightarrow> passkey_assertion \<Rightarrow> bool \<Rightarrow> string option \<Rightarrow> int \<Rightarrow> int
    \<Rightarrow> (passkey_credential \<times> bool) passkey_meth" where
  "check_ceremony c found a allowRegistration publicKey now created s =
     (case found of None \<Rightarrow> (Inl (Passkey_error CHALLENGE_REPLAYED), s) | Some stored \<Rightarrow>
      (case assertContext stored now of Inl e \<Rightarrow> (Inl e, s) | Inr _ \<Rightarrow>
       if pc_challenge stored \<noteq> pc_challenge c \<or> pc_kind stored \<noteq> pc_kind c
       then (Inl (Passkey_error CHALLENGE_MISMATCH), s)
       else (case assertAssertion a stored of Inl e \<Rightarrow> (Inl e, s) | Inr _ \<Rightarrow>
        let existing = map_of (ps_credentials s) (pa_credentialId a) in
        if \<not> allowRegistration \<and> existing = None then (Inl (Passkey_error CREDENTIAL_NOT_FOUND), s)
        else if (case existing of Some x \<Rightarrow> \<not> pk_active x | None \<Rightarrow> False)
        then (Inl (Passkey_error CREDENTIAL_REVOKED), s)
        else let credential = (case existing of Some x \<Rightarrow> x | None \<Rightarrow>
               \<lparr>pk_credentialId = pa_credentialId a, pk_account = pc_account stored, pk_did = pc_did stored,
                pk_origin = pc_origin stored, pk_rpId = pc_rpId stored,
                pk_publicKey = (case publicKey of Some k \<Rightarrow> k | None \<Rightarrow> [CHR 0x01]),
                pk_createdAt = created, pk_active = True\<rparr>) in
          if to_lower (pk_account credential) \<noteq> to_lower (pc_account stored)
             \<or> pk_did credential \<noteq> pc_did stored
          then (Inl (Passkey_error CREDENTIAL_MISMATCH), s)
          else (Inr (credential, existing \<noteq> None), s))))"

text \<open>After the verifier has answered.\<close>

definition commit_credential :: "bool \<Rightarrow> bool \<Rightarrow> bool \<Rightarrow> passkey_credential \<Rightarrow> passkey_credential passkey_meth" where
  "commit_credential verified allowRegistration existed credential s =
     (if \<not> verified then (Inl (Passkey_error VERIFIER_REJECTED), s)
      else if allowRegistration \<and> existed then (Inl (Passkey_error CREDENTIAL_EXISTS), s)
      else (Inr credential, s\<lparr>ps_credentials :=
              omap_set (pk_credentialId credential) credential (ps_credentials s)\<rparr>))"

text \<open>
  \<open>verify\<close> is the verifier port, and \<open>clock\<close> gives the three readings of the clock; the stored
  context is \<open>the\<close> one found, which is present then. This is the whole of a call that no other
  call interrupts; the three parts are what runs between its awaits.
\<close>

definition consumeAndVerify ::
  "(passkey_assertion \<Rightarrow> passkey_context \<Rightarrow> passkey_credential \<Rightarrow> passkey_exn + bool) \<Rightarrow> (nat \<Rightarrow> int)
    \<Rightarrow> passkey_context \<Rightarrow> passkey_assertion \<Rightarrow> bool \<Rightarrow> string option \<Rightarrow> passkey_credential passkey_meth" where
  "consumeAndVerify verify clock c a allowRegistration publicKey =
     bindS (take_challenge c (clock 0)) (\<lambda>found.
     bindS (check_ceremony c found a allowRegistration publicKey (clock 1) (clock 2)) (\<lambda>(credential, existed).
     bindS (pureS (verify a (the found) credential)) (\<lambda>ok.
     commit_credential ok allowRegistration existed credential)))"

definition passkey_register where
  "passkey_register verify clock c a publicKey =
     (if pc_kind c \<noteq> ''registration'' then throwS (Passkey_error INVALID_CONTEXT)
      else consumeAndVerify verify clock c a True publicKey)"

definition passkey_authenticate where
  "passkey_authenticate verify clock c a =
     (if pc_kind c \<noteq> ''authentication'' \<and> pc_kind c \<noteq> ''step-up'' then throwS (Passkey_error INVALID_CONTEXT)
      else consumeAndVerify verify clock c a False None)"

record step_up_result =
  ru_account :: string
  ru_did :: string
  ru_challenge :: string

definition passkey_stepUp where
  "passkey_stepUp verify clock c a =
     (if pc_kind c \<noteq> ''step-up'' then throwS (Passkey_error INVALID_CONTEXT)
      else bindS (consumeAndVerify verify clock c a False None) (\<lambda>_.
        returnS \<lparr>ru_account = pc_account c, ru_did = pc_did c, ru_challenge = pc_challenge c\<rparr>))"

record rotation_result =
  rv_replacement :: passkey_credential
  rv_account :: string
  rv_did :: string
  rv_revokedCredentialId :: string

definition set_credential :: "passkey_credential \<Rightarrow> passkey_state \<Rightarrow> passkey_state" where
  "set_credential x s = s\<lparr>ps_credentials := omap_set (pk_credentialId x) x (ps_credentials s)\<rparr>"

definition passkey_rotate ::
  "(passkey_assertion \<Rightarrow> passkey_context \<Rightarrow> passkey_credential \<Rightarrow> passkey_exn + bool) \<Rightarrow> (nat \<Rightarrow> int)
    \<Rightarrow> passkey_context \<Rightarrow> passkey_assertion \<Rightarrow> string option \<Rightarrow> string \<Rightarrow> rotation_result passkey_meth" where
  "passkey_rotate verify clock c replacement publicKey oldId s =
     (if pc_kind c \<noteq> ''registration'' then (Inl (Passkey_error INVALID_CONTEXT), s)
      else if oldId = '''' \<or> oldId = pa_credentialId replacement
      then (Inl (Passkey_error ROTATION_REQUIRES_REPLACEMENT), s)
      else case map_of (ps_credentials s) oldId of
        None \<Rightarrow> (Inl (Passkey_error CREDENTIAL_NOT_FOUND), s)
      | Some old \<Rightarrow>
          if \<not> pk_active old then (Inl (Passkey_error CREDENTIAL_NOT_FOUND), s)
          else bindS (consumeAndVerify verify clock c replacement True publicKey)
            (\<lambda>r t. (Inr \<lparr>rv_replacement = r, rv_account = pk_account old, rv_did = pk_did old,
                          rv_revokedCredentialId = pk_credentialId old\<rparr>,
                    set_credential (old\<lparr>pk_active := False\<rparr>) t)) s)"

definition passkey_remove :: "string \<Rightarrow> string \<Rightarrow> passkey_credential passkey_meth" where
  "passkey_remove credentialId replacementId s =
     (if replacementId = '''' \<or> credentialId = replacementId
      then (Inl (Passkey_error ROTATION_REQUIRES_REPLACEMENT), s)
      else case map_of (ps_credentials s) replacementId of
        None \<Rightarrow> (Inl (Passkey_error CREDENTIAL_NOT_FOUND), s)
      | Some replacement \<Rightarrow>
          if \<not> pk_active replacement then (Inl (Passkey_error CREDENTIAL_NOT_FOUND), s)
          else (case map_of (ps_credentials s) credentialId of
              None \<Rightarrow> (Inl (Passkey_error CREDENTIAL_NOT_FOUND), s)
            | Some old \<Rightarrow> (Inr (old\<lparr>pk_active := False\<rparr>),
                s\<lparr>ps_credentials := omap_set credentialId (old\<lparr>pk_active := False\<rparr>) (ps_credentials s)\<rparr>)))"

section \<open>The test fixture\<close>

definition fixture_account :: string where
  "fixture_account = ''0x'' @ replicate 40 (CHR ''1'')"

definition fixture_hash :: string where
  "fixture_hash = ''0x'' @ replicate 64 (CHR ''2'')"

definition fixture_context :: "string \<Rightarrow> string \<Rightarrow> string \<Rightarrow> passkey_context" where
  "fixture_context seed kind credentialId = \<lparr>pc_schemaVersion = 1, pc_kind = kind,
     pc_challenge = ''ssw-test-challenge-'' @ seed, pc_origin = ''https://wallet.example'',
     pc_rpId = ''wallet.example'', pc_account = fixture_account,
     pc_did = ''did:pkh:eip155:84532:'' @ fixture_account, pc_userVerification = ''required'',
     pc_verifierCodeHash = fixture_hash, pc_issuedAt = 100, pc_expiresAt = 200,
     pc_credentialId = Some credentialId\<rparr>"

definition fixture_assertion :: "string \<Rightarrow> string \<Rightarrow> passkey_assertion" where
  "fixture_assertion seed credentialId = \<lparr>pa_clientDataJSON = [CHR 0x01, CHR 0x02],
     pa_authenticatorData = [CHR 0x03, CHR 0x04], pa_signature = [CHR 0x05, CHR 0x06],
     pa_origin = ''https://wallet.example'', pa_rpId = ''wallet.example'',
     pa_challenge = ''ssw-test-challenge-'' @ seed, pa_account = fixture_account,
     pa_credentialId = credentialId, pa_userVerified = True, pa_userVerification = ''required'',
     pa_verifierCodeHash = fixture_hash\<rparr>"

end
