(* ===== verification/PasskeyAuthProps.thy ===== *)
theory PasskeyAuthProps
  imports PasskeyAuth
begin

text \<open>
  Properties of the passkey service: soundness of an accepted assertion, revocation in
  sequential and in interleaved use, and the account named by a step-up.
\<close>

section \<open>Ceremonies\<close>

lemma assertContext_Inr: "assertContext c now = Inr u \<Longrightarrow> pc_issuedAt c \<le> now \<and> now < pc_expiresAt c
    \<and> pc_userVerification c = ''required'' \<and> valid_address (pc_account c)"
  by (auto simp: assertContext_def split: if_splits)

definition assertion_bound :: "passkey_assertion \<Rightarrow> passkey_context \<Rightarrow> bool" where
  "assertion_bound a c \<longleftrightarrow> pa_origin a = pc_origin c \<and> pa_rpId a = pc_rpId c \<and> pa_challenge a = pc_challenge c
     \<and> to_lower (pa_account a) = to_lower (pc_account c) \<and> pa_userVerified a
     \<and> to_lower (pa_verifierCodeHash a) = to_lower (pc_verifierCodeHash c)"

lemma assertAssertion_Inr: "assertAssertion a c = Inr u \<Longrightarrow> assertion_bound a c"
  by (auto simp: assertAssertion_def assertion_bound_def split: if_splits)

lemma take_challenge_Inr:
  assumes "take_challenge c now s = (Inr found, t)"
  shows "found = ps_values s (pc_challenge c)" "t = s\<lparr>ps_values := (ps_values s)(pc_challenge c := None)\<rparr> \<or> t = s \<and> found = None"
  using assms by (auto simp: take_challenge_def result_simps consume_challenge_def split: option.splits)

lemma check_ceremony_Inr:
  assumes "check_ceremony c found a r k now created s = (Inr (x, existed), t)"
  obtains stored where "found = Some stored" "t = s" "assertContext stored now = Inr ()"
    "pc_challenge stored = pc_challenge c" "pc_kind stored = pc_kind c" "assertion_bound a stored"
    "existed \<longleftrightarrow> map_of (ps_credentials s) (pa_credentialId a) = Some x"
    "\<not> existed \<Longrightarrow> r \<and> map_of (ps_credentials s) (pa_credentialId a) = None
       \<and> pk_credentialId x = pa_credentialId a"
    "pk_active x" "to_lower (pk_account x) = to_lower (pc_account stored)" "pk_did x = pc_did stored"
  using assms unfolding check_ceremony_def
  by (auto simp: Let_def dest: assertAssertion_Inr split: option.splits sum.splits if_splits)

lemma commit_Inr:
  "commit_credential ok r existed x s = (Inr y, t) \<Longrightarrow> ok \<and> \<not> (r \<and> existed) \<and> y = x
     \<and> t = s\<lparr>ps_credentials := omap_set (pk_credentialId x) x (ps_credentials s)\<rparr>"
  by (auto simp: commit_credential_def split: if_splits)

lemma consumeAndVerify_Inr:
  assumes "consumeAndVerify verify clock c a r k s = (Inr x, t)"
  obtains stored existed where "ps_values s (pc_challenge c) = Some stored" "assertContext stored (clock 1) = Inr ()"
    "pc_kind stored = pc_kind c" "assertion_bound a stored" "verify a stored x = Inr True"
    "existed \<longleftrightarrow> map_of (ps_credentials s) (pa_credentialId a) = Some x" "\<not> existed \<Longrightarrow> r" "r \<Longrightarrow> \<not> existed"
    "\<not> existed \<Longrightarrow> map_of (ps_credentials s) (pa_credentialId a) = None \<and> pk_credentialId x = pa_credentialId a"
    "pk_active x" "to_lower (pk_account x) = to_lower (pc_account stored)" "pk_did x = pc_did stored"
    "ps_values t = (ps_values s)(pc_challenge c := None)"
    "ps_credentials t = omap_set (pk_credentialId x) x (ps_credentials s)"
proof -
  from assms obtain found u y e v ok where
    1: "take_challenge c (clock 0) s = (Inr found, u)"
    and 2: "check_ceremony c found a r k (clock 1) (clock 2) u = (Inr (y, e), v)"
    and 3: "verify a (the found) y = Inr ok" and 4: "commit_credential ok r e y v = (Inr x, t)"
    unfolding consumeAndVerify_def by (auto simp: result_simps split: prod.splits)
  note f = take_challenge_Inr [OF 1] and m = commit_Inr [OF 4]
  from 2 show thesis
  proof (rule check_ceremony_Inr)
    fix stored
    assume s: "found = Some stored" "v = u" "assertContext stored (clock 1) = Inr ()"
      "pc_challenge stored = pc_challenge c" "pc_kind stored = pc_kind c" "assertion_bound a stored"
      "e \<longleftrightarrow> map_of (ps_credentials u) (pa_credentialId a) = Some y"
      "\<not> e \<Longrightarrow> r \<and> map_of (ps_credentials u) (pa_credentialId a) = None \<and> pk_credentialId y = pa_credentialId a"
      "pk_active y" "to_lower (pk_account y) = to_lower (pc_account stored)" "pk_did y = pc_did stored"
    have u: "ps_credentials u = ps_credentials s" "ps_values u = (ps_values s)(pc_challenge c := None)"
      and st: "ps_values s (pc_challenge c) = Some stored"
      using f s(1) by auto
    have v: "verify a stored y = Inr ok" using 3 s(1) by simp
    show thesis by (rule that [of stored e]) (use m s(2-) u v st in auto)
  qed
qed

text \<open>
  C34: An authentication succeeds only for a challenge the server had stored and that has not
  expired by the reading of the clock taken after the store answered, whose origin, relying
  party, account and verifier hash are those of the assertion, with an active credential of
  the same account and did that the verifier accepted; the challenge is gone afterwards.
\<close>

theorem authenticated_passkey_sound:
  assumes "passkey_authenticate verify clock c a s = (Inr x, t)"
  shows "\<exists>stored. ps_values s (pc_challenge c) = Some stored \<and> pc_kind stored = pc_kind c
    \<and> pc_issuedAt stored \<le> clock 1 \<and> clock 1 < pc_expiresAt stored \<and> assertion_bound a stored
    \<and> verify a stored x = Inr True \<and> map_of (ps_credentials s) (pa_credentialId a) = Some x \<and> pk_active x
    \<and> to_lower (pk_account x) = to_lower (pc_account stored) \<and> pk_did x = pc_did stored
    \<and> ps_values t (pc_challenge c) = None"
proof -
  from assms have c: "consumeAndVerify verify clock c a False None s = (Inr x, t)"
    by (auto simp: passkey_authenticate_def split: if_splits)
  then show ?thesis
    by (rule consumeAndVerify_Inr) (auto dest: assertContext_Inr)
qed

section \<open>Revocation\<close>

text \<open>Every credential is stored under its own id.\<close>

definition keyed :: "passkey_state \<Rightarrow> bool" where
  "keyed s \<longleftrightarrow> (\<forall>i x. map_of (ps_credentials s) i = Some x \<longrightarrow> pk_credentialId x = i)"

definition stays_revoked :: "passkey_state \<Rightarrow> passkey_state \<Rightarrow> bool" where
  "stays_revoked s t \<longleftrightarrow> (\<forall>i x. map_of (ps_credentials s) i = Some x \<and> \<not> pk_active x \<longrightarrow>
     (\<exists>y. map_of (ps_credentials t) i = Some y \<and> \<not> pk_active y))"

lemma stays_revoked_same: "ps_credentials t = ps_credentials s \<Longrightarrow> stays_revoked s t"
  by (auto simp: stays_revoked_def)

lemma take_challenge_credentials: "take_challenge c now s = (r, t) \<Longrightarrow> ps_credentials t = ps_credentials s"
  by (auto simp: take_challenge_def bindS_def consume_challenge_def split: sum.splits option.splits)

lemma check_ceremony_state: "check_ceremony c f a r k now created s = (q, t) \<Longrightarrow> t = s"
  by (auto simp: check_ceremony_def Let_def split: option.splits sum.splits if_splits)

lemma commit_Inl: "commit_credential ok r e x s = (Inl z, t) \<Longrightarrow> t = s"
  by (auto simp: commit_credential_def split: if_splits)

lemma consumeAndVerify_Inl:
  assumes "consumeAndVerify verify clock c a r k s = (Inl e, t)"
  shows "ps_credentials t = ps_credentials s"
proof (cases "take_challenge c (clock 0) s")
  case (Pair q u)
  note u = take_challenge_credentials [OF Pair]
  show ?thesis
  proof (cases q)
    case (Inl z)
    with assms Pair u show ?thesis by (simp add: consumeAndVerify_def bindS_def)
  next
    case (Inr f)
    obtain q2 v where 2: "check_ceremony c f a r k (clock 1) (clock 2) u = (q2, v)" by fastforce
    with check_ceremony_state [OF 2] assms Pair Inr u show ?thesis
      unfolding consumeAndVerify_def
      by (auto simp: bindS_def split: sum.splits prod.splits dest: commit_Inl)
  qed
qed

lemma consumeAndVerify_revoked:
  assumes "keyed s" "consumeAndVerify verify clock c a r k s = (q, t)"
  shows "stays_revoked s t \<and> keyed t"
proof (cases q)
  case (Inl e)
  with assms consumeAndVerify_Inl show ?thesis
    by (metis keyed_def stays_revoked_same)
next
  case (Inr x)
  with assms(2) have "consumeAndVerify verify clock c a r k s = (Inr x, t)" by simp
  then show ?thesis
  proof (rule consumeAndVerify_Inr)
    fix stored existed
    assume e: "existed \<longleftrightarrow> map_of (ps_credentials s) (pa_credentialId a) = Some x"
      and n: "\<not> existed \<Longrightarrow> map_of (ps_credentials s) (pa_credentialId a) = None \<and> pk_credentialId x = pa_credentialId a"
      and t: "ps_credentials t = omap_set (pk_credentialId x) x (ps_credentials s)" and x: "pk_active x"
    have i: "pk_credentialId x = pa_credentialId a" using e n assms(1) by (cases existed) (auto simp: keyed_def)
    have "map_of (ps_credentials s) (pk_credentialId x) = Some y \<Longrightarrow> pk_active y" for y
      using e n x i by (cases existed) auto
    with t assms(1) show ?thesis by (auto simp: stays_revoked_def keyed_def)
  qed
qed

lemma revoke_set:
  assumes "keyed s" "map_of (ps_credentials s) i = Some old"
  shows "stays_revoked s (s\<lparr>ps_credentials := omap_set i (old\<lparr>pk_active := False\<rparr>) (ps_credentials s)\<rparr>)
    \<and> keyed (s\<lparr>ps_credentials := omap_set i (old\<lparr>pk_active := False\<rparr>) (ps_credentials s)\<rparr>)"
  using assms by (auto simp: stays_revoked_def keyed_def)

lemma stays_revoked_trans: "stays_revoked s t \<Longrightarrow> stays_revoked t u \<Longrightarrow> stays_revoked s u"
  unfolding stays_revoked_def by blast

text \<open>The operations of the service and of its challenge store, each with its verifier and clock.\<close>

type_synonym passkey_verifier = "passkey_assertion \<Rightarrow> passkey_context \<Rightarrow> passkey_credential \<Rightarrow> passkey_exn + bool"

datatype passkey_op =
    Put_challenge passkey_context
  | Register passkey_verifier "nat \<Rightarrow> int" passkey_context passkey_assertion "string option"
  | Authenticate passkey_verifier "nat \<Rightarrow> int" passkey_context passkey_assertion
  | Step_up passkey_verifier "nat \<Rightarrow> int" passkey_context passkey_assertion
  | Rotate passkey_verifier "nat \<Rightarrow> int" passkey_context passkey_assertion "string option" string
  | Remove string string

definition passkey_after :: "passkey_op \<Rightarrow> passkey_state \<Rightarrow> passkey_state" where
  "passkey_after x s = (case x of
       Put_challenge c \<Rightarrow> snd (put_challenge c s)
     | Register verify clock c a k \<Rightarrow> snd (passkey_register verify clock c a k s)
     | Authenticate verify clock c a \<Rightarrow> snd (passkey_authenticate verify clock c a s)
     | Step_up verify clock c a \<Rightarrow> snd (passkey_stepUp verify clock c a s)
     | Rotate verify clock c a k i \<Rightarrow> snd (passkey_rotate verify clock c a k i s)
     | Remove i j \<Rightarrow> snd (passkey_remove i j s))"

definition passkey_run :: "passkey_op list \<Rightarrow> passkey_state \<Rightarrow> passkey_state" where
  "passkey_run xs s = fold passkey_after xs s"

definition new_passkeys :: passkey_state where
  "new_passkeys = \<lparr>ps_values = Map.empty, ps_credentials = []\<rparr>"

definition keeps_revoked :: "passkey_state \<Rightarrow> passkey_state \<Rightarrow> bool" where
  "keeps_revoked s t \<longleftrightarrow> stays_revoked s t \<and> keyed t"

lemma keeps_same: "keyed s \<Longrightarrow> ps_credentials t = ps_credentials s \<Longrightarrow> keeps_revoked s t"
  by (auto simp: keeps_revoked_def stays_revoked_def keyed_def)

lemma keeps_consume: "keyed s \<Longrightarrow> keeps_revoked s (snd (consumeAndVerify verify clock c a r k s))"
  using consumeAndVerify_revoked [OF _ prod.collapse [symmetric]] by (simp add: keeps_revoked_def)

lemma keeps_set:
  assumes "keeps_revoked s t" "\<not> pk_active x"
  shows "keeps_revoked s (set_credential x t)"
  using assms by (auto simp: keeps_revoked_def stays_revoked_def keyed_def set_credential_def)

lemma keeps_then:
  assumes "keyed s" "\<And>x t. m s = (Inr x, t) \<Longrightarrow> keeps_revoked s t \<Longrightarrow> keeps_revoked s (snd (k x t))" "keeps_revoked s (snd (m s))"
  shows "keeps_revoked s (snd (bindS m k s))"
  using assms(2,3) by (cases "m s"; cases "fst (m s)") (auto simp: bindS_def)

lemma passkey_after_keeps:
  assumes "keyed s"
  shows "keeps_revoked s (passkey_after x s)"
proof (cases x)
  case (Put_challenge c)
  then show ?thesis using keeps_same [OF assms] by (simp add: passkey_after_def put_challenge_def)
next
  case (Register verify clock c a k)
  then show ?thesis using keeps_same [OF assms] keeps_consume [OF assms] by (simp add: passkey_after_def passkey_register_def)
next
  case (Authenticate verify clock c a)
  then show ?thesis using keeps_same [OF assms] keeps_consume [OF assms] by (simp add: passkey_after_def passkey_authenticate_def)
next
  case (Step_up verify clock c a)
  then show ?thesis using keeps_same [OF assms] keeps_consume [OF assms]
    by (auto simp: passkey_after_def passkey_stepUp_def intro: keeps_then [OF assms])
next
  case (Rotate verify clock c a k i)
  then show ?thesis using keeps_same [OF assms] keeps_consume [OF assms]
    by (auto simp: passkey_after_def passkey_rotate_def intro!: keeps_then [OF assms] keeps_set split: option.split)
next
  case (Remove i j)
  then show ?thesis using revoke_set [OF assms] keeps_same [OF assms]
    by (auto simp: passkey_after_def passkey_remove_def keeps_revoked_def split: option.split)
qed

lemma passkey_run_keeps: "keyed s \<Longrightarrow> keeps_revoked s (passkey_run xs s)"
proof (induction xs arbitrary: s)
  case Nil
  then show ?case by (simp add: passkey_run_def keeps_same)
next
  case (Cons x xs)
  have x: "keeps_revoked s (passkey_after x s)" by (rule passkey_after_keeps [OF Cons.prems])
  then have "keeps_revoked (passkey_after x s) (passkey_run xs (passkey_after x s))" using Cons.IH by (simp add: keeps_revoked_def)
  with x show ?case by (auto simp: passkey_run_def keeps_revoked_def intro: stays_revoked_trans)
qed

lemma reachable_keyed: "keyed (passkey_run xs new_passkeys)"
proof -
  have "keyed new_passkeys" by (simp add: keyed_def new_passkeys_def)
  from passkey_run_keeps [OF this] show ?thesis by (simp add: keeps_revoked_def)
qed

lemma revoked_not_consumed:
  assumes "map_of (ps_credentials s) (pa_credentialId a) = Some x" "\<not> pk_active x"
  shows "consumeAndVerify verify clock c a r k s \<noteq> (Inr y, t)"
proof
  assume "consumeAndVerify verify clock c a r k s = (Inr y, t)"
  then show False by (rule consumeAndVerify_Inr) (use assms in auto)
qed

text \<open>
  C35: In a service that started empty, once a credential is revoked, by a rotation or a
  removal, and whatever calls follow, one after the other, it stays revoked, no assertion with
  it is accepted by an authentication, a step-up, a registration or as the replacement of a
  rotation, and it can neither be rotated away nor stand in for a removed credential. (When
  calls overlap this fails, as shown separately.)
\<close>

theorem revoked_passkey_stays_out:
  assumes "s = passkey_run before new_passkeys" "map_of (ps_credentials s) (pa_credentialId a) = Some x" "\<not> pk_active x"
    "t = passkey_run later s"
  shows "(\<exists>y. map_of (ps_credentials t) (pa_credentialId a) = Some y \<and> \<not> pk_active y)
    \<and> (\<forall>r u. passkey_authenticate verify clock c a t \<noteq> (Inr r, u)) \<and> (\<forall>r u. passkey_stepUp verify clock c a t \<noteq> (Inr r, u))
    \<and> (\<forall>r u. passkey_register verify clock c a k t \<noteq> (Inr r, u)) \<and> (\<forall>r u. passkey_rotate verify clock c a k j t \<noteq> (Inr r, u))
    \<and> (\<forall>r u. passkey_rotate verify clock c b k (pa_credentialId a) t \<noteq> (Inr r, u))
    \<and> (\<forall>r u. passkey_remove j (pa_credentialId a) t \<noteq> (Inr r, u))"
proof -
  have "stays_revoked s t" using passkey_run_keeps [OF reachable_keyed] assms(1,4) by (simp add: keeps_revoked_def)
  then obtain y where y: "map_of (ps_credentials t) (pa_credentialId a) = Some y" "\<not> pk_active y"
    using assms(2,3) unfolding stays_revoked_def by blast
  note n = revoked_not_consumed [OF y]
  have "\<forall>r u. passkey_authenticate verify clock c a t \<noteq> (Inr r, u)" "\<forall>r u. passkey_register verify clock c a k t \<noteq> (Inr r, u)"
    using n by (simp_all add: passkey_authenticate_def passkey_register_def)
  moreover have "\<forall>r u. passkey_stepUp verify clock c a t \<noteq> (Inr r, u)"
    using n by (auto simp: passkey_stepUp_def bindS_Inr)
  moreover have "\<forall>r u. passkey_rotate verify clock c a k j t \<noteq> (Inr r, u)"
    using n by (auto simp: passkey_rotate_def bindS_Inr split: option.split)
  moreover have "\<forall>r u. passkey_rotate verify clock c b k (pa_credentialId a) t \<noteq> (Inr r, u)" "\<forall>r u. passkey_remove j (pa_credentialId a) t \<noteq> (Inr r, u)"
    using y by (auto simp: passkey_rotate_def passkey_remove_def)
  ultimately show ?thesis using y by blast
qed

section \<open>Examples\<close>

definition ex_verify :: "passkey_assertion \<Rightarrow> passkey_context \<Rightarrow> passkey_credential \<Rightarrow> passkey_exn + bool" where
  "ex_verify a c x = Inr True"

definition ex_credential :: "string \<Rightarrow> passkey_credential" where
  "ex_credential i = \<lparr>pk_credentialId = i, pk_account = fixture_account,
     pk_did = ''did:pkh:eip155:84532:'' @ fixture_account, pk_origin = ''https://wallet.example'',
     pk_rpId = ''wallet.example'', pk_publicKey = ''k'', pk_createdAt = 100, pk_active = True\<rparr>"

definition ex_passkeys :: passkey_state where
  "ex_passkeys = snd (put_challenge (fixture_context ''1'' ''step-up'' ''a'')
     \<lparr>ps_values = Map.empty, ps_credentials = [(''a'', ex_credential ''a''), (''b'', ex_credential ''b'')]\<rparr>)"

text \<open>
  An authentication with credential \<open>a\<close> waits for the verifier while \<open>a\<close> is removed; its last
  segment then writes the credential it read before, active, back into the store.
\<close>

definition lost_revocation :: passkey_state where
  "lost_revocation = (let
      (found, s1) = take_challenge (fixture_context ''1'' ''step-up'' ''a'') 150 ex_passkeys;
      (checked, s2) = check_ceremony (fixture_context ''1'' ''step-up'' ''a'')
         (case found of Inr f \<Rightarrow> f | Inl _ \<Rightarrow> None) (fixture_assertion ''1'' ''a'') False None 150 150 s1;
      s3 = snd (passkey_remove ''a'' ''b'' s2)
    in case checked of
      Inr (x, existed) \<Rightarrow> snd (commit_credential True False existed x s3)
    | Inl _ \<Rightarrow> s3)"

text \<open>
  A credential that is removed while an authentication with it waits for the verifier is
  active again afterwards: the authentication writes back the record it had read before.
\<close>

theorem concurrent_revocation_is_lost:
  "map_option pk_active (map_of (ps_credentials (snd (passkey_remove ''a'' ''b'' ex_passkeys))) ''a'') = Some False
   \<and> map_option pk_active (map_of (ps_credentials lost_revocation) ''a'') = Some True"
  by code_simp

text \<open>The caller's context names another account than the ceremony that was verified.\<close>

definition forged_context :: passkey_context where
  "forged_context = (fixture_context ''1'' ''step-up'' ''a'')
     \<lparr>pc_account := ''0x'' @ replicate 40 (CHR ''9''), pc_did := ''did:example:other''\<rparr>"

text \<open>
  A step-up returns the account and did of the context the caller passed, which is
  compared with the stored ceremony only in its challenge and kind: a forged context gets a
  verified result for another account.
\<close>

theorem step_up_result_names_callers_account:
  "fst (passkey_stepUp ex_verify (\<lambda>_. 150) forged_context (fixture_assertion ''1'' ''a'') ex_passkeys)
     = Inr \<lparr>ru_account = ''0x'' @ replicate 40 (CHR ''9''), ru_did = ''did:example:other'',
         ru_challenge = ''ssw-test-challenge-1''\<rparr>"
  by code_simp

lemma ex_auth: "fst (passkey_authenticate ex_verify (\<lambda>_. 150) (fixture_context ''1'' ''step-up'' ''a'') (fixture_assertion ''1'' ''a'') ex_passkeys)
    = Inr (ex_credential ''a'')"
  by code_simp

lemma authenticated_passkey_sound_witness:
  "\<exists>stored. ps_values ex_passkeys ''ssw-test-challenge-1'' = Some stored \<and> assertion_bound (fixture_assertion ''1'' ''a'') stored
     \<and> map_of (ps_credentials ex_passkeys) ''a'' = Some (ex_credential ''a'')"
proof -
  have "passkey_authenticate ex_verify (\<lambda>_. 150) (fixture_context ''1'' ''step-up'' ''a'') (fixture_assertion ''1'' ''a'') ex_passkeys
     = (Inr (ex_credential ''a''), snd (passkey_authenticate ex_verify (\<lambda>_. 150) (fixture_context ''1'' ''step-up'' ''a'') (fixture_assertion ''1'' ''a'') ex_passkeys))"
    by (simp only: prod_eq_iff ex_auth fst_conv snd_conv)
  from authenticated_passkey_sound [OF this] show ?thesis
    by (auto simp: fixture_context_def fixture_assertion_def)
qed

definition ex_history :: "passkey_op list" where
  "ex_history = [Put_challenge (fixture_context ''1'' ''registration'' ''a''),
     Register ex_verify (\<lambda>_. 150) (fixture_context ''1'' ''registration'' ''a'') (fixture_assertion ''1'' ''a'') None,
     Put_challenge (fixture_context ''2'' ''registration'' ''b''),
     Rotate ex_verify (\<lambda>_. 150) (fixture_context ''2'' ''registration'' ''b'') (fixture_assertion ''2'' ''b'') None ''a'']"

lemma ex_history_revokes: "map_option pk_active (map_of (ps_credentials (passkey_run ex_history new_passkeys)) ''a'') = Some False"
  by code_simp

lemma revoked_passkey_stays_out_witness:
  "\<forall>r u. passkey_authenticate ex_verify (\<lambda>_. 150) (fixture_context ''3'' ''step-up'' ''a'') (fixture_assertion ''3'' ''a'')
     (passkey_run [Put_challenge (fixture_context ''3'' ''step-up'' ''a'')] (passkey_run ex_history new_passkeys)) \<noteq> (Inr r, u)"
proof -
  obtain x where x: "map_of (ps_credentials (passkey_run ex_history new_passkeys)) ''a'' = Some x" "\<not> pk_active x"
    using ex_history_revokes by auto
  have i: "pa_credentialId (fixture_assertion ''3'' ''a'') = ''a''" by (simp add: fixture_assertion_def)
  have m: "map_of (ps_credentials (passkey_run ex_history new_passkeys)) (pa_credentialId (fixture_assertion ''3'' ''a'')) = Some x"
    using x(1) i by simp
  from revoked_passkey_stays_out [OF refl m x(2) refl] show ?thesis by blast
qed

end
