(* ===== verification/TrustRegistry.thy ===== *)
theory TrustRegistry
  imports Interfaces JsValue
begin

text \<open>
  The signed trust registry (\<open>packages/trust-registry/src/index.ts\<close>): parsing of snapshots
  from untrusted values, the canonical text that is signed, verification, the cache with its
  rollback check, and the evaluation of issuers, keys and credential status.  The snapshot
  source is a port with its own state; the signature verifier is a function that may throw.
  The time of a request is a number the code does not check, so it may be NaN.
\<close>

section \<open>Data\<close>

datatype registry_code =
    SNAPSHOT_INVALID | SNAPSHOT_UNSIGNED | SNAPSHOT_SIGNATURE_INVALID | SNAPSHOT_SCOPE_MISMATCH
  | SNAPSHOT_STALE | SNAPSHOT_ROLLBACK

datatype registry_exn = Registry_error registry_code | Foreign_error

datatype decision_kind = Verified | Rejected | Indeterminate

record registry_decision =
  rd_decision :: decision_kind
  rd_code :: string
  rd_snapshot :: "(string \<times> int) option"

record registry_scope =
  rs_tenantId :: string
  rs_jurisdiction :: string

record schema_auth =
  sa_schemaId :: string
  sa_status :: string

record key_auth =
  ka_keyId :: string
  ka_status :: string
  ka_authorizedFrom :: int
  ka_authorizedUntil :: "int option"

record issuer_auth =
  ia_issuerId :: string
  ia_status :: string
  ia_schemas :: "schema_auth list"
  ia_keys :: "key_auth list"
  ia_trustMarks :: "string list"

record key_rotation =
  kr_issuerId :: string
  kr_previousKeyId :: string
  kr_newKeyId :: string
  kr_rotatedAt :: int

record status_entry =
  ce_issuerId :: string
  ce_statusId :: string
  ce_status :: string
  ce_updatedAt :: int

record snapshot =
  sn_snapshotId :: string
  sn_tenantId :: string
  sn_jurisdiction :: string
  sn_sequence :: int
  sn_issuedAt :: int
  sn_expiresAt :: int
  sn_signingKeyId :: string
  sn_issuers :: "issuer_auth list"
  sn_rotations :: "key_rotation list"
  sn_statuses :: "status_entry list"

record signed_snapshot = snapshot +
  sn_signature :: string

section \<open>Parsing\<close>

definition invalid :: "registry_exn + 'a" where
  "invalid = Inl (Registry_error SNAPSHOT_INVALID)"

definition object :: "jsval \<Rightarrow> registry_exn + (string \<times> jsval) list" where
  "object v = (case v of JObj es \<Rightarrow> Inr es | JOther \<Rightarrow> invalid | _ \<Rightarrow> invalid)"

definition exactKeys :: "(string \<times> jsval) list \<Rightarrow> string list \<Rightarrow> string list \<Rightarrow> registry_exn + unit" where
  "exactKeys es required optional = (if exact_keys es required optional then Inr () else invalid)"

definition safe_text :: "nat \<Rightarrow> string \<Rightarrow> bool" where
  "safe_text m s \<longleftrightarrow> s \<noteq> '''' \<and> length s \<le> m \<and> \<not> list_ex is_control s"

definition safeString :: "nat \<Rightarrow> jsval \<Rightarrow> registry_exn + string" where
  "safeString m v = (case v of JStr s \<Rightarrow> if safe_text m s then Inr s else invalid | _ \<Rightarrow> invalid)"

definition scopeString :: "jsval \<Rightarrow> registry_exn + string" where
  "scopeString v = bindE (safeString 128 v) (\<lambda>s. if opaque_id s then Inr s else invalid)"

definition integer :: "int \<Rightarrow> jsval \<Rightarrow> registry_exn + int" where
  "integer m v = (case v of JInt n \<Rightarrow> if safe_integer n \<and> m \<le> n then Inr n else invalid | _ \<Rightarrow> invalid)"

definition one_of :: "string list \<Rightarrow> jsval \<Rightarrow> registry_exn + string" where
  "one_of allowed v = (case v of JStr s \<Rightarrow> if s \<in> set allowed then Inr s else invalid | _ \<Rightarrow> invalid)"

definition jlist :: "int \<Rightarrow> jsval \<Rightarrow> registry_exn + jsval list" where
  "jlist m v = (case v of JArr vs \<Rightarrow> if int (length vs) \<le> m then Inr vs else invalid | _ \<Rightarrow> invalid)"

definition unique :: "string list \<Rightarrow> registry_exn + unit" where
  "unique items = (if distinct items then Inr () else invalid)"

definition parseSchema :: "jsval \<Rightarrow> registry_exn + schema_auth" where
  "parseSchema v = bindE (object v) (\<lambda>i.
     bindE (exactKeys i [''schemaId'', ''status''] []) (\<lambda>_.
     bindE (safeString 512 (jfield i ''schemaId'')) (\<lambda>a.
     bindE (one_of [''active'', ''suspended'', ''revoked''] (jfield i ''status'')) (\<lambda>b.
     Inr \<lparr>sa_schemaId = a, sa_status = b\<rparr>))))"

definition parseKey :: "jsval \<Rightarrow> registry_exn + key_auth" where
  "parseKey v = bindE (object v) (\<lambda>i.
     bindE (exactKeys i [''keyId'', ''status'', ''authorizedFrom''] [''authorizedUntil'']) (\<lambda>_.
     bindE (one_of [''active'', ''retired'', ''revoked''] (jfield i ''status'')) (\<lambda>status.
     bindE (integer 0 (jfield i ''authorizedFrom'')) (\<lambda>from.
     bindE (if jfield i ''authorizedUntil'' = JUndef then Inr None
            else bindE (integer 0 (jfield i ''authorizedUntil'')) (\<lambda>n. Inr (Some n))) (\<lambda>until.
     if (case until of Some n \<Rightarrow> n \<le> from | None \<Rightarrow> False) then invalid
     else if status = ''retired'' \<and> until = None then invalid
     else bindE (safeString 512 (jfield i ''keyId'')) (\<lambda>k.
     Inr \<lparr>ka_keyId = k, ka_status = status, ka_authorizedFrom = from, ka_authorizedUntil = until\<rparr>))))))"

definition parseIssuer :: "jsval \<Rightarrow> registry_exn + issuer_auth" where
  "parseIssuer v = bindE (object v) (\<lambda>i.
     bindE (exactKeys i [''issuerId'', ''status'', ''schemas'', ''keys'', ''trustMarks''] []) (\<lambda>_.
     bindE (bindE (jlist 10000 (jfield i ''schemas'')) (mapE parseSchema)) (\<lambda>schemas.
     bindE (bindE (jlist 10000 (jfield i ''keys'')) (mapE parseKey)) (\<lambda>keys.
     bindE (bindE (jlist 128 (jfield i ''trustMarks'')) (mapE (safeString 128))) (\<lambda>marks.
     bindE (unique (map sa_schemaId schemas)) (\<lambda>_.
     bindE (unique (map ka_keyId keys)) (\<lambda>_.
     bindE (unique marks) (\<lambda>_.
     bindE (safeString 512 (jfield i ''issuerId'')) (\<lambda>a.
     bindE (one_of [''active'', ''suspended'', ''revoked''] (jfield i ''status'')) (\<lambda>b.
     Inr \<lparr>ia_issuerId = a, ia_status = b, ia_schemas = schemas, ia_keys = keys, ia_trustMarks = marks\<rparr>))))))))))"

definition parseRotation :: "jsval \<Rightarrow> registry_exn + key_rotation" where
  "parseRotation v = bindE (object v) (\<lambda>i.
     bindE (exactKeys i [''issuerId'', ''previousKeyId'', ''newKeyId'', ''rotatedAt''] []) (\<lambda>_.
     bindE (safeString 512 (jfield i ''previousKeyId'')) (\<lambda>p.
     bindE (safeString 512 (jfield i ''newKeyId'')) (\<lambda>n.
     if p = n then invalid
     else bindE (safeString 512 (jfield i ''issuerId'')) (\<lambda>a.
     bindE (integer 0 (jfield i ''rotatedAt'')) (\<lambda>t.
     Inr \<lparr>kr_issuerId = a, kr_previousKeyId = p, kr_newKeyId = n, kr_rotatedAt = t\<rparr>))))))"

definition parseStatus :: "jsval \<Rightarrow> registry_exn + status_entry" where
  "parseStatus v = bindE (object v) (\<lambda>i.
     bindE (exactKeys i [''issuerId'', ''statusId'', ''status'', ''updatedAt''] []) (\<lambda>_.
     bindE (safeString 512 (jfield i ''issuerId'')) (\<lambda>a.
     bindE (scopeString (jfield i ''statusId'')) (\<lambda>b.
     bindE (one_of [''valid'', ''suspended'', ''revoked''] (jfield i ''status'')) (\<lambda>c.
     bindE (integer 0 (jfield i ''updatedAt'')) (\<lambda>t.
     Inr \<lparr>ce_issuerId = a, ce_statusId = b, ce_status = c, ce_updatedAt = t\<rparr>))))))"

text \<open>The map of issuers keeps the last of equal ids; the ids are distinct when it is used.\<close>

definition issuer_of :: "('a snapshot_scheme) \<Rightarrow> string \<Rightarrow> issuer_auth option" where
  "issuer_of s i = map_of (rev (map (\<lambda>x. (ia_issuerId x, x)) (sn_issuers s))) i"

definition rotation_fits :: "('a snapshot_scheme) \<Rightarrow> key_rotation \<Rightarrow> bool" where
  "rotation_fits s r \<longleftrightarrow> (case issuer_of s (kr_issuerId r) of None \<Rightarrow> False | Some issuer \<Rightarrow>
     (case (find (\<lambda>k. ka_keyId k = kr_previousKeyId r) (ia_keys issuer),
            find (\<lambda>k. ka_keyId k = kr_newKeyId r) (ia_keys issuer)) of
        (Some previous, Some nxt) \<Rightarrow>
          ka_status previous = ''retired'' \<and> ka_authorizedUntil previous = Some (kr_rotatedAt r)
          \<and> ka_authorizedFrom nxt = kr_rotatedAt r \<and> kr_rotatedAt r \<le> sn_issuedAt s
      | _ \<Rightarrow> False))"

definition status_fits :: "('a snapshot_scheme) \<Rightarrow> status_entry \<Rightarrow> bool" where
  "status_fits s e \<longleftrightarrow> issuer_of s (ce_issuerId e) \<noteq> None \<and> ce_updatedAt e \<le> sn_issuedAt s"

definition validateRelations :: "('a snapshot_scheme) \<Rightarrow> registry_exn + unit" where
  "validateRelations s =
     bindE (forE (\<lambda>r. if rotation_fits s r then Inr () else invalid) (sn_rotations s)) (\<lambda>_.
     forE (\<lambda>e. if status_fits s e then Inr () else invalid) (sn_statuses s))"

definition unsigned_keys :: "string list" where
  "unsigned_keys = [''schemaVersion'', ''snapshotId'', ''tenantId'', ''jurisdiction'', ''sequence'',
     ''issuedAt'', ''expiresAt'', ''signingKeyId'', ''issuers'', ''rotations'', ''statuses'']"

definition rotation_key :: "key_rotation \<Rightarrow> string" where
  "rotation_key r = nul_join (kr_issuerId r) (nul_join (kr_previousKeyId r)
     (nul_join (kr_newKeyId r) (show_int (kr_rotatedAt r))))"

definition predecessor_key :: "key_rotation \<Rightarrow> string" where
  "predecessor_key r = nul_join (kr_issuerId r) (nul_join ''previous'' (kr_previousKeyId r))"

definition successor_key :: "key_rotation \<Rightarrow> string" where
  "successor_key r = nul_join (kr_issuerId r) (nul_join ''next'' (kr_newKeyId r))"

definition status_key :: "status_entry \<Rightarrow> string" where
  "status_key e = nul_join (ce_issuerId e) (ce_statusId e)"

definition parseUnsigned :: "(string \<times> jsval) list \<Rightarrow> registry_exn + snapshot" where
  "parseUnsigned v =
     bindE (exactKeys v unsigned_keys []) (\<lambda>_.
     if jfield v ''schemaVersion'' \<noteq> JInt 1 then invalid else
     bindE (integer 0 (jfield v ''issuedAt'')) (\<lambda>issuedAt.
     bindE (integer 0 (jfield v ''expiresAt'')) (\<lambda>expiresAt.
     if expiresAt \<le> issuedAt then invalid else
     bindE (bindE (jlist 10000 (jfield v ''issuers'')) (mapE parseIssuer)) (\<lambda>issuers.
     bindE (bindE (jlist 10000 (jfield v ''rotations'')) (mapE parseRotation)) (\<lambda>rotations.
     bindE (bindE (jlist 10000 (jfield v ''statuses'')) (mapE parseStatus)) (\<lambda>statuses.
     bindE (unique (map ia_issuerId issuers)) (\<lambda>_.
     bindE (unique (map rotation_key rotations)) (\<lambda>_.
     bindE (unique (map predecessor_key rotations)) (\<lambda>_.
     bindE (unique (map successor_key rotations)) (\<lambda>_.
     bindE (unique (map status_key statuses)) (\<lambda>_.
     bindE (scopeString (jfield v ''snapshotId'')) (\<lambda>snapshotId.
     bindE (scopeString (jfield v ''tenantId'')) (\<lambda>tenantId.
     bindE (scopeString (jfield v ''jurisdiction'')) (\<lambda>jurisdiction.
     bindE (integer 1 (jfield v ''sequence'')) (\<lambda>sequence.
     bindE (safeString 256 (jfield v ''signingKeyId'')) (\<lambda>signingKeyId.
     let s = \<lparr>sn_snapshotId = snapshotId, sn_tenantId = tenantId, sn_jurisdiction = jurisdiction,
        sn_sequence = sequence, sn_issuedAt = issuedAt, sn_expiresAt = expiresAt,
        sn_signingKeyId = signingKeyId, sn_issuers = issuers, sn_rotations = rotations,
        sn_statuses = statuses\<rparr> in
     bindE (validateRelations s) (\<lambda>_. Inr s)))))))))))))))))"

definition parseUnsignedRegistrySnapshot :: "jsval \<Rightarrow> registry_exn + snapshot" where
  "parseUnsignedRegistrySnapshot v = bindE (object v) parseUnsigned"

definition with_signature :: "snapshot \<Rightarrow> string \<Rightarrow> signed_snapshot" where
  "with_signature s sig = snapshot.extend s \<lparr>sn_signature = sig\<rparr>"

definition unsigned :: "signed_snapshot \<Rightarrow> snapshot" where
  "unsigned s = snapshot.truncate s"

definition parseSignedRegistrySnapshot :: "jsval \<Rightarrow> registry_exn + signed_snapshot" where
  "parseSignedRegistrySnapshot v = bindE (object v) (\<lambda>i.
     if \<not> own i ''signature'' then Inl (Registry_error SNAPSHOT_UNSIGNED)
     else bindE (safeString 8192 (jfield i ''signature'')) (\<lambda>sig.
     bindE (parseUnsigned (filter (\<lambda>e. fst e \<noteq> ''signature'') i)) (\<lambda>s.
     Inr (with_signature s sig))))"

section \<open>The signed text\<close>

lemma entry_size: "(k, v) \<in> set es \<Longrightarrow> size v < Suc (size_list (size_prod size size) es)"
  by (induction es) auto

lemma entry_size': "(k, v) \<in> set es \<Longrightarrow> size v < Suc (size_list (size_prod (\<lambda>_. 0) size) es)"
  by (induction es) auto

function canonicalValue :: "jsval \<Rightarrow> registry_exn + string" where
  "canonicalValue JNull = Inr ''null''"
| "canonicalValue (JStr s) = Inr (json_string s)"
| "canonicalValue (JBool b) = Inr (if b then ''true'' else ''false'')"
| "canonicalValue (JInt n) = (if \<not> safe_integer n then invalid else Inr (show_int n))"
| "canonicalValue JFraction = invalid"
| "canonicalValue JNonFinite = invalid"
| "canonicalValue (JArr vs) = bindE (mapE canonicalValue vs) (\<lambda>ts. Inr (''['' @ comma_join ts @ '']''))"
| "canonicalValue (JObj es) =
     bindE (mapE (\<lambda>e. bindE (canonicalValue (snd e)) (\<lambda>t. Inr (json_string (fst e) @ '':'' @ t)))
              (sort_entries (filter (\<lambda>e. snd e \<noteq> JUndef) es)))
       (\<lambda>ts. Inr (''{'' @ comma_join ts @ ''}''))"
| "canonicalValue JUndef = invalid"
| "canonicalValue JOther = invalid"
  by pat_completeness auto
termination
  by (relation "measure size")
    (auto simp: less_Suc_eq_le size_list_estimation' dest: entry_size')

text \<open>The parsed record as a JavaScript object, its properties in the order the parser writes them.\<close>

definition schema_js :: "schema_auth \<Rightarrow> jsval" where
  "schema_js x = JObj [(''schemaId'', JStr (sa_schemaId x)), (''status'', JStr (sa_status x))]"

definition key_js :: "key_auth \<Rightarrow> jsval" where
  "key_js x = JObj ([(''keyId'', JStr (ka_keyId x)), (''status'', JStr (ka_status x)),
     (''authorizedFrom'', JInt (ka_authorizedFrom x))]
     @ (case ka_authorizedUntil x of None \<Rightarrow> [] | Some n \<Rightarrow> [(''authorizedUntil'', JInt n)]))"

definition issuer_js :: "issuer_auth \<Rightarrow> jsval" where
  "issuer_js x = JObj [(''issuerId'', JStr (ia_issuerId x)), (''status'', JStr (ia_status x)),
     (''schemas'', JArr (map schema_js (ia_schemas x))), (''keys'', JArr (map key_js (ia_keys x))),
     (''trustMarks'', JArr (map JStr (ia_trustMarks x)))]"

definition rotation_js :: "key_rotation \<Rightarrow> jsval" where
  "rotation_js x = JObj [(''issuerId'', JStr (kr_issuerId x)), (''previousKeyId'', JStr (kr_previousKeyId x)),
     (''newKeyId'', JStr (kr_newKeyId x)), (''rotatedAt'', JInt (kr_rotatedAt x))]"

definition status_js :: "status_entry \<Rightarrow> jsval" where
  "status_js x = JObj [(''issuerId'', JStr (ce_issuerId x)), (''statusId'', JStr (ce_statusId x)),
     (''status'', JStr (ce_status x)), (''updatedAt'', JInt (ce_updatedAt x))]"

definition snapshot_entries :: "snapshot \<Rightarrow> (string \<times> jsval) list" where
  "snapshot_entries s = [(''schemaVersion'', JInt 1), (''snapshotId'', JStr (sn_snapshotId s)),
     (''tenantId'', JStr (sn_tenantId s)), (''jurisdiction'', JStr (sn_jurisdiction s)),
     (''sequence'', JInt (sn_sequence s)), (''issuedAt'', JInt (sn_issuedAt s)),
     (''expiresAt'', JInt (sn_expiresAt s)), (''signingKeyId'', JStr (sn_signingKeyId s)),
     (''issuers'', JArr (map issuer_js (sn_issuers s))),
     (''rotations'', JArr (map rotation_js (sn_rotations s))),
     (''statuses'', JArr (map status_js (sn_statuses s)))]"

definition registrySnapshotSigningPayload :: "snapshot \<Rightarrow> registry_exn + string" where
  "registrySnapshotSigningPayload s =
     bindE (parseUnsignedRegistrySnapshot (JObj (snapshot_entries s))) (\<lambda>parsed.
     bindE (canonicalValue (JObj (snapshot_entries parsed))) (\<lambda>t.
     Inr (''ssw-trust-registry-v1'' @ [CHR 0x0A] @ t)))"

definition signRegistrySnapshot ::
  "(registry_scope \<Rightarrow> string \<Rightarrow> string \<Rightarrow> registry_exn + string) \<Rightarrow> snapshot \<Rightarrow> registry_exn + signed_snapshot" where
  "signRegistrySnapshot signer s =
     bindE (parseUnsignedRegistrySnapshot (JObj (snapshot_entries s))) (\<lambda>parsed.
     bindE (registrySnapshotSigningPayload parsed) (\<lambda>payload.
     bindE (signer \<lparr>rs_tenantId = sn_tenantId parsed, rs_jurisdiction = sn_jurisdiction parsed\<rparr>
              (sn_signingKeyId parsed) payload) (\<lambda>sig.
     parseSignedRegistrySnapshot (JObj (snapshot_entries parsed @ [(''signature'', JStr sig)])))))"

definition parseScope :: "registry_scope \<Rightarrow> registry_exn + registry_scope" where
  "parseScope c = bindE (scopeString (JStr (rs_tenantId c))) (\<lambda>t.
     bindE (scopeString (JStr (rs_jurisdiction c))) (\<lambda>j. Inr \<lparr>rs_tenantId = t, rs_jurisdiction = j\<rparr>))"

text \<open>The verifier port: scope, key, payload, signature.\<close>

type_synonym snapshot_verifier = "registry_scope \<Rightarrow> string \<Rightarrow> string \<Rightarrow> string \<Rightarrow> registry_exn + bool"

definition in_scope :: "('a snapshot_scheme) \<Rightarrow> registry_scope \<Rightarrow> bool" where
  "in_scope s c \<longleftrightarrow> sn_tenantId s = rs_tenantId c \<and> sn_jurisdiction s = rs_jurisdiction c"

definition verifyRegistrySnapshot ::
  "snapshot_verifier \<Rightarrow> jsval \<Rightarrow> registry_scope \<Rightarrow> registry_exn + signed_snapshot" where
  "verifyRegistrySnapshot verifier v c =
     bindE (parseSignedRegistrySnapshot v) (\<lambda>s.
     bindE (parseScope c) (\<lambda>expected.
     if \<not> in_scope s expected then Inl (Registry_error SNAPSHOT_SCOPE_MISMATCH) else
     bindE (registrySnapshotSigningPayload (unsigned s)) (\<lambda>payload.
     bindE (verifier expected (sn_signingKeyId s) payload (sn_signature s)) (\<lambda>ok.
     if \<not> ok then Inl (Registry_error SNAPSHOT_SIGNATURE_INVALID) else Inr s))))"

section \<open>Evaluation of a snapshot\<close>

definition evidence :: "decision_kind \<Rightarrow> string \<Rightarrow> signed_snapshot option \<Rightarrow> registry_decision" where
  "evidence d c s = \<lparr>rd_decision = d, rd_code = c,
     rd_snapshot = map_option (\<lambda>x. (sn_snapshotId x, sn_expiresAt x)) s\<rparr>"

text \<open>
  A snapshot is refused when \<open>issuedAt > now || expiresAt <= now\<close>, and one that is held is
  served when \<open>issuedAt <= now && now < expiresAt\<close>; the two differ when \<open>now\<close> is NaN.
\<close>

definition fresh_at :: "js_number \<Rightarrow> ('a snapshot_scheme) \<Rightarrow> bool" where
  "fresh_at now s \<longleftrightarrow> \<not> (js_less now (Whole (sn_issuedAt s)) \<or> js_le (Whole (sn_expiresAt s)) now)"

definition current_at :: "js_number \<Rightarrow> ('a snapshot_scheme) \<Rightarrow> bool" where
  "current_at now s \<longleftrightarrow> js_le (Whole (sn_issuedAt s)) now \<and> js_less now (Whole (sn_expiresAt s))"

record trust_request =
  tr_scope :: registry_scope
  tr_issuerId :: string
  tr_schemaId :: string
  tr_keyId :: string
  tr_issuedAt :: int
  tr_statusId :: string

definition evaluateTrustSnapshot :: "signed_snapshot \<Rightarrow> trust_request \<Rightarrow> js_number \<Rightarrow> registry_decision" where
  "evaluateTrustSnapshot s rq now =
     (if \<not> in_scope s (tr_scope rq) then evidence Indeterminate ''SNAPSHOT_INVALID'' None
      else if \<not> fresh_at now s then evidence Indeterminate ''SNAPSHOT_STALE'' (Some s)
      else case find (\<lambda>x. ia_issuerId x = tr_issuerId rq) (sn_issuers s) of
        None \<Rightarrow> evidence Indeterminate ''ISSUER_UNKNOWN'' (Some s)
      | Some issuer \<Rightarrow>
          if ia_status issuer = ''suspended'' then evidence Rejected ''ISSUER_SUSPENDED'' (Some s)
          else if ia_status issuer = ''revoked'' then evidence Rejected ''ISSUER_REVOKED'' (Some s)
          else case find (\<lambda>x. sa_schemaId x = tr_schemaId rq) (ia_schemas issuer) of
            None \<Rightarrow> evidence Indeterminate ''SCHEMA_UNKNOWN'' (Some s)
          | Some schema \<Rightarrow>
              if sa_status schema = ''suspended'' then evidence Rejected ''SCHEMA_SUSPENDED'' (Some s)
              else if sa_status schema = ''revoked'' then evidence Rejected ''SCHEMA_REVOKED'' (Some s)
              else case find (\<lambda>x. ka_keyId x = tr_keyId rq) (ia_keys issuer) of
                None \<Rightarrow> evidence Indeterminate ''KEY_UNKNOWN'' (Some s)
              | Some key \<Rightarrow>
                  if ka_status key = ''revoked'' then evidence Rejected ''KEY_REVOKED'' (Some s)
                  else if \<not> safe_integer (tr_issuedAt rq) \<or> tr_issuedAt rq < ka_authorizedFrom key
                      \<or> (case ka_authorizedUntil key of None \<Rightarrow> False | Some n \<Rightarrow> n \<le> tr_issuedAt rq)
                  then evidence Rejected ''KEY_NOT_AUTHORIZED_AT_ISSUANCE'' (Some s)
                  else evidence Verified ''TRUST_VERIFIED'' (Some s))"

definition evaluateStatusSnapshot :: "signed_snapshot \<Rightarrow> trust_request \<Rightarrow> js_number \<Rightarrow> registry_decision" where
  "evaluateStatusSnapshot s rq now =
     (if \<not> in_scope s (tr_scope rq) then evidence Indeterminate ''SNAPSHOT_INVALID'' None
      else if \<not> fresh_at now s then evidence Indeterminate ''SNAPSHOT_STALE'' (Some s)
      else case find (\<lambda>x. ia_issuerId x = tr_issuerId rq) (sn_issuers s) of
        None \<Rightarrow> evidence Indeterminate ''ISSUER_UNKNOWN'' (Some s)
      | Some issuer \<Rightarrow>
          if ia_status issuer = ''suspended'' then evidence Rejected ''ISSUER_SUSPENDED'' (Some s)
          else if ia_status issuer = ''revoked'' then evidence Rejected ''ISSUER_REVOKED'' (Some s)
          else case find (\<lambda>x. ce_issuerId x = tr_issuerId rq \<and> ce_statusId x = tr_statusId rq) (sn_statuses s) of
            None \<Rightarrow> evidence Indeterminate ''STATUS_UNKNOWN'' (Some s)
          | Some status \<Rightarrow>
              if ce_status status = ''suspended'' then evidence Rejected ''CREDENTIAL_SUSPENDED'' (Some s)
              else if ce_status status = ''revoked'' then evidence Rejected ''CREDENTIAL_REVOKED'' (Some s)
              else evidence Verified ''STATUS_VALID'' (Some s))"

section \<open>The cache\<close>

record 'w registry_cache =
  rg_entries :: "string \<rightharpoonup> signed_snapshot"
  rg_source :: 'w

type_synonym 'w snapshot_source = "registry_scope \<Rightarrow> ('w, registry_exn, jsval) meth"

definition scopeKey :: "registry_scope \<Rightarrow> string" where
  "scopeKey c = nul_join (rs_tenantId c) (rs_jurisdiction c)"

definition store_snapshot :: "signed_snapshot \<Rightarrow> registry_scope \<Rightarrow> ('w registry_cache, registry_exn, unit) meth" where
  "store_snapshot s c w = (let put = (Inr (), w\<lparr>rg_entries := (rg_entries w)(scopeKey c \<mapsto> s)\<rparr>) in
     case rg_entries w (scopeKey c) of
       None \<Rightarrow> put
     | Some previous \<Rightarrow>
         if sn_sequence s < sn_sequence previous then (Inl (Registry_error SNAPSHOT_ROLLBACK), w)
         else if sn_sequence s = sn_sequence previous
             \<and> (sn_snapshotId s \<noteq> sn_snapshotId previous \<or> sn_signature s \<noteq> sn_signature previous)
         then (Inl (Registry_error SNAPSHOT_ROLLBACK), w)
         else put)"

definition prime :: "snapshot_verifier \<Rightarrow> jsval \<Rightarrow> js_number \<Rightarrow> ('w registry_cache, registry_exn, signed_snapshot) meth" where
  "prime verifier v now =
     bindS (pureS (parseSignedRegistrySnapshot v)) (\<lambda>u.
     let c = \<lparr>rs_tenantId = sn_tenantId u, rs_jurisdiction = sn_jurisdiction u\<rparr> in
     bindS (pureS (verifyRegistrySnapshot verifier v c)) (\<lambda>s.
     if \<not> fresh_at now s then throwS (Registry_error SNAPSHOT_STALE)
     else bindS (store_snapshot s c) (\<lambda>_. returnS s)))"

definition invalidate :: "registry_scope \<Rightarrow> ('w registry_cache, registry_exn, unit) meth" where
  "invalidate c = bindS (pureS (parseScope c)) (\<lambda>p w.
     (Inr (), w\<lparr>rg_entries := (rg_entries w)(scopeKey p := None)\<rparr>))"

definition load_source :: "'w snapshot_source \<Rightarrow> registry_scope \<Rightarrow> ('w registry_cache, registry_exn, jsval) meth" where
  "load_source src c w = (case src c (rg_source w) of (r, x) \<Rightarrow> (r, w\<lparr>rg_source := x\<rparr>))"

definition fetch :: "'w snapshot_source \<Rightarrow> snapshot_verifier \<Rightarrow> registry_scope \<Rightarrow> js_number \<Rightarrow> signed_snapshot option
    \<Rightarrow> 'w registry_cache \<Rightarrow> (registry_decision + signed_snapshot) \<times> 'w registry_cache" where
  "fetch src verifier c now stale w = (case load_source src c w of
       (Inl _, w1) \<Rightarrow> (Inl (evidence Indeterminate ''REGISTRY_UNAVAILABLE'' stale), w1)
     | (Inr v, w1) \<Rightarrow>
         if v = JUndef \<or> v = JNull then (Inl (evidence Indeterminate ''SNAPSHOT_MISSING'' stale), w1)
         else (case verifyRegistrySnapshot verifier v c of
             Inl _ \<Rightarrow> (Inl (evidence Indeterminate ''SNAPSHOT_INVALID'' stale), w1)
           | Inr s \<Rightarrow>
               if \<not> fresh_at now s then (Inl (evidence Indeterminate ''SNAPSHOT_STALE'' (Some s)), w1)
               else (case store_snapshot s c w1 of
                   (Inl _, w2) \<Rightarrow> (Inl (evidence Indeterminate ''SNAPSHOT_INVALID'' stale), w2)
                 | (Inr _, w2) \<Rightarrow> (Inr s, w2))))"

definition resolve :: "'w snapshot_source \<Rightarrow> snapshot_verifier \<Rightarrow> registry_scope \<Rightarrow> js_number
    \<Rightarrow> ('w registry_cache, registry_exn, registry_decision + signed_snapshot) meth" where
  "resolve src verifier c now = bindS (pureS (parseScope c)) (\<lambda>p w.
     let cached = rg_entries w (scopeKey p) in
     case cached of
       Some s \<Rightarrow> if current_at now s then (Inr (Inr s), w)
         else (case fetch src verifier p now cached w of (r, w') \<Rightarrow> (Inr r, w'))
     | None \<Rightarrow> (case fetch src verifier p now cached w of (r, w') \<Rightarrow> (Inr r, w')))"

definition refresh :: "'w snapshot_source \<Rightarrow> snapshot_verifier \<Rightarrow> registry_scope \<Rightarrow> js_number
    \<Rightarrow> ('w registry_cache, registry_exn, registry_decision) meth" where
  "refresh src verifier c now = bindS (pureS (parseScope c)) (\<lambda>p w.
     case fetch src verifier p now None w of
       (Inr s, w') \<Rightarrow> (Inr (evidence Verified ''SNAPSHOT_FRESH'' (Some s)), w')
     | (Inl d, w') \<Rightarrow> (Inr d, w'))"

definition evaluateTrust where
  "evaluateTrust src verifier rq now = bindS (resolve src verifier (tr_scope rq) now) (\<lambda>r.
     returnS (case r of Inl d \<Rightarrow> d | Inr s \<Rightarrow> evaluateTrustSnapshot s rq now))"

definition evaluateStatus where
  "evaluateStatus src verifier rq now = bindS (resolve src verifier (tr_scope rq) now) (\<lambda>r.
     returnS (case r of Inl d \<Rightarrow> d | Inr s \<Rightarrow> evaluateStatusSnapshot s rq now))"

definition evaluateCredential :: "'w snapshot_source \<Rightarrow> snapshot_verifier \<Rightarrow> trust_request \<Rightarrow> js_number
    \<Rightarrow> ('w registry_cache, registry_exn, registry_decision) meth" where
  "evaluateCredential src verifier rq now = bindS (resolve src verifier (tr_scope rq) now) (\<lambda>r.
     returnS (case r of Inl d \<Rightarrow> d | Inr s \<Rightarrow>
       let trust = evaluateTrustSnapshot s rq now in
       if rd_decision trust \<noteq> Verified then trust
       else let status = evaluateStatusSnapshot s rq now in
         if rd_decision status \<noteq> Verified then status
         else evidence Verified ''CREDENTIAL_VERIFIED'' (Some s)))"

end
