(* ===== verification/TrustRegistryProps.thy ===== *)
theory TrustRegistryProps
  imports TrustRegistry
begin

text \<open>
  What the signed trust registry promises: parsed snapshots are well formed and exactly
  the lawful ones are read back, a positive decision rests on an attested, fresh snapshot of the right scope, the
  cache never goes back to an older sequence number unless it is invalidated, and scopes do
  not influence each other.
\<close>

section \<open>What is parsed\<close>

lemmas parser_defs = invalid_def exactKeys_def safeString_def scopeString_def integer_def one_of_def jlist_def unique_def

lemma safeString_Inr: "safeString m v = Inr s \<longleftrightarrow> v = JStr s \<and> safe_text m s"
  by (auto simp: parser_defs split: jsval.splits if_splits)

lemma scopeString_Inr: "scopeString v = Inr s \<longleftrightarrow> v = JStr s \<and> safe_text 128 s \<and> opaque_id s"
  by (auto simp: scopeString_def safeString_Inr invalid_def result_simps split: if_splits)

lemma integer_Inr: "integer m v = Inr n \<longleftrightarrow> v = JInt n \<and> safe_integer n \<and> m \<le> n"
  by (auto simp: parser_defs split: jsval.splits if_splits)

lemma one_of_Inr: "one_of as v = Inr s \<longleftrightarrow> v = JStr s \<and> s \<in> set as"
  by (auto simp: parser_defs split: jsval.splits if_splits)

lemma jlist_Inr: "jlist m v = Inr vs \<longleftrightarrow> v = JArr vs \<and> int (length vs) \<le> m"
  by (auto simp: parser_defs split: jsval.splits if_splits)

lemma unique_Inr: "unique xs = Inr u \<longleftrightarrow> distinct xs"
  by (simp add: unique_def invalid_def)

lemma object_Inr: "object v = Inr es \<longleftrightarrow> v = JObj es"
  by (auto simp: object_def invalid_def split: jsval.splits)

lemma exactKeys_Inr: "exactKeys es r p = Inr u \<longleftrightarrow> exact_keys es r p"
  by (simp add: exactKeys_def invalid_def)

lemma invalid_not_Inr [simp]: "invalid \<noteq> Inr x"
  by (simp add: invalid_def)

lemmas parser_Inr = safeString_Inr scopeString_Inr integer_Inr one_of_Inr jlist_Inr unique_Inr object_Inr exactKeys_Inr

definition schema_wf :: "schema_auth \<Rightarrow> bool" where
  "schema_wf x \<longleftrightarrow> safe_text 512 (sa_schemaId x) \<and> sa_status x \<in> {''active'', ''suspended'', ''revoked''}"

definition key_wf :: "key_auth \<Rightarrow> bool" where
  "key_wf x \<longleftrightarrow> safe_text 512 (ka_keyId x) \<and> ka_status x \<in> {''active'', ''retired'', ''revoked''}
     \<and> safe_integer (ka_authorizedFrom x) \<and> 0 \<le> ka_authorizedFrom x
     \<and> (\<forall>n. ka_authorizedUntil x = Some n \<longrightarrow> safe_integer n \<and> ka_authorizedFrom x < n)
     \<and> (ka_status x = ''retired'' \<longrightarrow> ka_authorizedUntil x \<noteq> None)"

definition issuer_wf :: "issuer_auth \<Rightarrow> bool" where
  "issuer_wf x \<longleftrightarrow> safe_text 512 (ia_issuerId x) \<and> ia_status x \<in> {''active'', ''suspended'', ''revoked''}
     \<and> (\<forall>y\<in>set (ia_schemas x). schema_wf y) \<and> (\<forall>y\<in>set (ia_keys x). key_wf y)
     \<and> (\<forall>m\<in>set (ia_trustMarks x). safe_text 128 m)
     \<and> int (length (ia_schemas x)) \<le> 10000 \<and> int (length (ia_keys x)) \<le> 10000
     \<and> int (length (ia_trustMarks x)) \<le> 128
     \<and> distinct (map sa_schemaId (ia_schemas x)) \<and> distinct (map ka_keyId (ia_keys x))
     \<and> distinct (ia_trustMarks x)"

definition rotation_wf :: "key_rotation \<Rightarrow> bool" where
  "rotation_wf x \<longleftrightarrow> safe_text 512 (kr_issuerId x) \<and> safe_text 512 (kr_previousKeyId x)
     \<and> safe_text 512 (kr_newKeyId x) \<and> kr_previousKeyId x \<noteq> kr_newKeyId x
     \<and> safe_integer (kr_rotatedAt x) \<and> 0 \<le> kr_rotatedAt x"

definition status_wf :: "status_entry \<Rightarrow> bool" where
  "status_wf x \<longleftrightarrow> safe_text 512 (ce_issuerId x) \<and> safe_text 128 (ce_statusId x) \<and> opaque_id (ce_statusId x)
     \<and> ce_status x \<in> {''valid'', ''suspended'', ''revoked''} \<and> safe_integer (ce_updatedAt x) \<and> 0 \<le> ce_updatedAt x"

definition snapshot_wf :: "snapshot \<Rightarrow> bool" where
  "snapshot_wf s \<longleftrightarrow> safe_text 128 (sn_snapshotId s) \<and> opaque_id (sn_snapshotId s)
     \<and> safe_text 128 (sn_tenantId s) \<and> opaque_id (sn_tenantId s)
     \<and> safe_text 128 (sn_jurisdiction s) \<and> opaque_id (sn_jurisdiction s)
     \<and> safe_integer (sn_sequence s) \<and> 1 \<le> sn_sequence s
     \<and> safe_integer (sn_issuedAt s) \<and> 0 \<le> sn_issuedAt s \<and> safe_integer (sn_expiresAt s)
     \<and> sn_issuedAt s < sn_expiresAt s \<and> safe_text 256 (sn_signingKeyId s)
     \<and> (\<forall>x\<in>set (sn_issuers s). issuer_wf x) \<and> (\<forall>x\<in>set (sn_rotations s). rotation_wf x)
     \<and> (\<forall>x\<in>set (sn_statuses s). status_wf x)
     \<and> int (length (sn_issuers s)) \<le> 10000 \<and> int (length (sn_rotations s)) \<le> 10000
     \<and> int (length (sn_statuses s)) \<le> 10000
     \<and> distinct (map ia_issuerId (sn_issuers s)) \<and> distinct (map rotation_key (sn_rotations s))
     \<and> distinct (map predecessor_key (sn_rotations s)) \<and> distinct (map successor_key (sn_rotations s))
     \<and> distinct (map status_key (sn_statuses s))
     \<and> (\<forall>r\<in>set (sn_rotations s). rotation_fits s r) \<and> (\<forall>e\<in>set (sn_statuses s). status_fits s e)"

lemma parseSchema_wf: "parseSchema v = Inr x \<Longrightarrow> schema_wf x"
  by (auto simp: parseSchema_def schema_wf_def result_simps parser_Inr)

lemma parseKey_wf: "parseKey v = Inr x \<Longrightarrow> key_wf x"
  by (auto simp: parseKey_def key_wf_def result_simps parser_Inr split: if_splits option.splits)

lemma parseRotation_wf: "parseRotation v = Inr x \<Longrightarrow> rotation_wf x"
  by (auto simp: parseRotation_def rotation_wf_def result_simps parser_Inr split: if_splits)

lemma parseStatus_wf: "parseStatus v = Inr x \<Longrightarrow> status_wf x"
  by (auto simp: parseStatus_def status_wf_def result_simps parser_Inr)

lemma mapE_all:
  assumes "mapE f vs = Inr xs" "\<And>v x. f v = Inr x \<Longrightarrow> P x"
  shows "\<forall>x\<in>set xs. P x"
  using mapE_in_range [OF assms(1)] assms(2) by blast

definition parse_list :: "int \<Rightarrow> (jsval \<Rightarrow> registry_exn + 'a) \<Rightarrow> jsval \<Rightarrow> registry_exn + 'a list" where
  "parse_list m f v = bindE (jlist m v) (mapE f)"

lemma parse_list_wf:
  assumes "parse_list m f v = Inr xs" "\<And>v x. f v = Inr x \<Longrightarrow> P x"
  shows "(\<forall>x\<in>set xs. P x) \<and> int (length xs) \<le> m"
proof -
  obtain vs where "jlist m v = Inr vs" and xs: "mapE f vs = Inr xs"
    using assms(1) unfolding parse_list_def bindE_Inr by blast
  then have "int (length vs) \<le> m" by (simp add: jlist_Inr)
  with mapE_length [OF xs] mapE_all [OF xs assms(2)] show ?thesis by simp
qed

lemma parseIssuer_wf:
  assumes "parseIssuer v = Inr x"
  shows "issuer_wf x"
proof -
  obtain i where s: "parse_list 10000 parseSchema (jfield i ''schemas'') = Inr (ia_schemas x)"
    and k: "parse_list 10000 parseKey (jfield i ''keys'') = Inr (ia_keys x)"
    and m: "parse_list 128 (safeString 128) (jfield i ''trustMarks'') = Inr (ia_trustMarks x)"
    and r: "distinct (map sa_schemaId (ia_schemas x))" "distinct (map ka_keyId (ia_keys x))" "distinct (ia_trustMarks x)"
      "safe_text 512 (ia_issuerId x)" "ia_status x \<in> {''active'', ''suspended'', ''revoked''}"
    using assms by (auto simp: parseIssuer_def [folded parse_list_def] bindE_Inr parser_Inr)
  have t: "safeString 128 v = Inr t \<Longrightarrow> safe_text 128 t" for v t by (simp add: safeString_Inr)
  show ?thesis
    using parse_list_wf [OF s, of schema_wf] parse_list_wf [OF k, of key_wf] parse_list_wf [OF m, of "safe_text 128"]
      parseSchema_wf parseKey_wf t r
    unfolding issuer_wf_def by blast
qed

lemma validateRelations_Inr:
  "validateRelations s = Inr u \<longleftrightarrow> (\<forall>r\<in>set (sn_rotations s). rotation_fits s r) \<and> (\<forall>e\<in>set (sn_statuses s). status_fits s e)"
  by (auto simp: validateRelations_def result_simps split: if_splits)

lemma parseUnsigned_wf:
  assumes "parseUnsigned v = Inr s"
  shows "snapshot_wf s"
proof -
  have i: "parse_list 10000 parseIssuer (jfield v ''issuers'') = Inr (sn_issuers s)"
    and r: "parse_list 10000 parseRotation (jfield v ''rotations'') = Inr (sn_rotations s)"
    and e: "parse_list 10000 parseStatus (jfield v ''statuses'') = Inr (sn_statuses s)"
    and c: "safe_text 128 (sn_snapshotId s) \<and> opaque_id (sn_snapshotId s)
     \<and> safe_text 128 (sn_tenantId s) \<and> opaque_id (sn_tenantId s)
     \<and> safe_text 128 (sn_jurisdiction s) \<and> opaque_id (sn_jurisdiction s)
     \<and> safe_integer (sn_sequence s) \<and> 1 \<le> sn_sequence s
     \<and> safe_integer (sn_issuedAt s) \<and> 0 \<le> sn_issuedAt s \<and> safe_integer (sn_expiresAt s)
     \<and> sn_issuedAt s < sn_expiresAt s \<and> safe_text 256 (sn_signingKeyId s)
     \<and> distinct (map ia_issuerId (sn_issuers s)) \<and> distinct (map rotation_key (sn_rotations s))
     \<and> distinct (map predecessor_key (sn_rotations s)) \<and> distinct (map successor_key (sn_rotations s))
     \<and> distinct (map status_key (sn_statuses s)) \<and> validateRelations s = Inr ()"
    using assms unfolding parseUnsigned_def [folded parse_list_def]
    by (auto simp: bindE_Inr parser_Inr Let_def split: if_splits)
  show ?thesis
    using parse_list_wf [OF i, of issuer_wf] parse_list_wf [OF r, of rotation_wf] parse_list_wf [OF e, of status_wf]
      parseIssuer_wf parseRotation_wf parseStatus_wf c validateRelations_Inr [of s "()"]
    unfolding snapshot_wf_def by blast
qed

section \<open>Round trip\<close>

lemma exact_keys_self: "map fst es = ks \<Longrightarrow> exact_keys es ks []"
  by (auto simp: exact_keys_def own_def list_all_iff)

lemma parse_schema_js: "schema_wf x \<Longrightarrow> parseSchema (schema_js x) = Inr x"
  by (simp add: parseSchema_def schema_js_def object_def exactKeys_def exact_keys_self schema_wf_def
      safeString_def one_of_def)

lemma parse_key_js: "key_wf x \<Longrightarrow> parseKey (key_js x) = Inr x"
  by (cases "ka_authorizedUntil x")
    (auto simp: parseKey_def key_js_def object_def exactKeys_def exact_keys_def key_wf_def
      safeString_def one_of_def integer_def)

lemma parse_rotation_js: "rotation_wf x \<Longrightarrow> parseRotation (rotation_js x) = Inr x"
  by (simp add: parseRotation_def rotation_js_def object_def exactKeys_def exact_keys_self rotation_wf_def
      safeString_def integer_def)

lemma parse_status_js: "status_wf x \<Longrightarrow> parseStatus (status_js x) = Inr x"
  by (simp add: parseStatus_def status_js_def object_def exactKeys_def exact_keys_self status_wf_def
      safeString_def scopeString_def integer_def one_of_def)

lemma parse_list_js:
  assumes "\<forall>x\<in>set xs. f (g x) = Inr x" "int (length xs) \<le> m"
  shows "bindE (jlist m (JArr (map g xs))) (mapE f) = Inr xs"
  using mapE_inverse [of xs f g] assms by (simp add: jlist_def)

lemma parse_issuer_js:
  assumes "issuer_wf x"
  shows "parseIssuer (issuer_js x) = Inr x"
proof -
  have "bindE (jlist 10000 (JArr (map schema_js (ia_schemas x)))) (mapE parseSchema) = Inr (ia_schemas x)"
    "bindE (jlist 10000 (JArr (map key_js (ia_keys x)))) (mapE parseKey) = Inr (ia_keys x)"
    "bindE (jlist 128 (JArr (map JStr (ia_trustMarks x)))) (mapE (safeString 128)) = Inr (ia_trustMarks x)"
    using assms parse_schema_js parse_key_js
    by (auto intro!: parse_list_js simp: issuer_wf_def safeString_def)
  with assms show ?thesis
    by (simp add: parseIssuer_def issuer_js_def object_def exactKeys_def exact_keys_self issuer_wf_def
        safeString_def one_of_def unique_def)
qed

lemma snapshot_eta:
  "\<lparr>sn_snapshotId = sn_snapshotId s, sn_tenantId = sn_tenantId s, sn_jurisdiction = sn_jurisdiction s,
     sn_sequence = sn_sequence s, sn_issuedAt = sn_issuedAt s, sn_expiresAt = sn_expiresAt s,
     sn_signingKeyId = sn_signingKeyId s, sn_issuers = sn_issuers s, sn_rotations = sn_rotations s,
     sn_statuses = sn_statuses s\<rparr> = (s :: snapshot)"
  by simp

lemma parse_snapshot_js:
  assumes "snapshot_wf s"
  shows "parseUnsigned (snapshot_entries s) = Inr s"
proof -
  have "bindE (jlist 10000 (JArr (map issuer_js (sn_issuers s)))) (mapE parseIssuer) = Inr (sn_issuers s)"
    "bindE (jlist 10000 (JArr (map rotation_js (sn_rotations s)))) (mapE parseRotation) = Inr (sn_rotations s)"
    "bindE (jlist 10000 (JArr (map status_js (sn_statuses s)))) (mapE parseStatus) = Inr (sn_statuses s)"
    using assms parse_issuer_js parse_rotation_js parse_status_js
    by (auto intro!: parse_list_js simp: snapshot_wf_def)
  moreover have "exact_keys (snapshot_entries s) unsigned_keys []"
    by (rule exact_keys_self) (simp add: snapshot_entries_def unsigned_keys_def)
  moreover have "validateRelations s = Inr ()" using assms by (simp add: validateRelations_Inr snapshot_wf_def)
  ultimately show ?thesis
    using assms
    by (simp add: parseUnsigned_def exactKeys_def snapshot_wf_def snapshot_entries_def scopeString_def
        safeString_def integer_def unique_def Let_def snapshot_eta)
qed

text \<open>
  What a snapshot must be, said without the validator: texts, integers and lists within their
  bounds; no issuer, schema, key or trust mark twice; a status entry is of a listed issuer, not
  newer than the snapshot and unique for its issuer and id; a rotation leads from one key of a
  listed issuer, retired exactly at the time of the rotation, to a key authorised from that
  time, which is not after the snapshot, and no key is left or entered by two rotations.
\<close>

definition rotation_lawful :: "snapshot \<Rightarrow> key_rotation \<Rightarrow> bool" where
  "rotation_lawful s r \<longleftrightarrow> kr_rotatedAt r \<le> sn_issuedAt s \<and> (\<exists>issuer\<in>set (sn_issuers s). ia_issuerId issuer = kr_issuerId r
     \<and> (\<exists>k\<in>set (ia_keys issuer). ka_keyId k = kr_previousKeyId r \<and> ka_status k = ''retired''
          \<and> ka_authorizedUntil k = Some (kr_rotatedAt r))
     \<and> (\<exists>k\<in>set (ia_keys issuer). ka_keyId k = kr_newKeyId r \<and> ka_authorizedFrom k = kr_rotatedAt r))"

definition snapshot_lawful :: "snapshot \<Rightarrow> bool" where
  "snapshot_lawful s \<longleftrightarrow> safe_text 128 (sn_snapshotId s) \<and> opaque_id (sn_snapshotId s)
     \<and> safe_text 128 (sn_tenantId s) \<and> opaque_id (sn_tenantId s)
     \<and> safe_text 128 (sn_jurisdiction s) \<and> opaque_id (sn_jurisdiction s)
     \<and> safe_integer (sn_sequence s) \<and> 1 \<le> sn_sequence s
     \<and> 0 \<le> sn_issuedAt s \<and> sn_issuedAt s < sn_expiresAt s \<and> safe_integer (sn_expiresAt s)
     \<and> safe_text 256 (sn_signingKeyId s)
     \<and> (\<forall>x\<in>set (sn_issuers s). issuer_wf x) \<and> (\<forall>x\<in>set (sn_rotations s). rotation_wf x)
     \<and> (\<forall>x\<in>set (sn_statuses s). status_wf x)
     \<and> length (sn_issuers s) \<le> 10000 \<and> length (sn_rotations s) \<le> 10000 \<and> length (sn_statuses s) \<le> 10000
     \<and> distinct (map ia_issuerId (sn_issuers s))
     \<and> distinct (map (\<lambda>r. (kr_issuerId r, kr_previousKeyId r)) (sn_rotations s))
     \<and> distinct (map (\<lambda>r. (kr_issuerId r, kr_newKeyId r)) (sn_rotations s))
     \<and> distinct (map (\<lambda>e. (ce_issuerId e, ce_statusId e)) (sn_statuses s))
     \<and> (\<forall>r\<in>set (sn_rotations s). rotation_lawful s r)
     \<and> (\<forall>e\<in>set (sn_statuses s). ce_updatedAt e \<le> sn_issuedAt s
          \<and> (\<exists>issuer\<in>set (sn_issuers s). ia_issuerId issuer = ce_issuerId e))"

lemma find_by_key:
  assumes "distinct (map f xs)"
  shows "find (\<lambda>x. f x = a) xs = Some y \<longleftrightarrow> y \<in> set xs \<and> f y = a"
  using assms by (induction xs) (auto simp: rev_image_eqI)

lemma issuer_of_Some:
  assumes "distinct (map ia_issuerId (sn_issuers s))"
  shows "issuer_of s i = Some x \<longleftrightarrow> x \<in> set (sn_issuers s) \<and> ia_issuerId x = i"
proof -
  have "distinct (map fst (rev (map (\<lambda>x. (ia_issuerId x, x)) (sn_issuers s))))"
    using assms by (simp add: rev_map [symmetric] o_def)
  then show ?thesis unfolding issuer_of_def by (subst map_of_eq_Some_iff) auto
qed

lemma rotation_fits_lawful:
  assumes "distinct (map ia_issuerId (sn_issuers s))" "\<forall>x\<in>set (sn_issuers s). distinct (map ka_keyId (ia_keys x))"
  shows "rotation_fits s r \<longleftrightarrow> rotation_lawful s r"
proof (cases "issuer_of s (kr_issuerId r)")
  case None
  then have "\<not> (\<exists>x\<in>set (sn_issuers s). ia_issuerId x = kr_issuerId r)"
    using issuer_of_Some [OF assms(1), of "kr_issuerId r"] by fastforce
  with None show ?thesis by (auto simp: rotation_fits_def rotation_lawful_def)
next
  case (Some x)
  then have x: "x \<in> set (sn_issuers s)" "ia_issuerId x = kr_issuerId r" using issuer_of_Some [OF assms(1)] by auto
  have only: "y = x" if "y \<in> set (sn_issuers s)" "ia_issuerId y = kr_issuerId r" for y
    using that Some issuer_of_Some [OF assms(1), of "kr_issuerId r" y] by simp
  note f = find_by_key [of ka_keyId "ia_keys x", OF bspec [OF assms(2) x(1)]]
  have "rotation_fits s r \<longleftrightarrow> (\<exists>k l. find (\<lambda>k. ka_keyId k = kr_previousKeyId r) (ia_keys x) = Some k
      \<and> find (\<lambda>k. ka_keyId k = kr_newKeyId r) (ia_keys x) = Some l \<and> ka_status k = ''retired''
      \<and> ka_authorizedUntil k = Some (kr_rotatedAt r) \<and> ka_authorizedFrom l = kr_rotatedAt r \<and> kr_rotatedAt r \<le> sn_issuedAt s)"
    by (auto simp: rotation_fits_def Some split: option.splits)
  also have "\<dots> \<longleftrightarrow> rotation_lawful s r"
    unfolding f rotation_lawful_def using x only by blast
  finally show ?thesis .
qed

lemma no_nul: "safe_text m t \<Longrightarrow> NUL \<notin> set t"
  by (auto simp: safe_text_def list_ex_iff)

lemma rotation_keys_distinct:
  assumes "\<forall>x\<in>set rs. rotation_wf x"
  shows "distinct (map predecessor_key rs) \<longleftrightarrow> distinct (map (\<lambda>r. (kr_issuerId r, kr_previousKeyId r)) rs)"
    and "distinct (map successor_key rs) \<longleftrightarrow> distinct (map (\<lambda>r. (kr_issuerId r, kr_newKeyId r)) rs)"
    and "distinct (map predecessor_key rs) \<Longrightarrow> distinct (map rotation_key rs)"
proof -
  have n: "NUL \<notin> set (kr_issuerId x)" "NUL \<notin> set (kr_previousKeyId x)" "NUL \<notin> set (kr_newKeyId x)" if "x \<in> set rs" for x
    using assms that no_nul unfolding rotation_wf_def by blast+
  have l: "NUL \<notin> set ''previous''" "NUL \<notin> set ''next''" by simp_all
  have 1: "predecessor_key x = predecessor_key y \<longleftrightarrow> kr_issuerId x = kr_issuerId y \<and> kr_previousKeyId x = kr_previousKeyId y"
    if "x \<in> set rs" "y \<in> set rs" for x y
    unfolding predecessor_key_def nul_join_inject [OF n(1) n(1), OF that] nul_join_inject [OF l(1) l(1)] by simp
  have 2: "successor_key x = successor_key y \<longleftrightarrow> kr_issuerId x = kr_issuerId y \<and> kr_newKeyId x = kr_newKeyId y"
    if "x \<in> set rs" "y \<in> set rs" for x y
    unfolding successor_key_def nul_join_inject [OF n(1) n(1), OF that] nul_join_inject [OF l(2) l(2)] by simp
  have 3: "rotation_key x = rotation_key y \<Longrightarrow> kr_issuerId x = kr_issuerId y \<and> kr_previousKeyId x = kr_previousKeyId y"
    if "x \<in> set rs" "y \<in> set rs" for x y
    unfolding rotation_key_def nul_join_inject [OF n(1) n(1), OF that] nul_join_inject [OF n(2) n(2), OF that] by simp
  show "distinct (map predecessor_key rs) \<longleftrightarrow> distinct (map (\<lambda>r. (kr_issuerId r, kr_previousKeyId r)) rs)"
    "distinct (map successor_key rs) \<longleftrightarrow> distinct (map (\<lambda>r. (kr_issuerId r, kr_newKeyId r)) rs)"
    "distinct (map predecessor_key rs) \<Longrightarrow> distinct (map rotation_key rs)"
    unfolding distinct_map inj_on_def using 1 2 3 by blast+
qed

lemma status_keys_distinct:
  assumes "\<forall>x\<in>set es. status_wf x"
  shows "distinct (map status_key es) \<longleftrightarrow> distinct (map (\<lambda>e. (ce_issuerId e, ce_statusId e)) es)"
proof -
  have n: "NUL \<notin> set (ce_issuerId x)" if "x \<in> set es" for x
    using assms that no_nul unfolding status_wf_def by blast
  have "status_key x = status_key y \<longleftrightarrow> ce_issuerId x = ce_issuerId y \<and> ce_statusId x = ce_statusId y"
    if "x \<in> set es" "y \<in> set es" for x y
    unfolding status_key_def nul_join_inject [OF n n, OF that] ..
  then show ?thesis unfolding distinct_map inj_on_def by blast
qed

lemma status_fits_lawful:
  assumes "distinct (map ia_issuerId (sn_issuers s))"
  shows "status_fits s e \<longleftrightarrow> ce_updatedAt e \<le> sn_issuedAt s \<and> (\<exists>issuer\<in>set (sn_issuers s). ia_issuerId issuer = ce_issuerId e)"
  unfolding status_fits_def using issuer_of_Some [OF assms, of "ce_issuerId e"] by auto

lemma snapshot_wf_lawful: "snapshot_wf s \<longleftrightarrow> snapshot_lawful s"
proof (cases "distinct (map ia_issuerId (sn_issuers s)) \<and> (\<forall>x\<in>set (sn_issuers s). issuer_wf x)
    \<and> (\<forall>x\<in>set (sn_rotations s). rotation_wf x) \<and> (\<forall>x\<in>set (sn_statuses s). status_wf x)")
  case True
  then have k: "\<forall>x\<in>set (sn_issuers s). distinct (map ka_keyId (ia_keys x))" by (simp add: issuer_wf_def)
  have i: "safe_integer (sn_issuedAt s)" if "0 \<le> sn_issuedAt s" "sn_issuedAt s < sn_expiresAt s" "safe_integer (sn_expiresAt s)"
    using that by (simp add: safe_integer_def)
  note e = rotation_fits_lawful [of s, OF conjunct1 [OF True] k] status_fits_lawful [of s, OF conjunct1 [OF True]]
    rotation_keys_distinct [of "sn_rotations s"] status_keys_distinct [of "sn_statuses s"]
  have n: "(int m \<le> 10000) = (m \<le> 10000)" for m by simp
  show ?thesis unfolding snapshot_wf_def snapshot_lawful_def e(1,2) n using True i e(3-6) by blast
qed (auto simp: snapshot_wf_def snapshot_lawful_def)

lemma parse_iff_wf: "parseUnsignedRegistrySnapshot (JObj (snapshot_entries s)) = Inr s \<longleftrightarrow> snapshot_wf s"
  using parseUnsigned_wf parse_snapshot_js by (auto simp: parseUnsignedRegistrySnapshot_def object_def)

text \<open>
  C36: Every snapshot the parser accepts, from whatever untrusted value, is lawful (its
  fields, bounds, uniqueness, key rotation and status rules stated on the snapshot itself), is
  reproduced when its own object form is parsed, and nothing lawful is refused: the object
  form of a snapshot is parsed back to it exactly when the snapshot is lawful.
\<close>

theorem parsed_snapshot_round_trip:
  "(parseUnsignedRegistrySnapshot v = Inr s \<longrightarrow>
      snapshot_lawful s \<and> parseUnsignedRegistrySnapshot (JObj (snapshot_entries s)) = Inr s)
   \<and> (parseUnsignedRegistrySnapshot (JObj (snapshot_entries s)) = Inr s \<longleftrightarrow> snapshot_lawful s)"
proof -
  have "snapshot_wf s" if "parseUnsignedRegistrySnapshot v = Inr s"
    using that by (auto simp: parseUnsignedRegistrySnapshot_def bindE_Inr intro: parseUnsigned_wf)
  then show ?thesis by (auto simp: parse_iff_wf snapshot_wf_lawful)
qed

section \<open>Verification of a snapshot\<close>

text \<open>The snapshot is well formed, of the scope, and its signature was accepted for its own text.\<close>

definition attested :: "snapshot_verifier \<Rightarrow> registry_scope \<Rightarrow> signed_snapshot \<Rightarrow> bool" where
  "attested verifier c s \<longleftrightarrow> snapshot_wf (unsigned s) \<and> in_scope s c
     \<and> (\<exists>p. registrySnapshotSigningPayload (unsigned s) = Inr p
          \<and> verifier c (sn_signingKeyId s) p (sn_signature s) = Inr True)"

definition scope_wf :: "registry_scope \<Rightarrow> bool" where
  "scope_wf c \<longleftrightarrow> opaque_id (rs_tenantId c) \<and> opaque_id (rs_jurisdiction c)"

lemma parseScope_Inr: "parseScope c = Inr p \<Longrightarrow> p = c \<and> scope_wf c"
  by (auto simp: parseScope_def bindE_Inr scopeString_Inr scope_wf_def)

lemma unsigned_with_signature [simp]: "unsigned (with_signature s g) = s"
  by (cases s) (simp add: unsigned_def with_signature_def snapshot.defs)

lemma parseSigned_wf: "parseSignedRegistrySnapshot v = Inr s \<Longrightarrow> snapshot_wf (unsigned s)"
  by (auto simp: parseSignedRegistrySnapshot_def bindE_Inr intro: parseUnsigned_wf split: if_splits)

lemma verify_sound:
  assumes "verifyRegistrySnapshot verifier v c = Inr s"
  shows "attested verifier c s \<and> scope_wf c"
  using assms parseSigned_wf parseScope_Inr
  unfolding verifyRegistrySnapshot_def attested_def
  by (fastforce simp: bindE_Inr split: if_splits)

section \<open>The cache invariant\<close>

definition cache_ok :: "snapshot_verifier \<Rightarrow> 'w registry_cache \<Rightarrow> bool" where
  "cache_ok verifier w \<longleftrightarrow> (\<forall>k s. rg_entries w k = Some s \<longrightarrow>
     (\<exists>c. k = scopeKey c \<and> scope_wf c \<and> attested verifier c s))"

lemma scopeKey_eq: "scope_wf a \<Longrightarrow> scope_wf b \<Longrightarrow> scopeKey a = scopeKey b \<longleftrightarrow> a = b"
  using nul_key.skey_eq [OF opaque_id_plain_id opaque_id_plain_id]
  by (auto simp: scope_wf_def scopeKey_def)

lemma cached_attested:
  assumes "cache_ok verifier w" "rg_entries w (scopeKey c) = Some s" "scope_wf c"
  shows "attested verifier c s"
  using assms scopeKey_eq unfolding cache_ok_def by blast

lemma store_ok:
  assumes "cache_ok verifier w" "attested verifier c s" "scope_wf c"
  shows "cache_ok verifier (snd (store_snapshot s c w))"
  using assms unfolding cache_ok_def store_snapshot_def
  by (auto simp: Let_def split: option.splits)

lemma load_source_entries: "load_source src c w = (r, w1) \<Longrightarrow> rg_entries w1 = rg_entries w"
  by (auto simp: load_source_def split: prod.splits)

lemma cache_ok_cong: "rg_entries w1 = rg_entries w \<Longrightarrow> cache_ok verifier w1 = cache_ok verifier w"
  by (simp add: cache_ok_def)

lemma fresh_at_Whole: "fresh_at (Whole n) s \<longleftrightarrow> sn_issuedAt s \<le> n \<and> n < sn_expiresAt s"
  by (auto simp: fresh_at_def)

lemma current_fresh: "current_at now s \<Longrightarrow> fresh_at now s"
  by (cases now) (auto simp: fresh_at_def current_at_def)

text \<open>Every outcome of \<open>fetch\<close>: either nothing was stored, or the new snapshot was offered to \<open>store\<close>.\<close>

lemma fetch_cases:
  assumes "fetch src verifier c now stale w = (r, w')"
  obtains (kept) d where "rg_entries w' = rg_entries w" "r = Inl d" "rd_decision d = Indeterminate"
  | (offered) v s w1 where "rg_entries w1 = rg_entries w" "verifyRegistrySnapshot verifier v c = Inr s"
      "fresh_at now s" "w' = snd (store_snapshot s c w1)"
      "r = Inr s \<or> (\<exists>d. r = Inl d \<and> rd_decision d = Indeterminate)"
proof -
  obtain x w1 where l: "load_source src c w = (x, w1)" by (cases "load_source src c w")
  note e = load_source_entries [OF l]
  show thesis
  proof (cases x)
    case (Inl y)
    with assms l e that(1) show thesis by (auto simp: fetch_def evidence_def)
  next
    case (Inr v)
    show thesis
    proof (cases "v = JUndef \<or> v = JNull")
      case True
      with assms l e Inr that(1) show thesis by (auto simp: fetch_def evidence_def)
    next
      case False
      show thesis
      proof (cases "verifyRegistrySnapshot verifier v c")
        case (Inl y)
        with assms l e Inr False that(1) show thesis by (auto simp: fetch_def evidence_def)
      next
        case (Inr s)
        show thesis
        proof (cases "fresh_at now s")
          case True
          have w': "w' = snd (store_snapshot s c w1)"
            "r = Inr s \<or> (\<exists>d. r = Inl d \<and> rd_decision d = Indeterminate)"
            using assms l \<open>x = Inr v\<close> Inr False True
            by (auto simp: fetch_def evidence_def split: prod.splits sum.splits)
          from that(2) [OF e Inr True this] show thesis .
        next
          case notfresh: False
          with assms l e \<open>x = Inr v\<close> Inr False that(1) show thesis by (auto simp: fetch_def evidence_def)
        qed
      qed
    qed
  qed
qed

lemma fetch_ok:
  assumes "fetch src verifier c now stale w = (r, w')" "cache_ok verifier w" "scope_wf c"
  shows "cache_ok verifier w' \<and> (\<forall>s. r = Inr s \<longrightarrow> attested verifier c s \<and> fresh_at now s)"
  using assms(1)
proof (cases rule: fetch_cases)
  case (kept d)
  with assms cache_ok_cong show ?thesis by auto
next
  case (offered v s w1)
  with assms cache_ok_cong verify_sound store_ok show ?thesis by (metis Inl_Inr_False Inr_inject)
qed

lemma resolve_ok:
  assumes "resolve src verifier c now w = (r, w')" "cache_ok verifier w"
  shows "cache_ok verifier w' \<and> (\<forall>s. r = Inr (Inr s) \<longrightarrow> scope_wf c \<and> attested verifier c s \<and> fresh_at now s)"
proof (cases "parseScope c")
  case (Inl e)
  with assms show ?thesis by (auto simp: resolve_def bindS_def)
next
  case (Inr p)
  then have p: "p = c" "scope_wf c" using parseScope_Inr by auto
  show ?thesis
  proof (cases "\<exists>s. rg_entries w (scopeKey c) = Some s \<and> current_at now s")
    case True
    with assms Inr p cached_attested current_fresh show ?thesis by (auto simp: resolve_def bindS_def Let_def)
  next
    case False
    obtain y w2 where f: "fetch src verifier c now (rg_entries w (scopeKey c)) w = (y, w2)" by fastforce
    then have "r = Inr y \<and> w' = w2"
      using False assms(1) Inr p by (auto simp: resolve_def bindS_def Let_def split: option.splits if_splits)
    with fetch_ok [OF f assms(2) p(2)] p show ?thesis by simp
  qed
qed


section \<open>Runs of the registry\<close>

datatype registry_op =
    Prime jsval | Refresh registry_scope | Invalidate registry_scope
  | Trust trust_request | Status trust_request | Credential trust_request

fun registry_apply :: "'w snapshot_source \<Rightarrow> snapshot_verifier \<Rightarrow> registry_op \<times> js_number \<Rightarrow> 'w registry_cache \<Rightarrow> 'w registry_cache" where
  "registry_apply src verifier (Prime v, now) w = snd (prime verifier v now w)"
| "registry_apply src verifier (Refresh c, now) w = snd (refresh src verifier c now w)"
| "registry_apply src verifier (Invalidate c, now) w = snd (invalidate c w)"
| "registry_apply src verifier (Trust rq, now) w = snd (evaluateTrust src verifier rq now w)"
| "registry_apply src verifier (Status rq, now) w = snd (evaluateStatus src verifier rq now w)"
| "registry_apply src verifier (Credential rq, now) w = snd (evaluateCredential src verifier rq now w)"

definition registry_run where
  "registry_run src verifier ops w = fold (registry_apply src verifier) ops w"

definition new_registry :: "'w \<Rightarrow> 'w registry_cache" where
  "new_registry x = \<lparr>rg_entries = Map.empty, rg_source = x\<rparr>"

text \<open>The scope an operation works in.\<close>

fun op_scope :: "registry_op \<Rightarrow> registry_scope option" where
  "op_scope (Prime v) = (case parseSignedRegistrySnapshot v of Inl _ \<Rightarrow> None
     | Inr s \<Rightarrow> Some \<lparr>rs_tenantId = sn_tenantId s, rs_jurisdiction = sn_jurisdiction s\<rparr>)"
| "op_scope (Refresh c) = Some c"
| "op_scope (Invalidate c) = Some c"
| "op_scope (Trust rq) = Some (tr_scope rq)"
| "op_scope (Status rq) = Some (tr_scope rq)"
| "op_scope (Credential rq) = Some (tr_scope rq)"

text \<open>What any operation does to the entries: nothing, a removal, or one call of \<open>store\<close>.\<close>

lemma evaluate_state:
  "snd (evaluateTrust src verifier rq now w) = snd (resolve src verifier (tr_scope rq) now w)"
  "snd (evaluateStatus src verifier rq now w) = snd (resolve src verifier (tr_scope rq) now w)"
  "snd (evaluateCredential src verifier rq now w) = snd (resolve src verifier (tr_scope rq) now w)"
  by (simp_all add: evaluateTrust_def evaluateStatus_def evaluateCredential_def bindS_def
      split: prod.split sum.split)

definition stores :: "snapshot_verifier \<Rightarrow> js_number \<Rightarrow> registry_scope \<Rightarrow> 'w registry_cache \<Rightarrow> 'w registry_cache \<Rightarrow> bool" where
  "stores verifier now c w w' \<longleftrightarrow> rg_entries w' = rg_entries w
     \<or> (\<exists>s w1. rg_entries w1 = rg_entries w \<and> scope_wf c \<and> attested verifier c s \<and> fresh_at now s
          \<and> w' = snd (store_snapshot s c w1))"

lemma fetch_stores:
  assumes "fetch src verifier c now stale w = (r, w')"
  shows "stores verifier now c w w'"
  using assms
proof (cases rule: fetch_cases)
  case (kept d)
  then show ?thesis by (simp add: stores_def)
next
  case (offered v s w1)
  with verify_sound show ?thesis unfolding stores_def by blast
qed

lemma resolve_stores: "stores verifier now c w (snd (resolve src verifier c now w))"
proof (cases "parseScope c")
  case (Inl e)
  then show ?thesis by (simp add: resolve_def bindS_def stores_def)
next
  case (Inr p)
  then have p: "p = c" using parseScope_Inr by blast
  have f: "stores verifier now c w (snd (fetch src verifier c now st w))" for st
    using fetch_stores [of src verifier c now st w] by (cases "fetch src verifier c now st w") simp
  have "stores verifier now c w w" by (simp add: stores_def)
  with f Inr p show ?thesis
    by (auto simp: resolve_def bindS_def Let_def split: option.split prod.split)
      (metis snd_conv)+
qed

lemma refresh_stores: "stores verifier now c w (snd (refresh src verifier c now w))"
proof (cases "parseScope c")
  case (Inl e)
  then show ?thesis by (simp add: refresh_def bindS_def stores_def)
next
  case (Inr p)
  then have p: "p = c" using parseScope_Inr by blast
  obtain r w' where f: "fetch src verifier c now None w = (r, w')" by fastforce
  then have "snd (refresh src verifier c now w) = w'"
    using Inr p by (simp add: refresh_def bindS_def split: sum.split)
  with fetch_stores [OF f] show ?thesis by simp
qed

lemma prime_stores:
  "rg_entries (snd (prime verifier v now w)) = rg_entries w
   \<or> (\<exists>c. op_scope (Prime v) = Some c \<and> stores verifier now c w (snd (prime verifier v now w)))"
proof (cases "parseSignedRegistrySnapshot v")
  case (Inl e)
  then show ?thesis by (simp add: prime_def bindS_def)
next
  case (Inr u)
  define c where "c = \<lparr>rs_tenantId = sn_tenantId u, rs_jurisdiction = sn_jurisdiction u\<rparr>"
  have o: "op_scope (Prime v) = Some c" using Inr by (simp add: c_def)
  have pr: "prime verifier v now w = (case verifyRegistrySnapshot verifier v c of Inl e \<Rightarrow> (Inl e, w)
    | Inr s \<Rightarrow> if \<not> fresh_at now s then (Inl (Registry_error SNAPSHOT_STALE), w)
        else bindS (store_snapshot s c) (\<lambda>_. returnS s) w)"
    using Inr by (simp add: prime_def bindS_def Let_def c_def split: sum.split)
  show ?thesis
  proof (cases "verifyRegistrySnapshot verifier v c")
    case (Inl e)
    then show ?thesis by (simp add: pr)
  next
    case (Inr s)
    have "snd (bindS (store_snapshot s c) (\<lambda>_. returnS s) w) = snd (store_snapshot s c w)"
      by (simp add: bindS_def split: prod.split sum.split)
    then have "stores verifier now c w (snd (prime verifier v now w))"
      using Inr verify_sound [OF Inr] by (auto simp: pr stores_def)
    with o show ?thesis by blast
  qed
qed

lemma invalidate_entries:
  "rg_entries (snd (invalidate c w)) = (if scope_wf c then (rg_entries w)(scopeKey c := None) else rg_entries w)
   \<or> rg_entries (snd (invalidate c w)) = rg_entries w"
proof (cases "parseScope c")
  case (Inr p)
  with parseScope_Inr [OF Inr] show ?thesis by (simp add: invalidate_def bindS_def)
qed (simp add: invalidate_def bindS_def)

lemma registry_apply_cases:
  obtains (unchanged) "rg_entries (registry_apply src verifier (a, now) w) = rg_entries w"
  | (removed) c where "a = Invalidate c" "scope_wf c"
      "rg_entries (registry_apply src verifier (a, now) w) = (rg_entries w)(scopeKey c := None)"
  | (stored) c s w1 where "op_scope a = Some c" "rg_entries w1 = rg_entries w" "scope_wf c"
      "attested verifier c s" "fresh_at now s"
      "registry_apply src verifier (a, now) w = snd (store_snapshot s c w1)"
proof (cases a)
  case (Prime v)
  with prime_stores [of verifier v now w] that(1,3) show thesis by (auto simp: stores_def)
next
  case (Invalidate c)
  with invalidate_entries [of c w] that(1,2) show thesis by (auto split: if_splits)
next
  case (Refresh c)
  with refresh_stores [of verifier now c w src] that(1,3) show thesis by (auto simp: stores_def)
next
  case (Trust rq)
  with resolve_stores [of verifier now "tr_scope rq" w src] that(1,3) show thesis
    by (auto simp: stores_def evaluate_state)
next
  case (Status rq)
  with resolve_stores [of verifier now "tr_scope rq" w src] that(1,3) show thesis
    by (auto simp: stores_def evaluate_state)
next
  case (Credential rq)
  with resolve_stores [of verifier now "tr_scope rq" w src] that(1,3) show thesis
    by (auto simp: stores_def evaluate_state)
qed

section \<open>Properties of a run\<close>

lemma registry_apply_ok:
  assumes "cache_ok verifier w"
  shows "cache_ok verifier (registry_apply src verifier (a, now) w)"
proof (cases rule: registry_apply_cases [where src = src and verifier = verifier and a = a and now = now and w = w])
  case unchanged
  from cache_ok_cong [OF this] assms show ?thesis by blast
next
  case (removed c)
  with assms show ?thesis by (auto simp: cache_ok_def)
next
  case (stored c s w1)
  with assms store_ok [of verifier w1 c s] cache_ok_cong [of w1 w verifier] show ?thesis by simp
qed

lemma registry_run_ok: "cache_ok verifier w \<Longrightarrow> cache_ok verifier (registry_run src verifier ops w)"
  unfolding registry_run_def
  by (induction ops arbitrary: w) (auto intro: registry_apply_ok)

lemma new_registry_ok: "cache_ok verifier (new_registry x)"
  by (simp add: cache_ok_def new_registry_def)

text \<open>A snapshot is superseded by a later sequence number only.\<close>

definition not_older :: "signed_snapshot \<Rightarrow> signed_snapshot \<Rightarrow> bool" where
  "not_older s t \<longleftrightarrow> sn_sequence s < sn_sequence t
     \<or> (sn_sequence s = sn_sequence t \<and> sn_snapshotId s = sn_snapshotId t \<and> sn_signature s = sn_signature t)"

lemma not_older_refl [simp]: "not_older s s"
  by (simp add: not_older_def)

lemma not_older_trans: "not_older s t \<Longrightarrow> not_older t u \<Longrightarrow> not_older s u"
  by (auto simp: not_older_def)

lemma store_not_older:
  "rg_entries w k = Some s \<Longrightarrow> \<exists>t. rg_entries (snd (store_snapshot s' c w)) k = Some t \<and> not_older s t"
  by (auto simp: store_snapshot_def Let_def not_older_def split: option.splits)

lemma registry_apply_not_older:
  assumes "rg_entries w (scopeKey c) = Some s" "a \<noteq> Invalidate c" "scope_wf c"
  shows "\<exists>t. rg_entries (registry_apply src verifier (a, now) w) (scopeKey c) = Some t \<and> not_older s t"
proof (cases rule: registry_apply_cases [where src = src and verifier = verifier and a = a and now = now and w = w])
  case unchanged
  with assms show ?thesis by simp
next
  case (removed d)
  with assms scopeKey_eq [of c d] show ?thesis by simp
next
  case (stored d s' w1)
  with assms store_not_older [of w1 "scopeKey c" s s' d] show ?thesis by simp
qed

text \<open>
  C18: However prime, refresh, the three evaluations and invalidations of other scopes are
  ordered, and whatever the source delivers, the snapshot held for a scope is only ever
  replaced by one with a larger sequence number, or by one with the same sequence number,
  identifier and signature.
\<close>

theorem cached_snapshot_never_rolls_back:
  assumes "scope_wf c" "rg_entries w (scopeKey c) = Some s" "\<forall>now. (Invalidate c, now) \<notin> set ops"
  shows "\<exists>t. rg_entries (registry_run src verifier ops w) (scopeKey c) = Some t \<and> not_older s t"
  using assms(2,3)
proof (induction ops arbitrary: w s)
  case Nil
  then show ?case by (simp add: registry_run_def)
next
  case (Cons x ops)
  obtain a now where x: "x = (a, now)" by fastforce
  with Cons.prems have "a \<noteq> Invalidate c" by auto
  from registry_apply_not_older [OF Cons.prems(1) this assms(1)] obtain t
    where t: "rg_entries (registry_apply src verifier x w) (scopeKey c) = Some t" "not_older s t"
    using x by blast
  from Cons.IH [OF t(1)] Cons.prems(2) obtain u
    where "rg_entries (registry_run src verifier ops (registry_apply src verifier x w)) (scopeKey c) = Some u"
      "not_older t u" by auto
  with t not_older_trans show ?case by (auto simp: registry_run_def)
qed

lemma store_other: "k \<noteq> scopeKey c \<Longrightarrow> rg_entries (snd (store_snapshot s c w)) k = rg_entries w k"
  by (auto simp: store_snapshot_def Let_def split: option.split)

text \<open>
  Operations that work in other scopes leave the entry of a scope as it was: the cache
  key of one tenant and jurisdiction is never the key of another.
\<close>

theorem registry_scopes_isolated:
  assumes "scope_wf c" "\<forall>x\<in>set ops. op_scope (fst x) \<noteq> Some c"
  shows "rg_entries (registry_run src verifier ops w) (scopeKey c) = rg_entries w (scopeKey c)"
  using assms(2)
proof (induction ops arbitrary: w)
  case Nil
  then show ?case by (simp add: registry_run_def)
next
  case (Cons x ops)
  obtain a now where x: "x = (a, now)" by fastforce
  have "rg_entries (registry_apply src verifier (a, now) w) (scopeKey c) = rg_entries w (scopeKey c)"
  proof (cases rule: registry_apply_cases [where src = src and verifier = verifier and a = a and now = now and w = w])
    case (removed d)
    with Cons.prems x scopeKey_eq [OF assms(1), of d] show ?thesis by auto
  next
    case (stored d s w1)
    with Cons.prems x scopeKey_eq [OF assms(1), of d] show ?thesis by (auto simp: store_other)
  qed simp
  with Cons x show ?case by (simp add: registry_run_def)
qed

lemma find_in: "find P xs = Some x \<Longrightarrow> x \<in> set xs \<and> P x"
  by (auto simp: find_Some_iff)

lemma trust_verified:
  assumes "rd_decision (evaluateTrustSnapshot s rq now) = Verified" "snapshot_wf (unsigned s)"
  obtains issuer schema key where "issuer \<in> set (sn_issuers s)" "ia_issuerId issuer = tr_issuerId rq"
    "ia_status issuer = ''active''" "schema \<in> set (ia_schemas issuer)" "sa_schemaId schema = tr_schemaId rq"
    "sa_status schema = ''active''" "key \<in> set (ia_keys issuer)" "ka_keyId key = tr_keyId rq"
    "ka_status key \<noteq> ''revoked''" "ka_authorizedFrom key \<le> tr_issuedAt rq"
    "\<forall>n. ka_authorizedUntil key = Some n \<longrightarrow> tr_issuedAt rq < n"
proof -
  obtain issuer schema key where f: "find (\<lambda>x. ia_issuerId x = tr_issuerId rq) (sn_issuers s) = Some issuer"
      "find (\<lambda>x. sa_schemaId x = tr_schemaId rq) (ia_schemas issuer) = Some schema"
      "find (\<lambda>x. ka_keyId x = tr_keyId rq) (ia_keys issuer) = Some key"
    and n: "ia_status issuer \<noteq> ''suspended''" "ia_status issuer \<noteq> ''revoked''"
      "sa_status schema \<noteq> ''suspended''" "sa_status schema \<noteq> ''revoked''" "ka_status key \<noteq> ''revoked''"
      "ka_authorizedFrom key \<le> tr_issuedAt rq" "\<forall>n. ka_authorizedUntil key = Some n \<longrightarrow> tr_issuedAt rq < n"
    using assms(1) by (auto simp: evaluateTrustSnapshot_def evidence_def split: if_splits option.splits)
  note m = f [THEN find_in]
  have "issuer_wf issuer" using assms(2) m(1) by (simp add: snapshot_wf_def unsigned_def snapshot.defs)
  with n m have "ia_status issuer = ''active''" "sa_status schema = ''active''"
    by (auto simp: issuer_wf_def schema_wf_def)
  with m n that show thesis by blast
qed

lemma status_verified:
  assumes "rd_decision (evaluateStatusSnapshot s rq now) = Verified" "snapshot_wf (unsigned s)"
  obtains e where "e \<in> set (sn_statuses s)" "ce_issuerId e = tr_issuerId rq" "ce_statusId e = tr_statusId rq"
    "ce_status e = ''valid''"
proof -
  obtain e where f: "find (\<lambda>x. ce_issuerId x = tr_issuerId rq \<and> ce_statusId x = tr_statusId rq) (sn_statuses s) = Some e"
    and n: "ce_status e \<noteq> ''suspended''" "ce_status e \<noteq> ''revoked''"
    using assms(1) by (auto simp: evaluateStatusSnapshot_def evidence_def split: if_splits option.splits)
  note m = find_in [OF f]
  have "status_wf e" using assms(2) m by (simp add: snapshot_wf_def unsigned_def snapshot.defs)
  with n m that show thesis by (auto simp: status_wf_def)
qed

lemma resolve_not_verified:
  assumes "resolve src verifier c now w = (Inr (Inl d), w')"
  shows "rd_decision d = Indeterminate"
proof (cases "parseScope c")
  case (Inl e)
  with assms show ?thesis by (auto simp: resolve_def bindS_def)
next
  case (Inr p)
  have f: "fetch src verifier p now st w = (Inl d, w') \<Longrightarrow> rd_decision d = Indeterminate" for st
    by (erule fetch_cases) auto
  with assms Inr show ?thesis
    by (auto simp: resolve_def bindS_def Let_def split: option.splits if_splits prod.splits)
qed

text \<open>What a verified decision on a cache in order rests on.\<close>

definition trusted_by :: "snapshot_verifier \<Rightarrow> trust_request \<Rightarrow> int \<Rightarrow> registry_decision \<Rightarrow> bool" where
  "trusted_by verifier rq now d \<longleftrightarrow> (\<exists>s issuer schema key e. rd_snapshot d = Some (sn_snapshotId s, sn_expiresAt s)
     \<and> attested verifier (tr_scope rq) s \<and> sn_issuedAt s \<le> now \<and> now < sn_expiresAt s
     \<and> issuer \<in> set (sn_issuers s) \<and> ia_issuerId issuer = tr_issuerId rq \<and> ia_status issuer = ''active''
     \<and> schema \<in> set (ia_schemas issuer) \<and> sa_schemaId schema = tr_schemaId rq \<and> sa_status schema = ''active''
     \<and> key \<in> set (ia_keys issuer) \<and> ka_keyId key = tr_keyId rq \<and> ka_status key \<noteq> ''revoked''
     \<and> ka_authorizedFrom key \<le> tr_issuedAt rq \<and> (\<forall>n. ka_authorizedUntil key = Some n \<longrightarrow> tr_issuedAt rq < n)
     \<and> e \<in> set (sn_statuses s) \<and> ce_issuerId e = tr_issuerId rq \<and> ce_statusId e = tr_statusId rq
     \<and> ce_status e = ''valid'')"

lemma cached_decision_sound:
  assumes "evaluateCredential src verifier rq (Whole now) w = (Inr d, w')" "cache_ok verifier w" "rd_decision d = Verified"
  shows "trusted_by verifier rq now d"
proof -
  obtain r w1 where r: "resolve src verifier (tr_scope rq) (Whole now) w = (Inr r, w1)"
    and d: "d = (case r of Inl d \<Rightarrow> d | Inr s \<Rightarrow>
       let trust = evaluateTrustSnapshot s rq (Whole now) in
       if rd_decision trust \<noteq> Verified then trust
       else let status = evaluateStatusSnapshot s rq (Whole now) in
         if rd_decision status \<noteq> Verified then status
         else evidence Verified ''CREDENTIAL_VERIFIED'' (Some s))"
    using assms(1) unfolding evaluateCredential_def by (auto elim!: bindS_elim)
  show ?thesis
  proof (cases r)
    case (Inl y)
    with resolve_not_verified [OF r [unfolded Inl]] d assms(3) show ?thesis by simp
  next
    case (Inr s)
    have ok: "attested verifier (tr_scope rq) s" "fresh_at (Whole now) s"
      using resolve_ok [OF r assms(2)] Inr by auto
    then have wf: "snapshot_wf (unsigned s)" by (simp add: attested_def)
    have dec: "rd_decision (evaluateTrustSnapshot s rq (Whole now)) = Verified"
      "rd_decision (evaluateStatusSnapshot s rq (Whole now)) = Verified"
      "d = evidence Verified ''CREDENTIAL_VERIFIED'' (Some s)"
      using d Inr assms(3) by (auto simp: Let_def split: if_splits)
    have snap: "rd_snapshot d = Some (sn_snapshotId s, sn_expiresAt s)" by (simp add: dec(3) evidence_def)
    obtain e where e: "e \<in> set (sn_statuses s)" "ce_issuerId e = tr_issuerId rq" "ce_statusId e = tr_statusId rq"
      "ce_status e = ''valid''" by (rule status_verified [OF dec(2) wf])
    show ?thesis
      unfolding trusted_by_def
      by (rule trust_verified [OF dec(1) wf]) (use snap ok e in \<open>unfold fresh_at_Whole, blast\<close>)
  qed
qed

text \<open>
  C5: When a registry that started empty and went through any sequence of operations answers,
  to a request whose time is a number, that a credential is verified, there is a snapshot of
  the requested scope whose signature over its own text was accepted, which is fresh, and in
  which the issuer and the schema are active, the key is not revoked and was authorised when
  the credential was issued, and the status entry of the credential is valid.
\<close>

theorem verified_credential_sound:
  assumes "evaluateCredential src verifier rq (Whole now) (registry_run src verifier ops (new_registry x)) = (Inr d, w)"
    "rd_decision d = Verified"
  shows "\<exists>s issuer schema key e. rd_snapshot d = Some (sn_snapshotId s, sn_expiresAt s)
     \<and> attested verifier (tr_scope rq) s \<and> sn_issuedAt s \<le> now \<and> now < sn_expiresAt s
     \<and> issuer \<in> set (sn_issuers s) \<and> ia_issuerId issuer = tr_issuerId rq \<and> ia_status issuer = ''active''
     \<and> schema \<in> set (ia_schemas issuer) \<and> sa_schemaId schema = tr_schemaId rq \<and> sa_status schema = ''active''
     \<and> key \<in> set (ia_keys issuer) \<and> ka_keyId key = tr_keyId rq \<and> ka_status key \<noteq> ''revoked''
     \<and> ka_authorizedFrom key \<le> tr_issuedAt rq \<and> (\<forall>n. ka_authorizedUntil key = Some n \<longrightarrow> tr_issuedAt rq < n)
     \<and> e \<in> set (sn_statuses s) \<and> ce_issuerId e = tr_issuerId rq \<and> ce_statusId e = tr_statusId rq
     \<and> ce_status e = ''valid''"
  using cached_decision_sound [OF assms(1) registry_run_ok [OF new_registry_ok] assms(2)] unfolding trusted_by_def .

section \<open>A registry with one issuer\<close>

definition ex_issuer :: issuer_auth where
  "ex_issuer = \<lparr>ia_issuerId = ''did:ex:i'', ia_status = ''active'',
     ia_schemas = [\<lparr>sa_schemaId = ''age'', sa_status = ''active''\<rparr>],
     ia_keys = [\<lparr>ka_keyId = ''k1'', ka_status = ''active'', ka_authorizedFrom = 10, ka_authorizedUntil = None\<rparr>],
     ia_trustMarks = []\<rparr>"

definition ex_snapshot :: "int \<Rightarrow> snapshot" where
  "ex_snapshot n = \<lparr>sn_snapshotId = ''snap'', sn_tenantId = ''t1'', sn_jurisdiction = ''EU'', sn_sequence = n,
     sn_issuedAt = 100, sn_expiresAt = 200, sn_signingKeyId = ''root'', sn_issuers = [ex_issuer],
     sn_rotations = [], sn_statuses = [\<lparr>ce_issuerId = ''did:ex:i'', ce_statusId = ''st1'', ce_status = ''valid'',
       ce_updatedAt = 50\<rparr>]\<rparr>"

definition ex_value :: "int \<Rightarrow> jsval" where
  "ex_value n = JObj (snapshot_entries (ex_snapshot n) @ [(''signature'', JStr ''sig'')])"

definition ex_scope :: registry_scope where
  "ex_scope = \<lparr>rs_tenantId = ''t1'', rs_jurisdiction = ''EU''\<rparr>"

definition ex_request :: trust_request where
  "ex_request = \<lparr>tr_scope = ex_scope, tr_issuerId = ''did:ex:i'', tr_schemaId = ''age'', tr_keyId = ''k1'',
     tr_issuedAt = 20, tr_statusId = ''st1''\<rparr>"

definition ex_verifier :: snapshot_verifier where
  "ex_verifier c k p g = Inr (g = ''sig'' \<and> p \<noteq> [])"

definition ex_source :: "unit snapshot_source" where
  "ex_source c x = (Inr JUndef, x)"


lemma ex_sound: "evaluateCredential ex_source ex_verifier ex_request (Whole 150)
  (registry_run ex_source ex_verifier [(Prime (ex_value 2), Whole 120)] (new_registry ()))
  = (Inr \<lparr>rd_decision = Verified, rd_code = ''CREDENTIAL_VERIFIED'', rd_snapshot = Some (''snap'', 200)\<rparr>,
     snd (evaluateCredential ex_source ex_verifier ex_request (Whole 150)
       (registry_run ex_source ex_verifier [(Prime (ex_value 2), Whole 120)] (new_registry ()))))"
proof -
  have "fst (evaluateCredential ex_source ex_verifier ex_request (Whole 150)
    (registry_run ex_source ex_verifier [(Prime (ex_value 2), Whole 120)] (new_registry ())))
    = Inr \<lparr>rd_decision = Verified, rd_code = ''CREDENTIAL_VERIFIED'', rd_snapshot = Some (''snap'', 200)\<rparr>"
    by code_simp
  then show ?thesis by (metis prod.collapse)
qed

theorem verified_credential_sound_witness:
  "\<exists>s. attested ex_verifier ex_scope s \<and> sn_issuedAt s \<le> 150 \<and> 150 < sn_expiresAt s"
proof -
  from verified_credential_sound [OF ex_sound] have "\<exists>s. attested ex_verifier (tr_scope ex_request) s
    \<and> sn_issuedAt s \<le> 150 \<and> 150 < sn_expiresAt s" by auto
  then show ?thesis by (simp add: ex_request_def)
qed

lemma ex_scope_wf: "scope_wf ex_scope"
  by code_simp

theorem cached_snapshot_never_rolls_back_witness:
  "\<exists>t. rg_entries (registry_run ex_source ex_verifier [(Prime (ex_value 1), Whole 120), (Refresh ex_scope, Whole 130)]
       \<lparr>rg_entries = [scopeKey ex_scope \<mapsto> with_signature (ex_snapshot 2) ''sig''], rg_source = ()\<rparr>) (scopeKey ex_scope) = Some t
     \<and> not_older (with_signature (ex_snapshot 2) ''sig'') t"
  by (rule cached_snapshot_never_rolls_back [OF ex_scope_wf]) simp_all

theorem registry_scopes_isolated_witness:
  "rg_entries (registry_run ex_source ex_verifier [(Prime (ex_value 1), Whole 120), (Invalidate ex_scope, Whole 130)] (new_registry ()))
     (scopeKey \<lparr>rs_tenantId = ''t2'', rs_jurisdiction = ''EU''\<rparr>)
   = rg_entries (new_registry ()) (scopeKey \<lparr>rs_tenantId = ''t2'', rs_jurisdiction = ''EU''\<rparr>)"
proof (rule registry_scopes_isolated)
  show "scope_wf \<lparr>rs_tenantId = ''t2'', rs_jurisdiction = ''EU''\<rparr>" by code_simp
  have "op_scope (Prime (ex_value 1)) = Some ex_scope" by code_simp
  then show "\<forall>x\<in>set [(Prime (ex_value 1), Whole 120), (Invalidate ex_scope, Whole 130)].
      op_scope (fst x) \<noteq> Some \<lparr>rs_tenantId = ''t2'', rs_jurisdiction = ''EU''\<rparr>"
    by (simp add: ex_scope_def)
qed

text \<open>
  An invalidation also forgets the sequence number: a verified fresh snapshot, however
  old its sequence number, is accepted after it.
\<close>

theorem invalidation_forgets_sequence:
  assumes "verifyRegistrySnapshot verifier v c = Inr s" "fresh_at now s"
  shows "rg_entries (registry_run src verifier [(Invalidate c, t), (Prime v, now)] w) (scopeKey c) = Some s"
proof -
  have p: "parseSignedRegistrySnapshot v = Inr s" "parseScope c = Inr c" and sc: "in_scope s c"
    using assms(1) parseScope_Inr unfolding verifyRegistrySnapshot_def
    by (auto simp: bindE_Inr split: if_splits)
  then have c: "\<lparr>rs_tenantId = sn_tenantId s, rs_jurisdiction = sn_jurisdiction s\<rparr> = c"
    by (simp add: in_scope_def)
  have w: "snd (invalidate c w) = w\<lparr>rg_entries := (rg_entries w)(scopeKey c := None)\<rparr>"
    using p(2) by (simp add: invalidate_def bindS_def)
  show ?thesis
    using assms p(1) c by (simp add: registry_run_def w prime_def bindS_def Let_def store_snapshot_def)
qed

lemma ex_verify: "verifyRegistrySnapshot ex_verifier (ex_value 1) ex_scope = Inr (with_signature (ex_snapshot 1) ''sig'')"
  by code_simp

text \<open>The cache held sequence 2; after an invalidation it holds sequence 1.\<close>

theorem invalidation_forgets_sequence_witness:
  "map_option sn_sequence (rg_entries (registry_run ex_source ex_verifier [(Invalidate ex_scope, Whole 120), (Prime (ex_value 1), Whole 120)]
     \<lparr>rg_entries = [scopeKey ex_scope \<mapsto> with_signature (ex_snapshot 2) ''sig''], rg_source = ()\<rparr>) (scopeKey ex_scope)) = Some 1"
proof -
  have "fresh_at (Whole 120) (with_signature (ex_snapshot 1) ''sig'')" "sn_sequence (with_signature (ex_snapshot 1) ''sig'') = 1"
    by (simp_all add: fresh_at_Whole with_signature_def ex_snapshot_def snapshot.defs)
  with invalidation_forgets_sequence [OF ex_verify this(1), where src = ex_source] show ?thesis by simp
qed

text \<open>
  A request whose time is NaN is answered from a snapshot that has expired: both comparisons
  of its freshness are false.  The same request at time 1000 finds the snapshot stale.
\<close>

definition ex_stale_source :: "unit snapshot_source" where
  "ex_stale_source c x = (Inr (ex_value 1), x)"

theorem nan_time_accepts_stale_snapshot:
  "fst (evaluateCredential ex_stale_source ex_verifier ex_request Not_a_number (new_registry ()))
     = Inr \<lparr>rd_decision = Verified, rd_code = ''CREDENTIAL_VERIFIED'', rd_snapshot = Some (''snap'', 200)\<rparr>
   \<and> fst (evaluateCredential ex_stale_source ex_verifier ex_request (Whole 1000) (new_registry ()))
     = Inr \<lparr>rd_decision = Indeterminate, rd_code = ''SNAPSHOT_STALE'', rd_snapshot = Some (''snap'', 200)\<rparr>"
  by (rule conjI; code_simp)

theorem parsed_snapshot_round_trip_witness:
  "snapshot_lawful (ex_snapshot 1)
   \<and> parseUnsignedRegistrySnapshot (JObj (snapshot_entries (ex_snapshot 1))) = Inr (ex_snapshot 1)"
proof -
  have "parseUnsignedRegistrySnapshot (JObj (snapshot_entries (ex_snapshot 1))) = Inr (ex_snapshot 1)" by code_simp
  with parsed_snapshot_round_trip [of "JObj (snapshot_entries (ex_snapshot 1))" "ex_snapshot 1"] show ?thesis by blast
qed

end
