(* ===== verification/TrustRegistryText.thy ===== *)
theory TrustRegistryText
  imports TrustRegistryProps
begin

text \<open>
  The text that is signed determines the snapshot: the canonical JSON text is prefix free and
  loses nothing but the order of properties.
\<close>

section \<open>The signed text determines the snapshot\<close>

text \<open>What follows a value inside an array, an object or at the end of the text.\<close>

definition ends_value :: "string \<Rightarrow> bool" where
  "ends_value r \<longleftrightarrow> r = [] \<or> hd r \<in> set '',]}''"

text \<open>Reading one character back, with the rest of the text.\<close>

definition hex_value :: "char \<Rightarrow> nat" where
  "hex_value c = (let n = of_char c in if n < 58 then n - 48 else n - 87)"

definition read_escape :: "char \<Rightarrow> char" where
  "read_escape e = (if e = CHR ''b'' then CHR 0x08 else if e = CHR ''t'' then CHR 0x09
     else if e = CHR ''n'' then CHR 0x0A else if e = CHR ''f'' then CHR 0x0C
     else if e = CHR ''r'' then CHR 0x0D else e)"

definition read_char :: "string \<Rightarrow> char \<times> string" where
  "read_char t = (if hd t \<noteq> CHR 0x5C then (hd t, tl t)
     else if t ! 1 = CHR ''u'' then (char_of (16 * hex_value (t ! 4) + hex_value (t ! 5)), drop 6 t)
     else (read_escape (t ! 1), drop 2 t))"

lemma hex_value_digit: "n < 16 \<Longrightarrow> hex_value (hex_digit n) = n"
proof -
  have "\<forall>n\<in>set [0..<16]. hex_value (hex_digit n) = n" by code_simp
  then show "n < 16 \<Longrightarrow> hex_value (hex_digit n) = n" by simp
qed

lemma code_eq: "(of_char c :: nat) = n \<Longrightarrow> c = char_of n"
  by auto

lemma json_char_cases:
  obtains (escaped) e where "json_char c = [CHR 0x5C, e]" "e \<noteq> CHR ''u''" "read_escape e = c"
  | (control) "json_char c = [CHR 0x5C, CHR ''u'', CHR ''0'', CHR ''0'', hex_digit (of_char c div 16), hex_digit (of_char c mod 16)]"
      "(of_char c :: nat) < 32"
  | (plain) "json_char c = [c]" "c \<noteq> CHR 0x5C" "c \<noteq> CHR 0x22"
proof -
  let ?n = "of_char c :: nat"
  consider "?n \<in> {34, 92, 8, 9, 10, 12, 13}" | "?n \<notin> {34, 92, 8, 9, 10, 12, 13}" "?n < 32"
    | "?n \<notin> {34, 92, 8, 9, 10, 12, 13}" "\<not> ?n < 32" by blast
  then show thesis
  proof cases
    case 1
    then have "c \<in> set (map char_of [34, 92, 8, 9, 10, 12, 13 :: nat])" using code_eq by fastforce
    moreover have "map char_of [34, 92, 8, 9, 10, 12, 13 :: nat] = [CHR 0x22, CHR 0x5C, CHR 0x08, CHR 0x09, CHR 0x0A, CHR 0x0C, CHR 0x0D]"
      by code_simp
    ultimately have "c \<in> {CHR 0x22, CHR 0x5C, CHR 0x08, CHR 0x09, CHR 0x0A, CHR 0x0C, CHR 0x0D}" by (simp only: list.set)
    then show ?thesis by (intro escaped [of "json_char c ! 1"]) (auto simp: json_char_def read_escape_def)
  next
    case 2
    then show ?thesis by (intro control) (simp_all add: json_char_def Let_def)
  next
    case 3
    then have "c \<noteq> CHR 0x5C" "c \<noteq> CHR 0x22" by auto
    with 3 show ?thesis by (intro plain) (simp_all add: json_char_def Let_def)
  qed
qed

lemma read_json_char: "read_char (json_char c @ x) = (c, x)"
proof (cases c rule: json_char_cases)
  case (escaped e)
  then show ?thesis by (simp add: read_char_def)
next
  case control
  then have "16 * hex_value (hex_digit (of_char c div 16)) + hex_value (hex_digit (of_char c mod 16)) = of_char c"
    by (simp add: hex_value_digit less_mult_imp_div_less)
  with control(1) show ?thesis by (simp add: read_char_def)
next
  case plain
  then show ?thesis by (simp add: read_char_def)
qed

lemma json_char_prefix: "json_char c @ x = json_char c' @ x' \<Longrightarrow> c = c' \<and> x = x'"
  by (metis read_json_char prod.inject)

lemma json_char_no_quote: "json_char c @ x \<noteq> CHR 0x22 # y"
  by (cases c rule: json_char_cases) auto

lemma json_body_prefix:
  "concat (map json_char s) @ CHR 0x22 # r = concat (map json_char s') @ CHR 0x22 # r' \<Longrightarrow> s = s' \<and> r = r'"
proof (induction s arbitrary: s')
  case Nil
  then show ?case using json_char_no_quote [symmetric] by (cases s') simp_all
next
  case (Cons c s)
  show ?case
  proof (cases s')
    case Nil
    with Cons.prems json_char_no_quote show ?thesis by simp
  next
    case (Cons c' u)
    with Cons.prems have "json_char c @ (concat (map json_char s) @ CHR 0x22 # r)
      = json_char c' @ (concat (map json_char u) @ CHR 0x22 # r')" by simp
    then have "c = c'" "concat (map json_char s) @ CHR 0x22 # r = concat (map json_char u) @ CHR 0x22 # r'"
      by (blast dest: json_char_prefix)+
    with Cons.IH Cons show ?thesis by simp
  qed
qed

lemma json_string_prefix: "json_string s @ r = json_string s' @ r' \<Longrightarrow> s = s' \<and> r = r'"
  using json_body_prefix [of s r s' r'] by (simp add: json_string_def)

lemma show_int_prefix:
  assumes "show_int m @ r = show_int n @ r'" "ends_value r" "ends_value r'"
  shows "m = n \<and> r = r'"
proof -
  let ?P = "\<lambda>c. is_digit c \<or> c = CHR ''-''"
  have stop: "takeWhile ?P r = []" if "ends_value r" for r
    using that by (cases r) (auto simp: ends_value_def is_digit_def)
  have "takeWhile ?P (show_int k @ r) = show_int k" if "ends_value r" for k r
    using stop [OF that] show_int_chars by (subst takeWhile_append2) auto
  then have "show_int m = show_int n" using assms by metis
  with assms(1) show ?thesis by simp
qed

lemma show_int_head: "show_int n \<noteq> [] \<and> (is_digit (hd (show_int n)) \<or> hd (show_int n) = CHR ''-'')"
proof -
  have "show_int n \<noteq> []" by (auto simp: show_int_def)
  with show_int_chars [of "hd (show_int n)" n] show ?thesis by simp
qed

lemma comma_join_prefix:
  assumes "\<forall>p\<in>set xs. \<forall>q\<in>set ys. \<forall>r r'. fst p @ r = fst q @ r' \<longrightarrow> ends_value r \<longrightarrow> ends_value r' \<longrightarrow> snd p = snd q \<and> r = r'"
    and "\<forall>p\<in>set xs \<union> set ys. fst p \<noteq> [] \<and> hd (fst p) \<noteq> c" and c: "c \<in> set '']}''"
    and "comma_join (map fst xs) @ c # r = comma_join (map fst ys) @ c # r'"
  shows "map snd xs = map snd ys \<and> r = r'"
proof -
  have open_join: "comma_join (fst p # map fst ps) = fst p @ (if ps = [] then [] else CHR '','' # comma_join (map fst ps))"
    for p :: "string \<times> 'b" and ps by (cases ps) auto
  have ends: "ends_value ((if ps = [] then [] else CHR '','' # u) @ c # r)" for ps :: "(string \<times> 'b) list" and u r
    using c by (auto simp: ends_value_def)
  show ?thesis
    using assms(1,2,4)
  proof (induction xs arbitrary: ys)
    case Nil
    then show ?case
    proof (cases ys)
      case (Cons q qs)
      with Nil.prems have "fst q \<noteq> []" "hd (fst q) \<noteq> c" by auto
      moreover have "c # r = fst q @ (if qs = [] then [] else CHR '','' # comma_join (map fst qs)) @ c # r'"
        using Nil.prems(3) Cons by (simp only: list.map open_join append_assoc comma_join.simps append_Nil)
      ultimately show ?thesis by (cases "fst q") auto
    qed simp
  next
    case (Cons p ps)
    show ?case
    proof (cases ys)
      case Nil
      from Cons.prems have "fst p \<noteq> []" "hd (fst p) \<noteq> c" by auto
      moreover have "fst p @ (if ps = [] then [] else CHR '','' # comma_join (map fst ps)) @ c # r = c # r'"
        using Cons.prems(3) Nil by (simp only: list.map open_join append_assoc comma_join.simps append_Nil)
      ultimately show ?thesis by (cases "fst p") auto
    next
      case (Cons q qs)
      let ?t = "\<lambda>zs. if zs = [] then [] else CHR '','' # comma_join (map fst zs)"
      have eq: "fst p @ (?t ps @ c # r) = fst q @ (?t qs @ c # r')"
        using Cons.prems(3) Cons by (simp only: list.map open_join append_assoc)
      have pin: "p \<in> set (p # ps)" and qin: "q \<in> set ys" using Cons by simp_all
      have "snd p = snd q \<and> ?t ps @ c # r = ?t qs @ c # r'"
        using Cons.prems(1) [rule_format, OF pin qin eq ends ends] .
      then have pq: "snd p = snd q" and rest: "?t ps @ c # r = ?t qs @ c # r'" by blast+
      have "c \<noteq> CHR '',''" using c by auto
      with rest have "comma_join (map fst ps) @ c # r = comma_join (map fst qs) @ c # r'"
        by (cases "ps = []"; cases "qs = []") simp_all
      moreover have "\<forall>p\<in>set ps. \<forall>q\<in>set qs. \<forall>r r'. fst p @ r = fst q @ r' \<longrightarrow> ends_value r \<longrightarrow> ends_value r' \<longrightarrow> snd p = snd q \<and> r = r'"
        "\<forall>p\<in>set ps \<union> set qs. fst p \<noteq> [] \<and> hd (fst p) \<noteq> c"
        using Cons.prems(1,2) unfolding Cons by (meson list.set_intros(2), simp)
      ultimately have "map snd ps = map snd qs \<and> r = r'" using Cons.IH [of qs] by blast
      with Cons pq show ?thesis by simp
    qed
  qed
qed

text \<open>The value a canonical text stands for: properties sorted, undefined ones left out.\<close>

function norm :: "jsval \<Rightarrow> jsval" where
  "norm (JArr vs) = JArr (map norm vs)"
| "norm (JObj es) = JObj (map (\<lambda>e. (fst e, norm (snd e))) (sort_entries (filter (\<lambda>e. snd e \<noteq> JUndef) es)))"
| "norm JNull = JNull" | "norm (JStr s) = JStr s" | "norm (JBool b) = JBool b" | "norm (JInt n) = JInt n"
| "norm JFraction = JFraction" | "norm JNonFinite = JNonFinite" | "norm JUndef = JUndef" | "norm JOther = JOther"
  by pat_completeness auto
termination
  by (relation "measure size") (auto simp: less_Suc_eq_le size_list_estimation' dest: entry_size')

definition text_head :: "jsval \<Rightarrow> char \<Rightarrow> bool" where
  "text_head v c \<longleftrightarrow> (case v of JNull \<Rightarrow> c = CHR ''n'' | JStr _ \<Rightarrow> c = CHR 0x22
     | JBool b \<Rightarrow> c = (if b then CHR ''t'' else CHR ''f'') | JInt _ \<Rightarrow> is_digit c \<or> c = CHR ''-''
     | JArr _ \<Rightarrow> c = CHR ''['' | JObj _ \<Rightarrow> c = CHR ''{'' | _ \<Rightarrow> False)"

lemma canonical_head:
  assumes "canonicalValue v = Inr t"
  shows "t \<noteq> [] \<and> text_head v (hd t)"
  using assms show_int_head
  by (cases v) (auto simp: text_head_def json_string_def bindE_Inr split: if_splits)

lemma canonical_text:
  "canonicalValue (JArr vs) = Inr t \<Longrightarrow> \<exists>ts. list_all2 (\<lambda>v u. canonicalValue v = Inr u) vs ts
     \<and> t = CHR ''['' # comma_join ts @ '']''"
  "canonicalValue (JObj es) = Inr t \<Longrightarrow> \<exists>ts. list_all2 (\<lambda>e u. \<exists>w. canonicalValue (snd e) = Inr w
     \<and> json_string (fst e) @ CHR '':'' # w = u) (sort_entries (filter (\<lambda>e. snd e \<noteq> JUndef) es)) ts
     \<and> t = CHR ''{'' # comma_join ts @ ''}''"
  by (fastforce simp: bindE_Inr mapE_Inr)+

lemma zip_texts: "list_all2 P xs ts \<Longrightarrow> map fst (zip ts (map f xs)) = ts \<and> map snd (zip ts (map f xs)) = map f xs"
  by (simp add: list_all2_lengthD)

lemma zip_in: "list_all2 P xs ts \<Longrightarrow> p \<in> set (zip ts (map f xs)) \<Longrightarrow> \<exists>x\<in>set xs. P x (fst p) \<and> snd p = f x"
  by (fastforce simp: list_all2_conv_all_nth in_set_conv_nth)

lemma same_head: "text_head v c \<Longrightarrow> text_head v' c \<Longrightarrow>
    (\<exists>vs vs'. v = JArr vs \<and> v' = JArr vs') \<or> (\<exists>es es'. v = JObj es \<and> v' = JObj es')
    \<or> (\<exists>s s'. v = JStr s \<and> v' = JStr s') \<or> (\<exists>n n'. v = JInt n \<and> v' = JInt n')
    \<or> (v = JNull \<and> v' = JNull) \<or> (\<exists>b. v = JBool b \<and> v' = JBool b)"
  by (cases v; cases v') (auto simp: text_head_def is_digit_def split: if_splits)

definition same_text :: "jsval \<Rightarrow> jsval \<Rightarrow> bool" where
  "same_text v v' \<longleftrightarrow> (\<forall>t t' r r'. canonicalValue v = Inr t \<longrightarrow> canonicalValue v' = Inr t' \<longrightarrow> t @ r = t' @ r'
     \<longrightarrow> ends_value r \<longrightarrow> ends_value r' \<longrightarrow> norm v = norm v' \<and> r = r')"

lemma same_text_D: "same_text v v' \<Longrightarrow> canonicalValue v = Inr t \<Longrightarrow> canonicalValue v' = Inr t' \<Longrightarrow> t @ r = t' @ r'
     \<Longrightarrow> ends_value r \<Longrightarrow> ends_value r' \<Longrightarrow> norm v = norm v' \<and> r = r'"
  unfolding same_text_def by blast

lemma same_text_array:
  assumes "\<And>v v'. v \<in> set vs \<Longrightarrow> same_text v v'"
  shows "same_text (JArr vs) (JArr vs')"
  unfolding same_text_def
proof (intro allI impI)
  fix t t' r r'
  assume t: "canonicalValue (JArr vs) = Inr t" "canonicalValue (JArr vs') = Inr t'" and eq: "t @ r = t' @ r'"
  obtain ts ts' where ts: "list_all2 (\<lambda>v u. canonicalValue v = Inr u) vs ts" "t = CHR ''['' # comma_join ts @ '']''"
    and ts': "list_all2 (\<lambda>v u. canonicalValue v = Inr u) vs' ts'" "t' = CHR ''['' # comma_join ts' @ '']''"
    using t canonical_text(1) by meson
  let ?xs = "zip ts (map norm vs)" and ?ys = "zip ts' (map norm vs')"
  have "map snd ?xs = map snd ?ys \<and> r = r'"
  proof (rule comma_join_prefix [where c = "CHR '']''"])
    show "\<forall>p\<in>set ?xs. \<forall>q\<in>set ?ys. \<forall>r r'. fst p @ r = fst q @ r' \<longrightarrow> ends_value r \<longrightarrow> ends_value r' \<longrightarrow> snd p = snd q \<and> r = r'"
      using zip_in [OF ts(1)] zip_in [OF ts'(1)] same_text_D [OF assms] by metis
    have "fst p \<noteq> [] \<and> hd (fst p) \<noteq> CHR '']''" if p: "p \<in> set ?xs \<union> set ?ys" for p
    proof -
      obtain v where "canonicalValue v = Inr (fst p)" using p zip_in [OF ts(1)] zip_in [OF ts'(1)] by blast
      from canonical_head [OF this] show ?thesis by (auto simp: text_head_def is_digit_def split: jsval.splits if_splits)
    qed
    then show "\<forall>p\<in>set ?xs \<union> set ?ys. fst p \<noteq> [] \<and> hd (fst p) \<noteq> CHR '']''" by blast
  qed (use eq ts ts' zip_texts in \<open>simp_all add: zip_texts [OF ts(1)] zip_texts [OF ts'(1)]\<close>)
  then show "norm (JArr vs) = norm (JArr vs') \<and> r = r'"
    using zip_texts [OF ts(1), of norm] zip_texts [OF ts'(1), of norm] by simp
qed

lemma same_text_object:
  assumes "\<And>e v'. e \<in> set (sort_entries (filter (\<lambda>e. snd e \<noteq> JUndef) es)) \<Longrightarrow> same_text (snd e) v'"
  shows "same_text (JObj es) (JObj es')"
  unfolding same_text_def
proof (intro allI impI)
  fix t t' r r'
  let ?s = "sort_entries (filter (\<lambda>e. snd e \<noteq> JUndef) es)" and ?s' = "sort_entries (filter (\<lambda>e. snd e \<noteq> JUndef) es')"
  let ?P = "\<lambda>e u. \<exists>w. canonicalValue (snd e) = Inr w \<and> json_string (fst e) @ CHR '':'' # w = u"
  let ?f = "\<lambda>e. (fst e, norm (snd e))"
  assume t: "canonicalValue (JObj es) = Inr t" "canonicalValue (JObj es') = Inr t'" and eq: "t @ r = t' @ r'"
  obtain ts ts' where ts: "list_all2 ?P ?s ts" "t = CHR ''{'' # comma_join ts @ ''}''"
    and ts': "list_all2 ?P ?s' ts'" "t' = CHR ''{'' # comma_join ts' @ ''}''"
    using t canonical_text(2) by meson
  let ?xs = "zip ts (map ?f ?s)" and ?ys = "zip ts' (map ?f ?s')"
  have entry: "?f e = ?f e' \<and> r = r'"
    if e: "e \<in> set ?s" "?P e u" "?P e' u'" "u @ r = u' @ r'" "ends_value r" "ends_value r'" for e e' u u' r r'
  proof -
    obtain w w' where w: "canonicalValue (snd e) = Inr w" "u = json_string (fst e) @ CHR '':'' # w"
      "canonicalValue (snd e') = Inr w'" "u' = json_string (fst e') @ CHR '':'' # w'" using e(2,3) by blast
    with e(4) have "json_string (fst e) @ (CHR '':'' # w @ r) = json_string (fst e') @ (CHR '':'' # w' @ r')" by simp
    then have "fst e = fst e'" "w @ r = w' @ r'" by (blast dest: json_string_prefix)+
    with same_text_D [OF assms [OF e(1)] w(1,3)] e(5,6) show ?thesis by simp
  qed
  have "map snd ?xs = map snd ?ys \<and> r = r'"
  proof (rule comma_join_prefix [where c = "CHR ''}''"])
    show "\<forall>p\<in>set ?xs. \<forall>q\<in>set ?ys. \<forall>r r'. fst p @ r = fst q @ r' \<longrightarrow> ends_value r \<longrightarrow> ends_value r' \<longrightarrow> snd p = snd q \<and> r = r'"
    proof (intro ballI allI impI)
      fix p q r r'
      assume p: "p \<in> set ?xs" and q: "q \<in> set ?ys" and r: "fst p @ r = fst q @ r'" "ends_value r" "ends_value r'"
      obtain e where e: "e \<in> set ?s" "?P e (fst p)" "snd p = ?f e" using zip_in [OF ts(1) p] by blast
      obtain e' where e': "?P e' (fst q)" "snd q = ?f e'" using zip_in [OF ts'(1) q] by blast
      from entry [OF e(1,2) e'(1) r] e(3) e'(2) show "snd p = snd q \<and> r = r'" by simp
    qed
    have head: "u \<noteq> [] \<and> hd u \<noteq> CHR ''}''" if "?P e u" for e u
      using that by (auto simp: json_string_def)
    have "fst p \<noteq> [] \<and> hd (fst p) \<noteq> CHR ''}''" if p: "p \<in> set ?xs \<union> set ?ys" for p
      using p
    proof
      assume "p \<in> set ?xs"
      then obtain e where "?P e (fst p)" using zip_in [OF ts(1)] by blast
      then show ?thesis by (rule head)
    next
      assume "p \<in> set ?ys"
      then obtain e where "?P e (fst p)" using zip_in [OF ts'(1)] by blast
      then show ?thesis by (rule head)
    qed
    then show "\<forall>p\<in>set ?xs \<union> set ?ys. fst p \<noteq> [] \<and> hd (fst p) \<noteq> CHR ''}''" by blast
  qed (use eq ts ts' in \<open>simp_all add: zip_texts [OF ts(1)] zip_texts [OF ts'(1)]\<close>)
  then show "norm (JObj es) = norm (JObj es') \<and> r = r'"
    using zip_texts [OF ts(1), of ?f] zip_texts [OF ts'(1), of ?f] by simp
qed

lemma same_text_I:
  assumes "\<And>vs vs'. v = JArr vs \<Longrightarrow> v' = JArr vs' \<Longrightarrow> same_text v v'"
    and "\<And>es es'. v = JObj es \<Longrightarrow> v' = JObj es' \<Longrightarrow> same_text v v'"
  shows "same_text v v'"
  unfolding same_text_def
proof (intro allI impI)
  fix t t' r r'
  assume t: "canonicalValue v = Inr t" "canonicalValue v' = Inr t'" and eq: "t @ r = t' @ r'"
    and ends: "ends_value r" "ends_value r'"
  note h = canonical_head [OF t(1)] canonical_head [OF t(2)]
  then have "hd t = hd t'" using eq by (metis hd_append2)
  with h have "text_head v (hd t)" "text_head v' (hd t)" by simp_all
  from same_head [OF this] consider vs vs' where "v = JArr vs" "v' = JArr vs'" | es es' where "v = JObj es" "v' = JObj es'"
    | s s' where "v = JStr s" "v' = JStr s'" | n n' where "v = JInt n" "v' = JInt n'" | "v = v'" "norm v = v" by auto
  then show "norm v = norm v' \<and> r = r'"
  proof cases
    case 1 with assms(1) same_text_D t eq ends show ?thesis by metis
  next
    case 2 with assms(2) same_text_D t eq ends show ?thesis by metis
  next
    case 3 with t eq json_string_prefix [of _ r _ r'] show ?thesis by auto
  next
    case 4 with t eq ends show_int_prefix [of _ r _ r'] show ?thesis by (auto split: if_splits)
  next
    case 5 with t eq show ?thesis by simp
  qed
qed

lemma canonical_prefix: "same_text v v'"
proof (induction v arbitrary: v' rule: norm.induct)
  case (1 vs)
  show ?case by (rule same_text_I) (use 1 same_text_array in blast)+
next
  case (2 es)
  show ?case by (rule same_text_I) (use 2 same_text_object in blast)+
qed (rule same_text_I; simp)+

lemma canonical_inject:
  "canonicalValue v = Inr t \<Longrightarrow> canonicalValue v' = Inr t \<Longrightarrow> norm v = norm v'"
  using same_text_D [OF canonical_prefix, of v t v' t "[]" "[]"] by (simp add: ends_value_def)

definition plain_object :: "(string \<times> jsval) list \<Rightarrow> bool" where
  "plain_object es \<longleftrightarrow> distinct (map fst es) \<and> (\<forall>e\<in>set es. snd e \<noteq> JUndef)"

lemma norm_field:
  assumes "norm (JObj es) = norm (JObj es')" "plain_object es" "plain_object es'"
  shows "norm (jfield es k) = norm (jfield es' k)"
proof -
  have m: "map_of (map (\<lambda>e. (fst e, norm (snd e))) (sort_entries xs)) k = map_option norm (map_of xs k)"
    if "plain_object xs" for xs
    using that map_of_sort_entries [of xs] map_of_map [of norm "sort_entries xs"]
    by (simp add: plain_object_def case_prod_unfold)
  have f: "filter (\<lambda>e. snd e \<noteq> JUndef) xs = xs" if "plain_object xs" for xs
    using that by (simp add: plain_object_def)
  have "map_option norm (map_of es k) = map_option norm (map_of es' k)"
    using assms m [OF assms(2)] m [OF assms(3)] by (simp add: f)
  then show ?thesis by (auto simp: jfield_def split: option.splits)
qed

lemma norm_list:
  assumes "\<And>x y. norm (f x) = norm (f y) \<Longrightarrow> x = y" "map norm (map f xs) = map norm (map f ys)"
  shows "xs = ys"
proof -
  have "inj (\<lambda>x. norm (f x))" using assms(1) by (rule injI)
  with assms(2) show ?thesis by (simp add: comp_def inj_map_eq_map)
qed

lemma schema_js_inject:
  assumes "norm (schema_js x) = norm (schema_js y)"
  shows "x = y"
proof -
  note f = norm_field [OF assms [unfolded schema_js_def]]
  show ?thesis using f [of "''schemaId''"] f [of "''status''"] by (cases x, cases y) (simp add: plain_object_def)
qed

definition key_entries :: "key_auth \<Rightarrow> (string \<times> jsval) list" where
  "key_entries x = [(''keyId'', JStr (ka_keyId x)), (''status'', JStr (ka_status x)),
     (''authorizedFrom'', JInt (ka_authorizedFrom x))]
     @ (case ka_authorizedUntil x of None \<Rightarrow> [] | Some n \<Rightarrow> [(''authorizedUntil'', JInt n)])"

lemma key_entries_facts:
  "key_js x = JObj (key_entries x)" "plain_object (key_entries x)"
  "jfield (key_entries x) ''keyId'' = JStr (ka_keyId x)" "jfield (key_entries x) ''status'' = JStr (ka_status x)"
  "jfield (key_entries x) ''authorizedFrom'' = JInt (ka_authorizedFrom x)"
  "jfield (key_entries x) ''authorizedUntil'' = (case ka_authorizedUntil x of None \<Rightarrow> JUndef | Some n \<Rightarrow> JInt n)"
  by (simp_all add: key_js_def key_entries_def plain_object_def split: option.split)

lemma key_js_inject:
  assumes "norm (key_js x) = norm (key_js y)"
  shows "x = y"
proof -
  note f = norm_field [OF assms [unfolded key_entries_facts(1)] key_entries_facts(2) key_entries_facts(2)]
  have "ka_keyId x = ka_keyId y" using f [of "''keyId''"] by (simp add: key_entries_facts)
  moreover have "ka_status x = ka_status y" using f [of "''status''"] by (simp add: key_entries_facts)
  moreover have "ka_authorizedFrom x = ka_authorizedFrom y" using f [of "''authorizedFrom''"] by (simp add: key_entries_facts)
  moreover have "ka_authorizedUntil x = ka_authorizedUntil y"
    using f [of "''authorizedUntil''"] by (simp add: key_entries_facts split: option.splits)
  ultimately show ?thesis by simp
qed

lemma rotation_js_inject:
  assumes "norm (rotation_js x) = norm (rotation_js y)"
  shows "x = y"
proof -
  note f = norm_field [OF assms [unfolded rotation_js_def]]
  show ?thesis
    using f [of "''issuerId''"] f [of "''previousKeyId''"] f [of "''newKeyId''"] f [of "''rotatedAt''"]
    by (cases x, cases y) (simp add: plain_object_def)
qed

lemma status_js_inject:
  assumes "norm (status_js x) = norm (status_js y)"
  shows "x = y"
proof -
  note f = norm_field [OF assms [unfolded status_js_def]]
  show ?thesis
    using f [of "''issuerId''"] f [of "''statusId''"] f [of "''status''"] f [of "''updatedAt''"]
    by (cases x, cases y) (simp add: plain_object_def)
qed

lemma issuer_js_inject:
  assumes "norm (issuer_js x) = norm (issuer_js y)"
  shows "x = y"
proof -
  note f = norm_field [OF assms [unfolded issuer_js_def]]
  have "ia_schemas x = ia_schemas y"
    using f [of "''schemas''"] by (intro norm_list [OF schema_js_inject]) (simp_all add: plain_object_def)
  moreover have "ia_keys x = ia_keys y"
    using f [of "''keys''"] by (intro norm_list [OF key_js_inject]) (simp_all add: plain_object_def)
  moreover have "ia_trustMarks x = ia_trustMarks y"
    using f [of "''trustMarks''"] by (intro norm_list [where f = JStr]) (simp_all add: plain_object_def)
  moreover have "ia_issuerId x = ia_issuerId y" "ia_status x = ia_status y"
    using f [of "''issuerId''"] f [of "''status''"] by (simp_all add: plain_object_def)
  ultimately show ?thesis by (cases x, cases y) simp
qed

lemma snapshot_js_inject:
  assumes "norm (JObj (snapshot_entries s)) = norm (JObj (snapshot_entries s'))"
  shows "s = s'"
proof -
  have p: "plain_object (snapshot_entries x)" for x by (simp add: plain_object_def snapshot_entries_def)
  note f = norm_field [OF assms p p, unfolded snapshot_entries_def]
  have "sn_issuers s = sn_issuers s'"
    using f [of "''issuers''"] by (intro norm_list [OF issuer_js_inject]) simp_all
  moreover have "sn_rotations s = sn_rotations s'"
    using f [of "''rotations''"] by (intro norm_list [OF rotation_js_inject]) simp_all
  moreover have "sn_statuses s = sn_statuses s'"
    using f [of "''statuses''"] by (intro norm_list [OF status_js_inject]) simp_all
  moreover have "sn_snapshotId s = sn_snapshotId s'" "sn_tenantId s = sn_tenantId s'"
    "sn_jurisdiction s = sn_jurisdiction s'" "sn_sequence s = sn_sequence s'" "sn_issuedAt s = sn_issuedAt s'"
    "sn_expiresAt s = sn_expiresAt s'" "sn_signingKeyId s = sn_signingKeyId s'"
    using f [of "''snapshotId''"] f [of "''tenantId''"] f [of "''jurisdiction''"] f [of "''sequence''"]
      f [of "''issuedAt''"] f [of "''expiresAt''"] f [of "''signingKeyId''"] by simp_all
  ultimately show ?thesis by (cases s, cases s') simp
qed

section \<open>Parsing the object form of a record gives that record\<close>

lemma mapE_only:
  assumes "mapE f (map g xs) = Inr ys" "\<And>x y. f (g x) = Inr y \<Longrightarrow> y = x"
  shows "ys = xs"
  using assms(1) by (induction xs arbitrary: ys) (auto simp: bindE_Inr simp del: mapE_Inr dest: assms(2))

lemma parse_list_only: "parse_list m f (JArr (map g xs)) = Inr ys \<Longrightarrow> (\<And>x y. f (g x) = Inr y \<Longrightarrow> y = x) \<Longrightarrow> ys = xs"
  unfolding parse_list_def by (erule mapE_only [rotated]) (auto simp: bindE_Inr jlist_Inr)

lemma parse_schema_only: "parseSchema (schema_js x) = Inr y \<Longrightarrow> y = x"
  by (cases x) (auto simp: parseSchema_def schema_js_def bindE_Inr parser_Inr)

lemma parse_key_only: "parseKey (key_js x) = Inr y \<Longrightarrow> y = x"
  by (cases x) (auto simp: parseKey_def key_js_def bindE_Inr parser_Inr split: if_splits option.splits)

lemma parse_rotation_only: "parseRotation (rotation_js x) = Inr y \<Longrightarrow> y = x"
  by (cases x) (auto simp: parseRotation_def rotation_js_def bindE_Inr parser_Inr split: if_splits)

lemma parse_status_only: "parseStatus (status_js x) = Inr y \<Longrightarrow> y = x"
  by (cases x) (auto simp: parseStatus_def status_js_def bindE_Inr parser_Inr)

lemma parse_mark_only: "safeString n (JStr x) = Inr y \<Longrightarrow> y = x"
  by (simp add: safeString_Inr)

lemma parse_issuer_only: "parseIssuer (issuer_js x) = Inr y \<Longrightarrow> y = x"
  by (cases x) (auto simp: parseIssuer_def [folded parse_list_def] issuer_js_def bindE_Inr parser_Inr
    dest: parse_list_only [OF _ parse_schema_only] parse_list_only [OF _ parse_key_only]
      parse_list_only [OF _ parse_mark_only])

lemma parse_snapshot_only:
  assumes "parseUnsigned (snapshot_entries s) = Inr q"
  shows "q = s"
  using assms
  by (cases s) (auto simp: parseUnsigned_def [folded parse_list_def] snapshot_entries_def bindE_Inr parser_Inr Let_def
    split: if_splits
    dest: parse_list_only [OF _ parse_issuer_only] parse_list_only [OF _ parse_rotation_only]
      parse_list_only [OF _ parse_status_only])

lemma payload_text:
  assumes "registrySnapshotSigningPayload s = Inr p"
  shows "snapshot_wf s \<and> (\<exists>t. canonicalValue (JObj (snapshot_entries s)) = Inr t
     \<and> p = ''ssw-trust-registry-v1'' @ CHR 0x0A # t)"
proof -
  obtain q t where q: "parseUnsigned (snapshot_entries s) = Inr q" "canonicalValue (JObj (snapshot_entries q)) = Inr t"
    "p = ''ssw-trust-registry-v1'' @ CHR 0x0A # t"
    using assms unfolding registrySnapshotSigningPayload_def parseUnsignedRegistrySnapshot_def
    by (auto simp only: bindE_Inr object_Inr jsval.inject append_Cons append_Nil)
  with parse_snapshot_only [OF q(1)] parseUnsigned_wf [OF q(1)] show ?thesis by auto
qed

text \<open>
  Two snapshots with the same signing payload are equal, so a signature cannot be moved
  to a snapshot with any other issuer, key, status, scope, sequence number or validity.
\<close>

theorem signed_text_determines_snapshot:
  assumes "registrySnapshotSigningPayload s = Inr p" "registrySnapshotSigningPayload s' = Inr p"
  shows "s = s'"
proof -
  obtain t t' where t: "canonicalValue (JObj (snapshot_entries s)) = Inr t" "p = ''ssw-trust-registry-v1'' @ CHR 0x0A # t"
    "canonicalValue (JObj (snapshot_entries s')) = Inr t'" "p = ''ssw-trust-registry-v1'' @ CHR 0x0A # t'"
    using payload_text [OF assms(1)] payload_text [OF assms(2)] by blast
  then have "t = t'" by simp
  with t canonical_inject show ?thesis using snapshot_js_inject by blast
qed

theorem signed_text_determines_snapshot_witness:
  "\<exists>p. registrySnapshotSigningPayload (ex_snapshot 1) = Inr p \<and> registrySnapshotSigningPayload (ex_snapshot 2) \<noteq> Inr p"
proof -
  have "(case registrySnapshotSigningPayload (ex_snapshot 1) of Inr _ \<Rightarrow> True | Inl _ \<Rightarrow> False)" by code_simp
  then obtain p where p: "registrySnapshotSigningPayload (ex_snapshot 1) = Inr p" by (auto split: sum.splits)
  have "ex_snapshot 1 \<noteq> ex_snapshot 2" by (simp add: ex_snapshot_def)
  with p signed_text_determines_snapshot [OF p] show ?thesis by blast
qed

end
