(* ===== verification/AccountAdapter.thy ===== *)
theory AccountAdapter
  imports Interfaces JsValue
begin

text \<open>
  The smart-account adapter (\<open>packages/account-adapter/src/index.ts\<close>): guardian recovery with
  threshold and timelock, the pinned ERC-7579 module policy and its lifecycle, deployment
  checks, the passkey signer boundary, the deterministic account address, and the submission
  of a user operation through a bundler.  SHA-256, the P-256 verifier, the bundler, the
  paymaster, the clock and \<open>Number\<close> on text are parameters.
\<close>

section \<open>Errors\<close>

datatype boundary_code =
    ORIGIN_MISMATCH | RP_ID_MISMATCH | CHALLENGE_MISMATCH | ACCOUNT_MISMATCH | EMPTY_SIGNATURE
  | INVALID_SIGNATURE | USER_CANCELLED | AUTHENTICATOR_UNAVAILABLE

datatype operation_code =
    CONFIG_MISSING | CHAIN_MISMATCH | ENTRY_POINT_MISMATCH | SIMULATION_FAILED | PAYMASTER_DENIED
  | BUNDLER_UNAVAILABLE | RECEIPT_TIMEOUT

text \<open>A plain \<open>Error\<close> is known by its message; anything else that is thrown may have a DOM name.\<close>

datatype account_exn =
    Plain_error string | Boundary_error boundary_code | Operation_error operation_code
  | Dom_error string | Other_error

section \<open>Guardian recovery\<close>

record recovery_policy =
  rp_account :: string
  rp_guardians :: "string list"
  rp_threshold :: int
  rp_timelockBlocks :: int

record recovery_proposal =
  pr_id :: string
  pr_account :: string
  pr_newSigner :: string
  pr_proposedAtBlock :: int
  pr_approvals :: "string list"

record recovery_controller =
  rc_account :: string
  rc_guardians :: "string list"
  rc_threshold :: int
  rc_timelockBlocks :: int
  rc_signer :: string
  rc_pending :: "recovery_proposal option"

definition hex_bytes :: "string \<Rightarrow> string" where
  "hex_bytes bs = concat (map (\<lambda>b. let n = of_char b in [hex_digit (n div 16), hex_digit (n mod 16)]) bs)"

definition recovery_text :: "string \<Rightarrow> string \<Rightarrow> int \<Rightarrow> string" where
  "recovery_text account signer block =
     ''ssw-recovery-v1|'' @ to_lower account @ ''|'' @ to_lower signer @ ''|'' @ show_int block"

definition recoveryDigest :: "(string \<Rightarrow> string) \<Rightarrow> string \<Rightarrow> string \<Rightarrow> int \<Rightarrow> string" where
  "recoveryDigest sha account signer block = ''0x'' @ hex_bytes (sha (recovery_text account signer block))"

text \<open>\<open>[...new Set(xs)]\<close>: the first of equal elements stays.\<close>

definition set_of_list :: "string list \<Rightarrow> string list" where
  "set_of_list xs = rev (remdups (rev xs))"

definition createRecoveryController :: "recovery_policy \<Rightarrow> string \<Rightarrow> account_exn + recovery_controller" where
  "createRecoveryController p initialSigner =
     (if \<not> valid_address (rp_account p) \<or> \<not> valid_address initialSigner
      then Inl (Plain_error ''recovery account and signer are required'')
      else let guardians = set_of_list (map to_lower (rp_guardians p)) in
        if list_ex (\<lambda>g. \<not> valid_address g) guardians \<or> \<not> safe_integer (rp_threshold p)
           \<or> rp_threshold p < 1 \<or> int (length guardians) < rp_threshold p
        then Inl (Plain_error ''invalid guardian threshold'')
        else if \<not> safe_integer (rp_timelockBlocks p) \<or> rp_timelockBlocks p < 1
        then Inl (Plain_error ''invalid recovery timelock'')
        else Inr \<lparr>rc_account = rp_account p, rc_guardians = guardians, rc_threshold = rp_threshold p,
          rc_timelockBlocks = rp_timelockBlocks p, rc_signer = initialSigner, rc_pending = None\<rparr>)"

text \<open>\<open>propose\<close> awaits the digest: the check and the assignment are two segments.\<close>

definition propose_check :: "string \<Rightarrow> int \<Rightarrow> account_exn + unit" where
  "propose_check newSigner atBlock =
     (if \<not> valid_address newSigner \<or> \<not> safe_integer atBlock \<or> atBlock < 0
      then Inl (Plain_error ''invalid recovery proposal'') else Inr ())"

definition propose_set :: "(string \<Rightarrow> string) \<Rightarrow> string \<Rightarrow> int \<Rightarrow> recovery_controller \<Rightarrow> recovery_controller" where
  "propose_set sha newSigner atBlock c = c\<lparr>rc_pending := Some
     \<lparr>pr_id = recoveryDigest sha (rc_account c) newSigner atBlock, pr_account = rc_account c,
      pr_newSigner = newSigner, pr_proposedAtBlock = atBlock, pr_approvals = []\<rparr>\<rparr>"

definition propose :: "(string \<Rightarrow> string) \<Rightarrow> string \<Rightarrow> int \<Rightarrow> (recovery_controller, account_exn, recovery_proposal option) meth" where
  "propose sha newSigner atBlock = bindS (pureS (propose_check newSigner atBlock))
     (\<lambda>_ c. let c' = propose_set sha newSigner atBlock c in (Inr (rc_pending c'), c'))"

definition approve :: "string \<Rightarrow> (recovery_controller, account_exn, recovery_proposal) meth" where
  "approve guardian c = (case rc_pending c of
       None \<Rightarrow> (Inl (Plain_error ''no recovery proposal''), c)
     | Some p \<Rightarrow> let g = to_lower guardian in
         if g \<notin> set (rc_guardians c) then (Inl (Plain_error ''guardian is not authorized''), c)
         else if g \<notin> set (pr_approvals p)
         then let p' = p\<lparr>pr_approvals := pr_approvals p @ [g]\<rparr> in (Inr p', c\<lparr>rc_pending := Some p'\<rparr>)
         else (Inr p, c))"

definition before_block :: "js_number \<Rightarrow> int \<Rightarrow> bool" where
  "before_block b n = (case b of Whole m \<Rightarrow> m < n | Not_a_number \<Rightarrow> False)"

definition execute_recovery :: "js_number \<Rightarrow> (recovery_controller, account_exn, string) meth" where
  "execute_recovery atBlock c = (case rc_pending c of
       None \<Rightarrow> (Inl (Plain_error ''no recovery proposal''), c)
     | Some p \<Rightarrow>
         if int (length (pr_approvals p)) < rc_threshold c
         then (Inl (Plain_error ''guardian threshold not met''), c)
         else if before_block atBlock (pr_proposedAtBlock p + rc_timelockBlocks c)
         then (Inl (Plain_error ''recovery timelock not elapsed''), c)
         else (Inr (pr_newSigner p), c\<lparr>rc_signer := pr_newSigner p, rc_pending := None\<rparr>))"

section \<open>ERC-7579 modules\<close>

datatype module_type = Validator | Executor | Fallback | Hook | Attester

record module_manifest =
  mm_address :: string
  mm_type :: module_type
  mm_version :: string
  mm_codeHash :: string
  mm_delegateCall :: bool
  mm_draft :: string

record module_policy =
  mp_draft :: string
  mp_adapter :: string
  mp_modules :: "module_manifest list"

definition ERC7579_DRAFT_VERSION :: string where
  "ERC7579_DRAFT_VERSION = ''erc-7579-draft-2024-03''"

definition ERC7579_ADAPTER_VERSION :: string where
  "ERC7579_ADAPTER_VERSION = ''ssw-erc7579-adapter-v1''"

definition code_hash :: "string \<Rightarrow> bool" where
  "code_hash h \<longleftrightarrow> hex_string 64 h \<and> \<not> zero_hex h"

definition module_key :: "module_manifest \<Rightarrow> string \<times> module_type" where
  "module_key m = (to_lower (mm_address m), mm_type m)"

fun check_modules :: "(string \<times> module_type) set \<Rightarrow> module_manifest list \<Rightarrow> account_exn + unit" where
  "check_modules seen [] = Inr ()"
| "check_modules seen (m # ms) =
     (if \<not> valid_address (mm_address m) then Inl (Plain_error ''module address is required'')
      else if mm_version m = '''' \<or> mm_draft m \<noteq> ERC7579_DRAFT_VERSION \<or> mm_delegateCall m
      then Inl (Plain_error ''module policy is not fail-closed'')
      else if \<not> code_hash (mm_codeHash m) then Inl (Plain_error ''module code hash is required'')
      else if module_key m \<in> seen then Inl (Plain_error ''duplicate module policy'')
      else check_modules (insert (module_key m) seen) ms)"

definition assertERC7579Policy :: "module_policy \<Rightarrow> account_exn + unit" where
  "assertERC7579Policy p =
     (if mp_draft p \<noteq> ERC7579_DRAFT_VERSION \<or> mp_adapter p \<noteq> ERC7579_ADAPTER_VERSION
      then Inl (Plain_error ''unsupported ERC-7579 adapter pin'')
      else check_modules {} (mp_modules p))"

record module_lifecycle =
  ml_policy :: module_policy
  ml_records :: "(string \<times> module_manifest) list"
  ml_denied :: "string set"

definition createERC7579Lifecycle :: "module_policy \<Rightarrow> account_exn + module_lifecycle" where
  "createERC7579Lifecycle p = bindE (assertERC7579Policy p)
     (\<lambda>_. Inr \<lparr>ml_policy = p, ml_records = [], ml_denied = {}\<rparr>)"

definition install_module :: "module_manifest \<Rightarrow> (module_lifecycle, account_exn, unit) meth" where
  "install_module m s = (case find (\<lambda>a. to_lower (mm_address a) = to_lower (mm_address m) \<and> mm_type a = mm_type m)
         (mp_modules (ml_policy s)) of
       None \<Rightarrow> (Inl (Plain_error ''module is not allowed by code-hash policy''), s)
     | Some a \<Rightarrow>
         if to_lower (mm_codeHash a) \<noteq> to_lower (mm_codeHash m) \<or> mm_version a \<noteq> mm_version m
         then (Inl (Plain_error ''module is not allowed by code-hash policy''), s)
         else (Inr (), s\<lparr>ml_records := omap_set (to_lower (mm_address m)) m (ml_records s)\<rparr>))"

definition use_module :: "string \<Rightarrow> string \<Rightarrow> (module_lifecycle, account_exn, string) meth" where
  "use_module a input s = (case map_of (ml_records s) (to_lower a) of
       None \<Rightarrow> (Inl (Plain_error ''module is not installed''), s)
     | Some m \<Rightarrow>
         if mm_delegateCall m then (Inl (Plain_error ''module is not installed''), s)
         else if to_lower a \<in> ml_denied s then (Inl (Plain_error ''module execution denied''), s)
         else (Inr input, s))"

definition uninstall_module :: "string \<Rightarrow> (module_lifecycle, account_exn, unit) meth" where
  "uninstall_module a s =
     (if map_of (ml_records s) (to_lower a) = None then (Inl (Plain_error ''module is not installed''), s)
      else if to_lower a \<in> ml_denied s then (Inl (Plain_error ''module uninstall denied; use recovery''), s)
      else (Inr (), s\<lparr>ml_records := omap_delete (to_lower a) (ml_records s)\<rparr>))"

definition recoverUninstall :: "string \<Rightarrow> module_lifecycle \<Rightarrow> module_lifecycle" where
  "recoverUninstall a s = s\<lparr>ml_records := omap_delete (to_lower a) (ml_records s),
     ml_denied := ml_denied s - {to_lower a}\<rparr>"

definition installed_modules :: "module_lifecycle \<Rightarrow> string list" where
  "installed_modules s = map fst (ml_records s)"

section \<open>Deployment\<close>

definition ENTRY_POINT_V08 :: string where
  "ENTRY_POINT_V08 = ''0x4337084d9e255ff0702461cf8895ce9e3b5ff108''"

record account_deployment =
  ad_chainId :: int
  ad_account :: string
  ad_accountCodeHash :: string
  ad_entryPoint :: string
  ad_entryPointVersion :: string

definition assertDeployment :: "account_deployment \<Rightarrow> account_exn + unit" where
  "assertDeployment d =
     (if \<not> safe_integer (ad_chainId d) \<or> ad_chainId d \<le> 0 then Inl (Plain_error ''invalid chain id'')
      else if \<not> valid_address (ad_account d) then Inl (Plain_error ''account address is required'')
      else if \<not> code_hash (ad_accountCodeHash d) then Inl (Plain_error ''account code hash is required'')
      else if to_lower (ad_entryPoint d) \<noteq> ENTRY_POINT_V08
      then Inl (Plain_error ''incompatible EntryPoint 0.8 deployment'')
      else if ad_entryPointVersion d \<noteq> ''0.8.0'' then Inl (Plain_error ''unsupported EntryPoint version'')
      else Inr ())"

section \<open>Passkey signer\<close>

record account_assertion =
  aa_clientDataJSON :: string
  aa_authenticatorData :: string
  aa_signature :: string
  aa_origin :: string
  aa_rpId :: string
  aa_challenge :: string
  aa_account :: string

record signer_config =
  sc_account :: string
  sc_origin :: string
  sc_rpId :: string
  sc_challenge :: string
  sc_verifierCodeHash :: string
  sc_expectedVerifierCodeHash :: string

definition assertPinnedVerifierCodeHash :: "string \<Rightarrow> string \<Rightarrow> account_exn + unit" where
  "assertPinnedVerifierCodeHash actual expected =
     (if \<not> code_hash actual then Inl (Plain_error ''P-256 verifier code hash is required'')
      else if to_lower actual \<noteq> to_lower expected then Inl (Plain_error ''P-256 verifier code hash mismatch'')
      else Inr ())"

definition assertAssertionContext :: "account_assertion \<Rightarrow> signer_config \<Rightarrow> account_exn + unit" where
  "assertAssertionContext a c =
     (if aa_origin a \<noteq> sc_origin c then Inl (Boundary_error ORIGIN_MISMATCH)
      else if aa_rpId a \<noteq> sc_rpId c then Inl (Boundary_error RP_ID_MISMATCH)
      else if aa_challenge a \<noteq> sc_challenge c then Inl (Boundary_error CHALLENGE_MISMATCH)
      else if to_lower (aa_account a) \<noteq> to_lower (sc_account c) then Inl (Boundary_error ACCOUNT_MISMATCH)
      else if aa_signature a = '''' then Inl (Boundary_error EMPTY_SIGNATURE)
      else Inr ())"

definition createPasskeySigner :: "signer_config \<Rightarrow> account_exn + signer_config" where
  "createPasskeySigner c = bindE (assertPinnedVerifierCodeHash (sc_verifierCodeHash c) (sc_expectedVerifierCodeHash c))
     (\<lambda>_. Inr c)"

definition signDigest ::
  "(account_assertion \<Rightarrow> string \<Rightarrow> account_exn + bool) \<Rightarrow> signer_config \<Rightarrow> string \<Rightarrow> account_assertion \<Rightarrow> account_exn + string" where
  "signDigest verifyP256 c digest a = bindE (assertAssertionContext a c) (\<lambda>_.
     bindE (verifyP256 a digest) (\<lambda>ok.
     if \<not> ok then Inl (Boundary_error INVALID_SIGNATURE) else Inr (aa_signature a)))"

definition classifyPasskeyError :: "account_exn \<Rightarrow> boundary_code" where
  "classifyPasskeyError e = (case e of Boundary_error c \<Rightarrow> c
     | Dom_error n \<Rightarrow> if n = ''NotAllowedError'' then USER_CANCELLED else AUTHENTICATOR_UNAVAILABLE
     | _ \<Rightarrow> AUTHENTICATOR_UNAVAILABLE)"

definition account_text :: "int \<Rightarrow> string \<Rightarrow> string \<Rightarrow> string \<Rightarrow> string" where
  "account_text chainId factory rpId credentialId = ''ssw-local-account-v1|'' @ show_int chainId @ ''|''
     @ to_lower factory @ ''|'' @ rpId @ ''|'' @ credentialId"

definition deriveDeterministicAccountAddress ::
  "(string \<Rightarrow> string) \<Rightarrow> int \<Rightarrow> string \<Rightarrow> string \<Rightarrow> string \<Rightarrow> account_exn + string" where
  "deriveDeterministicAccountAddress sha chainId factory rpId credentialId =
     (if \<not> safe_integer chainId \<or> chainId \<le> 0 then Inl (Plain_error ''invalid chain id'')
      else if \<not> hex_string 40 factory then Inl (Plain_error ''invalid factory address'')
      else if rpId = '''' \<or> credentialId = '''' then Inl (Plain_error ''rpId and credentialId are required'')
      else Inr (''0x'' @ hex_bytes (drop 12 (sha (account_text chainId factory rpId credentialId)))))"

section \<open>User operations\<close>

record user_operation =
  uo_sender :: string
  uo_nonce :: int
  uo_callData :: string
  uo_callGasLimit :: int
  uo_verificationGasLimit :: int
  uo_preVerificationGas :: int
  uo_maxFeePerGas :: int
  uo_maxPriorityFeePerGas :: int
  uo_signature :: string
  uo_factory :: "string option"
  uo_factoryData :: "string option"
  uo_paymaster :: "string option"
  uo_paymasterData :: "string option"
  uo_paymasterVerificationGasLimit :: "int option"
  uo_paymasterPostOpGasLimit :: "int option"

record operation_receipt =
  or_userOperationHash :: string
  or_transactionHash :: string
  or_blockNumber :: int
  or_success :: bool
  or_entryPoint :: string
  or_chainId :: int
  or_sender :: string

record paymaster_context =
  px_paymaster :: "string option"
  px_paymasterData :: "string option"

text \<open>The bundler and the paymaster; a simulation result counts by its \<open>preVerificationGas\<close>.\<close>

record 'w bundler =
  bu_simulate :: "user_operation \<Rightarrow> string \<Rightarrow> ('w, account_exn, int option) meth"
  bu_send :: "user_operation \<Rightarrow> string \<Rightarrow> ('w, account_exn, string) meth"
  bu_receipt :: "string \<Rightarrow> ('w, account_exn, operation_receipt option) meth"

type_synonym 'w paymaster_port = "user_operation \<Rightarrow> string \<Rightarrow> ('w, account_exn, paymaster_context) meth"

text \<open>\<open>Date.now\<close> and \<open>setTimeout\<close>.\<close>

record 'w clock =
  ck_now :: "'w \<Rightarrow> int"
  ck_sleep :: "int \<Rightarrow> 'w \<Rightarrow> 'w"

record erc4337_config =
  ec_chainId :: int
  ec_rpcUrl :: string
  ec_bundlerUrl :: string
  ec_entryPoint :: string
  ec_entryPointVersion :: string
  ec_account :: string
  ec_accountCodeHash :: string
  ec_paymasterUrl :: "string option"

definition requiredEnv :: "(string \<rightharpoonup> string) \<Rightarrow> string \<Rightarrow> account_exn + string" where
  "requiredEnv env k = (case env k of None \<Rightarrow> Inl (Operation_error CONFIG_MISSING)
     | Some v \<Rightarrow> if trim v = '''' then Inl (Operation_error CONFIG_MISSING) else Inr (trim v))"

definition config_deployment :: "erc4337_config \<Rightarrow> account_deployment" where
  "config_deployment c = \<lparr>ad_chainId = ec_chainId c, ad_account = ec_account c,
     ad_accountCodeHash = ec_accountCodeHash c, ad_entryPoint = ec_entryPoint c,
     ad_entryPointVersion = ec_entryPointVersion c\<rparr>"

text \<open>\<open>Number\<close> of the chain id's text; \<open>Not_a_number\<close> stands for every value that is no integer.\<close>

definition parseErc4337Config ::
  "(string \<Rightarrow> js_number) \<Rightarrow> (string \<rightharpoonup> string) \<Rightarrow> account_exn + erc4337_config option" where
  "parseErc4337Config number env =
     (if env ''SSW_4337_ENABLED'' \<noteq> Some ''1'' then Inr None else
      bindE (requiredEnv env ''SSW_4337_CHAIN_ID'') (\<lambda>chain.
      bindE (requiredEnv env ''SSW_4337_ENTRY_POINT'') (\<lambda>entryPoint.
      bindE (requiredEnv env ''SSW_4337_RPC_URL'') (\<lambda>rpcUrl.
      bindE (requiredEnv env ''SSW_4337_BUNDLER_URL'') (\<lambda>bundlerUrl.
      bindE (requiredEnv env ''SSW_4337_ACCOUNT'') (\<lambda>account.
      bindE (requiredEnv env ''SSW_4337_ACCOUNT_CODE_HASH'') (\<lambda>codeHash.
      case number chain of
        Not_a_number \<Rightarrow> Inl (Operation_error CONFIG_MISSING)
      | Whole n \<Rightarrow>
          if \<not> safe_integer n \<or> n \<le> 0 then Inl (Operation_error CONFIG_MISSING)
          else let c = \<lparr>ec_chainId = n, ec_rpcUrl = rpcUrl, ec_bundlerUrl = bundlerUrl,
              ec_entryPoint = entryPoint, ec_entryPointVersion = ''0.8.0'', ec_account = account,
              ec_accountCodeHash = codeHash,
              ec_paymasterUrl = (case env ''SSW_4337_PAYMASTER_URL'' of None \<Rightarrow> None
                | Some u \<Rightarrow> if trim u = '''' then None else Some (trim u))\<rparr> in
            bindE (assertDeployment (config_deployment c)) (\<lambda>_. Inr (Some c)))))))))"

text \<open>\<open>{...operation, ...(context.paymaster ? ... : {})}\<close>: an empty text counts as absent.\<close>

definition present :: "string option \<Rightarrow> bool" where
  "present v \<longleftrightarrow> v \<noteq> None \<and> v \<noteq> Some ''''"

definition apply_sponsorship :: "user_operation \<Rightarrow> paymaster_context \<Rightarrow> user_operation" where
  "apply_sponsorship op x = op\<lparr>
     uo_paymaster := (if present (px_paymaster x) then px_paymaster x else uo_paymaster op),
     uo_paymasterData := (if present (px_paymasterData x) then px_paymasterData x else uo_paymasterData op)\<rparr>"

definition apply_gas :: "int option \<Rightarrow> user_operation \<Rightarrow> user_operation" where
  "apply_gas simulated op = (case simulated of
       Some g \<Rightarrow> if g \<noteq> 0 \<and> uo_preVerificationGas op = 0 then op\<lparr>uo_preVerificationGas := g\<rparr> else op
     | None \<Rightarrow> op)"

definition receipt_fits :: "erc4337_config \<Rightarrow> operation_receipt \<Rightarrow> bool" where
  "receipt_fits c r \<longleftrightarrow> or_chainId r = ec_chainId c
     \<and> to_lower (or_entryPoint r) = to_lower (ec_entryPoint c)
     \<and> to_lower (or_sender r) = to_lower (ec_account c)"

text \<open>The polling loop; \<open>None\<close> is a loop that never ends.\<close>

partial_function (option) poll_receipt ::
  "'w bundler \<Rightarrow> 'w clock \<Rightarrow> erc4337_config \<Rightarrow> string \<Rightarrow> int \<Rightarrow> int \<Rightarrow> 'w
   \<Rightarrow> ((account_exn + operation_receipt) \<times> 'w) option" where
  "poll_receipt b k c hash deadline interval w =
     (if \<not> ck_now k w < deadline then Some (Inl (Operation_error RECEIPT_TIMEOUT), w)
      else case bu_receipt b hash w of
        (Inl e, w1) \<Rightarrow> Some (Inl e, w1)
      | (Inr (Some r), w1) \<Rightarrow>
          if \<not> receipt_fits c r then Some (Inl (Operation_error CHAIN_MISMATCH), w1) else Some (Inr r, w1)
      | (Inr None, w1) \<Rightarrow> poll_receipt b k c hash deadline interval (ck_sleep k interval w1))"

definition sponsored :: "'w paymaster_port option \<Rightarrow> user_operation \<Rightarrow> string \<Rightarrow> ('w, account_exn, user_operation) meth" where
  "sponsored paymaster op entryPoint = (case paymaster of
       None \<Rightarrow> returnS op
     | Some sponsor \<Rightarrow> catchS (bindS (sponsor op entryPoint) (\<lambda>x. returnS (apply_sponsorship op x)))
         (\<lambda>_. throwS (Operation_error PAYMASTER_DENIED)))"

text \<open>Everything up to the hash the bundler returns.\<close>

definition send_once ::
  "erc4337_config \<Rightarrow> 'w bundler \<Rightarrow> user_operation \<Rightarrow> 'w paymaster_port option \<Rightarrow> ('w, account_exn, string) meth" where
  "send_once c b op paymaster =
     bindS (pureS (assertDeployment (config_deployment c))) (\<lambda>_.
     if to_lower (uo_sender op) \<noteq> to_lower (ec_account c) then throwS (Operation_error CHAIN_MISMATCH) else
     bindS (catchS (bu_simulate b op (ec_entryPoint c)) (\<lambda>_. throwS (Operation_error SIMULATION_FAILED))) (\<lambda>simulation.
     bindS (sponsored paymaster op (ec_entryPoint c)) (\<lambda>prepared.
     catchS (bu_send b (apply_gas simulation prepared) (ec_entryPoint c))
       (\<lambda>_. throwS (Operation_error BUNDLER_UNAVAILABLE)))))"

definition submitUserOperation ::
  "erc4337_config \<Rightarrow> 'w bundler \<Rightarrow> 'w clock \<Rightarrow> user_operation \<Rightarrow> 'w paymaster_port option \<Rightarrow> int option \<Rightarrow> int option \<Rightarrow> 'w
   \<Rightarrow> ((account_exn + operation_receipt) \<times> 'w) option" where
  "submitUserOperation c b k op paymaster receiptTimeoutMs pollIntervalMs w =
     (case send_once c b op paymaster w of
        (Inl e, w1) \<Rightarrow> Some (Inl e, w1)
      | (Inr hash, w1) \<Rightarrow>
          let timeout = (case receiptTimeoutMs of None \<Rightarrow> 120000 | Some t \<Rightarrow> t);
              interval = (case pollIntervalMs of None \<Rightarrow> 2000 | Some t \<Rightarrow> t)
          in poll_receipt b k c hash (ck_now k w1 + timeout) interval w1)"

end
