(* ===== verification/AccountAdapterProps.thy ===== *)
theory AccountAdapterProps
  imports AccountAdapter
begin

text \<open>
  What the smart-account adapter promises: control is rotated only by a quorum of guardians
  after the timelock, modules run only when they match the pinned policy, the account address
  text names its inputs, and a user operation is sent at most once and its submission ends.
\<close>

section \<open>Guardian recovery\<close>

text \<open>What can happen to a controller, with the segments of \<open>propose\<close> apart.\<close>

datatype recovery_event =
    Proposed string int   \<comment> \<open>a proposal that passed its check is stored\<close>
  | Approve string
  | Execute js_number

fun recovery_step :: "(string \<Rightarrow> string) \<Rightarrow> recovery_event \<Rightarrow> recovery_controller \<Rightarrow> recovery_controller" where
  "recovery_step sha (Proposed n b) c = (if propose_check n b = Inr () then propose_set sha n b c else c)"
| "recovery_step sha (Approve g) c = snd (approve g c)"
| "recovery_step sha (Execute b) c = snd (execute_recovery b c)"

definition recovery_run where
  "recovery_run sha evs c = fold (recovery_step sha) evs c"

text \<open>
  What a pending proposal stands for: it was stored by an event of the run, and its approvals
  are distinct guardians that approved after that.
\<close>

definition backed :: "recovery_event list \<Rightarrow> recovery_controller \<Rightarrow> recovery_proposal \<Rightarrow> bool" where
  "backed evs c p \<longleftrightarrow> distinct (pr_approvals p) \<and> set (pr_approvals p) \<subseteq> set (rc_guardians c)
     \<and> (\<exists>before after. evs = before @ Proposed (pr_newSigner p) (pr_proposedAtBlock p) # after
          \<and> set (pr_approvals p) \<subseteq> {to_lower g |g. Approve g \<in> set after})"

definition same_policy :: "recovery_controller \<Rightarrow> recovery_controller \<Rightarrow> bool" where
  "same_policy c d \<longleftrightarrow> rc_account d = rc_account c \<and> rc_guardians d = rc_guardians c
     \<and> rc_threshold d = rc_threshold c \<and> rc_timelockBlocks d = rc_timelockBlocks c"

lemma recovery_step_policy: "same_policy c (recovery_step sha e c)"
  by (cases e) (auto simp: same_policy_def propose_set_def approve_def execute_recovery_def Let_def split: option.split)

lemma backed_later:
  assumes "backed evs c p" "same_policy c d"
  shows "backed (evs @ [e]) d p"
  using assms unfolding backed_def same_policy_def by fastforce

lemma backed_approved:
  assumes "backed evs c p" "to_lower g \<in> set (rc_guardians c)" "to_lower g \<notin> set (pr_approvals p)"
  shows "backed (evs @ [Approve g]) (c\<lparr>rc_pending := Some (p\<lparr>pr_approvals := pr_approvals p @ [to_lower g]\<rparr>)\<rparr>)
    (p\<lparr>pr_approvals := pr_approvals p @ [to_lower g]\<rparr>)"
  using assms unfolding backed_def by fastforce

lemma recovery_step_backed:
  assumes "\<And>p. rc_pending c = Some p \<Longrightarrow> backed evs c p" "rc_pending (recovery_step sha e c) = Some p"
  shows "backed (evs @ [e]) (recovery_step sha e c) p"
proof (cases e)
  case (Proposed n b)
  show ?thesis
  proof (cases "propose_check n b = Inr ()")
    case True
    with assms(2) Proposed have "p = \<lparr>pr_id = recoveryDigest sha (rc_account c) n b, pr_account = rc_account c,
      pr_newSigner = n, pr_proposedAtBlock = b, pr_approvals = []\<rparr>" by (simp add: propose_set_def)
    with Proposed show ?thesis by (auto simp: backed_def)
  next
    case False
    with assms Proposed backed_later [of evs c p c e] show ?thesis by (simp add: same_policy_def)
  qed
next
  case (Approve g)
  show ?thesis
  proof (cases "rc_pending c")
    case None
    with assms(2) Approve show ?thesis by (simp add: approve_def)
  next
    case (Some q)
    note b = assms(1) [OF Some]
    show ?thesis
    proof (cases "to_lower g \<in> set (rc_guardians c) \<and> to_lower g \<notin> set (pr_approvals q)")
      case True
      with Some Approve assms(2) backed_approved [OF b] show ?thesis by (auto simp: approve_def Let_def)
    next
      case False
      with Some Approve assms(2) have "p = q" by (auto simp: approve_def Let_def split: if_splits)
      with backed_later [OF b recovery_step_policy] show ?thesis by simp
    qed
  qed
next
  case (Execute b)
  with assms(2) have "rc_pending c = Some p"
    by (auto simp: execute_recovery_def split: option.splits if_splits)
  from backed_later [OF assms(1) [OF this] recovery_step_policy] show ?thesis .
qed

lemma recovery_run_snoc: "recovery_run sha (evs @ [e]) c = recovery_step sha e (recovery_run sha evs c)"
  by (simp add: recovery_run_def)

lemma recovery_run_policy: "same_policy c (recovery_run sha evs c)"
proof (induction evs rule: rev_induct)
  case (snoc e evs)
  with recovery_step_policy [of "recovery_run sha evs c" sha e] show ?case
    by (simp add: recovery_run_snoc same_policy_def)
qed (simp add: recovery_run_def same_policy_def)

lemma recovery_run_backed:
  assumes "rc_pending c = None" "rc_pending (recovery_run sha evs c) = Some p"
  shows "backed evs (recovery_run sha evs c) p"
  using assms(2)
proof (induction evs arbitrary: p rule: rev_induct)
  case Nil
  with assms(1) show ?case by (simp add: recovery_run_def)
next
  case (snoc e evs)
  from recovery_step_backed [OF snoc.IH, of sha e p] snoc.prems show ?case by (simp add: recovery_run_snoc)
qed

lemma created:
  assumes "createRecoveryController pol initial = Inr c"
  shows "rc_pending c = None \<and> rc_signer c = initial \<and> rc_threshold c = rp_threshold pol
    \<and> rc_timelockBlocks c = rp_timelockBlocks pol \<and> set (rc_guardians c) = to_lower ` set (rp_guardians pol)
    \<and> 1 \<le> rp_threshold pol \<and> 1 \<le> rp_timelockBlocks pol"
  using assms unfolding createRecoveryController_def
  by (auto simp: Let_def set_of_list_def split: if_splits)

text \<open>
  C6: After any sequence of proposals, approvals and executions, execute hands control to a
  signer only if that signer was proposed, at least threshold distinct guardians of the policy
  approved after the proposal was made, and, for a block number, the timelock counted from the
  proposal has passed; approvals given to an earlier proposal do not count.
\<close>

theorem rotation_needs_quorum_and_timelock:
  assumes "createRecoveryController pol initial = Inr c"
    and "execute_recovery b (recovery_run sha evs c) = (Inr signer, d)"
  shows "\<exists>before block after. evs = before @ Proposed signer block # after
     \<and> rp_threshold pol \<le> int (card ({to_lower g |g. Approve g \<in> set after} \<inter> to_lower ` set (rp_guardians pol)))
     \<and> (\<forall>n. b = Whole n \<longrightarrow> block + rp_timelockBlocks pol \<le> n) \<and> rc_signer d = signer"
proof -
  let ?c = "recovery_run sha evs c"
  note cr = created [OF assms(1)] and pol = recovery_run_policy [of c sha evs]
  obtain p where p: "rc_pending ?c = Some p" "pr_newSigner p = signer" "rc_threshold ?c \<le> int (length (pr_approvals p))"
    "\<not> before_block b (pr_proposedAtBlock p + rc_timelockBlocks ?c)" "rc_signer d = signer"
    using assms(2) by (auto simp: execute_recovery_def split: option.splits if_splits)
  obtain before after where e: "evs = before @ Proposed signer (pr_proposedAtBlock p) # after"
    "set (pr_approvals p) \<subseteq> {to_lower g |g. Approve g \<in> set after}" "distinct (pr_approvals p)"
    "set (pr_approvals p) \<subseteq> to_lower ` set (rp_guardians pol)"
    using recovery_run_backed [OF _ p(1)] cr pol p(2) unfolding backed_def same_policy_def by auto
  let ?A = "{to_lower g |g. Approve g \<in> set after} \<inter> to_lower ` set (rp_guardians pol)"
  have "length (pr_approvals p) \<le> card ?A"
    using card_mono [of ?A "set (pr_approvals p)"] e(2-4) by (simp add: distinct_card)
  moreover have "rp_threshold pol \<le> int (length (pr_approvals p))"
    using p(3) cr pol by (simp add: same_policy_def)
  moreover have "\<forall>n. b = Whole n \<longrightarrow> pr_proposedAtBlock p + rp_timelockBlocks pol \<le> n"
    using p(4) cr pol by (auto simp: before_block_def same_policy_def)
  ultimately show ?thesis using e(1) p(5) by (intro exI [of _ before] exI [of _ "pr_proposedAtBlock p"] exI [of _ after]) simp
qed

text \<open>No block number is needed when the caller passes \<open>NaN\<close>.\<close>

text \<open>
  The timelock comparison is false for NaN: execute called with NaN rotates the signer at
  once, however recent the proposal is.
\<close>

theorem nan_block_skips_timelock:
  assumes "rc_pending c = Some p" "rc_threshold c \<le> int (length (pr_approvals p))"
  shows "fst (execute_recovery Not_a_number c) = Inr (pr_newSigner p)"
  using assms by (simp add: execute_recovery_def before_block_def)

section \<open>Modules\<close>

definition module_pinned :: "module_policy \<Rightarrow> module_manifest \<Rightarrow> bool" where
  "module_pinned p m \<longleftrightarrow> (\<exists>a\<in>set (mp_modules p). to_lower (mm_address a) = to_lower (mm_address m)
     \<and> mm_type a = mm_type m \<and> to_lower (mm_codeHash a) = to_lower (mm_codeHash m) \<and> mm_version a = mm_version m
     \<and> valid_address (mm_address a) \<and> code_hash (mm_codeHash a) \<and> mm_version a \<noteq> '''' \<and> \<not> mm_delegateCall a)"

definition lifecycle_ok :: "module_lifecycle \<Rightarrow> bool" where
  "lifecycle_ok s \<longleftrightarrow> assertERC7579Policy (ml_policy s) = Inr () \<and> distinct (map fst (ml_records s)) \<and> ml_denied s = {}
     \<and> (\<forall>(k, m)\<in>set (ml_records s). k = to_lower (mm_address m) \<and> module_pinned (ml_policy s) m)"

datatype module_event = Install module_manifest | Use_module string string | Uninstall string | Recover_uninstall string

fun module_step :: "module_event \<Rightarrow> module_lifecycle \<Rightarrow> module_lifecycle" where
  "module_step (Install m) s = snd (install_module m s)"
| "module_step (Use_module a i) s = snd (use_module a i s)"
| "module_step (Uninstall a) s = snd (uninstall_module a s)"
| "module_step (Recover_uninstall a) s = recoverUninstall a s"

lemma check_modules_each:
  "check_modules seen ms = Inr u \<Longrightarrow> m \<in> set ms \<Longrightarrow>
     valid_address (mm_address m) \<and> code_hash (mm_codeHash m) \<and> mm_version m \<noteq> '''' \<and> \<not> mm_delegateCall m"
  by (induction seen ms rule: check_modules.induct) (auto split: if_splits)

lemma check_modules_distinct:
  "check_modules seen ms = Inr u \<Longrightarrow> distinct (map module_key ms) \<and> set (map module_key ms) \<inter> seen = {}"
  by (induction seen ms rule: check_modules.induct) (auto split: if_splits)

lemma policy_modules:
  assumes "assertERC7579Policy p = Inr u" "m \<in> set (mp_modules p)"
  shows "valid_address (mm_address m) \<and> code_hash (mm_codeHash m) \<and> mm_version m \<noteq> '''' \<and> \<not> mm_delegateCall m"
  using assms check_modules_each unfolding assertERC7579Policy_def by (auto split: if_splits)

lemma omap_set_all: "(k', v') \<in> set (omap_set k v m) \<Longrightarrow> (k' = k \<and> v' = v) \<or> (k', v') \<in> set m"
  by (induction k v m rule: omap_set.induct) (auto split: if_splits)

lemma install_ok:
  assumes "lifecycle_ok s"
  shows "lifecycle_ok (snd (install_module m s))"
proof (cases "install_module m s = (Inr (), s\<lparr>ml_records := omap_set (to_lower (mm_address m)) m (ml_records s)\<rparr>)")
  case True
  obtain a where a: "find (\<lambda>a. to_lower (mm_address a) = to_lower (mm_address m) \<and> mm_type a = mm_type m) (mp_modules (ml_policy s)) = Some a"
    and h: "to_lower (mm_codeHash a) = to_lower (mm_codeHash m)" "mm_version a = mm_version m"
    using True by (auto simp: install_module_def split: option.splits if_splits)
  then have "a \<in> set (mp_modules (ml_policy s))" "to_lower (mm_address a) = to_lower (mm_address m)" "mm_type a = mm_type m"
    by (auto simp: find_Some_iff)
  then have "module_pinned (ml_policy s) m"
    using h assms policy_modules unfolding module_pinned_def lifecycle_ok_def by blast
  with assms distinct_omap_set show ?thesis
    unfolding True lifecycle_ok_def by (auto dest!: omap_set_all)
next
  case False
  then have "snd (install_module m s) = s" by (auto simp: install_module_def split: option.splits if_splits)
  with assms show ?thesis by simp
qed

lemma delete_ok: "lifecycle_ok s \<Longrightarrow> lifecycle_ok (s\<lparr>ml_records := omap_delete k (ml_records s)\<rparr>)"
  unfolding lifecycle_ok_def by (auto simp: omap_delete_def distinct_map_filter)

lemma module_step_ok: "lifecycle_ok s \<Longrightarrow> lifecycle_ok (module_step e s)"
proof (cases e)
  case (Install m)
  assume "lifecycle_ok s" with Install install_ok show ?thesis by simp
next
  case (Use_module a i)
  assume "lifecycle_ok s" with Use_module show ?thesis by (simp add: use_module_def split: option.split)
next
  case (Uninstall a)
  assume "lifecycle_ok s" with Uninstall delete_ok show ?thesis by (simp add: uninstall_module_def)
next
  case (Recover_uninstall a)
  assume s: "lifecycle_ok s"
  then have "recoverUninstall a s = s\<lparr>ml_records := omap_delete (to_lower a) (ml_records s)\<rparr>"
    by (simp add: recoverUninstall_def lifecycle_ok_def)
  with s Recover_uninstall delete_ok show ?thesis by simp
qed

lemma module_policy_step: "ml_policy (module_step e s) = ml_policy s"
  by (cases e) (auto simp: install_module_def use_module_def uninstall_module_def recoverUninstall_def split: option.split)

lemma lifecycle_run:
  assumes "createERC7579Lifecycle p = Inr s"
  shows "lifecycle_ok (fold module_step evs s) \<and> ml_policy (fold module_step evs s) = p"
proof -
  have "lifecycle_ok s \<and> ml_policy s = p"
    using assms by (auto simp: createERC7579Lifecycle_def bindE_Inr lifecycle_ok_def)
  then show ?thesis
    by (induction evs arbitrary: s) (simp_all add: module_step_ok module_policy_step)
qed

text \<open>
  After any sequence of installs, uses and uninstalls, a module that executes has an
  installed manifest that matches an entry of the policy in address, type, code hash and
  version, and neither is a delegate call.
\<close>

theorem used_module_is_pinned:
  assumes "createERC7579Lifecycle p = Inr s" "use_module a input (fold module_step evs s) = (Inr out, t)"
  shows "out = input \<and> (\<exists>m. module_pinned p m \<and> to_lower (mm_address m) = to_lower a \<and> \<not> mm_delegateCall m)"
proof -
  let ?s = "fold module_step evs s"
  obtain m where m: "map_of (ml_records ?s) (to_lower a) = Some m" "\<not> mm_delegateCall m" "out = input"
    using assms(2) by (auto simp: use_module_def split: option.splits if_splits)
  with lifecycle_run [OF assms(1), of evs] map_of_SomeD [OF m(1)] show ?thesis
    unfolding lifecycle_ok_def by fastforce
qed

text \<open>The set of denied modules is never filled.\<close>

text \<open>
  No sequence of lifecycle operations makes a module denied: the denial errors of use and
  uninstall are never raised.
\<close>

theorem denial_is_unreachable:
  assumes "createERC7579Lifecycle p = Inr s"
  shows "fst (use_module a input (fold module_step evs s)) \<noteq> Inl (Plain_error ''module execution denied'')
    \<and> fst (uninstall_module a (fold module_step evs s)) \<noteq> Inl (Plain_error ''module uninstall denied; use recovery'')"
  using lifecycle_run [OF assms, of evs]
  by (auto simp: use_module_def uninstall_module_def lifecycle_ok_def split: option.split)

section \<open>The account address\<close>

lemma bar_inject:
  "CHR ''|'' \<notin> set a \<Longrightarrow> CHR ''|'' \<notin> set b \<Longrightarrow> a @ ''|'' @ x = b @ ''|'' @ y \<longleftrightarrow> a = b \<and> x = y"
  using append_sep_inject [of "CHR ''|''" a b x y] by auto

text \<open>
  The text that is hashed into an account address names the chain, the factory, the
  relying party and the credential uniquely as long as the relying party identifier contains
  no separator.
\<close>

theorem address_text_determines_inputs:
  assumes "hex_string 40 f" "hex_string 40 f'" "CHR ''|'' \<notin> set r" "CHR ''|'' \<notin> set r'"
    and "account_text n f r i = account_text n' f' r' i'"
  shows "n = n' \<and> to_lower f = to_lower f' \<and> r = r' \<and> i = i'"
  using assms(5) unfolding account_text_def
  by (simp only: append_same_eq same_append_eq bar_inject [OF show_int_no_bar show_int_no_bar] show_int_inject
    bar_inject [OF hex_string_no_bar [OF assms(1)] hex_string_no_bar [OF assms(2)]] bar_inject [OF assms(3,4)])

text \<open>
  When a separator is allowed in the relying party identifier, two different pairs of
  relying party and credential get the same account address.
\<close>

theorem address_text_ambiguous:
  "deriveDeterministicAccountAddress sha n f ''a|b'' ''c'' = deriveDeterministicAccountAddress sha n f ''a'' ''b|c''"
  by (simp add: deriveDeterministicAccountAddress_def account_text_def)

section \<open>User operations\<close>

text \<open>The bundler with a log of the operations it was asked to submit.\<close>

definition logged_bundler :: "'w bundler \<Rightarrow> ('w \<times> user_operation list) bundler" where
  "logged_bundler b = \<lparr>
     bu_simulate = (\<lambda>op ep (w, l). case bu_simulate b op ep w of (r, w') \<Rightarrow> (r, (w', l))),
     bu_send = (\<lambda>op ep (w, l). case bu_send b op ep w of (r, w') \<Rightarrow> (r, (w', l @ [op]))),
     bu_receipt = (\<lambda>h (w, l). case bu_receipt b h w of (r, w') \<Rightarrow> (r, (w', l)))\<rparr>"

definition logged_clock :: "'w clock \<Rightarrow> ('w \<times> user_operation list) clock" where
  "logged_clock k = \<lparr>ck_now = (\<lambda>(w, l). ck_now k w), ck_sleep = (\<lambda>i (w, l). (ck_sleep k i w, l))\<rparr>"

definition logged_paymaster :: "'w paymaster_port \<Rightarrow> ('w \<times> user_operation list) paymaster_port" where
  "logged_paymaster p = (\<lambda>op ep (w, l). case p op ep w of (r, w') \<Rightarrow> (r, (w', l)))"

text \<open>The operation with its sponsorship and gas estimate filled in.\<close>

definition prepared_from :: "user_operation \<Rightarrow> user_operation \<Rightarrow> bool" where
  "prepared_from op q \<longleftrightarrow> (\<exists>p d g. q = op\<lparr>uo_paymaster := p, uo_paymasterData := d, uo_preVerificationGas := g\<rparr>)"

definition send_fits :: "erc4337_config \<Rightarrow> user_operation \<Rightarrow> user_operation list \<Rightarrow> bool" where
  "send_fits c op l \<longleftrightarrow> l = [] \<or> (\<exists>q. l = [q] \<and> prepared_from op q
     \<and> assertDeployment (config_deployment c) = Inr () \<and> to_lower (uo_sender q) = to_lower (ec_account c))"

lemma prepared_steps: "prepared_from op op"
  "prepared_from op q \<Longrightarrow> prepared_from op (apply_sponsorship q x)"
  "prepared_from op q \<Longrightarrow> prepared_from op (apply_gas s q)"
  by (cases op; auto simp: prepared_from_def apply_sponsorship_def apply_gas_def split: option.splits; metis)+

lemma prepared_sender: "prepared_from op q \<Longrightarrow> uo_sender q = uo_sender op"
  by (auto simp: prepared_from_def)

abbreviation unsent :: "'w \<times> user_operation list \<Rightarrow> bool" where
  "unsent x \<equiv> snd x = []"

lemma simulate_unsent: "tripleS unsent (bu_simulate (logged_bundler b) op ep) (\<lambda>_. unsent) (\<lambda>_. unsent)"
  by (rule tripleS_I) (auto simp: logged_bundler_def split: prod.splits)

lemma sponsor_unsent: "tripleS unsent (logged_paymaster p op ep) (\<lambda>_. unsent) (\<lambda>_. unsent)"
  by (rule tripleS_I) (auto simp: logged_paymaster_def split: prod.splits)

lemma sponsored_unsent:
  "tripleS unsent (sponsored (map_option logged_paymaster p) op ep) (\<lambda>q w. unsent w \<and> prepared_from op q) (\<lambda>_. unsent)"
proof (cases p)
  case None
  then show ?thesis by (auto simp: sponsored_def prepared_steps intro!: tripleS_basic)
next
  case (Some s)
  show ?thesis unfolding Some sponsored_def option.map option.case
    by (rule tripleS_catch [where F = "\<lambda>_. unsent"], rule tripleS_bind [OF sponsor_unsent])
      (auto intro!: tripleS_basic prepared_steps)
qed

lemma send_logged:
  assumes "prepared_from op q" "assertDeployment (config_deployment c) = Inr ()" "to_lower (uo_sender op) = to_lower (ec_account c)"
  shows "tripleS unsent (bu_send (logged_bundler b) q ep) (\<lambda>_ w. send_fits c op (snd w)) (\<lambda>_ w. send_fits c op (snd w))"
  using assms prepared_sender [OF assms(1)]
  by (intro tripleS_I) (auto simp: logged_bundler_def send_fits_def split: prod.splits)

lemma send_once_logged:
  "tripleS unsent (send_once c (logged_bundler b) op (map_option logged_paymaster p))
     (\<lambda>_ w. send_fits c op (snd w)) (\<lambda>_ w. send_fits c op (snd w))"
proof -
  show ?thesis
  proof (cases "assertDeployment (config_deployment c) = Inr () \<and> to_lower (uo_sender op) = to_lower (ec_account c)")
    case False
    then show ?thesis
      by (intro tripleS_I) (auto simp: send_once_def bindS_def send_fits_def split: sum.splits if_splits)
  next
    case True
    have "tripleS (\<lambda>w. unsent w \<and> prepared_from op q) (catchS (bu_send (logged_bundler b) (apply_gas s q) (ec_entryPoint c))
        (\<lambda>_. throwS (Operation_error BUNDLER_UNAVAILABLE)))
        (\<lambda>_ w. send_fits c op (snd w)) (\<lambda>_ w. send_fits c op (snd w))" for s q
    proof (cases "prepared_from op q")
      case False
      then show ?thesis by (simp add: tripleS_def)
    next
      case q: True
      show ?thesis
        by (rule tripleS_catch [where F = "\<lambda>_ w. send_fits c op (snd w)"])
          (use q True send_logged [of op "apply_gas s q" c b] prepared_steps in \<open>auto intro!: tripleS_basic\<close>)
    qed
    note send = this
    have sim: "tripleS unsent (catchS (bu_simulate (logged_bundler b) op (ec_entryPoint c)) (\<lambda>_. throwS (Operation_error SIMULATION_FAILED)))
        (\<lambda>_. unsent) (\<lambda>_ w. send_fits c op (snd w))"
      by (rule tripleS_catch [OF simulate_unsent]) (auto intro!: tripleS_basic simp: send_fits_def)
    have spo: "tripleS unsent (sponsored (map_option logged_paymaster p) op (ec_entryPoint c))
        (\<lambda>q w. unsent w \<and> prepared_from op q) (\<lambda>_ w. send_fits c op (snd w))"
      by (rule tripleS_weaken [OF sponsored_unsent]) (auto simp: send_fits_def)
    have "send_once c (logged_bundler b) op (map_option logged_paymaster p) =
      bindS (catchS (bu_simulate (logged_bundler b) op (ec_entryPoint c)) (\<lambda>_. throwS (Operation_error SIMULATION_FAILED))) (\<lambda>simulation.
      bindS (sponsored (map_option logged_paymaster p) op (ec_entryPoint c)) (\<lambda>prepared.
      catchS (bu_send (logged_bundler b) (apply_gas simulation prepared) (ec_entryPoint c))
        (\<lambda>_. throwS (Operation_error BUNDLER_UNAVAILABLE))))"
      using True by (intro ext) (simp add: send_once_def bindS_def)
    then show ?thesis by (simp only:) (rule tripleS_bind [OF sim tripleS_bind [OF spo send]])
  qed
qed

text \<open>The polling loop sends nothing and returns only a receipt that fits.\<close>

lemma poll_fits:
  assumes "poll_receipt b k c hash deadline interval w = Some y"
  shows "\<forall>x. fst y = Inr x \<longrightarrow> receipt_fits c x"
  using assms
  by (rule poll_receipt.raw_induct [where P = "\<lambda>b k c hash deadline interval w y. \<forall>x. fst y = Inr x \<longrightarrow> receipt_fits c x", rotated])
    (auto split: if_splits prod.splits sum.splits option.splits)

lemma logged_ports:
  "snd (snd (bu_receipt (logged_bundler b) h w)) = snd w" "snd (ck_sleep (logged_clock k) i w) = snd w"
  by (auto simp: logged_bundler_def logged_clock_def split: prod.splits)

lemma poll_log:
  assumes "poll_receipt (logged_bundler b) (logged_clock k) c hash deadline interval w = Some y"
  shows "snd (snd y) = snd w"
proof -
  have "b' = logged_bundler b \<longrightarrow> k' = logged_clock k \<longrightarrow> snd (snd y) = snd w"
    if "poll_receipt b' k' c hash deadline interval w = Some y" for b' k'
    using that
  proof (rule poll_receipt.raw_induct [where P = "\<lambda>b' k' c hash deadline interval w y.
      b' = logged_bundler b \<longrightarrow> k' = logged_clock k \<longrightarrow> snd (snd y) = snd w", rotated], intro impI)
    fix poll b' k' c hash deadline interval w y
    assume IH: "\<And>b' k' c hash deadline interval w y. poll b' k' c hash deadline interval w = Some y
        \<Longrightarrow> b' = logged_bundler b \<longrightarrow> k' = logged_clock k \<longrightarrow> snd (snd y) = snd w"
      and step: "(if \<not> ck_now k' w < deadline then Some (Inl (Operation_error RECEIPT_TIMEOUT), w)
        else case bu_receipt b' hash w of (Inl e, w1) \<Rightarrow> Some (Inl e, w1)
          | (Inr None, w1) \<Rightarrow> poll b' k' c hash deadline interval (ck_sleep k' interval w1)
          | (Inr (Some r), w1) \<Rightarrow> if \<not> receipt_fits c r then Some (Inl (Operation_error CHAIN_MISMATCH), w1)
              else Some (Inr r, w1)) = Some y"
      and bk: "b' = logged_bundler b" "k' = logged_clock k"
    show "snd (snd y) = snd w"
    proof -
      obtain r w1 where Pair: "bu_receipt b' hash w = (r, w1)" by (cases "bu_receipt b' hash w")
      then have w1: "snd w1 = snd w" using logged_ports(1) [of b hash w] bk by simp
      have "snd (snd y) = snd w" if "poll b' k' c hash deadline interval (ck_sleep k' interval w1) = Some y"
        using IH [OF that] bk w1 logged_ports(2) [of k interval w1] by simp
      with step Pair w1 show ?thesis by (auto split: if_splits sum.splits option.splits)
    qed
  qed
  with assms show ?thesis by blast
qed

text \<open>
  A submission asks the bundler at most once to send, only for a sender that is the
  configured account and a checked deployment, and what it sends differs from the given
  operation only in paymaster fields and pre-verification gas; a receipt is returned only
  after that and only if it names the configured chain, entry point and account.
\<close>

theorem operation_sent_at_most_once:
  assumes "submitUserOperation c (logged_bundler b) (logged_clock k) op (map_option logged_paymaster p) timeout interval (w, [])
    = Some (r, (w', sent))"
  shows "(sent = [] \<or> (\<exists>q. sent = [q] \<and> prepared_from op q \<and> to_lower (uo_sender q) = to_lower (ec_account c)))
    \<and> (\<forall>x. r = Inr x \<longrightarrow> receipt_fits c x \<and> to_lower (or_entryPoint x) = ENTRY_POINT_V08 \<and> sent \<noteq> [])"
proof -
  obtain h w1 where h: "send_once c (logged_bundler b) op (map_option logged_paymaster p) (w, []) = (h, w1)"
    by (cases "send_once c (logged_bundler b) op (map_option logged_paymaster p) (w, [])")
  have fits: "send_fits c op (snd w1)"
    using tripleS_any [OF send_once_logged [of c b op p], of "(w, [])"] by (simp add: h)
  show ?thesis
  proof (cases h)
    case (Inl e)
    with assms h fits show ?thesis by (auto simp: submitUserOperation_def send_fits_def)
  next
    case (Inr hash)
    obtain d i where y: "poll_receipt (logged_bundler b) (logged_clock k) c hash d i w1 = Some (r, (w', sent))"
      using assms h Inr by (auto simp: submitUserOperation_def Let_def)
    from poll_log [OF y] have sent: "sent = snd w1" by simp
    have dep: "assertDeployment (config_deployment c) = Inr ()" "snd w1 \<noteq> []"
      using h Inr unfolding send_once_def
      by (auto simp: bindS_Inr logged_bundler_def catchS_def split: if_splits prod.splits sum.splits)
    then have "to_lower (ec_entryPoint c) = ENTRY_POINT_V08"
      by (auto simp: assertDeployment_def config_deployment_def split: if_splits)
    with poll_fits [OF y] sent fits dep show ?thesis by (auto simp: send_fits_def receipt_fits_def)
  qed
qed

text \<open>A clock that advances ends the loop.\<close>

definition clock_advances :: "'w bundler \<Rightarrow> 'w clock \<Rightarrow> int \<Rightarrow> bool" where
  "clock_advances b k interval \<longleftrightarrow>
     (\<forall>h w. ck_now k w < ck_now k (ck_sleep k interval (snd (bu_receipt b h w))))"

lemma poll_returns:
  assumes "clock_advances b k interval"
  shows "\<exists>y. poll_receipt b k c hash deadline interval w = Some y"
proof (induction "nat (deadline - ck_now k w)" arbitrary: w rule: less_induct)
  case less
  show ?case
  proof (cases "ck_now k w < deadline")
    case False
    then show ?thesis by (subst poll_receipt.simps) simp
  next
    case True
    obtain r w1 where r: "bu_receipt b hash w = (r, w1)" by fastforce
    have "ck_now k w < ck_now k (ck_sleep k interval w1)"
      using assms r unfolding clock_advances_def by (metis snd_conv)
    with True have "nat (deadline - ck_now k (ck_sleep k interval w1)) < nat (deadline - ck_now k w)" by simp
    from less [OF this] r show ?thesis
      by (subst poll_receipt.simps) (auto split: sum.splits option.splits)
  qed
qed

text \<open>
  C37: With a clock that advances between two polls, a submission always returns: the polling
  loop ends with a receipt, an error or the timeout, whatever the bundler answers.
\<close>

theorem submission_returns:
  assumes "clock_advances b k (case interval of None \<Rightarrow> 2000 | Some i \<Rightarrow> i)"
  shows "\<exists>y. submitUserOperation c b k op paymaster timeout interval w = Some y"
  using poll_returns [OF assms]
  by (auto simp: submitUserOperation_def Let_def split: prod.split sum.split)

section \<open>Examples\<close>

definition ex_address :: "char \<Rightarrow> string" where
  "ex_address c = ''0x000000000000000000000000000000000000000'' @ [c]"

definition ex_recovery :: recovery_policy where
  "ex_recovery = \<lparr>rp_account = ex_address (CHR ''1''), rp_guardians = [ex_address (CHR ''A''), ex_address (CHR ''b''), ex_address (CHR ''c'')],
     rp_threshold = 2, rp_timelockBlocks = 10\<rparr>"

definition ex_controller :: recovery_controller where
  "ex_controller = \<lparr>rc_account = ex_address (CHR ''1''), rc_guardians = [ex_address (CHR ''a''), ex_address (CHR ''b''), ex_address (CHR ''c'')],
     rc_threshold = 2, rc_timelockBlocks = 10, rc_signer = ex_address (CHR ''2''), rc_pending = None\<rparr>"

definition ex_events :: "recovery_event list" where
  "ex_events = [Proposed (ex_address (CHR ''3'')) 5, Approve (ex_address (CHR ''A'')), Approve (ex_address (CHR ''a'')),
     Approve (ex_address (CHR ''c''))]"

lemma ex_created: "createRecoveryController ex_recovery (ex_address (CHR ''2'')) = Inr ex_controller"
  by code_simp

lemma ex_executed: "fst (execute_recovery (Whole 15) (recovery_run (\<lambda>_. []) ex_events ex_controller)) = Inr (ex_address (CHR ''3''))"
  by code_simp

theorem rotation_needs_quorum_and_timelock_witness:
  "\<exists>d. execute_recovery (Whole 15) (recovery_run (\<lambda>_. []) ex_events ex_controller) = (Inr (ex_address (CHR ''3'')), d)
     \<and> rc_signer d = ex_address (CHR ''3'')"
proof -
  obtain d where d: "execute_recovery (Whole 15) (recovery_run (\<lambda>_. []) ex_events ex_controller) = (Inr (ex_address (CHR ''3'')), d)"
    using ex_executed by (metis prod.collapse)
  from rotation_needs_quorum_and_timelock [OF ex_created d] have "rc_signer d = ex_address (CHR ''3'')" by blast
  with d show ?thesis by blast
qed

definition ex_proposal :: recovery_proposal where
  "ex_proposal = \<lparr>pr_id = ''i'', pr_account = ex_address (CHR ''1''), pr_newSigner = ex_address (CHR ''3''),
     pr_proposedAtBlock = 5, pr_approvals = [ex_address (CHR ''a''), ex_address (CHR ''b'')]\<rparr>"

theorem nan_block_skips_timelock_witness:
  "fst (execute_recovery Not_a_number (ex_controller\<lparr>rc_pending := Some ex_proposal\<rparr>)) = Inr (ex_address (CHR ''3''))"
proof -
  have "fst (execute_recovery Not_a_number (ex_controller\<lparr>rc_pending := Some ex_proposal\<rparr>)) = Inr (pr_newSigner ex_proposal)"
    by (rule nan_block_skips_timelock) (simp_all add: ex_controller_def ex_proposal_def)
  then show ?thesis by (simp add: ex_proposal_def)
qed

definition ex_module :: module_manifest where
  "ex_module = \<lparr>mm_address = ex_address (CHR ''A''), mm_type = Validator, mm_version = ''1'',
     mm_codeHash = ''0x'' @ replicate 64 (CHR ''a''), mm_delegateCall = False, mm_draft = ERC7579_DRAFT_VERSION\<rparr>"

definition ex_policy :: module_policy where
  "ex_policy = \<lparr>mp_draft = ERC7579_DRAFT_VERSION, mp_adapter = ERC7579_ADAPTER_VERSION, mp_modules = [ex_module]\<rparr>"

definition ex_lifecycle :: module_lifecycle where
  "ex_lifecycle = \<lparr>ml_policy = ex_policy, ml_records = [], ml_denied = {}\<rparr>"

lemma ex_lifecycle_created: "createERC7579Lifecycle ex_policy = Inr ex_lifecycle"
proof -
  have "assertERC7579Policy ex_policy = Inr ()" by code_simp
  then show ?thesis by (simp add: createERC7579Lifecycle_def ex_lifecycle_def)
qed

theorem used_module_is_pinned_witness:
  "\<exists>m. module_pinned ex_policy m \<and> to_lower (mm_address m) = ex_address (CHR ''a'')"
proof -
  have "map_of (ml_records (fold module_step [Install ex_module] ex_lifecycle)) (to_lower (ex_address (CHR ''a''))) = Some ex_module"
    by code_simp
  then have "fst (use_module (ex_address (CHR ''a'')) ''in'' (fold module_step [Install ex_module] ex_lifecycle)) = Inr ''in''"
    by (simp add: use_module_def ex_module_def ex_lifecycle_def install_module_def split: option.split) 
  then obtain t where t: "use_module (ex_address (CHR ''a'')) ''in'' (fold module_step [Install ex_module] ex_lifecycle) = (Inr ''in'', t)"
    by (metis prod.collapse)
  have "to_lower (ex_address (CHR ''a'')) = ex_address (CHR ''a'')" by code_simp
  with used_module_is_pinned [OF ex_lifecycle_created t] show ?thesis by auto
qed

theorem denial_is_unreachable_witness:
  "fst (use_module (ex_address (CHR ''a'')) ''in'' (fold module_step [Install ex_module] ex_lifecycle)) \<noteq> Inl (Plain_error ''module execution denied'')"
  using denial_is_unreachable [OF ex_lifecycle_created] by blast

theorem address_text_determines_inputs_witness:
  "account_text 1 (ex_address (CHR ''a'')) ''wallet.example'' ''cred-1'' \<noteq> account_text 1 (ex_address (CHR ''a'')) ''wallet.example'' ''cred-2''"
proof
  assume e: "account_text 1 (ex_address (CHR ''a'')) ''wallet.example'' ''cred-1'' = account_text 1 (ex_address (CHR ''a'')) ''wallet.example'' ''cred-2''"
  have "hex_string 40 (ex_address (CHR ''a''))" "CHR ''|'' \<notin> set ''wallet.example''" by code_simp+
  from address_text_determines_inputs [OF this(1,1,2,2) e] show False by simp
qed

text \<open>A bundler that confirms at the second poll, with a clock that counts.\<close>

definition ex_config :: erc4337_config where
  "ex_config = \<lparr>ec_chainId = 1, ec_rpcUrl = ''r'', ec_bundlerUrl = ''b'', ec_entryPoint = ENTRY_POINT_V08,
     ec_entryPointVersion = ''0.8.0'', ec_account = ex_address (CHR ''a''), ec_accountCodeHash = ''0x'' @ replicate 64 (CHR ''a''),
     ec_paymasterUrl = None\<rparr>"

definition ex_operation :: user_operation where
  "ex_operation = \<lparr>uo_sender = ex_address (CHR ''A''), uo_nonce = 1, uo_callData = ''0x'', uo_callGasLimit = 1,
     uo_verificationGasLimit = 1, uo_preVerificationGas = 0, uo_maxFeePerGas = 1, uo_maxPriorityFeePerGas = 1,
     uo_signature = ''0x'', uo_factory = None, uo_factoryData = None, uo_paymaster = None, uo_paymasterData = None,
     uo_paymasterVerificationGasLimit = None, uo_paymasterPostOpGasLimit = None\<rparr>"

definition ex_receipt :: operation_receipt where
  "ex_receipt = \<lparr>or_userOperationHash = ''0x1'', or_transactionHash = ''0x2'', or_blockNumber = 7, or_success = True,
     or_entryPoint = ENTRY_POINT_V08, or_chainId = 1, or_sender = ex_address (CHR ''a'')\<rparr>"

definition ex_bundler :: "int bundler" where
  "ex_bundler = \<lparr>bu_simulate = (\<lambda>op ep w. (Inr (Some 9), w)), bu_send = (\<lambda>op ep w. (Inr ''0x1'', w)),
     bu_receipt = (\<lambda>h w. (Inr (if w < 5 then None else Some ex_receipt), w))\<rparr>"

definition ex_clock :: "int clock" where
  "ex_clock = \<lparr>ck_now = (\<lambda>w. w), ck_sleep = (\<lambda>i w. w + i)\<rparr>"

theorem submission_returns_witness:
  "\<exists>y. submitUserOperation ex_config ex_bundler ex_clock ex_operation None None None 0 = Some y"
  by (rule submission_returns) (simp add: clock_advances_def ex_bundler_def ex_clock_def)

theorem operation_sent_at_most_once_witness:
  "\<exists>w' q. submitUserOperation ex_config (logged_bundler ex_bundler) (logged_clock ex_clock) ex_operation
      (map_option logged_paymaster None) (Some 100) (Some 7) (0, []) = Some (Inr ex_receipt, (w', [q]))
     \<and> prepared_from ex_operation q \<and> receipt_fits ex_config ex_receipt"
proof -
  let ?q = "ex_operation\<lparr>uo_preVerificationGas := 9\<rparr>"
  have dep: "assertDeployment (config_deployment ex_config) = Inr ()" by code_simp
  have "to_lower (uo_sender ex_operation) = to_lower (ec_account ex_config)" by code_simp
  with dep have send: "send_once ex_config (logged_bundler ex_bundler) ex_operation (map_option logged_paymaster None) (0, []) = (Inr ''0x1'', (0, [?q]))"
    by (simp add: send_once_def bindS_def catchS_def sponsored_def logged_bundler_def ex_bundler_def apply_gas_def ex_operation_def)
  have fits: "receipt_fits ex_config ex_receipt" by code_simp
  let ?poll = "poll_receipt (logged_bundler ex_bundler) (logged_clock ex_clock) ex_config ''0x1'' 100 7"
  have second: "?poll (7, l) = Some (Inr ex_receipt, (7, l))" for l
    by (subst poll_receipt.simps) (simp add: logged_bundler_def logged_clock_def ex_bundler_def ex_clock_def fits)
  have "?poll (0, l) = ?poll (7, l)" for l
    by (subst poll_receipt.simps) (simp add: logged_bundler_def logged_clock_def ex_bundler_def ex_clock_def)
  note first = this [unfolded second]
  have ck_start: "ck_now (logged_clock ex_clock) (0, l) = 0" for l by (simp add: logged_clock_def ex_clock_def)
  have run: "submitUserOperation ex_config (logged_bundler ex_bundler) (logged_clock ex_clock) ex_operation
      (map_option logged_paymaster None) (Some 100) (Some 7) (0, []) = Some (Inr ex_receipt, (7, [?q]))"
    unfolding submitUserOperation_def send by (simp add: ck_start first)
  from operation_sent_at_most_once [OF run] run show ?thesis by auto
qed

end
