(* ===== verification/CredentialDomain.thy ===== *)
theory CredentialDomain
  imports Interfaces JsValue
begin

text \<open>
  The credential domain (\<open>packages/credential-domain/src/index.ts\<close>): attestations that are
  consumed on chain, presentation challenges with their replay store, issuer trust bundles,
  the cache of credential status with its guard against private hosts, and the parsing of
  credential templates and issuer profiles.  Signers, verifiers, hashes, the status transport,
  the platform's URL parser, \<open>JSON.parse\<close> and the UTF-8 codec are parameters.
\<close>

section \<open>Errors\<close>

text \<open>An \<open>Error\<close> with its message, and the errors the platform raises itself.\<close>

datatype domain_exn = Error string | Policy_error string | Replay_store_error | Platform_error

section \<open>Attestations\<close>

record attestation =
  at_version :: int
  at_chainId :: int
  at_consumer :: string
  at_policy :: string
  at_subject :: string
  at_nonce :: string
  at_issuedAt :: int
  at_expiresAt :: int
  at_attestor :: string
  at_attestorVersion :: string

definition hex32 :: "string \<Rightarrow> string \<Rightarrow> domain_exn + string" where
  "hex32 v name = (if \<not> hex_string 64 v then Inl (Error (name @ '' must be bytes32'')) else Inr v)"

definition domain_address :: "string \<Rightarrow> string \<Rightarrow> domain_exn + string" where
  "domain_address v name = (if \<not> valid_address v then Inl (Error (name @ '' must be a non-zero address'')) else Inr v)"

text \<open>The second argument is the \<open>signature\<close> property, when there is one.\<close>

definition validateAttestation :: "attestation \<Rightarrow> string option \<Rightarrow> domain_exn + unit" where
  "validateAttestation a sig =
     (if at_version a \<noteq> 1 then Inl (Error ''unsupported attestation version'')
      else if \<not> safe_integer (at_chainId a) \<or> at_chainId a \<le> 0 then Inl (Error ''invalid chain id'')
      else bindE (domain_address (at_consumer a) ''consumer'') (\<lambda>_.
        bindE (hex32 (at_policy a) ''policy'') (\<lambda>_.
        bindE (hex32 (at_subject a) ''subject'') (\<lambda>_.
        bindE (hex32 (at_nonce a) ''nonce'') (\<lambda>_.
        if \<not> safe_integer (at_issuedAt a) \<or> \<not> safe_integer (at_expiresAt a) \<or> at_expiresAt a \<le> at_issuedAt a
        then Inl (Error ''invalid attestation lifetime'')
        else bindE (domain_address (at_attestor a) ''attestor'') (\<lambda>_.
          bindE (hex32 (at_attestorVersion a) ''attestor version'') (\<lambda>_.
          case sig of None \<Rightarrow> Inr ()
          | Some g \<Rightarrow> if \<not> hex_string 130 g then Inl (Error ''signature must be 65 bytes'') else Inr ())))))))"

fun bar_join :: "string list \<Rightarrow> string" where
  "bar_join [] = []"
| "bar_join [x] = x"
| "bar_join (x # y # xs) = x @ CHR ''|'' # bar_join (y # xs)"

definition attestation_fields :: "attestation \<Rightarrow> string list" where
  "attestation_fields a = [''ssw-onchain-attestation-v1'', show_int (at_version a), show_int (at_chainId a),
     to_lower (at_consumer a), to_lower (at_policy a), to_lower (at_subject a), to_lower (at_nonce a),
     show_int (at_issuedAt a), show_int (at_expiresAt a), to_lower (at_attestor a), to_lower (at_attestorVersion a)]"

definition attestationSigningPayload :: "attestation \<Rightarrow> string option \<Rightarrow> domain_exn + string" where
  "attestationSigningPayload a sig = bindE (validateAttestation a sig) (\<lambda>_. Inr (bar_join (attestation_fields a)))"

definition signAttestation ::
  "attestation \<Rightarrow> (string \<Rightarrow> attestation \<Rightarrow> domain_exn + string) \<Rightarrow> (string \<Rightarrow> string) \<Rightarrow> domain_exn + attestation \<times> string" where
  "signAttestation a signer hash = bindE (validateAttestation a None) (\<lambda>_.
     bindE (attestationSigningPayload a None) (\<lambda>p.
     bindE (signer (hash p) a) (\<lambda>sig.
     bindE (validateAttestation a (Some sig)) (\<lambda>_. Inr (a, sig)))))"

definition verifyAttestation ::
  "attestation \<Rightarrow> string \<Rightarrow> (string \<Rightarrow> string \<Rightarrow> string \<Rightarrow> domain_exn + bool) \<Rightarrow> (string \<Rightarrow> string) \<Rightarrow> int \<Rightarrow> domain_exn + bool" where
  "verifyAttestation a sig verifier hash now = bindE (validateAttestation a (Some sig)) (\<lambda>_.
     if now < at_issuedAt a \<or> at_expiresAt a \<le> now then Inr False
     else bindE (attestationSigningPayload a (Some sig)) (\<lambda>p. verifier (hash p) sig (at_attestor a)))"

section \<open>Base 64\<close>

text \<open>\<open>btoa\<close> and \<open>atob\<close> of the platform, on binary strings.\<close>

definition b64_char :: "nat \<Rightarrow> char" where
  "b64_char n = ''ABCDEFGHIJKLMNOPQRSTUVWXYZabcdefghijklmnopqrstuvwxyz0123456789+/'' ! n"

definition b64_alphabet :: string where
  "b64_alphabet = ''ABCDEFGHIJKLMNOPQRSTUVWXYZabcdefghijklmnopqrstuvwxyz0123456789+/''"

definition b64_value :: "char \<Rightarrow> nat" where
  "b64_value c = length (takeWhile (\<lambda>d. d \<noteq> c) b64_alphabet)"

definition sextets :: "nat \<Rightarrow> nat \<Rightarrow> nat \<Rightarrow> nat list" where
  "sextets a b c = [a div 4, (a mod 4) * 16 + b div 16, (b mod 16) * 4 + c div 64, c mod 64]"

fun btoa :: "string \<Rightarrow> string" where
  "btoa [] = []"
| "btoa [a] = map b64_char (take 2 (sextets (of_char a) 0 0)) @ ''==''"
| "btoa [a, b] = map b64_char (take 3 (sextets (of_char a) (of_char b) 0)) @ ''=''"
| "btoa (a # b # c # r) = map b64_char (sextets (of_char a) (of_char b) (of_char c)) @ btoa r"

fun b64_bytes :: "nat list \<Rightarrow> string" where
  "b64_bytes (p # q # r # s # ns) = char_of (p * 4 + q div 16) # char_of ((q mod 16) * 16 + r div 4)
     # char_of ((r mod 4) * 64 + s) # b64_bytes ns"
| "b64_bytes [p, q, r] = [char_of (p * 4 + q div 16), char_of ((q mod 16) * 16 + r div 4)]"
| "b64_bytes [p, q] = [char_of (p * 4 + q div 16)]"
| "b64_bytes _ = []"

definition unpad :: "string \<Rightarrow> string" where
  "unpad s = (if length s mod 4 = 0 then
     (if s \<noteq> '''' \<and> last s = CHR ''='' then
        (if butlast s \<noteq> '''' \<and> last (butlast s) = CHR ''='' then butlast (butlast s) else butlast s)
      else s) else s)"

definition atob :: "string \<Rightarrow> domain_exn + string" where
  "atob s = (let t = unpad s in
     if length t mod 4 = 1 \<or> \<not> list_all (\<lambda>c. c \<in> set b64_alphabet) t then Inl Platform_error
     else Inr (b64_bytes (map b64_value t)))"

definition url_char :: "char \<Rightarrow> char" where
  "url_char c = (if c = CHR ''+'' then CHR ''-'' else if c = CHR ''/'' then CHR ''_'' else c)"

definition plain_char :: "char \<Rightarrow> char" where
  "plain_char c = (if c = CHR ''-'' then CHR ''+'' else if c = CHR ''_'' then CHR ''/'' else c)"

definition base64Url :: "string \<Rightarrow> string" where
  "base64Url bytes = rev (dropWhile (\<lambda>c. c = CHR ''='') (rev (map url_char (btoa bytes))))"

definition base64url_char :: "char \<Rightarrow> bool" where
  "base64url_char c \<longleftrightarrow> is_alnum c \<or> c = CHR ''_'' \<or> c = CHR ''-''"

definition fromBase64Url :: "string \<Rightarrow> domain_exn + string" where
  "fromBase64Url v = (if v = '''' \<or> \<not> list_all base64url_char v then Inl (Error ''invalid challenge encoding'')
     else atob (map plain_char v @ replicate ((4 - length v mod 4) mod 4) (CHR ''='')))"

section \<open>Challenges\<close>

record challenge =
  ch_value :: string
  ch_audience :: string
  ch_issuedAt :: int
  ch_expiresAt :: int

text \<open>The random port returns bytes or something that is no byte array.\<close>

definition createChallenge ::
  "string \<Rightarrow> int option \<Rightarrow> int option \<Rightarrow> int \<Rightarrow> (int \<Rightarrow> domain_exn + string option) \<Rightarrow> domain_exn + challenge" where
  "createChallenge audience ttl nbytes issuedAt random =
     (if audience = '''' \<or> 256 < length audience then Inl (Policy_error ''invalid audience'') else
      let ttlMs = (case ttl of None \<Rightarrow> 60000 | Some n \<Rightarrow> n); bytes = (case nbytes of None \<Rightarrow> 32 | Some n \<Rightarrow> n) in
      if ttlMs < 1000 \<or> 300000 < ttlMs then Inl (Policy_error ''ttl outside bounded policy'')
      else if bytes < 16 then Inl (Policy_error ''challenge entropy must be at least 128 bits'')
      else bindE (random bytes) (\<lambda>g. case g of
          None \<Rightarrow> Inl (Policy_error ''random port returned insufficient entropy'')
        | Some b \<Rightarrow> if length b < 16 then Inl (Policy_error ''random port returned insufficient entropy'')
            else Inr \<lparr>ch_value = base64Url b, ch_audience = audience, ch_issuedAt = issuedAt, ch_expiresAt = issuedAt + ttlMs\<rparr>))"

datatype replay_code =
    CHALLENGE_EXPIRED | CHALLENGE_WRONG_AUDIENCE | CHALLENGE_UNKNOWN | CHALLENGE_REUSED | REPLAY_STORE_FAILURE

record consume_request =
  cq_value :: string
  cq_audience :: string
  cq_now :: int

record stored_challenge = challenge +
  ch_consumed :: bool

type_synonym replay_store = "string \<rightharpoonup> stored_challenge"

definition challenge_issue :: "challenge \<Rightarrow> (replay_store, domain_exn, unit) meth" where
  "challenge_issue c st = (if st (ch_value c) \<noteq> None then (Inl (Error ''challenge collision''), st)
     else (Inr (), st(ch_value c \<mapsto> challenge.extend c \<lparr>ch_consumed = False\<rparr>)))"

definition challenge_consume :: "consume_request \<Rightarrow> replay_store \<Rightarrow> replay_code option \<times> replay_store" where
  "challenge_consume rq st = (case st (cq_value rq) of
       None \<Rightarrow> (Some CHALLENGE_UNKNOWN, st)
     | Some e \<Rightarrow> let used = st(cq_value rq \<mapsto> e\<lparr>ch_consumed := True\<rparr>) in
         if ch_consumed e then (Some CHALLENGE_REUSED, st)
         else if ch_expiresAt e + 30000 < cq_now rq then (Some CHALLENGE_EXPIRED, used)
         else if ch_audience e \<noteq> cq_audience rq then (Some CHALLENGE_WRONG_AUDIENCE, used)
         else (None, used))"

text \<open>\<open>verifyChallenge\<close> over any replay store; a throwing store fails closed.\<close>

definition verifyChallenge ::
  "(consume_request \<Rightarrow> ('s, domain_exn, replay_code option) meth) \<Rightarrow> consume_request \<Rightarrow> challenge \<Rightarrow> 's
   \<Rightarrow> (replay_code + challenge) \<times> 's" where
  "verifyChallenge consume rq c s =
     (if cq_value rq \<noteq> ch_value c then (Inl CHALLENGE_UNKNOWN, s)
      else case consume rq s of
        (Inr None, t) \<Rightarrow> (Inr c, t)
      | (Inr (Some f), t) \<Rightarrow> (Inl f, t)
      | (Inl _, t) \<Rightarrow> (Inl REPLAY_STORE_FAILURE, t))"

definition in_memory_consume :: "consume_request \<Rightarrow> (replay_store, domain_exn, replay_code option) meth" where
  "in_memory_consume rq s = (case challenge_consume rq s of (f, t) \<Rightarrow> (Inr f, t))"

definition challenge_json :: "challenge \<Rightarrow> string" where
  "challenge_json c = ''{'' @ comma_join [json_string ''value'' @ '':'' @ json_string (ch_value c),
     json_string ''audience'' @ '':'' @ json_string (ch_audience c),
     json_string ''issuedAt'' @ '':'' @ show_int (ch_issuedAt c),
     json_string ''expiresAt'' @ '':'' @ show_int (ch_expiresAt c)] @ ''}''"

definition encodeChallenge :: "(string \<Rightarrow> string) \<Rightarrow> challenge \<Rightarrow> string" where
  "encodeChallenge utf8 c = base64Url (utf8 (challenge_json c))"

definition decodeChallenge ::
  "(string \<Rightarrow> string) \<Rightarrow> (string \<Rightarrow> domain_exn + jsval) \<Rightarrow> string \<Rightarrow> domain_exn + challenge" where
  "decodeChallenge decode json v = bindE (fromBase64Url v) (\<lambda>b.
     bindE (json (decode b)) (\<lambda>p. case p of
       JObj es \<Rightarrow> (case (jfield es ''value'', jfield es ''audience'', jfield es ''issuedAt'', jfield es ''expiresAt'') of
           (JStr x, JStr a, JInt i, JInt e) \<Rightarrow> bindE (fromBase64Url x) (\<lambda>y.
              if length y < 16 then Inl (Policy_error ''challenge entropy below minimum'')
              else Inr \<lparr>ch_value = x, ch_audience = a, ch_issuedAt = i, ch_expiresAt = e\<rparr>)
         | _ \<Rightarrow> Inl (Policy_error ''invalid challenge''))
     | _ \<Rightarrow> Inl (Policy_error ''invalid challenge'')))"

section \<open>Issuer trust\<close>

datatype trust_code = Trusted | Unknown_issuer | Untrusted_key | Unsupported_version

record trusted_issuer =
  ti_issuer :: string
  ti_keyIds :: "string list"

record trust_bundle =
  tb_version :: int
  tb_expiresAt :: int
  tb_issuers :: "trusted_issuer list"

definition evaluateIssuerTrust :: "trust_bundle \<Rightarrow> string \<Rightarrow> string \<Rightarrow> int list option \<Rightarrow> int \<Rightarrow> bool \<times> trust_code" where
  "evaluateIssuerTrust b issuer keyId supported now =
     (let versions = (case supported of None \<Rightarrow> [1] | Some vs \<Rightarrow> vs) in
      if tb_version b \<notin> set versions then (False, Unsupported_version)
      else if tb_expiresAt b \<le> now then (False, Unknown_issuer)
      else case find (\<lambda>e. ti_issuer e = issuer) (tb_issuers b) of
        None \<Rightarrow> (False, Unknown_issuer)
      | Some t \<Rightarrow> if keyId \<notin> set (ti_keyIds t) then (False, Untrusted_key) else (True, Trusted))"

section \<open>Credential status\<close>

text \<open>What \<open>new URL\<close> returns.\<close>

record url_parts =
  ur_protocol :: string
  ur_hostname :: string
  ur_username :: string
  ur_password :: string
  ur_href :: string

type_synonym url_parser = "string \<Rightarrow> url_parts option"

definition has_prefix :: "string \<Rightarrow> string \<Rightarrow> bool" where
  "has_prefix p s \<longleftrightarrow> take (length p) s = p"

definition has_suffix :: "string \<Rightarrow> string \<Rightarrow> bool" where
  "has_suffix p s \<longleftrightarrow> has_prefix (rev p) (rev s)"

text \<open>The digits before the next dot, if there is one right after them.\<close>

definition octet :: "string \<Rightarrow> string option" where
  "octet s = (let d = takeWhile is_digit s; r = dropWhile is_digit s in
     if r \<noteq> '''' \<and> hd r = CHR ''.'' then Some d else None)"

definition isPrivateHost :: "string \<Rightarrow> bool" where
  "isPrivateHost hostname = (let host = to_lower hostname in
     if host = ''localhost'' \<or> has_suffix ''.localhost'' host \<or> host = ''::1'' then True
     else if has_prefix ''127.'' host \<or> has_prefix ''10.'' host \<or> has_prefix ''192.168.'' host \<or> has_prefix ''169.254.'' host
        \<or> (has_prefix ''100.'' host \<and> (case octet (drop 4 host) of None \<Rightarrow> False
             | Some d \<Rightarrow> (length d = 2 \<and> 64 \<le> read_nat d) \<or> (length d = 3 \<and> 100 \<le> read_nat d \<and> read_nat d \<le> 127)))
     then True
     else has_prefix ''172.'' host \<and> (case octet (drop 4 host) of None \<Rightarrow> False
       | Some d \<Rightarrow> 1 \<le> length d \<and> length d \<le> 3 \<and> 16 \<le> read_nat d \<and> read_nat d \<le> 31))"

definition boundedStatusUrl :: "url_parser \<Rightarrow> string \<Rightarrow> domain_exn + url_parts" where
  "boundedStatusUrl parse v = (case parse v of
       None \<Rightarrow> Inl (Error ''ssrf_blocked'')
     | Some u \<Rightarrow> if ur_protocol u \<noteq> ''https:'' \<or> isPrivateHost (ur_hostname u) \<or> ur_username u \<noteq> '''' \<or> ur_password u \<noteq> ''''
         then Inl (Error ''ssrf_blocked'') else Inr u)"

record status_record =
  sr_status :: string
  sr_expiresAt :: int
  sr_index :: "jsval option"

record status_result =
  sl_ok :: bool
  sl_code :: string
  sl_status :: "string option"
  sl_cached :: bool

text \<open>The race of the transport against the timeout: a response, or an error with its message.\<close>

datatype transport_outcome = Response int string | Rejected string

record 'w status_cache =
  st_entries :: "string \<rightharpoonup> status_record \<times> int"
  st_net :: 'w

record 'w status_port =
  sp_transport :: "string \<Rightarrow> 'w \<Rightarrow> transport_outcome \<times> 'w"
  sp_url :: url_parser
  sp_json :: "string \<Rightarrow> jsval option"
  sp_maxResponseBytes :: int

text \<open>
  The body as a status record: \<open>Inl\<close> is the message of the error.  A number, a text or a
  list has no \<open>status\<close>; reading a property of \<open>null\<close> throws.
\<close>

definition status_fields :: "jsval \<Rightarrow> (string \<times> jsval) list option" where
  "status_fields v = (case v of JObj es \<Rightarrow> Some es | JNull \<Rightarrow> None | _ \<Rightarrow> Some [])"

definition status_index :: "jsval \<Rightarrow> jsval option" where
  "status_index v = (case v of JInt n \<Rightarrow> Some (JInt n) | JFraction \<Rightarrow> Some JFraction | JNonFinite \<Rightarrow> Some JNonFinite | _ \<Rightarrow> None)"

definition read_status :: "'w status_port \<Rightarrow> int \<Rightarrow> transport_outcome \<Rightarrow> string + status_record" where
  "read_status p now out = (case out of
       Rejected m \<Rightarrow> Inl m
     | Response status body \<Rightarrow>
         if status < 200 \<or> 300 \<le> status then Inl ''unavailable''
         else if sp_maxResponseBytes p < int (length body) then Inl ''invalid_response''
         else case sp_json p body of
           None \<Rightarrow> Inl ''syntax''
         | Some v \<Rightarrow> (case status_fields v of
             None \<Rightarrow> Inl ''type''
           | Some es \<Rightarrow> (case (jfield es ''status'', jfield es ''expiresAt'') of
               (JStr s, JInt e) \<Rightarrow>
                 if s \<notin> {''valid'', ''revoked'', ''suspended''} \<or> \<not> safe_integer e \<or> e \<le> now
                 then Inl ''invalid_response''
                 else Inr \<lparr>sr_status = s, sr_expiresAt = e, sr_index = status_index (jfield es ''index'')\<rparr>
             | _ \<Rightarrow> Inl ''invalid_response'')))"

definition status_of_record :: "status_record \<Rightarrow> bool \<Rightarrow> status_result" where
  "status_of_record r cached = \<lparr>sl_ok = (sr_status r = ''valid''), sl_code = sr_status r,
     sl_status = Some (sr_status r), sl_cached = cached\<rparr>"

definition status_failure :: "string \<Rightarrow> status_result" where
  "status_failure code = \<lparr>sl_ok = False, sl_code = code, sl_status = None, sl_cached = False\<rparr>"

definition status_lookup :: "'w status_port \<Rightarrow> string \<Rightarrow> int \<Rightarrow> 'w status_cache \<Rightarrow> status_result \<times> 'w status_cache" where
  "status_lookup p urlValue now w = (case boundedStatusUrl (sp_url p) urlValue of
       Inl _ \<Rightarrow> (status_failure ''ssrf_blocked'', w)
     | Inr url \<Rightarrow>
         let k = ur_href url; cached = st_entries w k;
             ask = (case sp_transport p k (st_net w) of (out, net) \<Rightarrow>
               let w1 = w\<lparr>st_net := net\<rparr> in
               (case read_status p now out of
                  Inr r \<Rightarrow> (status_of_record r False, w1\<lparr>st_entries := (st_entries w1)(k \<mapsto> (r, now))\<rparr>)
                | Inl m \<Rightarrow> if m = ''invalid_response'' then (status_failure ''invalid_response'', w1)
                    else (case cached of
                        Some (r, _) \<Rightarrow> (\<lparr>sl_ok = False, sl_code = ''stale'', sl_status = Some (sr_status r), sl_cached = True\<rparr>, w1)
                      | None \<Rightarrow> (status_failure ''unavailable'', w1))))
         in case cached of
              Some (r, _) \<Rightarrow> if now < sr_expiresAt r then (status_of_record r True, w) else ask
            | None \<Rightarrow> ask)"

section \<open>Templates and issuers\<close>

record claim_def =
  cd_name :: string
  cd_type :: jsval
  cd_required :: bool
  cd_selective :: bool

record credential_template =
  ct_tenantId :: string
  ct_templateId :: string
  ct_version :: int
  ct_type :: string
  ct_assurance :: string
  ct_formats :: "string list"
  ct_claims :: "claim_def list"
  ct_status :: jsval

record issuer_profile =
  ip_tenantId :: string
  ip_issuerId :: string
  ip_issuerUri :: string
  ip_assurance :: string
  ip_keyRef :: string
  ip_templates :: "string list"

definition assurance_levels :: "string list" where
  "assurance_levels = [''self_attested'', ''institutional'', ''government'', ''qualified'', ''pid'', ''eaa'', ''qeaa'']"

definition credential_formats :: "string list" where
  "credential_formats = [''sd-jwt-vc'', ''iso-mdoc'', ''w3c-vc-di'', ''jwt-vc-legacy'']"

text \<open>\<open>/@|\\s|\\+?[0-9][0-9 ()-]{7,}/u\<close>.\<close>

definition phone_char :: "char \<Rightarrow> bool" where
  "phone_char c \<longleftrightarrow> is_digit c \<or> c \<in> set '' ()-''"

fun phone_like :: "string \<Rightarrow> bool" where
  "phone_like [] = False"
| "phone_like (c # r) = ((is_digit c \<and> 7 \<le> length (takeWhile phone_char r)) \<or> phone_like r)"

definition pii_like :: "string \<Rightarrow> bool" where
  "pii_like s \<longleftrightarrow> list_ex (\<lambda>c. c = CHR ''@'' \<or> is_space c) s \<or> phone_like s"

definition domain_id :: "string \<Rightarrow> bool" where
  "domain_id s \<longleftrightarrow> opaque_id s \<and> \<not> pii_like s"

definition assertOpaqueId :: "jsval \<Rightarrow> string \<Rightarrow> domain_exn + string" where
  "assertOpaqueId v name = (case v of JStr s \<Rightarrow>
       if domain_id s then Inr s else Inl (Error (name @ '' must be an opaque identifier''))
     | _ \<Rightarrow> Inl (Error (name @ '' must be an opaque identifier'')))"

definition assertStrictRecord :: "jsval \<Rightarrow> string list \<Rightarrow> string \<Rightarrow> domain_exn + (string \<times> jsval) list" where
  "assertStrictRecord v keys name = (case v of JObj es \<Rightarrow>
       (case find (\<lambda>k. k \<notin> set keys) (map fst es) of
          None \<Rightarrow> Inr es
        | Some k \<Rightarrow> Inl (Error (name @ '' contains unknown field '' @ k)))
     | _ \<Rightarrow> Inl (Error (name @ '' must be an object'')))"

definition assertHttps :: "url_parser \<Rightarrow> jsval \<Rightarrow> string \<Rightarrow> domain_exn + string" where
  "assertHttps parse v name = (case v of JStr s \<Rightarrow>
       (case parse s of
          None \<Rightarrow> Inl Platform_error
        | Some u \<Rightarrow> if ur_protocol u \<noteq> ''https:'' \<or> ur_username u \<noteq> '''' \<or> ur_password u \<noteq> ''''
            then Inl (Error (name @ '' must be https'')) else Inr s)
     | _ \<Rightarrow> Inl (Error (name @ '' must be https'')))"

text \<open>
  \<open>words.includes(String(value))\<close> for words that are no number, no boolean and no object's
  text: \<open>String\<close> of a list of one element is the text of that element.
\<close>

fun reads_as :: "string list \<Rightarrow> jsval \<Rightarrow> bool" where
  "reads_as ws (JStr s) = (s \<in> set ws)"
| "reads_as ws (JArr [v]) = reads_as ws v"
| "reads_as ws _ = False"

definition one_of_set :: "string list \<Rightarrow> jsval \<Rightarrow> bool" where
  "one_of_set ws v \<longleftrightarrow> (case v of JStr s \<Rightarrow> s \<in> set ws | _ \<Rightarrow> False)"

definition parse_claim :: "string set \<Rightarrow> jsval \<Rightarrow> domain_exn + claim_def" where
  "parse_claim names v =
     bindE (assertStrictRecord v [''name'', ''type'', ''required'', ''selectivelyDisclosable''] ''claim'') (\<lambda>i.
     bindE (assertOpaqueId (jfield i ''name'') ''claim name'') (\<lambda>n.
     if n \<in> names then Inl (Error ''duplicate claim'')
     else if \<not> reads_as [''string'', ''boolean'', ''number'', ''date''] (jfield i ''type'')
     then Inl (Error ''unsupported claim type'')
     else case (jfield i ''required'', jfield i ''selectivelyDisclosable'') of
       (JBool r, JBool d) \<Rightarrow> Inr \<lparr>cd_name = n, cd_type = jfield i ''type'', cd_required = r, cd_selective = d\<rparr>
     | _ \<Rightarrow> Inl (Error ''invalid claim flags'')))"

fun parse_claims_from :: "string set \<Rightarrow> jsval list \<Rightarrow> domain_exn + claim_def list" where
  "parse_claims_from names [] = Inr []"
| "parse_claims_from names (v # vs) = bindE (parse_claim names v) (\<lambda>c.
     bindE (parse_claims_from (insert (cd_name c) names) vs) (\<lambda>cs. Inr (c # cs)))"

text \<open>A list of known formats without the legacy one, as texts.\<close>

definition parse_formats :: "jsval \<Rightarrow> domain_exn + string list" where
  "parse_formats v = (case v of JArr vs \<Rightarrow>
       if vs = [] \<or> \<not> list_all (one_of_set credential_formats) vs then Inl (Error ''unsupported credential format'')
       else if JStr ''jwt-vc-legacy'' \<in> set vs then Inl (Error ''legacy JWT-VC is verify-only'')
       else Inr (map (\<lambda>w. case w of JStr s \<Rightarrow> s | _ \<Rightarrow> '''') vs)
     | _ \<Rightarrow> Inl (Error ''unsupported credential format''))"

definition parseCredentialTemplate :: "jsval \<Rightarrow> domain_exn + credential_template" where
  "parseCredentialTemplate v =
     bindE (assertStrictRecord v [''schemaVersion'', ''tenantId'', ''templateId'', ''version'', ''type'',
       ''assurance'', ''formats'', ''claims'', ''status''] ''template'') (\<lambda>i.
     if jfield i ''schemaVersion'' \<noteq> JInt 1 then Inl (Error ''unsupported template schema version'') else
     bindE (assertOpaqueId (jfield i ''tenantId'') ''tenantId'') (\<lambda>tenantId.
     bindE (assertOpaqueId (jfield i ''templateId'') ''templateId'') (\<lambda>templateId.
     bindE (assertOpaqueId (jfield i ''type'') ''type'') (\<lambda>type.
     bindE (case jfield i ''version'' of JInt n \<Rightarrow>
              if \<not> safe_integer n \<or> n < 1 then Inl (Error ''invalid template version'') else Inr n
            | _ \<Rightarrow> Inl (Error ''invalid template version'')) (\<lambda>version.
     bindE (case jfield i ''assurance'' of JStr a \<Rightarrow>
              if a \<notin> set assurance_levels then Inl (Error ''unknown assurance'') else Inr a
            | _ \<Rightarrow> Inl (Error ''unknown assurance'')) (\<lambda>assurance.
     bindE (parse_formats (jfield i ''formats'')) (\<lambda>formats.
     bindE (case jfield i ''claims'' of JArr cs \<Rightarrow>
              if cs = [] then Inl (Error ''template requires claims'') else parse_claims_from {} cs
            | _ \<Rightarrow> Inl (Error ''template requires claims'')) (\<lambda>claims.
     if \<not> reads_as [''draft'', ''review'', ''published'', ''deprecated''] (jfield i ''status'')
     then Inl (Error ''invalid template status'')
     else Inr \<lparr>ct_tenantId = tenantId, ct_templateId = templateId, ct_version = version, ct_type = type,
       ct_assurance = assurance, ct_formats = formats, ct_claims = claims, ct_status = jfield i ''status''\<rparr>))))))))"

definition claim_js :: "claim_def \<Rightarrow> jsval" where
  "claim_js c = JObj [(''name'', JStr (cd_name c)), (''type'', cd_type c), (''required'', JBool (cd_required c)),
     (''selectivelyDisclosable'', JBool (cd_selective c))]"

definition template_js :: "credential_template \<Rightarrow> jsval" where
  "template_js t = JObj [(''schemaVersion'', JInt 1), (''tenantId'', JStr (ct_tenantId t)), (''templateId'', JStr (ct_templateId t)),
     (''version'', JInt (ct_version t)), (''type'', JStr (ct_type t)), (''assurance'', JStr (ct_assurance t)),
     (''formats'', JArr (map JStr (ct_formats t))), (''claims'', JArr (map claim_js (ct_claims t))), (''status'', ct_status t)]"

definition publishCredentialTemplate :: "credential_template \<Rightarrow> domain_exn + credential_template" where
  "publishCredentialTemplate v = bindE (parseCredentialTemplate (template_js v)) (\<lambda>t.
     if ct_status t \<noteq> JStr ''review'' then Inl (Error ''only reviewed templates can be published'')
     else parseCredentialTemplate (template_js (t\<lparr>ct_status := JStr ''published''\<rparr>)))"

definition deprecateCredentialTemplate :: "credential_template \<Rightarrow> domain_exn + credential_template" where
  "deprecateCredentialTemplate v = bindE (parseCredentialTemplate (template_js v)) (\<lambda>t.
     if ct_status t \<noteq> JStr ''published'' then Inl (Error ''only published templates can be deprecated'')
     else parseCredentialTemplate (template_js (t\<lparr>ct_status := JStr ''deprecated''\<rparr>)))"

definition assertSameTenant :: "string \<Rightarrow> string \<Rightarrow> domain_exn + unit" where
  "assertSameTenant l r = bindE (assertOpaqueId (JStr l) ''tenantId'') (\<lambda>_.
     bindE (assertOpaqueId (JStr r) ''tenantId'') (\<lambda>_.
     if l \<noteq> r then Inl (Error ''cross-tenant reference rejected'') else Inr ()))"

definition assuranceAllowed :: "string \<Rightarrow> string list \<Rightarrow> bool" where
  "assuranceAllowed actual accepted =
     (if actual \<notin> set assurance_levels \<or> \<not> list_all (\<lambda>a. a \<in> set assurance_levels) accepted then False
      else actual \<in> set accepted)"

definition parse_template_ids :: "jsval \<Rightarrow> domain_exn + string list" where
  "parse_template_ids v = (case v of JArr vs \<Rightarrow>
       (case mapE (\<lambda>x. assertOpaqueId x ''templateId'') vs of
          Inl _ \<Rightarrow> Inl (Error ''invalid authorized templates'') | Inr ids \<Rightarrow> Inr ids)
     | _ \<Rightarrow> Inl (Error ''invalid authorized templates''))"

definition parseIssuerProfile :: "url_parser \<Rightarrow> jsval \<Rightarrow> domain_exn + issuer_profile" where
  "parseIssuerProfile parse v =
     bindE (assertStrictRecord v [''schemaVersion'', ''tenantId'', ''issuerId'', ''issuerUri'', ''assurance'',
       ''keyRef'', ''authorizedTemplateIds''] ''issuer profile'') (\<lambda>i.
     if jfield i ''schemaVersion'' \<noteq> JInt 1 then Inl (Error ''unsupported issuer profile version'') else
     bindE (assertOpaqueId (jfield i ''tenantId'') ''tenantId'') (\<lambda>tenantId.
     bindE (assertOpaqueId (jfield i ''issuerId'') ''issuerId'') (\<lambda>issuerId.
     bindE (assertOpaqueId (jfield i ''keyRef'') ''keyRef'') (\<lambda>keyRef.
     bindE (assertHttps parse (jfield i ''issuerUri'') ''issuerUri'') (\<lambda>uri.
     bindE (case jfield i ''assurance'' of JStr a \<Rightarrow>
              if a = ''self_attested'' \<or> a \<notin> set assurance_levels
              then Inl (Error ''institutional issuer requires institutional assurance'') else Inr a
            | _ \<Rightarrow> Inl (Error ''institutional issuer requires institutional assurance'')) (\<lambda>assurance.
     bindE (parse_template_ids (jfield i ''authorizedTemplateIds'')) (\<lambda>ids.
     Inr \<lparr>ip_tenantId = tenantId, ip_issuerId = issuerId, ip_issuerUri = uri, ip_assurance = assurance,
       ip_keyRef = keyRef, ip_templates = ids\<rparr>)))))))"

end
