(* ===== verification/CredentialDomainProps.thy ===== *)
theory CredentialDomainProps
  imports CredentialDomain
begin

text \<open>
  What the credential domain promises: the attestation text names every field, a challenge is
  accepted once, for its audience and in time, its transport encoding is lossless, a positive
  status comes from an unexpired record of a public host, and templates that were parsed are
  well formed and move only forward in their life cycle.
\<close>

section \<open>Attestations\<close>

lemma bar_join_inject:
  "length xs = length ys \<Longrightarrow> \<forall>x\<in>set xs \<union> set ys. CHR ''|'' \<notin> set x \<Longrightarrow> bar_join xs = bar_join ys \<Longrightarrow> xs = ys"
proof (induction xs arbitrary: ys rule: bar_join.induct)
  case (2 x)
  then show ?case by (cases ys rule: bar_join.cases) auto
next
  case (3 x y xs)
  then obtain a b zs where ys: "ys = a # b # zs" by (cases ys rule: bar_join.cases) auto
  with 3 append_sep_inject [of "CHR ''|''" x a "bar_join (y # xs)" "bar_join (b # zs)"]
  have "x = a" "bar_join (y # xs) = bar_join (b # zs)" by auto
  moreover have "y # xs = b # zs" using 3 ys calculation(2) by (intro "3.IH") auto
  ultimately show ?case using ys by simp
qed simp

lemma validated:
  assumes "validateAttestation a sig = Inr u"
  shows "hex_string 40 (at_consumer a)" "hex_string 64 (at_policy a)" "hex_string 64 (at_subject a)"
    "hex_string 64 (at_nonce a)" "hex_string 40 (at_attestor a)" "hex_string 64 (at_attestorVersion a)"
  using assms unfolding validateAttestation_def
  by (auto simp: bindE_Inr domain_address_def hex32_def valid_address_def split: if_splits)

lemma attestation_fields_no_bar:
  assumes "validateAttestation a sig = Inr u"
  shows "\<forall>x\<in>set (attestation_fields a). CHR ''|'' \<notin> set x"
  using validated [OF assms] hex_string_no_bar show_int_no_bar unfolding attestation_fields_def by auto

text \<open>
  Two attestations with the same signing text agree in version, chain, times and, up to
  letter case, in consumer, policy, subject, nonce, attestor and attestor version, so a
  signature covers every field.
\<close>

theorem attestation_payload_determines_fields:
  assumes "attestationSigningPayload a g = Inr p" "attestationSigningPayload b g' = Inr p"
  shows "at_version a = at_version b \<and> at_chainId a = at_chainId b \<and> at_issuedAt a = at_issuedAt b
    \<and> at_expiresAt a = at_expiresAt b \<and> to_lower (at_consumer a) = to_lower (at_consumer b)
    \<and> to_lower (at_policy a) = to_lower (at_policy b) \<and> to_lower (at_subject a) = to_lower (at_subject b)
    \<and> to_lower (at_nonce a) = to_lower (at_nonce b) \<and> to_lower (at_attestor a) = to_lower (at_attestor b)
    \<and> to_lower (at_attestorVersion a) = to_lower (at_attestorVersion b)"
proof -
  have v: "validateAttestation a g = Inr ()" "validateAttestation b g' = Inr ()"
    and p: "bar_join (attestation_fields a) = bar_join (attestation_fields b)"
    using assms by (auto simp: attestationSigningPayload_def bindE_Inr)
  have "attestation_fields a = attestation_fields b"
    using attestation_fields_no_bar [OF v(1)] attestation_fields_no_bar [OF v(2)]
    by (intro bar_join_inject p) (auto simp: attestation_fields_def)
  then show ?thesis by (simp add: attestation_fields_def)
qed

section \<open>Base 64\<close>

lemma b64_value_char: "n < 64 \<Longrightarrow> b64_value (b64_char n) = n"
proof -
  have "\<forall>n\<in>set [0..<64]. b64_value (b64_char n) = n" by code_simp
  then show "n < 64 \<Longrightarrow> b64_value (b64_char n) = n" by simp
qed

lemma b64_char_in: "n < 64 \<Longrightarrow> b64_char n \<in> set b64_alphabet"
proof -
  have "\<forall>n\<in>set [0..<64]. b64_char n \<in> set b64_alphabet" by code_simp
  then show "n < 64 \<Longrightarrow> b64_char n \<in> set b64_alphabet" by simp
qed

lemma code_less: "(of_char c :: nat) < 256"
  by (metis mod_less_divisor of_char_mod_256 zero_less_numeral)

text \<open>The sextets of a byte string, without padding.\<close>

fun b64_sextets :: "string \<Rightarrow> nat list" where
  "b64_sextets [] = []"
| "b64_sextets [a] = take 2 (sextets (of_char a) 0 0)"
| "b64_sextets [a, b] = take 3 (sextets (of_char a) (of_char b) 0)"
| "b64_sextets (a # b # c # r) = sextets (of_char a) (of_char b) (of_char c) @ b64_sextets r"

fun b64_padding :: "string \<Rightarrow> string" where
  "b64_padding [] = []"
| "b64_padding [a] = ''==''"
| "b64_padding [a, b] = ''=''"
| "b64_padding (a # b # c # r) = b64_padding r"

lemma btoa_parts: "btoa bs = map b64_char (b64_sextets bs) @ b64_padding bs"
  by (induction bs rule: btoa.induct) auto

lemma padding_cases: "b64_padding bs = replicate ((3 - length bs mod 3) mod 3) (CHR ''='')"
proof (induction bs rule: b64_padding.induct)
  case (4 a b c r)
  have "length (a # b # c # r) mod 3 = length r mod 3" by simp
  with 4 show ?case by (simp only: b64_padding.simps)
qed (simp_all add: numeral_2_eq_2)

lemma sextets_small: "a < 256 \<Longrightarrow> b < 256 \<Longrightarrow> c < 256 \<Longrightarrow> n \<in> set (sextets a b c) \<Longrightarrow> n < 64"
  by (auto simp: sextets_def; presburger)

lemma b64_sextets_small: "n \<in> set (b64_sextets bs) \<Longrightarrow> n < 64"
proof (induction bs rule: b64_sextets.induct)
  case (2 a)
  then show ?case using sextets_small [of "of_char a" 0 0 n] code_less by (auto dest: in_set_takeD)
next
  case (3 a b)
  then show ?case using sextets_small [of "of_char a" "of_char b" 0 n] code_less by (auto dest: in_set_takeD)
next
  case (4 a b c r)
  then show ?case using sextets_small [of "of_char a" "of_char b" "of_char c" n] code_less by auto
qed simp

lemma sextets_bytes:
  assumes "(a::nat) < 256" "(b::nat) < 256" "(c::nat) < 256"
  shows "a div 4 * 4 + (a mod 4 * 16 + b div 16) div 16 = a"
    "(a mod 4 * 16 + b div 16) mod 16 * 16 + (b mod 16 * 4 + c div 64) div 4 = b"
    "(b mod 16 * 4 + c div 64) mod 4 * 64 + c mod 64 = c"
proof -
  have "b div 16 < 16" "c div 64 < 4" using assms by (simp_all add: less_mult_imp_div_less)
  then show "a div 4 * 4 + (a mod 4 * 16 + b div 16) div 16 = a"
    "(a mod 4 * 16 + b div 16) mod 16 * 16 + (b mod 16 * 4 + c div 64) div 4 = b"
    "(b mod 16 * 4 + c div 64) mod 4 * 64 + c mod 64 = c" by simp_all
qed

lemma b64_bytes_sextets: "b64_bytes (b64_sextets bs) = bs"
proof (induction bs rule: b64_sextets.induct)
  case (2 a)
  then show ?case using sextets_bytes [of "of_char a" 0 0] code_less by (simp add: sextets_def numeral_2_eq_2)
next
  case (3 a b)
  then show ?case using sextets_bytes [of "of_char a" "of_char b" 0] code_less
    by (simp add: sextets_def numeral_3_eq_3)
next
  case (4 a b c r)
  then show ?case using sextets_bytes [of "of_char a" "of_char b" "of_char c"] code_less
    by (simp add: sextets_def)
qed simp

lemma take_sextets:
  "take 2 (sextets a b c) = [a div 4, (a mod 4) * 16 + b div 16]"
  "take 3 (sextets a b c) = [a div 4, (a mod 4) * 16 + b div 16, (b mod 16) * 4 + c div 64]"
  by (simp_all add: sextets_def take_Cons')

lemma length_sextets: "length (b64_sextets bs) mod 4 \<noteq> 1"
proof (induction bs rule: b64_sextets.induct)
  case (4 a b c r)
  have "length (b64_sextets (a # b # c # r)) = length (b64_sextets r) + 4" by (simp add: sextets_def)
  then have "length (b64_sextets (a # b # c # r)) mod 4 = length (b64_sextets r) mod 4" by simp
  with 4 show ?case by simp
qed (simp_all add: take_sextets)

lemma b64_sextets_nonempty: "bs \<noteq> [] \<Longrightarrow> b64_sextets bs \<noteq> []"
  by (cases bs rule: b64_sextets.cases) (simp_all add: take_sextets, simp add: sextets_def)

lemma b64_char_class: "n < 64 \<Longrightarrow> plain_char (url_char (b64_char n)) = b64_char n
    \<and> base64url_char (url_char (b64_char n)) \<and> url_char (b64_char n) \<noteq> CHR ''=''"
proof -
  have "\<forall>n\<in>set [0..<64]. plain_char (url_char (b64_char n)) = b64_char n
    \<and> base64url_char (url_char (b64_char n)) \<and> url_char (b64_char n) \<noteq> CHR ''=''" by code_simp
  then show "n < 64 \<Longrightarrow> plain_char (url_char (b64_char n)) = b64_char n
    \<and> base64url_char (url_char (b64_char n)) \<and> url_char (b64_char n) \<noteq> CHR ''=''" by simp
qed

lemma base64Url_text: "base64Url bs = map (\<lambda>n. url_char (b64_char n)) (b64_sextets bs)"
proof -
  let ?t = "map (\<lambda>n. url_char (b64_char n)) (b64_sextets bs)"
  have "url_char (CHR ''='') = CHR ''=''" by (simp add: url_char_def)
  then have pad: "map url_char (btoa bs) = ?t @ replicate k (CHR ''='')" if "b64_padding bs = replicate k (CHR ''='')" for k
    using that by (simp add: btoa_parts comp_def)
  have all: "\<forall>c\<in>set (rev ?t). c \<noteq> CHR ''=''" using b64_char_class b64_sextets_small by auto
  have keep: "dropWhile (\<lambda>c. c = CHR ''='') xs = xs" if "\<forall>c\<in>set xs. c \<noteq> CHR ''=''" for xs
    using that by (cases xs) auto
  obtain k where k: "map url_char (btoa bs) = ?t @ replicate k (CHR ''='')" using pad [OF padding_cases] by blast
  have "dropWhile (\<lambda>c. c = CHR ''='') (replicate k (CHR ''='') @ rev ?t) = dropWhile (\<lambda>c. c = CHR ''='') (rev ?t)"
    by (induction k) auto
  then have "base64Url bs = rev (rev ?t)"
    unfolding base64Url_def k rev_append rev_replicate using keep [OF all] by metis
  then show ?thesis by simp
qed

lemma unpad_padded:
  assumes "\<forall>c\<in>set t. c \<noteq> CHR ''=''" "length t mod 4 \<noteq> 1"
  shows "unpad (t @ replicate ((4 - length t mod 4) mod 4) (CHR ''='')) = t"
proof -
  consider "length t mod 4 = 0" | "length t mod 4 = 2" | "length t mod 4 = 3" using assms(2) by linarith
  then show ?thesis
  proof cases
    case 1
    have "t \<noteq> [] \<Longrightarrow> last t \<noteq> CHR ''=''" using assms(1) by simp
    with 1 show ?thesis by (auto simp: unpad_def)
  next
    case 2
    then have "(4 - length t mod 4) mod 4 = Suc (Suc 0)" by simp
    then have r: "replicate ((4 - length t mod 4) mod 4) (CHR ''='') = ''==''" by (simp only: replicate_Suc replicate_0)
    have "length (t @ ''=='') mod 4 = 0" using 2 by simp presburger
    then show ?thesis unfolding r unpad_def by (simp add: butlast_append)
  next
    case 3
    then have r: "replicate ((4 - length t mod 4) mod 4) (CHR ''='') = ''=''" by simp
    have "t \<noteq> []" using 3 by auto
    have "length (t @ ''='') mod 4 = 0" using 3 by simp presburger
    with \<open>t \<noteq> []\<close> assms(1) show ?thesis unfolding r unpad_def by (simp add: butlast_append)
  qed
qed

lemma base64url_inverse:
  assumes "bs \<noteq> []"
  shows "fromBase64Url (base64Url bs) = Inr bs"
proof -
  let ?n = "b64_sextets bs"
  let ?t = "map b64_char ?n"
  have plain: "map plain_char (base64Url bs) = ?t"
    using b64_char_class b64_sextets_small by (simp add: base64Url_text)
  have ok: "base64Url bs \<noteq> []" "list_all base64url_char (base64Url bs)"
    using b64_sextets_nonempty [OF assms] b64_char_class b64_sextets_small by (simp_all add: base64Url_text list_all_iff)
  have "b64_char n \<noteq> CHR ''=''" if "n < 64" for n
    using b64_char_in [OF that] by (auto simp: b64_alphabet_def)
  then have noeq: "\<forall>c\<in>set ?t. c \<noteq> CHR ''=''" using b64_sextets_small by auto
  have m: "length ?t mod 4 \<noteq> 1" using length_sextets [of bs] by simp
  have vals: "map b64_value ?t = ?n" using b64_value_char b64_sextets_small by (simp add: map_idI)
  have "list_all (\<lambda>c. c \<in> set b64_alphabet) ?t" using b64_char_in b64_sextets_small by (auto simp: list_all_iff)
  then have "atob (?t @ replicate ((4 - length ?t mod 4) mod 4) (CHR ''='')) = Inr bs"
    using unpad_padded [OF noeq m] m vals b64_bytes_sextets unfolding atob_def Let_def by simp
  moreover have "length (base64Url bs) = length ?t" by (simp add: base64Url_text)
  ultimately show ?thesis using ok unfolding fromBase64Url_def plain by simp
qed

section \<open>Challenges\<close>

definition challenge_attempt :: "consume_request \<Rightarrow> replay_store \<Rightarrow> bool \<times> replay_store" where
  "challenge_attempt rq s = (case challenge_consume rq s of (f, t) \<Rightarrow> (f = None, t))"

definition challenge_other :: "replay_store \<Rightarrow> replay_store \<Rightarrow> bool" where
  "challenge_other s t \<longleftrightarrow> (\<exists>c. t = snd (challenge_issue c s))"

definition spent_challenges :: "replay_store \<Rightarrow> string set" where
  "spent_challenges s = {v. \<exists>e. s v = Some e \<and> ch_consumed e}"

interpretation replay: one_shot challenge_attempt cq_value challenge_other spent_challenges
proof unfold_locales
  fix i s t
  show "challenge_attempt i s = (True, t) \<Longrightarrow> cq_value i \<notin> spent_challenges s"
    "challenge_attempt i s = (True, t) \<Longrightarrow> cq_value i \<in> spent_challenges t"
    by (auto simp: challenge_attempt_def challenge_consume_def spent_challenges_def Let_def split: option.splits if_splits)
  show "challenge_other s t \<Longrightarrow> spent_challenges s \<subseteq> spent_challenges t"
    by (auto simp: challenge_other_def challenge_issue_def spent_challenges_def)
next
  fix i s b t
  show "challenge_attempt i s = (b, t) \<Longrightarrow> spent_challenges s \<subseteq> spent_challenges t"
    by (auto simp: challenge_attempt_def challenge_consume_def spent_challenges_def Let_def split: option.splits if_splits)
qed

text \<open>
  C17: Over any sequence of issued challenges and consumptions, no challenge value is accepted
  twice, and once accepted every further consumption fails.
\<close>

theorem challenge_accepted_at_most_once:
  assumes "one_shot_run challenge_attempt cq_value challenge_other Map.empty accepted s"
  shows "distinct accepted \<and> (\<forall>v\<in>set accepted. \<forall>rq. cq_value rq = v \<longrightarrow> fst (challenge_consume rq s) \<noteq> None)"
proof -
  have "set accepted \<subseteq> spent_challenges s" using replay.run_spent [OF assms] by blast
  then show ?thesis
    using replay.run_distinct [OF assms]
    by (auto simp: spent_challenges_def challenge_consume_def subset_iff)
qed

text \<open>
  A challenge verified against the in-memory store was issued under that value, was not
  consumed before, names the audience of the request and is at most the allowed clock skew
  past its expiry.
\<close>

theorem verified_challenge_sound:
  assumes "verifyChallenge in_memory_consume rq c s = (Inr d, t)"
  shows "d = c \<and> cq_value rq = ch_value c \<and> (\<exists>e. s (ch_value c) = Some e \<and> \<not> ch_consumed e
     \<and> ch_audience e = cq_audience rq \<and> cq_now rq \<le> ch_expiresAt e + 30000)"
  using assms
  by (auto simp: verifyChallenge_def in_memory_consume_def challenge_consume_def Let_def split: option.splits if_splits)

text \<open>
  A challenge that createChallenge made is decoded from its encoded form unchanged: the
  base 64 coding loses no byte, given that the UTF-8 codec and JSON.parse invert their
  counterparts on this text.
\<close>

theorem encoded_challenge_round_trip:
  assumes "utf8 (challenge_json c) \<noteq> ''''" "decode (utf8 (challenge_json c)) = challenge_json c"
    and "json (challenge_json c) = Inr (JObj [(''value'', JStr (ch_value c)), (''audience'', JStr (ch_audience c)),
      (''issuedAt'', JInt (ch_issuedAt c)), (''expiresAt'', JInt (ch_expiresAt c))])"
    and "createChallenge audience ttl nbytes now random = Inr c"
  shows "decodeChallenge decode json (encodeChallenge utf8 c) = Inr c"
proof -
  obtain b where b: "ch_value c = base64Url b" "16 \<le> length b"
    using assms(4) unfolding createChallenge_def by (auto simp: Let_def bindE_Inr split: if_splits option.splits)
  then have "b \<noteq> []" by auto
  then have "fromBase64Url (ch_value c) = Inr b" by (simp add: b(1) base64url_inverse)
  with b assms(1-3) show ?thesis
    unfolding decodeChallenge_def encodeChallenge_def by (simp add: base64url_inverse)
qed

section \<open>Status\<close>

text \<open>
  Whatever the cache held and the transport answered, a lookup answers ok only for an
  https URL whose host is not recognised as private, and the cache then holds a record of that
  URL that says valid and expires after the given time.
\<close>

theorem positive_status_sound:
  assumes "status_lookup p v now w = (r, w')" "sl_ok r"
  shows "\<exists>u rec at. sp_url p v = Some u \<and> ur_protocol u = ''https:'' \<and> \<not> isPrivateHost (ur_hostname u)
    \<and> st_entries w' (ur_href u) = Some (rec, at) \<and> sr_status rec = ''valid'' \<and> now < sr_expiresAt rec"
proof -
  obtain u where u: "boundedStatusUrl (sp_url p) v = Inr u"
    using assms by (cases "boundedStatusUrl (sp_url p) v") (auto simp: status_lookup_def status_failure_def)
  then have su: "sp_url p v = Some u" "ur_protocol u = ''https:''" "\<not> isPrivateHost (ur_hostname u)"
    by (auto simp: boundedStatusUrl_def split: option.splits if_splits)
  show ?thesis
  proof (cases "\<exists>rec at. st_entries w (ur_href u) = Some (rec, at) \<and> now < sr_expiresAt rec")
    case True
    with assms u su show ?thesis by (auto simp: status_lookup_def Let_def status_of_record_def)
  next
    case False
    obtain out net where o: "sp_transport p (ur_href u) (st_net w) = (out, net)" by fastforce
    obtain rec where r: "read_status p now out = Inr rec" "r = status_of_record rec False"
      "st_entries w' (ur_href u) = Some (rec, now)"
      using assms u o False
      by (auto simp: status_lookup_def Let_def status_failure_def split: option.splits sum.splits if_splits)
    then have "now < sr_expiresAt rec"
      by (auto simp: read_status_def split: transport_outcome.splits option.splits jsval.splits if_splits)
    with r su assms(2) show ?thesis by (auto simp: status_of_record_def)
  qed
qed

text \<open>The hostname of an IPv6 URL keeps its brackets.\<close>

text \<open>
  The guard against private hosts accepts the IPv6 loopback address: the URL parser
  reports its host name in brackets, which the comparison with the bare address never matches.
\<close>

theorem ipv6_loopback_is_not_private:
  "boundedStatusUrl (\<lambda>_. Some \<lparr>ur_protocol = ''https:'', ur_hostname = ''[::1]'', ur_username = '''', ur_password = '''',
     ur_href = ''https://[::1]/''\<rparr>) ''https://[::1]/'' = Inr \<lparr>ur_protocol = ''https:'', ur_hostname = ''[::1]'',
     ur_username = '''', ur_password = '''', ur_href = ''https://[::1]/''\<rparr>"
  by code_simp

section \<open>Templates\<close>

lemma assertOpaqueId_Inr: "assertOpaqueId v n = Inr s \<longleftrightarrow> v = JStr s \<and> domain_id s"
  by (auto simp: assertOpaqueId_def split: jsval.splits if_splits)

lemma assertStrictRecord_Inr: "assertStrictRecord v ks n = Inr es \<longleftrightarrow> v = JObj es \<and> (\<forall>k\<in>set (map fst es). k \<in> set ks)"
  by (auto simp: assertStrictRecord_def find_None_iff find_Some_iff split: jsval.splits option.splits)

lemma parse_claim_js:
  assumes "parse_claim names v = Inr c"
  shows "parse_claim names (claim_js c) = Inr c \<and> cd_name c \<notin> names \<and> domain_id (cd_name c)"
  using assms unfolding parse_claim_def
  by (auto simp: bindE_Inr assertStrictRecord_Inr assertOpaqueId_Inr claim_js_def assertStrictRecord_def
      assertOpaqueId_def split: if_splits jsval.splits)

lemma parse_claims_js:
  "parse_claims_from names vs = Inr cs \<Longrightarrow> parse_claims_from names (map claim_js cs) = Inr cs
     \<and> distinct (map cd_name cs) \<and> set (map cd_name cs) \<inter> names = {} \<and> length cs = length vs"
proof (induction names vs arbitrary: cs rule: parse_claims_from.induct)
  case (2 names v vs)
  then obtain c ds where c: "parse_claim names v = Inr c" "parse_claims_from (insert (cd_name c) names) vs = Inr ds" "cs = c # ds"
    by (auto simp: bindE_Inr)
  from 2(1) [OF c(2)] parse_claim_js [OF c(1)] c(3) show ?case by auto
qed simp

lemma one_of_set_text: "one_of_set ws w \<Longrightarrow> \<exists>s. w = JStr s \<and> s \<in> set ws"
  by (cases w) (auto simp: one_of_set_def)

lemma parse_formats_js:
  assumes "parse_formats v = Inr fs"
  shows "parse_formats (JArr (map JStr fs)) = Inr fs \<and> fs \<noteq> [] \<and> set fs \<subseteq> set credential_formats - {''jwt-vc-legacy''}"
proof -
  obtain vs where vs: "v = JArr vs" "vs \<noteq> []" "list_all (one_of_set credential_formats) vs" "JStr ''jwt-vc-legacy'' \<notin> set vs"
    "fs = map (\<lambda>w. case w of JStr s \<Rightarrow> s | _ \<Rightarrow> '''') vs"
    using assms by (auto simp: parse_formats_def split: jsval.splits if_splits)
  have "\<forall>w\<in>set vs. \<exists>s. w = JStr s \<and> s \<in> set credential_formats"
    using vs(3) one_of_set_text by (auto simp: list_all_iff)
  then have js: "map JStr fs = vs" and "set fs \<subseteq> set credential_formats"
    unfolding vs(5) by (auto intro!: map_idI split: jsval.splits)
  moreover have "''jwt-vc-legacy'' \<notin> set fs" using vs(4) unfolding js [symmetric] by auto
  moreover have "parse_formats (JArr (map JStr fs)) = Inr fs" using assms vs(1) js by simp
  moreover have "fs \<noteq> []" using vs(2) js by auto
  ultimately show ?thesis by blast
qed

definition template_wf :: "credential_template \<Rightarrow> bool" where
  "template_wf t \<longleftrightarrow> domain_id (ct_tenantId t) \<and> domain_id (ct_templateId t) \<and> domain_id (ct_type t)
     \<and> safe_integer (ct_version t) \<and> 1 \<le> ct_version t \<and> ct_assurance t \<in> set assurance_levels
     \<and> ct_formats t \<noteq> [] \<and> set (ct_formats t) \<subseteq> set credential_formats - {''jwt-vc-legacy''}
     \<and> ct_claims t \<noteq> [] \<and> distinct (map cd_name (ct_claims t))"

lemma parsed_template:
  assumes "parseCredentialTemplate v = Inr t"
  shows "template_wf t \<and> parseCredentialTemplate (template_js t) = Inr t"
proof -
  obtain i cs where i: "domain_id (ct_tenantId t)" "domain_id (ct_templateId t)" "domain_id (ct_type t)"
      "safe_integer (ct_version t)" "1 \<le> ct_version t" "ct_assurance t \<in> set assurance_levels"
    and f: "parse_formats (jfield i ''formats'') = Inr (ct_formats t)"
    and c: "parse_claims_from {} cs = Inr (ct_claims t)" "cs \<noteq> []"
    and s: "reads_as [''draft'', ''review'', ''published'', ''deprecated''] (ct_status t)"
    using assms unfolding parseCredentialTemplate_def
    by (auto simp: bindE_Inr assertStrictRecord_Inr assertOpaqueId_Inr not_less split: if_splits jsval.splits)
  from parse_formats_js [OF f] parse_claims_js [OF c(1)] c(2) have g: "parse_formats (JArr (map JStr (ct_formats t))) = Inr (ct_formats t)"
    "parse_claims_from {} (map claim_js (ct_claims t)) = Inr (ct_claims t)" "ct_claims t \<noteq> []" "template_wf t"
    using i by (auto simp: template_wf_def)
  have "parseCredentialTemplate (template_js t) = Inr t"
    unfolding parseCredentialTemplate_def template_js_def using i g(1-3) s
    by (simp add: assertStrictRecord_def assertOpaqueId_def)
  with g(4) show ?thesis by blast
qed

text \<open>
  A template accepted from an untrusted value has opaque identifiers, a positive version,
  issuable formats and claims with distinct names, and is reproduced exactly when its object
  form is parsed again.
\<close>

theorem template_round_trip:
  assumes "parseCredentialTemplate v = Inr t"
  shows "template_wf t \<and> parseCredentialTemplate (template_js t) = Inr t"
  using assms by (rule parsed_template)

lemma parse_claim_only: "parse_claim names (claim_js c) = Inr d \<Longrightarrow> d = c"
  by (cases c) (auto simp: parse_claim_def claim_js_def bindE_Inr assertStrictRecord_Inr assertOpaqueId_Inr split: if_splits)

lemma parse_claims_only: "parse_claims_from names (map claim_js cs) = Inr ds \<Longrightarrow> ds = cs"
  by (induction cs arbitrary: names ds) (auto simp: bindE_Inr dest: parse_claim_only)

lemma parse_formats_only: "parse_formats (JArr (map JStr fs)) = Inr gs \<Longrightarrow> gs = fs"
  by (auto simp: parse_formats_def comp_def split: if_splits)

lemma parse_template_only: "parseCredentialTemplate (template_js t) = Inr u \<Longrightarrow> u = t"
  by (cases t) (auto simp: parseCredentialTemplate_def template_js_def bindE_Inr assertStrictRecord_Inr assertOpaqueId_Inr
    split: if_splits dest: parse_claims_only parse_formats_only)

text \<open>
  Publishing succeeds only for a template in review and deprecating only for a published
  one, and both change nothing but the status.
\<close>

theorem template_life_cycle:
  "(\<forall>u. publishCredentialTemplate t = Inr u \<longrightarrow> ct_status t = JStr ''review'' \<and> u = t\<lparr>ct_status := JStr ''published''\<rparr>)
   \<and> (\<forall>u. deprecateCredentialTemplate t = Inr u \<longrightarrow> ct_status t = JStr ''published'' \<and> u = t\<lparr>ct_status := JStr ''deprecated''\<rparr>)"
  unfolding publishCredentialTemplate_def deprecateCredentialTemplate_def
  by (auto simp: bindE_Inr split: if_splits dest!: parse_template_only)

section \<open>Examples\<close>

definition ex_attestation :: attestation where
  "ex_attestation = \<lparr>at_version = 1, at_chainId = 1, at_consumer = ''0x'' @ replicate 40 (CHR ''a''),
     at_policy = ''0x'' @ replicate 64 (CHR ''b''), at_subject = ''0x'' @ replicate 64 (CHR ''C''),
     at_nonce = ''0x'' @ replicate 64 (CHR ''1''), at_issuedAt = 10, at_expiresAt = 20,
     at_attestor = ''0x'' @ replicate 40 (CHR ''e''), at_attestorVersion = ''0x'' @ replicate 64 (CHR ''2'')\<rparr>"

theorem attestation_payload_determines_fields_witness:
  "\<exists>p. attestationSigningPayload ex_attestation None = Inr p
     \<and> attestationSigningPayload (ex_attestation\<lparr>at_chainId := 2\<rparr>) None \<noteq> Inr p"
proof -
  have "validateAttestation ex_attestation None = Inr ()" by code_simp
  then obtain p where p: "attestationSigningPayload ex_attestation None = Inr p"
    by (simp add: attestationSigningPayload_def)
  have "at_chainId ex_attestation \<noteq> at_chainId (ex_attestation\<lparr>at_chainId := 2\<rparr>)" by (simp add: ex_attestation_def)
  with attestation_payload_determines_fields [OF p, of "ex_attestation\<lparr>at_chainId := 2\<rparr>" None] p show ?thesis by blast
qed

definition ex_challenge :: challenge where
  "ex_challenge = \<lparr>ch_value = base64Url (replicate 16 (CHR ''k'')), ch_audience = ''https://v.example'', ch_issuedAt = 5, ch_expiresAt = 60005\<rparr>"

definition ex_consume :: consume_request where
  "ex_consume = \<lparr>cq_value = ch_value ex_challenge, cq_audience = ''https://v.example'', cq_now = 70000\<rparr>"

theorem challenge_accepted_at_most_once_witness:
  "\<exists>s. one_shot_run challenge_attempt cq_value challenge_other Map.empty [ch_value ex_challenge] s
     \<and> fst (challenge_consume ex_consume s) \<noteq> None"
proof -
  let ?s1 = "snd (challenge_issue ex_challenge Map.empty)"
  let ?s2 = "snd (challenge_attempt ex_consume ?s1)"
  have "challenge_attempt ex_consume ?s1 = (True, ?s2)"
    by (simp add: challenge_attempt_def challenge_consume_def challenge_issue_def ex_consume_def ex_challenge_def challenge.defs Let_def)
  moreover have "one_shot_run challenge_attempt cq_value challenge_other Map.empty [] ?s1"
    by (rule run_other [OF run_start]) (auto simp: challenge_other_def)
  ultimately have run: "one_shot_run challenge_attempt cq_value challenge_other Map.empty [ch_value ex_challenge] ?s2"
    using run_used [of challenge_attempt cq_value challenge_other Map.empty "[]" ?s1 ex_consume ?s2] by (simp add: ex_consume_def)
  from challenge_accepted_at_most_once [OF run] have "fst (challenge_consume ex_consume ?s2) \<noteq> None" by (simp add: ex_consume_def)
  with run show ?thesis by blast
qed

theorem verified_challenge_sound_witness:
  "ch_audience ex_challenge = cq_audience ex_consume \<and> cq_now ex_consume \<le> ch_expiresAt ex_challenge + 30000"
proof -
  have "\<exists>t. verifyChallenge in_memory_consume ex_consume ex_challenge [ch_value ex_challenge \<mapsto> challenge.extend ex_challenge \<lparr>ch_consumed = False\<rparr>]
    = (Inr ex_challenge, t)"
    by (simp add: verifyChallenge_def in_memory_consume_def challenge_consume_def ex_consume_def ex_challenge_def challenge.defs Let_def)
  then obtain t where t: "verifyChallenge in_memory_consume ex_consume ex_challenge [ch_value ex_challenge \<mapsto> challenge.extend ex_challenge \<lparr>ch_consumed = False\<rparr>]
    = (Inr ex_challenge, t)" by blast
  from verified_challenge_sound [OF t] show ?thesis by (simp add: challenge.defs)
qed

definition ex_json :: "string \<Rightarrow> domain_exn + jsval" where
  "ex_json t = (if t = challenge_json ex_challenge then Inr (JObj [(''value'', JStr (ch_value ex_challenge)),
     (''audience'', JStr (ch_audience ex_challenge)), (''issuedAt'', JInt 5), (''expiresAt'', JInt 60005)]) else Inl Platform_error)"

theorem encoded_challenge_round_trip_witness:
  "decodeChallenge (\<lambda>t. t) ex_json (encodeChallenge (\<lambda>t. t) ex_challenge) = Inr ex_challenge"
proof (rule encoded_challenge_round_trip)
  show "createChallenge ''https://v.example'' None (Some 16) 5 (\<lambda>_. Inr (Some (replicate 16 (CHR ''k'')))) = Inr ex_challenge"
    by (simp add: createChallenge_def ex_challenge_def)
qed (simp_all add: challenge_json_def ex_json_def ex_challenge_def)

definition ex_status_port :: "unit status_port" where
  "ex_status_port = \<lparr>sp_transport = (\<lambda>k w. (Response 200 ''body'', w)),
     sp_url = (\<lambda>v. Some \<lparr>ur_protocol = ''https:'', ur_hostname = ''status.example'', ur_username = '''', ur_password = '''', ur_href = v\<rparr>),
     sp_json = (\<lambda>b. Some (JObj [(''status'', JStr ''valid''), (''expiresAt'', JInt 500)])), sp_maxResponseBytes = 32768\<rparr>"

definition ex_cache :: "unit status_cache" where
  "ex_cache = \<lparr>st_entries = Map.empty, st_net = ()\<rparr>"

lemma ex_lookup: "fst (status_lookup ex_status_port ''https://status.example/1'' 100 ex_cache) = status_of_record \<lparr>sr_status = ''valid'', sr_expiresAt = 500, sr_index = None\<rparr> False"
proof -
  have "\<not> isPrivateHost ''status.example''" by code_simp
  then show ?thesis
    by (simp add: status_lookup_def boundedStatusUrl_def ex_status_port_def ex_cache_def Let_def read_status_def
        status_fields_def status_index_def safe_integer_def)
qed

theorem positive_status_sound_witness:
  "\<exists>rec at. st_entries (snd (status_lookup ex_status_port ''https://status.example/1'' 100 ex_cache)) ''https://status.example/1'' = Some (rec, at)
     \<and> sr_status rec = ''valid'' \<and> 100 < sr_expiresAt rec"
proof -
  obtain w where w: "status_lookup ex_status_port ''https://status.example/1'' 100 ex_cache
    = (status_of_record \<lparr>sr_status = ''valid'', sr_expiresAt = 500, sr_index = None\<rparr> False, w)"
    using ex_lookup by (metis prod.collapse)
  have "sl_ok (status_of_record \<lparr>sr_status = ''valid'', sr_expiresAt = 500, sr_index = None\<rparr> False)"
    by (simp add: status_of_record_def)
  from positive_status_sound [OF w this] w show ?thesis by (auto simp: ex_status_port_def)
qed

definition ex_template :: credential_template where
  "ex_template = \<lparr>ct_tenantId = ''t1'', ct_templateId = ''age'', ct_version = 1, ct_type = ''AgeCredential'',
     ct_assurance = ''government'', ct_formats = [''sd-jwt-vc''],
     ct_claims = [\<lparr>cd_name = ''over18'', cd_type = JStr ''boolean'', cd_required = True, cd_selective = True\<rparr>],
     ct_status = JStr ''review''\<rparr>"

theorem template_round_trip_witness:
  "template_wf ex_template"
proof -
  have "parseCredentialTemplate (template_js ex_template) = Inr ex_template" by code_simp
  from template_round_trip [OF this] show ?thesis by blast
qed

theorem template_life_cycle_witness:
  "publishCredentialTemplate ex_template = Inr (ex_template\<lparr>ct_status := JStr ''published''\<rparr>)"
proof -
  obtain u where u: "publishCredentialTemplate ex_template = Inr u"
  proof -
    have "(case publishCredentialTemplate ex_template of Inr _ \<Rightarrow> True | Inl _ \<Rightarrow> False)" by code_simp
    then show ?thesis using that by (auto split: sum.splits)
  qed
  with template_life_cycle [of ex_template] show ?thesis by blast
qed

end
