(* ===== verification/IssuerService.thy ===== *)
theory IssuerService
  imports CredentialDomain TrustRegistry IssuerSigner
begin

text \<open>
  The institutional issuer service (\<open>packages/issuer-service/src/index.ts\<close>): templates,
  issuers and reviewer policies, issuance sessions with their reviews, offers, grants and
  access tokens, issuance of a credential and changes of its status.  \<open>createOffer\<close> and
  \<open>issueCredential\<close> are cut at their awaits; what the service awaits (the key service, the
  trust registry, the holder proof, the format adapter, the status publisher) are ports with
  a state of their own, as are the clock and the random token.
\<close>

section \<open>Data\<close>

datatype svc_exn = Service_error int string | Signer_error issuer_error_code | Thrown

record svc_actor =
  ac_tenantId :: string
  ac_principalId :: string
  ac_scopes :: "string list"

record reviewer_policy =
  rv_tenantId :: string
  rv_policyId :: string
  rv_templateId :: string
  rv_requiredApprovals :: int
  rv_reviewers :: "string list"

record evidence_reference =
  ev_evidenceId :: string
  ev_kind :: string
  ev_digest :: string
  ev_source :: string

datatype review_verdict = Review_approved | Review_rejected

record review_decision =
  rw_reviewerId :: string
  rw_decision :: review_verdict
  rw_reviewedAt :: int

datatype issuance_state = Pending_review | Approved | Offered | Issued | Session_rejected | Expired | Signing_ambiguous

record subject_binding =
  sb_bindingId :: string
  sb_method :: jsval
  sb_value :: string

text \<open>A session as its holder sees it; \<open>kind\<close> is \<open>reissue\<close> when it replaces a credential.\<close>

record session_view =
  is_tenantId :: string
  is_sessionId :: string
  is_issuerId :: string
  is_templateId :: string
  is_templateVersion :: int
  is_format :: string
  is_reviewerPolicyId :: string
  is_state :: issuance_state
  is_evidence :: "evidence_reference list"
  is_reviews :: "review_decision list"
  is_expiresAt :: int
  is_replaces :: "string option"

record issuance_session = session_view +
  is_claims :: "(string \<times> jsval) list"
  is_binding :: subject_binding

record credential_record =
  cr_tenantId :: string
  cr_credentialId :: string
  cr_statusId :: string
  cr_issuerId :: string
  cr_templateId :: string
  cr_templateVersion :: int
  cr_format :: string
  cr_issuedAt :: int
  cr_status :: string
  cr_replaces :: "string option"

datatype grant_kind = Pre_authorized | Authorization_code

record stored_grant =
  sg_tenantId :: string
  sg_sessionId :: string
  sg_kind :: grant_kind
  sg_secretHash :: string
  sg_expiresAt :: int
  sg_clientId :: "string option"
  sg_redirectUri :: "string option"
  sg_consumedAt :: "int option"

record access_token =
  tk_tenantId :: string
  tk_sessionId :: string
  tk_tokenHash :: string
  tk_expiresAt :: int
  tk_consumedAt :: "int option"

record format_pin =
  fp_profile :: string
  fp_version :: string
  fp_mediaType :: string
  fp_algorithms :: "string list"

record credential_artifact =
  ca_format :: string
  ca_profile :: string
  ca_version :: string
  ca_mediaType :: string
  ca_kind :: string
  ca_value :: "string + string"

record issue_input =
  ii_requestId :: string
  ii_tenantId :: string
  ii_template :: credential_template
  ii_issuer :: issuer_profile
  ii_claims :: "(string \<times> jsval) list"
  ii_binding :: subject_binding
  ii_statusId :: string
  ii_issuedAt :: int
  ii_expiresAt :: int
  ii_keyRef :: string
  ii_algorithm :: string

record issue_output =
  io_artifact :: credential_artifact
  io_requestId :: string
  io_keyRef :: string
  io_algorithm :: string

record status_update =
  su_tenantId :: string
  su_issuerId :: string
  su_statusId :: string
  su_status :: string
  su_updatedAt :: int

record 'w service_ports =
  pt_now :: "'w \<Rightarrow> int \<times> 'w"
  pt_token :: "'w \<Rightarrow> string \<times> 'w"
  pt_describeKey :: "string \<Rightarrow> ('w, svc_exn, key_descriptor option) meth"
  pt_trust :: "trust_request \<Rightarrow> ('w, svc_exn, registry_decision) meth"
  pt_format :: "string \<Rightarrow> (issue_input \<Rightarrow> ('w, svc_exn, issue_output) meth) option"
  pt_proof :: "string \<Rightarrow> string \<Rightarrow> string \<Rightarrow> subject_binding \<Rightarrow> ('w, svc_exn, bool) meth"
  pt_publish :: "status_update \<Rightarrow> ('w, svc_exn, unit) meth"
  pt_jurisdiction :: string
  pt_sha :: "string \<Rightarrow> string"
  pt_url :: url_parser
  pt_number :: "string \<Rightarrow> js_number"

record 'w issuer_service =
  sv_templates :: "(string \<times> credential_template) list"
  sv_issuers :: "string \<rightharpoonup> issuer_profile"
  sv_policies :: "string \<rightharpoonup> reviewer_policy"
  sv_sessions :: "string \<rightharpoonup> issuance_session"
  sv_credentials :: "string \<rightharpoonup> credential_record"
  sv_grants :: "string \<rightharpoonup> stored_grant"
  sv_tokens :: "string \<rightharpoonup> access_token"
  sv_world :: 'w

type_synonym ('w, 'a) svc = "('w issuer_service, svc_exn, 'a) meth"

section \<open>Constants\<close>

definition PRE_AUTHORIZED_CODE_GRANT :: string where
  "PRE_AUTHORIZED_CODE_GRANT = ''urn:ietf:params:oauth:grant-type:pre-authorized_code''"

definition AUTHORIZATION_CODE_GRANT :: string where
  "AUTHORIZATION_CODE_GRANT = ''authorization_code''"

definition DEFAULT_OFFER_TTL_MS :: int where
  "DEFAULT_OFFER_TTL_MS = 300000"

definition MAX_OFFER_TTL_MS :: int where
  "MAX_OFFER_TTL_MS = 600000"

definition DEFAULT_CREDENTIAL_TTL_MS :: int where
  "DEFAULT_CREDENTIAL_TTL_MS = 86400000"

text \<open>\<open>CREDENTIAL_FORMAT_PINS\<close>.\<close>

definition format_pins :: "string \<Rightarrow> format_pin option" where
  "format_pins f =
     (if f = ''sd-jwt-vc'' then Some \<lparr>fp_profile = ''draft-ietf-oauth-sd-jwt-vc-16'', fp_version = ''16'',
        fp_mediaType = ''dc+sd-jwt'', fp_algorithms = [''ES256'', ''EdDSA'']\<rparr>
      else if f = ''iso-mdoc'' then Some \<lparr>fp_profile = ''iso-iec-18013-5'', fp_version = ''2021'',
        fp_mediaType = ''application/mdl'', fp_algorithms = [''ES256'']\<rparr>
      else if f = ''w3c-vc-di'' then Some \<lparr>fp_profile = ''w3c-vc-data-model-2.0-data-integrity-1.0'', fp_version = ''2.0'',
        fp_mediaType = ''application/vc+ld+json'', fp_algorithms = [''ecdsa-rdfc-2019'', ''eddsa-rdfc-2022'']\<rparr>
      else if f = ''jwt-vc-legacy'' then Some \<lparr>fp_profile = ''w3c-vc-data-model-1.1-jwt'', fp_version = ''1.1'',
        fp_mediaType = ''application/vc+jwt'', fp_algorithms = [''ES256'', ''EdDSA'']\<rparr>
      else None)"

section \<open>Checks\<close>

definition svc_fail :: "int \<Rightarrow> string \<Rightarrow> svc_exn + 'a" where
  "svc_fail st code = Inl (Service_error st code)"

definition svc_id :: "jsval \<Rightarrow> string \<Rightarrow> svc_exn + string" where
  "svc_id v name = (case v of JStr s \<Rightarrow> if opaque_id s then Inr s else svc_fail 400 (''INVALID_'' @ name)
     | _ \<Rightarrow> svc_fail 400 (''INVALID_'' @ name))"

definition boundedText :: "jsval \<Rightarrow> string \<Rightarrow> nat \<Rightarrow> svc_exn + string" where
  "boundedText v name m = (case v of JStr s \<Rightarrow>
       if s = '''' \<or> m < length s \<or> list_ex is_control s then svc_fail 400 (''INVALID_'' @ name) else Inr s
     | _ \<Rightarrow> svc_fail 400 (''INVALID_'' @ name))"

definition strictRecord :: "jsval \<Rightarrow> string list \<Rightarrow> string list \<Rightarrow> svc_exn + (string \<times> jsval) list" where
  "strictRecord v allowed required = (case v of JObj es \<Rightarrow>
       if \<not> list_all (own es) required then svc_fail 400 ''MISSING_FIELD''
       else if \<not> list_all (\<lambda>k. k \<in> set allowed) (map fst es) then svc_fail 400 ''UNKNOWN_FIELD''
       else Inr es
     | _ \<Rightarrow> svc_fail 400 ''INVALID_BODY'')"

definition safeEqual :: "string \<Rightarrow> string \<Rightarrow> bool" where
  "safeEqual l r \<longleftrightarrow> length l = length r \<and> l = r"

definition sameTenant :: "string \<Rightarrow> string \<Rightarrow> svc_exn + unit" where
  "sameTenant l r = bindE (svc_id (JStr l) ''TENANT'') (\<lambda>a. bindE (svc_id (JStr r) ''TENANT'') (\<lambda>b.
     if a \<noteq> b then svc_fail 403 ''TENANT_MISMATCH'' else Inr ()))"

definition requireScope :: "svc_actor \<Rightarrow> string \<Rightarrow> svc_exn + unit" where
  "requireScope a scope = bindE (svc_id (JStr (ac_tenantId a)) ''TENANT'') (\<lambda>_.
     bindE (svc_id (JStr (ac_principalId a)) ''PRINCIPAL'') (\<lambda>_.
     if scope \<notin> set (ac_scopes a) then svc_fail 403 ''SCOPE_REQUIRED'' else Inr ()))"

definition httpsUrl :: "url_parser \<Rightarrow> jsval \<Rightarrow> string \<Rightarrow> svc_exn + string" where
  "httpsUrl parse v name = bindE (boundedText v name 2048) (\<lambda>t. case parse t of
       None \<Rightarrow> svc_fail 400 (''INVALID_'' @ name)
     | Some u \<Rightarrow> if ur_protocol u \<noteq> ''https:'' \<or> ur_username u \<noteq> '''' \<or> ur_password u \<noteq> ''''
         then svc_fail 400 (''INVALID_'' @ name) else Inr (ur_href u))"

definition configurationId :: "('a session_view_scheme) \<Rightarrow> string" where
  "configurationId s = is_templateId s @ ''.v'' @ show_int (is_templateVersion s) @ ''.'' @ is_format s"

definition template_key :: "string \<Rightarrow> string \<Rightarrow> int \<Rightarrow> string" where
  "template_key t i v = nul_join t (i @ '':v'' @ show_int v)"

definition session_view_of :: "issuance_session \<Rightarrow> session_view" where
  "session_view_of s = session_view.truncate s"

text \<open>\<open>/^\\d{4}-\\d{2}-\\d{2}$/\<close>.\<close>

definition date_text :: "string \<Rightarrow> bool" where
  "date_text s \<longleftrightarrow> length s = 10 \<and> s ! 4 = CHR ''-'' \<and> s ! 7 = CHR ''-''
     \<and> list_all is_digit (take 4 s @ take 2 (drop 5 s) @ drop 8 s)"

definition claim_fits :: "jsval \<Rightarrow> jsval \<Rightarrow> bool" where
  "claim_fits type v \<longleftrightarrow> (case type of JStr t \<Rightarrow>
       (t = ''string'' \<and> (case v of JStr s \<Rightarrow> length s \<le> 2048 | _ \<Rightarrow> False))
     \<or> (t = ''boolean'' \<and> (case v of JBool _ \<Rightarrow> True | _ \<Rightarrow> False))
     \<or> (t = ''number'' \<and> (case v of JInt _ \<Rightarrow> True | JFraction \<Rightarrow> True | _ \<Rightarrow> False))
     \<or> (t = ''date'' \<and> (case v of JStr s \<Rightarrow> date_text s | _ \<Rightarrow> False))
     | _ \<Rightarrow> False)"

definition parseClaims :: "jsval \<Rightarrow> credential_template \<Rightarrow> svc_exn + (string \<times> jsval) list" where
  "parseClaims v t =
     bindE (strictRecord v (map cd_name (ct_claims t)) (map cd_name (filter cd_required (ct_claims t)))) (\<lambda>r.
     bindE (forE (\<lambda>c. let x = jfield r (cd_name c) in
        if x = JUndef \<or> claim_fits (cd_type c) x then Inr () else svc_fail 400 ''INVALID_CLAIMS'') (ct_claims t)) (\<lambda>_.
     Inr r))"

definition parseSubjectBinding :: "jsval \<Rightarrow> svc_exn + subject_binding" where
  "parseSubjectBinding v =
     bindE (strictRecord v [''schemaVersion'', ''bindingId'', ''method'', ''value'']
       [''schemaVersion'', ''bindingId'', ''method'', ''value'']) (\<lambda>i.
     if jfield i ''schemaVersion'' \<noteq> JInt 1
        \<or> \<not> reads_as [''jwk-thumbprint'', ''did-pkh'', ''mdoc-device-key''] (jfield i ''method'')
     then svc_fail 400 ''INVALID_SUBJECT_BINDING''
     else bindE (svc_id (jfield i ''bindingId'') ''BINDING'') (\<lambda>b.
       bindE (boundedText (jfield i ''value'') ''BINDING_VALUE'' 2048) (\<lambda>x.
       Inr \<lparr>sb_bindingId = b, sb_method = jfield i ''method'', sb_value = x\<rparr>)))"

definition parse_evidence_item :: "string set \<Rightarrow> jsval \<Rightarrow> svc_exn + evidence_reference" where
  "parse_evidence_item seen v =
     bindE (strictRecord v [''evidenceId'', ''kind'', ''digest'', ''source''] [''evidenceId'', ''kind'', ''digest'', ''source'']) (\<lambda>i.
     bindE (svc_id (jfield i ''evidenceId'') ''EVIDENCE'') (\<lambda>e.
     if e \<in> seen then svc_fail 400 ''INVALID_EVIDENCE''
     else bindE (case jfield i ''digest'' of JStr d \<Rightarrow>
          if sha256_digest d then Inr d else svc_fail 400 ''INVALID_EVIDENCE_DIGEST''
        | _ \<Rightarrow> svc_fail 400 ''INVALID_EVIDENCE_DIGEST'') (\<lambda>d.
       bindE (svc_id (jfield i ''kind'') ''EVIDENCE_KIND'') (\<lambda>k.
       bindE (boundedText (jfield i ''source'') ''EVIDENCE_SOURCE'' 256) (\<lambda>x.
       Inr \<lparr>ev_evidenceId = e, ev_kind = k, ev_digest = d, ev_source = x\<rparr>)))))"

fun parse_evidence_from :: "string set \<Rightarrow> jsval list \<Rightarrow> svc_exn + evidence_reference list" where
  "parse_evidence_from seen [] = Inr []"
| "parse_evidence_from seen (v # vs) = bindE (parse_evidence_item seen v) (\<lambda>e.
     bindE (parse_evidence_from (insert (ev_evidenceId e) seen) vs) (\<lambda>es. Inr (e # es)))"

definition parseEvidence :: "jsval \<Rightarrow> svc_exn + evidence_reference list" where
  "parseEvidence v = (case v of JArr vs \<Rightarrow>
       if vs = [] \<or> 16 < length vs then svc_fail 400 ''INVALID_EVIDENCE'' else parse_evidence_from {} vs
     | _ \<Rightarrow> svc_fail 400 ''INVALID_EVIDENCE'')"

section \<open>Ports and lookups\<close>

definition port :: "('w, svc_exn, 'a) meth \<Rightarrow> ('w, 'a) svc" where
  "port f s = (case f (sv_world s) of (r, x) \<Rightarrow> (r, s\<lparr>sv_world := x\<rparr>))"

definition now_svc :: "'w service_ports \<Rightarrow> ('w, int) svc" where
  "now_svc p = port (\<lambda>w. case pt_now p w of (n, x) \<Rightarrow> (Inr n, x))"

definition random_svc :: "'w service_ports \<Rightarrow> ('w, string) svc" where
  "random_svc p = port (\<lambda>w. case pt_token p w of (n, x) \<Rightarrow> (Inr n, x))"

definition found :: "'a option \<Rightarrow> string \<Rightarrow> ('w, 'a) svc" where
  "found x code = (case x of None \<Rightarrow> throwS (Service_error 404 code) | Some y \<Rightarrow> returnS y)"

definition getTemplate :: "string \<Rightarrow> string \<Rightarrow> int \<Rightarrow> ('w, credential_template) svc" where
  "getTemplate t i v s = found (map_of (sv_templates s) (template_key t i v)) ''TEMPLATE_NOT_FOUND'' s"

definition getIssuer :: "string \<Rightarrow> string \<Rightarrow> ('w, issuer_profile) svc" where
  "getIssuer t i s = found (sv_issuers s (nul_join t i)) ''ISSUER_NOT_FOUND'' s"

definition getPolicy :: "string \<Rightarrow> string \<Rightarrow> ('w, reviewer_policy) svc" where
  "getPolicy t i s = found (sv_policies s (nul_join t i)) ''REVIEWER_POLICY_NOT_FOUND'' s"

text \<open>The stored session object; later writes go to the entry of its key.\<close>

definition mutableSession :: "string \<Rightarrow> string \<Rightarrow> ('w, issuance_session) svc" where
  "mutableSession t i = bindS (pureS (svc_id (JStr i) ''SESSION'')) (\<lambda>i' s.
     found (sv_sessions s (nul_join t i')) ''SESSION_NOT_FOUND'' s)"

definition session_key :: "('a session_view_scheme) \<Rightarrow> string" where
  "session_key x = nul_join (is_tenantId x) (is_sessionId x)"

definition put_session :: "issuance_session \<Rightarrow> ('w, unit) svc" where
  "put_session x s = (Inr (), s\<lparr>sv_sessions := (sv_sessions s)(session_key x \<mapsto> x)\<rparr>)"

definition set_state :: "string \<Rightarrow> issuance_state \<Rightarrow> ('w, unit) svc" where
  "set_state k st s = (Inr (), s\<lparr>sv_sessions := (sv_sessions s)(k := map_option (\<lambda>x. x\<lparr>is_state := st\<rparr>) (sv_sessions s k))\<rparr>)"

definition ensureSessionLive :: "'w service_ports \<Rightarrow> issuance_session \<Rightarrow> ('w, unit) svc" where
  "ensureSessionLive p x = bindS (now_svc p) (\<lambda>n.
     if is_expiresAt x \<le> n then bindS (set_state (session_key x) Expired) (\<lambda>_. throwS (Service_error 410 ''SESSION_EXPIRED''))
     else returnS ())"

definition token_text :: "string \<Rightarrow> bool" where
  "token_text t \<longleftrightarrow> 16 \<le> length t \<and> length t \<le> 512 \<and> list_all (\<lambda>c. is_alnum c \<or> c = CHR ''_'' \<or> c = CHR ''-'') t"

fun try_tokens :: "'w service_ports \<Rightarrow> nat \<Rightarrow> ('w, string) svc" where
  "try_tokens p 0 = throwS (Service_error 500 ''RANDOM_TOKEN_FAILURE'')"
| "try_tokens p (Suc n) = bindS (random_svc p) (\<lambda>t.
     if \<not> token_text t then throwS (Service_error 500 ''RANDOM_TOKEN_FAILURE'')
     else (\<lambda>s. if sv_grants s (pt_sha p t) = None \<and> sv_tokens s (pt_sha p t) = None then (Inr t, s)
       else try_tokens p n s))"

definition uniqueToken :: "'w service_ports \<Rightarrow> ('w, string) svc" where
  "uniqueToken p = try_tokens p 4"

section \<open>Registration\<close>

definition registerTemplate :: "'w service_ports \<Rightarrow> svc_actor \<Rightarrow> jsval \<Rightarrow> ('w, credential_template) svc" where
  "registerTemplate p a v = bindS (pureS (requireScope a ''templates:write'')) (\<lambda>_.
     case bindE (parseCredentialTemplate v) (\<lambda>t. bindE (assertSameTenant (ac_tenantId a) (ct_tenantId t)) (\<lambda>_. Inr t)) of
       Inl _ \<Rightarrow> throwS (Service_error 400 ''INVALID_TEMPLATE'')
     | Inr t \<Rightarrow>
         if ct_status t \<noteq> JStr ''published'' then throwS (Service_error 409 ''TEMPLATE_NOT_PUBLISHED'')
         else (\<lambda>s. let k = template_key (ct_tenantId t) (ct_templateId t) (ct_version t) in
           if map_of (sv_templates s) k \<noteq> None then (Inl (Service_error 409 ''TEMPLATE_EXISTS''), s)
           else (Inr t, s\<lparr>sv_templates := omap_set k t (sv_templates s)\<rparr>)))"

definition registerIssuer :: "'w service_ports \<Rightarrow> svc_actor \<Rightarrow> jsval \<Rightarrow> ('w, issuer_profile) svc" where
  "registerIssuer p a v = bindS (pureS (requireScope a ''issuers:write'')) (\<lambda>_.
     case bindE (parseIssuerProfile (pt_url p) v) (\<lambda>x. bindE (assertSameTenant (ac_tenantId a) (ip_tenantId x)) (\<lambda>_. Inr x)) of
       Inl _ \<Rightarrow> throwS (Service_error 400 ''INVALID_ISSUER'')
     | Inr x \<Rightarrow> (case ensureKeyRef (ip_keyRef x) of
           Inl _ \<Rightarrow> throwS (Service_error 400 ''INVALID_ISSUER'')
         | Inr _ \<Rightarrow> (\<lambda>s. (Inr x, s\<lparr>sv_issuers := (sv_issuers s)(nul_join (ip_tenantId x) (ip_issuerId x) \<mapsto> x)\<rparr>))))"

definition policy_fields :: "string list" where
  "policy_fields = [''schemaVersion'', ''tenantId'', ''policyId'', ''templateId'', ''requiredApprovals'', ''authorizedReviewerIds'']"

definition parse_policy :: "svc_actor \<Rightarrow> jsval \<Rightarrow> svc_exn + reviewer_policy" where
  "parse_policy a v =
     bindE (strictRecord v policy_fields policy_fields) (\<lambda>i.
     if jfield i ''schemaVersion'' \<noteq> JInt 1 then svc_fail 400 ''INVALID_REVIEWER_POLICY'' else
     bindE (svc_id (jfield i ''tenantId'') ''TENANT'') (\<lambda>t.
     bindE (sameTenant (ac_tenantId a) t) (\<lambda>_.
     bindE (svc_id (jfield i ''policyId'') ''POLICY'') (\<lambda>q.
     bindE (svc_id (jfield i ''templateId'') ''TEMPLATE'') (\<lambda>m.
     case (jfield i ''requiredApprovals'', jfield i ''authorizedReviewerIds'') of
       (JInt n, JArr rs) \<Rightarrow>
         if \<not> safe_integer n \<or> n < 1 \<or> 10 < n then svc_fail 400 ''INVALID_REVIEWER_POLICY''
         else bindE (mapE (\<lambda>r. svc_id r ''REVIEWER'') rs) (\<lambda>reviewers.
           if \<not> distinct reviewers \<or> int (length reviewers) < n then svc_fail 400 ''INVALID_REVIEWER_POLICY''
           else Inr \<lparr>rv_tenantId = t, rv_policyId = q, rv_templateId = m, rv_requiredApprovals = n, rv_reviewers = reviewers\<rparr>)
     | _ \<Rightarrow> svc_fail 400 ''INVALID_REVIEWER_POLICY'')))))"

definition registerReviewerPolicy :: "svc_actor \<Rightarrow> jsval \<Rightarrow> ('w, reviewer_policy) svc" where
  "registerReviewerPolicy a v = bindS (pureS (requireScope a ''reviewer-policies:write'')) (\<lambda>_.
     bindS (pureS (parse_policy a v)) (\<lambda>q s.
     (Inr q, s\<lparr>sv_policies := (sv_policies s)(nul_join (rv_tenantId q) (rv_policyId q) \<mapsto> q)\<rparr>)))"

section \<open>Requests and reviews\<close>

definition request_fields :: "string list" where
  "request_fields = [''sessionId'', ''issuerId'', ''templateId'', ''templateVersion'', ''format'', ''reviewerPolicyId'',
     ''claims'', ''subjectBinding'', ''evidence'', ''expiresAt'']"

definition safe_int_field :: "jsval \<Rightarrow> string \<Rightarrow> svc_exn + int" where
  "safe_int_field v code = (case v of JInt n \<Rightarrow> if safe_integer n then Inr n else svc_fail 400 code | _ \<Rightarrow> svc_fail 400 code)"

definition check_replaced :: "svc_actor \<Rightarrow> string \<Rightarrow> string \<Rightarrow> string option \<Rightarrow> ('w, unit) svc" where
  "check_replaced a templateId issuerId replaced = (case replaced of
       None \<Rightarrow> returnS ()
     | Some c \<Rightarrow> (\<lambda>s. case sv_credentials s (nul_join (ac_tenantId a) c) of
           None \<Rightarrow> (Inl (Service_error 404 ''CREDENTIAL_NOT_FOUND''), s)
         | Some old \<Rightarrow> if cr_templateId old \<noteq> templateId \<or> cr_issuerId old \<noteq> issuerId
             then (Inl (Service_error 409 ''REISSUE_TEMPLATE_MISMATCH''), s) else (Inr (), s)))"

definition createIssuanceRequest :: "'w service_ports \<Rightarrow> svc_actor \<Rightarrow> jsval \<Rightarrow> ('w, session_view) svc" where
  "createIssuanceRequest p a v =
     bindS (pureS (requireScope a ''issuance:write'')) (\<lambda>_.
     bindS (pureS (strictRecord v (request_fields @ [''replacesCredentialId'']) request_fields)) (\<lambda>i.
     bindS (pureS (svc_id (jfield i ''sessionId'') ''SESSION'')) (\<lambda>sessionId.
     bindS (pureS (svc_id (jfield i ''issuerId'') ''ISSUER'')) (\<lambda>issuerId.
     bindS (pureS (svc_id (jfield i ''templateId'') ''TEMPLATE'')) (\<lambda>templateId.
     bindS (pureS (svc_id (jfield i ''reviewerPolicyId'') ''POLICY'')) (\<lambda>policyId.
     bindS (pureS (safe_int_field (jfield i ''templateVersion'') ''INVALID_TEMPLATE_VERSION'')) (\<lambda>version.
     if \<not> reads_as credential_formats (jfield i ''format'') then throwS (Service_error 400 ''UNSUPPORTED_FORMAT'') else
     bindS (now_svc p) (\<lambda>n.
     bindS (pureS (case to_number (pt_number p) (jfield i ''expiresAt'') of
         Not_a_number \<Rightarrow> svc_fail 400 ''INVALID_EXPIRY''
       | Whole e \<Rightarrow> if \<not> safe_integer e \<or> e \<le> n then svc_fail 400 ''INVALID_EXPIRY'' else Inr e)) (\<lambda>expiresAt.
     bindS (getTemplate (ac_tenantId a) templateId version) (\<lambda>template.
     bindS (getIssuer (ac_tenantId a) issuerId) (\<lambda>issuer.
     bindS (getPolicy (ac_tenantId a) policyId) (\<lambda>policy.
     bindS (pureS (case jfield i ''format'' of JStr f \<Rightarrow>
         if templateId \<notin> set (ip_templates issuer) \<or> rv_templateId policy \<noteq> templateId
            \<or> f \<notin> set (ct_formats template) \<or> Option.is_none (pt_format p f)
         then svc_fail 403 ''ISSUANCE_NOT_AUTHORIZED'' else Inr f
       | _ \<Rightarrow> svc_fail 403 ''ISSUANCE_NOT_AUTHORIZED'')) (\<lambda>format.
     bindS (pureS (parseClaims (jfield i ''claims'') template)) (\<lambda>claims.
     bindS (pureS (parseSubjectBinding (jfield i ''subjectBinding''))) (\<lambda>binding.
     bindS (pureS (parseEvidence (jfield i ''evidence''))) (\<lambda>items.
     bindS (pureS (if jfield i ''replacesCredentialId'' = JUndef then Inr None
       else bindE (svc_id (jfield i ''replacesCredentialId'') ''CREDENTIAL'') (\<lambda>c. Inr (Some c)))) (\<lambda>replaced.
     bindS (check_replaced a templateId issuerId replaced) (\<lambda>_ s.
     let x = \<lparr>is_tenantId = ac_tenantId a, is_sessionId = sessionId, is_issuerId = issuerId, is_templateId = templateId,
        is_templateVersion = version, is_format = format, is_reviewerPolicyId = policyId, is_state = Pending_review,
        is_evidence = items, is_reviews = [], is_expiresAt = expiresAt, is_replaces = replaced,
        is_claims = claims, is_binding = binding\<rparr> in
     if sv_sessions s (session_key x) \<noteq> None then (Inl (Service_error 409 ''SESSION_EXISTS''), s)
     else bindS (put_session x) (\<lambda>_. returnS (session_view_of x)) s))))))))))))))))))"

definition approvals_of :: "review_decision list \<Rightarrow> review_decision list" where
  "approvals_of rs = filter (\<lambda>r. rw_decision r = Review_approved) rs"

definition reviewIssuance :: "'w service_ports \<Rightarrow> svc_actor \<Rightarrow> string \<Rightarrow> jsval \<Rightarrow> ('w, session_view) svc" where
  "reviewIssuance p a sessionId v =
     bindS (pureS (requireScope a ''issuance:review'')) (\<lambda>_.
     bindS (pureS (strictRecord v [''decision''] [''decision''])) (\<lambda>i.
     bindS (pureS (if jfield i ''decision'' = JStr ''approved'' then Inr Review_approved
       else if jfield i ''decision'' = JStr ''rejected'' then Inr Review_rejected
       else svc_fail 400 ''INVALID_REVIEW_DECISION'')) (\<lambda>decision.
     bindS (mutableSession (ac_tenantId a) sessionId) (\<lambda>x.
     bindS (ensureSessionLive p x) (\<lambda>_.
     if is_state x \<noteq> Pending_review then throwS (Service_error 409 ''SESSION_NOT_REVIEWABLE'') else
     bindS (getPolicy (ac_tenantId a) (is_reviewerPolicyId x)) (\<lambda>policy.
     if ac_principalId a \<notin> set (rv_reviewers policy) then throwS (Service_error 403 ''REVIEWER_NOT_AUTHORIZED'')
     else if list_ex (\<lambda>r. rw_reviewerId r = ac_principalId a) (is_reviews x)
     then throwS (Service_error 409 ''REVIEW_ALREADY_RECORDED'')
     else bindS (now_svc p) (\<lambda>n.
       let reviews = is_reviews x @ [\<lparr>rw_reviewerId = ac_principalId a, rw_decision = decision, rw_reviewedAt = n\<rparr>];
           st = (if decision = Review_rejected then Session_rejected
             else if rv_requiredApprovals policy \<le> int (length (approvals_of reviews)) then Approved else Pending_review);
           y = x\<lparr>is_reviews := reviews, is_state := st\<rparr>
       in bindS (put_session y) (\<lambda>_. returnS (session_view_of y)))))))))"

section \<open>Authority to issue\<close>

text \<open>The checks before the first await, and what they read.\<close>

definition authority_begin :: "issuance_session \<Rightarrow> ('w, credential_template \<times> issuer_profile) svc" where
  "authority_begin x =
     bindS (getTemplate (is_tenantId x) (is_templateId x) (is_templateVersion x)) (\<lambda>template.
     bindS (getIssuer (is_tenantId x) (is_issuerId x)) (\<lambda>issuer.
     bindS (getPolicy (is_tenantId x) (is_reviewerPolicyId x)) (\<lambda>policy.
     let approvals = filter (\<lambda>r. rw_reviewerId r \<in> set (rv_reviewers policy)) (approvals_of (is_reviews x)) in
     if ct_status template \<noteq> JStr ''published'' \<or> is_format x \<notin> set (ct_formats template)
        \<or> is_templateId x \<notin> set (ip_templates issuer) \<or> rv_templateId policy \<noteq> is_templateId x
        \<or> int (length (remdups (map rw_reviewerId approvals))) < rv_requiredApprovals policy
     then throwS (Service_error 403 ''ISSUANCE_NOT_AUTHORIZED'')
     else returnS (template, issuer))))"

definition key_ref :: "string \<Rightarrow> svc_exn + string" where
  "key_ref k = (case ensureKeyRef k of Inl (Issuer_error c) \<Rightarrow> Inl (Signer_error c) | Inl _ \<Rightarrow> Inl Thrown | Inr r \<Rightarrow> Inr r)"

text \<open>The key service and the trust registry; the service's own maps are not touched.\<close>

definition authority_check :: "'w service_ports \<Rightarrow> issuance_session \<Rightarrow> issuer_profile \<Rightarrow> ('w, key_descriptor) svc" where
  "authority_check p x issuer =
     bindS (pureS (key_ref (ip_keyRef issuer))) (\<lambda>ref.
     bindS (port (pt_describeKey p ref)) (\<lambda>d. case d of
       None \<Rightarrow> throwS (Service_error 403 ''KEY_NOT_AUTHORIZED'')
     | Some descriptor \<Rightarrow>
         if kd_status descriptor \<noteq> ''active'' then throwS (Service_error 403 ''KEY_NOT_AUTHORIZED'')
         else (case format_pins (is_format x) of
           None \<Rightarrow> throwS Thrown
         | Some pin \<Rightarrow>
             if kd_algorithm descriptor \<notin> set (fp_algorithms pin) then throwS (Service_error 403 ''KEY_NOT_AUTHORIZED'')
             else bindS (now_svc p) (\<lambda>n.
               bindS (port (pt_trust p \<lparr>tr_scope = \<lparr>rs_tenantId = is_tenantId x, rs_jurisdiction = pt_jurisdiction p\<rparr>,
                 tr_issuerId = is_issuerId x, tr_schemaId = is_templateId x @ '':v'' @ show_int (is_templateVersion x),
                 tr_keyId = ip_keyRef issuer, tr_issuedAt = n, tr_statusId = ''''\<rparr>)) (\<lambda>trust.
               if rd_decision trust \<noteq> Verified then throwS (Service_error 403 ''TRUST_NOT_AUTHORIZED'')
               else returnS descriptor)))))"

section \<open>Offers\<close>

record offer_request =
  of_flow :: grant_kind
  of_ttlMs :: int
  of_clientId :: jsval
  of_redirectUri :: jsval

definition parse_offer :: "jsval \<Rightarrow> svc_exn + offer_request" where
  "parse_offer v =
     bindE (strictRecord v [''flow'', ''ttlMs'', ''clientId'', ''redirectUri''] [''flow'']) (\<lambda>i.
     bindE (if jfield i ''flow'' = JStr ''pre-authorized_code'' then Inr Pre_authorized
       else if jfield i ''flow'' = JStr AUTHORIZATION_CODE_GRANT then Inr Authorization_code
       else svc_fail 400 ''UNSUPPORTED_GRANT_TYPE'') (\<lambda>flow.
     bindE (case jfield i ''ttlMs'' of JUndef \<Rightarrow> Inr DEFAULT_OFFER_TTL_MS
       | JInt n \<Rightarrow> if \<not> safe_integer n \<or> n < 1000 \<or> MAX_OFFER_TTL_MS < n then svc_fail 400 ''INVALID_OFFER_TTL'' else Inr n
       | _ \<Rightarrow> svc_fail 400 ''INVALID_OFFER_TTL'') (\<lambda>ttl.
     Inr \<lparr>of_flow = flow, of_ttlMs = ttl, of_clientId = jfield i ''clientId'', of_redirectUri = jfield i ''redirectUri''\<rparr>)))"

definition offer_begin ::
  "'w service_ports \<Rightarrow> svc_actor \<Rightarrow> string \<Rightarrow> jsval \<Rightarrow> ('w, offer_request \<times> issuance_session \<times> issuer_profile) svc" where
  "offer_begin p a sessionId v =
     bindS (pureS (requireScope a ''offers:write'')) (\<lambda>_.
     bindS (pureS (parse_offer v)) (\<lambda>rq.
     bindS (mutableSession (ac_tenantId a) sessionId) (\<lambda>x.
     bindS (ensureSessionLive p x) (\<lambda>_.
     if is_state x \<noteq> Approved then throwS (Service_error 409 ''SESSION_NOT_APPROVED'') else
     bindS (authority_begin x) (\<lambda>(_, issuer). returnS (rq, x, issuer))))))"

definition optional :: "jsval \<Rightarrow> (jsval \<Rightarrow> svc_exn + string) \<Rightarrow> svc_exn + string option" where
  "optional v f = (if v = JUndef then Inr None else bindE (f v) (\<lambda>s. Inr (Some s)))"

text \<open>The offer: the issuer's address, the configuration, the grant's kind, the secret and seconds to live.\<close>

record credential_offer =
  co_issuer :: string
  co_configuration :: string
  co_kind :: grant_kind
  co_secret :: string
  co_expiresIn :: int

definition put_grant :: "stored_grant \<Rightarrow> ('w, unit) svc" where
  "put_grant g s = (Inr (), s\<lparr>sv_grants := (sv_grants s)(sg_secretHash g \<mapsto> g)\<rparr>)"

definition offer_end ::
  "'w service_ports \<Rightarrow> svc_actor \<Rightarrow> offer_request \<Rightarrow> issuance_session \<Rightarrow> ('w, credential_offer) svc" where
  "offer_end p a rq x =
     bindS (getIssuer (ac_tenantId a) (is_issuerId x)) (\<lambda>issuer.
     bindS (uniqueToken p) (\<lambda>secret.
     bindS (pureS (optional (of_clientId rq) (\<lambda>v. svc_id v ''CLIENT''))) (\<lambda>clientId.
     bindS (pureS (optional (of_redirectUri rq) (\<lambda>v. httpsUrl (pt_url p) v ''REDIRECT_URI''))) (\<lambda>redirectUri.
     if of_flow rq = Authorization_code \<and> (clientId = None \<or> redirectUri = None \<or> redirectUri = Some '''')
     then throwS (Service_error 400 ''AUTHORIZATION_CLIENT_REQUIRED'')
     else if of_flow rq = Pre_authorized \<and> (clientId \<noteq> None \<or> redirectUri \<noteq> None)
     then throwS (Service_error 400 ''UNEXPECTED_AUTHORIZATION_CLIENT'')
     else bindS (now_svc p) (\<lambda>n.
       bindS (put_grant \<lparr>sg_tenantId = ac_tenantId a, sg_sessionId = is_sessionId x, sg_kind = of_flow rq,
         sg_secretHash = pt_sha p secret, sg_expiresAt = n + of_ttlMs rq, sg_clientId = clientId,
         sg_redirectUri = redirectUri, sg_consumedAt = None\<rparr>) (\<lambda>_.
       bindS (set_state (session_key x) Offered) (\<lambda>_.
       returnS \<lparr>co_issuer = ip_issuerUri issuer, co_configuration = configurationId x, co_kind = of_flow rq,
         co_secret = secret, co_expiresIn = of_ttlMs rq div 1000\<rparr>)))))))"

definition createOffer :: "'w service_ports \<Rightarrow> svc_actor \<Rightarrow> string \<Rightarrow> jsval \<Rightarrow> ('w, credential_offer) svc" where
  "createOffer p a sessionId v = bindS (offer_begin p a sessionId v) (\<lambda>(rq, x, issuer).
     bindS (authority_check p x issuer) (\<lambda>_. offer_end p a rq x))"

section \<open>Grants and tokens\<close>

definition consumeGrant :: "'w service_ports \<Rightarrow> string \<Rightarrow> string \<Rightarrow> grant_kind \<Rightarrow> ('w, stored_grant) svc" where
  "consumeGrant p secret tenantId kind s = (case sv_grants s (pt_sha p secret) of
       None \<Rightarrow> (Inl (Service_error 400 ''INVALID_GRANT''), s)
     | Some g \<Rightarrow>
         if \<not> safeEqual (sg_secretHash g) (pt_sha p secret) then (Inl (Service_error 400 ''INVALID_GRANT''), s)
         else if sg_tenantId g \<noteq> tenantId then (Inl (Service_error 403 ''TENANT_MISMATCH''), s)
         else if sg_kind g \<noteq> kind \<or> sg_consumedAt g \<noteq> None then (Inl (Service_error 400 ''INVALID_GRANT''), s)
         else bindS (now_svc p) (\<lambda>n t.
           let g' = g\<lparr>sg_consumedAt := Some n\<rparr>; t' = t\<lparr>sv_grants := (sv_grants t)(pt_sha p secret \<mapsto> g')\<rparr> in
           if sg_expiresAt g \<le> n then (Inl (Service_error 400 ''EXPIRED_GRANT''), t') else (Inr g', t')) s)"

definition consumeAccessToken :: "'w service_ports \<Rightarrow> string \<Rightarrow> string \<Rightarrow> ('w, access_token) svc" where
  "consumeAccessToken p secret tenantId = bindS (pureS (boundedText (JStr secret) ''ACCESS_TOKEN'' 512)) (\<lambda>v s.
     case sv_tokens s (pt_sha p v) of
       None \<Rightarrow> (Inl (Service_error 401 ''INVALID_ACCESS_TOKEN''), s)
     | Some k \<Rightarrow>
         if \<not> safeEqual (tk_tokenHash k) (pt_sha p v) then (Inl (Service_error 401 ''INVALID_ACCESS_TOKEN''), s)
         else if tk_tenantId k \<noteq> tenantId then (Inl (Service_error 403 ''TENANT_MISMATCH''), s)
         else if tk_consumedAt k \<noteq> None then (Inl (Service_error 401 ''ACCESS_TOKEN_REPLAY''), s)
         else bindS (now_svc p) (\<lambda>n t.
           let k' = k\<lparr>tk_consumedAt := Some n\<rparr>; t' = t\<lparr>sv_tokens := (sv_tokens t)(pt_sha p v \<mapsto> k')\<rparr> in
           if tk_expiresAt k \<le> n then (Inl (Service_error 401 ''ACCESS_TOKEN_EXPIRED''), t') else (Inr k', t')) s)"

record authorization_response =
  ar_redirectUri :: string
  ar_code :: string
  ar_state :: string

definition authorize_fields :: "string list" where
  "authorize_fields = [''issuer_state'', ''client_id'', ''redirect_uri'', ''state'']"

definition svc_authorize ::
  "'w service_ports \<Rightarrow> svc_actor \<Rightarrow> string \<Rightarrow> jsval \<Rightarrow> ('w, authorization_response) svc" where
  "svc_authorize p a tenantId v =
     bindS (pureS (sameTenant (ac_tenantId a) tenantId)) (\<lambda>_.
     bindS (pureS (requireScope a ''oid4vci:authorize'')) (\<lambda>_.
     bindS (pureS (strictRecord v authorize_fields authorize_fields)) (\<lambda>i.
     bindS (pureS (boundedText (jfield i ''issuer_state'') ''ISSUER_STATE'' 512)) (\<lambda>issuerState.
     bindS (pureS (svc_id (jfield i ''client_id'') ''CLIENT'')) (\<lambda>clientId.
     bindS (pureS (httpsUrl (pt_url p) (jfield i ''redirect_uri'') ''REDIRECT_URI'')) (\<lambda>redirectUri.
     bindS (pureS (boundedText (jfield i ''state'') ''STATE'' 512)) (\<lambda>st.
     bindS (consumeGrant p issuerState tenantId Authorization_code) (\<lambda>g.
     if sg_clientId g \<noteq> Some clientId \<or> sg_redirectUri g \<noteq> Some redirectUri
     then throwS (Service_error 400 ''AUTHORIZATION_CLIENT_MISMATCH'')
     else bindS (uniqueToken p) (\<lambda>code.
       bindS (now_svc p) (\<lambda>n.
       bindS (put_grant \<lparr>sg_tenantId = tenantId, sg_sessionId = sg_sessionId g, sg_kind = Authorization_code,
         sg_secretHash = pt_sha p code, sg_expiresAt = min (sg_expiresAt g) (n + 60000),
         sg_clientId = Some clientId, sg_redirectUri = Some redirectUri, sg_consumedAt = None\<rparr>) (\<lambda>_.
       returnS \<lparr>ar_redirectUri = redirectUri, ar_code = code, ar_state = st\<rparr>)))))))))))"

record token_response =
  tp_accessToken :: string
  tp_expiresIn :: int

definition token_grant :: "'w service_ports \<Rightarrow> string \<Rightarrow> (string \<times> jsval) list \<Rightarrow> ('w, stored_grant) svc" where
  "token_grant p tenantId i =
     (if jfield i ''grant_type'' = JStr PRE_AUTHORIZED_CODE_GRANT then
        bindS (pureS (boundedText (jfield i ''pre-authorized_code'') ''GRANT'' 512)) (\<lambda>code.
        if jfield i ''code'' \<noteq> JUndef \<or> jfield i ''client_id'' \<noteq> JUndef \<or> jfield i ''redirect_uri'' \<noteq> JUndef
        then throwS (Service_error 400 ''INVALID_TOKEN_REQUEST'')
        else consumeGrant p code tenantId Pre_authorized)
      else if jfield i ''grant_type'' = JStr AUTHORIZATION_CODE_GRANT then
        bindS (pureS (boundedText (jfield i ''code'') ''GRANT'' 512)) (\<lambda>code.
        bindS (pureS (svc_id (jfield i ''client_id'') ''CLIENT'')) (\<lambda>clientId.
        bindS (pureS (httpsUrl (pt_url p) (jfield i ''redirect_uri'') ''REDIRECT_URI'')) (\<lambda>redirectUri.
        bindS (consumeGrant p code tenantId Authorization_code) (\<lambda>g.
        if sg_clientId g \<noteq> Some clientId \<or> sg_redirectUri g \<noteq> Some redirectUri
        then throwS (Service_error 400 ''AUTHORIZATION_CLIENT_MISMATCH'') else returnS g))))
      else throwS (Service_error 400 ''UNSUPPORTED_GRANT_TYPE''))"

definition exchangeToken :: "'w service_ports \<Rightarrow> string \<Rightarrow> jsval \<Rightarrow> ('w, token_response) svc" where
  "exchangeToken p tenantId v =
     bindS (pureS (strictRecord v [''grant_type'', ''pre-authorized_code'', ''code'', ''client_id'', ''redirect_uri''] [''grant_type''])) (\<lambda>i.
     bindS (token_grant p tenantId i) (\<lambda>g.
     bindS (uniqueToken p) (\<lambda>token.
     bindS (now_svc p) (\<lambda>n.
     let expiresAt = min (sg_expiresAt g) (n + 60000) in
     bindS (\<lambda>s. (Inr (), s\<lparr>sv_tokens := (sv_tokens s)(pt_sha p token \<mapsto>
         \<lparr>tk_tenantId = tenantId, tk_sessionId = sg_sessionId g, tk_tokenHash = pt_sha p token,
          tk_expiresAt = expiresAt, tk_consumedAt = None\<rparr>)\<rparr>)) (\<lambda>_.
     bindS (now_svc p) (\<lambda>m.
     returnS \<lparr>tp_accessToken = token, tp_expiresIn = max 0 ((expiresAt - m) div 1000)\<rparr>))))))"

section \<open>Issuance\<close>

record issue_request =
  iq_tenantId :: string
  iq_proof :: string
  iq_key :: string

definition parse_issue :: "jsval \<Rightarrow> svc_exn + string \<times> string" where
  "parse_issue v =
     bindE (strictRecord v [''credential_configuration_id'', ''proof''] [''credential_configuration_id'', ''proof'']) (\<lambda>i.
     bindE (svc_id (jfield i ''credential_configuration_id'') ''CREDENTIAL_CONFIGURATION'') (\<lambda>conf.
     bindE (strictRecord (jfield i ''proof'') [''proof_type'', ''jwt''] [''proof_type'', ''jwt'']) (\<lambda>q.
     if jfield q ''proof_type'' \<noteq> JStr ''jwt'' then svc_fail 400 ''UNSUPPORTED_PROOF_TYPE''
     else bindE (boundedText (jfield q ''jwt'') ''PROOF'' 8192) (\<lambda>proof. Inr (conf, proof)))))"

text \<open>Up to the first await: the token is consumed, the session must be live and offered.\<close>

definition issue_begin ::
  "'w service_ports \<Rightarrow> string \<Rightarrow> string \<Rightarrow> jsval \<Rightarrow> ('w, issue_request \<times> credential_template \<times> issuer_profile) svc" where
  "issue_begin p tenantId accessToken v =
     bindS (pureS (parse_issue v)) (\<lambda>(conf, proof).
     bindS (consumeAccessToken p accessToken tenantId) (\<lambda>k.
     bindS (mutableSession tenantId (tk_sessionId k)) (\<lambda>x.
     bindS (ensureSessionLive p x) (\<lambda>_.
     if is_state x \<noteq> Offered \<or> conf \<noteq> configurationId x
     then throwS (Service_error 400 ''INVALID_CREDENTIAL_REQUEST'')
     else bindS (authority_begin x) (\<lambda>(template, issuer).
       returnS (\<lparr>iq_tenantId = tenantId, iq_proof = proof, iq_key = session_key x\<rparr>, template, issuer))))))"

text \<open>The session object as it is when a later segment reads it.\<close>

definition session_at :: "string \<Rightarrow> ('w, issuance_session) svc" where
  "session_at k s = (case sv_sessions s k of None \<Rightarrow> (Inl Thrown, s) | Some x \<Rightarrow> (Inr x, s))"

definition holder_check :: "'w service_ports \<Rightarrow> issue_request \<Rightarrow> issuer_profile \<Rightarrow> ('w, unit) svc" where
  "holder_check p q issuer = bindS (session_at (iq_key q)) (\<lambda>x.
     bindS (port (pt_proof p (iq_tenantId q) (ip_issuerUri issuer) (iq_proof q) (is_binding x))) (\<lambda>ok.
     if \<not> ok then throwS (Service_error 400 ''INVALID_OR_MISSING_PROOF'') else returnS ()))"

text \<open>Between the proof and the format adapter: identifiers and the request to it.\<close>

record issue_plan =
  pl_credentialId :: string
  pl_input :: issue_input
  pl_format :: string

definition issue_prepare ::
  "'w service_ports \<Rightarrow> issue_request \<Rightarrow> credential_template \<Rightarrow> issuer_profile \<Rightarrow> key_descriptor \<Rightarrow> ('w, issue_plan) svc" where
  "issue_prepare p q template issuer descriptor =
     bindS (now_svc p) (\<lambda>issuedAt.
     bindS (uniqueToken p) (\<lambda>t1. bindS (uniqueToken p) (\<lambda>t2. bindS (uniqueToken p) (\<lambda>t3.
     bindS (session_at (iq_key q)) (\<lambda>x.
     if Option.is_none (pt_format p (is_format x)) then throwS (Service_error 409 ''FORMAT_UNAVAILABLE'') else
     bindS (pureS (key_ref (ip_keyRef issuer))) (\<lambda>ref.
     returnS \<lparr>pl_credentialId = ''cred-'' @ take 24 t1,
       pl_input = \<lparr>ii_requestId = ''issue-'' @ is_sessionId x @ ''-'' @ take 12 t3, ii_tenantId = iq_tenantId q,
         ii_template = template, ii_issuer = issuer, ii_claims = is_claims x, ii_binding = is_binding x,
         ii_statusId = ''status-'' @ take 24 t2, ii_issuedAt = issuedAt,
         ii_expiresAt = issuedAt + DEFAULT_CREDENTIAL_TTL_MS, ii_keyRef = ref, ii_algorithm = kd_algorithm descriptor\<rparr>,
       pl_format = is_format x\<rparr>))))))"

definition ambiguous_error :: "svc_exn \<Rightarrow> bool" where
  "ambiguous_error e \<longleftrightarrow> e = Signer_error SIGNING_RESULT_AMBIGUOUS \<or> e = Signer_error OPERATION_RESULT_AMBIGUOUS"

definition call_format :: "'w service_ports \<Rightarrow> issue_request \<Rightarrow> issue_plan \<Rightarrow> ('w, issue_output) svc" where
  "call_format p q plan = (case pt_format p (pl_format plan) of
       None \<Rightarrow> throwS (Service_error 409 ''FORMAT_UNAVAILABLE'')
     | Some f \<Rightarrow> catchS (port (f (pl_input plan))) (\<lambda>e.
         if ambiguous_error e
         then bindS (set_state (iq_key q) Signing_ambiguous) (\<lambda>_. throwS (Service_error 503 ''SIGNING_RESULT_AMBIGUOUS''))
         else throwS e))"

definition output_fits :: "issue_plan \<Rightarrow> issue_output \<Rightarrow> bool" where
  "output_fits plan r \<longleftrightarrow> io_requestId r = ii_requestId (pl_input plan) \<and> io_keyRef r = ii_keyRef (pl_input plan)
     \<and> io_algorithm r = ii_algorithm (pl_input plan) \<and> ca_format (io_artifact r) = pl_format plan
     \<and> (case format_pins (pl_format plan) of None \<Rightarrow> False | Some pin \<Rightarrow>
          ca_profile (io_artifact r) = fp_profile pin \<and> ca_version (io_artifact r) = fp_version pin)
     \<and> ca_kind (io_artifact r) = ''credential''"

definition serializeArtifact :: "credential_artifact \<Rightarrow> string" where
  "serializeArtifact a = (case ca_value a of Inl t \<Rightarrow> t | Inr bytes \<Rightarrow> base64Url bytes)"

text \<open>The segment after the adapter returned: the record is stored before its status is published.\<close>

definition issue_record :: "issue_request \<Rightarrow> issue_plan \<Rightarrow> issue_output \<Rightarrow> ('w, credential_record) svc" where
  "issue_record q plan r =
     (if \<not> output_fits plan r
      then bindS (set_state (iq_key q) Signing_ambiguous) (\<lambda>_. throwS (Service_error 503 ''SIGNING_RESULT_AMBIGUOUS''))
      else bindS (session_at (iq_key q)) (\<lambda>x s.
        let c = \<lparr>cr_tenantId = iq_tenantId q, cr_credentialId = pl_credentialId plan, cr_statusId = ii_statusId (pl_input plan),
          cr_issuerId = is_issuerId x, cr_templateId = is_templateId x, cr_templateVersion = is_templateVersion x,
          cr_format = is_format x, cr_issuedAt = ii_issuedAt (pl_input plan), cr_status = ''valid'', cr_replaces = is_replaces x\<rparr> in
        (Inr c, s\<lparr>sv_credentials := (sv_credentials s)(nul_join (iq_tenantId q) (pl_credentialId plan) \<mapsto> c)\<rparr>)))"

definition publish_valid :: "'w service_ports \<Rightarrow> credential_record \<Rightarrow> ('w, unit) svc" where
  "publish_valid p c = port (pt_publish p \<lparr>su_tenantId = cr_tenantId c, su_issuerId = cr_issuerId c,
     su_statusId = cr_statusId c, su_status = ''valid'', su_updatedAt = cr_issuedAt c\<rparr>)"

definition issue_finish :: "issue_request \<Rightarrow> ('w, unit) svc" where
  "issue_finish q s = (Inr (), s\<lparr>sv_sessions := (sv_sessions s)(iq_key q :=
     map_option (\<lambda>x. x\<lparr>is_state := Issued, is_claims := []\<rparr>) (sv_sessions s (iq_key q)))\<rparr>)"

record issued_credential =
  id_format :: string
  id_credential :: string
  id_credentialId :: string
  id_statusId :: string

definition issueCredential :: "'w service_ports \<Rightarrow> string \<Rightarrow> string \<Rightarrow> jsval \<Rightarrow> ('w, issued_credential) svc" where
  "issueCredential p tenantId accessToken v =
     bindS (issue_begin p tenantId accessToken v) (\<lambda>(q, template, issuer).
     bindS (session_at (iq_key q)) (\<lambda>x.
     bindS (authority_check p x issuer) (\<lambda>descriptor.
     bindS (holder_check p q issuer) (\<lambda>_.
     bindS (issue_prepare p q template issuer descriptor) (\<lambda>plan.
     bindS (call_format p q plan) (\<lambda>r.
     bindS (issue_record q plan r) (\<lambda>c.
     bindS (publish_valid p c) (\<lambda>_.
     bindS (issue_finish q) (\<lambda>_.
     returnS \<lparr>id_format = ca_mediaType (io_artifact r), id_credential = serializeArtifact (io_artifact r),
       id_credentialId = cr_credentialId c, id_statusId = cr_statusId c\<rparr>)))))))))"

section \<open>Status and reading\<close>

text \<open>The checks before the status is published; \<open>None\<close> is nothing to do.\<close>

definition status_begin :: "'w service_ports \<Rightarrow> svc_actor \<Rightarrow> string \<Rightarrow> string \<Rightarrow> ('w, credential_record \<times> int option) svc" where
  "status_begin p a credentialId status =
     bindS (pureS (requireScope a ''credentials:status'')) (\<lambda>_.
     bindS (pureS (svc_id (JStr credentialId) ''CREDENTIAL'')) (\<lambda>c.
     bindS (\<lambda>s. found (sv_credentials s (nul_join (ac_tenantId a) c)) ''CREDENTIAL_NOT_FOUND'' s) (\<lambda>current.
     if cr_status current = ''revoked'' \<and> status \<noteq> ''revoked'' then throwS (Service_error 409 ''CREDENTIAL_REVOKED'')
     else if cr_status current = status then returnS (current, None)
     else bindS (now_svc p) (\<lambda>n. returnS (current, Some n)))))"

definition status_end :: "svc_actor \<Rightarrow> string \<Rightarrow> credential_record \<Rightarrow> string \<Rightarrow> ('w, credential_record) svc" where
  "status_end a credentialId current status s = (let u = current\<lparr>cr_status := status\<rparr> in
     (Inr u, s\<lparr>sv_credentials := (sv_credentials s)(nul_join (ac_tenantId a) credentialId \<mapsto> u)\<rparr>))"

definition changeStatus :: "'w service_ports \<Rightarrow> svc_actor \<Rightarrow> string \<Rightarrow> string \<Rightarrow> ('w, credential_record) svc" where
  "changeStatus p a credentialId status = bindS (status_begin p a credentialId status) (\<lambda>(current, at). case at of
       None \<Rightarrow> returnS current
     | Some n \<Rightarrow> bindS (port (pt_publish p \<lparr>su_tenantId = ac_tenantId a, su_issuerId = cr_issuerId current,
           su_statusId = cr_statusId current, su_status = status, su_updatedAt = n\<rparr>)) (\<lambda>_.
         status_end a credentialId current status))"

definition suspendCredential where "suspendCredential p a c = changeStatus p a c ''suspended''"

definition revokeCredential where "revokeCredential p a c = changeStatus p a c ''revoked''"

definition svc_getSession :: "svc_actor \<Rightarrow> string \<Rightarrow> ('w, session_view) svc" where
  "svc_getSession a i = bindS (pureS (requireScope a ''issuance:read'')) (\<lambda>_.
     bindS (mutableSession (ac_tenantId a) i) (\<lambda>x. returnS (session_view_of x)))"

definition getCredential :: "svc_actor \<Rightarrow> string \<Rightarrow> ('w, credential_record) svc" where
  "getCredential a i = bindS (pureS (requireScope a ''credentials:read'')) (\<lambda>_.
     bindS (pureS (svc_id (JStr i) ''CREDENTIAL'')) (\<lambda>c s.
     found (sv_credentials s (nul_join (ac_tenantId a) c)) ''CREDENTIAL_NOT_FOUND'' s))"

text \<open>The metadata: issuer address and, per configuration, media type and credential type.\<close>

record issuer_metadata =
  im_issuer :: string
  im_authorization :: string
  im_token :: string
  im_credential :: string
  im_configurations :: "(string \<times> string \<times> string) list"

definition template_configurations :: "credential_template \<Rightarrow> (string \<times> string \<times> string) list" where
  "template_configurations t = concat (map (\<lambda>f. case format_pins f of None \<Rightarrow> [] | Some pin \<Rightarrow>
     [(ct_templateId t @ ''.v'' @ show_int (ct_version t) @ ''.'' @ f, fp_mediaType pin, ct_type t)]) (ct_formats t))"

definition issuerMetadata :: "string \<Rightarrow> string \<Rightarrow> ('w, issuer_metadata) svc" where
  "issuerMetadata tenantId issuerId = bindS (getIssuer tenantId issuerId) (\<lambda>issuer s.
     let ts = filter (\<lambda>t. ct_tenantId t = tenantId \<and> ct_templateId t \<in> set (ip_templates issuer)) (map snd (sv_templates s));
         base = ip_issuerUri issuer @ ''/v1/oid4vci/'' @ tenantId in
     (Inr \<lparr>im_issuer = ip_issuerUri issuer, im_authorization = base @ ''/authorize'', im_token = base @ ''/token'',
        im_credential = base @ ''/credential'',
        im_configurations = fold (\<lambda>(k, m, y) cs. omap_set k (m, y) cs) (concat (map template_configurations ts)) []\<rparr>, s))"

end
