(* ===== verification/IssuerServiceGrants.thy ===== *)
theory IssuerServiceGrants
  imports IssuerService
begin

text \<open>
  What a segment of a request leaves as it was, as locales over relations between the service
  before and after, with one interpretation for each group of stores; and that a grant and an
  access token are used at most once however the requests interleave.
\<close>

section \<open>What a segment leaves as it was\<close>

text \<open>
  A relation between the service before and after that is not about the ports' state nor the
  registered templates, issuers and reviewer policies: every segment that only reads, awaits
  or registers keeps it.  Three extensions allow the writes of sessions, of grants and
  tokens, and of credential records.
\<close>

locale service_frame =
  fixes R :: "'w issuer_service \<Rightarrow> 'w issuer_service \<Rightarrow> bool"
  assumes R_refl: "R s s"
    and R_trans: "R s t \<Longrightarrow> R t u \<Longrightarrow> R s u"
    and R_world: "R s (s\<lparr>sv_world := w\<rparr>)"
    and R_templates: "R s (s\<lparr>sv_templates := ts\<rparr>)"
    and R_issuers: "R s (s\<lparr>sv_issuers := is\<rparr>)"
    and R_policies: "R s (s\<lparr>sv_policies := ps\<rparr>)"
begin

lemma R_basic: "keepsS R (returnS x)" "keepsS R (throwS e)" "keepsS R (pureS r)" "keepsS R (Pair r)"
  by (simp_all add: keepsS_def R_refl)

lemma R_raw: "keepsS R (\<lambda>s. (r s, s))"
  by (simp add: keepsS_def R_refl)

lemma R_bind: "keepsS R m \<Longrightarrow> (\<And>x. keepsS R (k x)) \<Longrightarrow> keepsS R (bindS m k)"
  using keepsS_bind [of R m k] R_trans unfolding transp_def by blast

lemma R_catch: "keepsS R m \<Longrightarrow> (\<And>e. keepsS R (h e)) \<Longrightarrow> keepsS R (catchS m h)"
  using keepsS_catch [of R m h] R_trans unfolding transp_def by blast

lemma R_port: "keepsS R (port f)"
  by (simp add: keepsS_def port_def R_world split: prod.split)

lemma R_clock: "keepsS R (now_svc p)" "keepsS R (random_svc p)"
  by (simp_all add: now_svc_def random_svc_def R_port)

lemma R_found: "keepsS R (found x c)"
  by (simp add: found_def R_basic split: option.split)

lemma R_lookups:
  "keepsS R (getTemplate t i v)" "keepsS R (getIssuer t i)" "keepsS R (getPolicy t i)"
  "keepsS R (mutableSession t i)" "keepsS R (session_at k)"
  by (simp_all add: keepsS_def getTemplate_def getIssuer_def getPolicy_def mutableSession_def bindS_def found_def session_at_def R_refl
      split: sum.split option.split)

lemma R_try_tokens: "keepsS R (try_tokens p n)"
proof (induction n)
  case (Suc n)
  have "keepsS R (\<lambda>s. if sv_grants s k = None \<and> sv_tokens s k = None then (Inr t, s) else try_tokens p n s)" for k t
    using Suc by (simp add: keepsS_def R_refl)
  then show ?case by (auto intro!: R_bind R_clock R_basic)
qed (simp add: R_basic)

lemma R_unique: "keepsS R (uniqueToken p)"
  by (simp add: uniqueToken_def R_try_tokens)

lemma R_authority_begin: "keepsS R (authority_begin x)"
  unfolding authority_begin_def Let_def by (auto intro!: R_bind R_lookups R_basic split: prod.split)

lemma R_authority_check: "keepsS R (authority_check p x i)"
  unfolding authority_check_def by (auto intro!: R_bind R_port R_clock R_basic split: option.split)

lemma R_register_template: "keepsS R (registerTemplate p a v)"
  unfolding registerTemplate_def
  by (auto intro!: R_bind R_basic split: sum.split) (simp add: keepsS_def Let_def R_refl R_templates)

lemma R_register_issuer: "keepsS R (registerIssuer p a v)"
  unfolding registerIssuer_def
  by (auto intro!: R_bind R_basic split: sum.split) (simp add: keepsS_def R_issuers)

lemma R_register_policy: "keepsS R (registerReviewerPolicy a v)"
  unfolding registerReviewerPolicy_def
  by (auto intro!: R_bind R_basic split: sum.split) (simp add: keepsS_def R_policies)

lemma R_holder: "keepsS R (holder_check p q i)"
  unfolding holder_check_def by (auto intro!: R_bind R_port R_lookups R_basic)

lemma R_prepare: "keepsS R (issue_prepare p q m i d)"
  unfolding issue_prepare_def by (auto intro!: R_bind R_clock R_unique R_lookups R_basic)

lemma R_publish: "keepsS R (publish_valid p c)"
  unfolding publish_valid_def by (rule R_port)

lemma R_status_begin: "keepsS R (status_begin p a c st)"
proof -
  have "keepsS R (\<lambda>s. found (sv_credentials s k) e s)" for k e
    by (simp add: keepsS_def found_def R_refl split: option.split)
  then show ?thesis unfolding status_begin_def by (auto intro!: R_bind R_clock R_basic)
qed

lemmas R_read_segments = R_unique R_authority_begin R_authority_check R_register_template R_register_issuer
  R_register_policy R_holder R_prepare R_publish R_status_begin

end

text \<open>Relations that are not about the sessions.\<close>

locale session_blind = service_frame +
  assumes R_sessions: "R s (s\<lparr>sv_sessions := m\<rparr>)"
begin

lemma R_session_writes: "keepsS R (put_session x)" "keepsS R (set_state k st)" "keepsS R (issue_finish q)"
  by (simp_all add: keepsS_def put_session_def set_state_def issue_finish_def R_sessions)

lemma R_live: "keepsS R (ensureSessionLive p x)"
  unfolding ensureSessionLive_def by (auto intro!: R_bind R_clock R_session_writes R_basic)

lemma R_create: "keepsS R (createIssuanceRequest p a v)"
proof -
  have rep: "keepsS R (check_replaced a t i r)" for a t i r
    by (simp add: keepsS_def check_replaced_def R_refl split: option.split)
  show ?thesis unfolding createIssuanceRequest_def
    by (auto intro!: R_bind R_basic R_clock R_lookups rep)
      (simp_all add: keepsS_def Let_def put_session_def bindS_def R_refl R_sessions)
qed

lemma R_review: "keepsS R (reviewIssuance p a i v)"
  unfolding reviewIssuance_def Let_def by (auto intro!: R_bind R_basic R_clock R_lookups R_live R_session_writes)

lemma R_offer_begin: "keepsS R (offer_begin p a i v)"
  unfolding offer_begin_def by (auto intro!: R_bind R_basic R_lookups R_live R_authority_begin split: prod.split)

lemma R_call_format: "keepsS R (call_format p q plan)"
  unfolding call_format_def by (auto intro!: R_bind R_catch R_basic R_port R_session_writes split: option.split)

lemmas R_session_segments = R_create R_review R_offer_begin R_call_format R_session_writes

end

text \<open>Relations that are not about grants and access tokens.\<close>

locale secret_blind = service_frame +
  assumes R_grants: "R s (s\<lparr>sv_grants := gs\<rparr>)"
    and R_tokens: "R s (s\<lparr>sv_tokens := ts\<rparr>)"
begin

lemma R_consume_grant: "keepsS R (consumeGrant p x t k)"
proof -
  have "keepsS R (\<lambda>s. let g' = G n; t' = s\<lparr>sv_grants := (sv_grants s)(h \<mapsto> g')\<rparr> in if b n then (Inl e, t') else (Inr g', t'))"
    for n G h b and e :: svc_exn
    by (simp add: keepsS_def Let_def R_grants)
  then have "keepsS R (bindS (now_svc p) (\<lambda>n s. let g' = g\<lparr>sg_consumedAt := Some n\<rparr>;
      t' = s\<lparr>sv_grants := (sv_grants s)(h \<mapsto> g')\<rparr> in if sg_expiresAt g \<le> n then (Inl e, t') else (Inr g', t')))"
    for g h and e :: svc_exn
    by (intro R_bind R_clock)
  then show ?thesis
    by (simp add: keepsS_def consumeGrant_def R_refl split: option.split)
qed

lemma R_consume_token: "keepsS R (consumeAccessToken p x t)"
proof -
  have "keepsS R (\<lambda>s. let g' = G n; t' = s\<lparr>sv_tokens := (sv_tokens s)(h \<mapsto> g')\<rparr> in if b n then (Inl e, t') else (Inr g', t'))"
    for n G h b and e :: svc_exn
    by (simp add: keepsS_def Let_def R_tokens)
  then have "keepsS R (bindS (now_svc p) (\<lambda>n s. let g' = g\<lparr>tk_consumedAt := Some n\<rparr>;
      t' = s\<lparr>sv_tokens := (sv_tokens s)(h \<mapsto> g')\<rparr> in if tk_expiresAt g \<le> n then (Inl e, t') else (Inr g', t')))"
    for g h and e :: svc_exn
    by (intro R_bind R_clock)
  then have "keepsS R (\<lambda>s. case sv_tokens s h of None \<Rightarrow> (Inl e1, s) | Some k \<Rightarrow>
      if \<not> safeEqual (tk_tokenHash k) h then (Inl e2, s) else if tk_tenantId k \<noteq> t then (Inl e3, s)
      else if tk_consumedAt k \<noteq> None then (Inl e4, s) else bindS (now_svc p) (\<lambda>n s. let g' = k\<lparr>tk_consumedAt := Some n\<rparr>;
      t' = s\<lparr>sv_tokens := (sv_tokens s)(h \<mapsto> g')\<rparr> in if tk_expiresAt k \<le> n then (Inl e5, t') else (Inr g', t')) s)"
    for h and e1 e2 e3 e4 e5 :: svc_exn
    by (simp add: keepsS_def R_refl split: option.split)
  then show ?thesis
    unfolding consumeAccessToken_def by (intro R_bind R_basic)
qed

lemma R_put_grant: "keepsS R (put_grant g)"
  by (simp add: keepsS_def put_grant_def R_grants)

lemma R_authorize: "keepsS R (svc_authorize p a t v)"
  unfolding svc_authorize_def
  by (intro R_bind R_basic R_consume_grant) (auto intro!: R_bind R_basic R_unique R_clock R_put_grant)

lemma R_exchange: "keepsS R (exchangeToken p t v)"
proof -
  have "keepsS R (token_grant p t i)" for i
    unfolding token_grant_def by (auto intro!: R_bind R_basic R_consume_grant)
  moreover have "keepsS R (\<lambda>s. (Inr (), s\<lparr>sv_tokens := (sv_tokens s)(k \<mapsto> x)\<rparr>))" for k x
    by (simp add: keepsS_def R_tokens)
  ultimately show ?thesis
    unfolding exchangeToken_def Let_def by (auto intro!: R_bind R_basic R_unique R_clock)
qed

lemmas R_secret_segments = R_consume_grant R_consume_token R_authorize R_exchange

end

text \<open>Relations that are not about credential records.\<close>

locale credential_blind = service_frame +
  assumes R_credentials: "R s (s\<lparr>sv_credentials := cs\<rparr>)"
begin

lemma R_status_end: "keepsS R (status_end a c x st)"
  by (simp add: keepsS_def status_end_def Let_def R_credentials)

lemma R_change: "keepsS R (changeStatus p a c st)"
  unfolding changeStatus_def by (auto intro!: R_bind R_basic R_port R_status_begin R_status_end split: option.split prod.split)

end

text \<open>All three writes of issuance.\<close>

locale session_credential_blind = session_blind + credential_blind
begin

lemma R_record: "keepsS R (issue_record q plan r)"
  unfolding issue_record_def
  by (auto intro!: R_bind R_basic R_session_writes R_lookups) (simp add: keepsS_def Let_def R_credentials)

end

text \<open>The writes of offers and of the start of an issuance.\<close>

locale session_secret_blind = session_blind + secret_blind
begin

lemma R_offer_end: "keepsS R (offer_end p a rq x)"
  unfolding offer_end_def
  by (auto intro!: R_bind R_basic R_lookups R_unique R_clock R_put_grant R_session_writes)

lemma R_issue_begin: "keepsS R (issue_begin p t x v)"
  unfolding issue_begin_def
  by (auto intro!: R_bind R_basic R_lookups R_consume_token R_live R_authority_begin split: prod.split)

end

section \<open>The five frames of the model\<close>

definition stores_kept :: "'w issuer_service \<Rightarrow> 'w issuer_service \<Rightarrow> bool" where
  "stores_kept s t \<longleftrightarrow> sv_sessions t = sv_sessions s \<and> sv_credentials t = sv_credentials s
     \<and> sv_grants t = sv_grants s \<and> sv_tokens t = sv_tokens s"

definition all_but_sessions :: "'w issuer_service \<Rightarrow> 'w issuer_service \<Rightarrow> bool" where
  "all_but_sessions s t \<longleftrightarrow> sv_credentials t = sv_credentials s \<and> sv_grants t = sv_grants s \<and> sv_tokens t = sv_tokens s"

definition all_but_secrets :: "'w issuer_service \<Rightarrow> 'w issuer_service \<Rightarrow> bool" where
  "all_but_secrets s t \<longleftrightarrow> sv_sessions t = sv_sessions s \<and> sv_credentials t = sv_credentials s"

definition all_but_credentials :: "'w issuer_service \<Rightarrow> 'w issuer_service \<Rightarrow> bool" where
  "all_but_credentials s t \<longleftrightarrow> sv_sessions t = sv_sessions s \<and> sv_grants t = sv_grants s \<and> sv_tokens t = sv_tokens s"

definition secrets_kept :: "'w issuer_service \<Rightarrow> 'w issuer_service \<Rightarrow> bool" where
  "secrets_kept s t \<longleftrightarrow> sv_grants t = sv_grants s \<and> sv_tokens t = sv_tokens s"

definition credentials_kept :: "'w issuer_service \<Rightarrow> 'w issuer_service \<Rightarrow> bool" where
  "credentials_kept s t \<longleftrightarrow> sv_credentials t = sv_credentials s"

interpretation stores: service_frame stores_kept
  by unfold_locales (auto simp: stores_kept_def)

interpretation nosession: session_blind all_but_sessions
  by unfold_locales (auto simp: all_but_sessions_def)

interpretation nosecret: secret_blind all_but_secrets
  by unfold_locales (auto simp: all_but_secrets_def)

interpretation nocred: credential_blind all_but_credentials
  by unfold_locales (auto simp: all_but_credentials_def)

interpretation secrets: session_credential_blind secrets_kept
  by unfold_locales (auto simp: secrets_kept_def)

interpretation creds: session_secret_blind credentials_kept
  by unfold_locales (auto simp: credentials_kept_def)

section \<open>Grants and access tokens\<close>

definition spent_grants :: "'w issuer_service \<Rightarrow> string set" where
  "spent_grants s = {h. \<exists>g. sv_grants s h = Some g \<and> sg_consumedAt g \<noteq> None}"

definition spent_tokens :: "'w issuer_service \<Rightarrow> string set" where
  "spent_tokens s = {h. \<exists>k. sv_tokens s h = Some k \<and> tk_consumedAt k \<noteq> None}"

definition spent_grow :: "'w issuer_service \<Rightarrow> 'w issuer_service \<Rightarrow> bool" where
  "spent_grow s t \<longleftrightarrow> spent_grants s \<subseteq> spent_grants t \<and> spent_tokens s \<subseteq> spent_tokens t"

lemmas spent_defs = spent_grow_def spent_grants_def spent_tokens_def

lemma now_svc_run: "now_svc p s = (Inr (fst (pt_now p (sv_world s))), s\<lparr>sv_world := snd (pt_now p (sv_world s))\<rparr>)"
  by (simp add: now_svc_def port_def split: prod.split)

lemma try_tokens_fresh:
  assumes "try_tokens p n s = (Inr x, t)"
  shows "sv_grants t (pt_sha p x) = None \<and> sv_tokens t (pt_sha p x) = None"
  using assms
  by (induction n arbitrary: s) (auto simp: bindS_Inr split: if_splits)

lemma unique_fresh:
  "uniqueToken p s = (Inr x, t) \<Longrightarrow> sv_grants t (pt_sha p x) = None \<and> sv_tokens t (pt_sha p x) = None"
  unfolding uniqueToken_def by (rule try_tokens_fresh)

lemma consumeGrant_Inr:
  assumes "consumeGrant p x tn k s = (Inr g', t)"
  obtains g n w where "sv_grants s (pt_sha p x) = Some g" "sg_consumedAt g = None" "sg_kind g = k"
    "sg_tenantId g = tn" "n < sg_expiresAt g" "g' = g\<lparr>sg_consumedAt := Some n\<rparr>"
    "t = s\<lparr>sv_world := w, sv_grants := (sv_grants s)(pt_sha p x \<mapsto> g')\<rparr>"
proof -
  let ?n = "fst (pt_now p (sv_world s))" and ?w = "snd (pt_now p (sv_world s))"
  obtain g where g: "sv_grants s (pt_sha p x) = Some g"
    using assms by (auto simp: consumeGrant_def split: option.splits)
  have h: "sg_consumedAt g = None \<and> sg_kind g = k \<and> sg_tenantId g = tn \<and> ?n < sg_expiresAt g
      \<and> g' = g\<lparr>sg_consumedAt := Some ?n\<rparr> \<and> t = s\<lparr>sv_world := ?w, sv_grants := (sv_grants s)(pt_sha p x \<mapsto> g')\<rparr>"
    using assms by (auto simp: consumeGrant_def g bindS_def now_svc_run Let_def split: if_splits)
  show ?thesis by (rule that [OF g, of ?n ?w]) (insert h, (elim conjE, assumption)+)
qed

lemma consumeAccessToken_Inr:
  assumes "consumeAccessToken p x tn s = (Inr k', t)"
  obtains k n w where "sv_tokens s (pt_sha p x) = Some k" "tk_consumedAt k = None"
    "tk_tenantId k = tn" "n < tk_expiresAt k" "k' = k\<lparr>tk_consumedAt := Some n\<rparr>"
    "t = s\<lparr>sv_world := w, sv_tokens := (sv_tokens s)(pt_sha p x \<mapsto> k')\<rparr>"
proof -
  let ?n = "fst (pt_now p (sv_world s))" and ?w = "snd (pt_now p (sv_world s))"
  have b: "boundedText (JStr x) ''ACCESS_TOKEN'' 512 = Inr x"
    using assms by (auto simp: consumeAccessToken_def bindS_def boundedText_def svc_fail_def split: if_splits sum.splits)
  obtain k where k: "sv_tokens s (pt_sha p x) = Some k"
    using assms by (auto simp: consumeAccessToken_def b bindS_def split: option.splits)
  have h: "tk_consumedAt k = None \<and> tk_tenantId k = tn \<and> ?n < tk_expiresAt k
      \<and> k' = k\<lparr>tk_consumedAt := Some ?n\<rparr> \<and> t = s\<lparr>sv_world := ?w, sv_tokens := (sv_tokens s)(pt_sha p x \<mapsto> k')\<rparr>"
    using assms by (auto simp: consumeAccessToken_def b k bindS_def now_svc_run Let_def split: if_splits)
  show ?thesis by (rule that [OF k, of ?n ?w]) (insert h, (elim conjE, assumption)+)
qed

lemma spent_grow_trans: "spent_grow s t \<Longrightarrow> spent_grow t u \<Longrightarrow> spent_grow s u"
  unfolding spent_grow_def by blast

interpretation grow: session_credential_blind spent_grow
  by unfold_locales (erule (1) spent_grow_trans | simp add: spent_defs)+

lemma grow_consume_grant: "keepsS spent_grow (consumeGrant p x tn k)"
  unfolding keepsS_def
  by (auto simp: consumeGrant_def bindS_def now_svc_run Let_def spent_defs split: option.split)

lemma grow_consume_token: "keepsS spent_grow (consumeAccessToken p x tn)"
  unfolding keepsS_def
  by (auto simp: consumeAccessToken_def bindS_def now_svc_run Let_def spent_defs split: option.split sum.split)

text \<open>A fresh secret never overwrites a spent entry.\<close>

lemma grow_fresh_grant:
  assumes "\<And>x. keepsS spent_grow (k x)" "\<And>x s. sv_grants s (pt_sha p x) = None \<Longrightarrow> spent_grow s (snd (k x s))"
  shows "keepsS spent_grow (bindS (uniqueToken p) k)"
  using assms keepsS_D [OF grow.R_unique] grow.R_trans unique_fresh
  unfolding keepsS_def bindS_def by (fastforce split: prod.split sum.split)

lemma grow_world: "spent_grow s (s\<lparr>sv_world := w\<rparr>)"
  by (simp add: spent_defs)

text \<open>What stores a fresh secret overwrites no spent entry.\<close>

lemma keepsS_after_fresh:
  assumes "\<And>x s. sv_grants s (pt_sha p x) = None \<Longrightarrow> sv_tokens s (pt_sha p x) = None \<Longrightarrow> spent_grow s (snd (k x s))"
  shows "keepsS spent_grow (bindS (uniqueToken p) k)"
  unfolding keepsS_def
proof
  fix s
  obtain r t where u: "uniqueToken p s = (r, t)" by fastforce
  have g: "spent_grow s t" using keepsS_D [OF grow.R_unique u] .
  show "spent_grow s (snd (bindS (uniqueToken p) k s))"
  proof (cases r)
    case (Inr x)
    then have "spent_grow t (snd (k x t))" using assms unique_fresh u by blast
    with g u Inr show ?thesis by (auto simp: bindS_def intro: spent_grow_trans)
  qed (use g u in \<open>simp add: bindS_def\<close>)
qed

lemma grow_offer_end: "keepsS spent_grow (offer_end p a rq x)"
  unfolding offer_end_def
  by (intro grow.R_bind grow.R_lookups keepsS_after_fresh)
    (auto simp: bindS_def now_svc_run put_grant_def set_state_def spent_defs split: sum.split)

lemma grow_authorize: "keepsS spent_grow (svc_authorize p a tn v)"
  unfolding svc_authorize_def
  by (auto intro!: grow.R_bind grow.R_basic grow_consume_grant keepsS_after_fresh
      simp: bindS_def now_svc_run put_grant_def spent_defs)

lemma grow_token_grant: "keepsS spent_grow (token_grant p tn i)"
  unfolding token_grant_def by (auto intro!: grow.R_bind grow.R_basic grow_consume_grant)

lemma grow_exchange: "keepsS spent_grow (exchangeToken p tn v)"
  unfolding exchangeToken_def Let_def
  by (intro grow.R_bind grow.R_basic grow_token_grant keepsS_after_fresh)
    (auto simp: bindS_def now_svc_run spent_defs)

lemma grow_issue_begin: "keepsS spent_grow (issue_begin p tn x v)"
  unfolding issue_begin_def
  by (auto intro!: grow.R_bind grow.R_basic grow_consume_token grow.R_lookups grow.R_live grow.R_authority_begin split: prod.split)

section \<open>Interleaved segments\<close>

text \<open>
  What one request may do between two of its awaits, for every request and every value a
  suspended request may hold: any interleaving of the service's requests is a sequence of
  these steps.  The world (clock, key service, registry, publisher) may move on its own.
\<close>

inductive svc_segment :: "'w service_ports \<Rightarrow> 'w issuer_service \<Rightarrow> 'w issuer_service \<Rightarrow> bool" for p where
  seg_world: "svc_segment p s (s\<lparr>sv_world := w\<rparr>)"
| seg_template: "registerTemplate p a v s = (r1, t) \<Longrightarrow> svc_segment p s t"
| seg_issuer: "registerIssuer p a v s = (r2, t) \<Longrightarrow> svc_segment p s t"
| seg_policy: "registerReviewerPolicy a v s = (r3, t) \<Longrightarrow> svc_segment p s t"
| seg_request: "createIssuanceRequest p a v s = (r4, t) \<Longrightarrow> svc_segment p s t"
| seg_review: "reviewIssuance p a i v s = (r5, t) \<Longrightarrow> svc_segment p s t"
| seg_offer_begin: "offer_begin p a i v s = (r6, t) \<Longrightarrow> svc_segment p s t"
| seg_authority: "authority_check p x iss s = (r7, t) \<Longrightarrow> svc_segment p s t"
| seg_offer_end: "offer_end p a rq x s = (r8, t) \<Longrightarrow> svc_segment p s t"
| seg_authorize: "svc_authorize p a tn v s = (r9, t) \<Longrightarrow> svc_segment p s t"
| seg_exchange: "exchangeToken p tn v s = (r10, t) \<Longrightarrow> svc_segment p s t"
| seg_issue_begin: "issue_begin p tn tok v s = (r11, t) \<Longrightarrow> svc_segment p s t"
| seg_holder: "holder_check p q iss s = (r12, t) \<Longrightarrow> svc_segment p s t"
| seg_prepare: "issue_prepare p q tmpl iss d s = (r13, t) \<Longrightarrow> svc_segment p s t"
| seg_format: "call_format p q plan s = (r14, t) \<Longrightarrow> svc_segment p s t"
| seg_record: "issue_record q plan out s = (r15, t) \<Longrightarrow> svc_segment p s t"
| seg_publish: "publish_valid p c s = (r16, t) \<Longrightarrow> svc_segment p s t"
| seg_finish: "issue_finish q s = (r17, t) \<Longrightarrow> svc_segment p s t"
| seg_status_begin: "status_begin p a i st s = (r18, t) \<Longrightarrow> svc_segment p s t"
| seg_status_end: "status_end a i c st s = (r19, t) \<Longrightarrow> svc_segment p s t"

lemmas grow_segments = grow.R_read_segments grow.R_session_segments grow.R_record grow.R_status_end
  grow_offer_end grow_authorize grow_exchange grow_issue_begin

lemma segment_spent_grow: "svc_segment p s t \<Longrightarrow> spent_grow s t"
  by (erule svc_segment.cases) (hypsubst, auto simp: grow_world intro: grow_segments [THEN keepsS_D])

text \<open>The start of an issuance with an access token; the use of a grant.\<close>

definition issue_attempt :: "'w service_ports \<Rightarrow> string \<times> string \<times> jsval \<Rightarrow> 'w issuer_service \<Rightarrow> bool \<times> 'w issuer_service" where
  "issue_attempt p i s = (case i of (tn, tok, v) \<Rightarrow> case issue_begin p tn tok v s of (Inl _, t) \<Rightarrow> (False, t) | (Inr _, t) \<Rightarrow> (True, t))"

definition token_digest :: "'w service_ports \<Rightarrow> string \<times> string \<times> jsval \<Rightarrow> string" where
  "token_digest p i = pt_sha p (fst (snd i))"

datatype grant_use = Authorize_use svc_actor string jsval | Exchange_use string jsval

fun grant_attempt :: "'w service_ports \<Rightarrow> grant_use \<Rightarrow> 'w issuer_service \<Rightarrow> bool \<times> 'w issuer_service" where
  "grant_attempt p (Authorize_use a tn v) s = (case svc_authorize p a tn v s of (Inl _, t) \<Rightarrow> (False, t) | (Inr _, t) \<Rightarrow> (True, t))"
| "grant_attempt p (Exchange_use tn v) s = (case exchangeToken p tn v s of (Inl _, t) \<Rightarrow> (False, t) | (Inr _, t) \<Rightarrow> (True, t))"

fun grant_secret :: "grant_use \<Rightarrow> jsval" where
  "grant_secret (Authorize_use a tn (JObj i)) = jfield i ''issuer_state''"
| "grant_secret (Exchange_use tn (JObj i)) = (if jfield i ''grant_type'' = JStr PRE_AUTHORIZED_CODE_GRANT
     then jfield i ''pre-authorized_code'' else jfield i ''code'')"
| "grant_secret _ = JUndef"

definition grant_digest :: "'w service_ports \<Rightarrow> grant_use \<Rightarrow> string" where
  "grant_digest p u = (case grant_secret u of JStr x \<Rightarrow> pt_sha p x | _ \<Rightarrow> '''')"

lemma boundedText_Inr: "boundedText v n m = Inr x \<Longrightarrow> v = JStr x"
  by (auto simp: boundedText_def svc_fail_def split: jsval.splits if_splits)

lemma strictRecord_Inr: "strictRecord v al rq = Inr i \<Longrightarrow> v = JObj i"
  by (auto simp: strictRecord_def svc_fail_def split: jsval.splits if_splits)

lemma bindS_then:
  assumes "bindS m k s = (Inr y, t)" "\<And>x. keepsS R (k x)"
  obtains x t1 where "m s = (Inr x, t1)" "R t1 t"
  using assms(1) keepsS_D [OF assms(2)] by (auto simp: bindS_Inr)

lemma pureS_elim:
  assumes "bindS (pureS r) k s = (Inr y, t)"
  obtains x where "r = Inr x" "k x s = (Inr y, t)"
  using assms by (auto simp: bindS_Inr)

lemma used_token:
  assumes "consumeAccessToken p tok tn s = (Inr k, t1)" "spent_grow t1 t"
  shows "pt_sha p tok \<notin> spent_tokens s \<and> pt_sha p tok \<in> spent_tokens t"
  using assms by (elim consumeAccessToken_Inr) (auto simp: spent_defs)

lemma used_grant:
  assumes "consumeGrant p x tn k s = (Inr g, t1)" "spent_grow t1 t"
  shows "pt_sha p x \<notin> spent_grants s \<and> pt_sha p x \<in> spent_grants t"
  using assms by (elim consumeGrant_Inr) (auto simp: spent_defs)

lemma issue_begin_used:
  assumes "issue_begin p tn tok v s = (Inr y, t)"
  shows "pt_sha p tok \<notin> spent_tokens s \<and> pt_sha p tok \<in> spent_tokens t"
  using assms unfolding issue_begin_def case_prod_beta
  apply (elim pureS_elim)
  apply (erule bindS_then [where R = spent_grow])
   apply (auto intro!: grow.R_bind grow.R_lookups grow.R_live grow.R_basic grow.R_authority_begin)[1]
  apply (erule (1) used_token)
  done

lemma authorize_used:
  assumes "svc_authorize p a tn v s = (Inr y, t)"
  shows "\<exists>i x. v = JObj i \<and> jfield i ''issuer_state'' = JStr x
    \<and> pt_sha p x \<notin> spent_grants s \<and> pt_sha p x \<in> spent_grants t"
  using assms unfolding svc_authorize_def
  apply (elim pureS_elim)
  apply (erule bindS_then [where R = spent_grow])
   apply (auto intro!: grow.R_basic keepsS_after_fresh simp: bindS_def now_svc_run put_grant_def spent_defs)[1]
  apply (frule strictRecord_Inr, drule (1) used_grant)
  apply (drule boundedText_Inr)+
  apply blast
  done

lemma token_grant_used:
  assumes "token_grant p tn i s = (Inr g, t1)" "spent_grow t1 t"
    "grant_secret (Exchange_use tn (JObj i)) = JStr x"
  shows "pt_sha p x \<notin> spent_grants s \<and> pt_sha p x \<in> spent_grants t"
proof (cases "jfield i ''grant_type'' = JStr PRE_AUTHORIZED_CODE_GRANT")
  case True
  then have "consumeGrant p x tn Pre_authorized s = (Inr g, t1)"
    using assms(1,3) unfolding token_grant_def
    by (auto simp: bindS_Inr dest!: boundedText_Inr split: if_splits)
  then show ?thesis using used_grant assms(2) by blast
next
  case False
  then have "consumeGrant p x tn Authorization_code s = (Inr g, t1)"
    using assms(1,3) unfolding token_grant_def
    by (auto simp: bindS_Inr dest!: boundedText_Inr split: if_splits)
  then show ?thesis using used_grant assms(2) by blast
qed

lemma token_grant_secret:
  assumes "token_grant p tn i s = (Inr g, t1)"
  obtains x where "grant_secret (Exchange_use tn (JObj i)) = JStr x"
  using assms unfolding token_grant_def
  by (auto simp: bindS_Inr dest!: boundedText_Inr split: if_splits)

lemma exchange_used:
  assumes "exchangeToken p tn v s = (Inr y, t)"
  shows "\<exists>x. grant_secret (Exchange_use tn v) = JStr x \<and> pt_sha p x \<notin> spent_grants s \<and> pt_sha p x \<in> spent_grants t"
  using assms unfolding exchangeToken_def
  apply (elim pureS_elim)
  apply (erule bindS_then [where R = spent_grow])
   apply (auto intro!: keepsS_after_fresh simp: bindS_def now_svc_run spent_defs Let_def)[1]
  apply (drule strictRecord_Inr, hypsubst)
  apply (rule token_grant_secret, assumption)
  apply (drule (2) token_grant_used)
  apply (rule exI, erule (1) conjI)
  done

interpretation access_tokens: one_shot "issue_attempt p" "token_digest p" "svc_segment p" spent_tokens
proof
  fix i :: "string \<times> string \<times> jsval" and s t :: "'a issuer_service" and b
  show "token_digest p i \<notin> spent_tokens s" if "issue_attempt p i s = (True, t)"
    using that issue_begin_used by (cases i) (fastforce simp: issue_attempt_def token_digest_def split: prod.splits sum.splits)
  show "token_digest p i \<in> spent_tokens t" if "issue_attempt p i s = (True, t)"
    using that issue_begin_used by (cases i) (fastforce simp: issue_attempt_def token_digest_def split: prod.splits sum.splits)
  show "spent_tokens s \<subseteq> spent_tokens t" if u: "issue_attempt p i s = (b, t)"
  proof -
    obtain tn tok v r where "i = (tn, tok, v)" "issue_begin p tn tok v s = (r, t)"
      using u by (cases i) (auto simp: issue_attempt_def split: prod.splits sum.splits)
    then show ?thesis using keepsS_D [OF grow_issue_begin] unfolding spent_grow_def by blast
  qed
  show "spent_tokens s \<subseteq> spent_tokens t" if "svc_segment p s t"
    using segment_spent_grow [OF that] unfolding spent_grow_def by blast
qed

lemma grant_attempt_used:
  assumes "grant_attempt p u s = (True, t)"
  shows "grant_digest p u \<notin> spent_grants s \<and> grant_digest p u \<in> spent_grants t"
proof (cases u)
  case (Authorize_use a tn v)
  then obtain y where "svc_authorize p a tn v s = (Inr y, t)"
    using assms by (auto split: prod.splits sum.splits)
  then show ?thesis using authorize_used Authorize_use by (fastforce simp: grant_digest_def)
next
  case (Exchange_use tn v)
  then obtain y where "exchangeToken p tn v s = (Inr y, t)"
    using assms by (auto split: prod.splits sum.splits)
  then obtain x where "grant_secret (Exchange_use tn v) = JStr x" "pt_sha p x \<notin> spent_grants s" "pt_sha p x \<in> spent_grants t"
    using exchange_used by blast
  then show ?thesis using Exchange_use by (simp add: grant_digest_def)
qed

interpretation grants: one_shot "grant_attempt p" "grant_digest p" "svc_segment p" spent_grants
proof
  fix u :: grant_use and s t :: "'a issuer_service" and b
  show "grant_digest p u \<notin> spent_grants s" "grant_digest p u \<in> spent_grants t" if "grant_attempt p u s = (True, t)"
    using grant_attempt_used [OF that] by blast+
  show "spent_grants s \<subseteq> spent_grants t" if a: "grant_attempt p u s = (b, t)"
  proof (cases u)
    case (Authorize_use a tn v)
    then obtain r where "svc_authorize p a tn v s = (r, t)"
      using a by (auto split: prod.splits sum.splits)
    then show ?thesis using keepsS_D [OF grow_authorize] unfolding spent_grow_def by blast
  next
    case (Exchange_use tn v)
    then obtain r where "exchangeToken p tn v s = (r, t)"
      using a by (auto split: prod.splits sum.splits)
    then show ?thesis using keepsS_D [OF grow_exchange] unfolding spent_grow_def by blast
  qed
  show "spent_grants s \<subseteq> spent_grants t" if "svc_segment p s t"
    using segment_spent_grow [OF that] unfolding spent_grow_def by blast
qed

text \<open>
  C4: However the requests interleave, and whatever the clock, the key service, the registry
  and the format adapter do, no access token starts an issuance twice.
\<close>

theorem access_token_used_at_most_once:
  assumes "one_shot_run (issue_attempt p) (token_digest p) (svc_segment p) s ks t"
  shows "distinct ks"
  using assms by (rule access_tokens.run_distinct)

text \<open>
  However the requests interleave, no offer secret and no authorization code is accepted
  twice, be it by the authorization request or by the token request.
\<close>

theorem grant_used_at_most_once:
  assumes "one_shot_run (grant_attempt p) (grant_digest p) (svc_segment p) s ks t"
  shows "distinct ks"
  using assms by (rule grants.run_distinct)

end
