(* ===== verification/IssuerServiceProps.thy ===== *)
theory IssuerServiceProps
  imports IssuerServiceGrants
begin

text \<open>
  The life of an issuance session, what an issued credential rests on, the outcome of a review
  and the finality of a revocation, for requests that run to their end one after the other.
\<close>

section \<open>The life of a session\<close>

inductive session_edge :: "issuance_state \<Rightarrow> issuance_state \<Rightarrow> bool" where
  edge_approved: "session_edge Pending_review Approved"
| edge_rejected: "session_edge Pending_review Session_rejected"
| edge_offered: "session_edge Approved Offered"
| edge_issued: "session_edge Offered Issued"
| edge_ambiguous: "session_edge Offered Signing_ambiguous"
| edge_expired: "session_edge st Expired"

text \<open>What no operation changes of a session.\<close>

definition session_core :: "issuance_session \<Rightarrow> issuance_session" where
  "session_core x = x\<lparr>is_state := Pending_review, is_reviews := [], is_claims := []\<rparr>"

definition keys_ok :: "'w issuer_service \<Rightarrow> bool" where
  "keys_ok s \<longleftrightarrow> (\<forall>k x. sv_sessions s k = Some x \<longrightarrow> session_key x = k)"

definition session_next :: "issuance_session \<Rightarrow> issuance_session \<Rightarrow> bool" where
  "session_next x y \<longleftrightarrow> session_core y = session_core x \<and> session_edge\<^sup>*\<^sup>* (is_state x) (is_state y)"

definition forward :: "'w issuer_service \<Rightarrow> 'w issuer_service \<Rightarrow> bool" where
  "forward s t \<longleftrightarrow> (keys_ok s \<longrightarrow> keys_ok t \<and>
     (\<forall>k x. sv_sessions s k = Some x \<longrightarrow> (\<exists>y. sv_sessions t k = Some y \<and> session_next x y)))"

lemma session_next_refl: "session_next x x"
  by (simp add: session_next_def)

lemma session_next_trans: "session_next x y \<Longrightarrow> session_next y z \<Longrightarrow> session_next x z"
  by (auto simp: session_next_def)

lemma forward_trans: "forward s t \<Longrightarrow> forward t u \<Longrightarrow> forward s u"
  unfolding forward_def by (meson session_next_trans)

lemma forward_same: "sv_sessions t = sv_sessions s \<Longrightarrow> forward s t"
  using session_next_refl by (auto simp: forward_def keys_ok_def)

interpretation fwd: secret_blind forward
  by unfold_locales (erule (1) forward_trans | rule forward_same, simp)+

interpretation fwd: credential_blind forward
  by unfold_locales (rule forward_same, simp)

text \<open>The key of a session is part of what never changes.\<close>

lemma core_key: "session_core x = session_core y \<Longrightarrow> session_key x = session_key y"
  by (cases x; cases y) (simp add: session_core_def session_key_def)

lemma forward_write:
  assumes "sv_sessions s k = Some x" "session_next x y"
  shows "forward s (s\<lparr>sv_sessions := (sv_sessions s)(k \<mapsto> y)\<rparr>)"
  using assms core_key [of y x] session_next_refl
  by (auto simp: forward_def keys_ok_def session_next_def)

lemma forward_new:
  assumes "sv_sessions s (session_key x) = None"
  shows "forward s (s\<lparr>sv_sessions := (sv_sessions s)(session_key x \<mapsto> x)\<rparr>)"
  using assms session_next_refl by (auto simp: forward_def keys_ok_def)

lemma set_state_forward:
  assumes "sv_sessions s k = Some x" "session_edge (is_state x) st"
  shows "forward s (snd (set_state k st s))"
proof -
  have "session_next x (x\<lparr>is_state := st\<rparr>)"
    using assms(2) by (cases x) (simp add: session_next_def session_core_def r_into_rtranclp)
  then show ?thesis using forward_write assms(1) by (simp add: set_state_def)
qed

lemma forward_expire: "forward s (snd (set_state k Expired s))"
proof (cases "sv_sessions s k")
  case None
  then show ?thesis by (intro forward_same) (auto simp: set_state_def)
next
  case (Some x)
  then show ?thesis by (rule set_state_forward) (rule edge_expired)
qed

lemma fwd_live: "keepsS forward (ensureSessionLive p x)"
  unfolding ensureSessionLive_def
  by (auto intro!: fwd.R_bind fwd.R_clock fwd.R_basic) (simp add: keepsS_def forward_expire)

lemma live_Inr: "ensureSessionLive p x s = (Inr u, t) \<Longrightarrow> \<exists>w. t = s\<lparr>sv_world := w\<rparr>"
  by (auto simp: ensureSessionLive_def bindS_def now_svc_run set_state_def split: if_splits)

lemma mutable_Inr:
  "mutableSession tn i s = (Inr x, t) \<Longrightarrow> t = s \<and> sv_sessions s (nul_join tn i) = Some x"
  by (auto simp: mutableSession_def bindS_Inr found_def svc_id_def svc_fail_def split: if_splits option.splits)

lemma fwd_create: "keepsS forward (createIssuanceRequest p a v)"
proof -
  have rep: "keepsS forward (check_replaced a t i r)" for a t i r
    by (simp add: keepsS_def check_replaced_def fwd.R_refl split: option.split)
  show ?thesis unfolding createIssuanceRequest_def
    by (auto intro!: fwd.R_bind fwd.R_basic fwd.R_clock fwd.R_lookups rep)
      (simp_all add: keepsS_def Let_def put_session_def bindS_def fwd.R_refl forward_new)
qed

text \<open>While a request holds the session \<open>x\<close> it has read.\<close>

definition reading :: "'w issuer_service \<Rightarrow> issuance_session \<Rightarrow> 'w issuer_service \<Rightarrow> bool" where
  "reading s0 x s \<longleftrightarrow> forward s0 s \<and> (keys_ok s \<longrightarrow> sv_sessions s (session_key x) = Some x)"

lemma reading_forward: "reading s0 x s \<Longrightarrow> forward s0 s"
  by (simp add: reading_def)

lemma reading_same: "reading s0 x s \<Longrightarrow> sv_sessions t = sv_sessions s \<Longrightarrow> reading s0 x t"
  using forward_same forward_trans by (fastforce simp: reading_def keys_ok_def)

lemma reading_keeps:
  assumes "keepsS all_but_secrets m"
  shows "tripleS (reading s0 x) m (\<lambda>_. reading s0 x) (\<lambda>_. forward s0)"
  by (rule tripleS_weaken [OF tripleS_keeps [OF assms, where I = "reading s0 x"]])
    (auto simp: all_but_secrets_def intro: reading_same reading_forward)

lemma reading_start:
  "tripleS (forward s0) (mutableSession tn i) (\<lambda>x. reading s0 x) (\<lambda>_. forward s0)"
  by (rule tripleS_I; frule keepsS_D [OF fwd.R_lookups(4)])
    (auto simp: reading_def keys_ok_def dest!: mutable_Inr intro: forward_trans)

lemma reading_live:
  "tripleS (reading s0 x) (ensureSessionLive p y) (\<lambda>_. reading s0 x) (\<lambda>_. forward s0)"
proof (rule tripleS_I)
  fix s u t assume "reading s0 x s" "ensureSessionLive p y s = (Inr u, t)"
  then show "reading s0 x t" using live_Inr reading_same by fastforce
next
  fix s e t assume "reading s0 x s" "ensureSessionLive p y s = (Inl e, t)"
  then show "forward s0 t"
    using keepsS_D [OF fwd_live] forward_trans reading_forward by fast
qed

lemma not_keys_forward: "forward s0 s \<Longrightarrow> \<not> keys_ok s \<Longrightarrow> forward s0 t"
  by (simp add: forward_def)

lemma reading_write:
  assumes "reading s0 x s" "session_next x y"
  shows "forward s0 (s\<lparr>sv_sessions := (sv_sessions s)(session_key y \<mapsto> y)\<rparr>)"
proof (cases "keys_ok s")
  case True
  then have "sv_sessions s (session_key y) = Some x"
    using assms core_key [of y x] by (simp add: reading_def session_next_def)
  then show ?thesis using assms forward_write forward_trans by (fastforce simp: reading_def)
next
  case False
  then show ?thesis using assms(1) not_keys_forward reading_forward by blast
qed

lemma reading_state:
  assumes "reading s0 x s" "session_edge (is_state x) st"
  shows "forward s0 (snd (set_state (session_key x) st s))"
proof (cases "keys_ok s")
  case True
  then show ?thesis using assms set_state_forward forward_trans by (fastforce simp: reading_def)
next
  case False
  then show ?thesis using assms(1) not_keys_forward reading_forward by blast
qed

lemma tripleS_put:
  "session_next x y \<Longrightarrow> tripleS (reading s0 x) (put_session y) (\<lambda>_. forward s0) (\<lambda>_. forward s0)"
  by (rule tripleS_I) (auto simp: put_session_def intro: reading_write)

lemma tripleS_throw: "tripleS (reading s0 x) (throwS e) Q (\<lambda>_. forward s0)"
  by (rule tripleS_basic) (rule reading_forward)

lemma tripleS_pure_bind:
  assumes "\<And>s. P s \<Longrightarrow> E s" "\<And>y. r = Inr y \<Longrightarrow> tripleS P (m y) Q (\<lambda>_. E)"
  shows "tripleS P (bindS (pureS r) m) Q (\<lambda>_. E)"
  using assms by (cases r) (auto simp: tripleS_def bindS_def)

lemma forward_triple:
  assumes "\<And>s0. tripleS (forward s0) m (\<lambda>_. forward s0) (\<lambda>_. forward s0)"
  shows "keepsS forward m"
  unfolding keepsS_def using tripleS_any [OF assms] fwd.R_refl by blast

lemma review_next:
  assumes "is_state x = Pending_review"
    "st = (if d = Review_rejected then Session_rejected else if b then Approved else Pending_review)"
  shows "session_next x (x\<lparr>is_reviews := rs, is_state := st\<rparr>)"
  using assms by (cases x) (auto simp: session_next_def session_core_def intro: session_edge.intros)

lemma fwd_review: "keepsS forward (reviewIssuance p a i v)"
  unfolding reviewIssuance_def Let_def
  apply (rule forward_triple)
  apply (intro tripleS_pure_bind tripleS_bind [OF reading_start] tripleS_bind [OF reading_live], assumption+)
  apply (auto intro!: tripleS_throw tripleS_bind [OF reading_keeps] nosecret.R_lookups nosecret.R_clock
      tripleS_bind [OF tripleS_put] review_next tripleS_basic)
  done

lemma tripleS_state:
  "session_edge (is_state x) st \<Longrightarrow>
     tripleS (reading s0 x) (set_state (session_key x) st) (\<lambda>_. forward s0) (\<lambda>_. forward s0)"
  by (rule tripleS_I) (drule (1) reading_state, simp add: set_state_def)+

text \<open>An offer made without another request in between.\<close>

lemma offer_begin_reading:
  "tripleS (forward s0) (offer_begin p a i v)
     (\<lambda>(rq, x, iss) s. reading s0 x s \<and> is_state x = Approved) (\<lambda>_. forward s0)"
  unfolding offer_begin_def
  apply (intro tripleS_pure_bind tripleS_bind [OF reading_start] tripleS_bind [OF reading_live], assumption+)
  apply (auto intro!: tripleS_throw tripleS_bind [OF reading_keeps] nosecret.R_authority_begin tripleS_basic split: prod.split)
  done

lemma fwd_offer: "keepsS forward (createOffer p a i v)"
  unfolding createOffer_def
  apply (rule forward_triple)
  apply (rule tripleS_bind [OF offer_begin_reading])
  apply (clarsimp split: prod.split)
  subgoal for s0 rq x iss
    apply (cases "is_state x = Approved")
    subgoal
      apply simp
      unfolding offer_end_def
      apply (intro tripleS_bind [OF reading_keeps] nosecret.R_authority_check nosecret.R_lookups nosecret.R_unique
          nosecret.R_basic)
      apply (auto intro!: tripleS_throw tripleS_bind [OF reading_keeps] nosecret.R_clock nosecret.R_put_grant
         tripleS_bind [OF tripleS_state] tripleS_basic session_edge.intros)
      done
    subgoal by (simp add: tripleS_def)
    done
  done

text \<open>An issuance run without another request in between.\<close>

lemma forward_keeps: "keepsS forward m \<Longrightarrow> tripleS (forward s0) m (\<lambda>_. forward s0) (\<lambda>_. forward s0)"
  using tripleS_keeps [of forward m "forward s0"] forward_trans by blast

lemma issue_begin_reading:
  "tripleS (forward s0) (issue_begin p tn tok v)
     (\<lambda>(q, tmpl, iss) s. \<exists>x. reading s0 x s \<and> is_state x = Offered \<and> iq_key q = session_key x) (\<lambda>_. forward s0)"
  unfolding issue_begin_def
  apply (rule tripleS_pure_bind, assumption)
  apply (clarsimp split: prod.split)
  apply (intro tripleS_bind [OF forward_keeps [OF fwd.R_consume_token]] tripleS_bind [OF reading_start] tripleS_bind [OF reading_live])
  apply (auto intro!: tripleS_throw tripleS_bind [OF reading_keeps] nosecret.R_authority_begin tripleS_basic split: prod.split)
  done

lemma call_format_reading:
  assumes "is_state x = Offered"
  shows "tripleS (reading s0 x) (call_format p (q\<lparr>iq_key := session_key x\<rparr>) plan) (\<lambda>_. reading s0 x) (\<lambda>_. forward s0)"
proof -
  have w: "tripleS (\<lambda>s. forward s0 s) (throwS e) Q (\<lambda>_. forward s0)" for e :: svc_exn and Q :: "'a \<Rightarrow> _"
    by (rule tripleS_basic)
  have "tripleS (reading s0 x) (port f) (\<lambda>_. reading s0 x) (\<lambda>_. reading s0 x)" for f :: "('a, svc_exn, issue_output) meth"
    by (rule tripleS_keeps [OF nosecret.R_port]) (auto simp: all_but_secrets_def intro: reading_same)
  then show ?thesis
    unfolding call_format_def using assms
    by (auto intro!: tripleS_throw tripleS_catch tripleS_bind [OF tripleS_state] tripleS_basic session_edge.intros
        split: option.split elim: reading_forward)
qed

lemma issue_record_reading:
  assumes "is_state x = Offered"
  shows "tripleS (reading s0 x) (issue_record (q\<lparr>iq_key := session_key x\<rparr>) plan r) (\<lambda>_. reading s0 x) (\<lambda>_. forward s0)"
proof -
  have w: "tripleS (reading s0 x) (\<lambda>s. let c = C in (Inr c, s\<lparr>sv_credentials := (sv_credentials s)(k \<mapsto> c)\<rparr>))
      (\<lambda>_. reading s0 x) (\<lambda>_. forward s0)" for C k
    by (rule tripleS_I) (auto simp: Let_def intro: reading_same)
  show ?thesis
  proof (cases "output_fits plan r")
    case True
    then show ?thesis
      unfolding issue_record_def if_not_P [OF iffD2 [OF not_not True]]
      by (intro tripleS_bind [OF reading_keeps [OF nosecret.R_lookups(5)]] w)
  next
    case False
    then show ?thesis
      unfolding issue_record_def using assms
      by (simp add: False) (rule tripleS_bind [OF tripleS_state], simp_all add: session_edge.intros tripleS_basic)
  qed
qed

lemma issue_finish_reading:
  assumes "is_state x = Offered"
  shows "tripleS (reading s0 x) (issue_finish (q\<lparr>iq_key := session_key x\<rparr>))
     (\<lambda>_ s. forward s0 s \<and> (keys_ok s0 \<longrightarrow> sv_sessions s (session_key x) = Some (x\<lparr>is_state := Issued, is_claims := []\<rparr>)))
     (\<lambda>_. forward s0)"
proof (rule tripleS_I)
  fix s u t assume r: "reading s0 x s" and t: "issue_finish (q\<lparr>iq_key := session_key x\<rparr>) s = (Inr u, t)"
  let ?y = "x\<lparr>is_state := Issued, is_claims := []\<rparr>"
  have n: "session_next x ?y"
    using assms by (cases x) (auto simp: session_next_def session_core_def intro: session_edge.intros)
  show "forward s0 t \<and> (keys_ok s0 \<longrightarrow> sv_sessions t (session_key x) = Some ?y)"
  proof (cases "keys_ok s")
    case True
    then have "sv_sessions s (session_key x) = Some x" using r by (simp add: reading_def)
    moreover from this have "t = s\<lparr>sv_sessions := (sv_sessions s)(session_key x \<mapsto> ?y)\<rparr>"
      using t by (auto simp: issue_finish_def)
    ultimately have "forward s t" using forward_write [OF _ n] by simp
    then show ?thesis
      using forward_trans [OF reading_forward [OF r]] \<open>t = s\<lparr>sv_sessions := (sv_sessions s)(session_key x \<mapsto> ?y)\<rparr>\<close> by simp
  next
    case False
    then have "\<not> keys_ok s0" using reading_forward [OF r] by (auto simp: forward_def)
    then show ?thesis by (simp add: forward_def)
  qed
qed (simp add: issue_finish_def)

text \<open>The rest of an issuance, from the session it holds.\<close>

definition issue_rest :: "'w service_ports \<Rightarrow> issue_request \<Rightarrow> credential_template \<Rightarrow> issuer_profile \<Rightarrow> ('w, issued_credential) svc" where
  "issue_rest p q template issuer =
     bindS (session_at (iq_key q)) (\<lambda>x.
     bindS (authority_check p x issuer) (\<lambda>descriptor.
     bindS (holder_check p q issuer) (\<lambda>_.
     bindS (issue_prepare p q template issuer descriptor) (\<lambda>plan.
     bindS (call_format p q plan) (\<lambda>r.
     bindS (issue_record q plan r) (\<lambda>c.
     bindS (publish_valid p c) (\<lambda>_.
     bindS (issue_finish q) (\<lambda>_.
     returnS \<lparr>id_format = ca_mediaType (io_artifact r), id_credential = serializeArtifact (io_artifact r),
       id_credentialId = cr_credentialId c, id_statusId = cr_statusId c\<rparr>))))))))"

lemma issueCredential_split:
  "issueCredential p tn tok v = bindS (issue_begin p tn tok v) (\<lambda>(q, template, issuer). issue_rest p q template issuer)"
  unfolding issueCredential_def issue_rest_def ..

lemma issue_rest_reading:
  assumes "is_state x = Offered" "iq_key q = session_key x"
  shows "tripleS (reading s0 x) (issue_rest p q tmpl iss)
     (\<lambda>_ s. forward s0 s \<and> (keys_ok s0 \<longrightarrow> sv_sessions s (session_key x) = Some (x\<lparr>is_state := Issued, is_claims := []\<rparr>)))
     (\<lambda>_. forward s0)"
proof -
  have q: "q = q\<lparr>iq_key := session_key x\<rparr>" using assms(2) by (cases q) simp
  have fin: "tripleS (\<lambda>s. forward s0 s \<and> (keys_ok s0 \<longrightarrow> sv_sessions s (session_key x) = Some (x\<lparr>is_state := Issued, is_claims := []\<rparr>)))
     (returnS y) (\<lambda>_ s. forward s0 s \<and> (keys_ok s0 \<longrightarrow> sv_sessions s (session_key x) = Some (x\<lparr>is_state := Issued, is_claims := []\<rparr>))) E"
    for y :: issued_credential and E
    by (rule tripleS_basic)
  show ?thesis
    unfolding issue_rest_def
    apply (subst (4 5 6) q)
    apply (rule tripleS_bind [OF reading_keeps [OF nosecret.R_lookups(5)]])
    apply (rule tripleS_bind [OF reading_keeps [OF nosecret.R_authority_check]])
    apply (rule tripleS_bind [OF reading_keeps [OF nosecret.R_holder]])
    apply (rule tripleS_bind [OF reading_keeps [OF nosecret.R_prepare]])
    apply (rule tripleS_bind [OF call_format_reading [OF assms(1)]])
    apply (rule tripleS_bind [OF issue_record_reading [OF assms(1)]])
    apply (rule tripleS_bind [OF reading_keeps [OF nosecret.R_publish]])
    apply (rule tripleS_bind [OF issue_finish_reading [OF assms(1)]])
    apply (rule fin)
    done
qed

lemma fwd_issue: "keepsS forward (issueCredential p tn tok v)"
  unfolding issueCredential_split
  apply (rule forward_triple)
  apply (rule tripleS_bind [OF issue_begin_reading])
  apply (clarsimp split: prod.split)
  subgoal for s0 q tmpl iss
    unfolding tripleS_def
    apply (intro allI impI, elim exE conjE)
    subgoal for s x using tripleS_D [OF issue_rest_reading [of x q s0 p tmpl iss], of s] by (auto split: prod.splits sum.splits)
    done
  done

lemma fwd_change: "keepsS forward (changeStatus p a c st)"
  by (rule fwd.R_change)

text \<open>What the check of the authority to issue reads, and what a started issuance has read.\<close>

definition approvals_by :: "reviewer_policy \<Rightarrow> issuance_session \<Rightarrow> string list" where
  "approvals_by policy x = remdups (map rw_reviewerId
     (filter (\<lambda>r. rw_reviewerId r \<in> set (rv_reviewers policy)) (approvals_of (is_reviews x))))"

definition may_issue :: "issuance_session \<Rightarrow> credential_template \<Rightarrow> issuer_profile \<Rightarrow> reviewer_policy \<Rightarrow> 'w issuer_service \<Rightarrow> bool" where
  "may_issue x tmpl iss policy s \<longleftrightarrow>
     map_of (sv_templates s) (template_key (is_tenantId x) (is_templateId x) (is_templateVersion x)) = Some tmpl
     \<and> sv_issuers s (nul_join (is_tenantId x) (is_issuerId x)) = Some iss
     \<and> sv_policies s (nul_join (is_tenantId x) (is_reviewerPolicyId x)) = Some policy
     \<and> ct_status tmpl = JStr ''published'' \<and> is_format x \<in> set (ct_formats tmpl) \<and> is_templateId x \<in> set (ip_templates iss)
     \<and> rv_templateId policy = is_templateId x \<and> rv_requiredApprovals policy \<le> int (length (approvals_by policy x))"

lemma found_Inr: "found y c s = (Inr x, t) \<longleftrightarrow> y = Some x \<and> t = s"
  by (auto simp: found_def split: option.split)

lemma authority_begin_Inr:
  "authority_begin x s = (Inr (tmpl, iss), t) \<Longrightarrow> t = s \<and> (\<exists>policy. may_issue x tmpl iss policy s)"
  by (auto simp: authority_begin_def bindS_Inr getTemplate_def getIssuer_def getPolicy_def found_Inr Let_def
      may_issue_def approvals_by_def split: if_splits)

lemma issue_begin_Inr:
  assumes "issue_begin p tn tok v s = (Inr (q, tmpl, iss), t)"
  shows "\<exists>tk x policy conf. sv_tokens s (pt_sha p tok) = Some tk \<and> tk_consumedAt tk = None \<and> tk_tenantId tk = tn
    \<and> sv_sessions s (nul_join tn (tk_sessionId tk)) = Some x \<and> is_state x = Offered \<and> iq_key q = session_key x
    \<and> iq_tenantId q = tn \<and> parse_issue v = Inr (conf, iq_proof q) \<and> conf = configurationId x
    \<and> may_issue x tmpl iss policy s \<and> all_but_secrets s t"
proof -
  from assms obtain conf pr k t1 x t2 t3 u where pr: "parse_issue v = Inr (conf, pr)"
    and k: "consumeAccessToken p tok tn s = (Inr k, t1)"
    and x: "mutableSession tn (tk_sessionId k) t1 = (Inr x, t2)"
    and l: "ensureSessionLive p x t2 = (Inr u, t3)"
    and o: "is_state x = Offered" "conf = configurationId x"
    and a: "authority_begin x t3 = (Inr (tmpl, iss), t)"
    and q: "q = \<lparr>iq_tenantId = tn, iq_proof = pr, iq_key = session_key x\<rparr>"
    unfolding issue_begin_def by (auto simp: bindS_Inr split: prod.splits if_splits)
  obtain tk n w where tk: "sv_tokens s (pt_sha p tok) = Some tk" "tk_consumedAt tk = None" "tk_tenantId tk = tn"
    "k = tk\<lparr>tk_consumedAt := Some n\<rparr>" "t1 = s\<lparr>sv_world := w, sv_tokens := (sv_tokens s)(pt_sha p tok \<mapsto> k)\<rparr>"
    using k by (rule consumeAccessToken_Inr)
  obtain w' where t3: "t3 = t2\<lparr>sv_world := w'\<rparr>" using live_Inr [OF l] by blast
  obtain policy where "may_issue x tmpl iss policy t3" "t = t3" using authority_begin_Inr [OF a] by blast
  moreover have "t2 = t1" "sv_sessions t1 (nul_join tn (tk_sessionId k)) = Some x" using mutable_Inr [OF x] by auto
  ultimately have "may_issue x tmpl iss policy s" "all_but_secrets s t" "sv_sessions s (nul_join tn (tk_sessionId tk)) = Some x"
    using tk t3 by (auto simp: may_issue_def all_but_secrets_def)
  then show ?thesis using tk(1-3) pr o q by auto
qed

section \<open>Requests one after the other\<close>

text \<open>
  Each request runs to its end before the next starts.  The log holds the keys of the sessions
  whose issuance succeeded, newest first.
\<close>

inductive svc_request :: "'w service_ports \<Rightarrow> 'w issuer_service \<Rightarrow> 'w issuer_service \<Rightarrow> bool" for p where
  req_world: "svc_request p s (s\<lparr>sv_world := w\<rparr>)"
| req_template: "registerTemplate p a v s = (r1, t) \<Longrightarrow> svc_request p s t"
| req_issuer: "registerIssuer p a v s = (r2, t) \<Longrightarrow> svc_request p s t"
| req_policy: "registerReviewerPolicy a v s = (r3, t) \<Longrightarrow> svc_request p s t"
| req_request: "createIssuanceRequest p a v s = (r4, t) \<Longrightarrow> svc_request p s t"
| req_review: "reviewIssuance p a i v s = (r5, t) \<Longrightarrow> svc_request p s t"
| req_offer: "createOffer p a i v s = (r6, t) \<Longrightarrow> svc_request p s t"
| req_authorize: "svc_authorize p a tn v s = (r7, t) \<Longrightarrow> svc_request p s t"
| req_exchange: "exchangeToken p tn v s = (r8, t) \<Longrightarrow> svc_request p s t"
| req_status: "changeStatus p a i st s = (r9, t) \<Longrightarrow> svc_request p s t"

inductive svc_run :: "'w service_ports \<Rightarrow> 'w issuer_service \<Rightarrow> string list \<Rightarrow> 'w issuer_service \<Rightarrow> bool" for p where
  svc_start: "svc_run p s [] s"
| svc_other: "svc_run p s log t \<Longrightarrow> svc_request p t u \<Longrightarrow> svc_run p s log u"
| svc_failed: "svc_run p s log t \<Longrightarrow> issueCredential p tn tok v t = (Inl e, u) \<Longrightarrow> svc_run p s log u"
| svc_issued: "svc_run p s log t \<Longrightarrow> issueCredential p tn tok v t = (Inr c, u)
    \<Longrightarrow> issue_begin p tn tok v t = (Inr (q, tmpl, iss), t1) \<Longrightarrow> svc_run p s (iq_key q # log) u"

lemma request_forward: "svc_request p s t \<Longrightarrow> forward s t"
  by (erule svc_request.cases)
    (hypsubst, auto simp: forward_same intro: fwd.R_read_segments [THEN keepsS_D] fwd_create [THEN keepsS_D] fwd_review [THEN keepsS_D]
      fwd_offer [THEN keepsS_D] fwd.R_secret_segments [THEN keepsS_D] fwd_change [THEN keepsS_D])

lemma run_forward: "svc_run p s log t \<Longrightarrow> forward s t"
  by (induction rule: svc_run.induct)
    (auto intro: fwd.R_refl forward_trans request_forward keepsS_D [OF fwd_issue])

lemma issued_state:
  assumes "issueCredential p tn tok v s = (Inr c, u)" "issue_begin p tn tok v s = (Inr (q, tmpl, iss), t)" "keys_ok s"
  shows "\<exists>x. sv_sessions s (iq_key q) = Some x \<and> is_state x = Offered
    \<and> sv_sessions u (iq_key q) = Some (x\<lparr>is_state := Issued, is_claims := []\<rparr>)"
proof -
  obtain tk :: access_token and x policy where b: "sv_sessions s (nul_join tn (tk_sessionId tk)) = Some x" "is_state x = Offered" "iq_key q = session_key x"
      "may_issue x tmpl iss policy s" "all_but_secrets s t"
    using issue_begin_Inr [OF assms(2)] by blast
  have x: "sv_sessions s (session_key x) = Some x" using b(1) assms(3) by (auto simp: keys_ok_def)
  have "reading s x t" using x b(5) forward_same by (auto simp: reading_def all_but_secrets_def)
  moreover have "issue_rest p q tmpl iss t = (Inr c, u)"
    using assms(1,2) by (simp add: issueCredential_split bindS_def)
  ultimately have "keys_ok s \<longrightarrow> sv_sessions u (session_key x) = Some (x\<lparr>is_state := Issued, is_claims := []\<rparr>)"
    using tripleS_Inr [OF issue_rest_reading [OF b(2,3)]] by blast
  with assms(3) x b show ?thesis by simp
qed

definition past_issue :: "issuance_state set" where
  "past_issue = {Issued, Expired}"

lemma past_issue_closed: "session_edge\<^sup>*\<^sup>* st st' \<Longrightarrow> st \<in> past_issue \<Longrightarrow> st' \<in> past_issue"
  by (induction rule: rtranclp_induct) (auto simp: past_issue_def elim: session_edge.cases)

definition settled :: "'w issuer_service \<Rightarrow> string set" where
  "settled s = {k. \<exists>x. sv_sessions s k = Some x \<and> is_state x \<in> past_issue}"

lemma settled_forward:
  assumes "forward s t" "keys_ok s"
  shows "settled s \<subseteq> settled t"
  using assms past_issue_closed unfolding settled_def forward_def session_next_def by blast

lemma forward_keys: "forward s t \<Longrightarrow> keys_ok s \<Longrightarrow> keys_ok t \<and> settled s \<subseteq> settled t"
  using settled_forward [of s t] unfolding forward_def by blast

lemma run_issued_distinct:
  assumes "svc_run p s log t" "keys_ok s"
  shows "keys_ok t \<and> set log \<subseteq> settled t \<and> distinct log"
  using assms
proof (induction rule: svc_run.induct)
  case (svc_other s log t u)
  then have "forward t u" by (blast intro: request_forward)
  with svc_other forward_keys show ?case by blast
next
  case (svc_failed s log t tn tok v e u)
  then have "forward t u" by (blast intro: keepsS_D [OF fwd_issue])
  with svc_failed forward_keys show ?case by blast
next
  case (svc_issued s log t tn tok v c u q tmpl iss t1)
  then have t: "keys_ok t" "set log \<subseteq> settled t" "distinct log" by auto
  have f: "forward t u" using svc_issued keepsS_D [OF fwd_issue] by blast
  obtain x where "sv_sessions t (iq_key q) = Some x" "is_state x = Offered"
    "sv_sessions u (iq_key q) = Some (x\<lparr>is_state := Issued, is_claims := []\<rparr>)"
    using issued_state [OF svc_issued.hyps(2,3) t(1)] by blast
  then have "iq_key q \<notin> settled t" "iq_key q \<in> settled u" by (auto simp: settled_def past_issue_def)
  moreover have "keys_ok u" "settled t \<subseteq> settled u" using f t(1) forward_keys by blast+
  ultimately show ?case using t by auto
qed simp

text \<open>
  C9: While requests run one after the other, a session keeps its tenant, identifiers, format,
  evidence, binding and expiry, and its state only moves along the life cycle: review,
  approval or rejection, offer, issuance or an ambiguous signature, and expiry from any state.
\<close>

theorem session_life_cycle:
  assumes "svc_run p s log t" "keys_ok s" "sv_sessions s k = Some x"
  shows "\<exists>y. sv_sessions t k = Some y \<and> session_core y = session_core x \<and> session_edge\<^sup>*\<^sup>* (is_state x) (is_state y)"
  using run_forward [OF assms(1)] assms(2,3) by (auto simp: forward_def session_next_def)

text \<open>
  While requests run one after the other, each session gets at most one credential, and a
  session that got one is issued or expired.
\<close>

theorem session_issued_at_most_once:
  assumes "svc_run p s log t" "keys_ok s"
  shows "distinct log \<and> (\<forall>k\<in>set log. \<exists>x. sv_sessions t k = Some x \<and> is_state x \<in> {Issued, Expired})"
  using run_issued_distinct [OF assms] by (auto simp: settled_def past_issue_def)

section \<open>What an issued credential rests on\<close>

definition key_checked :: "'w service_ports \<Rightarrow> session_view \<Rightarrow> issuer_profile \<Rightarrow> key_descriptor \<Rightarrow> bool" where
  "key_checked p x iss d \<longleftrightarrow> (\<exists>w. fst (pt_describeKey p (ip_keyRef iss) w) = Inr (Some d)) \<and> kd_status d = ''active''
     \<and> (\<exists>pin. format_pins (is_format x) = Some pin \<and> kd_algorithm d \<in> set (fp_algorithms pin))"

definition trust_question :: "'w service_ports \<Rightarrow> session_view \<Rightarrow> issuer_profile \<Rightarrow> int \<Rightarrow> trust_request" where
  "trust_question p x iss n = \<lparr>tr_scope = \<lparr>rs_tenantId = is_tenantId x, rs_jurisdiction = pt_jurisdiction p\<rparr>, tr_issuerId = is_issuerId x,
     tr_schemaId = is_templateId x @ '':v'' @ show_int (is_templateVersion x), tr_keyId = ip_keyRef iss,
     tr_issuedAt = n, tr_statusId = ''''\<rparr>"

definition trust_checked :: "'w service_ports \<Rightarrow> session_view \<Rightarrow> issuer_profile \<Rightarrow> bool" where
  "trust_checked p x iss \<longleftrightarrow> (\<exists>n w r. fst (pt_trust p (trust_question p x iss n) w) = Inr r \<and> rd_decision r = Verified)"

definition holder_proved :: "'w service_ports \<Rightarrow> issue_request \<Rightarrow> issuer_profile \<Rightarrow> subject_binding \<Rightarrow> bool" where
  "holder_proved p q iss b \<longleftrightarrow> (\<exists>w. fst (pt_proof p (iq_tenantId q) (ip_issuerUri iss) (iq_proof q) b w) = Inr True)"

lemma port_Inr: "port f s = (Inr x, t) \<Longrightarrow> \<exists>w. fst (f (sv_world s)) = Inr x \<and> t = s\<lparr>sv_world := w\<rparr>"
  by (auto simp: port_def split: prod.splits)

lemma key_ref_Inr: "key_ref k = Inr r \<Longrightarrow> r = k"
  by (auto simp: key_ref_def ensureKeyRef_def split: sum.splits issuer_exn.splits if_splits)

text \<open>The three awaits of a successful check, with the state at each.\<close>

lemma question_view: "trust_question p (session_view_of x) iss n =
    \<lparr>tr_scope = \<lparr>rs_tenantId = is_tenantId x, rs_jurisdiction = pt_jurisdiction p\<rparr>, tr_issuerId = is_issuerId x,
     tr_schemaId = is_templateId x @ '':v'' @ show_int (is_templateVersion x), tr_keyId = ip_keyRef iss,
     tr_issuedAt = n, tr_statusId = ''''\<rparr>"
  by (simp add: trust_question_def session_view_of_def session_view.truncate_def)

lemma authority_check_steps:
  assumes "authority_check p x iss s = (Inr d, t)"
  obtains pin t1 n t2 r where "port (pt_describeKey p (ip_keyRef iss)) s = (Inr (Some d), t1)" "kd_status d = ''active''"
    "format_pins (is_format x) = Some pin" "kd_algorithm d \<in> set (fp_algorithms pin)" "now_svc p t1 = (Inr n, t2)"
    "port (pt_trust p (trust_question p (session_view_of x) iss n)) t2 = (Inr r, t)" "rd_decision r = Verified"
proof -
  obtain ref t1 k where ref: "key_ref (ip_keyRef iss) = Inr ref" and k: "port (pt_describeKey p ref) s = (Inr k, t1)"
    and rest: "(case k of None \<Rightarrow> throwS (Service_error 403 ''KEY_NOT_AUTHORIZED'')
     | Some descriptor \<Rightarrow>
         if kd_status descriptor \<noteq> ''active'' then throwS (Service_error 403 ''KEY_NOT_AUTHORIZED'')
         else (case format_pins (is_format x) of
           None \<Rightarrow> throwS Thrown
         | Some pin \<Rightarrow>
             if kd_algorithm descriptor \<notin> set (fp_algorithms pin) then throwS (Service_error 403 ''KEY_NOT_AUTHORIZED'')
             else bindS (now_svc p) (\<lambda>n. bindS (port (pt_trust p (trust_question p (session_view_of x) iss n))) (\<lambda>trust.
               if rd_decision trust \<noteq> Verified then throwS (Service_error 403 ''TRUST_NOT_AUTHORIZED'')
               else returnS descriptor)))) t1 = (Inr d, t)"
    using assms unfolding authority_check_def question_view
    by (elim bindS_elim) simp
  obtain pin where pin: "k = Some d" "kd_status d = ''active''" "format_pins (is_format x) = Some pin" "kd_algorithm d \<in> set (fp_algorithms pin)"
    using rest by (auto simp: bindS_Inr split: option.split_asm if_split_asm)
  obtain n t2 r where "now_svc p t1 = (Inr n, t2)"
    "port (pt_trust p (trust_question p (session_view_of x) iss n)) t2 = (Inr r, t)" "rd_decision r = Verified"
    using rest pin by (auto simp: bindS_Inr split: if_split_asm)
  with that k pin key_ref_Inr [OF ref] show thesis by blast
qed

lemma authority_check_Inr:
  assumes "authority_check p x iss s = (Inr d, t)"
  shows "key_checked p (session_view_of x) iss d \<and> trust_checked p (session_view_of x) iss"
  using assms
proof (rule authority_check_steps)
  fix pin t1 n t2 r
  assume k: "port (pt_describeKey p (ip_keyRef iss)) s = (Inr (Some d), t1)" "kd_status d = ''active''"
    "format_pins (is_format x) = Some pin" "kd_algorithm d \<in> set (fp_algorithms pin)"
    and t: "port (pt_trust p (trust_question p (session_view_of x) iss n)) t2 = (Inr r, t)" "rd_decision r = Verified"
  have "trust_checked p (session_view_of x) iss"
    using t unfolding trust_checked_def by (auto dest!: port_Inr)
  moreover have "key_checked p (session_view_of x) iss d"
    using k by (auto simp: key_checked_def session_view_of_def session_view.truncate_def dest!: port_Inr)
  ultimately show ?thesis by blast
qed

lemma session_at_Inr: "session_at k s = (Inr x, t) \<Longrightarrow> sv_sessions s k = Some x \<and> t = s"
  by (auto simp: session_at_def split: option.splits)

lemma holder_check_Inr:
  "holder_check p q iss s = (Inr u, t) \<Longrightarrow> \<exists>x. sv_sessions s (iq_key q) = Some x \<and> holder_proved p q iss (is_binding x)"
  by (auto simp: holder_check_def bindS_Inr holder_proved_def dest!: session_at_Inr port_Inr split: if_splits)

lemma issue_prepare_Inr:
  assumes "issue_prepare p q tmpl iss d s = (Inr plan, t)"
  shows "\<exists>x. sv_sessions t (iq_key q) = Some x \<and> pl_format plan = is_format x \<and> ii_claims (pl_input plan) = is_claims x
    \<and> ii_binding (pl_input plan) = is_binding x \<and> ii_template (pl_input plan) = tmpl \<and> ii_issuer (pl_input plan) = iss
    \<and> ii_keyRef (pl_input plan) = ip_keyRef iss \<and> ii_algorithm (pl_input plan) = kd_algorithm d"
  using assms
  by (auto simp: issue_prepare_def bindS_Inr dest!: session_at_Inr key_ref_Inr split: if_splits)

lemma call_format_Inr:
  assumes "call_format p q plan s = (Inr r, t)"
  shows "\<exists>f w. pt_format p (pl_format plan) = Some f \<and> fst (f (pl_input plan) w) = Inr r"
proof -
  obtain f where f: "pt_format p (pl_format plan) = Some f"
    using assms by (auto simp: call_format_def split: option.splits)
  then have "fst (f (pl_input plan) (sv_world s)) = Inr r"
    using assms by (auto simp: call_format_def catchS_def port_def bindS_def set_state_def split: prod.splits sum.splits if_splits)
  with f show ?thesis by blast
qed

lemma issue_record_Inr:
  assumes "issue_record q plan r s = (Inr c, t)"
  shows "output_fits plan r \<and> (\<exists>x. sv_sessions s (iq_key q) = Some x \<and>
    c = \<lparr>cr_tenantId = iq_tenantId q, cr_credentialId = pl_credentialId plan, cr_statusId = ii_statusId (pl_input plan),
          cr_issuerId = is_issuerId x, cr_templateId = is_templateId x, cr_templateVersion = is_templateVersion x,
          cr_format = is_format x, cr_issuedAt = ii_issuedAt (pl_input plan), cr_status = ''valid'', cr_replaces = is_replaces x\<rparr>
    \<and> t = s\<lparr>sv_credentials := (sv_credentials s)(nul_join (iq_tenantId q) (pl_credentialId plan) \<mapsto> c)\<rparr>)"
  using assms
  by (auto simp: issue_record_def bindS_Inr set_state_def Let_def dest!: session_at_Inr split: if_splits)

text \<open>What the adapter was asked, and what came back.\<close>

definition adapter_issued ::
  "'w service_ports \<Rightarrow> issuance_session \<Rightarrow> credential_template \<Rightarrow> issuer_profile \<Rightarrow> key_descriptor \<Rightarrow> issued_credential \<Rightarrow> bool" where
  "adapter_issued p x tmpl iss d c \<longleftrightarrow> (\<exists>f plan r w. pt_format p (is_format x) = Some f \<and> fst (f (pl_input plan) w) = Inr r
     \<and> pl_format plan = is_format x \<and> ii_claims (pl_input plan) = is_claims x \<and> ii_binding (pl_input plan) = is_binding x
     \<and> ii_template (pl_input plan) = tmpl \<and> ii_issuer (pl_input plan) = iss \<and> ii_algorithm (pl_input plan) = kd_algorithm d
     \<and> output_fits plan r \<and> id_credential c = serializeArtifact (io_artifact r) \<and> id_format c = ca_mediaType (io_artifact r))"

definition recorded :: "string \<Rightarrow> issuance_session \<Rightarrow> issued_credential \<Rightarrow> 'w issuer_service \<Rightarrow> bool" where
  "recorded tn x c s \<longleftrightarrow> (\<exists>rec. sv_credentials s (nul_join tn (id_credentialId c)) = Some rec \<and> cr_status rec = ''valid''
     \<and> cr_statusId rec = id_statusId c \<and> cr_issuerId rec = is_issuerId x \<and> cr_templateId rec = is_templateId x
     \<and> cr_templateVersion rec = is_templateVersion x \<and> cr_format rec = is_format x \<and> cr_replaces rec = is_replaces x)"

lemma call_format_sessions:
  assumes "call_format p q plan s = (Inr r, t)"
  shows "sv_sessions t = sv_sessions s"
  using assms
  by (auto simp: call_format_def catchS_def port_def bindS_def set_state_def split: option.splits prod.splits sum.splits if_splits)

lemma issue_rest_Inr:
  assumes "issue_rest p q tmpl iss s = (Inr c, u)" "sv_sessions s (iq_key q) = Some x"
  shows "\<exists>d. key_checked p (session_view_of x) iss d \<and> trust_checked p (session_view_of x) iss
    \<and> holder_proved p q iss (is_binding x) \<and> adapter_issued p x tmpl iss d c \<and> recorded (iq_tenantId q) x c u"
proof -
  obtain x' t0 d t1 u1 t2 plan t3 r t4 rec t5 u2 t6 u3 where
      x': "session_at (iq_key q) s = (Inr x', t0)"
    and d: "authority_check p x' iss t0 = (Inr d, t1)"
    and h: "holder_check p q iss t1 = (Inr u1, t2)"
    and pl: "issue_prepare p q tmpl iss d t2 = (Inr plan, t3)"
    and r: "call_format p q plan t3 = (Inr r, t4)"
    and rec: "issue_record q plan r t4 = (Inr rec, t5)"
    and pub: "publish_valid p rec t5 = (Inr u2, t6)"
    and fin: "issue_finish q t6 = (Inr u3, u)"
    and c: "c = \<lparr>id_format = ca_mediaType (io_artifact r), id_credential = serializeArtifact (io_artifact r),
       id_credentialId = cr_credentialId rec, id_statusId = cr_statusId rec\<rparr>"
    using assms(1) unfolding issue_rest_def by (elim bindS_elim) simp
  have x: "x' = x" "t0 = s" using session_at_Inr [OF x'] assms(2) by auto
  have s1: "sv_sessions t1 = sv_sessions s" using keepsS_D [OF stores.R_authority_check d] x by (simp add: stores_kept_def)
  have s2: "sv_sessions t2 = sv_sessions s" using keepsS_D [OF stores.R_holder h] s1 by (simp add: stores_kept_def)
  have s3: "sv_sessions t3 = sv_sessions s" using keepsS_D [OF stores.R_prepare pl] s2 by (simp add: stores_kept_def)
  have s4: "sv_sessions t4 = sv_sessions s" using call_format_sessions [OF r] s3 by simp
  have o: "output_fits plan r" and rr: "t5 = t4\<lparr>sv_credentials := (sv_credentials t4)(nul_join (iq_tenantId q) (pl_credentialId plan) \<mapsto> rec)\<rparr>"
    and rec': "rec = \<lparr>cr_tenantId = iq_tenantId q, cr_credentialId = pl_credentialId plan, cr_statusId = ii_statusId (pl_input plan),
        cr_issuerId = is_issuerId x, cr_templateId = is_templateId x, cr_templateVersion = is_templateVersion x,
        cr_format = is_format x, cr_issuedAt = ii_issuedAt (pl_input plan), cr_status = ''valid'', cr_replaces = is_replaces x\<rparr>"
    using issue_record_Inr [OF rec] s4 assms(2) by auto
  have "sv_credentials u = sv_credentials t5"
    using port_Inr [OF pub [unfolded publish_valid_def]] fin by (auto simp: issue_finish_def)
  then have "recorded (iq_tenantId q) x c u" using rr rec' c by (simp add: recorded_def)
  moreover have "adapter_issued p x tmpl iss d c"
    using issue_prepare_Inr [OF pl] call_format_Inr [OF r] o c s3 assms(2) unfolding adapter_issued_def by fastforce
  moreover have "holder_proved p q iss (is_binding x)" using holder_check_Inr [OF h] s1 assms(2) by auto
  ultimately show ?thesis using authority_check_Inr [OF d] x by blast
qed

text \<open>
  C3: When issueCredential succeeds, the access token was stored for this tenant and unused,
  its session was offered, the template published and authorised for the issuer, enough
  distinct reviewers of the policy had approved, the issuer's key was active with an algorithm
  of the format, the registry had answered verified for this issuer, schema and key, the
  holder had proved possession, the adapter was given the session's claims and binding and
  returned what it was asked for; the record is stored as valid, and the session is issued and
  its claims erased.
\<close>

theorem issued_credential_sound:
  assumes "issueCredential p tn tok v s = (Inr c, u)" "keys_ok s"
  shows "\<exists>tk x tmpl iss policy d q. sv_tokens s (pt_sha p tok) = Some tk \<and> tk_consumedAt tk = None \<and> tk_tenantId tk = tn
    \<and> sv_sessions s (nul_join tn (tk_sessionId tk)) = Some x \<and> is_state x = Offered \<and> may_issue x tmpl iss policy s
    \<and> parse_issue v = Inr (configurationId x, iq_proof q) \<and> iq_tenantId q = tn
    \<and> key_checked p (session_view_of x) iss d \<and> trust_checked p (session_view_of x) iss
    \<and> holder_proved p q iss (is_binding x) \<and> adapter_issued p x tmpl iss d c \<and> recorded tn x c u
    \<and> sv_sessions u (nul_join tn (tk_sessionId tk)) = Some (x\<lparr>is_state := Issued, is_claims := []\<rparr>)"
proof -
  obtain q tmpl iss t where b: "issue_begin p tn tok v s = (Inr (q, tmpl, iss), t)" and r: "issue_rest p q tmpl iss t = (Inr c, u)"
    using assms(1) by (auto simp: issueCredential_split bindS_Inr)
  obtain tk :: access_token and x policy conf where f: "sv_tokens s (pt_sha p tok) = Some tk" "tk_consumedAt tk = None" "tk_tenantId tk = tn"
    "sv_sessions s (nul_join tn (tk_sessionId tk)) = Some x" "is_state x = Offered" "iq_key q = session_key x"
    "iq_tenantId q = tn" "parse_issue v = Inr (conf, iq_proof q)" "conf = configurationId x"
    "may_issue x tmpl iss policy s" "all_but_secrets s t"
    using issue_begin_Inr [OF b] by blast
  have k: "session_key x = nul_join tn (tk_sessionId tk)" using f(4) assms(2) by (simp add: keys_ok_def)
  have "sv_sessions t (iq_key q) = Some x" using f(4,6,11) k by (simp add: all_but_secrets_def)
  from issue_rest_Inr [OF r this] obtain d where "key_checked p (session_view_of x) iss d" "trust_checked p (session_view_of x) iss"
    "holder_proved p q iss (is_binding x)" "adapter_issued p x tmpl iss d c" "recorded tn x c u"
    using f(7) by blast
  moreover have "sv_sessions u (nul_join tn (tk_sessionId tk)) = Some (x\<lparr>is_state := Issued, is_claims := []\<rparr>)"
    using issued_state [OF assms(1) b assms(2)] f(4,6) k by auto
  ultimately show ?thesis using f by (intro exI conjI) simp_all
qed

section \<open>Reviews\<close>

definition reviewed :: "issuance_session \<Rightarrow> review_decision \<Rightarrow> reviewer_policy \<Rightarrow> issuance_session" where
  "reviewed x r policy = x\<lparr>is_reviews := is_reviews x @ [r],
     is_state := (if rw_decision r = Review_rejected then Session_rejected
        else if rv_requiredApprovals policy \<le> int (length (approvals_of (is_reviews x @ [r]))) then Approved else Pending_review)\<rparr>"

lemma review_Inr:
  assumes "reviewIssuance p a i v s = (Inr w, t)"
  shows "\<exists>x policy r. sv_sessions s (nul_join (ac_tenantId a) i) = Some x \<and> is_state x = Pending_review
    \<and> sv_policies s (nul_join (ac_tenantId a) (is_reviewerPolicyId x)) = Some policy
    \<and> ac_principalId a \<in> set (rv_reviewers policy) \<and> ac_principalId a \<notin> rw_reviewerId ` set (is_reviews x)
    \<and> rw_reviewerId r = ac_principalId a \<and> w = session_view_of (reviewed x r policy)
    \<and> sv_sessions t (session_key x) = Some (reviewed x r policy)"
proof -
  obtain d x t1 t2 where m: "mutableSession (ac_tenantId a) i s = (Inr x, t1)"
    and l: "ensureSessionLive p x t1 = (Inr (), t2)"
    and rest: "(if is_state x \<noteq> Pending_review then throwS (Service_error 409 ''SESSION_NOT_REVIEWABLE'') else
     bindS (getPolicy (ac_tenantId a) (is_reviewerPolicyId x)) (\<lambda>policy.
     if ac_principalId a \<notin> set (rv_reviewers policy) then throwS (Service_error 403 ''REVIEWER_NOT_AUTHORIZED'')
     else if list_ex (\<lambda>r. rw_reviewerId r = ac_principalId a) (is_reviews x)
     then throwS (Service_error 409 ''REVIEW_ALREADY_RECORDED'')
     else bindS (now_svc p) (\<lambda>n.
       let reviews = is_reviews x @ [\<lparr>rw_reviewerId = ac_principalId a, rw_decision = d, rw_reviewedAt = n\<rparr>];
           st = (if d = Review_rejected then Session_rejected
             else if rv_requiredApprovals policy \<le> int (length (approvals_of reviews)) then Approved else Pending_review);
           y = x\<lparr>is_reviews := reviews, is_state := st\<rparr>
       in bindS (put_session y) (\<lambda>_. returnS (session_view_of y))))) t2 = (Inr w, t)"
    using assms unfolding reviewIssuance_def by (elim bindS_elim) simp
  have x: "t1 = s" "sv_sessions s (nul_join (ac_tenantId a) i) = Some x" using mutable_Inr [OF m] by auto
  obtain w2 where t2: "t2 = s\<lparr>sv_world := w2\<rparr>" using live_Inr [OF l] x by auto
  have st: "is_state x = Pending_review" using rest by (simp split: if_split_asm)
  obtain policy where pol: "sv_policies s (nul_join (ac_tenantId a) (is_reviewerPolicyId x)) = Some policy"
    "ac_principalId a \<in> set (rv_reviewers policy)" "\<forall>r\<in>set (is_reviews x). rw_reviewerId r \<noteq> ac_principalId a"
    using rest st t2 by (auto simp: bindS_Inr getPolicy_def found_Inr list_ex_iff split: if_split_asm)
  let ?n = "fst (pt_now p w2)"
  let ?r = "\<lparr>rw_reviewerId = ac_principalId a, rw_decision = d, rw_reviewedAt = ?n\<rparr>"
  have "w = session_view_of (reviewed x ?r policy) \<and> sv_sessions t (session_key (reviewed x ?r policy)) = Some (reviewed x ?r policy)"
    using rest st t2 pol
    by (auto simp: bindS_def getPolicy_def found_def list_ex_iff now_svc_run Let_def put_session_def reviewed_def image_iff split: if_split_asm)
  moreover have "session_key (reviewed x ?r policy) = session_key x" by (simp add: reviewed_def session_key_def)
  ultimately show ?thesis using x st pol by (intro exI [of _ x] exI [of _ policy] exI [of _ ?r]) auto
qed

text \<open>A session's reviews name each reviewer once, and end at the first rejection.\<close>

definition reviews_ok :: "issuance_session \<Rightarrow> bool" where
  "reviews_ok x \<longleftrightarrow> distinct (map rw_reviewerId (is_reviews x))
     \<and> (is_state x \<in> {Pending_review, Approved, Offered, Issued, Signing_ambiguous} \<longrightarrow> approvals_of (is_reviews x) = is_reviews x)"

text \<open>
  A review that is recorded comes from a reviewer of the session's policy who had not
  reviewed it; the session is then rejected exactly when some review rejects it, approved
  exactly when it is not rejected and has the required number of approvals, and still names
  each reviewer once.
\<close>

theorem review_outcome:
  assumes "reviewIssuance p a i v s = (Inr w, t)"
    "\<And>x. sv_sessions s (nul_join (ac_tenantId a) i) = Some x \<Longrightarrow> reviews_ok x"
  shows "\<exists>x y policy. sv_sessions s (nul_join (ac_tenantId a) i) = Some x \<and> is_state x = Pending_review
    \<and> sv_policies s (nul_join (ac_tenantId a) (is_reviewerPolicyId x)) = Some policy
    \<and> ac_principalId a \<in> set (rv_reviewers policy) - rw_reviewerId ` set (is_reviews x)
    \<and> sv_sessions t (session_key x) = Some y \<and> w = session_view_of y \<and> reviews_ok y
    \<and> (is_state y = Approved \<longleftrightarrow> rv_requiredApprovals policy \<le> int (length (is_reviews y)) \<and> is_state y \<noteq> Session_rejected)
    \<and> (is_state y = Session_rejected \<longleftrightarrow> (\<exists>r\<in>set (is_reviews y). rw_decision r = Review_rejected))"
proof -
  obtain x policy r where x: "sv_sessions s (nul_join (ac_tenantId a) i) = Some x" "is_state x = Pending_review"
    "sv_policies s (nul_join (ac_tenantId a) (is_reviewerPolicyId x)) = Some policy"
    "ac_principalId a \<in> set (rv_reviewers policy)" "ac_principalId a \<notin> rw_reviewerId ` set (is_reviews x)"
    "rw_reviewerId r = ac_principalId a" "w = session_view_of (reviewed x r policy)"
    "sv_sessions t (session_key x) = Some (reviewed x r policy)"
    using review_Inr [OF assms(1)] by blast
  have ok: "distinct (map rw_reviewerId (is_reviews x))" "approvals_of (is_reviews x) = is_reviews x"
    using assms(2) [OF x(1)] x(2) by (auto simp: reviews_ok_def)
  have old: "\<forall>q\<in>set (is_reviews x). rw_decision q = Review_approved"
    using ok(2) by (auto simp: approvals_of_def filter_id_conv)
  have snoc: "approvals_of (is_reviews x @ [r]) = is_reviews x @ (if rw_decision r = Review_approved then [r] else [])"
    using ok(2) by (simp add: approvals_of_def)
  have "reviews_ok (reviewed x r policy)"
    using ok x(5,6) snoc by (auto simp: reviews_ok_def reviewed_def intro: review_verdict.exhaust [of "rw_decision r"])
  moreover have "is_state (reviewed x r policy) = Approved \<longleftrightarrow>
      rv_requiredApprovals policy \<le> int (length (is_reviews (reviewed x r policy))) \<and> is_state (reviewed x r policy) \<noteq> Session_rejected"
    using snoc by (cases "rw_decision r") (auto simp: reviewed_def)
  moreover have "is_state (reviewed x r policy) = Session_rejected \<longleftrightarrow>
      (\<exists>q\<in>set (is_reviews (reviewed x r policy)). rw_decision q = Review_rejected)"
    using old by (cases "rw_decision r") (auto simp: reviewed_def)
  ultimately show ?thesis using x by blast
qed

section \<open>Revocation\<close>

definition revoked_stay :: "'w issuer_service \<Rightarrow> 'w issuer_service \<Rightarrow> bool" where
  "revoked_stay s t \<longleftrightarrow> (\<forall>k c. sv_credentials s k = Some c \<longrightarrow> cr_status c = ''revoked'' \<longrightarrow> sv_credentials t k = Some c)"

lemma revoked_stay_trans: "revoked_stay s t \<Longrightarrow> revoked_stay t u \<Longrightarrow> revoked_stay s u"
  unfolding revoked_stay_def by blast

lemma revoked_stay_same: "sv_credentials t = sv_credentials s \<Longrightarrow> revoked_stay s t"
  by (simp add: revoked_stay_def)

interpretation rvk: session_secret_blind revoked_stay
  by unfold_locales (erule (1) revoked_stay_trans | rule revoked_stay_same, simp)+

lemma port_credentials: "port f t = (r, u) \<Longrightarrow> sv_credentials u = sv_credentials t"
  by (auto simp: port_def split: prod.splits)

lemma rvk_change: "keepsS revoked_stay (changeStatus p a i st)"
  unfolding keepsS_def
proof
  fix s
  obtain r t where b: "status_begin p a i st s = (r, t)" by fastforce
  have t: "revoked_stay s t" using keepsS_D [OF rvk.R_status_begin b] .
  show "revoked_stay s (snd (changeStatus p a i st s))"
  proof (cases "\<exists>c n. r = Inr (c, Some n)")
    case False
    then show ?thesis using b t by (auto simp: changeStatus_def bindS_def split: sum.split prod.split option.split)
  next
    case True
    then obtain c n where r: "r = Inr (c, Some n)" by blast
    have c: "sv_credentials t (nul_join (ac_tenantId a) i) = Some c" "cr_status c \<noteq> ''revoked''"
      using b r by (auto simp: status_begin_def bindS_Inr found_Inr svc_id_def svc_fail_def now_svc_run split: if_split_asm)
    let ?u = "\<lparr>su_tenantId = ac_tenantId a, su_issuerId = cr_issuerId c, su_statusId = cr_statusId c, su_status = st, su_updatedAt = n\<rparr>"
    obtain r2 t2 where pub: "port (pt_publish p ?u) t = (r2, t2)" by fastforce
    have "revoked_stay t (snd (changeStatus p a i st s))"
      using b r pub c port_credentials [OF pub]
      by (cases r2) (auto simp: changeStatus_def bindS_def status_end_def Let_def revoked_stay_def)
    with t show ?thesis by (rule revoked_stay_trans)
  qed
qed

lemma rvk_offer: "keepsS revoked_stay (createOffer p a i v)"
  unfolding createOffer_def
  by (auto intro!: rvk.R_bind rvk.R_offer_begin rvk.R_authority_check rvk.R_offer_end split: prod.split)

lemma request_revoked: "svc_request p s t \<Longrightarrow> revoked_stay s t"
  by (erule svc_request.cases)
    (hypsubst, auto simp: revoked_stay_same
       intro: rvk.R_read_segments [THEN keepsS_D] rvk.R_session_segments [THEN keepsS_D]
         rvk.R_secret_segments [THEN keepsS_D] rvk_change [THEN keepsS_D] rvk_offer [THEN keepsS_D])

text \<open>
  While requests run one after the other, the record of a revoked credential is never
  changed.
\<close>

theorem revoked_credential_stays_revoked:
  assumes "(svc_request p)\<^sup>*\<^sup>* s t" "sv_credentials s k = Some c" "cr_status c = ''revoked''"
  shows "sv_credentials t k = Some c"
proof -
  have "revoked_stay s t"
    using assms(1) by (induction rule: rtranclp_induct) (auto simp: revoked_stay_same intro: revoked_stay_trans request_revoked)
  with assms(2,3) show ?thesis by (simp add: revoked_stay_def)
qed

end
