(* ===== verification/IssuerServiceRaces.thy ===== *)
theory IssuerServiceRaces
  imports IssuerServiceProps
begin

text \<open>
  A concrete service: the witnesses of the service properties, and three schedules or requests
  that the code accepts and should not.
\<close>

section \<open>A concrete service\<close>

text \<open>
  The world of the examples: how many random tokens were drawn, the clock, and the claims of
  every credential the format adapter was asked for, newest first.
\<close>

record ex_world =
  xw_tokens :: nat
  xw_clock :: int
  xw_issued :: "(string \<times> jsval) list list"

definition ex_svc_template :: credential_template where
  "ex_svc_template = \<lparr>ct_tenantId = ''t1'', ct_templateId = ''m1'', ct_version = 1, ct_type = ''Degree'',
     ct_assurance = ''institutional'', ct_formats = [''iso-mdoc''],
     ct_claims = [\<lparr>cd_name = ''name'', cd_type = JStr ''string'', cd_required = True, cd_selective = False\<rparr>],
     ct_status = JStr ''published''\<rparr>"

definition ex_svc_issuer :: issuer_profile where
  "ex_svc_issuer = \<lparr>ip_tenantId = ''t1'', ip_issuerId = ''i1'', ip_issuerUri = ''https://i.example'',
     ip_assurance = ''institutional'', ip_keyRef = ''key-1'', ip_templates = [''m1'']\<rparr>"

definition ex_svc_policy :: reviewer_policy where
  "ex_svc_policy = \<lparr>rv_tenantId = ''t1'', rv_policyId = ''p1'', rv_templateId = ''m1'', rv_requiredApprovals = 1, rv_reviewers = [''r1'']\<rparr>"

definition ex_svc_session :: issuance_session where
  "ex_svc_session = \<lparr>is_tenantId = ''t1'', is_sessionId = ''s1'', is_issuerId = ''i1'', is_templateId = ''m1'',
     is_templateVersion = 1, is_format = ''iso-mdoc'', is_reviewerPolicyId = ''p1'', is_state = Approved,
     is_evidence = [], is_reviews = [\<lparr>rw_reviewerId = ''r1'', rw_decision = Review_approved, rw_reviewedAt = 1\<rparr>],
     is_expiresAt = 500, is_replaces = None, is_claims = [(''name'', JStr ''Ada'')],
     is_binding = \<lparr>sb_bindingId = ''b1'', sb_method = JStr ''did-pkh'', sb_value = ''x''\<rparr>\<rparr>"

definition ex_svc :: "ex_world issuer_service" where
  "ex_svc = \<lparr>sv_templates = [(template_key ''t1'' ''m1'' 1, ex_svc_template)],
     sv_issuers = [nul_join ''t1'' ''i1'' \<mapsto> ex_svc_issuer], sv_policies = [nul_join ''t1'' ''p1'' \<mapsto> ex_svc_policy],
     sv_sessions = [nul_join ''t1'' ''s1'' \<mapsto> ex_svc_session], sv_credentials = Map.empty, sv_grants = Map.empty,
     sv_tokens = Map.empty, sv_world = \<lparr>xw_tokens = 0, xw_clock = 10, xw_issued = []\<rparr>\<rparr>"

definition ex_token :: "nat \<Rightarrow> string" where
  "ex_token n = replicate 16 (CHR ''k'') @ replicate n (CHR ''z'')"

definition ex_issue :: "issue_input \<Rightarrow> (ex_world, svc_exn, issue_output) meth" where
  "ex_issue i w = (Inr \<lparr>io_artifact = \<lparr>ca_format = ''iso-mdoc'', ca_profile = ''iso-iec-18013-5'', ca_version = ''2021'',
       ca_mediaType = ''application/mdl'', ca_kind = ''credential'', ca_value = Inl ''mdoc''\<rparr>,
     io_requestId = ii_requestId i, io_keyRef = ii_keyRef i, io_algorithm = ii_algorithm i\<rparr>,
     w\<lparr>xw_issued := ii_claims i # xw_issued w\<rparr>)"

definition ex_ports :: "ex_world service_ports" where
  "ex_ports = \<lparr>pt_now = (\<lambda>w. (xw_clock w, w)), pt_token = (\<lambda>w. (ex_token (xw_tokens w), w\<lparr>xw_tokens := Suc (xw_tokens w)\<rparr>)),
     pt_describeKey = (\<lambda>k w. (Inr (Some \<lparr>kd_keyRef = k, kd_algorithm = ''ES256'', kd_status = ''active'', kd_version = ''1''\<rparr>), w)),
     pt_trust = (\<lambda>r w. (Inr \<lparr>rd_decision = Verified, rd_code = ''TRUSTED'', rd_snapshot = None\<rparr>, w)),
     pt_format = (\<lambda>f. if f = ''iso-mdoc'' then Some ex_issue else None),
     pt_proof = (\<lambda>t u j b w. (Inr True, w)), pt_publish = (\<lambda>u w. (Inr (), w)),
     pt_jurisdiction = ''EU'', pt_sha = (\<lambda>x. x), pt_url = (\<lambda>x. None), pt_number = (\<lambda>x. Not_a_number)\<rparr>"

definition ex_actor :: svc_actor where
  "ex_actor = \<lparr>ac_tenantId = ''t1'', ac_principalId = ''u1'', ac_scopes = [''offers:write'', ''oid4vci:authorize'', ''credentials:status'']\<rparr>"

definition ex_offer :: jsval where
  "ex_offer = JObj [(''flow'', JStr ''pre-authorized_code'')]"

definition ex_exchange :: "string \<Rightarrow> jsval" where
  "ex_exchange c = JObj [(''grant_type'', JStr PRE_AUTHORIZED_CODE_GRANT), (''pre-authorized_code'', JStr c)]"

definition ex_issue_request :: jsval where
  "ex_issue_request = JObj [(''credential_configuration_id'', JStr ''m1.v1.iso-mdoc''),
     (''proof'', JObj [(''proof_type'', JStr ''jwt''), (''jwt'', JStr ''j'')])]"

text \<open>An offer redeemed: the token is exchanged and the credential issued.\<close>

definition ex_redeem :: "credential_offer \<Rightarrow> (ex_world, issued_credential) svc" where
  "ex_redeem o' = bindS (exchangeToken ex_ports ''t1'' (ex_exchange (co_secret o'))) (\<lambda>k.
     issueCredential ex_ports ''t1'' (tp_accessToken k) ex_issue_request)"

lemma ex_run: "case bindS (createOffer ex_ports ex_actor ''s1'' ex_offer) ex_redeem ex_svc of
   (r, s) \<Rightarrow> r = Inr \<lparr>id_format = ''application/mdl'', id_credential = ''mdoc'', id_credentialId = ''cred-'' @ take 24 (ex_token 2),
     id_statusId = ''status-'' @ take 24 (ex_token 3)\<rparr> \<and> xw_issued (sv_world s) = [[(''name'', JStr ''Ada'')]]"
  by code_simp

section \<open>What interleaving allows\<close>

text \<open>
  The examples' states as far as the next requests read them: the session, the number of
  tokens drawn, the log of the adapter, and that later tokens are fresh.
\<close>

definition ex_at :: "nat \<Rightarrow> issuance_session \<Rightarrow> (string \<times> jsval) list list \<Rightarrow> ex_world issuer_service \<Rightarrow> bool" where
  "ex_at n x log s \<longleftrightarrow> sv_templates s = sv_templates ex_svc \<and> sv_issuers s = sv_issuers ex_svc \<and> sv_policies s = sv_policies ex_svc
     \<and> sv_sessions s (nul_join ''t1'' ''s1'') = Some x \<and> sv_world s = \<lparr>xw_tokens = n, xw_clock = 10, xw_issued = log\<rparr>
     \<and> (\<forall>m\<ge>n. sv_grants s (ex_token m) = None \<and> sv_tokens s (ex_token m) = None)"

definition ex_rq :: offer_request where
  "ex_rq = \<lparr>of_flow = Pre_authorized, of_ttlMs = 300000, of_clientId = JUndef, of_redirectUri = JUndef\<rparr>"

definition ex_cred :: "nat \<Rightarrow> issued_credential" where
  "ex_cred n = \<lparr>id_format = ''application/mdl'', id_credential = ''mdoc'', id_credentialId = ''cred-'' @ take 24 (ex_token n),
     id_statusId = ''status-'' @ take 24 (ex_token (Suc n))\<rparr>"

definition ex_grant :: "nat \<Rightarrow> stored_grant" where
  "ex_grant k = \<lparr>sg_tenantId = ''t1'', sg_sessionId = ''s1'', sg_kind = Pre_authorized, sg_secretHash = ex_token k,
     sg_expiresAt = 300010, sg_clientId = None, sg_redirectUri = None, sg_consumedAt = None\<rparr>"

definition ex_access :: "nat \<Rightarrow> access_token" where
  "ex_access k = \<lparr>tk_tenantId = ''t1'', tk_sessionId = ''s1'', tk_tokenHash = ex_token k, tk_expiresAt = 60010, tk_consumedAt = None\<rparr>"

definition ex_session_of :: "issuance_state \<Rightarrow> (string \<times> jsval) list \<Rightarrow> issuance_session" where
  "ex_session_of st cs = ex_svc_session\<lparr>is_state := st, is_claims := cs\<rparr>"

lemma ex_token_inject: "ex_token m = ex_token n \<longleftrightarrow> m = n"
  by (auto simp: ex_token_def dest: arg_cong [where f = length])

lemma ex_token_text: "n \<le> 100 \<Longrightarrow> token_text (ex_token n)"
  by (auto simp: token_text_def ex_token_def list_all_iff is_alnum_def is_lower_alpha_def)

lemma ex_token_bounded: "n \<le> 100 \<Longrightarrow> boundedText (JStr (ex_token n)) name 512 = Inr (ex_token n)"
  by (auto simp: boundedText_def ex_token_def list_ex_iff is_control_def)

lemma ex_ports_simps:
  "pt_now ex_ports w = (xw_clock w, w)" "pt_token ex_ports w = (ex_token (xw_tokens w), w\<lparr>xw_tokens := Suc (xw_tokens w)\<rparr>)"
  "pt_sha ex_ports x = x" "pt_describeKey ex_ports k w = (Inr (Some \<lparr>kd_keyRef = k, kd_algorithm = ''ES256'', kd_status = ''active'', kd_version = ''1''\<rparr>), w)"
  "pt_trust ex_ports r w = (Inr \<lparr>rd_decision = Verified, rd_code = ''TRUSTED'', rd_snapshot = None\<rparr>, w)"
  "pt_format ex_ports ''iso-mdoc'' = Some ex_issue" "pt_proof ex_ports t u j b w = (Inr True, w)" "pt_publish ex_ports u' w = (Inr (), w)"
  by (simp_all add: ex_ports_def)

lemma ex_unique:
  assumes "ex_at n x log s" "n \<le> 100"
  shows "uniqueToken ex_ports s = (Inr (ex_token n), s\<lparr>sv_world := \<lparr>xw_tokens = Suc n, xw_clock = 10, xw_issued = log\<rparr>\<rparr>)"
  using assms ex_token_text [of n]
  by (simp add: uniqueToken_def numeral_eq_Suc bindS_def random_svc_def port_def ex_ports_simps ex_at_def)

lemma ex_now: "ex_at n x log s \<Longrightarrow> now_svc ex_ports s = (Inr 10, s)"
  by (cases s) (simp add: now_svc_run ex_ports_simps ex_at_def)

lemma ex_port:
  "port (pt_describeKey ex_ports k) s = (Inr (Some \<lparr>kd_keyRef = k, kd_algorithm = ''ES256'', kd_status = ''active'', kd_version = ''1''\<rparr>), s)"
  "port (pt_trust ex_ports rq) s = (Inr \<lparr>rd_decision = Verified, rd_code = ''TRUSTED'', rd_snapshot = None\<rparr>, s)"
  "port (pt_proof ex_ports t u j b) s = (Inr True, s)" "port (pt_publish ex_ports u') s = (Inr (), s)"
  by (cases s; simp add: port_def ex_ports_simps)+

lemma ex_lookups:
  "map_of (sv_templates ex_svc) (template_key ''t1'' ''m1'' 1) = Some ex_svc_template"
  "sv_issuers ex_svc (nul_join ''t1'' ''i1'') = Some ex_svc_issuer"
  "sv_policies ex_svc (nul_join ''t1'' ''p1'') = Some ex_svc_policy"
  by (simp_all add: ex_svc_def)

lemma ex_offer_end:
  assumes "ex_at n x log s" "n \<le> 100"
  shows "\<exists>o' t. offer_end ex_ports ex_actor ex_rq ex_svc_session s = (Inr o', t) \<and> co_secret o' = ex_token n
    \<and> ex_at (Suc n) (x\<lparr>is_state := Offered\<rparr>) log t \<and> sv_grants t (ex_token n) = Some (ex_grant n)"
  using assms(1)
  by (simp add: offer_end_def bindS_def getIssuer_def found_def ex_unique [OF assms] now_svc_run put_grant_def set_state_def
      ex_rq_def optional_def ex_actor_def ex_svc_session_def ex_lookups ex_ports_simps ex_at_def session_key_def ex_grant_def ex_token_inject)

lemma ex_exchange_run:
  assumes "ex_at n x log s" "n \<le> 100" "sv_grants s (ex_token k) = Some (ex_grant k)" "k < n"
  shows "\<exists>r t. exchangeToken ex_ports ''t1'' (ex_exchange (ex_token k)) s = (Inr r, t) \<and> tp_accessToken r = ex_token n
    \<and> ex_at (Suc n) x log t \<and> sv_tokens t (ex_token n) = Some (ex_access n)"
proof -
  let ?i = "[(''grant_type'', JStr PRE_AUTHORIZED_CODE_GRANT), (''pre-authorized_code'', JStr (ex_token k))]"
  have i: "strictRecord (ex_exchange (ex_token k)) [''grant_type'', ''pre-authorized_code'', ''code'', ''client_id'', ''redirect_uri''] [''grant_type''] = Inr ?i"
    by (simp add: ex_exchange_def strictRecord_def own_def)
  let ?s = "s\<lparr>sv_grants := (sv_grants s)(ex_token k \<mapsto> ex_grant k\<lparr>sg_consumedAt := Some 10\<rparr>)\<rparr>"
  have now: "now_svc ex_ports s = (Inr 10, s)" using assms(1) by (rule ex_now)
  have "consumeGrant ex_ports (ex_token k) ''t1'' Pre_authorized s = (Inr (ex_grant k\<lparr>sg_consumedAt := Some 10\<rparr>), ?s)"
    using assms(1) by (simp add: consumeGrant_def assms(3) ex_ports_simps bindS_def now safeEqual_def ex_grant_def Let_def)
  then have g: "token_grant ex_ports ''t1'' ?i s = (Inr (ex_grant k\<lparr>sg_consumedAt := Some 10\<rparr>), ?s)"
    using assms(2,4) by (simp add: token_grant_def bindS_def jfield_def ex_token_bounded)
  have "ex_at n x log ?s" using assms(1,4) by (auto simp: ex_at_def ex_token_inject)
  from ex_unique [OF this assms(2)] show ?thesis
    using assms(1,4)
    by (simp add: exchangeToken_def i g bindS_def now_svc_run Let_def ex_ports_simps ex_at_def ex_grant_def ex_access_def ex_token_inject)
qed

lemma ex_show_1: "show_int 1 = ''1''"
  by code_simp

lemma ex_session_simps:
  "session_key (ex_session_of st cs) = nul_join ''t1'' ''s1''" "is_state (ex_session_of st cs) = st" "is_claims (ex_session_of st cs) = cs"
  "is_format (ex_session_of st cs) = ''iso-mdoc''" "(ex_session_of st cs)\<lparr>is_state := st'\<rparr> = ex_session_of st' cs"
  "(ex_session_of st cs)\<lparr>is_state := st', is_claims := cs'\<rparr> = ex_session_of st' cs'" "configurationId (ex_session_of st cs) = ''m1.v1.iso-mdoc''"
  "is_expiresAt (ex_session_of st cs) = 500" "is_tenantId (ex_session_of st cs) = ''t1''" "is_sessionId (ex_session_of st cs) = ''s1''"
  "is_issuerId (ex_session_of st cs) = ''i1''" "is_templateId (ex_session_of st cs) = ''m1''" "is_templateVersion (ex_session_of st cs) = 1"
  "is_reviewerPolicyId (ex_session_of st cs) = ''p1''" "(ex_session_of st cs)\<lparr>is_claims := cs'\<rparr> = ex_session_of st cs'"
  by (simp_all add: ex_session_of_def ex_svc_session_def session_key_def configurationId_def ex_show_1)

lemma ex_session_start: "ex_session_of Approved [(''name'', JStr ''Ada'')] = ex_svc_session"
  by (simp add: ex_session_of_def ex_svc_session_def)

lemma ex_may_begin:
  assumes "ex_at n x log s"
  shows "authority_begin (ex_session_of st cs) s = (Inr (ex_svc_template, ex_svc_issuer), s)"
proof -
  have a: "filter (\<lambda>r. rw_reviewerId r \<in> set (rv_reviewers ex_svc_policy)) (approvals_of (is_reviews (ex_session_of st cs)))
      = [\<lparr>rw_reviewerId = ''r1'', rw_decision = Review_approved, rw_reviewedAt = 1\<rparr>]"
    by (simp add: ex_session_of_def ex_svc_session_def ex_svc_policy_def approvals_of_def)
  have c: "ct_status ex_svc_template = JStr ''published''" "ct_formats ex_svc_template = [''iso-mdoc'']" "ip_templates ex_svc_issuer = [''m1'']"
    "rv_templateId ex_svc_policy = ''m1''" "rv_requiredApprovals ex_svc_policy = 1"
    by (simp_all add: ex_svc_template_def ex_svc_issuer_def ex_svc_policy_def)
  have s: "sv_templates s = sv_templates ex_svc" "sv_issuers s = sv_issuers ex_svc" "sv_policies s = sv_policies ex_svc"
    using assms by (simp_all add: ex_at_def)
  show ?thesis
    by (simp add: authority_begin_def bindS_def getTemplate_def getIssuer_def getPolicy_def found_def s ex_session_simps ex_lookups Let_def a c)
qed

lemma ex_checked:
  assumes "ex_at n x log s"
  shows "\<exists>t. authority_check ex_ports (ex_session_of st cs) ex_svc_issuer s
    = (Inr \<lparr>kd_keyRef = ''key-1'', kd_algorithm = ''ES256'', kd_status = ''active'', kd_version = ''1''\<rparr>, t) \<and> t = s"
proof -
  have k: "key_ref (ip_keyRef ex_svc_issuer) = Inr ''key-1''" by code_simp
  show ?thesis
    by (simp add: authority_check_def k bindS_def ex_port ex_now [OF assms] ex_session_simps format_pins_def)
qed

lemma ex_issue_begin:
  assumes "ex_at n (ex_session_of Offered cs) log s" "sv_tokens s (ex_token k) = Some (ex_access k)" "k < n" "n \<le> 100"
  shows "\<exists>t. issue_begin ex_ports ''t1'' (ex_token k) ex_issue_request s
    = (Inr (\<lparr>iq_tenantId = ''t1'', iq_proof = ''j'', iq_key = nul_join ''t1'' ''s1''\<rparr>, ex_svc_template, ex_svc_issuer), t)
    \<and> ex_at n (ex_session_of Offered cs) log t"
proof -
  have pr: "parse_issue ex_issue_request = Inr (''m1.v1.iso-mdoc'', ''j'')" by code_simp
  have sid: "svc_id (JStr ''s1'') ''SESSION'' = Inr ''s1''" by code_simp
  let ?t = "s\<lparr>sv_tokens := (sv_tokens s)(ex_token k \<mapsto> ex_access k\<lparr>tk_consumedAt := Some 10\<rparr>)\<rparr>"
  have t: "ex_at n (ex_session_of Offered cs) log ?t" using assms(1,3) by (auto simp: ex_at_def ex_token_inject)
  have tok: "consumeAccessToken ex_ports (ex_token k) ''t1'' s = (Inr (ex_access k\<lparr>tk_consumedAt := Some 10\<rparr>), ?t)"
    using ex_token_bounded [of k] assms(3,4)
    by (simp add: consumeAccessToken_def bindS_def ex_ports_simps assms(2) ex_now [OF assms(1)] safeEqual_def ex_access_def Let_def)
  have m: "mutableSession ''t1'' ''s1'' ?t = (Inr (ex_session_of Offered cs), ?t)"
    using t by (simp add: mutableSession_def bindS_def sid found_def ex_at_def)
  have se: "tk_sessionId (ex_access k\<lparr>tk_consumedAt := Some 10\<rparr>) = ''s1''" by (simp add: ex_access_def)
  have l: "ensureSessionLive ex_ports (ex_session_of Offered cs) ?t = (Inr (), ?t)"
    by (simp add: ensureSessionLive_def bindS_def ex_now [OF t] ex_session_simps)
  show ?thesis
    using t by (simp add: issue_begin_def bindS_def pr tok m l se ex_may_begin [OF t] ex_session_simps)
qed

lemma ex_issue_rest:
  assumes "ex_at n (ex_session_of Offered cs) log s" "n \<le> 90"
  shows "\<exists>t. issue_rest ex_ports \<lparr>iq_tenantId = ''t1'', iq_proof = ''j'', iq_key = nul_join ''t1'' ''s1''\<rparr> ex_svc_template ex_svc_issuer s
    = (Inr (ex_cred n), t) \<and> ex_at (n + 3) (ex_session_of Issued []) (cs # log) t"
proof -
  let ?q = "\<lparr>iq_tenantId = ''t1'', iq_proof = ''j'', iq_key = nul_join ''t1'' ''s1''\<rparr>"
  have x: "session_at (nul_join ''t1'' ''s1'') s = (Inr (ex_session_of Offered cs), s)"
    using assms(1) by (simp add: session_at_def ex_at_def)
  obtain d where d: "authority_check ex_ports (ex_session_of Offered cs) ex_svc_issuer s = (Inr d, s)" "kd_algorithm d = ''ES256''"
    using ex_checked [OF assms(1)] by fastforce
  have h: "holder_check ex_ports ?q ex_svc_issuer s = (Inr (), s)"
    by (simp add: holder_check_def bindS_def x ex_port)
  have k: "key_ref (ip_keyRef ex_svc_issuer) = Inr ''key-1''" by code_simp
  let ?w = "\<lambda>m. s\<lparr>sv_world := \<lparr>xw_tokens = m, xw_clock = 10, xw_issued = log\<rparr>\<rparr>"
  have at: "ex_at m (ex_session_of Offered cs) log (?w m)" if "n \<le> m" for m
    using assms(1) that by (auto simp: ex_at_def)
  have u: "uniqueToken ex_ports (?w m) = (Inr (ex_token m), ?w (Suc m))" if "n \<le> m" "m \<le> 100" for m
    using ex_unique [OF at] that by simp
  have u0: "uniqueToken ex_ports s = (Inr (ex_token n), ?w (Suc n))" using ex_unique [OF assms(1)] assms(2) by simp
  have xw: "session_at (nul_join ''t1'' ''s1'') (?w m) = (Inr (ex_session_of Offered cs), ?w m)" for m
    using x by (simp add: session_at_def split: option.splits)
  let ?s2 = "?w (Suc (Suc (Suc n)))"
  obtain plan where pl: "issue_prepare ex_ports ?q ex_svc_template ex_svc_issuer d s = (Inr plan, ?s2)"
    and plan: "pl_format plan = ''iso-mdoc''" "pl_credentialId plan = ''cred-'' @ take 24 (ex_token n)"
      "ii_statusId (pl_input plan) = ''status-'' @ take 24 (ex_token (Suc n))" "ii_claims (pl_input plan) = cs"
    using assms(2) by (simp add: issue_prepare_def bindS_def ex_now [OF assms(1)] u0 u xw ex_session_simps ex_ports_simps k d)
  let ?s3 = "s\<lparr>sv_world := \<lparr>xw_tokens = Suc (Suc (Suc n)), xw_clock = 10, xw_issued = cs # log\<rparr>\<rparr>"
  obtain out where c: "call_format ex_ports ?q plan ?s2 = (Inr out, ?s3)"
    and out: "output_fits plan out" "ca_mediaType (io_artifact out) = ''application/mdl''" "serializeArtifact (io_artifact out) = ''mdoc''"
    by (simp add: call_format_def ex_ports_simps catchS_def port_def ex_issue_def plan output_fits_def format_pins_def serializeArtifact_def)
  have x3: "session_at (nul_join ''t1'' ''s1'') ?s3 = (Inr (ex_session_of Offered cs), ?s3)"
    using x by (simp add: session_at_def split: option.splits)
  obtain rec s4 where r: "issue_record ?q plan out ?s3 = (Inr rec, s4)" "s4 = ?s3\<lparr>sv_credentials := sv_credentials s4\<rparr>"
    "cr_credentialId rec = ''cred-'' @ take 24 (ex_token n)" "cr_statusId rec = ''status-'' @ take 24 (ex_token (Suc n))"
    by (simp add: issue_record_def out(1) bindS_def x3 Let_def plan)
  have at4: "sv_sessions s4 = sv_sessions s" "sv_grants s4 = sv_grants s" "sv_tokens s4 = sv_tokens s" "sv_templates s4 = sv_templates s"
    "sv_issuers s4 = sv_issuers s" "sv_policies s4 = sv_policies s" "sv_world s4 = sv_world ?s3"
    by (subst r(2), simp)+
  have "ex_at (n + 3) (ex_session_of Issued []) (cs # log) (snd (issue_finish ?q s4))"
    using assms(1) by (auto simp: issue_finish_def ex_at_def at4 ex_session_simps)
  then show ?thesis
    by (simp add: issue_rest_def bindS_def x d h pl c r(1) publish_valid_def ex_port issue_finish_def ex_cred_def r(3,4) out(2,3))
qed

lemma ex_redeem_run:
  assumes "ex_at n (ex_session_of Offered cs) log s" "n \<le> 80" "sv_grants s (ex_token k) = Some (ex_grant k)" "k < n" "co_secret o' = ex_token k"
  shows "\<exists>t. ex_redeem o' s = (Inr (ex_cred (Suc n)), t) \<and> ex_at (n + 4) (ex_session_of Issued []) (cs # log) t"
proof -
  obtain r t where e: "exchangeToken ex_ports ''t1'' (ex_exchange (ex_token k)) s = (Inr r, t)" "tp_accessToken r = ex_token n"
    "ex_at (Suc n) (ex_session_of Offered cs) log t" "sv_tokens t (ex_token n) = Some (ex_access n)"
    using ex_exchange_run [OF assms(1) _ assms(3,4)] assms(2) by auto
  obtain t2 where b: "issue_begin ex_ports ''t1'' (ex_token n) ex_issue_request t
      = (Inr (\<lparr>iq_tenantId = ''t1'', iq_proof = ''j'', iq_key = nul_join ''t1'' ''s1''\<rparr>, ex_svc_template, ex_svc_issuer), t2)"
    "ex_at (Suc n) (ex_session_of Offered cs) log t2"
    using ex_issue_begin [OF e(3,4)] assms(2) by auto
  from ex_issue_rest [OF this(2)] assms(2) e(1,2) b show ?thesis
    by (auto simp: ex_redeem_def bindS_def assms(5) issueCredential_split add.commute)
qed

lemma ex_race_run:
  assumes "ex_at n (ex_session_of st cs) log s" "n \<le> 70"
  shows "\<exists>t. bindS (offer_end ex_ports ex_actor ex_rq ex_svc_session) ex_redeem s = (Inr (ex_cred (n + 2)), t)
    \<and> ex_at (n + 5) (ex_session_of Issued []) (cs # log) t"
proof -
  obtain o' t where o: "offer_end ex_ports ex_actor ex_rq ex_svc_session s = (Inr o', t)" "co_secret o' = ex_token n"
    "ex_at (Suc n) (ex_session_of Offered cs) log t" "sv_grants t (ex_token n) = Some (ex_grant n)"
    using ex_offer_end [OF assms(1)] assms(2) by (auto simp: ex_session_simps)
  from ex_redeem_run [OF o(3) _ o(4) _ o(2)] assms(2) o(1) show ?thesis
    by (auto simp: bindS_def add.commute)
qed

text \<open>
  Two offers for the same approved session, both past their checks before either is stored:
  the first is redeemed, and only then the second is stored and redeemed.  The second
  credential carries no claims, although the template requires one.
\<close>

text \<open>
  Two offers for one approved session may both pass their checks before either is stored.
  When the first is redeemed before the second is stored, the second sets the issued session
  back to offered and yields another credential, with no claims although the template requires
  one.
\<close>

theorem concurrent_offers_issue_without_claims:
  "\<exists>d c1 t c2 u.
     offer_begin ex_ports ex_actor ''s1'' ex_offer ex_svc = (Inr (ex_rq, ex_svc_session, ex_svc_issuer), ex_svc)
   \<and> authority_check ex_ports ex_svc_session ex_svc_issuer ex_svc = (Inr d, ex_svc)
   \<and> bindS (offer_end ex_ports ex_actor ex_rq ex_svc_session) ex_redeem ex_svc = (Inr c1, t)
   \<and> bindS (offer_end ex_ports ex_actor ex_rq ex_svc_session) ex_redeem t = (Inr c2, u)
   \<and> id_credentialId c1 \<noteq> id_credentialId c2 \<and> xw_issued (sv_world u) = [[], [(''name'', JStr ''Ada'')]]
   \<and> map cd_required (ct_claims ex_svc_template) = [True]"
proof -
  have start: "ex_at 0 (ex_session_of Approved [(''name'', JStr ''Ada'')]) [] ex_svc"
    by (auto simp: ex_at_def ex_session_start) (simp_all add: ex_svc_def)
  obtain t where t: "bindS (offer_end ex_ports ex_actor ex_rq ex_svc_session) ex_redeem ex_svc = (Inr (ex_cred 2), t)"
      "ex_at 5 (ex_session_of Issued []) [[(''name'', JStr ''Ada'')]] t"
    using ex_race_run [OF start] by (auto simp: eval_nat_numeral)
  obtain u where u: "bindS (offer_end ex_ports ex_actor ex_rq ex_svc_session) ex_redeem t = (Inr (ex_cred 7), u)"
      "ex_at 10 (ex_session_of Issued []) [[], [(''name'', JStr ''Ada'')]] u"
    using ex_race_run [OF t(2)] by auto
  have p: "requireScope ex_actor ''offers:write'' = Inr ()" "parse_offer ex_offer = Inr ex_rq" "svc_id (JStr ''s1'') ''SESSION'' = Inr ''s1''"
    "ac_tenantId ex_actor = ''t1''" by code_simp+
  have x: "sv_sessions ex_svc (nul_join ''t1'' ''s1'') = Some ex_svc_session" by (simp add: ex_svc_def)
  have "ensureSessionLive ex_ports ex_svc_session ex_svc = (Inr (), ex_svc)"
    by (simp add: ensureSessionLive_def bindS_def ex_now [OF start] ex_svc_session_def)
  moreover have "is_state ex_svc_session = Approved" by (simp add: ex_svc_session_def)
  moreover have "authority_begin ex_svc_session ex_svc = (Inr (ex_svc_template, ex_svc_issuer), ex_svc)"
    using ex_may_begin [OF start, of Approved "[(''name'', JStr ''Ada'')]"] by (simp add: ex_session_start)
  ultimately have "offer_begin ex_ports ex_actor ''s1'' ex_offer ex_svc = (Inr (ex_rq, ex_svc_session, ex_svc_issuer), ex_svc)"
    by (simp add: offer_begin_def bindS_def p mutableSession_def found_def x)
  moreover obtain d where "authority_check ex_ports ex_svc_session ex_svc_issuer ex_svc = (Inr d, ex_svc)"
    using ex_checked [OF start, of Approved "[(''name'', JStr ''Ada'')]"] by (auto simp: ex_session_start)
  moreover have "id_credentialId (ex_cred 2) \<noteq> id_credentialId (ex_cred 7)" by code_simp
  moreover have "map cd_required (ct_claims ex_svc_template) = [True]" by code_simp
  moreover have "xw_issued (sv_world u) = [[], [(''name'', JStr ''Ada'')]]" using u(2) by (simp add: ex_at_def)
  ultimately show ?thesis using t(1) u(1) by - (intro exI conjI, assumption+)
qed

text \<open>The secret of an authorization offer, exchanged without the authorization request.\<close>

definition ex_auth_ports :: "ex_world service_ports" where
  "ex_auth_ports = ex_ports\<lparr>pt_url := \<lambda>x. Some \<lparr>ur_protocol = ''https:'', ur_hostname = ''c.example'', ur_username = '''', ur_password = '''', ur_href = x\<rparr>\<rparr>"

definition ex_auth_offer :: jsval where
  "ex_auth_offer = JObj [(''flow'', JStr AUTHORIZATION_CODE_GRANT), (''clientId'', JStr ''c1''), (''redirectUri'', JStr ''https://c.example/'')]"

definition ex_auth_exchange :: "string \<Rightarrow> jsval" where
  "ex_auth_exchange c = JObj [(''grant_type'', JStr AUTHORIZATION_CODE_GRANT), (''code'', JStr c), (''client_id'', JStr ''c1''),
     (''redirect_uri'', JStr ''https://c.example/'')]"

text \<open>
  The secret of an authorization offer can be exchanged for an access token directly: the
  token request accepts it as the code, without the authorization request of an authenticated
  principal.
\<close>

theorem offer_secret_skips_authorization:
  "case bindS (createOffer ex_auth_ports ex_actor ''s1'' ex_auth_offer) (\<lambda>o'.
      exchangeToken ex_auth_ports ''t1'' (ex_auth_exchange (co_secret o'))) ex_svc of
     (Inr k, s) \<Rightarrow> tp_expiresIn k = 60 \<and> (case sv_tokens s (tp_accessToken k) of Some t \<Rightarrow> tk_sessionId t = ''s1'' | None \<Rightarrow> False)
   | (Inl _, s) \<Rightarrow> False"
  by code_simp

text \<open>A suspension that awaits its publication while the credential is revoked.\<close>

definition ex_stored :: "ex_world issuer_service" where
  "ex_stored = ex_svc\<lparr>sv_credentials := [nul_join ''t1'' ''c1'' \<mapsto> \<lparr>cr_tenantId = ''t1'', cr_credentialId = ''c1'', cr_statusId = ''st1'',
     cr_issuerId = ''i1'', cr_templateId = ''m1'', cr_templateVersion = 1, cr_format = ''iso-mdoc'', cr_issuedAt = 5,
     cr_status = ''valid'', cr_replaces = None\<rparr>]\<rparr>"

definition ex_suspending where
  "ex_suspending = snd (status_begin ex_ports ex_actor ''c1'' ''suspended'' ex_stored)"

definition ex_revoked_between where
  "ex_revoked_between = snd (changeStatus ex_ports ex_actor ''c1'' ''revoked'' ex_suspending)"

definition stored_status :: "'w issuer_service \<Rightarrow> string \<Rightarrow> string option" where
  "stored_status s i = map_option cr_status (sv_credentials s (nul_join ''t1'' i))"

text \<open>
  A suspension that passed its checks before a revocation and is stored after it sets the
  revoked credential back to suspended.
\<close>

theorem concurrent_suspension_lifts_revocation:
  "case fst (status_begin ex_ports ex_actor ''c1'' ''suspended'' ex_stored) of
     Inr (current, Some n) \<Rightarrow> stored_status ex_revoked_between ''c1'' = Some ''revoked''
       \<and> stored_status (snd (status_end ex_actor ''c1'' current ''suspended'' ex_revoked_between)) ''c1'' = Some ''suspended''
   | _ \<Rightarrow> False"
  by code_simp

section \<open>Witnesses\<close>

definition ex_start :: "ex_world issuer_service" where
  "ex_start = snd (createOffer ex_ports ex_actor ''s1'' ex_offer ex_svc)"

definition ex_ready :: "ex_world issuer_service" where
  "ex_ready = snd (exchangeToken ex_ports ''t1'' (ex_exchange (ex_token 0)) ex_start)"

definition ok_result :: "'e + 'a \<Rightarrow> bool" where
  "ok_result r = (case r of Inr _ \<Rightarrow> True | Inl _ \<Rightarrow> False)"

lemma ok_result_run: "ok_result (fst z) \<Longrightarrow> \<exists>y t. z = (Inr y, t)"
  by (cases z) (auto simp: ok_result_def split: sum.splits)

lemma ex_exchanged: "ok_result (fst (exchangeToken ex_ports ''t1'' (ex_exchange (ex_token 0)) ex_start))"
  by code_simp

lemma ex_issued: "ok_result (fst (issueCredential ex_ports ''t1'' (ex_token 1) ex_issue_request ex_ready))"
  by code_simp

lemma ex_begun: "ok_result (fst (issue_begin ex_ports ''t1'' (ex_token 1) ex_issue_request ex_ready))"
  by code_simp

lemma ex_keys: "keys_ok ex_svc" "keys_ok ex_start" "keys_ok ex_ready"
proof -
  show s: "keys_ok ex_svc" by (auto simp: keys_ok_def ex_svc_def session_key_def ex_svc_session_def)
  have "forward ex_svc ex_start" using keepsS_D [OF fwd_offer] by (metis ex_start_def prod.collapse)
  then show s2: "keys_ok ex_start" using s by (simp add: forward_def)
  have "forward ex_start ex_ready" using keepsS_D [OF fwd.R_exchange] by (metis ex_ready_def prod.collapse)
  then show "keys_ok ex_ready" using s2 by (simp add: forward_def)
qed

lemma ex_svc_run: "\<exists>t (q :: issue_request). svc_run ex_ports ex_svc [iq_key q] t \<and> (\<exists>c. issueCredential ex_ports ''t1'' (ex_token 1) ex_issue_request ex_ready = (Inr c, t))"
proof -
  obtain c t where c: "issueCredential ex_ports ''t1'' (ex_token 1) ex_issue_request ex_ready = (Inr c, t)"
    using ok_result_run [OF ex_issued] by blast
  obtain q tm iss t1 where b: "issue_begin ex_ports ''t1'' (ex_token 1) ex_issue_request ex_ready = (Inr (q, tm, iss), t1)"
    using ok_result_run [OF ex_begun] by (metis prod_cases3)
  have "svc_request ex_ports ex_svc ex_start"
    unfolding ex_start_def by (rule req_offer) (rule surjective_pairing)
  moreover have "svc_request ex_ports ex_start ex_ready"
    unfolding ex_ready_def by (rule req_exchange) (rule surjective_pairing)
  ultimately have "svc_run ex_ports ex_svc [] ex_ready" by (blast intro: svc_run.intros)
  from svc_issued [OF this c b] c show ?thesis by blast
qed

theorem issued_credential_sound_witness:
  "\<exists>c u x. issueCredential ex_ports ''t1'' (ex_token 1) ex_issue_request ex_ready = (Inr c, u) \<and> is_state x = Offered \<and> recorded ''t1'' x c u"
proof -
  obtain c u where c: "issueCredential ex_ports ''t1'' (ex_token 1) ex_issue_request ex_ready = (Inr c, u)"
    using ok_result_run [OF ex_issued] by blast
  from issued_credential_sound [OF this ex_keys(3)] c show ?thesis by blast
qed

theorem session_life_cycle_witness:
  "\<exists>log t y. svc_run ex_ports ex_svc log t \<and> sv_sessions t (nul_join ''t1'' ''s1'') = Some y \<and> session_edge\<^sup>*\<^sup>* Approved (is_state y)"
proof -
  obtain log t where r: "svc_run ex_ports ex_svc log t" using ex_svc_run by blast
  have "sv_sessions ex_svc (nul_join ''t1'' ''s1'') = Some ex_svc_session" by (simp add: ex_svc_def)
  from session_life_cycle [OF r ex_keys(1) this] r show ?thesis by (auto simp: ex_svc_session_def)
qed

theorem session_issued_at_most_once_witness:
  "\<exists>log t. svc_run ex_ports ex_svc log t \<and> log \<noteq> [] \<and> distinct log"
  using ex_svc_run session_issued_at_most_once [OF _ ex_keys(1)] by blast

theorem access_token_used_at_most_once_witness:
  "\<exists>t. one_shot_run (issue_attempt ex_ports) (token_digest ex_ports) (svc_segment ex_ports) ex_ready [ex_token 1] t \<and> distinct [ex_token 1]"
proof -
  obtain y t where b: "issue_begin ex_ports ''t1'' (ex_token 1) ex_issue_request ex_ready = (Inr y, t)"
    using ok_result_run [OF ex_begun] by blast
  have "one_shot_run (issue_attempt ex_ports) (token_digest ex_ports) (svc_segment ex_ports) ex_ready
      (token_digest ex_ports (''t1'', ex_token 1, ex_issue_request) # []) t"
    by (rule run_used [OF run_start]) (simp only: issue_attempt_def b prod.case sum.case)
  moreover have "token_digest ex_ports (''t1'', ex_token 1, ex_issue_request) = ex_token 1" by (simp add: token_digest_def ex_ports_def)
  ultimately have r: "one_shot_run (issue_attempt ex_ports) (token_digest ex_ports) (svc_segment ex_ports) ex_ready [ex_token 1] t" by simp
  from r access_token_used_at_most_once [OF r] show ?thesis by blast
qed

theorem grant_used_at_most_once_witness:
  "\<exists>t. one_shot_run (grant_attempt ex_ports) (grant_digest ex_ports) (svc_segment ex_ports) ex_start [ex_token 0] t \<and> distinct [ex_token 0]"
proof -
  obtain y t where b: "exchangeToken ex_ports ''t1'' (ex_exchange (ex_token 0)) ex_start = (Inr y, t)"
    using ok_result_run [OF ex_exchanged] by blast
  have "one_shot_run (grant_attempt ex_ports) (grant_digest ex_ports) (svc_segment ex_ports) ex_start
      (grant_digest ex_ports (Exchange_use ''t1'' (ex_exchange (ex_token 0))) # []) t"
    by (rule run_used [OF run_start]) (simp add: b)
  moreover have "grant_digest ex_ports (Exchange_use ''t1'' (ex_exchange (ex_token 0))) = ex_token 0" by code_simp
  ultimately have r: "one_shot_run (grant_attempt ex_ports) (grant_digest ex_ports) (svc_segment ex_ports) ex_start [ex_token 0] t" by simp
  from r grant_used_at_most_once [OF r] show ?thesis by blast
qed

definition ex_reviewer :: svc_actor where
  "ex_reviewer = \<lparr>ac_tenantId = ''t1'', ac_principalId = ''r1'', ac_scopes = [''issuance:review'']\<rparr>"

definition ex_pending :: "ex_world issuer_service" where
  "ex_pending = ex_svc\<lparr>sv_sessions := [nul_join ''t1'' ''s1'' \<mapsto> ex_svc_session\<lparr>is_state := Pending_review, is_reviews := []\<rparr>]\<rparr>"

theorem review_outcome_witness:
  "\<exists>w t (x :: issuance_session). reviewIssuance ex_ports ex_reviewer ''s1'' (JObj [(''decision'', JStr ''approved'')]) ex_pending = (Inr w, t)
     \<and> is_state x = Pending_review \<and> (\<exists>y. sv_sessions t (session_key x) = Some y \<and> reviews_ok y)"
proof -
  have "ok_result (fst (reviewIssuance ex_ports ex_reviewer ''s1'' (JObj [(''decision'', JStr ''approved'')]) ex_pending))" by code_simp
  then obtain w t where w: "reviewIssuance ex_ports ex_reviewer ''s1'' (JObj [(''decision'', JStr ''approved'')]) ex_pending = (Inr w, t)"
    using ok_result_run by blast
  have ok: "reviews_ok x" if "sv_sessions ex_pending (nul_join (ac_tenantId ex_reviewer) ''s1'') = Some x" for x
    using that by (auto simp: ex_pending_def ex_reviewer_def reviews_ok_def approvals_of_def)
  from review_outcome [OF w ok] w show ?thesis by blast
qed

definition ex_revoked_record :: "credential_record" where
  "ex_revoked_record = \<lparr>cr_tenantId = ''t1'', cr_credentialId = ''c1'', cr_statusId = ''st1'', cr_issuerId = ''i1'', cr_templateId = ''m1'',
     cr_templateVersion = 1, cr_format = ''iso-mdoc'', cr_issuedAt = 5, cr_status = ''revoked'', cr_replaces = None\<rparr>"

definition ex_with_revoked :: "ex_world issuer_service" where
  "ex_with_revoked = ex_svc\<lparr>sv_credentials := [nul_join ''t1'' ''c1'' \<mapsto> ex_revoked_record]\<rparr>"

theorem revoked_credential_stays_revoked_witness:
  "sv_credentials (snd (changeStatus ex_ports ex_actor ''c1'' ''suspended'' ex_with_revoked)) (nul_join ''t1'' ''c1'') = Some ex_revoked_record"
proof -
  obtain r t where c: "changeStatus ex_ports ex_actor ''c1'' ''suspended'' ex_with_revoked = (r, t)" by fastforce
  then have "(svc_request ex_ports)\<^sup>*\<^sup>* ex_with_revoked t" by (intro r_into_rtranclp req_status)
  moreover have "sv_credentials ex_with_revoked (nul_join ''t1'' ''c1'') = Some ex_revoked_record" by (simp add: ex_with_revoked_def)
  ultimately have "sv_credentials t (nul_join ''t1'' ''c1'') = Some ex_revoked_record"
    by (rule revoked_credential_stays_revoked) (simp add: ex_revoked_record_def)
  with c show ?thesis by simp
qed

end
