(* ===== verification/IssuanceTrust.thy ===== *)
theory IssuanceTrust
  imports IssuerServiceRaces TrustRegistryProps
begin

text \<open>
  The issuer service with the caching trust registry as its trust port: what an issued
  credential rests on across the two components.
\<close>

section \<open>The issuer service with the caching trust registry behind it\<close>

text \<open>
  The world of the composed service is the world of the other ports and the registry's cache;
  only the trust port touches the cache.  The registry reads the same clock.
\<close>

definition on_world :: "('x, 'e, 'a) meth \<Rightarrow> ('x \<times> 'c, 'e, 'a) meth" where
  "on_world f w = (case f (fst w) of (r, x) \<Rightarrow> (r, (x, snd w)))"

definition registry_trust ::
  "('x \<Rightarrow> int \<times> 'x) \<Rightarrow> 'v snapshot_source \<Rightarrow> snapshot_verifier \<Rightarrow> trust_request \<Rightarrow> ('x \<times> 'v registry_cache, svc_exn, registry_decision) meth" where
  "registry_trust clock src ver rq w = (case clock (fst w) of (n, x) \<Rightarrow>
     (case evaluateTrust src ver rq (Whole n) (snd w) of (Inl _, c) \<Rightarrow> (Inl Thrown, (x, c)) | (Inr d, c) \<Rightarrow> (Inr d, (x, c))))"

definition with_registry ::
  "'x service_ports \<Rightarrow> 'v snapshot_source \<Rightarrow> snapshot_verifier \<Rightarrow> ('x \<times> 'v registry_cache) service_ports" where
  "with_registry p src ver = \<lparr>
     pt_now = (\<lambda>w. case pt_now p (fst w) of (n, x) \<Rightarrow> (n, (x, snd w))),
     pt_token = (\<lambda>w. case pt_token p (fst w) of (n, x) \<Rightarrow> (n, (x, snd w))),
     pt_describeKey = (\<lambda>k. on_world (pt_describeKey p k)),
     pt_trust = registry_trust (pt_now p) src ver,
     pt_format = (\<lambda>f. map_option (\<lambda>g i. on_world (g i)) (pt_format p f)),
     pt_proof = (\<lambda>t u j b. on_world (pt_proof p t u j b)),
     pt_publish = (\<lambda>u. on_world (pt_publish p u)),
     pt_jurisdiction = pt_jurisdiction p, pt_sha = pt_sha p, pt_url = pt_url p, pt_number = pt_number p\<rparr>"

definition cache_kept :: "('x \<times> 'c) issuer_service \<Rightarrow> ('x \<times> 'c) issuer_service \<Rightarrow> bool" where
  "cache_kept s t \<longleftrightarrow> snd (sv_world t) = snd (sv_world s)"

lemma cache_kept_basic: "reflp cache_kept" "transp cache_kept"
  by (auto simp: cache_kept_def reflp_def transp_def)

lemma kept_now: "keepsS cache_kept (now_svc (with_registry p src ver))"
  by (auto simp: keepsS_def cache_kept_def now_svc_run with_registry_def split: prod.split)

lemma kept_describe: "keepsS cache_kept (port (pt_describeKey (with_registry p src ver) k))"
  by (auto simp: keepsS_def cache_kept_def port_def with_registry_def on_world_def split: prod.split)

text \<open>Up to the trust decision an issuance leaves the cache as it was.\<close>

lemma kept_consume:
  assumes "consumeAccessToken (with_registry p src ver) x tn s = (r, t)"
  shows "snd (sv_world t) = snd (sv_world s)"
proof -
  let ?p = "with_registry p src ver"
  have w: "snd (snd (pt_now ?p w)) = snd w" for w by (simp add: with_registry_def split: prod.split)
  have "snd (sv_world (snd (consumeAccessToken ?p x tn s))) = snd (sv_world s)"
    by (simp add: consumeAccessToken_def bindS_def now_svc_run Let_def w split: sum.split option.split)
  with assms show ?thesis by simp
qed

lemma kept_live: "ensureSessionLive (with_registry p src ver) x s = (Inr u, t) \<Longrightarrow> snd (sv_world t) = snd (sv_world s)"
  by (auto simp: ensureSessionLive_def bindS_def now_svc_run with_registry_def set_state_def split: if_splits prod.splits)

lemma kept_begin:
  assumes "issue_begin (with_registry p src ver) tn tok v s = (Inr (q, tmpl, iss), t)"
  shows "snd (sv_world t) = snd (sv_world s)"
proof -
  let ?p = "with_registry p src ver"
  from assms obtain conf pr k t1 x t2 t3 where k: "consumeAccessToken ?p tok tn s = (Inr k, t1)"
    and x: "mutableSession tn (tk_sessionId k) t1 = (Inr x, t2)"
    and l: "ensureSessionLive ?p x t2 = (Inr (), t3)"
    and a: "authority_begin x t3 = (Inr (tmpl, iss), t)"
    unfolding issue_begin_def by (auto simp: bindS_Inr split: prod.splits if_splits)
  show ?thesis
    using kept_consume [OF k] mutable_Inr [OF x] kept_live [OF l] authority_begin_Inr [OF a] by simp
qed

lemma registry_trust_verified:
  assumes "fst (registry_trust clock src ver rq w) = Inr d" "rd_decision d = Verified" "cache_ok ver (snd w)"
  shows "\<exists>s now issuer schema key. attested ver (tr_scope rq) s \<and> sn_issuedAt s \<le> now \<and> now < sn_expiresAt s
     \<and> now = fst (clock (fst w))
     \<and> issuer \<in> set (sn_issuers s) \<and> ia_issuerId issuer = tr_issuerId rq \<and> ia_status issuer = ''active''
     \<and> schema \<in> set (ia_schemas issuer) \<and> sa_schemaId schema = tr_schemaId rq \<and> sa_status schema = ''active''
     \<and> key \<in> set (ia_keys issuer) \<and> ka_keyId key = tr_keyId rq \<and> ka_status key \<noteq> ''revoked''
     \<and> ka_authorizedFrom key \<le> tr_issuedAt rq \<and> (\<forall>n. ka_authorizedUntil key = Some n \<longrightarrow> tr_issuedAt rq < n)"
proof -
  let ?n = "fst (clock (fst w))"
  obtain c where e: "evaluateTrust src ver rq (Whole ?n) (snd w) = (Inr d, c)"
    using assms(1) by (auto simp: registry_trust_def split: prod.splits sum.splits)
  then obtain r where r: "resolve src ver (tr_scope rq) (Whole ?n) (snd w) = (Inr r, c)"
    and d: "d = (case r of Inl d \<Rightarrow> d | Inr s \<Rightarrow> evaluateTrustSnapshot s rq (Whole ?n))"
    unfolding evaluateTrust_def by (auto elim!: bindS_elim)
  obtain s where s: "r = Inr s"
    using resolve_not_verified [of src ver "tr_scope rq" "Whole ?n" "snd w"] r d assms(2) by (cases r) auto
  have ok: "attested ver (tr_scope rq) s" "fresh_at (Whole ?n) s"
    using resolve_ok [OF r assms(3)] s by auto
  then have wf: "snapshot_wf (unsigned s)" by (simp add: attested_def)
  have dec: "rd_decision (evaluateTrustSnapshot s rq (Whole ?n)) = Verified" using d s assms(2) by simp
  show ?thesis
    by (rule trust_verified [OF dec wf]) (use ok in \<open>unfold fresh_at_Whole, blast\<close>)
qed

text \<open>
  The two readings of the clock behind a trust decision, from the world in which the check of
  the issuer's authority begins: the service's, when the key has been described, and the
  registry's, which is the next one.
\<close>

definition trust_clock :: "'x service_ports \<Rightarrow> issuer_profile \<Rightarrow> 'x \<Rightarrow> int \<times> int" where
  "trust_clock p iss x = (case pt_now p (snd (pt_describeKey p (ip_keyRef iss) x)) of
     (at, y) \<Rightarrow> (at, fst (pt_now p y)))"

lemma port_run: "port f s = (Inr x, t) \<Longrightarrow> f (sv_world s) = (Inr x, sv_world t)"
  by (auto simp: port_def split: prod.splits)

lemma authority_check_trust:
  assumes "authority_check (with_registry p src ver) x iss s = (Inr d, t)"
  shows "\<exists>w r. fst (registry_trust (pt_now p) src ver (trust_question p (session_view_of x) iss (fst (trust_clock p iss (fst (sv_world s))))) w) = Inr r
     \<and> rd_decision r = Verified \<and> snd w = snd (sv_world s) \<and> fst (pt_now p (fst w)) = snd (trust_clock p iss (fst (sv_world s)))"
  using assms
proof (rule authority_check_steps)
  let ?p = "with_registry p src ver"
  fix pin t1 n t2 r
  assume k: "port (pt_describeKey ?p (ip_keyRef iss)) s = (Inr (Some d), t1)" and n: "now_svc ?p t1 = (Inr n, t2)"
    and r: "port (pt_trust ?p (trust_question ?p (session_view_of x) iss n)) t2 = (Inr r, t)" "rd_decision r = Verified"
  have "snd (sv_world t2) = snd (sv_world s)"
    using keepsS_D [OF kept_describe k] keepsS_D [OF kept_now n] by (simp add: cache_kept_def)
  moreover have "fst (sv_world t1) = snd (pt_describeKey p (ip_keyRef iss) (fst (sv_world s)))"
    using port_run [OF k] by (cases "sv_world t1") (auto simp: with_registry_def on_world_def split: prod.splits)
  moreover have "n = fst (pt_now p (fst (sv_world t1)))" "fst (sv_world t2) = snd (pt_now p (fst (sv_world t1)))"
    using n by (auto simp: now_svc_run with_registry_def split: prod.splits)
  ultimately have "n = fst (trust_clock p iss (fst (sv_world s)))" "snd (sv_world t2) = snd (sv_world s)"
    "fst (pt_now p (fst (sv_world t2))) = snd (trust_clock p iss (fst (sv_world s)))"
    by (simp_all add: trust_clock_def split: prod.split)
  moreover have "pt_trust ?p = registry_trust (pt_now p) src ver" "trust_question ?p (session_view_of x) iss n = trust_question p (session_view_of x) iss n"
    by (simp_all add: with_registry_def trust_question_def)
  ultimately show ?thesis using port_run [OF r(1)] r(2) by (metis fst_conv)
qed

text \<open>What a snapshot says that supports the issuance of a session's credential.\<close>

definition snapshot_supports :: "signed_snapshot \<Rightarrow> session_view \<Rightarrow> issuer_profile \<Rightarrow> int \<Rightarrow> bool" where
  "snapshot_supports sn x iss at \<longleftrightarrow> (\<exists>issuer schema key. issuer \<in> set (sn_issuers sn) \<and> ia_issuerId issuer = is_issuerId x
     \<and> ia_status issuer = ''active'' \<and> schema \<in> set (ia_schemas issuer)
     \<and> sa_schemaId schema = is_templateId x @ '':v'' @ show_int (is_templateVersion x) \<and> sa_status schema = ''active''
     \<and> key \<in> set (ia_keys issuer) \<and> ka_keyId key = ip_keyRef iss \<and> ka_status key \<noteq> ''revoked''
     \<and> ka_authorizedFrom key \<le> at \<and> (\<forall>n. ka_authorizedUntil key = Some n \<longrightarrow> at < n))"

text \<open>
  C10: When the service's trust port is the caching registry, in any state its operations can
  reach, every issued credential rests on a snapshot whose signature was accepted for the
  session's tenant and the service's jurisdiction, which was fresh at the time the registry
  read from the clock for the decision, and in which the issuer and the template's schema are
  active and the issuer's key is authorised at the time the service had read just before.
\<close>

theorem issued_credential_rests_on_snapshot:
  assumes "issueCredential (with_registry p src ver) tn tok v s = (Inr c, u)" "keys_ok s"
    "snd (sv_world s) = registry_run src ver ops (new_registry x0)"
  shows "\<exists>x q tmpl iss t sn at now. issue_begin (with_registry p src ver) tn tok v s = (Inr (q, tmpl, iss), t)
     \<and> (at, now) = trust_clock p iss (fst (sv_world t))
     \<and> sv_sessions s (session_key x) = Some x \<and> is_state x = Offered
     \<and> sv_issuers s (nul_join (is_tenantId x) (is_issuerId x)) = Some iss
     \<and> attested ver \<lparr>rs_tenantId = is_tenantId x, rs_jurisdiction = pt_jurisdiction p\<rparr> sn
     \<and> sn_issuedAt sn \<le> now \<and> now < sn_expiresAt sn \<and> snapshot_supports sn (session_view_of x) iss at \<and> recorded tn x c u"
proof -
  let ?p = "with_registry p src ver"
  obtain q tmpl iss t where b: "issue_begin ?p tn tok v s = (Inr (q, tmpl, iss), t)" and r: "issue_rest ?p q tmpl iss t = (Inr c, u)"
    using assms(1) by (auto simp: issueCredential_split bindS_Inr)
  obtain tk :: access_token and x policy where f: "sv_sessions s (nul_join tn (tk_sessionId tk)) = Some x" "is_state x = Offered"
      "iq_key q = session_key x" "iq_tenantId q = tn" "may_issue x tmpl iss policy s" "all_but_secrets s t"
    using issue_begin_Inr [OF b] by blast
  have k: "sv_sessions s (session_key x) = Some x" using f(1) assms(2) by (auto simp: keys_ok_def)
  then have kt: "sv_sessions t (iq_key q) = Some x" using f(3,6) by (simp add: all_but_secrets_def)
  obtain d t1 where a: "authority_check ?p x iss t = (Inr d, t1)"
    using r kt unfolding issue_rest_def by (auto simp: bindS_Inr dest!: session_at_Inr)
  define at now where "at = fst (trust_clock p iss (fst (sv_world t)))" and "now = snd (trust_clock p iss (fst (sv_world t)))"
  obtain w rd where t: "fst (registry_trust (pt_now p) src ver (trust_question p (session_view_of x) iss at) w) = Inr rd"
      "rd_decision rd = Verified" "snd w = snd (sv_world t)" "fst (pt_now p (fst w)) = now"
    using authority_check_trust [OF a] unfolding at_def now_def by blast
  have ok: "cache_ok ver (snd w)" using t(3) kept_begin [OF b] assms(3) registry_run_ok [OF new_registry_ok] by simp
  obtain sn where "attested ver (tr_scope (trust_question p (session_view_of x) iss at)) sn" "sn_issuedAt sn \<le> now" "now < sn_expiresAt sn"
      "snapshot_supports sn (session_view_of x) iss at"
    using registry_trust_verified [OF t(1,2) ok] unfolding snapshot_supports_def t(4)
    by (simp add: trust_question_def) blast
  then have "attested ver \<lparr>rs_tenantId = is_tenantId x, rs_jurisdiction = pt_jurisdiction p\<rparr> sn"
      "sn_issuedAt sn \<le> now" "now < sn_expiresAt sn" "snapshot_supports sn (session_view_of x) iss at"
    by (auto simp: question_view)
  moreover have "recorded tn x c u" using issue_rest_Inr [OF r kt] f(4) by blast
  moreover have "sv_issuers s (nul_join (is_tenantId x) (is_issuerId x)) = Some iss" using f(5) by (simp add: may_issue_def)
  moreover have "(at, now) = trust_clock p iss (fst (sv_world t))" by (simp add: at_def now_def)
  ultimately show ?thesis using b k f(2) by blast
qed

section \<open>A concrete composition\<close>

definition ex_joint_snapshot :: snapshot where
  "ex_joint_snapshot = \<lparr>sn_snapshotId = ''snap'', sn_tenantId = ''t1'', sn_jurisdiction = ''EU'', sn_sequence = 1,
     sn_issuedAt = 1, sn_expiresAt = 200, sn_signingKeyId = ''root'',
     sn_issuers = [\<lparr>ia_issuerId = ''i1'', ia_status = ''active'', ia_schemas = [\<lparr>sa_schemaId = ''m1:v1'', sa_status = ''active''\<rparr>],
       ia_keys = [\<lparr>ka_keyId = ''key-1'', ka_status = ''active'', ka_authorizedFrom = 1, ka_authorizedUntil = None\<rparr>], ia_trustMarks = []\<rparr>],
     sn_rotations = [], sn_statuses = []\<rparr>"

definition ex_joint_value :: jsval where
  "ex_joint_value = JObj (snapshot_entries ex_joint_snapshot @ [(''signature'', JStr ''sig'')])"

definition ex_joint :: "(ex_world \<times> unit registry_cache) issuer_service" where
  "ex_joint = \<lparr>sv_templates = [(template_key ''t1'' ''m1'' 1, ex_svc_template)],
     sv_issuers = [nul_join ''t1'' ''i1'' \<mapsto> ex_svc_issuer], sv_policies = [nul_join ''t1'' ''p1'' \<mapsto> ex_svc_policy],
     sv_sessions = [nul_join ''t1'' ''s1'' \<mapsto> ex_session_of Offered [(''name'', JStr ''Ada'')]], sv_credentials = Map.empty, sv_grants = Map.empty,
     sv_tokens = [ex_token 1 \<mapsto> ex_access 1],
     sv_world = (\<lparr>xw_tokens = 2, xw_clock = 10, xw_issued = []\<rparr>,
       registry_run ex_source ex_verifier [(Prime ex_joint_value, Whole 5)] (new_registry ()))\<rparr>"

lemma ex_joint_issues:
  "ok_result (fst (issueCredential (with_registry ex_ports ex_source ex_verifier) ''t1'' (ex_token 1) ex_issue_request ex_joint))"
  by code_simp

theorem issued_credential_rests_on_snapshot_witness:
  "\<exists>c u x sn. issueCredential (with_registry ex_ports ex_source ex_verifier) ''t1'' (ex_token 1) ex_issue_request ex_joint = (Inr c, u)
     \<and> attested ex_verifier \<lparr>rs_tenantId = x, rs_jurisdiction = ''EU''\<rparr> sn"
proof -
  obtain c u where i: "issueCredential (with_registry ex_ports ex_source ex_verifier) ''t1'' (ex_token 1) ex_issue_request ex_joint = (Inr c, u)"
    using ok_result_run [OF ex_joint_issues] by blast
  have k: "keys_ok ex_joint" by (auto simp: keys_ok_def ex_joint_def ex_session_simps)
  have w: "snd (sv_world ex_joint) = registry_run ex_source ex_verifier [(Prime ex_joint_value, Whole 5)] (new_registry ())"
    by (simp add: ex_joint_def)
  have j: "pt_jurisdiction ex_ports = ''EU''" by (simp add: ex_ports_def)
  from issued_credential_rests_on_snapshot [OF i k w] i j show ?thesis by auto
qed

end
