(* ===== verification/CredentialVault.thy ===== *)
theory CredentialVault
  imports CredentialDomain
begin

text \<open>
  The encrypted vault (\<open>packages/credential-vault/src/index.ts\<close>): envelopes with
  a wrapped data key, the PRF capability, backups, and the two stores behind one interface, an
  in-memory map and an IndexedDB object store. Web Crypto, the UTF-8 codec,
  \<open>JSON.parse\<close>, \<open>Date.parse\<close> and the outcome of a database
  transaction are parameters; envelopes that come back from storage or a backup are untrusted
  values.
\<close>

section \<open>Errors and the platform\<close>

text \<open>
  \<open>Vault_error\<close> is an \<open>Error\<close> with its message, \<open>Recoverable\<close> and \<open>Terminal\<close> are the two kinds
  of \<open>VaultStoreError\<close>, \<open>Vault_platform\<close> is what the platform raises itself (\<open>atob\<close>, Web
  Crypto, \<open>JSON.parse\<close>, a property of undefined).
\<close>

datatype vault_exn = Vault_error string | Recoverable string | Terminal string | Vault_platform

text \<open>
  The platform an operation runs on.  \<open>cr_random i n\<close> is the \<open>i\<close>-th draw of \<open>n\<close> bytes of the
  operation.  Keys are 256-bit strings of bytes; \<open>cr_pbkdf2\<close> and \<open>cr_decrypt\<close> may refuse.
  AES-GCM without additional data is AES-GCM with the empty byte string.
\<close>

record vault_platform =
  cr_available :: bool
  cr_random :: "nat \<Rightarrow> nat \<Rightarrow> string"
  cr_hkdf :: "string \<Rightarrow> string \<Rightarrow> string \<Rightarrow> string"
  cr_pbkdf2 :: "string \<Rightarrow> string \<Rightarrow> int \<Rightarrow> string option"
  cr_encrypt :: "string \<Rightarrow> string \<Rightarrow> string \<Rightarrow> string \<Rightarrow> string"
  cr_decrypt :: "string \<Rightarrow> string \<Rightarrow> string \<Rightarrow> string \<Rightarrow> string option"
  cr_utf8 :: "string \<Rightarrow> string"
  cr_decode :: "string \<Rightarrow> string"
  cr_json :: "string \<Rightarrow> jsval option"
  cr_fraction :: string
  cr_date :: "string \<Rightarrow> bool"
  cr_now :: string

text \<open>\<open>JSON.stringify\<close>; \<open>None\<close> is undefined.\<close>

fun json_text :: "string \<Rightarrow> jsval \<Rightarrow> string option" where
  "json_text fr JUndef = None"
| "json_text fr JNull = Some ''null''"
| "json_text fr (JBool b) = Some (if b then ''true'' else ''false'')"
| "json_text fr (JInt n) = Some (show_int n)"
| "json_text fr JFraction = Some fr"
| "json_text fr JNonFinite = Some ''null''"
| "json_text fr (JStr s) = Some (json_string s)"
| "json_text fr (JArr vs) = Some (CHR ''['' # comma_join (map (\<lambda>v. case json_text fr v of None \<Rightarrow> ''null'' | Some t \<Rightarrow> t) vs) @ '']'')"
| "json_text fr (JObj es) = Some (CHR ''{'' # comma_join (List.map_filter (\<lambda>t. t)
      (map (\<lambda>e. map_option (\<lambda>t. json_string (fst e) @ CHR '':'' # t) (json_text fr (snd e))) es)) @ ''}'')"
| "json_text fr JOther = None"

text \<open>\<open>new TextEncoder().encode(JSON.stringify(v))\<close>; encoding undefined gives no bytes.\<close>

definition encode_json :: "vault_platform \<Rightarrow> jsval \<Rightarrow> string" where
  "encode_json cr v = (case json_text (cr_fraction cr) v of None \<Rightarrow> '''' | Some t \<Rightarrow> cr_utf8 cr t)"

text \<open>Reading a property, and the truth value of a property.\<close>

definition vprop :: "jsval \<Rightarrow> string \<Rightarrow> vault_exn + jsval" where
  "vprop v k = (case v of JObj es \<Rightarrow> Inr (jfield es k) | JUndef \<Rightarrow> Inl Vault_platform | JNull \<Rightarrow> Inl Vault_platform
     | _ \<Rightarrow> Inr JUndef)"

definition js_truthy :: "jsval \<Rightarrow> bool" where
  "js_truthy v \<longleftrightarrow> v \<noteq> JUndef \<and> v \<noteq> JNull \<and> v \<noteq> JBool False \<and> v \<noteq> JInt 0 \<and> v \<noteq> JStr '''' \<and> v \<noteq> JNonFinite"

section \<open>Encodings and keys\<close>

definition b64 :: "string \<Rightarrow> string" where
  "b64 bytes = base64Url bytes"

definition ascii_space :: "char \<Rightarrow> bool" where
  "ascii_space c \<longleftrightarrow> (of_char c :: nat) \<in> {9, 10, 12, 13, 32}"

text \<open>\<open>atob\<close> removes white space before it decodes; a value that is no text has no \<open>replaceAll\<close>.\<close>

definition unb64 :: "jsval \<Rightarrow> vault_exn + string" where
  "unb64 v = (case v of JStr s \<Rightarrow>
       (case atob (filter (\<lambda>c. \<not> ascii_space c) (map plain_char s @ replicate ((4 - length s mod 4) mod 4) (CHR ''=''))) of
          Inl _ \<Rightarrow> Inl Vault_platform | Inr b \<Rightarrow> Inr b)
     | _ \<Rightarrow> Inl Vault_platform)"

datatype vault_strategy = Prf | Passphrase

definition strategy_text :: "vault_strategy \<Rightarrow> string" where
  "strategy_text g = (case g of Prf \<Rightarrow> ''prf'' | Passphrase \<Rightarrow> ''passphrase'')"

datatype vault_secret = Secret_bytes string | Secret_text string

record envelope_options =
  eo_strategy :: vault_strategy
  eo_prfOutput :: "string option"
  eo_passphrase :: "string option"
  eo_iterations :: "int option"
  eo_randomBytes :: "(nat \<Rightarrow> nat \<Rightarrow> vault_exn + string) option"
  eo_associatedData :: "string option"

definition random :: "vault_platform \<Rightarrow> (nat \<Rightarrow> nat \<Rightarrow> vault_exn + string) option \<Rightarrow> nat \<Rightarrow> nat \<Rightarrow> vault_exn + string" where
  "random cr injected i n = bindE (case injected of Some f \<Rightarrow> f i n
       | None \<Rightarrow> if cr_available cr then Inr (cr_random cr i n) else Inl (Vault_error ''WebCrypto unavailable''))
     (\<lambda>b. if length b \<noteq> n then Inl (Vault_error ''Random source returned an invalid length'') else Inr b)"

definition iterations_message :: string where
  "iterations_message = ''PBKDF2 iterations must be between 100000 and 2000000''"

definition boundedIterations :: "jsval \<Rightarrow> vault_exn + int" where
  "boundedIterations v = (case v of
       JUndef \<Rightarrow> Inr 100000
     | JInt n \<Rightarrow> if \<not> safe_integer n \<or> n < 100000 \<or> 2000000 < n then Inl (Vault_error iterations_message) else Inr n
     | _ \<Rightarrow> Inl (Vault_error iterations_message))"

definition importAesKey :: "string \<Rightarrow> vault_exn + string" where
  "importAesKey bytes = (if length bytes \<in> {16, 24, 32} then Inr bytes else Inl Vault_platform)"

definition deriveWrappingKey :: "vault_platform \<Rightarrow> bool \<Rightarrow> vault_secret \<Rightarrow> string \<Rightarrow> int \<Rightarrow> vault_exn + string" where
  "deriveWrappingKey cr prf secret salt iterations =
     (if \<not> cr_available cr then Inl (Vault_error ''WebCrypto unavailable'')
      else if prf then (case secret of
          Secret_bytes b \<Rightarrow> if length b < 32 then Inl (Vault_error ''PRF output is required and must be at least 32 bytes'')
            else Inr (cr_hkdf cr b salt (cr_utf8 cr ''ssw-vault-wrap-v1''))
        | Secret_text _ \<Rightarrow> Inl (Vault_error ''PRF output is required and must be at least 32 bytes''))
      else (case secret of
          Secret_text p \<Rightarrow> if length p < 12 then Inl (Vault_error ''A recovery passphrase of at least 12 characters is required'')
            else (case cr_pbkdf2 cr (cr_utf8 cr p) salt iterations of None \<Rightarrow> Inl Vault_platform | Some k \<Rightarrow> Inr k)
        | Secret_bytes _ \<Rightarrow> Inl (Vault_error ''A recovery passphrase of at least 12 characters is required'')))"

definition aad_bytes :: "string option \<Rightarrow> string" where
  "aad_bytes a = (case a of None \<Rightarrow> '''' | Some d \<Rightarrow> d)"

definition vault_encrypt :: "vault_platform \<Rightarrow> string \<Rightarrow> string \<Rightarrow> string \<Rightarrow> string option \<Rightarrow> string" where
  "vault_encrypt cr key plaintext iv aad = b64 (cr_encrypt cr key iv (aad_bytes aad) plaintext)"

definition vault_decrypt :: "vault_platform \<Rightarrow> string \<Rightarrow> jsval \<Rightarrow> jsval \<Rightarrow> string option \<Rightarrow> vault_exn + string" where
  "vault_decrypt cr key ciphertext iv aad = bindE (unb64 iv) (\<lambda>i. bindE (unb64 ciphertext) (\<lambda>c.
     case cr_decrypt cr key i (aad_bytes aad) c of None \<Rightarrow> Inl Vault_platform | Some p \<Rightarrow> Inr p))"

section \<open>Envelopes\<close>

definition envelope_js ::
  "vault_strategy \<Rightarrow> string \<Rightarrow> int option \<Rightarrow> string \<Rightarrow> string \<Rightarrow> string \<Rightarrow> string \<Rightarrow> string option \<Rightarrow> (string \<times> jsval) list" where
  "envelope_js g salt iterations wiv wct piv pct aad =
     [(''version'', JInt 1), (''algorithm'', JStr ''AES-GCM-256''), (''strategy'', JStr (strategy_text g)),
      (''kdf'', JObj ([(''name'', JStr (case g of Prf \<Rightarrow> ''HKDF-SHA-256'' | Passphrase \<Rightarrow> ''PBKDF2-SHA-256'')), (''salt'', JStr (b64 salt))]
         @ (case iterations of None \<Rightarrow> [] | Some n \<Rightarrow> [(''iterations'', JInt n)]))),
      (''wrappedDek'', JObj [(''iv'', JStr (b64 wiv)), (''ciphertext'', JStr wct)]),
      (''payload'', JObj [(''iv'', JStr (b64 piv)), (''ciphertext'', JStr pct)])]
     @ (case aad of None \<Rightarrow> [] | Some d \<Rightarrow> [(''aad'', JStr (b64 d))])"

definition option_secret :: "envelope_options \<Rightarrow> vault_secret option" where
  "option_secret opts = (case eo_strategy opts of Prf \<Rightarrow> map_option Secret_bytes (eo_prfOutput opts)
     | Passphrase \<Rightarrow> (case eo_passphrase opts of None \<Rightarrow> None | Some p \<Rightarrow> if p = '''' then None else Some (Secret_text p)))"

definition option_iterations :: "envelope_options \<Rightarrow> vault_exn + int option" where
  "option_iterations opts = (case eo_strategy opts of Prf \<Rightarrow> Inr None
     | Passphrase \<Rightarrow> bindE (boundedIterations (case eo_iterations opts of None \<Rightarrow> JUndef | Some n \<Rightarrow> JInt n)) (\<lambda>n. Inr (Some n)))"

definition createVaultEnvelope :: "vault_platform \<Rightarrow> string \<Rightarrow> envelope_options \<Rightarrow> vault_exn + (string \<times> jsval) list" where
  "createVaultEnvelope cr plaintext opts = (case option_secret opts of
       None \<Rightarrow> Inl (Vault_error (case eo_strategy opts of
           Prf \<Rightarrow> ''PRF strategy requires an explicit PRF output; no silent downgrade''
         | Passphrase \<Rightarrow> ''Passphrase strategy requires an explicit recovery factor''))
     | Some secret \<Rightarrow>
         bindE (option_iterations opts) (\<lambda>iterations.
         bindE (random cr (eo_randomBytes opts) 0 16) (\<lambda>salt.
         bindE (random cr (eo_randomBytes opts) 1 32) (\<lambda>dekBytes.
         bindE (deriveWrappingKey cr (eo_strategy opts = Prf) secret salt (case iterations of None \<Rightarrow> 0 | Some n \<Rightarrow> n)) (\<lambda>wrappingKey.
         bindE (importAesKey dekBytes) (\<lambda>dek.
         bindE (random cr (eo_randomBytes opts) 2 12) (\<lambda>wrappedIv.
         bindE (random cr (eo_randomBytes opts) 3 12) (\<lambda>payloadIv.
         Inr (envelope_js (eo_strategy opts) salt iterations
           wrappedIv (vault_encrypt cr wrappingKey dekBytes wrappedIv None)
           payloadIv (vault_encrypt cr dek plaintext payloadIv (eo_associatedData opts))
           (eo_associatedData opts))))))))))"

definition supported_envelope :: "jsval \<Rightarrow> vault_exn + bool" where
  "supported_envelope v = bindE (vprop v ''version'') (\<lambda>n. bindE (vprop v ''algorithm'') (\<lambda>a.
     Inr (n = JInt 1 \<and> a = JStr ''AES-GCM-256'')))"

definition openVaultEnvelope :: "vault_platform \<Rightarrow> jsval \<Rightarrow> vault_secret \<Rightarrow> vault_exn + string" where
  "openVaultEnvelope cr env secret =
     bindE (supported_envelope env) (\<lambda>known.
     if \<not> known then Inl (Vault_error ''Unsupported or corrupt vault envelope version'') else
     bindE (vprop env ''strategy'') (\<lambda>strategy.
     bindE (vprop env ''kdf'') (\<lambda>kdf.
     bindE (if strategy = JStr ''passphrase'' then bindE (vprop kdf ''iterations'') boundedIterations else Inr 0) (\<lambda>iterations.
     bindE (vprop kdf ''salt'') (\<lambda>s. bindE (unb64 s) (\<lambda>salt.
     bindE (deriveWrappingKey cr (strategy = JStr ''prf'') secret salt iterations) (\<lambda>wrappingKey.
     bindE (vprop env ''wrappedDek'') (\<lambda>wrapped.
     bindE (vprop wrapped ''ciphertext'') (\<lambda>wct. bindE (vprop wrapped ''iv'') (\<lambda>wiv.
     bindE (vault_decrypt cr wrappingKey wct wiv None) (\<lambda>dekBytes.
     if length dekBytes \<noteq> 32 then Inl (Vault_error ''Invalid wrapped vault key length'') else
     bindE (importAesKey dekBytes) (\<lambda>dek.
     bindE (vprop env ''payload'') (\<lambda>payload.
     bindE (vprop payload ''ciphertext'') (\<lambda>pct. bindE (vprop payload ''iv'') (\<lambda>piv.
     bindE (vprop env ''aad'') (\<lambda>a.
     bindE (if js_truthy a then bindE (unb64 a) (\<lambda>d. Inr (Some d)) else Inr None) (\<lambda>aad.
     vault_decrypt cr dek pct piv aad)))))))))))))))))"

definition migrateVaultEnvelope ::
  "vault_platform \<Rightarrow> jsval \<Rightarrow> vault_secret \<Rightarrow> envelope_options \<Rightarrow> vault_exn + (string \<times> jsval) list" where
  "migrateVaultEnvelope cr env currentSecret next =
     bindE (openVaultEnvelope cr env currentSecret) (\<lambda>p. createVaultEnvelope cr p next)"

section \<open>PRF capability\<close>

datatype prf_reason = Available | Missing_api | Unsupported

text \<open>\<open>getClientCapabilities\<close>: absent, rejecting, or resolving to a value.\<close>

definition detectWebAuthnPrfCapability :: "(unit + jsval) option \<Rightarrow> bool \<times> prf_reason" where
  "detectWebAuthnPrfCapability meth = (case meth of None \<Rightarrow> (False, Missing_api)
     | Some (Inl _) \<Rightarrow> (False, Unsupported)
     | Some (Inr v) \<Rightarrow> (case vprop v ''prf'' of Inl _ \<Rightarrow> (False, Unsupported)
         | Inr p \<Rightarrow> if p = JBool True then (True, Available) else (False, Unsupported)))"

definition reason_text :: "prf_reason \<Rightarrow> string" where
  "reason_text r = (case r of Available \<Rightarrow> ''available'' | Missing_api \<Rightarrow> ''missing-api'' | Unsupported \<Rightarrow> ''unsupported'')"

definition requirePrfCapability :: "bool \<times> prf_reason \<Rightarrow> vault_exn + unit" where
  "requirePrfCapability c = (if \<not> fst c then Inl (Vault_error (''WebAuthn PRF unavailable ('' @ reason_text (snd c)
     @ ''); choose explicit recovery passphrase strategy'')) else Inr ())"

section \<open>Entries and their metadata\<close>

text \<open>
  The metadata of a caller: an object of texts, in the order its properties were written
  (\<open>None\<close> is a property whose value is undefined).  An entry is such an object together with
  the property \<open>envelope\<close>.
\<close>

type_synonym vault_metadata = "(string \<times> string option) list"

type_synonym vault_entry = "(string \<times> jsval) list"

definition metadata_js :: "vault_metadata \<Rightarrow> vault_entry" where
  "metadata_js md = map (\<lambda>p. (fst p, case snd p of None \<Rightarrow> JUndef | Some s \<Rightarrow> JStr s)) md"

definition metadata_text :: "vault_metadata \<Rightarrow> string \<Rightarrow> string" where
  "metadata_text md k = (case map_of md k of Some (Some s) \<Rightarrow> s | _ \<Rightarrow> '''')"

definition metadataBytes :: "vault_platform \<Rightarrow> vault_entry \<Rightarrow> string" where
  "metadataBytes cr md = encode_json cr (JObj md)"

definition metadataMatches :: "vault_platform \<Rightarrow> vault_entry \<Rightarrow> jsval \<Rightarrow> vault_exn + bool" where
  "metadataMatches cr md env = bindE (vprop env ''aad'') (\<lambda>a. Inr (a = JStr (b64 (metadataBytes cr md))))"

definition entryMetadata :: "vault_entry \<Rightarrow> vault_entry" where
  "entryMetadata e = [(''id'', jfield e ''id''), (''credentialType'', jfield e ''credentialType''), (''issuer'', jfield e ''issuer'')]
     @ (if js_truthy (jfield e ''issuedAt'') then [(''issuedAt'', jfield e ''issuedAt'')] else [])
     @ (if js_truthy (jfield e ''expiresAt'') then [(''expiresAt'', jfield e ''expiresAt'')] else [])"

definition credentialBytes :: "vault_platform \<Rightarrow> jsval \<Rightarrow> string" where
  "credentialBytes cr c = encode_json cr c"

definition parseCredential :: "vault_platform \<Rightarrow> string \<Rightarrow> vault_exn + jsval" where
  "parseCredential cr bytes = (case cr_json cr (cr_decode cr bytes) of None \<Rightarrow> Inl Vault_platform | Some v \<Rightarrow> Inr v)"

definition is_text :: "jsval \<Rightarrow> bool" where
  "is_text v \<longleftrightarrow> (case v of JStr _ \<Rightarrow> True | _ \<Rightarrow> False)"

definition isVaultEntry :: "jsval \<Rightarrow> bool" where
  "isVaultEntry v = (case v of JObj e \<Rightarrow> \<not> own e ''credential'' \<and> is_text (jfield e ''id'') \<and> is_text (jfield e ''credentialType'')
       \<and> is_text (jfield e ''issuer'') \<and> js_truthy (jfield e ''envelope'')
       \<and> supported_envelope (jfield e ''envelope'') = Inr True
     | _ \<Rightarrow> False)"

section \<open>Backups\<close>

definition backupAad :: "vault_platform \<Rightarrow> jsval \<Rightarrow> jsval \<Rightarrow> string" where
  "backupAad cr sequence createdAt = encode_json cr (JObj [(''kind'', JStr ''ssw-credential-vault-backup''),
     (''backupVersion'', JInt 1), (''sequence'', sequence), (''createdAt'', createdAt)])"

definition createVaultBackup ::
  "vault_platform \<Rightarrow> vault_entry list \<Rightarrow> envelope_options \<Rightarrow> int \<Rightarrow> string option \<Rightarrow> vault_exn + (string \<times> jsval) list" where
  "createVaultBackup cr entries opts sequence created =
     (if \<not> safe_integer sequence \<or> sequence < 1 then Inl (Vault_error ''backup sequence must be a positive integer'') else
      let createdAt = (case created of None \<Rightarrow> cr_now cr | Some t \<Rightarrow> t) in
      if \<not> cr_date cr createdAt then Inl (Vault_error ''invalid backup timestamp'')
      else if \<not> list_all (\<lambda>e. isVaultEntry (JObj e)) entries then Inl (Vault_error ''backup entries must contain encrypted envelopes'')
      else bindE (createVaultEnvelope cr (encode_json cr (JObj [(''entries'', JArr (map JObj entries))]))
             (opts\<lparr>eo_associatedData := Some (backupAad cr (JInt sequence) (JStr createdAt))\<rparr>)) (\<lambda>outer.
           Inr (outer @ [(''backupVersion'', JInt 1), (''kind'', JStr ''ssw-credential-vault-backup''),
             (''sequence'', JInt sequence), (''createdAt'', JStr createdAt)])))"

record vault_backup =
  vb_sequence :: int
  vb_createdAt :: jsval
  vb_entries :: "vault_entry list"

fun entry_list :: "jsval list \<Rightarrow> vault_entry list option" where
  "entry_list [] = Some []"
| "entry_list (JObj e # vs) = (if isVaultEntry (JObj e) then map_option ((#) e) (entry_list vs) else None)"
| "entry_list (v # vs) = None"

definition backup_entries :: "vault_platform \<Rightarrow> string \<Rightarrow> vault_exn + vault_entry list" where
  "backup_entries cr bytes = (case cr_json cr (cr_decode cr bytes) of
       None \<Rightarrow> Inl (Vault_error ''Vault backup payload is corrupt'')
     | Some payload \<Rightarrow> (case vprop payload ''entries'' of
           Inr (JArr vs) \<Rightarrow> (case entry_list vs of None \<Rightarrow> Inl (Vault_error ''Vault backup payload is corrupt'') | Some es \<Rightarrow> Inr es)
         | _ \<Rightarrow> Inl (Vault_error ''Vault backup payload is corrupt'')))"

definition openVaultBackup ::
  "vault_platform \<Rightarrow> (string \<times> jsval) list \<Rightarrow> vault_secret \<Rightarrow> int option \<Rightarrow> vault_exn + vault_backup" where
  "openVaultBackup cr env secret minimum = (case jfield env ''sequence'' of
       JInt sequence \<Rightarrow>
         if jfield env ''kind'' \<noteq> JStr ''ssw-credential-vault-backup'' \<or> jfield env ''backupVersion'' \<noteq> JInt 1
           \<or> \<not> safe_integer sequence \<or> sequence < 1
         then Inl (Vault_error ''Unsupported or corrupt vault backup version'')
         else if (case minimum of None \<Rightarrow> False | Some m \<Rightarrow> sequence < m) then Inl (Vault_error ''Vault backup rollback detected'')
         else bindE (openVaultEnvelope cr (JObj env) secret) (\<lambda>bytes.
           if jfield env ''aad'' \<noteq> JStr (b64 (backupAad cr (JInt sequence) (jfield env ''createdAt'')))
           then Inl (Vault_error ''Vault backup integrity metadata mismatch'')
           else bindE (backup_entries cr bytes) (\<lambda>es.
             Inr \<lparr>vb_sequence = sequence, vb_createdAt = jfield env ''createdAt'', vb_entries = es\<rparr>))
     | _ \<Rightarrow> Inl (Vault_error ''Unsupported or corrupt vault backup version''))"

section \<open>Reading and re-encrypting one entry\<close>

text \<open>
  What \<open>get\<close> and \<open>migrate\<close> do with the entry they found; the \<open>catch\<close> turns every error into
  one that may be retried.
\<close>

definition not_found :: vault_exn where
  "not_found = Recoverable ''Vault entry not found''"

definition open_entry :: "vault_platform \<Rightarrow> vault_entry \<Rightarrow> vault_secret \<Rightarrow> vault_exn + string" where
  "open_entry cr e secret = bindE (metadataMatches cr (entryMetadata e) (jfield e ''envelope'')) (\<lambda>same.
     if \<not> same then Inl (Vault_error ''metadata authentication failed'')
     else openVaultEnvelope cr (jfield e ''envelope'') secret)"

definition read_entry :: "vault_platform \<Rightarrow> vault_entry \<Rightarrow> vault_secret \<Rightarrow> vault_exn + vault_entry \<times> jsval" where
  "read_entry cr e secret = (case bindE (open_entry cr e secret) (\<lambda>b. bindE (parseCredential cr b) (\<lambda>c. Inr (entryMetadata e, c))) of
       Inl _ \<Rightarrow> Inl (Recoverable ''Vault entry is corrupt or cannot be opened'')
     | Inr r \<Rightarrow> Inr r)"

definition reencrypted_entry ::
  "vault_platform \<Rightarrow> vault_entry \<Rightarrow> vault_secret \<Rightarrow> envelope_options \<Rightarrow> vault_exn + vault_entry" where
  "reencrypted_entry cr e currentSecret next = bindE (open_entry cr e currentSecret) (\<lambda>plaintext.
     bindE (createVaultEnvelope cr plaintext (next\<lparr>eo_associatedData := Some (metadataBytes cr (entryMetadata e))\<rparr>)) (\<lambda>env.
     Inr (omap_set ''envelope'' (JObj env) e)))"

definition migration_failed :: vault_exn where
  "migration_failed = Recoverable ''Vault migration failed; previous entry retained''"

definition new_entry :: "vault_platform \<Rightarrow> vault_metadata \<Rightarrow> jsval \<Rightarrow> envelope_options \<Rightarrow> vault_exn + vault_entry" where
  "new_entry cr md credential opts = bindE (createVaultEnvelope cr (credentialBytes cr credential)
       (opts\<lparr>eo_associatedData := Some (metadataBytes cr (metadata_js md))\<rparr>)) (\<lambda>env.
     Inr (omap_set ''envelope'' (JObj env) (metadata_js md)))"

section \<open>The in-memory store\<close>

text \<open>
  A \<open>Map\<close> by identifier.  \<open>migrate\<close> reads the entry, awaits the cryptography and writes;
  other operations may run between the two parts.
\<close>

type_synonym vault_map = "(string \<times> vault_entry) list"

definition entry_key :: "vault_entry \<Rightarrow> string" where
  "entry_key e = (case jfield e ''id'' of JStr s \<Rightarrow> s | _ \<Rightarrow> '''')"

definition mem_put :: "vault_platform \<Rightarrow> vault_metadata \<Rightarrow> jsval \<Rightarrow> envelope_options \<Rightarrow> (vault_map, vault_exn, unit) meth" where
  "mem_put cr md credential opts s =
     (if metadata_text md ''id'' = '''' \<or> metadata_text md ''credentialType'' = '''' \<or> metadata_text md ''issuer'' = ''''
      then (Inl (Terminal ''Invalid vault metadata''), s)
      else case new_entry cr md credential opts of Inl e \<Rightarrow> (Inl e, s)
         | Inr e \<Rightarrow> (Inr (), omap_set (metadata_text md ''id'') e s))"

definition mem_find :: "string \<Rightarrow> (vault_map, vault_exn, vault_entry) meth" where
  "mem_find ident s = (case map_of s ident of None \<Rightarrow> (Inl not_found, s) | Some e \<Rightarrow> (Inr e, s))"

definition mem_get :: "vault_platform \<Rightarrow> string \<Rightarrow> vault_secret \<Rightarrow> (vault_map, vault_exn, vault_entry \<times> jsval) meth" where
  "mem_get cr ident secret = bindS (mem_find ident) (\<lambda>e. pureS (read_entry cr e secret))"

definition mem_list :: "(vault_map, vault_exn, vault_entry list) meth" where
  "mem_list s = (Inr (map (\<lambda>p. omap_delete ''envelope'' (snd p)) s), s)"

definition mem_delete :: "string \<Rightarrow> (vault_map, vault_exn, unit) meth" where
  "mem_delete ident s = (Inr (), omap_delete ident s)"

definition mem_migrate_finish ::
  "vault_platform \<Rightarrow> string \<Rightarrow> vault_secret \<Rightarrow> envelope_options \<Rightarrow> vault_entry \<Rightarrow> (vault_map, vault_exn, unit) meth" where
  "mem_migrate_finish cr ident currentSecret next e s = (case reencrypted_entry cr e currentSecret next of
       Inl _ \<Rightarrow> (Inl migration_failed, s)
     | Inr e' \<Rightarrow> (Inr (), omap_set ident e' s))"

definition mem_migrate ::
  "vault_platform \<Rightarrow> string \<Rightarrow> vault_secret \<Rightarrow> envelope_options \<Rightarrow> (vault_map, vault_exn, unit) meth" where
  "mem_migrate cr ident currentSecret next = bindS (mem_find ident) (mem_migrate_finish cr ident currentSecret next)"

definition mem_exportBackup ::
  "vault_platform \<Rightarrow> envelope_options \<Rightarrow> int \<Rightarrow> string option \<Rightarrow> (vault_map, vault_exn, (string \<times> jsval) list) meth" where
  "mem_exportBackup cr opts sequence created s = (createVaultBackup cr (map snd s) opts sequence created, s)"

definition mem_restoreBackup ::
  "vault_platform \<Rightarrow> (string \<times> jsval) list \<Rightarrow> vault_secret \<Rightarrow> int option \<Rightarrow> (vault_map, vault_exn, unit) meth" where
  "mem_restoreBackup cr env secret minimum s = (case openVaultBackup cr env secret minimum of
       Inl e \<Rightarrow> (Inl e, s)
     | Inr b \<Rightarrow> (Inr (), foldl (\<lambda>m e. omap_set (entry_key e) e m) [] (vb_entries b)))"

section \<open>The IndexedDB store\<close>

text \<open>
  One object store with the key path \<open>id\<close>, listed in key order.  A transaction commits
  (\<open>None\<close>) or fails with the database's error and leaves the store as it was; opening the
  database creates the store when it is missing.
\<close>

fun idb_insert :: "string \<Rightarrow> vault_entry \<Rightarrow> vault_map \<Rightarrow> vault_map" where
  "idb_insert k v [] = [(k, v)]"
| "idb_insert k v ((k', v') # m) = (if k = k' then (k, v) # m
     else if k < k' then (k, v) # (k', v') # m else (k', v') # idb_insert k v m)"

definition idb_put_request :: "vault_entry \<Rightarrow> (vault_map, vault_exn, unit) meth" where
  "idb_put_request e m = (case jfield e ''id'' of JStr k \<Rightarrow> (Inr (), idb_insert k e m) | _ \<Rightarrow> (Inl Vault_platform, m))"

definition idb_tx :: "vault_exn option \<Rightarrow> (vault_map, vault_exn, 'a) meth \<Rightarrow> (vault_map, vault_exn, 'a) meth" where
  "idb_tx fate work m = (case fate of Some e \<Rightarrow> (Inl e, m) | None \<Rightarrow> work m)"

definition idb_new :: "bool \<Rightarrow> vault_exn + vault_map" where
  "idb_new factory = (if \<not> factory then Inl (Terminal ''IndexedDB unavailable'') else Inr [])"

definition idb_put ::
  "vault_platform \<Rightarrow> vault_exn option \<Rightarrow> vault_metadata \<Rightarrow> jsval \<Rightarrow> envelope_options \<Rightarrow> (vault_map, vault_exn, unit) meth" where
  "idb_put cr fate md credential opts = bindS (pureS (new_entry cr md credential opts)) (\<lambda>e. idb_tx fate (idb_put_request e))"

definition idb_find :: "vault_exn option \<Rightarrow> string \<Rightarrow> (vault_map, vault_exn, vault_entry) meth" where
  "idb_find fate ident = bindS (idb_tx fate (\<lambda>m. (Inr (map_of m ident), m))) (\<lambda>r. case r of None \<Rightarrow> throwS not_found | Some e \<Rightarrow> returnS e)"

definition idb_get ::
  "vault_platform \<Rightarrow> vault_exn option \<Rightarrow> string \<Rightarrow> vault_secret \<Rightarrow> (vault_map, vault_exn, vault_entry \<times> jsval) meth" where
  "idb_get cr fate ident secret = bindS (idb_find fate ident) (\<lambda>e. pureS (read_entry cr e secret))"

definition idb_list :: "vault_exn option \<Rightarrow> (vault_map, vault_exn, vault_entry list) meth" where
  "idb_list fate = idb_tx fate (\<lambda>m. (Inr (map (\<lambda>p. entryMetadata (snd p)) m), m))"

definition idb_delete :: "vault_exn option \<Rightarrow> string \<Rightarrow> (vault_map, vault_exn, unit) meth" where
  "idb_delete fate ident = idb_tx fate (\<lambda>m. (Inr (), omap_delete ident m))"

definition idb_migrate ::
  "vault_platform \<Rightarrow> vault_exn option \<Rightarrow> vault_exn option \<Rightarrow> string \<Rightarrow> vault_secret \<Rightarrow> envelope_options \<Rightarrow> (vault_map, vault_exn, unit) meth" where
  "idb_migrate cr fate fate' ident currentSecret next = bindS (idb_find fate ident) (\<lambda>e.
     catchS (bindS (pureS (reencrypted_entry cr e currentSecret next)) (\<lambda>e'. idb_tx fate' (idb_put_request e')))
       (\<lambda>_. throwS migration_failed))"

definition idb_exportBackup ::
  "vault_platform \<Rightarrow> vault_exn option \<Rightarrow> envelope_options \<Rightarrow> int \<Rightarrow> string option \<Rightarrow> (vault_map, vault_exn, (string \<times> jsval) list) meth" where
  "idb_exportBackup cr fate opts sequence created = bindS (idb_tx fate (\<lambda>m. (Inr (map snd m), m)))
     (\<lambda>entries. pureS (createVaultBackup cr entries opts sequence created))"

fun idb_put_all :: "vault_entry list \<Rightarrow> (vault_map, vault_exn, unit) meth" where
  "idb_put_all [] = returnS ()"
| "idb_put_all (e # es) = bindS (idb_put_request e) (\<lambda>_. idb_put_all es)"

definition idb_restoreBackup ::
  "vault_platform \<Rightarrow> vault_exn option \<Rightarrow> (string \<times> jsval) list \<Rightarrow> vault_secret \<Rightarrow> int option \<Rightarrow> (vault_map, vault_exn, unit) meth" where
  "idb_restoreBackup cr fate env secret minimum = bindS (pureS (openVaultBackup cr env secret minimum))
     (\<lambda>b. idb_tx fate (\<lambda>m. idb_put_all (vb_entries b) []))"

end
