(* ===== verification/PlatformTypes.thy ===== *)
theory PlatformTypes
  imports Interfaces JsValue
begin

text \<open>
  The versioned contracts that the services exchange (\<open>packages/platform-
  types/src/index.ts\<close>): the strict field checks, the nine parsers, wallet locators
  bound to a tenant, and the canonical serialisation that signatures and idempotency keys are
  computed from. SHA-256 in hex and \<open>Date.parse\<close> are parameters.
\<close>

section \<open>Errors\<close>

datatype schema_code =
    SCHEMA_INVALID | UNKNOWN_FIELD | UNSUPPORTED_VERSION | LOCATOR_INVALID | LOCATOR_TENANT_MISMATCH | SERIALIZATION_INVALID

datatype schema_exn = Schema_error schema_code string

definition schema_fail :: "string \<Rightarrow> schema_exn + 'a" where
  "schema_fail message = Inl (Schema_error SCHEMA_INVALID message)"

section \<open>Fields\<close>

text \<open>The keys of a record are checked in their order; the first unknown one is reported.\<close>

definition schema_keys :: "(string \<times> jsval) list \<Rightarrow> string list \<Rightarrow> schema_exn + unit" where
  "schema_keys es allowed = (case find (\<lambda>e. fst e \<notin> set allowed) es of
       None \<Rightarrow> Inr () | Some e \<Rightarrow> Inl (Schema_error UNKNOWN_FIELD (''unknown field: '' @ fst e)))"

definition schema_version :: "jsval \<Rightarrow> schema_exn + int" where
  "schema_version v = (if v = JInt 1 then Inr 1 else Inl (Schema_error UNSUPPORTED_VERSION ''unsupported schema version''))"

definition schema_string :: "nat \<Rightarrow> string \<Rightarrow> jsval \<Rightarrow> schema_exn + string" where
  "schema_string m field v = (case v of
       JStr s \<Rightarrow> if s = '''' \<or> m < length s
         then schema_fail (field @ '' must be a non-empty string of at most '' @ show_nat m @ '' characters'') else Inr s
     | _ \<Rightarrow> schema_fail (field @ '' must be a non-empty string of at most '' @ show_nat m @ '' characters''))"

definition schema_id :: "string \<Rightarrow> jsval \<Rightarrow> schema_exn + string" where
  "schema_id field v = bindE (schema_string 128 field v) (\<lambda>s.
     if \<not> list_all id_char s then schema_fail (field @ '' contains unsafe characters'') else Inr s)"

definition schema_integer :: "int \<Rightarrow> string \<Rightarrow> jsval \<Rightarrow> schema_exn + int" where
  "schema_integer minimum field v = (case v of
       JInt n \<Rightarrow> if \<not> safe_integer n \<or> n < minimum
         then schema_fail (field @ '' must be a safe integer >= '' @ show_int minimum) else Inr n
     | _ \<Rightarrow> schema_fail (field @ '' must be a safe integer >= '' @ show_int minimum))"

text \<open>\<open>Date.parse\<close> is a parameter: whether a text is a date.\<close>

definition schema_timestamp :: "(string \<Rightarrow> bool) \<Rightarrow> string \<Rightarrow> jsval \<Rightarrow> schema_exn + string" where
  "schema_timestamp date field v = bindE (schema_string 64 field v) (\<lambda>s.
     if \<not> date s then schema_fail (field @ '' must be an ISO timestamp'') else Inr s)"

definition schema_address :: "string \<Rightarrow> jsval \<Rightarrow> schema_exn + string" where
  "schema_address field v = bindE (schema_string 42 field v) (\<lambda>s.
     if \<not> hex_string 40 s then schema_fail (field @ '' must be a 20-byte hex address'') else Inr (to_lower s))"

text \<open>\<open>/^0x(?:[0-9a-fA-F]{2})*$/u\<close>.\<close>

definition even_hex :: "string \<Rightarrow> bool" where
  "even_hex s \<longleftrightarrow> take 2 s = ''0x'' \<and> even (length s) \<and> list_all is_hex (drop 2 s)"

definition schema_hex :: "nat \<Rightarrow> string \<Rightarrow> jsval \<Rightarrow> schema_exn + string" where
  "schema_hex maxBytes field v = bindE (schema_string (maxBytes * 2 + 2) field v) (\<lambda>s.
     if \<not> even_hex s \<or> maxBytes < (length s - 2) div 2
     then schema_fail (field @ '' must be even-length hex within '' @ show_nat maxBytes @ '' bytes'') else Inr (to_lower s))"

text \<open>\<open>/^(?:0|[1-9][0-9]*)$/u\<close>.\<close>

definition decimal_text :: "string \<Rightarrow> bool" where
  "decimal_text s \<longleftrightarrow> s = ''0'' \<or> (s \<noteq> '''' \<and> hd s \<noteq> CHR ''0'' \<and> list_all is_digit s)"

definition schema_decimal :: "string \<Rightarrow> jsval \<Rightarrow> schema_exn + string" where
  "schema_decimal field v = bindE (schema_string 80 field v) (\<lambda>s.
     if \<not> decimal_text s then schema_fail (field @ '' must be an unsigned decimal string'') else Inr s)"

definition schema_choice :: "string list \<Rightarrow> string \<Rightarrow> jsval \<Rightarrow> schema_exn + string" where
  "schema_choice allowed message v = (case v of
       JStr s \<Rightarrow> if s \<in> set allowed then Inr s else schema_fail message
     | _ \<Rightarrow> schema_fail message)"

definition schema_optional :: "(jsval \<Rightarrow> schema_exn + 'a) \<Rightarrow> jsval \<Rightarrow> schema_exn + 'a option" where
  "schema_optional f v = (if v = JUndef then Inr None else bindE (f v) (\<lambda>x. Inr (Some x)))"

section \<open>Wallet locators\<close>

text \<open>\<open>/^[0-9a-f]{64}$/\<close>, and \<open>split('_')\<close>.  SHA-256 in hex is the parameter \<open>digest\<close>.\<close>

definition digest_text :: "string \<Rightarrow> bool" where
  "digest_text s \<longleftrightarrow> length s = 64 \<and> list_all (\<lambda>c. c \<in> set ''0123456789abcdef'') s"

fun split_underscore :: "string \<Rightarrow> string list" where
  "split_underscore [] = [[]]"
| "split_underscore (c # s) = (if c = CHR ''_'' then [] # split_underscore s
     else (case split_underscore s of [] \<Rightarrow> [[c]] | p # ps \<Rightarrow> (c # p) # ps))"

definition locator_text :: "string \<Rightarrow> string \<Rightarrow> string" where
  "locator_text a b = ''wlt_v1_'' @ a @ ''_'' @ b"

definition parseWalletLocator :: "jsval \<Rightarrow> schema_exn + string" where
  "parseWalletLocator v = (case v of
       JStr s \<Rightarrow> if take 7 s = ''wlt_v1_'' \<and> digest_text (take 64 (drop 7 s)) \<and> take 1 (drop 71 s) = ''_'' \<and> digest_text (drop 72 s)
         then Inr s else Inl (Schema_error LOCATOR_INVALID ''invalid wallet locator'')
     | _ \<Rightarrow> Inl (Schema_error LOCATOR_INVALID ''invalid wallet locator''))"

definition createWalletLocator :: "(string \<Rightarrow> string) \<Rightarrow> jsval \<Rightarrow> jsval \<Rightarrow> schema_exn + string" where
  "createWalletLocator digest tenantId walletId = bindE (schema_id ''tenantId'' tenantId) (\<lambda>tenant.
     bindE (schema_id ''walletId'' walletId) (\<lambda>wallet.
     Inr (locator_text (digest (''tenant:'' @ tenant)) (digest (''wallet:'' @ tenant @ '':'' @ wallet)))))"

definition assertWalletLocatorTenant :: "(string \<Rightarrow> string) \<Rightarrow> jsval \<Rightarrow> jsval \<Rightarrow> jsval \<Rightarrow> schema_exn + string" where
  "assertWalletLocatorTenant digest locator tenantId walletId = bindE (parseWalletLocator locator) (\<lambda>s.
     bindE (schema_id ''tenantId'' tenantId) (\<lambda>tenant.
     if split_underscore s ! 2 \<noteq> digest (''tenant:'' @ tenant)
     then Inl (Schema_error LOCATOR_TENANT_MISMATCH ''wallet locator is not scoped to this tenant'')
     else if walletId = JUndef then Inr s
     else bindE (schema_id ''walletId'' walletId) (\<lambda>wallet.
       if split_underscore s ! 3 \<noteq> digest (''wallet:'' @ tenant @ '':'' @ wallet)
       then Inl (Schema_error LOCATOR_TENANT_MISMATCH ''wallet locator does not identify this wallet'')
       else Inr s)))"

section \<open>Contracts\<close>

record tenant =
  tn_tenantId :: string
  tn_displayName :: string
  tn_createdAt :: string

record principal =
  pr_principalId :: string
  pr_tenantId :: string
  pr_kind :: string
  pr_status :: string

record wallet =
  wl_walletId :: string
  wl_tenantId :: string
  wl_locator :: string
  wl_chainId :: int
  wl_address :: string
  wl_status :: string
  wl_did :: "string option"

record signer_binding =
  sb_signerId :: string
  sb_walletLocator :: string
  sb_kind :: string
  sb_status :: string
  sb_publicKey :: "string option"

record auth_identity =
  ai_identityId :: string
  ai_principalId :: string
  ai_provider :: string
  ai_subjectHash :: string
  ai_verifiedAt :: string

record transaction_intent =
  tx_intentId :: string
  tx_walletLocator :: string
  tx_chainId :: int
  tx_target :: string
  tx_value :: string
  tx_data :: string
  tx_expiresAt :: string

record authorization_challenge =
  ac_challengeId :: string
  ac_walletLocator :: string
  ac_nonce :: string
  ac_audience :: string
  ac_expiresAt :: string

record audit_event =
  ae_eventId :: string
  ae_tenantId :: string
  ae_eventType :: string
  ae_actorKind :: string
  ae_outcome :: string
  ae_resource :: string
  ae_createdAt :: string

record vendor_bundle =
  mb_bundleId :: string
  mb_walletLocator :: string
  mb_sourceVendor :: string
  mb_targetVendor :: string
  mb_payloadDigest :: string
  mb_signature :: string
  mb_issuedAt :: string
  mb_expiresAt :: string

definition parse_contract ::
  "string \<Rightarrow> string list \<Rightarrow> ((string \<times> jsval) list \<Rightarrow> schema_exn + 'a) \<Rightarrow> jsval \<Rightarrow> schema_exn + 'a" where
  "parse_contract name allowed body v = (case v of
       JObj es \<Rightarrow> bindE (schema_keys es allowed) (\<lambda>_. bindE (schema_version (jfield es ''schemaVersion'')) (\<lambda>_. body es))
     | _ \<Rightarrow> schema_fail (name @ '' must be an object''))"

definition parseTenant :: "(string \<Rightarrow> bool) \<Rightarrow> jsval \<Rightarrow> schema_exn + tenant" where
  "parseTenant date = parse_contract ''tenant'' [''schemaVersion'', ''tenantId'', ''displayName'', ''createdAt''] (\<lambda>x.
     bindE (schema_id ''tenantId'' (jfield x ''tenantId'')) (\<lambda>t.
     bindE (schema_string 256 ''displayName'' (jfield x ''displayName'')) (\<lambda>d.
     bindE (schema_timestamp date ''createdAt'' (jfield x ''createdAt'')) (\<lambda>c.
     Inr \<lparr>tn_tenantId = t, tn_displayName = d, tn_createdAt = c\<rparr>))))"

definition parsePrincipal :: "jsval \<Rightarrow> schema_exn + principal" where
  "parsePrincipal = parse_contract ''principal'' [''schemaVersion'', ''principalId'', ''tenantId'', ''kind'', ''status''] (\<lambda>x.
     bindE (schema_id ''principalId'' (jfield x ''principalId'')) (\<lambda>p.
     bindE (schema_id ''tenantId'' (jfield x ''tenantId'')) (\<lambda>t.
     bindE (schema_choice [''user'', ''service''] ''invalid principal kind'' (jfield x ''kind'')) (\<lambda>k.
     bindE (schema_choice [''active'', ''suspended''] ''invalid principal status'' (jfield x ''status'')) (\<lambda>s.
     Inr \<lparr>pr_principalId = p, pr_tenantId = t, pr_kind = k, pr_status = s\<rparr>)))))"

definition parseWallet :: "jsval \<Rightarrow> schema_exn + wallet" where
  "parseWallet = parse_contract ''wallet''
     [''schemaVersion'', ''walletId'', ''tenantId'', ''locator'', ''chainId'', ''address'', ''status'', ''did''] (\<lambda>x.
     bindE (schema_id ''walletId'' (jfield x ''walletId'')) (\<lambda>w.
     bindE (schema_id ''tenantId'' (jfield x ''tenantId'')) (\<lambda>t.
     bindE (parseWalletLocator (jfield x ''locator'')) (\<lambda>l.
     bindE (schema_integer 1 ''chainId'' (jfield x ''chainId'')) (\<lambda>c.
     bindE (schema_address ''address'' (jfield x ''address'')) (\<lambda>a.
     bindE (schema_choice [''active'', ''suspended'', ''closed''] ''invalid wallet status'' (jfield x ''status'')) (\<lambda>s.
     bindE (schema_optional (schema_string 256 ''did'') (jfield x ''did'')) (\<lambda>d.
     Inr \<lparr>wl_walletId = w, wl_tenantId = t, wl_locator = l, wl_chainId = c, wl_address = a, wl_status = s, wl_did = d\<rparr>))))))))"

definition parseSignerBinding :: "jsval \<Rightarrow> schema_exn + signer_binding" where
  "parseSignerBinding = parse_contract ''signer binding''
     [''schemaVersion'', ''signerId'', ''walletLocator'', ''kind'', ''status'', ''publicKey''] (\<lambda>x.
     bindE (schema_id ''signerId'' (jfield x ''signerId'')) (\<lambda>i.
     bindE (parseWalletLocator (jfield x ''walletLocator'')) (\<lambda>l.
     bindE (schema_choice [''passkey'', ''recovery'', ''operational''] ''invalid signer kind'' (jfield x ''kind'')) (\<lambda>k.
     bindE (schema_choice [''active'', ''revoked''] ''invalid signer status'' (jfield x ''status'')) (\<lambda>s.
     bindE (schema_optional (schema_hex 32768 ''publicKey'') (jfield x ''publicKey'')) (\<lambda>p.
     Inr \<lparr>sb_signerId = i, sb_walletLocator = l, sb_kind = k, sb_status = s, sb_publicKey = p\<rparr>))))))"

definition parseAuthIdentity :: "(string \<Rightarrow> bool) \<Rightarrow> jsval \<Rightarrow> schema_exn + auth_identity" where
  "parseAuthIdentity date = parse_contract ''auth identity''
     [''schemaVersion'', ''identityId'', ''principalId'', ''provider'', ''subjectHash'', ''verifiedAt''] (\<lambda>x.
     bindE (schema_id ''identityId'' (jfield x ''identityId'')) (\<lambda>i.
     bindE (schema_id ''principalId'' (jfield x ''principalId'')) (\<lambda>p.
     bindE (schema_choice [''email'', ''oidc'', ''passkey''] ''invalid auth provider'' (jfield x ''provider'')) (\<lambda>v.
     bindE (schema_hex 64 ''subjectHash'' (jfield x ''subjectHash'')) (\<lambda>h.
     bindE (schema_timestamp date ''verifiedAt'' (jfield x ''verifiedAt'')) (\<lambda>a.
     Inr \<lparr>ai_identityId = i, ai_principalId = p, ai_provider = v, ai_subjectHash = h, ai_verifiedAt = a\<rparr>))))))"

definition parseTransactionIntent :: "(string \<Rightarrow> bool) \<Rightarrow> jsval \<Rightarrow> schema_exn + transaction_intent" where
  "parseTransactionIntent date = parse_contract ''transaction intent''
     [''schemaVersion'', ''intentId'', ''walletLocator'', ''chainId'', ''target'', ''value'', ''data'', ''expiresAt''] (\<lambda>x.
     bindE (schema_id ''intentId'' (jfield x ''intentId'')) (\<lambda>i.
     bindE (parseWalletLocator (jfield x ''walletLocator'')) (\<lambda>l.
     bindE (schema_integer 1 ''chainId'' (jfield x ''chainId'')) (\<lambda>c.
     bindE (schema_address ''target'' (jfield x ''target'')) (\<lambda>t.
     bindE (schema_decimal ''value'' (jfield x ''value'')) (\<lambda>v.
     bindE (schema_hex 32768 ''data'' (jfield x ''data'')) (\<lambda>d.
     bindE (schema_timestamp date ''expiresAt'' (jfield x ''expiresAt'')) (\<lambda>e.
     Inr \<lparr>tx_intentId = i, tx_walletLocator = l, tx_chainId = c, tx_target = t, tx_value = v, tx_data = d, tx_expiresAt = e\<rparr>))))))))"

definition parseAuthorizationChallenge :: "(string \<Rightarrow> bool) \<Rightarrow> jsval \<Rightarrow> schema_exn + authorization_challenge" where
  "parseAuthorizationChallenge date = parse_contract ''authorization challenge''
     [''schemaVersion'', ''challengeId'', ''walletLocator'', ''nonce'', ''audience'', ''expiresAt''] (\<lambda>x.
     bindE (schema_id ''challengeId'' (jfield x ''challengeId'')) (\<lambda>i.
     bindE (parseWalletLocator (jfield x ''walletLocator'')) (\<lambda>l.
     bindE (schema_hex 64 ''nonce'' (jfield x ''nonce'')) (\<lambda>n.
     bindE (schema_string 256 ''audience'' (jfield x ''audience'')) (\<lambda>a.
     bindE (schema_timestamp date ''expiresAt'' (jfield x ''expiresAt'')) (\<lambda>e.
     Inr \<lparr>ac_challengeId = i, ac_walletLocator = l, ac_nonce = n, ac_audience = a, ac_expiresAt = e\<rparr>))))))"

definition parseAuditEvent :: "(string \<Rightarrow> bool) \<Rightarrow> jsval \<Rightarrow> schema_exn + audit_event" where
  "parseAuditEvent date = parse_contract ''audit event''
     [''schemaVersion'', ''eventId'', ''tenantId'', ''eventType'', ''actorKind'', ''outcome'', ''resource'', ''createdAt''] (\<lambda>x.
     bindE (schema_id ''eventId'' (jfield x ''eventId'')) (\<lambda>i.
     bindE (schema_id ''tenantId'' (jfield x ''tenantId'')) (\<lambda>t.
     bindE (schema_string 256 ''eventType'' (jfield x ''eventType'')) (\<lambda>y.
     bindE (schema_choice [''user'', ''service'', ''system''] ''invalid actor kind'' (jfield x ''actorKind'')) (\<lambda>k.
     bindE (schema_choice [''accepted'', ''rejected''] ''invalid audit outcome'' (jfield x ''outcome'')) (\<lambda>r.
     bindE (schema_string 256 ''resource'' (jfield x ''resource'')) (\<lambda>s.
     bindE (schema_timestamp date ''createdAt'' (jfield x ''createdAt'')) (\<lambda>c.
     Inr \<lparr>ae_eventId = i, ae_tenantId = t, ae_eventType = y, ae_actorKind = k, ae_outcome = r, ae_resource = s, ae_createdAt = c\<rparr>))))))))"

definition parseMigrationBundle :: "(string \<Rightarrow> bool) \<Rightarrow> jsval \<Rightarrow> schema_exn + vendor_bundle" where
  "parseMigrationBundle date = parse_contract ''migration bundle''
     [''schemaVersion'', ''bundleId'', ''walletLocator'', ''sourceVendor'', ''targetVendor'', ''payloadDigest'', ''signature'', ''issuedAt'', ''expiresAt''] (\<lambda>x.
     bindE (schema_id ''bundleId'' (jfield x ''bundleId'')) (\<lambda>i.
     bindE (parseWalletLocator (jfield x ''walletLocator'')) (\<lambda>l.
     bindE (schema_id ''sourceVendor'' (jfield x ''sourceVendor'')) (\<lambda>s.
     bindE (schema_id ''targetVendor'' (jfield x ''targetVendor'')) (\<lambda>t.
     bindE (schema_hex 64 ''payloadDigest'' (jfield x ''payloadDigest'')) (\<lambda>d.
     bindE (schema_hex 16384 ''signature'' (jfield x ''signature'')) (\<lambda>g.
     bindE (schema_timestamp date ''issuedAt'' (jfield x ''issuedAt'')) (\<lambda>a.
     bindE (schema_timestamp date ''expiresAt'' (jfield x ''expiresAt'')) (\<lambda>e.
     Inr \<lparr>mb_bundleId = i, mb_walletLocator = l, mb_sourceVendor = s, mb_targetVendor = t, mb_payloadDigest = d,
       mb_signature = g, mb_issuedAt = a, mb_expiresAt = e\<rparr>)))))))))"

section \<open>Canonical serialisation\<close>

definition unserializable :: "string \<Rightarrow> schema_exn + 'a" where
  "unserializable message = Inl (Schema_error SERIALIZATION_INVALID message)"

text \<open>
  The properties of a record in the order of their names; the names are distinct.  The depth
  is the one of the value looked at.
\<close>

function stableValue :: "jsval \<Rightarrow> nat \<Rightarrow> schema_exn + string" where
  "stableValue v depth = (if 8 < depth then unserializable ''serialization nesting limit exceeded'' else
     case v of
       JNull \<Rightarrow> Inr ''null''
     | JStr s \<Rightarrow> Inr (json_string s)
     | JBool b \<Rightarrow> Inr (if b then ''true'' else ''false'')
     | JInt n \<Rightarrow> if \<not> safe_integer n then unserializable ''unsafe number in serialization'' else Inr (show_int n)
     | JFraction \<Rightarrow> unserializable ''unsafe number in serialization''
     | JNonFinite \<Rightarrow> unserializable ''unsafe number in serialization''
     | JArr vs \<Rightarrow> if 32 < length vs then unserializable ''array exceeds serialization bound''
         else bindE (mapE (\<lambda>w. stableValue w (depth + 1)) vs) (\<lambda>ts. Inr (''['' @ comma_join ts @ '']''))
     | JObj es \<Rightarrow> bindE (mapE (\<lambda>e. bindE (stableValue (snd e) (depth + 1)) (\<lambda>t. Inr (json_string (fst e) @ '':'' @ t)))
         (sort_entries es)) (\<lambda>ts. Inr (''{'' @ comma_join ts @ ''}''))
     | JUndef \<Rightarrow> unserializable ''unsupported value in serialization''
     | JOther \<Rightarrow> unserializable ''unsupported value in serialization'')"
  by pat_completeness auto
termination
  by (relation "measure (\<lambda>p. 9 - snd p)") auto

declare stableValue.simps [simp del]

definition serializeCanonical :: "jsval \<Rightarrow> schema_exn + string" where
  "serializeCanonical v = stableValue v 0"

end
