(* ===== verification/WalletPortability.thy ===== *)
theory WalletPortability
  imports CredentialVault PlatformTypes
begin

text \<open>
  Moving a wallet between vendors (\<open>packages/wallet-portability/src/index.ts\<close>):
  the checks on the exported state, migration bundles with their header, encryption and
  signature, import with rollback, and the rotation of the control path. The calls of the
  ports (authorisation, signer, import target, rotation) are recorded in order; their results
  are arguments.
\<close>

section \<open>Errors and ports\<close>

datatype portability_code =
    INVALID_BUNDLE | UNSUPPORTED_BUNDLE_VERSION | BUNDLE_EXPIRED | SIGNATURE_INVALID | DECRYPTION_FAILED
  | AUTHORIZATION_REQUIRED | ROTATION_UNSUPPORTED | ROTATION_FAILED | IMPORT_FAILED | ROLLBACK_FAILED

text \<open>\<open>Other_error\<close> is every error of another class: of a port, the vault, the serialiser or the platform.\<close>

datatype portability_exn = Portability_error portability_code string | Other_error

text \<open>The calls made to the ports, in order; each call of a port gives its result and is recorded.\<close>

datatype port_call =
    Authorize string | Sign string | Verify string string string
  | Prepare jsval | Commit jsval | Verify_import jsval jsval | Rollback jsval
  | Inspect | Install_next | Verify_next | Take_snapshot | Remove_old | Rollback_next

definition port :: "port_call \<Rightarrow> portability_exn + 'a \<Rightarrow> (port_call list, portability_exn, 'a) meth" where
  "port c r calls = (r, calls @ [c])"

definition invalid_bundle :: "string \<Rightarrow> portability_exn + 'a" where
  "invalid_bundle message = Inl (Portability_error INVALID_BUNDLE message)"

definition as_other :: "'e + 'a \<Rightarrow> portability_exn + 'a" where
  "as_other r = (case r of Inl _ \<Rightarrow> Inl Other_error | Inr x \<Rightarrow> Inr x)"

section \<open>Hexadecimal and fields\<close>

definition byte_hex :: "string \<Rightarrow> string" where
  "byte_hex bytes = concat (map (\<lambda>c. [hex_digit (of_char c div 16), hex_digit (of_char c mod 16)]) bytes)"

definition nibble :: "char \<Rightarrow> nat" where
  "nibble c = (if is_digit c then of_char c - 48 else of_char c - 87)"

fun hex_bytes :: "string \<Rightarrow> string" where
  "hex_bytes (a # b # r) = char_of (nibble a * 16 + nibble b) # hex_bytes r"
| "hex_bytes _ = []"

definition fromHex :: "string \<Rightarrow> portability_exn + string" where
  "fromHex v = (let raw = drop 2 v in
     if odd (length raw) \<or> raw = '''' \<or> \<not> list_all (\<lambda>c. c \<in> set ''0123456789abcdef'') raw
     then invalid_bundle ''invalid signature encoding'' else Inr (hex_bytes raw))"

definition assertString :: "jsval \<Rightarrow> string \<Rightarrow> nat \<Rightarrow> portability_exn + string" where
  "assertString v field m = (case v of
       JStr s \<Rightarrow> if s = '''' \<or> m < length s then invalid_bundle (field @ '' is invalid'') else Inr s
     | _ \<Rightarrow> invalid_bundle (field @ '' is invalid''))"

definition assertAddress :: "jsval \<Rightarrow> string \<Rightarrow> portability_exn + string" where
  "assertAddress v field = (case v of
       JStr s \<Rightarrow> if \<not> valid_address s then invalid_bundle (field @ '' is invalid'') else Inr (to_lower s)
     | _ \<Rightarrow> invalid_bundle (field @ '' is invalid''))"

definition assertHex :: "jsval \<Rightarrow> string \<Rightarrow> portability_exn + string" where
  "assertHex v field = (case v of
       JStr s \<Rightarrow> if \<not> even_hex s \<or> 131074 < length s then invalid_bundle (field @ '' is invalid'') else Inr (to_lower s)
     | _ \<Rightarrow> invalid_bundle (field @ '' is invalid''))"

text \<open>\<open>Date.parse\<close>: milliseconds, or \<open>None\<close> for NaN.\<close>

type_synonym date_parser = "string \<Rightarrow> int option"

definition assertDate :: "date_parser \<Rightarrow> jsval \<Rightarrow> string \<Rightarrow> portability_exn + string" where
  "assertDate date v field = bindE (assertString v field 64) (\<lambda>s.
     if date s = None then invalid_bundle (field @ '' is invalid'') else Inr s)"

definition assertId :: "jsval \<Rightarrow> string \<Rightarrow> portability_exn + string" where
  "assertId v field = bindE (assertString v field 128) (\<lambda>s.
     if \<not> list_all id_char s then invalid_bundle (field @ '' is invalid'') else Inr s)"

section \<open>Secret material\<close>

text \<open>The alternatives of the regular expression, without regard to case; \<open>Maybe\<close> is \<open>.?\<close>.\<close>

datatype pattern_item = Lit char | Maybe

fun matches_here :: "pattern_item list \<Rightarrow> string \<Rightarrow> bool" where
  "matches_here [] s \<longleftrightarrow> True"
| "matches_here (Lit c # ps) s \<longleftrightarrow> (case s of [] \<Rightarrow> False | d # r \<Rightarrow> lower_char d = c \<and> matches_here ps r)"
| "matches_here (Maybe # ps) s \<longleftrightarrow>
     (case s of [] \<Rightarrow> False | d # r \<Rightarrow> d \<notin> {CHR 0x0A, CHR 0x0D} \<and> matches_here ps r) \<or> matches_here ps s"

fun matches_within :: "pattern_item list \<Rightarrow> string \<Rightarrow> bool" where
  "matches_within ps [] \<longleftrightarrow> matches_here ps []"
| "matches_within ps (c # s) \<longleftrightarrow> matches_here ps (c # s) \<or> matches_within ps s"

definition secret_patterns :: "pattern_item list list" where
  "secret_patterns = [map Lit ''private'' @ Maybe # map Lit ''key'', map Lit ''secret'', map Lit ''password'', map Lit ''passphrase'',
     map Lit ''mnemonic'', map Lit ''seed'', map Lit ''recovery'' @ Maybe # map Lit ''material'',
     map Lit ''raw'' @ Maybe # map Lit ''credential'', map Lit ''plaintext'' @ Maybe # map Lit ''key'']"

definition secret_field :: "string \<Rightarrow> bool" where
  "secret_field key \<longleftrightarrow> list_ex (\<lambda>ps. matches_within ps key) secret_patterns"

lemma forE_cong [fundef_cong]:
  "xs = ys \<Longrightarrow> (\<And>x. x \<in> set ys \<Longrightarrow> f x = g x) \<Longrightarrow> forE f xs = forE g ys"
  by (induction ys arbitrary: xs) auto

function assertNoSecretMaterial :: "jsval \<Rightarrow> nat \<Rightarrow> portability_exn + unit" where
  "assertNoSecretMaterial v depth =
     (if 8 < depth then invalid_bundle ''wallet state nesting limit exceeded'' else
      case v of
        JArr vs \<Rightarrow> forE (\<lambda>w. assertNoSecretMaterial w (depth + 1)) vs
      | JObj es \<Rightarrow> forE (\<lambda>e. if secret_field (fst e) then invalid_bundle ''plaintext secret material is not portable''
            else assertNoSecretMaterial (snd e) (depth + 1)) es
      | _ \<Rightarrow> Inr ())"
  by pat_completeness auto
termination
  by (relation "measure (\<lambda>p. 9 - snd p)") auto

declare assertNoSecretMaterial.simps [simp del]

section \<open>The wallet state\<close>

text \<open>A property read, and \<open>Object.keys\<close>; both throw on undefined and null.\<close>

definition read_prop :: "jsval \<Rightarrow> string \<Rightarrow> portability_exn + jsval" where
  "read_prop v k = as_other (vprop v k)"

definition object_keys :: "jsval \<Rightarrow> portability_exn + string list" where
  "object_keys v = (case v of JObj es \<Rightarrow> Inr (map fst es) | JArr vs \<Rightarrow> Inr (map show_nat [0..<length vs])
     | JStr s \<Rightarrow> Inr (map show_nat [0..<length s]) | JUndef \<Rightarrow> Inl Other_error | JNull \<Rightarrow> Inl Other_error | _ \<Rightarrow> Inr [])"

definition assertKeys :: "jsval \<Rightarrow> string list \<Rightarrow> string \<Rightarrow> portability_exn + unit" where
  "assertKeys v allowed label = bindE (object_keys v) (\<lambda>ks. case find (\<lambda>k. k \<notin> set allowed) ks of
       None \<Rightarrow> Inr () | Some k \<Rightarrow> invalid_bundle (''unknown '' @ label @ '' field: '' @ k))"

definition optional_field :: "(jsval \<Rightarrow> portability_exn + string) \<Rightarrow> jsval \<Rightarrow> portability_exn + unit" where
  "optional_field f v = (if v = JUndef then Inr () else bindE (f v) (\<lambda>_. Inr ()))"

definition is_object :: "jsval \<Rightarrow> bool" where
  "is_object v \<longleftrightarrow> (case v of JObj _ \<Rightarrow> True | JArr _ \<Rightarrow> True | _ \<Rightarrow> False)"

definition check_signer :: "jsval \<Rightarrow> portability_exn + unit" where
  "check_signer v = bindE (assertKeys v [''id'', ''kind'', ''publicKey''] ''signer'') (\<lambda>_.
     bindE (read_prop v ''id'') (\<lambda>i. bindE (assertId i ''signer id'') (\<lambda>_.
     bindE (read_prop v ''kind'') (\<lambda>k.
     if k \<notin> {JStr ''passkey'', JStr ''recovery'', JStr ''operational''} then invalid_bundle ''signer kind is invalid'' else
     bindE (read_prop v ''publicKey'') (optional_field (\<lambda>p. assertHex p ''signer public key''))))))"

definition check_module :: "jsval \<Rightarrow> portability_exn + unit" where
  "check_module v = bindE (assertKeys v [''address'', ''type'', ''version'', ''codeHash''] ''module'') (\<lambda>_.
     bindE (read_prop v ''address'') (\<lambda>a. bindE (assertAddress a ''module address'') (\<lambda>_.
     bindE (read_prop v ''type'') (\<lambda>t. bindE (assertString t ''module type'' 64) (\<lambda>_.
     bindE (read_prop v ''version'') (\<lambda>n. bindE (assertString n ''module version'' 128) (\<lambda>_.
     bindE (read_prop v ''codeHash'') (\<lambda>h. bindE (assertHex h ''module code hash'') (\<lambda>_. Inr ())))))))))"

definition check_asset :: "jsval \<Rightarrow> portability_exn + unit" where
  "check_asset v = bindE (assertKeys v [''kind'', ''address'', ''tokenId'', ''balance''] ''asset'') (\<lambda>_.
     bindE (read_prop v ''kind'') (\<lambda>k.
     if k \<notin> {JStr ''native'', JStr ''erc20'', JStr ''erc721'', JStr ''erc1155''} then invalid_bundle ''asset kind is invalid'' else
     bindE (read_prop v ''address'') (\<lambda>a. bindE (if k \<noteq> JStr ''native'' then assertAddress a ''asset address'' else Inr '''') (\<lambda>_.
     bindE (read_prop v ''tokenId'') (\<lambda>t. bindE (optional_field (\<lambda>x. assertString x ''asset token id'' 128) t) (\<lambda>_.
     bindE (read_prop v ''balance'') (optional_field (\<lambda>x. assertString x ''asset balance'' 80))))))))"

definition check_history :: "jsval \<Rightarrow> portability_exn + unit" where
  "check_history v = (if v = JUndef then Inr () else
     bindE (assertKeys v [''cursor'', ''digest''] ''history'') (\<lambda>_.
     bindE (read_prop v ''cursor'') (\<lambda>c. bindE (optional_field (\<lambda>x. assertString x ''history cursor'' 256) c) (\<lambda>_.
     bindE (read_prop v ''digest'') (optional_field (\<lambda>x. assertHex x ''history digest''))))))"

definition check_wallet :: "jsval \<Rightarrow> portability_exn + unit" where
  "check_wallet w = bindE (assertKeys w [''address'', ''chainId'', ''did'', ''locator''] ''wallet'') (\<lambda>_.
     bindE (read_prop w ''chainId'') (\<lambda>c.
     bindE (case c of JInt n \<Rightarrow> if \<not> safe_integer n \<or> n < 1 then invalid_bundle ''wallet chain is invalid'' else Inr ()
         | _ \<Rightarrow> invalid_bundle ''wallet chain is invalid'') (\<lambda>_.
     bindE (read_prop w ''address'') (\<lambda>a. bindE (assertAddress a ''wallet address'') (\<lambda>_.
     bindE (read_prop w ''did'') (\<lambda>d. bindE (optional_field (\<lambda>x. assertString x ''wallet did'' 256) d) (\<lambda>_.
     bindE (read_prop w ''locator'') (optional_field (\<lambda>x. assertString x ''wallet locator'' 256)))))))))"

definition check_control :: "jsval \<Rightarrow> portability_exn + unit" where
  "check_control c = (if \<not> js_truthy c then invalid_bundle ''wallet control state is invalid'' else
     bindE (read_prop c ''recoveryAvailable'') (\<lambda>r. bindE (read_prop c ''signers'') (\<lambda>ss. bindE (read_prop c ''modules'') (\<lambda>ms.
     case (r, ss, ms) of
       (JBool _, JArr signers, JArr modules) \<Rightarrow>
         bindE (assertKeys c [''recoveryAvailable'', ''signers'', ''modules''] ''control'') (\<lambda>_.
         bindE (forE check_signer signers) (\<lambda>_. forE check_module modules))
     | _ \<Rightarrow> invalid_bundle ''wallet control state is invalid''))))"

definition validateState :: "jsval \<Rightarrow> portability_exn + jsval" where
  "validateState state = (if \<not> is_object state then invalid_bundle ''wallet state is invalid'' else
     bindE (assertNoSecretMaterial state 0) (\<lambda>_.
     bindE (read_prop state ''wallet'') (\<lambda>w.
     if \<not> is_object w then invalid_bundle ''wallet state is invalid'' else
     bindE (assertKeys state [''wallet'', ''control'', ''assets'', ''history'', ''vaultBackup''] ''wallet state'') (\<lambda>_.
     bindE (check_wallet w) (\<lambda>_.
     bindE (read_prop state ''control'') (\<lambda>c. bindE (check_control c) (\<lambda>_.
     bindE (read_prop state ''assets'') (\<lambda>a.
     bindE (case a of JArr assets \<Rightarrow> forE check_asset assets | _ \<Rightarrow> invalid_bundle ''asset inventory is invalid'') (\<lambda>_.
     bindE (read_prop state ''history'') (\<lambda>h. bindE (check_history h) (\<lambda>_. Inr state)))))))))))"

section \<open>Bundles\<close>

record bundle_header =
  bh_bundleId :: string
  bh_keyId :: string
  bh_issuedAt :: string
  bh_expiresAt :: string
  bh_walletAddress :: string
  bh_chainId :: int
  bh_strategy :: string

record migration_bundle = bundle_header +
  mg_envelope :: jsval
  mg_signature :: string

definition header_entries :: "'a bundle_header_scheme \<Rightarrow> (string \<times> jsval) list" where
  "header_entries h = [(''format'', JStr ''ssw-wallet-migration''), (''version'', JInt 1), (''bundleId'', JStr (bh_bundleId h)),
     (''keyId'', JStr (bh_keyId h)), (''issuedAt'', JStr (bh_issuedAt h)), (''expiresAt'', JStr (bh_expiresAt h)),
     (''walletAddress'', JStr (bh_walletAddress h)), (''chainId'', JInt (bh_chainId h)),
     (''encryption'', JObj [(''algorithm'', JStr ''AES-GCM-256''), (''strategy'', JStr (bh_strategy h))])]"

definition bundle_js :: "migration_bundle \<Rightarrow> jsval" where
  "bundle_js b = JObj (header_entries b @ [(''envelope'', mg_envelope b), (''signature'', JStr (mg_signature b))])"

definition canonicalBytes :: "vault_platform \<Rightarrow> jsval \<Rightarrow> portability_exn + string" where
  "canonicalBytes cr v = bindE (as_other (serializeCanonical v)) (\<lambda>t. Inr (cr_utf8 cr t))"

definition unsignedBytes :: "vault_platform \<Rightarrow> 'a bundle_header_scheme \<Rightarrow> jsval \<Rightarrow> portability_exn + string" where
  "unsignedBytes cr h env = canonicalBytes cr (JObj (header_entries h @ [(''envelope'', env)]))"

definition bundle_fields :: "string list" where
  "bundle_fields = [''format'', ''version'', ''bundleId'', ''keyId'', ''issuedAt'', ''expiresAt'', ''walletAddress'', ''chainId'',
     ''encryption'', ''envelope'', ''signature'']"

text \<open>
  \<open>String(strategy)\<close> admits a list that holds the name alone; two lists are never identical,
  so only the name itself passes the comparison with the envelope.
\<close>

definition names_strategy :: "jsval \<Rightarrow> bool" where
  "names_strategy v \<longleftrightarrow> (case element_text v of None \<Rightarrow> False | Some t \<Rightarrow> t = ''prf'' \<or> t = ''passphrase'')"

definition parse_header ::
  "date_parser \<Rightarrow> (string \<times> jsval) list \<Rightarrow> string \<Rightarrow> portability_exn + bundle_header" where
  "parse_header date input strategy =
     bindE (assertId (jfield input ''bundleId'') ''bundle id'') (\<lambda>b.
     bindE (assertId (jfield input ''keyId'') ''key id'') (\<lambda>k.
     bindE (assertDate date (jfield input ''issuedAt'') ''issued at'') (\<lambda>i.
     bindE (assertDate date (jfield input ''expiresAt'') ''expires at'') (\<lambda>e.
     bindE (assertAddress (jfield input ''walletAddress'') ''wallet address'') (\<lambda>a.
     case jfield input ''chainId'' of
       JInt n \<Rightarrow> if \<not> safe_integer n \<or> n \<le> 0 then invalid_bundle ''chain id is invalid''
         else Inr \<lparr>bh_bundleId = b, bh_keyId = k, bh_issuedAt = i, bh_expiresAt = e, bh_walletAddress = a, bh_chainId = n, bh_strategy = strategy\<rparr>
     | _ \<Rightarrow> invalid_bundle ''chain id is invalid'')))))"

definition parseBundle :: "date_parser \<Rightarrow> jsval \<Rightarrow> portability_exn + migration_bundle" where
  "parseBundle date v = (case v of
       JObj input \<Rightarrow>
         (case find (\<lambda>e. fst e \<notin> set bundle_fields) input of
            Some e \<Rightarrow> invalid_bundle (''unknown bundle field: '' @ fst e)
          | None \<Rightarrow>
         if jfield input ''format'' \<noteq> JStr ''ssw-wallet-migration'' then invalid_bundle ''unknown portability format''
         else if jfield input ''version'' \<noteq> JInt 1
         then Inl (Portability_error UNSUPPORTED_BUNDLE_VERSION ''unsupported mandatory portability version'')
         else let encryption = jfield input ''encryption''; envelope = jfield input ''envelope'' in
         if \<not> js_truthy encryption then invalid_bundle ''unsupported encryption parameters'' else
         bindE (read_prop encryption ''algorithm'') (\<lambda>alg. bindE (read_prop encryption ''strategy'') (\<lambda>strategy.
         if alg \<noteq> JStr ''AES-GCM-256'' \<or> \<not> names_strategy strategy then invalid_bundle ''unsupported encryption parameters''
         else if \<not> js_truthy envelope
         then Inl (Portability_error UNSUPPORTED_BUNDLE_VERSION ''unsupported encrypted envelope version'')
         else bindE (as_other (supported_envelope envelope)) (\<lambda>known.
         if \<not> known then Inl (Portability_error UNSUPPORTED_BUNDLE_VERSION ''unsupported encrypted envelope version'') else
         bindE (read_prop envelope ''strategy'') (\<lambda>own_strategy.
         case strategy of
           JStr s \<Rightarrow> if own_strategy \<noteq> JStr s then invalid_bundle ''envelope strategy does not match bundle header'' else
             bindE (parse_header date input s) (\<lambda>h.
             bindE (assertHex (jfield input ''signature'') ''signature'') (\<lambda>g.
             Inr (bundle_header.extend h \<lparr>mg_envelope = envelope, mg_signature = g\<rparr>)))
         | _ \<Rightarrow> invalid_bundle ''envelope strategy does not match bundle header'')))))
     | _ \<Rightarrow> invalid_bundle ''bundle must be an object'')"

definition inspectMigrationBundle :: "date_parser \<Rightarrow> jsval \<Rightarrow> portability_exn + bundle_header" where
  "inspectMigrationBundle date v = bindE (parseBundle date v) (\<lambda>b. Inr (bundle_header.truncate b))"

section \<open>Export\<close>

text \<open>
  The signer: the bytes it returns (\<open>None\<close> when it is no byte array) or its error, and its
  verdict; the authorisation either passes or throws.
\<close>

record signature_port =
  sg_keyId :: string
  sg_sign :: "string \<Rightarrow> portability_exn + string option"
  sg_verify :: "string \<Rightarrow> string \<Rightarrow> string \<Rightarrow> portability_exn + bool"

type_synonym authorization_port = "string \<Rightarrow> portability_exn + unit"

definition authorize_action :: "authorization_port \<Rightarrow> string \<Rightarrow> string \<Rightarrow> (port_call list, portability_exn, unit) meth" where
  "authorize_action auth action message =
     catchS (port (Authorize action) (auth action)) (\<lambda>_. throwS (Portability_error AUTHORIZATION_REQUIRED message))"

text \<open>The present time as \<open>toISOString\<close> shows it.\<close>

definition export_header ::
  "date_parser \<Rightarrow> jsval \<Rightarrow> string \<Rightarrow> envelope_options \<Rightarrow> string \<Rightarrow> string \<Rightarrow> string \<Rightarrow> portability_exn + bundle_header" where
  "export_header date state signerKey opts bundleId expires now =
     bindE (assertDate date (JStr expires) ''expires at'') (\<lambda>e.
     if (case (date e, date now) of (Some x, Some y) \<Rightarrow> x \<le> y | _ \<Rightarrow> False)
     then Inl (Portability_error BUNDLE_EXPIRED ''bundle expiry must be in the future'') else
     bindE (assertId (JStr bundleId) ''bundle id'') (\<lambda>b.
     bindE (assertId (JStr signerKey) ''signer key id'') (\<lambda>k.
     bindE (read_prop state ''wallet'') (\<lambda>w. bindE (read_prop w ''address'') (\<lambda>a. bindE (read_prop w ''chainId'') (\<lambda>c.
     case (a, c) of
       (JStr address, JInt chainId) \<Rightarrow> Inr \<lparr>bh_bundleId = b, bh_keyId = k, bh_issuedAt = now, bh_expiresAt = e, bh_walletAddress = address,
         bh_chainId = chainId, bh_strategy = strategy_text (eo_strategy opts)\<rparr>
     | _ \<Rightarrow> Inl Other_error))))))"

definition seal_state ::
  "vault_platform \<Rightarrow> jsval \<Rightarrow> bundle_header \<Rightarrow> envelope_options \<Rightarrow> portability_exn + jsval \<times> string" where
  "seal_state cr state h opts =
     bindE (canonicalBytes cr (JObj (header_entries h))) (\<lambda>aad.
     bindE (canonicalBytes cr state) (\<lambda>p.
     bindE (as_other (createVaultEnvelope cr p (opts\<lparr>eo_associatedData := Some aad\<rparr>))) (\<lambda>env.
     bindE (unsignedBytes cr h (JObj env)) (\<lambda>u. Inr (JObj env, u)))))"

definition finish_bundle ::
  "vault_platform \<Rightarrow> bundle_header \<Rightarrow> jsval \<Rightarrow> string option \<Rightarrow> portability_exn + migration_bundle" where
  "finish_bundle cr h env signature = (case signature of
       None \<Rightarrow> invalid_bundle ''empty bundle signature''
     | Some s \<Rightarrow> if s = '''' then invalid_bundle ''empty bundle signature'' else
         bindE (assertHex (JStr (''0x'' @ byte_hex s)) ''signature'') (\<lambda>g.
         let b = bundle_header.extend h \<lparr>mg_envelope = env, mg_signature = g\<rparr> in
         bindE (canonicalBytes cr (bundle_js b)) (\<lambda>t.
         if 2000000 < length t then invalid_bundle ''bundle exceeds size limit'' else Inr b)))"

definition exportMigrationBundle ::
  "vault_platform \<Rightarrow> date_parser \<Rightarrow> jsval \<Rightarrow> authorization_port \<Rightarrow> signature_port \<Rightarrow> envelope_options \<Rightarrow> string \<Rightarrow> string \<Rightarrow> string
   \<Rightarrow> (port_call list, portability_exn, migration_bundle) meth" where
  "exportMigrationBundle cr date state auth signer opts bundleId expires now =
     bindS (authorize_action auth ''wallet-export'' ''wallet export was not authorized'') (\<lambda>_.
     bindS (pureS (validateState state)) (\<lambda>st.
     bindS (pureS (export_header date st (sg_keyId signer) opts bundleId expires now)) (\<lambda>h.
     bindS (pureS (seal_state cr st h opts)) (\<lambda>sealed.
     bindS (port (Sign (snd sealed)) (sg_sign signer (snd sealed))) (\<lambda>signature.
     pureS (finish_bundle cr h (fst sealed) signature))))))"

section \<open>Opening\<close>

definition same_binding :: "jsval \<Rightarrow> migration_bundle \<Rightarrow> portability_exn + bool" where
  "same_binding state b = bindE (read_prop state ''wallet'') (\<lambda>w. bindE (read_prop w ''address'') (\<lambda>a. bindE (read_prop w ''chainId'') (\<lambda>c.
     Inr (a = JStr (bh_walletAddress b) \<and> c = JInt (bh_chainId b)))))"

definition decrypt_state :: "vault_platform \<Rightarrow> migration_bundle \<Rightarrow> vault_secret \<Rightarrow> portability_exn + jsval" where
  "decrypt_state cr b secret =
     bindE (as_other (openVaultEnvelope cr (mg_envelope b) secret)) (\<lambda>bytes.
     bindE (canonicalBytes cr (JObj (header_entries b))) (\<lambda>aad.
     bindE (read_prop (mg_envelope b) ''aad'') (\<lambda>a.
     if a \<noteq> JStr (b64 aad) then Inl (Portability_error DECRYPTION_FAILED ''bundle authenticated metadata mismatch'') else
     bindE (case cr_json cr (cr_decode cr bytes) of None \<Rightarrow> Inl Other_error | Some v \<Rightarrow> Inr v) (\<lambda>v.
     bindE (validateState v) (\<lambda>state.
     bindE (same_binding state b) (\<lambda>same.
     if \<not> same then invalid_bundle ''bundle account binding mismatch'' else Inr state))))))"

text \<open>Errors that are no \<open>PortabilityError\<close> are reported as a failed decryption.\<close>

definition open_state :: "vault_platform \<Rightarrow> migration_bundle \<Rightarrow> vault_secret \<Rightarrow> portability_exn + jsval" where
  "open_state cr b secret = (case decrypt_state cr b secret of
       Inl Other_error \<Rightarrow> Inl (Portability_error DECRYPTION_FAILED ''migration bundle could not be decrypted'')
     | r \<Rightarrow> r)"

text \<open>The clock may hold an invalid date, whose time is NaN; the bundle is then not taken for expired.\<close>

definition bundle_expired :: "date_parser \<Rightarrow> migration_bundle \<Rightarrow> js_number \<Rightarrow> bool" where
  "bundle_expired date b now \<longleftrightarrow> (case date (bh_expiresAt b) of None \<Rightarrow> False | Some t \<Rightarrow> js_le (Whole t) now)"

definition openMigrationBundle ::
  "vault_platform \<Rightarrow> date_parser \<Rightarrow> jsval \<Rightarrow> authorization_port \<Rightarrow> signature_port \<Rightarrow> vault_secret \<Rightarrow> js_number
   \<Rightarrow> (port_call list, portability_exn, jsval) meth" where
  "openMigrationBundle cr date v auth signer secret now =
     bindS (pureS (parseBundle date v)) (\<lambda>b.
     if bundle_expired date b now then throwS (Portability_error BUNDLE_EXPIRED ''migration bundle has expired'') else
     bindS (pureS (unsignedBytes cr b (mg_envelope b))) (\<lambda>u.
     bindS (pureS (fromHex (mg_signature b))) (\<lambda>g.
     bindS (port (Verify u g (bh_keyId b)) (sg_verify signer u g (bh_keyId b))) (\<lambda>valid.
     if \<not> valid then throwS (Portability_error SIGNATURE_INVALID ''migration bundle signature is invalid'') else
     bindS (authorize_action auth ''wallet-import'' ''wallet import was not authorized'') (\<lambda>_.
     pureS (open_state cr b secret))))))"

section \<open>Import\<close>

record import_port =
  im_prepare :: "jsval \<Rightarrow> portability_exn + jsval"
  im_commit :: "jsval \<Rightarrow> portability_exn + unit"
  im_verify :: "jsval \<Rightarrow> jsval \<Rightarrow> portability_exn + bool"
  im_rollback :: "jsval \<Rightarrow> portability_exn + unit"

definition import_failed :: portability_exn where
  "import_failed = Portability_error IMPORT_FAILED ''migration import failed; target was rolled back''"

text \<open>The \<open>catch\<close> after the handle is known; without a handle nothing is rolled back.\<close>

definition import_rollback :: "import_port \<Rightarrow> jsval \<Rightarrow> (port_call list, portability_exn, unit) meth" where
  "import_rollback target handle = (if handle = JUndef then throwS import_failed else
     bindS (catchS (port (Rollback handle) (im_rollback target handle))
         (\<lambda>_. throwS (Portability_error ROLLBACK_FAILED ''import failed and rollback failed''))) (\<lambda>_. throwS import_failed))"

definition import_state :: "import_port \<Rightarrow> jsval \<Rightarrow> (port_call list, portability_exn, unit) meth" where
  "import_state target state =
     bindS (catchS (port (Prepare state) (im_prepare target state)) (\<lambda>_. throwS import_failed)) (\<lambda>handle.
     catchS
       (bindS (port (Commit handle) (im_commit target handle)) (\<lambda>_.
        bindS (port (Verify_import handle state) (im_verify target handle state)) (\<lambda>ok.
        if ok then returnS () else throwS Other_error)))
       (\<lambda>_. import_rollback target handle))"

definition importMigrationBundle ::
  "vault_platform \<Rightarrow> date_parser \<Rightarrow> jsval \<Rightarrow> authorization_port \<Rightarrow> signature_port \<Rightarrow> vault_secret \<Rightarrow> js_number \<Rightarrow> import_port
   \<Rightarrow> (port_call list, portability_exn, unit) meth" where
  "importMigrationBundle cr date v auth signer secret now target =
     bindS (openMigrationBundle cr date v auth signer secret now) (import_state target)"

section \<open>Vendor rotation\<close>

record rotation_capability =
  rc_portable :: bool
  rc_reason :: "string option"
  rc_recoveryAvailable :: bool
  rc_account :: string
  rc_chainId :: int
  rc_did :: "string option"

record wallet_identity =
  wi_address :: string
  wi_chainId :: int
  wi_did :: "string option"

record rotation_port =
  ro_inspect :: "portability_exn + rotation_capability"
  ro_install :: "portability_exn + unit"
  ro_verify :: "portability_exn + bool"
  ro_remove :: "portability_exn + unit"
  ro_rollback :: "portability_exn + unit"
  ro_snapshot :: "portability_exn + wallet_identity"

record rotation_result =
  rr_account :: string
  rr_did :: "string option"

definition rotation_failed :: portability_exn where
  "rotation_failed = Portability_error ROTATION_FAILED ''vendor rotation failed; old control remains authoritative''"

definition rotation_rollback :: "rotation_port \<Rightarrow> (port_call list, portability_exn, 'a) meth" where
  "rotation_rollback ro =
     bindS (catchS (port Rollback_next (ro_rollback ro))
         (\<lambda>_. throwS (Portability_error ROLLBACK_FAILED
            ''rotation failed and recovery rollback failed; old control remains authoritative''))) (\<lambda>_. throwS rotation_failed)"

definition rotate_installed :: "rotation_port \<Rightarrow> rotation_capability \<Rightarrow> (port_call list, portability_exn, rotation_result) meth" where
  "rotate_installed ro c =
     bindS (port Verify_next (ro_verify ro)) (\<lambda>ok. if \<not> ok then throwS Other_error else
     bindS (port Take_snapshot (ro_snapshot ro)) (\<lambda>after.
     if wi_address after \<noteq> rc_account c \<or> wi_chainId after \<noteq> rc_chainId c \<or> wi_did after \<noteq> rc_did c then throwS Other_error else
     bindS (port Remove_old (ro_remove ro)) (\<lambda>_.
     returnS \<lparr>rr_account = rc_account c, rr_did = (case rc_did c of Some d \<Rightarrow> if d = '''' then None else Some d | None \<Rightarrow> None)\<rparr>)))"

definition rotateVendor :: "authorization_port \<Rightarrow> rotation_port \<Rightarrow> (port_call list, portability_exn, rotation_result) meth" where
  "rotateVendor auth ro =
     bindS (authorize_action auth ''vendor-rotation'' ''vendor rotation was not authorized'') (\<lambda>_.
     bindS (port Inspect (ro_inspect ro)) (\<lambda>c.
     if \<not> rc_portable c \<or> \<not> rc_recoveryAvailable c
     then throwS (Portability_error ROTATION_UNSUPPORTED
       (case rc_reason c of Some r \<Rightarrow> r | None \<Rightarrow> ''account modules do not support safe rotation''))
     else bindS (catchS (port Install_next (ro_install ro)) (\<lambda>_. throwS rotation_failed)) (\<lambda>_.
       catchS (rotate_installed ro c) (\<lambda>_. rotation_rollback ro))))"

end
