(* ===== verification/CredentialVaultProps.thy ===== *)
theory CredentialVaultProps
  imports CredentialVault CredentialDomainProps "HOL-Library.Multiset"
begin

text \<open>
  What the vault promises: an envelope opens with its secret and with no secret of the other
  kind, a stored credential is read back, a migration either keeps the entry or keeps its
  content, both stores give agreeing answers to every script of operations, and a backup is bound to its
  header and restores the store it was made from.
\<close>

section \<open>Base 64 and properties\<close>

lemma base64url_char_no_space: "base64url_char c \<Longrightarrow> \<not> ascii_space (plain_char c)"
proof -
  have five: "d \<in> {CHR 0x09, CHR 0x0A, CHR 0x0C, CHR 0x0D, CHR 0x20}" if "ascii_space d" for d
  proof -
    from that have "(of_char d :: nat) = of_char (CHR 0x09) \<or> (of_char d :: nat) = of_char (CHR 0x0A) \<or> (of_char d :: nat) = of_char (CHR 0x0C)
        \<or> (of_char d :: nat) = of_char (CHR 0x0D) \<or> (of_char d :: nat) = of_char (CHR 0x20)"
      by (simp add: ascii_space_def)
    then show ?thesis by (simp only: of_char_eq_iff insert_iff empty_iff) blast
  qed
  assume "base64url_char c"
  moreover have "\<not> base64url_char d" if "d \<in> {CHR 0x09, CHR 0x0A, CHR 0x0C, CHR 0x0D, CHR 0x20}" for d
    using that by (elim insertE) (simp_all add: base64url_char_def char_classes)
  moreover have "plain_char c = c \<or> plain_char c = CHR ''+'' \<or> plain_char c = CHR ''/''" by (simp add: plain_char_def)
  moreover have "\<not> ascii_space (CHR ''+'')" "\<not> ascii_space (CHR ''/'')" by (simp_all add: ascii_space_def)
  ultimately show "\<not> ascii_space (plain_char c)" using five by metis
qed

lemma unb64_b64 [simp]: "unb64 (JStr (b64 x)) = Inr x"
proof (cases "x = []")
  case True
  then show ?thesis by (simp add: b64_def base64Url_def unb64_def atob_def unpad_def)
next
  case False
  let ?t = "base64Url x" and ?p = "replicate ((4 - length (base64Url x) mod 4) mod 4) (CHR ''='')"
  have ok: "list_all base64url_char ?t" "atob (map plain_char ?t @ ?p) = Inr x"
    using base64url_inverse [OF False] by (auto simp: fromBase64Url_def split: if_splits)
  have "filter (\<lambda>c. \<not> ascii_space c) (map plain_char ?t @ ?p) = map plain_char ?t @ ?p"
    using ok(1) base64url_char_no_space by (auto simp: list_all_iff filter_id_conv ascii_space_def)
  with ok(2) show ?thesis by (simp add: unb64_def b64_def)
qed

lemma b64_inject [simp]: "b64 x = b64 y \<longleftrightarrow> x = y"
  by (metis unb64_b64 sum.inject(2))

lemma b64_empty [simp]: "b64 x = '''' \<longleftrightarrow> x = ''''"
proof -
  have "b64 '''' = ''''" by (simp add: b64_def base64Url_def)
  then show ?thesis using b64_inject [of x "''''"] by simp
qed

lemma jfield_omap_set [simp]: "jfield (omap_set k v e) k' = (if k = k' then v else jfield e k')"
  by (induction k v e rule: omap_set.induct) auto

lemma jfield_append: "jfield (a @ b) k = (if own a k then jfield a k else jfield b k)"
  by (induction a) (auto simp: jfield_def own_def)

lemma jfield_not_own: "\<not> own e k \<Longrightarrow> jfield e k = JUndef"
  by (force simp: own_def jfield_def split: option.splits dest: map_of_SomeD)

lemma entryMetadata_set_envelope [simp]: "entryMetadata (omap_set ''envelope'' v e) = entryMetadata e"
  by (simp add: entryMetadata_def)

section \<open>What the platform promises\<close>

text \<open>
  AES-GCM as a function of key, vector and additional data: decryption accepts exactly the
  ciphertext that encryption makes, tag included.
\<close>

definition aead_ok :: "vault_platform \<Rightarrow> bool" where
  "aead_ok cr \<longleftrightarrow> (\<forall>k iv a c p. cr_decrypt cr k iv a c = Some p \<longleftrightarrow> c = cr_encrypt cr k iv a p)"

lemma aead_decrypt: "aead_ok cr \<Longrightarrow> cr_decrypt cr k iv a c = Some p \<longleftrightarrow> c = cr_encrypt cr k iv a p"
  by (simp add: aead_ok_def)

lemma vault_decrypt_Inr:
  assumes "vault_decrypt cr k c iv a = Inr p"
  obtains i d where "unb64 iv = Inr i" "unb64 c = Inr d" "cr_decrypt cr k i (aad_bytes a) d = Some p"
  using assms by (auto simp: vault_decrypt_def result_simps split: option.splits)

lemma vault_decrypt_encrypt:
  assumes "aead_ok cr" "aad_bytes a' = aad_bytes a"
  shows "vault_decrypt cr k (JStr (vault_encrypt cr k p iv a)) (JStr (b64 iv)) a' = Inr p"
proof -
  have "cr_decrypt cr k iv (aad_bytes a) (cr_encrypt cr k iv (aad_bytes a) p) = Some p"
    using assms by (simp add: aead_decrypt)
  with assms(2) show ?thesis by (simp add: vault_decrypt_def vault_encrypt_def)
qed

text \<open>A concrete platform: the ciphertext carries key, vector and additional data in front.\<close>

definition ex_header :: "string \<Rightarrow> string \<Rightarrow> string \<Rightarrow> string" where
  "ex_header k iv a = show_nat (length k) @ CHR ''|'' # show_nat (length iv) @ CHR ''|'' # show_nat (length a) @ CHR ''|'' # k @ iv @ a"

definition ex_platform :: vault_platform where
  "ex_platform = \<lparr>cr_available = True, cr_random = (\<lambda>i n. replicate n (CHR ''r'')),
     cr_hkdf = (\<lambda>s salt info. take 32 s), cr_pbkdf2 = (\<lambda>p salt n. if n = 0 then None else Some (take 32 (p @ replicate 32 (CHR ''k'')))),
     cr_encrypt = (\<lambda>k iv a p. ex_header k iv a @ p),
     cr_decrypt = (\<lambda>k iv a c. if take (length (ex_header k iv a)) c = ex_header k iv a then Some (drop (length (ex_header k iv a)) c) else None),
     cr_utf8 = (\<lambda>s. s), cr_decode = (\<lambda>s. s), cr_json = (\<lambda>s. if s = ''true'' then Some (JBool True) else None), cr_fraction = ''0.5'',
     cr_date = (\<lambda>s. s \<noteq> ''''), cr_now = ''2026-01-01T00:00:00.000Z''\<rparr>"

lemma ex_platform_simps [simp]:
  "cr_available ex_platform" "cr_random ex_platform i n = replicate n (CHR ''r'')"
  "cr_pbkdf2 ex_platform p salt m = (if m = 0 then None else Some (take 32 (p @ replicate 32 (CHR ''k''))))"
  "cr_hkdf ex_platform p salt info = take 32 p"
  "cr_encrypt ex_platform k iv a p = ex_header k iv a @ p"
  "cr_utf8 ex_platform s = s" "cr_decode ex_platform s = s" "cr_date ex_platform s \<longleftrightarrow> s \<noteq> ''''"
  "cr_json ex_platform s = (if s = ''true'' then Some (JBool True) else None)" "cr_fraction ex_platform = ''0.5''"
  by (simp_all add: ex_platform_def)

lemma ex_aead_ok: "aead_ok ex_platform"
proof -
  have "(if take (length h) c = h then Some (drop (length h) c) else None) = Some p \<longleftrightarrow> c = h @ p" for h c p :: string
    by (metis append_eq_conv_conj append_take_drop_id option.distinct(1) option.sel)
  then show ?thesis by (simp add: aead_ok_def ex_platform_def)
qed

section \<open>Envelopes\<close>

text \<open>The properties of an envelope that \<open>createVaultEnvelope\<close> made, whatever else it carries.\<close>

definition made_envelope :: "vault_platform \<Rightarrow> string \<Rightarrow> envelope_options \<Rightarrow> vault_secret \<Rightarrow> (string \<times> jsval) list \<Rightarrow> bool" where
  "made_envelope cr p opts secret e \<longleftrightarrow> (\<exists>salt it wk dek wiv piv kdf.
     option_secret opts = Some secret \<and> option_iterations opts = Inr it \<and> length dek = 32
     \<and> deriveWrappingKey cr (eo_strategy opts = Prf) secret salt (case it of None \<Rightarrow> 0 | Some n \<Rightarrow> n) = Inr wk
     \<and> jfield e ''version'' = JInt 1 \<and> jfield e ''algorithm'' = JStr ''AES-GCM-256''
     \<and> jfield e ''strategy'' = JStr (strategy_text (eo_strategy opts)) \<and> jfield e ''kdf'' = JObj kdf
     \<and> jfield kdf ''salt'' = JStr (b64 salt) \<and> jfield kdf ''iterations'' = (case it of None \<Rightarrow> JUndef | Some n \<Rightarrow> JInt n)
     \<and> jfield e ''wrappedDek'' = JObj [(''iv'', JStr (b64 wiv)), (''ciphertext'', JStr (vault_encrypt cr wk dek wiv None))]
     \<and> jfield e ''payload'' = JObj [(''iv'', JStr (b64 piv)), (''ciphertext'', JStr (vault_encrypt cr dek p piv (eo_associatedData opts)))]
     \<and> jfield e ''aad'' = (case eo_associatedData opts of None \<Rightarrow> JUndef | Some d \<Rightarrow> JStr (b64 d)))"

lemma createVaultEnvelope_Inr:
  assumes "createVaultEnvelope cr p opts = Inr e"
  obtains secret salt it wk dek wiv piv where "option_secret opts = Some secret" "option_iterations opts = Inr it" "length dek = 32"
    "deriveWrappingKey cr (eo_strategy opts = Prf) secret salt (case it of None \<Rightarrow> 0 | Some n \<Rightarrow> n) = Inr wk"
    "e = envelope_js (eo_strategy opts) salt it wiv (vault_encrypt cr wk dek wiv None)
       piv (vault_encrypt cr dek p piv (eo_associatedData opts)) (eo_associatedData opts)"
proof -
  have r: "random cr f i n = Inr b \<Longrightarrow> length b = n" for f i n b
    by (auto simp: random_def result_simps split: if_splits)
  have k: "importAesKey b = Inr d \<Longrightarrow> d = b" for b d by (simp add: importAesKey_def split: if_splits)
  show ?thesis
    using assms unfolding createVaultEnvelope_def
    by (auto simp: result_simps split: option.splits[where 'a=vault_secret] dest!: r k intro: that)
qed

lemma createVaultEnvelope_made:
  assumes "createVaultEnvelope cr p opts = Inr e"
  obtains secret where "option_secret opts = Some secret" "made_envelope cr p opts secret e"
    "made_envelope cr p opts secret (e @ extra) \<or> eo_associatedData opts = None"
proof -
  from assms show ?thesis
  proof (rule createVaultEnvelope_Inr)
    fix secret salt it wk dek wiv piv
    assume h: "option_secret opts = Some secret" "option_iterations opts = Inr it" "length dek = 32"
      "deriveWrappingKey cr (eo_strategy opts = Prf) secret salt (case it of None \<Rightarrow> 0 | Some n \<Rightarrow> n) = Inr wk"
      and e: "e = envelope_js (eo_strategy opts) salt it wiv (vault_encrypt cr wk dek wiv None)
       piv (vault_encrypt cr dek p piv (eo_associatedData opts)) (eo_associatedData opts)"
    have m: "made_envelope cr p opts secret (e @ x)" if "x = [] \<or> eo_associatedData opts \<noteq> None" for x
      unfolding made_envelope_def
      by (rule exI [of _ salt], rule exI [of _ it], rule exI [of _ wk], rule exI [of _ dek], rule exI [of _ wiv], rule exI [of _ piv])
        (use h e that in \<open>auto simp: envelope_js_def jfield_append split: option.splits\<close>)
    show ?thesis using that [OF h(1)] m [of "[]"] m [of extra] by fastforce
  qed
qed

lemma boundedIterations_idem: "boundedIterations v = Inr n \<Longrightarrow> boundedIterations (JInt n) = Inr n"
  by (auto simp: boundedIterations_def safe_integer_def split: jsval.splits if_splits)

lemma open_made_envelope:
  assumes "aead_ok cr" "made_envelope cr p opts secret e"
  shows "openVaultEnvelope cr (JObj e) secret = Inr p"
proof -
  obtain salt it wk dek wiv piv kdf where m: "option_iterations opts = Inr it" "length dek = 32"
      "deriveWrappingKey cr (eo_strategy opts = Prf) secret salt (case it of None \<Rightarrow> 0 | Some n \<Rightarrow> n) = Inr wk"
    and f: "jfield e ''version'' = JInt 1" "jfield e ''algorithm'' = JStr ''AES-GCM-256''"
      "jfield e ''strategy'' = JStr (strategy_text (eo_strategy opts))" "jfield e ''kdf'' = JObj kdf"
      "jfield kdf ''salt'' = JStr (b64 salt)" "jfield kdf ''iterations'' = (case it of None \<Rightarrow> JUndef | Some n \<Rightarrow> JInt n)"
      "jfield e ''wrappedDek'' = JObj [(''iv'', JStr (b64 wiv)), (''ciphertext'', JStr (vault_encrypt cr wk dek wiv None))]"
      "jfield e ''payload'' = JObj [(''iv'', JStr (b64 piv)), (''ciphertext'', JStr (vault_encrypt cr dek p piv (eo_associatedData opts)))]"
      "jfield e ''aad'' = (case eo_associatedData opts of None \<Rightarrow> JUndef | Some d \<Rightarrow> JStr (b64 d))"
    using assms(2) unfolding made_envelope_def by blast
  let ?it = "case it of None \<Rightarrow> 0 | Some n \<Rightarrow> n"
  have it: "(if strategy_text (eo_strategy opts) = ''passphrase'' then boundedIterations (jfield kdf ''iterations'') else Inr 0) = Inr ?it"
    using m(1) boundedIterations_idem
    by (cases "eo_strategy opts") (auto simp: option_iterations_def strategy_text_def f(6) result_simps)
  have g: "(strategy_text (eo_strategy opts) = ''prf'') = (eo_strategy opts = Prf)"
    by (cases "eo_strategy opts") (simp_all add: strategy_text_def)
  have aad: "\<exists>a. (if js_truthy (jfield e ''aad'') then bindE (unb64 (jfield e ''aad'')) (\<lambda>d. Inr (Some d)) else Inr None) = Inr a
      \<and> aad_bytes a = aad_bytes (eo_associatedData opts)"
    by (cases "eo_associatedData opts") (auto simp: f(9) js_truthy_def aad_bytes_def)
  then obtain a where a: "(if js_truthy (jfield e ''aad'') then bindE (unb64 (jfield e ''aad'')) (\<lambda>d. Inr (Some d)) else Inr None) = Inr a"
      "aad_bytes a = aad_bytes (eo_associatedData opts)" by blast
  have known: "supported_envelope (JObj e) = Inr True" by (simp add: supported_envelope_def vprop_def f)
  have dek: "vault_decrypt cr wk (JStr (vault_encrypt cr wk dek wiv None)) (JStr (b64 wiv)) None = Inr dek"
    by (rule vault_decrypt_encrypt [OF assms(1) refl])
  note payload = vault_decrypt_encrypt [OF assms(1) a(2), of dek p piv]
  have props: "vprop (JObj e) k = Inr (jfield e k)" for e k by (simp add: vprop_def)
  show ?thesis
  proof (cases "eo_strategy opts")
    case Prf
    with it have "?it = 0" by (simp add: strategy_text_def)
    with m(3) have wk: "deriveWrappingKey cr True secret salt 0 = Inr wk" using Prf by simp
    show ?thesis unfolding openVaultEnvelope_def known
      by (simp add: props f(3,4,5,7,8) Prf strategy_text_def wk dek m(2) importAesKey_def a(1) payload)
  next
    case Passphrase
    with it have it': "boundedIterations (jfield kdf ''iterations'') = Inr ?it" by (simp add: strategy_text_def)
    have wk: "deriveWrappingKey cr False secret salt ?it = Inr wk" using m(3) Passphrase by simp
    show ?thesis unfolding openVaultEnvelope_def known
      by (simp add: props f(3,4,5,7,8) Passphrase strategy_text_def it' wk dek m(2) importAesKey_def a(1) payload)
  qed
qed

text \<open>
  An envelope that createVaultEnvelope made opens with the secret of its options and gives
  back the plaintext, for both strategies and any associated data.
\<close>

theorem envelope_round_trip:
  assumes "aead_ok cr" "createVaultEnvelope cr p opts = Inr e" "option_secret opts = Some secret"
  shows "openVaultEnvelope cr (JObj e) secret = Inr p"
  using assms(2) by (rule createVaultEnvelope_made [where extra = "[]"]) (use assms open_made_envelope in auto)

definition ex_options :: envelope_options where
  "ex_options = \<lparr>eo_strategy = Passphrase, eo_prfOutput = None, eo_passphrase = Some ''correct horse'', eo_iterations = None,
     eo_randomBytes = None, eo_associatedData = None\<rparr>"

definition ex_prf_options :: envelope_options where
  "ex_prf_options = \<lparr>eo_strategy = Prf, eo_prfOutput = Some (replicate 32 (CHR ''s'')), eo_passphrase = None, eo_iterations = None,
     eo_randomBytes = None, eo_associatedData = None\<rparr>"

lemma ex_create: "\<exists>e. createVaultEnvelope ex_platform p (ex_options\<lparr>eo_associatedData := a\<rparr>) = Inr e"
  by (simp add: createVaultEnvelope_def ex_options_def option_secret_def option_iterations_def boundedIterations_def
      safe_integer_def random_def deriveWrappingKey_def importAesKey_def)

lemma ex_prf_create: "\<exists>e. createVaultEnvelope ex_platform p (ex_prf_options\<lparr>eo_associatedData := a\<rparr>) = Inr e"
  by (simp add: createVaultEnvelope_def ex_prf_options_def option_secret_def option_iterations_def
      random_def deriveWrappingKey_def importAesKey_def)

lemma ex_secrets: "option_secret ex_options = Some (Secret_text ''correct horse'')"
  "option_secret ex_prf_options = Some (Secret_bytes (replicate 32 (CHR ''s'')))"
  by (simp_all add: ex_options_def ex_prf_options_def option_secret_def)

theorem envelope_round_trip_witness:
  "\<exists>e. createVaultEnvelope ex_platform ''secret'' (ex_prf_options\<lparr>eo_associatedData := None\<rparr>) = Inr e
     \<and> openVaultEnvelope ex_platform (JObj e) (Secret_bytes (replicate 32 (CHR ''s''))) = Inr ''secret''"
proof -
  obtain e where e: "createVaultEnvelope ex_platform ''secret'' (ex_prf_options\<lparr>eo_associatedData := None\<rparr>) = Inr e"
    using ex_prf_create by blast
  have "openVaultEnvelope ex_platform (JObj e) (Secret_bytes (replicate 32 (CHR ''s''))) = Inr ''secret''"
    by (rule envelope_round_trip [OF ex_aead_ok e]) (simp add: option_secret_def ex_prf_options_def)
  with e show ?thesis by blast
qed

text \<open>The strategies cannot be exchanged: bytes never open a passphrase envelope, nor the reverse.\<close>

text \<open>
  An envelope of the PRF strategy opens only with at least 32 bytes, any other envelope
  only with a passphrase of at least 12 characters: there is no silent downgrade.
\<close>

theorem strategies_not_interchangeable:
  assumes "openVaultEnvelope cr (JObj e) secret = Inr p"
  shows "(jfield e ''strategy'' = JStr ''prf'' \<longrightarrow> (\<exists>b. secret = Secret_bytes b \<and> 32 \<le> length b))
    \<and> (jfield e ''strategy'' \<noteq> JStr ''prf'' \<longrightarrow> (\<exists>t. secret = Secret_text t \<and> 12 \<le> length t))"
proof -
  from assms obtain salt it wk where "deriveWrappingKey cr (jfield e ''strategy'' = JStr ''prf'') secret salt it = Inr wk"
    unfolding openVaultEnvelope_def by (auto simp: result_simps vprop_def split: if_splits)
  then show ?thesis
    by (cases secret) (auto simp: deriveWrappingKey_def split: if_splits)
qed

theorem strategies_not_interchangeable_witness:
  "\<exists>e t. jfield e ''strategy'' \<noteq> JStr ''prf'' \<and> openVaultEnvelope ex_platform (JObj e) (Secret_text t) = Inr ''secret'' \<and> 12 \<le> length t"
proof -
  obtain e where e: "createVaultEnvelope ex_platform ''secret'' (ex_options\<lparr>eo_associatedData := None\<rparr>) = Inr e"
    using ex_create by blast
  then have op: "openVaultEnvelope ex_platform (JObj e) (Secret_text ''correct horse'') = Inr ''secret''"
    by (intro open_made_envelope [OF ex_aead_ok]; elim createVaultEnvelope_made [where extra = "[]"])
      (auto simp: ex_options_def option_secret_def)
  from e have "jfield e ''strategy'' \<noteq> JStr ''prf''"
    by (rule createVaultEnvelope_Inr) (simp add: envelope_js_def strategy_text_def ex_options_def)
  with strategies_not_interchangeable [OF op] op show ?thesis by blast
qed

section \<open>One entry\<close>

lemma option_secret_aad [simp]: "option_secret (opts\<lparr>eo_associatedData := a\<rparr>) = option_secret opts"
  by (simp add: option_secret_def split: vault_strategy.split option.split)

lemma open_entry_made:
  assumes "aead_ok cr" "made_envelope cr p (opts\<lparr>eo_associatedData := Some (metadataBytes cr md)\<rparr>) secret env"
    "jfield e ''envelope'' = JObj env"
  shows "open_entry cr e secret = (if metadataBytes cr (entryMetadata e) = metadataBytes cr md then Inr p
     else Inl (Vault_error ''metadata authentication failed''))"
proof -
  from assms(2) have "jfield env ''aad'' = JStr (b64 (metadataBytes cr md))" by (auto simp: made_envelope_def)
  then have "metadataMatches cr (entryMetadata e) (JObj env) = Inr (metadataBytes cr (entryMetadata e) = metadataBytes cr md)"
    by (auto simp: metadataMatches_def vprop_def)
  with assms(3) open_made_envelope [OF assms(1,2)] show ?thesis by (simp add: open_entry_def)
qed

lemma new_entry_Inr:
  assumes "new_entry cr md c opts = Inr e"
  obtains env secret where "option_secret opts = Some secret" "e = omap_set ''envelope'' (JObj env) (metadata_js md)"
    "made_envelope cr (credentialBytes cr c) (opts\<lparr>eo_associatedData := Some (metadataBytes cr (metadata_js md))\<rparr>) secret env"
proof -
  from assms obtain env where c: "createVaultEnvelope cr (credentialBytes cr c) (opts\<lparr>eo_associatedData := Some (metadataBytes cr (metadata_js md))\<rparr>) = Inr env"
    and e: "e = omap_set ''envelope'' (JObj env) (metadata_js md)"
    by (auto simp: new_entry_def result_simps)
  from c show ?thesis by (rule createVaultEnvelope_made [where extra = "[]"]) (use e that in auto)
qed

lemma reencrypted_entry_Inr:
  assumes "aead_ok cr" "reencrypted_entry cr e cur next = Inr e'"
  obtains p ns env where "open_entry cr e cur = Inr p" "option_secret next = Some ns" "open_entry cr e' ns = Inr p"
    "e' = omap_set ''envelope'' (JObj env) e"
proof -
  from assms(2) obtain p env where p: "open_entry cr e cur = Inr p"
    and c: "createVaultEnvelope cr p (next\<lparr>eo_associatedData := Some (metadataBytes cr (entryMetadata e))\<rparr>) = Inr env"
    and e: "e' = omap_set ''envelope'' (JObj env) e"
    by (auto simp: reencrypted_entry_def result_simps)
  from c show ?thesis
  proof (rule createVaultEnvelope_made [where extra = "[]"])
    fix ns assume ns: "option_secret (next\<lparr>eo_associatedData := Some (metadataBytes cr (entryMetadata e))\<rparr>) = Some ns"
      and made: "made_envelope cr p (next\<lparr>eo_associatedData := Some (metadataBytes cr (entryMetadata e))\<rparr>) ns env"
    from open_entry_made [OF assms(1) made, of e'] have "open_entry cr e' ns = Inr p" by (simp add: e)
    with that p ns e show ?thesis by simp
  qed
qed

lemma put_get:
  assumes "aead_ok cr" "mem_put cr md c opts s = (Inr (), t)" "option_secret opts = Some secret"
    "cr_json cr (cr_decode cr (credentialBytes cr c)) = Some c"
  shows "fst (mem_get cr (metadata_text md ''id'') secret t) =
    (if metadataBytes cr (entryMetadata (metadata_js md)) = metadataBytes cr (metadata_js md)
     then Inr (entryMetadata (metadata_js md), c) else Inl (Recoverable ''Vault entry is corrupt or cannot be opened''))"
proof -
  from assms(2) obtain e where ne: "new_entry cr md c opts = Inr e" and t: "t = omap_set (metadata_text md ''id'') e s"
    by (auto simp: mem_put_def split: if_splits sum.splits)
  from ne show ?thesis
  proof (rule new_entry_Inr)
    fix env sec
    assume sec: "option_secret opts = Some sec" and e: "e = omap_set ''envelope'' (JObj env) (metadata_js md)"
      and made: "made_envelope cr (credentialBytes cr c) (opts\<lparr>eo_associatedData := Some (metadataBytes cr (metadata_js md))\<rparr>) sec env"
    have "sec = secret" using sec assms(3) by simp
    moreover have "jfield e ''envelope'' = JObj env" by (simp add: e)
    ultimately have "open_entry cr e secret = (if metadataBytes cr (entryMetadata (metadata_js md)) = metadataBytes cr (metadata_js md)
        then Inr (credentialBytes cr c) else Inl (Vault_error ''metadata authentication failed''))"
      using open_entry_made [OF assms(1) made] by (simp add: e)
    moreover have "entryMetadata e = entryMetadata (metadata_js md)" by (simp add: e)
    ultimately show ?thesis
      using assms(4) by (simp add: mem_get_def bindS_def mem_find_def t read_entry_def parseCredential_def split: if_splits)
  qed
qed

text \<open>
  C30: After a successful put, get with the same secret returns the metadata and the
  credential when the metadata's JSON text is the canonical one, and refuses the entry as
  corrupt in every other case.
\<close>

theorem put_then_get:
  assumes "aead_ok cr" "mem_put cr md c opts s = (Inr (), t)" "option_secret opts = Some secret"
    "cr_json cr (cr_decode cr (credentialBytes cr c)) = Some c"
  shows "fst (mem_get cr (metadata_text md ''id'') secret t) =
    (if metadataBytes cr (entryMetadata (metadata_js md)) = metadataBytes cr (metadata_js md)
     then Inr (entryMetadata (metadata_js md), c) else Inl (Recoverable ''Vault entry is corrupt or cannot be opened''))"
  by (rule put_get [OF assms])

definition ex_metadata :: vault_metadata where
  "ex_metadata = [(''id'', Some ''c1''), (''credentialType'', Some ''Diploma''), (''issuer'', Some ''did:web:u'')]"

lemma ex_put: "\<exists>t. mem_put ex_platform md c ex_options s = (Inr (), t)"
  if "metadata_text md ''id'' \<noteq> ''''" "metadata_text md ''credentialType'' \<noteq> ''''" "metadata_text md ''issuer'' \<noteq> ''''"
proof -
  obtain e where "createVaultEnvelope ex_platform (credentialBytes ex_platform c)
      (ex_options\<lparr>eo_associatedData := Some (metadataBytes ex_platform (metadata_js md))\<rparr>) = Inr e" using ex_create by blast
  with that show ?thesis by (simp add: mem_put_def new_entry_def)
qed

lemma ex_credential: "cr_json ex_platform (cr_decode ex_platform (credentialBytes ex_platform (JBool True))) = Some (JBool True)"
  by (simp add: credentialBytes_def encode_json_def)

theorem put_then_get_witness:
  "\<exists>t. mem_put ex_platform ex_metadata (JBool True) ex_options [] = (Inr (), t)
     \<and> fst (mem_get ex_platform ''c1'' (Secret_text ''correct horse'') t) = Inr (metadata_js ex_metadata, JBool True)"
proof -
  obtain t where t: "mem_put ex_platform ex_metadata (JBool True) ex_options [] = (Inr (), t)"
    using ex_put [of ex_metadata] by (auto simp: ex_metadata_def metadata_text_def)
  have m: "entryMetadata (metadata_js ex_metadata) = metadata_js ex_metadata" "metadata_text ex_metadata ''id'' = ''c1''"
    by (simp_all add: entryMetadata_def ex_metadata_def metadata_js_def js_truthy_def metadata_text_def)
  show ?thesis using put_then_get [OF ex_aead_ok t ex_secrets(1) ex_credential] t m by simp
qed

text \<open>The order in which the caller wrote the properties of the metadata decides.\<close>

definition reordered_metadata :: vault_metadata where
  "reordered_metadata = [(''issuer'', Some ''did:web:u''), (''id'', Some ''c1''), (''credentialType'', Some ''Diploma'')]"

text \<open>
  The order of the properties decides: a put whose metadata lists the issuer first
  succeeds, but the entry can never be read again.
\<close>

theorem reordered_metadata_cannot_be_read:
  "\<exists>t. mem_put ex_platform reordered_metadata (JBool True) ex_options [] = (Inr (), t)
     \<and> fst (mem_get ex_platform ''c1'' (Secret_text ''correct horse'') t) = Inl (Recoverable ''Vault entry is corrupt or cannot be opened'')"
proof -
  let ?md = reordered_metadata
  obtain t where t: "mem_put ex_platform ?md (JBool True) ex_options [] = (Inr (), t)"
    using ex_put [of ?md] by (auto simp: reordered_metadata_def metadata_text_def)
  have differs: "metadataBytes ex_platform (entryMetadata (metadata_js ?md)) \<noteq> metadataBytes ex_platform (metadata_js ?md)"
    by (simp add: metadataBytes_def encode_json_def entryMetadata_def reordered_metadata_def metadata_js_def js_truthy_def
        map_filter_def json_string_def json_char_def Let_def)
  have "metadata_text ?md ''id'' = ''c1''" by (simp add: reordered_metadata_def metadata_text_def)
  with put_get [OF ex_aead_ok t ex_secrets(1) ex_credential] t differs show ?thesis by simp
qed

section \<open>Migration\<close>

text \<open>
  A migration either re-encrypts the entry so that the new secret reads exactly what the
  old one read, leaving every other entry alone, or fails as recoverable and leaves the store
  as it was.
\<close>

theorem migrate_outcome:
  assumes "aead_ok cr" "mem_migrate cr ident cur next s = (r, t)"
  shows "(r = Inr () \<and> (\<exists>e e' ns. map_of s ident = Some e \<and> option_secret next = Some ns \<and> t = omap_set ident e' s
        \<and> entryMetadata e' = entryMetadata e \<and> read_entry cr e' ns = read_entry cr e cur))
     \<or> (\<exists>m. r = Inl (Recoverable m)) \<and> t = s"
proof (cases "map_of s ident")
  case None
  then show ?thesis using assms(2) by (auto simp: mem_migrate_def bindS_def mem_find_def not_found_def)
next
  case (Some e)
  show ?thesis
  proof (cases "reencrypted_entry cr e cur next")
    case (Inl x)
    with Some show ?thesis
      using assms(2) by (auto simp: mem_migrate_def bindS_def mem_find_def mem_migrate_finish_def migration_failed_def)
  next
    case (Inr e')
    obtain p ns env where n: "open_entry cr e cur = Inr p" "option_secret next = Some ns" "open_entry cr e' ns = Inr p"
      "e' = omap_set ''envelope'' (JObj env) e" using reencrypted_entry_Inr [OF assms(1) Inr] .
    then have "entryMetadata e' = entryMetadata e" "read_entry cr e' ns = read_entry cr e cur"
      by (simp_all add: read_entry_def)
    with Some Inr n show ?thesis
      using assms(2) by (auto simp: mem_migrate_def bindS_def mem_find_def mem_migrate_finish_def)
  qed
qed

lemma ex_stored: "\<exists>e. new_entry ex_platform ex_metadata (JBool True) ex_options = Inr e \<and>
   mem_put ex_platform ex_metadata (JBool True) ex_options [] = (Inr (), [(''c1'', e)])"
proof -
  obtain t where "mem_put ex_platform ex_metadata (JBool True) ex_options [] = (Inr (), t)"
    using ex_put [of ex_metadata] by (auto simp: ex_metadata_def metadata_text_def)
  moreover have "metadata_text ex_metadata ''id'' = ''c1''" by (simp add: ex_metadata_def metadata_text_def)
  ultimately show ?thesis by (auto simp: mem_put_def split: if_splits sum.splits)
qed

lemma ex_reencrypted:
  assumes "new_entry ex_platform ex_metadata (JBool True) ex_options = Inr e"
  obtains e' where "reencrypted_entry ex_platform e (Secret_text ''correct horse'') ex_prf_options = Inr e'"
proof -
  from assms show ?thesis
  proof (rule new_entry_Inr)
    fix env sec
    assume e: "e = omap_set ''envelope'' (JObj env) (metadata_js ex_metadata)" and sec: "option_secret ex_options = Some sec"
      and made: "made_envelope ex_platform (credentialBytes ex_platform (JBool True)) (ex_options\<lparr>eo_associatedData := Some (metadataBytes ex_platform (metadata_js ex_metadata))\<rparr>) sec env"
    have m: "entryMetadata (metadata_js ex_metadata) = metadata_js ex_metadata"
      by (simp add: entryMetadata_def ex_metadata_def metadata_js_def js_truthy_def)
    have "open_entry ex_platform e (Secret_text ''correct horse'') = Inr (credentialBytes ex_platform (JBool True))"
      using open_entry_made [OF ex_aead_ok made, of e] sec by (simp add: e m ex_secrets)
    moreover obtain v where "createVaultEnvelope ex_platform (credentialBytes ex_platform (JBool True))
        (ex_prf_options\<lparr>eo_associatedData := Some (metadataBytes ex_platform (entryMetadata e))\<rparr>) = Inr v"
      using ex_prf_create by blast
    ultimately have "reencrypted_entry ex_platform e (Secret_text ''correct horse'') ex_prf_options = Inr (omap_set ''envelope'' (JObj v) e)"
      by (simp add: reencrypted_entry_def)
    then show ?thesis by (rule that)
  qed
qed

theorem migrate_outcome_witness:
  "\<exists>s e e' ns. map_of s ''c1'' = Some e
     \<and> mem_migrate ex_platform ''c1'' (Secret_text ''correct horse'') ex_prf_options s = (Inr (), omap_set ''c1'' e' s)
     \<and> read_entry ex_platform e' ns = read_entry ex_platform e (Secret_text ''correct horse'')"
proof -
  obtain e where e: "new_entry ex_platform ex_metadata (JBool True) ex_options = Inr e" using ex_stored by blast
  obtain e' where r: "reencrypted_entry ex_platform e (Secret_text ''correct horse'') ex_prf_options = Inr e'"
    using ex_reencrypted [OF e] .
  let ?s = "[(''c1'', e)]"
  have m: "mem_migrate ex_platform ''c1'' (Secret_text ''correct horse'') ex_prf_options ?s = (Inr (), omap_set ''c1'' e' ?s)"
    by (simp add: mem_migrate_def bindS_def mem_find_def mem_migrate_finish_def r)
  from migrate_outcome [OF ex_aead_ok m] obtain e2 ns where
    "omap_set ''c1'' e' ?s = omap_set ''c1'' e2 ?s" "read_entry ex_platform e2 ns = read_entry ex_platform e (Secret_text ''correct horse'')"
    by auto
  then have "read_entry ex_platform e' ns = read_entry ex_platform e (Secret_text ''correct horse'')" by simp
  with m show ?thesis by (intro exI [of _ ?s]) auto
qed

text \<open>The two parts of a migration with a deletion between them.\<close>

text \<open>
  A deletion that runs while a migration awaits its cryptography is undone: the
  migration's last write stores the deleted entry again.
\<close>

theorem migration_restores_deleted_entry:
  assumes "mem_find ident s = (Inr e, s)" "reencrypted_entry cr e cur next = Inr e'"
  shows "map_of (snd (mem_delete ident s)) ident = None
    \<and> mem_migrate_finish cr ident cur next e (snd (mem_delete ident s)) = (Inr (), omap_set ident e' (omap_delete ident s))
    \<and> map_of (omap_set ident e' (omap_delete ident s)) ident = Some e'"
  using assms by (simp add: mem_delete_def mem_migrate_finish_def)

theorem migration_restores_deleted_entry_witness:
  "\<exists>e e'. map_of (snd (mem_delete ''c1'' [(''c1'', e)])) ''c1'' = None
     \<and> mem_migrate_finish ex_platform ''c1'' (Secret_text ''correct horse'') ex_prf_options e (snd (mem_delete ''c1'' [(''c1'', e)])) = (Inr (), [(''c1'', e')])"
proof -
  obtain e where e: "new_entry ex_platform ex_metadata (JBool True) ex_options = Inr e" using ex_stored by blast
  obtain e' where r: "reencrypted_entry ex_platform e (Secret_text ''correct horse'') ex_prf_options = Inr e'"
    using ex_reencrypted [OF e] .
  have f: "mem_find ''c1'' [(''c1'', e)] = (Inr e, [(''c1'', e)])" by (simp add: mem_find_def)
  have "omap_set ''c1'' e' (omap_delete ''c1'' [(''c1'', e)]) = [(''c1'', e')]" by (simp add: omap_delete_def)
  with migration_restores_deleted_entry [OF f r] show ?thesis by auto
qed

section \<open>The two stores agree\<close>

text \<open>A script of operations, run on either store; every transaction of the database commits.\<close>

datatype vault_op =
    Put vault_metadata jsval envelope_options
  | Get string vault_secret
  | Delete string
  | Migrate string vault_secret envelope_options
  | Restore "(string \<times> jsval) list" vault_secret "int option"
  | List_entries
  | Export envelope_options int "string option"

datatype vault_answer = Completed | Found vault_entry jsval | Listed "vault_entry list" | Exported "(string \<times> jsval) list" | Failed vault_exn

definition unit_answer :: "vault_exn + unit \<Rightarrow> vault_answer" where
  "unit_answer r = (case r of Inl e \<Rightarrow> Failed e | Inr _ \<Rightarrow> Completed)"

definition get_answer :: "vault_exn + vault_entry \<times> jsval \<Rightarrow> vault_answer" where
  "get_answer r = (case r of Inl e \<Rightarrow> Failed e | Inr p \<Rightarrow> Found (fst p) (snd p))"

definition list_answer :: "vault_exn + vault_entry list \<Rightarrow> vault_answer" where
  "list_answer r = (case r of Inl e \<Rightarrow> Failed e | Inr es \<Rightarrow> Listed es)"

definition export_answer :: "vault_exn + (string \<times> jsval) list \<Rightarrow> vault_answer" where
  "export_answer r = (case r of Inl e \<Rightarrow> Failed e | Inr b \<Rightarrow> Exported b)"

definition mem_step :: "vault_platform \<Rightarrow> vault_op \<Rightarrow> vault_map \<Rightarrow> vault_answer \<times> vault_map" where
  "mem_step cr opn s = (case opn of
       Put md c opts \<Rightarrow> map_prod unit_answer (\<lambda>t. t) (mem_put cr md c opts s)
     | Get i secret \<Rightarrow> map_prod get_answer (\<lambda>t. t) (mem_get cr i secret s)
     | Delete i \<Rightarrow> map_prod unit_answer (\<lambda>t. t) (mem_delete i s)
     | Migrate i cur next \<Rightarrow> map_prod unit_answer (\<lambda>t. t) (mem_migrate cr i cur next s)
     | Restore b secret minimum \<Rightarrow> map_prod unit_answer (\<lambda>t. t) (mem_restoreBackup cr b secret minimum s)
     | List_entries \<Rightarrow> map_prod list_answer (\<lambda>t. t) (mem_list s)
     | Export opts n created \<Rightarrow> map_prod export_answer (\<lambda>t. t) (mem_exportBackup cr opts n created s))"

definition idb_step :: "vault_platform \<Rightarrow> vault_op \<Rightarrow> vault_map \<Rightarrow> vault_answer \<times> vault_map" where
  "idb_step cr opn m = (case opn of
       Put md c opts \<Rightarrow> map_prod unit_answer (\<lambda>t. t) (idb_put cr None md c opts m)
     | Get i secret \<Rightarrow> map_prod get_answer (\<lambda>t. t) (idb_get cr None i secret m)
     | Delete i \<Rightarrow> map_prod unit_answer (\<lambda>t. t) (idb_delete None i m)
     | Migrate i cur next \<Rightarrow> map_prod unit_answer (\<lambda>t. t) (idb_migrate cr None None i cur next m)
     | Restore b secret minimum \<Rightarrow> map_prod unit_answer (\<lambda>t. t) (idb_restoreBackup cr None b secret minimum m)
     | List_entries \<Rightarrow> map_prod list_answer (\<lambda>t. t) (idb_list None m)
     | Export opts n created \<Rightarrow> map_prod export_answer (\<lambda>t. t) (idb_exportBackup cr None opts n created m))"

fun run_script :: "(vault_op \<Rightarrow> vault_map \<Rightarrow> vault_answer \<times> vault_map) \<Rightarrow> vault_op list \<Rightarrow> vault_map \<Rightarrow> vault_answer list \<times> vault_map" where
  "run_script step [] s = ([], s)"
| "run_script step (x # xs) s = (case step x s of (a, t) \<Rightarrow> case run_script step xs t of (bs, u) \<Rightarrow> (a # bs, u))"

fun complete_put :: "vault_op \<Rightarrow> bool" where
  "complete_put (Put md c opts) \<longleftrightarrow> metadata_text md ''id'' \<noteq> '''' \<and> metadata_text md ''credentialType'' \<noteq> '''' \<and> metadata_text md ''issuer'' \<noteq> ''''"
| "complete_put _ \<longleftrightarrow> True"

definition keyed :: "vault_map \<Rightarrow> bool" where
  "keyed s \<longleftrightarrow> distinct (map fst s) \<and> (\<forall>p\<in>set s. jfield (snd p) ''id'' = JStr (fst p))"

definition same_store :: "vault_map \<Rightarrow> vault_map \<Rightarrow> bool" where
  "same_store s m \<longleftrightarrow> keyed s \<and> keyed m \<and> sorted (map fst m) \<and> map_of m = map_of s"

lemma set_idb_insert: "fst ` set (idb_insert k v m) = insert k (fst ` set m)"
  by (induction k v m rule: idb_insert.induct) auto

lemma map_of_idb_insert: "sorted (map fst m) \<Longrightarrow> map_of (idb_insert k v m) = (map_of m)(k \<mapsto> v)"
proof (induction k v m rule: idb_insert.induct)
  case (2 k v k' v' m)
  then show ?case by (auto simp: fun_eq_iff)
qed simp

lemma idb_insert_sorted: "sorted (map fst m) \<Longrightarrow> distinct (map fst m) \<Longrightarrow> sorted (map fst (idb_insert k v m)) \<and> distinct (map fst (idb_insert k v m))"
proof (induction k v m rule: idb_insert.induct)
  case (2 k v k' v' m)
  then show ?case using set_idb_insert [of k v m] by (auto simp flip: set_map)
qed simp

lemma idb_insert_in: "p \<in> set (idb_insert k v m) \<Longrightarrow> p = (k, v) \<or> p \<in> set m"
  by (induction k v m rule: idb_insert.induct) (auto split: if_splits)

lemma omap_set_in: "p \<in> set (omap_set k v m) \<Longrightarrow> p = (k, v) \<or> p \<in> set m"
  by (induction k v m rule: omap_set.induct) (auto split: if_splits)

lemma keyed_omap_set: "keyed s \<Longrightarrow> jfield e ''id'' = JStr k \<Longrightarrow> keyed (omap_set k e s)"
  unfolding keyed_def by (auto intro: distinct_omap_set dest: omap_set_in)

lemma keyed_omap_delete: "keyed s \<Longrightarrow> keyed (omap_delete k s)"
  using distinct_omap_delete [of s k] unfolding keyed_def by (auto simp: omap_delete_def)

lemma same_store_put:
  assumes "same_store s m" "jfield e ''id'' = JStr k"
  shows "same_store (omap_set k e s) (idb_insert k e m)"
  using assms idb_insert_sorted [of m k e] keyed_omap_set [of s e k] unfolding same_store_def keyed_def
  by (auto simp: map_of_idb_insert dest: idb_insert_in)

lemma same_store_delete: "same_store s m \<Longrightarrow> same_store (omap_delete k s) (omap_delete k m)"
  using keyed_omap_delete [of s k] keyed_omap_delete [of m k] sorted_filter [of fst m "\<lambda>p. fst p \<noteq> k"]
  unfolding same_store_def by (simp flip: omap_delete_def)

lemma same_store_empty: "same_store [] []"
  by (simp add: same_store_def keyed_def)

lemma same_store_mset: "same_store s m \<Longrightarrow> set s = set m"
  unfolding same_store_def keyed_def by (metis map_of_eq_Some_iff subrelI subset_antisym)

lemma metadata_key: "metadata_text md ''id'' \<noteq> '''' \<Longrightarrow> jfield (metadata_js md) ''id'' = JStr (metadata_text md ''id'')"
  by (induction md) (auto simp: metadata_text_def metadata_js_def split: option.splits if_splits)

lemma entry_list_keys: "entry_list vs = Some es \<Longrightarrow> e \<in> set es \<Longrightarrow> jfield e ''id'' = JStr (entry_key e)"
proof (induction vs arbitrary: es rule: entry_list.induct)
  case (2 e vs)
  then show ?case by (fastforce simp: isVaultEntry_def is_text_def entry_key_def split: if_splits jsval.splits)
qed auto

lemma openVaultBackup_keys:
  assumes "openVaultBackup cr env secret minimum = Inr b" "e \<in> set (vb_entries b)"
  shows "jfield e ''id'' = JStr (entry_key e)"
proof -
  from assms(1) obtain bytes where "backup_entries cr bytes = Inr (vb_entries b)"
    by (auto simp: openVaultBackup_def result_simps split: jsval.splits if_splits option.splits)
  then obtain vs where "entry_list vs = Some (vb_entries b)"
    by (auto simp: backup_entries_def split: option.splits sum.splits jsval.splits)
  then show ?thesis using assms(2) by (rule entry_list_keys)
qed

lemma same_store_put_all:
  assumes "same_store s m" "\<forall>e\<in>set es. jfield e ''id'' = JStr (entry_key e)"
  shows "\<exists>m'. idb_put_all es m = (Inr (), m') \<and> same_store (foldl (\<lambda>m e. omap_set (entry_key e) e m) s es) m'"
  using assms
proof (induction es arbitrary: s m)
  case (Cons e es)
  then have "same_store (omap_set (entry_key e) e s) (idb_insert (entry_key e) e m)" by (simp add: same_store_put)
  from Cons.IH [OF this] Cons.prems show ?case by (simp add: bindS_def idb_put_request_def)
qed simp

text \<open>
  When two answers to an operation agree. The stores keep their entries in different orders, and
  the in-memory store lists every property of the metadata where the database lists the five of
  the interface; so listings agree as bags of these five, and exported backups agree when they
  are made in the same way from the same bag of entries. All other answers must be equal.
\<close>

fun same_answer :: "vault_platform \<Rightarrow> vault_op \<Rightarrow> vault_answer \<Rightarrow> vault_answer \<Rightarrow> bool" where
  "same_answer cr x (Listed es) (Listed fs) \<longleftrightarrow> mset (map entryMetadata es) = mset fs"
| "same_answer cr (Export opts n created) (Exported b) (Exported c) \<longleftrightarrow>
     (\<exists>es fs. mset es = mset fs \<and> createVaultBackup cr es opts n created = Inr b \<and> createVaultBackup cr fs opts n created = Inr c)"
| "same_answer cr x a b \<longleftrightarrow> a = b"

lemma same_answer_refl: "\<not> (\<exists>es. a = Listed es) \<Longrightarrow> \<not> (\<exists>b. a = Exported b) \<Longrightarrow> same_answer cr x a a"
  by (cases a; cases x) auto

lemma unit_answer_kind [simp]: "unit_answer r \<noteq> Listed es" "unit_answer r \<noteq> Exported b" "get_answer g \<noteq> Listed es" "get_answer g \<noteq> Exported b"
  by (simp_all add: unit_answer_def get_answer_def split: sum.split)

lemma envelope_any_plaintext:
  "createVaultEnvelope cr p opts = Inl e \<Longrightarrow> createVaultEnvelope cr p' opts = Inl e"
  "createVaultEnvelope cr p opts = Inr b \<Longrightarrow> \<exists>b'. createVaultEnvelope cr p' opts = Inr b'"
  by (auto simp: createVaultEnvelope_def bindE_def split: option.splits sum.splits)

lemma backup_any_order:
  assumes "mset es = mset fs"
  shows "createVaultBackup cr es opts n created = Inl e \<Longrightarrow> createVaultBackup cr fs opts n created = Inl e"
    "createVaultBackup cr es opts n created = Inr b \<Longrightarrow> \<exists>c. createVaultBackup cr fs opts n created = Inr c"
proof -
  have "set es = set fs" using assms by (rule mset_eq_setD)
  then have v: "list_all (\<lambda>e. isVaultEntry (JObj e)) es = list_all (\<lambda>e. isVaultEntry (JObj e)) fs" by (simp add: list_all_iff)
  let ?o = "opts\<lparr>eo_associatedData := Some (backupAad cr (JInt n) (JStr (case created of None \<Rightarrow> cr_now cr | Some t \<Rightarrow> t)))\<rparr>"
  let ?p = "\<lambda>xs. encode_json cr (JObj [(''entries'', JArr (map JObj xs))])"
  have l: "createVaultEnvelope cr (?p es) ?o = Inl x \<Longrightarrow> createVaultEnvelope cr (?p fs) ?o = Inl x" for x by (rule envelope_any_plaintext(1))
  have r: "createVaultEnvelope cr (?p es) ?o = Inr x \<Longrightarrow> \<exists>y. createVaultEnvelope cr (?p fs) ?o = Inr y" for x by (rule envelope_any_plaintext(2))
  show "createVaultBackup cr es opts n created = Inl e \<Longrightarrow> createVaultBackup cr fs opts n created = Inl e"
    unfolding createVaultBackup_def v Let_def using l by (auto simp: bindE_def split: if_splits sum.split_asm)
  show "createVaultBackup cr es opts n created = Inr b \<Longrightarrow> \<exists>c. createVaultBackup cr fs opts n created = Inr c"
    unfolding createVaultBackup_def v Let_def using r by (auto simp: bindE_def split: if_splits sum.split_asm)
qed

lemma metadata_without_envelope: "entryMetadata (omap_delete ''envelope'' e) = entryMetadata e"
proof -
  have "jfield (omap_delete ''envelope'' e) k = jfield e k" if "k \<noteq> ''envelope''" for k
    using that by (simp add: jfield_def)
  then show ?thesis by (simp add: entryMetadata_def)
qed

lemma same_store_bag:
  assumes "same_store s m"
  shows "mset (map snd s) = mset (map snd m)"
proof -
  have "distinct s" "distinct m" using assms by (auto simp: same_store_def keyed_def distinct_map)
  then have "mset s = mset m" using same_store_mset [OF assms] set_eq_iff_mset_eq_distinct by blast
  then show ?thesis by simp
qed

lemma listing_agrees:
  assumes "same_store s m"
  shows "same_answer cr List_entries (fst (mem_step cr List_entries s)) (fst (idb_step cr List_entries m))"
proof -
  have "mset (map entryMetadata (map snd s)) = mset (map entryMetadata (map snd m))"
    using same_store_bag [OF assms] by (metis mset_map)
  then show ?thesis
    by (simp add: mem_step_def idb_step_def mem_list_def idb_list_def idb_tx_def list_answer_def metadata_without_envelope comp_def)
qed

lemma export_agrees:
  assumes "same_store s m"
  shows "same_answer cr (Export opts n created) (fst (mem_step cr (Export opts n created) s)) (fst (idb_step cr (Export opts n created) m))"
proof (cases "createVaultBackup cr (map snd s) opts n created")
  case (Inl e)
  with backup_any_order(1) [OF same_store_bag [OF assms]] show ?thesis
    by (simp add: mem_step_def idb_step_def mem_exportBackup_def idb_exportBackup_def idb_tx_def bindS_def pureS_def export_answer_def)
next
  case (Inr b)
  with backup_any_order(2) [OF same_store_bag [OF assms]] obtain c where "createVaultBackup cr (map snd m) opts n created = Inr c" by blast
  with Inr same_store_bag [OF assms] have "same_answer cr (Export opts n created) (Exported b) (Exported c)" unfolding same_answer.simps by blast
  with Inr \<open>createVaultBackup cr (map snd m) opts n created = Inr c\<close> show ?thesis
    by (simp del: same_answer.simps add: mem_step_def idb_step_def mem_exportBackup_def idb_exportBackup_def idb_tx_def bindS_def pureS_def export_answer_def)
qed

lemma equal_step_agrees:
  assumes "same_store s m" "complete_put x" "\<not> (x = List_entries \<or> (\<exists>opts n created. x = Export opts n created))"
  shows "fst (mem_step cr x s) = fst (idb_step cr x m) \<and> same_store (snd (mem_step cr x s)) (snd (idb_step cr x m))"
proof (cases x)
  case (Put md c opts)
  show ?thesis
  proof (cases "new_entry cr md c opts")
    case (Inl y)
    with Put assms show ?thesis by (simp add: mem_step_def idb_step_def mem_put_def idb_put_def bindS_def)
  next
    case (Inr e)
    then have "jfield e ''id'' = JStr (metadata_text md ''id'')"
      using assms(2) Put metadata_key [of md] by (auto elim!: new_entry_Inr)
    with Put Inr assms same_store_put show ?thesis
      by (simp add: mem_step_def idb_step_def mem_put_def idb_put_def bindS_def idb_tx_def idb_put_request_def)
  qed
next
  case (Get i secret)
  then show ?thesis
    using assms by (cases "map_of s i")
      (auto simp: mem_step_def idb_step_def mem_get_def idb_get_def bindS_def mem_find_def idb_find_def idb_tx_def same_store_def)
next
  case (Delete i)
  then show ?thesis
    using assms same_store_delete by (simp add: mem_step_def idb_step_def mem_delete_def idb_delete_def idb_tx_def)
next
  case (Migrate i cur nxt)
  have eq: "map_of m i = map_of s i" using assms(1) by (simp add: same_store_def)
  show ?thesis
  proof (cases "map_of s i")
    case None
    with Migrate assms(1) eq show ?thesis
      by (simp add: mem_step_def idb_step_def mem_migrate_def idb_migrate_def bindS_def mem_find_def idb_find_def idb_tx_def)
  next
    case (Some e)
    then have key: "jfield e ''id'' = JStr i" using assms(1) by (force simp: same_store_def keyed_def dest: map_of_SomeD)
    show ?thesis
    proof (cases "reencrypted_entry cr e cur nxt")
      case (Inl y)
      with Migrate Some assms(1) eq show ?thesis
        by (simp add: mem_step_def idb_step_def mem_migrate_def idb_migrate_def bindS_def mem_find_def idb_find_def idb_tx_def
            mem_migrate_finish_def catchS_def)
    next
      case (Inr e')
      then have "jfield e' ''id'' = JStr i" using key by (auto simp: reencrypted_entry_def result_simps)
      with Migrate Some Inr assms(1) eq same_store_put show ?thesis
        by (simp add: mem_step_def idb_step_def mem_migrate_def idb_migrate_def bindS_def mem_find_def idb_find_def idb_tx_def
            mem_migrate_finish_def catchS_def idb_put_request_def)
    qed
  qed
next
  case (Restore b secret minimum)
  show ?thesis
  proof (cases "openVaultBackup cr b secret minimum")
    case (Inl y)
    with Restore assms(1) show ?thesis
      by (simp add: mem_step_def idb_step_def mem_restoreBackup_def idb_restoreBackup_def bindS_def)
  next
    case (Inr v)
    have "\<forall>e\<in>set (vb_entries v). jfield e ''id'' = JStr (entry_key e)" using openVaultBackup_keys [OF Inr] by blast
    from same_store_put_all [OF same_store_empty this] Inr Restore show ?thesis
      by (auto simp: mem_step_def idb_step_def mem_restoreBackup_def idb_restoreBackup_def bindS_def idb_tx_def)
  qed
qed (use assms(3) in simp_all)

lemma step_agrees:
  assumes "same_store s m" "complete_put x"
  shows "same_answer cr x (fst (mem_step cr x s)) (fst (idb_step cr x m)) \<and> same_store (snd (mem_step cr x s)) (snd (idb_step cr x m))"
proof (cases "x = List_entries \<or> (\<exists>opts n created. x = Export opts n created)")
  case True
  moreover have "snd (mem_step cr x s) = s" "snd (idb_step cr x m) = m"
    using True by (auto simp: mem_step_def idb_step_def mem_list_def idb_list_def idb_tx_def mem_exportBackup_def idb_exportBackup_def
        bindS_def pureS_def split: sum.split)
  ultimately show ?thesis using listing_agrees [OF assms(1)] export_agrees [OF assms(1)] assms(1) by auto
next
  case False
  then have "\<not> (\<exists>es. fst (mem_step cr x s) = Listed es)" "\<not> (\<exists>b. fst (mem_step cr x s) = Exported b)"
    by (cases x; simp add: mem_step_def)+
  with same_answer_refl equal_step_agrees [OF assms False] show ?thesis by metis
qed

lemma run_script_Cons: "run_script step (x # xs) s = (fst (step x s) # fst (run_script step xs (snd (step x s))),
    snd (run_script step xs (snd (step x s))))"
  by (simp add: case_prod_beta)

fun answers_agree :: "vault_platform \<Rightarrow> vault_op list \<Rightarrow> vault_answer list \<Rightarrow> vault_answer list \<Rightarrow> bool" where
  "answers_agree cr [] [] [] \<longleftrightarrow> True"
| "answers_agree cr (x # xs) (a # as) (b # bs) \<longleftrightarrow> same_answer cr x a b \<and> answers_agree cr xs as bs"
| "answers_agree cr _ _ _ \<longleftrightarrow> False"

lemma scripts_agree:
  assumes "same_store s m" "list_all complete_put xs"
  shows "answers_agree cr xs (fst (run_script (mem_step cr) xs s)) (fst (run_script (idb_step cr) xs m))
    \<and> same_store (snd (run_script (mem_step cr) xs s)) (snd (run_script (idb_step cr) xs m))"
  using assms
proof (induction xs arbitrary: s m)
  case (Cons x xs)
  then have "complete_put x" by simp
  from step_agrees [OF Cons.prems(1) this, of cr] Cons.IH [of "snd (mem_step cr x s)" "snd (idb_step cr x m)"] Cons.prems(2)
  show ?case by (simp add: run_script_Cons del: run_script.simps)
qed simp

text \<open>
  C21: The in-memory store and the IndexedDB store give agreeing answers to every script of
  put, get, delete, migrate, restore, list and export, and end with the same entries, when put
  gets complete metadata and the database's transactions commit. Agreeing means: the same
  result or error; for list, the same bag of the five interface properties (the database lists
  in key order, and the in-memory store adds whatever else the metadata holds); for export,
  backups made with the same options from the same bag of entries, in each store's own order.
\<close>

theorem vault_stores_equivalent:
  assumes "list_all complete_put xs"
  shows "answers_agree cr xs (fst (run_script (mem_step cr) xs [])) (fst (run_script (idb_step cr) xs []))
    \<and> set (snd (run_script (mem_step cr) xs [])) = set (snd (run_script (idb_step cr) xs []))
    \<and> sorted (map fst (snd (run_script (idb_step cr) xs [])))"
  using scripts_agree [OF same_store_empty assms] same_store_mset by (auto simp: same_store_def)

theorem vault_stores_equivalent_witness:
  "\<exists>e es. run_script (mem_step ex_platform) [Put ex_metadata (JBool True) ex_options, List_entries] []
       = ([Completed, Listed [omap_delete ''envelope'' e]], [(''c1'', e)])
     \<and> fst (run_script (idb_step ex_platform) [Put ex_metadata (JBool True) ex_options, List_entries] []) = [Completed, Listed es]
     \<and> mset es = {#entryMetadata e#}"
proof -
  let ?xs = "[Put ex_metadata (JBool True) ex_options, List_entries]"
  obtain e where "mem_put ex_platform ex_metadata (JBool True) ex_options [] = (Inr (), [(''c1'', e)])" using ex_stored by blast
  then have m: "run_script (mem_step ex_platform) ?xs [] = ([Completed, Listed [omap_delete ''envelope'' e]], [(''c1'', e)])"
    by (simp add: mem_step_def unit_answer_def mem_list_def list_answer_def)
  have idb: "\<exists>a b. fst (run_script (idb_step ex_platform) ?xs []) = [a, b]" by (simp add: case_prod_beta)
  have "list_all complete_put ?xs" by (simp add: ex_metadata_def metadata_text_def)
  from vault_stores_equivalent [OF this, of ex_platform] m idb obtain a b where
      "fst (run_script (idb_step ex_platform) ?xs []) = [a, b]"
      "same_answer ex_platform (Put ex_metadata (JBool True) ex_options) Completed a"
      "same_answer ex_platform List_entries (Listed [omap_delete ''envelope'' e]) b"
    by auto
  with m show ?thesis by (cases a; cases b) (auto simp: metadata_without_envelope)
qed

section \<open>Backups\<close>

lemma createVaultBackup_Inr:
  assumes "createVaultBackup cr entries opts n created = Inr b" "option_secret opts = Some secret"
  obtains at where "at = (case created of None \<Rightarrow> cr_now cr | Some t \<Rightarrow> t)" "safe_integer n" "1 \<le> n" "list_all (\<lambda>e. isVaultEntry (JObj e)) entries"
    "made_envelope cr (encode_json cr (JObj [(''entries'', JArr (map JObj entries))]))
       (opts\<lparr>eo_associatedData := Some (backupAad cr (JInt n) (JStr at))\<rparr>) secret b"
    "jfield b ''backupVersion'' = JInt 1" "jfield b ''kind'' = JStr ''ssw-credential-vault-backup''"
    "jfield b ''sequence'' = JInt n" "jfield b ''createdAt'' = JStr at"
proof -
  let ?at = "case created of None \<Rightarrow> cr_now cr | Some t \<Rightarrow> t"
  let ?extra = "[(''backupVersion'', JInt 1), (''kind'', JStr ''ssw-credential-vault-backup''), (''sequence'', JInt n), (''createdAt'', JStr ?at)]"
  let ?o = "opts\<lparr>eo_associatedData := Some (backupAad cr (JInt n) (JStr ?at))\<rparr>"
  from assms(1) obtain outer where h: "safe_integer n" "1 \<le> n" "list_all (\<lambda>e. isVaultEntry (JObj e)) entries"
      "createVaultEnvelope cr (encode_json cr (JObj [(''entries'', JArr (map JObj entries))])) ?o = Inr outer" and b: "b = outer @ ?extra"
    by (auto simp: createVaultBackup_def Let_def result_simps split: if_splits)
  have "\<not> own outer k" if "k \<in> {''backupVersion'', ''kind'', ''sequence'', ''createdAt''}" for k
    using h(4) that by (elim createVaultEnvelope_Inr) (auto simp: envelope_js_def split: option.splits)
  then have f: "jfield b ''backupVersion'' = JInt 1" "jfield b ''kind'' = JStr ''ssw-credential-vault-backup''"
      "jfield b ''sequence'' = JInt n" "jfield b ''createdAt'' = JStr ?at"
    by (simp_all add: b jfield_append)
  from h(4) show ?thesis
    by (rule createVaultEnvelope_made [where extra = ?extra]) (use that [of ?at] h f assms(2) in \<open>auto simp: b\<close>)
qed

lemma openVaultBackup_Inr:
  assumes "openVaultBackup cr e secret minimum = Inr v"
  obtains bytes where "jfield e ''sequence'' = JInt (vb_sequence v)" "1 \<le> vb_sequence v" "\<forall>m. minimum = Some m \<longrightarrow> m \<le> vb_sequence v"
    "vb_createdAt v = jfield e ''createdAt''" "openVaultEnvelope cr (JObj e) secret = Inr bytes"
    "jfield e ''aad'' = JStr (b64 (backupAad cr (JInt (vb_sequence v)) (vb_createdAt v)))" "backup_entries cr bytes = Inr (vb_entries v)"
  using assms unfolding openVaultBackup_def
  by (auto simp: result_simps split: jsval.splits if_splits option.splits intro: that)

text \<open>The last step of opening: the payload is the encryption under the data in \<open>aad\<close>.\<close>

lemma openVaultEnvelope_payload:
  assumes "aead_ok cr" "openVaultEnvelope cr (JObj e) secret = Inr p" "jfield e ''aad'' = JStr (b64 d)"
  obtains dek iv ct c where "vprop (jfield e ''payload'') ''ciphertext'' = Inr ct" "unb64 ct = Inr c" "c = cr_encrypt cr dek iv d p"
proof -
  have aad: "\<exists>a. (if js_truthy (jfield e ''aad'') then bindE (unb64 (jfield e ''aad'')) (\<lambda>d. Inr (Some d)) else Inr None) = Inr a \<and> aad_bytes a = d"
    using assms(3) by (auto simp: js_truthy_def aad_bytes_def)
  then obtain a where a: "(if js_truthy (jfield e ''aad'') then bindE (unb64 (jfield e ''aad'')) (\<lambda>d. Inr (Some d)) else Inr None) = Inr a" "aad_bytes a = d"
    by blast
  have props: "vprop (JObj e) k = Inr (jfield e k)" for e k by (simp add: vprop_def)
  from assms(2) obtain dek ct iv where "vprop (jfield e ''payload'') ''ciphertext'' = Inr ct" "vault_decrypt cr dek ct iv a = Inr p"
    unfolding openVaultEnvelope_def props bindE_simps a(1)
    by (auto simp: result_simps split: if_splits)
  with that show ?thesis using aead_decrypt [OF assms(1)] a(2) by (auto elim!: vault_decrypt_Inr)
qed

lemma entry_list_valid: "entry_list vs = Some es \<Longrightarrow> list_all (\<lambda>e. isVaultEntry (JObj e)) es"
  by (induction vs arbitrary: es rule: entry_list.induct) (auto split: if_splits)

lemma entry_list_map: "list_all (\<lambda>e. isVaultEntry (JObj e)) es \<Longrightarrow> entry_list (map JObj es) = Some es"
  by (induction es) auto

lemma backup_entries_valid: "backup_entries cr bytes = Inr es \<Longrightarrow> list_all (\<lambda>e. isVaultEntry (JObj e)) es"
  using entry_list_valid by (auto simp: backup_entries_def split: option.splits sum.splits jsval.splits)

text \<open>
  A backup that opens has a positive sequence not below the required one and valid
  entries, and its payload is the encryption under exactly the sequence and time its header
  shows.
\<close>

theorem opened_backup_is_bound:
  assumes "aead_ok cr" "openVaultBackup cr e secret minimum = Inr v"
  shows "1 \<le> vb_sequence v \<and> (\<forall>m. minimum = Some m \<longrightarrow> m \<le> vb_sequence v) \<and> list_all (\<lambda>e. isVaultEntry (JObj e)) (vb_entries v)
    \<and> (\<exists>dek iv p ct. vprop (jfield e ''payload'') ''ciphertext'' = Inr ct
        \<and> unb64 ct = Inr (cr_encrypt cr dek iv (backupAad cr (JInt (vb_sequence v)) (vb_createdAt v)) p)
        \<and> backup_entries cr p = Inr (vb_entries v))"
proof -
  obtain bytes where o: "1 \<le> vb_sequence v" "\<forall>m. minimum = Some m \<longrightarrow> m \<le> vb_sequence v" "openVaultEnvelope cr (JObj e) secret = Inr bytes"
    "jfield e ''aad'' = JStr (b64 (backupAad cr (JInt (vb_sequence v)) (vb_createdAt v)))" "backup_entries cr bytes = Inr (vb_entries v)"
    using openVaultBackup_Inr [OF assms(2)] by blast
  from openVaultEnvelope_payload [OF assms(1) o(3,4)] obtain dek iv ct where
    "vprop (jfield e ''payload'') ''ciphertext'' = Inr ct"
    "unb64 ct = Inr (cr_encrypt cr dek iv (backupAad cr (JInt (vb_sequence v)) (vb_createdAt v)) bytes)" by metis
  with o backup_entries_valid show ?thesis by blast
qed

lemma omap_set_new: "k \<notin> fst ` set m \<Longrightarrow> omap_set k v m = m @ [(k, v)]"
  by (induction k v m rule: omap_set.induct) auto

lemma restore_keyed:
  "distinct (map fst (acc @ s)) \<Longrightarrow> \<forall>p\<in>set s. jfield (snd p) ''id'' = JStr (fst p)
   \<Longrightarrow> foldl (\<lambda>m e. omap_set (entry_key e) e m) acc (map snd s) = acc @ s"
proof (induction s arbitrary: acc)
  case (Cons p s)
  then have "entry_key (snd p) = fst p" "fst p \<notin> fst ` set acc" by (auto simp: entry_key_def)
  then have "omap_set (entry_key (snd p)) (snd p) acc = acc @ [p]" by (simp add: omap_set_new)
  with Cons.IH [of "acc @ [p]"] Cons.prems show ?case by simp
qed simp

lemma restore_created:
  assumes "aead_ok cr" "keyed s" "createVaultBackup cr (map snd s) opts n created = Inr b" "option_secret opts = Some secret"
    "cr_json cr (cr_decode cr (encode_json cr (JObj [(''entries'', JArr (map JObj (map snd s)))])))
       = Some (JObj [(''entries'', JArr (map JObj (map snd s)))])"
    "case minimum of None \<Rightarrow> True | Some m \<Rightarrow> m \<le> n"
  shows "mem_restoreBackup cr b secret minimum s0 = (Inr (), s)"
proof -
  from assms(3,4) show ?thesis
  proof (rule createVaultBackup_Inr)
    fix at
    assume n: "safe_integer n" "1 \<le> n" and v: "list_all (\<lambda>e. isVaultEntry (JObj e)) (map snd s)"
      and made: "made_envelope cr (encode_json cr (JObj [(''entries'', JArr (map JObj (map snd s)))]))
         (opts\<lparr>eo_associatedData := Some (backupAad cr (JInt n) (JStr at))\<rparr>) secret b"
      and f: "jfield b ''backupVersion'' = JInt 1" "jfield b ''kind'' = JStr ''ssw-credential-vault-backup''"
        "jfield b ''sequence'' = JInt n" "jfield b ''createdAt'' = JStr at"
    have "jfield b ''aad'' = JStr (b64 (backupAad cr (JInt n) (JStr at)))" using made by (auto simp: made_envelope_def)
    moreover have "backup_entries cr (encode_json cr (JObj [(''entries'', JArr (map JObj (map snd s)))])) = Inr (map snd s)"
      using assms(5) entry_list_map [OF v] by (simp add: backup_entries_def vprop_def)
    ultimately have "openVaultBackup cr b secret minimum = Inr \<lparr>vb_sequence = n, vb_createdAt = JStr at, vb_entries = map snd s\<rparr>"
      using n f assms(6) open_made_envelope [OF assms(1) made] by (auto simp: openVaultBackup_def split: option.splits)
    moreover have "foldl (\<lambda>m e. omap_set (entry_key e) e m) [] (map snd s) = s"
      using restore_keyed [of "[]" s] assms(2) by (simp add: keyed_def)
    ultimately show ?thesis by (simp add: mem_restoreBackup_def)
  qed
qed

text \<open>
  Restoring an exported backup with its secret makes the store the one that was exported,
  entries and order included, whatever it held before.
\<close>

theorem backup_restores_store:
  assumes "aead_ok cr" "keyed s" "mem_exportBackup cr opts n created s = (Inr b, s')" "option_secret opts = Some secret"
    "cr_json cr (cr_decode cr (encode_json cr (JObj [(''entries'', JArr (map JObj (map snd s)))])))
       = Some (JObj [(''entries'', JArr (map JObj (map snd s)))])"
    "case minimum of None \<Rightarrow> True | Some m \<Rightarrow> m \<le> n"
  shows "mem_restoreBackup cr b secret minimum s0 = (Inr (), s)"
proof -
  have "createVaultBackup cr (map snd s) opts n created = Inr b" using assms(3) by (auto simp: mem_exportBackup_def)
  then show ?thesis by (rule restore_created [OF assms(1,2) _ assms(4-6)])
qed

text \<open>A platform that parses the one backup of the example.\<close>

definition ex_parsing :: "jsval \<Rightarrow> vault_platform" where
  "ex_parsing v = ex_platform\<lparr>cr_json := (\<lambda>t. if t = encode_json ex_platform v then Some v else None)\<rparr>"

lemma ex_parsing_simps: "cr_json (ex_parsing v) (cr_decode (ex_parsing v) (encode_json (ex_parsing v) v)) = Some v" "aead_ok (ex_parsing v)"
  using ex_aead_ok by (simp_all add: ex_parsing_def encode_json_def aead_ok_def split: option.split)

lemma ex_backup:
  obtains e b where "new_entry ex_platform ex_metadata (JBool True) ex_options = Inr e" "keyed [(''c1'', e)]"
    "createVaultBackup (ex_parsing (JObj [(''entries'', JArr [JObj e])])) [e] ex_options 7 None = Inr b"
proof -
  obtain e where e: "new_entry ex_platform ex_metadata (JBool True) ex_options = Inr e" using ex_stored by blast
  let ?cr = "ex_parsing (JObj [(''entries'', JArr [JObj e])])"
  have valid: "isVaultEntry (JObj e) \<and> keyed [(''c1'', e)]"
    using e
  proof (rule new_entry_Inr)
    fix env sec
    assume h: "e = omap_set ''envelope'' (JObj env) (metadata_js ex_metadata)"
      and made: "made_envelope ex_platform (credentialBytes ex_platform (JBool True)) (ex_options\<lparr>eo_associatedData := Some (metadataBytes ex_platform (metadata_js ex_metadata))\<rparr>) sec env"
    have "supported_envelope (JObj env) = Inr True"
      using made by (auto simp: made_envelope_def supported_envelope_def vprop_def)
    then show ?thesis
      by (simp add: h isVaultEntry_def is_text_def js_truthy_def keyed_def ex_metadata_def metadata_js_def)
  qed
  have "\<exists>b. createVaultBackup ?cr [e] ex_options 7 None = Inr b"
    using valid by (simp add: createVaultBackup_def Let_def safe_integer_def createVaultEnvelope_def ex_options_def option_secret_def
        option_iterations_def boundedIterations_def random_def deriveWrappingKey_def importAesKey_def ex_parsing_def)
      (simp add: ex_platform_def)
  with e valid that show ?thesis by blast
qed

theorem opened_backup_is_bound_witness:
  "\<exists>cr b v dek iv p ct. openVaultBackup cr b (Secret_text ''correct horse'') (Some 5) = Inr v \<and> 5 \<le> vb_sequence v
    \<and> unb64 ct = Inr (cr_encrypt cr dek iv (backupAad cr (JInt (vb_sequence v)) (vb_createdAt v)) p)"
proof -
  obtain e b where h: "keyed [(''c1'', e)]" "createVaultBackup (ex_parsing (JObj [(''entries'', JArr [JObj e])])) [e] ex_options 7 None = Inr b"
    using ex_backup by blast
  let ?cr = "ex_parsing (JObj [(''entries'', JArr [JObj e])])"
  have "mem_restoreBackup ?cr b (Secret_text ''correct horse'') (Some 5) [] = (Inr (), [(''c1'', e)])"
    by (rule restore_created [where opts = ex_options and n = 7 and created = None])
      (use h ex_parsing_simps [of "JObj [(''entries'', JArr [JObj e])]"] in \<open>simp_all add: ex_secrets\<close>)
  then obtain v where v: "openVaultBackup ?cr b (Secret_text ''correct horse'') (Some 5) = Inr v"
    by (auto simp: mem_restoreBackup_def split: sum.splits)
  from opened_backup_is_bound [OF ex_parsing_simps(2) v] v show ?thesis by blast
qed

theorem backup_restores_store_witness:
  "\<exists>cr b e. mem_exportBackup cr ex_options 7 None [(''c1'', e)] = (Inr b, [(''c1'', e)])
    \<and> mem_restoreBackup cr b (Secret_text ''correct horse'') (Some 7) [] = (Inr (), [(''c1'', e)])"
proof -
  obtain e b where h: "keyed [(''c1'', e)]" "createVaultBackup (ex_parsing (JObj [(''entries'', JArr [JObj e])])) [e] ex_options 7 None = Inr b"
    using ex_backup by blast
  let ?cr = "ex_parsing (JObj [(''entries'', JArr [JObj e])])"
  have m: "mem_exportBackup ?cr ex_options 7 None [(''c1'', e)] = (Inr b, [(''c1'', e)])"
    using h(2) by (simp add: mem_exportBackup_def)
  have "mem_restoreBackup ?cr b (Secret_text ''correct horse'') (Some 7) [] = (Inr (), [(''c1'', e)])"
    by (rule backup_restores_store [OF ex_parsing_simps(2) h(1) m ex_secrets(1)])
      (use ex_parsing_simps(1) [of "JObj [(''entries'', JArr [JObj e])]"] in simp_all)
  with m show ?thesis by blast
qed

end
