(* ===== verification/PlatformTypesProps.thy ===== *)
theory PlatformTypesProps
  imports PlatformTypes TrustRegistryText
begin

text \<open>
  What the contracts promise: a serialised text names one value up to the order of properties
  and is bounded in depth, a locator is accepted for its own tenant and wallet only, every
  contract a parser returns has fields of its declared types, and exactly the contracts with
  such fields are read back unchanged.
\<close>

section \<open>Serialisation\<close>

lemma stable_deep [simp]: "8 < d \<Longrightarrow> stableValue v d = unserializable ''serialization nesting limit exceeded''"
  by (simp add: stableValue.simps)

lemma stable_array: "\<not> 8 < d \<Longrightarrow> stableValue (JArr vs) d = (if 32 < length vs then unserializable ''array exceeds serialization bound''
    else bindE (mapE (\<lambda>w. stableValue w (d + 1)) vs) (\<lambda>ts. Inr (''['' @ comma_join ts @ '']'')))"
  by (subst stableValue.simps) simp

lemma stable_object: "\<not> 8 < d \<Longrightarrow> stableValue (JObj es) d = bindE (mapE (\<lambda>e. bindE (stableValue (snd e) (d + 1))
    (\<lambda>t. Inr (json_string (fst e) @ '':'' @ t))) (sort_entries es)) (\<lambda>ts. Inr (''{'' @ comma_join ts @ ''}''))"
  by (subst stableValue.simps) simp

lemma stable_scalars: "\<not> 8 < d \<Longrightarrow> stableValue JNull d = Inr ''null''" "\<not> 8 < d \<Longrightarrow> stableValue (JStr s) d = Inr (json_string s)"
  "\<not> 8 < d \<Longrightarrow> stableValue (JBool b) d = Inr (if b then ''true'' else ''false'')"
  by (simp_all add: stableValue.simps)

lemma stable_undefined [simp]: "stableValue JUndef d \<noteq> Inr t"
  by (simp add: stableValue.simps unserializable_def)

lemma stable_depth: "stableValue v d = Inr t \<Longrightarrow> \<not> 8 < d"
  by (auto simp: unserializable_def)

lemma stable_object_entry:
  assumes "stableValue (JObj es) d = Inr t" "e \<in> set es"
  shows "\<exists>u. stableValue (snd e) (d + 1) = Inr u"
proof -
  obtain i where i: "i < length (sort_entries es)" "sort_entries es ! i = e"
    using assms(2) by (metis in_set_conv_nth set_sort_entries)
  from assms(1) stable_depth [OF assms(1)] obtain ts where
    "list_all2 (\<lambda>e u. bindE (stableValue (snd e) (d + 1)) (\<lambda>t. Inr (json_string (fst e) @ '':'' @ t)) = Inr u) (sort_entries es) ts"
    by (auto simp: stable_object bindE_Inr mapE_Inr)
  from list_all2_nthD [OF this i(1)] show ?thesis by (auto simp: i(2) bindE_Inr)
qed

lemma stable_canonical: "stableValue v d = Inr t \<Longrightarrow> canonicalValue v = Inr t"
proof (induction v d arbitrary: t rule: stableValue.induct)
  case (1 v d)
  have d: "\<not> 8 < d" using "1.prems" by (rule stable_depth)
  show ?case
  proof (cases v)
    case (JArr vs)
    then obtain ts where n: "\<not> 32 < length vs" and ts: "mapE (\<lambda>w. stableValue w (d + 1)) vs = Inr ts" and t: "t = ''['' @ comma_join ts @ '']''"
      using "1.prems" d by (auto simp: stable_array unserializable_def bindE_Inr split: if_splits)
    have "canonicalValue w = Inr u" if "w \<in> set vs" "stableValue w (d + 1) = Inr u" for w u
      using "1.IH"(1) [OF d JArr n that] .
    with ts have "list_all2 (\<lambda>w u. canonicalValue w = Inr u) vs ts"
      by (auto simp: mapE_Inr intro: list.rel_mono_strong)
    with t JArr show ?thesis by (simp add: mapE_Inr bindE_Inr) blast
  next
    case (JObj es)
    let ?f = "\<lambda>e. bindE (stableValue (snd e) (d + 1)) (\<lambda>t. Inr (json_string (fst e) @ '':'' @ t))"
    from JObj obtain ts where ts: "list_all2 (\<lambda>e u. ?f e = Inr u) (sort_entries es) ts" and t: "t = ''{'' @ comma_join ts @ ''}''"
      using "1.prems" d by (auto simp: stable_object bindE_Inr mapE_Inr)
    have ok: "\<exists>u. stableValue (snd e) (d + 1) = Inr u" if "e \<in> set es" for e
      using stable_object_entry "1.prems" JObj that by blast
    have "filter (\<lambda>e. snd e \<noteq> JUndef) es = es"
      using ok stable_undefined by (fastforce simp: filter_id_conv)
    moreover have ih: "canonicalValue (snd e) = Inr u" if "e \<in> set es" "stableValue (snd e) (d + 1) = Inr u" for e u
      using "1.IH"(2) [OF d JObj _ that(2)] that(1) by simp
    have "list_all2 (\<lambda>e u. bindE (canonicalValue (snd e)) (\<lambda>t. Inr (json_string (fst e) @ '':'' @ t)) = Inr u) (sort_entries es) ts"
      using ts by (rule list.rel_mono_strong) (auto simp: bindE_Inr dest: ih)
    ultimately show ?thesis using t JObj by (simp add: mapE_Inr bindE_Inr) blast
  qed (use "1.prems" d in \<open>auto simp: stableValue.simps unserializable_def invalid_def split: if_splits\<close>)
qed

text \<open>How deep a value is nested, and how long its longest array is.\<close>

function nesting :: "jsval \<Rightarrow> nat" where
  "nesting (JArr vs) = Max (insert 0 (set (map (\<lambda>v. nesting v + 1) vs)))"
| "nesting (JObj es) = Max (insert 0 (set (map (\<lambda>e. nesting (snd e) + 1) es)))"
| "nesting JNull = 0" | "nesting (JStr s) = 0" | "nesting (JBool b) = 0" | "nesting (JInt n) = 0"
| "nesting JFraction = 0" | "nesting JNonFinite = 0" | "nesting JUndef = 0" | "nesting JOther = 0"
  by pat_completeness auto
termination
  by (relation "measure size") (auto simp: less_Suc_eq_le size_list_estimation' dest: entry_size')

lemma stable_nesting: "stableValue v d = Inr t \<Longrightarrow> nesting v + d \<le> 8"
proof (induction v arbitrary: d t rule: nesting.induct)
  case (1 vs)
  then have d: "\<not> 8 < d" by (blast dest: stable_depth)
  have "nesting v + 1 + d \<le> 8" if "v \<in> set vs" for v
  proof -
    from 1(2) d that obtain u where "stableValue v (d + 1) = Inr u"
      by (auto simp: stable_array unserializable_def bindE_Inr mapE_Inr list_all2_conv_all_nth in_set_conv_nth split: if_splits)
    from 1(1) [OF that this] show ?thesis by simp
  qed
  moreover have "Max (insert 0 (set (map (\<lambda>v. nesting v + 1) vs))) \<in> insert 0 (set (map (\<lambda>v. nesting v + 1) vs))"
    by (rule Max_in) auto
  ultimately show ?case using d by auto
next
  case (2 es)
  then have d: "\<not> 8 < d" by (blast dest: stable_depth)
  have "nesting (snd e) + 1 + d \<le> 8" if e: "e \<in> set es" for e
  proof -
    obtain u where "stableValue (snd e) (d + 1) = Inr u" using stable_object_entry [OF 2(2) e] by blast
    from 2(1) [OF e this] show ?thesis by simp
  qed
  moreover have "Max (insert 0 (set (map (\<lambda>e. nesting (snd e) + 1) es))) \<in> insert 0 (set (map (\<lambda>e. nesting (snd e) + 1) es))"
    by (rule Max_in) auto
  ultimately show ?case using d by auto
qed (auto dest: stable_depth)

lemma serialization_norm: "serializeCanonical v = Inr t \<Longrightarrow> serializeCanonical w = Inr t \<Longrightarrow> norm v = norm w"
  unfolding serializeCanonical_def by (rule canonical_inject [OF stable_canonical stable_canonical])

text \<open>
  Two values with the same canonical serialisation are the same up to the order of their
  properties, and neither is nested deeper than eight levels.
\<close>

theorem serialization_determines_value:
  assumes "serializeCanonical v = Inr t" "serializeCanonical w = Inr t"
  shows "norm v = norm w \<and> nesting v \<le> 8 \<and> nesting w \<le> 8"
proof -
  have s: "stableValue v 0 = Inr t" "stableValue w 0 = Inr t" using assms by (simp_all add: serializeCanonical_def)
  have "norm v = norm w" by (rule serialization_norm [OF assms])
  moreover have "nesting v \<le> 8" "nesting w \<le> 8" using stable_nesting [OF s(1)] stable_nesting [OF s(2)] by simp_all
  ultimately show ?thesis by blast
qed

definition ex_values :: "jsval \<times> jsval" where
  "ex_values = (JObj [(''b'', JBool True), (''a'', JArr [JNull])], JObj [(''a'', JArr [JNull]), (''b'', JBool True)])"

theorem serialization_determines_value_witness:
  "serializeCanonical (fst ex_values) = serializeCanonical (snd ex_values) \<and> fst ex_values \<noteq> snd ex_values
     \<and> norm (fst ex_values) = norm (snd ex_values)"
proof -
  let ?t = "''{'' @ comma_join [json_string ''a'' @ '':[null]'', json_string ''b'' @ '':true''] @ ''}''"
  have t: "serializeCanonical (fst ex_values) = Inr ?t" "serializeCanonical (snd ex_values) = Inr ?t" 
    by (simp_all add: serializeCanonical_def ex_values_def stable_object stable_array stable_scalars sort_entries_def)
  moreover have "fst ex_values \<noteq> snd ex_values" by (simp add: ex_values_def)
  moreover have "norm (fst ex_values) = norm (snd ex_values)" using serialization_determines_value [OF t] by blast
  moreover have "serializeCanonical (fst ex_values) = serializeCanonical (snd ex_values)" by (simp only: t)
  ultimately show ?thesis by blast
qed

section \<open>Wallet locators\<close>

lemma digest_text_no_underscore: "digest_text s \<Longrightarrow> CHR ''_'' \<notin> set s"
proof -
  assume "digest_text s"
  moreover have "CHR ''_'' \<notin> set ''0123456789abcdef''" by simp
  ultimately show ?thesis unfolding digest_text_def list_all_iff by blast
qed

lemma split_underscore_plain: "CHR ''_'' \<notin> set s \<Longrightarrow> split_underscore s = [s]"
  by (induction s) auto

lemma split_underscore_append: "CHR ''_'' \<notin> set a \<Longrightarrow> split_underscore (a @ CHR ''_'' # r) = a # split_underscore r"
  by (induction a) auto

lemma split_locator: "digest_text a \<Longrightarrow> digest_text b \<Longrightarrow> split_underscore (locator_text a b) = [''wlt'', ''v1'', a, b]"
  using split_underscore_append [of a b] split_underscore_plain [of b] digest_text_no_underscore
  by (simp add: locator_text_def)

lemma parse_locator_text: "digest_text a \<Longrightarrow> digest_text b \<Longrightarrow> parseWalletLocator (JStr (locator_text a b)) = Inr (locator_text a b)"
  by (simp add: parseWalletLocator_def locator_text_def digest_text_def)

lemma parseWalletLocator_Inr:
  assumes "parseWalletLocator v = Inr s"
  obtains a b where "v = JStr s" "s = locator_text a b" "digest_text a" "digest_text b"
proof -
  from assms have h: "v = JStr s" "take 7 s = ''wlt_v1_''" "digest_text (take 64 (drop 7 s))" "take 1 (drop 71 s) = ''_''" "digest_text (drop 72 s)"
    by (auto simp: parseWalletLocator_def split: jsval.splits if_splits)
  have "s = take 7 s @ take 64 (drop 7 s) @ take 1 (drop 71 s) @ drop 72 s"
    using append_take_drop_id [of 7 s] append_take_drop_id [of 64 "drop 7 s"] append_take_drop_id [of 1 "drop 71 s"] by simp
  with h have "s = locator_text (take 64 (drop 7 s)) (drop 72 s)" by (simp add: locator_text_def)
  with h that show ?thesis by blast
qed

lemma schema_id_Inr: "schema_id f v = Inr s \<longleftrightarrow> v = JStr s \<and> s \<noteq> '''' \<and> length s \<le> 128 \<and> list_all id_char s"
  by (auto simp: schema_id_def schema_string_def schema_fail_def split: jsval.splits if_splits)

text \<open>
  A locator made for a tenant and a wallet is accepted for exactly that tenant and, when
  a wallet is asked for, exactly that wallet; every other pair is a tenant mismatch, given
  that the digest separates the four inputs at hand.
\<close>

theorem locator_names_tenant_and_wallet:
  assumes "\<And>x. digest_text (digest x)" "createWalletLocator digest (JStr t) (JStr w) = Inr l"
    "schema_id ''tenantId'' (JStr t') = Inr t'" "schema_id ''walletId'' (JStr w') = Inr w'"
    "inj_on digest {''tenant:'' @ t, ''tenant:'' @ t', ''wallet:'' @ t @ '':'' @ w, ''wallet:'' @ t' @ '':'' @ w'}"
  shows "assertWalletLocatorTenant digest (JStr l) (JStr t') JUndef
      = (if t' = t then Inr l else Inl (Schema_error LOCATOR_TENANT_MISMATCH ''wallet locator is not scoped to this tenant''))
    \<and> assertWalletLocatorTenant digest (JStr l) (JStr t') (JStr w')
      = (if t' \<noteq> t then Inl (Schema_error LOCATOR_TENANT_MISMATCH ''wallet locator is not scoped to this tenant'')
         else if w' \<noteq> w then Inl (Schema_error LOCATOR_TENANT_MISMATCH ''wallet locator does not identify this wallet'') else Inr l)"
proof -
  have l: "l = locator_text (digest (''tenant:'' @ t)) (digest (''wallet:'' @ t @ '':'' @ w))"
    using assms(2) by (auto simp: createWalletLocator_def bindE_Inr schema_id_Inr)
  have p: "parseWalletLocator (JStr l) = Inr l" unfolding l by (rule parse_locator_text) (rule assms(1))+
  have s: "split_underscore l ! 2 = digest (''tenant:'' @ t)" "split_underscore l ! 3 = digest (''wallet:'' @ t @ '':'' @ w)"
    unfolding l by (simp_all only: split_locator [OF assms(1) assms(1)]) (simp_all add: nth_Cons')
  have tenant: "digest (''tenant:'' @ t) = digest (''tenant:'' @ t') \<longleftrightarrow> t = t'"
    using assms(5) by (auto dest: inj_onD)
  have wallet: "digest (''wallet:'' @ t @ '':'' @ w) = digest (''wallet:'' @ t @ '':'' @ w') \<longleftrightarrow> w = w'" if "t' = t"
    using assms(5) that by (auto dest: inj_onD)
  show ?thesis
    using assms(3,4) by (auto simp: assertWalletLocatorTenant_def p s tenant wallet simp del: append.simps)
qed

definition ex_digest :: "string \<Rightarrow> string" where
  "ex_digest s = (if s = ''tenant:a'' then replicate 64 (CHR ''1'') else if s = ''tenant:a:b'' then replicate 64 (CHR ''2'')
     else replicate 64 (CHR ''3''))"

theorem locator_names_tenant_and_wallet_witness:
  "\<exists>l. createWalletLocator ex_digest (JStr ''a'') (JStr ''b:c'') = Inr l
     \<and> assertWalletLocatorTenant ex_digest (JStr l) (JStr ''a:b'') JUndef
       = Inl (Schema_error LOCATOR_TENANT_MISMATCH ''wallet locator is not scoped to this tenant'')"
proof -
  have d: "digest_text (ex_digest x)" for x by (simp add: ex_digest_def digest_text_def list_all_iff)
  obtain l where l: "createWalletLocator ex_digest (JStr ''a'') (JStr ''b:c'') = Inr l"
    by (auto simp: createWalletLocator_def schema_id_def schema_string_def id_char_def char_classes)
  have i: "schema_id ''tenantId'' (JStr ''a:b'') = Inr ''a:b''" "schema_id ''walletId'' (JStr ''c'') = Inr ''c''"
    by (simp_all add: schema_id_def schema_string_def id_char_def char_classes)
  have j: "inj_on ex_digest {''tenant:'' @ ''a'', ''tenant:'' @ ''a:b'', ''wallet:'' @ ''a'' @ '':'' @ ''b:c'', ''wallet:'' @ ''a:b'' @ '':'' @ ''c''}"
    by (simp add: inj_on_def ex_digest_def)
  show ?thesis using locator_names_tenant_and_wallet [OF d l i j] l by auto
qed

section \<open>Parsed contracts\<close>

lemma hex_string_even_hex: "hex_string n s \<longleftrightarrow> take 2 s = ''0x'' \<and> length s = n + 2 \<and> list_all is_hex (drop 2 s)"
  by (cases "(n, s)" rule: hex_string.cases) auto

text \<open>The declared types of the fields, said on the text itself.\<close>

definition ident_field :: "string \<Rightarrow> bool" where
  "ident_field s \<longleftrightarrow> 0 < length s \<and> length s \<le> 128 \<and> list_all id_char s"

definition text_field :: "nat \<Rightarrow> string \<Rightarrow> bool" where
  "text_field m s \<longleftrightarrow> 0 < length s \<and> length s \<le> m"

definition lower_hex :: "string \<Rightarrow> bool" where
  "lower_hex s \<longleftrightarrow> list_all (\<lambda>c. c \<in> set ''0123456789abcdef'') s"

definition address_field :: "string \<Rightarrow> bool" where
  "address_field s \<longleftrightarrow> (\<exists>h. s = ''0x'' @ h \<and> length h = 40 \<and> lower_hex h)"

definition bytes_field :: "nat \<Rightarrow> string \<Rightarrow> bool" where
  "bytes_field m s \<longleftrightarrow> (\<exists>h. s = ''0x'' @ h \<and> even (length h) \<and> length h \<le> 2 * m \<and> lower_hex h)"

definition decimal_field :: "string \<Rightarrow> bool" where
  "decimal_field s \<longleftrightarrow> 0 < length s \<and> length s \<le> 80 \<and> list_all is_digit s \<and> (hd s = CHR ''0'' \<longrightarrow> length s = 1)"

definition locator_field :: "string \<Rightarrow> bool" where
  "locator_field s \<longleftrightarrow> (\<exists>a b. s = ''wlt_v1_'' @ a @ ''_'' @ b \<and> length a = 64 \<and> lower_hex a \<and> length b = 64 \<and> lower_hex b)"

definition date_field :: "(string \<Rightarrow> bool) \<Rightarrow> string \<Rightarrow> bool" where
  "date_field date s \<longleftrightarrow> 0 < length s \<and> length s \<le> 64 \<and> date s"

lemma lower_char_hex: "is_hex c \<Longrightarrow> lower_char c \<in> set ''0123456789abcdef''"
proof -
  have "\<forall>c\<in>set ''0123456789abcdefABCDEF''. lower_char c \<in> set ''0123456789abcdef''" by code_simp
  then show "is_hex c \<Longrightarrow> lower_char c \<in> set ''0123456789abcdef''" unfolding is_hex_def by (rule bspec)
qed

lemma lower_hex_char: "c \<in> set ''0123456789abcdef'' \<longleftrightarrow> is_hex c \<and> lower_char c = c"
proof -
  have 1: "\<forall>c\<in>set ''0123456789abcdef''. is_hex c \<and> lower_char c = c" by code_simp
  with lower_char_hex show ?thesis by metis
qed

lemma lower_hex_iff: "lower_hex s \<longleftrightarrow> list_all is_hex s \<and> to_lower s = s"
  unfolding lower_hex_def lower_hex_char
  by (induction s) (auto simp: to_lower_def)

lemma lower_0x: "to_lower (''0x'' @ h) = ''0x'' @ to_lower h"
proof -
  have "to_lower ''0x'' = ''0x''" by (simp add: to_lower_def lower_char_def Let_def)
  then show ?thesis by (simp only: to_lower_append)
qed

lemma hex_text_split: "take 2 s = ''0x'' \<longleftrightarrow> (\<exists>h. s = ''0x'' @ h)"
  by (metis append_eq_conv_conj append_take_drop_id length_Cons list.size(3) numeral_2_eq_2)

lemma lower_hex_to_lower: "list_all is_hex h \<Longrightarrow> lower_hex (to_lower h)"
  unfolding lower_hex_def to_lower_def list_all_iff using lower_char_hex by fastforce

lemma field_types:
  "schema_string m f v = Inr s \<longleftrightarrow> v = JStr s \<and> text_field m s"
  "schema_id f v = Inr s \<longleftrightarrow> v = JStr s \<and> ident_field s"
  "schema_integer k f v = Inr n \<longleftrightarrow> v = JInt n \<and> safe_integer n \<and> k \<le> n"
  "schema_timestamp date f v = Inr s \<longleftrightarrow> v = JStr s \<and> date_field date s"
  "schema_decimal f v = Inr s \<longleftrightarrow> v = JStr s \<and> decimal_field s"
  "schema_choice cs msg v = Inr s \<longleftrightarrow> v = JStr s \<and> s \<in> set cs"
proof -
  show str: "schema_string m f v = Inr s \<longleftrightarrow> v = JStr s \<and> text_field m s" for m f v s
    by (auto simp: schema_string_def schema_fail_def text_field_def split: jsval.splits if_splits)
  show "schema_id f v = Inr s \<longleftrightarrow> v = JStr s \<and> ident_field s"
    by (auto simp: schema_id_def bindE_Inr str schema_fail_def text_field_def ident_field_def split: if_splits)
  show "schema_integer k f v = Inr n \<longleftrightarrow> v = JInt n \<and> safe_integer n \<and> k \<le> n"
    by (auto simp: schema_integer_def schema_fail_def split: jsval.splits if_splits)
  show "schema_timestamp date f v = Inr s \<longleftrightarrow> v = JStr s \<and> date_field date s"
    by (auto simp: schema_timestamp_def bindE_Inr str schema_fail_def text_field_def date_field_def split: if_splits)
  have "decimal_text s \<longleftrightarrow> list_all is_digit s \<and> (hd s = CHR ''0'' \<longrightarrow> length s = 1)" if "s \<noteq> ''''"
    using that by (cases s) (auto simp: decimal_text_def is_digit_def)
  then show "schema_decimal f v = Inr s \<longleftrightarrow> v = JStr s \<and> decimal_field s"
    by (auto simp: schema_decimal_def bindE_Inr str schema_fail_def text_field_def decimal_field_def split: if_splits)
  show "schema_choice cs msg v = Inr s \<longleftrightarrow> v = JStr s \<and> s \<in> set cs"
    by (auto simp: schema_choice_def schema_fail_def split: jsval.splits if_splits)
qed

lemma address_type: "schema_address f v = Inr s \<Longrightarrow> address_field s"
  and address_again: "address_field s \<Longrightarrow> schema_address f (JStr s) = Inr s"
proof -
  assume "schema_address f v = Inr s"
  then obtain r where r: "hex_string 40 r" "s = to_lower r"
    by (auto simp: schema_address_def schema_fail_def bindE_Inr split: if_splits)
  then obtain h where h: "r = ''0x'' @ h" by (auto simp: hex_string_even_hex hex_text_split)
  then have "length h = 40" "list_all is_hex h" using r(1) by (auto simp: hex_string_even_hex)
  then show "address_field s" unfolding address_field_def r(2) h lower_0x
    using lower_hex_to_lower [of h] by (intro exI [of _ "to_lower h"]) simp
next
  assume "address_field s"
  then obtain h where h: "s = ''0x'' @ h" "length h = 40" "list_all is_hex h" "to_lower h = h"
    by (auto simp: address_field_def lower_hex_iff)
  then have "hex_string 40 s" "to_lower s = s" by (simp_all only: hex_string_even_hex lower_0x, simp_all)
  with h(1,2) show "schema_address f (JStr s) = Inr s" by (simp add: schema_address_def field_types(1) bindE_Inr text_field_def)
qed

lemma bytes_type: "schema_hex m f v = Inr s \<Longrightarrow> bytes_field m s"
  and bytes_again: "bytes_field m s \<Longrightarrow> schema_hex m f (JStr s) = Inr s"
proof -
  assume "schema_hex m f v = Inr s"
  then obtain r where r: "even_hex r" "(length r - 2) div 2 \<le> m" "s = to_lower r"
    by (auto simp: schema_hex_def schema_fail_def bindE_Inr split: if_splits)
  then obtain h where h: "r = ''0x'' @ h" by (auto simp: even_hex_def hex_text_split)
  then have "even (length h)" "length h \<le> 2 * m" "list_all is_hex h" using r(1,2) by (auto simp: even_hex_def)
  then show "bytes_field m s" unfolding bytes_field_def r(3) h lower_0x
    using lower_hex_to_lower [of h] by (intro exI [of _ "to_lower h"]) simp
next
  assume "bytes_field m s"
  then obtain h where h: "s = ''0x'' @ h" "even (length h)" "length h \<le> 2 * m" "list_all is_hex h" "to_lower h = h"
    by (auto simp: bytes_field_def lower_hex_iff)
  then have "even_hex s" "to_lower s = s" by (simp_all only: lower_0x, simp_all add: even_hex_def)
  moreover have "\<not> m < length h div 2" using h(3) by linarith
  ultimately show "schema_hex m f (JStr s) = Inr s"
    using h(1,3) by (simp add: schema_hex_def field_types(1) bindE_Inr text_field_def mult.commute)
qed

lemma locator_digests: "locator_field s \<longleftrightarrow> (\<exists>a b. s = locator_text a b \<and> digest_text a \<and> digest_text b)"
  unfolding locator_field_def locator_text_def digest_text_def lower_hex_def by blast

lemma locator_type: "parseWalletLocator v = Inr s \<longleftrightarrow> v = JStr s \<and> locator_field s"
proof
  assume "parseWalletLocator v = Inr s"
  then show "v = JStr s \<and> locator_field s"
    by (rule parseWalletLocator_Inr) (use locator_digests in blast)
next
  assume "v = JStr s \<and> locator_field s"
  then obtain a b where "v = JStr s" "s = locator_text a b" "digest_text a" "digest_text b"
    using locator_digests by blast
  then show "parseWalletLocator v = Inr s" by (simp add: parse_locator_text)
qed

definition text_or_undef :: "string option \<Rightarrow> jsval" where
  "text_or_undef x = (case x of None \<Rightarrow> JUndef | Some s \<Rightarrow> JStr s)"

lemma optional_text: "schema_optional (schema_string m f) v = Inr x \<longleftrightarrow> v = text_or_undef x \<and> (\<forall>s. x = Some s \<longrightarrow> text_field m s)"
  by (cases x) (auto simp: schema_optional_def text_or_undef_def bindE_Inr field_types)

lemma optional_bytes:
  "schema_optional (schema_hex m f) v = Inr x \<Longrightarrow> x = Some s \<Longrightarrow> bytes_field m s"
  "(\<And>s. x = Some s \<Longrightarrow> bytes_field m s) \<Longrightarrow> schema_optional (schema_hex m f) (text_or_undef x) = Inr x"
  by (cases x; auto simp: schema_optional_def text_or_undef_def bindE_Inr bytes_again dest: bytes_type split: if_splits)+

text \<open>The objects that the parsed contracts stand for; an absent property reads as undefined.\<close>

definition contract_js :: "(string \<times> jsval) list \<Rightarrow> jsval" where
  "contract_js es = JObj ((''schemaVersion'', JInt 1) # es)"

definition tenant_js :: "tenant \<Rightarrow> jsval" where
  "tenant_js x = contract_js [(''tenantId'', JStr (tn_tenantId x)), (''displayName'', JStr (tn_displayName x)), (''createdAt'', JStr (tn_createdAt x))]"

definition principal_js :: "principal \<Rightarrow> jsval" where
  "principal_js x = contract_js [(''principalId'', JStr (pr_principalId x)), (''tenantId'', JStr (pr_tenantId x)),
     (''kind'', JStr (pr_kind x)), (''status'', JStr (pr_status x))]"

definition wallet_js :: "wallet \<Rightarrow> jsval" where
  "wallet_js x = contract_js [(''walletId'', JStr (wl_walletId x)), (''tenantId'', JStr (wl_tenantId x)), (''locator'', JStr (wl_locator x)),
     (''chainId'', JInt (wl_chainId x)), (''address'', JStr (wl_address x)), (''status'', JStr (wl_status x)), (''did'', text_or_undef (wl_did x))]"

definition signer_binding_js :: "signer_binding \<Rightarrow> jsval" where
  "signer_binding_js x = contract_js [(''signerId'', JStr (sb_signerId x)), (''walletLocator'', JStr (sb_walletLocator x)),
     (''kind'', JStr (sb_kind x)), (''status'', JStr (sb_status x)), (''publicKey'', text_or_undef (sb_publicKey x))]"

definition auth_identity_js :: "auth_identity \<Rightarrow> jsval" where
  "auth_identity_js x = contract_js [(''identityId'', JStr (ai_identityId x)), (''principalId'', JStr (ai_principalId x)),
     (''provider'', JStr (ai_provider x)), (''subjectHash'', JStr (ai_subjectHash x)), (''verifiedAt'', JStr (ai_verifiedAt x))]"

definition transaction_intent_js :: "transaction_intent \<Rightarrow> jsval" where
  "transaction_intent_js x = contract_js [(''intentId'', JStr (tx_intentId x)), (''walletLocator'', JStr (tx_walletLocator x)),
     (''chainId'', JInt (tx_chainId x)), (''target'', JStr (tx_target x)), (''value'', JStr (tx_value x)), (''data'', JStr (tx_data x)),
     (''expiresAt'', JStr (tx_expiresAt x))]"

definition authorization_challenge_js :: "authorization_challenge \<Rightarrow> jsval" where
  "authorization_challenge_js x = contract_js [(''challengeId'', JStr (ac_challengeId x)), (''walletLocator'', JStr (ac_walletLocator x)),
     (''nonce'', JStr (ac_nonce x)), (''audience'', JStr (ac_audience x)), (''expiresAt'', JStr (ac_expiresAt x))]"

definition audit_event_js :: "audit_event \<Rightarrow> jsval" where
  "audit_event_js x = contract_js [(''eventId'', JStr (ae_eventId x)), (''tenantId'', JStr (ae_tenantId x)), (''eventType'', JStr (ae_eventType x)),
     (''actorKind'', JStr (ae_actorKind x)), (''outcome'', JStr (ae_outcome x)), (''resource'', JStr (ae_resource x)), (''createdAt'', JStr (ae_createdAt x))]"

definition vendor_bundle_js :: "vendor_bundle \<Rightarrow> jsval" where
  "vendor_bundle_js x = contract_js [(''bundleId'', JStr (mb_bundleId x)), (''walletLocator'', JStr (mb_walletLocator x)),
     (''sourceVendor'', JStr (mb_sourceVendor x)), (''targetVendor'', JStr (mb_targetVendor x)), (''payloadDigest'', JStr (mb_payloadDigest x)),
     (''signature'', JStr (mb_signature x)), (''issuedAt'', JStr (mb_issuedAt x)), (''expiresAt'', JStr (mb_expiresAt x))]"

lemma parse_contract_Inr: "parse_contract name allowed body v = Inr x \<longleftrightarrow>
    (\<exists>es. v = JObj es \<and> (\<forall>e\<in>set es. fst e \<in> set allowed) \<and> jfield es ''schemaVersion'' = JInt 1 \<and> body es = Inr x)"
proof -
  have k: "schema_keys es allowed = Inr u \<longleftrightarrow> (\<forall>e\<in>set es. fst e \<in> set allowed)" for es u
    by (auto simp: schema_keys_def find_None_iff find_Some_iff split: option.splits)
  show ?thesis
    by (cases v) (auto simp: parse_contract_def bindE_Inr k schema_version_def schema_fail_def split: if_splits)
qed

lemma contract_reparse:
  assumes "list_all (\<lambda>e. fst e \<in> set allowed) es" "''schemaVersion'' \<in> set allowed" "body ((''schemaVersion'', JInt 1) # es) = Inr x"
  shows "parse_contract name allowed body (contract_js es) = Inr x"
  using assms by (auto simp: parse_contract_Inr contract_js_def list_all_iff)

text \<open>What a contract of each kind is.\<close>

definition tenant_typed :: "(string \<Rightarrow> bool) \<Rightarrow> tenant \<Rightarrow> bool" where
  "tenant_typed date x \<longleftrightarrow> ident_field (tn_tenantId x) \<and> text_field 256 (tn_displayName x) \<and> date_field date (tn_createdAt x)"

definition principal_typed :: "principal \<Rightarrow> bool" where
  "principal_typed x \<longleftrightarrow> ident_field (pr_principalId x) \<and> ident_field (pr_tenantId x)
     \<and> pr_kind x \<in> {''user'', ''service''} \<and> pr_status x \<in> {''active'', ''suspended''}"

definition wallet_typed :: "wallet \<Rightarrow> bool" where
  "wallet_typed x \<longleftrightarrow> ident_field (wl_walletId x) \<and> ident_field (wl_tenantId x) \<and> locator_field (wl_locator x)
     \<and> safe_integer (wl_chainId x) \<and> 1 \<le> wl_chainId x \<and> address_field (wl_address x)
     \<and> wl_status x \<in> {''active'', ''suspended'', ''closed''} \<and> (\<forall>d. wl_did x = Some d \<longrightarrow> text_field 256 d)"

definition signer_binding_typed :: "signer_binding \<Rightarrow> bool" where
  "signer_binding_typed x \<longleftrightarrow> ident_field (sb_signerId x) \<and> locator_field (sb_walletLocator x)
     \<and> sb_kind x \<in> {''passkey'', ''recovery'', ''operational''} \<and> sb_status x \<in> {''active'', ''revoked''}
     \<and> (\<forall>k. sb_publicKey x = Some k \<longrightarrow> bytes_field 32768 k)"

definition auth_identity_typed :: "(string \<Rightarrow> bool) \<Rightarrow> auth_identity \<Rightarrow> bool" where
  "auth_identity_typed date x \<longleftrightarrow> ident_field (ai_identityId x) \<and> ident_field (ai_principalId x)
     \<and> ai_provider x \<in> {''email'', ''oidc'', ''passkey''} \<and> bytes_field 64 (ai_subjectHash x) \<and> date_field date (ai_verifiedAt x)"

definition transaction_intent_typed :: "(string \<Rightarrow> bool) \<Rightarrow> transaction_intent \<Rightarrow> bool" where
  "transaction_intent_typed date x \<longleftrightarrow> ident_field (tx_intentId x) \<and> locator_field (tx_walletLocator x)
     \<and> safe_integer (tx_chainId x) \<and> 1 \<le> tx_chainId x \<and> address_field (tx_target x) \<and> decimal_field (tx_value x)
     \<and> bytes_field 32768 (tx_data x) \<and> date_field date (tx_expiresAt x)"

definition authorization_challenge_typed :: "(string \<Rightarrow> bool) \<Rightarrow> authorization_challenge \<Rightarrow> bool" where
  "authorization_challenge_typed date x \<longleftrightarrow> ident_field (ac_challengeId x) \<and> locator_field (ac_walletLocator x) \<and> bytes_field 64 (ac_nonce x)
     \<and> text_field 256 (ac_audience x) \<and> date_field date (ac_expiresAt x)"

definition audit_event_typed :: "(string \<Rightarrow> bool) \<Rightarrow> audit_event \<Rightarrow> bool" where
  "audit_event_typed date x \<longleftrightarrow> ident_field (ae_eventId x) \<and> ident_field (ae_tenantId x) \<and> text_field 256 (ae_eventType x)
     \<and> ae_actorKind x \<in> {''user'', ''service'', ''system''} \<and> ae_outcome x \<in> {''accepted'', ''rejected''}
     \<and> text_field 256 (ae_resource x) \<and> date_field date (ae_createdAt x)"

definition vendor_bundle_typed :: "(string \<Rightarrow> bool) \<Rightarrow> vendor_bundle \<Rightarrow> bool" where
  "vendor_bundle_typed date x \<longleftrightarrow> ident_field (mb_bundleId x) \<and> locator_field (mb_walletLocator x) \<and> ident_field (mb_sourceVendor x)
     \<and> ident_field (mb_targetVendor x) \<and> bytes_field 64 (mb_payloadDigest x) \<and> bytes_field 16384 (mb_signature x)
     \<and> date_field date (mb_issuedAt x) \<and> date_field date (mb_expiresAt x)"

lemmas field_iffs = field_types locator_type optional_text
lemmas field_intros = address_again bytes_again optional_bytes(2)

lemma tenant_contract:
  "parseTenant date v = Inr x \<Longrightarrow> tenant_typed date x"
  "parseTenant date (tenant_js x) = Inr x \<longleftrightarrow> tenant_typed date x"
proof -
  show typed: "parseTenant date v = Inr x \<Longrightarrow> tenant_typed date x" for v
    unfolding parseTenant_def tenant_typed_def
    by (auto simp: parse_contract_Inr bindE_Inr field_iffs dest: address_type bytes_type optional_bytes(1))
  have "parseTenant date (tenant_js x) = Inr x" if "tenant_typed date x"
    using that unfolding parseTenant_def tenant_js_def tenant_typed_def
    by (intro contract_reparse) (auto simp: bindE_Inr field_iffs field_intros)
  with typed show "parseTenant date (tenant_js x) = Inr x \<longleftrightarrow> tenant_typed date x" by blast
qed

lemma principal_contract:
  "parsePrincipal v = Inr x \<Longrightarrow> principal_typed x"
  "parsePrincipal (principal_js x) = Inr x \<longleftrightarrow> principal_typed x"
proof -
  show typed: "parsePrincipal v = Inr x \<Longrightarrow> principal_typed x" for v
    unfolding parsePrincipal_def principal_typed_def
    by (auto simp: parse_contract_Inr bindE_Inr field_iffs dest: address_type bytes_type optional_bytes(1))
  have "parsePrincipal (principal_js x) = Inr x" if "principal_typed x"
    using that unfolding parsePrincipal_def principal_js_def principal_typed_def
    by (intro contract_reparse) (auto simp: bindE_Inr field_iffs field_intros)
  with typed show "parsePrincipal (principal_js x) = Inr x \<longleftrightarrow> principal_typed x" by blast
qed

lemma wallet_contract:
  "parseWallet v = Inr x \<Longrightarrow> wallet_typed x"
  "parseWallet (wallet_js x) = Inr x \<longleftrightarrow> wallet_typed x"
proof -
  show typed: "parseWallet v = Inr x \<Longrightarrow> wallet_typed x" for v
    unfolding parseWallet_def wallet_typed_def
    by (auto simp: parse_contract_Inr bindE_Inr field_iffs dest: address_type bytes_type optional_bytes(1))
  have "parseWallet (wallet_js x) = Inr x" if "wallet_typed x"
    using that unfolding parseWallet_def wallet_js_def wallet_typed_def
    by (intro contract_reparse) (auto simp: bindE_Inr field_iffs field_intros)
  with typed show "parseWallet (wallet_js x) = Inr x \<longleftrightarrow> wallet_typed x" by blast
qed

lemma signer_binding_contract:
  "parseSignerBinding v = Inr x \<Longrightarrow> signer_binding_typed x"
  "parseSignerBinding (signer_binding_js x) = Inr x \<longleftrightarrow> signer_binding_typed x"
proof -
  show typed: "parseSignerBinding v = Inr x \<Longrightarrow> signer_binding_typed x" for v
    unfolding parseSignerBinding_def signer_binding_typed_def
    by (auto simp: parse_contract_Inr bindE_Inr field_iffs dest: address_type bytes_type optional_bytes(1))
  have "parseSignerBinding (signer_binding_js x) = Inr x" if "signer_binding_typed x"
    using that unfolding parseSignerBinding_def signer_binding_js_def signer_binding_typed_def
    by (intro contract_reparse) (auto simp: bindE_Inr field_iffs field_intros)
  with typed show "parseSignerBinding (signer_binding_js x) = Inr x \<longleftrightarrow> signer_binding_typed x" by blast
qed

lemma auth_identity_contract:
  "parseAuthIdentity date v = Inr x \<Longrightarrow> auth_identity_typed date x"
  "parseAuthIdentity date (auth_identity_js x) = Inr x \<longleftrightarrow> auth_identity_typed date x"
proof -
  show typed: "parseAuthIdentity date v = Inr x \<Longrightarrow> auth_identity_typed date x" for v
    unfolding parseAuthIdentity_def auth_identity_typed_def
    by (auto simp: parse_contract_Inr bindE_Inr field_iffs dest: address_type bytes_type optional_bytes(1))
  have "parseAuthIdentity date (auth_identity_js x) = Inr x" if "auth_identity_typed date x"
    using that unfolding parseAuthIdentity_def auth_identity_js_def auth_identity_typed_def
    by (intro contract_reparse) (auto simp: bindE_Inr field_iffs field_intros)
  with typed show "parseAuthIdentity date (auth_identity_js x) = Inr x \<longleftrightarrow> auth_identity_typed date x" by blast
qed

lemma transaction_intent_contract:
  "parseTransactionIntent date v = Inr x \<Longrightarrow> transaction_intent_typed date x"
  "parseTransactionIntent date (transaction_intent_js x) = Inr x \<longleftrightarrow> transaction_intent_typed date x"
proof -
  show typed: "parseTransactionIntent date v = Inr x \<Longrightarrow> transaction_intent_typed date x" for v
    unfolding parseTransactionIntent_def transaction_intent_typed_def
    by (auto simp: parse_contract_Inr bindE_Inr field_iffs dest: address_type bytes_type optional_bytes(1))
  have "parseTransactionIntent date (transaction_intent_js x) = Inr x" if "transaction_intent_typed date x"
    using that unfolding parseTransactionIntent_def transaction_intent_js_def transaction_intent_typed_def
    by (intro contract_reparse) (auto simp: bindE_Inr field_iffs field_intros)
  with typed show "parseTransactionIntent date (transaction_intent_js x) = Inr x \<longleftrightarrow> transaction_intent_typed date x" by blast
qed

lemma authorization_challenge_contract:
  "parseAuthorizationChallenge date v = Inr x \<Longrightarrow> authorization_challenge_typed date x"
  "parseAuthorizationChallenge date (authorization_challenge_js x) = Inr x \<longleftrightarrow> authorization_challenge_typed date x"
proof -
  show typed: "parseAuthorizationChallenge date v = Inr x \<Longrightarrow> authorization_challenge_typed date x" for v
    unfolding parseAuthorizationChallenge_def authorization_challenge_typed_def
    by (auto simp: parse_contract_Inr bindE_Inr field_iffs dest: address_type bytes_type optional_bytes(1))
  have "parseAuthorizationChallenge date (authorization_challenge_js x) = Inr x" if "authorization_challenge_typed date x"
    using that unfolding parseAuthorizationChallenge_def authorization_challenge_js_def authorization_challenge_typed_def
    by (intro contract_reparse) (auto simp: bindE_Inr field_iffs field_intros)
  with typed show "parseAuthorizationChallenge date (authorization_challenge_js x) = Inr x \<longleftrightarrow> authorization_challenge_typed date x" by blast
qed

lemma audit_event_contract:
  "parseAuditEvent date v = Inr x \<Longrightarrow> audit_event_typed date x"
  "parseAuditEvent date (audit_event_js x) = Inr x \<longleftrightarrow> audit_event_typed date x"
proof -
  show typed: "parseAuditEvent date v = Inr x \<Longrightarrow> audit_event_typed date x" for v
    unfolding parseAuditEvent_def audit_event_typed_def
    by (auto simp: parse_contract_Inr bindE_Inr field_iffs dest: address_type bytes_type optional_bytes(1))
  have "parseAuditEvent date (audit_event_js x) = Inr x" if "audit_event_typed date x"
    using that unfolding parseAuditEvent_def audit_event_js_def audit_event_typed_def
    by (intro contract_reparse) (auto simp: bindE_Inr field_iffs field_intros)
  with typed show "parseAuditEvent date (audit_event_js x) = Inr x \<longleftrightarrow> audit_event_typed date x" by blast
qed

lemma vendor_bundle_contract:
  "parseMigrationBundle date v = Inr x \<Longrightarrow> vendor_bundle_typed date x"
  "parseMigrationBundle date (vendor_bundle_js x) = Inr x \<longleftrightarrow> vendor_bundle_typed date x"
proof -
  show typed: "parseMigrationBundle date v = Inr x \<Longrightarrow> vendor_bundle_typed date x" for v
    unfolding parseMigrationBundle_def vendor_bundle_typed_def
    by (auto simp: parse_contract_Inr bindE_Inr field_iffs dest: address_type bytes_type optional_bytes(1))
  have "parseMigrationBundle date (vendor_bundle_js x) = Inr x" if "vendor_bundle_typed date x"
    using that unfolding parseMigrationBundle_def vendor_bundle_js_def vendor_bundle_typed_def
    by (intro contract_reparse) (auto simp: bindE_Inr field_iffs field_intros)
  with typed show "parseMigrationBundle date (vendor_bundle_js x) = Inr x \<longleftrightarrow> vendor_bundle_typed date x" by blast
qed

lemmas contracts_typed = tenant_contract(1) principal_contract(1) wallet_contract(1) signer_binding_contract(1) auth_identity_contract(1)
  transaction_intent_contract(1) authorization_challenge_contract(1) audit_event_contract(1) vendor_bundle_contract(1)

lemmas contracts_read = tenant_contract(2) principal_contract(2) wallet_contract(2) signer_binding_contract(2) auth_identity_contract(2)
  transaction_intent_contract(2) authorization_challenge_contract(2) audit_event_contract(2) vendor_bundle_contract(2)

text \<open>
  C40: Every contract a parser returns, from whatever untrusted value, has fields of its
  declared types: identifiers, bounded texts, safe integers from 1, lower-case addresses and
  byte strings within their bounds, decimal amounts, locators, dates and the listed words.
  Conversely every contract with such fields is accepted: its object form is read back
  unchanged exactly when it is well typed.
\<close>

theorem parsed_contracts_reparse:
  "(parseTenant date v = Inr t \<longrightarrow> tenant_typed date t) \<and> (parseTenant date (tenant_js t) = Inr t \<longleftrightarrow> tenant_typed date t)
   \<and> (parsePrincipal v = Inr p \<longrightarrow> principal_typed p) \<and> (parsePrincipal (principal_js p) = Inr p \<longleftrightarrow> principal_typed p)
   \<and> (parseWallet v = Inr w \<longrightarrow> wallet_typed w) \<and> (parseWallet (wallet_js w) = Inr w \<longleftrightarrow> wallet_typed w)
   \<and> (parseSignerBinding v = Inr s \<longrightarrow> signer_binding_typed s) \<and> (parseSignerBinding (signer_binding_js s) = Inr s \<longleftrightarrow> signer_binding_typed s)
   \<and> (parseAuthIdentity date v = Inr a \<longrightarrow> auth_identity_typed date a) \<and> (parseAuthIdentity date (auth_identity_js a) = Inr a \<longleftrightarrow> auth_identity_typed date a)
   \<and> (parseTransactionIntent date v = Inr i \<longrightarrow> transaction_intent_typed date i) \<and> (parseTransactionIntent date (transaction_intent_js i) = Inr i \<longleftrightarrow> transaction_intent_typed date i)
   \<and> (parseAuthorizationChallenge date v = Inr c \<longrightarrow> authorization_challenge_typed date c) \<and> (parseAuthorizationChallenge date (authorization_challenge_js c) = Inr c \<longleftrightarrow> authorization_challenge_typed date c)
   \<and> (parseAuditEvent date v = Inr e \<longrightarrow> audit_event_typed date e) \<and> (parseAuditEvent date (audit_event_js e) = Inr e \<longleftrightarrow> audit_event_typed date e)
   \<and> (parseMigrationBundle date v = Inr b \<longrightarrow> vendor_bundle_typed date b) \<and> (parseMigrationBundle date (vendor_bundle_js b) = Inr b \<longleftrightarrow> vendor_bundle_typed date b)"
  by (intro conjI impI; (rule contracts_read | erule contracts_typed))

definition ex_tenant :: jsval where
  "ex_tenant = JObj [(''tenantId'', JStr ''t.1''), (''schemaVersion'', JInt 1), (''createdAt'', JStr ''2026-01-01''), (''displayName'', JStr ''One'')]"

theorem parsed_contracts_reparse_witness:
  "\<exists>t. parseTenant (\<lambda>_. True) ex_tenant = Inr t \<and> tenant_typed (\<lambda>_. True) t \<and> parseTenant (\<lambda>_. True) (tenant_js t) = Inr t"
proof -
  obtain t where t: "parseTenant (\<lambda>_. True) ex_tenant = Inr t"
    by (auto simp: ex_tenant_def parseTenant_def parse_contract_def schema_keys_def schema_version_def schema_id_def schema_string_def
        schema_timestamp_def id_char_def char_classes)
  with parsed_contracts_reparse [of "\<lambda>_. True" ex_tenant t] show ?thesis by blast
qed

end
