(* ===== verification/WalletPortabilityProps.thy ===== *)
theory WalletPortabilityProps
  imports WalletPortability CredentialVaultProps PlatformTypesProps "HOL-Library.Multiset"
begin

text \<open>
  What portability promises: no property of the exported state has a secret name, a bundle
  opens only when its signature, header and account agree and after consent, an exported
  bundle opens to the state it was made from, up to the order of its properties (when the
  address is in lower case), a failed
  import rolls back its handle, and a rotation removes the old control only after the new one
  was verified.
\<close>

section \<open>Vendor rotation\<close>

definition rotation_calls :: "port_call list" where
  "rotation_calls = [Authorize ''vendor-rotation'', Inspect, Install_next, Verify_next, Take_snapshot, Remove_old]"

definition control_verified :: "rotation_port \<Rightarrow> bool" where
  "control_verified ro \<longleftrightarrow> ro_install ro = Inr () \<and> ro_verify ro = Inr True
     \<and> (\<exists>c a. ro_inspect ro = Inr c \<and> rc_portable c \<and> rc_recoveryAvailable c \<and> ro_snapshot ro = Inr a
        \<and> wi_address a = rc_account c \<and> wi_chainId a = rc_chainId c \<and> wi_did a = rc_did c)"

text \<open>
  C39: A rotation removes the old control exactly when it was authorised and the new control
  was installed and verified for the same account, as its sixth call; it succeeds exactly when
  that removal does, and a rollback only follows an installation and never a success.
\<close>

theorem rotation_outcome:
  assumes "rotateVendor auth ro [] = (r, calls)"
  shows "(Remove_old \<in> set calls \<longleftrightarrow> auth ''vendor-rotation'' = Inr () \<and> control_verified ro)
    \<and> (Remove_old \<in> set calls \<longrightarrow> take 6 calls = rotation_calls)
    \<and> ((\<exists>x. r = Inr x) \<longleftrightarrow> calls = rotation_calls \<and> ro_remove ro = Inr ())
    \<and> (Rollback_next \<in> set calls \<longrightarrow> Install_next \<in> set calls \<and> last calls = Rollback_next
        \<and> r = Inl (if ro_rollback ro = Inr () then rotation_failed
            else Portability_error ROLLBACK_FAILED ''rotation failed and recovery rollback failed; old control remains authoritative''))"
proof (cases "auth ''vendor-rotation''")
  case (Inl e)
  then show ?thesis
    using assms by (auto simp: rotateVendor_def authorize_action_def bindS_def catchS_def port_def rotation_calls_def)
next
  case auth: (Inr u)
  show ?thesis
  proof (cases "ro_inspect ro")
    case (Inl e)
    with auth assms show ?thesis
      by (auto simp: rotateVendor_def authorize_action_def bindS_def catchS_def port_def rotation_calls_def control_verified_def)
  next
    case insp: (Inr c)
    show ?thesis
    proof (cases "rc_portable c \<and> rc_recoveryAvailable c \<and> ro_install ro = Inr ()")
      case False
      with auth insp assms show ?thesis
        by (cases "ro_install ro") (auto simp: rotateVendor_def authorize_action_def bindS_def catchS_def port_def rotation_calls_def
            control_verified_def split: if_splits)
    next
      case inst: True
      let ?calls = "[Authorize ''vendor-rotation'', Inspect, Install_next]"
      have r: "(r, calls) = catchS (rotate_installed ro c) (\<lambda>_. rotation_rollback ro) ?calls"
        using auth insp inst assms by (simp add: rotateVendor_def authorize_action_def bindS_def catchS_def port_def split: prod.splits sum.splits)
      show ?thesis
      proof (cases "ro_verify ro = Inr True \<and> (\<exists>a. ro_snapshot ro = Inr a \<and> wi_address a = rc_account c \<and> wi_chainId a = rc_chainId c \<and> wi_did a = rc_did c)")
        case True
        then obtain a where a: "ro_verify ro = Inr True" "ro_snapshot ro = Inr a" "wi_address a = rc_account c" "wi_chainId a = rc_chainId c" "wi_did a = rc_did c"
          by blast
        then have "control_verified ro" using insp inst by (auto simp: control_verified_def)
        with a r auth show ?thesis
          by (cases "ro_remove ro"; cases "ro_rollback ro")
            (auto simp: rotate_installed_def rotation_rollback_def bindS_def catchS_def port_def rotation_calls_def)
      next
        case False
        then have "\<not> control_verified ro" using insp by (auto simp: control_verified_def)
        moreover have "rotate_installed ro c ?calls \<in> {(Inl e, ?calls @ [Verify_next]) | e. True} \<union> {(Inl e, ?calls @ [Verify_next, Take_snapshot]) | e. True}"
          using False by (cases "ro_verify ro"; cases "ro_snapshot ro") (auto simp: rotate_installed_def bindS_def port_def)
        ultimately show ?thesis
          using r by (cases "ro_rollback ro") (auto simp: rotation_rollback_def bindS_def catchS_def port_def rotation_calls_def)
      qed
    qed
  qed
qed

definition ex_capability :: rotation_capability where
  "ex_capability = \<lparr>rc_portable = True, rc_reason = None, rc_recoveryAvailable = True, rc_account = ''0xa'', rc_chainId = 1, rc_did = None\<rparr>"

definition ex_rotation :: "portability_exn + unit \<Rightarrow> rotation_port" where
  "ex_rotation removed = \<lparr>ro_inspect = Inr ex_capability, ro_install = Inr (), ro_verify = Inr True, ro_remove = removed,
     ro_rollback = Inr (), ro_snapshot = Inr \<lparr>wi_address = ''0xa'', wi_chainId = 1, wi_did = None\<rparr>\<rparr>"

lemma ex_rotation_verified: "control_verified (ex_rotation x)"
  by (simp add: control_verified_def ex_rotation_def ex_capability_def)

theorem rotation_outcome_witness:
  "\<exists>x calls. rotateVendor (\<lambda>_. Inr ()) (ex_rotation (Inr ())) [] = (Inr x, calls) \<and> take 6 calls = rotation_calls"
proof -
  obtain r calls where c: "rotateVendor (\<lambda>_. Inr ()) (ex_rotation (Inr ())) [] = (r, calls)" by (metis surj_pair)
  have "\<exists>x. r = Inr x"
    using c by (auto simp: rotateVendor_def authorize_action_def rotate_installed_def bindS_def catchS_def port_def ex_rotation_def ex_capability_def)
  with c rotation_outcome [OF c] ex_rotation_verified show ?thesis by auto
qed

text \<open>An error of the last step, after which the old control may be gone, removes the new one.\<close>

text \<open>
  When the removal of the old control reports an error, the new control is rolled back
  although the old one may be gone; the error says that the old control remains.
\<close>

theorem failed_removal_removes_new_control:
  assumes "auth ''vendor-rotation'' = Inr ()" "control_verified ro" "ro_remove ro = Inl e" "ro_rollback ro = Inr ()"
  shows "rotateVendor auth ro [] = (Inl rotation_failed, rotation_calls @ [Rollback_next])"
  using assms
  by (auto simp: rotateVendor_def authorize_action_def rotate_installed_def rotation_rollback_def bindS_def catchS_def port_def
      rotation_calls_def control_verified_def)

theorem failed_removal_removes_new_control_witness:
  "rotateVendor (\<lambda>_. Inr ()) (ex_rotation (Inl Other_error)) [] = (Inl rotation_failed, rotation_calls @ [Rollback_next])"
  by (rule failed_removal_removes_new_control) (simp_all add: ex_rotation_verified, simp_all add: ex_rotation_def)

section \<open>Import\<close>

text \<open>
  C38: An import succeeds only after prepare, commit and verification; when a later step fails
  the handle is rolled back last, unless the target's handle is undefined, and a failed
  preparation is not followed by any call.
\<close>

theorem import_outcome:
  assumes "import_state target state calls = (r, calls')"
  shows "(r = Inr () \<and> (\<exists>h. im_prepare target state = Inr h \<and> im_commit target h = Inr () \<and> im_verify target h state = Inr True
        \<and> calls' = calls @ [Prepare state, Commit h, Verify_import h state]))
    \<or> (\<exists>e. im_prepare target state = Inl e \<and> r = Inl import_failed \<and> calls' = calls @ [Prepare state])
    \<or> (\<exists>h checked. im_prepare target state = Inr h \<and> h \<noteq> JUndef \<and> calls' = calls @ [Prepare state, Commit h] @ checked @ [Rollback h]
        \<and> (checked = [] \<or> checked = [Verify_import h state])
        \<and> r = Inl (if im_rollback target h = Inr () then import_failed else Portability_error ROLLBACK_FAILED ''import failed and rollback failed''))
    \<or> (im_prepare target state = Inr JUndef \<and> r = Inl import_failed \<and> Commit JUndef \<in> set calls' \<and> Rollback JUndef \<notin> set (drop (length calls) calls'))"
proof (cases "im_prepare target state")
  case (Inl e)
  then show ?thesis using assms by (auto simp: import_state_def bindS_def catchS_def port_def)
next
  case (Inr h)
  have good: ?thesis if "im_commit target h = Inr ()" "im_verify target h state = Inr True"
    using that Inr assms by (auto simp: import_state_def bindS_def catchS_def port_def)
  have fails: ?thesis if bad: "\<not> (im_commit target h = Inr () \<and> im_verify target h state = Inr True)"
  proof -
    obtain verified where d: "verified = [] \<or> verified = [Verify_import h state]"
      and r: "(r, calls') = import_rollback target h (calls @ [Prepare state, Commit h] @ verified)"
    proof (cases "im_commit target h")
      case (Inl e)
      with Inr assms that [of "[]"] show ?thesis by (simp add: import_state_def bindS_def catchS_def port_def)
    next
      case commit: (Inr u)
      have "(r, calls') = import_rollback target h (calls @ [Prepare state, Commit h] @ [Verify_import h state])"
        using commit bad Inr assms by (cases "im_verify target h state") (auto simp: import_state_def bindS_def catchS_def port_def split: if_splits)
      with that [of "[Verify_import h state]"] show ?thesis by blast
    qed
    show ?thesis
    proof (cases "h = JUndef")
      case True
      with r have r': "r = Inl import_failed" "calls' = calls @ [Prepare state, Commit JUndef] @ verified" by (simp_all add: import_rollback_def)
      have "Commit JUndef \<in> set calls'" "Rollback JUndef \<notin> set (drop (length calls) calls')" using d r'(2) by auto
      with Inr True r'(1) show ?thesis by blast
    next
      case False
      with r have "calls' = calls @ [Prepare state, Commit h] @ verified @ [Rollback h]
          \<and> r = Inl (if im_rollback target h = Inr () then import_failed else Portability_error ROLLBACK_FAILED ''import failed and rollback failed'')"
        by (cases "im_rollback target h") (auto simp: import_rollback_def bindS_def catchS_def port_def)
      with False d Inr show ?thesis by blast
    qed
  qed
  from good fails show ?thesis by blast
qed

definition ex_target :: "jsval \<Rightarrow> import_port" where
  "ex_target handle = \<lparr>im_prepare = (\<lambda>_. Inr handle), im_commit = (\<lambda>_. Inl Other_error), im_verify = (\<lambda>_ _. Inr True), im_rollback = (\<lambda>_. Inr ())\<rparr>"

theorem import_outcome_witness:
  "\<exists>calls. import_state (ex_target (JInt 7)) JNull [] = (Inl import_failed, calls) \<and> last calls = Rollback (JInt 7)"
proof -
  obtain r calls where c: "import_state (ex_target (JInt 7)) JNull [] = (r, calls)" by (metis surj_pair)
  from import_outcome [OF c] have "r = Inl import_failed" "last calls = Rollback (JInt 7)" by (auto simp: ex_target_def)
  with c show ?thesis by blast
qed

text \<open>A target whose handle is undefined keeps what the failed commit left; the error says otherwise.\<close>

text \<open>
  A target that prepares without a handle is not rolled back after a failed commit,
  although the error says that it was.
\<close>

theorem undefined_handle_is_not_rolled_back:
  "import_state (ex_target JUndef) JNull [] = (Inl import_failed, [Prepare JNull, Commit JUndef])"
  by (simp add: import_state_def import_rollback_def ex_target_def bindS_def catchS_def port_def)

section \<open>Hexadecimal\<close>

lemma nibble_digit: "n < 16 \<Longrightarrow> nibble (hex_digit n) = n"
proof -
  have "\<forall>n\<in>set [0..<16]. nibble (hex_digit n) = n" by code_simp
  then show "n < 16 \<Longrightarrow> nibble (hex_digit n) = n" by simp
qed

lemma hex_digit_chars: "n < 16 \<Longrightarrow> hex_digit n \<in> set ''0123456789abcdef'' \<and> is_hex (hex_digit n) \<and> lower_char (hex_digit n) = hex_digit n"
proof -
  have "\<forall>n\<in>set [0..<16]. hex_digit n \<in> set ''0123456789abcdef'' \<and> is_hex (hex_digit n) \<and> lower_char (hex_digit n) = hex_digit n" by code_simp
  then show "n < 16 \<Longrightarrow> hex_digit n \<in> set ''0123456789abcdef'' \<and> is_hex (hex_digit n) \<and> lower_char (hex_digit n) = hex_digit n" by simp
qed

lemma code_halves: "(of_char c :: nat) div 16 < 16" "(of_char c :: nat) mod 16 < 16"
proof -
  have "(of_char c :: nat) < 16 * 16" by simp
  then show "(of_char c :: nat) div 16 < 16" by (rule less_mult_imp_div_less)
qed simp

lemma byte_hex_facts:
  "hex_bytes (byte_hex b) = b" "length (byte_hex b) = 2 * length b"
  "list_all (\<lambda>c. c \<in> set ''0123456789abcdef'') (byte_hex b)" "list_all is_hex (byte_hex b)" "to_lower (byte_hex b) = byte_hex b"
proof -
  have "char_of (of_char c div 16 * 16 + of_char c mod 16 :: nat) = c" for c :: char
    by (simp only: div_mult_mod_eq char_of_char)
  then show "hex_bytes (byte_hex b) = b"
    by (induction b) (simp_all add: byte_hex_def nibble_digit code_halves)
  show "length (byte_hex b) = 2 * length b" by (induction b) (simp_all add: byte_hex_def)
  show "list_all (\<lambda>c. c \<in> set ''0123456789abcdef'') (byte_hex b)"
    using hex_digit_chars code_halves by (induction b) (simp_all add: byte_hex_def del: list.set)
  show "list_all is_hex (byte_hex b)" using hex_digit_chars code_halves by (induction b) (simp_all add: byte_hex_def)
  show "to_lower (byte_hex b) = byte_hex b" using hex_digit_chars code_halves by (induction b) (simp_all add: byte_hex_def to_lower_def)
qed

lemma to_lower_0x [simp]: "to_lower (''0x'' @ s) = ''0x'' @ to_lower s"
proof -
  have "to_lower ''0x'' = ''0x''" by (simp add: to_lower_def lower_char_def Let_def)
  then show ?thesis by (simp only: to_lower_append)
qed

lemma even_hex_0x: "even_hex (''0x'' @ byte_hex b)"
  by (simp add: even_hex_def byte_hex_facts)

lemmas hex_0x = even_hex_0x [simplified] to_lower_0x [of "byte_hex b" for b, unfolded byte_hex_facts(5), simplified]

lemma fromHex_byte_hex: "b \<noteq> '''' \<Longrightarrow> fromHex (''0x'' @ byte_hex b) = Inr b"
  using byte_hex_facts(2) [of b] byte_hex_facts(3) [of b] by (auto simp: fromHex_def Let_def byte_hex_facts(1) simp del: list.set)

section \<open>What was exported\<close>

lemma invalid_bundle_simps [simp]: "invalid_bundle m \<noteq> Inr x" "Inr x \<noteq> invalid_bundle m"
  by (simp_all add: invalid_bundle_def)

lemma as_other_Inr [simp]: "as_other r = Inr x \<longleftrightarrow> r = Inr x"
  by (simp add: as_other_def split: sum.split)

lemma assert_Inr:
  "assertString v f m = Inr s \<longleftrightarrow> v = JStr s \<and> s \<noteq> '''' \<and> length s \<le> m"
  "assertId v f = Inr s \<longleftrightarrow> v = JStr s \<and> s \<noteq> '''' \<and> length s \<le> 128 \<and> list_all id_char s"
  "assertDate date v f = Inr s \<longleftrightarrow> v = JStr s \<and> s \<noteq> '''' \<and> length s \<le> 64 \<and> date s \<noteq> None"
  "assertAddress v f = Inr a \<longleftrightarrow> (\<exists>s. v = JStr s \<and> valid_address s \<and> a = to_lower s)"
  by (auto simp: assertString_def assertId_def assertDate_def assertAddress_def bindE_Inr split: jsval.splits if_splits)

lemma port_call_Inr: "port c r calls = (Inr x, t) \<longleftrightarrow> r = Inr x \<and> t = calls @ [c]"
  by (auto simp: port_def)

lemma authorize_Inr: "authorize_action auth a m calls = (Inr u, t) \<longleftrightarrow> auth a = Inr () \<and> t = calls @ [Authorize a]"
  by (cases "auth a") (auto simp: authorize_action_def catchS_def port_def)

lemma chain_Inr: "(case c of JInt n \<Rightarrow> if \<not> safe_integer n \<or> n < 1 then invalid_bundle m else Inr () | _ \<Rightarrow> invalid_bundle m) = Inr u
    \<longleftrightarrow> (\<exists>n. c = JInt n \<and> safe_integer n \<and> 1 \<le> n)"
  by (cases c) auto

lemma text_number_Inr: "(case a of JStr x \<Rightarrow> (case c of JInt n \<Rightarrow> Inr (f x n) | _ \<Rightarrow> Inl e) | _ \<Rightarrow> Inl e) = Inr h
    \<longleftrightarrow> (\<exists>x n. a = JStr x \<and> c = JInt n \<and> h = f x n)"
  by (cases a; cases c) auto

lemma validateState_Inr:
  assumes "validateState s = Inr t"
  shows "t = s" "\<exists>w a n. read_prop s ''wallet'' = Inr w \<and> read_prop w ''address'' = Inr (JStr a) \<and> valid_address a
    \<and> read_prop w ''chainId'' = Inr (JInt n) \<and> safe_integer n \<and> 1 \<le> n" "assertNoSecretMaterial s 0 = Inr ()"
proof -
  from assms show "t = s" "assertNoSecretMaterial s 0 = Inr ()"
    by (auto simp: validateState_def bindE_Inr split: if_splits)
  from assms obtain w where "read_prop s ''wallet'' = Inr w" "check_wallet w = Inr ()"
    by (auto simp: validateState_def bindE_Inr split: if_splits)
  then show "\<exists>w a n. read_prop s ''wallet'' = Inr w \<and> read_prop w ''address'' = Inr (JStr a) \<and> valid_address a
    \<and> read_prop w ''chainId'' = Inr (JInt n) \<and> safe_integer n \<and> 1 \<le> n"
    by (auto simp: check_wallet_def bindE_Inr assert_Inr chain_Inr)
qed

lemma finish_bundle_Inr:
  assumes "finish_bundle cr h env x = Inr b"
  obtains sig where "x = Some sig" "sig \<noteq> ''''" "length sig \<le> 65536"
    "b = bundle_header.extend h \<lparr>mg_envelope = env, mg_signature = ''0x'' @ byte_hex sig\<rparr>"
proof -
  from assms obtain sig g where x: "x = Some sig" "sig \<noteq> ''''" and g: "assertHex (JStr (''0x'' @ byte_hex sig)) ''signature'' = Inr g"
      and b: "b = bundle_header.extend h \<lparr>mg_envelope = env, mg_signature = g\<rparr>"
    by (auto simp: finish_bundle_def bindE_Inr Let_def split: option.splits if_splits)
  from g have "length sig \<le> 65536" "g = ''0x'' @ byte_hex sig"
    by (auto simp: assertHex_def byte_hex_facts(2) hex_0x split: if_splits)
  with x b that show ?thesis by blast
qed

text \<open>The facts of a successful export, and what the parser makes of the result.\<close>

lemma export_Inr:
  assumes "exportMigrationBundle cr date state auth signer opts i expires now calls = (Inr b, calls')" "option_secret opts = Some secret"
  obtains e p aad u sig w where "auth ''wallet-export'' = Inr ()" "validateState state = Inr state"
    "canonicalBytes cr (JObj (header_entries b)) = Inr aad" "canonicalBytes cr state = Inr p"
    "made_envelope cr p (opts\<lparr>eo_associatedData := Some aad\<rparr>) secret e" "mg_envelope b = JObj e"
    "unsignedBytes cr b (JObj e) = Inr u" "calls' = calls @ [Authorize ''wallet-export'', Sign u]" "sg_sign signer u = Inr (Some sig)" "sig \<noteq> ''''"
    "length sig \<le> 65536" "mg_signature b = ''0x'' @ byte_hex sig" "bh_issuedAt b = now" "bh_keyId b = sg_keyId signer"
    "assertId (JStr (bh_bundleId b)) ''bundle id'' = Inr (bh_bundleId b)" "assertId (JStr (bh_keyId b)) ''key id'' = Inr (bh_keyId b)"
    "assertDate date (JStr (bh_expiresAt b)) ''expires at'' = Inr (bh_expiresAt b)" "bh_strategy b = strategy_text (eo_strategy opts)"
    "read_prop state ''wallet'' = Inr w" "read_prop w ''address'' = Inr (JStr (bh_walletAddress b))" "valid_address (bh_walletAddress b)"
    "read_prop w ''chainId'' = Inr (JInt (bh_chainId b))" "safe_integer (bh_chainId b)" "1 \<le> bh_chainId b"
proof -
  from assms(1) obtain st h env u where a: "auth ''wallet-export'' = Inr ()" "validateState state = Inr st"
      and h: "export_header date st (sg_keyId signer) opts i expires now = Inr h" and s: "seal_state cr st h opts = Inr (env, u)"
      and c: "calls' = calls @ [Authorize ''wallet-export'', Sign u]" and g: "\<exists>x. sg_sign signer u = Inr x \<and> finish_bundle cr h env x = Inr b"
    unfolding exportMigrationBundle_def
    by (auto simp: bindS_Inr authorize_Inr port_call_Inr pureS_def)
  have st: "st = state" using validateState_Inr(1) [OF a(2)] by simp
  from g obtain sig where sig: "sg_sign signer u = Inr (Some sig)" "sig \<noteq> ''''" and len: "length sig \<le> 65536"
      and b: "b = bundle_header.extend h \<lparr>mg_envelope = env, mg_signature = ''0x'' @ byte_hex sig\<rparr>"
    by (auto elim: finish_bundle_Inr)
  have same: "header_entries b = header_entries h" by (simp add: b header_entries_def bundle_header.defs)
  from s obtain aad p e where e: "canonicalBytes cr (JObj (header_entries h)) = Inr aad" "canonicalBytes cr state = Inr p"
      "createVaultEnvelope cr p (opts\<lparr>eo_associatedData := Some aad\<rparr>) = Inr e" "env = JObj e" "unsignedBytes cr h env = Inr u"
    by (auto simp: seal_state_def bindE_Inr st)
  have made: "made_envelope cr p (opts\<lparr>eo_associatedData := Some aad\<rparr>) secret e"
    using e(3) assms(2) by (auto elim!: createVaultEnvelope_made [where extra = "[]"])
  have u: "unsignedBytes cr b (JObj e) = Inr u" using e(4,5) by (simp add: unsignedBytes_def same)
  from h obtain w where w: "read_prop state ''wallet'' = Inr w" "read_prop w ''address'' = Inr (JStr (bh_walletAddress h))"
      "read_prop w ''chainId'' = Inr (JInt (bh_chainId h))"
      and f: "bh_issuedAt h = now" "bh_keyId h = sg_keyId signer" "assertId (JStr (bh_bundleId h)) ''bundle id'' = Inr (bh_bundleId h)"
        "assertId (JStr (bh_keyId h)) ''signer key id'' = Inr (bh_keyId h)"
        "assertDate date (JStr (bh_expiresAt h)) ''expires at'' = Inr (bh_expiresAt h)" "bh_strategy h = strategy_text (eo_strategy opts)"
    by (auto simp: export_header_def bindE_Inr st assert_Inr text_number_Inr split: if_splits)
  from f(4) have key: "assertId (JStr (bh_keyId h)) ''key id'' = Inr (bh_keyId h)" by (simp add: assert_Inr)
  have wallet: "valid_address (bh_walletAddress h)" "safe_integer (bh_chainId h)" "1 \<le> bh_chainId h"
    using validateState_Inr(2) [OF a(2)] w by auto
  have fb: "bh_issuedAt b = bh_issuedAt h" "bh_keyId b = bh_keyId h" "bh_bundleId b = bh_bundleId h" "bh_expiresAt b = bh_expiresAt h"
      "bh_strategy b = bh_strategy h" "bh_walletAddress b = bh_walletAddress h" "bh_chainId b = bh_chainId h"
      "mg_envelope b = env" "mg_signature b = ''0x'' @ byte_hex sig"
    by (simp_all add: b bundle_header.defs)
  show ?thesis
    by (rule that [OF a(1) _ _ _ made _ u c sig len _ _ _ _ _ _ _ w(1)]) (use e a st same f key w wallet fb in simp_all)
qed

lemma parse_exported:
  assumes "exportMigrationBundle cr date state auth signer opts i expires now calls = (Inr b, calls')" "option_secret opts = Some secret"
    and "now \<noteq> ''''" "length now \<le> 64" "date now \<noteq> None"
  shows "parseBundle date (bundle_js b) = Inr (b\<lparr>bh_walletAddress := to_lower (bh_walletAddress b)\<rparr>)"
  using assms(1,2)
proof (rule export_Inr)
  fix e p aad u sig w
  assume m: "made_envelope cr p (opts\<lparr>eo_associatedData := Some aad\<rparr>) secret e" "mg_envelope b = JObj e"
    and g: "length sig \<le> 65536" "mg_signature b = ''0x'' @ byte_hex sig" "bh_issuedAt b = now"
      "assertId (JStr (bh_bundleId b)) ''bundle id'' = Inr (bh_bundleId b)" "assertId (JStr (bh_keyId b)) ''key id'' = Inr (bh_keyId b)"
      "assertDate date (JStr (bh_expiresAt b)) ''expires at'' = Inr (bh_expiresAt b)" "bh_strategy b = strategy_text (eo_strategy opts)"
    and w: "valid_address (bh_walletAddress b)" "safe_integer (bh_chainId b)" "1 \<le> bh_chainId b"
  let ?in = "header_entries b @ [(''envelope'', JObj e), (''signature'', JStr (mg_signature b))]"
  have env: "supported_envelope (JObj e) = Inr True" "read_prop (JObj e) ''strategy'' = Inr (JStr (bh_strategy b))" "js_truthy (JObj e)"
    using m(1) by (auto simp: made_envelope_def supported_envelope_def vprop_def read_prop_def g(7) js_truthy_def)
  have names: "names_strategy (JStr (bh_strategy b))"
    by (cases "eo_strategy opts") (simp_all add: names_strategy_def g(7) strategy_text_def)
  have f: "jfield ?in ''format'' = JStr ''ssw-wallet-migration''" "jfield ?in ''version'' = JInt 1" "jfield ?in ''bundleId'' = JStr (bh_bundleId b)"
      "jfield ?in ''keyId'' = JStr (bh_keyId b)" "jfield ?in ''issuedAt'' = JStr (bh_issuedAt b)" "jfield ?in ''expiresAt'' = JStr (bh_expiresAt b)"
      "jfield ?in ''walletAddress'' = JStr (bh_walletAddress b)" "jfield ?in ''chainId'' = JInt (bh_chainId b)"
      "jfield ?in ''encryption'' = JObj [(''algorithm'', JStr ''AES-GCM-256''), (''strategy'', JStr (bh_strategy b))]"
      "jfield ?in ''envelope'' = JObj e" "jfield ?in ''signature'' = JStr (mg_signature b)"
    by (simp_all add: header_entries_def)
  have known: "find (\<lambda>e. fst e \<notin> set bundle_fields) ?in = None"
    by (simp add: find_None_iff header_entries_def bundle_fields_def)
  have header: "parse_header date ?in (bh_strategy b) = Inr \<lparr>bh_bundleId = bh_bundleId b, bh_keyId = bh_keyId b, bh_issuedAt = bh_issuedAt b,
      bh_expiresAt = bh_expiresAt b, bh_walletAddress = to_lower (bh_walletAddress b), bh_chainId = bh_chainId b, bh_strategy = bh_strategy b\<rparr>"
    using g w assms(3-5) unfolding parse_header_def f by (auto simp: bindE_Inr assert_Inr)
  have sig: "assertHex (JStr (mg_signature b)) ''signature'' = Inr (mg_signature b)"
    using g(1) even_hex_0x [of sig] byte_hex_facts(2,5) [of sig] to_lower_0x [of "byte_hex sig"] by (simp add: assertHex_def g(2))
  have enc: "js_truthy (JObj [(''algorithm'', JStr ''AES-GCM-256''), (''strategy'', JStr (bh_strategy b))])" by (simp add: js_truthy_def)
  show ?thesis
    unfolding bundle_js_def m(2) parseBundle_def jsval.case known option.case f Let_def
    using env names header sig enc m(2) by (simp add: read_prop_def vprop_def as_other_def bundle_header.defs)
qed

section \<open>No secret leaves the wallet\<close>

text \<open>The property names anywhere inside a value.\<close>

inductive nested_key :: "jsval \<Rightarrow> string \<Rightarrow> bool" where
  own_key: "e \<in> set es \<Longrightarrow> nested_key (JObj es) (fst e)"
| inner_key: "e \<in> set es \<Longrightarrow> nested_key (snd e) k \<Longrightarrow> nested_key (JObj es) k"
| item_key: "v \<in> set vs \<Longrightarrow> nested_key v k \<Longrightarrow> nested_key (JArr vs) k"

lemma no_secret_D:
  "assertNoSecretMaterial (JObj es) d = Inr u \<Longrightarrow> e \<in> set es \<Longrightarrow> \<not> secret_field (fst e) \<and> assertNoSecretMaterial (snd e) (d + 1) = Inr ()"
  "assertNoSecretMaterial (JArr vs) d = Inr u \<Longrightarrow> v \<in> set vs \<Longrightarrow> assertNoSecretMaterial v (d + 1) = Inr ()"
  by (subst (asm) assertNoSecretMaterial.simps; force simp: forE_Inr split: if_splits)+

lemma no_secret_nested:
  "nested_key v k \<Longrightarrow> assertNoSecretMaterial v d = Inr () \<Longrightarrow> \<not> secret_field k"
proof (induction arbitrary: d rule: nested_key.induct)
  case (own_key e es)
  with no_secret_D(1) show ?case by blast
next
  case (inner_key e es k)
  from no_secret_D(1) [OF inner_key.prems inner_key.hyps(1)] inner_key.IH show ?case by blast
next
  case (item_key v vs k)
  from no_secret_D(2) [OF item_key.prems item_key.hyps(1)] item_key.IH show ?case by blast
qed

text \<open>
  No property anywhere inside a state that was accepted for export or import has a name
  that the pattern of secret names matches.
\<close>

theorem portable_state_has_no_secret_field:
  assumes "validateState s = Inr t" "nested_key t k"
  shows "t = s \<and> \<not> secret_field k"
  using no_secret_nested [of s k 0] validateState_Inr(1,3) [OF assms(1)] assms(2) by simp

definition ex_state :: "string \<Rightarrow> jsval" where
  "ex_state a = JObj [(''wallet'', JObj [(''address'', JStr a), (''chainId'', JInt 1)]),
     (''control'', JObj [(''recoveryAvailable'', JBool True), (''signers'', JArr []), (''modules'', JArr [])]), (''assets'', JArr [])]"

lemma not_secret: "\<not> secret_field ''assets''" "\<not> secret_field ''control''" "\<not> secret_field ''modules''" "\<not> secret_field ''recoveryAvailable''"
    "\<not> secret_field ''signers''" "\<not> secret_field ''wallet''" "\<not> secret_field ''address''" "\<not> secret_field ''chainId''"
  by code_simp+

lemma ex_no_secret: "assertNoSecretMaterial (ex_state a) 0 = Inr ()"
proof -
  have arr: "d \<le> 8 \<Longrightarrow> assertNoSecretMaterial (JArr []) d = Inr ()" for d by (simp add: assertNoSecretMaterial.simps)
  have obj: "d \<le> 8 \<Longrightarrow> list_all (\<lambda>e. \<not> secret_field (fst e) \<and> assertNoSecretMaterial (snd e) (d + 1) = Inr ()) es
      \<Longrightarrow> assertNoSecretMaterial (JObj es) d = Inr ()" for d es
    by (subst assertNoSecretMaterial.simps) (auto simp: forE_Inr list_all_iff)
  have leaf: "d \<le> 8 \<Longrightarrow> assertNoSecretMaterial (JStr s) d = Inr ()" "d \<le> 8 \<Longrightarrow> assertNoSecretMaterial (JInt n) d = Inr ()"
    "d \<le> 8 \<Longrightarrow> assertNoSecretMaterial (JBool b) d = Inr ()" for d s n b
    by (simp_all add: assertNoSecretMaterial.simps)
  show ?thesis unfolding ex_state_def
    by (rule obj) (simp_all add: not_secret arr leaf obj)
qed

lemma ex_state_valid: "valid_address a \<Longrightarrow> validateState (ex_state a) = Inr (ex_state a)"
proof -
  assume a: "valid_address a"
  have "assertAddress (JStr a) ''wallet address'' = Inr (to_lower a)" using a by (simp add: assertAddress_def)
  then show ?thesis unfolding validateState_def ex_no_secret
    by (simp add: ex_state_def is_object_def read_prop_def vprop_def as_other_def assertKeys_def object_keys_def check_wallet_def
        check_control_def check_history_def optional_field_def js_truthy_def safe_integer_def)
qed

definition ex_address :: "string \<Rightarrow> string" where
  "ex_address ending = ''0x'' @ replicate 39 (CHR ''1'') @ ending"

lemma ex_address_valid: "valid_address (ex_address ''a'')" "valid_address (ex_address ''A'')" "to_lower (ex_address ''a'') = ex_address ''a''"
  "to_lower (ex_address ''A'') = ex_address ''a''"
  by code_simp+

theorem portable_state_has_no_secret_field_witness:
  "nested_key (ex_state (ex_address ''a'')) ''address'' \<and> validateState (ex_state (ex_address ''a'')) = Inr (ex_state (ex_address ''a''))
    \<and> \<not> secret_field ''address''"
proof -
  let ?w = "[(''address'', JStr (ex_address ''a'')), (''chainId'', JInt 1)]"
  have "nested_key (JObj ?w) (fst (''address'', JStr (ex_address ''a'')))" by (rule nested_key.own_key) simp
  then have "nested_key (snd (''wallet'', JObj ?w)) ''address''" by simp
  then have k: "nested_key (ex_state (ex_address ''a'')) ''address''"
    unfolding ex_state_def by (rule nested_key.inner_key [rotated]) simp
  from portable_state_has_no_secret_field [OF ex_state_valid [OF ex_address_valid(1)] k] k ex_state_valid [OF ex_address_valid(1)]
  show ?thesis by blast
qed

section \<open>Values up to the order of their properties\<close>

lemma stable_object_clean: "stableValue (JObj es) d = Inr t \<Longrightarrow> filter (\<lambda>e. snd e \<noteq> JUndef) es = es"
  using stable_object_entry [of es d t] by (fastforce simp: filter_id_conv)

lemma sort_map_entries: "sort_entries (map (\<lambda>e. (fst e, f (snd e))) (sort_entries es)) = map (\<lambda>e. (fst e, f (snd e))) (sort_entries es)"
  unfolding sort_entries_def by (rule sort_key_id_if_sorted) (simp add: comp_def)

lemma stable_norm: "stableValue v d = Inr t \<Longrightarrow> stableValue (norm v) d = Inr t"
proof (induction v arbitrary: d t rule: norm.induct)
  case (1 vs)
  then have d: "\<not> 8 < d" by (blast dest: stable_depth)
  from 1(2) d obtain ts where ts: "length vs \<le> 32" "list_all2 (\<lambda>w u. stableValue w (d + 1) = Inr u) vs ts" "t = ''['' @ comma_join ts @ '']''"
    by (auto simp: stable_array unserializable_def bindE_Inr mapE_Inr split: if_splits)
  have "list_all2 (\<lambda>w u. stableValue (norm w) (d + 1) = Inr u) vs ts"
    using ts(2) by (rule list.rel_mono_strong) (use 1(1) in blast)
  then have "mapE (\<lambda>w. stableValue w (d + 1)) (map norm vs) = Inr ts" by (simp add: mapE_Inr list_all2_map1)
  with ts d show ?case by (simp add: stable_array)
next
  case (2 es)
  then have d: "\<not> 8 < d" by (blast dest: stable_depth)
  let ?f = "\<lambda>e. bindE (stableValue (snd e) (d + 1)) (\<lambda>t. Inr (json_string (fst e) @ '':'' @ t))"
  note c = stable_object_clean [OF 2(2)]
  from 2(2) d obtain ts where ts: "list_all2 (\<lambda>e u. ?f e = Inr u) (sort_entries es) ts" "t = ''{'' @ comma_join ts @ ''}''"
    by (auto simp: stable_object bindE_Inr mapE_Inr)
  have "list_all2 (\<lambda>e u. ?f (fst e, norm (snd e)) = Inr u) (sort_entries es) ts"
    using ts(1) by (rule list.rel_mono_strong) (use 2(1) c in \<open>auto simp: bindE_Inr\<close>)
  then have "mapE ?f (map (\<lambda>e. (fst e, norm (snd e))) (sort_entries es)) = Inr ts" by (simp add: mapE_Inr list_all2_map1)
  with ts d show ?case by (simp add: stable_object c sort_map_entries)
qed simp_all

text \<open>Both can be serialised, and they are the same up to the order of their properties.\<close>

definition alike :: "jsval \<Rightarrow> jsval \<Rightarrow> bool" where
  "alike v w \<longleftrightarrow> norm v = norm w \<and> (\<exists>d t. stableValue v d = Inr t) \<and> (\<exists>d t. stableValue w d = Inr t)"

lemma map_of_filter: "map_of es k = (case filter (\<lambda>e. fst e = k) es of [] \<Rightarrow> None | e # r \<Rightarrow> Some (snd e))"
  by (induction es) auto

lemma map_of_sorted: "map_of (sort_entries es) k = map_of es k"
proof -
  have "filter (\<lambda>e. fst e = k) (sort_entries es) = filter (\<lambda>e. fst e = k) es"
    unfolding sort_entries_def by (rule sort_key_stable)
  then show ?thesis by (simp add: map_of_filter)
qed

lemma alike_object:
  assumes "alike (JObj es) w"
  obtains fs where "w = JObj fs" "set (map fst fs) = set (map fst es)"
    "\<And>f. f \<in> set fs \<Longrightarrow> \<exists>e\<in>set es. fst e = fst f \<and> alike (snd e) (snd f)"
    "\<And>k. jfield fs k = JUndef \<and> jfield es k = JUndef \<or> alike (jfield es k) (jfield fs k)"
proof -
  obtain d t where se: "stableValue (JObj es) d = Inr t" using assms by (auto simp: alike_def)
  from assms obtain fs where w: "w = JObj fs" by (cases w) (auto simp: alike_def)
  obtain d' t' where sf: "stableValue (JObj fs) d' = Inr t'" using assms w by (auto simp: alike_def)
  have eq: "map (\<lambda>e. (fst e, norm (snd e))) (sort_entries es) = map (\<lambda>e. (fst e, norm (snd e))) (sort_entries fs)"
    using assms w stable_object_clean [OF se] stable_object_clean [OF sf] by (simp add: alike_def)
  have s: "(\<lambda>e. (fst e, norm (snd e))) ` set es = (\<lambda>e. (fst e, norm (snd e))) ` set fs"
    using arg_cong [OF eq, of set] by simp
  have c: "(\<exists>d t. stableValue (snd e) d = Inr t)" if "e \<in> set es \<or> e \<in> set fs" for e
    using that stable_object_entry [OF se] stable_object_entry [OF sf] by blast
  have keys: "set (map fst fs) = set (map fst es)"
    using arg_cong [OF s, of "image fst"] by (simp add: image_image)
  have ent: "\<exists>e\<in>set es. fst e = fst f \<and> alike (snd e) (snd f)" if "f \<in> set fs" for f
  proof -
    have "(fst f, norm (snd f)) \<in> (\<lambda>e. (fst e, norm (snd e))) ` set es" using that s by blast
    then obtain e where "e \<in> set es" "fst e = fst f" "norm (snd e) = norm (snd f)" by auto
    with c that show ?thesis unfolding alike_def by blast
  qed
  have m: "map_of (map (\<lambda>e. (fst e, norm (snd e))) (sort_entries xs)) k = map_option norm (map_of xs k)" for xs k
    using map_of_map [of norm "sort_entries xs"] by (simp add: map_of_sorted case_prod_unfold)
  have fields: "jfield fs k = JUndef \<and> jfield es k = JUndef \<or> alike (jfield es k) (jfield fs k)" for k
  proof -
    have o: "map_option norm (map_of es k) = map_option norm (map_of fs k)" using m [of es k] m [of fs k] eq by simp
    show ?thesis
    proof (cases "map_of es k")
      case None
      with o show ?thesis by (simp add: jfield_def)
    next
      case (Some a)
      with o obtain b where b: "map_of fs k = Some b" "norm a = norm b" by (cases "map_of fs k") auto
      from Some have a: "(k, a) \<in> set es" by (rule map_of_SomeD)
      have "(k, b) \<in> set fs" by (rule map_of_SomeD [OF b(1)])
      with a c [of "(k, a)"] c [of "(k, b)"] b Some show ?thesis by (simp add: jfield_def alike_def)
    qed
  qed
  from that [OF w keys ent fields] show ?thesis .
qed

lemma alike_array:
  assumes "alike (JArr vs) w"
  obtains ws where "w = JArr ws" "list_all2 alike vs ws"
proof -
  from assms obtain ws where w: "w = JArr ws" and n: "map norm vs = map norm ws" by (cases w) (auto simp: alike_def)
  obtain d t d' t' where s: "stableValue (JArr vs) d = Inr t" "stableValue (JArr ws) d' = Inr t'"
    using assms w by (auto simp: alike_def)
  have member: "\<exists>d t. stableValue x d = Inr t" if m: "x \<in> set xs" and s: "stableValue (JArr xs) d = Inr t" for x xs d t
  proof -
    obtain ts where "list_all2 (\<lambda>w u. stableValue w (d + 1) = Inr u) xs ts"
      using s stable_depth [OF s] by (auto simp: stable_array unserializable_def bindE_Inr mapE_Inr split: if_splits)
    moreover obtain i where "i < length xs" "x = xs ! i" using m by (auto simp: in_set_conv_nth)
    ultimately have "stableValue x (d + 1) = Inr (ts ! i)" by (simp add: list_all2_conv_all_nth)
    then show ?thesis by blast
  qed
  have "length vs = length ws" using n map_eq_imp_length_eq by blast
  moreover have "norm (vs ! i) = norm (ws ! i)" if "i < length vs" for i
    using n that calculation by (metis nth_map)
  ultimately have "list_all2 alike vs ws"
    using member [OF _ s(1)] member [OF _ s(2)] by (auto simp: list_all2_conv_all_nth alike_def)
  with w that show ?thesis by blast
qed

lemma alike_scalar:
  "alike (JStr s) w \<Longrightarrow> w = JStr s" "alike (JInt n) w \<Longrightarrow> w = JInt n" "alike (JBool b) w \<Longrightarrow> w = JBool b"
  "alike JNull w \<Longrightarrow> w = JNull" "\<not> alike JUndef w" "\<not> alike JOther w" "\<not> alike v JUndef"
  by (cases w; auto simp: alike_def stableValue.simps unserializable_def split: if_splits)+

definition alike_opt :: "jsval \<Rightarrow> jsval \<Rightarrow> bool" where
  "alike_opt v w \<longleftrightarrow> v = JUndef \<and> w = JUndef \<or> alike v w"

lemma alike_opt_sym: "alike_opt v w \<Longrightarrow> alike_opt w v"
  by (auto simp: alike_opt_def alike_def)

lemma read_alike:
  assumes "alike_opt v w" "read_prop v k = Inr a"
  shows "\<exists>b. read_prop w k = Inr b \<and> alike_opt a b"
proof (cases v)
  case (JObj es)
  with assms(1) have "alike (JObj es) w" by (simp add: alike_opt_def)
  then obtain fs where "w = JObj fs" "\<And>k. jfield fs k = JUndef \<and> jfield es k = JUndef \<or> alike (jfield es k) (jfield fs k)"
    by (rule alike_object) blast
  with JObj assms(2) show ?thesis by (auto simp: read_prop_def vprop_def as_other_def alike_opt_def)
next
  case (JArr vs)
  with assms(1) have "alike (JArr vs) w" by (simp add: alike_opt_def)
  then obtain ws where "w = JArr ws" by (rule alike_array)
  with JArr assms(2) show ?thesis by (auto simp: read_prop_def vprop_def as_other_def alike_opt_def)
qed (use assms in \<open>auto simp: read_prop_def vprop_def as_other_def alike_opt_def alike_def split: sum.splits jsval.splits\<close>)

lemma checks_alike:
  assumes "alike_opt v w"
  shows "assertString v f m = Inr s \<Longrightarrow> assertString w f m = Inr s" "assertId v f = Inr s \<Longrightarrow> assertId w f = Inr s"
    "assertAddress v f = Inr s \<Longrightarrow> assertAddress w f = Inr s" "assertHex v f = Inr s \<Longrightarrow> assertHex w f = Inr s"
    "is_object v \<Longrightarrow> is_object w" "js_truthy v \<Longrightarrow> js_truthy w" "v = JStr t \<Longrightarrow> w = JStr t"
    "v = JUndef \<longleftrightarrow> w = JUndef"
proof -
  have str: "v = JStr t \<Longrightarrow> w = JStr t" for t using assms alike_scalar(1) by (auto simp: alike_opt_def)
  then show "v = JStr t \<Longrightarrow> w = JStr t" .
  show "assertString v f m = Inr s \<Longrightarrow> assertString w f m = Inr s" "assertId v f = Inr s \<Longrightarrow> assertId w f = Inr s"
    "assertAddress v f = Inr s \<Longrightarrow> assertAddress w f = Inr s"
    using str by (auto simp: assert_Inr)
  show "assertHex v f = Inr s \<Longrightarrow> assertHex w f = Inr s"
    using str by (cases v) (auto simp: assertHex_def)
  show "v = JUndef \<longleftrightarrow> w = JUndef" using assms alike_scalar(5,7) by (auto simp: alike_opt_def)
  have n: "norm v = norm w" using assms by (auto simp: alike_opt_def alike_def)
  then show "is_object v \<Longrightarrow> is_object w" by (cases v; cases w) (auto simp: is_object_def)
  from n show "js_truthy v \<Longrightarrow> js_truthy w" by (cases v; cases w) (auto simp: js_truthy_def)
qed

lemma optional_alike:
  assumes "alike_opt v w" "optional_field g v = Inr u" "\<And>s. g v = Inr s \<Longrightarrow> g w = Inr s"
  shows "optional_field g w = Inr u"
  using assms(2,3) checks_alike(8) [OF assms(1)] by (auto simp: optional_field_def bindE_Inr split: if_splits)

lemma keys_alike:
  assumes "alike_opt v w" "assertKeys v allowed l = Inr u"
  shows "assertKeys w allowed l = Inr u"
proof (cases v)
  case (JObj es)
  with assms(1) have "alike (JObj es) w" by (simp add: alike_opt_def)
  then obtain fs where w: "w = JObj fs" "set (map fst fs) = set (map fst es)" by (rule alike_object) blast
  have "set (map fst es) \<subseteq> set allowed"
    using assms(2) JObj by (auto simp: assertKeys_def object_keys_def find_None_iff split: option.splits)
  with w have "find (\<lambda>k. k \<notin> set allowed) (map fst fs) = None" by (auto simp: find_None_iff)
  with w show ?thesis by (simp add: assertKeys_def object_keys_def)
next
  case (JArr vs)
  with assms(1) have "alike (JArr vs) w" by (simp add: alike_opt_def)
  then obtain ws where "w = JArr ws" "length vs = length ws" by (rule alike_array) (auto dest: list_all2_lengthD)
  with JArr assms(2) show ?thesis by (simp add: assertKeys_def object_keys_def)
qed (use assms in \<open>auto simp: alike_opt_def alike_def assertKeys_def object_keys_def split: jsval.splits\<close>)

lemma secret_alike: "alike v w \<Longrightarrow> assertNoSecretMaterial v d = Inr () \<Longrightarrow> assertNoSecretMaterial w d = Inr ()"
proof (induction w d arbitrary: v rule: assertNoSecretMaterial.induct)
  case (1 w d)
  have d: "\<not> 8 < d" using "1.prems"(2) by (auto simp: assertNoSecretMaterial.simps [of v])
  show ?case
  proof (cases v)
    case (JObj es)
    with "1.prems"(1) obtain fs where w: "w = JObj fs"
      and e: "\<And>f. f \<in> set fs \<Longrightarrow> \<exists>e\<in>set es. fst e = fst f \<and> alike (snd e) (snd f)" by (auto elim: alike_object)
    have "\<not> secret_field (fst f) \<and> assertNoSecretMaterial (snd f) (d + 1) = Inr ()" if f: "f \<in> set fs" for f
    proof -
      obtain x where x: "x \<in> set es" "fst x = fst f" "alike (snd x) (snd f)" using e [OF f] by blast
      note n = no_secret_D(1) [OF "1.prems"(2) [unfolded JObj] x(1)]
      have "assertNoSecretMaterial (snd f) (d + 1) = Inr ()" using "1.IH"(2) [OF d w f _ x(3)] n x(2) by simp
      with n x(2) show ?thesis by simp
    qed
    with w d show ?thesis by (subst assertNoSecretMaterial.simps) (simp add: forE_Inr)
  next
    case (JArr vs)
    with "1.prems"(1) obtain ws where w: "w = JArr ws" and l: "list_all2 alike vs ws" by (auto elim: alike_array)
    have "assertNoSecretMaterial x (d + 1) = Inr ()" if x: "x \<in> set ws" for x
    proof -
      obtain i where "i < length ws" "x = ws ! i" using x by (auto simp: in_set_conv_nth)
      with l obtain y where y: "y \<in> set vs" "alike y x" by (metis list_all2_conv_all_nth nth_mem)
      show ?thesis by (rule "1.IH"(1) [OF d w x y(2) no_secret_D(2) [OF "1.prems"(2) [unfolded JArr] y(1)]])
    qed
    with w d show ?thesis by (subst assertNoSecretMaterial.simps) (simp add: forE_Inr)
  qed (use "1.prems" d in \<open>subst assertNoSecretMaterial.simps; auto simp: alike_def split: jsval.splits\<close>)+
qed

lemma read_check:
  assumes "bindE (read_prop v k) f = Inr u" "alike_opt v w" "\<And>a b. alike_opt a b \<Longrightarrow> f a = Inr u \<Longrightarrow> g b = Inr u"
  shows "bindE (read_prop w k) g = Inr u"
proof -
  from assms(1) obtain a where a: "read_prop v k = Inr a" "f a = Inr u" by (auto simp: bindE_Inr)
  from read_alike [OF assms(2) a(1)] obtain b where "read_prop w k = Inr b" "alike_opt a b" by blast
  with assms(3) [OF _ a(2)] show ?thesis by simp
qed

lemma then_check:
  assumes "bindE p f = Inr u" "\<And>x. p = Inr x \<Longrightarrow> q = Inr x" "\<And>x. f x = Inr u \<Longrightarrow> g x = Inr u"
  shows "bindE q g = Inr u"
  using assms by (auto simp: bindE_Inr)

lemma kind_check:
  assumes "(if k \<notin> S then invalid_bundle m else r) = Inr u" "alike_opt k l" "S \<subseteq> range JStr" "r = Inr u \<Longrightarrow> q = Inr u"
  shows "(if l \<notin> S then invalid_bundle m else q) = Inr u"
proof -
  from assms(1) have k: "k \<in> S" "r = Inr u" by (auto split: if_splits)
  with assms(3) obtain s where "k = JStr s" by blast
  with checks_alike(7) [OF assms(2)] have "l = k" by blast
  with k assms(4) show ?thesis by simp
qed

lemma optional_alikes:
  assumes "alike_opt v w"
  shows "optional_field (\<lambda>x. assertString x f m) v = Inr u \<Longrightarrow> optional_field (\<lambda>x. assertString x f m) w = Inr u"
    "optional_field (\<lambda>x. assertHex x f) v = Inr u \<Longrightarrow> optional_field (\<lambda>x. assertHex x f) w = Inr u"
  by (rule optional_alike [OF assms], assumption, erule checks_alike(1,4) [OF assms])+

lemma asset_address_alike:
  assumes "(if a \<noteq> JStr k then assertAddress v f else r) = Inr x" "alike_opt a b" "alike_opt v w"
  shows "(if b \<noteq> JStr k then assertAddress w f else r) = Inr x"
proof -
  have "(a = JStr k) = (b = JStr k)" using checks_alike(7) [OF assms(2)] checks_alike(7) [OF alike_opt_sym [OF assms(2)]] by blast
  with assms(1) checks_alike(3) [OF assms(3)] show ?thesis by (cases "b = JStr k") simp_all
qed

lemma member_checks_alike:
  assumes "alike_opt v w"
  shows "check_signer v = Inr u \<Longrightarrow> check_signer w = Inr u" "check_module v = Inr u \<Longrightarrow> check_module w = Inr u"
    "check_asset v = Inr u \<Longrightarrow> check_asset w = Inr u" "check_history v = Inr u \<Longrightarrow> check_history w = Inr u"
    "check_wallet v = Inr u \<Longrightarrow> check_wallet w = Inr u"
proof -
  note keys = keys_alike [OF assms]
  show "check_signer v = Inr u \<Longrightarrow> check_signer w = Inr u"
    unfolding check_signer_def
    by (erule then_check, erule keys, erule read_check [OF _ assms], erule then_check, erule checks_alike(2) [rotated], assumption,
        erule read_check [OF _ assms], erule kind_check, assumption, blast, erule read_check [OF _ assms], erule optional_alikes(2) [rotated], assumption)
  show "check_module v = Inr u \<Longrightarrow> check_module w = Inr u"
    unfolding check_module_def
    by (erule then_check, erule keys, erule read_check [OF _ assms], erule then_check, erule checks_alike(3) [rotated], assumption,
        erule read_check [OF _ assms], erule then_check, erule checks_alike(1) [rotated], assumption,
        erule read_check [OF _ assms], erule then_check, erule checks_alike(1) [rotated], assumption,
        erule read_check [OF _ assms], erule then_check, erule checks_alike(4) [rotated], assumption, assumption)
  show "check_asset v = Inr u \<Longrightarrow> check_asset w = Inr u"
    unfolding check_asset_def
    by (erule then_check, erule keys, erule read_check [OF _ assms], erule kind_check, assumption, blast,
        erule read_check [OF _ assms], erule then_check, erule asset_address_alike, assumption, assumption,
        erule read_check [OF _ assms], erule then_check, erule optional_alikes(1) [rotated], assumption,
        erule read_check [OF _ assms], erule optional_alikes(1) [rotated], assumption)
  show "check_history v = Inr u \<Longrightarrow> check_history w = Inr u"
  proof (cases "v = JUndef")
    case True
    with checks_alike(8) [OF assms] show "check_history v = Inr u \<Longrightarrow> check_history w = Inr u" by (simp add: check_history_def)
  next
    case False
    with checks_alike(8) [OF assms] have n: "v \<noteq> JUndef" "w \<noteq> JUndef" by blast+
    show "check_history v = Inr u \<Longrightarrow> check_history w = Inr u"
      unfolding check_history_def if_not_P [OF n(1)] if_not_P [OF n(2)]
      by (erule then_check, erule keys, erule read_check [OF _ assms], erule then_check, erule optional_alikes(1) [rotated], assumption,
          erule read_check [OF _ assms], erule optional_alikes(2) [rotated], assumption)
  qed
  have chain: "(case d of JInt n \<Rightarrow> if \<not> safe_integer n \<or> n < 1 then invalid_bundle m else Inr () | _ \<Rightarrow> invalid_bundle m) = Inr x"
    if "alike_opt c d" "(case c of JInt n \<Rightarrow> if \<not> safe_integer n \<or> n < 1 then invalid_bundle m else Inr () | _ \<Rightarrow> invalid_bundle m) = Inr x"
    for c d m and x :: unit
  proof -
    from that(2) obtain n where "c = JInt n" by (auto simp: chain_Inr)
    with that(1) have "d = c" using alike_scalar(2) by (auto simp: alike_opt_def)
    with that(2) show ?thesis by simp
  qed
  show "check_wallet v = Inr u \<Longrightarrow> check_wallet w = Inr u"
    unfolding check_wallet_def
    by (erule then_check, erule keys, erule read_check [OF _ assms], erule then_check, erule chain, assumption,
        erule read_check [OF _ assms], erule then_check, erule checks_alike(3) [rotated], assumption,
        erule read_check [OF _ assms], erule then_check, erule optional_alikes(1) [rotated], assumption,
        erule read_check [OF _ assms], erule optional_alikes(1) [rotated], assumption)
qed

lemma list_check_alike:
  assumes "forE f vs = Inr u" "list_all2 alike vs ws" "\<And>a b. alike a b \<Longrightarrow> f a = Inr () \<Longrightarrow> f b = Inr ()"
  shows "forE f ws = Inr u"
proof -
  have "f (ws ! i) = Inr ()" if i: "i < length ws" for i
  proof (rule assms(3) [of "vs ! i"])
    show "alike (vs ! i) (ws ! i)" "f (vs ! i) = Inr ()" using assms(1,2) i by (auto simp: forE_Inr list_all2_conv_all_nth)
  qed
  then show ?thesis by (auto simp: forE_Inr in_set_conv_nth)
qed

lemma control_Inr: "(case r of JBool b \<Rightarrow> (case ss of JArr xs \<Rightarrow> (case ms of JArr ys \<Rightarrow> f xs ys | _ \<Rightarrow> invalid_bundle m)
      | _ \<Rightarrow> invalid_bundle m) | _ \<Rightarrow> invalid_bundle m) = Inr u
    \<longleftrightarrow> (\<exists>b xs ys. r = JBool b \<and> ss = JArr xs \<and> ms = JArr ys \<and> f xs ys = Inr u)"
  by (cases r; cases ss; cases ms) auto

lemma control_alike:
  assumes "alike_opt c d" "check_control c = Inr u"
  shows "check_control d = Inr u"
proof -
  from assms(2) obtain r ss ms where c: "js_truthy c" "read_prop c ''recoveryAvailable'' = Inr (JBool r)"
      "read_prop c ''signers'' = Inr (JArr ss)" "read_prop c ''modules'' = Inr (JArr ms)"
      "assertKeys c [''recoveryAvailable'', ''signers'', ''modules''] ''control'' = Inr ()" "forE check_signer ss = Inr ()" "forE check_module ms = Inr u"
    by (auto simp: check_control_def bindE_Inr control_Inr split: if_splits)
  obtain r' where r: "read_prop d ''recoveryAvailable'' = Inr r'" "alike_opt (JBool r) r'" using read_alike [OF assms(1) c(2)] by blast
  obtain ss' where ss: "read_prop d ''signers'' = Inr (JArr ss')" "list_all2 alike ss ss'"
    using read_alike [OF assms(1) c(3)] by (auto simp: alike_opt_def elim: alike_array)
  obtain ms' where ms: "read_prop d ''modules'' = Inr (JArr ms')" "list_all2 alike ms ms'"
    using read_alike [OF assms(1) c(4)] by (auto simp: alike_opt_def elim: alike_array)
  have "r' = JBool r" using r(2) alike_scalar(3) by (auto simp: alike_opt_def)
  moreover have "forE check_signer ss' = Inr ()"
    by (rule list_check_alike [OF c(6) ss(2)]) (auto intro: member_checks_alike(1) simp: alike_opt_def)
  moreover have "forE check_module ms' = Inr u"
    by (rule list_check_alike [OF c(7) ms(2)]) (auto intro: member_checks_alike(2) simp: alike_opt_def)
  ultimately show ?thesis
    using r ss ms keys_alike [OF assms(1) c(5)] checks_alike(6) [OF assms(1) c(1)] by (simp add: check_control_def)
qed

lemma array_Inr: "(case a of JArr vs \<Rightarrow> f vs | _ \<Rightarrow> invalid_bundle m) = Inr u \<longleftrightarrow> (\<exists>vs. a = JArr vs \<and> f vs = Inr u)"
  by (cases a) auto

lemma valid_state_alike:
  assumes "alike v w" "validateState v = Inr v"
  shows "validateState w = Inr w"
proof -
  have vw: "alike_opt v w" using assms(1) by (simp add: alike_opt_def)
  from assms(2) obtain x c a h where s: "is_object v" "assertNoSecretMaterial v 0 = Inr ()" "read_prop v ''wallet'' = Inr x" "is_object x"
      "assertKeys v [''wallet'', ''control'', ''assets'', ''history'', ''vaultBackup''] ''wallet state'' = Inr ()" "check_wallet x = Inr ()"
      "read_prop v ''control'' = Inr c" "check_control c = Inr ()" "read_prop v ''assets'' = Inr (JArr a)" "forE check_asset a = Inr ()"
      "read_prop v ''history'' = Inr h" "check_history h = Inr ()"
    by (auto simp: validateState_def bindE_Inr array_Inr split: if_splits)
  obtain x' where x: "read_prop w ''wallet'' = Inr x'" "alike_opt x x'" using read_alike [OF vw s(3)] by blast
  obtain c' where c: "read_prop w ''control'' = Inr c'" "alike_opt c c'" using read_alike [OF vw s(7)] by blast
  obtain h' where h: "read_prop w ''history'' = Inr h'" "alike_opt h h'" using read_alike [OF vw s(11)] by blast
  obtain a' where a: "read_prop w ''assets'' = Inr (JArr a')" "list_all2 alike a a'"
    using read_alike [OF vw s(9)] by (auto simp: alike_opt_def elim: alike_array)
  have "forE check_asset a' = Inr ()"
    by (rule list_check_alike [OF s(10) a(2)]) (auto intro: member_checks_alike(3) simp: alike_opt_def)
  with x c h a show ?thesis
    using checks_alike(5) [OF vw s(1)] secret_alike [OF assms(1) s(2)] checks_alike(5) [OF x(2) s(4)] keys_alike [OF vw s(5)]
      member_checks_alike(5) [OF x(2) s(6)] control_alike [OF c(2) s(8)] member_checks_alike(4) [OF h(2) s(12)]
    by (simp add: validateState_def)
qed

lemma binding_alike:
  assumes "alike v w" "same_binding v b = Inr True"
  shows "same_binding w b = Inr True"
proof -
  have vw: "alike_opt v w" using assms(1) by (simp add: alike_opt_def)
  from assms(2) obtain x where s: "read_prop v ''wallet'' = Inr x" "read_prop x ''address'' = Inr (JStr (bh_walletAddress b))"
      "read_prop x ''chainId'' = Inr (JInt (bh_chainId b))"
    by (auto simp: same_binding_def bindE_Inr)
  obtain x' where x: "read_prop w ''wallet'' = Inr x'" "alike_opt x x'" using read_alike [OF vw s(1)] by blast
  have "read_prop x' ''address'' = Inr (JStr (bh_walletAddress b))" "read_prop x' ''chainId'' = Inr (JInt (bh_chainId b))"
    using read_alike [OF x(2) s(2)] read_alike [OF x(2) s(3)] alike_scalar(1,2) by (auto simp: alike_opt_def)
  with x(1) show ?thesis by (simp add: same_binding_def)
qed

text \<open>
  What \<open>JSON.parse\<close> makes of the canonical text of a value: a value with the same canonical
  text. It need not be the value itself, since the canonical text sorts the properties.
\<close>

definition reads_canonical :: "vault_platform \<Rightarrow> jsval \<Rightarrow> bool" where
  "reads_canonical cr v \<longleftrightarrow> (\<forall>t. serializeCanonical v = Inr t \<longrightarrow>
     (\<exists>w. cr_json cr (cr_decode cr (cr_utf8 cr t)) = Some w \<and> serializeCanonical w = Inr t))"

lemma same_text_alike: "serializeCanonical v = Inr t \<Longrightarrow> serializeCanonical w = Inr t \<Longrightarrow> alike v w"
  unfolding alike_def using serialization_norm [of v t w] unfolding serializeCanonical_def by blast

section \<open>Opening\<close>

lemma opened_bundle:
  assumes "openMigrationBundle cr date v auth signer secret now calls = (Inr s, calls')"
  shows "\<exists>b u g p. parseBundle date v = Inr b \<and> \<not> bundle_expired date b now
    \<and> unsignedBytes cr b (mg_envelope b) = Inr u \<and> fromHex (mg_signature b) = Inr g \<and> sg_verify signer u g (bh_keyId b) = Inr True
    \<and> auth ''wallet-import'' = Inr () \<and> calls' = calls @ [Verify u g (bh_keyId b), Authorize ''wallet-import'']
    \<and> openVaultEnvelope cr (mg_envelope b) secret = Inr p \<and> cr_json cr (cr_decode cr p) = Some s
    \<and> validateState s = Inr s \<and> same_binding s b = Inr True
    \<and> (\<exists>aad. canonicalBytes cr (JObj (header_entries b)) = Inr aad \<and> read_prop (mg_envelope b) ''aad'' = Inr (JStr (b64 aad)))"
proof -
  from assms obtain b u g where b: "parseBundle date v = Inr b" "\<not> bundle_expired date b now" "unsignedBytes cr b (mg_envelope b) = Inr u"
      "fromHex (mg_signature b) = Inr g" "sg_verify signer u g (bh_keyId b) = Inr True" "auth ''wallet-import'' = Inr ()"
      "calls' = calls @ [Verify u g (bh_keyId b), Authorize ''wallet-import'']" and o: "open_state cr b secret = Inr s"
    unfolding openMigrationBundle_def
    by (auto simp: bindS_Inr authorize_Inr port_call_Inr pureS_def split: if_splits)
  from o have "decrypt_state cr b secret = Inr s"
    by (auto simp: open_state_def split: sum.splits portability_exn.splits)
  then obtain p w where "openVaultEnvelope cr (mg_envelope b) secret = Inr p" "cr_json cr (cr_decode cr p) = Some w"
      "validateState w = Inr s" "same_binding s b = Inr True"
      "\<exists>aad. canonicalBytes cr (JObj (header_entries b)) = Inr aad \<and> read_prop (mg_envelope b) ''aad'' = Inr (JStr (b64 aad))"
    by (auto simp: decrypt_state_def bindE_Inr split: if_splits option.splits)
  with b validateState_Inr(1) show ?thesis by metis
qed

lemma own_strategy_Inr: "(case v of JStr s \<Rightarrow> if w \<noteq> JStr s then invalid_bundle m else f s | _ \<Rightarrow> invalid_bundle m) = Inr u
    \<longleftrightarrow> (\<exists>s. v = JStr s \<and> w = JStr s \<and> f s = Inr u)"
  by (cases v) auto

lemma header_chain_Inr: "(case c of JInt n \<Rightarrow> if \<not> safe_integer n \<or> n \<le> 0 then invalid_bundle m else Inr (f n) | _ \<Rightarrow> invalid_bundle m) = Inr h
    \<longleftrightarrow> (\<exists>n. c = JInt n \<and> safe_integer n \<and> 0 < n \<and> h = f n)"
  by (cases c) auto

lemma parsed_bundle:
  assumes "parseBundle date v = Inr b"
  obtains input ev a gs where "v = JObj input" "set (map fst input) \<subseteq> set bundle_fields"
    "jfield input ''format'' = JStr ''ssw-wallet-migration''" "jfield input ''version'' = JInt 1"
    "jfield input ''bundleId'' = JStr (bh_bundleId b)" "jfield input ''keyId'' = JStr (bh_keyId b)"
    "jfield input ''issuedAt'' = JStr (bh_issuedAt b)" "jfield input ''expiresAt'' = JStr (bh_expiresAt b)"
    "date (bh_expiresAt b) \<noteq> None" "jfield input ''walletAddress'' = JStr a" "bh_walletAddress b = to_lower a"
    "jfield input ''chainId'' = JInt (bh_chainId b)" "jfield input ''envelope'' = JObj ev" "mg_envelope b = JObj ev"
    "jfield ev ''strategy'' = JStr (bh_strategy b)" "jfield input ''signature'' = JStr gs" "mg_signature b = to_lower gs"
proof -
  from assms obtain input where v: "v = JObj input" by (auto simp: parseBundle_def split: jsval.splits)
  have keys: "find (\<lambda>e. fst e \<notin> set bundle_fields) input = None"
    using assms by (auto simp: parseBundle_def v split: option.splits)
  note open_parse = assms [unfolded parseBundle_def v jsval.case keys option.case Let_def]
  from open_parse obtain s h g where p: "jfield input ''format'' = JStr ''ssw-wallet-migration''" "jfield input ''version'' = JInt 1"
      "supported_envelope (jfield input ''envelope'') = Inr True" "read_prop (jfield input ''envelope'') ''strategy'' = Inr (JStr s)"
      "parse_header date input s = Inr h" "assertHex (jfield input ''signature'') ''signature'' = Inr g"
      "b = bundle_header.extend h \<lparr>mg_envelope = jfield input ''envelope'', mg_signature = g\<rparr>"
    by (auto simp: bindE_Inr own_strategy_Inr split: if_splits)
  from p(3) obtain ev where ev: "jfield input ''envelope'' = JObj ev"
    by (cases "jfield input ''envelope''") (auto simp: supported_envelope_def vprop_def)
  from p(6) obtain gs where gs: "jfield input ''signature'' = JStr gs" "g = to_lower gs"
    by (cases "jfield input ''signature''") (auto simp: assertHex_def split: if_splits)
  have h: "jfield input ''bundleId'' = JStr (bh_bundleId h)" "jfield input ''keyId'' = JStr (bh_keyId h)"
      "jfield input ''issuedAt'' = JStr (bh_issuedAt h)" "jfield input ''expiresAt'' = JStr (bh_expiresAt h)" "date (bh_expiresAt h) \<noteq> None"
      "\<exists>a. jfield input ''walletAddress'' = JStr a \<and> bh_walletAddress h = to_lower a" "jfield input ''chainId'' = JInt (bh_chainId h)"
      "bh_strategy h = s"
    using p(5) by (auto simp: parse_header_def bindE_Inr assert_Inr header_chain_Inr)
  from h(6) obtain a where a: "jfield input ''walletAddress'' = JStr a" "bh_walletAddress h = to_lower a" by blast
  have fb: "bh_bundleId b = bh_bundleId h" "bh_keyId b = bh_keyId h" "bh_issuedAt b = bh_issuedAt h" "bh_expiresAt b = bh_expiresAt h"
      "bh_walletAddress b = bh_walletAddress h" "bh_chainId b = bh_chainId h" "bh_strategy b = bh_strategy h" "mg_envelope b = JObj ev"
      "mg_signature b = to_lower gs"
    by (simp_all add: p(7) ev gs bundle_header.defs)
  have k: "set (map fst input) \<subseteq> set bundle_fields" using keys by (auto simp: find_None_iff)
  have st: "jfield ev ''strategy'' = JStr (bh_strategy h)" using p(4) by (simp add: ev read_prop_def vprop_def as_other_def h(8))
  show ?thesis
    by (rule that [OF v k p(1,2)]) (use h a ev st gs fb in simp_all)
qed

lemma bound_state:
  assumes "validateState s = Inr s" "same_binding s b = Inr True"
  obtains es ws where "s = JObj es" "jfield es ''wallet'' = JObj ws" "jfield ws ''address'' = JStr (bh_walletAddress b)"
    "jfield ws ''chainId'' = JInt (bh_chainId b)"
proof -
  from assms(1) obtain w where w: "read_prop s ''wallet'' = Inr w" "is_object w" "is_object s"
    by (auto simp: validateState_def bindE_Inr split: if_splits)
  from w obtain es where s: "s = JObj es" "w = jfield es ''wallet''"
    by (cases s) (auto simp: is_object_def read_prop_def vprop_def as_other_def)
  from assms(2) w(1) have b: "read_prop w ''address'' = Inr (JStr (bh_walletAddress b))" "read_prop w ''chainId'' = Inr (JInt (bh_chainId b))"
    by (auto simp: same_binding_def bindE_Inr)
  then obtain ws where ws: "w = JObj ws" using w(2) by (cases w) (auto simp: is_object_def read_prop_def vprop_def as_other_def)
  have "jfield es ''wallet'' = JObj ws" using s(2) ws by simp
  moreover have "jfield ws ''address'' = JStr (bh_walletAddress b)" "jfield ws ''chainId'' = JInt (bh_chainId b)"
    using b unfolding ws by (simp_all add: read_prop_def vprop_def as_other_def)
  ultimately show ?thesis by (rule that [OF s(1)])
qed

text \<open>
  C22: Opening returns a state only for a bundle of the known fields, format and version whose
  expiry can be parsed and lies after the present time (whenever the clock holds a time at
  all). One object m with exactly the fields of the bundle, the address lowered and the
  encryption named, was signed: the signer accepted the bundle's signature on the bytes of its
  canonical text under the bundle's key, and only after that the import was consented to. The
  encrypted envelope was authenticated together with the canonical text of m without the
  envelope, and the state it decrypts to names the address and the chain of the bundle and has
  no property with a secret name at any depth.
\<close>

theorem opened_bundle_sound:
  assumes "openMigrationBundle cr date v auth signer secret now calls = (Inr s, calls')"
  shows "\<exists>input ev m signed header key g gs x t a n strategy p es ws.
    v = JObj input \<and> set (map fst input) \<subseteq> set bundle_fields
    \<and> jfield input ''format'' = JStr ''ssw-wallet-migration'' \<and> jfield input ''version'' = JInt 1
    \<and> jfield input ''expiresAt'' = JStr x \<and> date x = Some t \<and> (\<forall>k. now = Whole k \<longrightarrow> k < t)
    \<and> jfield input ''keyId'' = JStr key \<and> jfield input ''signature'' = JStr gs \<and> fromHex (to_lower gs) = Inr g
    \<and> jfield input ''walletAddress'' = JStr a \<and> jfield input ''chainId'' = JInt n \<and> jfield input ''envelope'' = JObj ev
    \<and> (\<forall>f\<in>{''format'', ''version'', ''bundleId'', ''keyId'', ''issuedAt'', ''expiresAt'', ''chainId'', ''envelope''}.
         jfield m f = jfield input f \<and> jfield m f \<noteq> JUndef)
    \<and> jfield m ''walletAddress'' = JStr (to_lower a)
    \<and> jfield m ''encryption'' = JObj [(''algorithm'', JStr ''AES-GCM-256''), (''strategy'', JStr strategy)]
    \<and> jfield ev ''strategy'' = JStr strategy
    \<and> serializeCanonical (JObj m) = Inr signed \<and> sg_verify signer (cr_utf8 cr signed) g key = Inr True
    \<and> auth ''wallet-import'' = Inr () \<and> calls' = calls @ [Verify (cr_utf8 cr signed) g key, Authorize ''wallet-import'']
    \<and> serializeCanonical (JObj (filter (\<lambda>e. fst e \<noteq> ''envelope'') m)) = Inr header \<and> jfield ev ''aad'' = JStr (b64 (cr_utf8 cr header))
    \<and> openVaultEnvelope cr (JObj ev) secret = Inr p \<and> cr_json cr (cr_decode cr p) = Some s
    \<and> s = JObj es \<and> jfield es ''wallet'' = JObj ws \<and> jfield ws ''address'' = JStr (to_lower a) \<and> jfield ws ''chainId'' = JInt n
    \<and> (\<forall>k. nested_key s k \<longrightarrow> \<not> secret_field k)"
proof -
  from opened_bundle [OF assms] obtain b u g p aad where o: "parseBundle date v = Inr b" "\<not> bundle_expired date b now"
      "unsignedBytes cr b (mg_envelope b) = Inr u" "fromHex (mg_signature b) = Inr g" "sg_verify signer u g (bh_keyId b) = Inr True"
      "auth ''wallet-import'' = Inr ()" "calls' = calls @ [Verify u g (bh_keyId b), Authorize ''wallet-import'']"
      "openVaultEnvelope cr (mg_envelope b) secret = Inr p" "cr_json cr (cr_decode cr p) = Some s" "validateState s = Inr s"
      "same_binding s b = Inr True" "canonicalBytes cr (JObj (header_entries b)) = Inr aad" "read_prop (mg_envelope b) ''aad'' = Inr (JStr (b64 aad))"
    by blast
  from o(1) obtain input ev a gs where i: "v = JObj input" "set (map fst input) \<subseteq> set bundle_fields"
      "jfield input ''format'' = JStr ''ssw-wallet-migration''" "jfield input ''version'' = JInt 1"
      "jfield input ''bundleId'' = JStr (bh_bundleId b)" "jfield input ''keyId'' = JStr (bh_keyId b)"
      "jfield input ''issuedAt'' = JStr (bh_issuedAt b)" "jfield input ''expiresAt'' = JStr (bh_expiresAt b)"
      "date (bh_expiresAt b) \<noteq> None" "jfield input ''walletAddress'' = JStr a" "bh_walletAddress b = to_lower a"
      "jfield input ''chainId'' = JInt (bh_chainId b)" "jfield input ''envelope'' = JObj ev" "mg_envelope b = JObj ev"
      "jfield ev ''strategy'' = JStr (bh_strategy b)" "jfield input ''signature'' = JStr gs" "mg_signature b = to_lower gs"
    by (rule parsed_bundle)
  from i(9) obtain t where t: "date (bh_expiresAt b) = Some t" by blast
  have live: "\<forall>k. now = Whole k \<longrightarrow> k < t" using o(2) by (auto simp: bundle_expired_def t)
  from o(10,11) obtain es ws where w: "s = JObj es" "jfield es ''wallet'' = JObj ws" "jfield ws ''address'' = JStr (bh_walletAddress b)"
      "jfield ws ''chainId'' = JInt (bh_chainId b)" by (rule bound_state)
  let ?m = "header_entries b @ [(''envelope'', JObj ev)]"
  obtain signed where signed: "serializeCanonical (JObj ?m) = Inr signed" "u = cr_utf8 cr signed"
    using o(3) by (auto simp: unsignedBytes_def canonicalBytes_def bindE_Inr i(14))
  obtain header where header: "serializeCanonical (JObj (header_entries b)) = Inr header" "aad = cr_utf8 cr header"
    using o(12) by (auto simp: canonicalBytes_def bindE_Inr)
  have own: "filter (\<lambda>e. fst e \<noteq> ''envelope'') ?m = header_entries b" by (simp add: header_entries_def)
  have aad: "jfield ev ''aad'' = JStr (b64 (cr_utf8 cr header))"
    using o(13) header(2) by (simp add: i(14) read_prop_def vprop_def as_other_def)
  have f: "\<forall>f\<in>{''format'', ''version'', ''bundleId'', ''keyId'', ''issuedAt'', ''expiresAt'', ''chainId'', ''envelope''}.
      jfield ?m f = jfield input f \<and> jfield ?m f \<noteq> JUndef"
    using i by (simp add: header_entries_def)
  have e: "jfield ?m ''walletAddress'' = JStr (to_lower a)"
      "jfield ?m ''encryption'' = JObj [(''algorithm'', JStr ''AES-GCM-256''), (''strategy'', JStr (bh_strategy b))]"
    using i(11) by (simp_all add: header_entries_def)
  have rest: "fromHex (to_lower gs) = Inr g" "sg_verify signer (cr_utf8 cr signed) g (bh_keyId b) = Inr True"
      "calls' = calls @ [Verify (cr_utf8 cr signed) g (bh_keyId b), Authorize ''wallet-import'']"
      "serializeCanonical (JObj (filter (\<lambda>e. fst e \<noteq> ''envelope'') ?m)) = Inr header" "openVaultEnvelope cr (JObj ev) secret = Inr p"
      "jfield ws ''address'' = JStr (to_lower a)"
    using o i signed(2) header(1) w(3) own by simp_all
  have secret_free: "\<forall>k. nested_key s k \<longrightarrow> \<not> secret_field k"
    using no_secret_nested validateState_Inr(3) [OF o(10)] by blast
  show ?thesis
    by (rule exI [of _ input], rule exI [of _ ev], rule exI [of _ ?m], rule exI [of _ signed], rule exI [of _ header],
        rule exI [of _ "bh_keyId b"], rule exI [of _ g], rule exI [of _ gs], rule exI [of _ "bh_expiresAt b"], rule exI [of _ t],
        rule exI [of _ a], rule exI [of _ "bh_chainId b"], rule exI [of _ "bh_strategy b"], rule exI [of _ p], rule exI [of _ es],
        rule exI [of _ ws], intro conjI) (fact i t live f e w secret_free aad signed(1) o(6,9) rest)+
qed

section \<open>The way there and back\<close>

lemma canonicalBytes_Inr: "canonicalBytes cr v = Inr p \<longleftrightarrow> (\<exists>t. serializeCanonical v = Inr t \<and> p = cr_utf8 cr t)"
  by (auto simp: canonicalBytes_def bindE_Inr)

text \<open>What the receiving side has: a signer that accepts its own signatures, the time, the consent.\<close>

definition accepts_own_signatures :: "signature_port \<Rightarrow> bool" where
  "accepts_own_signatures sg \<longleftrightarrow> (\<forall>u g. sg_sign sg u = Inr (Some g) \<longrightarrow> sg_verify sg u g (sg_keyId sg) = Inr True)"

lemma bundle_opens:
  assumes "aead_ok cr" "exportMigrationBundle cr date state auth signer opts i expires now calls = (Inr b, calls')"
    and "option_secret opts = Some secret" "now \<noteq> ''''" "length now \<le> 64" "date now \<noteq> None"
    and "bh_walletAddress b = to_lower (bh_walletAddress b)" "accepts_own_signatures signer" "auth' ''wallet-import'' = Inr ()"
    and "\<not> bundle_expired date b later" "reads_canonical cr state"
  shows "\<exists>w. norm w = norm state \<and> fst (openMigrationBundle cr date (bundle_js b) auth' signer secret later []) = Inr w"
  using assms(2,3)
proof (rule export_Inr)
  fix e p aad u sig w
  assume v: "validateState state = Inr state" "canonicalBytes cr (JObj (header_entries b)) = Inr aad" "canonicalBytes cr state = Inr p"
    and m: "made_envelope cr p (opts\<lparr>eo_associatedData := Some aad\<rparr>) secret e" "mg_envelope b = JObj e"
    and u: "unsignedBytes cr b (JObj e) = Inr u" "sg_sign signer u = Inr (Some sig)" "sig \<noteq> ''''" "mg_signature b = ''0x'' @ byte_hex sig"
      "bh_keyId b = sg_keyId signer"
    and w: "read_prop state ''wallet'' = Inr w" "read_prop w ''address'' = Inr (JStr (bh_walletAddress b))"
      "read_prop w ''chainId'' = Inr (JInt (bh_chainId b))"
  have parsed: "parseBundle date (bundle_js b) = Inr b"
    using parse_exported [OF assms(2,3,4,5,6)] assms(7) by simp
  have verified: "sg_verify signer u sig (bh_keyId b) = Inr True" using assms(8) u(2,5) by (simp add: accepts_own_signatures_def)
  have hex: "fromHex (mg_signature b) = Inr sig" unfolding u(4) by (rule fromHex_byte_hex [OF u(3)])
  have aad: "read_prop (JObj e) ''aad'' = Inr (JStr (b64 aad))"
    using m(1) by (auto simp: made_envelope_def read_prop_def vprop_def as_other_def)
  obtain t where t: "serializeCanonical state = Inr t" "p = cr_utf8 cr t" using v(3) by (auto simp: canonicalBytes_Inr)
  with assms(11) obtain again where again: "cr_json cr (cr_decode cr p) = Some again" "serializeCanonical again = Inr t"
    by (auto simp: reads_canonical_def)
  have alike: "alike state again" by (rule same_text_alike [OF t(1) again(2)])
  have same: "same_binding again b = Inr True" by (rule binding_alike [OF alike]) (simp add: same_binding_def w)
  have "decrypt_state cr b secret = Inr again"
    unfolding decrypt_state_def m(2) open_made_envelope [OF assms(1) m(1)] v(2) aad
    using again(1) valid_state_alike [OF alike v(1)] same by (simp add: as_other_def)
  then have "open_state cr b secret = Inr again" by (simp add: open_state_def)
  then have "fst (openMigrationBundle cr date (bundle_js b) auth' signer secret later []) = Inr again"
    using parsed assms(9,10) u(1) m(2) hex verified
    by (simp add: openMigrationBundle_def bindS_def port_def authorize_action_def catchS_def)
  with alike show ?thesis by (auto simp: alike_def)
qed

text \<open>
  C20: A bundle exported for an address in lower case opens, with the secret of the export, to
  the exported state up to the order of its properties (the canonical text that is encrypted
  sorts them). The receiving side must consent to the import, its clock must not be past the
  expiry, its signer must accept the signatures of the exporting signer, and the export time
  must be a date text of at most 64 characters that the receiver's date parser reads. Of the
  platform: decryption with the right key inverts encryption, and reading the JSON of a
  canonical text gives a value with that canonical text.
\<close>

theorem exported_bundle_opens:
  assumes "aead_ok cr" "exportMigrationBundle cr date state auth signer opts i expires now calls = (Inr b, calls')"
    and "option_secret opts = Some secret" "now \<noteq> ''''" "length now \<le> 64" "date now \<noteq> None"
    and "bh_walletAddress b = to_lower (bh_walletAddress b)" "accepts_own_signatures signer" "auth' ''wallet-import'' = Inr ()"
    and "\<not> bundle_expired date b later" "reads_canonical cr state"
  shows "\<exists>w. norm w = norm state \<and> fst (openMigrationBundle cr date (bundle_js b) auth' signer secret later []) = Inr w"
  using bundle_opens [where auth' = auth' and date = date and cr = cr, OF assms] .

text \<open>A signer that accepts a signature only on the bytes it was made for.\<close>

definition no_forgery :: "signature_port \<Rightarrow> bool" where
  "no_forgery sg \<longleftrightarrow> (\<forall>u u' g k. sg_sign sg u = Inr (Some g) \<longrightarrow> sg_verify sg u' g k = Inr True \<longrightarrow> u' = u)"

text \<open>
  A bundle exported for an address with an upper-case digit never opens: the parser
  lowers the address, so the signed bytes cannot be reproduced.
\<close>

theorem mixed_case_address_does_not_open:
  assumes "exportMigrationBundle cr date state auth signer opts i expires now calls = (Inr b, calls')" "option_secret opts = Some secret"
    and "now \<noteq> ''''" "length now \<le> 64" "date now \<noteq> None"
    and "bh_walletAddress b \<noteq> to_lower (bh_walletAddress b)" "inj (cr_utf8 cr)" "no_forgery signer"
  shows "fst (openMigrationBundle cr date (bundle_js b) auth' signer secret later calls'') \<noteq> Inr s"
  using assms(1,2)
proof (rule export_Inr)
  fix e p aad u sig w
  assume m: "mg_envelope b = JObj e"
    and u: "unsignedBytes cr b (JObj e) = Inr u" "sg_sign signer u = Inr (Some sig)" "sig \<noteq> ''''" "mg_signature b = ''0x'' @ byte_hex sig"
  let ?b = "b\<lparr>bh_walletAddress := to_lower (bh_walletAddress b)\<rparr>"
  have parsed: "parseBundle date (bundle_js b) = Inr ?b" by (rule parse_exported [OF assms(1-5)])
  have hex: "fromHex (mg_signature b) = Inr sig" unfolding u(4) by (rule fromHex_byte_hex [OF u(3)])
  show "fst (openMigrationBundle cr date (bundle_js b) auth' signer secret later calls'') \<noteq> Inr s"
  proof
    assume "fst (openMigrationBundle cr date (bundle_js b) auth' signer secret later calls'') = Inr s"
    then obtain calls3 where "openMigrationBundle cr date (bundle_js b) auth' signer secret later calls'' = (Inr s, calls3)"
      by (metis prod.collapse)
    from opened_bundle [OF this] obtain b' u' g where b': "parseBundle date (bundle_js b) = Inr b'" "unsignedBytes cr b' (mg_envelope b') = Inr u'"
        "fromHex (mg_signature b') = Inr g" "sg_verify signer u' g (bh_keyId b') = Inr True" by blast
    have eq: "b' = ?b" using b'(1) parsed by simp
    have "unsignedBytes cr ?b (JObj e) = Inr u'" "g = sig" using b'(2,3) m hex by (simp_all add: eq)
    moreover have "u' = u" using b'(4) u(2) assms(8) \<open>g = sig\<close> unfolding no_forgery_def by blast
    ultimately obtain t where t: "serializeCanonical (JObj (header_entries ?b @ [(''envelope'', JObj e)])) = Inr t"
        "serializeCanonical (JObj (header_entries b @ [(''envelope'', JObj e)])) = Inr t"
      using u(1) assms(7) by (auto simp: unsignedBytes_def canonicalBytes_Inr dest: injD)
    from serialization_norm [OF t] have "norm (JStr (to_lower (bh_walletAddress b))) = norm (JStr (bh_walletAddress b))"
      using norm_field [of "header_entries ?b @ [(''envelope'', JObj e)]" "header_entries b @ [(''envelope'', JObj e)]" "''walletAddress''"]
      by (simp add: header_entries_def plain_object_def)
    with assms(6) show False by simp
  qed
qed

section \<open>Which values are serialised, and how long their text is\<close>

function serializable :: "jsval \<Rightarrow> bool" where
  "serializable (JArr vs) \<longleftrightarrow> length vs \<le> 32 \<and> list_all serializable vs"
| "serializable (JObj es) \<longleftrightarrow> list_all (\<lambda>e. serializable (snd e)) es"
| "serializable (JInt n) \<longleftrightarrow> safe_integer n"
| "serializable JNull \<longleftrightarrow> True" | "serializable (JStr s) \<longleftrightarrow> True" | "serializable (JBool b) \<longleftrightarrow> True"
| "serializable JFraction \<longleftrightarrow> False" | "serializable JNonFinite \<longleftrightarrow> False" | "serializable JUndef \<longleftrightarrow> False" | "serializable JOther \<longleftrightarrow> False"
  by pat_completeness auto
termination
  by (relation "measure size") (auto simp: less_Suc_eq_le size_list_estimation' dest: entry_size')

function js_size :: "jsval \<Rightarrow> nat" where
  "js_size (JArr vs) = 2 + sum_list (map (\<lambda>v. js_size v + 1) vs)"
| "js_size (JObj es) = 2 + sum_list (map (\<lambda>e. 6 * length (fst e) + 4 + js_size (snd e)) es)"
| "js_size (JInt n) = length (show_int n)"
| "js_size JNull = 4" | "js_size (JStr s) = 6 * length s + 2" | "js_size (JBool b) = 5"
| "js_size JFraction = 0" | "js_size JNonFinite = 0" | "js_size JUndef = 0" | "js_size JOther = 0"
  by pat_completeness auto
termination
  by (relation "measure size") (auto simp: less_Suc_eq_le size_list_estimation' dest: entry_size')

lemma length_json_string: "length (json_string s) \<le> 6 * length s + 2"
proof -
  have six: "length (json_char c) \<le> 6" for c by (simp add: json_char_def Let_def)
  have "length (concat (map json_char s)) \<le> 6 * length s"
  proof (induction s)
    case (Cons c s)
    have "length (concat (map json_char (c # s))) = length (json_char c) + length (concat (map json_char s))" by simp
    with six [of c] Cons.IH show ?case by simp
  qed simp
  then show ?thesis by (simp add: json_string_def)
qed

lemma length_comma_join: "length (comma_join ts) \<le> sum_list (map (\<lambda>t. length t + 1) ts)"
  by (induction ts rule: comma_join.induct) auto

lemma mapE_bounded:
  assumes "\<And>x. x \<in> set xs \<Longrightarrow> \<exists>t. f x = Inr t \<and> length t \<le> g x"
  shows "\<exists>ts. mapE f xs = Inr ts \<and> sum_list (map (\<lambda>t. length t + 1) ts) \<le> sum_list (map (\<lambda>x. g x + 1) xs)"
  using assms
proof (induction xs)
  case (Cons x xs)
  obtain ts where "mapE f xs = Inr ts" "sum_list (map (\<lambda>t. length t + 1) ts) \<le> sum_list (map (\<lambda>x. g x + 1) xs)"
    using Cons by auto
  moreover obtain t where "f x = Inr t" "length t \<le> g x" using Cons.prems by auto
  ultimately show ?case by simp
qed simp

lemma nesting_member:
  "v \<in> set vs \<Longrightarrow> nesting v + 1 \<le> nesting (JArr vs)"
  "e \<in> set es \<Longrightarrow> nesting (snd e) + 1 \<le> nesting (JObj es)"
  by (auto intro!: Max_ge)

lemma sum_sort_entries: fixes f :: "string \<times> 'a \<Rightarrow> nat" shows "sum_list (map f (sort_entries es)) = sum_list (map f es)"
proof -
  have "sum_mset (mset (map f (sort_entries es))) = sum_mset (mset (map f es))" by (simp add: sort_entries_def)
  then show ?thesis by (simp only: sum_mset_sum_list)
qed

lemma serialized:
  "serializable v \<Longrightarrow> nesting v + d \<le> 8 \<Longrightarrow> \<exists>t. stableValue v d = Inr t \<and> length t \<le> js_size v"
proof (induction v arbitrary: d rule: serializable.induct)
  case (1 vs)
  have "\<exists>t. stableValue v (d + 1) = Inr t \<and> length t \<le> js_size v" if v: "v \<in> set vs" for v
    using 1(1) [OF v, of "d + 1"] 1(2,3) v nesting_member(1) [OF v] by (simp add: list_all_iff del: nesting.simps)
  then obtain ts where "mapE (\<lambda>w. stableValue w (d + 1)) vs = Inr ts"
      "sum_list (map (\<lambda>t. length t + 1) ts) \<le> sum_list (map (\<lambda>v. js_size v + 1) vs)"
    using mapE_bounded [of vs "\<lambda>w. stableValue w (d + 1)" js_size] by blast
  then show ?case using 1(2,3) length_comma_join [of ts] by (simp add: stable_array)
next
  case (2 es)
  let ?f = "\<lambda>e. bindE (stableValue (snd e) (d + 1)) (\<lambda>t. Inr (json_string (fst e) @ '':'' @ t))"
  have "\<exists>t. ?f e = Inr t \<and> length t \<le> 6 * length (fst e) + 3 + js_size (snd e)" if e: "e \<in> set es" for e
  proof -
    obtain t where "stableValue (snd e) (d + 1) = Inr t" "length t \<le> js_size (snd e)"
      using 2(1) [OF e, of "d + 1"] 2(2,3) e nesting_member(2) [OF e] by (auto simp: list_all_iff simp del: nesting.simps)
    then show ?thesis using length_json_string [of "fst e"] by simp
  qed
  then obtain ts where ts: "mapE ?f (sort_entries es) = Inr ts"
      "sum_list (map (\<lambda>t. length t + 1) ts) \<le> sum_list (map (\<lambda>e. 6 * length (fst e) + 3 + js_size (snd e) + 1) (sort_entries es))"
    using mapE_bounded [of "sort_entries es" ?f "\<lambda>e. 6 * length (fst e) + 3 + js_size (snd e)"] by auto
  have "sum_list (map (\<lambda>e. 6 * length (fst e) + 3 + js_size (snd e) + 1) (sort_entries es))
      = sum_list (map (\<lambda>e. 6 * length (fst e) + 4 + js_size (snd e)) es)"
    by (simp add: sum_sort_entries algebra_simps)
  with ts 2(3) length_comma_join [of ts] show ?case by (simp add: stable_object)
next
  case (5 s)
  then show ?case using length_json_string [of s] by (simp add: stable_scalars)
qed (simp_all add: stable_scalars, simp_all add: stableValue.simps)

lemma serialized_bound:
  assumes "serializable v" "nesting v \<le> 8"
  obtains t where "serializeCanonical v = Inr t" "length t \<le> js_size v"
  using serialized [of v 0] assms by (auto simp: serializeCanonical_def)

lemma length_b64: "length (b64 x) \<le> 2 * length x + 4"
proof -
  have "length (btoa x) \<le> 2 * length x + 4" by (induction x rule: btoa.induct) (auto simp: sextets_def)
  moreover have "length (rev (dropWhile P (rev (map url_char s)))) \<le> length s" for P s
    using length_dropWhile_le [of P "rev (map url_char s)"] by simp
  ultimately show ?thesis unfolding b64_def base64Url_def using le_trans by blast
qed

section \<open>A concrete export\<close>

text \<open>A platform whose cipher is the identity, and a signer that signs the one text of the example.\<close>

definition ex_clear :: "jsval \<Rightarrow> vault_platform" where
  "ex_clear v = ex_platform\<lparr>cr_encrypt := (\<lambda>k iv a p. p), cr_decrypt := (\<lambda>k iv a c. Some c),
     cr_json := (\<lambda>t. if serializeCanonical v = Inr t then Some (norm v) else None)\<rparr>"

definition ex_time :: date_parser where
  "ex_time s = (if s = ''2026'' then Some 2026 else if s = ''2027'' then Some 2027 else None)"

definition ex_signer :: "string \<Rightarrow> signature_port" where
  "ex_signer u = \<lparr>sg_keyId = ''k1'', sg_sign = (\<lambda>x. if x = u then Inr (Some ''s'') else Inl Other_error), sg_verify = (\<lambda>x g k. Inr (x = u))\<rparr>"

lemma ex_signer_facts: "accepts_own_signatures (ex_signer u)" "no_forgery (ex_signer u)"
  by (auto simp: accepts_own_signatures_def no_forgery_def ex_signer_def)

lemma ex_clear_facts: "aead_ok (ex_clear v)" "cr_utf8 (ex_clear v) t = t"
    "reads_canonical (ex_clear v) v"
  by (auto simp: aead_ok_def ex_clear_def reads_canonical_def serializeCanonical_def intro: stable_norm)

definition ex_header_of :: "string \<Rightarrow> bundle_header" where
  "ex_header_of a = \<lparr>bh_bundleId = ''b1'', bh_keyId = ''k1'', bh_issuedAt = ''2026'', bh_expiresAt = ''2027'', bh_walletAddress = a,
     bh_chainId = 1, bh_strategy = ''prf''\<rparr>"

lemma show_one: "length (show_int 1) = 1"
  by code_simp

lemma ex_envelope: "\<exists>e. createVaultEnvelope (ex_clear v) p (ex_prf_options\<lparr>eo_associatedData := Some d\<rparr>) = Inr e
    \<and> serializable (JObj e) \<and> nesting (JObj e) \<le> 2 \<and> js_size (JObj e) \<le> 5000 + 12 * (length p + length d)"
proof -
  let ?e = "envelope_js Prf (replicate 16 (CHR ''r'')) None (replicate 12 (CHR ''r'')) (b64 (replicate 32 (CHR ''r'')))
      (replicate 12 (CHR ''r'')) (b64 p) (Some d)"
  have c: "createVaultEnvelope (ex_clear v) p (ex_prf_options\<lparr>eo_associatedData := Some d\<rparr>) = Inr ?e"
    by (simp add: createVaultEnvelope_def ex_prf_options_def option_secret_def option_iterations_def random_def deriveWrappingKey_def
        importAesKey_def vault_encrypt_def ex_clear_def)
  have "js_size (JObj ?e) \<le> 5000 + 12 * (length p + length d)"
    using length_b64 [of p] length_b64 [of d] length_b64 [of "replicate 16 (CHR ''r'')"] length_b64 [of "replicate 12 (CHR ''r'')"]
      length_b64 [of "replicate 32 (CHR ''r'')"]
    by (simp add: envelope_js_def show_one strategy_text_def)
  moreover have "serializable (JObj ?e)" by (simp add: envelope_js_def safe_integer_def)
  moreover have "nesting (JObj ?e) \<le> 2" by (simp add: envelope_js_def)
  ultimately show ?thesis using c by blast
qed

lemma header_serial:
  assumes "length (bh_walletAddress h) = 42" "bh_chainId h = 1" "length (bh_bundleId h) \<le> 10" "length (bh_keyId h) \<le> 10"
    "length (bh_issuedAt h) \<le> 10" "length (bh_expiresAt h) \<le> 10" "length (bh_strategy h) \<le> 10"
  shows "serializable (JObj (header_entries h))" "nesting (JObj (header_entries h)) = 2" "js_size (JObj (header_entries h)) \<le> 4000"
  using assms by (simp_all add: header_entries_def safe_integer_def show_one)

lemma state_serial:
  assumes "length a = 42"
  shows "serializable (ex_state a)" "nesting (ex_state a) = 2" "js_size (ex_state a) \<le> 4000"
  using assms by (simp_all add: ex_state_def safe_integer_def show_one)

lemma nesting_le: "nesting (JObj es) \<le> n \<longleftrightarrow> (\<forall>e\<in>set es. nesting (snd e) + 1 \<le> n)"
  by (simp add: Max_le_iff)

lemma nesting_append: "nesting (JObj xs) \<le> n \<Longrightarrow> nesting (JObj ys) \<le> n \<Longrightarrow> nesting (JObj (xs @ ys)) \<le> n"
  by (auto simp: nesting_le simp del: nesting.simps)

lemma nesting_envelope: "nesting (JObj e) \<le> 2 \<Longrightarrow> nesting (JObj [(''envelope'', JObj e)]) \<le> 8
    \<and> nesting (JObj [(''envelope'', JObj e), (''signature'', JStr g)]) \<le> 8"
  by (subst nesting_le, subst nesting_le) (simp del: nesting.simps(2))

lemma ex_export:
  assumes "valid_address a" "length a = 42"
  obtains b u where "exportMigrationBundle (ex_clear (ex_state a)) ex_time (ex_state a) (\<lambda>_. Inr ()) (ex_signer u) ex_prf_options ''b1'' ''2027'' ''2026'' []
      = (Inr b, [Authorize ''wallet-export'', Sign u])" "bh_walletAddress b = a" "bh_expiresAt b = ''2027''"
proof -
  let ?cr = "ex_clear (ex_state a)" and ?h = "ex_header_of a"
  have h: "serializable (JObj (header_entries ?h))" "nesting (JObj (header_entries ?h)) = 2" "js_size (JObj (header_entries ?h)) \<le> 4000"
    by (rule header_serial; simp add: ex_header_of_def assms)+
  have n: "nesting (JObj (header_entries ?h)) \<le> 8" "nesting (ex_state a) \<le> 8"
    using h(2) state_serial(2) [OF assms(2)] by linarith+
  obtain d where d: "serializeCanonical (JObj (header_entries ?h)) = Inr d" "length d \<le> 4000"
    by (rule serialized_bound [OF h(1) n(1)]) (use h(3) le_trans in blast)
  obtain p where p: "serializeCanonical (ex_state a) = Inr p" "length p \<le> 4000"
    by (rule serialized_bound [OF state_serial(1) [OF assms(2)] n(2)]) (use state_serial(3) [OF assms(2)] le_trans in blast)
  obtain e where e: "createVaultEnvelope ?cr p (ex_prf_options\<lparr>eo_associatedData := Some d\<rparr>) = Inr e" "serializable (JObj e)"
      "nesting (JObj e) \<le> 2" "js_size (JObj e) \<le> 5000 + 12 * (length p + length d)" using ex_envelope by blast
  have "serializable (JObj (header_entries ?h @ [(''envelope'', JObj e)]))" "nesting (JObj (header_entries ?h @ [(''envelope'', JObj e)])) \<le> 8"
    using h(1,2) e(2) nesting_append [of "header_entries ?h" 8] nesting_envelope [OF e(3)] by (simp_all del: nesting.simps(2))
  then obtain u where u: "serializeCanonical (JObj (header_entries ?h @ [(''envelope'', JObj e)])) = Inr u" by (rule serialized_bound)
  let ?b = "bundle_header.extend ?h \<lparr>mg_envelope = JObj e, mg_signature = ''0x'' @ byte_hex ''s''\<rparr>"
  have entries: "header_entries ?b = header_entries ?h" by (simp add: header_entries_def bundle_header.defs)
  have bjs: "bundle_js ?b = JObj (header_entries ?h @ [(''envelope'', JObj e), (''signature'', JStr (''0x'' @ byte_hex ''s''))])"
    unfolding bundle_js_def entries by (simp add: bundle_header.defs)
  have "serializable (bundle_js ?b)" "nesting (bundle_js ?b) \<le> 8" "js_size (bundle_js ?b) \<le> 2000000"
    using h(1,2) e(2) nesting_append [of "header_entries ?h" 8] nesting_envelope [OF e(3)]
      h(3) e(4) d(2) p(2) byte_hex_facts(2) [of "''s''"]
    unfolding bjs by (simp_all del: nesting.simps(2))
  then obtain t where t: "serializeCanonical (bundle_js ?b) = Inr t" "length t \<le> 2000000"
    by (meson le_trans serialized_bound)
  have sig: "assertHex (JStr (''0x'' @ byte_hex ''s'')) ''signature'' = Inr (''0x'' @ byte_hex ''s'')"
    by (simp add: assertHex_def hex_0x byte_hex_facts(2))
  have finish: "finish_bundle ?cr ?h (JObj e) (Some ''s'') = Inr ?b"
    using t unfolding finish_bundle_def sig[simplified] by (simp add: sig [simplified] Let_def canonicalBytes_def as_other_def ex_clear_facts(2))
  have seal: "seal_state ?cr (ex_state a) ?h ex_prf_options = Inr (JObj e, u)"
    using d p e(1) u by (simp add: seal_state_def canonicalBytes_def as_other_def ex_clear_facts(2) unsignedBytes_def)
  have header: "export_header ex_time (ex_state a) ''k1'' ex_prf_options ''b1'' ''2027'' ''2026'' = Inr ?h"
    by (simp add: export_header_def assertDate_def assertString_def assertId_def ex_time_def id_char_def char_classes read_prop_def vprop_def
        as_other_def ex_state_def ex_header_of_def ex_prf_options_def strategy_text_def)
  have "exportMigrationBundle ?cr ex_time (ex_state a) (\<lambda>_. Inr ()) (ex_signer u) ex_prf_options ''b1'' ''2027'' ''2026'' []
      = (Inr ?b, [Authorize ''wallet-export'', Sign u])"
    unfolding exportMigrationBundle_def
    by (simp add: bindS_def authorize_action_def catchS_def port_def ex_state_valid [OF assms(1)] header seal finish ex_signer_def)
  then show ?thesis by (rule that) (simp_all add: bundle_header.defs ex_header_of_def)
qed

lemma ex_address_length: "length (ex_address ''a'') = 42" "length (ex_address ''A'') = 42"
  by (simp_all add: ex_address_def)

lemma ex_time_facts: "ex_time ''2026'' \<noteq> None" "bh_expiresAt b = ''2027'' \<Longrightarrow> \<not> bundle_expired ex_time b (Whole 2026)"
  by (simp_all add: ex_time_def bundle_expired_def)

text \<open>The platform of the example reads the state with its properties sorted, not as it was exported.\<close>

theorem exported_bundle_opens_witness:
  "\<exists>cr b u calls w. exportMigrationBundle cr ex_time (ex_state (ex_address ''a'')) (\<lambda>_. Inr ()) (ex_signer u) ex_prf_options ''b1'' ''2027'' ''2026'' [] = (Inr b, calls)
     \<and> norm w = norm (ex_state (ex_address ''a''))
     \<and> fst (openMigrationBundle cr ex_time (bundle_js b) (\<lambda>_. Inr ()) (ex_signer u) (Secret_bytes (replicate 32 (CHR ''s''))) (Whole 2026) []) = Inr w"
proof -
  let ?s = "ex_state (ex_address ''a'')"
  obtain b u where x: "exportMigrationBundle (ex_clear ?s) ex_time ?s (\<lambda>_. Inr ()) (ex_signer u) ex_prf_options ''b1'' ''2027'' ''2026'' []
      = (Inr b, [Authorize ''wallet-export'', Sign u])" "bh_walletAddress b = ex_address ''a''" "bh_expiresAt b = ''2027''"
    by (rule ex_export [OF ex_address_valid(1) ex_address_length(1)])
  have "\<exists>w. norm w = norm ?s \<and> fst (openMigrationBundle (ex_clear ?s) ex_time (bundle_js b) (\<lambda>_. Inr ()) (ex_signer u)
      (Secret_bytes (replicate 32 (CHR ''s''))) (Whole 2026) []) = Inr w"
    by (rule exported_bundle_opens [OF ex_clear_facts(1) x(1) ex_secrets(2)])
      (use x(2) ex_address_valid(3) ex_time_facts ex_time_facts(2) [OF x(3)] ex_signer_facts ex_clear_facts(3) in auto)
  with x(1) show ?thesis by blast
qed

theorem mixed_case_address_does_not_open_witness:
  "\<exists>cr b u calls. exportMigrationBundle cr ex_time (ex_state (ex_address ''A'')) (\<lambda>_. Inr ()) (ex_signer u) ex_prf_options ''b1'' ''2027'' ''2026'' [] = (Inr b, calls)
     \<and> fst (openMigrationBundle cr ex_time (bundle_js b) (\<lambda>_. Inr ()) (ex_signer u) (Secret_bytes (replicate 32 (CHR ''s''))) (Whole 2026) [])
       \<noteq> Inr (ex_state (ex_address ''A''))"
proof -
  let ?s = "ex_state (ex_address ''A'')"
  obtain b u where x: "exportMigrationBundle (ex_clear ?s) ex_time ?s (\<lambda>_. Inr ()) (ex_signer u) ex_prf_options ''b1'' ''2027'' ''2026'' []
      = (Inr b, [Authorize ''wallet-export'', Sign u])" "bh_walletAddress b = ex_address ''A''" "bh_expiresAt b = ''2027''"
    by (rule ex_export [OF ex_address_valid(2) ex_address_length(2)])
  have inj: "inj (cr_utf8 (ex_clear ?s))" by (simp add: inj_def ex_clear_facts(2))
  have mixed: "bh_walletAddress b \<noteq> to_lower (bh_walletAddress b)"
    using x(2) ex_address_valid(4) by (simp add: ex_address_def)
  have "fst (openMigrationBundle (ex_clear ?s) ex_time (bundle_js b) (\<lambda>_. Inr ()) (ex_signer u) (Secret_bytes (replicate 32 (CHR ''s''))) (Whole 2026) []) \<noteq> Inr ?s"
    by (rule mixed_case_address_does_not_open [OF x(1) ex_secrets(2) _ _ ex_time_facts(1) mixed inj ex_signer_facts(2)]) simp_all
  with x(1) show ?thesis by blast
qed

theorem opened_bundle_sound_witness:
  "\<exists>cr input u s calls x t. openMigrationBundle cr ex_time (JObj input) (\<lambda>_. Inr ()) (ex_signer u) (Secret_bytes (replicate 32 (CHR ''s''))) (Whole 2026) []
       = (Inr s, calls) \<and> jfield input ''expiresAt'' = JStr x \<and> ex_time x = Some t \<and> 2026 < t"
proof -
  let ?s = "ex_state (ex_address ''a'')"
  obtain b u where x: "exportMigrationBundle (ex_clear ?s) ex_time ?s (\<lambda>_. Inr ()) (ex_signer u) ex_prf_options ''b1'' ''2027'' ''2026'' []
      = (Inr b, [Authorize ''wallet-export'', Sign u])" "bh_walletAddress b = ex_address ''a''" "bh_expiresAt b = ''2027''"
    by (rule ex_export [OF ex_address_valid(1) ex_address_length(1)])
  have "\<exists>w. norm w = norm ?s \<and> fst (openMigrationBundle (ex_clear ?s) ex_time (bundle_js b) (\<lambda>_. Inr ()) (ex_signer u)
      (Secret_bytes (replicate 32 (CHR ''s''))) (Whole 2026) []) = Inr w"
    by (rule bundle_opens [OF ex_clear_facts(1) x(1) ex_secrets(2)])
      (use x(2) ex_address_valid(3) ex_time_facts ex_time_facts(2) [OF x(3)] ex_signer_facts ex_clear_facts(3) in auto)
  then obtain s calls where o: "openMigrationBundle (ex_clear ?s) ex_time (bundle_js b) (\<lambda>_. Inr ()) (ex_signer u)
      (Secret_bytes (replicate 32 (CHR ''s''))) (Whole 2026) [] = (Inr s, calls)" by (metis prod.collapse)
  from opened_bundle_sound [OF o] obtain input x t where "bundle_js b = JObj input" "jfield input ''expiresAt'' = JStr x" "ex_time x = Some t"
      "\<forall>k. Whole 2026 = Whole k \<longrightarrow> k < t" by (elim exE conjE) (rule that)
  with o show ?thesis by metis
qed

end
