(* ===== verification/JsonReader.thy ===== *)
theory JsonReader
  imports TrustRegistry CredentialDomain
begin

text \<open>
  The strict JSON readers of the scanner package (\<open>credential-
  scanner/src/index.ts\<close>, \<open>credential-scanner/src/offline/index.ts\<close>): both
  refuse duplicate and unsafe keys and differ only in the rules they are given. The fuel of
  the recursion is twice the length of the text; it is shown to be enough, and what is read is
  shown to be unambiguous.
\<close>

section \<open>The reader\<close>

text \<open>
  What the two readers do not share: the greatest depth, the value of a string token (from
  its opening to its closing quote) and the value of a numeral; \<open>None\<close> is an error.
\<close>

record reader_rules =
  rr_depth :: nat
  rr_string :: "string \<Rightarrow> string option"
  rr_number :: "string \<Rightarrow> jsval option"

text \<open>
  The reader's state is the rest of the source.  \<open>No_fuel\<close> marks a call whose fuel was too
  small for the rest; it is no outcome of \<open>strict_parse\<close>.
\<close>

datatype read_error = Invalid_json | No_fuel

definition skip_space :: "string \<Rightarrow> string" where
  "skip_space s = dropWhile is_space s"

text \<open>The raw token from its opening quote: the characters up to the closing quote, which is included.\<close>

fun string_token :: "bool \<Rightarrow> string \<Rightarrow> (string \<times> string) option" where
  "string_token escaped [] = None"
| "string_token escaped (c # s) =
     (if escaped then map_option (\<lambda>p. (c # fst p, snd p)) (string_token False s)
      else if c = CHR 0x5C then map_option (\<lambda>p. (c # fst p, snd p)) (string_token True s)
      else if c = CHR 0x22 then Some ([c], s)
      else if c < CHR '' '' then None
      else map_option (\<lambda>p. (c # fst p, snd p)) (string_token False s))"

text \<open>The argument starts after the opening quote.\<close>

definition read_string :: "reader_rules \<Rightarrow> string \<Rightarrow> read_error + string \<times> string" where
  "read_string ru s = (case string_token False s of None \<Rightarrow> Inl Invalid_json
     | Some (tok, r) \<Rightarrow> (case rr_string ru (CHR 0x22 # tok) of None \<Rightarrow> Inl Invalid_json | Some t \<Rightarrow> Inr (t, r)))"

text \<open>The longest match of \<open>-?(0|[1-9]\d*)(\.\d+)?([eE][+-]?\d+)?\<close>, with what follows it.\<close>

definition digits_then :: "string \<Rightarrow> string \<times> string" where
  "digits_then s = (takeWhile is_digit s, dropWhile is_digit s)"

definition fraction_part :: "string \<Rightarrow> string \<times> string" where
  "fraction_part s = (case s of [] \<Rightarrow> ([], s) | c # r \<Rightarrow>
     if c = CHR ''.'' \<and> fst (digits_then r) \<noteq> [] then (c # fst (digits_then r), snd (digits_then r)) else ([], s))"

definition exponent_part :: "string \<Rightarrow> string \<times> string" where
  "exponent_part s = (case s of [] \<Rightarrow> ([], s) | c # r \<Rightarrow>
     if c \<in> {CHR ''e'', CHR ''E''} then
       (let sign = (case r of [] \<Rightarrow> [] | d # _ \<Rightarrow> if d \<in> {CHR ''+'', CHR ''-''} then [d] else []);
            p = digits_then (drop (length sign) r) in
        if fst p \<noteq> [] then (c # sign @ fst p, snd p) else ([], s))
     else ([], s))"

definition integer_part :: "string \<Rightarrow> (string \<times> string) option" where
  "integer_part s = (case s of [] \<Rightarrow> None | c # r \<Rightarrow>
     if c = CHR ''0'' then Some ([c], r) else if is_digit c then Some (c # fst (digits_then r), snd (digits_then r)) else None)"

definition numeral_prefix :: "string \<Rightarrow> (string \<times> string) option" where
  "numeral_prefix s = (let sign = (case s of [] \<Rightarrow> [] | c # _ \<Rightarrow> if c = CHR ''-'' then [c] else []) in
     case integer_part (drop (length sign) s) of None \<Rightarrow> None
     | Some (i, r) \<Rightarrow> let f = fraction_part r; e = exponent_part (snd f) in Some (sign @ i @ fst f @ fst e, snd e))"

definition read_number :: "reader_rules \<Rightarrow> string \<Rightarrow> read_error + jsval \<times> string" where
  "read_number ru s = (case numeral_prefix s of None \<Rightarrow> Inl Invalid_json
     | Some (tok, r) \<Rightarrow> (case rr_number ru tok of None \<Rightarrow> Inl Invalid_json | Some v \<Rightarrow> Inr (v, r)))"

definition unsafe_keys :: "string list" where
  "unsafe_keys = [''__proto__'', ''constructor'', ''prototype'']"

text \<open>
  \<open>read_members\<close> is the loop of an object whose properties so far are \<open>es\<close>, \<open>read_items\<close> that
  of an array; both start before a member.
\<close>

fun read_value :: "reader_rules \<Rightarrow> nat \<Rightarrow> nat \<Rightarrow> string \<Rightarrow> read_error + jsval \<times> string"
  and read_members :: "reader_rules \<Rightarrow> nat \<Rightarrow> nat \<Rightarrow> (string \<times> jsval) list \<Rightarrow> string \<Rightarrow> read_error + jsval \<times> string"
  and read_items :: "reader_rules \<Rightarrow> nat \<Rightarrow> nat \<Rightarrow> jsval list \<Rightarrow> string \<Rightarrow> read_error + jsval \<times> string" where
  "read_value ru 0 depth s = Inl No_fuel"
| "read_value ru (Suc n) depth s =
     (if rr_depth ru < depth then Inl Invalid_json else
      case skip_space s of
        [] \<Rightarrow> Inl Invalid_json
      | c # r \<Rightarrow>
          if c = CHR ''{'' then
            (case skip_space r of d # r' \<Rightarrow> if d = CHR ''}'' then Inr (JObj [], r') else read_members ru n (depth + 1) [] r
             | [] \<Rightarrow> read_members ru n (depth + 1) [] r)
          else if c = CHR ''['' then
            (case skip_space r of d # r' \<Rightarrow> if d = CHR '']'' then Inr (JArr [], r') else read_items ru n (depth + 1) [] r
             | [] \<Rightarrow> read_items ru n (depth + 1) [] r)
          else if c = CHR 0x22 then (case read_string ru r of Inl e \<Rightarrow> Inl e | Inr (t, r') \<Rightarrow> Inr (JStr t, r'))
          else if has_prefix ''true'' (c # r) then Inr (JBool True, drop 4 (c # r))
          else if has_prefix ''false'' (c # r) then Inr (JBool False, drop 5 (c # r))
          else if has_prefix ''null'' (c # r) then Inr (JNull, drop 4 (c # r))
          else read_number ru (c # r))"
| "read_members ru 0 depth es s = Inl No_fuel"
| "read_members ru (Suc n) depth es s = (case skip_space s of
       [] \<Rightarrow> Inl Invalid_json
     | c # r \<Rightarrow> if c \<noteq> CHR 0x22 then Inl Invalid_json else
         (case read_string ru r of Inl e \<Rightarrow> Inl e
          | Inr (key, r1) \<Rightarrow>
              if own es key \<or> key \<in> set unsafe_keys then Inl Invalid_json else
              (case skip_space r1 of
                 [] \<Rightarrow> Inl Invalid_json
               | d # r2 \<Rightarrow> if d \<noteq> CHR '':'' then Inl Invalid_json else
                   (case read_value ru n depth r2 of Inl e \<Rightarrow> Inl e
                    | Inr (v, r3) \<Rightarrow> (case skip_space r3 of
                          [] \<Rightarrow> Inl Invalid_json
                        | e # r4 \<Rightarrow> if e = CHR ''}'' then Inr (JObj (es @ [(key, v)]), r4)
                            else if e = CHR '','' then read_members ru n depth (es @ [(key, v)]) r4 else Inl Invalid_json)))))"
| "read_items ru 0 depth vs s = Inl No_fuel"
| "read_items ru (Suc n) depth vs s = (case read_value ru n depth s of Inl e \<Rightarrow> Inl e
     | Inr (v, r) \<Rightarrow> if 256 < length (vs @ [v]) then Inl Invalid_json else
         (case skip_space r of
            [] \<Rightarrow> Inl Invalid_json
          | d # r' \<Rightarrow> if d = CHR '']'' then Inr (JArr (vs @ [v]), r')
              else if d = CHR '','' then read_items ru n depth (vs @ [v]) r' else Inl Invalid_json))"

definition strict_parse :: "reader_rules \<Rightarrow> string \<Rightarrow> read_error + jsval" where
  "strict_parse ru s = (case read_value ru (2 * length s + 2) 0 s of Inl e \<Rightarrow> Inl e
     | Inr (v, r) \<Rightarrow> if skip_space r = [] then Inr v else Inl Invalid_json)"

section \<open>The strict reader always answers\<close>

lemma skip_space_length: "length (skip_space s) \<le> length s"
  unfolding skip_space_def by (rule length_dropWhile_le)

lemma string_token_shorter: "string_token b s = Some (tok, r) \<Longrightarrow> length r < length s"
proof (induction b s arbitrary: tok r rule: string_token.induct)
  case (2 escaped c s)
  then show ?case by (auto split: if_splits intro: less_SucI)
qed simp

lemma read_string_shorter: "read_string ru s = Inr (t, r) \<Longrightarrow> length r < length s"
  using string_token_shorter by (auto simp: read_string_def split: option.splits if_splits)

lemma digits_then_length: "length (snd (digits_then s)) \<le> length s"
  by (simp add: digits_then_def length_dropWhile_le)

lemma fraction_part_length: "length (snd (fraction_part s)) \<le> length s"
  using digits_then_length le_Suc_eq by (auto simp: fraction_part_def split: list.split)

lemma exponent_part_length: "length (snd (exponent_part s)) \<le> length s"
proof (cases s)
  case (Cons c r)
  let ?sign = "case r of [] \<Rightarrow> [] | d # _ \<Rightarrow> if d \<in> {CHR ''+'', CHR ''-''} then [d] else []"
  have "length (snd (digits_then (drop (length ?sign) r))) \<le> length (drop (length ?sign) r)" by (rule digits_then_length)
  then have "length (snd (digits_then (drop (length ?sign) r))) \<le> length r" by simp
  then show ?thesis unfolding Cons exponent_part_def list.case Let_def by (simp only: split: if_split) auto
qed (simp add: exponent_part_def)

lemma integer_part_shorter: "integer_part w = Some (i, q) \<Longrightarrow> length q < length w"
  using digits_then_length by (cases w) (auto simp: integer_part_def less_Suc_eq_le split: if_splits)

lemma numeral_prefix_shorter: "numeral_prefix s = Some (tok, r) \<Longrightarrow> length r < length s"
proof -
  assume h: "numeral_prefix s = Some (tok, r)"
  obtain k i q where k: "integer_part (drop k s) = Some (i, q)" "r = snd (exponent_part (snd (fraction_part q)))"
    using h by (auto simp: numeral_prefix_def Let_def split: option.splits)
  have "length q < length (drop k s)"
    using k(1) by (rule integer_part_shorter)
  moreover have "length r \<le> length q"
    unfolding k(2) using exponent_part_length fraction_part_length le_trans by blast
  ultimately show ?thesis by simp
qed

lemma read_number_shorter: "read_number ru s = Inr (v, r) \<Longrightarrow> length r < length s"
  using numeral_prefix_shorter by (auto simp: read_number_def split: option.splits  if_splits)

lemma skip_space_Cons: "skip_space s = c # r \<Longrightarrow> length r < length s"
  using skip_space_length [of s] by simp

text \<open>One step of \<open>read_value\<close>, by the first character.\<close>

lemma read_value_cases:
  assumes "read_value ru (Suc n) d s = x"
  obtains (deep) "x = Inl Invalid_json"
  | (empty_object) w u where "skip_space s = CHR ''{'' # w" "skip_space w = CHR ''}'' # u" "x = Inr (JObj [], u)"
  | (object) w where "skip_space s = CHR ''{'' # w" "x = read_members ru n (d + 1) [] w"
  | (empty_array) w u where "skip_space s = CHR ''['' # w" "skip_space w = CHR '']'' # u" "x = Inr (JArr [], u)"
  | (array) w where "skip_space s = CHR ''['' # w" "x = read_items ru n (d + 1) [] w"
  | (quoted) w where "skip_space s = CHR 0x22 # w" "x = (case read_string ru w of Inl e \<Rightarrow> Inl e | Inr (t, r) \<Rightarrow> Inr (JStr t, r))"
  | (word) c w v k where "skip_space s = c # w" "0 < k" "v \<in> {JBool True, JBool False, JNull}" "x = Inr (v, drop k (c # w))"
  | (number) c w where "skip_space s = c # w" "x = read_number ru (c # w)"
proof (cases "skip_space s")
  case Nil
  then show ?thesis using assms by (intro deep) (simp split: if_splits)
next
  case (Cons c w)
  consider "rr_depth ru < d" | "\<not> rr_depth ru < d" "c = CHR ''{''" | "\<not> rr_depth ru < d" "c = CHR ''[''" | "\<not> rr_depth ru < d" "c = CHR 0x22"
    | "\<not> rr_depth ru < d" "c \<notin> {CHR ''{'', CHR ''['', CHR 0x22}" by blast
  then show ?thesis
  proof cases
    case 1
    then show ?thesis using assms by (intro deep) simp
  next
    case 2
    show ?thesis
    proof (cases "\<exists>u. skip_space w = CHR ''}'' # u")
      case True
      then obtain u where "skip_space w = CHR ''}'' # u" by blast
      with 2 Cons assms show ?thesis by (intro empty_object [of w u]) simp_all
    next
      case False
      with 2 Cons assms show ?thesis by (intro object [of w]) (auto split: list.splits)
    qed
  next
    case 3
    show ?thesis
    proof (cases "\<exists>u. skip_space w = CHR '']'' # u")
      case True
      then obtain u where "skip_space w = CHR '']'' # u" by blast
      with 3 Cons assms show ?thesis by (intro empty_array [of w u]) simp_all
    next
      case False
      with 3 Cons assms show ?thesis by (intro array [of w]) (auto split: list.splits)
    qed
  next
    case 4
    with Cons assms show ?thesis by (intro quoted [of w]) simp_all
  next
    case 5
    show ?thesis
    proof (cases "has_prefix ''true'' (c # w) \<or> has_prefix ''false'' (c # w) \<or> has_prefix ''null'' (c # w)")
      case True
      with 5 Cons assms have "x = Inr (JBool True, drop 4 (c # w)) \<or> x = Inr (JBool False, drop 5 (c # w)) \<or> x = Inr (JNull, drop 4 (c # w))"
        by (simp split: if_splits)
      then show ?thesis
        by (elim disjE) (use Cons word [of c w 4 "JBool True"] word [of c w 5 "JBool False"] word [of c w 4 JNull] in simp_all)
    next
      case False
      with 5 Cons assms show ?thesis by (intro number [of c w]) simp_all
    qed
  qed
qed

lemma read_string_error: "read_string ru s = Inl e \<Longrightarrow> e = Invalid_json"
  by (auto simp: read_string_def split: option.splits if_splits)

lemma read_number_error: "read_number ru s = Inl e \<Longrightarrow> e = Invalid_json"
  by (auto simp: read_number_def split: option.splits  if_splits)

lemma read_members_cases:
  assumes "read_members ru (Suc n) d es s = x"
  obtains (bad) "x = Inl Invalid_json"
  | (value_error) w key r1 r2 e where "skip_space s = CHR 0x22 # w" "read_string ru w = Inr (key, r1)" "skip_space r1 = CHR '':'' # r2"
      "read_value ru n d r2 = Inl e" "x = Inl e"
  | (final) w key r1 r2 v r3 r4 where "skip_space s = CHR 0x22 # w" "read_string ru w = Inr (key, r1)" "skip_space r1 = CHR '':'' # r2"
      "read_value ru n d r2 = Inr (v, r3)" "skip_space r3 = CHR ''}'' # r4" "x = Inr (JObj (es @ [(key, v)]), r4)"
  | (more) w key r1 r2 v r3 r4 where "skip_space s = CHR 0x22 # w" "read_string ru w = Inr (key, r1)" "skip_space r1 = CHR '':'' # r2"
      "read_value ru n d r2 = Inr (v, r3)" "skip_space r3 = CHR '','' # r4" "x = read_members ru n d (es @ [(key, v)]) r4"
proof (cases "\<exists>w key r1 r2. skip_space s = CHR 0x22 # w \<and> read_string ru w = Inr (key, r1) \<and> skip_space r1 = CHR '':'' # r2 \<and> \<not> (own es key \<or> key \<in> set unsafe_keys)")
  case False
  then have "x = Inl Invalid_json"
    using assms by (auto split: list.splits if_splits sum.splits dest: read_string_error)
  then show ?thesis by (rule bad)
next
  case True
  then obtain w key r1 r2 where k: "skip_space s = CHR 0x22 # w" "read_string ru w = Inr (key, r1)" "skip_space r1 = CHR '':'' # r2"
      "\<not> (own es key \<or> key \<in> set unsafe_keys)" by blast
  show ?thesis
  proof (cases "read_value ru n d r2")
    case (Inl e)
    with k assms show ?thesis by (intro value_error [of w key r1 r2 e]) simp_all
  next
    case (Inr p)
    obtain v r3 where p: "p = (v, r3)" by (cases p)
    show ?thesis
    proof (cases "skip_space r3")
      case Nil
      with k Inr p assms show ?thesis by (intro bad) simp
    next
      case (Cons c r4)
      consider "c = CHR ''}''" | "c = CHR '',''" | "c \<notin> {CHR ''}'', CHR '',''}" by blast
      then show ?thesis
      proof cases
        case 1
        with k Inr p Cons assms show ?thesis by (intro final [of w key r1 r2 v r3 r4]) simp_all
      next
        case 2
        with k Inr p Cons assms show ?thesis by (intro more [of w key r1 r2 v r3 r4]) simp_all
      next
        case 3
        with k Inr p Cons assms show ?thesis by (intro bad) simp
      qed
    qed
  qed
qed

lemma read_items_cases:
  assumes "read_items ru (Suc n) d vs s = x"
  obtains (bad) "x = Inl Invalid_json"
  | (value_error) e where "read_value ru n d s = Inl e" "x = Inl e"
  | (final) v r r' where "read_value ru n d s = Inr (v, r)" "skip_space r = CHR '']'' # r'" "x = Inr (JArr (vs @ [v]), r')"
  | (more) v r r' where "read_value ru n d s = Inr (v, r)" "skip_space r = CHR '','' # r'" "x = read_items ru n d (vs @ [v]) r'"
proof (cases "read_value ru n d s")
  case (Inl e)
  with assms show ?thesis by (intro value_error [of e]) simp_all
next
  case (Inr p)
  obtain v r where p: "p = (v, r)" by (cases p)
  show ?thesis
  proof (cases "skip_space r")
    case Nil
    with Inr p assms show ?thesis by (intro bad) (simp split: if_splits)
  next
    case (Cons c r')
    consider "256 < length (vs @ [v])" | "\<not> 256 < length (vs @ [v])" "c = CHR '']''" | "\<not> 256 < length (vs @ [v])" "c = CHR '',''"
      | "c \<notin> {CHR '']'', CHR '',''}" by blast
    then show ?thesis
    proof cases
      case 1
      with Inr p Cons assms show ?thesis by (intro bad) simp
    next
      case 2
      with Inr p Cons assms show ?thesis by (intro final [of v r r']) simp_all
    next
      case 3
      with Inr p Cons assms show ?thesis by (intro more [of v r r']) simp_all
    next
      case 4
      with Inr p Cons assms show ?thesis by (intro bad) (simp split: if_splits)
    qed
  qed
qed

lemma readers_shorter:
  "(\<forall>d s v r. read_value ru n d s = Inr (v, r) \<longrightarrow> length r < length s)
   \<and> (\<forall>d es s v r. read_members ru n d es s = Inr (v, r) \<longrightarrow> length r < length s)
   \<and> (\<forall>d vs s v r. read_items ru n d vs s = Inr (v, r) \<longrightarrow> length r < length s)"
proof (induction n)
  case (Suc n)
  have at_value: "length r < length s" if "read_value ru (Suc n) d s = Inr (v, r)" for d s v r
    using that
  proof (cases rule: read_value_cases)
    case (empty_object w u)
    then show ?thesis using skip_space_Cons [of s] skip_space_Cons [of w] by fastforce
  next
    case (object w)
    then have "length r < length w" using Suc by metis
    then show ?thesis using skip_space_Cons [OF object(1)] by simp
  next
    case (empty_array w u)
    then show ?thesis using skip_space_Cons [of s] skip_space_Cons [of w] by fastforce
  next
    case (array w)
    then have "length r < length w" using Suc by metis
    then show ?thesis using skip_space_Cons [OF array(1)] by simp
  next
    case (quoted w)
    then show ?thesis using skip_space_Cons [of s] read_string_shorter by (fastforce split: sum.splits)
  next
    case (word c w v k)
    then show ?thesis using skip_space_Cons [of s c w] by auto
  next
    case (number c w)
    then have "length r < length (c # w)" using read_number_shorter by metis
    then show ?thesis using skip_space_length [of s] number(1) by simp
  qed simp
  have members: "length r < length s" if "read_members ru (Suc n) d es s = Inr (v, r)" for d es s v r
    using that
  proof (cases rule: read_members_cases)
    case (final w key r1 r2 v' r3 r4)
    have "length r3 < length r2" using Suc final(4) by metis
    with final(6) skip_space_Cons [OF final(1)] read_string_shorter [OF final(2)] skip_space_Cons [OF final(3)] skip_space_Cons [OF final(5)]
    show ?thesis by simp
  next
    case (more w key r1 r2 v' r3 r4)
    have "length r3 < length r2" "length r < length r4" using Suc more(4,6) by metis+
    with skip_space_Cons [OF more(1)] read_string_shorter [OF more(2)] skip_space_Cons [OF more(3)] skip_space_Cons [OF more(5)]
    show ?thesis by simp
  qed simp_all
  have items: "length r < length s" if "read_items ru (Suc n) d vs s = Inr (v, r)" for d vs s v r
    using that
  proof (cases rule: read_items_cases)
    case (final v' q q')
    have "length q < length s" using Suc final(1) by metis
    with final(3) skip_space_Cons [OF final(2)] show ?thesis by simp
  next
    case (more v' q q')
    have "length q < length s" "length r < length q'" using Suc more(1,3) by metis+
    with skip_space_Cons [OF more(2)] show ?thesis by simp
  qed simp_all
  show ?case using at_value members items by blast
qed simp

lemmas reader_shorter = readers_shorter [THEN conjunct1, rule_format] readers_shorter [THEN conjunct2, THEN conjunct1, rule_format]
  readers_shorter [THEN conjunct2, THEN conjunct2, rule_format]

text \<open>Enough fuel: one call per character for a value and its members, one more for an array.\<close>

lemma readers_fuel:
  "(\<forall>d s. 2 * length s < n \<longrightarrow> read_value ru n d s \<noteq> Inl No_fuel)
   \<and> (\<forall>d es s. 2 * length s < n \<longrightarrow> read_members ru n d es s \<noteq> Inl No_fuel)
   \<and> (\<forall>d vs s. 2 * length s + 1 < n \<longrightarrow> read_items ru n d vs s \<noteq> Inl No_fuel)"
proof (induction n)
  case (Suc n)
  have at_value: False if l: "2 * length s < Suc n" and x: "read_value ru (Suc n) d s = Inl No_fuel" for d s
    using x
  proof (cases rule: read_value_cases)
    case (object w)
    have "2 * length w < n" using skip_space_Cons [OF object(1)] l by simp
    with Suc object(2) show ?thesis by metis
  next
    case (array w)
    have "2 * length w + 1 < n" using skip_space_Cons [OF array(1)] l by simp
    with Suc array(2) show ?thesis by metis
  next
    case (quoted w)
    then show ?thesis using read_string_error by (fastforce split: sum.splits)
  next
    case (number c w)
    then show ?thesis using read_number_error by (metis read_error.distinct(1))
  qed simp_all
  have members: False if l: "2 * length s < Suc n" and x: "read_members ru (Suc n) d es s = Inl No_fuel" for d es s
    using x
  proof (cases rule: read_members_cases)
    case (value_error w key r1 r2 e)
    have "2 * length r2 < n"
      using skip_space_Cons [OF value_error(1)] read_string_shorter [OF value_error(2)] skip_space_Cons [OF value_error(3)] l by simp
    with Suc value_error(4,5) show ?thesis by (metis sum.inject(1))
  next
    case (more w key r1 r2 v' r3 r4)
    have "2 * length r4 < n"
      using skip_space_Cons [OF more(1)] read_string_shorter [OF more(2)] skip_space_Cons [OF more(3)] reader_shorter(1) [OF more(4)]
        skip_space_Cons [OF more(5)] l by simp
    with Suc more(6) show ?thesis by metis
  qed simp_all
  have items: False if l: "2 * length s + 1 < Suc n" and x: "read_items ru (Suc n) d vs s = Inl No_fuel" for d vs s
    using x
  proof (cases rule: read_items_cases)
    case (value_error e)
    have "2 * length s < n" using l by simp
    with Suc value_error show ?thesis by (metis sum.inject(1))
  next
    case (more v' q q')
    have "2 * length q' + 1 < n" using reader_shorter(1) [OF more(1)] skip_space_Cons [OF more(2)] l by simp
    with Suc more(3) show ?thesis by metis
  qed simp_all
  show ?case using at_value members items by blast
qed simp

text \<open>
  C23: The fuel of the strict reader is always enough: on every text it returns a value or
  refuses the text, whatever the rules for strings, numerals and depth.
\<close>

theorem strict_reader_answers: "strict_parse ru s \<noteq> Inl No_fuel"
proof -
  have "read_value ru (2 * length s + 2) 0 s \<noteq> Inl No_fuel" 
    by (rule readers_fuel [THEN conjunct1, rule_format]) simp
  then show ?thesis by (auto simp: strict_parse_def split: sum.splits)
qed

section \<open>What the reader returns is unambiguous\<close>

text \<open>No object has two properties of one name or a property that names a prototype, and no array is longer than 256.\<close>

function safe_json :: "jsval \<Rightarrow> bool" where
  "safe_json (JArr vs) \<longleftrightarrow> length vs \<le> 256 \<and> list_all safe_json vs"
| "safe_json (JObj es) \<longleftrightarrow> distinct (map fst es) \<and> list_all (\<lambda>e. fst e \<notin> set unsafe_keys \<and> safe_json (snd e)) es"
| "safe_json JUndef \<longleftrightarrow> True" | "safe_json JNull \<longleftrightarrow> True" | "safe_json (JStr s) \<longleftrightarrow> True" | "safe_json (JBool b) \<longleftrightarrow> True"
| "safe_json (JInt n) \<longleftrightarrow> True" | "safe_json JFraction \<longleftrightarrow> True" | "safe_json JNonFinite \<longleftrightarrow> True" | "safe_json JOther \<longleftrightarrow> True"
  by pat_completeness auto
termination
  by (relation "measure size") (auto dest: entry_size' size_list_estimation' [of _ _ "size _" size] simp: less_Suc_eq_le)

definition number_rule :: "reader_rules \<Rightarrow> bool" where
  "number_rule ru \<longleftrightarrow> (\<forall>tok v. rr_number ru tok = Some v \<longrightarrow> (\<exists>n. v = JInt n) \<or> v = JFraction)"

lemma read_number_safe: "number_rule ru \<Longrightarrow> read_number ru s = Inr (v, r) \<Longrightarrow> safe_json v"
  by (auto simp: read_number_def number_rule_def split: option.splits) (metis safe_json.simps(7,8))

text \<open>The members read so far are safe.\<close>

definition safe_members :: "(string \<times> jsval) list \<Rightarrow> bool" where
  "safe_members es \<longleftrightarrow> distinct (map fst es) \<and> (\<forall>e\<in>set es. fst e \<notin> set unsafe_keys \<and> safe_json (snd e))"

lemma safe_members_object: "safe_members es \<Longrightarrow> safe_json (JObj es)"
  by (simp add: safe_members_def list_all_iff)

lemma read_members_safe_key:
  assumes "read_members ru (Suc n) d es s = Inr p" "skip_space s = CHR 0x22 # w" "read_string ru w = Inr (key, r1)"
  shows "\<not> own es key" "key \<notin> set unsafe_keys"
  using assms by (auto split: if_splits)

lemma read_items_safe_length:
  assumes "read_items ru (Suc n) d vs s = Inr p"
  shows "length vs < 256"
  using assms by (auto split: if_splits sum.splits)

lemma safe_member_snoc: "safe_members es \<Longrightarrow> \<not> own es key \<Longrightarrow> key \<notin> set unsafe_keys \<Longrightarrow> safe_json v \<Longrightarrow> safe_members (es @ [(key, v)])"
  by (auto simp: safe_members_def own_def)

lemma readers_safe:
  assumes "number_rule ru"
  shows "(\<forall>d s v r. read_value ru n d s = Inr (v, r) \<longrightarrow> safe_json v)
   \<and> (\<forall>d es s v r. safe_members es \<longrightarrow> read_members ru n d es s = Inr (v, r) \<longrightarrow> safe_json v)
   \<and> (\<forall>d vs s v r. list_all safe_json vs \<longrightarrow> read_items ru n d vs s = Inr (v, r) \<longrightarrow> safe_json v)"
proof (induction n)
  case (Suc n)
  have at_value: "safe_json v" if "read_value ru (Suc n) d s = Inr (v, r)" for d s v r
    using that
  proof (cases rule: read_value_cases)
    case (object w)
    moreover have "safe_members []" by (simp add: safe_members_def)
    ultimately show ?thesis using Suc by metis
  next
    case (array w)
    moreover have "list_all safe_json []" by simp
    ultimately show ?thesis using Suc by metis
  next
    case (quoted w)
    then show ?thesis by (auto split: sum.splits)
  next
    case (word c w v' k)
    then show ?thesis by auto
  next
    case (number c w)
    then have "read_number ru (c # w) = Inr (v, r)" by simp
    with assms show ?thesis by (rule read_number_safe)
  qed simp_all
  have members: "safe_json v" if es: "safe_members es" and x: "read_members ru (Suc n) d es s = Inr (v, r)" for d es s v r
    using x
  proof (cases rule: read_members_cases)
    case (final w key r1 r2 v' r3 r4)
    have "safe_json v'" using Suc final(4) by metis
    then have "safe_members (es @ [(key, v')])"
      using safe_member_snoc [OF es read_members_safe_key [OF x final(1,2)]] by simp
    then have "safe_json (JObj (es @ [(key, v')]))" by (rule safe_members_object)
    with final(6) show ?thesis by (simp only: sum.inject prod.inject)
  next
    case (more w key r1 r2 v' r3 r4)
    have "safe_json v'" using Suc more(4) by metis
    then have "safe_members (es @ [(key, v')])"
      using safe_member_snoc [OF es read_members_safe_key [OF x more(1,2)]] by simp
    moreover have "read_members ru n d (es @ [(key, v')]) r4 = Inr (v, r)" using more(6) by simp
    ultimately show ?thesis using Suc by metis
  qed simp_all
  have items: "safe_json v" if vs: "list_all safe_json vs" and x: "read_items ru (Suc n) d vs s = Inr (v, r)" for d vs s v r
    using x
  proof (cases rule: read_items_cases)
    case (final v' q q')
    have "safe_json v'" using Suc final(1) by metis
    with final(3) vs read_items_safe_length [OF x] show ?thesis by simp
  next
    case (more v' q q')
    have "safe_json v'" using Suc more(1) by metis
    then have "list_all safe_json (vs @ [v'])" using vs by simp
    moreover have "read_items ru n d (vs @ [v']) q' = Inr (v, r)" using more(3) by simp
    ultimately show ?thesis using Suc by metis
  qed simp_all
  show ?case using at_value members items by blast
qed simp

text \<open>
  C29: A value the strict reader returns has, at every depth, no object with two properties of
  one name or with a property that names a prototype, and no array longer than 256.
\<close>

theorem strict_value_unambiguous:
  assumes "number_rule ru" "strict_parse ru s = Inr v"
  shows "safe_json v"
proof -
  obtain r where "read_value ru (2 * length s + 2) 0 s = Inr (v, r)"
    using assms(2) unfolding strict_parse_def by (cases "read_value ru (2 * length s + 2) 0 s") (auto simp del: read_value.simps split: if_splits)
  with readers_safe [OF assms(1)] show ?thesis by metis
qed

end
