(* ===== verification/CredentialScanner.thy ===== *)
theory CredentialScanner
  imports JsonReader
begin

text \<open>
  Bounded classification of scanned texts and QR codes (\<open>credential-
  scanner/src/index.ts\<close>): input and URI checks, credential offers, presentation
  requests and offline envelopes, and the in-memory boundary for one-time tokens. The URL
  parser and the predicates of the caller are arguments.
\<close>

section \<open>Codes, results and the platform\<close>

datatype scan_code =
    EMPTY_INPUT | INPUT_TOO_LARGE | SCAN_INVALID_ENCODING | CONTROL_CHARACTER | UNKNOWN_SCHEME | MALFORMED_URI | UNSUPPORTED_HOST
  | DUPLICATE_PARAMETER | UNKNOWN_PARAMETER | MISSING_PARAMETER | PARAMETER_TOO_LARGE | INVALID_OFFER | UNTRUSTED_OFFER_URI
  | SCAN_INVALID_REQUEST | UNTRUSTED_REQUEST_URI | INVALID_OFFLINE_ENVELOPE | REPLAY_TOKEN_REUSED

text \<open>\<open>CredentialScannerError\<close> with its code, and what a predicate or a boundary of the caller throws.\<close>

datatype scan_exn = Scan_error scan_code | Foreign_error

datatype credential_scan =
    Issuance_scan "string option" "string option" bool
  | Presentation_scan "string option" "string option" bool
  | Offline_scan string

text \<open>What the code reads of a \<open>URL\<close>; \<open>su_text\<close> is \<open>toString()\<close>, \<open>su_params\<close> the decoded search parameters in order.\<close>

record scan_url =
  su_protocol :: string
  su_username :: string
  su_password :: string
  su_host :: string
  su_hostname :: string
  su_pathname :: string
  su_search :: string
  su_hash :: string
  su_params :: "(string \<times> string) list"
  su_text :: string

text \<open>
  The UTF-8 encoder and the fatal decoder, the URL parser, \<open>JSON.parse\<close> of a string token
  and \<open>Number\<close> of a numeral (\<open>None\<close> when it is not finite).
\<close>

record scan_platform =
  sc_utf8 :: "string \<Rightarrow> string"
  sc_decode :: "string \<Rightarrow> string option"
  sc_url :: "string \<Rightarrow> scan_url option"
  sc_literal :: "string \<Rightarrow> string option"
  sc_number :: "string \<Rightarrow> jsval option"

record 's scan_options =
  so_allowOfferUri :: "(scan_url \<Rightarrow> scan_exn + bool) option"
  so_allowRequestUri :: "(scan_url \<Rightarrow> scan_exn + bool) option"
  so_replay :: "(string \<Rightarrow> int option \<Rightarrow> ('s, scan_exn, bool) meth) option"
  so_now :: "int option"

definition scan_bytes :: "scan_platform \<Rightarrow> string \<Rightarrow> nat" where
  "scan_bytes sc s = length (sc_utf8 sc s)"

text \<open>\<open>/^[A-Za-z0-9_-]+$/u\<close>, \<open>/^[a-z][a-z0-9+.-]*:$/u\<close>.\<close>

definition base64Url_pattern :: "string \<Rightarrow> bool" where
  "base64Url_pattern s \<longleftrightarrow> s \<noteq> '''' \<and> list_all base64url_char s"

definition safe_scheme :: "string \<Rightarrow> bool" where
  "safe_scheme s \<longleftrightarrow> (case s of [] \<Rightarrow> False | c # r \<Rightarrow> is_lower_alpha c \<and> r \<noteq> '''' \<and> last r = CHR '':''
     \<and> list_all (\<lambda>d. is_lower_alpha d \<or> is_digit d \<or> d \<in> set ''+.-'') (butlast r))"

definition bounded_token :: "scan_platform \<Rightarrow> string \<Rightarrow> bool" where
  "bounded_token sc t \<longleftrightarrow> 16 \<le> scan_bytes sc t \<and> scan_bytes sc t \<le> 12288 \<and> base64Url_pattern t \<and> length t mod 4 \<noteq> 1"

definition validateReplayToken :: "scan_platform \<Rightarrow> string \<Rightarrow> scan_exn + unit" where
  "validateReplayToken sc t = (if \<not> bounded_token sc t then Inl (Scan_error INVALID_OFFLINE_ENVELOPE) else Inr ())"

section \<open>The in-memory replay boundary\<close>

text \<open>One \<open>Map\<close> under two kinds of key: a consumed token, and a token with the prefix \<open>issued:\<close>.\<close>

type_synonym replay_map = "string \<Rightarrow> int option option"

definition issued_key :: "string \<Rightarrow> string" where
  "issued_key t = ''issued:'' @ t"

text \<open>The expiry is an optional number.\<close>

definition replay_issue :: "scan_platform \<Rightarrow> string \<Rightarrow> js_number option \<Rightarrow> (replay_map, scan_exn, unit) meth" where
  "replay_issue sc t expires m = (case validateReplayToken sc t of Inl e \<Rightarrow> (Inl e, m)
     | Inr _ \<Rightarrow> (case expires of
           None \<Rightarrow> (Inr (), (m(t := None))(issued_key t := Some None))
         | Some (Whole n) \<Rightarrow> if \<not> safe_integer n then (Inl (Scan_error INVALID_OFFLINE_ENVELOPE), m)
             else (Inr (), (m(t := None))(issued_key t := Some (Some n)))
         | Some Not_a_number \<Rightarrow> (Inl (Scan_error INVALID_OFFLINE_ENVELOPE), m)))"

definition replay_take :: "scan_platform \<Rightarrow> string \<Rightarrow> int \<Rightarrow> (replay_map, scan_exn, bool) meth" where
  "replay_take sc t now m = (case validateReplayToken sc t of Inl e \<Rightarrow> (Inl e, m)
     | Inr _ \<Rightarrow> (case m (issued_key t) of
           Some issued \<Rightarrow>
             (case issued of
                Some n \<Rightarrow> if n \<le> now then (Inr False, m(issued_key t := None)) else (Inr True, m(issued_key t := None, t := Some issued))
              | None \<Rightarrow> (Inr True, m(issued_key t := None, t := Some issued)))
         | None \<Rightarrow> (Inr False, m)))"

text \<open>\<open>consumeReplayToken\<close>, over any boundary.\<close>

definition consumeReplayToken ::
  "scan_platform \<Rightarrow> (string \<Rightarrow> int option \<Rightarrow> ('s, scan_exn, bool) meth) \<Rightarrow> string \<Rightarrow> int option \<Rightarrow> ('s, scan_exn, unit) meth" where
  "consumeReplayToken sc consume t now = bindS (pureS (validateReplayToken sc t)) (\<lambda>_. bindS (consume t now) (\<lambda>ok.
     if \<not> ok then throwS (Scan_error REPLAY_TOKEN_REUSED) else returnS ()))"

section \<open>Input and URIs\<close>

datatype scan_input = Scan_text string | Scan_bytes string

definition check_text :: "scan_platform \<Rightarrow> string \<Rightarrow> scan_exn + string" where
  "check_text sc v =
     (if v = '''' then Inl (Scan_error EMPTY_INPUT)
      else if 16384 < scan_bytes sc v then Inl (Scan_error INPUT_TOO_LARGE)
      else if trim v \<noteq> v then Inl (Scan_error MALFORMED_URI)
      else if list_ex is_control v then Inl (Scan_error CONTROL_CHARACTER)
      else Inr v)"

definition toInput :: "scan_platform \<Rightarrow> scan_input \<Rightarrow> scan_exn + string" where
  "toInput sc input = (case input of
       Scan_text v \<Rightarrow> check_text sc v
     | Scan_bytes b \<Rightarrow> if b = '''' then Inl (Scan_error EMPTY_INPUT)
         else if 16384 < length b then Inl (Scan_error INPUT_TOO_LARGE)
         else (case sc_decode sc b of None \<Rightarrow> Inl (Scan_error SCAN_INVALID_ENCODING) | Some v \<Rightarrow> check_text sc v))"

definition param_values :: "scan_url \<Rightarrow> string \<Rightarrow> string list" where
  "param_values u k = map snd (filter (\<lambda>p. fst p = k) (su_params u))"

definition uniqueParam :: "scan_platform \<Rightarrow> scan_url \<Rightarrow> string \<Rightarrow> scan_exn + string option" where
  "uniqueParam sc u k = (case param_values u k of
       [] \<Rightarrow> Inr None
     | v # vs \<Rightarrow> if vs \<noteq> [] then Inl (Scan_error DUPLICATE_PARAMETER)
         else if 8192 < scan_bytes sc v then Inl (Scan_error PARAMETER_TOO_LARGE) else Inr (Some v))"

definition rejectUnknownParams :: "scan_url \<Rightarrow> string list \<Rightarrow> scan_exn + unit" where
  "rejectUnknownParams u allowed = (if list_all (\<lambda>p. fst p \<in> set allowed) (su_params u) then Inr () else Inl (Scan_error UNKNOWN_PARAMETER))"

definition parseUri :: "scan_platform \<Rightarrow> string \<Rightarrow> scan_exn + scan_url" where
  "parseUri sc s = (case sc_url sc s of None \<Rightarrow> Inl (Scan_error MALFORMED_URI)
     | Some u \<Rightarrow> if \<not> safe_scheme (su_protocol u) then Inl (Scan_error MALFORMED_URI)
         else if su_username u \<noteq> '''' \<or> su_password u \<noteq> '''' then Inl (Scan_error UNSUPPORTED_HOST)
         else if su_hash u \<noteq> '''' then Inl (Scan_error MALFORMED_URI)
         else Inr u)"

definition requireEmptyAuthority :: "scan_url \<Rightarrow> scan_exn + unit" where
  "requireEmptyAuthority u = (if su_host u \<noteq> '''' \<or> (su_pathname u \<noteq> '''' \<and> su_pathname u \<noteq> ''/'') then Inl (Scan_error UNSUPPORTED_HOST) else Inr ())"

definition requireHttpsUrl ::
  "scan_platform \<Rightarrow> string \<Rightarrow> scan_code \<Rightarrow> (scan_url \<Rightarrow> scan_exn + bool) option \<Rightarrow> scan_exn + scan_url" where
  "requireHttpsUrl sc v code allow = (case sc_url sc v of None \<Rightarrow> Inl (Scan_error code)
     | Some u \<Rightarrow> if su_protocol u \<noteq> ''https:'' \<or> su_hostname u = '''' \<or> su_username u \<noteq> '''' \<or> su_password u \<noteq> '''' \<or> su_hash u \<noteq> ''''
         then Inl (Scan_error code)
         else (case allow of None \<Rightarrow> Inl (Scan_error code)
           | Some f \<Rightarrow> bindE (f u) (\<lambda>ok. if \<not> ok then Inl (Scan_error code) else Inr u)))"

definition validateRemoteRequest ::
  "scan_platform \<Rightarrow> scan_url \<Rightarrow> scan_code \<Rightarrow> (scan_url \<Rightarrow> scan_exn + bool) option \<Rightarrow> scan_exn + string" where
  "validateRemoteRequest sc u code allow = bindE (requireHttpsUrl sc (su_text u) code allow) (\<lambda>w. Inr (su_text w))"

section \<open>Offers and requests\<close>

text \<open>The rules of \<open>JsonCursor\<close>: any finite number, any string.\<close>

definition cursor_rules :: "scan_platform \<Rightarrow> reader_rules" where
  "cursor_rules sc = \<lparr>rr_depth = 10, rr_string = sc_literal sc, rr_number = sc_number sc\<rparr>"

definition validateCredentialOffer :: "scan_platform \<Rightarrow> string \<Rightarrow> scan_exn + unit" where
  "validateCredentialOffer sc v =
     (if scan_bytes sc v = 0 \<or> 12288 < scan_bytes sc v then Inl (Scan_error INVALID_OFFER) else
      case strict_parse (cursor_rules sc) v of
        Inr (JObj _) \<Rightarrow> Inr ()
      | _ \<Rightarrow> Inl (Scan_error INVALID_OFFER))"

definition validateCompactRequest :: "scan_platform \<Rightarrow> string \<Rightarrow> scan_exn + unit" where
  "validateCompactRequest sc v =
     (if scan_bytes sc v = 0 \<or> 12288 < scan_bytes sc v then Inl (Scan_error SCAN_INVALID_REQUEST) else
      let parts = split_on CHR ''.'' v in
      if length parts \<noteq> 3 \<or> list_ex (\<lambda>p. p = '''') parts then Inl (Scan_error SCAN_INVALID_REQUEST)
      else if list_ex (\<lambda>p. \<not> base64Url_pattern p) parts then Inl (Scan_error SCAN_INVALID_REQUEST)
      else Inr ())"

text \<open>A missing or an empty parameter.\<close>

definition no_text :: "string option \<Rightarrow> bool" where
  "no_text x \<longleftrightarrow> x = None \<or> x = Some ''''"

definition parseIssuance :: "scan_platform \<Rightarrow> scan_url \<Rightarrow> 's scan_options \<Rightarrow> scan_exn + credential_scan" where
  "parseIssuance sc u opts = bindE (requireEmptyAuthority u) (\<lambda>_.
     bindE (rejectUnknownParams u [''credential_offer'', ''credential_offer_uri'']) (\<lambda>_.
     bindE (uniqueParam sc u ''credential_offer'') (\<lambda>offer. bindE (uniqueParam sc u ''credential_offer_uri'') (\<lambda>uri.
     if no_text offer = no_text uri then Inl (Scan_error MISSING_PARAMETER)
     else if \<not> no_text offer then bindE (validateCredentialOffer sc (the offer)) (\<lambda>_. Inr (Issuance_scan offer None False))
     else bindE (parseUri sc (the uri)) (\<lambda>w. bindE (validateRemoteRequest sc w UNTRUSTED_OFFER_URI (so_allowOfferUri opts)) (\<lambda>t.
       Inr (Issuance_scan None (Some t) True)))))))"

definition parsePresentation :: "scan_platform \<Rightarrow> scan_url \<Rightarrow> 's scan_options \<Rightarrow> scan_exn + credential_scan" where
  "parsePresentation sc u opts = bindE (requireEmptyAuthority u) (\<lambda>_.
     bindE (rejectUnknownParams u [''request'', ''request_uri'']) (\<lambda>_.
     bindE (uniqueParam sc u ''request'') (\<lambda>request. bindE (uniqueParam sc u ''request_uri'') (\<lambda>uri.
     if no_text request = no_text uri then Inl (Scan_error MISSING_PARAMETER)
     else if \<not> no_text request then bindE (validateCompactRequest sc (the request)) (\<lambda>_. Inr (Presentation_scan request None False))
     else bindE (parseUri sc (the uri)) (\<lambda>w. bindE (validateRemoteRequest sc w UNTRUSTED_REQUEST_URI (so_allowRequestUri opts)) (\<lambda>t.
       Inr (Presentation_scan None (Some t) True)))))))"

definition offline_path :: "scan_platform \<Rightarrow> scan_url \<Rightarrow> scan_exn + string" where
  "offline_path sc u =
     (if su_search u \<noteq> '''' \<or> su_hash u \<noteq> '''' \<or> su_host u \<noteq> ''v1'' then Inl (Scan_error INVALID_OFFLINE_ENVELOPE) else
      case filter (\<lambda>p. p \<noteq> '''') (split_on CHR ''/'' (su_pathname u)) of
        [e] \<Rightarrow> if \<not> bounded_token sc e then Inl (Scan_error INVALID_OFFLINE_ENVELOPE) else Inr e
      | _ \<Rightarrow> Inl (Scan_error INVALID_OFFLINE_ENVELOPE))"

definition parseOffline :: "scan_platform \<Rightarrow> scan_url \<Rightarrow> 's scan_options \<Rightarrow> ('s, scan_exn, credential_scan) meth" where
  "parseOffline sc u opts = bindS (pureS (offline_path sc u)) (\<lambda>e. case so_replay opts of
       None \<Rightarrow> returnS (Offline_scan e)
     | Some consume \<Rightarrow> bindS (consume e (so_now opts)) (\<lambda>ok. if \<not> ok then throwS (Scan_error REPLAY_TOKEN_REUSED) else returnS (Offline_scan e)))"

section \<open>Parsing and classification\<close>

definition parseCredentialInput :: "scan_platform \<Rightarrow> 's scan_options \<Rightarrow> scan_input \<Rightarrow> ('s, scan_exn, credential_scan) meth" where
  "parseCredentialInput sc opts input = bindS (pureS (bindE (toInput sc input) (parseUri sc))) (\<lambda>u.
     if su_protocol u = ''openid-credential-offer:'' then pureS (parseIssuance sc u opts)
     else if su_protocol u = ''openid4vp:'' then pureS (parsePresentation sc u opts)
     else if su_protocol u = ''ssw-offline:'' then parseOffline sc u opts
     else throwS (Scan_error UNKNOWN_SCHEME))"

text \<open>Accepted with the scan, or refused with a code; the classifier never throws.\<close>

definition classifyCredentialInput ::
  "scan_platform \<Rightarrow> 's scan_options \<Rightarrow> scan_input \<Rightarrow> 's \<Rightarrow> (scan_code + credential_scan) \<times> 's" where
  "classifyCredentialInput sc opts input s = (case parseCredentialInput sc opts input s of
       (Inr x, t) \<Rightarrow> (Inr x, t)
     | (Inl (Scan_error c), t) \<Rightarrow> (Inl c, t)
     | (Inl Foreign_error, t) \<Rightarrow> (Inl MALFORMED_URI, t))"

datatype scan_kind = Issuance_kind | Presentation_kind | Offline_kind | Unknown_kind

definition classifyUriScheme :: "scan_platform \<Rightarrow> scan_input \<Rightarrow> scan_kind" where
  "classifyUriScheme sc input = (case bindE (toInput sc input) (parseUri sc) of
       Inl _ \<Rightarrow> Unknown_kind
     | Inr u \<Rightarrow> if su_protocol u = ''openid-credential-offer:'' then Issuance_kind
         else if su_protocol u = ''openid4vp:'' then Presentation_kind
         else if su_protocol u = ''ssw-offline:'' then Offline_kind else Unknown_kind)"

end
