(* ===== verification/OfflineScanner.thy ===== *)
theory OfflineScanner
  imports JsonReader CredentialVault
begin

text \<open>
  Signed offline envelopes (\<open>credential-scanner/src/offline/index.ts\<close>): fields,
  canonical text and base 64, creation and parsing of envelopes, freshness, verification with
  its ports, the trust and status cache and the in-memory replay boundary.
\<close>

section \<open>Codes, errors and the platform\<close>

datatype offline_code =
    VERIFIED | MALFORMED_ENVELOPE | PAYLOAD_TOO_LARGE | UNSUPPORTED_ENVELOPE_VERSION | DOWNGRADE_DETECTED
  | OFFLINE_SIGNATURE_INVALID | SIGNATURE_UNAVAILABLE | FRESHNESS_EXPIRED | FRESHNESS_NOT_YET_VALID
  | FRESHNESS_LIFETIME_EXCEEDED | REPLAY_DETECTED | TRUST_UNKNOWN | STATUS_UNKNOWN | TRUST_REJECTED | STATUS_REJECTED
  | CACHE_MISSING | CACHE_STALE | CACHE_INVALID | CACHE_ROLLBACK | CACHE_SIGNATURE_INVALID

text \<open>\<open>OfflineVerificationError\<close> with its code, and every other error.\<close>

datatype offline_exn = Offline_error offline_code | Plain_offline_error

text \<open>
  The UTF-8 encoder and the fatal decoder, \<open>JSON.parse\<close> of one string token, \<open>Number\<close> of one
  numeral, and the JSON text of a number that is no integer.
\<close>

record offline_platform =
  op_utf8 :: "string \<Rightarrow> string"
  op_decode :: "string \<Rightarrow> string option"
  op_literal :: "string \<Rightarrow> string option"
  op_number :: "string \<Rightarrow> js_number"
  op_fraction :: string

definition byte_length :: "offline_platform \<Rightarrow> string \<Rightarrow> nat" where
  "byte_length op s = length (op_utf8 op s)"

section \<open>Fields\<close>

definition has_control :: "string \<Rightarrow> bool" where
  "has_control s \<longleftrightarrow> list_ex is_control s"

definition offline_string :: "offline_platform \<Rightarrow> nat \<Rightarrow> (string \<Rightarrow> bool) \<Rightarrow> jsval \<Rightarrow> offline_exn + string" where
  "offline_string op m pattern v = (case v of
       JStr s \<Rightarrow> if s = '''' \<or> m < byte_length op s \<or> has_control s \<or> \<not> pattern s then Inl (Offline_error MALFORMED_ENVELOPE) else Inr s
     | _ \<Rightarrow> Inl (Offline_error MALFORMED_ENVELOPE))"

definition offline_integer :: "jsval \<Rightarrow> offline_exn + int" where
  "offline_integer v = (case v of
       JInt n \<Rightarrow> if \<not> safe_integer n \<or> n < 0 then Inl (Offline_error MALFORMED_ENVELOPE) else Inr n
     | _ \<Rightarrow> Inl (Offline_error MALFORMED_ENVELOPE))"

text \<open>\<open>/^[A-Za-z0-9][A-Za-z0-9._:/#?@%+~\-]{0,255}$/u\<close>, \<open>/^[A-Za-z0-9_-]+$/u\<close>, \<open>/^[A-Za-z0-9_-]{16,128}$/u\<close>.\<close>

definition offline_identifier :: "string \<Rightarrow> bool" where
  "offline_identifier s \<longleftrightarrow> (case s of [] \<Rightarrow> False
     | c # r \<Rightarrow> is_alnum c \<and> length r \<le> 255 \<and> list_all (\<lambda>d. is_alnum d \<or> d \<in> set ''._:/#?@%+~-'') r)"

definition base64_text :: "string \<Rightarrow> bool" where
  "base64_text s \<longleftrightarrow> s \<noteq> '''' \<and> list_all base64url_char s"

definition nonce_text :: "string \<Rightarrow> bool" where
  "nonce_text s \<longleftrightarrow> 16 \<le> length s \<and> length s \<le> 128 \<and> list_all base64url_char s"

definition offline_signature :: "offline_platform \<Rightarrow> jsval \<Rightarrow> offline_exn + string" where
  "offline_signature op v = offline_string op 4096 base64_text v"

definition offline_nonce :: "offline_platform \<Rightarrow> jsval \<Rightarrow> offline_exn + string" where
  "offline_nonce op v = offline_string op 128 nonce_text v"

text \<open>The rules of \<open>StrictJson\<close>.\<close>

definition offline_rules :: "offline_platform \<Rightarrow> reader_rules" where
  "offline_rules op = \<lparr>rr_depth = 12,
     rr_string = (\<lambda>tok. case op_literal op tok of None \<Rightarrow> None | Some t \<Rightarrow> if has_control t then None else Some t),
     rr_number = (\<lambda>tok. case op_number op tok of Whole n \<Rightarrow> if safe_integer n then Some (JInt n) else None | Not_a_number \<Rightarrow> None)\<rparr>"

section \<open>Canonical text and base 64\<close>

text \<open>\<open>canonical\<close> is the function \<open>canonicalValue\<close> of the trust registry with plain errors.\<close>

definition offline_canonical :: "jsval \<Rightarrow> offline_exn + string" where
  "offline_canonical v = (case canonicalValue v of Inl _ \<Rightarrow> Inl Plain_offline_error | Inr t \<Rightarrow> Inr t)"

definition base64Encode :: "offline_platform \<Rightarrow> string \<Rightarrow> string" where
  "base64Encode op v = filter (\<lambda>c. c \<noteq> CHR ''='') (map url_char (btoa (op_utf8 op v)))"

definition base64Decode :: "offline_platform \<Rightarrow> string \<Rightarrow> offline_exn + string" where
  "base64Decode op v = (if \<not> base64_text v \<or> length v mod 4 = 1 \<or> 12288 < byte_length op v then Inl (Offline_error PAYLOAD_TOO_LARGE) else
     case atob (map plain_char v @ replicate ((4 - length v mod 4) mod 4) (CHR ''='')) of
       Inl _ \<Rightarrow> Inl (Offline_error MALFORMED_ENVELOPE)
     | Inr b \<Rightarrow> (case op_decode op b of None \<Rightarrow> Inl (Offline_error MALFORMED_ENVELOPE) | Some t \<Rightarrow> Inr t))"

section \<open>Envelopes\<close>

record offline_unsigned =
  oe_envelopeId :: string
  oe_tenantId :: string
  oe_jurisdiction :: string
  oe_issuerId :: string
  oe_schemaId :: string
  oe_keyId :: string
  oe_statusId :: string
  oe_issuedAt :: int
  oe_expiresAt :: int
  oe_nonce :: string
  oe_credential :: string

record offline_envelope = offline_unsigned +
  oe_signature :: string

definition unsigned_entries :: "'a offline_unsigned_scheme \<Rightarrow> (string \<times> jsval) list" where
  "unsigned_entries e = [(''format'', JStr ''ssw-offline-envelope''), (''schemaVersion'', JInt 1), (''envelopeId'', JStr (oe_envelopeId e)),
     (''tenantId'', JStr (oe_tenantId e)), (''jurisdiction'', JStr (oe_jurisdiction e)), (''issuerId'', JStr (oe_issuerId e)),
     (''schemaId'', JStr (oe_schemaId e)), (''keyId'', JStr (oe_keyId e)), (''statusId'', JStr (oe_statusId e)),
     (''issuedAt'', JInt (oe_issuedAt e)), (''expiresAt'', JInt (oe_expiresAt e)), (''nonce'', JStr (oe_nonce e)),
     (''credential'', JStr (oe_credential e))]"

definition unsigned_fields :: "string list" where
  "unsigned_fields = [''format'', ''schemaVersion'', ''envelopeId'', ''tenantId'', ''jurisdiction'', ''issuerId'', ''schemaId'', ''keyId'',
     ''statusId'', ''issuedAt'', ''expiresAt'', ''nonce'', ''credential'']"

definition parse_fields :: "offline_platform \<Rightarrow> (string \<times> jsval) list \<Rightarrow> int \<Rightarrow> int \<Rightarrow> offline_exn + offline_unsigned" where
  "parse_fields op input issued expires =
     (let ident = (\<lambda>k. offline_string op 256 offline_identifier (jfield input k)) in
      bindE (ident ''envelopeId'') (\<lambda>e. bindE (ident ''tenantId'') (\<lambda>t. bindE (ident ''jurisdiction'') (\<lambda>j.
      bindE (ident ''issuerId'') (\<lambda>i. bindE (ident ''schemaId'') (\<lambda>s. bindE (ident ''keyId'') (\<lambda>k. bindE (ident ''statusId'') (\<lambda>a.
      bindE (offline_nonce op (jfield input ''nonce'')) (\<lambda>n.
      bindE (offline_string op 8192 (\<lambda>_. True) (jfield input ''credential'')) (\<lambda>c.
      Inr \<lparr>oe_envelopeId = e, oe_tenantId = t, oe_jurisdiction = j, oe_issuerId = i, oe_schemaId = s, oe_keyId = k, oe_statusId = a,
        oe_issuedAt = issued, oe_expiresAt = expires, oe_nonce = n, oe_credential = c\<rparr>))))))))))"

definition parseUnsignedEnvelope :: "offline_platform \<Rightarrow> jsval \<Rightarrow> offline_exn + offline_unsigned" where
  "parseUnsignedEnvelope op v = (case v of
       JObj input \<Rightarrow>
         if \<not> exact_keys input unsigned_fields [] then Inl (Offline_error MALFORMED_ENVELOPE)
         else if jfield input ''format'' \<noteq> JStr ''ssw-offline-envelope'' then Inl (Offline_error MALFORMED_ENVELOPE)
         else if jfield input ''schemaVersion'' \<noteq> JInt 1
         then Inl (Offline_error (case jfield input ''schemaVersion'' of
             JInt n \<Rightarrow> if n < 1 then DOWNGRADE_DETECTED else UNSUPPORTED_ENVELOPE_VERSION | _ \<Rightarrow> UNSUPPORTED_ENVELOPE_VERSION))
         else bindE (offline_integer (jfield input ''issuedAt'')) (\<lambda>i. bindE (offline_integer (jfield input ''expiresAt'')) (\<lambda>e.
           if e \<le> i then Inl (Offline_error MALFORMED_ENVELOPE) else parse_fields op input i e))
     | _ \<Rightarrow> Inl (Offline_error MALFORMED_ENVELOPE))"

definition offlineEnvelopeSigningPayload :: "offline_platform \<Rightarrow> 'a offline_unsigned_scheme \<Rightarrow> offline_exn + string" where
  "offlineEnvelopeSigningPayload op e = bindE (parseUnsignedEnvelope op (JObj (unsigned_entries e))) (\<lambda>u.
     bindE (offline_canonical (JObj (unsigned_entries u))) (\<lambda>t. Inr (''ssw-offline-envelope-v1'' @ [CHR 0x0A] @ t)))"

text \<open>The signer takes the key and the payload.\<close>

definition createOfflineEnvelope ::
  "offline_platform \<Rightarrow> offline_unsigned \<Rightarrow> (string \<Rightarrow> string \<Rightarrow> offline_exn + jsval) \<Rightarrow> offline_exn + string" where
  "createOfflineEnvelope op input signer =
     bindE (parseUnsignedEnvelope op (JObj (unsigned_entries input))) (\<lambda>u.
     bindE (offlineEnvelopeSigningPayload op u) (\<lambda>payload.
     bindE (signer (oe_keyId u) payload) (\<lambda>signed.
     bindE (offline_signature op signed) (\<lambda>sig.
     bindE (offline_canonical (JObj (unsigned_entries u @ [(''signature'', JStr sig)]))) (\<lambda>t.
     let encoded = base64Encode op t in
     if 12288 < byte_length op encoded then Inl (Offline_error PAYLOAD_TOO_LARGE) else Inr encoded)))))"

text \<open>A scanned text, scanned bytes, or an envelope already parsed.\<close>

datatype offline_input = Scanned string | Scanned_bytes string | Parsed_envelope jsval

definition parse_scanned :: "offline_platform \<Rightarrow> jsval \<Rightarrow> offline_exn + offline_envelope" where
  "parse_scanned op v = (case v of
       JObj input \<Rightarrow>
         if \<not> exact_keys input (unsigned_fields @ [''signature'']) [] then Inl (Offline_error MALFORMED_ENVELOPE)
         else bindE (parseUnsignedEnvelope op (JObj (omap_delete ''signature'' input))) (\<lambda>u.
           bindE (offline_signature op (jfield input ''signature'')) (\<lambda>sig.
           Inr (offline_unsigned.extend u \<lparr>oe_signature = sig\<rparr>)))
     | _ \<Rightarrow> Inl (Offline_error MALFORMED_ENVELOPE))"

definition parse_encoded :: "offline_platform \<Rightarrow> string \<Rightarrow> offline_exn + offline_envelope" where
  "parse_encoded op encoded =
     (if encoded = '''' \<or> 12288 < byte_length op encoded \<or> \<not> base64_text encoded \<or> length encoded mod 4 = 1
      then Inl (Offline_error PAYLOAD_TOO_LARGE) else
      bindE (base64Decode op encoded) (\<lambda>t. case strict_parse (offline_rules op) t of
          Inl _ \<Rightarrow> Inl (Offline_error MALFORMED_ENVELOPE)
        | Inr v \<Rightarrow> parse_scanned op v))"

definition parseOfflineEnvelope :: "offline_platform \<Rightarrow> offline_input \<Rightarrow> offline_exn + offline_envelope" where
  "parseOfflineEnvelope op input = (case input of
       Scanned s \<Rightarrow> parse_encoded op s
     | Scanned_bytes b \<Rightarrow> if b = '''' \<or> 12288 < length b then Inl (Offline_error PAYLOAD_TOO_LARGE)
         else (case op_decode op b of None \<Rightarrow> Inl (Offline_error MALFORMED_ENVELOPE) | Some s \<Rightarrow> parse_encoded op s)
     | Parsed_envelope v \<Rightarrow> bindE (offline_canonical v) (\<lambda>t. parse_encoded op (base64Encode op t)))"

section \<open>Freshness\<close>

datatype freshness = Fresh | Not_fresh offline_code

definition evaluateOfflineFreshness :: "int \<Rightarrow> int \<Rightarrow> int \<Rightarrow> int option \<Rightarrow> int option \<Rightarrow> offline_exn + freshness" where
  "evaluateOfflineFreshness issued expires now skew lifetime =
     (if \<not> safe_integer now \<or> now < 0 then Inl (Offline_error MALFORMED_ENVELOPE) else
      let k = (case skew of None \<Rightarrow> 0 | Some n \<Rightarrow> n); m = (case lifetime of None \<Rightarrow> 86400 | Some n \<Rightarrow> n) in
      if \<not> safe_integer k \<or> k < 0 \<or> \<not> safe_integer m \<or> m \<le> 0 then Inl (Offline_error MALFORMED_ENVELOPE)
      else if m < expires - issued then Inr (Not_fresh FRESHNESS_LIFETIME_EXCEEDED)
      else if now + k < issued then Inr (Not_fresh FRESHNESS_NOT_YET_VALID)
      else if expires \<le> now - k then Inr (Not_fresh FRESHNESS_EXPIRED)
      else Inr Fresh)"

section \<open>Verification\<close>

datatype offline_outcome = Verified_outcome | Rejected_outcome | Indeterminate_outcome

record offline_decision =
  od_decision :: offline_outcome
  od_code :: string
  od_snapshotId :: "string option"
  od_snapshotExpiresAt :: "int option"

record offline_result =
  or_outcome :: offline_outcome
  or_code :: offline_code
  or_envelope :: "(string \<times> string \<times> string) option"
  or_snapshotId :: "string option"
  or_snapshotExpiresAt :: "int option"

definition offline_result_of ::
  "offline_envelope \<Rightarrow> offline_outcome \<Rightarrow> offline_code \<Rightarrow> offline_decision option \<Rightarrow> offline_result" where
  "offline_result_of e outcome code d = \<lparr>or_outcome = outcome, or_code = code,
     or_envelope = Some (oe_envelopeId e, oe_issuerId e, oe_schemaId e),
     or_snapshotId = (case d of None \<Rightarrow> None | Some x \<Rightarrow> if od_snapshotId x = Some '''' then None else od_snapshotId x),
     or_snapshotExpiresAt = (case d of None \<Rightarrow> None | Some x \<Rightarrow> od_snapshotExpiresAt x)\<rparr>"

definition parse_failure :: "offline_exn \<Rightarrow> offline_result" where
  "parse_failure e = \<lparr>or_outcome = Rejected_outcome, or_code = (case e of Offline_error c \<Rightarrow> c | Plain_offline_error \<Rightarrow> MALFORMED_ENVELOPE),
     or_envelope = None, or_snapshotId = None, or_snapshotExpiresAt = None\<rparr>"

text \<open>\<open>String.prototype.includes\<close>.\<close>

fun text_contains :: "string \<Rightarrow> string \<Rightarrow> bool" where
  "text_contains p [] \<longleftrightarrow> p = []"
| "text_contains p (c # s) \<longleftrightarrow> has_prefix p (c # s) \<or> text_contains p s"

definition indeterminate_code :: "string \<Rightarrow> offline_code" where
  "indeterminate_code c = (if text_contains ''STALE'' c \<or> text_contains ''EXPIRED'' c then CACHE_STALE
     else if text_contains ''UNKNOWN'' c then (if text_contains ''STATUS'' c then STATUS_UNKNOWN else TRUST_UNKNOWN)
     else CACHE_INVALID)"

definition rejected_code :: "string \<Rightarrow> offline_code" where
  "rejected_code c = (if text_contains ''STATUS'' c \<or> text_contains ''CREDENTIAL'' c then STATUS_REJECTED else TRUST_REJECTED)"

text \<open>
  The ports: the verifier (issuer, key, payload, signature), the registry (the envelope's
  fields and the time), and the replay boundary, when there is one, with its own state.
\<close>

record 's offline_ports =
  ok_verify :: "string \<Rightarrow> string \<Rightarrow> string \<Rightarrow> string \<Rightarrow> offline_exn + bool"
  ok_registry :: "offline_unsigned \<Rightarrow> int \<Rightarrow> offline_exn + offline_decision"
  ok_replay :: "(string \<Rightarrow> 's \<Rightarrow> bool \<times> 's) option"

definition replay_token :: "offline_envelope \<Rightarrow> string" where
  "replay_token e = oe_envelopeId e @ '':'' @ oe_nonce e"

definition settle_decision :: "'s offline_ports \<Rightarrow> offline_envelope \<Rightarrow> offline_decision \<Rightarrow> 's \<Rightarrow> offline_result \<times> 's" where
  "settle_decision ports e d s = (case od_decision d of
       Indeterminate_outcome \<Rightarrow> (offline_result_of e Indeterminate_outcome (indeterminate_code (od_code d)) (Some d), s)
     | Rejected_outcome \<Rightarrow> (offline_result_of e Rejected_outcome (rejected_code (od_code d)) (Some d), s)
     | Verified_outcome \<Rightarrow> (case ok_replay ports of
           None \<Rightarrow> (offline_result_of e Verified_outcome VERIFIED (Some d), s)
         | Some consume \<Rightarrow> (case consume (replay_token e) s of
               (False, t) \<Rightarrow> (offline_result_of e Rejected_outcome REPLAY_DETECTED (Some d), t)
             | (True, t) \<Rightarrow> (offline_result_of e Verified_outcome VERIFIED (Some d), t))))"

definition signature_verdict :: "offline_platform \<Rightarrow> 's offline_ports \<Rightarrow> offline_envelope \<Rightarrow> offline_unsigned \<Rightarrow> offline_exn + bool" where
  "signature_verdict op ports e u = bindE (offlineEnvelopeSigningPayload op u) (\<lambda>p.
     ok_verify ports (oe_issuerId e) (oe_keyId e) p (oe_signature e))"

definition verifyOfflineEnvelope ::
  "offline_platform \<Rightarrow> 's offline_ports \<Rightarrow> offline_input \<Rightarrow> int \<Rightarrow> int option \<Rightarrow> int option \<Rightarrow> ('s, offline_exn, offline_result) meth" where
  "verifyOfflineEnvelope op ports input now skew lifetime s =
     (case parseOfflineEnvelope op input of
        Inl x \<Rightarrow> (Inr (parse_failure x), s)
      | Inr e \<Rightarrow> (case parseUnsignedEnvelope op (JObj (unsigned_entries e)) of
          Inl x \<Rightarrow> (Inl x, s)
        | Inr u \<Rightarrow> (case signature_verdict op ports e u of
            Inl _ \<Rightarrow> (Inr (offline_result_of e Rejected_outcome SIGNATURE_UNAVAILABLE None), s)
          | Inr False \<Rightarrow> (Inr (offline_result_of e Rejected_outcome OFFLINE_SIGNATURE_INVALID None), s)
          | Inr True \<Rightarrow> (case evaluateOfflineFreshness (oe_issuedAt e) (oe_expiresAt e) now skew lifetime of
              Inl x \<Rightarrow> (Inl x, s)
            | Inr (Not_fresh c) \<Rightarrow> (Inr (offline_result_of e Indeterminate_outcome c None), s)
            | Inr Fresh \<Rightarrow> (case ok_registry ports u now of
                Inl _ \<Rightarrow> (Inr (offline_result_of e Indeterminate_outcome CACHE_INVALID None), s)
              | Inr d \<Rightarrow> (case settle_decision ports e d s of (r, t) \<Rightarrow> (Inr r, t)))))))"

section \<open>The trust and status cache\<close>

record offline_schema =
  os_schemaId :: string
  os_status :: string

record offline_key =
  ky_keyId :: string
  ky_status :: string
  ky_authorizedFrom :: int
  ky_authorizedUntil :: "int option"

record offline_issuer =
  oi_issuerId :: string
  oi_status :: string
  oi_schemas :: "offline_schema list"
  oi_keys :: "offline_key list"

record offline_status =
  st_issuerId :: string
  st_statusId :: string
  st_status :: string

record offline_snapshot =
  sp_schemaVersion :: int
  sp_snapshotId :: string
  sp_tenantId :: string
  sp_jurisdiction :: string
  sp_sequence :: int
  sp_issuedAt :: int
  sp_expiresAt :: int
  sp_signingKeyId :: string
  sp_issuers :: "offline_issuer list"
  sp_statuses :: "offline_status list"
  sp_signature :: string

definition offline_schema_js :: "offline_schema \<Rightarrow> jsval" where
  "offline_schema_js x = JObj [(''schemaId'', JStr (os_schemaId x)), (''status'', JStr (os_status x))]"

definition offline_key_js :: "offline_key \<Rightarrow> jsval" where
  "offline_key_js x = JObj ([(''keyId'', JStr (ky_keyId x)), (''status'', JStr (ky_status x)), (''authorizedFrom'', JInt (ky_authorizedFrom x))]
     @ (case ky_authorizedUntil x of None \<Rightarrow> [] | Some n \<Rightarrow> [(''authorizedUntil'', JInt n)]))"

definition offline_issuer_js :: "offline_issuer \<Rightarrow> jsval" where
  "offline_issuer_js x = JObj [(''issuerId'', JStr (oi_issuerId x)), (''status'', JStr (oi_status x)),
     (''schemas'', JArr (map offline_schema_js (oi_schemas x))), (''keys'', JArr (map offline_key_js (oi_keys x)))]"

definition offline_status_js :: "offline_status \<Rightarrow> jsval" where
  "offline_status_js x = JObj [(''issuerId'', JStr (st_issuerId x)), (''statusId'', JStr (st_statusId x)), (''status'', JStr (st_status x))]"

definition snapshotUnsigned :: "offline_snapshot \<Rightarrow> (string \<times> jsval) list" where
  "snapshotUnsigned x = [(''schemaVersion'', JInt (sp_schemaVersion x)), (''snapshotId'', JStr (sp_snapshotId x)),
     (''tenantId'', JStr (sp_tenantId x)), (''jurisdiction'', JStr (sp_jurisdiction x)), (''sequence'', JInt (sp_sequence x)),
     (''issuedAt'', JInt (sp_issuedAt x)), (''expiresAt'', JInt (sp_expiresAt x)), (''signingKeyId'', JStr (sp_signingKeyId x)),
     (''issuers'', JArr (map offline_issuer_js (sp_issuers x))), (''statuses'', JArr (map offline_status_js (sp_statuses x)))]"

definition snapshotPayload :: "offline_snapshot \<Rightarrow> offline_exn + string" where
  "snapshotPayload x = bindE (offline_canonical (JObj (snapshotUnsigned x))) (\<lambda>t. Inr (''ssw-offline-trust-snapshot-v1'' @ [CHR 0x0A] @ t))"

text \<open>The code returns the caller's object itself; the model has values, so nobody changes it afterwards.\<close>

definition parseOfflineSnapshot :: "offline_platform \<Rightarrow> offline_snapshot \<Rightarrow> offline_exn + offline_snapshot" where
  "parseOfflineSnapshot op x =
     (if 256000 < byte_length op (case json_text (op_fraction op) (JObj (snapshotUnsigned x @ [(''signature'', JStr (sp_signature x))])) of
          None \<Rightarrow> '''' | Some t \<Rightarrow> t)
      then Inl (Offline_error PAYLOAD_TOO_LARGE)
      else if sp_schemaVersion x \<noteq> 1 \<or> sp_snapshotId x = '''' \<or> sp_tenantId x = '''' \<or> sp_jurisdiction x = '''' \<or> sp_signingKeyId x = ''''
        \<or> sp_signature x = '''' then Inl (Offline_error CACHE_INVALID)
      else if \<not> safe_integer (sp_sequence x) \<or> sp_sequence x < 1 \<or> \<not> safe_integer (sp_issuedAt x) \<or> \<not> safe_integer (sp_expiresAt x)
        \<or> sp_expiresAt x \<le> sp_issuedAt x then Inl (Offline_error CACHE_INVALID)
      else Inr x)"

type_synonym snapshot_check = "string \<Rightarrow> string \<Rightarrow> string \<Rightarrow> offline_exn + bool"

definition cache_prime ::
  "offline_platform \<Rightarrow> snapshot_check \<Rightarrow> offline_snapshot \<Rightarrow> int \<Rightarrow> (offline_snapshot option, offline_exn, unit) meth" where
  "cache_prime op verifier value now s = (case parseOfflineSnapshot op value of
       Inl e \<Rightarrow> (Inl e, s)
     | Inr x \<Rightarrow> (case bindE (snapshotPayload x) (\<lambda>p. verifier (sp_signingKeyId x) p (sp_signature x)) of
           Inl _ \<Rightarrow> (Inl (Offline_error CACHE_SIGNATURE_INVALID), s)
         | Inr valid \<Rightarrow>
             if \<not> valid then (Inl (Offline_error CACHE_SIGNATURE_INVALID), s)
             else if now < sp_issuedAt x \<or> sp_expiresAt x \<le> now then (Inl (Offline_error CACHE_STALE), s)
             else if (case s of None \<Rightarrow> False | Some old \<Rightarrow> sp_sequence x < sp_sequence old
                 \<or> (sp_sequence x = sp_sequence old \<and> (sp_snapshotId x \<noteq> sp_snapshotId old \<or> sp_signature x \<noteq> sp_signature old)))
             then (Inl (Offline_error CACHE_ROLLBACK), s)
             else (Inr (), Some x)))"

text \<open>\<open>toUpperCase\<close> of the status words.\<close>

definition upper_word :: "string \<Rightarrow> string" where
  "upper_word s = map (\<lambda>c. if is_lower_alpha c then char_of ((of_char c :: nat) - 32) else c) s"

definition cache_decision :: "offline_outcome \<Rightarrow> string \<Rightarrow> offline_snapshot \<Rightarrow> offline_decision" where
  "cache_decision outcome code x = \<lparr>od_decision = outcome, od_code = code, od_snapshotId = Some (sp_snapshotId x),
     od_snapshotExpiresAt = Some (sp_expiresAt x)\<rparr>"

definition bare_decision :: "string \<Rightarrow> offline_decision" where
  "bare_decision code = \<lparr>od_decision = Indeterminate_outcome, od_code = code, od_snapshotId = None, od_snapshotExpiresAt = None\<rparr>"

definition evaluate_status :: "offline_snapshot \<Rightarrow> offline_unsigned \<Rightarrow> offline_decision" where
  "evaluate_status x u = (case find (\<lambda>e. st_issuerId e = oe_issuerId u \<and> st_statusId e = oe_statusId u) (sp_statuses x) of
       None \<Rightarrow> cache_decision Indeterminate_outcome ''STATUS_UNKNOWN'' x
     | Some status \<Rightarrow> if st_status status \<noteq> ''valid''
         then cache_decision Rejected_outcome (''CREDENTIAL_'' @ upper_word (st_status status)) x
         else cache_decision Verified_outcome ''CREDENTIAL_VERIFIED'' x)"

definition evaluate_issuer :: "offline_snapshot \<Rightarrow> offline_unsigned \<Rightarrow> offline_issuer \<Rightarrow> offline_decision" where
  "evaluate_issuer x u issuer =
     (if oi_status issuer \<noteq> ''active'' then cache_decision Rejected_outcome (''ISSUER_'' @ upper_word (oi_status issuer)) x else
      case find (\<lambda>e. os_schemaId e = oe_schemaId u) (oi_schemas issuer) of
        None \<Rightarrow> cache_decision Indeterminate_outcome ''SCHEMA_UNKNOWN'' x
      | Some schema \<Rightarrow>
          if os_status schema \<noteq> ''active'' then cache_decision Rejected_outcome (''SCHEMA_'' @ upper_word (os_status schema)) x else
          (case find (\<lambda>e. ky_keyId e = oe_keyId u) (oi_keys issuer) of
             None \<Rightarrow> cache_decision Indeterminate_outcome ''KEY_UNKNOWN'' x
           | Some key \<Rightarrow>
               if ky_status key = ''revoked'' then cache_decision Rejected_outcome ''KEY_REVOKED'' x
               else if oe_issuedAt u < ky_authorizedFrom key
                 \<or> (case ky_authorizedUntil key of None \<Rightarrow> False | Some n \<Rightarrow> n \<le> oe_issuedAt u)
               then cache_decision Rejected_outcome ''KEY_NOT_AUTHORIZED_AT_ISSUANCE'' x
               else evaluate_status x u))"

definition cache_evaluate :: "offline_snapshot option \<Rightarrow> offline_unsigned \<Rightarrow> int \<Rightarrow> offline_decision" where
  "cache_evaluate s u now = (case s of
       None \<Rightarrow> bare_decision ''SNAPSHOT_MISSING''
     | Some x \<Rightarrow>
         if now < sp_issuedAt x \<or> sp_expiresAt x \<le> now then cache_decision Indeterminate_outcome ''SNAPSHOT_STALE'' x
         else if sp_tenantId x \<noteq> oe_tenantId u \<or> sp_jurisdiction x \<noteq> oe_jurisdiction u then bare_decision ''SNAPSHOT_INVALID''
         else (case find (\<lambda>e. oi_issuerId e = oe_issuerId u) (sp_issuers x) of
             None \<Rightarrow> cache_decision Indeterminate_outcome ''ISSUER_UNKNOWN'' x
           | Some issuer \<Rightarrow> evaluate_issuer x u issuer))"

section \<open>The replay boundary\<close>

definition replay_consume :: "string \<Rightarrow> string set \<Rightarrow> bool \<times> string set" where
  "replay_consume token consumed = (if token = '''' \<or> token \<in> consumed then (False, consumed) else (True, insert token consumed))"

end
