(* ===== verification/CredentialScannerProps.thy ===== *)
theory CredentialScannerProps
  imports CredentialScanner OfflineScanner
begin

text \<open>
  What an accepted scan guarantees, the bound on accepted tokens, and that a scanned envelope
  fits the offline parser.
\<close>

section \<open>What an accepted scan is\<close>





lemma bindE_pair: "bindE m k = Inr y \<Longrightarrow> \<exists>x. m = Inr x \<and> k x = Inr y"
  by (simp add: bindE_Inr)








lemma offline_path_Inr: "offline_path sc u = Inr e \<Longrightarrow> su_host u = ''v1'' \<and> bounded_token sc e"
  by (auto simp: offline_path_def split: if_splits list.splits)



section \<open>One acceptance per issue\<close>

datatype replay_call = Issue_call string "js_number option" | Take_call string int

text \<open>The tokens accepted and the tokens issued so far, newest first.\<close>

record replay_log =
  rl_map :: replay_map
  rl_accepted :: "string list"
  rl_issued :: "string list"

definition replay_step :: "scan_platform \<Rightarrow> replay_call \<Rightarrow> replay_log \<Rightarrow> replay_log" where
  "replay_step sc c l = (case c of
       Issue_call t e \<Rightarrow> (case replay_issue sc t e (rl_map l) of
           (Inl _, m) \<Rightarrow> l\<lparr>rl_map := m\<rparr> | (Inr _, m) \<Rightarrow> l\<lparr>rl_map := m, rl_issued := t # rl_issued l\<rparr>)
     | Take_call t now \<Rightarrow> (case replay_take sc t now (rl_map l) of
           (Inr True, m) \<Rightarrow> l\<lparr>rl_map := m, rl_accepted := t # rl_accepted l\<rparr> | (_, m) \<Rightarrow> l\<lparr>rl_map := m\<rparr>))"

definition replay_start :: replay_log where
  "replay_start = \<lparr>rl_map = Map.empty, rl_accepted = [], rl_issued = []\<rparr>"

definition replay_balanced :: "replay_log \<Rightarrow> bool" where
  "replay_balanced l \<longleftrightarrow> (\<forall>t\<in>set (rl_accepted l). base64Url_pattern t) \<and> (\<forall>t. base64Url_pattern t \<longrightarrow>
     count_list (rl_accepted l) t + (if rl_map l (issued_key t) = None then 0 else 1) \<le> count_list (rl_issued l) t)"

lemma issued_key_colon: "base64Url_pattern t \<Longrightarrow> t \<noteq> issued_key t'"
proof -
  have "\<not> base64url_char (CHR '':'')" by code_simp
  moreover have "CHR '':'' \<in> set (issued_key t')" by (simp add: issued_key_def)
  ultimately show "base64Url_pattern t \<Longrightarrow> t \<noteq> issued_key t'" by (auto simp: base64Url_pattern_def list_all_iff)
qed

lemma issued_key_eq [simp]: "issued_key a = issued_key b \<longleftrightarrow> a = b"
  by (simp add: issued_key_def)

lemma replay_issue_cases:
  obtains e where "replay_issue sc t x m = (Inl e, m)"
  | y where "replay_issue sc t x m = (Inr (), (m(t := None))(issued_key t := Some y))" "base64Url_pattern t"
proof (cases "bounded_token sc t")
  case False
  then show ?thesis by (intro that(1)) (simp add: replay_issue_def validateReplayToken_def)
next
  case True
  then have v: "validateReplayToken sc t = Inr ()" "base64Url_pattern t" by (simp_all add: validateReplayToken_def bounded_token_def)
  consider "x = None" | n where "x = Some (Whole n)" "safe_integer n" | n where "x = Some (Whole n)" "\<not> safe_integer n" | "x = Some Not_a_number"
    by (metis js_number.exhaust option.exhaust)
  then show ?thesis
  proof cases
    case 1
    with v show ?thesis by (intro that(2) [of None]) (simp_all add: replay_issue_def)
  next
    case (2 n)
    with v show ?thesis by (intro that(2) [of "Some n"]) (simp_all add: replay_issue_def)
  next
    case (3 n)
    with v show ?thesis by (intro that(1)) (simp add: replay_issue_def)
  next
    case 4
    with v show ?thesis by (intro that(1)) (simp add: replay_issue_def)
  qed
qed

lemma replay_take_cases:
  obtains (refused) r where "replay_take sc t now m = (r, m)" "r \<noteq> Inr True"
  | (expired) n where "replay_take sc t now m = (Inr False, m(issued_key t := None))" "m (issued_key t) = Some (Some n)" "n \<le> now"
  | (taken) y where "replay_take sc t now m = (Inr True, m(issued_key t := None, t := Some y))" "m (issued_key t) = Some y" "base64Url_pattern t"
      "\<forall>n. y = Some n \<longrightarrow> now < n"
proof (cases "bounded_token sc t")
  case False
  then show ?thesis by (intro refused [of "Inl (Scan_error INVALID_OFFLINE_ENVELOPE)"]) (simp_all add: replay_take_def validateReplayToken_def)
next
  case True
  then have v: "validateReplayToken sc t = Inr ()" "base64Url_pattern t" by (simp_all add: validateReplayToken_def bounded_token_def)
  show ?thesis
  proof (cases "m (issued_key t)")
    case None
    with v show ?thesis by (intro refused [of "Inr False"]) (simp_all add: replay_take_def)
  next
    case (Some y)
    show ?thesis
    proof (cases "\<exists>n. y = Some n \<and> n \<le> now")
      case True
      then obtain n where "y = Some n" "n \<le> now" by blast
      with v Some show ?thesis by (intro expired [of n]) (simp_all add: replay_take_def)
    next
      case False
      with v Some show ?thesis by (intro taken [of y]) (auto simp: replay_take_def split: option.splits)
    qed
  qed
qed

lemma balanced_step: "replay_balanced l \<Longrightarrow> replay_balanced (replay_step sc c l)"
proof (cases c)
  case (Issue_call t x)
  assume b: "replay_balanced l"
  show ?thesis
  proof (cases rule: replay_issue_cases [of sc t x "rl_map l"])
    case (1 e)
    with b Issue_call show ?thesis by (simp add: replay_step_def)
  next
    case (2 y)
    with b Issue_call show ?thesis
      by (auto simp: replay_step_def replay_balanced_def dest: issued_key_colon)
  qed
next
  case (Take_call t now)
  assume b: "replay_balanced l"
  show ?thesis
  proof (cases rule: replay_take_cases [of sc t now "rl_map l"])
    case (refused r)
    then have "replay_step sc c l = l" using Take_call by (auto simp: replay_step_def split: sum.splits bool.splits)
    with b show ?thesis by simp
  next
    case (expired n)
    have "replay_step sc c l = l\<lparr>rl_map := (rl_map l)(issued_key t := None)\<rparr>" using expired(1) Take_call by (simp add: replay_step_def)
    with b show ?thesis by (fastforce simp: replay_balanced_def)
  next
    case (taken y)
    let ?l = "l\<lparr>rl_map := (rl_map l)(issued_key t := None, t := Some y), rl_accepted := t # rl_accepted l\<rparr>"
    have l: "replay_step sc c l = ?l" using taken(1) Take_call by (simp add: replay_step_def)
    have "count_list (rl_accepted ?l) u + (if rl_map ?l (issued_key u) = None then 0 else 1) \<le> count_list (rl_issued ?l) u"
      if u: "base64Url_pattern u" for u
    proof -
      have "count_list (rl_accepted l) u + (if rl_map l (issued_key u) = None then 0 else 1) \<le> count_list (rl_issued l) u"
        using b u by (simp add: replay_balanced_def)
      then show ?thesis using taken(2) issued_key_colon [OF taken(3), of u] by (cases "u = t") auto
    qed
    with b taken(3) show ?thesis by (simp add: l replay_balanced_def)
  qed
qed

lemma balanced_run: "replay_balanced l \<Longrightarrow> replay_balanced (fold (replay_step sc) calls l)"
  by (induction calls arbitrary: l) (simp_all add: balanced_step)

text \<open>
  Over any sequence of issues and consumptions at the in-memory boundary, a token is
  accepted at most as often as it was issued.
\<close>

theorem accepted_at_most_once_per_issue:
  "count_list (rl_accepted (fold (replay_step sc) calls replay_start)) t \<le> count_list (rl_issued (fold (replay_step sc) calls replay_start)) t"
proof -
  let ?l = "fold (replay_step sc) calls replay_start"
  have b: "replay_balanced ?l" by (rule balanced_run) (simp add: replay_balanced_def replay_start_def)
  show ?thesis
  proof (cases "base64Url_pattern t")
    case True
    with b have "count_list (rl_accepted ?l) t + (if rl_map ?l (issued_key t) = None then 0 else 1) \<le> count_list (rl_issued ?l) t"
      unfolding replay_balanced_def by blast
    then show ?thesis by (meson add_leE)
  next
    case False
    with b have "t \<notin> set (rl_accepted ?l)" unfolding replay_balanced_def by blast
    then show ?thesis by (simp add: count_list_0_iff)
  qed
qed

section \<open>Concrete scans\<close>

definition ex_scan_text :: string where
  "ex_scan_text = ''openid-credential-offer://?credential_offer=%7B%7D''"

definition ex_scan_platform :: scan_platform where
  "ex_scan_platform = \<lparr>sc_utf8 = (\<lambda>s. s), sc_decode = Some,
     sc_url = (\<lambda>s. if s = ex_scan_text then Some \<lparr>su_protocol = ''openid-credential-offer:'', su_username = '''', su_password = '''', su_host = '''',
       su_hostname = '''', su_pathname = '''', su_search = ''?credential_offer=%7B%7D'', su_hash = '''',
       su_params = [(''credential_offer'', ''{}'')], su_text = ex_scan_text\<rparr> else None),
     sc_literal = (\<lambda>tok. Some (butlast (tl tok))), sc_number = (\<lambda>tok. Some (JInt (int (read_nat tok))))\<rparr>"


lemma ex_number_rule: "number_rule (cursor_rules ex_scan_platform)"
  by (auto simp: number_rule_def cursor_rules_def ex_scan_platform_def)

lemma ex_empty_object: "strict_parse (cursor_rules ex_scan_platform) ''{}'' = Inr (JObj [])"
  by (simp add: strict_parse_def skip_space_def is_space_def cursor_rules_def eval_nat_numeral)



theorem strict_value_unambiguous_witness: "safe_json (JObj [])"
  using strict_value_unambiguous [OF ex_number_rule ex_empty_object] .


section \<open>From the camera to the offline verifier\<close>

text \<open>A scanned envelope passes every size and alphabet check of the offline parser.\<close>

lemma parsed_fields_never_too_large: "parseUnsignedEnvelope op v = Inl x \<Longrightarrow> x \<noteq> Offline_error PAYLOAD_TOO_LARGE"
proof -
  have f: "offline_string op m P w \<noteq> Inl (Offline_error PAYLOAD_TOO_LARGE)" "offline_integer w \<noteq> Inl (Offline_error PAYLOAD_TOO_LARGE)"
    "offline_nonce op w \<noteq> Inl (Offline_error PAYLOAD_TOO_LARGE)" for m P w
    by (auto simp: offline_string_def offline_integer_def offline_nonce_def split: jsval.splits if_splits)
  show "parseUnsignedEnvelope op v = Inl x \<Longrightarrow> x \<noteq> Offline_error PAYLOAD_TOO_LARGE"
    by (cases v) (auto simp: parseUnsignedEnvelope_def parse_fields_def Let_def bindE_Inl f split: if_splits jsval.splits)
qed

lemma scanned_never_too_large: "parse_scanned op v = Inl x \<Longrightarrow> x \<noteq> Offline_error PAYLOAD_TOO_LARGE"
  by (cases v) (auto simp: parse_scanned_def bindE_Inl offline_signature_def offline_string_def
    dest: parsed_fields_never_too_large split: if_splits jsval.splits)

lemma scanned_envelope_fits:
  assumes "offline_path sc u = Inr e" "sc_utf8 sc = op_utf8 op"
  shows "parseOfflineEnvelope op (Scanned e) \<noteq> Inl (Offline_error PAYLOAD_TOO_LARGE)"
proof -
  have e: "byte_length op e \<le> 12288" "base64_text e" "length e mod 4 \<noteq> 1" "e \<noteq> ''''"
    using offline_path_Inr [OF assms(1)] assms(2)
    by (auto simp: bounded_token_def scan_bytes_def byte_length_def base64_text_def base64Url_pattern_def)
  have d: "base64Decode op e \<noteq> Inl (Offline_error PAYLOAD_TOO_LARGE)"
    using e by (auto simp: base64Decode_def split: sum.splits option.splits)
  show ?thesis
  proof (cases "base64Decode op e")
    case (Inl x)
    with e d show ?thesis by (simp add: parseOfflineEnvelope_def parse_encoded_def)
  next
    case (Inr t)
    with e have "parseOfflineEnvelope op (Scanned e) = (case strict_parse (offline_rules op) t of Inl _ \<Rightarrow> Inl (Offline_error MALFORMED_ENVELOPE)
      | Inr v \<Rightarrow> parse_scanned op v)" by (simp add: parseOfflineEnvelope_def parse_encoded_def)
    then show ?thesis using scanned_never_too_large by (auto split: sum.splits)
  qed
qed

end
