(* ===== verification/OfflineScannerProps.thy ===== *)
theory OfflineScannerProps
  imports OfflineScanner TrustRegistryText CredentialDomainProps Interfaces
begin

text \<open>
  What offline verification promises: a created envelope is read back unchanged and verifies
  once while it is fresh and its issuer is trusted, a verified result rests on the signature,
  the freshness and the cached snapshot, no envelope is accepted twice, and the cache never
  goes back.
\<close>

section \<open>What the reader makes of canonical text\<close>

definition offline_ok :: "offline_platform \<Rightarrow> bool" where
  "offline_ok op \<longleftrightarrow> (\<forall>s. op_decode op (op_utf8 op s) = Some s) \<and> (\<forall>s. length s \<le> length (op_utf8 op s)) \<and> (\<forall>s. op_literal op (json_string s) = Some s)
     \<and> (\<forall>n. safe_integer n \<longrightarrow> op_number op (show_int n) = Whole n)"

lemma offline_rules_simps [simp]:
  "rr_depth (offline_rules op) = 12"
  "rr_string (offline_rules op) tok = (case op_literal op tok of None \<Rightarrow> None | Some t \<Rightarrow> if has_control t then None else Some t)"
  "rr_number (offline_rules op) tok = (case op_number op tok of Whole n \<Rightarrow> if safe_integer n then Some (JInt n) else None | Not_a_number \<Rightarrow> None)"
  by (simp_all add: offline_rules_def)

lemma json_char_plain: "\<not> is_control c \<Longrightarrow> json_char c = (if c = CHR 0x22 then [CHR 0x5C, CHR 0x22] else if c = CHR 0x5C then [CHR 0x5C, CHR 0x5C] else [c])"
proof -
  assume c: "\<not> is_control c"
  have q: "c = CHR 0x22 \<longleftrightarrow> (of_char c :: nat) = 34" "c = CHR 0x5C \<longleftrightarrow> (of_char c :: nat) = 92"
  proof -
    have "(of_char c :: nat) = of_char (CHR 0x22) \<longleftrightarrow> c = CHR 0x22" "(of_char c :: nat) = of_char (CHR 0x5C) \<longleftrightarrow> c = CHR 0x5C"
      by (rule of_char_eq_iff)+
    then show "c = CHR 0x22 \<longleftrightarrow> (of_char c :: nat) = 34" "c = CHR 0x5C \<longleftrightarrow> (of_char c :: nat) = 92" by simp_all
  qed
  from c have n: "31 < (of_char c :: nat)" by (simp add: is_control_def)
  with q show ?thesis by (auto simp: json_char_def Let_def)
qed

lemma not_below_space: "\<not> is_control c \<Longrightarrow> \<not> c < CHR '' ''"
  by (simp add: is_control_def less_char_def)

lemma string_token_body: "list_all (\<lambda>c. \<not> is_control c) s
    \<Longrightarrow> string_token False (concat (map json_char s) @ CHR 0x22 # r) = Some (concat (map json_char s) @ [CHR 0x22], r)"
proof (induction s)
  case (Cons c s)
  then show ?case using not_below_space [of c] by (simp add: json_char_plain)
qed simp

lemma read_json_string:
  assumes "offline_ok op" "\<not> has_control s"
  shows "read_string (offline_rules op) (concat (map json_char s) @ CHR 0x22 # r) = Inr (s, r)"
proof -
  have "list_all (\<lambda>c. \<not> is_control c) s" using assms(2) by (auto simp: has_control_def list_ex_iff list_all_iff)
  from string_token_body [OF this] have "string_token False (concat (map json_char s) @ CHR 0x22 # r) = Some (concat (map json_char s) @ [CHR 0x22], r)" .
  moreover have "op_literal op (CHR 0x22 # concat (map json_char s) @ [CHR 0x22]) = Some s"
    using assms(1) by (simp add: offline_ok_def json_string_def)
  ultimately show ?thesis using assms(2) by (simp add: read_string_def)
qed

lemma show_nat_zero: "show_nat 0 = ''0''"
  by (subst show_nat.simps) (simp add: digit_char_def)

lemma digit_char_zero: "d < 10 \<Longrightarrow> digit_char d = CHR ''0'' \<longleftrightarrow> d = 0"
  by (drule less_10_cases) (auto simp: digit_char_def nth_Cons')

lemma show_nat_head: "0 < n \<Longrightarrow> hd (show_nat n) \<noteq> CHR ''0''"
proof (induction n rule: show_nat.induct)
  case (1 n)
  show ?case
  proof (cases "n < 10")
    case True
    with 1(2) show ?thesis by (subst show_nat.simps) (simp add: digit_char_zero)
  next
    case False
    then have "hd (show_nat (n div 10)) \<noteq> CHR ''0''" using 1(1) by simp
    moreover have "show_nat n = show_nat (n div 10) @ [digit_char (n mod 10)]" using False by (subst show_nat.simps) simp
    ultimately show ?thesis by simp
  qed
qed

text \<open>What may follow a value in the text of an object.\<close>

definition follows_value :: "string \<Rightarrow> bool" where
  "follows_value r \<longleftrightarrow> (\<exists>c x. r = c # x \<and> (c = CHR '','' \<or> c = CHR ''}''))"

lemma digits_then_end: "list_all is_digit s \<Longrightarrow> follows_value r \<Longrightarrow> digits_then (s @ r) = (s, r)"
proof -
  assume s: "list_all is_digit s" and "follows_value r"
  then obtain c x where r: "r = c # x" "\<not> is_digit c" by (auto simp: follows_value_def is_digit_def)
  from s have "takeWhile is_digit (s @ r) = s" "dropWhile is_digit (s @ r) = r"
    by (simp_all add: r takeWhile_append2 dropWhile_append2 list_all_iff)
  then show ?thesis by (simp add: digits_then_def)
qed

lemma no_more_numeral: "follows_value r \<Longrightarrow> fraction_part r = ([], r)" "follows_value r \<Longrightarrow> exponent_part r = ([], r)"
  by (auto simp: follows_value_def fraction_part_def exponent_part_def)

lemma integer_part_show: "follows_value r \<Longrightarrow> integer_part (show_nat n @ r) = Some (show_nat n, r)"
proof (cases "n = 0")
  case True
  then show ?thesis by (simp add: show_nat_zero integer_part_def)
next
  case False
  assume r: "follows_value r"
  obtain c s where s: "show_nat n = c # s" by (cases "show_nat n") auto
  have "is_digit c" "list_all is_digit s" "c \<noteq> CHR ''0''"
    using show_nat_digits [of n] show_nat_head [of n] False by (simp_all add: s)
  with digits_then_end [OF _ r] show ?thesis by (simp add: s integer_part_def)
qed

lemma numeral_prefix_show: "follows_value r \<Longrightarrow> numeral_prefix (show_int n @ r) = Some (show_int n, r)"
proof -
  assume r: "follows_value r"
  have plain: "numeral_prefix (show_nat k @ r) = Some (show_nat k, r)" for k
  proof -
    obtain c s where s: "show_nat k = c # s" by (cases "show_nat k") auto
    then have "c \<noteq> CHR ''-''" using show_nat_no_minus [of k] by auto
    with integer_part_show [OF r, of k] show ?thesis by (simp add: numeral_prefix_def s no_more_numeral [OF r])
  qed
  have "numeral_prefix (CHR ''-'' # show_nat k @ r) = Some (CHR ''-'' # show_nat k, r)" for k
    using integer_part_show [OF r, of k] by (simp add: numeral_prefix_def no_more_numeral [OF r])
  with plain show ?thesis by (simp add: show_int_def)
qed

text \<open>The leaves of an envelope.\<close>

definition leaf :: "jsval \<Rightarrow> bool" where
  "leaf v \<longleftrightarrow> (case v of JStr s \<Rightarrow> \<not> has_control s | JInt n \<Rightarrow> safe_integer n | _ \<Rightarrow> False)"

lemma skip_space_stop: "\<not> is_space c \<Longrightarrow> skip_space (c # s) = c # s"
  by (simp add: skip_space_def)

lemma marks_no_space [simp]: "\<not> is_space (CHR 0x22)" "\<not> is_space (CHR ''{'')" "\<not> is_space (CHR ''}'')" "\<not> is_space (CHR '':'')" "\<not> is_space (CHR '','')"
  by (simp_all add: is_space_def)

lemma digit_no_space: "is_digit c \<or> c = CHR ''-'' \<Longrightarrow> \<not> is_space c"
  by (auto simp: is_digit_def is_space_def)

lemma read_leaf:
  assumes "offline_ok op" "leaf v" "canonicalValue v = Inr w" "follows_value r" "d \<le> 12"
  shows "read_value (offline_rules op) (Suc n) d (w @ r) = Inr (v, r)"
proof (cases v)
  case (JStr s)
  then have w: "w = json_string s" and c: "\<not> has_control s" using assms(2,3) by (simp_all add: leaf_def)
  have "read_string (offline_rules op) (concat (map json_char s) @ CHR 0x22 # r) = Inr (s, r)" by (rule read_json_string [OF assms(1) c])
  then show ?thesis using assms(5) JStr by (simp add: w json_string_def skip_space_stop)
next
  case (JInt k)
  then have w: "w = show_int k" and k: "safe_integer k" using assms(2,3) by (simp_all add: leaf_def)
  obtain c s where s: "show_int k = c # s" "is_digit c \<or> c = CHR ''-''" using show_int_head [of k] by (cases "show_int k") auto
  have "read_number (offline_rules op) (show_int k @ r) = Inr (JInt k, r)"
    using assms(1) k by (simp add: read_number_def numeral_prefix_show [OF assms(4)] offline_ok_def)
  moreover have "c \<notin> {CHR ''{'', CHR ''['', CHR 0x22, CHR ''t'', CHR ''f'', CHR ''n''}" using s(2) by (auto simp: is_digit_def)
  ultimately show ?thesis using assms(5) JInt s digit_no_space [OF s(2)] by (simp add: w skip_space_stop has_prefix_def)
qed (use assms(2) in \<open>simp_all add: leaf_def\<close>)

lemma comma_join_Cons: "comma_join (t # ts) = t @ (if ts = [] then [] else CHR '','' # comma_join ts)"
  by (cases ts) simp_all

lemma read_member:
  assumes "offline_ok op" "\<not> has_control k" "\<not> own es k" "k \<notin> set unsafe_keys" "leaf v" "canonicalValue v = Inr w"
    and "follows_value q" "d \<le> 12" "q = c # x"
  shows "read_members (offline_rules op) (Suc (Suc n)) d es (json_string k @ CHR '':'' # w @ q)
    = (if c = CHR ''}'' then Inr (JObj (es @ [(k, v)]), x) else read_members (offline_rules op) (Suc n) d (es @ [(k, v)]) x)"
proof -
  have key: "read_string (offline_rules op) (concat (map json_char k) @ CHR 0x22 # CHR '':'' # w @ q) = Inr (k, CHR '':'' # w @ q)"
    by (rule read_json_string [OF assms(1,2)])
  have val: "read_value (offline_rules op) (Suc n) d (w @ q) = Inr (v, q)" by (rule read_leaf [OF assms(1,5,6,7,8)])
  have "c = CHR '','' \<or> c = CHR ''}''" using assms(7,9) by (auto simp: follows_value_def)
  then show ?thesis
    using key val assms(3,4,9) by (auto simp: json_string_def skip_space_stop)
qed

lemma read_entries:
  assumes "offline_ok op" "d \<le> 12"
  shows "list_all2 (\<lambda>e u. \<exists>w. canonicalValue (snd e) = Inr w \<and> json_string (fst e) @ CHR '':'' # w = u) xs ts
    \<Longrightarrow> xs \<noteq> [] \<Longrightarrow> \<forall>e\<in>set xs. leaf (snd e) \<and> \<not> has_control (fst e) \<and> fst e \<notin> set unsafe_keys
    \<Longrightarrow> distinct (map fst (es @ xs)) \<Longrightarrow> length xs < n
    \<Longrightarrow> read_members (offline_rules op) n d es (comma_join ts @ CHR ''}'' # r) = Inr (JObj (es @ xs), r)"
proof (induction xs arbitrary: ts es n)
  case (Cons e xs)
  obtain k v where e: "e = (k, v)" by (cases e)
  obtain u ts' where ts: "ts = u # ts'" "list_all2 (\<lambda>e u. \<exists>w. canonicalValue (snd e) = Inr w \<and> json_string (fst e) @ CHR '':'' # w = u) xs ts'"
    using Cons.prems(1) by (auto simp: list_all2_Cons1)
  obtain w where w: "canonicalValue v = Inr w" "u = json_string k @ CHR '':'' # w" using Cons.prems(1) by (auto simp: ts(1) e)
  obtain m where n: "n = Suc (Suc m)" "length xs \<le> m" using Cons.prems(5) by (cases n; cases "n - 1") auto
  define q where "q = (if ts' = [] then [] else CHR '','' # comma_join ts') @ CHR ''}'' # r"
  have shape: "comma_join ts @ CHR ''}'' # r = json_string k @ CHR '':'' # w @ q"
    by (simp add: ts(1) w(2) comma_join_Cons q_def)
  have fresh: "\<not> own es k" using Cons.prems(4) by (auto simp: own_def e)
  have lf: "leaf v" "\<not> has_control k" "k \<notin> set unsafe_keys" using Cons.prems(3) by (simp_all add: e)
  show ?case
  proof (cases xs)
    case Nil
    then have q: "q = CHR ''}'' # r" "follows_value q" using ts(2) by (simp_all add: q_def follows_value_def)
    show ?thesis
      using read_member [OF assms(1) lf(2) fresh lf(3,1) w(1) q(2) assms(2) q(1)] by (simp add: shape n(1) e Nil del: read_members.simps)
  next
    case (Cons e2 xs2)
    then have ne: "xs \<noteq> []" "ts' \<noteq> []" using ts(2) by auto
    then have q: "q = CHR '','' # (comma_join ts' @ CHR ''}'' # r)" "follows_value q" by (simp_all add: q_def follows_value_def)
    have "read_members (offline_rules op) (Suc m) d (es @ [(k, v)]) (comma_join ts' @ CHR ''}'' # r) = Inr (JObj ((es @ [(k, v)]) @ xs), r)"
      using Cons.prems(3,4) n(2) by (intro Cons.IH [OF ts(2) ne(1)]) (auto simp: e)
    then show ?thesis
      using read_member [OF assms(1) lf(2) fresh lf(3,1) w(1) q(2) assms(2) q(1)] by (simp add: shape n(1) e del: read_members.simps)
  qed
qed simp

text \<open>An object whose members are leaves, under distinct safe keys, is read back sorted.\<close>

definition leaf_object :: "(string \<times> jsval) list \<Rightarrow> bool" where
  "leaf_object es \<longleftrightarrow> es \<noteq> [] \<and> distinct (map fst es) \<and> (\<forall>e\<in>set es. leaf (snd e) \<and> \<not> has_control (fst e) \<and> fst e \<notin> set unsafe_keys)"

lemma length_members:
  "list_all2 (\<lambda>e u. \<exists>w. canonicalValue (snd e) = Inr w \<and> json_string (fst e) @ CHR '':'' # w = u) xs ts \<Longrightarrow> length xs \<le> length (comma_join ts)"
proof (induction xs ts rule: list_all2_induct)
  case (Cons e xs u ts)
  then have "0 < length u" by (auto simp: json_string_def)
  with Cons show ?case by (cases ts) auto
qed simp

lemma strict_parse_canonical:
  assumes op: "offline_ok op" and es: "leaf_object es" and t: "canonicalValue (JObj es) = Inr t"
  shows "strict_parse (offline_rules op) t = Inr (JObj (sort_entries es))"
proof -
  let ?P = "\<lambda>e u. \<exists>w. canonicalValue (snd e) = Inr w \<and> json_string (fst e) @ CHR '':'' # w = u"
  have keep: "filter (\<lambda>e. snd e \<noteq> JUndef) es = es"
    using es by (auto simp: leaf_object_def leaf_def filter_id_conv)
  obtain ts where ts: "list_all2 ?P (sort_entries es) ts" "t = CHR ''{'' # comma_join ts @ ''}''"
    using canonical_text(2) [OF t] unfolding keep by blast
  let ?b = "comma_join ts @ CHR ''}'' # []"
  have members: "read_members (offline_rules op) (2 * length t + 1) 1 [] ?b = Inr (JObj ([] @ sort_entries es), [])"
  proof (rule read_entries [OF op _ ts(1)])
    show "sort_entries es \<noteq> []" using es set_sort_entries [of es] by (metis leaf_object_def set_empty)
    show "distinct (map fst ([] @ sort_entries es))" using es by (simp add: leaf_object_def sort_entries_def distinct_map)
    show "length (sort_entries es) < 2 * length t + 1" using length_members [OF ts(1)] by (simp add: ts(2))
  qed (use es in \<open>simp_all add: leaf_object_def\<close>)
  have quoted: "\<exists>x. ?b = CHR 0x22 # x"
  proof -
    obtain e xs u us where "sort_entries es = e # xs" "ts = u # us"
      using es ts(1) set_sort_entries [of es] by (cases "sort_entries es"; cases ts) (auto simp: leaf_object_def)
    then show ?thesis using ts(1) by (auto simp: comma_join_Cons json_string_def)
  qed
  then obtain x where x: "?b = CHR 0x22 # x" ..
  have "read_value (offline_rules op) (Suc (2 * length t + 1)) 0 t = Inr (JObj (sort_entries es), [])"
    using members x unfolding ts(2) by (simp add: skip_space_stop del: read_members.simps)
  then show ?thesis by (simp add: strict_parse_def skip_space_def del: read_value.simps)
qed

section \<open>Envelopes round trip\<close>

lemma url_pad: "url_char (CHR ''='') = CHR ''=''"
  by (simp add: url_char_def)

lemma base64Encode_eq: "base64Encode op v = base64Url (op_utf8 op v)"
proof -
  let ?bs = "op_utf8 op v"
  let ?t = "map (\<lambda>n. url_char (b64_char n)) (b64_sextets ?bs)"
  obtain k where k: "b64_padding ?bs = replicate k (CHR ''='')" using padding_cases by blast
  have "map url_char (btoa ?bs) = ?t @ replicate k (CHR ''='')" using k by (simp add: btoa_parts comp_def url_pad)
  moreover have "filter (\<lambda>c. c \<noteq> CHR ''='') ?t = ?t" using b64_char_class b64_sextets_small by (auto simp: filter_id_conv)
  ultimately show ?thesis by (simp add: base64Encode_def base64Url_text)
qed

lemma base64Encode_text: "op_utf8 op v \<noteq> [] \<Longrightarrow> base64_text (base64Encode op v) \<and> length (base64Encode op v) mod 4 \<noteq> 1"
  using b64_sextets_nonempty b64_char_class b64_sextets_small length_sextets
  by (auto simp: base64Encode_eq base64Url_text base64_text_def list_all_iff)

lemma base64_round_trip:
  assumes "offline_ok op" "v \<noteq> []" "byte_length op (base64Encode op v) \<le> 12288"
  shows "base64Decode op (base64Encode op v) = Inr v"
proof -
  have "length v \<le> length (op_utf8 op v)" using assms(1) by (simp add: offline_ok_def)
  then have ne: "op_utf8 op v \<noteq> []" using assms(2) by auto
  let ?e = "base64Encode op v"
  have "fromBase64Url ?e = Inr (op_utf8 op v)" using base64url_inverse [OF ne] by (simp add: base64Encode_eq)
  moreover have ok: "base64_text ?e" "length ?e mod 4 \<noteq> 1" using base64Encode_text [OF ne] by simp_all
  ultimately have "atob (map plain_char ?e @ replicate ((4 - length ?e mod 4) mod 4) (CHR ''='')) = Inr (op_utf8 op v)"
    by (simp add: fromBase64Url_def base64_text_def)
  then show ?thesis using assms(1,3) ok by (simp add: base64Decode_def offline_ok_def)
qed

lemma jfield_cong: "map_of a = map_of b \<Longrightarrow> jfield a k = jfield b k"
  by (simp add: jfield_def)

lemma exact_keys_cong: "map_of a = map_of b \<Longrightarrow> exact_keys a r p = exact_keys b r p"
proof -
  assume "map_of a = map_of b"
  then have "set (map fst a) = set (map fst b)" by (metis dom_map_of_conv_image_fst list.set_map)
  then show ?thesis by (simp add: exact_keys_def own_def list_all_iff)
qed

lemma parseUnsigned_cong: "map_of a = map_of b \<Longrightarrow> parseUnsignedEnvelope op (JObj a) = parseUnsignedEnvelope op (JObj b)"
proof -
  assume h: "map_of a = map_of b"
  have f: "jfield a = jfield b" using jfield_cong [OF h] by blast
  then have "parse_fields op a = parse_fields op b" unfolding parse_fields_def by (intro ext) (simp only:)
  with f show ?thesis using exact_keys_cong [OF h] by (simp only: parseUnsignedEnvelope_def jsval.case)
qed

lemma offline_string_Inr: "offline_string op m P v = Inr s \<longleftrightarrow>
    v = JStr s \<and> s \<noteq> '''' \<and> byte_length op s \<le> m \<and> \<not> has_control s \<and> P s"
  by (auto simp: offline_string_def not_less split: jsval.splits if_splits)

lemma offline_integer_Inr: "offline_integer v = Inr n \<longleftrightarrow> v = JInt n \<and> safe_integer n \<and> 0 \<le> n"
  by (auto simp: offline_integer_def split: jsval.splits if_splits)

lemmas offline_fields = offline_string_Inr offline_integer_Inr offline_signature_def offline_nonce_def

text \<open>What an accepted envelope's fields are.\<close>

definition offline_unsigned_ok :: "offline_platform \<Rightarrow> 'a offline_unsigned_scheme \<Rightarrow> bool" where
  "offline_unsigned_ok op u \<longleftrightarrow>
     list_all (\<lambda>s. s \<noteq> '''' \<and> byte_length op s \<le> 256 \<and> \<not> has_control s \<and> offline_identifier s)
       [oe_envelopeId u, oe_tenantId u, oe_jurisdiction u, oe_issuerId u, oe_schemaId u, oe_keyId u, oe_statusId u]
     \<and> oe_nonce u \<noteq> '''' \<and> byte_length op (oe_nonce u) \<le> 128 \<and> \<not> has_control (oe_nonce u) \<and> nonce_text (oe_nonce u)
     \<and> oe_credential u \<noteq> '''' \<and> byte_length op (oe_credential u) \<le> 8192 \<and> \<not> has_control (oe_credential u)
     \<and> list_all (\<lambda>n. safe_integer n \<and> 0 \<le> n) [oe_issuedAt u, oe_expiresAt u] \<and> oe_issuedAt u < oe_expiresAt u"

lemma unsigned_entries_keys: "map fst (unsigned_entries u) = unsigned_fields"
  by (simp add: unsigned_entries_def unsigned_fields_def)

lemma exact_own: "map fst a = r \<Longrightarrow> exact_keys a r []"
  by (simp add: exact_keys_def own_def list_all_iff)

lemma parse_own:
  "parseUnsignedEnvelope op (JObj (unsigned_entries u)) = Inr w \<longleftrightarrow> offline_unsigned_ok op u \<and> w = offline_unsigned.truncate u"
proof -
  have f: "jfield (unsigned_entries u) ''format'' = JStr ''ssw-offline-envelope''" "jfield (unsigned_entries u) ''schemaVersion'' = JInt 1"
    "jfield (unsigned_entries u) ''envelopeId'' = JStr (oe_envelopeId u)" "jfield (unsigned_entries u) ''tenantId'' = JStr (oe_tenantId u)"
    "jfield (unsigned_entries u) ''jurisdiction'' = JStr (oe_jurisdiction u)" "jfield (unsigned_entries u) ''issuerId'' = JStr (oe_issuerId u)"
    "jfield (unsigned_entries u) ''schemaId'' = JStr (oe_schemaId u)" "jfield (unsigned_entries u) ''keyId'' = JStr (oe_keyId u)"
    "jfield (unsigned_entries u) ''statusId'' = JStr (oe_statusId u)" "jfield (unsigned_entries u) ''issuedAt'' = JInt (oe_issuedAt u)"
    "jfield (unsigned_entries u) ''expiresAt'' = JInt (oe_expiresAt u)" "jfield (unsigned_entries u) ''nonce'' = JStr (oe_nonce u)"
    "jfield (unsigned_entries u) ''credential'' = JStr (oe_credential u)"
    by (simp_all add: unsigned_entries_def)
  have "exact_keys (unsigned_entries u) unsigned_fields []" by (rule exact_own [OF unsigned_entries_keys])
  then show ?thesis
    unfolding parseUnsignedEnvelope_def parse_fields_def jsval.case Let_def f
    by (auto simp: bindE_Inr offline_fields offline_unsigned_ok_def offline_unsigned.truncate_def not_le split: if_splits)
qed

lemma leaf_object_I:
  assumes "map fst es = ks" "distinct ks" "list_all (\<lambda>k. \<not> has_control k \<and> k \<notin> set unsafe_keys) ks" "\<forall>v\<in>set (map snd es). leaf v" "es \<noteq> []"
  shows "leaf_object es"
  using assms(2-5) unfolding assms(1) [symmetric] leaf_object_def by (auto simp: list_all_iff)

lemma map_of_without: "map_of xs k = None \<Longrightarrow> (map_of (xs @ [(k, v)]))(k := None) = map_of xs"
  by (rule ext) (simp add: map_add_def split: option.split)

lemma unsigned_leaves:
  assumes "offline_unsigned_ok op u" "\<not> has_control sig"
  shows "leaf_object (unsigned_entries u @ [(''signature'', JStr sig)])"
proof -
  have d: "distinct (unsigned_fields @ [''signature''])" by code_simp
  have k: "list_all (\<lambda>k. \<not> has_control k \<and> k \<notin> set unsafe_keys) (unsigned_fields @ [''signature''])" by code_simp
  have l: "\<forall>v\<in>set (map snd (unsigned_entries u @ [(''signature'', JStr sig)])). leaf v"
  proof -
    have "\<not> has_control ''ssw-offline-envelope''" "safe_integer 1" by code_simp+
    then show ?thesis using assms by (simp add: leaf_def unsigned_entries_def offline_unsigned_ok_def)
  qed
  have m: "map fst (unsigned_entries u @ [(''signature'', JStr sig)]) = unsigned_fields @ [''signature'']"
    by (simp add: unsigned_entries_keys)
  show ?thesis by (rule leaf_object_I [OF m d k l]) simp
qed

lemma parse_own_scanned:
  assumes "offline_unsigned_ok op u" "offline_signature op (JStr sig) = Inr sig"
  shows "parse_scanned op (JObj (sort_entries (unsigned_entries u @ [(''signature'', JStr sig)])))
    = Inr (offline_unsigned.extend (offline_unsigned.truncate u) \<lparr>oe_signature = sig\<rparr>)"
proof -
  let ?es = "unsigned_entries u @ [(''signature'', JStr sig)]"
  have d: "distinct (map fst ?es)" using unsigned_leaves [OF assms(1), of sig] assms(2) by (simp add: leaf_object_def offline_fields)
  have m: "map_of (sort_entries ?es) = map_of ?es" by (rule map_of_sort_entries [OF d])
  have nosig: "''signature'' \<notin> set (map fst (unsigned_entries u))" using d by simp
  then have none: "map_of (unsigned_entries u) ''signature'' = None" unfolding map_of_eq_None_iff by simp
  then have "map_of (omap_delete ''signature'' (sort_entries ?es)) = map_of (unsigned_entries u)"
    unfolding map_of_omap_delete m by (rule map_of_without)
  then have "parseUnsignedEnvelope op (JObj (omap_delete ''signature'' (sort_entries ?es))) = parseUnsignedEnvelope op (JObj (unsigned_entries u))"
    by (rule parseUnsigned_cong)
  moreover have "parseUnsignedEnvelope op (JObj (unsigned_entries u)) = Inr (offline_unsigned.truncate u)"
    unfolding parse_own using assms(1) by simp
  moreover have "jfield (sort_entries ?es) ''signature'' = JStr sig"
    unfolding jfield_def m by (simp add: map_add_def none)
  moreover have "exact_keys (sort_entries ?es) (unsigned_fields @ [''signature'']) []"
    unfolding exact_keys_cong [OF m] by (rule exact_own) (simp add: unsigned_entries_keys)
  ultimately show ?thesis using assms(2) unfolding parse_scanned_def by (simp only: jsval.case not_True_eq_False if_False bindE_simps)
qed

lemma extend_entries [simp]:
  "unsigned_entries (offline_unsigned.extend (offline_unsigned.truncate u) \<lparr>oe_signature = sig\<rparr>) = unsigned_entries u"
  "unsigned_entries (offline_unsigned.truncate u) = unsigned_entries u"
  by (simp_all add: unsigned_entries_def offline_unsigned.extend_def offline_unsigned.truncate_def)

lemma truncate_self [simp]: "offline_unsigned.truncate (u :: offline_unsigned) = u"
  by (cases u) (simp add: offline_unsigned.truncate_def)

lemma payload_same_entries: "unsigned_entries a = unsigned_entries b \<Longrightarrow> offlineEnvelopeSigningPayload op a = offlineEnvelopeSigningPayload op b"
  by (simp add: offlineEnvelopeSigningPayload_def)

lemma created_parses:
  assumes op: "offline_ok op" and made: "createOfflineEnvelope op input signer = Inr encoded"
  obtains e p where "parseOfflineEnvelope op (Scanned encoded) = Inr e" "offline_unsigned.truncate e = input"
    "offlineEnvelopeSigningPayload op e = Inr p" "signer (oe_keyId e) p = Inr (JStr (oe_signature e))"
proof -
  obtain p sig signed t where h: "offline_unsigned_ok op input"
      "offlineEnvelopeSigningPayload op input = Inr p" "signer (oe_keyId input) p = Inr signed" "offline_signature op signed = Inr sig"
      "offline_canonical (JObj (unsigned_entries input @ [(''signature'', JStr sig)])) = Inr t"
      "encoded = base64Encode op t" "byte_length op encoded \<le> 12288"
    using made by (auto simp: createOfflineEnvelope_def bindE_Inr parse_own Let_def not_less split: if_splits)
  from h(4) have sig: "signed = JStr sig" "offline_signature op (JStr sig) = Inr sig" "\<not> has_control sig" by (simp_all add: offline_fields)
  let ?es = "unsigned_entries input @ [(''signature'', JStr sig)]"
  let ?e = "offline_unsigned.extend (offline_unsigned.truncate input) \<lparr>oe_signature = sig\<rparr>"
  have t: "canonicalValue (JObj ?es) = Inr t" using h(5) by (cases "canonicalValue (JObj ?es)") (simp_all only: offline_canonical_def sum.case sum.inject sum.distinct)
  have ne: "t \<noteq> []" using canonical_head [OF t] by simp
  have "length t \<le> length (op_utf8 op t)" using op by (simp add: offline_ok_def)
  then have u: "op_utf8 op t \<noteq> []" using ne by auto
  have enc: "base64_text encoded" "length encoded mod 4 \<noteq> 1" using base64Encode_text [OF u] by (simp_all add: h(6))
  have "base64Decode op encoded = Inr t" using base64_round_trip [OF op ne] h(7) by (simp add: h(6))
  moreover have "strict_parse (offline_rules op) t = Inr (JObj (sort_entries ?es))" by (rule strict_parse_canonical [OF op unsigned_leaves [OF h(1) sig(3)] t])
  moreover have "parse_scanned op (JObj (sort_entries ?es)) = Inr ?e" by (rule parse_own_scanned [OF h(1) sig(2)])
  ultimately have "parseOfflineEnvelope op (Scanned encoded) = Inr ?e"
    using h(7) enc unfolding parseOfflineEnvelope_def parse_encoded_def offline_input.case
    by (simp add: base64_text_def)
  moreover have "offline_unsigned.truncate ?e = input" by (simp add: offline_unsigned.extend_def offline_unsigned.truncate_def)
  moreover have "offlineEnvelopeSigningPayload op ?e = Inr p" using h(2) payload_same_entries [OF extend_entries(1)] by metis
  moreover have "signer (oe_keyId ?e) p = Inr (JStr (oe_signature ?e))"
    using h(3) by (simp add: sig(1) offline_unsigned.extend_def offline_unsigned.truncate_def)
  ultimately show ?thesis using that by blast
qed

text \<open>
  C24: Parsing the text of a created envelope gives back exactly the fields it was made from,
  with the signature the signer made over the very payload that the verifier will check.
\<close>

theorem offline_envelope_round_trip:
  assumes "offline_ok op" "createOfflineEnvelope op input signer = Inr encoded"
  shows "\<exists>e p. parseOfflineEnvelope op (Scanned encoded) = Inr e \<and> offline_unsigned.truncate e = input
     \<and> offlineEnvelopeSigningPayload op e = Inr p \<and> signer (oe_keyId e) p = Inr (JStr (oe_signature e))"
  using created_parses [OF assms] by metis

text \<open>A platform on one-byte characters: \<open>JSON.parse\<close> of a token and \<open>Number\<close> of a numeral.\<close>

fun token_body :: "nat \<Rightarrow> string \<Rightarrow> string" where
  "token_body 0 s = []"
| "token_body (Suc n) s = (if s = [] \<or> s = [CHR 0x22] then [] else case read_char s of (c, r) \<Rightarrow> c # token_body n r)"

definition ex_number :: "string \<Rightarrow> js_number" where
  "ex_number s = (case s of [] \<Rightarrow> Not_a_number | c # r \<Rightarrow> Whole (if c = CHR ''-'' then - int (read_nat r) else int (read_nat s)))"

definition ex_offline :: offline_platform where
  "ex_offline = \<lparr>op_utf8 = (\<lambda>s. s), op_decode = Some, op_literal = (\<lambda>s. Some (token_body (length s) (tl s))),
     op_number = ex_number, op_fraction = ''0.5''\<rparr>"

lemma token_body_json: "length s \<le> n \<Longrightarrow> token_body n (concat (map json_char s) @ [CHR 0x22]) = s"
proof (induction s arbitrary: n)
  case Nil
  then show ?case by (cases n) simp_all
next
  case (Cons c s)
  then obtain m where n: "n = Suc m" "length s \<le> m" by (cases n) auto
  have "read_char (json_char c @ concat (map json_char s) @ [CHR 0x22]) = (c, concat (map json_char s) @ [CHR 0x22])" by (rule read_json_char)
  moreover have "json_char c @ concat (map json_char s) @ [CHR 0x22] \<noteq> [CHR 0x22]" by (rule json_char_no_quote)
  ultimately show ?case using Cons.IH [OF n(2)] by (simp add: n(1))
qed

lemma json_chars_length: "length s \<le> length (concat (map json_char s))"
proof (induction s)
  case (Cons c s)
  have "0 < length (json_char c)" by (cases c rule: json_char_cases) simp_all
  then have "Suc 0 \<le> length (json_char c)" by linarith
  with Cons have "Suc 0 + length s \<le> length (json_char c) + length (concat (map json_char s))" by (intro add_mono)
  then show ?case by simp
qed simp

lemma ex_offline_ok: "offline_ok ex_offline"
proof -
  have "op_literal ex_offline (json_string s) = Some s" for s
  proof -
    have "length s \<le> length (json_string s)" using json_chars_length [of s] by (simp add: json_string_def)
    then have "token_body (length (json_string s)) (concat (map json_char s) @ [CHR 0x22]) = s" by (rule token_body_json)
    then show ?thesis by (simp add: ex_offline_def json_string_def del: token_body.simps)
  qed
  moreover have "op_number ex_offline (show_int n) = Whole n" for n
  proof (cases "n < 0")
    case True
    then show ?thesis by (simp add: ex_offline_def ex_number_def show_int_def read_show_nat)
  next
    case False
    obtain c s where s: "show_nat (nat n) = c # s" by (cases "show_nat (nat n)") auto
    then have "c \<noteq> CHR ''-''" using show_nat_no_minus [of "nat n"] by auto
    with False s show ?thesis using read_show_nat [of "nat n"] by (simp add: ex_offline_def ex_number_def show_int_def)
  qed
  ultimately show ?thesis by (simp add: offline_ok_def ex_offline_def)
qed

definition ex_offline_envelope :: offline_unsigned where
  "ex_offline_envelope = \<lparr>oe_envelopeId = ''e1'', oe_tenantId = ''t1'', oe_jurisdiction = ''EU'', oe_issuerId = ''i1'', oe_schemaId = ''s1'',
     oe_keyId = ''k1'', oe_statusId = ''st1'', oe_issuedAt = 100, oe_expiresAt = 200, oe_nonce = ''abcdefghijklmnop'', oe_credential = ''c''\<rparr>"

definition ex_offline_signer :: "string \<Rightarrow> string \<Rightarrow> offline_exn + jsval" where
  "ex_offline_signer key payload = (if key = ''k1'' then Inr (JStr ''sig'') else Inl Plain_offline_error)"

lemma ex_offline_created: "\<exists>encoded. createOfflineEnvelope ex_offline ex_offline_envelope ex_offline_signer = Inr encoded"
proof -
  have "case createOfflineEnvelope ex_offline ex_offline_envelope ex_offline_signer of Inl _ \<Rightarrow> False | Inr _ \<Rightarrow> True" by code_simp
  then show ?thesis by (auto split: sum.splits)
qed

theorem offline_envelope_round_trip_witness:
  "\<exists>encoded e. createOfflineEnvelope ex_offline ex_offline_envelope ex_offline_signer = Inr encoded
     \<and> parseOfflineEnvelope ex_offline (Scanned encoded) = Inr e \<and> offline_unsigned.truncate e = ex_offline_envelope"
  using ex_offline_created offline_envelope_round_trip [OF ex_offline_ok] by metis

section \<open>What a verified result rests on\<close>

lemma parse_own_decode: "parse_scanned op v = Inr e \<Longrightarrow> offline_unsigned_ok op e"
proof -
  assume "parse_scanned op v = Inr e"
  then obtain input u sig where u: "parseUnsignedEnvelope op (JObj input) = Inr u"
      "e = offline_unsigned.extend u \<lparr>oe_signature = sig\<rparr>"
    by (cases v) (auto simp: parse_scanned_def bindE_Inr split: if_splits)
  have "offline_unsigned_ok op u"
    using u(1) unfolding parseUnsignedEnvelope_def parse_fields_def jsval.case Let_def
    by (auto simp: bindE_Inr offline_fields offline_unsigned_ok_def split: if_splits)
  then show ?thesis by (simp add: u(2) offline_unsigned_ok_def offline_unsigned.extend_def)
qed

lemma parseOfflineEnvelope_ok: "parseOfflineEnvelope op input = Inr e \<Longrightarrow> offline_unsigned_ok op e"
proof -
  have e: "parse_encoded op s = Inr e \<Longrightarrow> offline_unsigned_ok op e" for s
  proof -
    assume "parse_encoded op s = Inr e"
    then obtain t where "(case strict_parse (offline_rules op) t of Inl _ \<Rightarrow> Inl (Offline_error MALFORMED_ENVELOPE) | Inr v \<Rightarrow> parse_scanned op v) = Inr e"
      by (auto simp: parse_encoded_def bindE_Inr simp del: split_paired_Ex split: if_splits)
    then show ?thesis by (cases "strict_parse (offline_rules op) t") (auto dest: parse_own_decode)
  qed
  assume "parseOfflineEnvelope op input = Inr e"
  then show ?thesis
    by (cases input) (auto simp: parseOfflineEnvelope_def bindE_Inr dest: e split: if_splits option.splits)
qed

text \<open>The branches of a verification, once the envelope is parsed.\<close>

lemma verify_parsed:
  assumes "parseOfflineEnvelope op input = Inr e"
  shows "verifyOfflineEnvelope op ports input now skew lifetime s =
    (case bindE (offlineEnvelopeSigningPayload op e) (\<lambda>p. ok_verify ports (oe_issuerId e) (oe_keyId e) p (oe_signature e)) of
       Inl _ \<Rightarrow> (Inr (offline_result_of e Rejected_outcome SIGNATURE_UNAVAILABLE None), s)
     | Inr False \<Rightarrow> (Inr (offline_result_of e Rejected_outcome OFFLINE_SIGNATURE_INVALID None), s)
     | Inr True \<Rightarrow> (case evaluateOfflineFreshness (oe_issuedAt e) (oe_expiresAt e) now skew lifetime of
           Inl x \<Rightarrow> (Inl x, s)
         | Inr (Not_fresh c) \<Rightarrow> (Inr (offline_result_of e Indeterminate_outcome c None), s)
         | Inr Fresh \<Rightarrow> (case ok_registry ports (offline_unsigned.truncate e) now of
             Inl _ \<Rightarrow> (Inr (offline_result_of e Indeterminate_outcome CACHE_INVALID None), s)
           | Inr d \<Rightarrow> (case settle_decision ports e d s of (r, t) \<Rightarrow> (Inr r, t)))))"
proof -
  have "parseUnsignedEnvelope op (JObj (unsigned_entries e)) = Inr (offline_unsigned.truncate e)"
    unfolding parse_own using parseOfflineEnvelope_ok [OF assms] by simp
  moreover have "offlineEnvelopeSigningPayload op (offline_unsigned.truncate e) = offlineEnvelopeSigningPayload op e"
    by (rule payload_same_entries [OF extend_entries(2)])
  ultimately show ?thesis unfolding verifyOfflineEnvelope_def signature_verdict_def assms by (simp only: sum.case)
qed

lemma fresh_iff: "evaluateOfflineFreshness i x now skew lifetime = Inr Fresh \<longleftrightarrow>
    (let k = (case skew of None \<Rightarrow> 0 | Some n \<Rightarrow> n); m = (case lifetime of None \<Rightarrow> 86400 | Some n \<Rightarrow> n) in
     safe_integer now \<and> 0 \<le> now \<and> safe_integer k \<and> 0 \<le> k \<and> safe_integer m \<and> 0 < m \<and> x - i \<le> m \<and> i \<le> now + k \<and> now - k < x)"
  by (simp add: evaluateOfflineFreshness_def Let_def) linarith

definition lists_status :: "offline_snapshot \<Rightarrow> offline_unsigned \<Rightarrow> bool" where
  "lists_status x u \<longleftrightarrow> (\<exists>a\<in>set (sp_statuses x). st_issuerId a = oe_issuerId u \<and> st_statusId a = oe_statusId u \<and> st_status a = ''valid'')"

definition lists_issuer :: "offline_snapshot \<Rightarrow> offline_unsigned \<Rightarrow> bool" where
  "lists_issuer x u \<longleftrightarrow> (\<exists>i\<in>set (sp_issuers x). oi_issuerId i = oe_issuerId u \<and> oi_status i = ''active''
     \<and> (\<exists>c\<in>set (oi_schemas i). os_schemaId c = oe_schemaId u \<and> os_status c = ''active'')
     \<and> (\<exists>k\<in>set (oi_keys i). ky_keyId k = oe_keyId u \<and> ky_status k \<noteq> ''revoked'' \<and> ky_authorizedFrom k \<le> oe_issuedAt u
          \<and> (\<forall>n. ky_authorizedUntil k = Some n \<longrightarrow> oe_issuedAt u < n)))"

lemma cache_decision_outcome [simp]: "od_decision (cache_decision w c x) = w" "od_decision (bare_decision c) = Indeterminate_outcome"
  by (simp_all add: cache_decision_def bare_decision_def)

lemma find_found: "find P xs = Some x \<Longrightarrow> P x \<and> x \<in> set xs"
  by (metis find_Some_iff nth_mem)

lemma offline_status_verified: "od_decision (evaluate_status x u) = Verified_outcome \<Longrightarrow> lists_status x u"
  by (auto simp: evaluate_status_def lists_status_def dest: find_found split: option.splits if_splits)

lemma issuer_verified: "oi_issuerId i = oe_issuerId u \<Longrightarrow> i \<in> set (sp_issuers x) \<Longrightarrow> od_decision (evaluate_issuer x u i) = Verified_outcome
    \<Longrightarrow> lists_issuer x u \<and> lists_status x u"
  by (fastforce simp: evaluate_issuer_def lists_issuer_def dest: offline_status_verified find_found split: option.splits if_splits)

lemma cache_verified:
  assumes "od_decision (cache_evaluate cache u now) = Verified_outcome"
  shows "\<exists>x. cache = Some x \<and> sp_issuedAt x \<le> now \<and> now < sp_expiresAt x \<and> sp_tenantId x = oe_tenantId u
    \<and> sp_jurisdiction x = oe_jurisdiction u \<and> lists_issuer x u \<and> lists_status x u"
proof (cases cache)
  case (Some x)
  with assms obtain i where "find (\<lambda>e. oi_issuerId e = oe_issuerId u) (sp_issuers x) = Some i"
      "od_decision (evaluate_issuer x u i) = Verified_outcome"
      "sp_issuedAt x \<le> now" "now < sp_expiresAt x" "sp_tenantId x = oe_tenantId u" "sp_jurisdiction x = oe_jurisdiction u"
    by (auto simp: cache_evaluate_def split: if_splits option.splits)
  with Some show ?thesis using issuer_verified [of i u x] by (auto dest: find_found)
qed (use assms in \<open>simp add: cache_evaluate_def\<close>)

text \<open>
  C13: A verified result against the cache means: the signature was accepted over the
  canonical payload of the parsed envelope; up to the clock skew (none if not given) the
  envelope was issued and has not expired, and it lives no longer than the permitted lifetime
  (a day if not given); the snapshot is current and for its tenant and jurisdiction, issuer
  and schema are active, the key is not revoked and was authorised when the envelope was
  issued, the status is valid; and where a replay boundary is configured it accepted the
  replay token (without one nothing is recorded).
\<close>

theorem offline_verified_sound:
  assumes "verifyOfflineEnvelope op ports input now skew lifetime s = (Inr r, t)" "or_outcome r = Verified_outcome"
    and "ok_registry ports = (\<lambda>u n. Inr (cache_evaluate cache u n))"
  shows "\<exists>e p x. parseOfflineEnvelope op input = Inr e \<and> offlineEnvelopeSigningPayload op e = Inr p
     \<and> ok_verify ports (oe_issuerId e) (oe_keyId e) p (oe_signature e) = Inr True
     \<and> (let k = (case skew of None \<Rightarrow> 0 | Some n \<Rightarrow> n); m = (case lifetime of None \<Rightarrow> 86400 | Some n \<Rightarrow> n) in
          0 \<le> k \<and> oe_issuedAt e \<le> now + k \<and> now - k < oe_expiresAt e \<and> oe_expiresAt e - oe_issuedAt e \<le> m)
     \<and> cache = Some x \<and> sp_issuedAt x \<le> now \<and> now < sp_expiresAt x \<and> sp_tenantId x = oe_tenantId e \<and> sp_jurisdiction x = oe_jurisdiction e
     \<and> lists_issuer x (offline_unsigned.truncate e) \<and> lists_status x (offline_unsigned.truncate e)
     \<and> (case ok_replay ports of None \<Rightarrow> t = s | Some consume \<Rightarrow> consume (replay_token e) s = (True, t))"
proof (cases "parseOfflineEnvelope op input")
  case (Inl x)
  then show ?thesis using assms(1,2) by (auto simp: verifyOfflineEnvelope_def parse_failure_def)
next
  case (Inr e)
  let ?u = "offline_unsigned.truncate e"
  obtain p where p: "offlineEnvelopeSigningPayload op e = Inr p" "ok_verify ports (oe_issuerId e) (oe_keyId e) p (oe_signature e) = Inr True"
    and f: "evaluateOfflineFreshness (oe_issuedAt e) (oe_expiresAt e) now skew lifetime = Inr Fresh"
    and d: "settle_decision ports e (cache_evaluate cache ?u now) s = (r, t)"
    using assms unfolding verify_parsed [OF Inr] assms(3)
    by (auto simp: bindE_Inr offline_result_of_def split: sum.splits bool.splits freshness.splits prod.splits)
  have v: "od_decision (cache_evaluate cache ?u now) = Verified_outcome"
    "case ok_replay ports of None \<Rightarrow> t = s | Some consume \<Rightarrow> consume (replay_token e) s = (True, t)"
    using d assms(2) by (auto simp: settle_decision_def offline_result_of_def split: offline_outcome.splits option.splits prod.splits bool.splits)
  have w: "let k = (case skew of None \<Rightarrow> 0 | Some n \<Rightarrow> n); m = (case lifetime of None \<Rightarrow> 86400 | Some n \<Rightarrow> n) in
      0 \<le> k \<and> oe_issuedAt e \<le> now + k \<and> now - k < oe_expiresAt e \<and> oe_expiresAt e - oe_issuedAt e \<le> m"
    using f by (auto simp: evaluateOfflineFreshness_def Let_def split: if_splits)
  from cache_verified [OF v(1)] obtain x where "cache = Some x" "sp_issuedAt x \<le> now" "now < sp_expiresAt x"
      "sp_tenantId x = oe_tenantId e" "sp_jurisdiction x = oe_jurisdiction e" "lists_issuer x ?u" "lists_status x ?u"
    by (auto simp: offline_unsigned.truncate_def)
  with Inr p w v(2) show ?thesis by blast
qed

section \<open>Each envelope is accepted once\<close>

text \<open>One verification with the in-memory replay boundary: everything else may differ from call to call.\<close>

record offline_request =
  rq_platform :: offline_platform
  rq_verify :: "string \<Rightarrow> string \<Rightarrow> string \<Rightarrow> string \<Rightarrow> offline_exn + bool"
  rq_registry :: "offline_unsigned \<Rightarrow> int \<Rightarrow> offline_exn + offline_decision"
  rq_input :: offline_input
  rq_now :: int
  rq_skew :: "int option"
  rq_lifetime :: "int option"

definition offline_run :: "offline_request \<Rightarrow> (string set, offline_exn, offline_result) meth" where
  "offline_run q = verifyOfflineEnvelope (rq_platform q)
     \<lparr>ok_verify = rq_verify q, ok_registry = rq_registry q, ok_replay = Some replay_consume\<rparr> (rq_input q) (rq_now q) (rq_skew q) (rq_lifetime q)"

definition offline_attempt :: "offline_request \<Rightarrow> string set \<Rightarrow> bool \<times> string set" where
  "offline_attempt q s = (case offline_run q s of (Inl _, t) \<Rightarrow> (False, t) | (Inr r, t) \<Rightarrow> (or_outcome r = Verified_outcome, t))"

definition offline_id :: "offline_request \<Rightarrow> string \<times> string" where
  "offline_id q = (case parseOfflineEnvelope (rq_platform q) (rq_input q) of Inl _ \<Rightarrow> ([], []) | Inr e \<Rightarrow> (oe_envelopeId e, oe_nonce e))"

definition token_of :: "string \<times> string \<Rightarrow> string" where
  "token_of p = fst p @ '':'' @ snd p"

definition spent_envelopes :: "string set \<Rightarrow> (string \<times> string) set" where
  "spent_envelopes s = {p. token_of p \<in> s}"

text \<open>The codes of a parse failure.\<close>

definition parse_codes :: "offline_code set" where
  "parse_codes = {MALFORMED_ENVELOPE, PAYLOAD_TOO_LARGE, UNSUPPORTED_ENVELOPE_VERSION, DOWNGRADE_DETECTED}"

definition parse_exn :: "offline_exn \<Rightarrow> bool" where
  "parse_exn x \<longleftrightarrow> (case x of Plain_offline_error \<Rightarrow> True | Offline_error c \<Rightarrow> c \<in> parse_codes)"

lemma parse_exn_simps [simp]: "parse_exn Plain_offline_error" "parse_exn (Offline_error MALFORMED_ENVELOPE)" "parse_exn (Offline_error PAYLOAD_TOO_LARGE)"
  "parse_exn (Offline_error UNSUPPORTED_ENVELOPE_VERSION)" "parse_exn (Offline_error DOWNGRADE_DETECTED)"
  by (simp_all add: parse_exn_def parse_codes_def)

lemma field_errors:
  "offline_string op m P v = Inl x \<Longrightarrow> parse_exn x" "offline_integer v = Inl x \<Longrightarrow> parse_exn x"
  "offline_signature op v = Inl x \<Longrightarrow> parse_exn x" "offline_nonce op v = Inl x \<Longrightarrow> parse_exn x"
  by (auto simp: offline_string_def offline_integer_def offline_signature_def offline_nonce_def split: jsval.splits if_splits)

lemma parseUnsigned_errors: "parseUnsignedEnvelope op v = Inl x \<Longrightarrow> parse_exn x"
  by (cases v) (auto simp: parseUnsignedEnvelope_def parse_fields_def Let_def bindE_Inl dest: field_errors split: if_splits jsval.splits)

lemma parse_errors: "parseOfflineEnvelope op input = Inl x \<Longrightarrow> parse_exn x"
proof -
  have scanned: "parse_scanned op v = Inl x \<Longrightarrow> parse_exn x" for v
    by (cases v) (auto simp: parse_scanned_def bindE_Inl dest: field_errors parseUnsigned_errors split: if_splits)
  have decode: "base64Decode op s = Inl x \<Longrightarrow> parse_exn x" for s
    by (auto simp: base64Decode_def split: if_splits sum.splits option.splits)
  have encoded: "parse_encoded op s = Inl x \<Longrightarrow> parse_exn x" for s
  proof -
    assume "parse_encoded op s = Inl x"
    then consider "parse_exn x" | t where "(case strict_parse (offline_rules op) t of Inl _ \<Rightarrow> Inl (Offline_error MALFORMED_ENVELOPE) | Inr v \<Rightarrow> parse_scanned op v) = Inl x"
      by (auto simp: parse_encoded_def bindE_Inl dest: decode split: if_splits)
    then show ?thesis
    proof cases
      case 2
      then show ?thesis by (cases "strict_parse (offline_rules op) t") (auto dest: scanned)
    qed
  qed
  assume "parseOfflineEnvelope op input = Inl x"
  then show ?thesis
    by (cases input) (auto simp: parseOfflineEnvelope_def offline_canonical_def bindE_Inl dest: encoded split: if_splits option.splits sum.splits)
qed

lemma replay_token_of: "parseOfflineEnvelope (rq_platform q) (rq_input q) = Inr e \<Longrightarrow> replay_token e = token_of (offline_id q)"
  by (simp add: replay_token_def offline_id_def token_of_def)

text \<open>The boundary changes only when the result is verified; only a spent token is reported as a replay.\<close>

lemma offline_run_cases:
  assumes "offline_run q s = (x, t)"
  obtains (unchanged) "t = s" "\<And>r. x = Inr r \<Longrightarrow> or_outcome r \<noteq> Verified_outcome \<and> or_code r \<noteq> REPLAY_DETECTED"
  | (replayed) r e where "x = Inr r" "t = s" "or_outcome r = Rejected_outcome"
      "parseOfflineEnvelope (rq_platform q) (rq_input q) = Inr e" "token_of (offline_id q) \<in> s"
  | (accepted) r e where "x = Inr r" "t = insert (token_of (offline_id q)) s" "or_outcome r = Verified_outcome" "or_code r = VERIFIED"
      "parseOfflineEnvelope (rq_platform q) (rq_input q) = Inr e" "token_of (offline_id q) \<notin> s"
proof (cases "parseOfflineEnvelope (rq_platform q) (rq_input q)")
  case (Inl y)
  with parse_errors [OF Inl] assms show ?thesis
    by (intro unchanged) (auto simp: offline_run_def verifyOfflineEnvelope_def parse_failure_def parse_exn_def parse_codes_def split: offline_exn.splits)
next
  case (Inr e)
  have tok: "replay_token e = token_of (offline_id q)" "token_of (offline_id q) \<noteq> ''''"
    using replay_token_of [OF Inr] by (simp_all add: token_of_def)
  let ?ports = "\<lparr>ok_verify = rq_verify q, ok_registry = rq_registry q, ok_replay = Some replay_consume\<rparr>"
  consider "t = s" "\<And>r. x = Inr r \<Longrightarrow> or_outcome r \<noteq> Verified_outcome \<and> or_code r \<noteq> REPLAY_DETECTED"
    | d r where "settle_decision ?ports e d s = (r, t)" "x = Inr r"
    using assms unfolding offline_run_def verify_parsed [OF Inr]
    by (auto simp: offline_result_of_def evaluateOfflineFreshness_def Let_def split: sum.splits bool.splits freshness.splits prod.splits if_splits)
  then show ?thesis
  proof cases
    case 1
    then show ?thesis by (rule unchanged)
  next
    case 2
    have codes: "indeterminate_code c \<noteq> REPLAY_DETECTED" "rejected_code c \<noteq> REPLAY_DETECTED" for c
      by (simp_all add: indeterminate_code_def rejected_code_def)
    show ?thesis
    proof (cases "od_decision d")
      case Verified_outcome
      show ?thesis
      proof (cases "token_of (offline_id q) \<in> s")
        case True
        with Verified_outcome 2 tok Inr show ?thesis
          by (intro replayed [of r e]) (auto simp: settle_decision_def replay_consume_def offline_result_of_def)
      next
        case False
        with Verified_outcome 2 tok Inr show ?thesis
          by (intro accepted [of r e]) (auto simp: settle_decision_def replay_consume_def offline_result_of_def)
      qed
    qed (use 2 codes in \<open>intro unchanged; auto simp: settle_decision_def offline_result_of_def\<close>)+
  qed
qed

interpretation envelope: one_shot offline_attempt offline_id "(=)" spent_envelopes
proof unfold_locales
  fix q s t
  assume "offline_attempt q s = (True, t)"
  then obtain x where x: "offline_run q s = (x, t)" "\<exists>r. x = Inr r \<and> or_outcome r = Verified_outcome"
    by (auto simp: offline_attempt_def split: prod.splits sum.splits)
  from x(1) show "offline_id q \<notin> spent_envelopes s" and "offline_id q \<in> spent_envelopes t"
    by (cases rule: offline_run_cases; use x(2) in \<open>auto simp: spent_envelopes_def\<close>)+
next
  fix q s b t
  assume "offline_attempt q s = (b, t)"
  then obtain x where "offline_run q s = (x, t)" by (auto simp: offline_attempt_def split: prod.splits sum.splits)
  then show "spent_envelopes s \<subseteq> spent_envelopes t" by (cases rule: offline_run_cases) (auto simp: spent_envelopes_def)
qed auto

text \<open>Tokens are unambiguous: a nonce has no colon.\<close>

lemma token_inject: "token_of (a, n) = token_of (b, m) \<Longrightarrow> nonce_text n \<Longrightarrow> nonce_text m \<Longrightarrow> a = b \<and> n = m"
proof -
  have "\<not> base64url_char (CHR '':'')" by code_simp
  then have nc: "CHR '':'' \<notin> set n" if "nonce_text n" for n
    using that unfolding nonce_text_def list_all_iff by blast
  assume h: "token_of (a, n) = token_of (b, m)" and "nonce_text n" "nonce_text m"
  then have n: "CHR '':'' \<notin> set (rev n)" "CHR '':'' \<notin> set (rev m)" using nc by auto
  have "rev n @ CHR '':'' # rev a = rev m @ CHR '':'' # rev b" using arg_cong [OF h, of rev] by (simp add: token_of_def)
  moreover have "takeWhile (\<lambda>c. c \<noteq> CHR '':'') (xs @ CHR '':'' # r) = xs" if "CHR '':'' \<notin> set xs" for xs r
    using that by (subst takeWhile_append2) auto
  ultimately have "rev n = rev m" using n by metis
  with h have "rev n = rev m \<and> rev a = rev b" by (simp add: token_of_def)
  then show ?thesis by simp
qed

lemma run_tokens:
  "one_shot_run offline_attempt offline_id (=) s0 ks s \<Longrightarrow> s0 = {} \<Longrightarrow> s = token_of ` set ks \<and> (\<forall>p\<in>set ks. nonce_text (snd p))"
proof (induction rule: one_shot_run.induct)
  case (run_used s0 ks t q u)
  then obtain x where x: "offline_run q t = (x, u)" "\<exists>r. x = Inr r \<and> or_outcome r = Verified_outcome"
    by (auto simp: offline_attempt_def split: prod.splits sum.splits)
  from x(1) show ?case
  proof (cases rule: offline_run_cases)
    case (accepted r e)
    then have "nonce_text (snd (offline_id q))" using parseOfflineEnvelope_ok [OF accepted(5)] by (simp add: offline_id_def offline_unsigned_ok_def)
    with accepted run_used.IH run_used.prems show ?thesis by simp
  qed (use x(2) in auto)
next
  case (run_refused s0 ks t q u)
  then obtain x where x: "offline_run q t = (x, u)" "\<forall>r. x = Inr r \<longrightarrow> or_outcome r \<noteq> Verified_outcome"
    by (auto simp: offline_attempt_def split: prod.splits sum.splits)
  from x(1) show ?case by (cases rule: offline_run_cases) (use x(2) run_refused.IH run_refused.prems in auto)
qed auto

text \<open>
  C15: Over any sequence of verifications sharing one replay boundary, each with its own
  verifier, registry and clock, no pair of envelope identifier and nonce is verified twice,
  and only a pair verified before is reported as a replay.
\<close>

theorem offline_verified_once:
  assumes "one_shot_run offline_attempt offline_id (=) {} accepted s"
  shows "distinct accepted
    \<and> (\<forall>q r t. offline_run q s = (Inr r, t) \<and> or_outcome r = Verified_outcome \<longrightarrow> offline_id q \<notin> set accepted)
    \<and> (\<forall>q r t. offline_run q s = (Inr r, t) \<and> or_code r = REPLAY_DETECTED \<longrightarrow> offline_id q \<in> set accepted)"
proof (intro conjI allI impI)
  show "distinct accepted" by (rule envelope.run_distinct [OF assms])
next
  fix q r t
  assume h: "offline_run q s = (Inr r, t) \<and> or_outcome r = Verified_outcome"
  then have "offline_attempt q s = (True, t)" by (simp add: offline_attempt_def)
  then show "offline_id q \<notin> set accepted" using envelope.used_fresh envelope.run_spent [OF assms] by blast
next
  fix q r t
  assume h: "offline_run q s = (Inr r, t) \<and> or_code r = REPLAY_DETECTED"
  from h have "offline_run q s = (Inr r, t)" by simp
  then show "offline_id q \<in> set accepted"
  proof (cases rule: offline_run_cases)
    case (replayed r' e)
    then obtain p where p: "p \<in> set accepted" "token_of (offline_id q) = token_of p" "nonce_text (snd p)"
      using run_tokens [OF assms] by auto
    have "nonce_text (snd (offline_id q))"
      using parseOfflineEnvelope_ok [OF replayed(4)] replayed(4) by (simp add: offline_id_def offline_unsigned_ok_def)
    with p token_inject [of "fst (offline_id q)" "snd (offline_id q)" "fst p" "snd p"] have "offline_id q = p"
      by (simp add: prod_eq_iff)
    with p(1) show ?thesis by simp
  qed (use h in auto)
qed

section \<open>From the issuer to the verifier\<close>

lemma settle_verified:
  assumes "od_decision d = Verified_outcome" "ok_replay ports = Some replay_consume" "replay_token e \<notin> s"
  shows "settle_decision ports e d s = (offline_result_of e Verified_outcome VERIFIED (Some d), insert (replay_token e) s)"
    and "settle_decision ports e d (insert (replay_token e) s) = (offline_result_of e Rejected_outcome REPLAY_DETECTED (Some d), insert (replay_token e) s)"
proof -
  have "replay_token e \<noteq> []" by (simp add: replay_token_def)
  then show "settle_decision ports e d s = (offline_result_of e Verified_outcome VERIFIED (Some d), insert (replay_token e) s)"
    "settle_decision ports e d (insert (replay_token e) s) = (offline_result_of e Rejected_outcome REPLAY_DETECTED (Some d), insert (replay_token e) s)"
    using assms by (simp_all add: settle_decision_def replay_consume_def)
qed

lemma verify_created:
  assumes op: "offline_ok op"
    and made: "createOfflineEnvelope op input signer = Inr encoded"
    and keys: "\<forall>p sig. signer (oe_keyId input) p = Inr (JStr sig) \<longrightarrow> ok_verify ports (oe_issuerId input) (oe_keyId input) p sig = Inr True"
    and fresh: "evaluateOfflineFreshness (oe_issuedAt input) (oe_expiresAt input) now skew lifetime = Inr Fresh"
    and trusted: "ok_registry ports input now = Inr d"
  obtains e where "parseOfflineEnvelope op (Scanned encoded) = Inr e" "offline_unsigned.truncate e = input"
    "\<And>s. verifyOfflineEnvelope op ports (Scanned encoded) now skew lifetime s = (case settle_decision ports e d s of (r, t) \<Rightarrow> (Inr r, t))"
proof -
  obtain e p where e: "parseOfflineEnvelope op (Scanned encoded) = Inr e" "offline_unsigned.truncate e = input"
      "offlineEnvelopeSigningPayload op e = Inr p" "signer (oe_keyId e) p = Inr (JStr (oe_signature e))"
    by (rule created_parses [OF op made])
  have f: "oe_issuerId e = oe_issuerId input" "oe_keyId e = oe_keyId input" "oe_issuedAt e = oe_issuedAt input" "oe_expiresAt e = oe_expiresAt input"
    unfolding e(2) [symmetric] by (simp_all add: offline_unsigned.truncate_def)
  have v: "ok_verify ports (oe_issuerId e) (oe_keyId e) p (oe_signature e) = Inr True" using keys e(4) by (simp add: f)
  have "verifyOfflineEnvelope op ports (Scanned encoded) now skew lifetime s = (case settle_decision ports e d s of (r, t) \<Rightarrow> (Inr r, t))" for s
    unfolding verify_parsed [OF e(1)] e(2,3) f(3,4) fresh trusted bindE_simps v by simp
  with e(1,2) show ?thesis by (rule that)
qed

text \<open>
  C16: An envelope the issuer creates is verified by any verifier that accepts the issuer's
  signatures, within the freshness window, with a registry that trusts its issuer and status
  and an unspent replay token; presenting it again is reported as a replay.
\<close>

theorem created_envelope_verifies:
  assumes "offline_ok op"
    and "createOfflineEnvelope op input signer = Inr encoded"
    and "\<forall>p sig. signer (oe_keyId input) p = Inr (JStr sig) \<longrightarrow> ok_verify ports (oe_issuerId input) (oe_keyId input) p sig = Inr True"
    and "evaluateOfflineFreshness (oe_issuedAt input) (oe_expiresAt input) now skew lifetime = Inr Fresh"
    and "ok_registry ports input now = Inr d" "od_decision d = Verified_outcome"
    and "ok_replay ports = Some replay_consume" "oe_envelopeId input @ '':'' @ oe_nonce input \<notin> s"
  shows "\<exists>r r' t. verifyOfflineEnvelope op ports (Scanned encoded) now skew lifetime s = (Inr r, t) \<and> or_outcome r = Verified_outcome
    \<and> or_envelope r = Some (oe_envelopeId input, oe_issuerId input, oe_schemaId input)
    \<and> verifyOfflineEnvelope op ports (Scanned encoded) now skew lifetime t = (Inr r', t) \<and> or_code r' = REPLAY_DETECTED"
proof -
  obtain e where e: "offline_unsigned.truncate e = input"
      "\<And>u. verifyOfflineEnvelope op ports (Scanned encoded) now skew lifetime u = (case settle_decision ports e d u of (r, t) \<Rightarrow> (Inr r, t))"
    using verify_created [OF assms(1-5)] by metis
  have f: "oe_envelopeId e = oe_envelopeId input" "oe_issuerId e = oe_issuerId input" "oe_schemaId e = oe_schemaId input" "oe_nonce e = oe_nonce input"
    unfolding e(1) [symmetric] by (simp_all add: offline_unsigned.truncate_def)
  have n: "replay_token e \<notin> s" using assms(8) by (simp add: replay_token_def f)
  let ?r = "offline_result_of e Verified_outcome VERIFIED (Some d)" and ?r' = "offline_result_of e Rejected_outcome REPLAY_DETECTED (Some d)"
  let ?t = "insert (replay_token e) s"
  have "verifyOfflineEnvelope op ports (Scanned encoded) now skew lifetime s = (Inr ?r, ?t)"
    "verifyOfflineEnvelope op ports (Scanned encoded) now skew lifetime ?t = (Inr ?r', ?t)"
    unfolding e(2) settle_verified [OF assms(6,7) n] by simp_all
  moreover have "or_outcome ?r = Verified_outcome" "or_envelope ?r = Some (oe_envelopeId input, oe_issuerId input, oe_schemaId input)"
    "or_code ?r' = REPLAY_DETECTED"
    by (simp_all add: offline_result_of_def f)
  ultimately show ?thesis by blast
qed

section \<open>The cache never goes back\<close>

text \<open>Any sequence of \<open>prime\<close> calls, each with its own snapshot and clock.\<close>

definition cache_prime_all ::
  "offline_platform \<Rightarrow> snapshot_check \<Rightarrow> (offline_snapshot \<times> int) list \<Rightarrow> offline_snapshot option \<Rightarrow> offline_snapshot option" where
  "cache_prime_all op verifier calls s = fold (\<lambda>c s. snd (cache_prime op verifier (fst c) (snd c) s)) calls s"

definition cache_follows :: "offline_snapshot option \<Rightarrow> offline_snapshot option \<Rightarrow> bool" where
  "cache_follows s t \<longleftrightarrow> (\<forall>old. s = Some old \<longrightarrow> (\<exists>new. t = Some new \<and> (sp_sequence old < sp_sequence new
     \<or> (sp_sequence old = sp_sequence new \<and> sp_snapshotId old = sp_snapshotId new \<and> sp_signature old = sp_signature new))))"

definition cache_signed :: "snapshot_check \<Rightarrow> offline_snapshot option \<Rightarrow> bool" where
  "cache_signed verifier s \<longleftrightarrow> (\<forall>x. s = Some x \<longrightarrow> (\<exists>p. snapshotPayload x = Inr p \<and> verifier (sp_signingKeyId x) p (sp_signature x) = Inr True)
     \<and> sp_schemaVersion x = 1 \<and> 1 \<le> sp_sequence x \<and> sp_issuedAt x < sp_expiresAt x)"

lemma snapshot_parsed: "parseOfflineSnapshot op v = Inr x \<Longrightarrow> x = v \<and> sp_schemaVersion x = 1 \<and> 1 \<le> sp_sequence x \<and> sp_issuedAt x < sp_expiresAt x"
  by (auto simp: parseOfflineSnapshot_def not_le not_less split: if_splits)

lemma cache_prime_step: "cache_follows s (snd (cache_prime op verifier v now s)) \<and> (cache_signed verifier s \<longrightarrow> cache_signed verifier (snd (cache_prime op verifier v now s)))"
proof (cases "\<exists>x. cache_prime op verifier v now s = (Inr (), Some x)")
  case True
  then obtain x where x: "cache_prime op verifier v now s = (Inr (), Some x)" by blast
  then have p: "parseOfflineSnapshot op v = Inr x" "bindE (snapshotPayload x) (\<lambda>p. verifier (sp_signingKeyId x) p (sp_signature x)) = Inr True"
    and roll: "\<not> (case s of None \<Rightarrow> False | Some old \<Rightarrow> sp_sequence x < sp_sequence old
        \<or> (sp_sequence x = sp_sequence old \<and> (sp_snapshotId x \<noteq> sp_snapshotId old \<or> sp_signature x \<noteq> sp_signature old)))"
    by (auto simp: cache_prime_def split: sum.splits if_splits)
  from roll have "cache_follows s (Some x)" by (cases s) (auto simp: cache_follows_def)
  moreover have "cache_signed verifier (Some x)"
    using p(2) snapshot_parsed [OF p(1)] by (auto simp: cache_signed_def bindE_Inr)
  ultimately show ?thesis by (simp add: x)
next
  case False
  then have "snd (cache_prime op verifier v now s) = s"
    by (auto simp: cache_prime_def split: sum.splits if_splits)
  then show ?thesis by (simp add: cache_follows_def)
qed

lemma cache_follows_trans: "cache_follows s t \<Longrightarrow> cache_follows t u \<Longrightarrow> cache_follows s u"
  unfolding cache_follows_def by fastforce

text \<open>
  C25: Any sequence of prime calls leaves a snapshot with the same or a higher sequence
  number, with the same identifier and signature when the number is the same, and a cache
  filled by prime holds only snapshots whose signature was accepted.
\<close>

theorem cache_never_rolls_back:
  "cache_follows s (cache_prime_all op verifier calls s)
   \<and> (cache_signed verifier s \<longrightarrow> cache_signed verifier (cache_prime_all op verifier calls s))"
proof (induction calls arbitrary: s)
  case (Cons c calls)
  let ?t = "snd (cache_prime op verifier (fst c) (snd c) s)"
  have "cache_prime_all op verifier (c # calls) s = cache_prime_all op verifier calls ?t" by (simp add: cache_prime_all_def)
  then show ?case using Cons.IH [of ?t] cache_prime_step [of s op verifier "fst c" "snd c"] cache_follows_trans by metis
qed (simp add: cache_prime_all_def cache_follows_def)


section \<open>Codes\<close>

text \<open>A missing snapshot is reported as an invalid one.\<close>

lemma missing_snapshot_code: "indeterminate_code (od_code (cache_evaluate None u now)) = CACHE_INVALID"
  by (simp add: cache_evaluate_def bare_decision_def indeterminate_code_def has_prefix_def)

lemma outcome_codes: "indeterminate_code c \<in> {CACHE_STALE, STATUS_UNKNOWN, TRUST_UNKNOWN, CACHE_INVALID}"
  "rejected_code c \<in> {STATUS_REJECTED, TRUST_REJECTED}"
  by (simp_all add: indeterminate_code_def rejected_code_def)

section \<open>Concrete runs\<close>

definition ex_trust :: offline_snapshot where
  "ex_trust = \<lparr>sp_schemaVersion = 1, sp_snapshotId = ''n1'', sp_tenantId = ''t1'', sp_jurisdiction = ''EU'', sp_sequence = 4,
     sp_issuedAt = 50, sp_expiresAt = 300, sp_signingKeyId = ''root'',
     sp_issuers = [\<lparr>oi_issuerId = ''i1'', oi_status = ''active'', oi_schemas = [\<lparr>os_schemaId = ''s1'', os_status = ''active''\<rparr>],
        oi_keys = [\<lparr>ky_keyId = ''k1'', ky_status = ''retired'', ky_authorizedFrom = 0, ky_authorizedUntil = Some 150\<rparr>]\<rparr>],
     sp_statuses = [\<lparr>st_issuerId = ''i1'', st_statusId = ''st1'', st_status = ''valid''\<rparr>], sp_signature = ''good''\<rparr>"

definition ex_trust_check :: snapshot_check where
  "ex_trust_check key payload sig = Inr (sig = ''good'')"

definition ex_request :: "string \<Rightarrow> offline_request" where
  "ex_request encoded = \<lparr>rq_platform = ex_offline, rq_verify = (\<lambda>_ _ _ sig. Inr (sig = ''sig'')),
     rq_registry = (\<lambda>u n. Inr (cache_evaluate (Some ex_trust) u n)), rq_input = Scanned encoded, rq_now = 120, rq_skew = Some 5, rq_lifetime = None\<rparr>"

definition ex_ports :: "string set offline_ports" where
  "ex_ports = \<lparr>ok_verify = (\<lambda>_ _ _ sig. Inr (sig = ''sig'')), ok_registry = (\<lambda>u n. Inr (cache_evaluate (Some ex_trust) u n)),
     ok_replay = Some replay_consume\<rparr>"

lemma ex_request_run: "offline_run (ex_request encoded) = verifyOfflineEnvelope ex_offline ex_ports (Scanned encoded) 120 (Some 5) None"
  by (rule ext) (simp add: offline_run_def ex_request_def ex_ports_def)

lemma ex_facts:
  "\<forall>p sig. ex_offline_signer (oe_keyId ex_offline_envelope) p = Inr (JStr sig)
    \<longrightarrow> ok_verify ex_ports (oe_issuerId ex_offline_envelope) (oe_keyId ex_offline_envelope) p sig = Inr True"
  "evaluateOfflineFreshness (oe_issuedAt ex_offline_envelope) (oe_expiresAt ex_offline_envelope) 120 (Some 5) None = Inr Fresh"
  "ok_registry ex_ports ex_offline_envelope 120 = Inr (cache_decision Verified_outcome ''CREDENTIAL_VERIFIED'' ex_trust)"
  "od_decision (cache_decision Verified_outcome ''CREDENTIAL_VERIFIED'' ex_trust) = Verified_outcome" "ok_replay ex_ports = Some replay_consume"
  by (simp_all add: ex_offline_signer_def ex_offline_envelope_def ex_ports_def ex_trust_def cache_evaluate_def evaluate_issuer_def
    evaluate_status_def fresh_iff safe_integer_def)

theorem created_envelope_verifies_witness:
  "\<exists>encoded r r' t. createOfflineEnvelope ex_offline ex_offline_envelope ex_offline_signer = Inr encoded
     \<and> verifyOfflineEnvelope ex_offline ex_ports (Scanned encoded) 120 (Some 5) None {} = (Inr r, t) \<and> or_outcome r = Verified_outcome
     \<and> verifyOfflineEnvelope ex_offline ex_ports (Scanned encoded) 120 (Some 5) None t = (Inr r', t) \<and> or_code r' = REPLAY_DETECTED"
proof -
  obtain encoded where made: "createOfflineEnvelope ex_offline ex_offline_envelope ex_offline_signer = Inr encoded"
    using ex_offline_created by blast
  then show ?thesis using created_envelope_verifies [OF ex_offline_ok made ex_facts] by blast
qed

lemma ex_accepted:
  obtains encoded e r where "parseOfflineEnvelope ex_offline (Scanned encoded) = Inr e" "offline_unsigned.truncate e = ex_offline_envelope"
    "verifyOfflineEnvelope ex_offline ex_ports (Scanned encoded) 120 (Some 5) None {} = (Inr r, {replay_token e})" "or_outcome r = Verified_outcome"
proof -
  obtain encoded where made: "createOfflineEnvelope ex_offline ex_offline_envelope ex_offline_signer = Inr encoded"
    using ex_offline_created by blast
  obtain e where e: "parseOfflineEnvelope ex_offline (Scanned encoded) = Inr e" "offline_unsigned.truncate e = ex_offline_envelope"
    "\<And>s. verifyOfflineEnvelope ex_offline ex_ports (Scanned encoded) 120 (Some 5) None s
      = (case settle_decision ex_ports e (cache_decision Verified_outcome ''CREDENTIAL_VERIFIED'' ex_trust) s of (r, t) \<Rightarrow> (Inr r, t))"
    by (rule verify_created [OF ex_offline_ok made ex_facts(1-3)]) blast
  let ?r = "offline_result_of e Verified_outcome VERIFIED (Some (cache_decision Verified_outcome ''CREDENTIAL_VERIFIED'' ex_trust))"
  have "verifyOfflineEnvelope ex_offline ex_ports (Scanned encoded) 120 (Some 5) None {} = (Inr ?r, {replay_token e})" "or_outcome ?r = Verified_outcome"
    by (simp_all add: e(3) settle_verified(1) [OF ex_facts(4,5)] offline_result_of_def)
  with e(1,2) show ?thesis by (rule that)
qed

theorem offline_verified_sound_witness:
  "\<exists>encoded e x. parseOfflineEnvelope ex_offline (Scanned encoded) = Inr e \<and> Some ex_trust = Some x
     \<and> lists_issuer x (offline_unsigned.truncate e) \<and> lists_status x (offline_unsigned.truncate e)"
proof -
  obtain encoded e r where h: "verifyOfflineEnvelope ex_offline ex_ports (Scanned encoded) 120 (Some 5) None {} = (Inr r, {replay_token e})"
      "or_outcome r = Verified_outcome" by (rule ex_accepted)
  have "ok_registry ex_ports = (\<lambda>u n. Inr (cache_evaluate (Some ex_trust) u n))" by (simp add: ex_ports_def)
  from offline_verified_sound [OF h this] show ?thesis by blast
qed

theorem offline_verified_once_witness:
  "\<exists>encoded s. one_shot_run offline_attempt offline_id (=) {} [offline_id (ex_request encoded)] s
     \<and> (\<forall>r t. offline_run (ex_request encoded) s = (Inr r, t) \<longrightarrow> or_outcome r \<noteq> Verified_outcome)"
proof -
  obtain encoded e r where h: "verifyOfflineEnvelope ex_offline ex_ports (Scanned encoded) 120 (Some 5) None {} = (Inr r, {replay_token e})"
      "or_outcome r = Verified_outcome" by (rule ex_accepted)
  then have "offline_attempt (ex_request encoded) {} = (True, {replay_token e})" by (simp add: offline_attempt_def ex_request_run)
  then have "one_shot_run offline_attempt offline_id (=) {} [offline_id (ex_request encoded)] {replay_token e}"
    by (intro run_used [OF run_start])
  then show ?thesis using offline_verified_once by fastforce
qed

definition ex_first :: offline_snapshot where
  "ex_first = ex_trust\<lparr>sp_issuers := [], sp_statuses := []\<rparr>"

definition ex_older :: offline_snapshot where
  "ex_older = ex_first\<lparr>sp_sequence := 3\<rparr>"

lemma ex_shown: "show_int 1 = ''1''" "show_int 3 = ''3''" "show_int 4 = ''4''" "show_int 50 = ''50''" "show_int 300 = ''300''"
  by code_simp+

lemma ex_parsed: "parseOfflineSnapshot ex_offline ex_first = Inr ex_first" "parseOfflineSnapshot ex_offline ex_older = Inr ex_older"
  by (simp_all add: parseOfflineSnapshot_def ex_offline_def byte_length_def snapshotUnsigned_def ex_older_def ex_first_def ex_trust_def ex_shown
    json_string_def json_char_def map_filter_simps safe_integer_def)

lemma ex_payload: "\<exists>p. snapshotPayload ex_first = Inr p" "\<exists>p. snapshotPayload ex_older = Inr p"
proof -
  have "case snapshotPayload ex_first of Inl _ \<Rightarrow> False | Inr _ \<Rightarrow> True" "case snapshotPayload ex_older of Inl _ \<Rightarrow> False | Inr _ \<Rightarrow> True" by code_simp+
  then show "\<exists>p. snapshotPayload ex_first = Inr p" "\<exists>p. snapshotPayload ex_older = Inr p" by (auto split: sum.splits)
qed

lemma ex_primed:
  "cache_prime ex_offline ex_trust_check ex_first 100 None = (Inr (), Some ex_first)"
  "cache_prime ex_offline ex_trust_check ex_older 100 (Some ex_first) = (Inl (Offline_error CACHE_ROLLBACK), Some ex_first)"
  using ex_payload by (auto simp: cache_prime_def ex_parsed ex_trust_check_def) (auto simp: ex_trust_def ex_first_def ex_older_def)

theorem cache_never_rolls_back_witness:
  "cache_prime_all ex_offline ex_trust_check [(ex_first, 100), (ex_older, 100)] None = Some ex_first
   \<and> cache_signed ex_trust_check (cache_prime_all ex_offline ex_trust_check [(ex_first, 100), (ex_older, 100)] None)"
proof
  show "cache_prime_all ex_offline ex_trust_check [(ex_first, 100), (ex_older, 100)] None = Some ex_first"
    by (simp add: cache_prime_all_def ex_primed)
  show "cache_signed ex_trust_check (cache_prime_all ex_offline ex_trust_check [(ex_first, 100), (ex_older, 100)] None)"
    using cache_never_rolls_back [of None ex_offline ex_trust_check] by (simp add: cache_signed_def)
qed

end
