(* ===== verification/CredentialFormats.thy ===== *)
theory CredentialFormats
  imports JsValue
begin

text \<open>
  Pinned credential formats (\<open>credential-formats/src/index.ts\<close>): the descriptors,
  the checks of selections, artifacts and inspections, the adapter over a port with its four
  operations, the SD-JWT VC port over the functions of \<open>sd-jwt-adapter\<close>, and the
  registry of adapters. What a port computes is an argument.
\<close>

section \<open>Formats, artifacts and errors\<close>

datatype format_code =
    FORMAT_MISMATCH | UNSUPPORTED_PROFILE | FORMAT_UNSUPPORTED_VERSION | UNSUPPORTED_MEDIA_TYPE | UNSUPPORTED_ALGORITHM
  | ALGORITHM_MISMATCH | OPERATION_UNSUPPORTED | VERIFICATION_FAILED

text \<open>\<open>CredentialFormatError\<close>, and what a port throws.\<close>

datatype format_exn = Format_error format_code | Port_error

record pinned_format =
  pf_format :: string
  pf_profile :: string
  pf_version :: string
  pf_mediaType :: string
  pf_algorithms :: "string list"
  pf_canIssue :: bool
  pf_canPresent :: bool

definition format_names :: "string list" where
  "format_names = [''sd-jwt-vc'', ''iso-mdoc'', ''w3c-vc-di'', ''jwt-vc-legacy'']"

definition format_descriptor :: "string \<Rightarrow> pinned_format option" where
  "format_descriptor f =
     (if f = ''sd-jwt-vc'' then Some \<lparr>pf_format = f, pf_profile = ''draft-ietf-oauth-sd-jwt-vc-16'', pf_version = ''16'',
        pf_mediaType = ''dc+sd-jwt'', pf_algorithms = [''ES256'', ''EdDSA''], pf_canIssue = True, pf_canPresent = True\<rparr>
      else if f = ''iso-mdoc'' then Some \<lparr>pf_format = f, pf_profile = ''iso-iec-18013-5'', pf_version = ''2021'',
        pf_mediaType = ''application/mdl'', pf_algorithms = [''ES256''], pf_canIssue = True, pf_canPresent = True\<rparr>
      else if f = ''w3c-vc-di'' then Some \<lparr>pf_format = f, pf_profile = ''w3c-vc-data-model-2.0-data-integrity-1.0'', pf_version = ''2.0'',
        pf_mediaType = ''application/vc+ld+json'', pf_algorithms = [''ecdsa-rdfc-2019'', ''eddsa-rdfc-2022''],
        pf_canIssue = True, pf_canPresent = True\<rparr>
      else if f = ''jwt-vc-legacy'' then Some \<lparr>pf_format = f, pf_profile = ''w3c-vc-data-model-1.1-jwt'', pf_version = ''1.1'',
        pf_mediaType = ''application/vc+jwt'', pf_algorithms = [''ES256'', ''EdDSA''], pf_canIssue = False, pf_canPresent = False\<rparr>
      else None)"

datatype artifact_kind = Credential_kind | Presentation_artifact

text \<open>A text, or bytes.\<close>

datatype artifact_value = Text_value string | Bytes_value string

record format_artifact =
  fa_format :: string
  fa_profile :: string
  fa_version :: string
  fa_mediaType :: string
  fa_kind :: artifact_kind
  fa_value :: artifact_value

record format_inspection =
  fi_format :: string
  fi_profile :: string
  fi_version :: string
  fi_mediaType :: string
  fi_kind :: artifact_kind
  fi_algorithm :: string
  fi_issuer :: "string option"
  fi_subject :: "string option"
  fi_types :: "string list"
  fi_keyId :: "string option"
  fi_holderBound :: bool

record format_selection =
  fs_format :: string
  fs_profile :: string
  fs_version :: string

type_synonym claims = "(string \<times> jsval) list"

record port_verification =
  pv_verified :: bool
  pv_algorithm :: string
  pv_issuer :: "string option"
  pv_subject :: "string option"
  pv_types :: "string list option"
  pv_claims :: "claims option"
  pv_disclosed :: "claims option"
  pv_holderBound :: "bool option"

record ('i, 'p, 'v) format_port =
  po_issue :: "('i \<Rightarrow> format_exn + artifact_value) option"
  po_present :: "(artifact_value \<Rightarrow> 'p \<Rightarrow> format_exn + artifact_value) option"
  po_inspect :: "artifact_value \<Rightarrow> format_exn + format_inspection"
  po_verify :: "artifact_value \<Rightarrow> 'v \<Rightarrow> format_exn + port_verification"

text \<open>The outcome: verified, or rejected with a code and nothing else.\<close>

record format_result =
  fr_verified :: bool
  fr_format :: string
  fr_profile :: string
  fr_version :: string
  fr_reason :: "format_code option"
  fr_algorithm :: "string option"
  fr_issuer :: "string option"
  fr_subject :: "string option"
  fr_types :: "string list"
  fr_claims :: claims
  fr_disclosed :: claims
  fr_holderBound :: bool

record ('i, 'p, 'v) format_adapter =
  ad_descriptor :: pinned_format
  ad_issue :: "format_selection \<Rightarrow> 'i \<Rightarrow> format_exn + format_artifact"
  ad_present :: "format_selection \<Rightarrow> format_artifact \<Rightarrow> 'p \<Rightarrow> format_exn + format_artifact"
  ad_inspect :: "format_selection \<Rightarrow> format_artifact \<Rightarrow> format_exn + format_inspection"
  ad_verify :: "format_selection \<Rightarrow> format_artifact \<Rightarrow> 'v \<Rightarrow> format_exn + format_result"

section \<open>Checks\<close>

text \<open>The UTF-8 encoder measures a text.\<close>

definition value_bytes :: "(string \<Rightarrow> string) \<Rightarrow> artifact_value \<Rightarrow> nat" where
  "value_bytes utf8 v = (case v of Text_value s \<Rightarrow> length (utf8 s) | Bytes_value b \<Rightarrow> length b)"

definition assertValue :: "(string \<Rightarrow> string) \<Rightarrow> artifact_value \<Rightarrow> format_exn + unit" where
  "assertValue utf8 v = (if value_bytes utf8 v = 0 \<or> 262144 < value_bytes utf8 v then Inl (Format_error VERIFICATION_FAILED) else Inr ())"

definition assertSelection :: "pinned_format \<Rightarrow> format_selection \<Rightarrow> format_exn + unit" where
  "assertSelection d q =
     (if fs_format q \<noteq> pf_format d then Inl (Format_error FORMAT_MISMATCH)
      else if fs_profile q \<noteq> pf_profile d then Inl (Format_error UNSUPPORTED_PROFILE)
      else if fs_version q \<noteq> pf_version d then Inl (Format_error FORMAT_UNSUPPORTED_VERSION)
      else Inr ())"

definition assertEnvelope :: "(string \<Rightarrow> string) \<Rightarrow> pinned_format \<Rightarrow> format_artifact \<Rightarrow> format_exn + unit" where
  "assertEnvelope utf8 d a = bindE (assertValue utf8 (fa_value a)) (\<lambda>_.
     if fa_format a \<noteq> pf_format d then Inl (Format_error FORMAT_MISMATCH)
     else if fa_profile a \<noteq> pf_profile d then Inl (Format_error UNSUPPORTED_PROFILE)
     else if fa_version a \<noteq> pf_version d then Inl (Format_error FORMAT_UNSUPPORTED_VERSION)
     else if fa_mediaType a \<noteq> pf_mediaType d then Inl (Format_error UNSUPPORTED_MEDIA_TYPE)
     else Inr ())"

definition assertFormatInspection :: "pinned_format \<Rightarrow> format_inspection \<Rightarrow> format_exn + unit" where
  "assertFormatInspection d i =
     (if fi_format i \<noteq> pf_format d then Inl (Format_error FORMAT_MISMATCH)
      else if fi_profile i \<noteq> pf_profile d then Inl (Format_error UNSUPPORTED_PROFILE)
      else if fi_version i \<noteq> pf_version d then Inl (Format_error FORMAT_UNSUPPORTED_VERSION)
      else if fi_mediaType i \<noteq> pf_mediaType d then Inl (Format_error UNSUPPORTED_MEDIA_TYPE)
      else if fi_algorithm i \<notin> set (pf_algorithms d) then Inl (Format_error UNSUPPORTED_ALGORITHM)
      else Inr ())"

section \<open>The adapter over a port\<close>

definition make_artifact :: "(string \<Rightarrow> string) \<Rightarrow> pinned_format \<Rightarrow> artifact_kind \<Rightarrow> artifact_value \<Rightarrow> format_exn + format_artifact" where
  "make_artifact utf8 d k v = bindE (assertValue utf8 v) (\<lambda>_. Inr \<lparr>fa_format = pf_format d, fa_profile = pf_profile d, fa_version = pf_version d,
     fa_mediaType = pf_mediaType d, fa_kind = k, fa_value = v\<rparr>)"

definition port_inspect ::
  "(string \<Rightarrow> string) \<Rightarrow> pinned_format \<Rightarrow> ('i, 'p, 'v) format_port \<Rightarrow> format_selection \<Rightarrow> format_artifact \<Rightarrow> format_exn + format_inspection" where
  "port_inspect utf8 d po q a = bindE (assertSelection d q) (\<lambda>_. bindE (assertEnvelope utf8 d a) (\<lambda>_.
     bindE (po_inspect po (fa_value a)) (\<lambda>i. bindE (assertFormatInspection d i) (\<lambda>_.
     if fi_kind i \<noteq> fa_kind a then Inl (Format_error FORMAT_MISMATCH) else Inr i))))"

definition port_issue ::
  "(string \<Rightarrow> string) \<Rightarrow> pinned_format \<Rightarrow> ('i, 'p, 'v) format_port \<Rightarrow> format_selection \<Rightarrow> 'i \<Rightarrow> format_exn + format_artifact" where
  "port_issue utf8 d po q x = bindE (assertSelection d q) (\<lambda>_.
     case (pf_canIssue d, po_issue po) of
       (True, Some issue) \<Rightarrow> bindE (issue x) (\<lambda>v. bindE (make_artifact utf8 d Credential_kind v) (\<lambda>a.
         bindE (port_inspect utf8 d po q a) (\<lambda>i.
         if fi_kind i \<noteq> Credential_kind then Inl (Format_error FORMAT_MISMATCH) else Inr a)))
     | _ \<Rightarrow> Inl (Format_error OPERATION_UNSUPPORTED))"

definition port_present ::
  "(string \<Rightarrow> string) \<Rightarrow> pinned_format \<Rightarrow> ('i, 'p, 'v) format_port \<Rightarrow> format_selection \<Rightarrow> format_artifact \<Rightarrow> 'p \<Rightarrow> format_exn + format_artifact" where
  "port_present utf8 d po q c x = bindE (assertSelection d q) (\<lambda>_. bindE (assertEnvelope utf8 d c) (\<lambda>_.
     case (pf_canPresent d, po_present po) of
       (True, Some present) \<Rightarrow> bindE (present (fa_value c) x) (\<lambda>v. bindE (make_artifact utf8 d Presentation_artifact v) (\<lambda>a.
         bindE (port_inspect utf8 d po q a) (\<lambda>i.
         if fi_kind i \<noteq> Presentation_artifact then Inl (Format_error FORMAT_MISMATCH) else Inr a)))
     | _ \<Rightarrow> Inl (Format_error OPERATION_UNSUPPORTED)))"

text \<open>\<open>a ?? b\<close>, and the spread of an optional field whose empty text is dropped.\<close>

definition or_else :: "'a option \<Rightarrow> 'a option \<Rightarrow> 'a option" where
  "or_else a b = (case a of None \<Rightarrow> b | Some x \<Rightarrow> Some x)"

definition nonempty_text :: "string option \<Rightarrow> string option" where
  "nonempty_text x = (if x = Some '''' then None else x)"

definition verified_result :: "pinned_format \<Rightarrow> format_inspection \<Rightarrow> port_verification \<Rightarrow> format_result" where
  "verified_result d i v = \<lparr>fr_verified = True, fr_format = pf_format d, fr_profile = pf_profile d, fr_version = pf_version d, fr_reason = None,
     fr_algorithm = Some (pv_algorithm v), fr_issuer = nonempty_text (or_else (pv_issuer v) (fi_issuer i)),
     fr_subject = nonempty_text (or_else (pv_subject v) (fi_subject i)),
     fr_types = (case pv_types v of None \<Rightarrow> fi_types i | Some ts \<Rightarrow> ts),
     fr_claims = (case pv_claims v of None \<Rightarrow> [] | Some cs \<Rightarrow> cs),
     fr_disclosed = (case or_else (pv_disclosed v) (pv_claims v) of None \<Rightarrow> [] | Some cs \<Rightarrow> cs),
     fr_holderBound = (case pv_holderBound v of None \<Rightarrow> fi_holderBound i | Some b \<Rightarrow> b)\<rparr>"

definition rejected_result :: "pinned_format \<Rightarrow> format_code \<Rightarrow> format_result" where
  "rejected_result d c = \<lparr>fr_verified = False, fr_format = pf_format d, fr_profile = pf_profile d, fr_version = pf_version d, fr_reason = Some c,
     fr_algorithm = None, fr_issuer = None, fr_subject = None, fr_types = [], fr_claims = [], fr_disclosed = [], fr_holderBound = False\<rparr>"

definition port_check ::
  "(string \<Rightarrow> string) \<Rightarrow> pinned_format \<Rightarrow> ('i, 'p, 'v) format_port \<Rightarrow> format_selection \<Rightarrow> format_artifact \<Rightarrow> 'v \<Rightarrow> format_exn + format_result" where
  "port_check utf8 d po q a x = bindE (assertSelection d q) (\<lambda>_. bindE (assertEnvelope utf8 d a) (\<lambda>_.
     bindE (port_inspect utf8 d po q a) (\<lambda>i. bindE (po_verify po (fa_value a) x) (\<lambda>v.
     if \<not> pv_verified v then Inl (Format_error VERIFICATION_FAILED)
     else if pv_algorithm v \<noteq> fi_algorithm i then Inl (Format_error ALGORITHM_MISMATCH)
     else if pv_algorithm v \<notin> set (pf_algorithms d) then Inl (Format_error UNSUPPORTED_ALGORITHM)
     else Inr (verified_result d i v)))))"

definition port_verify ::
  "(string \<Rightarrow> string) \<Rightarrow> pinned_format \<Rightarrow> ('i, 'p, 'v) format_port \<Rightarrow> format_selection \<Rightarrow> format_artifact \<Rightarrow> 'v \<Rightarrow> format_result" where
  "port_verify utf8 d po q a x = (case port_check utf8 d po q a x of
       Inr r \<Rightarrow> r
     | Inl (Format_error c) \<Rightarrow> rejected_result d c
     | Inl Port_error \<Rightarrow> rejected_result d VERIFICATION_FAILED)"

definition port_adapter :: "(string \<Rightarrow> string) \<Rightarrow> pinned_format \<Rightarrow> ('i, 'p, 'v) format_port \<Rightarrow> ('i, 'p, 'v) format_adapter" where
  "port_adapter utf8 d po = \<lparr>ad_descriptor = d, ad_issue = port_issue utf8 d po, ad_present = port_present utf8 d po,
     ad_inspect = port_inspect utf8 d po, ad_verify = (\<lambda>q a x. Inr (port_verify utf8 d po q a x))\<rparr>"

text \<open>The SD-JWT VC port over the library's four functions; a text is required everywhere.\<close>

record sd_inspection =
  sd_profile :: string
  sd_mediaType :: string
  sd_kind :: artifact_kind
  sd_algorithm :: string
  sd_issuer :: string
  sd_credentialType :: string
  sd_keyId :: string
  sd_hasKeyBinding :: bool

record sd_verification =
  sv_issuer :: string
  sv_vct :: string
  sv_claims :: claims
  sv_disclosed :: claims
  sv_holderBound :: bool

record ('i, 'p, 'v) sd_library =
  sl_issue :: "'i \<Rightarrow> format_exn + string"
  sl_present :: "'p \<Rightarrow> string \<Rightarrow> format_exn + string"
  sl_inspect :: "string \<Rightarrow> format_exn + sd_inspection"
  sl_verify :: "'v \<Rightarrow> string \<Rightarrow> format_exn + sd_verification"

definition text_only :: "artifact_value \<Rightarrow> format_exn + string" where
  "text_only v = (case v of Text_value s \<Rightarrow> Inr s | Bytes_value _ \<Rightarrow> Inl (Format_error FORMAT_MISMATCH))"

definition sd_port :: "pinned_format \<Rightarrow> ('i, 'p, 'v) sd_library \<Rightarrow> ('i, 'p, 'v) format_port" where
  "sd_port d lib = \<lparr>
     po_issue = Some (\<lambda>x. bindE (sl_issue lib x) (\<lambda>t. Inr (Text_value t))),
     po_present = Some (\<lambda>v x. bindE (text_only v) (\<lambda>s. bindE (sl_present lib x s) (\<lambda>t. Inr (Text_value t)))),
     po_inspect = (\<lambda>v. bindE (text_only v) (\<lambda>s. bindE (sl_inspect lib s) (\<lambda>i. Inr \<lparr>fi_format = pf_format d, fi_profile = sd_profile i,
       fi_version = pf_version d, fi_mediaType = sd_mediaType i, fi_kind = sd_kind i, fi_algorithm = sd_algorithm i,
       fi_issuer = nonempty_text (Some (sd_issuer i)), fi_subject = None, fi_types = [sd_credentialType i],
       fi_keyId = nonempty_text (Some (sd_keyId i)), fi_holderBound = sd_hasKeyBinding i\<rparr>))),
     po_verify = (\<lambda>v x. bindE (text_only v) (\<lambda>s. bindE (sl_inspect lib s) (\<lambda>i. bindE (sl_verify lib x s) (\<lambda>r. Inr \<lparr>pv_verified = True,
       pv_algorithm = sd_algorithm i, pv_issuer = Some (sv_issuer r), pv_subject = None, pv_types = Some [sv_vct r], pv_claims = Some (sv_claims r),
       pv_disclosed = Some (sv_disclosed r), pv_holderBound = Some (sv_holderBound r)\<rparr>))))\<rparr>"

definition createSdJwtVcCredentialFormatAdapter :: "(string \<Rightarrow> string) \<Rightarrow> ('i, 'p, 'v) sd_library \<Rightarrow> ('i, 'p, 'v) format_adapter" where
  "createSdJwtVcCredentialFormatAdapter utf8 lib = (let d = the (format_descriptor ''sd-jwt-vc'') in port_adapter utf8 d (sd_port d lib))"

section \<open>The registry\<close>

definition pipe_join :: "string list \<Rightarrow> string" where
  "pipe_join xs = concat (case xs of [] \<Rightarrow> [] | x # r \<Rightarrow> x # map (\<lambda>y. CHR ''|'' # y) r)"

type_synonym ('i, 'p, 'v) adapter_map = "string \<Rightarrow> ('i, 'p, 'v) format_adapter option"

definition matches_pin :: "pinned_format \<Rightarrow> pinned_format \<Rightarrow> bool" where
  "matches_pin d p \<longleftrightarrow> pf_profile d = pf_profile p \<and> pf_version d = pf_version p \<and> pf_mediaType d = pf_mediaType p
     \<and> pipe_join (pf_algorithms d) = pipe_join (pf_algorithms p) \<and> pf_canIssue d = pf_canIssue p \<and> pf_canPresent d = pf_canPresent p"

definition register_adapter :: "('i, 'p, 'v) format_adapter \<Rightarrow> ('i, 'p, 'v) adapter_map \<Rightarrow> format_exn + ('i, 'p, 'v) adapter_map" where
  "register_adapter a m = (case format_descriptor (pf_format (ad_descriptor a)) of
       None \<Rightarrow> Inl Port_error
     | Some p \<Rightarrow> if \<not> matches_pin (ad_descriptor a) p then Inl (Format_error FORMAT_UNSUPPORTED_VERSION)
         else if m (pf_format (ad_descriptor a)) \<noteq> None then Inl (Format_error FORMAT_MISMATCH)
         else Inr (m(pf_format (ad_descriptor a) := Some a)))"

fun register_all :: "('i, 'p, 'v) format_adapter list \<Rightarrow> ('i, 'p, 'v) adapter_map \<Rightarrow> format_exn + ('i, 'p, 'v) adapter_map" where
  "register_all [] m = Inr m"
| "register_all (a # as) m = bindE (register_adapter a m) (register_all as)"

text \<open>The map's keys are the formats of the registered adapters, one each, so its size is their number.\<close>

definition new_adapter_registry :: "('i, 'p, 'v) format_adapter list \<Rightarrow> format_exn + ('i, 'p, 'v) adapter_map" where
  "new_adapter_registry as = bindE (register_all as Map.empty) (\<lambda>m.
     if length as \<noteq> length format_names then Inl (Format_error FORMAT_MISMATCH) else Inr m)"

definition registry_get :: "('i, 'p, 'v) adapter_map \<Rightarrow> format_selection \<Rightarrow> format_exn + ('i, 'p, 'v) format_adapter" where
  "registry_get m q = (case m (fs_format q) of None \<Rightarrow> Inl (Format_error FORMAT_MISMATCH)
     | Some a \<Rightarrow> bindE (assertSelection (ad_descriptor a) q) (\<lambda>_. Inr a))"

definition registry_inspect :: "('i, 'p, 'v) adapter_map \<Rightarrow> format_selection \<Rightarrow> format_artifact \<Rightarrow> format_exn + format_inspection" where
  "registry_inspect m q a = bindE (registry_get m q) (\<lambda>ad. ad_inspect ad q a)"

definition registry_verify :: "('i, 'p, 'v) adapter_map \<Rightarrow> format_selection \<Rightarrow> format_artifact \<Rightarrow> 'v \<Rightarrow> format_exn + format_result" where
  "registry_verify m q a x = bindE (registry_get m q) (\<lambda>ad. ad_verify ad q a x)"

end
