(* ===== verification/OpenId4Vc.thy ===== *)
theory OpenId4Vc
  imports OfflineScanner
begin

text \<open>
  OpenID4VP requests and responses and the OpenID4VCI pre-authorized-code client
  (\<open>openid4vc/src/index.ts\<close>): parsing and building of presentation requests, the
  direct-post response, issuer metadata, offers, the three calls of an issuance, and the
  deterministic issuer. The URL parser, the JSON parser, the trust hooks, the transport and
  the vault are arguments.
\<close>

section \<open>The platform\<close>

text \<open>
  What the code reads of a \<open>URL\<close>, and the platform: the URL parser, the parser of form
  parameters, \<open>JSON.parse\<close>, \<open>String\<close> of a value that is no text, \<open>encodeURIComponent\<close> and the
  JSON text of a fraction.
\<close>

record oid_url =
  ou_protocol :: string
  ou_hostname :: string
  ou_origin :: string
  ou_params :: "(string \<times> string) list"
  ou_text :: string

record oid_platform =
  oid_url :: "string \<Rightarrow> oid_url option"
  oid_params :: "string \<Rightarrow> (string \<times> string) list"
  oid_json :: "string \<Rightarrow> jsval option"
  oid_string :: "jsval \<Rightarrow> string"
  oid_encode :: "string \<Rightarrow> string"
  oid_fraction :: string

definition js_string :: "oid_platform \<Rightarrow> jsval \<Rightarrow> string" where
  "js_string pf v = (case v of JStr s \<Rightarrow> s | _ \<Rightarrow> oid_string pf v)"

text \<open>The properties of an object; an array has none that the code asks for.  \<open>None\<close> is no object.\<close>

definition object_entries :: "jsval \<Rightarrow> (string \<times> jsval) list option" where
  "object_entries v = (case v of JObj es \<Rightarrow> Some es | JArr _ \<Rightarrow> Some [] | _ \<Rightarrow> None)"

type_synonym claims_map = "(string \<times> jsval) list"

section \<open>Presentation requests\<close>

text \<open>\<open>OpenId4VpError\<close> with its code, and every other error.\<close>

datatype vp_exn = Vp_error string | Vp_foreign

record vp_request =
  vp_client_id :: string
  vp_response_uri :: string
  vp_nonce :: string
  vp_state :: string
  vp_dcql_query :: jsval
  vp_transaction_data :: "string list option"
  vp_request_uri :: "string option"

text \<open>The trust hooks; the verifier of a signed request returns the claims as an object.\<close>

record vp_hooks =
  vh_verifySignedRequest :: "(string \<Rightarrow> vp_exn + (string \<times> jsval) list) option"
  vh_fetchRequestUri :: "(string \<Rightarrow> vp_exn + string) option"
  vh_resolveVerifier :: "(string \<Rightarrow> vp_exn + bool) option"
  vh_validateTransactionData :: "(string \<Rightarrow> vp_exn + bool) option"

definition all_values :: "(string \<times> string) list \<Rightarrow> string \<Rightarrow> string list" where
  "all_values ps k = map snd (filter (\<lambda>p. fst p = k) ps)"

definition unique_param :: "(string \<times> string) list \<Rightarrow> string \<Rightarrow> vp_exn + string option" where
  "unique_param ps k = (case all_values ps k of [] \<Rightarrow> Inr None | v # vs \<Rightarrow> if vs \<noteq> [] then Inl (Vp_error ''duplicate_parameter'') else Inr (Some v))"

definition required_param :: "(string \<times> string) list \<Rightarrow> string \<Rightarrow> vp_exn + string" where
  "required_param ps k = bindE (unique_param ps k) (\<lambda>v. case v of
       None \<Rightarrow> Inl (Vp_error ''invalid_request'')
     | Some s \<Rightarrow> if s = '''' \<or> 8192 < length s then Inl (Vp_error ''invalid_request'') else Inr s)"

definition https_origin :: "oid_platform \<Rightarrow> string \<Rightarrow> vp_exn + oid_url" where
  "https_origin pf s = (case oid_url pf s of None \<Rightarrow> Inl (Vp_error ''invalid_request'')
     | Some u \<Rightarrow> if ou_protocol u \<noteq> ''https:'' then Inl (Vp_error ''insecure_origin'') else Inr u)"

text \<open>\<open>Object.fromEntries\<close>: the last value of a name stays, in the place of the first.\<close>

definition from_entries :: "(string \<times> string) list \<Rightarrow> (string \<times> jsval) list" where
  "from_entries ps = fold (\<lambda>p es. omap_set (fst p) (JStr (snd p)) es) ps []"

definition vp_names :: "string list" where
  "vp_names = [''response_type'', ''response_mode'', ''client_id'', ''response_uri'', ''nonce'', ''state'', ''dcql_query'', ''transaction_data'']"

text \<open>The claims of a request given by its parameters alone.\<close>

definition plain_claims :: "oid_platform \<Rightarrow> (string \<times> string) list \<Rightarrow> vp_exn + (string \<times> jsval) list" where
  "plain_claims pf ps = bindE (forE (\<lambda>k. bindE (unique_param ps k) (\<lambda>_. Inr ())) vp_names) (\<lambda>_.
     bindE (unique_param ps ''dcql_query'') (\<lambda>q.
     bindE (case q of None \<Rightarrow> Inr (from_entries ps)
       | Some t \<Rightarrow> if t = '''' then Inr (from_entries ps) else (case oid_json pf t of None \<Rightarrow> Inl (Vp_error ''invalid_dcql'')
           | Some v \<Rightarrow> Inr (omap_set ''dcql_query'' v (from_entries ps)))) (\<lambda>es.
     bindE (unique_param ps ''transaction_data'') (\<lambda>t.
     Inr (case t of None \<Rightarrow> es | Some x \<Rightarrow> if x = '''' then es else omap_set ''transaction_data'' (JArr [JStr x]) es)))))"

definition signed_claims :: "oid_platform \<Rightarrow> vp_hooks \<Rightarrow> string \<Rightarrow> vp_exn + (string \<times> jsval) list" where
  "signed_claims pf h requestUri =
     (if 2048 < length requestUri then Inl (Vp_error ''request_uri_too_large'') else
      bindE (https_origin pf requestUri) (\<lambda>u.
      case (vh_fetchRequestUri h, vh_verifySignedRequest h) of
        (Some get, Some verify) \<Rightarrow> bindE (get (ou_text u)) (\<lambda>jwt. bindE (verify jwt) (\<lambda>es. Inr (omap_set ''request_uri'' (JStr (ou_text u)) es)))
      | _ \<Rightarrow> Inl (Vp_error ''untrusted_request'')))"

datatype vp_input = Request_url string | Request_object "(string \<times> jsval) list"

definition no_value :: "string option \<Rightarrow> bool" where
  "no_value x \<longleftrightarrow> x = None \<or> x = Some ''''"

definition request_claims :: "oid_platform \<Rightarrow> vp_hooks \<Rightarrow> vp_input \<Rightarrow> vp_exn + (string \<times> jsval) list" where
  "request_claims pf h input = (case input of
       Request_object es \<Rightarrow> Inr es
     | Request_url s \<Rightarrow> (case oid_url pf s of None \<Rightarrow> Inl Vp_foreign
         | Some u \<Rightarrow> bindE (unique_param (ou_params u) ''request_uri'') (\<lambda>requestUri. bindE (unique_param (ou_params u) ''request'') (\<lambda>requestJwt.
             if \<not> no_value requestUri then signed_claims pf h (the requestUri)
             else if \<not> no_value requestJwt then (case vh_verifySignedRequest h of None \<Rightarrow> Inl (Vp_error ''untrusted_request'')
               | Some verify \<Rightarrow> verify (the requestJwt))
             else plain_claims pf (ou_params u)))))"

definition claim_text :: "(string \<times> jsval) list \<Rightarrow> string \<Rightarrow> string" where
  "claim_text es k = (case jfield es k of JStr s \<Rightarrow> s | _ \<Rightarrow> '''')"

text \<open>The transaction data: absent, or texts that the hook recognises one by one.\<close>

definition text_items :: "jsval \<Rightarrow> string list option" where
  "text_items v = (case v of JArr vs \<Rightarrow>
       if list_all (\<lambda>x. case x of JStr s \<Rightarrow> length s \<le> 4096 | _ \<Rightarrow> False) vs then Some (map (\<lambda>x. case x of JStr s \<Rightarrow> s | _ \<Rightarrow> '''') vs) else None
     | _ \<Rightarrow> None)"

definition transaction_items :: "vp_hooks \<Rightarrow> jsval \<Rightarrow> vp_exn + string list option" where
  "transaction_items h v = (if v = JUndef then Inr None else
     case text_items v of None \<Rightarrow> Inl (Vp_error ''invalid_transaction_data'')
     | Some ts \<Rightarrow> (case vh_validateTransactionData h of None \<Rightarrow> Inl (Vp_error ''invalid_transaction_data'')
         | Some f \<Rightarrow> bindE (forE (\<lambda>t. bindE (f t) (\<lambda>ok. if \<not> ok then Inl (Vp_error ''invalid_transaction_data'') else Inr ())) ts) (\<lambda>_.
             Inr (Some ts))))"

definition confirm_verifier :: "vp_hooks \<Rightarrow> string \<Rightarrow> vp_exn + unit" where
  "confirm_verifier h c = (case vh_resolveVerifier h of None \<Rightarrow> Inr ()
     | Some f \<Rightarrow> bindE (f c) (\<lambda>ok. if \<not> ok then Inl (Vp_error ''ambiguous_verifier'') else Inr ()))"

definition parseOpenId4VpRequest :: "oid_platform \<Rightarrow> vp_hooks \<Rightarrow> vp_input \<Rightarrow> vp_exn + vp_request" where
  "parseOpenId4VpRequest pf h input = bindE (request_claims pf h input) (\<lambda>es.
     if jfield es ''response_type'' \<noteq> JStr ''vp_token'' \<or> jfield es ''response_mode'' \<noteq> JStr ''direct_post''
     then Inl (Vp_error ''unsupported_request'')
     else if claim_text es ''client_id'' = '''' \<or> claim_text es ''nonce'' = '''' \<or> claim_text es ''state'' = '''' \<or> \<not> js_truthy (jfield es ''dcql_query'')
     then Inl (Vp_error ''invalid_request'')
     else bindE (https_origin pf (claim_text es ''response_uri'')) (\<lambda>_.
       bindE (confirm_verifier h (claim_text es ''client_id'')) (\<lambda>_.
       bindE (transaction_items h (jfield es ''transaction_data'')) (\<lambda>ts.
       Inr \<lparr>vp_client_id = claim_text es ''client_id'', vp_response_uri = claim_text es ''response_uri'', vp_nonce = claim_text es ''nonce'',
         vp_state = claim_text es ''state'', vp_dcql_query = jfield es ''dcql_query'', vp_transaction_data = ts,
         vp_request_uri = (case jfield es ''request_uri'' of JStr s \<Rightarrow> Some s | _ \<Rightarrow> None)\<rparr>))))"

record verifier_request =
  vq_clientId :: string
  vq_responseUri :: string
  vq_nonce :: string
  vq_state :: string
  vq_dcqlQuery :: jsval
  vq_transactionData :: "string list option"

definition buildOpenId4VpRequest :: "oid_platform \<Rightarrow> verifier_request \<Rightarrow> vp_exn + vp_request" where
  "buildOpenId4VpRequest pf q =
     (if vq_clientId q = '''' \<or> vq_nonce q = '''' \<or> vq_state q = '''' then Inl (Vp_error ''invalid_request'') else
      bindE (https_origin pf (vq_responseUri q)) (\<lambda>_.
      if (case vq_transactionData q of None \<Rightarrow> False | Some ts \<Rightarrow> list_ex (\<lambda>t. t = '''' \<or> 4096 < length t) ts)
      then Inl (Vp_error ''invalid_transaction_data'')
      else Inr \<lparr>vp_client_id = vq_clientId q, vp_response_uri = vq_responseUri q, vp_nonce = vq_nonce q, vp_state = vq_state q,
        vp_dcql_query = vq_dcqlQuery q, vp_transaction_data = vq_transactionData q, vp_request_uri = None\<rparr>))"

text \<open>A request as the object that the wallet receives.\<close>

definition request_entries :: "vp_request \<Rightarrow> (string \<times> jsval) list" where
  "request_entries r = [(''response_type'', JStr ''vp_token''), (''response_mode'', JStr ''direct_post''), (''client_id'', JStr (vp_client_id r)),
     (''response_uri'', JStr (vp_response_uri r)), (''nonce'', JStr (vp_nonce r)), (''state'', JStr (vp_state r)), (''dcql_query'', vp_dcql_query r)]
     @ (case vp_transaction_data r of None \<Rightarrow> [] | Some ts \<Rightarrow> [(''transaction_data'', JArr (map JStr ts))])
     @ (case vp_request_uri r of None \<Rightarrow> [] | Some u \<Rightarrow> [(''request_uri'', JStr u)])"

section \<open>The response to a presentation request\<close>

datatype post_body = Body_text string | Body_params "(string \<times> string) list" | Body_record "(string \<times> jsval) list"

definition body_params :: "oid_platform \<Rightarrow> post_body \<Rightarrow> (string \<times> string) list" where
  "body_params pf b = (case b of Body_text s \<Rightarrow> oid_params pf s | Body_params ps \<Rightarrow> ps
     | Body_record es \<Rightarrow> map (\<lambda>e. (fst e, js_string pf (snd e))) es)"

text \<open>What is checked before the state is consumed: the state and the token.\<close>

definition direct_post_fields :: "oid_platform \<Rightarrow> vp_request \<Rightarrow> post_body \<Rightarrow> vp_exn + string \<times> string" where
  "direct_post_fields pf expected body = (let ps = body_params pf body in
     bindE (required_param ps ''state'') (\<lambda>state. bindE (required_param ps ''vp_token'') (\<lambda>token.
     if length (all_values ps ''state'') \<noteq> 1 \<or> length (all_values ps ''vp_token'') \<noteq> 1 then Inl (Vp_error ''duplicate_parameter'')
     else if state \<noteq> vp_state expected then Inl (Vp_error ''state_mismatch'')
     else if 32768 < length token then Inl (Vp_error ''response_too_large'')
     else Inr (state, token))))"

text \<open>What runs without interruption: the checks and the consumption of the state.\<close>

definition direct_post_begin ::
  "oid_platform \<Rightarrow> vp_request \<Rightarrow> post_body \<Rightarrow> (string \<Rightarrow> 's \<Rightarrow> bool \<times> 's) \<Rightarrow> ('s, vp_exn, string) meth" where
  "direct_post_begin pf expected body consume s = (case direct_post_fields pf expected body of
       Inl e \<Rightarrow> (Inl e, s)
     | Inr (state, token) \<Rightarrow> (case consume state s of (ok, t) \<Rightarrow> if \<not> ok then (Inl (Vp_error ''replay''), t) else (Inr token, t)))"

text \<open>The exact set of disclosures, compared in sorted order.\<close>

definition disclosures_match :: "string list option \<Rightarrow> string list \<Rightarrow> bool" where
  "disclosures_match expected actual \<longleftrightarrow> (case expected of None \<Rightarrow> True | Some es \<Rightarrow> sort actual = sort es)"

definition direct_post_end :: "string list option \<Rightarrow> string list \<times> claims_map \<Rightarrow> vp_exn + claims_map" where
  "direct_post_end expected result = (if \<not> disclosures_match expected (fst result) then Inl (Vp_error ''disclosure_mismatch'') else Inr (snd result))"

text \<open>The verifier of the token gets the audience and the nonce of the request.\<close>

definition verifyOpenId4VpDirectPost ::
  "oid_platform \<Rightarrow> vp_request \<Rightarrow> post_body \<Rightarrow> (string \<Rightarrow> 's \<Rightarrow> bool \<times> 's) \<Rightarrow> (string \<Rightarrow> string \<Rightarrow> string \<Rightarrow> ('s, vp_exn, string list \<times> claims_map) meth)
   \<Rightarrow> string list option \<Rightarrow> ('s, vp_exn, claims_map \<times> string) meth" where
  "verifyOpenId4VpDirectPost pf expected body consume verifyToken disclosures =
     bindS (direct_post_begin pf expected body consume) (\<lambda>token.
     bindS (verifyToken token (vp_client_id expected) (vp_nonce expected)) (\<lambda>r.
     bindS (pureS (direct_post_end disclosures r)) (\<lambda>cs. returnS (cs, token))))"

section \<open>Issuance: metadata and offers\<close>

text \<open>\<open>OpenId4VciError\<close> with its code and the action it asks for, and every other error.\<close>

datatype vci_action = Act_retry | Act_inspect | Act_restart | Act_reject

datatype vci_exn = Vci_error string vci_action | Vci_foreign

definition vci_fail :: "string \<Rightarrow> vci_exn + 'a" where
  "vci_fail code = Inl (Vci_error code Act_reject)"

definition vci_text :: "jsval \<Rightarrow> vci_exn + string" where
  "vci_text v = (case v of JStr s \<Rightarrow> if s = '''' \<or> 8192 < length s then vci_fail ''invalid_metadata'' else Inr s | _ \<Rightarrow> vci_fail ''invalid_metadata'')"

text \<open>The names and addresses of private networks.\<close>

definition private_172 :: "string \<Rightarrow> bool" where
  "private_172 h \<longleftrightarrow> (case h of
       a # b # c # d # e # f # g # _ \<Rightarrow> [a, b, c, d] = ''172.'' \<and> g = CHR ''.'' \<and>
         ((e = CHR ''1'' \<and> f \<in> set ''6789'') \<or> (e = CHR ''2'' \<and> is_digit f) \<or> (e = CHR ''3'' \<and> f \<in> set ''01''))
     | _ \<Rightarrow> False)"

definition private_host :: "string \<Rightarrow> bool" where
  "private_host h \<longleftrightarrow> h = ''localhost'' \<or> has_suffix ''.localhost'' h \<or> has_suffix ''.local'' h \<or> h = ''0.0.0.0'' \<or> h = ''::1'' \<or> h = ''[::1]''
     \<or> has_prefix ''127.'' h \<or> has_prefix ''10.'' h \<or> has_prefix ''192.168.'' h \<or> has_prefix ''169.254.'' h \<or> private_172 h"

definition public_origin :: "oid_platform \<Rightarrow> string \<Rightarrow> vci_exn + oid_url" where
  "public_origin pf s = (case oid_url pf s of None \<Rightarrow> vci_fail ''invalid_metadata''
     | Some u \<Rightarrow> if ou_protocol u \<noteq> ''https:'' then vci_fail ''insecure_origin''
         else if private_host (to_lower (ou_hostname u)) then vci_fail ''private_network'' else Inr u)"

text \<open>\<open>new URL\<close> outside a handler throws a plain error.\<close>

definition same_origin :: "oid_platform \<Rightarrow> string \<Rightarrow> string \<Rightarrow> vci_exn + bool" where
  "same_origin pf a b = (case (oid_url pf a, oid_url pf b) of (Some u, Some w) \<Rightarrow> Inr (ou_origin u = ou_origin w) | _ \<Rightarrow> Inl Vci_foreign)"

definition bounded_json :: "oid_platform \<Rightarrow> string \<Rightarrow> nat \<Rightarrow> vci_exn + jsval" where
  "bounded_json pf s m = (if m < length s then vci_fail ''response_too_large'' else
     case oid_json pf s of None \<Rightarrow> vci_fail ''invalid_json'' | Some v \<Rightarrow> Inr v)"

record vci_metadata =
  vm_credential_issuer :: string
  vm_credential_endpoint :: string
  vm_token_endpoint :: "string option"
  vm_configurations :: "(string \<times> string) list"
  vm_prototype :: bool

text \<open>
  The supported configurations, by identifier with their type; the format is fixed.  Writing
  the property \<open>__proto__\<close> of the new object makes the written value its prototype, which
  \<open>vm_prototype\<close> records.
\<close>

definition configuration :: "string \<times> jsval \<Rightarrow> vci_exn + string \<times> string" where
  "configuration e = (case object_entries (snd e) of None \<Rightarrow> vci_fail ''invalid_metadata''
     | Some es \<Rightarrow> (case jfield es ''vct'' of
           JStr t \<Rightarrow> if jfield es ''format'' \<noteq> JStr ''dc+sd-jwt'' \<or> 128 < length t then vci_fail ''unsupported_format'' else Inr (fst e, t)
         | _ \<Rightarrow> vci_fail ''unsupported_format''))"

definition own_configurations :: "(string \<times> string) list \<Rightarrow> (string \<times> string) list" where
  "own_configurations cs = filter (\<lambda>c. fst c \<noteq> ''__proto__'') cs"

definition token_endpoint :: "oid_platform \<Rightarrow> string \<Rightarrow> jsval \<Rightarrow> vci_exn + string option" where
  "token_endpoint pf issuer v = (if v = JUndef then Inr None else bindE (vci_text v) (\<lambda>t. bindE (public_origin pf t) (\<lambda>_.
     bindE (same_origin pf issuer t) (\<lambda>ok. if \<not> ok then vci_fail ''origin_mismatch'' else Inr (Some t)))))"

definition parseIssuerMetadata :: "oid_platform \<Rightarrow> jsval \<Rightarrow> string option \<Rightarrow> vci_exn + vci_metadata" where
  "parseIssuerMetadata pf v expected = (case object_entries v of None \<Rightarrow> vci_fail ''invalid_metadata''
     | Some raw \<Rightarrow>
         bindE (vci_text (jfield raw ''credential_issuer'')) (\<lambda>issuer. bindE (vci_text (jfield raw ''credential_endpoint'')) (\<lambda>endpoint.
         bindE (public_origin pf issuer) (\<lambda>_. bindE (public_origin pf endpoint) (\<lambda>_. bindE (same_origin pf issuer endpoint) (\<lambda>same.
         if \<not> same \<or> (\<not> no_value expected \<and> Some issuer \<noteq> expected) then vci_fail ''origin_mismatch'' else
         (case jfield raw ''credential_configurations_supported'' of
            JObj configs \<Rightarrow> bindE (mapE configuration configs) (\<lambda>cs.
              bindE (token_endpoint pf issuer (jfield raw ''token_endpoint'')) (\<lambda>t.
              Inr \<lparr>vm_credential_issuer = issuer, vm_credential_endpoint = endpoint, vm_token_endpoint = t,
                vm_configurations = own_configurations cs, vm_prototype = list_ex (\<lambda>c. fst c = ''__proto__'') cs\<rparr>))
          | _ \<Rightarrow> vci_fail ''invalid_metadata'')))))))"

text \<open>The properties every plain object inherits, all of them functions or objects.\<close>

definition inherited_names :: "string list" where
  "inherited_names = [''constructor'', ''__proto__'', ''hasOwnProperty'', ''isPrototypeOf'', ''propertyIsEnumerable'', ''toLocaleString'', ''toString'',
     ''valueOf'', ''__defineGetter__'', ''__defineSetter__'', ''__lookupGetter__'', ''__lookupSetter__'']"

text \<open>The test \<open>!metadata.credential_configurations_supported[configId]\<close> also sees inherited properties.\<close>

definition configuration_known :: "vci_metadata \<Rightarrow> string \<Rightarrow> bool" where
  "configuration_known m c \<longleftrightarrow> c \<in> set (map fst (vm_configurations m)) \<or> c \<in> set inherited_names
     \<or> (vm_prototype m \<and> c \<in> {''format'', ''vct''})"

record vci_offer =
  vo_credential_issuer :: string
  vo_configuration :: string
  vo_code :: string
  vo_tx_code :: "jsval option"

definition pre_authorized_grant :: string where
  "pre_authorized_grant = ''urn:ietf:params:oauth:grant-type:pre-authorized_code''"

text \<open>\<open>x?.k\<close> of any value.\<close>

definition maybe_prop :: "jsval \<Rightarrow> string \<Rightarrow> jsval" where
  "maybe_prop v k = (case v of JObj es \<Rightarrow> jfield es k | _ \<Rightarrow> JUndef)"

definition parseCredentialOffer :: "oid_platform \<Rightarrow> jsval \<Rightarrow> vci_exn + vci_offer" where
  "parseCredentialOffer pf v = (case object_entries v of None \<Rightarrow> vci_fail ''invalid_offer''
     | Some raw \<Rightarrow>
         bindE (vci_text (jfield raw ''credential_issuer'')) (\<lambda>issuer. bindE (public_origin pf issuer) (\<lambda>_.
         (case jfield raw ''credential_configuration_ids'' of
            JArr [JStr c] \<Rightarrow>
              (let grant = maybe_prop (jfield raw ''grants'') pre_authorized_grant in
               case maybe_prop grant ''pre-authorized_code'' of
                 JStr code \<Rightarrow> if code = '''' \<or> 512 < length code then vci_fail ''invalid_offer'' else
                   Inr \<lparr>vo_credential_issuer = issuer, vo_configuration = c, vo_code = code,
                     vo_tx_code = (if js_truthy (maybe_prop grant ''tx_code'') then Some (maybe_prop grant ''tx_code'') else None)\<rparr>
               | _ \<Rightarrow> vci_fail ''invalid_offer'')
          | _ \<Rightarrow> vci_fail ''invalid_offer''))))"

section \<open>Requests to the issuer\<close>

record http_request =
  hr_method :: string
  hr_headers :: "(string \<times> string) list"
  hr_body :: string

record http_response =
  hp_status :: int
  hp_body :: string

text \<open>
  The transport against the timer of five seconds: a response, an error of its own, an
  \<open>OpenId4VciError\<close> it throws, or the timeout.  The calls are recorded, newest first.
\<close>

datatype http_outcome = Answered http_response | Broken | Refused string vci_action | Timed_out

type_synonym http_call = "string \<times> http_request option"

type_synonym 'w oid_world = "http_call list \<times> 'w"

type_synonym 'w transport = "string \<Rightarrow> http_request option \<Rightarrow> 'w \<Rightarrow> http_outcome \<times> 'w"

definition http_send :: "'w transport \<Rightarrow> string \<Rightarrow> http_request option \<Rightarrow> 'w oid_world \<Rightarrow> http_outcome \<times> 'w oid_world" where
  "http_send tr url init w = (case tr url init (snd w) of (r, x) \<Rightarrow> (r, ((url, init) # fst w, x)))"

definition http_request_to :: "oid_platform \<Rightarrow> 'w transport \<Rightarrow> string \<Rightarrow> http_request option \<Rightarrow> ('w oid_world, vci_exn, http_response) meth" where
  "http_request_to pf tr url init w = (case public_origin pf url of Inl e \<Rightarrow> (Inl e, w)
     | Inr _ \<Rightarrow> (case http_send tr url init w of
           (Answered r, x) \<Rightarrow> (Inr r, x)
         | (Refused c a, x) \<Rightarrow> (Inl (Vci_error c a), x)
         | (Timed_out, x) \<Rightarrow> (Inl (Vci_error ''timeout'' Act_retry), x)
         | (Broken, x) \<Rightarrow> (Inl (Vci_error ''network_error'' Act_retry), x)))"

definition getJson :: "oid_platform \<Rightarrow> 'w transport \<Rightarrow> string \<Rightarrow> string \<Rightarrow> ('w oid_world, vci_exn, jsval) meth" where
  "getJson pf tr url expected = bindS (pureS (same_origin pf url expected)) (\<lambda>same.
     if \<not> same then throwS (Vci_error ''origin_mismatch'' Act_reject) else
     bindS (http_request_to pf tr url None) (\<lambda>r.
     if 300 \<le> hp_status r \<and> hp_status r < 400 then throwS (Vci_error ''redirect_rejected'' Act_reject)
     else if hp_status r \<noteq> 200 then throwS (Vci_error ''issuer_error'' Act_retry)
     else pureS (bounded_json pf (hp_body r) 32768)))"

section \<open>Issuing a pre-authorized credential\<close>

record 'w issuance_input =
  ii_offer :: jsval
  ii_expectedIssuer :: "string option"
  ii_transport :: "'w transport"
  ii_proofJwt :: string
  ii_verifyCredential :: "string \<Rightarrow> ('w, vci_exn, jsval) meth"
  ii_vault :: "(string \<times> string \<times> string \<Rightarrow> jsval \<Rightarrow> ('w, vci_exn, unit) meth) option"
  ii_credentialId :: string

text \<open>
  \<open>ii_credentialId\<close> is the identifier given, or the one made of the time.  The vault takes
  the identifier, the type and the issuer, and the verified value.
\<close>

definition on_world :: "('w, 'e, 'a) meth \<Rightarrow> ('w oid_world, 'e, 'a) meth" where
  "on_world m w = (case m (snd w) of (r, x) \<Rightarrow> (r, (fst w, x)))"

text \<open>The error an issuer names in its body, when the body is small JSON with a text there.\<close>

definition named_error :: "oid_platform \<Rightarrow> string \<Rightarrow> string \<Rightarrow> string" where
  "named_error pf body fallback = (case bounded_json pf body 8192 of
       Inr (JObj es) \<Rightarrow> (case jfield es ''error'' of JStr e \<Rightarrow> e | _ \<Rightarrow> fallback) | _ \<Rightarrow> fallback)"

definition read_field :: "jsval \<Rightarrow> string \<Rightarrow> vci_exn + jsval" where
  "read_field v k = (case v of JObj es \<Rightarrow> Inr (jfield es k) | JUndef \<Rightarrow> Inl Vci_foreign | JNull \<Rightarrow> Inl Vci_foreign | _ \<Rightarrow> Inr JUndef)"

definition read_offer :: "oid_platform \<Rightarrow> jsval \<Rightarrow> vci_exn + vci_offer" where
  "read_offer pf v = (case v of JStr s \<Rightarrow> bindE (bounded_json pf s 32768) (parseCredentialOffer pf) | _ \<Rightarrow> parseCredentialOffer pf v)"

definition token_request :: "oid_platform \<Rightarrow> vci_offer \<Rightarrow> http_request" where
  "token_request pf off = \<lparr>hr_method = ''POST'', hr_headers = [(''content-type'', ''application/x-www-form-urlencoded'')],
     hr_body = ''grant_type='' @ oid_encode pf pre_authorized_grant @ ''&pre-authorized_code='' @ oid_encode pf (vo_code off)\<rparr>"

definition credential_request :: "oid_platform \<Rightarrow> string \<Rightarrow> string \<Rightarrow> string \<Rightarrow> http_request" where
  "credential_request pf token config proof_jwt = \<lparr>hr_method = ''POST'',
     hr_headers = [(''authorization'', ''Bearer '' @ token), (''content-type'', ''application/json'')],
     hr_body = (case json_text (oid_fraction pf) (JObj [(''format'', JStr ''dc+sd-jwt''), (''credential_configuration_id'', JStr config),
       (''proof'', JObj [(''proof_type'', JStr ''jwt''), (''jwt'', JStr proof_jwt)])]) of None \<Rightarrow> '''' | Some t \<Rightarrow> t)\<rparr>"

definition fetch_token :: "oid_platform \<Rightarrow> 'w transport \<Rightarrow> string \<Rightarrow> vci_offer \<Rightarrow> ('w oid_world, vci_exn, string) meth" where
  "fetch_token pf tr endpoint off = bindS (http_request_to pf tr endpoint (Some (token_request pf off))) (\<lambda>r.
     if hp_status r \<noteq> 200 then
       (let e = named_error pf (hp_body r) ''access_denied'' in
        throwS (Vci_error (''oauth_'' @ e) (if e = ''temporarily_unavailable'' then Act_retry else Act_restart)))
     else bindS (pureS (bindE (bounded_json pf (hp_body r) 8192) (\<lambda>v. read_field v ''access_token''))) (\<lambda>t.
       case t of JStr s \<Rightarrow> if 8192 < length s then throwS (Vci_error ''invalid_token_response'' Act_reject) else returnS s
       | _ \<Rightarrow> throwS (Vci_error ''invalid_token_response'' Act_reject)))"

definition fetch_credential :: "oid_platform \<Rightarrow> 'w transport \<Rightarrow> string \<Rightarrow> http_request \<Rightarrow> ('w oid_world, vci_exn, string) meth" where
  "fetch_credential pf tr endpoint rq = bindS (http_request_to pf tr endpoint (Some rq)) (\<lambda>r.
     if hp_status r \<noteq> 200 then
       (let e = named_error pf (hp_body r) ''credential_error'' in
        throwS (Vci_error (''oauth_'' @ e) (if e = ''invalid_or_missing_proof'' then Act_restart else Act_retry)))
     else bindS (pureS (bindE (bounded_json pf (hp_body r) 32768) (\<lambda>v. read_field v ''credential''))) (\<lambda>c.
       case c of JStr s \<Rightarrow> if 8192 < length s then throwS (Vci_error ''invalid_credential'' Act_reject) else returnS s
       | _ \<Rightarrow> throwS (Vci_error ''invalid_credential'' Act_reject)))"

text \<open>\<open>String(claims.k ?? fallback)\<close>.\<close>

definition claim_or :: "oid_platform \<Rightarrow> jsval \<Rightarrow> string \<Rightarrow> string \<Rightarrow> string" where
  "claim_or pf v k fallback = (case maybe_prop v k of JUndef \<Rightarrow> fallback | JNull \<Rightarrow> fallback | x \<Rightarrow> js_string pf x)"

definition store_credential :: "oid_platform \<Rightarrow> 'w issuance_input \<Rightarrow> vci_offer \<Rightarrow> jsval \<Rightarrow> ('w oid_world, vci_exn, bool) meth" where
  "store_credential pf input off verified = (case ii_vault input of None \<Rightarrow> returnS False
     | Some put \<Rightarrow> bindS (on_world (put (ii_credentialId input, claim_or pf verified ''vct'' ''AgeCredential'',
         claim_or pf verified ''issuer'' (vo_credential_issuer off)) verified)) (\<lambda>_. returnS True))"

definition issuePreAuthorizedCredential :: "oid_platform \<Rightarrow> 'w issuance_input \<Rightarrow> ('w oid_world, vci_exn, string \<times> jsval \<times> bool) meth" where
  "issuePreAuthorizedCredential pf input =
     (if ii_proofJwt input = '''' \<or> 8192 < length (ii_proofJwt input) then throwS (Vci_error ''invalid_proof'' Act_reject) else
      bindS (pureS (read_offer pf (ii_offer input))) (\<lambda>off.
      bindS (pureS (public_origin pf (case ii_expectedIssuer input of None \<Rightarrow> vo_credential_issuer off | Some s \<Rightarrow> s))) (\<lambda>u.
      if vo_credential_issuer off \<noteq> ou_origin u then throwS (Vci_error ''origin_mismatch'' Act_reject) else
      bindS (getJson pf (ii_transport input) (ou_origin u @ ''/.well-known/openid-credential-issuer'') (ou_origin u)) (\<lambda>doc.
      bindS (pureS (parseIssuerMetadata pf doc (Some (ou_origin u)))) (\<lambda>m.
      if \<not> configuration_known m (vo_configuration off) then throwS (Vci_error ''unsupported_configuration'' Act_reject) else
      bindS (fetch_token pf (ii_transport input)
        (case vm_token_endpoint m of None \<Rightarrow> ou_origin u @ ''/oauth/token'' | Some t \<Rightarrow> t) off) (\<lambda>token.
      bindS (fetch_credential pf (ii_transport input) (vm_credential_endpoint m)
        (credential_request pf token (vo_configuration off) (ii_proofJwt input))) (\<lambda>c.
      bindS (on_world (ii_verifyCredential input c)) (\<lambda>verified.
      if \<not> js_truthy verified then throwS (Vci_error ''verification_failed'' Act_reject) else
      bindS (store_credential pf input off verified) (\<lambda>stored. returnS (c, verified, stored))))))))))"

section \<open>The deterministic issuer\<close>

record det_issuer =
  di_metadata :: jsval
  di_endpoint :: string
  di_code :: string
  di_credential :: string
  di_expectedProof :: string

definition json_body :: "oid_platform \<Rightarrow> (string \<times> jsval) list \<Rightarrow> string" where
  "json_body pf es = (case json_text (oid_fraction pf) (JObj es) of None \<Rightarrow> '''' | Some t \<Rightarrow> t)"

definition answer :: "int \<Rightarrow> string \<Rightarrow> http_outcome" where
  "answer st body = Answered \<lparr>hp_status = st, hp_body = body\<rparr>"

definition request_body :: "http_request option \<Rightarrow> string \<Rightarrow> string" where
  "request_body init fallback = (case init of None \<Rightarrow> fallback | Some r \<Rightarrow> hr_body r)"

text \<open>The proof in the body of a credential request; \<open>None\<close> is an error of the transport.\<close>

definition body_proof :: "oid_platform \<Rightarrow> string \<Rightarrow> jsval option" where
  "body_proof pf body = (case oid_json pf body of None \<Rightarrow> None
     | Some v \<Rightarrow> (case v of JUndef \<Rightarrow> None | JNull \<Rightarrow> None | _ \<Rightarrow> Some (maybe_prop (maybe_prop v ''proof'') ''jwt'')))"

definition det_transport :: "oid_platform \<Rightarrow> det_issuer \<Rightarrow> 'w transport" where
  "det_transport pf d url init w =
     (if has_suffix ''/.well-known/openid-credential-issuer'' url
      then (answer 200 (case json_text (oid_fraction pf) (di_metadata d) of None \<Rightarrow> '''' | Some t \<Rightarrow> t), w)
      else if has_suffix ''/oauth/token'' url then
        (if \<not> text_contains (oid_encode pf (di_code d)) (request_body init '''')
         then (answer 400 (json_body pf [(''error'', JStr ''invalid_grant'')]), w)
         else (answer 200 (json_body pf [(''access_token'', JStr ''synthetic-access-token''), (''token_type'', JStr ''Bearer'')]), w))
      else if url = di_endpoint d then
        (case body_proof pf (request_body init ''{}'') of
           None \<Rightarrow> (Broken, w)
         | Some proof_jwt \<Rightarrow> if proof_jwt \<noteq> JStr (di_expectedProof d) then (answer 400 (json_body pf [(''error'', JStr ''invalid_or_missing_proof'')]), w)
             else (answer 200 (json_body pf [(''format'', JStr ''dc+sd-jwt''), (''credential'', JStr (di_credential d))]), w))
      else (answer 404 (json_body pf [(''error'', JStr ''not_found'')]), w))"

end
