(* ===== verification/VerifierService.thy ===== *)
theory VerifierService
  imports CredentialFormats OpenId4Vc
begin

text \<open>
  The verifier service (\<open>verifier-service/src/index.ts\<close>): policies, the query
  they become, sessions and receipts with their in-memory store, the evaluation of a
  presentation over the registry of formats and the trust registry, and the verification of a
  response. The resolver of tokens and the trust registry are ports with a state; identifiers
  drawn and readings of the clock are arguments.
\<close>

section \<open>Policies\<close>

text \<open>\<open>VerifierServiceError\<close> with its code, and what the request builder throws.\<close>

datatype verifier_exn = Verifier_error string | Request_error vp_exn

text \<open>The value a claim must have; a number is an integer.\<close>

datatype claim_value = Claim_text string | Claim_number int | Claim_bool bool

record claim_requirement =
  crq_name :: string
  crq_equals :: "claim_value option"

record verification_policy =
  vpo_schemaVersion :: int
  vpo_policyId :: string
  vpo_tenantId :: string
  vpo_jurisdiction :: string
  vpo_format :: string
  vpo_profile :: string
  vpo_version :: string
  vpo_schemaId :: string
  vpo_credentialTypes :: "string list"
  vpo_requestedClaims :: "claim_requirement list"
  vpo_requireHolderBinding :: bool
  vpo_acceptedIssuers :: "string list option"

text \<open>\<open>/^[A-Za-z_][A-Za-z0-9_.-]{0,127}$/u\<close>.\<close>

definition claim_name :: "string \<Rightarrow> bool" where
  "claim_name s \<longleftrightarrow> (case s of [] \<Rightarrow> False | c # r \<Rightarrow> (is_lower_alpha c \<or> is_upper_alpha c \<or> c = CHR ''_'') \<and> length r \<le> 127
     \<and> list_all (\<lambda>d. is_alnum d \<or> d \<in> set ''_.-'') r)"

definition safeId :: "string \<Rightarrow> verifier_exn + string" where
  "safeId s = (if \<not> opaque_id s then Inl (Verifier_error ''POLICY_INVALID'') else Inr s)"

text \<open>
  A format that is no pinned one is refused; the name of a property every object inherits
  passes that test and is refused for its profile, with the same code.
\<close>

definition parseVerificationPolicy :: "verification_policy \<Rightarrow> verifier_exn + verification_policy" where
  "parseVerificationPolicy v = (let bad = Inl (Verifier_error ''POLICY_INVALID''); names = map crq_name (vpo_requestedClaims v) in
     if vpo_schemaVersion v \<noteq> 1 then bad else
     bindE (safeId (vpo_policyId v)) (\<lambda>_. bindE (safeId (vpo_tenantId v)) (\<lambda>_. bindE (safeId (vpo_jurisdiction v)) (\<lambda>_.
     case format_descriptor (vpo_format v) of None \<Rightarrow> bad
     | Some pin \<Rightarrow>
         if vpo_profile v \<noteq> pf_profile pin \<or> vpo_version v \<noteq> pf_version pin then bad
         else if vpo_schemaId v = '''' \<or> 512 < length (vpo_schemaId v) then bad
         else if vpo_credentialTypes v = [] \<or> 16 < length (vpo_credentialTypes v) \<or> vpo_requestedClaims v = [] \<or> 16 < length (vpo_requestedClaims v) then bad
         else if \<not> list_all claim_name names \<or> \<not> distinct names then bad
         else if vpo_acceptedIssuers v = Some [] then bad
         else Inr v))))"

definition dcqlFormat :: "string \<Rightarrow> string" where
  "dcqlFormat f = (if f = ''sd-jwt-vc'' then ''dc+sd-jwt'' else if f = ''iso-mdoc'' then ''mso_mdoc''
     else if f = ''w3c-vc-di'' then ''ldp_vc'' else ''jwt_vc_json'')"

definition claim_value_js :: "claim_value \<Rightarrow> jsval" where
  "claim_value_js c = (case c of Claim_text s \<Rightarrow> JStr s | Claim_number n \<Rightarrow> JInt n | Claim_bool b \<Rightarrow> JBool b)"

definition policyToDcql :: "verification_policy \<Rightarrow> verifier_exn + jsval" where
  "policyToDcql policy = bindE (parseVerificationPolicy policy) (\<lambda>p. Inr (JObj [(''credentials'', JArr [JObj [
     (''id'', JStr (vpo_policyId p)), (''format'', JStr (dcqlFormat (vpo_format p))),
     (''meta'', JObj [(''credential_type_values'', JArr (map JStr (vpo_credentialTypes p)))]),
     (''claims'', JArr (map (\<lambda>c. JObj ((''path'', JArr (map JStr (split_on CHR ''.'' (crq_name c))))
        # (case crq_equals c of None \<Rightarrow> [] | Some v \<Rightarrow> [(''values'', JArr [claim_value_js v])]))) (vpo_requestedClaims p)))]])]))"

section \<open>Sessions and receipts\<close>

record verification_receipt =
  vrc_receiptId :: string
  vrc_sessionId :: string
  vrc_tenantId :: string
  vrc_policyId :: string
  vrc_result :: decision_kind
  vrc_reasonCode :: string
  vrc_verifiedAt :: string
  vrc_checks :: "string list"
  vrc_snapshotId :: "string option"
  vrc_snapshotExpiresAt :: "int option"

datatype session_status = Session_requested | Session_consumed | Session_expired

record verification_session =
  vse_sessionId :: string
  vse_tenantId :: string
  vse_policyId :: string
  vse_nonce :: string
  vse_state :: string
  vse_status :: session_status
  vse_createdAt :: string
  vse_expiresAt :: string
  vse_request :: vp_request
  vse_receipt :: "verification_receipt option"

text \<open>\<open>toISOString\<close> of a time in milliseconds, and \<open>Date.parse\<close>, whose NaN is \<open>None\<close>.\<close>

record verifier_platform =
  vpf_iso :: "int \<Rightarrow> string"
  vpf_parse :: "string \<Rightarrow> int option"

definition past :: "verifier_platform \<Rightarrow> string \<Rightarrow> int \<Rightarrow> bool" where
  "past vp t now \<longleftrightarrow> (case vpf_parse vp t of None \<Rightarrow> False | Some x \<Rightarrow> x \<le> now)"

record verifier_store =
  vst_sessions :: "string \<rightharpoonup> verification_session"
  vst_receipts :: "string \<rightharpoonup> verification_receipt"

definition store_create :: "verification_session \<Rightarrow> (verifier_store, verifier_exn, unit) meth" where
  "store_create x s = (if vst_sessions s (vse_sessionId x) \<noteq> None then (Inl (Verifier_error ''SESSION_CONFLICT''), s)
     else (Inr (), s\<lparr>vst_sessions := (vst_sessions s)(vse_sessionId x \<mapsto> x)\<rparr>))"

definition store_consume :: "verifier_platform \<Rightarrow> string \<Rightarrow> string \<Rightarrow> int \<Rightarrow> verifier_store \<Rightarrow> bool \<times> verifier_store" where
  "store_consume vp sid st now s = (case vst_sessions s sid of None \<Rightarrow> (False, s)
     | Some x \<Rightarrow> if vse_state x \<noteq> st \<or> vse_status x \<noteq> Session_requested \<or> past vp (vse_expiresAt x) now then (False, s)
         else (True, s\<lparr>vst_sessions := (vst_sessions s)(sid \<mapsto> x\<lparr>vse_status := Session_consumed\<rparr>)\<rparr>))"

definition store_complete :: "string \<Rightarrow> verification_receipt \<Rightarrow> verifier_store \<Rightarrow> verifier_store" where
  "store_complete sid r s = (let t = s\<lparr>vst_receipts := (vst_receipts s)(vrc_receiptId r \<mapsto> r)\<rparr> in
     case vst_sessions s sid of None \<Rightarrow> t
     | Some x \<Rightarrow> if vse_receipt x \<noteq> None \<or> vse_status x \<noteq> Session_consumed then t
         else t\<lparr>vst_sessions := (vst_sessions s)(sid \<mapsto> x\<lparr>vse_receipt := Some r\<rparr>)\<rparr>)"

section \<open>The service\<close>

record verifier_options =
  vop_policies :: "verification_policy list"
  vop_clientId :: string
  vop_responseUri :: string
  vop_sessionTtlSeconds :: "int option"

record verifier_service =
  vsv_policies :: "string \<rightharpoonup> verification_policy"
  vsv_clientId :: string
  vsv_responseUri :: string
  vsv_ttl :: int

fun load_policies :: "verification_policy list \<Rightarrow> (string \<rightharpoonup> verification_policy) \<Rightarrow> verifier_exn + (string \<rightharpoonup> verification_policy)" where
  "load_policies [] m = Inr m"
| "load_policies (p # ps) m = bindE (parseVerificationPolicy p) (\<lambda>q.
     if m (vpo_policyId q) \<noteq> None then Inl (Verifier_error ''POLICY_CONFLICT'') else load_policies ps (m(vpo_policyId q \<mapsto> q)))"

definition new_verifier :: "verifier_options \<Rightarrow> verifier_exn + verifier_service" where
  "new_verifier o1 = (if vop_clientId o1 = '''' \<or> vop_responseUri o1 = '''' then Inl (Verifier_error ''CONFIG_INVALID'') else
     bindE (load_policies (vop_policies o1) Map.empty) (\<lambda>m.
     let ttl = (case vop_sessionTtlSeconds o1 of None \<Rightarrow> 300 | Some n \<Rightarrow> n) in
     if \<not> safe_integer ttl \<or> ttl < 30 \<or> 900 < ttl then Inl (Verifier_error ''CONFIG_INVALID'')
     else Inr \<lparr>vsv_policies = m, vsv_clientId = vop_clientId o1, vsv_responseUri = vop_responseUri o1, vsv_ttl = ttl\<rparr>))"

text \<open>The identifiers drawn for the session, the state and the nonce, in this order.\<close>

definition session_of ::
  "verifier_service \<Rightarrow> verifier_platform \<Rightarrow> verification_policy \<Rightarrow> string \<Rightarrow> string \<times> string \<times> string \<Rightarrow> vp_request \<Rightarrow> int \<Rightarrow> verification_session" where
  "session_of svc vp policy policyId drawn rq now = (case drawn of (sid, st, nonce) \<Rightarrow>
     \<lparr>vse_sessionId = sid, vse_tenantId = vpo_tenantId policy, vse_policyId = policyId,
     vse_nonce = nonce, vse_state = st, vse_status = Session_requested, vse_createdAt = vpf_iso vp now,
     vse_expiresAt = vpf_iso vp (now + vsv_ttl svc * 1000), vse_request = rq, vse_receipt = None\<rparr>)"

definition throw_vp :: "vp_exn + 'a \<Rightarrow> verifier_exn + 'a" where
  "throw_vp r = (case r of Inl e \<Rightarrow> Inl (Request_error e) | Inr x \<Rightarrow> Inr x)"

definition safe_ids :: "string \<times> string \<times> string \<Rightarrow> verifier_exn + unit" where
  "safe_ids drawn = (case drawn of (sid, st, nonce) \<Rightarrow> bindE (safeId sid) (\<lambda>_. bindE (safeId st) (\<lambda>_. bindE (safeId nonce) (\<lambda>_. Inr ()))))"

definition session_request :: "verifier_service \<Rightarrow> oid_platform \<Rightarrow> verification_policy \<Rightarrow> string \<times> string \<times> string \<Rightarrow> verifier_exn + vp_request" where
  "session_request svc pf policy drawn = (case drawn of (sid, st, nonce) \<Rightarrow> bindE (policyToDcql policy) (\<lambda>q.
     throw_vp (buildOpenId4VpRequest pf \<lparr>vq_clientId = vsv_clientId svc, vq_responseUri = vsv_responseUri svc, vq_nonce = nonce,
       vq_state = st, vq_dcqlQuery = q, vq_transactionData = None\<rparr>)))"

definition createVerificationSession ::
  "verifier_service \<Rightarrow> oid_platform \<Rightarrow> verifier_platform \<Rightarrow> string \<Rightarrow> string \<times> string \<times> string \<Rightarrow> int \<Rightarrow> (verifier_store, verifier_exn, verification_session) meth" where
  "createVerificationSession svc pf vp policyId drawn now = (case vsv_policies svc policyId of None \<Rightarrow> throwS (Verifier_error ''POLICY_NOT_FOUND'')
     | Some policy \<Rightarrow> bindS (pureS (safe_ids drawn)) (\<lambda>_. bindS (pureS (session_request svc pf policy drawn)) (\<lambda>rq.
         let session = session_of svc vp policy policyId drawn rq now in
         bindS (store_create session) (\<lambda>_. returnS session))))"

text \<open>A receipt, attached to its session when the session is consumed and has none.\<close>

record verdict =
  vd_result :: decision_kind
  vd_code :: string
  vd_checks :: "string list"
  vd_registry :: "registry_decision option"

definition rejected_as :: "string \<Rightarrow> verdict" where
  "rejected_as c = \<lparr>vd_result = decision_kind.Rejected, vd_code = c, vd_checks = [], vd_registry = None\<rparr>"

definition receipt_of :: "verifier_platform \<Rightarrow> verification_session \<Rightarrow> verdict \<Rightarrow> string \<Rightarrow> int \<Rightarrow> verification_receipt" where
  "receipt_of vp x v rid now = \<lparr>vrc_receiptId = rid, vrc_sessionId = vse_sessionId x, vrc_tenantId = vse_tenantId x, vrc_policyId = vse_policyId x,
     vrc_result = vd_result v, vrc_reasonCode = vd_code v, vrc_verifiedAt = vpf_iso vp now, vrc_checks = vd_checks v,
     vrc_snapshotId = (case vd_registry v of None \<Rightarrow> None | Some d \<Rightarrow> nonempty_text (map_option fst (rd_snapshot d))),
     vrc_snapshotExpiresAt = (case vd_registry v of None \<Rightarrow> None | Some d \<Rightarrow> map_option snd (rd_snapshot d))\<rparr>"

definition verifier_finish ::
  "verifier_platform \<Rightarrow> verification_session \<Rightarrow> verdict \<Rightarrow> string \<Rightarrow> int \<Rightarrow> (verifier_store, verifier_exn, verification_receipt) meth" where
  "verifier_finish vp x v rid now s = (case safeId rid of Inl e \<Rightarrow> (Inl e, s)
     | Inr _ \<Rightarrow> (let r = receipt_of vp x v rid now in (Inr r, store_complete (vse_sessionId x) r s)))"

section \<open>Evaluation of a presentation\<close>

record presentation_metadata =
  pmd_issuerId :: string
  pmd_schemaId :: string
  pmd_keyId :: string
  pmd_statusId :: string
  pmd_issuedAt :: int
  pmd_expiresAt :: int

record 'v resolved_presentation =
  rpr_artifact :: format_artifact
  rpr_verificationInput :: 'v
  rpr_disclosures :: "string list"
  rpr_metadata :: presentation_metadata

text \<open>The pinned formats, the registry and the resolver of tokens; the latter two have a state.\<close>

record ('i, 'p, 'v, 'w) verifier_ports =
  vpt_formats :: "('i, 'p, 'v) adapter_map"
  vpt_registry :: "trust_request \<Rightarrow> js_number \<Rightarrow> ('w, registry_exn, registry_decision) meth"
  vpt_resolve :: "string \<Rightarrow> string \<Rightarrow> string \<Rightarrow> ('w, vp_exn, 'v resolved_presentation) meth"

definition format_code_name :: "format_code option \<Rightarrow> string" where
  "format_code_name c = (case c of None \<Rightarrow> ''VERIFIED'' | Some format_code.FORMAT_MISMATCH \<Rightarrow> ''FORMAT_MISMATCH'' | Some format_code.UNSUPPORTED_PROFILE \<Rightarrow> ''UNSUPPORTED_PROFILE''
     | Some format_code.FORMAT_UNSUPPORTED_VERSION \<Rightarrow> ''UNSUPPORTED_VERSION'' | Some format_code.UNSUPPORTED_MEDIA_TYPE \<Rightarrow> ''UNSUPPORTED_MEDIA_TYPE''
     | Some format_code.UNSUPPORTED_ALGORITHM \<Rightarrow> ''UNSUPPORTED_ALGORITHM'' | Some format_code.ALGORITHM_MISMATCH \<Rightarrow> ''ALGORITHM_MISMATCH''
     | Some format_code.OPERATION_UNSUPPORTED \<Rightarrow> ''OPERATION_UNSUPPORTED'' | Some format_code.VERIFICATION_FAILED \<Rightarrow> ''VERIFICATION_FAILED'')"

definition claim_holds :: "(string \<times> jsval) list \<Rightarrow> claim_requirement \<Rightarrow> bool" where
  "claim_holds cs c \<longleftrightarrow> (case crq_equals c of None \<Rightarrow> True | Some v \<Rightarrow> map_of cs (crq_name c) = Some (claim_value_js v))"

definition artifact_fits :: "verification_policy \<Rightarrow> format_artifact \<Rightarrow> bool" where
  "artifact_fits p a \<longleftrightarrow> fa_format a = vpo_format p \<and> fa_profile a = vpo_profile p \<and> fa_version a = vpo_version p \<and> fa_kind a = Presentation_artifact"

text \<open>The checks between the signature and the registry, in the order of the code; \<open>None\<close> is passed.\<close>

definition policy_checks :: "verification_policy \<Rightarrow> presentation_metadata \<Rightarrow> format_result \<Rightarrow> int \<Rightarrow> (string \<times> string list) option" where
  "policy_checks p md r now =
     (if fr_issuer r = None \<or> fr_issuer r \<noteq> Some (pmd_issuerId md) then Some (''ISSUER_BINDING_MISMATCH'', [''signature''])
      else if (case vpo_acceptedIssuers p of None \<Rightarrow> False | Some is \<Rightarrow> pmd_issuerId md \<notin> set is) then Some (''ISSUER_NOT_ACCEPTED'', [''signature''])
      else if pmd_schemaId md \<noteq> vpo_schemaId p then Some (''SCHEMA_MISMATCH'', [''signature''])
      else if \<not> list_ex (\<lambda>t. t \<in> set (fr_types r)) (vpo_credentialTypes p) then Some (''CREDENTIAL_TYPE_MISMATCH'', [''signature''])
      else if vpo_requireHolderBinding p \<and> \<not> fr_holderBound r then Some (''HOLDER_BINDING_REQUIRED'', [''signature'', ''schema''])
      else if \<not> safe_integer (pmd_issuedAt md) \<or> \<not> safe_integer (pmd_expiresAt md) \<or> now < pmd_issuedAt md \<or> pmd_expiresAt md \<le> pmd_issuedAt md
      then Some (''CREDENTIAL_TIME_INVALID'', [''signature'', ''schema'', ''holder_binding''])
      else if pmd_expiresAt md \<le> now then Some (''CREDENTIAL_EXPIRED'', [''signature'', ''schema'', ''holder_binding''])
      else if sort (map fst (fr_disclosed r)) \<noteq> sort (map crq_name (vpo_requestedClaims p))
      then Some (''DISCLOSURE_MISMATCH'', [''signature'', ''schema'', ''holder_binding'', ''expiry''])
      else if \<not> list_all (claim_holds (fr_disclosed r)) (vpo_requestedClaims p)
      then Some (''POLICY_CLAIM_MISMATCH'', [''signature'', ''schema'', ''holder_binding'', ''expiry''])
      else None)"

definition registry_request :: "verification_policy \<Rightarrow> presentation_metadata \<Rightarrow> trust_request" where
  "registry_request p md = \<lparr>tr_scope = \<lparr>rs_tenantId = vpo_tenantId p, rs_jurisdiction = vpo_jurisdiction p\<rparr>, tr_issuerId = pmd_issuerId md,
     tr_schemaId = vpo_schemaId p, tr_keyId = pmd_keyId md, tr_issuedAt = pmd_issuedAt md, tr_statusId = pmd_statusId md\<rparr>"

definition passed_checks :: "string list" where
  "passed_checks = [''signature'', ''schema'', ''holder_binding'', ''expiry'', ''policy'', ''disclosure'']"

definition registry_verdict :: "registry_exn + registry_decision \<Rightarrow> verdict" where
  "registry_verdict r = (let d = (case r of Inr d \<Rightarrow> d | Inl _ \<Rightarrow> \<lparr>rd_decision = decision_kind.Indeterminate, rd_code = ''REGISTRY_UNAVAILABLE'', rd_snapshot = None\<rparr>) in
     if rd_decision d \<noteq> decision_kind.Verified then \<lparr>vd_result = rd_decision d, vd_code = rd_code d, vd_checks = passed_checks, vd_registry = Some d\<rparr>
     else \<lparr>vd_result = decision_kind.Verified, vd_code = ''VERIFIED'', vd_checks = passed_checks @ [''trust'', ''status''], vd_registry = Some d\<rparr>)"

text \<open>The error of a registry without an adapter for the format leaves the evaluation.\<close>

definition evaluate_presentation ::
  "('i, 'p, 'v, 'w) verifier_ports \<Rightarrow> verification_policy \<Rightarrow> 'v resolved_presentation \<Rightarrow> int \<Rightarrow> ('w, vp_exn, verdict) meth" where
  "evaluate_presentation ports p x millis w =
     (if \<not> artifact_fits p (rpr_artifact x) then (Inr (rejected_as ''FORMAT_OR_PROFILE_MISMATCH''), w) else
      case registry_verify (vpt_formats ports) \<lparr>fs_format = vpo_format p, fs_profile = vpo_profile p, fs_version = vpo_version p\<rparr> (rpr_artifact x) (rpr_verificationInput x) of
        Inl _ \<Rightarrow> (Inl Vp_foreign, w)
      | Inr r \<Rightarrow>
          if \<not> fr_verified r then (Inr (rejected_as (format_code_name (fr_reason r))), w)
          else (case policy_checks p (rpr_metadata x) r (millis div 1000) of
              Some (code, checks) \<Rightarrow> (Inr \<lparr>vd_result = decision_kind.Rejected, vd_code = code, vd_checks = checks, vd_registry = None\<rparr>, w)
            | None \<Rightarrow> (case vpt_registry ports (registry_request p (rpr_metadata x)) (Whole (millis div 1000)) w of (d, w') \<Rightarrow> (Inr (registry_verdict d), w'))))"

section \<open>Verification of a response\<close>

definition mapProtocolError :: "vp_exn \<Rightarrow> verdict" where
  "mapProtocolError e = rejected_as (case e of Vp_foreign \<Rightarrow> ''PRESENTATION_INVALID''
     | Vp_error c \<Rightarrow> if c = ''replay'' then ''REPLAY_DETECTED'' else if c = ''disclosure_mismatch'' then ''DISCLOSURE_MISMATCH''
         else if c = ''state_mismatch'' then ''STATE_MISMATCH'' else if c = ''response_too_large'' then ''PRESENTATION_TOO_LARGE'' else ''PRESENTATION_INVALID'')"

text \<open>The readings of the clock, in order.\<close>

record verify_times =
  vti_start :: int
  vti_consume :: int
  vti_evaluate :: int
  vti_finish :: int

text \<open>The store, the local variable \<open>evaluation\<close> and the state of the ports.\<close>

type_synonym 'w verify_state = "verifier_store \<times> verdict option \<times> 'w"

definition consume_state :: "verifier_platform \<Rightarrow> string \<Rightarrow> int \<Rightarrow> string \<Rightarrow> 'w verify_state \<Rightarrow> bool \<times> 'w verify_state" where
  "consume_state vp sid now st z = (case store_consume vp sid st now (fst z) of (ok, s) \<Rightarrow> (ok, (s, snd z)))"

definition verify_token ::
  "('i, 'p, 'v, 'w) verifier_ports \<Rightarrow> verification_policy \<Rightarrow> int \<Rightarrow> string \<Rightarrow> string \<Rightarrow> string \<Rightarrow> ('w verify_state, vp_exn, string list \<times> claims_map) meth" where
  "verify_token ports p millis token audience nonce z = (case z of (s, ev, w) \<Rightarrow>
     (case vpt_resolve ports token audience nonce w of
        (Inl e, w1) \<Rightarrow> (Inl e, (s, ev, w1))
      | (Inr x, w1) \<Rightarrow> (case evaluate_presentation ports p x millis w1 of
            (Inl e, w2) \<Rightarrow> (Inl e, (s, ev, w2))
          | (Inr v, w2) \<Rightarrow> (Inr (rpr_disclosures x, []), (s, Some v, w2)))))"

text \<open>
  The claims that \<open>verifyVpToken\<close> returns are dropped by the caller, so they are left empty.
  A session whose policy is gone makes the call throw before anything is consumed.
\<close>

definition protocol_verdict ::
  "oid_platform \<Rightarrow> verifier_platform \<Rightarrow> ('i, 'p, 'v, 'w) verifier_ports \<Rightarrow> verification_policy option \<Rightarrow> verification_session \<Rightarrow> string \<Rightarrow> post_body \<Rightarrow> verify_times
   \<Rightarrow> verifier_store \<Rightarrow> 'w \<Rightarrow> verdict \<times> verifier_store \<times> 'w" where
  "protocol_verdict pf vp ports policy x sid body clk s w = (case policy of None \<Rightarrow> (mapProtocolError Vp_foreign, s, w)
     | Some p \<Rightarrow> (case verifyOpenId4VpDirectPost pf (vse_request x) body (consume_state vp sid (vti_consume clk)) (verify_token ports p (vti_evaluate clk))
         (Some (map crq_name (vpo_requestedClaims p))) (s, None, w) of
           (Inl e, (s', ev, w')) \<Rightarrow> (mapProtocolError e, s', w')
         | (Inr _, (s', ev, w')) \<Rightarrow> (case ev of None \<Rightarrow> (rejected_as ''PRESENTATION_INVALID'', s', w') | Some v \<Rightarrow> (v, s', w'))))"

definition verifyResponse ::
  "verifier_service \<Rightarrow> oid_platform \<Rightarrow> verifier_platform \<Rightarrow> ('i, 'p, 'v, 'w) verifier_ports \<Rightarrow> string \<Rightarrow> post_body \<Rightarrow> verify_times \<Rightarrow> string
   \<Rightarrow> (verifier_store \<times> 'w, verifier_exn, verification_receipt) meth" where
  "verifyResponse svc pf vp ports sid body clk rid z = (case z of (s, w) \<Rightarrow>
     (case vst_sessions s sid of None \<Rightarrow> (Inl (Verifier_error ''SESSION_NOT_FOUND''), z)
      | Some x \<Rightarrow>
          (case (if past vp (vse_expiresAt x) (vti_start clk) then (rejected_as ''SESSION_EXPIRED'', s, w)
              else protocol_verdict pf vp ports (vsv_policies svc (vse_policyId x)) x sid body clk s w) of
             (v, s', w') \<Rightarrow> (case verifier_finish vp x v rid (vti_finish clk) s' of (r, s'') \<Rightarrow> (r, (s'', w'))))))"

end
