(* ===== verification/CredentialFormatsProps.thy ===== *)
theory CredentialFormatsProps
  imports CredentialFormats IssuerService
begin

text \<open>
  What the adapters and the registry of pinned formats promise.
\<close>

section \<open>Pinned descriptors\<close>

lemma descriptor_format: "format_descriptor f = Some d \<Longrightarrow> pf_format d = f"
  by (auto simp: format_descriptor_def split: if_splits)

text \<open>The issuer service's table of pins is the table of this package.\<close>

lemma pins_agree: "format_pins f = map_option (\<lambda>d. \<lparr>fp_profile = pf_profile d, fp_version = pf_version d, fp_mediaType = pf_mediaType d,
    fp_algorithms = pf_algorithms d\<rparr>) (format_descriptor f)"
  by (simp add: format_pins_def format_descriptor_def)

lemma selection_Inr: "assertSelection d q = Inr u \<longleftrightarrow> fs_format q = pf_format d \<and> fs_profile q = pf_profile d \<and> fs_version q = pf_version d"
  by (auto simp: assertSelection_def)

definition pinned_artifact :: "(string \<Rightarrow> string) \<Rightarrow> pinned_format \<Rightarrow> format_artifact \<Rightarrow> bool" where
  "pinned_artifact utf8 d a \<longleftrightarrow> 0 < value_bytes utf8 (fa_value a) \<and> value_bytes utf8 (fa_value a) \<le> 262144 \<and> fa_format a = pf_format d
     \<and> fa_profile a = pf_profile d \<and> fa_version a = pf_version d \<and> fa_mediaType a = pf_mediaType d"

lemma envelope_Inr: "assertEnvelope utf8 d a = Inr u \<longleftrightarrow> pinned_artifact utf8 d a"
  by (auto simp: assertEnvelope_def assertValue_def pinned_artifact_def bindE_Inr)

lemma inspection_Inr: "assertFormatInspection d i = Inr u \<longleftrightarrow> fi_format i = pf_format d \<and> fi_profile i = pf_profile d \<and> fi_version i = pf_version d
    \<and> fi_mediaType i = pf_mediaType d \<and> fi_algorithm i \<in> set (pf_algorithms d)"
  by (auto simp: assertFormatInspection_def)

lemma port_inspect_Inr: "port_inspect utf8 d po q a = Inr i \<longleftrightarrow> assertSelection d q = Inr () \<and> pinned_artifact utf8 d a
    \<and> po_inspect po (fa_value a) = Inr i \<and> assertFormatInspection d i = Inr () \<and> fi_kind i = fa_kind a"
  by (auto simp: port_inspect_def bindE_Inr envelope_Inr)

section \<open>The adapter\<close>

definition checked_by :: "(string \<Rightarrow> string) \<Rightarrow> pinned_format \<Rightarrow> ('i, 'p, 'v) format_port \<Rightarrow> format_artifact \<Rightarrow> 'v \<Rightarrow> format_result \<Rightarrow> bool" where
  "checked_by utf8 d po a x r \<longleftrightarrow> (\<exists>i v. pinned_artifact utf8 d a \<and> po_inspect po (fa_value a) = Inr i \<and> fi_kind i = fa_kind a
     \<and> po_verify po (fa_value a) x = Inr v \<and> pv_verified v \<and> pv_algorithm v = fi_algorithm i \<and> pv_algorithm v \<in> set (pf_algorithms d)
     \<and> r = verified_result d i v)"

lemma port_check_Inr: "port_check utf8 d po q a x = Inr r \<longleftrightarrow> assertSelection d q = Inr () \<and> (\<exists>i v. port_inspect utf8 d po q a = Inr i
    \<and> po_verify po (fa_value a) x = Inr v \<and> pv_verified v \<and> pv_algorithm v = fi_algorithm i \<and> r = verified_result d i v)"
  by (auto simp: port_check_def bindE_Inr envelope_Inr port_inspect_Inr inspection_Inr)

lemma port_verify_verified:
  assumes "fr_verified (port_verify utf8 d po q a x)"
  shows "assertSelection d q = Inr () \<and> checked_by utf8 d po a x (port_verify utf8 d po q a x)"
proof -
  obtain r where r: "port_check utf8 d po q a x = Inr r" "port_verify utf8 d po q a x = r"
    using assms by (auto simp: port_verify_def rejected_result_def split: sum.splits format_exn.splits)
  then show ?thesis
    unfolding r(2) checked_by_def using r(1) by (auto simp: port_check_Inr port_inspect_Inr inspection_Inr)
qed

lemma port_verify_rejected: "\<not> fr_verified (port_verify utf8 d po q a x) \<Longrightarrow> \<exists>c. port_verify utf8 d po q a x = rejected_result d c"
proof (cases "port_check utf8 d po q a x")
  case (Inl e)
  then show ?thesis by (cases e) (auto simp: port_verify_def)
next
  case (Inr r)
  moreover have "fr_verified r" using Inr by (auto simp: port_check_Inr verified_result_def)
  ultimately show "\<not> fr_verified (port_verify utf8 d po q a x) \<Longrightarrow> ?thesis" by (simp add: port_verify_def)
qed

text \<open>What is issued is a pinned credential that the adapter itself inspects as one.\<close>

lemma port_issue_Inr:
  assumes "port_issue utf8 d po q x = Inr a"
  shows "pf_canIssue d \<and> fa_kind a = Credential_kind \<and> (\<exists>i. port_inspect utf8 d po q a = Inr i)"
  using assms by (auto simp: port_issue_def make_artifact_def bindE_Inr split: bool.splits option.splits if_splits)

lemma port_present_Inr:
  assumes "port_present utf8 d po q c x = Inr a"
  shows "pf_canPresent d \<and> pinned_artifact utf8 d c \<and> fa_kind a = Presentation_artifact \<and> (\<exists>i. port_inspect utf8 d po q a = Inr i)"
  using assms by (auto simp: port_present_def make_artifact_def bindE_Inr envelope_Inr split: bool.splits option.splits if_splits)

section \<open>The registry\<close>

lemma register_Inr: "register_adapter a m = Inr m' \<longleftrightarrow> (\<exists>p. format_descriptor (pf_format (ad_descriptor a)) = Some p \<and> matches_pin (ad_descriptor a) p
    \<and> m (pf_format (ad_descriptor a)) = None \<and> m' = m(pf_format (ad_descriptor a) := Some a))"
  by (auto simp: register_adapter_def split: option.splits)

text \<open>Each registered adapter is found under its format, and nothing else is.\<close>

definition holds_adapters :: "('i, 'p, 'v) adapter_map \<Rightarrow> ('i, 'p, 'v) format_adapter list \<Rightarrow> bool" where
  "holds_adapters m as \<longleftrightarrow> (\<forall>f a. m f = Some a \<longleftrightarrow> a \<in> set as \<and> pf_format (ad_descriptor a) = f)
     \<and> distinct (map (pf_format \<circ> ad_descriptor) as) \<and> (\<forall>a\<in>set as. \<exists>p. format_descriptor (pf_format (ad_descriptor a)) = Some p \<and> matches_pin (ad_descriptor a) p)"

lemma register_holds:
  assumes "holds_adapters m as" "register_adapter a m = Inr m'"
  shows "holds_adapters m' (as @ [a])"
proof -
  obtain p where p: "format_descriptor (pf_format (ad_descriptor a)) = Some p" "matches_pin (ad_descriptor a) p" "m (pf_format (ad_descriptor a)) = None"
      "m' = m(pf_format (ad_descriptor a) := Some a)"
    using assms(2) by (auto simp: register_Inr)
  have new: "pf_format (ad_descriptor b) \<noteq> pf_format (ad_descriptor a)" if "b \<in> set as" for b
    using assms(1) p(3) that unfolding holds_adapters_def by (metis option.distinct(1))
  have "m' f = Some b \<longleftrightarrow> b \<in> set (as @ [a]) \<and> pf_format (ad_descriptor b) = f" for f b
    using assms(1) new by (cases "f = pf_format (ad_descriptor a)") (auto simp: holds_adapters_def p(4))
  moreover have "distinct (map (pf_format \<circ> ad_descriptor) (as @ [a]))"
  proof -
    have "pf_format (ad_descriptor a) \<notin> set (map (pf_format \<circ> ad_descriptor) as)" using new by fastforce
    then show ?thesis using assms(1) by (simp add: holds_adapters_def)
  qed
  moreover have "\<forall>b\<in>set (as @ [a]). \<exists>p. format_descriptor (pf_format (ad_descriptor b)) = Some p \<and> matches_pin (ad_descriptor b) p"
    using assms(1) p(1,2) by (auto simp: holds_adapters_def)
  ultimately show ?thesis unfolding holds_adapters_def by blast
qed

lemma register_all_holds: "holds_adapters m bs \<Longrightarrow> register_all as m = Inr m' \<Longrightarrow> holds_adapters m' (bs @ as)"
proof (induction as arbitrary: m bs)
  case (Cons a as)
  then obtain k where k: "register_adapter a m = Inr k" "register_all as k = Inr m'" by (auto simp: bindE_Inr)
  have "holds_adapters k (bs @ [a])" by (rule register_holds [OF Cons.prems(1) k(1)])
  from Cons.IH [OF this k(2)] show ?case by simp
qed simp

lemma new_registry_holds:
  assumes "new_adapter_registry as = Inr m"
  shows "holds_adapters m as" "length as = 4"
proof -
  have "holds_adapters Map.empty []" by (simp add: holds_adapters_def)
  with assms show "holds_adapters m as" "length as = 4"
    using register_all_holds [of Map.empty "[]" as m] by (auto simp: new_adapter_registry_def bindE_Inr format_names_def split: if_splits)
qed

text \<open>A registry that was built serves every pinned format.\<close>

lemma known_format: "format_descriptor f = Some p \<Longrightarrow> f \<in> set format_names"
  by (auto simp: format_descriptor_def format_names_def split: if_splits)

text \<open>
  C0: A registry that was built has, for every pinned format, exactly one of the given
  adapters, with the profile, version, media type, algorithms and abilities of the pin.
\<close>

theorem registry_serves_every_format:
  assumes "new_adapter_registry as = Inr m" "format_descriptor f = Some p"
  shows "\<exists>a\<in>set as. m f = Some a \<and> matches_pin (ad_descriptor a) p"
proof -
  let ?g = "pf_format \<circ> ad_descriptor"
  note h = new_registry_holds [OF assms(1)]
  have sub: "set (map ?g as) \<subseteq> set format_names"
  proof
    fix x
    assume "x \<in> set (map ?g as)"
    then obtain a where "a \<in> set as" "x = pf_format (ad_descriptor a)" by auto
    with h(1) show "x \<in> set format_names" using known_format unfolding holds_adapters_def by blast
  qed
  have c: "card (set (map ?g as)) = 4" using h unfolding holds_adapters_def by (metis distinct_card length_map)
  have n: "card (set format_names) = 4" by (simp add: format_names_def)
  have "set (map ?g as) = set format_names" by (rule card_subset_eq [OF List.finite_set sub]) (simp only: c n)
  with known_format [OF assms(2)] have "f \<in> set (map ?g as)" by simp
  then obtain a where a: "a \<in> set as" "pf_format (ad_descriptor a) = f" by auto
  with h(1) have "m f = Some a" unfolding holds_adapters_def by blast
  moreover have "matches_pin (ad_descriptor a) p"
  proof -
    obtain p' where "format_descriptor (pf_format (ad_descriptor a)) = Some p'" "matches_pin (ad_descriptor a) p'"
      using h(1) a(1) unfolding holds_adapters_def by blast
    with a(2) assms(2) show ?thesis by simp
  qed
  ultimately show ?thesis using a(1) by blast
qed

text \<open>Built by the two factories: a pinned descriptor over a port.\<close>

definition factory_adapter :: "(string \<Rightarrow> string) \<Rightarrow> ('i, 'p, 'v) format_adapter \<Rightarrow> bool" where
  "factory_adapter utf8 a \<longleftrightarrow> (\<exists>f d po. format_descriptor f = Some d \<and> a = port_adapter utf8 d po)"

text \<open>
  A verified result from a registry of the two factories' adapters means: the selection is
  exactly the pinned format, profile and version, the artifact carries the pinned labels and
  is within the size limit, its inspection agrees with its kind, and the port verified the
  proof with the inspected and allowlisted algorithm.
\<close>

theorem registry_verified_sound:
  assumes "new_adapter_registry as = Inr m" "\<forall>a\<in>set as. factory_adapter utf8 a"
    and "registry_verify m q a x = Inr r" "fr_verified r"
  shows "\<exists>d po. format_descriptor (fs_format q) = Some d \<and> fs_profile q = pf_profile d \<and> fs_version q = pf_version d
     \<and> port_adapter utf8 d po \<in> set as \<and> checked_by utf8 d po a x r"
proof -
  obtain ad where ad: "m (fs_format q) = Some ad" "ad_verify ad q a x = Inr r"
    using assms(3) by (auto simp: registry_verify_def registry_get_def bindE_Inr split: option.splits)
  have in_as: "ad \<in> set as" using new_registry_holds(1) [OF assms(1)] ad(1) unfolding holds_adapters_def by blast
  obtain f d po where d: "format_descriptor f = Some d" "ad = port_adapter utf8 d po" using assms(2) in_as unfolding factory_adapter_def by blast
  have r: "r = port_verify utf8 d po q a x" using ad(2) by (simp add: d(2) port_adapter_def)
  have "fr_verified (port_verify utf8 d po q a x)" using assms(4) r by simp
  then have "assertSelection d q = Inr () \<and> checked_by utf8 d po a x r" unfolding r by (rule port_verify_verified)
  with d descriptor_format [OF d(1)] in_as show ?thesis by (auto simp: selection_Inr)
qed

section \<open>A concrete registry\<close>

definition ex_inspection :: "pinned_format \<Rightarrow> format_inspection" where
  "ex_inspection d = \<lparr>fi_format = pf_format d, fi_profile = pf_profile d, fi_version = pf_version d, fi_mediaType = pf_mediaType d,
     fi_kind = Presentation_artifact, fi_algorithm = hd (pf_algorithms d), fi_issuer = Some ''did:ex:i'', fi_subject = None, fi_types = [''Age''],
     fi_keyId = None, fi_holderBound = True\<rparr>"

definition ex_format_port :: "pinned_format \<Rightarrow> (unit, unit, jsval) format_port" where
  "ex_format_port d = \<lparr>po_issue = None, po_present = None, po_inspect = (\<lambda>v. Inr (ex_inspection d)),
     po_verify = (\<lambda>v x. Inr \<lparr>pv_verified = True, pv_algorithm = hd (pf_algorithms d), pv_issuer = None, pv_subject = None, pv_types = None,
       pv_claims = None, pv_disclosed = Some [(''age'', JBool True)], pv_holderBound = None\<rparr>)\<rparr>"

definition ex_adapters :: "(unit, unit, jsval) format_adapter list" where
  "ex_adapters = map (\<lambda>f. let d = the (format_descriptor f) in port_adapter (\<lambda>s. s) d (ex_format_port d)) format_names"

definition ex_artifact :: format_artifact where
  "ex_artifact = \<lparr>fa_format = ''sd-jwt-vc'', fa_profile = ''draft-ietf-oauth-sd-jwt-vc-16'', fa_version = ''16'', fa_mediaType = ''dc+sd-jwt'',
     fa_kind = Presentation_artifact, fa_value = Text_value ''token''\<rparr>"

definition ex_selection :: format_selection where
  "ex_selection = \<lparr>fs_format = ''sd-jwt-vc'', fs_profile = ''draft-ietf-oauth-sd-jwt-vc-16'', fs_version = ''16''\<rparr>"

lemma ex_factory: "\<forall>a\<in>set ex_adapters. factory_adapter (\<lambda>s. s) a"
proof
  fix a
  assume "a \<in> set ex_adapters"
  then obtain f where f: "f \<in> set format_names" "a = port_adapter (\<lambda>s. s) (the (format_descriptor f)) (ex_format_port (the (format_descriptor f)))"
    by (auto simp: ex_adapters_def Let_def)
  have "format_descriptor f \<noteq> None" using f(1) by (auto simp: format_names_def format_descriptor_def)
  with f(2) show "factory_adapter (\<lambda>s. s) a" unfolding factory_adapter_def by force
qed

lemma ex_registry: "\<exists>m. new_adapter_registry ex_adapters = Inr m"
  by (simp add: new_adapter_registry_def ex_adapters_def format_names_def format_descriptor_def register_adapter_def matches_pin_def port_adapter_def Let_def)

lemma ex_verified: "new_adapter_registry ex_adapters = Inr m \<Longrightarrow> \<exists>r. registry_verify m ex_selection ex_artifact JNull = Inr r \<and> fr_verified r"
  by (auto simp: new_adapter_registry_def ex_adapters_def format_names_def format_descriptor_def register_adapter_def matches_pin_def port_adapter_def
    Let_def registry_verify_def registry_get_def ex_selection_def ex_artifact_def assertSelection_def port_verify_def port_check_def assertEnvelope_def
    assertValue_def value_bytes_def port_inspect_def ex_format_port_def ex_inspection_def assertFormatInspection_def verified_result_def)

theorem registry_verified_sound_witness:
  "\<exists>m r d (po :: (unit, unit, jsval) format_port). new_adapter_registry ex_adapters = Inr m \<and> registry_verify m ex_selection ex_artifact JNull = Inr r
     \<and> format_descriptor ''sd-jwt-vc'' = Some d \<and> checked_by (\<lambda>s. s) d po ex_artifact JNull r"
proof -
  obtain m where m: "new_adapter_registry ex_adapters = Inr m" using ex_registry by blast
  obtain r where r: "registry_verify m ex_selection ex_artifact JNull = Inr r" "fr_verified r" using ex_verified [OF m] by blast
  have "fs_format ex_selection = ''sd-jwt-vc''" by (simp add: ex_selection_def)
  with m r registry_verified_sound [OF m ex_factory r] show ?thesis by auto
qed

theorem registry_serves_every_format_witness:
  "\<exists>m. new_adapter_registry ex_adapters = Inr m \<and> (\<exists>a\<in>set ex_adapters. m ''iso-mdoc'' = Some a)"
proof -
  obtain m where m: "new_adapter_registry ex_adapters = Inr m" using ex_registry by blast
  have "\<exists>p. format_descriptor ''iso-mdoc'' = Some p" by (simp add: format_descriptor_def)
  with registry_serves_every_format [OF m] m show ?thesis by blast
qed

end
