(* ===== verification/OpenId4VcProps.thy ===== *)
theory OpenId4VcProps
  imports OpenId4Vc "HOL-Library.Multiset"
begin

text \<open>
  What a parsed request, an accepted response and a finished issuance guarantee, and where an
  issuance sends its requests.
\<close>

section \<open>Presentation requests\<close>

lemma https_origin_Inr: "https_origin pf s = Inr u \<longleftrightarrow> oid_url pf s = Some u \<and> ou_protocol u = ''https:''"
  by (auto simp: https_origin_def split: option.splits)

lemma unique_param_Inr: "unique_param ps k = Inr x \<longleftrightarrow> (case x of None \<Rightarrow> all_values ps k = [] | Some v \<Rightarrow> all_values ps k = [v])"
  by (auto simp: unique_param_def split: list.splits option.splits)

lemma required_param_Inr: "required_param ps k = Inr v \<longleftrightarrow> all_values ps k = [v] \<and> v \<noteq> '''' \<and> length v \<le> 8192"
proof (cases "all_values ps k")
  case (Cons u us)
  then show ?thesis by (cases us) (auto simp: required_param_def unique_param_def)
qed (simp add: required_param_def unique_param_def)

text \<open>Where the claims of a signed request come from.\<close>

definition signed_by :: "oid_platform \<Rightarrow> vp_hooks \<Rightarrow> (string \<times> string) list \<Rightarrow> (string \<times> jsval) list \<Rightarrow> bool" where
  "signed_by pf h ps es \<longleftrightarrow> (\<forall>ru. all_values ps ''request_uri'' = [ru] \<and> ru \<noteq> '''' \<longrightarrow>
     (\<exists>u get verify jwt cs. oid_url pf ru = Some u \<and> ou_protocol u = ''https:'' \<and> length ru \<le> 2048 \<and> vh_fetchRequestUri h = Some get
        \<and> vh_verifySignedRequest h = Some verify \<and> get (ou_text u) = Inr jwt \<and> verify jwt = Inr cs \<and> es = omap_set ''request_uri'' (JStr (ou_text u)) cs))
   \<and> (\<forall>jwt. all_values ps ''request_uri'' = [] \<and> all_values ps ''request'' = [jwt] \<and> jwt \<noteq> '''' \<longrightarrow>
     (\<exists>verify. vh_verifySignedRequest h = Some verify \<and> verify jwt = Inr es))"

lemma signed_claims_Inr:
  assumes "signed_claims pf h ru = Inr es"
  shows "\<exists>u get verify jwt cs. oid_url pf ru = Some u \<and> ou_protocol u = ''https:'' \<and> length ru \<le> 2048 \<and> vh_fetchRequestUri h = Some get
    \<and> vh_verifySignedRequest h = Some verify \<and> get (ou_text u) = Inr jwt \<and> verify jwt = Inr cs \<and> es = omap_set ''request_uri'' (JStr (ou_text u)) cs"
  using assms by (fastforce simp: signed_claims_def bindE_Inr https_origin_Inr not_less split: if_splits option.splits)

lemma request_claims_signed:
  assumes "request_claims pf h (Request_url s) = Inr es"
  shows "\<exists>u. oid_url pf s = Some u \<and> signed_by pf h (ou_params u) es"
proof -
  obtain u where u1: "oid_url pf s = Some u" using assms by (cases "oid_url pf s") (auto simp: request_claims_def)
  have "bindE (unique_param (ou_params u) ''request_uri'') (\<lambda>ru. bindE (unique_param (ou_params u) ''request'') (\<lambda>jwt.
      if \<not> no_value ru then signed_claims pf h (the ru)
      else if \<not> no_value jwt then (case vh_verifySignedRequest h of None \<Rightarrow> Inl (Vp_error ''untrusted_request'') | Some verify \<Rightarrow> verify (the jwt))
      else plain_claims pf (ou_params u))) = Inr es"
    using assms by (simp add: request_claims_def u1)
  then obtain ru jwt where u2: "unique_param (ou_params u) ''request_uri'' = Inr ru" "unique_param (ou_params u) ''request'' = Inr jwt"
    and k: "(if \<not> no_value ru then signed_claims pf h (the ru)
      else if \<not> no_value jwt then (case vh_verifySignedRequest h of None \<Rightarrow> Inl (Vp_error ''untrusted_request'') | Some verify \<Rightarrow> verify (the jwt))
      else plain_claims pf (ou_params u)) = Inr es"
    unfolding bindE_Inr by blast
  note u = u1 u2
  have "signed_by pf h (ou_params u) es"
    unfolding signed_by_def
  proof (intro conjI allI impI)
    fix r
    assume "all_values (ou_params u) ''request_uri'' = [r] \<and> r \<noteq> ''''"
    then have "ru = Some r" "\<not> no_value ru" using u(2) by (auto simp: unique_param_Inr no_value_def split: option.splits)
    with k have "signed_claims pf h r = Inr es" by simp
    then show "\<exists>u get verify jwt cs. oid_url pf r = Some u \<and> ou_protocol u = ''https:'' \<and> length r \<le> 2048 \<and> vh_fetchRequestUri h = Some get
        \<and> vh_verifySignedRequest h = Some verify \<and> get (ou_text u) = Inr jwt \<and> verify jwt = Inr cs \<and> es = omap_set ''request_uri'' (JStr (ou_text u)) cs"
      by (rule signed_claims_Inr)
  next
    fix j
    assume "all_values (ou_params u) ''request_uri'' = [] \<and> all_values (ou_params u) ''request'' = [j] \<and> j \<noteq> ''''"
    then have "ru = None" "jwt = Some j" "no_value ru" "\<not> no_value jwt" using u(2,3) by (auto simp: unique_param_Inr no_value_def split: option.splits)
    with k show "\<exists>verify. vh_verifySignedRequest h = Some verify \<and> verify j = Inr es" by (auto split: option.splits)
  qed
  with u(1) show ?thesis by blast
qed

definition items_recognised :: "vp_hooks \<Rightarrow> string list option \<Rightarrow> bool" where
  "items_recognised h x \<longleftrightarrow> (\<forall>ts. x = Some ts \<longrightarrow> (\<exists>f. vh_validateTransactionData h = Some f \<and> (\<forall>t\<in>set ts. f t = Inr True \<and> length t \<le> 4096)))"

lemma text_items_Some: "text_items v = Some ts \<longleftrightarrow> v = JArr (map JStr ts) \<and> (\<forall>t\<in>set ts. length t \<le> 4096)"
proof
  assume h: "text_items v = Some ts"
  then obtain vs where v: "v = JArr vs" "list_all (\<lambda>x. case x of JStr s \<Rightarrow> length s \<le> 4096 | _ \<Rightarrow> False) vs"
      "ts = map (\<lambda>x. case x of JStr s \<Rightarrow> s | _ \<Rightarrow> '''') vs"
    by (cases v) (auto simp: text_items_def split: if_splits)
  from v(2) have "vs = map JStr (map (\<lambda>x. case x of JStr s \<Rightarrow> s | _ \<Rightarrow> '''') vs) \<and> (\<forall>t\<in>set (map (\<lambda>x. case x of JStr s \<Rightarrow> s | _ \<Rightarrow> '''') vs). length t \<le> 4096)"
    by (induction vs) (auto split: jsval.splits)
  with v show "v = JArr (map JStr ts) \<and> (\<forall>t\<in>set ts. length t \<le> 4096)" by metis
next
  assume "v = JArr (map JStr ts) \<and> (\<forall>t\<in>set ts. length t \<le> 4096)"
  then show "text_items v = Some ts" by (auto simp: text_items_def list_all_iff comp_def)
qed

lemma transaction_items_Inr: "transaction_items h v = Inr x \<Longrightarrow> items_recognised h x"
  by (auto simp: transaction_items_def items_recognised_def text_items_Some bindE_Inr forE_Inr split: if_splits option.splits)

text \<open>
  C27: A parsed presentation request asks for vp_token over direct_post, takes its fields from
  the claims, names a response address on HTTPS and a verifier the hook confirmed, carries
  only transaction data the hook recognised, and when the input was an address with
  request_uri or request, its claims are those the trust hook returned for it.
\<close>

theorem vp_request_sound:
  assumes "parseOpenId4VpRequest pf h input = Inr r"
  shows "\<exists>es u. request_claims pf h input = Inr es \<and> jfield es ''response_type'' = JStr ''vp_token'' \<and> jfield es ''response_mode'' = JStr ''direct_post''
     \<and> [vp_client_id r, vp_response_uri r, vp_nonce r, vp_state r] = map (claim_text es) [''client_id'', ''response_uri'', ''nonce'', ''state'']
     \<and> vp_client_id r \<noteq> '''' \<and> vp_nonce r \<noteq> '''' \<and> vp_state r \<noteq> '''' \<and> js_truthy (vp_dcql_query r)
     \<and> oid_url pf (vp_response_uri r) = Some u \<and> ou_protocol u = ''https:''
     \<and> (\<forall>f. vh_resolveVerifier h = Some f \<longrightarrow> f (vp_client_id r) = Inr True) \<and> items_recognised h (vp_transaction_data r)
     \<and> (\<forall>s. input = Request_url s \<longrightarrow> (\<exists>w. oid_url pf s = Some w \<and> signed_by pf h (ou_params w) es))"
proof -
  obtain es where es: "request_claims pf h input = Inr es" using assms by (auto simp: parseOpenId4VpRequest_def bindE_Inr)
  have r: "jfield es ''response_type'' = JStr ''vp_token''" "jfield es ''response_mode'' = JStr ''direct_post''"
    "claim_text es ''client_id'' \<noteq> ''''" "claim_text es ''nonce'' \<noteq> ''''" "claim_text es ''state'' \<noteq> ''''" "js_truthy (jfield es ''dcql_query'')"
    "\<exists>u. https_origin pf (claim_text es ''response_uri'') = Inr u" "confirm_verifier h (claim_text es ''client_id'') = Inr ()"
    "transaction_items h (jfield es ''transaction_data'') = Inr (vp_transaction_data r)"
    "vp_client_id r = claim_text es ''client_id''" "vp_response_uri r = claim_text es ''response_uri''" "vp_nonce r = claim_text es ''nonce''"
    "vp_state r = claim_text es ''state''" "vp_dcql_query r = jfield es ''dcql_query''"
    using assms unfolding parseOpenId4VpRequest_def es bindE_simps by (auto simp: bindE_Inr split: if_splits)
  have v: "\<forall>f. vh_resolveVerifier h = Some f \<longrightarrow> f (vp_client_id r) = Inr True"
    using r(8) by (auto simp: confirm_verifier_def bindE_Inr r(10) split: if_splits)
  have s: "\<forall>s. input = Request_url s \<longrightarrow> (\<exists>w. oid_url pf s = Some w \<and> signed_by pf h (ou_params w) es)"
    using es request_claims_signed by blast
  obtain u where "oid_url pf (vp_response_uri r) = Some u" "ou_protocol u = ''https:''" using r(7) by (auto simp: https_origin_Inr r(11))
  with es r v s transaction_items_Inr [OF r(9)] show ?thesis by simp
qed

text \<open>The wallet reads back what the verifier built.\<close>

text \<open>
  Whatever request the verifier builds, a wallet that trusts the verifier and recognises
  its transaction data parses back unchanged.
\<close>

theorem built_request_parses:
  assumes "buildOpenId4VpRequest pf q = Inr r" "js_truthy (vq_dcqlQuery q)"
    and "\<forall>f. vh_resolveVerifier h = Some f \<longrightarrow> f (vq_clientId q) = Inr True"
    and "\<forall>ts. vq_transactionData q = Some ts \<longrightarrow> (\<exists>f. vh_validateTransactionData h = Some f \<and> (\<forall>t\<in>set ts. f t = Inr True))"
  shows "parseOpenId4VpRequest pf h (Request_object (request_entries r)) = Inr r"
proof -
  have b: "vq_clientId q \<noteq> ''''" "vq_nonce q \<noteq> ''''" "vq_state q \<noteq> ''''" "\<exists>u. https_origin pf (vq_responseUri q) = Inr u"
    "\<forall>ts. vq_transactionData q = Some ts \<longrightarrow> (\<forall>t\<in>set ts. length t \<le> 4096)"
    and r: "r = \<lparr>vp_client_id = vq_clientId q, vp_response_uri = vq_responseUri q, vp_nonce = vq_nonce q, vp_state = vq_state q,
        vp_dcql_query = vq_dcqlQuery q, vp_transaction_data = vq_transactionData q, vp_request_uri = None\<rparr>"
    using assms(1) by (auto simp: buildOpenId4VpRequest_def bindE_Inr list_ex_iff not_less split: if_splits option.splits)
  let ?es = "request_entries r"
  have f: "jfield ?es ''response_type'' = JStr ''vp_token''" "jfield ?es ''response_mode'' = JStr ''direct_post''"
    "jfield ?es ''client_id'' = JStr (vq_clientId q)" "jfield ?es ''response_uri'' = JStr (vq_responseUri q)" "jfield ?es ''nonce'' = JStr (vq_nonce q)"
    "jfield ?es ''state'' = JStr (vq_state q)" "jfield ?es ''dcql_query'' = vq_dcqlQuery q" "jfield ?es ''request_uri'' = JUndef"
    "jfield ?es ''transaction_data'' = (case vq_transactionData q of None \<Rightarrow> JUndef | Some ts \<Rightarrow> JArr (map JStr ts))"
    by (simp_all add: request_entries_def r split: option.split)
  have c: "confirm_verifier h (vq_clientId q) = Inr ()" using assms(3) by (auto simp: confirm_verifier_def split: option.split)
  have t: "transaction_items h (case vq_transactionData q of None \<Rightarrow> JUndef | Some ts \<Rightarrow> JArr (map JStr ts)) = Inr (vq_transactionData q)"
  proof (cases "vq_transactionData q")
    case None
    then show ?thesis by (simp add: transaction_items_def)
  next
    case (Some ts)
    then obtain g where g: "vh_validateTransactionData h = Some g" "\<forall>t\<in>set ts. g t = Inr True" using assms(4) by blast
    have "text_items (JArr (map JStr ts)) = Some ts" using b(5) Some by (simp add: text_items_Some)
    moreover have "forE (\<lambda>t. bindE (g t) (\<lambda>ok. if \<not> ok then Inl (Vp_error ''invalid_transaction_data'') else Inr ())) ts = Inr ()"
      using g(2) by (simp add: forE_Inr)
    ultimately show ?thesis using Some g(1) by (simp add: transaction_items_def)
  qed
  from b(4) obtain u where u: "https_origin pf (vq_responseUri q) = Inr u" by blast
  show ?thesis
    unfolding parseOpenId4VpRequest_def request_claims_def vp_input.case bindE_simps claim_text_def f jsval.case u c t
    using b(1-3) assms(2) by (simp add: r)
qed

section \<open>Presentation responses\<close>

lemma direct_post_fields_Inr: "direct_post_fields pf expected body = Inr (state, token) \<longleftrightarrow>
    all_values (body_params pf body) ''state'' = [state] \<and> state = vp_state expected \<and> state \<noteq> '''' \<and> length state \<le> 8192
    \<and> all_values (body_params pf body) ''vp_token'' = [token] \<and> token \<noteq> '''' \<and> length token \<le> 8192"
proof -
  let ?R = "\<lambda>k v. required_param (body_params pf body) k = Inr v"
  have "direct_post_fields pf expected body = Inr (state, token) \<longleftrightarrow> (\<exists>a. ?R ''state'' a \<and> (\<exists>b. ?R ''vp_token'' b \<and>
      (if length (all_values (body_params pf body) ''state'') \<noteq> 1 \<or> length (all_values (body_params pf body) ''vp_token'') \<noteq> 1
       then Inl (Vp_error ''duplicate_parameter'') else if a \<noteq> vp_state expected then Inl (Vp_error ''state_mismatch'')
       else if 32768 < length b then Inl (Vp_error ''response_too_large'') else Inr (a, b)) = Inr (state, token)))"
    unfolding direct_post_fields_def Let_def bindE_Inr ..
  also have "\<dots> \<longleftrightarrow> ?R ''state'' state \<and> ?R ''vp_token'' token \<and> state = vp_state expected"
    by (rule iffI) (auto simp: required_param_Inr split: if_splits)
  finally show ?thesis by (auto simp: required_param_Inr)
qed

text \<open>The size limit of the presentation is never reached: a parameter above 8192 is refused before.\<close>

lemma too_large_unreachable: "direct_post_fields pf expected body \<noteq> Inl (Vp_error ''response_too_large'')"
proof
  assume h: "direct_post_fields pf expected body = Inl (Vp_error ''response_too_large'')"
  have n: "required_param ps k \<noteq> Inl (Vp_error ''response_too_large'')" for ps k
    by (auto simp: required_param_def unique_param_def bindE_def split: list.splits option.splits if_splits)
  obtain state token where t: "required_param (body_params pf body) ''vp_token'' = Inr token" "32768 < length token"
    using h n by (auto simp: direct_post_fields_def Let_def bindE_Inl split: if_splits)
  then show False by (simp add: required_param_Inr)
qed

lemma disclosures_match_mset: "disclosures_match (Some es) ds \<longleftrightarrow> mset ds = mset es"
  unfolding disclosures_match_def option.case
proof
  assume "sort ds = sort es"
  then show "mset ds = mset es" by (metis mset_sort)
next
  assume "mset ds = mset es"
  then show "sort ds = sort es" by (intro properties_for_sort) simp_all
qed

text \<open>
  An accepted response carries the expected state and one token once each, the state was
  consumed before the token was verified, the token was verified against the audience and
  nonce of the request, and the disclosures are exactly the approved ones, with multiplicity.
\<close>

theorem direct_post_sound:
  assumes "verifyOpenId4VpDirectPost pf expected body consume verifyToken disclosures s = (Inr (cs, token), t)"
  shows "\<exists>u ds. consume (vp_state expected) s = (True, u) \<and> verifyToken token (vp_client_id expected) (vp_nonce expected) u = (Inr (ds, cs), t)
     \<and> all_values (body_params pf body) ''state'' = [vp_state expected] \<and> all_values (body_params pf body) ''vp_token'' = [token]
     \<and> length token \<le> 8192 \<and> (\<forall>es. disclosures = Some es \<longrightarrow> mset ds = mset es)"
proof -
  obtain u r where b: "direct_post_begin pf expected body consume s = (Inr token, u)"
    and v: "verifyToken token (vp_client_id expected) (vp_nonce expected) u = (Inr r, t)" "direct_post_end disclosures r = Inr cs"
    using assms unfolding verifyOpenId4VpDirectPost_def by (auto simp: bindS_Inr)
  from b obtain state where f: "direct_post_fields pf expected body = Inr (state, token)" "consume state s = (True, u)"
    by (auto simp: direct_post_begin_def split: sum.splits prod.splits if_splits)
  from v(2) have e: "disclosures_match disclosures (fst r)" "cs = snd r" by (simp_all add: direct_post_end_def split: if_splits)
  have "\<forall>es. disclosures = Some es \<longrightarrow> mset (fst r) = mset es" using e(1) disclosures_match_mset by blast
  moreover have "verifyToken token (vp_client_id expected) (vp_nonce expected) u = (Inr (fst r, cs), t)" using v(1) e(2) by simp
  ultimately show ?thesis using f by (auto simp: direct_post_fields_Inr)
qed

section \<open>Metadata\<close>

lemma public_origin_Inr: "public_origin pf s = Inr u \<longleftrightarrow> oid_url pf s = Some u \<and> ou_protocol u = ''https:'' \<and> \<not> private_host (to_lower (ou_hostname u))"
  by (auto simp: public_origin_def vci_fail_def split: option.splits)

lemma same_origin_Inr: "same_origin pf a b = Inr ok \<longleftrightarrow> (\<exists>u w. oid_url pf a = Some u \<and> oid_url pf b = Some w \<and> ok = (ou_origin u = ou_origin w))"
  by (auto simp: same_origin_def split: option.splits)

text \<open>An address of a public host on HTTPS with the given origin.\<close>

definition at_home :: "oid_platform \<Rightarrow> string \<Rightarrow> string \<Rightarrow> bool" where
  "at_home pf orig url \<longleftrightarrow> (\<exists>x. oid_url pf url = Some x \<and> ou_protocol x = ''https:'' \<and> \<not> private_host (to_lower (ou_hostname x)) \<and> ou_origin x = orig)"

lemma token_endpoint_Inr:
  assumes "token_endpoint pf issuer v = Inr (Some t)" "oid_url pf issuer = Some u"
  shows "at_home pf (ou_origin u) t"
  using assms by (auto simp: token_endpoint_def at_home_def bindE_Inr public_origin_Inr same_origin_Inr vci_fail_def split: if_splits)

lemma vci_metadata_Inr:
  assumes "parseIssuerMetadata pf v expected = Inr m"
  shows "\<exists>u. oid_url pf (vm_credential_issuer m) = Some u \<and> at_home pf (ou_origin u) (vm_credential_issuer m) \<and> at_home pf (ou_origin u) (vm_credential_endpoint m)
    \<and> (\<forall>t. vm_token_endpoint m = Some t \<longrightarrow> at_home pf (ou_origin u) t) \<and> (\<not> no_value expected \<longrightarrow> expected = Some (vm_credential_issuer m))"
proof -
  obtain raw where raw: "object_entries v = Some raw" using assms by (cases "object_entries v") (auto simp: parseIssuerMetadata_def vci_fail_def)
  obtain issuer endpoint same where p: "(\<exists>u. public_origin pf issuer = Inr u)" "(\<exists>u. public_origin pf endpoint = Inr u)" "same_origin pf issuer endpoint = Inr same"
    and k: "(if \<not> same \<or> (\<not> no_value expected \<and> Some issuer \<noteq> expected) then vci_fail ''origin_mismatch'' else
         (case jfield raw ''credential_configurations_supported'' of
            JObj configs \<Rightarrow> bindE (mapE configuration configs) (\<lambda>cs.
              bindE (token_endpoint pf issuer (jfield raw ''token_endpoint'')) (\<lambda>t.
              Inr \<lparr>vm_credential_issuer = issuer, vm_credential_endpoint = endpoint, vm_token_endpoint = t,
                vm_configurations = own_configurations cs, vm_prototype = list_ex (\<lambda>c. fst c = ''__proto__'') cs\<rparr>))
          | _ \<Rightarrow> vci_fail ''invalid_metadata'')) = Inr m"
    using assms unfolding parseIssuerMetadata_def raw option.case bindE_Inr by blast
  from k have s: "same" "no_value expected \<or> Some issuer = expected" by (auto simp: vci_fail_def split: if_splits)
  from k s obtain configs where c: "jfield raw ''credential_configurations_supported'' = JObj configs"
    by (cases "jfield raw ''credential_configurations_supported''") (auto simp: vci_fail_def)
  from k s c obtain t where t: "token_endpoint pf issuer (jfield raw ''token_endpoint'') = Inr t" "vm_credential_issuer m = issuer"
      "vm_credential_endpoint m = endpoint" "vm_token_endpoint m = t"
    by (auto simp: bindE_Inr)
  from p s(1) obtain u w where u: "public_origin pf issuer = Inr u" "public_origin pf endpoint = Inr w" "ou_origin u = ou_origin w"
    by (auto simp: public_origin_Inr same_origin_Inr)
  have "\<forall>x. t = Some x \<longrightarrow> at_home pf (ou_origin u) x" using t(1) u(1) token_endpoint_Inr by (auto simp: public_origin_Inr)
  with u t s(2) show ?thesis by (auto simp: public_origin_Inr at_home_def)
qed

section \<open>Calls\<close>

definition calls_home :: "oid_platform \<Rightarrow> string \<Rightarrow> http_call list \<Rightarrow> nat \<Rightarrow> 'w oid_world \<Rightarrow> bool" where
  "calls_home pf orig cs n w \<longleftrightarrow> (\<exists>ds. fst w = ds @ cs \<and> length ds \<le> n \<and> (\<forall>d\<in>set ds. at_home pf orig (fst d)))"

lemma calls_home_mono: "calls_home pf orig cs n w \<Longrightarrow> n \<le> m \<Longrightarrow> calls_home pf orig cs m w"
  unfolding calls_home_def by fastforce

lemma calls_home_add: "calls_home pf orig cs n (ds, x) \<Longrightarrow> at_home pf orig (fst d) \<Longrightarrow> calls_home pf orig cs (Suc n) (d # ds, y)"
  unfolding calls_home_def by (metis (no_types, opaque_lifting) Suc_le_mono append_Cons fst_conv length_Cons set_ConsD)

lemma request_home:
  assumes "\<And>x. oid_url pf url = Some x \<Longrightarrow> ou_origin x = orig"
  shows "tripleS (calls_home pf orig cs n) (http_request_to pf tr url init) (\<lambda>_. calls_home pf orig cs (Suc n)) (\<lambda>_. calls_home pf orig cs (Suc n))"
proof -
  have "calls_home pf orig cs (Suc n) (snd (http_request_to pf tr url init w))" if h: "calls_home pf orig cs n w" for w
  proof (cases "public_origin pf url")
    case (Inl e)
    then show ?thesis using calls_home_mono [OF h] by (simp add: http_request_to_def)
  next
    case (Inr u)
    then have "at_home pf orig (fst (url, init))" using assms by (auto simp: at_home_def public_origin_Inr)
    then have "calls_home pf orig cs (Suc n) ((url, init) # fst w, x)" for x :: 'a
      using calls_home_add [of pf orig cs n "fst w" "snd w" "(url, init)"] h by simp
    then have "calls_home pf orig cs (Suc n) (snd (http_send tr url init w))" by (simp add: http_send_def split: prod.split)
    moreover obtain r y where "http_send tr url init w = (r, y)" by (cases "http_send tr url init w") blast
    ultimately show ?thesis using Inr by (cases r) (simp_all add: http_request_to_def)
  qed
  then show ?thesis unfolding tripleS_def by (auto split: prod.split sum.split) (metis snd_conv)+
qed

lemma tripleS_pure_then:
  assumes "\<And>x. r = Inr x \<Longrightarrow> tripleS P (k x) Q E" "\<And>e s. P s \<Longrightarrow> E e s"
  shows "tripleS P (bindS (pureS r) k) Q E"
  using assms by (cases r) (auto simp: tripleS_def bindS_def)

lemma tripleS_stop: "tripleS P (throwS e) Q E" if "\<And>s. P s \<Longrightarrow> E e s"
  using that by (simp add: tripleS_def)

lemma tripleS_request_then:
  assumes "\<And>x. oid_url pf url = Some x \<Longrightarrow> ou_origin x = orig"
    and "\<And>r. tripleS (calls_home pf orig cs (Suc n)) (k r) (\<lambda>_. calls_home pf orig cs m) (\<lambda>_. calls_home pf orig cs m)" "Suc n \<le> m"
  shows "tripleS (calls_home pf orig cs n) (bindS (http_request_to pf tr url init) k) (\<lambda>_. calls_home pf orig cs m) (\<lambda>_. calls_home pf orig cs m)"
  by (rule tripleS_bind [OF tripleS_weaken [OF request_home [OF assms(1)]] assms(2)]) (auto intro: calls_home_mono [OF _ assms(3)])

lemma tripleS_still:
  assumes "\<And>s. snd (m s) = s"
  shows "tripleS P m (\<lambda>_. P) (\<lambda>_. P)"
  using assms unfolding tripleS_def by (auto split: prod.split sum.split) (metis snd_conv)+

lemma on_world_home: "tripleS (calls_home pf orig cs n) (on_world m) (\<lambda>_. calls_home pf orig cs n) (\<lambda>_. calls_home pf orig cs n)"
  unfolding tripleS_def on_world_def calls_home_def by (auto split: prod.split sum.split)

lemma getJson_home: "tripleS (calls_home pf (ou_origin u) cs n) (getJson pf tr url o2) (\<lambda>_. calls_home pf (ou_origin u) cs (Suc n)) (\<lambda>_. calls_home pf (ou_origin u) cs (Suc n))"
  if "\<And>x. oid_url pf url = Some x \<Longrightarrow> oid_url pf o2 \<noteq> None \<Longrightarrow> ou_origin x = ou_origin (the (oid_url pf o2)) \<Longrightarrow> ou_origin x = ou_origin u"
  unfolding getJson_def
proof (rule tripleS_pure_then)
  fix same
  assume s: "same_origin pf url o2 = Inr same"
  show "tripleS (calls_home pf (ou_origin u) cs n) (if \<not> same then throwS (Vci_error ''origin_mismatch'' Act_reject) else
     bindS (http_request_to pf tr url None) (\<lambda>r.
     if 300 \<le> hp_status r \<and> hp_status r < 400 then throwS (Vci_error ''redirect_rejected'' Act_reject)
     else if hp_status r \<noteq> 200 then throwS (Vci_error ''issuer_error'' Act_retry)
     else pureS (bounded_json pf (hp_body r) 32768)))
     (\<lambda>_. calls_home pf (ou_origin u) cs (Suc n)) (\<lambda>_. calls_home pf (ou_origin u) cs (Suc n))"
  proof (cases same)
    case False
    then show ?thesis by (simp add: tripleS_def calls_home_mono)
  next
    case True
    with s that have "\<And>x. oid_url pf url = Some x \<Longrightarrow> ou_origin x = ou_origin u" by (auto simp: same_origin_Inr)
    then have "tripleS (calls_home pf (ou_origin u) cs n) (bindS (http_request_to pf tr url None) (\<lambda>r.
       if 300 \<le> hp_status r \<and> hp_status r < 400 then throwS (Vci_error ''redirect_rejected'' Act_reject)
       else if hp_status r \<noteq> 200 then throwS (Vci_error ''issuer_error'' Act_retry)
       else pureS (bounded_json pf (hp_body r) 32768)))
       (\<lambda>_. calls_home pf (ou_origin u) cs (Suc n)) (\<lambda>_. calls_home pf (ou_origin u) cs (Suc n))"
      by (rule tripleS_request_then) (auto intro!: tripleS_still)
    then show ?thesis using True by simp
  qed
qed (simp add: calls_home_mono)

lemma fetch_home:
  assumes "\<And>x. oid_url pf url = Some x \<Longrightarrow> ou_origin x = orig"
  shows "tripleS (calls_home pf orig cs n) (fetch_token pf tr url off) (\<lambda>_. calls_home pf orig cs (Suc n)) (\<lambda>_. calls_home pf orig cs (Suc n))"
    "tripleS (calls_home pf orig cs n) (fetch_credential pf tr url rq) (\<lambda>_. calls_home pf orig cs (Suc n)) (\<lambda>_. calls_home pf orig cs (Suc n))"
  unfolding fetch_token_def fetch_credential_def
  by (rule tripleS_request_then [OF assms]; auto intro!: tripleS_still simp: bindS_def Let_def split: sum.split jsval.split)+

lemma store_home: "tripleS (calls_home pf orig cs n) (store_credential pf input off v) (\<lambda>_. calls_home pf orig cs n) (\<lambda>_. calls_home pf orig cs n)"
proof (cases "ii_vault input")
  case None
  then show ?thesis by (simp add: store_credential_def tripleS_def)
next
  case (Some put)
  then show ?thesis unfolding store_credential_def by simp (rule tripleS_bind [OF on_world_home tripleS_still]; simp)
qed

section \<open>Where an issuance goes\<close>

text \<open>What the code relies on in the URL parser: an origin is its own origin, with or without a path.\<close>

definition origin_laws :: "oid_platform \<Rightarrow> bool" where
  "origin_laws pf \<longleftrightarrow> (\<forall>s u p v. oid_url pf s = Some u \<and> ou_protocol u = ''https:'' \<and> p \<in> {'''', ''/oauth/token'', ''/.well-known/openid-credential-issuer''}
     \<and> oid_url pf (ou_origin u @ p) = Some v \<longrightarrow> ou_origin v = ou_origin u)"

text \<open>The part of an issuance after the offer and its issuer were accepted.\<close>

definition issuance_exchange :: "oid_platform \<Rightarrow> 'w issuance_input \<Rightarrow> vci_offer \<Rightarrow> oid_url \<Rightarrow> vci_metadata \<Rightarrow> ('w oid_world, vci_exn, string \<times> jsval \<times> bool) meth" where
  "issuance_exchange pf input off u m = bindS (fetch_token pf (ii_transport input)
        (case vm_token_endpoint m of None \<Rightarrow> ou_origin u @ ''/oauth/token'' | Some t \<Rightarrow> t) off) (\<lambda>token.
      bindS (fetch_credential pf (ii_transport input) (vm_credential_endpoint m)
        (credential_request pf token (vo_configuration off) (ii_proofJwt input))) (\<lambda>c.
      bindS (on_world (ii_verifyCredential input c)) (\<lambda>verified.
      if \<not> js_truthy verified then throwS (Vci_error ''verification_failed'' Act_reject) else
      bindS (store_credential pf input off verified) (\<lambda>stored. returnS (c, verified, stored)))))"

definition issuance_calls :: "oid_platform \<Rightarrow> 'w issuance_input \<Rightarrow> vci_offer \<Rightarrow> oid_url \<Rightarrow> ('w oid_world, vci_exn, string \<times> jsval \<times> bool) meth" where
  "issuance_calls pf input off u = bindS (getJson pf (ii_transport input) (ou_origin u @ ''/.well-known/openid-credential-issuer'') (ou_origin u)) (\<lambda>doc.
      bindS (pureS (parseIssuerMetadata pf doc (Some (ou_origin u)))) (\<lambda>m.
      if \<not> configuration_known m (vo_configuration off) then throwS (Vci_error ''unsupported_configuration'' Act_reject) else issuance_exchange pf input off u m))"

definition accepted_offer :: "oid_platform \<Rightarrow> 'w issuance_input \<Rightarrow> vci_exn + vci_offer \<times> oid_url" where
  "accepted_offer pf input = (if ii_proofJwt input = '''' \<or> 8192 < length (ii_proofJwt input) then Inl (Vci_error ''invalid_proof'' Act_reject) else
      bindE (read_offer pf (ii_offer input)) (\<lambda>off.
      bindE (public_origin pf (case ii_expectedIssuer input of None \<Rightarrow> vo_credential_issuer off | Some s \<Rightarrow> s)) (\<lambda>u.
      if vo_credential_issuer off \<noteq> ou_origin u then Inl (Vci_error ''origin_mismatch'' Act_reject) else Inr (off, u))))"

lemma pure_then: "bindS (pureS r) k w = (case r of Inl e \<Rightarrow> (Inl e, w) | Inr x \<Rightarrow> k x w)"
  by (simp add: bindS_def split: sum.split)

lemma issuance_parts: "issuePreAuthorizedCredential pf input = bindS (pureS (accepted_offer pf input)) (\<lambda>p. issuance_calls pf input (fst p) (snd p))"
proof -
  have "issuePreAuthorizedCredential pf input w = bindS (pureS (accepted_offer pf input)) (\<lambda>p. issuance_calls pf input (fst p) (snd p)) w" for w
  proof (cases "ii_proofJwt input = '''' \<or> 8192 < length (ii_proofJwt input)")
    case True
    then show ?thesis by (simp add: issuePreAuthorizedCredential_def accepted_offer_def pure_then)
  next
    case False
    show ?thesis
    proof (cases "read_offer pf (ii_offer input)")
      case (Inl e)
      with False show ?thesis by (simp add: issuePreAuthorizedCredential_def accepted_offer_def pure_then)
    next
      case (Inr off)
      note o = False Inr
      show ?thesis
      proof (cases "public_origin pf (case ii_expectedIssuer input of None \<Rightarrow> vo_credential_issuer off | Some s \<Rightarrow> s)")
        case (Inl e)
        with o show ?thesis by (simp add: issuePreAuthorizedCredential_def accepted_offer_def pure_then)
      next
        case (Inr u)
        with o show ?thesis
          unfolding issuePreAuthorizedCredential_def accepted_offer_def issuance_calls_def issuance_exchange_def
          by (cases "vo_credential_issuer off = ou_origin u") (simp_all only: pure_then sum.case bindE_simps if_True if_False fst_conv snd_conv simp_thms throwS_def cong: if_cong)
      qed
    qed
  qed
  then show ?thesis by (rule ext)
qed

lemma offer_issuer_text:
  assumes "read_offer pf v = Inr off"
  shows "vo_credential_issuer off \<noteq> ''''"
proof -
  obtain x where x: "parseCredentialOffer pf x = Inr off" using assms by (auto simp: read_offer_def bindE_Inr split: jsval.splits)
  obtain raw where raw: "object_entries x = Some raw" using x by (cases "object_entries x") (auto simp: parseCredentialOffer_def vci_fail_def)
  obtain s where s: "vci_text (jfield raw ''credential_issuer'') = Inr s"
    and k: "(case jfield raw ''credential_configuration_ids'' of
            JArr [JStr c] \<Rightarrow>
              (let grant = maybe_prop (jfield raw ''grants'') pre_authorized_grant in
               case maybe_prop grant ''pre-authorized_code'' of
                 JStr code \<Rightarrow> if code = '''' \<or> 512 < length code then vci_fail ''invalid_offer'' else
                   Inr \<lparr>vo_credential_issuer = s, vo_configuration = c, vo_code = code,
                     vo_tx_code = (if js_truthy (maybe_prop grant ''tx_code'') then Some (maybe_prop grant ''tx_code'') else None)\<rparr>
               | _ \<Rightarrow> vci_fail ''invalid_offer'')
          | _ \<Rightarrow> vci_fail ''invalid_offer'') = Inr off"
    using x unfolding parseCredentialOffer_def raw option.case bindE_Inr by blast
  have "vo_credential_issuer off = s"
    using k by (auto simp: vci_fail_def Let_def split: jsval.splits list.splits if_splits)
  with s show ?thesis by (auto simp: vci_text_def vci_fail_def split: jsval.splits if_splits)
qed

lemma exchange_home:
  assumes "\<And>x. oid_url pf (case vm_token_endpoint m of None \<Rightarrow> ou_origin u @ ''/oauth/token'' | Some t \<Rightarrow> t) = Some x \<Longrightarrow> ou_origin x = ou_origin u"
    "\<And>x. oid_url pf (vm_credential_endpoint m) = Some x \<Longrightarrow> ou_origin x = ou_origin u"
  shows "tripleS (calls_home pf (ou_origin u) cs 1) (issuance_exchange pf input off u m) (\<lambda>_. calls_home pf (ou_origin u) cs 3) (\<lambda>_. calls_home pf (ou_origin u) cs 3)"
proof -
  let ?R = "calls_home pf (ou_origin u) cs"
  have t: "tripleS (?R 1) (fetch_token pf (ii_transport input) (case vm_token_endpoint m of None \<Rightarrow> ou_origin u @ ''/oauth/token'' | Some t \<Rightarrow> t) off) (\<lambda>_. ?R 2) (\<lambda>_. ?R 3)"
    by (rule tripleS_weaken [OF fetch_home(1) [OF assms(1)]]) (auto simp: numeral_2_eq_2 intro: calls_home_mono)
  have c: "tripleS (?R 2) (fetch_credential pf (ii_transport input) (vm_credential_endpoint m) rq) (\<lambda>_. ?R 3) (\<lambda>_. ?R 3)" for rq
    by (rule tripleS_weaken [OF fetch_home(2) [OF assms(2)]]) (auto simp: numeral_3_eq_3 intro: calls_home_mono)
  have s: "tripleS (?R 3) (if \<not> js_truthy v then throwS (Vci_error ''verification_failed'' Act_reject) else
      bindS (store_credential pf input off v) (\<lambda>stored. returnS (x, v, stored))) (\<lambda>_. ?R 3) (\<lambda>_. ?R 3)" for v x
    using tripleS_bind [OF store_home tripleS_still [of "returnS y" for y]] by (auto intro!: tripleS_still tripleS_bind [OF store_home])
  show ?thesis
    unfolding issuance_exchange_def by (rule tripleS_bind [OF t tripleS_bind [OF c tripleS_bind [OF on_world_home s]]])
qed

lemma issuance_calls_home:
  assumes "origin_laws pf" "oid_url pf s = Some u" "ou_protocol u = ''https:''" "ou_origin u \<noteq> ''''"
  shows "tripleS (calls_home pf (ou_origin u) cs 0) (issuance_calls pf input off u) (\<lambda>_. calls_home pf (ou_origin u) cs 3) (\<lambda>_. calls_home pf (ou_origin u) cs 3)"
proof -
  let ?R = "calls_home pf (ou_origin u) cs"
  have laws: "ou_origin x = ou_origin u" if "oid_url pf (ou_origin u @ p) = Some x" "p \<in> {'''', ''/oauth/token'', ''/.well-known/openid-credential-issuer''}" for p x
    using assms that unfolding origin_laws_def by blast
  have meta: "tripleS (?R 0) (getJson pf (ii_transport input) (ou_origin u @ ''/.well-known/openid-credential-issuer'') (ou_origin u)) (\<lambda>_. ?R 1) (\<lambda>_. ?R 3)"
    by (rule tripleS_weaken [OF getJson_home]) (auto intro: laws laws [of "''''", simplified] calls_home_mono)
  have exchange: "tripleS (?R 1) (issuance_exchange pf input off u m) (\<lambda>_. ?R 3) (\<lambda>_. ?R 3)" if m: "parseIssuerMetadata pf doc (Some (ou_origin u)) = Inr m" for doc m
  proof -
    obtain i where i: "oid_url pf (vm_credential_issuer m) = Some i" "at_home pf (ou_origin i) (vm_credential_endpoint m)"
        "\<forall>t. vm_token_endpoint m = Some t \<longrightarrow> at_home pf (ou_origin i) t" "\<not> no_value (Some (ou_origin u)) \<longrightarrow> Some (ou_origin u) = Some (vm_credential_issuer m)"
      using vci_metadata_Inr [OF m] by blast
    have "vm_credential_issuer m = ou_origin u" using i(4) assms(4) by (simp add: no_value_def)
    then have o: "ou_origin i = ou_origin u" using i(1) laws [of "''''" i] by simp
    show ?thesis
    proof (rule exchange_home)
      fix x
      assume "oid_url pf (case vm_token_endpoint m of None \<Rightarrow> ou_origin u @ ''/oauth/token'' | Some t \<Rightarrow> t) = Some x"
      then show "ou_origin x = ou_origin u" using i(3) o laws by (auto simp: at_home_def split: option.splits)
    next
      fix x
      assume "oid_url pf (vm_credential_endpoint m) = Some x"
      then show "ou_origin x = ou_origin u" using i(2) o by (auto simp: at_home_def)
    qed
  qed
  have step: "tripleS (?R 1) (bindS (pureS (parseIssuerMetadata pf doc (Some (ou_origin u)))) (\<lambda>m.
      if \<not> configuration_known m (vo_configuration off) then throwS (Vci_error ''unsupported_configuration'' Act_reject) else issuance_exchange pf input off u m))
      (\<lambda>_. ?R 3) (\<lambda>_. ?R 3)" for doc
  proof (rule tripleS_pure_then)
    fix m
    assume m: "parseIssuerMetadata pf doc (Some (ou_origin u)) = Inr m"
    show "tripleS (?R 1) (if \<not> configuration_known m (vo_configuration off) then throwS (Vci_error ''unsupported_configuration'' Act_reject)
        else issuance_exchange pf input off u m) (\<lambda>_. ?R 3) (\<lambda>_. ?R 3)"
      using exchange [OF m] by (cases "configuration_known m (vo_configuration off)") (auto simp: tripleS_def intro: calls_home_mono)
  qed (auto intro: calls_home_mono)
  show ?thesis unfolding issuance_calls_def by (rule tripleS_bind [OF meta step])
qed

text \<open>
  C14: An issuance makes at most three requests, whatever happens, and each goes to HTTPS on a
  public host of the origin that the offer names as its issuer; without an acceptable offer it
  makes none.
\<close>

theorem issuance_stays_on_issuer:
  assumes "origin_laws pf" "issuePreAuthorizedCredential pf input w = (r, w')"
  shows "\<exists>cs. fst w' = cs @ fst w \<and> length cs \<le> 3 \<and> (cs = [] \<or> (\<exists>off. read_offer pf (ii_offer input) = Inr off
     \<and> (\<forall>c\<in>set cs. at_home pf (vo_credential_issuer off) (fst c))))"
proof (cases "accepted_offer pf input")
  case (Inl e)
  then show ?thesis using assms(2) by (simp add: issuance_parts bindS_def)
next
  case (Inr p)
  obtain off u where p: "p = (off, u)" by (cases p)
  have a: "read_offer pf (ii_offer input) = Inr off" "vo_credential_issuer off = ou_origin u" "\<exists>s. public_origin pf s = Inr u"
    using Inr unfolding p by (auto simp: accepted_offer_def bindE_Inr split: if_splits)
  have n: "ou_origin u \<noteq> ''''" using offer_issuer_text [OF a(1)] a(2) by simp
  obtain s where "oid_url pf s = Some u" "ou_protocol u = ''https:''" using a(3) by (auto simp: public_origin_Inr)
  note home = issuance_calls_home [OF assms(1) this n]
  have "calls_home pf (ou_origin u) (fst w) 0 w" by (simp add: calls_home_def)
  then have "calls_home pf (ou_origin u) (fst w) 3 (snd (issuance_calls pf input off u w))" by (rule tripleS_any [OF home])
  moreover have "issuance_calls pf input off u w = (r, w')" using assms(2) Inr p by (simp add: issuance_parts bindS_def)
  ultimately show ?thesis using a by (auto simp: calls_home_def)
qed

section \<open>What an issuance returns\<close>

lemma request_answered:
  assumes "http_request_to pf tr url init w = (Inr r, t)"
  shows "fst t = (url, init) # fst w \<and> tr url init (snd w) = (Answered r, snd t)"
proof (cases "public_origin pf url")
  case (Inl e)
  with assms show ?thesis by (simp add: http_request_to_def)
next
  case (Inr u)
  obtain out x where o: "tr url init (snd w) = (out, x)" by (cases "tr url init (snd w)") blast
  with assms Inr show ?thesis by (cases out) (auto simp: http_request_to_def http_send_def)
qed

lemma getJson_answered: "getJson pf tr url x w = (Inr v, t) \<Longrightarrow> fst t = (url, None) # fst w"
  by (auto simp: getJson_def bindS_Inr dest: request_answered split: if_splits)

lemma fetch_answered:
  assumes "bindS (http_request_to pf tr url init) k w = (Inr v, t)" "\<And>r s. snd (k r s) = s"
  shows "fst t = (url, init) # fst w"
proof -
  obtain r s where h: "http_request_to pf tr url init w = (Inr r, s)" "k r s = (Inr v, t)" using assms(1) by (auto simp: bindS_Inr)
  have "t = s" using h(2) assms(2) [of r s] by simp
  with request_answered [OF h(1)] show ?thesis by simp
qed

lemma fetch_token_answered: "fetch_token pf tr url off w = (Inr v, t) \<Longrightarrow> fst t = (url, Some (token_request pf off)) # fst w"
  unfolding fetch_token_def by (erule fetch_answered) (simp add: bindS_def Let_def split: sum.split jsval.split)

lemma fetch_credential_answered:
  assumes "fetch_credential pf tr url rq w = (Inr c, t)"
  shows "fst t = (url, Some rq) # fst w" "length c \<le> 8192"
proof -
  show "fst t = (url, Some rq) # fst w"
    using assms unfolding fetch_credential_def by (rule fetch_answered) (simp add: bindS_def Let_def split: sum.split jsval.split)
  show "length c \<le> 8192"
  proof -
    obtain r s x where "(case x of JStr s \<Rightarrow> if 8192 < length s then throwS (Vci_error ''invalid_credential'' Act_reject) else returnS s
        | _ \<Rightarrow> throwS (Vci_error ''invalid_credential'' Act_reject)) s = (Inr c, t)"
      using assms unfolding fetch_credential_def bindS_Inr by (auto simp: bindS_Inr Let_def split: if_splits)
    then show ?thesis by (cases x) (auto split: if_splits)
  qed
qed

lemma store_answered: "store_credential pf input off v w = (Inr stored, t) \<longleftrightarrow> fst t = fst w \<and> (case ii_vault input of None \<Rightarrow> \<not> stored \<and> snd t = snd w
    | Some put \<Rightarrow> stored \<and> put (ii_credentialId input, claim_or pf v ''vct'' ''AgeCredential'', claim_or pf v ''issuer'' (vo_credential_issuer off)) v (snd w) = (Inr (), snd t))"
  by (cases t; cases w) (auto simp: store_credential_def on_world_def bindS_def split: option.split prod.splits sum.splits)

lemma bounded_json_Inr: "bounded_json pf t m = Inr v \<longleftrightarrow> length t \<le> m \<and> oid_json pf t = Some v"
  by (auto simp: bounded_json_def vci_fail_def split: option.splits)

lemma read_field_text: "read_field v k = Inr (JStr s) \<longleftrightarrow> (\<exists>es. v = JObj es \<and> jfield es k = JStr s)"
  by (cases v) (auto simp: read_field_def)

lemma short_text_Inr: "(case x of JStr s \<Rightarrow> if m < length s then throwS e else returnS s | _ \<Rightarrow> throwS e) w = (Inr c, t)
    \<longleftrightarrow> x = JStr c \<and> length c \<le> m \<and> t = w"
  by (cases x) auto

lemma getJson_response:
  assumes "getJson pf tr url x w = (Inr v, t)"
  shows "\<exists>r. tr url None (snd w) = (Answered r, snd t) \<and> hp_status r = 200 \<and> oid_json pf (hp_body r) = Some v"
proof -
  from assms obtain r where "http_request_to pf tr url None w = (Inr r, t)" "hp_status r = 200" "oid_json pf (hp_body r) = Some v"
    by (auto simp: getJson_def bindS_Inr bounded_json_Inr split: if_splits)
  with request_answered show ?thesis by blast
qed

lemma fetch_token_response:
  assumes "fetch_token pf tr url off w = (Inr s, t)"
  shows "\<exists>r es. tr url (Some (token_request pf off)) (snd w) = (Answered r, snd t) \<and> hp_status r = 200
    \<and> oid_json pf (hp_body r) = Some (JObj es) \<and> jfield es ''access_token'' = JStr s"
proof -
  from assms obtain r w1 x where r: "http_request_to pf tr url (Some (token_request pf off)) w = (Inr r, w1)" "hp_status r = 200"
      "bindE (bounded_json pf (hp_body r) 8192) (\<lambda>v. read_field v ''access_token'') = Inr x" and x: "x = JStr s \<and> t = w1"
    unfolding fetch_token_def by (auto simp: bindS_Inr short_text_Inr Let_def split: if_splits)
  with request_answered [OF r(1)] show ?thesis by (auto simp: bindE_Inr bounded_json_Inr read_field_text)
qed

lemma fetch_credential_response:
  assumes "fetch_credential pf tr url rq w = (Inr c, t)"
  shows "\<exists>r es. tr url (Some rq) (snd w) = (Answered r, snd t) \<and> hp_status r = 200
    \<and> oid_json pf (hp_body r) = Some (JObj es) \<and> jfield es ''credential'' = JStr c"
proof -
  from assms obtain r w1 x where r: "http_request_to pf tr url (Some rq) w = (Inr r, w1)" "hp_status r = 200"
      "bindE (bounded_json pf (hp_body r) 32768) (\<lambda>v. read_field v ''credential'') = Inr x" and x: "x = JStr c \<and> t = w1"
    unfolding fetch_credential_def by (auto simp: bindS_Inr short_text_Inr Let_def split: if_splits)
  with request_answered [OF r(1)] show ?thesis by (auto simp: bindE_Inr bounded_json_Inr read_field_text)
qed

text \<open>
  The listed configurations a wallet may be offered: a listed identifier of the one format with
  a type. The names every object inherits pass as well, and the properties of a configuration
  that was listed as \<open>__proto__\<close>.
\<close>

definition offered_configuration :: "(string \<times> jsval) list \<Rightarrow> string \<Rightarrow> bool" where
  "offered_configuration configs c \<longleftrightarrow>
     (\<exists>es t. (c, JObj es) \<in> set configs \<and> jfield es ''format'' = JStr ''dc+sd-jwt'' \<and> jfield es ''vct'' = JStr t \<and> length t \<le> 128)
     \<or> c \<in> set inherited_names \<or> (''__proto__'' \<in> set (map fst configs) \<and> c \<in> {''format'', ''vct''})"

lemma configuration_Inr:
  assumes "configuration e = Inr c"
  shows "fst c = fst e" "\<exists>es t. snd e = JObj es \<and> jfield es ''format'' = JStr ''dc+sd-jwt'' \<and> jfield es ''vct'' = JStr t \<and> length t \<le> 128"
proof -
  from assms obtain es where es: "object_entries (snd e) = Some es" by (cases "object_entries (snd e)") (auto simp: configuration_def vci_fail_def)
  with assms obtain t where t: "jfield es ''vct'' = JStr t" "jfield es ''format'' = JStr ''dc+sd-jwt''" "length t \<le> 128" "c = (fst e, t)"
    by (cases "jfield es ''vct''") (auto simp: configuration_def vci_fail_def split: if_splits)
  then show "fst c = fst e" by simp
  from es t have "snd e = JObj es" by (cases "snd e") (auto simp: object_entries_def)
  with t show "\<exists>es t. snd e = JObj es \<and> jfield es ''format'' = JStr ''dc+sd-jwt'' \<and> jfield es ''vct'' = JStr t \<and> length t \<le> 128" by blast
qed

lemma vci_text_Inr: "vci_text v = Inr s \<longleftrightarrow> v = JStr s \<and> s \<noteq> '''' \<and> length s \<le> 8192"
  by (auto simp: vci_text_def vci_fail_def split: jsval.splits if_splits)

lemma metadata_document:
  assumes "parseIssuerMetadata pf v (Some home) = Inr m" "home \<noteq> ''''" "configuration_known m c"
  obtains raw configs where "v = JObj raw" "jfield raw ''credential_issuer'' = JStr home" "jfield raw ''credential_endpoint'' = JStr (vm_credential_endpoint m)"
    "jfield raw ''token_endpoint'' = (case vm_token_endpoint m of None \<Rightarrow> JUndef | Some t \<Rightarrow> JStr t)"
    "jfield raw ''credential_configurations_supported'' = JObj configs" "offered_configuration configs c"
proof -
  obtain raw where raw: "object_entries v = Some raw" using assms(1) by (cases "object_entries v") (auto simp: parseIssuerMetadata_def vci_fail_def)
  obtain issuer endpoint same where e: "jfield raw ''credential_issuer'' = JStr issuer" "jfield raw ''credential_endpoint'' = JStr endpoint"
    and k: "(if \<not> same \<or> (\<not> no_value (Some home) \<and> Some issuer \<noteq> Some home) then vci_fail ''origin_mismatch'' else
         (case jfield raw ''credential_configurations_supported'' of
            JObj configs \<Rightarrow> bindE (mapE configuration configs) (\<lambda>cs.
              bindE (token_endpoint pf issuer (jfield raw ''token_endpoint'')) (\<lambda>t.
              Inr \<lparr>vm_credential_issuer = issuer, vm_credential_endpoint = endpoint, vm_token_endpoint = t,
                vm_configurations = own_configurations cs, vm_prototype = list_ex (\<lambda>c. fst c = ''__proto__'') cs\<rparr>))
          | _ \<Rightarrow> vci_fail ''invalid_metadata'')) = Inr m"
    using assms(1) unfolding parseIssuerMetadata_def raw option.case bindE_Inr vci_text_Inr by blast
  have i: "same" "issuer = home" using k assms(2) by (auto simp: vci_fail_def no_value_def split: if_splits)
  from k i obtain configs where configs: "jfield raw ''credential_configurations_supported'' = JObj configs"
    by (cases "jfield raw ''credential_configurations_supported''") (auto simp: vci_fail_def)
  from k i configs obtain cs t where cs: "mapE configuration configs = Inr cs" and t: "token_endpoint pf issuer (jfield raw ''token_endpoint'') = Inr t"
    and m: "vm_credential_endpoint m = endpoint" "vm_token_endpoint m = t" "vm_configurations m = own_configurations cs"
      "vm_prototype m = list_ex (\<lambda>c. fst c = ''__proto__'') cs"
    by (auto simp: bindE_Inr)
  have each: "list_all2 (\<lambda>e c. configuration e = Inr c) configs cs" using cs by (simp add: mapE_Inr)
  have mem: "\<exists>e\<in>set configs. configuration e = Inr x" if "x \<in> set cs" for x
    using each that by (induction configs cs rule: list_all2_induct) auto
  have "offered_configuration configs c"
  proof -
    consider x where "x \<in> set cs" "fst x = c" | "c \<in> set inherited_names" | x where "x \<in> set cs" "fst x = ''__proto__''" "c \<in> {''format'', ''vct''}"
      using assms(3) m by (auto simp: configuration_known_def own_configurations_def list_ex_iff)
    then show ?thesis
    proof cases
      case (1 x)
      with mem obtain e where "e \<in> set configs" "configuration e = Inr x" by blast
      with 1(2) configuration_Inr(1) have e: "e \<in> set configs" "fst e = c" by auto
      obtain es t where es: "snd e = JObj es" "jfield es ''format'' = JStr ''dc+sd-jwt''" "jfield es ''vct'' = JStr t" "length t \<le> 128"
        using configuration_Inr(2) [OF \<open>configuration e = Inr x\<close>] by blast
      have "(c, JObj es) \<in> set configs" using e es(1) by (metis prod.collapse)
      with es show ?thesis unfolding offered_configuration_def by blast
    next
      case (3 x)
      with mem obtain e where e: "e \<in> set configs" "configuration e = Inr x" by blast
      have "fst e = ''__proto__''" using configuration_Inr(1) [OF e(2)] 3(2) by simp
      with e(1) have "''__proto__'' \<in> set (map fst configs)" by (metis image_eqI set_map)
      with 3(3) show ?thesis unfolding offered_configuration_def by blast
    qed (simp add: offered_configuration_def)
  qed
  moreover have "v = JObj raw" using raw e(1) by (cases v) (auto simp: object_entries_def)
  moreover have "jfield raw ''token_endpoint'' = (case vm_token_endpoint m of None \<Rightarrow> JUndef | Some t \<Rightarrow> JStr t)"
    using t unfolding m(2) by (auto simp: token_endpoint_def bindE_Inr vci_text_Inr vci_fail_def split: if_splits)
  ultimately show ?thesis using that e i m(1) configs by blast
qed

text \<open>
  C26: A finished issuance read, at the offer's issuer, a metadata document that names this
  issuer and lists the offered configuration in the supported format; it sent the code to the
  token endpoint of that document (or the issuer's standard one), the token of that answer and
  the proof to its credential endpoint, and nothing else to anyone. The credential it hands
  out is the one in that last answer, at most 8,192 characters long, and was accepted by the
  verifier before; it is stored in the vault exactly when there is one. All three answers had
  status 200. Names that every object inherits pass as offered configurations too.
\<close>

theorem vci_issued_sound:
  assumes "issuePreAuthorizedCredential pf input w = (Inr (c, v, stored), w')"
  shows "\<exists>off home u raw configs endpoint token_url token r1 r2 r3 es2 es3 w1 w2 w3 y.
     read_offer pf (ii_offer input) = Inr off \<and> vo_credential_issuer off = home
     \<and> public_origin pf (case ii_expectedIssuer input of None \<Rightarrow> home | Some s \<Rightarrow> s) = Inr u \<and> ou_origin u = home
     \<and> ii_transport input (home @ ''/.well-known/openid-credential-issuer'') None (snd w) = (Answered r1, w1)
     \<and> hp_status r1 = 200 \<and> oid_json pf (hp_body r1) = Some (JObj raw)
     \<and> jfield raw ''credential_issuer'' = JStr home \<and> jfield raw ''credential_endpoint'' = JStr endpoint
     \<and> jfield raw ''credential_configurations_supported'' = JObj configs \<and> offered_configuration configs (vo_configuration off)
     \<and> (jfield raw ''token_endpoint'' = JStr token_url \<or> jfield raw ''token_endpoint'' = JUndef \<and> token_url = home @ ''/oauth/token'')
     \<and> ii_transport input token_url (Some (token_request pf off)) w1 = (Answered r2, w2)
     \<and> hp_status r2 = 200 \<and> oid_json pf (hp_body r2) = Some (JObj es2) \<and> jfield es2 ''access_token'' = JStr token
     \<and> ii_transport input endpoint (Some (credential_request pf token (vo_configuration off) (ii_proofJwt input))) w2 = (Answered r3, w3)
     \<and> hp_status r3 = 200 \<and> oid_json pf (hp_body r3) = Some (JObj es3) \<and> jfield es3 ''credential'' = JStr c \<and> length c \<le> 8192
     \<and> fst w' = [(endpoint, Some (credential_request pf token (vo_configuration off) (ii_proofJwt input))),
         (token_url, Some (token_request pf off)), (home @ ''/.well-known/openid-credential-issuer'', None)] @ fst w
     \<and> ii_verifyCredential input c w3 = (Inr v, y) \<and> js_truthy v
     \<and> (case ii_vault input of None \<Rightarrow> \<not> stored \<and> snd w' = y | Some put \<Rightarrow> stored
         \<and> put (ii_credentialId input, claim_or pf v ''vct'' ''AgeCredential'', claim_or pf v ''issuer'' (vo_credential_issuer off)) v y = (Inr (), snd w'))"
proof -
  obtain off u where p: "accepted_offer pf input = Inr (off, u)" "issuance_calls pf input off u w = (Inr (c, v, stored), w')"
    using assms by (auto simp: issuance_parts pure_then split: sum.splits)
  have a: "read_offer pf (ii_offer input) = Inr off" "vo_credential_issuer off = ou_origin u"
    "public_origin pf (case ii_expectedIssuer input of None \<Rightarrow> vo_credential_issuer off | Some s \<Rightarrow> s) = Inr u"
    using p(1) by (auto simp: accepted_offer_def bindE_Inr split: if_splits)
  obtain doc m w1 where m: "getJson pf (ii_transport input) (ou_origin u @ ''/.well-known/openid-credential-issuer'') (ou_origin u) w = (Inr doc, w1)"
      "parseIssuerMetadata pf doc (Some (ou_origin u)) = Inr m" "configuration_known m (vo_configuration off)"
      "issuance_exchange pf input off u m w1 = (Inr (c, v, stored), w')"
    using p(2) by (auto simp: issuance_calls_def bindS_Inr split: if_splits)
  define token_url where "token_url = (case vm_token_endpoint m of None \<Rightarrow> ou_origin u @ ''/oauth/token'' | Some t \<Rightarrow> t)"
  have "ou_origin u \<noteq> ''''" using offer_issuer_text [OF a(1)] a(2) by simp
  from m(2) this m(3) obtain raw configs where d: "doc = JObj raw" "jfield raw ''credential_issuer'' = JStr (ou_origin u)"
      "jfield raw ''credential_endpoint'' = JStr (vm_credential_endpoint m)"
      "jfield raw ''token_endpoint'' = (case vm_token_endpoint m of None \<Rightarrow> JUndef | Some t \<Rightarrow> JStr t)"
      "jfield raw ''credential_configurations_supported'' = JObj configs" "offered_configuration configs (vo_configuration off)"
    by (rule metadata_document)
  have t: "jfield raw ''token_endpoint'' = JStr token_url \<or> jfield raw ''token_endpoint'' = JUndef \<and> token_url = ou_origin u @ ''/oauth/token''"
    using d(4) by (auto simp: token_url_def split: option.split)
  obtain token w2 w3 w4 where x: "fetch_token pf (ii_transport input) token_url off w1 = (Inr token, w2)"
      "fetch_credential pf (ii_transport input) (vm_credential_endpoint m) (credential_request pf token (vo_configuration off) (ii_proofJwt input)) w2 = (Inr c, w3)"
      "on_world (ii_verifyCredential input c) w3 = (Inr v, w4)" "js_truthy v" "store_credential pf input off v w4 = (Inr stored, w')"
    using m(4) unfolding token_url_def by (auto simp: issuance_exchange_def bindS_Inr split: if_splits)
  have y: "ii_verifyCredential input c (snd w3) = (Inr v, snd w4)" "fst w4 = fst w3"
    using x(3) by (auto simp: on_world_def split: prod.splits)
  have calls: "fst w' = [(vm_credential_endpoint m, Some (credential_request pf token (vo_configuration off) (ii_proofJwt input))),
         (token_url, Some (token_request pf off)), (ou_origin u @ ''/.well-known/openid-credential-issuer'', None)] @ fst w"
    using x(5) y(2) fetch_credential_answered(1) [OF x(2)] fetch_token_answered [OF x(1)] getJson_answered [OF m(1)] by (simp add: store_answered)
  have vault: "case ii_vault input of None \<Rightarrow> \<not> stored \<and> snd w' = snd w4 | Some put \<Rightarrow> stored
      \<and> put (ii_credentialId input, claim_or pf v ''vct'' ''AgeCredential'', claim_or pf v ''issuer'' (vo_credential_issuer off)) v (snd w4) = (Inr (), snd w')"
    using x(5) by (simp add: store_answered)
  note answers = getJson_response [OF m(1), unfolded d(1)] fetch_token_response [OF x(1)] fetch_credential_response [OF x(2)]
  from answers(1) obtain r1 where r1: "ii_transport input (ou_origin u @ ''/.well-known/openid-credential-issuer'') None (snd w) = (Answered r1, snd w1)"
      "hp_status r1 = 200" "oid_json pf (hp_body r1) = Some (JObj raw)" by blast
  from answers(2) obtain r2 es2 where r2: "ii_transport input token_url (Some (token_request pf off)) (snd w1) = (Answered r2, snd w2)"
      "hp_status r2 = 200" "oid_json pf (hp_body r2) = Some (JObj es2)" "jfield es2 ''access_token'' = JStr token" by blast
  from answers(3) obtain r3 es3 where r3: "ii_transport input (vm_credential_endpoint m) (Some (credential_request pf token (vo_configuration off)
        (ii_proofJwt input))) (snd w2) = (Answered r3, snd w3)"
      "hp_status r3 = 200" "oid_json pf (hp_body r3) = Some (JObj es3)" "jfield es3 ''credential'' = JStr c" by blast
  show ?thesis
    by (rule exI [of _ off], rule exI [of _ "ou_origin u"], rule exI [of _ u], rule exI [of _ raw], rule exI [of _ configs], rule exI [of _ "vm_credential_endpoint m"],
        rule exI [of _ token_url], rule exI [of _ token], rule exI [of _ r1], rule exI [of _ r2], rule exI [of _ r3], rule exI [of _ es2],
        rule exI [of _ es3], rule exI [of _ "snd w1"], rule exI [of _ "snd w2"], rule exI [of _ "snd w3"], rule exI [of _ "snd w4"],
        intro conjI) (fact a(1,2) a(3) [unfolded a(2)] refl d(2,3,5,6) t r1 r2 r3 fetch_credential_answered(2) [OF x(2)] calls y(1) x(4) vault)+
qed

text \<open>
  An identifier that is an inherited property passes the check of the offered configurations,
  whatever the metadata lists.
\<close>

lemma inherited_configuration_passes: "c \<in> set inherited_names \<Longrightarrow> configuration_known m c"
  by (simp add: configuration_known_def)

section \<open>The deterministic issuer\<close>

text \<open>It hands out its credential only for its own code and the expected proof.\<close>

lemma det_token_needs_code:
  assumes "det_transport pf d url init w = (answer 200 b, x)" "has_suffix ''/oauth/token'' url" "\<not> has_suffix ''/.well-known/openid-credential-issuer'' url"
  shows "text_contains (oid_encode pf (di_code d)) (request_body init '''')"
  using assms by (auto simp: det_transport_def answer_def split: if_splits)

lemma det_credential_needs_proof:
  assumes "det_transport pf d (di_endpoint d) init w = (answer 200 b, x)"
    "\<not> has_suffix ''/oauth/token'' (di_endpoint d)" "\<not> has_suffix ''/.well-known/openid-credential-issuer'' (di_endpoint d)"
  shows "body_proof pf (request_body init ''{}'') = Some (JStr (di_expectedProof d))"
  using assms by (auto simp: det_transport_def answer_def split: if_splits option.splits)

section \<open>Concrete runs\<close>

definition ex_oid :: oid_platform where
  "ex_oid = \<lparr>oid_url = (\<lambda>s. if has_prefix ''https://i.example'' s
       then Some \<lparr>ou_protocol = ''https:'', ou_hostname = ''i'', ou_origin = ''https://i.example'', ou_params = [], ou_text = s\<rparr> else None),
     oid_params = (\<lambda>s. [(''state'', ''s1''), (''vp_token'', s)]),
     oid_json = (\<lambda>t. if t = ''M'' then Some (JObj [(''credential_issuer'', JStr ''https://i.example''), (''credential_endpoint'', JStr ''https://i.example/c''),
         (''credential_configurations_supported'', JObj [(''Age'', JObj [(''format'', JStr ''dc+sd-jwt''), (''vct'', JStr ''AgeCredential'')])])])
       else if t = ''T'' then Some (JObj [(''access_token'', JStr ''a'')]) else if t = ''C'' then Some (JObj [(''credential'', JStr ''jwt'')]) else None),
     oid_string = (\<lambda>v. ''x''), oid_encode = (\<lambda>s. s), oid_fraction = ''0''\<rparr>"

definition ex_offer_js :: jsval where
  "ex_offer_js = JObj [(''credential_issuer'', JStr ''https://i.example''), (''credential_configuration_ids'', JArr [JStr ''Age'']),
     (''grants'', JObj [(pre_authorized_grant, JObj [(''pre-authorized_code'', JStr ''code'')])])]"

definition ex_transport :: "unit transport" where
  "ex_transport url init w = ((if url = ''https://i.example/.well-known/openid-credential-issuer'' then answer 200 ''M''
     else if url = ''https://i.example/oauth/token'' then answer 200 ''T'' else answer 200 ''C''), w)"

definition ex_issuance :: "unit issuance_input" where
  "ex_issuance = \<lparr>ii_offer = ex_offer_js, ii_expectedIssuer = None, ii_transport = ex_transport, ii_proofJwt = ''proof'',
     ii_verifyCredential = (\<lambda>c. returnS (JBool True)), ii_vault = None, ii_credentialId = ''c1''\<rparr>"

lemma ex_laws: "origin_laws ex_oid"
  by (auto simp: origin_laws_def ex_oid_def split: if_splits)

lemma ex_read_offer: "read_offer ex_oid (ii_offer ex_issuance)
    = Inr \<lparr>vo_credential_issuer = ''https://i.example'', vo_configuration = ''Age'', vo_code = ''code'', vo_tx_code = None\<rparr>"
  by (simp add: ex_issuance_def ex_offer_js_def read_offer_def parseCredentialOffer_def object_entries_def vci_text_def public_origin_def ex_oid_def
    has_prefix_def has_suffix_def private_host_def private_172_def to_lower_def lower_char_def maybe_prop_def pre_authorized_grant_def js_truthy_def)


lemma ex_origins: "oid_url ex_oid (''https://i.example'' @ p) = Some \<lparr>ou_protocol = ''https:'', ou_hostname = ''i'', ou_origin = ''https://i.example'', ou_params = [],
    ou_text = ''https://i.example'' @ p\<rparr>"
  by (simp add: ex_oid_def has_prefix_def)

lemma ex_public: "public_origin ex_oid (''https://i.example'' @ p) = Inr \<lparr>ou_protocol = ''https:'', ou_hostname = ''i'', ou_origin = ''https://i.example'', ou_params = [],
    ou_text = ''https://i.example'' @ p\<rparr>"
  unfolding public_origin_def ex_origins by (simp add: has_prefix_def has_suffix_def private_host_def private_172_def to_lower_def lower_char_def)

lemmas ex_public_cases = ex_public [of "''''", simplified] ex_public [of "''/.well-known/openid-credential-issuer''", simplified]
  ex_public [of "''/oauth/token''", simplified] ex_public [of "''/c''", simplified]
  ex_origins [of "''''", simplified] ex_origins [of "''/.well-known/openid-credential-issuer''", simplified] ex_origins [of "''/c''", simplified]

definition ex_oid_metadata :: vci_metadata where
  "ex_oid_metadata = \<lparr>vm_credential_issuer = ''https://i.example'', vm_credential_endpoint = ''https://i.example/c'', vm_token_endpoint = None,
     vm_configurations = [(''Age'', ''AgeCredential'')], vm_prototype = False\<rparr>"

lemma ex_reads: "oid_json ex_oid ''M'' = Some (JObj [(''credential_issuer'', JStr ''https://i.example''), (''credential_endpoint'', JStr ''https://i.example/c''),
         (''credential_configurations_supported'', JObj [(''Age'', JObj [(''format'', JStr ''dc+sd-jwt''), (''vct'', JStr ''AgeCredential'')])])])"
  "oid_json ex_oid ''T'' = Some (JObj [(''access_token'', JStr ''a'')])" "oid_json ex_oid ''C'' = Some (JObj [(''credential'', JStr ''jwt'')])"
  by (simp_all add: ex_oid_def)

lemma ex_parse: "parseIssuerMetadata ex_oid (JObj [(''credential_issuer'', JStr ''https://i.example''), (''credential_endpoint'', JStr ''https://i.example/c''),
         (''credential_configurations_supported'', JObj [(''Age'', JObj [(''format'', JStr ''dc+sd-jwt''), (''vct'', JStr ''AgeCredential'')])])]) (Some ''https://i.example'')
    = Inr ex_oid_metadata"
  by (simp add: parseIssuerMetadata_def object_entries_def vci_text_def ex_public_cases same_origin_def no_value_def configuration_def token_endpoint_def
    own_configurations_def ex_oid_metadata_def)

lemma ex_oid_accepted: "accepted_offer ex_oid ex_issuance = Inr (\<lparr>vo_credential_issuer = ''https://i.example'', vo_configuration = ''Age'', vo_code = ''code'', vo_tx_code = None\<rparr>,
    \<lparr>ou_protocol = ''https:'', ou_hostname = ''i'', ou_origin = ''https://i.example'', ou_params = [], ou_text = ''https://i.example''\<rparr>)"
  unfolding accepted_offer_def ex_read_offer by (simp add: ex_public_cases) (simp add: ex_issuance_def ex_public_cases)

lemma ex_getJson: "\<exists>w. getJson ex_oid ex_transport ''https://i.example/.well-known/openid-credential-issuer'' ''https://i.example'' ([], ()) = (Inr (the (oid_json ex_oid ''M'')), w)"
  by (simp add: getJson_def pure_then same_origin_def ex_public_cases bindS_def http_request_to_def http_send_def ex_transport_def answer_def bounded_json_def ex_reads)

lemma ex_oid_token: "\<exists>w'. fetch_token ex_oid ex_transport ''https://i.example/oauth/token'' off w = (Inr ''a'', w')"
  by (cases w) (simp add: fetch_token_def bindS_def http_request_to_def http_send_def ex_public_cases ex_transport_def answer_def bounded_json_def ex_reads read_field_def)

lemma ex_fetch: "\<exists>w'. fetch_credential ex_oid ex_transport ''https://i.example/c'' rq w = (Inr ''jwt'', w')"
  by (cases w) (simp add: fetch_credential_def bindS_def http_request_to_def http_send_def ex_public_cases ex_transport_def answer_def bounded_json_def ex_reads read_field_def)

lemma ex_oid_issued: "\<exists>w. issuePreAuthorizedCredential ex_oid ex_issuance ([], ()) = (Inr (''jwt'', JBool True, False), w)"
proof -
  have t: "ii_transport ex_issuance = ex_transport" by (simp add: ex_issuance_def)
  obtain w1 where g: "getJson ex_oid ex_transport ''https://i.example/.well-known/openid-credential-issuer'' ''https://i.example'' ([], ()) = (Inr (the (oid_json ex_oid ''M'')), w1)"
    using ex_getJson by blast
  have m: "parseIssuerMetadata ex_oid (the (oid_json ex_oid ''M'')) (Some ''https://i.example'') = Inr ex_oid_metadata" by (simp only: ex_reads option.sel ex_parse)
  have c: "configuration_known ex_oid_metadata ''Age''" by (simp add: configuration_known_def ex_oid_metadata_def)
  obtain w2 where x: "fetch_token ex_oid ex_transport ''https://i.example/oauth/token'' \<lparr>vo_credential_issuer = ''https://i.example'', vo_configuration = ''Age'', vo_code = ''code'', vo_tx_code = None\<rparr> w1 = (Inr ''a'', w2)"
    using ex_oid_token by blast
  obtain w3 where y: "fetch_credential ex_oid ex_transport ''https://i.example/c'' (credential_request ex_oid ''a'' ''Age'' (ii_proofJwt ex_issuance)) w2 = (Inr ''jwt'', w3)"
    using ex_fetch by blast
  have e: "vm_token_endpoint ex_oid_metadata = None" "vm_credential_endpoint ex_oid_metadata = ''https://i.example/c''" by (simp_all add: ex_oid_metadata_def)
  have v: "ii_verifyCredential ex_issuance = (\<lambda>c. returnS (JBool True))" "ii_vault ex_issuance = None" by (simp_all add: ex_issuance_def)
  have "issuePreAuthorizedCredential ex_oid ex_issuance ([], ()) = issuance_calls ex_oid ex_issuance \<lparr>vo_credential_issuer = ''https://i.example'', vo_configuration = ''Age'', vo_code = ''code'', vo_tx_code = None\<rparr>
    \<lparr>ou_protocol = ''https:'', ou_hostname = ''i'', ou_origin = ''https://i.example'', ou_params = [], ou_text = ''https://i.example''\<rparr> ([], ())"
    by (simp add: issuance_parts pure_then ex_oid_accepted)
  also have "\<dots> = issuance_exchange ex_oid ex_issuance \<lparr>vo_credential_issuer = ''https://i.example'', vo_configuration = ''Age'', vo_code = ''code'', vo_tx_code = None\<rparr>
    \<lparr>ou_protocol = ''https:'', ou_hostname = ''i'', ou_origin = ''https://i.example'', ou_params = [], ou_text = ''https://i.example''\<rparr> ex_oid_metadata w1"
    unfolding issuance_calls_def by (simp add: bindS_def t g m c)
  also have "\<dots> = (Inr (''jwt'', JBool True, False), w3)"
    by (cases w3) (simp add: issuance_exchange_def bindS_def t e x y on_world_def js_truthy_def store_credential_def v)
  finally show ?thesis by blast
qed

theorem vci_issued_sound_witness:
  "\<exists>w raw (r :: http_response). issuePreAuthorizedCredential ex_oid ex_issuance ([], ()) = (Inr (''jwt'', JBool True, False), w) \<and> length (fst w) = 3
     \<and> oid_json ex_oid (hp_body r) = Some (JObj raw) \<and> jfield raw ''credential_issuer'' = JStr ''https://i.example''"
proof -
  obtain w where w: "issuePreAuthorizedCredential ex_oid ex_issuance ([], ()) = (Inr (''jwt'', JBool True, False), w)" using ex_oid_issued by blast
  from vci_issued_sound [OF w] obtain off home raw a b c and r :: http_response where "read_offer ex_oid (ii_offer ex_issuance) = Inr off" "vo_credential_issuer off = home"
      "jfield raw ''credential_issuer'' = JStr home" "oid_json ex_oid (hp_body r) = Some (JObj raw)" "fst w = [a, b, c] @ fst ([], ())"
    by (elim exE conjE) (rule that, assumption+)
  with w show ?thesis by (auto simp: ex_read_offer)
qed

theorem issuance_stays_on_issuer_witness:
  "\<exists>w. issuePreAuthorizedCredential ex_oid ex_issuance ([], ()) = (Inr (''jwt'', JBool True, False), w) \<and> length (fst w) \<le> 3
     \<and> (\<forall>c\<in>set (fst w). at_home ex_oid ''https://i.example'' (fst c))"
proof -
  obtain w where w: "issuePreAuthorizedCredential ex_oid ex_issuance ([], ()) = (Inr (''jwt'', JBool True, False), w)" using ex_oid_issued by blast
  from issuance_stays_on_issuer [OF ex_laws w] w show ?thesis by (auto simp: ex_read_offer)
qed

definition ex_verifier_request :: verifier_request where
  "ex_verifier_request = \<lparr>vq_clientId = ''v'', vq_responseUri = ''https://i.example/r'', vq_nonce = ''n'', vq_state = ''s1'', vq_dcqlQuery = JObj [],
     vq_transactionData = Some [''t'']\<rparr>"

definition ex_hooks :: vp_hooks where
  "ex_hooks = \<lparr>vh_verifySignedRequest = None, vh_fetchRequestUri = None, vh_resolveVerifier = Some (\<lambda>c. Inr (c = ''v'')),
     vh_validateTransactionData = Some (\<lambda>t. Inr (t = ''t''))\<rparr>"

lemma ex_built: "\<exists>r. buildOpenId4VpRequest ex_oid ex_verifier_request = Inr r \<and> vp_transaction_data r = Some [''t'']"
  by (simp add: buildOpenId4VpRequest_def ex_verifier_request_def https_origin_def ex_oid_def has_prefix_def)

lemma ex_hook_facts: "js_truthy (vq_dcqlQuery ex_verifier_request)"
  "\<forall>f. vh_resolveVerifier ex_hooks = Some f \<longrightarrow> f (vq_clientId ex_verifier_request) = Inr True"
  "\<forall>ts. vq_transactionData ex_verifier_request = Some ts \<longrightarrow> (\<exists>f. vh_validateTransactionData ex_hooks = Some f \<and> (\<forall>t\<in>set ts. f t = Inr True))"
  by (simp_all add: ex_verifier_request_def ex_hooks_def js_truthy_def)

theorem built_request_parses_witness:
  "\<exists>r. buildOpenId4VpRequest ex_oid ex_verifier_request = Inr r \<and> parseOpenId4VpRequest ex_oid ex_hooks (Request_object (request_entries r)) = Inr r"
  using ex_built built_request_parses [OF _ ex_hook_facts] by blast

definition ex_claims :: "(string \<times> jsval) list" where
  "ex_claims = [(''response_type'', JStr ''vp_token''), (''response_mode'', JStr ''direct_post''), (''client_id'', JStr ''v''),
     (''response_uri'', JStr ''https://i.example''), (''nonce'', JStr ''n''), (''state'', JStr ''s''), (''dcql_query'', JObj [])]"

lemma ex_request_parses: "\<exists>r. parseOpenId4VpRequest ex_oid ex_hooks (Request_object ex_claims) = Inr r \<and> vp_client_id r = ''v''"
  by (simp add: parseOpenId4VpRequest_def request_claims_def ex_claims_def claim_text_def js_truthy_def https_origin_def ex_origins [of "''''", simplified]
    confirm_verifier_def ex_hooks_def transaction_items_def)

theorem vp_request_sound_witness:
  "\<exists>r. parseOpenId4VpRequest ex_oid ex_hooks (Request_object ex_claims) = Inr r \<and> vp_client_id r = ''v''
     \<and> (\<forall>f. vh_resolveVerifier ex_hooks = Some f \<longrightarrow> f (vp_client_id r) = Inr True)"
proof -
  obtain r where r: "parseOpenId4VpRequest ex_oid ex_hooks (Request_object ex_claims) = Inr r" "vp_client_id r = ''v''" using ex_request_parses by blast
  with vp_request_sound [OF r(1)] show ?thesis by blast
qed

definition ex_oid_consume :: "string \<Rightarrow> string list \<Rightarrow> bool \<times> string list" where
  "ex_oid_consume s ss = (s \<in> set ss, filter (\<lambda>x. x \<noteq> s) ss)"

definition ex_expected :: vp_request where
  "ex_expected = \<lparr>vp_client_id = ''v'', vp_response_uri = ''https://i.example'', vp_nonce = ''n'', vp_state = ''s1'', vp_dcql_query = JObj [],
     vp_transaction_data = None, vp_request_uri = None\<rparr>"

lemma ex_posted: "verifyOpenId4VpDirectPost ex_oid ex_expected (Body_text ''t'') ex_oid_consume (\<lambda>t a n. returnS ([''b'', ''a''], [])) (Some [''a'', ''b'']) [''s1'']
    = (Inr ([], ''t''), [])"
proof -
  have "disclosures_match (Some [''a'', ''b'']) [''b'', ''a'']" unfolding disclosures_match_mset by simp
  then show ?thesis
    by (simp add: verifyOpenId4VpDirectPost_def bindS_def direct_post_begin_def direct_post_fields_def required_param_def unique_param_def all_values_def
      body_params_def ex_oid_def ex_expected_def ex_oid_consume_def direct_post_end_def Let_def)
qed

theorem direct_post_sound_witness:
  "\<exists>ds. verifyOpenId4VpDirectPost ex_oid ex_expected (Body_text ''t'') ex_oid_consume (\<lambda>t a n. returnS ([''b'', ''a''], [])) (Some [''a'', ''b'']) [''s1'']
     = (Inr ([], ''t''), []) \<and> mset ds = mset [''a'', ''b'']"
  using ex_posted direct_post_sound [OF ex_posted] by blast

end
