(* ===== verification/VerifierServiceProps.thy ===== *)
theory VerifierServiceProps
  imports VerifierService CredentialFormatsProps OpenId4VcProps TrustRegistryProps Interfaces
begin

text \<open>
  What a verified receipt rests on, across the direct post, the registry of formats and the
  caching trust registry; the segments between the awaits of a verification, their
  composition, and what holds for every interleaving of them.
\<close>

section \<open>Policies\<close>

definition policy_wf :: "verification_policy \<Rightarrow> bool" where
  "policy_wf p \<longleftrightarrow> vpo_schemaVersion p = 1 \<and> list_all opaque_id [vpo_policyId p, vpo_tenantId p, vpo_jurisdiction p]
     \<and> (\<exists>d. format_descriptor (vpo_format p) = Some d \<and> vpo_profile p = pf_profile d \<and> vpo_version p = pf_version d)
     \<and> vpo_schemaId p \<noteq> '''' \<and> length (vpo_schemaId p) \<le> 512 \<and> vpo_credentialTypes p \<noteq> [] \<and> length (vpo_credentialTypes p) \<le> 16
     \<and> vpo_requestedClaims p \<noteq> [] \<and> length (vpo_requestedClaims p) \<le> 16 \<and> list_all claim_name (map crq_name (vpo_requestedClaims p))
     \<and> distinct (map crq_name (vpo_requestedClaims p)) \<and> vpo_acceptedIssuers p \<noteq> Some []"

lemma safeId_Inr: "safeId s = Inr t \<longleftrightarrow> opaque_id s \<and> t = s"
  by (auto simp: safeId_def)

lemma refuse_Inr: "(if b then Inl e else r) = Inr p \<longleftrightarrow> \<not> b \<and> r = Inr p"
  by simp

lemma parse_policy_Inr: "parseVerificationPolicy v = Inr p \<longleftrightarrow> p = v \<and> policy_wf v"
proof (cases "format_descriptor (vpo_format v)")
  case None
  then show ?thesis by (auto simp: parseVerificationPolicy_def policy_wf_def Let_def bindE_Inr)
next
  case (Some d)
  have "parseVerificationPolicy v = Inr p \<longleftrightarrow> vpo_schemaVersion v = 1 \<and> opaque_id (vpo_policyId v) \<and> opaque_id (vpo_tenantId v) \<and> opaque_id (vpo_jurisdiction v)
      \<and> \<not> (vpo_profile v \<noteq> pf_profile d \<or> vpo_version v \<noteq> pf_version d) \<and> \<not> (vpo_schemaId v = '''' \<or> 512 < length (vpo_schemaId v))
      \<and> \<not> (vpo_credentialTypes v = [] \<or> 16 < length (vpo_credentialTypes v) \<or> vpo_requestedClaims v = [] \<or> 16 < length (vpo_requestedClaims v))
      \<and> \<not> (\<not> list_all claim_name (map crq_name (vpo_requestedClaims v)) \<or> \<not> distinct (map crq_name (vpo_requestedClaims v))) \<and> vpo_acceptedIssuers v \<noteq> Some [] \<and> v = p"
    unfolding parseVerificationPolicy_def Let_def refuse_Inr bindE_Inr safeId_Inr Some option.case sum.inject by blast
  also have "\<dots> \<longleftrightarrow> p = v \<and> policy_wf v"
    unfolding policy_wf_def Some by (simp only: list.pred_inject option.inject not_less de_Morgan_disj ex_simps simp_thms not_not conj_ac) metis
  finally show ?thesis .
qed

text \<open>A service holds well-formed policies, each under its identifier.\<close>

definition policies_ok :: "(string \<rightharpoonup> verification_policy) \<Rightarrow> bool" where
  "policies_ok m \<longleftrightarrow> (\<forall>k p. m k = Some p \<longrightarrow> policy_wf p \<and> vpo_policyId p = k)"

lemma load_policies_ok: "load_policies ps m = Inr m' \<Longrightarrow> policies_ok m \<Longrightarrow> policies_ok m'"
proof (induction ps arbitrary: m)
  case (Cons p ps)
  then obtain q where q: "parseVerificationPolicy p = Inr q" "load_policies ps (m(vpo_policyId q \<mapsto> q)) = Inr m'"
    by (auto simp: bindE_Inr split: if_splits)
  have "policies_ok (m(vpo_policyId q \<mapsto> q))" using Cons.prems(2) q(1) by (simp add: policies_ok_def parse_policy_Inr)
  with Cons.IH [OF q(2)] show ?case .
qed simp

lemma new_verifier_ok: "new_verifier opts = Inr svc \<Longrightarrow> policies_ok (vsv_policies svc) \<and> 30 \<le> vsv_ttl svc \<and> vsv_ttl svc \<le> 900"
  using load_policies_ok [of "vop_policies opts" Map.empty]
  by (auto simp: new_verifier_def bindE_Inr Let_def policies_ok_def split: if_splits)

section \<open>One evaluation\<close>

definition presentation_meets :: "verification_policy \<Rightarrow> 'v resolved_presentation \<Rightarrow> format_result \<Rightarrow> int \<Rightarrow> bool" where
  "presentation_meets p x r now \<longleftrightarrow> artifact_fits p (rpr_artifact x) \<and> fr_issuer r = Some (pmd_issuerId (rpr_metadata x))
     \<and> (\<forall>is. vpo_acceptedIssuers p = Some is \<longrightarrow> pmd_issuerId (rpr_metadata x) \<in> set is) \<and> pmd_schemaId (rpr_metadata x) = vpo_schemaId p
     \<and> (\<exists>t\<in>set (vpo_credentialTypes p). t \<in> set (fr_types r)) \<and> (vpo_requireHolderBinding p \<longrightarrow> fr_holderBound r)
     \<and> pmd_issuedAt (rpr_metadata x) \<le> now \<and> now < pmd_expiresAt (rpr_metadata x)
     \<and> mset (map fst (fr_disclosed r)) = mset (map crq_name (vpo_requestedClaims p))
     \<and> (\<forall>c\<in>set (vpo_requestedClaims p). \<forall>v. crq_equals c = Some v \<longrightarrow> map_of (fr_disclosed r) (crq_name c) = Some (claim_value_js v))"

lemma sort_mset: "sort xs = sort (ys :: string list) \<longleftrightarrow> mset xs = mset ys"
  using disclosures_match_mset [of ys xs] by (simp add: disclosures_match_def)

lemma policy_checks_None:
  "policy_checks p (rpr_metadata x) r now = None \<and> artifact_fits p (rpr_artifact x) \<Longrightarrow> presentation_meets p x r now"
  by (auto simp: policy_checks_def presentation_meets_def sort_mset list_ex_iff list_all_iff claim_holds_def not_less split: if_splits option.splits)

lemma registry_verdict_verified:
  "vd_result (registry_verdict r) = decision_kind.Verified \<Longrightarrow> \<exists>d. r = Inr d \<and> rd_decision d = decision_kind.Verified \<and> vd_registry (registry_verdict r) = Some d"
  by (auto simp: registry_verdict_def Let_def split: sum.splits if_splits)

lemma evaluate_verified:
  assumes "evaluate_presentation ports p x millis w = (Inr v, w')" "vd_result v = decision_kind.Verified"
  shows "\<exists>r d. registry_verify (vpt_formats ports) \<lparr>fs_format = vpo_format p, fs_profile = vpo_profile p, fs_version = vpo_version p\<rparr> (rpr_artifact x) (rpr_verificationInput x) = Inr r
    \<and> fr_verified r \<and> presentation_meets p x r (millis div 1000)
    \<and> vpt_registry ports (registry_request p (rpr_metadata x)) (Whole (millis div 1000)) w = (Inr d, w') \<and> rd_decision d = decision_kind.Verified \<and> vd_registry v = Some d"
proof -
  let ?v = "registry_verify (vpt_formats ports) \<lparr>fs_format = vpo_format p, fs_profile = vpo_profile p, fs_version = vpo_version p\<rparr> (rpr_artifact x) (rpr_verificationInput x)"
  have fits: "artifact_fits p (rpr_artifact x)" using assms by (auto simp: evaluate_presentation_def rejected_as_def split: if_splits)
  obtain r where r: "?v = Inr r" using assms(1) fits by (cases ?v) (auto simp: evaluate_presentation_def)
  have fr: "fr_verified r" using assms fits r by (auto simp: evaluate_presentation_def rejected_as_def split: if_splits)
  have n: "policy_checks p (rpr_metadata x) r (millis div 1000) = None"
    using assms fits r fr by (cases "policy_checks p (rpr_metadata x) r (millis div 1000)") (auto simp: evaluate_presentation_def)
  obtain d0 where d0: "vpt_registry ports (registry_request p (rpr_metadata x)) (Whole (millis div 1000)) w = (d0, w')" "v = registry_verdict d0"
    using assms(1) fits r fr n by (auto simp: evaluate_presentation_def split: prod.splits)
  from registry_verdict_verified [of d0] assms(2) d0 obtain d where "d0 = Inr d" "rd_decision d = decision_kind.Verified" "vd_registry v = Some d" by auto
  with r fr d0 policy_checks_None [of p x r "millis div 1000"] n fits show ?thesis by blast
qed

section \<open>One response\<close>

lemma protocol_not_verified: "vd_result (mapProtocolError e) \<noteq> decision_kind.Verified" "vd_result (rejected_as c) \<noteq> decision_kind.Verified"
  by (simp_all add: mapProtocolError_def rejected_as_def)

lemma verify_token_Inr:
  assumes "verify_token ports p millis token a n (s, ev, w) = (Inr (ds, cs), (s', ev', w'))"
  shows "\<exists>x w1 v. vpt_resolve ports token a n w = (Inr x, w1) \<and> evaluate_presentation ports p x millis w1 = (Inr v, w') \<and> ds = rpr_disclosures x \<and> s' = s \<and> ev' = Some v"
  using assms by (auto simp: verify_token_def split: prod.splits sum.splits)

lemma protocol_verified:
  assumes "protocol_verdict pf vp ports policy x sid body clk s w = (v, s', w')" "vd_result v = decision_kind.Verified"
  shows "\<exists>p token pres w1. policy = Some p \<and> store_consume vp sid (vp_state (vse_request x)) (vti_consume clk) s = (True, s')
    \<and> vpt_resolve ports token (vp_client_id (vse_request x)) (vp_nonce (vse_request x)) w = (Inr pres, w1)
    \<and> evaluate_presentation ports p pres (vti_evaluate clk) w1 = (Inr v, w') \<and> mset (rpr_disclosures pres) = mset (map crq_name (vpo_requestedClaims p))"
proof (cases policy)
  case None
  with assms protocol_not_verified show ?thesis by (auto simp: protocol_verdict_def)
next
  case (Some p)
  let ?m = "verifyOpenId4VpDirectPost pf (vse_request x) body (consume_state vp sid (vti_consume clk)) (verify_token ports p (vti_evaluate clk))
      (Some (map crq_name (vpo_requestedClaims p))) (s, None, w)"
  obtain res s1 ev w2 where m: "?m = (res, (s1, ev, w2))" by (metis prod.collapse)
  show ?thesis
  proof (cases res)
    case (Inl e)
    with assms m Some protocol_not_verified show ?thesis by (auto simp: protocol_verdict_def)
  next
    case (Inr y)
    obtain cs token where y: "y = (cs, token)" by (cases y)
    obtain u ds where c: "consume_state vp sid (vti_consume clk) (vp_state (vse_request x)) (s, None, w) = (True, u)"
        "verify_token ports p (vti_evaluate clk) token (vp_client_id (vse_request x)) (vp_nonce (vse_request x)) u = (Inr (ds, cs), (s1, ev, w2))"
        "mset ds = mset (map crq_name (vpo_requestedClaims p))"
      using direct_post_sound [OF m [unfolded Inr y]] by blast
    obtain t where u: "u = (t, None, w)" "store_consume vp sid (vp_state (vse_request x)) (vti_consume clk) s = (True, t)"
      using c(1) by (auto simp: consume_state_def split: prod.splits)
    from verify_token_Inr [OF c(2) [unfolded u(1)]] obtain pres w1 v1 where
      k: "vpt_resolve ports token (vp_client_id (vse_request x)) (vp_nonce (vse_request x)) w = (Inr pres, w1)"
      "evaluate_presentation ports p pres (vti_evaluate clk) w1 = (Inr v1, w2)" "ds = rpr_disclosures pres" "s1 = t" "ev = Some v1" by blast
    have "v = v1 \<and> s' = t \<and> w' = w2" using assms(1) Some m Inr y k(4,5) by (auto simp: protocol_verdict_def)
    with Some u(2) k(1,2,3) c(3) show ?thesis by blast
  qed
qed

lemma store_consume_True:
  "store_consume vp sid st now s = (True, t) \<longleftrightarrow> (\<exists>x. vst_sessions s sid = Some x \<and> vse_state x = st \<and> vse_status x = Session_requested
     \<and> \<not> past vp (vse_expiresAt x) now \<and> t = s\<lparr>vst_sessions := (vst_sessions s)(sid \<mapsto> x\<lparr>vse_status := Session_consumed\<rparr>)\<rparr>)"
  by (auto simp: store_consume_def split: option.splits)

lemma verifier_finish_Inr: "verifier_finish vp x v rid now s = (Inr r, t) \<longleftrightarrow> opaque_id rid \<and> r = receipt_of vp x v rid now \<and> t = store_complete (vse_sessionId x) r s"
  by (auto simp: verifier_finish_def safeId_def Let_def)

lemma verifyResponse_verified:
  assumes "verifyResponse svc pf vp ports sid body clk rid (s, w) = (Inr r, z)" "vrc_result r = decision_kind.Verified"
  shows "\<exists>x v s' w'. vst_sessions s sid = Some x \<and> protocol_verdict pf vp ports (vsv_policies svc (vse_policyId x)) x sid body clk s w = (v, s', w')
    \<and> vd_result v = decision_kind.Verified \<and> r = receipt_of vp x v rid (vti_finish clk)"
proof -
  obtain x where x: "vst_sessions s sid = Some x" using assms(1) by (cases "vst_sessions s sid") (auto simp: verifyResponse_def)
  let ?c = "if past vp (vse_expiresAt x) (vti_start clk) then (rejected_as ''SESSION_EXPIRED'', s, w)
              else protocol_verdict pf vp ports (vsv_policies svc (vse_policyId x)) x sid body clk s w"
  obtain v s' w' where v: "?c = (v, s', w')" by (metis prod.collapse)
  then have r: "r = receipt_of vp x v rid (vti_finish clk)"
    using assms(1) x by (cases "verifier_finish vp x v rid (vti_finish clk) s'") (auto simp: verifyResponse_def verifier_finish_Inr)
  then have vv: "vd_result v = decision_kind.Verified" using assms(2) by (simp add: receipt_of_def)
  have "\<not> past vp (vse_expiresAt x) (vti_start clk)"
  proof
    assume "past vp (vse_expiresAt x) (vti_start clk)"
    with v vv show False using protocol_not_verified(2) by (metis prod.inject)
  qed
  with v have "protocol_verdict pf vp ports (vsv_policies svc (vse_policyId x)) x sid body clk s w = (v, s', w')" by simp
  with x vv r show ?thesis by blast
qed

lemma receipt_snapshot: "vd_registry v = Some d \<Longrightarrow> vrc_snapshotExpiresAt (receipt_of vp x v rid now) = map_option snd (rd_snapshot d)"
  by (simp add: receipt_of_def)

text \<open>
  C11: A receipt that says verified, from a service over a registry of the two factories'
  adapters and the caching trust registry after any sequence of its operations, means: the
  session was requested and not expired and its policy is well formed; the token was resolved
  for the audience and nonce of the session's request; the presentation was verified by an
  adapter of the policy's format; issuer, schema, type, holder binding, times, disclosed
  claims and their values meet the policy; and an attested, current snapshot lists issuer,
  schema, key and status as valid, whose expiry the receipt carries.
\<close>

theorem verified_receipt_sound:
  assumes "new_verifier opts = Inr svc" "new_adapter_registry as = Inr (vpt_formats ports)" "\<forall>a\<in>set as. factory_adapter utf8 a"
    and "vpt_registry ports = evaluateCredential src sv" "\<forall>t a n w. rg_entries (snd (vpt_resolve ports t a n w)) = rg_entries w"
    and "verifyResponse svc pf vp ports sid body clk rid (s, registry_run src sv ops (new_registry y)) = (Inr receipt, z)"
    and "vrc_result receipt = decision_kind.Verified"
  shows "\<exists>x p token pres w po d r dec. vst_sessions s sid = Some x \<and> vse_status x = Session_requested \<and> \<not> past vp (vse_expiresAt x) (vti_consume clk)
     \<and> vsv_policies svc (vse_policyId x) = Some p \<and> policy_wf p
     \<and> [vrc_sessionId receipt, vrc_tenantId receipt, vrc_policyId receipt] = [vse_sessionId x, vse_tenantId x, vse_policyId x]
     \<and> fst (vpt_resolve ports token (vp_client_id (vse_request x)) (vp_nonce (vse_request x)) w) = Inr pres
     \<and> mset (rpr_disclosures pres) = mset (map crq_name (vpo_requestedClaims p))
     \<and> format_descriptor (vpo_format p) = Some d \<and> port_adapter utf8 d po \<in> set as \<and> checked_by utf8 d po (rpr_artifact pres) (rpr_verificationInput pres) r
     \<and> presentation_meets p pres r (vti_evaluate clk div 1000)
     \<and> trusted_by sv (registry_request p (rpr_metadata pres)) (vti_evaluate clk div 1000) dec
     \<and> vrc_snapshotExpiresAt receipt = map_option snd (rd_snapshot dec)"
proof -
  let ?w = "registry_run src sv ops (new_registry y)"
  obtain x v s' w' where x: "vst_sessions s sid = Some x" "protocol_verdict pf vp ports (vsv_policies svc (vse_policyId x)) x sid body clk s ?w = (v, s', w')"
      "vd_result v = decision_kind.Verified" "receipt = receipt_of vp x v rid (vti_finish clk)"
    using verifyResponse_verified [OF assms(6,7)] by blast
  obtain p token pres w1 where p: "vsv_policies svc (vse_policyId x) = Some p" "store_consume vp sid (vp_state (vse_request x)) (vti_consume clk) s = (True, s')"
      "vpt_resolve ports token (vp_client_id (vse_request x)) (vp_nonce (vse_request x)) ?w = (Inr pres, w1)"
      "evaluate_presentation ports p pres (vti_evaluate clk) w1 = (Inr v, w')" "mset (rpr_disclosures pres) = mset (map crq_name (vpo_requestedClaims p))"
    using protocol_verified [OF x(2,3)] by blast
  obtain r dec where e: "registry_verify (vpt_formats ports) \<lparr>fs_format = vpo_format p, fs_profile = vpo_profile p, fs_version = vpo_version p\<rparr> (rpr_artifact pres) (rpr_verificationInput pres) = Inr r"
      "fr_verified r" "presentation_meets p pres r (vti_evaluate clk div 1000)"
      "evaluateCredential src sv (registry_request p (rpr_metadata pres)) (Whole (vti_evaluate clk div 1000)) w1 = (Inr dec, w')" "rd_decision dec = decision_kind.Verified"
      "vd_registry v = Some dec"
    using evaluate_verified [OF p(4) x(3)] assms(4) by auto
  obtain d po where f: "format_descriptor (vpo_format p) = Some d" "port_adapter utf8 d po \<in> set as" "checked_by utf8 d po (rpr_artifact pres) (rpr_verificationInput pres) r"
    using registry_verified_sound [OF assms(2,3) e(1,2)] by auto
  have k: "rg_entries w1 = rg_entries ?w"
    using assms(5) [rule_format, of token "vp_client_id (vse_request x)" "vp_nonce (vse_request x)" ?w] by (simp add: p(3))
  have "cache_ok sv ?w" by (rule registry_run_ok [OF new_registry_ok])
  then have ok: "cache_ok sv w1" unfolding cache_ok_cong [OF k] .
  have t: "trusted_by sv (registry_request p (rpr_metadata pres)) (vti_evaluate clk div 1000) dec" by (rule cached_decision_sound [OF e(4) ok e(5)])
  have wf: "policy_wf p" using new_verifier_ok [OF assms(1)] p(1) by (auto simp: policies_ok_def)
  have fst_eq: "fst (vpt_resolve ports token (vp_client_id (vse_request x)) (vp_nonce (vse_request x)) ?w) = Inr pres" using p(3) by simp
  have st: "vse_status x = Session_requested" "\<not> past vp (vse_expiresAt x) (vti_consume clk)" using p(2) x(1) by (auto simp: store_consume_True)
  have ids: "[vrc_sessionId receipt, vrc_tenantId receipt, vrc_policyId receipt] = [vse_sessionId x, vse_tenantId x, vse_policyId x]"
    by (simp add: x(4) receipt_of_def)
  show ?thesis
    using x(1) st p(1) wf ids fst_eq p(5) f e(3) t receipt_snapshot [OF e(6)] unfolding x(4) by blast
qed

section \<open>The awaits of a verification\<close>

text \<open>What runs up to the first await: a verdict, or the policy and the token to verify.\<close>

definition verifier_begin ::
  "verifier_service \<Rightarrow> oid_platform \<Rightarrow> verifier_platform \<Rightarrow> string \<Rightarrow> post_body \<Rightarrow> verify_times
   \<Rightarrow> (verifier_store, verifier_exn, verification_session \<times> (verdict + verification_policy \<times> string)) meth" where
  "verifier_begin svc pf vp sid body clk s = (case vst_sessions s sid of None \<Rightarrow> (Inl (Verifier_error ''SESSION_NOT_FOUND''), s)
     | Some x \<Rightarrow> if past vp (vse_expiresAt x) (vti_start clk) then (Inr (x, Inl (rejected_as ''SESSION_EXPIRED'')), s)
         else (case vsv_policies svc (vse_policyId x) of None \<Rightarrow> (Inr (x, Inl (mapProtocolError Vp_foreign)), s)
           | Some p \<Rightarrow> (case direct_post_begin pf (vse_request x) body (\<lambda>st. store_consume vp sid st (vti_consume clk)) s of
                 (Inl e, s') \<Rightarrow> (Inr (x, Inl (mapProtocolError e)), s')
               | (Inr token, s') \<Rightarrow> (Inr (x, Inr (p, token)), s'))))"

text \<open>What runs over the awaits of the ports; the store is not touched.\<close>

definition verifier_middle :: "('i, 'p, 'v, 'w) verifier_ports \<Rightarrow> verification_session \<Rightarrow> verification_policy \<Rightarrow> string \<Rightarrow> int \<Rightarrow> 'w \<Rightarrow> verdict \<times> 'w" where
  "verifier_middle ports x p token millis w = (case vpt_resolve ports token (vp_client_id (vse_request x)) (vp_nonce (vse_request x)) w of
       (Inl e, w1) \<Rightarrow> (mapProtocolError e, w1)
     | (Inr pres, w1) \<Rightarrow> (case evaluate_presentation ports p pres millis w1 of
           (Inl e, w2) \<Rightarrow> (mapProtocolError e, w2)
         | (Inr v, w2) \<Rightarrow> (if \<not> disclosures_match (Some (map crq_name (vpo_requestedClaims p))) (rpr_disclosures pres)
             then mapProtocolError (Vp_error ''disclosure_mismatch'') else v, w2)))"

lemma direct_begin_lift:
  "direct_post_begin pf rq body (consume_state vp sid now) (s, ev, w) = (case direct_post_begin pf rq body (\<lambda>st. store_consume vp sid st now) s of (r, s') \<Rightarrow> (r, (s', ev, w)))"
  by (auto simp: direct_post_begin_def consume_state_def split: sum.split prod.split)

lemma protocol_segments:
  "protocol_verdict pf vp ports (Some p) x sid body clk s w = (case direct_post_begin pf (vse_request x) body (\<lambda>st. store_consume vp sid st (vti_consume clk)) s of
      (Inl e, s') \<Rightarrow> (mapProtocolError e, s', w)
    | (Inr token, s') \<Rightarrow> (case verifier_middle ports x p token (vti_evaluate clk) w of (v, w') \<Rightarrow> (v, s', w')))"
proof -
  obtain r s' where b: "direct_post_begin pf (vse_request x) body (\<lambda>st. store_consume vp sid st (vti_consume clk)) s = (r, s')" by fastforce
  show ?thesis
  proof (cases r)
    case (Inl e)
    then show ?thesis by (simp add: protocol_verdict_def verifyOpenId4VpDirectPost_def bindS_def direct_begin_lift b)
  next
    case (Inr token)
    obtain q w1 where q: "vpt_resolve ports token (vp_client_id (vse_request x)) (vp_nonce (vse_request x)) w = (q, w1)" by fastforce
    show ?thesis
    proof (cases q)
      case (Inl e)
      with Inr q show ?thesis
        by (simp add: protocol_verdict_def verifyOpenId4VpDirectPost_def bindS_def direct_begin_lift b verify_token_def verifier_middle_def)
    next
      case (Inr pres)
      obtain v w2 where v: "evaluate_presentation ports p pres (vti_evaluate clk) w1 = (v, w2)" by fastforce
      show ?thesis
        using \<open>r = Inr token\<close> q Inr v
        by (cases v) (auto simp: protocol_verdict_def verifyOpenId4VpDirectPost_def bindS_def direct_begin_lift b verify_token_def verifier_middle_def direct_post_end_def)
    qed
  qed
qed

lemma verify_response_segments:
  "verifyResponse svc pf vp ports sid body clk rid (s, w) = (case verifier_begin svc pf vp sid body clk s of
      (Inl e, s') \<Rightarrow> (Inl e, (s', w))
    | (Inr (x, Inl v), s') \<Rightarrow> (case verifier_finish vp x v rid (vti_finish clk) s' of (r, s'') \<Rightarrow> (r, (s'', w)))
    | (Inr (x, Inr (p, token)), s') \<Rightarrow> (case verifier_middle ports x p token (vti_evaluate clk) w of (v, w') \<Rightarrow>
        (case verifier_finish vp x v rid (vti_finish clk) s' of (r, s'') \<Rightarrow> (r, (s'', w')))))"
proof (cases "vst_sessions s sid")
  case None
  then show ?thesis by (simp add: verifyResponse_def verifier_begin_def)
next
  case (Some x)
  show ?thesis
  proof (cases "past vp (vse_expiresAt x) (vti_start clk)")
    case True
    with Some show ?thesis by (simp add: verifyResponse_def verifier_begin_def)
  next
    case False
    show ?thesis
    proof (cases "vsv_policies svc (vse_policyId x)")
      case None
      with Some False show ?thesis by (simp add: verifyResponse_def verifier_begin_def protocol_verdict_def)
    next
      case (Some p)
      then show ?thesis using \<open>vst_sessions s sid = Some x\<close> False
        by (auto simp: verifyResponse_def verifier_begin_def protocol_segments split: prod.split sum.split)
    qed
  qed
qed

section \<open>Sessions are consumed once\<close>

definition sessions_ok :: "verifier_store \<Rightarrow> bool" where
  "sessions_ok s \<longleftrightarrow> (\<forall>k x. vst_sessions s k = Some x \<longrightarrow> vse_sessionId x = k)"

definition consumed_in :: "verifier_store \<Rightarrow> string \<Rightarrow> bool" where
  "consumed_in s i \<longleftrightarrow> (\<exists>x. vst_sessions s i = Some x \<and> vse_status x = Session_consumed)"

lemma create_result:
  assumes "createVerificationSession svc pf vp pid drawn now s = (r, t)"
  shows "t = s \<or> (\<exists>x. vst_sessions s (vse_sessionId x) = None \<and> t = s\<lparr>vst_sessions := (vst_sessions s)(vse_sessionId x \<mapsto> x)\<rparr>)"
proof (cases "vsv_policies svc pid")
  case None
  with assms show ?thesis by (simp add: createVerificationSession_def)
next
  case (Some p)
  then show ?thesis
    using assms by (auto simp: createVerificationSession_def pure_then Let_def bindS_def store_create_def split: sum.splits if_splits)
qed

lemma create_keeps:
  assumes "createVerificationSession svc pf vp pid drawn now s = (r, t)"
  shows "sessions_ok s \<Longrightarrow> sessions_ok t" "consumed_in s i \<Longrightarrow> consumed_in t i"
  using create_result [OF assms] by (auto simp: sessions_ok_def consumed_in_def split: if_splits)

lemma store_complete_sessions:
  "vst_sessions (store_complete sid r s) k = (case vst_sessions s k of None \<Rightarrow> None
     | Some x \<Rightarrow> Some (if k = sid \<and> vse_receipt x = None \<and> vse_status x = Session_consumed then x\<lparr>vse_receipt := Some r\<rparr> else x))"
  by (auto simp: store_complete_def Let_def split: option.split)

lemma complete_keeps: "sessions_ok s \<Longrightarrow> sessions_ok (store_complete sid r s)" "consumed_in s i \<Longrightarrow> consumed_in (store_complete sid r s) i"
  by (auto simp: sessions_ok_def consumed_in_def store_complete_sessions split: option.splits)

lemma consume_keeps:
  assumes "store_consume vp sid st now s = (b, t)"
  shows "sessions_ok s \<Longrightarrow> sessions_ok t" "consumed_in s i \<Longrightarrow> consumed_in t i"
    "b \<Longrightarrow> \<not> consumed_in s sid \<and> consumed_in t sid" "\<not> b \<Longrightarrow> t = s"
  using assms by (auto simp: store_consume_def sessions_ok_def consumed_in_def split: option.splits if_splits)

definition store_attempt :: "verifier_platform \<Rightarrow> string \<times> string \<times> int \<Rightarrow> verifier_store \<Rightarrow> bool \<times> verifier_store" where
  "store_attempt vp q s = (case q of (sid, st, now) \<Rightarrow> store_consume vp sid st now s)"

definition session_other :: "verifier_store \<Rightarrow> verifier_store \<Rightarrow> bool" where
  "session_other s t \<longleftrightarrow> (\<exists>x. t = snd (store_create x s)) \<or> (\<exists>sid r. t = store_complete sid r s)"

interpretation verifier_sessions: one_shot "store_attempt vp" fst session_other "\<lambda>s. {i. consumed_in s i}" for vp
proof
  fix i s t
  assume "store_attempt vp i s = (True, t)"
  then show "fst i \<notin> {i. consumed_in s i}" "fst i \<in> {i. consumed_in t i}"
    using consume_keeps(3) by (auto simp: store_attempt_def split: prod.splits)
next
  fix i s b t
  assume "store_attempt vp i s = (b, t)"
  then show "{i. consumed_in s i} \<subseteq> {i. consumed_in t i}" using consume_keeps(2) by (auto simp: store_attempt_def split: prod.splits)
next
  fix s t
  assume "session_other s t"
  then show "{i. consumed_in s i} \<subseteq> {i. consumed_in t i}"
    using complete_keeps(2) by (auto simp: session_other_def store_create_def consumed_in_def)
qed

theorem session_consumed_once:
  "one_shot_run (store_attempt vp) fst session_other s used t \<Longrightarrow> distinct used"
  by (rule verifier_sessions.run_distinct)

section \<open>Interleaved verifications\<close>

text \<open>
  The responses that wait for the ports, those that wait to be finished, and the receipts
  handed out.  A step is one segment of a call; the ports may be in any state.
\<close>

record verifier_machine =
  vma_store :: verifier_store
  vma_pending :: "(verification_session \<times> verification_policy \<times> string) list"
  vma_finishing :: "(verification_session \<times> verdict) list"
  vma_issued :: "verification_receipt list"

definition new_machine :: verifier_machine where
  "new_machine = \<lparr>vma_store = \<lparr>vst_sessions = Map.empty, vst_receipts = Map.empty\<rparr>, vma_pending = [], vma_finishing = [], vma_issued = []\<rparr>"

inductive verifier_step :: "verifier_service \<Rightarrow> oid_platform \<Rightarrow> verifier_platform \<Rightarrow> ('i, 'p, 'v, 'w) verifier_ports \<Rightarrow> verifier_machine \<Rightarrow> verifier_machine \<Rightarrow> bool"
  for svc pf vp ports where
  create: "createVerificationSession svc pf vp pid drawn now (vma_store m) = (r, s) \<Longrightarrow> verifier_step svc pf vp ports m (m\<lparr>vma_store := s\<rparr>)"
| begin_throws: "verifier_begin svc pf vp sid body clk (vma_store m) = (Inl e, s) \<Longrightarrow> verifier_step svc pf vp ports m (m\<lparr>vma_store := s\<rparr>)"
| begin_decided: "verifier_begin svc pf vp sid body clk (vma_store m) = (Inr (x, Inl v), s)
    \<Longrightarrow> verifier_step svc pf vp ports m (m\<lparr>vma_store := s, vma_finishing := (x, v) # vma_finishing m\<rparr>)"
| begin_waits: "verifier_begin svc pf vp sid body clk (vma_store m) = (Inr (x, Inr (p, token)), s)
    \<Longrightarrow> verifier_step svc pf vp ports m (m\<lparr>vma_store := s, vma_pending := (x, p, token) # vma_pending m\<rparr>)"
| verified: "vma_pending m = as @ (x, p, token) # bs \<Longrightarrow> verifier_middle ports x p token millis w = (v, w')
    \<Longrightarrow> verifier_step svc pf vp ports m (m\<lparr>vma_pending := as @ bs, vma_finishing := (x, v) # vma_finishing m\<rparr>)"
| finished: "vma_finishing m = as @ (x, v) # bs \<Longrightarrow> verifier_finish vp x v rid now (vma_store m) = (Inr r, s)
    \<Longrightarrow> verifier_step svc pf vp ports m (m\<lparr>vma_store := s, vma_finishing := as @ bs, vma_issued := r # vma_issued m\<rparr>)"
| finish_throws: "vma_finishing m = as @ (x, v) # bs \<Longrightarrow> verifier_finish vp x v rid now (vma_store m) = (Inl e, s)
    \<Longrightarrow> verifier_step svc pf vp ports m (m\<lparr>vma_store := s, vma_finishing := as @ bs\<rparr>)"

abbreviation good :: "decision_kind \<Rightarrow> bool" where
  "good d \<equiv> d = decision_kind.Verified"

definition active_sessions :: "verifier_machine \<Rightarrow> string multiset" where
  "active_sessions m = mset (map (\<lambda>(x, _). vse_sessionId x) (vma_pending m))
     + mset (map (\<lambda>(x, _). vse_sessionId x) (filter (\<lambda>(_, v). good (vd_result v)) (vma_finishing m)))
     + mset (map vrc_sessionId (filter (\<lambda>r. good (vrc_result r)) (vma_issued m)))"

text \<open>No session is active twice, and an active session is a consumed one.\<close>

definition machine_ok :: "verifier_machine \<Rightarrow> bool" where
  "machine_ok m \<longleftrightarrow> sessions_ok (vma_store m) \<and> (\<forall>i. count (active_sessions m) i \<le> (if consumed_in (vma_store m) i then 1 else 0))"

lemma distinct_of_count: "(\<And>i. count (mset xs) i \<le> 1) \<Longrightarrow> distinct xs"
proof (induction xs)
  case (Cons x xs)
  have "count (mset xs) i \<le> count (mset (x # xs)) i" for i by simp
  then have "count (mset xs) i \<le> 1" for i using Cons.prems [of i] le_trans by blast
  then have "distinct xs" by (rule Cons.IH)
  moreover have "x \<notin> set xs" using Cons.prems [of x] by (simp add: count_eq_zero_iff)
  ultimately show ?case by simp
qed simp

lemma machine_ok_less:
  assumes "machine_ok m" "sessions_ok (vma_store n)" "\<And>i. consumed_in (vma_store m) i \<Longrightarrow> consumed_in (vma_store n) i"
    "\<And>i. count (active_sessions n) i \<le> count (active_sessions m) i"
  shows "machine_ok n"
proof -
  have "count (active_sessions n) i \<le> (if consumed_in (vma_store n) i then 1 else 0)" for i
  proof -
    have "count (active_sessions m) i \<le> (if consumed_in (vma_store m) i then 1 else 0)" using assms(1) by (simp add: machine_ok_def)
    with assms(3) [of i] assms(4) [of i] show ?thesis by (auto split: if_splits)
  qed
  with assms(2) show ?thesis by (simp add: machine_ok_def)
qed

lemma begin_result:
  assumes "verifier_begin svc pf vp sid body clk s = (r, t)"
  shows "(case r of Inl e \<Rightarrow> t = s | Inr (x, Inl v) \<Rightarrow> t = s \<and> \<not> good (vd_result v)
    | Inr (x, Inr (p, token)) \<Rightarrow> vst_sessions s sid = Some x \<and> (\<exists>st. store_consume vp sid st (vti_consume clk) s = (True, t)))"
proof (cases "vst_sessions s sid")
  case None
  with assms show ?thesis by (auto simp: verifier_begin_def)
next
  case (Some x)
  note x = Some
  show ?thesis
  proof (cases "past vp (vse_expiresAt x) (vti_start clk)")
    case True
    with assms x protocol_not_verified show ?thesis by (auto simp: verifier_begin_def)
  next
    case False
    show ?thesis
    proof (cases "vsv_policies svc (vse_policyId x)")
      case None
      with assms x False protocol_not_verified show ?thesis by (auto simp: verifier_begin_def)
    next
      case (Some p)
      obtain q u where q: "direct_post_begin pf (vse_request x) body (\<lambda>st. store_consume vp sid st (vti_consume clk)) s = (q, u)" by fastforce
      have k: "case q of Inl e \<Rightarrow> u = s | Inr token \<Rightarrow> (\<exists>st. store_consume vp sid st (vti_consume clk) s = (True, u))"
        using q consume_keeps(4) [of vp sid] by (auto simp: direct_post_begin_def split: sum.splits prod.splits if_splits)
      show ?thesis using assms x False Some q k protocol_not_verified by (cases q) (auto simp: verifier_begin_def)
    qed
  qed
qed

lemma machine_ok_step:
  assumes "verifier_step svc pf vp ports m n" "machine_ok m"
  shows "machine_ok n"
  using assms(1)
proof cases
  case (create pid drawn now r s)
  have ok: "sessions_ok (vma_store m)" using assms(2) by (simp add: machine_ok_def)
  show ?thesis
    by (rule machine_ok_less [OF assms(2)]) (use create_keeps [OF create(2)] ok in \<open>simp_all add: create(1) active_sessions_def\<close>)
next
  case (begin_throws sid body clk e s)
  with begin_result [OF begin_throws(2)] assms(2) show ?thesis by (simp add: machine_ok_def active_sessions_def)
next
  case (begin_decided sid body clk x v s)
  with begin_result [OF begin_decided(2)] assms(2) show ?thesis by (simp add: machine_ok_def active_sessions_def)
next
  case (begin_waits sid body clk x p token s)
  obtain st where c: "vst_sessions (vma_store m) sid = Some x" "store_consume vp sid st (vti_consume clk) (vma_store m) = (True, s)"
    using begin_result [OF begin_waits(2)] by auto
  have i: "vse_sessionId x = sid" using c(1) assms(2) by (simp add: machine_ok_def sessions_ok_def)
  have a: "active_sessions n = add_mset sid (active_sessions m)" by (simp add: begin_waits(1) active_sessions_def i)
  have k: "\<not> consumed_in (vma_store m) sid" "consumed_in s sid" "sessions_ok s" "\<And>j. consumed_in (vma_store m) j \<Longrightarrow> consumed_in s j"
    using consume_keeps [OF c(2)] assms(2) by (auto simp: machine_ok_def)
  have "count (active_sessions n) j \<le> (if consumed_in s j then 1 else 0)" for j
    using assms(2) k(1,2) k(4) [of j] unfolding machine_ok_def a by (cases "j = sid") (fastforce split: if_splits)+
  with k(3) show ?thesis by (simp add: machine_ok_def begin_waits(1))
next
  case (verified as x p token bs millis w v w')
  have "count (active_sessions n) j \<le> count (active_sessions m) j" for j
    by (auto simp: verified(1) active_sessions_def verified(2))
  then show ?thesis by (rule machine_ok_less [OF assms(2), rotated 2]) (use assms(2) in \<open>simp_all add: verified(1) machine_ok_def\<close>)
next
  case (finished as x v bs rid now r s)
  have r: "vrc_sessionId r = vse_sessionId x" "vrc_result r = vd_result v" "s = store_complete (vse_sessionId x) r (vma_store m)"
    using finished(3) by (auto simp: verifier_finish_Inr receipt_of_def)
  have "active_sessions n = active_sessions m" by (auto simp: finished(1) active_sessions_def finished(2) r(1,2))
  moreover have "sessions_ok (vma_store m)" using assms(2) by (simp add: machine_ok_def)
  ultimately show ?thesis
    by (intro machine_ok_less [OF assms(2)]) (simp_all add: finished(1) r(3) complete_keeps)
next
  case (finish_throws as x v bs rid now e s)
  have s: "s = vma_store m" using finish_throws(3) by (auto simp: verifier_finish_def Let_def split: sum.splits)
  have "count (active_sessions n) j \<le> count (active_sessions m) j" for j
    by (auto simp: finish_throws(1) active_sessions_def finish_throws(2))
  then show ?thesis by (rule machine_ok_less [OF assms(2), rotated 2]) (use assms(2) in \<open>simp_all add: finish_throws(1) s machine_ok_def\<close>)
qed

lemma machine_ok_run: "(verifier_step svc pf vp ports)\<^sup>*\<^sup>* m n \<Longrightarrow> machine_ok m \<Longrightarrow> machine_ok n"
  by (induction rule: rtranclp_induct) (blast intro: machine_ok_step)+

lemma new_machine_ok: "machine_ok new_machine"
  by (simp add: machine_ok_def new_machine_def active_sessions_def sessions_ok_def)

text \<open>
  C12: In every interleaving of the segments of any number of calls, with the ports in any
  state, at most one verified receipt is handed out per session, and that session is consumed.
\<close>

theorem one_verified_receipt:
  assumes "(verifier_step svc pf vp ports)\<^sup>*\<^sup>* new_machine m"
  shows "distinct (map vrc_sessionId (filter (\<lambda>r. vrc_result r = decision_kind.Verified) (vma_issued m)))
    \<and> (\<forall>r\<in>set (vma_issued m). vrc_result r = decision_kind.Verified \<longrightarrow>
        (\<exists>x. vst_sessions (vma_store m) (vrc_sessionId r) = Some x \<and> vse_status x = Session_consumed))"
proof -
  let ?xs = "map vrc_sessionId (filter (\<lambda>r. good (vrc_result r)) (vma_issued m))"
  have ok: "machine_ok m" by (rule machine_ok_run [OF assms new_machine_ok])
  have c: "count (mset ?xs) i \<le> (if consumed_in (vma_store m) i then 1 else 0)" for i
  proof -
    have "count (mset ?xs) i \<le> count (active_sessions m) i" by (simp add: active_sessions_def)
    also have "\<dots> \<le> (if consumed_in (vma_store m) i then 1 else 0)" using ok by (simp add: machine_ok_def)
    finally show ?thesis .
  qed
  have "distinct ?xs"
  proof (rule distinct_of_count)
    fix i
    show "count (mset ?xs) i \<le> 1" using c [of i] by (cases "consumed_in (vma_store m) i") simp_all
  qed
  moreover have "consumed_in (vma_store m) (vrc_sessionId r)" if "r \<in> set (vma_issued m)" "good (vrc_result r)" for r
  proof -
    have "vrc_sessionId r \<in># mset ?xs" using that by auto
    then have "0 < count (mset ?xs) (vrc_sessionId r)" by (simp only: count_greater_zero_iff)
    moreover have "count (mset ?xs) (vrc_sessionId r) = 0" if "\<not> consumed_in (vma_store m) (vrc_sessionId r)"
      using c [of "vrc_sessionId r"] that by simp
    ultimately show ?thesis by (metis less_irrefl)
  qed
  ultimately show ?thesis by (auto simp: consumed_in_def)
qed

section \<open>The first receipt stays\<close>

text \<open>
  A second response for a session whose first response is still being verified is refused as
  a replay, and the receipt of this refusal is attached to the session.  The receipt of the
  first response is then handed out, and can be fetched by its identifier, but the session
  keeps the refusal, also when the first response is verified.
\<close>

theorem replay_takes_the_receipt:
  assumes "verifier_begin svc pf vp sid body clk s = (Inr (x, Inr (p, token)), s1)" "vse_receipt x = None"
    and "verifier_begin svc pf vp sid body clk2 s1 = (Inr (x2, Inl v2), s2)" "verifier_finish vp x2 v2 rid2 now2 s2 = (Inr r2, s3)"
    and "verifier_finish vp x v rid now s3 = (Inr r, s4)" "vse_sessionId x = sid"
  shows "\<exists>y. vst_sessions s4 sid = Some y \<and> vse_receipt y = Some r2 \<and> vrc_result r2 \<noteq> decision_kind.Verified \<and> vst_receipts s4 rid = Some r"
proof -
  obtain st where c: "vst_sessions s sid = Some x" "store_consume vp sid st (vti_consume clk) s = (True, s1)"
    using begin_result [OF assms(1)] by auto
  have s1: "vst_sessions s1 sid = Some (x\<lparr>vse_status := Session_consumed\<rparr>)" using c by (auto simp: store_consume_True)
  have s2: "s2 = s1" "\<not> good (vd_result v2)" using begin_result [OF assms(3)] by auto
  have x2: "x2 = x\<lparr>vse_status := Session_consumed\<rparr>"
    using assms(3) s1 by (auto simp: verifier_begin_def split: if_splits option.splits prod.splits sum.splits)
  have r2: "r2 = receipt_of vp x2 v2 rid2 now2" "s3 = store_complete (vse_sessionId x2) r2 s2" using assms(4) by (simp_all add: verifier_finish_Inr)
  have s3: "vst_sessions s3 sid = Some (x2\<lparr>vse_receipt := Some r2\<rparr>)"
    using s1 assms(2,6) by (simp add: r2(2) s2(1) store_complete_sessions x2)
  have r: "vrc_receiptId r = rid" "s4 = store_complete sid r s3" using assms(5,6) by (simp_all add: verifier_finish_Inr receipt_of_def)
  have "vst_sessions s4 sid = Some (x2\<lparr>vse_receipt := Some r2\<rparr>)" by (simp add: r(2) store_complete_sessions s3)
  moreover have "vrc_result r2 \<noteq> decision_kind.Verified" using s2(2) r2(1) by (simp add: receipt_of_def)
  moreover have "vst_receipts s4 rid = Some r" using r by (auto simp: store_complete_def Let_def split: option.splits)
  ultimately show ?thesis by auto
qed

section \<open>One verification\<close>

definition ex_vpolicy :: verification_policy where
  "ex_vpolicy = \<lparr>vpo_schemaVersion = 1, vpo_policyId = ''p1'', vpo_tenantId = ''t1'', vpo_jurisdiction = ''EU'', vpo_format = ''sd-jwt-vc'',
     vpo_profile = ''draft-ietf-oauth-sd-jwt-vc-16'', vpo_version = ''16'', vpo_schemaId = ''age'', vpo_credentialTypes = [''Age''],
     vpo_requestedClaims = [\<lparr>crq_name = ''age'', crq_equals = Some (Claim_bool True)\<rparr>], vpo_requireHolderBinding = True, vpo_acceptedIssuers = None\<rparr>"

definition ex_verifier_options :: verifier_options where
  "ex_verifier_options = \<lparr>vop_policies = [ex_vpolicy], vop_clientId = ''v'', vop_responseUri = ''https://i.example/r'', vop_sessionTtlSeconds = None\<rparr>"

definition ex_service :: verifier_service where
  "ex_service = \<lparr>vsv_policies = [''p1'' \<mapsto> ex_vpolicy], vsv_clientId = ''v'', vsv_responseUri = ''https://i.example/r'', vsv_ttl = 300\<rparr>"

definition ex_vclock :: verifier_platform where
  "ex_vclock = \<lparr>vpf_iso = show_int, vpf_parse = (\<lambda>t. Some 300000)\<rparr>"

definition ex_verify_times :: verify_times where
  "ex_verify_times = \<lparr>vti_start = 150000, vti_consume = 150000, vti_evaluate = 150000, vti_finish = 150000\<rparr>"

definition ex_presentation :: "jsval resolved_presentation" where
  "ex_presentation = \<lparr>rpr_artifact = ex_artifact, rpr_verificationInput = JNull, rpr_disclosures = [''age''],
     rpr_metadata = \<lparr>pmd_issuerId = ''did:ex:i'', pmd_schemaId = ''age'', pmd_keyId = ''k1'', pmd_statusId = ''st1'', pmd_issuedAt = 20, pmd_expiresAt = 1000\<rparr>\<rparr>"

definition ex_verifier_ports :: "(unit, unit, jsval, unit registry_cache) verifier_ports" where
  "ex_verifier_ports = \<lparr>vpt_formats = projr (new_adapter_registry ex_adapters), vpt_registry = evaluateCredential ex_source TrustRegistryProps.ex_verifier,
     vpt_resolve = (\<lambda>t a n w. (Inr ex_presentation, w))\<rparr>"

definition ex_vrun :: "unit registry_cache" where
  "ex_vrun = registry_run ex_source TrustRegistryProps.ex_verifier [(Prime (ex_value 2), Whole 120)] (new_registry ())"

lemma ex_vpolicy_wf: "policy_wf ex_vpolicy"
proof -
  have "format_descriptor ''sd-jwt-vc'' = Some (the (format_descriptor ''sd-jwt-vc''))" by (simp add: format_descriptor_def)
  moreover have "opaque_id ''p1''" "opaque_id ''t1''" "opaque_id ''EU''" "claim_name ''age''" by code_simp+
  ultimately show ?thesis by (simp add: policy_wf_def ex_vpolicy_def format_descriptor_def)
qed

lemma ex_new_verifier: "new_verifier ex_verifier_options = Inr ex_service"
proof -
  have "parseVerificationPolicy ex_vpolicy = Inr ex_vpolicy" using ex_vpolicy_wf by (simp add: parse_policy_Inr)
  moreover have "vpo_policyId ex_vpolicy = ''p1''" by (simp add: ex_vpolicy_def)
  ultimately show ?thesis by (simp add: new_verifier_def ex_verifier_options_def ex_service_def safe_integer_def)
qed

lemma ex_vports: "new_adapter_registry ex_adapters = Inr (vpt_formats ex_verifier_ports)"
  "vpt_registry ex_verifier_ports = evaluateCredential ex_source TrustRegistryProps.ex_verifier"
  "\<forall>t a n w. rg_entries (snd (vpt_resolve ex_verifier_ports t a n w)) = rg_entries w"
proof -
  obtain m where "new_adapter_registry ex_adapters = Inr m" using ex_registry by blast
  then show "new_adapter_registry ex_adapters = Inr (vpt_formats ex_verifier_ports)" by (simp add: ex_verifier_ports_def)
qed (simp_all add: ex_verifier_ports_def)

lemma ex_formats_verify: "\<exists>r. registry_verify (vpt_formats ex_verifier_ports) \<lparr>fs_format = vpo_format ex_vpolicy, fs_profile = vpo_profile ex_vpolicy, fs_version = vpo_version ex_vpolicy\<rparr>
    ex_artifact JNull = Inr r \<and> fr_verified r \<and> fr_issuer r = Some ''did:ex:i'' \<and> fr_types r = [''Age''] \<and> fr_holderBound r \<and> fr_disclosed r = [(''age'', JBool True)]"
  using ex_vports(1)
  by (auto simp: new_adapter_registry_def ex_adapters_def format_names_def format_descriptor_def register_adapter_def matches_pin_def port_adapter_def
    Let_def registry_verify_def registry_get_def ex_vpolicy_def ex_artifact_def assertSelection_def port_verify_def port_check_def assertEnvelope_def
    assertValue_def value_bytes_def port_inspect_def ex_format_port_def ex_inspection_def assertFormatInspection_def verified_result_def or_else_def nonempty_text_def
    dest!: sym [of _ "vpt_formats ex_verifier_ports"])

lemma ex_evaluate: "\<exists>v w. evaluate_presentation ex_verifier_ports ex_vpolicy ex_presentation 150000 ex_vrun = (Inr v, w) \<and> vd_result v = decision_kind.Verified"
proof -
  obtain r where r: "registry_verify (vpt_formats ex_verifier_ports) \<lparr>fs_format = vpo_format ex_vpolicy, fs_profile = vpo_profile ex_vpolicy, fs_version = vpo_version ex_vpolicy\<rparr>
      ex_artifact JNull = Inr r" "fr_verified r" "fr_issuer r = Some ''did:ex:i''" "fr_types r = [''Age'']" "fr_holderBound r" "fr_disclosed r = [(''age'', JBool True)]"
    using ex_formats_verify by blast
  have f: "artifact_fits ex_vpolicy ex_artifact" by (simp add: artifact_fits_def ex_vpolicy_def ex_artifact_def)
  have c: "policy_checks ex_vpolicy (rpr_metadata ex_presentation) r 150 = None"
    by (simp add: policy_checks_def ex_vpolicy_def ex_presentation_def r safe_integer_def claim_holds_def claim_value_js_def)
  have q: "registry_request ex_vpolicy (rpr_metadata ex_presentation) = TrustRegistryProps.ex_request"
    by (simp add: registry_request_def ex_vpolicy_def ex_presentation_def TrustRegistryProps.ex_request_def TrustRegistryProps.ex_scope_def)
  have p: "rpr_artifact ex_presentation = ex_artifact" "rpr_verificationInput ex_presentation = JNull" by (simp_all add: ex_presentation_def)
  obtain d w where d: "evaluateCredential ex_source TrustRegistryProps.ex_verifier TrustRegistryProps.ex_request (Whole 150) ex_vrun = (Inr d, w)" "rd_decision d = decision_kind.Verified"
    using TrustRegistryProps.ex_sound by (fastforce simp: ex_vrun_def)
  show ?thesis
    by (simp add: evaluate_presentation_def f p r(1,2) c q ex_vports(2) d registry_verdict_def)
qed

definition ex_drawn :: "string \<times> string \<times> string" where
  "ex_drawn = (''sess1'', ''s1'', ''n1'')"

definition ex_vsession :: verification_session where
  "ex_vsession = session_of ex_service ex_vclock ex_vpolicy ''p1'' ex_drawn (projr (session_request ex_service ex_oid ex_vpolicy ex_drawn)) 0"

definition ex_store1 :: verifier_store where
  "ex_store1 = \<lparr>vst_sessions = [''sess1'' \<mapsto> ex_vsession], vst_receipts = Map.empty\<rparr>"

lemma ex_request_built: "\<exists>rq. session_request ex_service ex_oid ex_vpolicy ex_drawn = Inr rq \<and> vp_state rq = ''s1'' \<and> vp_client_id rq = ''v'' \<and> vp_nonce rq = ''n1''"
proof -
  have "\<exists>q. policyToDcql ex_vpolicy = Inr q" using ex_vpolicy_wf by (simp add: policyToDcql_def parse_policy_Inr bindE_Inr)
  then show ?thesis
    by (auto simp: session_request_def ex_drawn_def throw_vp_def buildOpenId4VpRequest_def ex_service_def https_origin_def ex_oid_def has_prefix_def)
qed

lemma ex_vsession_facts: "vse_sessionId ex_vsession = ''sess1''" "vse_state ex_vsession = ''s1''" "vse_status ex_vsession = Session_requested"
  "vse_policyId ex_vsession = ''p1''" "vp_state (vse_request ex_vsession) = ''s1''" "vse_receipt ex_vsession = None"
  using ex_request_built by (auto simp: ex_vsession_def session_of_def ex_drawn_def)

lemma ex_vcreated: "createVerificationSession ex_service ex_oid ex_vclock ''p1'' ex_drawn 0 (vma_store new_machine) = (Inr ex_vsession, ex_store1)"
proof -
  obtain rq where rq: "session_request ex_service ex_oid ex_vpolicy ex_drawn = Inr rq" using ex_request_built by blast
  have "safe_ids ex_drawn = Inr ()" by code_simp
  moreover have "vsv_policies ex_service ''p1'' = Some ex_vpolicy" by (simp add: ex_service_def)
  ultimately show ?thesis
    using rq ex_vsession_facts(1) by (simp add: createVerificationSession_def pure_then bindS_def Let_def store_create_def new_machine_def ex_store1_def
      ex_vsession_def [symmetric] ex_vsession_def [unfolded rq, simplified, symmetric])
qed

lemma ex_begin: "verifier_begin ex_service ex_oid ex_vclock ''sess1'' (Body_text ''t'') ex_verify_times ex_store1
    = (Inr (ex_vsession, Inr (ex_vpolicy, ''t'')), ex_store1\<lparr>vst_sessions := [''sess1'' \<mapsto> ex_vsession\<lparr>vse_status := Session_consumed\<rparr>]\<rparr>)"
proof -
  have "\<not> past ex_vclock t 150000" for t by (simp add: past_def ex_vclock_def)
  then show ?thesis
    by (simp add: verifier_begin_def ex_store1_def ex_vsession_facts ex_verify_times_def ex_service_def direct_post_begin_def direct_post_fields_def required_param_def
      unique_param_def all_values_def body_params_def ex_oid_def store_consume_def Let_def)
qed

lemma ex_middle: "\<exists>v w. verifier_middle ex_verifier_ports ex_vsession ex_vpolicy ''t'' 150000 ex_vrun = (v, w) \<and> vd_result v = decision_kind.Verified"
proof -
  obtain v w where v: "evaluate_presentation ex_verifier_ports ex_vpolicy ex_presentation 150000 ex_vrun = (Inr v, w)" "vd_result v = decision_kind.Verified"
    using ex_evaluate by blast
  have "vpt_resolve ex_verifier_ports t a n ex_vrun = (Inr ex_presentation, ex_vrun)" for t a n by (simp add: ex_verifier_ports_def)
  moreover have "disclosures_match (Some (map crq_name (vpo_requestedClaims ex_vpolicy))) (rpr_disclosures ex_presentation)"
    by (simp add: disclosures_match_def ex_vpolicy_def ex_presentation_def)
  ultimately show ?thesis using v by (simp add: verifier_middle_def)
qed

lemma ex_receipt_id: "safeId ''r1'' = Inr ''r1''"
  by code_simp

lemma ex_response: "\<exists>r z. verifyResponse ex_service ex_oid ex_vclock ex_verifier_ports ''sess1'' (Body_text ''t'') ex_verify_times ''r1'' (ex_store1, ex_vrun) = (Inr r, z)
    \<and> vrc_result r = decision_kind.Verified"
proof -
  obtain v w where v: "verifier_middle ex_verifier_ports ex_vsession ex_vpolicy ''t'' 150000 ex_vrun = (v, w)" "vd_result v = decision_kind.Verified"
    using ex_middle by blast
  have "vti_evaluate ex_verify_times = 150000" by (simp add: ex_verify_times_def)
  with v show ?thesis
    by (simp add: verify_response_segments ex_begin verifier_finish_def ex_receipt_id Let_def receipt_of_def)
qed

theorem verified_receipt_sound_witness:
  "\<exists>r z p pres dec. verifyResponse ex_service ex_oid ex_vclock ex_verifier_ports ''sess1'' (Body_text ''t'') ex_verify_times ''r1'' (ex_store1, ex_vrun) = (Inr r, z)
     \<and> vrc_result r = decision_kind.Verified \<and> policy_wf p
     \<and> trusted_by TrustRegistryProps.ex_verifier (registry_request p (rpr_metadata (pres :: jsval resolved_presentation))) 150 dec"
proof -
  obtain r z where r: "verifyResponse ex_service ex_oid ex_vclock ex_verifier_ports ''sess1'' (Body_text ''t'') ex_verify_times ''r1'' (ex_store1, ex_vrun) = (Inr r, z)"
      "vrc_result r = decision_kind.Verified" using ex_response by blast
  have "vti_evaluate ex_verify_times div 1000 = 150" by (simp add: ex_verify_times_def)
  with verified_receipt_sound [OF ex_new_verifier ex_vports(1) ex_factory ex_vports(2,3) r(1) [unfolded ex_vrun_def] r(2)] r show ?thesis by metis
qed

lemma ex_machine_run: "\<exists>m. (verifier_step ex_service ex_oid ex_vclock ex_verifier_ports)\<^sup>*\<^sup>* new_machine m \<and> (\<exists>r. vma_issued m = [r] \<and> vrc_result r = decision_kind.Verified
    \<and> vrc_sessionId r = ''sess1'')"
proof -
  let ?step = "verifier_step ex_service ex_oid ex_vclock ex_verifier_ports"
  let ?s2 = "ex_store1\<lparr>vst_sessions := [''sess1'' \<mapsto> ex_vsession\<lparr>vse_status := Session_consumed\<rparr>]\<rparr>"
  let ?m1 = "new_machine\<lparr>vma_store := ex_store1\<rparr>"
  let ?m2 = "?m1\<lparr>vma_store := ?s2, vma_pending := [(ex_vsession, ex_vpolicy, ''t'')]\<rparr>"
  obtain v w where v: "verifier_middle ex_verifier_ports ex_vsession ex_vpolicy ''t'' 150000 ex_vrun = (v, w)" "vd_result v = decision_kind.Verified"
    using ex_middle by blast
  let ?m3 = "?m2\<lparr>vma_pending := [], vma_finishing := [(ex_vsession, v)]\<rparr>"
  let ?r = "receipt_of ex_vclock ex_vsession v ''r1'' 150000"
  let ?m4 = "?m3\<lparr>vma_store := store_complete ''sess1'' ?r ?s2, vma_finishing := [], vma_issued := [?r]\<rparr>"
  have a: "?step new_machine ?m1" by (rule verifier_step.create [OF ex_vcreated])
  have b: "?step ?m1 ?m2"
  proof -
    have "verifier_begin ex_service ex_oid ex_vclock ''sess1'' (Body_text ''t'') ex_verify_times (vma_store ?m1) = (Inr (ex_vsession, Inr (ex_vpolicy, ''t'')), ?s2)"
      using ex_begin by simp
    from verifier_step.begin_waits [where m = ?m1 and ports = ex_verifier_ports, OF this] show ?thesis by (simp add: new_machine_def)
  qed
  have c: "?step ?m2 ?m3"
    using verifier_step.verified [of ?m2 "[]" ex_vsession ex_vpolicy "''t''" "[]"] v(1) by (simp add: new_machine_def)
  have f: "verifier_finish ex_vclock ex_vsession v ''r1'' 150000 (vma_store ?m3) = (Inr ?r, store_complete ''sess1'' ?r ?s2)"
    by (simp add: verifier_finish_def ex_receipt_id Let_def ex_vsession_facts)
  have d: "?step ?m3 ?m4"
    using verifier_step.finished [of ?m3 "[]" ex_vsession v "[]", OF _ f] by (simp add: new_machine_def)
  have "?step\<^sup>*\<^sup>* new_machine ?m4"
    using a b c d by (meson converse_rtranclp_into_rtranclp r_into_rtranclp)
  then show ?thesis using v(2) by (intro exI [of _ ?m4]) (simp add: receipt_of_def ex_vsession_facts)
qed

theorem one_verified_receipt_witness:
  "\<exists>m r x. (verifier_step ex_service ex_oid ex_vclock ex_verifier_ports)\<^sup>*\<^sup>* new_machine m \<and> vma_issued m = [r] \<and> vrc_result r = decision_kind.Verified
     \<and> vst_sessions (vma_store m) ''sess1'' = Some x \<and> vse_status x = Session_consumed"
proof -
  obtain m r where m: "(verifier_step ex_service ex_oid ex_vclock ex_verifier_ports)\<^sup>*\<^sup>* new_machine m" "vma_issued m = [r]" "vrc_result r = decision_kind.Verified"
      "vrc_sessionId r = ''sess1''" using ex_machine_run by blast
  with one_verified_receipt [OF m(1)] show ?thesis by auto
qed

end
