(* ===== verification/Spec2Isabelle.thy ===== *)
theory Spec2Isabelle
  imports SignerPolicyProps IssuerSignerProps EmailAuthProps PasskeyAuthProps TrustRegistryText AccountAdapterProps CredentialDomainProps IssuanceTrust WalletPortabilityProps
    CredentialScannerProps OfflineScannerProps VerifierServiceProps
begin

text \<open>
  \<^bold>\<open>The program.\<close>  The universal smart wallet is a TypeScript monorepo: packages that hold the
  logic of wallets, issuers and verifiers of credentials, and applications that expose them
  over HTTP or in a user interface.  This library models the packages that decide something:
  who may use a signer, whether an institution may sign, whether a code, a passkey or a
  registry snapshot is accepted, when control over an account moves, and when a credential
  is issued.  Each package under \<open>src/packages/\<close> is one component with a theory for its
  definitions, named after the package, and a theory \<open>...Props\<close> with its theorems.

  \<^bold>\<open>Shared theories.\<close>
  \<^item> \<open>Prelude\<close>: results with an error branch (\<open>bindE\<close>, \<open>mapE\<close>, \<open>forE\<close>), methods that write to
    their object and may throw (\<open>meth\<close>, \<open>bindS\<close>, \<open>catchS\<close>; writes made before a throw stay, as in
    JavaScript) with a small calculus of triples, safe integers, the string classes of the
    regular expressions, NUL-joined keys, decimal numerals, insertion-ordered maps.
  \<^item> \<open>Interfaces\<close>: the locales \<open>one_shot\<close> (an identifier is consumed at most once in any
    interleaving of calls) and \<open>scoped_key\<close> (what is written in one tenant or scope is not read in
    another); each is interpreted on the definitions of the components that promise it.
  \<^item> \<open>JsValue\<close>: values of static type \<open>unknown\<close> and the JSON text the code writes.

  \<^bold>\<open>Components.\<close>
  \<^item> \<open>SignerPolicy\<close> (\<open>signer-policy/src/index.ts\<close>): policies, sessions, the in-memory store with
    its reservation of requests and frequency windows, the evaluator \<open>authorize\<close>, and the same
    evaluator cut at its awaits as threads that interleave.  Theorems: what an allow decision
    implies, step-up, counts and amounts per window, one grant per request in any interleaving,
    a refinement of the sequential evaluator by the threads.
  \<^item> \<open>IssuerSigner\<close> (\<open>issuer-signer/src/index.ts\<close>): the client of the key service with dual
    approval, audit, operation ledger, ambiguous results and the development key service.
    Theorems: approval and reservation before any key use, audit of signatures, no retry of
    unresolved operations, life cycle of keys.
  \<^item> \<open>EmailAuth\<close> (\<open>auth-email/src/index.ts\<close>): one-time codes, sessions, rate limits, change of
    address, each call also cut into its segments at the awaits, with the cleanup after a failed
    delivery.  Theorems: one success per code in any interleaving, bounded attempts, soundness
    of sessions, consistency of the subject index, uniformity of the codes.
  \<^item> \<open>PasskeyAuth\<close> (\<open>auth-passkey/src/index.ts\<close>): ceremonies, challenges, credentials.  Theorems:
    what an accepted assertion implies, that a revoked credential is refused in every later
    call when calls do not overlap, and that revocation can be lost when they do.
  \<^item> \<open>TrustRegistry\<close>, \<open>TrustRegistryProps\<close>, \<open>TrustRegistryText\<close> (\<open>trust-registry/src/index.ts\<close>):
    snapshots parsed from untrusted values, their canonical signed text, the cache with its
    rollback check, evaluation of issuers, keys and status.  Theorems: exactly which snapshots
    the parser accepts and reads back, injectivity of the signed text, soundness of positive decisions, monotone sequence numbers.
  \<^item> \<open>AccountAdapter\<close> (\<open>account-adapter/src/index.ts\<close>): guardian recovery, ERC-7579 modules,
    deployment checks, user operations.  Theorems: rotation needs quorum and timelock, modules
    match the pinned policy, an operation is sent at most once, the polling loop ends.
  \<^item> \<open>CredentialDomain\<close> (\<open>credential-domain/src/index.ts\<close>): attestations and their signed text,
    challenges with the replay store, base 64 coding, issuer trust bundles, the status cache and
    its host guard, templates and issuer profiles.  Theorems: one acceptance per challenge,
    round trips of the challenge coding and of templates, soundness of positive status.
  \<^item> \<open>IssuerService\<close> (\<open>issuer-service/src/index.ts\<close>): templates, issuers, reviewer policies,
    sessions with their reviews, offers, grants, access tokens, issuance and status.
    \<open>IssuerServiceGrants\<close> holds the locales of the frames (what a segment leaves unchanged) and
    the single use of grants and tokens in any interleaving; \<open>IssuerServiceProps\<close> the life of a
    session and what an issued credential rests on; \<open>IssuerServiceRaces\<close> the witnesses and three
    schedules or requests the code should refuse; \<open>IssuanceTrust\<close> puts the caching registry
    behind the service and follows an issued credential to an attested snapshot.
  \<^item> \<open>CredentialVault\<close> (\<open>credential-vault/src/index.ts\<close>): envelopes, the PRF capability,
    backups and both stores; what a store or a backup gives back is an untrusted value, read
    property by property as the code reads it.  \<open>CredentialVaultProps\<close>: round trips of
    envelopes, entries and backups, the outcome of migrations, the agreement of the stores on
    every script of their operations.
  \<^item> \<open>PlatformTypes\<close> (\<open>platform-types/src/index.ts\<close>): field checks, contract parsers, wallet
    locators and \<open>serializeCanonical\<close>.  \<open>PlatformTypesProps\<close>: what a text determines, which
    values have one and how long it is, the tenant binding, the types of the fields of parsed
    contracts, and that exactly the contracts with such fields are accepted.
  \<^item> \<open>WalletPortability\<close> (\<open>wallet-portability/src/index.ts\<close>), over the vault's envelopes and
    the canonical serialisation: the exported state, bundles, export, opening, import with
    rollback, vendor rotation, each with the calls it makes to the ports.
    \<open>WalletPortabilityProps\<close>: what opening guarantees, that the checks on a state do not see
    the order of its properties, the way there and back with a concrete export, outcomes of import and rotation, three behaviours the code should not have.
  \<^item> \<open>JsonReader\<close>, \<open>OfflineScanner\<close> (\<open>credential-scanner/src/offline/index.ts\<close>) and
    \<open>CredentialScanner\<close> (\<open>credential-scanner/src/index.ts\<close>): the strict JSON readers of both files
    as one reader with two sets of rules, signed offline envelopes, their verification with its
    ports, the trust and status cache, scanned texts and QR codes and the two replay boundaries.
    Theorems: the reader always answers and what it reads is unambiguous, an envelope is read
    back and verifies, a verified result rests on signature, freshness and snapshot, nothing is
    accepted twice, the cache never goes back, what an accepted scan guarantees.
  \<^item> \<open>CredentialFormats\<close> (\<open>credential-formats/src/index.ts\<close>): pinned descriptors, the adapter
    over a port, the SD-JWT VC port, the registry.  \<open>CredentialFormatsProps\<close>: every pinned format
    is served, a verified result has passed the checks of its pin; the pins of the issuer
    service are the same table.
  \<^item> \<open>OpenId4Vc\<close> (\<open>openid4vc/src/index.ts\<close>): presentation requests and responses, issuer
    metadata and offers, the three calls of an issuance with the requests they send.
    \<open>OpenId4VcProps\<close>: soundness of parsed requests and accepted responses, what the verifier
    builds is parsed back, an issuance stays on its issuer's origin and verifies before it stores.
  \<^item> \<open>VerifierService\<close> (\<open>verifier-service/src/index.ts\<close>), over \<open>OpenId4Vc\<close>, \<open>CredentialFormats\<close> and
    \<open>TrustRegistry\<close>: policies, sessions and receipts, the evaluation of presentations, the
    verification of a response and its segments.  \<open>VerifierServiceProps\<close>: what a verified receipt
    rests on through all three packages, the segments compose to the call, one verified
    receipt per session in any interleaving, and the refusal that takes its place.

  \<^bold>\<open>Conventions.\<close>  A class is a record of its private fields and every method a function from
  that state to a result and a new state.  An \<open>async\<close> method whose awaits matter is cut into
  the segments that run without interruption, and theorems about interleavings quantify over
  all sequences of segments.  A JavaScript \<open>Map\<close> is a map, or an association list where its
  order is read.  Numbers are integers with the source's \<open>isSafeInteger\<close> checks.  The times the
  code compares without checking them first (of signer sessions and evidence, of registry
  requests, of the clock at the opening of a bundle) and the block numbers of a recovery are of
  type \<open>js_number\<close>, where \<open>Not_a_number\<close> is a value and every comparison with it is false; the
  other unchecked times, those a service reads from its own clock, are integers, so NaN is left
  out there.  Strings are lists of code units below 256.  Hash functions, signature verifiers, key services, transports,
  clocks, random sources, the URL and JSON parsers of the platform and every interface the
  code calls a port are arguments of the definitions that use them; a theorem states what it
  needs of them as hypotheses, and its witness gives concrete ones.

  \<^bold>\<open>Bounds and loops.\<close>  Loops over lists are structural recursion.  The polling loop of
  \<open>submitUserOperation\<close> may run forever and is a partial function whose value \<open>None\<close> means just
  that; \<open>submission_returns\<close> shows it returns when the clock advances.  The strict JSON reader
  has fuel, twice the length of its text and two more; \<open>strict_reader_answers\<close> shows that it
  never runs out.

  \<^bold>\<open>Not modelled.\<close>  User interfaces, demonstration and documentation applications, HTTP clients,
  the Solidity contracts, and adapters that only call third-party cryptography or protocol
  libraries.  Next in the plan: self-issued
  credentials, the HTTP routes of the issuer service and the platform store.
\<close>

end
